(* ===== verification/Prelude.thy ===== *)
theory Prelude
  imports Main "HOL-Library.Word"
begin

text \<open>
  Shared ground of the development: machine integers at their C widths, bounded reads and
  writes of C arrays with their failures as values, the host/network byte order conversions
  of a little-endian host, the contract of a fixed-width byte codec and the contract of a
  state machine with an invariant. Every component theory imports this one.
\<close>

unbundle bit_operations_syntax

section \<open>Machine integers and faults\<close>

type_synonym u8 = "8 word"
type_synonym u16 = "16 word"
type_synonym u32 = "32 word"

text \<open>
  What C leaves undefined is an explicit failure of the model: a read or write outside an
  array, a dereference of a null pointer, a use of memory that was never written, a division by
  zero, a use of freed memory, freeing memory that was not allocated, a copy whose length
  argument wrapped around, and a shift by a count that is not less than the width.
\<close>

datatype c_fault =
    OutOfBounds | NullDeref | Uninitialised | BadLength | DivByZero | UseAfterFree | BadFree | BadShift

type_synonym 'a result = "c_fault + 'a"

text \<open>Addresses of heap objects, and the error numbers of the C library.\<close>

type_synonym addr = nat

definition ENOENT :: int where "ENOENT = 2"
definition EIO :: int where "EIO = 5"
definition ENXIO :: int where "ENXIO = 6"
definition ENOMEM :: int where "ENOMEM = 12"
definition ENODEV :: int where "ENODEV = 19"
definition EINVAL :: int where "EINVAL = 22"
definition EOPNOTSUPP :: int where "EOPNOTSUPP = 95"
definition EAFNOSUPPORT :: int where "EAFNOSUPPORT = 97"
definition ENOBUFS :: int where "ENOBUFS = 105"
definition EALREADY :: int where "EALREADY = 114"
definition EINPROGRESS :: int where "EINPROGRESS = 115"

text \<open>A number in decimal digits.\<close>

fun show_nat :: "nat \<Rightarrow> string" where
  "show_nat n = (if n < 10 then [char_of (48 + n)] else show_nat (n div 10) @ [char_of (48 + n mod 10)])"

declare show_nat.simps [simp del]

text \<open>
  Sequencing: a fault ends the computation, and so does a loop that does not end (the outer
  \<^const>\<open>None\<close> of a \<open>diverging\<close> computation).
\<close>

type_synonym 'a diverging = "'a result option"

definition bind_r :: "'a result \<Rightarrow> ('a \<Rightarrow> 'b result) \<Rightarrow> 'b result" where
  "bind_r m f = (case m of Inl e \<Rightarrow> Inl e | Inr x \<Rightarrow> f x)"

definition bind_d :: "'a diverging \<Rightarrow> ('a \<Rightarrow> 'b diverging) \<Rightarrow> 'b diverging" where
  "bind_d m f = (case m of None \<Rightarrow> None | Some (Inl e) \<Rightarrow> Some (Inl e) | Some (Inr x) \<Rightarrow> f x)"

abbreviation ret_d :: "'a \<Rightarrow> 'a diverging" where "ret_d x \<equiv> Some (Inr x)"

lemma bind_r_simps [simp]:
  "bind_r (Inr x) f = f x"
  "bind_r (Inl e) f = Inl e"
  by (simp_all add: bind_r_def)

lemma bind_r_eq_Inr: "bind_r m f = Inr y \<longleftrightarrow> (\<exists>x. m = Inr x \<and> f x = Inr y)"
  by (cases m) auto

lemma bind_d_simps [simp]:
  "bind_d (ret_d x) f = f x"
  "bind_d (Some (Inl e)) f = Some (Inl e)"
  "bind_d None f = None"
  by (simp_all add: bind_d_def)

lemma bind_d_eq_ret: "bind_d m f = ret_d y \<longleftrightarrow> (\<exists>x. m = ret_d x \<and> f x = ret_d y)"
  by (auto simp: bind_d_def split: option.splits sum.splits)

text \<open>Facts that describe one step of a component, and facts that keep an invariant.\<close>

named_theorems endian \<open>byte order conversions\<close>
named_theorems keeps \<open>operations that keep a component invariant\<close>

section \<open>Arrays\<close>

definition rd :: "'a list \<Rightarrow> nat \<Rightarrow> 'a option" where
  "rd xs i = (if i < length xs then Some (xs ! i) else None)"

definition poke :: "nat \<Rightarrow> 'a list \<Rightarrow> 'a list \<Rightarrow> 'a list" where
  "poke i ys xs = take i xs @ ys @ drop (i + length ys) xs"

lemma rd_Some_iff: "rd xs i = Some v \<longleftrightarrow> i < length xs \<and> xs ! i = v"
  by (auto simp: rd_def)

lemma rd_None_iff: "rd xs i = None \<longleftrightarrow> length xs \<le> i"
  by (auto simp: rd_def)

lemma rd_in [simp]: "i < length xs \<Longrightarrow> rd xs i = Some (xs ! i)"
  by (simp add: rd_def)

lemma rd_append_left: "i < length xs \<Longrightarrow> rd (xs @ ys) i = Some (xs ! i)"
  by (simp add: rd_def nth_append)

lemma length_poke: "i + length ys \<le> length xs \<Longrightarrow> length (poke i ys xs) = length xs"
  by (simp add: poke_def)

lemma take_poke: "i + length ys \<le> length xs \<Longrightarrow> take i (poke i ys xs) = take i xs"
  by (simp add: poke_def)

lemma drop_poke:
  assumes "i + length ys \<le> n" and "n \<le> length xs"
  shows "drop n (poke i ys xs) = drop n xs"
proof -
  have "poke i ys xs = (take i xs @ ys) @ drop (i + length ys) xs" by (simp add: poke_def)
  then show ?thesis using assms by (simp only: drop_append) simp
qed

lemma nth_poke:
  assumes "i + length ys \<le> length xs" and "j < length xs"
  shows "poke i ys xs ! j = (if i \<le> j \<and> j < i + length ys then ys ! (j - i) else xs ! j)"
  using assms by (auto simp: poke_def nth_append min_def)

section \<open>Byte order\<close>

definition bytes16 :: "u16 \<Rightarrow> u8 list" where
  "bytes16 w = [ucast w, ucast (drop_bit 8 w)]"

definition of_bytes16 :: "u8 list \<Rightarrow> u16" where
  "of_bytes16 bs = ucast (bs ! 0) OR push_bit 8 (ucast (bs ! 1))"

definition bytes32 :: "u32 \<Rightarrow> u8 list" where
  "bytes32 w = [ucast w, ucast (drop_bit 8 w), ucast (drop_bit 16 w), ucast (drop_bit 24 w)]"

definition of_bytes32 :: "u8 list \<Rightarrow> u32" where
  "of_bytes32 bs = ucast (bs ! 0) OR push_bit 8 (ucast (bs ! 1)) OR
     push_bit 16 (ucast (bs ! 2)) OR push_bit 24 (ucast (bs ! 3))"

definition htons :: "u16 \<Rightarrow> u16" where
  "htons w = of_bytes16 (rev (bytes16 w))"

definition htonl :: "u32 \<Rightarrow> u32" where
  "htonl w = of_bytes32 (rev (bytes32 w))"

abbreviation (input) ntohs :: "u16 \<Rightarrow> u16" where "ntohs \<equiv> htons"
abbreviation (input) ntohl :: "u32 \<Rightarrow> u32" where "ntohl \<equiv> htonl"

text \<open>
  A codec of fixed width: every value has an encoding of the same length, and decoding is
  its inverse both ways. The laws give injectivity and the reading of a field that is
  followed by other fields, which is how the packed structs of the program are read.
\<close>

locale byte_codec =
  fixes enc :: "'a \<Rightarrow> u8 list"
    and dec :: "u8 list \<Rightarrow> 'a"
    and width :: nat
  assumes length_enc: "length (enc x) = width"
    and dec_enc: "dec (enc x) = x"
    and enc_dec: "length bs = width \<Longrightarrow> enc (dec bs) = bs"
begin

lemma enc_eq_iff: "enc x = enc y \<longleftrightarrow> x = y"
  by (metis dec_enc)

lemma dec_take: "dec (take width (enc x @ rest)) = x"
  by (simp add: length_enc dec_enc)

lemma drop_enc: "drop width (enc x @ rest) = rest"
  by (simp add: length_enc)

lemma dec_inj: "length bs = width \<Longrightarrow> length cs = width \<Longrightarrow> dec bs = dec cs \<longleftrightarrow> bs = cs"
  by (metis enc_dec)

end

lemma of_bytes16_bytes16: "of_bytes16 (bytes16 w) = w"
  by (rule bit_word_eqI)
    (auto simp: of_bytes16_def bytes16_def bit_or_iff bit_push_bit_iff bit_unsigned_iff
       bit_drop_bit_eq)

lemma of_bytes32_bytes32: "of_bytes32 (bytes32 w) = w"
proof (rule bit_word_eqI)
  fix n assume n: "n < LENGTH(32)"
  consider "n < 8" | "8 \<le> n" "n < 16" | "16 \<le> n" "n < 24" | "24 \<le> n" by linarith
  then show "bit (of_bytes32 (bytes32 w)) n = bit w n"
    using n by cases (auto simp: of_bytes32_def bytes32_def bit_or_iff bit_push_bit_iff
      bit_unsigned_iff bit_drop_bit_eq)
qed

lemma list_of_length_2: "length bs = 2 \<Longrightarrow> \<exists>a b. bs = [a, b]"
  by (auto simp: eval_nat_numeral length_Suc_conv)

lemma list_of_length_4: "length bs = 4 \<Longrightarrow> \<exists>a b c d. bs = [a, b, c, d]"
  by (auto simp: eval_nat_numeral length_Suc_conv)

lemma byte_bit_beyond: "8 \<le> n \<Longrightarrow> \<not> bit (a :: u8) n"
  using bit_imp_le_length [of a n] by auto

lemma bytes16_of_bytes16: "length bs = 2 \<Longrightarrow> bytes16 (of_bytes16 bs) = bs"
  by (drule list_of_length_2)
    (auto simp: of_bytes16_def bytes16_def bit_or_iff bit_push_bit_iff bit_unsigned_iff
       bit_drop_bit_eq byte_bit_beyond intro!: bit_word_eqI)

lemma bytes32_of_bytes32: "length bs = 4 \<Longrightarrow> bytes32 (of_bytes32 bs) = bs"
  by (drule list_of_length_4)
    (auto simp: of_bytes32_def bytes32_def bit_or_iff bit_push_bit_iff bit_unsigned_iff
       bit_drop_bit_eq byte_bit_beyond intro!: bit_word_eqI)

lemma length_bytes16 [simp]: "length (bytes16 w) = 2"
  by (simp add: bytes16_def)

lemma length_bytes32 [simp]: "length (bytes32 w) = 4"
  by (simp add: bytes32_def)

interpretation u16: byte_codec bytes16 of_bytes16 2
  by unfold_locales (simp_all add: of_bytes16_bytes16 bytes16_of_bytes16)

interpretation u32: byte_codec bytes32 of_bytes32 4
  by unfold_locales (simp_all add: of_bytes32_bytes32 bytes32_of_bytes32)

lemma htons_htons [simp, endian]: "htons (htons w) = w"
  by (simp add: htons_def bytes16_of_bytes16 of_bytes16_bytes16)

lemma htonl_htonl [simp, endian]: "htonl (htonl w) = w"
  by (simp add: htonl_def bytes32_of_bytes32 of_bytes32_bytes32)

lemma htonl_eq_iff [simp, endian]: "htonl a = htonl b \<longleftrightarrow> a = b"
  by (metis htonl_htonl)

lemma htons_eq_iff [simp, endian]: "htons a = htons b \<longleftrightarrow> a = b"
  by (metis htons_htons)

lemma htonl_0 [simp, endian]: "htonl 0 = 0"
  by (simp add: htonl_def bytes32_def of_bytes32_def)

lemma htonl_eq_0_iff [simp, endian]: "htonl a = 0 \<longleftrightarrow> a = 0"
  by (metis htonl_htonl htonl_0)

section \<open>State machines with an invariant\<close>

text \<open>
  The contract shared by the stateful components: a set of initial states, a deterministic
  step per event that may fail, and an invariant that the initial states have and every
  successful step keeps. A run stops at the first failing step.
\<close>

fun run :: "('s \<Rightarrow> 'e \<Rightarrow> 's option) \<Rightarrow> 's \<Rightarrow> 'e list \<Rightarrow> 's option" where
  "run step s [] = Some s"
| "run step s (e # es) = (case step s e of None \<Rightarrow> None | Some t \<Rightarrow> run step t es)"

locale invariant_machine =
  fixes start :: "'s \<Rightarrow> bool"
    and step :: "'s \<Rightarrow> 'e \<Rightarrow> 's option"
    and inv :: "'s \<Rightarrow> bool"
  assumes start_inv: "start s \<Longrightarrow> inv s"
    and step_inv: "inv s \<Longrightarrow> step s e = Some t \<Longrightarrow> inv t"
begin

lemma run_inv: "inv s \<Longrightarrow> run step s es = Some t \<Longrightarrow> inv t"
  by (induction es arbitrary: s) (auto split: option.splits intro: step_inv)

lemma run_from_start: "start s \<Longrightarrow> run step s es = Some t \<Longrightarrow> inv t"
  by (blast intro: start_inv run_inv)

end

lemma run_append:
  "run step s (es @ fs) = (case run step s es of None \<Rightarrow> None | Some t \<Rightarrow> run step t fs)"
  by (induction es arbitrary: s) (auto split: option.splits)

section \<open>Computations that succeed\<close>

definition succeeds :: "'a result \<Rightarrow> ('a \<Rightarrow> bool) \<Rightarrow> bool" where
  "succeeds m P \<longleftrightarrow> (\<exists>x. m = Inr x \<and> P x)"

lemma succeeds_Inr [simp]: "succeeds (Inr x) P = P x"
  by (simp add: succeeds_def)

lemma succeeds_Inl [simp]: "\<not> succeeds (Inl e) P"
  by (simp add: succeeds_def)

lemma succeeds_bind [simp]: "succeeds (bind_r m f) P \<longleftrightarrow> succeeds m (\<lambda>x. succeeds (f x) P)"
  by (cases m) auto

lemma succeeds_mono: "succeeds m P \<Longrightarrow> (\<And>x. m = Inr x \<Longrightarrow> P x \<Longrightarrow> Q x) \<Longrightarrow> succeeds m Q"
  by (auto simp: succeeds_def)

end
