(* ===== verification/Dhcp_Options.thy ===== *)
theory Dhcp_Options
  imports Prelude
begin

text \<open>
  The option field of a DHCP packet (\<^verbatim>\<open>gdhcp/common.c\<close>, \<^verbatim>\<open>gdhcp/common.h\<close>): the packet struct,
  the option type table, the search for an option with the overload of the file and sname
  fields, the end of the options, and the functions that append an option. The packet's
  arrays are lists of bytes; a pointer into the packet is the field it points into and an
  offset, and every access outside that field is the fault \<^const>\<open>OutOfBounds\<close>. Multi-byte
  integers are the values the (little-endian) host reads from the struct.
\<close>

section \<open>Constants and data\<close>

definition DHCP_PADDING :: u8 where "DHCP_PADDING = 0x00"
definition DHCP_SUBNET :: u8 where "DHCP_SUBNET = 0x01"
definition DHCP_ROUTER :: u8 where "DHCP_ROUTER = 0x03"
definition DHCP_DNS_SERVER :: u8 where "DHCP_DNS_SERVER = 0x06"
definition DHCP_HOST_NAME :: u8 where "DHCP_HOST_NAME = 0x0c"
definition DHCP_REQUESTED_IP :: u8 where "DHCP_REQUESTED_IP = 0x32"
definition DHCP_LEASE_TIME :: u8 where "DHCP_LEASE_TIME = 0x33"
definition DHCP_OPTION_OVERLOAD :: u8 where "DHCP_OPTION_OVERLOAD = 0x34"
definition DHCP_MESSAGE_TYPE :: u8 where "DHCP_MESSAGE_TYPE = 0x35"
definition DHCP_SERVER_ID :: u8 where "DHCP_SERVER_ID = 0x36"
definition DHCP_PARAM_REQ :: u8 where "DHCP_PARAM_REQ = 0x37"
definition DHCP_MAX_SIZE :: u8 where "DHCP_MAX_SIZE = 0x39"
definition DHCP_VENDOR :: u8 where "DHCP_VENDOR = 0x3c"
definition DHCP_END :: u8 where "DHCP_END = 0xff"

lemmas dhcp_codes = DHCP_PADDING_def DHCP_SUBNET_def DHCP_ROUTER_def DHCP_DNS_SERVER_def
  DHCP_HOST_NAME_def DHCP_REQUESTED_IP_def DHCP_LEASE_TIME_def DHCP_OPTION_OVERLOAD_def
  DHCP_MESSAGE_TYPE_def DHCP_SERVER_ID_def DHCP_PARAM_REQ_def DHCP_MAX_SIZE_def
  DHCP_VENDOR_def DHCP_END_def

definition FILE_FIELD :: u8 where "FILE_FIELD = 1"
definition SNAME_FIELD :: u8 where "SNAME_FIELD = 2"

definition BOOTREQUEST :: u8 where "BOOTREQUEST = 1"
definition BOOTREPLY :: u8 where "BOOTREPLY = 2"

definition DHCPDISCOVER :: u8 where "DHCPDISCOVER = 1"
definition DHCPOFFER :: u8 where "DHCPOFFER = 2"
definition DHCPREQUEST :: u8 where "DHCPREQUEST = 3"
definition DHCPDECLINE :: u8 where "DHCPDECLINE = 4"
definition DHCPACK :: u8 where "DHCPACK = 5"
definition DHCPNAK :: u8 where "DHCPNAK = 6"
definition DHCPRELEASE :: u8 where "DHCPRELEASE = 7"
definition DHCPINFORM :: u8 where "DHCPINFORM = 8"
definition DHCP_MINTYPE :: u8 where "DHCP_MINTYPE = DHCPDISCOVER"
definition DHCP_MAXTYPE :: u8 where "DHCP_MAXTYPE = DHCPINFORM"

lemmas dhcp_types = BOOTREQUEST_def BOOTREPLY_def DHCPDISCOVER_def DHCPOFFER_def DHCPREQUEST_def
  DHCPDECLINE_def DHCPACK_def DHCPNAK_def DHCPRELEASE_def DHCPINFORM_def DHCP_MINTYPE_def
  DHCP_MAXTYPE_def

definition DHCP_MAGIC :: u32 where "DHCP_MAGIC = 0x63825363"
definition BROADCAST_FLAG :: u16 where "BROADCAST_FLAG = 0x8000"

definition DHCP_OPTIONS_BUFSIZE :: nat where "DHCP_OPTIONS_BUFSIZE = 308"
definition EXTEND_FOR_BUGGY_SERVERS :: nat where "EXTEND_FOR_BUGGY_SERVERS = 80"

record dhcp_packet =
  pkt_op :: u8
  pkt_htype :: u8
  pkt_hlen :: u8
  pkt_hops :: u8
  pkt_xid :: u32
  pkt_secs :: u16
  pkt_flags :: u16
  pkt_ciaddr :: u32
  pkt_yiaddr :: u32
  pkt_siaddr_nip :: u32
  pkt_gateway_nip :: u32
  pkt_chaddr :: "u8 list"
  pkt_sname :: "u8 list"
  pkt_file :: "u8 list"
  pkt_cookie :: u32
  pkt_options :: "u8 list"

datatype opt_area = OptionsField | FileField | SnameField

type_synonym optionptr = "opt_area \<times> nat"

fun area_size :: "opt_area \<Rightarrow> nat" where
  "area_size OptionsField = DHCP_OPTIONS_BUFSIZE + EXTEND_FOR_BUGGY_SERVERS"
| "area_size FileField = 128"
| "area_size SnameField = 64"

fun area_bytes :: "dhcp_packet \<Rightarrow> opt_area \<Rightarrow> u8 list" where
  "area_bytes p OptionsField = pkt_options p"
| "area_bytes p FileField = pkt_file p"
| "area_bytes p SnameField = pkt_sname p"

definition wf_packet :: "dhcp_packet \<Rightarrow> bool" where
  "wf_packet p \<longleftrightarrow> length (pkt_chaddr p) = 16 \<and> length (pkt_sname p) = 64 \<and>
     length (pkt_file p) = 128 \<and> length (pkt_options p) = 388"

datatype option_base = OPTION_UNKNOWN | OPTION_IP | OPTION_STRING | OPTION_U8 | OPTION_U16 | OPTION_U32

text \<open>An option type is the base type and whether the \<^verbatim>\<open>OPTION_LIST\<close> bit is set.\<close>

type_synonym GDHCPOptionType = "option_base \<times> bool"

definition client_options :: "(GDHCPOptionType \<times> u8) list" where
  "client_options =
    [((OPTION_IP, False), 0x01), ((OPTION_IP, True), 0x03), ((OPTION_IP, True), 0x06),
     ((OPTION_STRING, False), 0x0c), ((OPTION_STRING, False), 0x0f), ((OPTION_IP, True), 0x2a),
     ((OPTION_U32, False), 0x33), ((OPTION_IP, False), 0x32), ((OPTION_U8, False), 0x35),
     ((OPTION_U32, False), 0x36), ((OPTION_U16, False), 0x39), ((OPTION_STRING, False), 0x3c),
     ((OPTION_STRING, False), 0x3d), ((OPTION_STRING, False), 0xfc),
     ((OPTION_UNKNOWN, False), 0x00)]"

fun code_type_scan :: "(GDHCPOptionType \<times> u8) list \<Rightarrow> u8 \<Rightarrow> GDHCPOptionType" where
  "code_type_scan [] code = (OPTION_UNKNOWN, False)"
| "code_type_scan ((t, c) # os) code =
     (if c = 0 then (OPTION_UNKNOWN, False)
      else if c = code then t else code_type_scan os code)"

definition dhcp_get_code_type :: "u8 \<Rightarrow> GDHCPOptionType" where
  "dhcp_get_code_type code = code_type_scan client_options code"

fun dhcp_option_lengths :: "option_base \<Rightarrow> nat" where
  "dhcp_option_lengths OPTION_UNKNOWN = 0"
| "dhcp_option_lengths OPTION_IP = 4"
| "dhcp_option_lengths OPTION_STRING = 1"
| "dhcp_option_lengths OPTION_U8 = 1"
| "dhcp_option_lengths OPTION_U16 = 2"
| "dhcp_option_lengths OPTION_U32 = 4"

section \<open>Searching an option\<close>

text \<open>
  The loop of \<^verbatim>\<open>dhcp_get_option\<close>: the current field, the offset in it, the bytes that
  remain and the overload bits. The outer option is whether the loop ends, the sum is a
  fault or the returned pointer, and the inner option is \<^verbatim>\<open>NULL\<close>.
\<close>

partial_function (option) get_option_loop ::
  "dhcp_packet \<Rightarrow> u8 \<Rightarrow> opt_area \<Rightarrow> nat \<Rightarrow> int \<Rightarrow> u8 \<Rightarrow> optionptr option result option" where
  "get_option_loop p code a i rem overload =
     (if rem \<le> 0 then Some (Inr None)
      else case rd (area_bytes p a) i of
        None \<Rightarrow> Some (Inl OutOfBounds)
      | Some c \<Rightarrow>
          if c = DHCP_PADDING then get_option_loop p code a (Suc i) (rem - 1) overload
          else if c = DHCP_END then
            (if overload AND FILE_FIELD \<noteq> 0 then
               get_option_loop p code FileField 0 (int (area_size FileField))
                 (overload AND NOT FILE_FIELD)
             else if overload AND SNAME_FIELD \<noteq> 0 then
               get_option_loop p code SnameField 0 (int (area_size SnameField))
                 (overload AND NOT SNAME_FIELD)
             else Some (Inr None))
          else case rd (area_bytes p a) (Suc i) of
            None \<Rightarrow> Some (Inl OutOfBounds)
          | Some l \<Rightarrow>
              if rem - (2 + int (unat l)) < 0 then
                get_option_loop p code a i (rem - (2 + int (unat l))) overload
              else if c = code then Some (Inr (Some (a, i + 2)))
              else if c = DHCP_OPTION_OVERLOAD then
                (case rd (area_bytes p a) (i + 2) of
                   None \<Rightarrow> Some (Inl OutOfBounds)
                 | Some v \<Rightarrow> get_option_loop p code a (i + 2 + unat l)
                               (rem - (2 + int (unat l))) (overload OR v))
              else get_option_loop p code a (i + 2 + unat l) (rem - (2 + int (unat l))) overload)"

definition dhcp_get_option :: "dhcp_packet \<Rightarrow> u8 \<Rightarrow> optionptr option result option" where
  "dhcp_get_option p code =
     get_option_loop p code OptionsField 0 (int (area_size OptionsField)) 0"

definition dhcp_get_u8 :: "dhcp_packet \<Rightarrow> optionptr \<Rightarrow> u8 result" where
  "dhcp_get_u8 p ptr =
     (case rd (area_bytes p (fst ptr)) (snd ptr) of None \<Rightarrow> Inl OutOfBounds | Some b \<Rightarrow> Inr b)"

definition dhcp_get_unaligned :: "dhcp_packet \<Rightarrow> optionptr \<Rightarrow> u32 result" where
  "dhcp_get_unaligned p ptr =
     (let xs = area_bytes p (fst ptr); i = snd ptr in
      if i + 4 \<le> length xs then Inr (of_bytes32 (take 4 (drop i xs))) else Inl OutOfBounds)"

section \<open>Appending options\<close>

function end_option_loop :: "u8 list \<Rightarrow> nat \<Rightarrow> nat result" where
  "end_option_loop xs i =
     (case rd xs i of
        None \<Rightarrow> Inl OutOfBounds
      | Some c \<Rightarrow>
          if c = DHCP_END then Inr i
          else if c \<noteq> DHCP_PADDING then
            (case rd xs (Suc i) of
               None \<Rightarrow> Inl OutOfBounds
             | Some l \<Rightarrow> end_option_loop xs (i + (unat l + 2 - 1) + 1))
          else end_option_loop xs (Suc i))"
  by pat_completeness auto
termination
  by (relation "measure (\<lambda>(xs, i). length xs - i)") (auto simp: rd_Some_iff)

declare end_option_loop.simps [simp del]

definition dhcp_end_option :: "u8 list \<Rightarrow> nat result" where
  "dhcp_end_option xs = end_option_loop xs 0"

definition dhcp_add_binary_option :: "dhcp_packet \<Rightarrow> u8 list \<Rightarrow> dhcp_packet result" where
  "dhcp_add_binary_option p addopt =
     (case dhcp_end_option (pkt_options p) of
        Inl f \<Rightarrow> Inl f
      | Inr end \<Rightarrow>
          (case rd addopt 1 of
             None \<Rightarrow> Inl OutOfBounds
           | Some l \<Rightarrow>
               let len = 2 + unat l in
               if end + len + 1 \<ge> DHCP_OPTIONS_BUFSIZE then Inr p
               else if length addopt < len then Inl OutOfBounds
               else if end + len < length (pkt_options p) then
                 Inr (p\<lparr>pkt_options := poke end (take len addopt @ [DHCP_END]) (pkt_options p)\<rparr>)
               else Inl OutOfBounds))"

definition dhcp_add_simple_option :: "dhcp_packet \<Rightarrow> u8 \<Rightarrow> u32 \<Rightarrow> dhcp_packet result" where
  "dhcp_add_simple_option p code data =
     (let t = dhcp_get_code_type code in
      if t = (OPTION_UNKNOWN, False) then Inr p
      else dhcp_add_binary_option p
             ([code, of_nat (dhcp_option_lengths (fst t))] @ bytes32 data))"

definition zero_packet :: dhcp_packet where
  "zero_packet = \<lparr>pkt_op = 0, pkt_htype = 0, pkt_hlen = 0, pkt_hops = 0, pkt_xid = 0,
     pkt_secs = 0, pkt_flags = 0, pkt_ciaddr = 0, pkt_yiaddr = 0, pkt_siaddr_nip = 0,
     pkt_gateway_nip = 0, pkt_chaddr = replicate 16 0, pkt_sname = replicate 64 0,
     pkt_file = replicate 128 0, pkt_cookie = 0, pkt_options = replicate 388 0\<rparr>"

definition dhcp_init_header :: "u8 \<Rightarrow> dhcp_packet result" where
  "dhcp_init_header type =
     dhcp_add_simple_option
       (zero_packet
          \<lparr>pkt_op := (if type \<in> {DHCPOFFER, DHCPACK, DHCPNAK} then BOOTREPLY else BOOTREQUEST),
           pkt_htype := 1, pkt_hlen := 6, pkt_cookie := htonl DHCP_MAGIC,
           pkt_options := poke 0 [DHCP_END] (pkt_options zero_packet)\<rparr>)
       DHCP_MESSAGE_TYPE (ucast type)"

definition check_vendor :: "dhcp_packet \<Rightarrow> optionptr \<Rightarrow> u8 list \<Rightarrow> bool result" where
  \<comment> \<open>\<^verbatim>\<open>vendor_length\<close> is the size of a pointer less one: 7 on an LP64 host\<close>
  "check_vendor p ptr vendor =
     (let xs = area_bytes p (fst ptr); i = snd ptr; vendor_length = (7 :: nat) in
      case rd xs (i - 1) of
        None \<Rightarrow> Inl OutOfBounds
      | Some l \<Rightarrow>
          if unat l \<noteq> vendor_length then Inr False
          else if length xs < i + vendor_length then Inl OutOfBounds
          else Inr (take vendor_length (drop i xs) = take vendor_length vendor))"

definition msft98 :: "u8 list" where
  "msft98 = [0x4d, 0x53, 0x46, 0x54, 0x20, 0x39, 0x38, 0]"

definition check_broken_vendor :: "dhcp_packet \<Rightarrow> dhcp_packet result option" where
  "check_broken_vendor p =
     (if pkt_op p \<noteq> BOOTREQUEST then Some (Inr p)
      else case dhcp_get_option p DHCP_VENDOR of
        None \<Rightarrow> None
      | Some (Inl f) \<Rightarrow> Some (Inl f)
      | Some (Inr None) \<Rightarrow> Some (Inr p)
      | Some (Inr (Some v)) \<Rightarrow>
          (case check_vendor p v msft98 of
             Inl f \<Rightarrow> Some (Inl f)
           | Inr True \<Rightarrow> Some (Inr (p\<lparr>pkt_flags := pkt_flags p OR htons BROADCAST_FLAG\<rparr>))
           | Inr False \<Rightarrow> Some (Inr p)))"

section \<open>The option field as a list of options\<close>

text \<open>
  The abstract view of a terminated option field: paddings and options in order, up to the
  end mark. It is what the search and append functions are specified against.
\<close>

datatype opt_item = Pad | Opt u8 "u8 list"

fun item_bytes :: "opt_item \<Rightarrow> u8 list" where
  "item_bytes Pad = [DHCP_PADDING]"
| "item_bytes (Opt c d) = c # of_nat (length d) # d"

fun item_ok :: "opt_item \<Rightarrow> bool" where
  "item_ok Pad = True"
| "item_ok (Opt c d) = (c \<noteq> DHCP_PADDING \<and> c \<noteq> DHCP_END \<and> length d < 256)"

fun is_overload :: "opt_item \<Rightarrow> bool" where
  "is_overload Pad = False"
| "is_overload (Opt c d) = (c = DHCP_OPTION_OVERLOAD)"

definition items_bytes :: "opt_item list \<Rightarrow> u8 list" where
  "items_bytes os = concat (map item_bytes os)"

definition opts_rep :: "u8 list \<Rightarrow> opt_item list \<Rightarrow> bool" where
  "opts_rep xs os \<longleftrightarrow> list_all item_ok os \<and>
     take (Suc (length (items_bytes os))) xs = items_bytes os @ [DHCP_END]"

fun find_item :: "u8 \<Rightarrow> nat \<Rightarrow> opt_item list \<Rightarrow> (nat \<times> u8 list) option" where
  "find_item code i [] = None"
| "find_item code i (Pad # os) = find_item code (Suc i) os"
| "find_item code i (Opt c d # os) =
     (if c = code then Some (i + 2, d) else find_item code (i + 2 + length d) os)"

lemma items_bytes_simps [simp]:
  "items_bytes [] = []"
  "items_bytes (x # os) = item_bytes x @ items_bytes os"
  "items_bytes (os @ os') = items_bytes os @ items_bytes os'"
  by (simp_all add: items_bytes_def)

lemma opts_repD:
  assumes "opts_rep xs os"
  obtains rest where "xs = items_bytes os @ DHCP_END # rest" and "list_all item_ok os"
proof
  show "list_all item_ok os" using assms by (simp add: opts_rep_def)
  show "xs = items_bytes os @ DHCP_END # drop (Suc (length (items_bytes os))) xs"
    using assms append_take_drop_id [of "Suc (length (items_bytes os))" xs]
    by (simp add: opts_rep_def)
qed

lemma opts_repI: "list_all item_ok os \<Longrightarrow> opts_rep (items_bytes os @ DHCP_END # rest) os"
  by (simp add: opts_rep_def)

lemma unat_of_nat_u8: "n < 256 \<Longrightarrow> unat (of_nat n :: u8) = n"
  by (simp add: unat_of_nat)

lemma find_item_append:
  "find_item code i (os @ os') =
     (case find_item code i os of None \<Rightarrow> find_item code (i + length (items_bytes os)) os'
      | Some r \<Rightarrow> Some r)"
  by (induction code i os rule: find_item.induct) (auto split: option.split simp: algebra_simps)

lemma find_item_data:
  "find_item code (length pre) os = Some (k, d) \<Longrightarrow>
     \<exists>u v. pre @ items_bytes os = u @ d @ v \<and> length u = k \<and> length pre + 2 \<le> k"
proof (induction os arbitrary: pre)
  case Nil
  then show ?case by simp
next
  case (Cons x os)
  show ?case
  proof (cases x)
    case Pad
    with Cons.prems Cons.IH [of "pre @ [DHCP_PADDING]"] show ?thesis by auto
  next
    case (Opt c e)
    show ?thesis
    proof (cases "c = code")
      case True
      with Opt Cons.prems show ?thesis
        by (intro exI [of _ "pre @ [c, of_nat (length e)]"] exI [of _ "items_bytes os"]) auto
    next
      case False
      with Opt Cons.prems Cons.IH [of "pre @ c # of_nat (length e) # e"] show ?thesis
        by (auto simp: add.assoc)
    qed
  qed
qed

lemma end_option_loop_items:
  assumes "list_all item_ok os"
  shows "end_option_loop (pre @ items_bytes os @ DHCP_END # rest) (length pre) =
    Inr (length pre + length (items_bytes os))"
  using assms
proof (induction os arbitrary: pre)
  case Nil
  then show ?case by (simp add: end_option_loop.simps [of _ "length pre"])
next
  case (Cons x os)
  from Cons.prems have IH: "\<And>pre. end_option_loop (pre @ items_bytes os @ DHCP_END # rest)
      (length pre) = Inr (length pre + length (items_bytes os))"
    by (intro Cons.IH) simp
  show ?case
  proof (cases x)
    case Pad
    with IH [of "pre @ [DHCP_PADDING]"] show ?thesis
      by (simp add: end_option_loop.simps [of _ "length pre"] dhcp_codes)
  next
    case (Opt c d)
    with Cons.prems IH [of "pre @ c # of_nat (length d) # d"] show ?thesis
      by (simp add: end_option_loop.simps [of _ "length pre"] nth_append unat_of_nat_u8
        rd_def algebra_simps)
  qed
qed

lemma end_option_rep: "opts_rep xs os \<Longrightarrow> dhcp_end_option xs = Inr (length (items_bytes os))"
  by (metis opts_repD end_option_loop_items append_Nil dhcp_end_option_def list.size(3) add_0)

lemma get_option_loop_items:
  assumes "list_all item_ok os" and "\<not> list_ex is_overload os"
    and "area_bytes p a = pre @ items_bytes os @ DHCP_END # rest"
  shows "get_option_loop p code a (length pre) (int (length (area_bytes p a)) - int (length pre)) ov
    = (case find_item code (length pre) os of
         Some (k, d) \<Rightarrow> Some (Inr (Some (a, k)))
       | None \<Rightarrow> get_option_loop p code a (length pre + length (items_bytes os))
           (int (length (area_bytes p a)) - int (length pre + length (items_bytes os))) ov)"
  using assms
proof (induction os arbitrary: pre)
  case Nil
  then show ?case by simp
next
  case (Cons x os)
  show ?case
  proof (cases x)
    case Pad
    with Cons.prems Cons.IH [of "pre @ [DHCP_PADDING]"] show ?thesis
      by (simp add: get_option_loop.simps [of _ _ _ "length pre"] algebra_simps split: option.split)
  next
    case (Opt c d)
    with Cons.prems Cons.IH [of "pre @ c # of_nat (length d) # d"] show ?thesis
      by (simp add: get_option_loop.simps [of _ _ _ "length pre"] nth_append unat_of_nat_u8
        rd_def algebra_simps split: option.split)
  qed
qed

lemma get_option_rep:
  assumes "wf_packet p" and "opts_rep (pkt_options p) os" and "\<not> list_ex is_overload os"
  shows "dhcp_get_option p code =
    Some (Inr (map_option (\<lambda>(k, d). (OptionsField, k)) (find_item code 0 os)))"
proof -
  obtain rest where xs: "pkt_options p = items_bytes os @ DHCP_END # rest"
    and ok: "list_all item_ok os"
    using assms(2) by (rule opts_repD)
  have len: "length (pkt_options p) = 388"
    using assms(1) by (simp add: wf_packet_def)
  let ?n = "length (items_bytes os)"
  have "int ?n < 388" using xs len by simp
  then have fin: "get_option_loop p code OptionsField ?n (388 - int ?n) 0 = Some (Inr None)"
    using xs by (simp add: get_option_loop.simps [of _ _ _ ?n] rd_def FILE_FIELD_def
      SNAME_FIELD_def DHCP_PADDING_def DHCP_END_def)
  have "dhcp_get_option p code = (case find_item code 0 os of
      Some (k, d) \<Rightarrow> Some (Inr (Some (OptionsField, k)))
    | None \<Rightarrow> get_option_loop p code OptionsField ?n (388 - int ?n) 0)"
    using get_option_loop_items [OF ok assms(3), of p OptionsField "[]" rest code 0]
    unfolding area_bytes.simps len dhcp_get_option_def
    by (simp add: xs DHCP_OPTIONS_BUFSIZE_def EXTEND_FOR_BUGGY_SERVERS_def split: option.splits)
  then show ?thesis by (simp add: fin split: option.split)
qed

lemma find_item_in_options:
  assumes "opts_rep xs os" and "find_item code 0 os = Some (k, d)"
  shows "take (length d) (drop k xs) = d" and "k + length d < length xs"
proof -
  obtain rest where xs: "xs = items_bytes os @ DHCP_END # rest"
    using assms(1) by (rule opts_repD)
  obtain u v where "items_bytes os = u @ d @ v" and "length u = k"
    using find_item_data [of code "[]" os k d] assms(2) by auto
  then show "take (length d) (drop k xs) = d" and "k + length d < length xs"
    by (auto simp: xs)
qed

section \<open>What appending an option does\<close>

lemma add_binary_option_rep:
  assumes rep: "opts_rep (pkt_options p) os" and len: "length (pkt_options p) = 388"
    and ok: "item_ok (Opt c d)"
    and fits: "length (items_bytes os) + length d + 3 < DHCP_OPTIONS_BUFSIZE"
  shows "\<exists>xs. dhcp_add_binary_option p (c # of_nat (length d) # d @ extra) =
      Inr (p\<lparr>pkt_options := xs\<rparr>) \<and> opts_rep xs (os @ [Opt c d]) \<and> length xs = 388 \<and>
      drop DHCP_OPTIONS_BUFSIZE xs = drop DHCP_OPTIONS_BUFSIZE (pkt_options p)"
proof -
  obtain rest where xs: "pkt_options p = items_bytes os @ DHCP_END # rest"
    and oks: "list_all item_ok os"
    using rep by (rule opts_repD)
  let ?o = "c # of_nat (length d) # d" and ?n = "length (items_bytes os)"
  let ?xs = "poke ?n (?o @ [DHCP_END]) (pkt_options p)"
  have "unat (of_nat (length d) :: u8) = length d" using ok by (simp add: unat_of_nat_u8)
  then have "dhcp_add_binary_option p (?o @ extra) = Inr (p\<lparr>pkt_options := ?xs\<rparr>)"
    using fits len end_option_rep [OF rep]
    by (simp add: dhcp_add_binary_option_def rd_def DHCP_OPTIONS_BUFSIZE_def)
  moreover have "?xs = items_bytes (os @ [Opt c d]) @ DHCP_END # drop (length ?o) rest"
    by (simp add: poke_def xs numeral_3_eq_3)
  then have "opts_rep ?xs (os @ [Opt c d])"
    using opts_repI [of "os @ [Opt c d]"] oks ok by simp
  moreover have "length ?xs = 388" and
    "drop DHCP_OPTIONS_BUFSIZE ?xs = drop DHCP_OPTIONS_BUFSIZE (pkt_options p)"
    using fits len by (auto simp: length_poke drop_poke DHCP_OPTIONS_BUFSIZE_def)
  ultimately show ?thesis by auto
qed

lemma add_binary_option_full:
  assumes "opts_rep (pkt_options p) os" and "length d < 256"
    and "DHCP_OPTIONS_BUFSIZE \<le> length (items_bytes os) + length d + 3"
  shows "dhcp_add_binary_option p (c # of_nat (length d) # d @ extra) = Inr p"
  using assms by (simp add: dhcp_add_binary_option_def end_option_rep rd_def unat_of_nat_u8)

definition known_code :: "u8 \<Rightarrow> bool" where
  "known_code code \<longleftrightarrow> dhcp_get_code_type code \<noteq> (OPTION_UNKNOWN, False)"

definition simple_data :: "u8 \<Rightarrow> u32 \<Rightarrow> u8 list" where
  "simple_data code data = take (dhcp_option_lengths (fst (dhcp_get_code_type code))) (bytes32 data)"

lemma known_code_iff:
  "known_code code \<longleftrightarrow> code \<in> {0x01, 0x03, 0x06, 0x0c, 0x0f, 0x2a, 0x33, 0x32, 0x35, 0x36, 0x39,
     0x3c, 0x3d, 0xfc}"
  by (auto simp: known_code_def dhcp_get_code_type_def client_options_def)

lemma dhcp_option_lengths_le: "dhcp_option_lengths t \<le> 4"
  by (cases t) auto

lemma length_simple_data:
  "length (simple_data code data) = dhcp_option_lengths (fst (dhcp_get_code_type code))"
  using dhcp_option_lengths_le [of "fst (dhcp_get_code_type code)"]
  by (simp add: simple_data_def)

lemma known_item_ok: "known_code code \<Longrightarrow> item_ok (Opt code (simple_data code data))"
  using dhcp_option_lengths_le [of "fst (dhcp_get_code_type code)"]
  by (auto simp: known_code_iff length_simple_data dhcp_codes)

lemma add_simple_option_binary:
  "known_code code \<Longrightarrow> dhcp_add_simple_option p code data = dhcp_add_binary_option p
     (code # of_nat (length (simple_data code data)) # simple_data code data @
      drop (length (simple_data code data)) (bytes32 data))"
  by (simp add: dhcp_add_simple_option_def known_code_def length_simple_data)
    (simp add: simple_data_def)

lemma add_simple_option_rep:
  assumes "opts_rep (pkt_options p) os" and "length (pkt_options p) = 388" and "known_code code"
    and "length (items_bytes os) + length (simple_data code data) + 3 < DHCP_OPTIONS_BUFSIZE"
  shows "\<exists>xs. dhcp_add_simple_option p code data = Inr (p\<lparr>pkt_options := xs\<rparr>) \<and>
    opts_rep xs (os @ [Opt code (simple_data code data)]) \<and> length xs = 388 \<and>
    drop DHCP_OPTIONS_BUFSIZE xs = drop DHCP_OPTIONS_BUFSIZE (pkt_options p)"
  using add_binary_option_rep [OF assms(1,2) known_item_ok [OF assms(3)] assms(4)]
  by (simp add: add_simple_option_binary [OF assms(3)])

text \<open>Appending never faults on a terminated option field, and keeps it terminated.\<close>

definition opts_fit :: "dhcp_packet \<Rightarrow> bool" where
  "opts_fit p \<longleftrightarrow> length (pkt_options p) = 388 \<and> (\<exists>os. opts_rep (pkt_options p) os)"

lemma add_binary_option_total:
  assumes "opts_fit p" and "item_ok (Opt c d)"
  shows "\<exists>xs. dhcp_add_binary_option p (c # of_nat (length d) # d @ extra) =
    Inr (p\<lparr>pkt_options := xs\<rparr>) \<and> opts_fit (p\<lparr>pkt_options := xs\<rparr>)"
proof -
  obtain os where os: "opts_rep (pkt_options p) os" and len: "length (pkt_options p) = 388"
    using assms(1) by (auto simp: opts_fit_def)
  show ?thesis
  proof (cases "length (items_bytes os) + length d + 3 < DHCP_OPTIONS_BUFSIZE")
    case True
    from add_binary_option_rep [OF os len assms(2) True, of extra] show ?thesis
      by (auto simp: opts_fit_def)
  next
    case False
    with assms os have "dhcp_add_binary_option p (c # of_nat (length d) # d @ extra) =
        Inr (p\<lparr>pkt_options := pkt_options p\<rparr>)"
      by (simp add: add_binary_option_full)
    then show ?thesis using assms(1) by (auto intro!: exI [of _ "pkt_options p"])
  qed
qed

lemma add_simple_option_total:
  assumes "opts_fit p"
  shows "\<exists>xs. dhcp_add_simple_option p code data = Inr (p\<lparr>pkt_options := xs\<rparr>) \<and>
    opts_fit (p\<lparr>pkt_options := xs\<rparr>)"
proof (cases "known_code code")
  case True
  then show ?thesis
    using add_binary_option_total [OF assms known_item_ok] by (simp add: add_simple_option_binary)
next
  case False
  then have "dhcp_add_simple_option p code data = Inr (p\<lparr>pkt_options := pkt_options p\<rparr>)"
    by (simp add: dhcp_add_simple_option_def known_code_def)
  then show ?thesis using assms by (auto intro!: exI [of _ "pkt_options p"])
qed

lemma ucast_u8_u32: "ucast (ucast (t :: u8) :: u32) = t"
  by (rule bit_word_eqI) (auto simp: bit_unsigned_iff)

lemma init_header_rep:
  "\<exists>p. dhcp_init_header t = Inr p \<and> wf_packet p \<and>
     opts_rep (pkt_options p) [Opt DHCP_MESSAGE_TYPE [t]] \<and>
     pkt_cookie p = htonl DHCP_MAGIC \<and> pkt_hlen p = 6 \<and>
     pkt_op p = (if t \<in> {DHCPOFFER, DHCPACK, DHCPNAK} then BOOTREPLY else BOOTREQUEST) \<and>
     pkt_ciaddr p = 0 \<and> pkt_yiaddr p = 0 \<and> pkt_chaddr p = replicate 16 0"
proof -
  let ?z = "zero_packet
    \<lparr>pkt_op := (if t \<in> {DHCPOFFER, DHCPACK, DHCPNAK} then BOOTREPLY else BOOTREQUEST),
     pkt_htype := 1, pkt_hlen := 6, pkt_cookie := htonl DHCP_MAGIC,
     pkt_options := poke 0 [DHCP_END] (pkt_options zero_packet)\<rparr>"
  have kc: "known_code DHCP_MESSAGE_TYPE" by (simp add: known_code_iff dhcp_codes)
  have sd: "simple_data DHCP_MESSAGE_TYPE (ucast t) = [t]"
    by (simp add: simple_data_def dhcp_get_code_type_def client_options_def dhcp_codes bytes32_def
      ucast_u8_u32)
  have "opts_rep (pkt_options ?z) []" and "length (pkt_options ?z) = 388"
    by (simp_all add: opts_rep_def poke_def zero_packet_def)
  from add_simple_option_rep [OF this kc, of "ucast t"]
  show ?thesis
    by (auto simp: dhcp_init_header_def sd DHCP_OPTIONS_BUFSIZE_def wf_packet_def zero_packet_def)
qed

section \<open>Properties of the option field\<close>

text \<open>
  C30. Round trip of an option: when \<^const>\<open>dhcp_add_simple_option\<close> appends an option of a
  known code to a terminated option field that does not hold that code (and no overload
  option) and has room for it, a later \<^const>\<open>dhcp_get_option\<close> for the code ends, faults
  nowhere and points at exactly the bytes that were added; every other code is still found
  where it was.
\<close>

theorem add_simple_option_roundtrip:
  assumes "wf_packet p" and "opts_rep (pkt_options p) os" and "\<not> list_ex is_overload os"
    and "known_code code" and "find_item code 0 os = None"
    and "length (items_bytes os) + length (simple_data code data) + 3 < DHCP_OPTIONS_BUFSIZE"
  shows "\<exists>q k. dhcp_add_simple_option p code data = Inr q \<and>
    dhcp_get_option q code = Some (Inr (Some (OptionsField, k))) \<and>
    take (length (simple_data code data)) (drop k (pkt_options q)) = simple_data code data \<and>
    (\<forall>c. c \<noteq> code \<longrightarrow> dhcp_get_option q c = dhcp_get_option p c)"
proof -
  have len: "length (pkt_options p) = 388" using assms(1) by (simp add: wf_packet_def)
  let ?os = "os @ [Opt code (simple_data code data)]"
  obtain xs where q: "dhcp_add_simple_option p code data = Inr (p\<lparr>pkt_options := xs\<rparr>)"
    and rep: "opts_rep xs ?os" and "length xs = 388"
    using add_simple_option_rep [OF assms(2) len assms(4,6)] by blast
  then have wf: "wf_packet (p\<lparr>pkt_options := xs\<rparr>)" using assms(1) by (simp add: wf_packet_def)
  have ov: "\<not> list_ex is_overload ?os"
    using assms(3,4) by (auto simp: known_code_iff dhcp_codes)
  have get: "dhcp_get_option (p\<lparr>pkt_options := xs\<rparr>) c =
      Some (Inr (map_option (\<lambda>(k, d). (OptionsField, k)) (find_item c 0 ?os)))" for c
    using get_option_rep [OF wf _ ov] rep by simp
  have fi: "find_item code 0 ?os = Some (length (items_bytes os) + 2, simple_data code data)"
    using assms(5) by (simp add: find_item_append)
  have "\<forall>c. c \<noteq> code \<longrightarrow> dhcp_get_option (p\<lparr>pkt_options := xs\<rparr>) c = dhcp_get_option p c"
    by (auto simp: get get_option_rep [OF assms(1-3)] find_item_append split: option.split)
  then show ?thesis
    using q get fi find_item_in_options(1) [OF rep fi] by auto
qed

theorem add_simple_option_roundtrip_witness:
  "\<exists>q k. dhcp_add_simple_option (zero_packet\<lparr>pkt_options := DHCP_END # replicate 387 0\<rparr>)
      DHCP_REQUESTED_IP 0x0237a8c0 = Inr q \<and>
    dhcp_get_option q DHCP_REQUESTED_IP = Some (Inr (Some (OptionsField, k))) \<and>
    take 4 (drop k (pkt_options q)) = [0xc0, 0xa8, 0x37, 0x02]"
proof -
  let ?p = "zero_packet\<lparr>pkt_options := DHCP_END # replicate 387 0\<rparr>"
  have sd: "simple_data DHCP_REQUESTED_IP 0x0237a8c0 = [0xc0, 0xa8, 0x37, 0x02]"
    by (simp add: simple_data_def dhcp_get_code_type_def client_options_def dhcp_codes bytes32_def)
  have "wf_packet ?p" "opts_rep (pkt_options ?p) []" "\<not> list_ex is_overload []"
    "known_code DHCP_REQUESTED_IP" "find_item DHCP_REQUESTED_IP 0 [] = None"
    by (simp_all add: wf_packet_def zero_packet_def opts_rep_def known_code_iff dhcp_codes)
  from add_simple_option_roundtrip [OF this, of "0x0237a8c0"]
  show ?thesis by (auto simp: sd DHCP_OPTIONS_BUFSIZE_def eval_nat_numeral)
qed

fun good_ptr :: "dhcp_packet \<Rightarrow> u8 \<Rightarrow> optionptr \<Rightarrow> bool" where
  "good_ptr p code (b, k) \<longleftrightarrow> 2 \<le> k \<and> area_bytes p b ! (k - 2) = code \<and>
     k + unat (area_bytes p b ! (k - 1)) \<le> length (area_bytes p b)"

lemma get_option_loop_in_bounds:
  assumes ret: "get_option_loop p code a i rem ov = Some r"
  shows "rem \<le> int (length (area_bytes p a)) - int i \<longrightarrow> wf_packet p \<longrightarrow> r = Inr (Some ptr) \<longrightarrow>
    good_ptr p code ptr"
proof (rule get_option_loop.raw_induct [where P = "\<lambda>p code a i rem ov r.
      rem \<le> int (length (area_bytes p a)) - int i \<longrightarrow> wf_packet p \<longrightarrow> r = Inr (Some ptr) \<longrightarrow>
      good_ptr p code ptr", OF _ ret], intro impI, goal_cases)
  case (1 f p code a i rem ov r)
  note IH = 1(1) [rule_format] and eq = 1(2) and prems = 1(3-5)
  have sz: "length (area_bytes p FileField) = 128" "length (area_bytes p SnameField) = 64"
    using prems(2) by (simp_all add: wf_packet_def)
  have rem: "\<not> rem \<le> 0" using eq prems(3) by (auto split: if_splits)
  obtain c where c: "rd (area_bytes p a) i = Some c"
    using eq prems(3) rem by (cases "rd (area_bytes p a) i") auto
  consider (pad) "c = DHCP_PADDING" | (fin) "c = DHCP_END" "c \<noteq> DHCP_PADDING"
    | (opt) "c \<noteq> DHCP_PADDING" "c \<noteq> DHCP_END" by blast
  then show ?case
  proof cases
    case pad
    then show ?thesis
      using IH [of p code a "Suc i" "rem - 1" ov r] eq c rem prems by auto
  next
    case fin
    then show ?thesis using eq c rem prems sz by (auto split: if_splits intro: IH)
  next
    case opt
    then obtain l where l: "rd (area_bytes p a) (Suc i) = Some l"
      using eq c rem prems(3) by (cases "rd (area_bytes p a) (Suc i)") auto
    show ?thesis
    proof (cases "0 \<le> rem - (2 + int (unat l)) \<and> c = code")
      case True
      then show ?thesis using eq c l rem opt prems
        by (auto simp: rd_Some_iff simp del: of_nat_unat)
    next
      case False
      then show ?thesis using eq c l rem opt prems
        by (auto split: if_splits option.splits intro: IH)
    qed
  qed
qed

text \<open>
  C33. The pointer that \<^const>\<open>dhcp_get_option\<close> returns is good for the whole option: it points
  into one of the three option fields, the two bytes before it are the searched code and a
  length, and that many data bytes lie inside the field.
\<close>

theorem get_option_in_bounds:
  assumes "wf_packet p" and "dhcp_get_option p code = Some (Inr (Some ptr))"
  shows "good_ptr p code ptr"
  using get_option_loop_in_bounds [of p code OptionsField 0] assms
  by (auto simp: dhcp_get_option_def wf_packet_def DHCP_OPTIONS_BUFSIZE_def
    EXTEND_FOR_BUGGY_SERVERS_def)

theorem get_option_in_bounds_witness:
  "good_ptr (zero_packet\<lparr>pkt_options := [0x35, 1, 3, 0xff] @ replicate 384 0\<rparr>) DHCP_MESSAGE_TYPE
     (OptionsField, 2)"
  by (rule get_option_in_bounds)
    (simp_all add: wf_packet_def zero_packet_def dhcp_get_option_def get_option_loop.simps rd_def
       dhcp_codes DHCP_OPTIONS_BUFSIZE_def EXTEND_FOR_BUGGY_SERVERS_def)

section \<open>When the search ends\<close>

text \<open>
  The overload bits let the search go on in the file and sname fields. Each visit clears the
  bit that led there, so the search ends unless one of those two fields sets a bit again.
\<close>

definition overload_bits :: "u8 \<Rightarrow> nat" where
  "overload_bits ov = (if ov AND FILE_FIELD \<noteq> 0 then 1 else 0) + (if ov AND SNAME_FIELD \<noteq> 0 then 1 else 0)"

definition search_rank :: "opt_area \<Rightarrow> u8 \<Rightarrow> nat" where
  "search_rank a ov = (if a = OptionsField then 3 else overload_bits ov)"

lemma overload_bits_le: "overload_bits ov \<le> 2"
  by (simp add: overload_bits_def)

lemma overload_bits_clear:
  "ov AND FILE_FIELD \<noteq> 0 \<Longrightarrow> overload_bits (ov AND NOT FILE_FIELD) < overload_bits ov"
  "ov AND SNAME_FIELD \<noteq> 0 \<Longrightarrow> overload_bits (ov AND NOT SNAME_FIELD) < overload_bits ov"
proof -
  have *: "(ov AND NOT FILE_FIELD) AND FILE_FIELD = 0"
    "(ov AND NOT FILE_FIELD) AND SNAME_FIELD = ov AND SNAME_FIELD"
    "(ov AND NOT SNAME_FIELD) AND SNAME_FIELD = 0"
    "(ov AND NOT SNAME_FIELD) AND FILE_FIELD = ov AND FILE_FIELD"
    by (simp_all add: FILE_FIELD_def SNAME_FIELD_def and.assoc)
  show "ov AND FILE_FIELD \<noteq> 0 \<Longrightarrow> overload_bits (ov AND NOT FILE_FIELD) < overload_bits ov"
    "ov AND SNAME_FIELD \<noteq> 0 \<Longrightarrow> overload_bits (ov AND NOT SNAME_FIELD) < overload_bits ov"
    by (simp_all add: overload_bits_def *)
qed

lemma search_rank_switch:
  "ov AND FILE_FIELD \<noteq> 0 \<Longrightarrow> search_rank FileField (ov AND NOT FILE_FIELD) < search_rank a ov"
  "ov AND SNAME_FIELD \<noteq> 0 \<Longrightarrow> search_rank SnameField (ov AND NOT SNAME_FIELD) < search_rank a ov"
  using overload_bits_clear [of ov] overload_bits_le [of "ov AND NOT FILE_FIELD"]
    overload_bits_le [of "ov AND NOT SNAME_FIELD"]
  by (auto simp: search_rank_def)

lemma get_option_loop_ends:
  assumes "DHCP_OPTION_OVERLOAD \<notin> set (pkt_file p)" and "DHCP_OPTION_OVERLOAD \<notin> set (pkt_sname p)"
  shows "\<exists>r. get_option_loop p code a i rem ov = Some r"
proof (induction "(search_rank a ov, nat rem)" arbitrary: a i rem ov
    rule: wf_induct_rule [OF wf_lex_prod [OF wf_less wf_less]])
  case (1 a rem ov i)
  note IH = 1
  show ?case
  proof (cases "rem \<le> 0")
    case True
    then show ?thesis by (simp add: get_option_loop.simps [of p code a i])
  next
    case False
    have stay: "rem' < rem \<Longrightarrow> \<exists>r. get_option_loop p code a j rem' ov = Some r" for rem' j
      using False by (intro IH) auto
    have over: "rem' < rem \<Longrightarrow> area_bytes p a ! i = DHCP_OPTION_OVERLOAD \<Longrightarrow> i < length (area_bytes p a)
        \<Longrightarrow> \<exists>r. get_option_loop p code a j rem' ov' = Some r" for rem' j ov'
      using False assms
      by (cases a) (auto intro!: IH simp: search_rank_def in_set_conv_nth)
    have switch: "ov AND FILE_FIELD \<noteq> 0 \<Longrightarrow>
        \<exists>r. get_option_loop p code FileField 0 (int (area_size FileField)) (ov AND NOT FILE_FIELD) = Some r"
      "ov AND SNAME_FIELD \<noteq> 0 \<Longrightarrow>
        \<exists>r. get_option_loop p code SnameField 0 (int (area_size SnameField)) (ov AND NOT SNAME_FIELD) = Some r"
      using search_rank_switch [of ov a] by (auto intro!: IH)
    have smaller: "rem - (2 + int (unat l)) < rem" for l :: u8 by linarith
    show ?thesis
    proof (cases "rd (area_bytes p a) i")
      case None
      then show ?thesis using False by (simp add: get_option_loop.simps [of p code a i])
    next
      case (Some c)
      consider (pad) "c = DHCP_PADDING" | (fin) "c = DHCP_END" "c \<noteq> DHCP_PADDING"
        | (opt) "c \<noteq> DHCP_PADDING" "c \<noteq> DHCP_END" by blast
      then show ?thesis
      proof cases
        case pad
        then show ?thesis using False Some stay [of "rem - 1" "Suc i"]
          by (simp add: get_option_loop.simps [of p code a i])
      next
        case fin
        then show ?thesis using False Some switch
          by (simp add: get_option_loop.simps [of p code a i] del: area_size.simps)
      next
        case opt
        then show ?thesis using False Some stay [OF smaller] over [OF smaller]
          by (auto simp: get_option_loop.simps [of p code a i] rd_Some_iff simp del: of_nat_unat
            split: option.split)
      qed
    qed
  qed
qed

text \<open>
  Termination of the search: if neither the file field nor the sname field contains an
  overload code, \<^const>\<open>dhcp_get_option\<close> ends for every option field and every code.
\<close>

lemma get_option_terminates:
  assumes "DHCP_OPTION_OVERLOAD \<notin> set (pkt_file p)" and "DHCP_OPTION_OVERLOAD \<notin> set (pkt_sname p)"
  shows "\<exists>r. dhcp_get_option p code = Some r"
  using get_option_loop_ends [OF assms] by (simp add: dhcp_get_option_def)

lemma get_option_terminates_witness:
  "\<exists>r. dhcp_get_option (zero_packet\<lparr>pkt_options := [0x34, 1, 3, 0xff] @ replicate 384 0\<rparr>)
     DHCP_SERVER_ID = Some r"
  by (rule get_option_terminates) (simp_all add: zero_packet_def DHCP_OPTION_OVERLOAD_def)

lemma get_option_loop_diverges:
  assumes ret: "get_option_loop p code a i rem ov = Some r"
    and "take 4 (pkt_options p) = [52, 1, 1, 255]" and "take 4 (pkt_file p) = [52, 1, 1, 255]"
    and "code \<noteq> 52"
  shows "(a, i, rem, ov) \<notin> {(OptionsField, 0, 388, 0), (OptionsField, 3, 385, 1),
    (FileField, 0, 128, 0), (FileField, 3, 125, 1)}"
proof -
  let ?L = "{(OptionsField, 0, 388, 0), (OptionsField, 3, 385, 1),
    (FileField, 0, 128, 0), (FileField, 3, 125, 1)} :: (opt_area \<times> nat \<times> int \<times> u8) set"
  have pre: "\<exists>ys. xs = 52 # 1 # 1 # 255 # ys" if "take 4 xs = [52, 1, 1, 255]" for xs :: "u8 list"
    using that append_take_drop_id [of 4 xs] by (metis append_Cons append_Nil)
  obtain ys zs where xs: "pkt_options p = 52 # 1 # 1 # 255 # ys" "pkt_file p = 52 # 1 # 1 # 255 # zs"
    using pre assms(2,3) by blast
  have "p' = p \<longrightarrow> code' = code \<longrightarrow> (a', i', rem', ov') \<notin> ?L"
    if "get_option_loop p' code' a' i' rem' ov' = Some r'" for p' code' a' i' rem' ov' r'
  proof (rule get_option_loop.raw_induct [where P = "\<lambda>p' code' a' i' rem' ov' r'.
        p' = p \<longrightarrow> code' = code \<longrightarrow> (a', i', rem', ov') \<notin> ?L", OF _ that], intro impI notI, goal_cases)
    case (1 f p' code' a' i' rem' ov' r')
    note IH = 1(1) [rule_format, OF _ 1(3,4)]
    show ?case
      using 1(2-5) IH [of OptionsField 3 385 1] IH [of FileField 0 128 0] IH [of FileField 3 125 1]
      by (auto simp: xs rd_def dhcp_codes FILE_FIELD_def numeral_3_eq_3 assms(4) [symmetric])
  qed
  with ret show ?thesis by blast
qed

text \<open>
  Without that, it need not end: a packet whose options and file field both start with
  an overload option for the file field (bytes 52, 1, 1, 255) makes the search for any other
  code run forever, since the file field sets the bit again that its visit cleared.
\<close>

lemma get_option_diverges:
  assumes "take 4 (pkt_options p) = [52, 1, 1, 255]" and "take 4 (pkt_file p) = [52, 1, 1, 255]"
    and "code \<noteq> 52"
  shows "dhcp_get_option p code = None"
proof (rule ccontr)
  assume "dhcp_get_option p code \<noteq> None"
  then obtain r where "get_option_loop p code OptionsField 0 388 0 = Some r"
    by (auto simp: dhcp_get_option_def DHCP_OPTIONS_BUFSIZE_def EXTEND_FOR_BUGGY_SERVERS_def)
  from get_option_loop_diverges [OF this assms] show False by simp
qed

lemma get_option_diverges_witness:
  "dhcp_get_option
     (zero_packet\<lparr>pkt_options := [52, 1, 1, 255] @ replicate 384 0,
                  pkt_file := [52, 1, 1, 255] @ replicate 124 0\<rparr>) DHCP_MESSAGE_TYPE = None"
  by (rule get_option_diverges) (simp_all add: DHCP_MESSAGE_TYPE_def)

end
