(* ===== verification/Dhcp_Wire.thy ===== *)
theory Dhcp_Wire
  imports Dhcp_Options
begin

text \<open>
  DHCP packets on the wire (\<^verbatim>\<open>gdhcp/common.c\<close>, and the receiving side in
  \<^verbatim>\<open>gdhcp/client.c\<close>): the layout of the packed structs, the Internet checksum, the frame
  \<^verbatim>\<open>dhcp_send_raw_packet\<close> builds, and the checks of the two receive functions. The result of
  a socket call is an argument of the function that makes the call.
\<close>

section \<open>Layout of the packed structs\<close>

definition field :: "u8 list \<Rightarrow> nat \<Rightarrow> nat \<Rightarrow> u8 list" where
  "field xs i n = take n (drop i xs)"

definition dhcp_packet_bytes :: "dhcp_packet \<Rightarrow> u8 list" where
  "dhcp_packet_bytes p =
     [pkt_op p, pkt_htype p, pkt_hlen p, pkt_hops p] @ bytes32 (pkt_xid p) @
     bytes16 (pkt_secs p) @ bytes16 (pkt_flags p) @ bytes32 (pkt_ciaddr p) @
     bytes32 (pkt_yiaddr p) @ bytes32 (pkt_siaddr_nip p) @ bytes32 (pkt_gateway_nip p) @
     pkt_chaddr p @ pkt_sname p @ pkt_file p @ bytes32 (pkt_cookie p) @ pkt_options p"

definition dhcp_packet_of :: "u8 list \<Rightarrow> dhcp_packet" where
  "dhcp_packet_of xs =
     \<lparr>pkt_op = xs ! 0, pkt_htype = xs ! 1, pkt_hlen = xs ! 2, pkt_hops = xs ! 3,
      pkt_xid = of_bytes32 (field xs 4 4), pkt_secs = of_bytes16 (field xs 8 2),
      pkt_flags = of_bytes16 (field xs 10 2), pkt_ciaddr = of_bytes32 (field xs 12 4),
      pkt_yiaddr = of_bytes32 (field xs 16 4), pkt_siaddr_nip = of_bytes32 (field xs 20 4),
      pkt_gateway_nip = of_bytes32 (field xs 24 4), pkt_chaddr = field xs 28 16,
      pkt_sname = field xs 44 64, pkt_file = field xs 108 128,
      pkt_cookie = of_bytes32 (field xs 236 4), pkt_options = field xs 240 388\<rparr>"

definition DHCP_PACKET_SIZE :: nat where "DHCP_PACKET_SIZE = 628"

record iphdr =
  ip_ihl :: "4 word"
  ip_version :: "4 word"
  ip_tos :: u8
  ip_tot_len :: u16
  ip_id :: u16
  ip_frag_off :: u16
  ip_ttl :: u8
  ip_protocol :: u8
  ip_check :: u16
  ip_saddr :: u32
  ip_daddr :: u32

record udphdr =
  udp_source :: u16
  udp_dest :: u16
  udp_len :: u16
  udp_check :: u16

text \<open>The DHCP part of the frame is kept as its bytes.\<close>

record ip_udp_dhcp_packet =
  f_ip :: iphdr
  f_udp :: udphdr
  f_data :: "u8 list"

definition iphdr_bytes :: "iphdr \<Rightarrow> u8 list" where
  "iphdr_bytes h =
     [ucast (ip_ihl h) OR push_bit 4 (ucast (ip_version h)), ip_tos h] @ bytes16 (ip_tot_len h) @
     bytes16 (ip_id h) @ bytes16 (ip_frag_off h) @ [ip_ttl h, ip_protocol h] @
     bytes16 (ip_check h) @ bytes32 (ip_saddr h) @ bytes32 (ip_daddr h)"

definition iphdr_of :: "u8 list \<Rightarrow> iphdr" where
  "iphdr_of xs =
     \<lparr>ip_ihl = ucast (xs ! 0), ip_version = ucast (drop_bit 4 (xs ! 0)), ip_tos = xs ! 1,
      ip_tot_len = of_bytes16 (field xs 2 2), ip_id = of_bytes16 (field xs 4 2),
      ip_frag_off = of_bytes16 (field xs 6 2), ip_ttl = xs ! 8, ip_protocol = xs ! 9,
      ip_check = of_bytes16 (field xs 10 2), ip_saddr = of_bytes32 (field xs 12 4),
      ip_daddr = of_bytes32 (field xs 16 4)\<rparr>"

definition udphdr_bytes :: "udphdr \<Rightarrow> u8 list" where
  "udphdr_bytes h = bytes16 (udp_source h) @ bytes16 (udp_dest h) @ bytes16 (udp_len h) @
     bytes16 (udp_check h)"

definition udphdr_of :: "u8 list \<Rightarrow> udphdr" where
  "udphdr_of xs =
     \<lparr>udp_source = of_bytes16 (field xs 0 2), udp_dest = of_bytes16 (field xs 2 2),
      udp_len = of_bytes16 (field xs 4 2), udp_check = of_bytes16 (field xs 6 2)\<rparr>"

definition frame_bytes :: "ip_udp_dhcp_packet \<Rightarrow> u8 list" where
  "frame_bytes f = iphdr_bytes (f_ip f) @ udphdr_bytes (f_udp f) @ f_data f"

definition frame_of :: "u8 list \<Rightarrow> ip_udp_dhcp_packet" where
  "frame_of xs = \<lparr>f_ip = iphdr_of (take 20 xs), f_udp = udphdr_of (field xs 20 8),
     f_data = drop 28 xs\<rparr>"

section \<open>The Internet checksum\<close>

fun sum_words :: "u8 list \<Rightarrow> nat" where
  "sum_words [] = 0"
| "sum_words [a] = unat a"
| "sum_words (a # b # xs) = unat (of_bytes16 [a, b]) + sum_words xs"

function fold_sum :: "nat \<Rightarrow> nat" where
  "fold_sum s = (if s div 65536 \<noteq> 0 then fold_sum (s mod 65536 + s div 65536) else s)"
  by pat_completeness auto
termination
proof (relation "measure id", goal_cases)
  case 1
  then show ?case by simp
next
  case (2 s)
  then have "s = 65536 * (s div 65536) + s mod 65536" and "s div 65536 > 0" by simp_all
  then show ?case unfolding in_measure id_def by linarith
qed

declare fold_sum.simps [simp del]

definition dhcp_checksum :: "u8 list \<Rightarrow> u16" where
  "dhcp_checksum xs = NOT (of_nat (fold_sum (sum_words xs)))"

section \<open>Sending\<close>

definition CLIENT_PORT :: u16 where "CLIENT_PORT = 68"
definition SERVER_PORT :: u16 where "SERVER_PORT = 67"
definition IPPROTO_UDP :: u8 where "IPPROTO_UDP = 17"
definition IP_UPD_DHCP_SIZE :: nat where
  "IP_UPD_DHCP_SIZE = 20 + 8 + DHCP_PACKET_SIZE - EXTEND_FOR_BUGGY_SERVERS"
definition UPD_DHCP_SIZE :: nat where "UPD_DHCP_SIZE = IP_UPD_DHCP_SIZE - 20"

definition raw_frame :: "dhcp_packet \<Rightarrow> u32 \<Rightarrow> u16 \<Rightarrow> u32 \<Rightarrow> u16 \<Rightarrow> ip_udp_dhcp_packet" where
  "raw_frame dhcp_pkt source_ip source_port dest_ip dest_port =
     (let len = htons (of_nat UPD_DHCP_SIZE);
          ip0 = \<lparr>ip_ihl = 0, ip_version = 0, ip_tos = 0, ip_tot_len = len, ip_id = 0,
                 ip_frag_off = 0, ip_ttl = 0, ip_protocol = IPPROTO_UDP, ip_check = 0,
                 ip_saddr = source_ip, ip_daddr = dest_ip\<rparr>;
          udp0 = \<lparr>udp_source = htons source_port, udp_dest = htons dest_port, udp_len = len,
                  udp_check = 0\<rparr>;
          data = dhcp_packet_bytes dhcp_pkt;
          udp1 = udp0\<lparr>udp_check := dhcp_checksum (take IP_UPD_DHCP_SIZE
                   (frame_bytes \<lparr>f_ip = ip0, f_udp = udp0, f_data = data\<rparr>))\<rparr>;
          ip1 = ip0\<lparr>ip_tot_len := htons (of_nat IP_UPD_DHCP_SIZE), ip_ihl := 5,
                    ip_version := 4, ip_ttl := 64\<rparr>;
          ip2 = ip1\<lparr>ip_check := dhcp_checksum (iphdr_bytes ip1)\<rparr>
      in \<lparr>f_ip = ip2, f_udp = udp1, f_data = data\<rparr>)"

text \<open>
  The return value and the bytes handed to \<^verbatim>\<open>sendto\<close>; a failing call gives its negative
  errno.
\<close>

definition dhcp_send_raw_packet ::
  "int \<Rightarrow> int \<Rightarrow> int \<Rightarrow> dhcp_packet \<Rightarrow> u32 \<Rightarrow> u16 \<Rightarrow> u32 \<Rightarrow> u16 \<Rightarrow> int \<times> u8 list option" where
  "dhcp_send_raw_packet socket_res bind_res sendto_res dhcp_pkt source_ip source_port dest_ip dest_port =
     (if socket_res < 0 then (socket_res, None)
      else if bind_res < 0 then (bind_res, None)
      else (sendto_res, Some (take IP_UPD_DHCP_SIZE
             (frame_bytes (raw_frame dhcp_pkt source_ip source_port dest_ip dest_port)))))"

definition dhcp_send_kernel_packet ::
  "int \<Rightarrow> int \<Rightarrow> int \<Rightarrow> int \<Rightarrow> dhcp_packet \<Rightarrow> int \<times> u8 list option" where
  "dhcp_send_kernel_packet socket_res bind_res connect_res write_res dhcp_pkt =
     (if socket_res < 0 then (socket_res, None)
      else if bind_res < 0 then (bind_res, None)
      else if connect_res < 0 then (connect_res, None)
      else (write_res, Some (take (DHCP_PACKET_SIZE - EXTEND_FOR_BUGGY_SERVERS)
             (dhcp_packet_bytes dhcp_pkt))))"

section \<open>Receiving\<close>

text \<open>
  The argument of the receive functions is what \<^verbatim>\<open>read\<close> delivered (a negative errno or the
  bytes). The outer option is whether the option search in the vendor check ends.
\<close>

definition dhcp_recv_l3_packet :: "int + u8 list \<Rightarrow> (int + dhcp_packet) result option" where
  "dhcp_recv_l3_packet input =
     (case input of
        Inl e \<Rightarrow> Some (Inr (Inl e))
      | Inr bs \<Rightarrow>
          let packet = dhcp_packet_of (take DHCP_PACKET_SIZE bs @
                         replicate (DHCP_PACKET_SIZE - length bs) 0) in
          if pkt_cookie packet \<noteq> htonl DHCP_MAGIC then Some (Inr (Inl (- 71)))
          else (case check_broken_vendor packet of
                  None \<Rightarrow> None
                | Some (Inl f) \<Rightarrow> Some (Inl f)
                | Some (Inr q) \<Rightarrow> Some (Inr (Inr q))))"

definition sanity_check :: "ip_udp_dhcp_packet \<Rightarrow> int \<Rightarrow> bool" where
  "sanity_check packet bytes \<longleftrightarrow>
     ip_protocol (f_ip packet) = IPPROTO_UDP \<and> ip_version (f_ip packet) = 4 \<and>
     ip_ihl (f_ip packet) = 5 \<and> udp_dest (f_udp packet) = htons CLIENT_PORT \<and>
     ntohs (udp_len (f_udp packet)) = of_int (bytes - 20)"

text \<open>
  \<^verbatim>\<open>dhcp_recv_l2_packet\<close>: \<^term>\<open>stack\<close> is the caller's uninitialised packet struct, into which
  only the received bytes are copied. A copy length below zero wraps to a huge \<^verbatim>\<open>size_t\<close>.
\<close>

definition dhcp_recv_l2_packet :: "u8 list \<Rightarrow> u8 list option \<Rightarrow> dhcp_packet option result" where
  "dhcp_recv_l2_packet stack input =
     (case input of
        None \<Rightarrow> Inr None
      | Some input_bytes \<Rightarrow>
          let bs = take 656 input_bytes in
          if length bs < 28 then Inr None
          else
            let packet = frame_of (bs @ replicate (656 - length bs) 0);
                bytes = unat (ntohs (ip_tot_len (f_ip packet))) in
            if length bs < bytes then Inr None
            else if \<not> sanity_check packet (int bytes) then Inr None
            else if ip_check (f_ip packet) \<noteq>
                dhcp_checksum (iphdr_bytes ((f_ip packet)\<lparr>ip_check := 0\<rparr>)) then Inr None
            else
              let ip0 = \<lparr>ip_ihl = 0, ip_version = 0, ip_tos = 0,
                         ip_tot_len = udp_len (f_udp packet), ip_id = 0, ip_frag_off = 0,
                         ip_ttl = 0, ip_protocol = ip_protocol (f_ip packet), ip_check = 0,
                         ip_saddr = ip_saddr (f_ip packet), ip_daddr = ip_daddr (f_ip packet)\<rparr>;
                  check = udp_check (f_udp packet);
                  packet0 = packet\<lparr>f_ip := ip0, f_udp := (f_udp packet)\<lparr>udp_check := 0\<rparr>\<rparr> in
              if check \<noteq> 0 \<and> check \<noteq> dhcp_checksum (take bytes (frame_bytes packet0)) then Inr None
              else if bytes < 28 then Inl BadLength
              else
                let dhcp_pkt = dhcp_packet_of (take (bytes - 28) (f_data packet) @
                                 drop (bytes - 28) stack) in
                if pkt_cookie dhcp_pkt \<noteq> htonl DHCP_MAGIC then Inr None
                else Inr (Some dhcp_pkt))"

section \<open>Layout lemmas\<close>

lemma length_dhcp_packet_bytes: "wf_packet p \<Longrightarrow> length (dhcp_packet_bytes p) = 628"
  by (simp add: dhcp_packet_bytes_def wf_packet_def)

lemma dhcp_packet_of_bytes: "wf_packet p \<Longrightarrow> dhcp_packet_of (dhcp_packet_bytes p) = p"
  by (simp add: dhcp_packet_of_def dhcp_packet_bytes_def wf_packet_def field_def
    of_bytes32_bytes32 of_bytes16_bytes16)

lemma nibbles: "ucast (ucast (a :: 4 word) OR push_bit 4 (ucast (b :: 4 word)) :: u8) = a"
  "ucast (drop_bit 4 (ucast (a :: 4 word)) OR drop_bit 4 (push_bit 4 (ucast (b :: 4 word))) :: u8) = b"
  by (rule bit_word_eqI; auto simp: bit_unsigned_iff bit_or_iff bit_push_bit_iff bit_drop_bit_eq
      dest: bit_imp_le_length)+

lemma length_iphdr_bytes [simp]: "length (iphdr_bytes h) = 20"
  by (simp add: iphdr_bytes_def)

lemma iphdr_of_bytes: "iphdr_of (iphdr_bytes h) = h"
  by (simp add: iphdr_of_def iphdr_bytes_def field_def of_bytes32_bytes32 of_bytes16_bytes16 nibbles
    nth_append)

lemma length_udphdr_bytes [simp]: "length (udphdr_bytes h) = 8"
  by (simp add: udphdr_bytes_def)

lemma udphdr_of_bytes: "udphdr_of (udphdr_bytes h) = h"
  by (simp add: udphdr_of_def udphdr_bytes_def field_def of_bytes16_bytes16)

lemma frame_of_bytes: "frame_of (frame_bytes f @ rest) = f\<lparr>f_data := f_data f @ rest\<rparr>"
  by (simp add: frame_of_def frame_bytes_def field_def iphdr_of_bytes udphdr_of_bytes)

section \<open>Checksum lemmas\<close>

lemma fold_sum_props:
  "fold_sum s mod 65535 = s mod 65535 \<and> fold_sum s < 65536 \<and> (fold_sum s = 0 \<longleftrightarrow> s = 0) \<and>
   fold_sum s \<le> s"
proof (induction s rule: fold_sum.induct)
  case (1 s)
  show ?case
  proof (cases "s div 65536 = 0")
    case True
    then show ?thesis by (simp add: fold_sum.simps [of s] div_eq_0_iff)
  next
    case False
    have "s = 65536 * (s div 65536) + s mod 65536" by simp
    then have "s = (s mod 65536 + s div 65536) + 65535 * (s div 65536)" by linarith
    then have "s mod 65535 = (s mod 65536 + s div 65536) mod 65535" by (metis mod_mult_self2)
    moreover have "s \<noteq> 0" and "s mod 65536 + s div 65536 \<noteq> 0" using False by auto
    moreover have "s mod 65536 + s div 65536 \<le> s"
      using \<open>s = (s mod 65536 + s div 65536) + 65535 * (s div 65536)\<close> by linarith
    ultimately show ?thesis using 1 [OF False] False by (simp add: fold_sum.simps [of s])
  qed
qed

lemma sum_words_append:
  "even (length xs) \<Longrightarrow> sum_words (xs @ ys) = sum_words xs + sum_words ys"
  by (induction xs rule: sum_words.induct) auto

lemma sum_words_bound: "sum_words xs \<le> 65535 * ((length xs + 1) div 2)"
proof (induction xs rule: sum_words.induct)
  case (2 a)
  have "unat a < 256" using unsigned_less [of a, where 'a = nat] by simp
  then show ?case by simp
next
  case (3 a b xs)
  have "unat (of_bytes16 [a, b]) \<le> 65535" using unsigned_less [of "of_bytes16 [a, b]", where 'a = nat] by simp
  with 3 show ?case by simp
qed simp

lemma unat_not_u16: "unat (NOT w :: u16) = 65535 - unat w"
proof -
  have "unat w < 65536" using unsigned_less [of w, where 'a = nat] by simp
  moreover have "NOT w = 65535 - w" by (simp add: not_eq_complement)
  ultimately show ?thesis by (simp add: unat_sub_if')
qed

lemma checksum_closes:
  assumes "T + fold_sum S = S + 65535"
  shows "fold_sum T = 65535"
proof -
  have S: "fold_sum S mod 65535 = S mod 65535" "fold_sum S < 65536" "fold_sum S = 0 \<longleftrightarrow> S = 0"
    using fold_sum_props [of S] by auto
  have le: "fold_sum S \<le> S" using fold_sum_props [of S] by auto
  have "(T + fold_sum S) mod 65535 = fold_sum S mod 65535" using S(1) by (simp add: assms)
  then have "T mod 65535 = 0"
    by (metis add_diff_cancel_right' dvd_imp_mod_0 mod_eq_dvd_iff_nat le_add2)
  then have "fold_sum T mod 65535 = 0" and "fold_sum T < 65536" and "T \<noteq> 0"
    using fold_sum_props [of T] assms le by auto
  moreover have "fold_sum T \<noteq> 0" using fold_sum_props [of T] \<open>T \<noteq> 0\<close> by auto
  ultimately show ?thesis by (auto elim!: dvdE simp: mod_eq_0_iff_dvd)
qed

lemma sum_words_bytes16: "sum_words (bytes16 c @ xs) = unat c + sum_words xs"
  by (simp add: bytes16_def) (metis bytes16_def of_bytes16_bytes16)

lemma checksum_inserted:
  assumes "even (length pre)"
  shows "fold_sum (sum_words (pre @ bytes16 (dhcp_checksum (pre @ bytes16 0 @ post)) @ post)) = 65535"
proof (rule checksum_closes)
  let ?S = "sum_words (pre @ bytes16 0 @ post)"
  have "fold_sum ?S < 65536" using fold_sum_props by blast
  then have "unat (dhcp_checksum (pre @ bytes16 0 @ post)) + fold_sum ?S = 65535"
    by (simp add: dhcp_checksum_def unat_not_u16 unat_of_nat)
  then show "sum_words (pre @ bytes16 (dhcp_checksum (pre @ bytes16 0 @ post)) @ post) + fold_sum ?S =
      ?S + 65535"
    using assms by (simp add: sum_words_append sum_words_bytes16)
qed

lemma iphdr_bytes_check:
  "\<exists>pre post. length pre = 10 \<and> (\<forall>c. iphdr_bytes (h\<lparr>ip_check := c\<rparr>) = pre @ bytes16 c @ post)"
  by (intro exI [of _ "take 10 (iphdr_bytes h)"] exI [of _ "drop 12 (iphdr_bytes h)"])
    (simp add: iphdr_bytes_def)

section \<open>Properties of the wire format\<close>

text \<open>
  Layout round trip: decoding the 628 bytes of the packed struct gives the packet back,
  field by field, for every packet whose arrays have their declared sizes.
\<close>

lemma dhcp_packet_layout_roundtrip:
  assumes "wf_packet p"
  shows "length (dhcp_packet_bytes p) = DHCP_PACKET_SIZE \<and>
    dhcp_packet_of (dhcp_packet_bytes p) = p"
  using assms by (simp add: length_dhcp_packet_bytes dhcp_packet_of_bytes DHCP_PACKET_SIZE_def)

text \<open>
  The checksum is the Internet checksum: the IP header of every frame that
  \<^const>\<open>raw_frame\<close> builds satisfies the receiver's test of RFC 1071, its 16-bit words add up
  to all ones; and for the frame sizes in use the sum fits in the signed 32-bit accumulator.
\<close>

lemma raw_frame_ip_checksum:
  "fold_sum (sum_words (iphdr_bytes (f_ip (raw_frame p sip sport dip dport)))) = 65535 \<and>
   (\<forall>xs. length xs \<le> 656 \<longrightarrow> sum_words xs < 2 ^ 31)"
proof
  obtain h where h: "f_ip (raw_frame p sip sport dip dport) =
      h\<lparr>ip_check := dhcp_checksum (iphdr_bytes (h\<lparr>ip_check := 0\<rparr>))\<rparr>"
    by (simp add: raw_frame_def Let_def) (metis iphdr.select_convs iphdr.update_convs(9))
  obtain pre post where pp: "length pre = 10"
      "\<forall>c. iphdr_bytes (h\<lparr>ip_check := c\<rparr>) = pre @ bytes16 c @ post"
    using iphdr_bytes_check by blast
  have "even (length pre)" using pp(1) by simp
  from checksum_inserted [OF this, of post] pp(2)
  show "fold_sum (sum_words (iphdr_bytes (f_ip (raw_frame p sip sport dip dport)))) = 65535"
    by (simp add: h)
  show "\<forall>xs. length xs \<le> 656 \<longrightarrow> sum_words xs < 2 ^ 31"
  proof (intro allI impI)
    fix xs :: "u8 list" assume "length xs \<le> 656"
    then have "(length xs + 1) div 2 \<le> 328" by simp
    then show "sum_words xs < 2 ^ 31" using sum_words_bound [of xs] by simp
  qed
qed

lemma raw_frame_ip_checksum_witness:
  "length [1 :: u8, 2, 3] \<le> 656 \<and> sum_words [1, 2, 3] < 2 ^ 31 \<and>
   fold_sum (sum_words (iphdr_bytes (f_ip (raw_frame zero_packet 0 68 0xffffffff 67)))) = 65535"
proof -
  note t = raw_frame_ip_checksum [of zero_packet 0 68 "0xffffffff" 67]
  show ?thesis using t [THEN conjunct1] t [THEN conjunct2, rule_format, of "[1, 2, 3]"] by auto
qed

lemma frame_of_take:
  assumes "length (f_data f) = 628"
  shows "frame_of (take 576 (frame_bytes f) @ replicate 80 0) =
    f\<lparr>f_data := take 548 (f_data f) @ replicate 80 0\<rparr>"
proof -
  have "take 576 (frame_bytes f) = frame_bytes (f\<lparr>f_data := take 548 (f_data f)\<rparr>)"
    using assms by (simp add: frame_bytes_def)
  then show ?thesis by (simp add: frame_of_bytes)
qed

lemma dhcp_packet_of_partial:
  assumes "wf_packet p" and "length stack = 628"
  shows "dhcp_packet_of (take 548 (dhcp_packet_bytes p) @ drop 548 stack) =
    p\<lparr>pkt_options := take 308 (pkt_options p) @ drop 548 stack\<rparr>"
proof -
  have "take 548 (dhcp_packet_bytes p) @ drop 548 stack =
      dhcp_packet_bytes (p\<lparr>pkt_options := take 308 (pkt_options p) @ drop 548 stack\<rparr>)"
    using assms by (simp add: dhcp_packet_bytes_def wf_packet_def)
  moreover have "wf_packet (p\<lparr>pkt_options := take 308 (pkt_options p) @ drop 548 stack\<rparr>)"
    using assms by (simp add: wf_packet_def)
  ultimately show ?thesis by (simp add: dhcp_packet_of_bytes)
qed

lemmas wire_sizes = IP_UPD_DHCP_SIZE_def UPD_DHCP_SIZE_def DHCP_PACKET_SIZE_def
  EXTEND_FOR_BUGGY_SERVERS_def

lemma raw_frame_received:
  assumes "wf_packet p" and "pkt_cookie p = htonl DHCP_MAGIC" and "length stack = 628"
    and "0 \<le> sk" and "0 \<le> bd"
  shows "dhcp_recv_l2_packet stack (snd (dhcp_send_raw_packet sk bd n p sip sport dip CLIENT_PORT)) =
    Inr (Some (p\<lparr>pkt_options := take 308 (pkt_options p) @ drop 548 stack\<rparr>))"
proof -
  let ?f = "raw_frame p sip sport dip CLIENT_PORT"
  let ?data = "take 548 (f_data ?f) @ replicate 80 0"
  have data: "f_data ?f = dhcp_packet_bytes p" by (simp add: raw_frame_def Let_def)
  then have len: "length (f_data ?f) = 628" using assms(1) by (simp add: length_dhcp_packet_bytes)
  then have flen: "length (frame_bytes ?f) = 656" by (simp add: frame_bytes_def)
  have ip: "ip_tot_len (f_ip ?f) = htons 576" "ip_protocol (f_ip ?f) = IPPROTO_UDP"
    "ip_version (f_ip ?f) = 4" "ip_ihl (f_ip ?f) = 5"
    "ip_check (f_ip ?f) = dhcp_checksum (iphdr_bytes ((f_ip ?f)\<lparr>ip_check := 0\<rparr>))"
    "udp_dest (f_udp ?f) = htons CLIENT_PORT" "udp_len (f_udp ?f) = htons 556"
    by (simp_all add: raw_frame_def Let_def wire_sizes)
  have udp: "udp_check (f_udp ?f) = dhcp_checksum (take 576 (frame_bytes (?f\<lparr>f_data := ?data, f_ip :=
      \<lparr>ip_ihl = 0, ip_version = 0, ip_tos = 0, ip_tot_len = udp_len (f_udp ?f), ip_id = 0,
       ip_frag_off = 0, ip_ttl = 0, ip_protocol = ip_protocol (f_ip ?f), ip_check = 0,
       ip_saddr = ip_saddr (f_ip ?f), ip_daddr = ip_daddr (f_ip ?f)\<rparr>,
      f_udp := (f_udp ?f)\<lparr>udp_check := 0\<rparr>\<rparr>)))"
    using len unfolding data
    by (simp add: raw_frame_def Let_def wire_sizes frame_bytes_def)
  have snd: "snd (dhcp_send_raw_packet sk bd n p sip sport dip CLIENT_PORT) = Some (take 576 (frame_bytes ?f))"
    using assms(4,5) by (simp add: dhcp_send_raw_packet_def wire_sizes)
  have bytes: "unat (ntohs (ip_tot_len (f_ip ?f))) = 576" by (simp add: ip)
  have sane: "sanity_check (?f\<lparr>f_data := ?data\<rparr>) 576" by (simp add: sanity_check_def ip)
  show ?thesis
    unfolding snd dhcp_recv_l2_packet_def
    using len flen ip(5) udp assms(2) sane bytes
      dhcp_packet_of_partial [OF assms(1,3)]
    by (simp add: Let_def frame_of_take data)
qed

text \<open>
  C29. What the raw sender emits, the raw receiver accepts: for a packet with the DHCP cookie
  sent to the client port, \<^const>\<open>dhcp_recv_l2_packet\<close> passes all its checks on the 576 bytes
  of the frame and delivers the packet, with the last 80 bytes of its option field (which are
  not sent) left as they were in the caller's uninitialised struct.
\<close>

theorem send_recv_roundtrip:
  assumes "wf_packet p" and "pkt_cookie p = htonl DHCP_MAGIC" and "length stack = 628"
    and "0 \<le> sk" and "0 \<le> bd"
  shows "dhcp_recv_l2_packet stack (snd (dhcp_send_raw_packet sk bd n p sip sport dip CLIENT_PORT)) =
    Inr (Some (p\<lparr>pkt_options := take 308 (pkt_options p) @ drop 548 stack\<rparr>))"
  using assms by (rule raw_frame_received)

theorem send_recv_roundtrip_witness:
  "dhcp_recv_l2_packet (replicate 628 0)
     (snd (dhcp_send_raw_packet 3 0 576 (zero_packet\<lparr>pkt_cookie := htonl DHCP_MAGIC\<rparr>) 1 67 2 CLIENT_PORT)) =
   Inr (Some (zero_packet\<lparr>pkt_cookie := htonl DHCP_MAGIC, pkt_options := replicate 388 0\<rparr>))"
  using send_recv_roundtrip [of "zero_packet\<lparr>pkt_cookie := htonl DHCP_MAGIC\<rparr>" "replicate 628 0" 3 0 576 1 67 2]
  by (simp add: wf_packet_def zero_packet_def flip: replicate_add)

text \<open>
  The raw receiver has one unsafe path: whatever bytes arrive, it faults only by copying
  a wrapped length, and only for a frame whose IP total length is below the 28 bytes of the
  two headers. The witness is such a frame: it passes every check that precedes the copy.
\<close>

lemma recv_l2_fault_short:
  assumes "dhcp_recv_l2_packet stack input = Inl f"
  shows "\<exists>bs. input = Some bs \<and> f = BadLength \<and> 28 \<le> length bs \<and>
    unat (ntohs (ip_tot_len (f_ip (frame_of (take 656 bs @ replicate (656 - length bs) 0))))) < 28"
  using assms
  by (auto simp: dhcp_recv_l2_packet_def Let_def min_def split: option.splits if_splits)

definition short_frame :: "u8 list" where
  "short_frame = [0x45, 0, 0, 20, 0, 0, 0, 0, 64, 17, 0x7a, 0xda, 0, 0, 0, 0, 0, 0, 0, 0,
     0, 67, 0, 68, 0, 0, 0, 0]"

lemma short_frame_headers:
  "frame_of (short_frame @ rest) =
    \<lparr>f_ip = \<lparr>ip_ihl = 5, ip_version = 4, ip_tos = 0, ip_tot_len = htons 20, ip_id = 0,
       ip_frag_off = 0, ip_ttl = 64, ip_protocol = 17, ip_check = 0xda7a, ip_saddr = 0,
       ip_daddr = 0\<rparr>,
     f_udp = \<lparr>udp_source = htons 67, udp_dest = htons 68, udp_len = 0, udp_check = 0\<rparr>,
     f_data = rest\<rparr>"
  by (simp add: frame_of_def short_frame_def field_def iphdr_of_def udphdr_of_def of_bytes16_def
    of_bytes32_def htons_def bytes16_def)

lemma short_frame_faults: "dhcp_recv_l2_packet stack (Some short_frame) = Inl BadLength"
proof -
  have len: "length short_frame = 28" by (simp add: short_frame_def)
  have tk: "take 656 short_frame = short_frame" by (simp add: len)
  have sum: "dhcp_checksum (iphdr_bytes \<lparr>ip_ihl = 5, ip_version = 4, ip_tos = 0,
      ip_tot_len = 0x1400, ip_id = 0, ip_frag_off = 0, ip_ttl = 64, ip_protocol = 17,
      ip_check = 0, ip_saddr = 0, ip_daddr = 0\<rparr>) = 0xda7a"
    by (simp add: dhcp_checksum_def iphdr_bytes_def htons_def bytes16_def bytes32_def of_bytes16_def
      fold_sum.simps)
  show ?thesis
    unfolding dhcp_recv_l2_packet_def
    by (simp add: tk len Let_def short_frame_headers sum sanity_check_def IPPROTO_UDP_def
      CLIENT_PORT_def htons_def bytes16_def of_bytes16_def)
qed

lemma recv_l2_fault_short_witness:
  "dhcp_recv_l2_packet (replicate 628 0) (Some short_frame) = Inl BadLength \<and>
   (\<exists>bs. Some short_frame = Some bs \<and> BadLength = BadLength \<and> 28 \<le> length bs \<and>
     unat (ntohs (ip_tot_len (f_ip (frame_of (take 656 bs @ replicate (656 - length bs) 0))))) < 28)"
  using recv_l2_fault_short [OF short_frame_faults] short_frame_faults by blast

end
