(* ===== verification/Dhcp_Server.thy ===== *)
theory Dhcp_Server
  imports Dhcp_Wire
begin

text \<open>
  The DHCP server (\<^verbatim>\<open>gdhcp/server.c\<close>): its lease table, the choice of an address, the replies
  and the handler of a received packet. A lease is a heap object: the lease list holds the
  pointer of each lease with its contents, the hash table of addresses holds pointers only,
  so a stale pointer in the hash is one that is not in the list. What the code takes from
  outside (the clock, whether an allocation succeeds, the sorted insertion of GLib,
  \<^verbatim>\<open>inet_aton\<close>, the traversal order of the option hash) is in the record \<open>srv_env\<close>.
\<close>

section \<open>State\<close>

type_synonym ptr = nat

record dhcp_lease =
  lease_expire :: int
  lease_nip :: u32
  lease_mac :: "u8 list"

datatype GDHCPType = G_DHCP_IPV4 | G_DHCP_IPV6 | G_DHCP_IPV4LL

record GDHCPServer =
  srv_ref_count :: int
  srv_type :: GDHCPType
  srv_started :: bool
  srv_ifindex :: int
  srv_interface :: string
  srv_start_ip :: u32
  srv_end_ip :: u32
  srv_server_nip :: u32
  srv_lease_seconds :: u32
  srv_listener_sockfd :: int
  srv_listener_watch :: u32
  srv_listener_channel :: bool
  srv_lease_list :: "(ptr \<times> dhcp_lease) list"
  srv_nip_lease_hash :: "u32 \<rightharpoonup> ptr"
  srv_option_hash :: "u8 \<rightharpoonup> string"
  srv_save_lease_func :: bool
  srv_next_ptr :: ptr

record srv_env =
  env_now :: int
  env_mem :: bool
  env_insert_sorted :: "((ptr \<times> dhcp_lease) \<Rightarrow> (ptr \<times> dhcp_lease) \<Rightarrow> int) \<Rightarrow> (ptr \<times> dhcp_lease) \<Rightarrow>
    (ptr \<times> dhcp_lease) list \<Rightarrow> (ptr \<times> dhcp_lease) list"
  env_inet_aton :: "string \<Rightarrow> u32 option"
  env_option_order :: "u8 list"

text \<open>What the server does to the outside: raw frames it sends, leases it hands to be saved,
  main loop sources it removes.\<close>

datatype srv_out =
    SendRaw dhcp_packet u32 u16 u32 u16 "u8 list" int
  | SaveLease "u8 list" u32 int
  | SourceRemove u32


definition DEFAULT_DHCP_LEASE_SEC :: u32 where "DEFAULT_DHCP_LEASE_SEC = 8 * 60 * 60"
definition OFFER_TIME :: u32 where "OFFER_TIME = 5 * 60"
definition ETH_ALEN :: nat where "ETH_ALEN = 6"
definition MAC_BCAST_ADDR :: "u8 list" where "MAC_BCAST_ADDR = replicate 6 0xff"
definition MAC_ANY_ADDR :: "u8 list" where "MAC_ANY_ADDR = replicate 6 0"
definition INADDR_BROADCAST :: u32 where "INADDR_BROADCAST = 0xffffffff"

section \<open>The lease table\<close>

text \<open>\<open>g_list_remove\<close> drops the first element that is the given pointer.\<close>

fun g_list_remove :: "ptr \<Rightarrow> (ptr \<times> 'a) list \<Rightarrow> (ptr \<times> 'a) list" where
  "g_list_remove p [] = []"
| "g_list_remove p (x # xs) = (if fst x = p then xs else x # g_list_remove p xs)"

definition find_lease_by_mac :: "GDHCPServer \<Rightarrow> u8 list \<Rightarrow> (ptr \<times> dhcp_lease) option" where
  "find_lease_by_mac s mac = find (\<lambda>(p, l). lease_mac l = take ETH_ALEN mac) (srv_lease_list s)"

definition remove_lease :: "GDHCPServer \<Rightarrow> ptr \<times> dhcp_lease \<Rightarrow> GDHCPServer" where
  "remove_lease s lease =
     s\<lparr>srv_lease_list := g_list_remove (fst lease) (srv_lease_list s),
       srv_nip_lease_hash := (srv_nip_lease_hash s)(lease_nip (snd lease) := None)\<rparr>"

text \<open>
  \<open>get_lease\<close>: a negative errno, or the pointer of the lease to reuse, which is no longer in
  the table.
\<close>

definition get_lease :: "srv_env \<Rightarrow> GDHCPServer \<Rightarrow> u32 \<Rightarrow> u8 list \<Rightarrow> (int + ptr) \<times> GDHCPServer" where
  "get_lease env s yiaddr mac =
     (if yiaddr = 0 then (Inl (- ENXIO), s)
      else if ntohl yiaddr < srv_start_ip s then (Inl (- ENXIO), s)
      else if ntohl yiaddr > srv_end_ip s then (Inl (- ENXIO), s)
      else if take ETH_ALEN mac = MAC_BCAST_ADDR then (Inl (- ENXIO), s)
      else if take ETH_ALEN mac = MAC_ANY_ADDR then (Inl (- ENXIO), s)
      else
        let lmac = find_lease_by_mac s mac in
        case srv_nip_lease_hash s yiaddr of
          Some lnip \<Rightarrow>
            let s1 = s\<lparr>srv_lease_list := g_list_remove lnip (srv_lease_list s),
                       srv_nip_lease_hash := (srv_nip_lease_hash s)(yiaddr := None)\<rparr> in
            (case lmac of
               None \<Rightarrow> (Inr lnip, s1)
             | Some lm \<Rightarrow>
                 if lnip \<noteq> fst lm then (Inr lnip, remove_lease s1 lm)
                 else (Inr lnip, s1))
        | None \<Rightarrow>
            (case lmac of
               Some lm \<Rightarrow>
                 (Inr (fst lm),
                  s\<lparr>srv_lease_list := g_list_remove (fst lm) (srv_lease_list s),
                    srv_nip_lease_hash := (srv_nip_lease_hash s)(lease_nip (snd lm) := None)\<rparr>)
             | None \<Rightarrow>
                 if env_mem env then (Inr (srv_next_ptr s), s\<lparr>srv_next_ptr := Suc (srv_next_ptr s)\<rparr>)
                 else (Inl (- ENOMEM), s)))"

text \<open>The difference of the two \<^verbatim>\<open>time_t\<close> values is returned as a 32-bit \<^verbatim>\<open>gint\<close>.\<close>

definition compare_expire :: "ptr \<times> dhcp_lease \<Rightarrow> ptr \<times> dhcp_lease \<Rightarrow> int" where
  "compare_expire a b = sint (word_of_int (lease_expire (snd b) - lease_expire (snd a)) :: u32)"

definition add_lease ::
  "srv_env \<Rightarrow> GDHCPServer \<Rightarrow> u32 \<Rightarrow> u8 list \<Rightarrow> u32 \<Rightarrow> (ptr \<times> dhcp_lease) option \<times> GDHCPServer" where
  "add_lease env s expire chaddr yiaddr =
     (case get_lease env s yiaddr chaddr of
        (Inl ret, s1) \<Rightarrow> (None, s1)
      | (Inr p, s1) \<Rightarrow>
          let lease = (p, \<lparr>lease_expire = (if expire = 0 then env_now env + uint (srv_lease_seconds s1)
                                           else uint expire),
                           lease_nip = yiaddr, lease_mac = take ETH_ALEN chaddr\<rparr>) in
          (Some lease,
           s1\<lparr>srv_lease_list := env_insert_sorted env compare_expire lease (srv_lease_list s1),
              srv_nip_lease_hash := (srv_nip_lease_hash s1)(yiaddr \<mapsto> p)\<rparr>))"

definition find_lease_by_nip :: "GDHCPServer \<Rightarrow> u32 \<Rightarrow> ptr option" where
  "find_lease_by_nip s nip = srv_nip_lease_hash s nip"

definition arp_check :: "u32 \<Rightarrow> u8 list \<Rightarrow> bool" where
  "arp_check nip safe_mac = True"

definition is_expired_lease :: "srv_env \<Rightarrow> dhcp_lease \<Rightarrow> bool" where
  "is_expired_lease env l \<longleftrightarrow> lease_expire l < env_now env"

partial_function (option) free_nip_loop :: "GDHCPServer \<Rightarrow> u8 list \<Rightarrow> u32 \<Rightarrow> u32 option option" where
  "free_nip_loop s safe_mac ip_addr =
     (if ip_addr \<le> srv_end_ip s then
        (if ip_addr AND 0xff = 0 then free_nip_loop s safe_mac (ip_addr + 1)
         else if ip_addr AND 0xff = 0xff then free_nip_loop s safe_mac (ip_addr + 1)
         else if find_lease_by_nip s (htonl ip_addr) \<noteq> None then
           free_nip_loop s safe_mac (ip_addr + 1)
         else if arp_check (htonl ip_addr) safe_mac then Some (Some (htonl ip_addr))
         else free_nip_loop s safe_mac (ip_addr + 1))
      else Some None)"

definition find_free_or_expired_nip :: "srv_env \<Rightarrow> GDHCPServer \<Rightarrow> u8 list \<Rightarrow> u32 option" where
  "find_free_or_expired_nip env s safe_mac =
     (case free_nip_loop s safe_mac (srv_start_ip s) of
        None \<Rightarrow> None
      | Some (Some nip) \<Rightarrow> Some nip
      | Some None \<Rightarrow>
          if srv_lease_list s = [] then Some 0
          else
            let lease = snd (last (srv_lease_list s)) in
            if \<not> is_expired_lease env lease then Some 0
            else if \<not> arp_check (lease_nip lease) safe_mac then Some 0
            else Some (lease_nip lease))"

definition lease_set_expire :: "srv_env \<Rightarrow> GDHCPServer \<Rightarrow> ptr \<times> dhcp_lease \<Rightarrow> int \<Rightarrow> GDHCPServer" where
  "lease_set_expire env s lease expire =
     s\<lparr>srv_lease_list := env_insert_sorted env compare_expire
         (fst lease, (snd lease)\<lparr>lease_expire := uint (word_of_int expire :: u32)\<rparr>)
         (g_list_remove (fst lease) (srv_lease_list s))\<rparr>"

definition destroy_lease_table :: "GDHCPServer \<Rightarrow> GDHCPServer" where
  "destroy_lease_table s = s\<lparr>srv_nip_lease_hash := Map.empty, srv_lease_list := []\<rparr>"

section \<open>Creation\<close>

datatype GDHCPServerError =
    G_DHCP_SERVER_ERROR_NONE | G_DHCP_SERVER_ERROR_INTERFACE_UNAVAILABLE
  | G_DHCP_SERVER_ERROR_INTERFACE_IN_USE | G_DHCP_SERVER_ERROR_INTERFACE_DOWN
  | G_DHCP_SERVER_ERROR_NOMEM | G_DHCP_SERVER_ERROR_INVALID_INDEX
  | G_DHCP_SERVER_ERROR_INVALID_OPTION | G_DHCP_SERVER_ERROR_IP_ADDRESS_INVALID

text \<open>
  The last four arguments are the results of the allocation, of \<^verbatim>\<open>get_interface_name\<close>, of
  \<^verbatim>\<open>interface_is_up\<close> and of \<^verbatim>\<open>get_interface_address\<close>.
\<close>

definition g_dhcp_server_new ::
  "GDHCPType \<Rightarrow> int \<Rightarrow> bool \<Rightarrow> string option \<Rightarrow> bool \<Rightarrow> u32 \<Rightarrow> GDHCPServerError + GDHCPServer" where
  "g_dhcp_server_new type ifindex mem name up addr =
     (if ifindex < 0 then Inl G_DHCP_SERVER_ERROR_INVALID_INDEX
      else if \<not> mem then Inl G_DHCP_SERVER_ERROR_NOMEM
      else case name of
        None \<Rightarrow> Inl G_DHCP_SERVER_ERROR_INTERFACE_UNAVAILABLE
      | Some ifname \<Rightarrow>
          if \<not> up then Inl G_DHCP_SERVER_ERROR_INTERFACE_DOWN
          else if addr = 0 then Inl G_DHCP_SERVER_ERROR_IP_ADDRESS_INVALID
          else Inr \<lparr>srv_ref_count = 1, srv_type = type, srv_started = False,
            srv_ifindex = ifindex, srv_interface = ifname, srv_start_ip = 0, srv_end_ip = 0,
            srv_server_nip = addr, srv_lease_seconds = DEFAULT_DHCP_LEASE_SEC,
            srv_listener_sockfd = - 1, srv_listener_watch = - 1, srv_listener_channel = False,
            srv_lease_list = [], srv_nip_lease_hash = Map.empty, srv_option_hash = Map.empty,
            srv_save_lease_func = False, srv_next_ptr = 0\<rparr>)"

section \<open>Replies\<close>

definition check_packet_type :: "dhcp_packet \<Rightarrow> u8 diverging" where
  "check_packet_type p =
     (if unat (pkt_hlen p) \<noteq> ETH_ALEN then ret_d 0
      else if pkt_op p \<noteq> BOOTREQUEST then ret_d 0
      else bind_d (dhcp_get_option p DHCP_MESSAGE_TYPE) (\<lambda>opt.
        case opt of
          None \<Rightarrow> ret_d 0
        | Some ptr \<Rightarrow> bind_d (Some (dhcp_get_u8 p ptr)) (\<lambda>type.
            if type < DHCP_MINTYPE then ret_d 0
            else if type > DHCP_MAXTYPE then ret_d 0
            else ret_d type)))"

definition init_packet :: "GDHCPServer \<Rightarrow> dhcp_packet \<Rightarrow> u8 \<Rightarrow> dhcp_packet result" where
  "init_packet s client_packet type =
     bind_r (dhcp_init_header type) (\<lambda>packet.
       dhcp_add_simple_option
         (packet\<lparr>pkt_xid := pkt_xid client_packet, pkt_chaddr := pkt_chaddr client_packet,
                 pkt_flags := pkt_flags client_packet,
                 pkt_gateway_nip := pkt_gateway_nip client_packet,
                 pkt_ciaddr := pkt_ciaddr client_packet\<rparr>)
         DHCP_SERVER_ID (srv_server_nip s))"

definition add_option :: "srv_env \<Rightarrow> u8 \<Rightarrow> string \<Rightarrow> dhcp_packet \<Rightarrow> dhcp_packet result" where
  "add_option env option_code option_value packet =
     (if option_code \<in> {DHCP_SUBNET, DHCP_ROUTER, DHCP_DNS_SERVER} then
        (case env_inet_aton env option_value of
           None \<Rightarrow> Inr packet
         | Some nip \<Rightarrow> dhcp_add_simple_option packet option_code nip)
      else Inr packet)"

fun add_options :: "srv_env \<Rightarrow> (u8 \<rightharpoonup> string) \<Rightarrow> u8 list \<Rightarrow> dhcp_packet \<Rightarrow> dhcp_packet result" where
  "add_options env hash [] packet = Inr packet"
| "add_options env hash (c # cs) packet =
     (case hash c of
        None \<Rightarrow> add_options env hash cs packet
      | Some v \<Rightarrow> bind_r (add_option env c v packet) (add_options env hash cs))"

definition add_server_options :: "srv_env \<Rightarrow> GDHCPServer \<Rightarrow> dhcp_packet \<Rightarrow> dhcp_packet result" where
  "add_server_options env s packet =
     add_options env (srv_option_hash s) (env_option_order env) packet"

text \<open>The hash gives a pointer; reading a lease that is not in the table is a fault.\<close>

definition check_requested_nip :: "srv_env \<Rightarrow> GDHCPServer \<Rightarrow> u32 \<Rightarrow> bool result" where
  "check_requested_nip env s requested_nip =
     (if requested_nip = 0 then Inr False
      else if ntohl requested_nip < srv_start_ip s then Inr False
      else if ntohl requested_nip > srv_end_ip s then Inr False
      else case find_lease_by_nip s requested_nip of
        None \<Rightarrow> Inr True
      | Some p \<Rightarrow>
          (case map_of (srv_lease_list s) p of
             None \<Rightarrow> Inl NullDeref
           | Some lease \<Rightarrow> Inr (is_expired_lease env lease)))"

definition send_packet_to_client :: "GDHCPServer \<Rightarrow> dhcp_packet \<Rightarrow> srv_out" where
  "send_packet_to_client s dhcp_pkt =
     (if pkt_flags dhcp_pkt AND htons BROADCAST_FLAG \<noteq> 0 \<or> pkt_ciaddr dhcp_pkt = 0 then
        SendRaw dhcp_pkt (srv_server_nip s) SERVER_PORT INADDR_BROADCAST CLIENT_PORT
          MAC_BCAST_ADDR (srv_ifindex s)
      else
        SendRaw dhcp_pkt (srv_server_nip s) SERVER_PORT (pkt_ciaddr dhcp_pkt) CLIENT_PORT
          (pkt_chaddr dhcp_pkt) (srv_ifindex s))"

definition offer_address ::
  "srv_env \<Rightarrow> GDHCPServer \<Rightarrow> u8 list \<Rightarrow> (ptr \<times> dhcp_lease) option \<Rightarrow> u32 \<Rightarrow> u32 diverging" where
  "offer_address env s chaddr lease requested_nip =
     (case lease of
        Some l \<Rightarrow> ret_d (lease_nip (snd l))
      | None \<Rightarrow> bind_d (Some (check_requested_nip env s requested_nip)) (\<lambda>ok.
          if ok then ret_d requested_nip
          else map_option Inr (find_free_or_expired_nip env s chaddr)))"

definition send_offer ::
  "srv_env \<Rightarrow> GDHCPServer \<Rightarrow> dhcp_packet \<Rightarrow> (ptr \<times> dhcp_lease) option \<Rightarrow> u32 \<Rightarrow>
   (GDHCPServer \<times> srv_out list) diverging" where
  "send_offer env s client_packet lease requested_nip =
     bind_d (Some (init_packet s client_packet DHCPOFFER)) (\<lambda>packet.
     bind_d (offer_address env s (pkt_chaddr client_packet) lease requested_nip) (\<lambda>yiaddr.
       if yiaddr = 0 then ret_d (s, [])
       else case add_lease env s OFFER_TIME (pkt_chaddr packet) yiaddr of
         (None, s1) \<Rightarrow> ret_d (s1, [])
       | (Some _, s1) \<Rightarrow>
           bind_d (Some (bind_r
               (dhcp_add_simple_option (packet\<lparr>pkt_yiaddr := yiaddr\<rparr>) DHCP_LEASE_TIME
                  (htonl (srv_lease_seconds s1)))
               (add_server_options env s1)))
             (\<lambda>packet. ret_d (s1, [send_packet_to_client s1 packet]))))"

definition save_lease :: "GDHCPServer \<Rightarrow> srv_out list" where
  "save_lease s =
     (if \<not> srv_save_lease_func s then []
      else map (\<lambda>(p, l). SaveLease (lease_mac l) (lease_nip l) (lease_expire l)) (srv_lease_list s))"

definition send_ACK ::
  "srv_env \<Rightarrow> GDHCPServer \<Rightarrow> dhcp_packet \<Rightarrow> u32 \<Rightarrow> (GDHCPServer \<times> srv_out list) result" where
  "send_ACK env s client_packet yiaddr =
     bind_r (init_packet s client_packet DHCPACK) (\<lambda>packet.
     bind_r (dhcp_add_simple_option (packet\<lparr>pkt_yiaddr := yiaddr\<rparr>) DHCP_LEASE_TIME
        (htonl (srv_lease_seconds s))) (\<lambda>packet.
     bind_r (add_server_options env s packet) (\<lambda>packet.
       Inr (snd (add_lease env s 0 (pkt_chaddr packet) (pkt_yiaddr packet)),
            [send_packet_to_client s packet]))))"

definition send_NAK :: "GDHCPServer \<Rightarrow> dhcp_packet \<Rightarrow> srv_out list result" where
  "send_NAK s client_packet =
     bind_r (init_packet s client_packet DHCPNAK) (\<lambda>packet.
       Inr [SendRaw packet (srv_server_nip s) SERVER_PORT INADDR_BROADCAST CLIENT_PORT
              MAC_BCAST_ADDR (srv_ifindex s)])"

definition send_inform :: "srv_env \<Rightarrow> GDHCPServer \<Rightarrow> dhcp_packet \<Rightarrow> srv_out list result" where
  "send_inform env s client_packet =
     bind_r (init_packet s client_packet DHCPACK) (\<lambda>packet.
     bind_r (add_server_options env s packet) (\<lambda>packet.
       Inr [send_packet_to_client s packet]))"

section \<open>The packet handler\<close>

definition get_ip_option :: "dhcp_packet \<Rightarrow> u8 \<Rightarrow> u32 option diverging" where
  "get_ip_option packet code =
     bind_d (dhcp_get_option packet code) (\<lambda>opt.
       case opt of
         None \<Rightarrow> ret_d None
       | Some ptr \<Rightarrow> bind_d (Some (dhcp_get_unaligned packet ptr)) (\<lambda>v. ret_d (Some v)))"

text \<open>The switch of \<^verbatim>\<open>listener_event\<close> on the message type, after the options have been read.\<close>

definition handle_message ::
  "srv_env \<Rightarrow> GDHCPServer \<Rightarrow> dhcp_packet \<Rightarrow> u8 \<Rightarrow> u32 option \<Rightarrow> u32 option \<Rightarrow>
   (GDHCPServer \<times> srv_out list) diverging" where
  "handle_message env s packet type server_id_option request_ip_option =
     (let requested_nip = (case request_ip_option of None \<Rightarrow> 0 | Some v \<Rightarrow> v);
          lease = find_lease_by_mac s (pkt_chaddr packet) in
      if type = DHCPDISCOVER then send_offer env s packet lease requested_nip
      else if type = DHCPREQUEST then
        (let requested_nip = (if requested_nip = 0 then pkt_ciaddr packet else requested_nip) in
         if requested_nip = 0 then ret_d (s, [])
         else if lease \<noteq> None \<and> requested_nip = lease_nip (snd (the lease)) then
           Some (send_ACK env s packet (lease_nip (snd (the lease))))
         else if server_id_option \<noteq> None \<or> lease = None then
           Some (bind_r (send_NAK s packet) (\<lambda>out. Inr (s, out)))
         else ret_d (s, []))
      else if type = DHCPDECLINE then
        (if server_id_option = None \<or> request_ip_option = None then ret_d (s, [])
         else case lease of
           None \<Rightarrow> ret_d (s, [])
         | Some l \<Rightarrow>
             if requested_nip = lease_nip (snd l) then ret_d (remove_lease s l, [])
             else ret_d (s, []))
      else if type = DHCPRELEASE then
        (if server_id_option = None then ret_d (s, [])
         else case lease of
           None \<Rightarrow> ret_d (s, [])
         | Some l \<Rightarrow>
             if pkt_ciaddr packet = lease_nip (snd l) then
               ret_d (lease_set_expire env s l (env_now env), [])
             else ret_d (s, []))
      else if type = DHCPINFORM then
        Some (bind_r (send_inform env s packet) (\<lambda>out. Inr (s, out)))
      else ret_d (s, []))"

definition handle_packet ::
  "srv_env \<Rightarrow> GDHCPServer \<Rightarrow> dhcp_packet \<Rightarrow> (GDHCPServer \<times> srv_out list) diverging" where
  "handle_packet env s packet =
     bind_d (check_packet_type packet) (\<lambda>type.
       if type = 0 then ret_d (s, [])
       else bind_d (get_ip_option packet DHCP_SERVER_ID) (\<lambda>server_id_option.
         case server_id_option of
           Some server_nid \<Rightarrow>
             if server_nid \<noteq> srv_server_nip s then ret_d (s, [])
             else bind_d (get_ip_option packet DHCP_REQUESTED_IP) (\<lambda>request_ip_option.
               handle_message env s packet type server_id_option request_ip_option)
         | None \<Rightarrow> bind_d (get_ip_option packet DHCP_REQUESTED_IP) (\<lambda>request_ip_option.
             handle_message env s packet type None request_ip_option)))"

text \<open>
  \<open>listener_event\<close>: whether the watch stays, the server and its output. The first argument
  after the server is whether the channel reported an error, the second what was read.
\<close>

definition listener_event ::
  "srv_env \<Rightarrow> GDHCPServer \<Rightarrow> bool \<Rightarrow> int + u8 list \<Rightarrow> (bool \<times> GDHCPServer \<times> srv_out list) diverging" where
  "listener_event env s condition_error input =
     (if condition_error then ret_d (False, s\<lparr>srv_listener_watch := 0\<rparr>, [])
      else bind_d (dhcp_recv_l3_packet input) (\<lambda>re.
        case re of
          Inl e \<Rightarrow> ret_d (True, s, [])
        | Inr packet \<Rightarrow> bind_d (handle_packet env s packet) (\<lambda>(s1, out). ret_d (True, s1, out))))"

section \<open>The other operations of the interface\<close>

text \<open>The arguments after the server: the socket and the watch that were obtained.\<close>

definition g_dhcp_server_start :: "GDHCPServer \<Rightarrow> int \<Rightarrow> bool \<Rightarrow> u32 \<Rightarrow> int \<times> GDHCPServer" where
  "g_dhcp_server_start s sockfd channel watch =
     (if srv_started s then (0, s)
      else if sockfd < 0 then (- EIO, s)
      else if \<not> channel then (- EIO, s)
      else (0, s\<lparr>srv_listener_sockfd := sockfd, srv_listener_channel := True,
                 srv_listener_watch := watch, srv_started := True\<rparr>))"

definition g_dhcp_server_set_option ::
  "srv_env \<Rightarrow> GDHCPServer \<Rightarrow> u8 \<Rightarrow> string option \<Rightarrow> int \<times> GDHCPServer" where
  "g_dhcp_server_set_option env s option_code option_value =
     (case option_value of
        None \<Rightarrow> (- EINVAL, s)
      | Some v \<Rightarrow>
          if option_code \<in> {DHCP_SUBNET, DHCP_ROUTER, DHCP_DNS_SERVER} then
            (if env_inet_aton env v = None then (- ENXIO, s)
             else (0, s\<lparr>srv_option_hash := (srv_option_hash s)(option_code \<mapsto> v)\<rparr>))
          else (- EINVAL, s))"

definition g_dhcp_server_set_save_lease :: "GDHCPServer \<Rightarrow> bool \<Rightarrow> GDHCPServer" where
  "g_dhcp_server_set_save_lease s func = s\<lparr>srv_save_lease_func := func\<rparr>"

definition g_dhcp_server_ref :: "GDHCPServer \<Rightarrow> GDHCPServer" where
  "g_dhcp_server_ref s = s\<lparr>srv_ref_count := srv_ref_count s + 1\<rparr>"

definition g_dhcp_server_stop :: "GDHCPServer \<Rightarrow> GDHCPServer \<times> srv_out list" where
  "g_dhcp_server_stop s =
     (s\<lparr>srv_listener_watch := 0, srv_listener_channel := False, srv_started := False\<rparr>,
      save_lease s @ (if srv_listener_watch s > 0 then [SourceRemove (srv_listener_watch s)] else []))"

text \<open>\<open>g_dhcp_server_unref\<close>: no server is left when the count was one.\<close>

definition g_dhcp_server_unref :: "GDHCPServer \<Rightarrow> GDHCPServer option \<times> srv_out list" where
  "g_dhcp_server_unref s =
     (if srv_ref_count s \<noteq> 1 then (Some (s\<lparr>srv_ref_count := srv_ref_count s - 1\<rparr>), [])
      else (None, snd (g_dhcp_server_stop s)))"

definition g_dhcp_server_load_lease ::
  "srv_env \<Rightarrow> GDHCPServer \<Rightarrow> u32 \<Rightarrow> u8 list \<Rightarrow> u32 \<Rightarrow> GDHCPServer" where
  "g_dhcp_server_load_lease env s expire mac lease_ip = snd (add_lease env s expire mac lease_ip)"

definition g_dhcp_server_set_ip_range ::
  "srv_env \<Rightarrow> GDHCPServer \<Rightarrow> string \<Rightarrow> string \<Rightarrow> int \<times> GDHCPServer" where
  "g_dhcp_server_set_ip_range env s start_ip end_ip =
     (case env_inet_aton env start_ip of
        None \<Rightarrow> (- ENXIO, s)
      | Some a \<Rightarrow>
          let s1 = s\<lparr>srv_start_ip := ntohl a\<rparr> in
          (case env_inet_aton env end_ip of
             None \<Rightarrow> (- ENXIO, s1)
           | Some b \<Rightarrow> (0, s1\<lparr>srv_end_ip := ntohl b\<rparr>)))"

definition g_dhcp_server_set_lease_time :: "GDHCPServer \<Rightarrow> u32 \<Rightarrow> GDHCPServer" where
  "g_dhcp_server_set_lease_time s lease_time = s\<lparr>srv_lease_seconds := lease_time\<rparr>"

end
