(* ===== verification/Lease_Table.thy ===== *)
theory Lease_Table
  imports Dhcp_Server
begin

text \<open>
  The lease table of the DHCP server: its invariant, what every table operation of
  \<^verbatim>\<open>gdhcp/server.c\<close> does to the set of leases, and the contract of a lease table as a locale
  with the server's table as its interpretation.
\<close>

section \<open>The lease table invariant\<close>

abbreviation table :: "GDHCPServer \<Rightarrow> (ptr \<times> dhcp_lease) set" where
  "table s \<equiv> set (srv_lease_list s)"

text \<open>
  The list holds each lease object once, the hash points at exactly the leases of the list
  under their addresses (so no pointer is stale and no address has two leases), and no
  client has two leases.
\<close>

definition lease_inv :: "GDHCPServer \<Rightarrow> bool" where
  "lease_inv s \<longleftrightarrow> distinct (map fst (srv_lease_list s)) \<and>
     (\<forall>n p. srv_nip_lease_hash s n = Some p \<longleftrightarrow> (\<exists>l. (p, l) \<in> table s \<and> lease_nip l = n)) \<and>
     (\<forall>p l q m. (p, l) \<in> table s \<longrightarrow> (q, m) \<in> table s \<longrightarrow> lease_mac l = lease_mac m \<longrightarrow> p = q) \<and>
     (\<forall>p l. (p, l) \<in> table s \<longrightarrow>
        p < srv_next_ptr s \<and> lease_nip l \<noteq> 0 \<and> length (lease_mac l) \<le> ETH_ALEN)"

text \<open>
  What the server relies on from \<^verbatim>\<open>g_list_insert_sorted\<close>: the element is placed behind the
  elements it compares greater than, and before the first one it does not.
\<close>

definition inserts_sorted :: "(('a \<Rightarrow> 'a \<Rightarrow> int) \<Rightarrow> 'a \<Rightarrow> 'a list \<Rightarrow> 'a list) \<Rightarrow> bool" where
  "inserts_sorted ins \<longleftrightarrow> (\<forall>cmp x xs. \<exists>ys zs. xs = ys @ zs \<and> ins cmp x xs = ys @ x # zs \<and>
     (\<forall>y \<in> set ys. 0 < cmp x y) \<and> (zs \<noteq> [] \<longrightarrow> cmp x (hd zs) \<le> 0))"

lemma inserts_sortedE:
  assumes "inserts_sorted ins"
  obtains ys zs where "xs = ys @ zs" and "ins cmp x xs = ys @ x # zs"
    and "\<forall>y \<in> set ys. 0 < cmp x y" and "zs \<noteq> [] \<longrightarrow> cmp x (hd zs) \<le> 0"
  using assms unfolding inserts_sorted_def by meson

lemma set_insert_sorted:
  assumes "inserts_sorted ins"
  shows "set (ins cmp x xs) = insert x (set xs)"
  by (rule inserts_sortedE [OF assms, of xs cmp x]) auto

lemma distinct_insert_sorted:
  assumes "inserts_sorted ins" and "distinct (map f xs)" and "f x \<notin> f ` set xs"
  shows "distinct (map f (ins cmp x xs))"
  by (rule inserts_sortedE [OF assms(1), of xs cmp x]) (use assms(2,3) in auto)

lemma g_list_remove_set:
  "distinct (map fst xs) \<Longrightarrow> (p, l) \<in> set xs \<Longrightarrow> set (g_list_remove p xs) = set xs - {(p, l)}"
proof (induction xs)
  case (Cons x xs)
  then show ?case by (cases x) (force simp: image_iff)
qed simp

lemma g_list_remove_subset: "set (g_list_remove p xs) \<subseteq> set xs"
  by (induction xs) auto

lemma g_list_remove_distinct: "distinct (map fst xs) \<Longrightarrow> distinct (map fst (g_list_remove p xs))"
proof (induction xs)
  case (Cons x xs)
  then show ?case using g_list_remove_subset [of p xs] by (auto simp: image_iff)
qed simp

lemma lease_invD:
  assumes "lease_inv s"
  shows "distinct (map fst (srv_lease_list s))"
    and "srv_nip_lease_hash s n = Some p \<longleftrightarrow> (\<exists>l. (p, l) \<in> table s \<and> lease_nip l = n)"
    and "(p, l) \<in> table s \<Longrightarrow> (q, m) \<in> table s \<Longrightarrow> lease_mac l = lease_mac m \<Longrightarrow> p = q"
    and "(p, l) \<in> table s \<Longrightarrow> p < srv_next_ptr s"
    and "(p, l) \<in> table s \<Longrightarrow> lease_nip l \<noteq> 0"
    and "(p, l) \<in> table s \<Longrightarrow> length (lease_mac l) \<le> ETH_ALEN"
  using assms unfolding lease_inv_def by blast+

lemma table_functional: "lease_inv s \<Longrightarrow> (p, l) \<in> table s \<Longrightarrow> (p, m) \<in> table s \<Longrightarrow> l = m"
  using eq_key_imp_eq_value lease_invD(1) by metis

lemma table_nip_unique:
  assumes "lease_inv s" and "(p, l) \<in> table s" and "(q, m) \<in> table s" and "lease_nip l = lease_nip m"
  shows "p = q \<and> l = m"
proof -
  have "srv_nip_lease_hash s (lease_nip l) = Some p" and "srv_nip_lease_hash s (lease_nip l) = Some q"
    using assms lease_invD(2) by metis+
  then have "p = q" by simp
  with assms table_functional show ?thesis by blast
qed

lemma table_mac_unique:
  assumes "lease_inv s" and "(p, l) \<in> table s" and "(q, m) \<in> table s" and "lease_mac l = lease_mac m"
  shows "p = q \<and> l = m"
  using assms lease_invD(3) table_functional by metis

lemma hash_None:
  "lease_inv s \<Longrightarrow> srv_nip_lease_hash s n = None \<longleftrightarrow> (\<forall>(p, l) \<in> table s. lease_nip l \<noteq> n)"
  by (metis (mono_tags, lifting) case_prodD case_prodI2 lease_invD(2) not_None_eq)

lemma remove_lease_table:
  assumes "lease_inv s" and "(p, l) \<in> table s"
  shows "table (remove_lease s (p, l)) = table s - {(p, l)}"
  using assms by (simp add: remove_lease_def g_list_remove_set lease_invD(1))

lemma remove_lease_inv [keeps]:
  assumes "lease_inv s" and "(p, l) \<in> table s"
  shows "lease_inv (remove_lease s (p, l))"
proof -
  let ?t = "remove_lease s (p, l)"
  have tab: "table ?t = table s - {(p, l)}" using assms by (rule remove_lease_table)
  have hash: "srv_nip_lease_hash ?t n = Some q \<longleftrightarrow> (\<exists>m. (q, m) \<in> table ?t \<and> lease_nip m = n)" for n q
  proof (cases "n = lease_nip l")
    case True
    then show ?thesis
      using table_nip_unique [OF assms(1,2), of q, OF _ sym] unfolding tab
      by (auto simp: remove_lease_def)
  next
    case False
    then show ?thesis
      using lease_invD(2) [OF assms(1), of n q] unfolding tab by (auto simp: remove_lease_def)
  qed
  have "distinct (map fst (srv_lease_list ?t))"
    using lease_invD(1) [OF assms(1)] by (simp add: remove_lease_def g_list_remove_distinct)
  then show ?thesis
    using hash lease_invD(3-6) [OF assms(1)] unfolding lease_inv_def tab
    by (auto simp: remove_lease_def)
qed

lemma find_lease_by_mac_Some:
  "find_lease_by_mac s mac = Some (p, l) \<Longrightarrow> (p, l) \<in> table s \<and> lease_mac l = take ETH_ALEN mac"
  by (auto simp: find_lease_by_mac_def find_Some_iff) (metis nth_mem)

lemma find_lease_by_mac_None:
  "find_lease_by_mac s mac = None \<Longrightarrow> (p, l) \<in> table s \<Longrightarrow> lease_mac l \<noteq> take ETH_ALEN mac"
  by (auto simp: find_lease_by_mac_def find_None_iff)

lemma find_lease_by_mac_iff:
  "lease_inv s \<Longrightarrow> find_lease_by_mac s mac = Some (p, l) \<longleftrightarrow>
     (p, l) \<in> table s \<and> lease_mac l = take ETH_ALEN mac"
  by (metis find_lease_by_mac_None find_lease_by_mac_Some not_None_eq surj_pair table_mac_unique)

text \<open>
  The address checks at the head of \<open>get_lease\<close>: a nonzero address in the configured range
  and a client address that is neither the broadcast nor the zero address.
\<close>

definition admissible :: "GDHCPServer \<Rightarrow> u32 \<Rightarrow> u8 list \<Rightarrow> bool" where
  "admissible s yiaddr mac \<longleftrightarrow> yiaddr \<noteq> 0 \<and> srv_start_ip s \<le> ntohl yiaddr \<and>
     ntohl yiaddr \<le> srv_end_ip s \<and> take ETH_ALEN mac \<noteq> MAC_BCAST_ADDR \<and>
     take ETH_ALEN mac \<noteq> MAC_ANY_ADDR"

lemma get_lease_inadmissible:
  "\<not> admissible s yiaddr mac \<Longrightarrow> get_lease env s yiaddr mac = (Inl (- ENXIO), s)"
  by (auto simp: admissible_def get_lease_def not_le)

lemma get_lease_admissible:
  assumes "admissible s yiaddr mac"
  shows "get_lease env s yiaddr mac =
     (case srv_nip_lease_hash s yiaddr of
        Some p \<Rightarrow>
          let s1 = s\<lparr>srv_lease_list := g_list_remove p (srv_lease_list s),
                     srv_nip_lease_hash := (srv_nip_lease_hash s)(yiaddr := None)\<rparr> in
          (case find_lease_by_mac s mac of
             None \<Rightarrow> (Inr p, s1)
           | Some lm \<Rightarrow> (Inr p, if p \<noteq> fst lm then remove_lease s1 lm else s1))
      | None \<Rightarrow>
          (case find_lease_by_mac s mac of
             Some lm \<Rightarrow> (Inr (fst lm), remove_lease s lm)
           | None \<Rightarrow>
               if env_mem env then (Inr (srv_next_ptr s), s\<lparr>srv_next_ptr := Suc (srv_next_ptr s)\<rparr>)
               else (Inl (- ENOMEM), s)))"
  using assms
  by (auto simp: admissible_def get_lease_def not_less Let_def remove_lease_def
    split: option.split)

lemma lease_inv_next: "lease_inv s \<Longrightarrow> lease_inv (s\<lparr>srv_next_ptr := Suc (srv_next_ptr s)\<rparr>)"
  by (auto simp: lease_inv_def intro: less_SucI)

text \<open>What \<open>get_lease\<close> leaves: the leases of other addresses and other clients.\<close>

definition others :: "GDHCPServer \<Rightarrow> u32 \<Rightarrow> u8 list \<Rightarrow> (ptr \<times> dhcp_lease) set" where
  "others s yiaddr mac =
     {(q, m). (q, m) \<in> table s \<and> lease_nip m \<noteq> yiaddr \<and> lease_mac m \<noteq> take ETH_ALEN mac}"

lemma others_eqI:
  assumes "\<And>q m. (q, m) \<in> A \<longleftrightarrow>
    (q, m) \<in> table s \<and> lease_nip m \<noteq> yiaddr \<and> lease_mac m \<noteq> take ETH_ALEN mac"
  shows "A = others s yiaddr mac"
  using assms unfolding others_def by auto

lemma get_lease_hash_hit:
  assumes inv: "lease_inv s" and adm: "admissible s yiaddr mac"
    and hit: "srv_nip_lease_hash s yiaddr = Some p"
  shows "\<exists>s1. get_lease env s yiaddr mac = (Inr p, s1) \<and> lease_inv s1 \<and>
    table s1 = others s yiaddr mac \<and> p \<notin> fst ` table s1 \<and> srv_next_ptr s1 = srv_next_ptr s"
proof -
  obtain l where l: "(p, l) \<in> table s" "lease_nip l = yiaddr"
    using hit lease_invD(2) [OF inv] by blast
  have nipu: "(q, m) \<in> table s \<Longrightarrow> lease_nip m = yiaddr \<Longrightarrow> q = p \<and> m = l" for q m
    using table_nip_unique [OF inv l(1), of q m] l(2) by auto
  let ?s1 = "remove_lease s (p, l)"
  have eq: "s\<lparr>srv_lease_list := g_list_remove p (srv_lease_list s),
      srv_nip_lease_hash := (srv_nip_lease_hash s)(yiaddr := None)\<rparr> = ?s1"
    by (simp add: remove_lease_def l(2))
  have s1: "lease_inv ?s1" "table ?s1 = table s - {(p, l)}" "srv_next_ptr ?s1 = srv_next_ptr s"
    using remove_lease_inv [OF inv l(1)] remove_lease_table [OF inv l(1)] by (auto simp: remove_lease_def)
  have p: "p \<notin> fst ` (table s - {(p, l)})" using table_functional [OF inv l(1)] by auto
  show ?thesis
  proof (cases "find_lease_by_mac s mac")
    case None
    then have "table ?s1 = others s yiaddr mac"
      using table_nip_unique [OF inv l(1)] l(2) find_lease_by_mac_None [OF None]
      unfolding s1(2) others_def by blast
    then show ?thesis using None s1 p hit by (simp add: get_lease_admissible [OF adm] Let_def eq)
  next
    case (Some lm)
    obtain q m where lm: "lm = (q, m)" by (cases lm)
    have m: "(q, m) \<in> table s" "lease_mac m = take ETH_ALEN mac"
      using find_lease_by_mac_Some Some unfolding lm by blast+
    have macu: "(q', m') \<in> table s \<Longrightarrow> lease_mac m' = take ETH_ALEN mac \<Longrightarrow> q' = q \<and> m' = m" for q' m'
      using table_mac_unique [OF inv m(1), of q' m'] m(2) by auto
    show ?thesis
    proof (cases "p = q")
      case True
      then have "m = l" using table_functional [OF inv l(1)] m(1) by blast
      then have "table ?s1 = others s yiaddr mac"
        unfolding s1(2)
        by (intro others_eqI) (use True nipu macu l m in \<open>metis Diff_iff prod.inject singletonD singletonI\<close>)
      then show ?thesis using Some True [symmetric] s1 p hit by (simp add: get_lease_admissible [OF adm] Let_def eq lm)
    next
      case False
      then have qm: "(q, m) \<in> table ?s1" using m(1) s1(2) by auto
      let ?s2 = "remove_lease ?s1 (q, m)"
      have s2: "lease_inv ?s2" "table ?s2 = table s - {(p, l)} - {(q, m)}"
        "srv_next_ptr ?s2 = srv_next_ptr s"
        using remove_lease_inv [OF s1(1) qm] remove_lease_table [OF s1(1) qm] s1
        by (auto simp: remove_lease_def)
      then have "table ?s2 = others s yiaddr mac"
        unfolding s2(2)
        by (intro others_eqI) (use nipu macu l m in \<open>metis Diff_iff prod.inject singletonD singletonI\<close>)
      then show ?thesis
        using Some False s2 p hit by (auto simp: get_lease_admissible [OF adm] Let_def eq lm image_iff)
    qed
  qed
qed

lemma get_lease_hash_miss:
  assumes inv: "lease_inv s" and adm: "admissible s yiaddr mac"
    and miss: "srv_nip_lease_hash s yiaddr = None"
  shows "if find_lease_by_mac s mac = None \<and> \<not> env_mem env
    then get_lease env s yiaddr mac = (Inl (- ENOMEM), s)
    else \<exists>p s1. get_lease env s yiaddr mac = (Inr p, s1) \<and> lease_inv s1 \<and>
      table s1 = others s yiaddr mac \<and> p \<notin> fst ` table s1 \<and> p < srv_next_ptr s1"
proof (cases "find_lease_by_mac s mac")
  case None
  have "table s = others s yiaddr mac"
    using hash_None [OF inv] miss find_lease_by_mac_None [OF None] unfolding others_def by blast
  moreover have "srv_next_ptr s \<notin> fst ` table s"
    using lease_invD(4) [OF inv, of "srv_next_ptr s"] by auto
  ultimately show ?thesis
    using None miss lease_inv_next [OF inv] by (simp add: get_lease_admissible [OF adm])
next
  case (Some lm)
  obtain q m where lm: "lm = (q, m)" by (cases lm)
  have m: "(q, m) \<in> table s" "lease_mac m = take ETH_ALEN mac"
    using find_lease_by_mac_Some Some unfolding lm by blast+
  have tab: "table (remove_lease s (q, m)) = table s - {(q, m)}" by (rule remove_lease_table [OF inv m(1)])
  have "table (remove_lease s (q, m)) = others s yiaddr mac"
    unfolding tab
  proof (rule others_eqI)
    fix q' m'
    show "(q', m') \<in> table s - {(q, m)} \<longleftrightarrow>
        (q', m') \<in> table s \<and> lease_nip m' \<noteq> yiaddr \<and> lease_mac m' \<noteq> take ETH_ALEN mac"
      using hash_None [OF inv, of yiaddr] miss table_mac_unique [OF inv m(1), of q' m'] m by auto
  qed
  moreover have "q \<notin> fst ` (table s - {(q, m)})" using table_functional [OF inv m(1)] by auto
  moreover have "q < srv_next_ptr (remove_lease s (q, m))"
    using lease_invD(4) [OF inv m(1)] by (simp add: remove_lease_def)
  ultimately show ?thesis
    using Some miss remove_lease_inv [OF inv m(1)] tab
    by (simp add: get_lease_admissible [OF adm] lm)
qed

section \<open>The lease table as a contract\<close>

text \<open>
  The effect of \<open>add_lease\<close> on the table: the new lease replaces whatever the address and the
  client had, everything else stays; on failure nothing changes.
\<close>

lemma add_lease_fails:
  assumes "lease_inv s" and "add_lease env s e mac nip = (None, t)"
  shows "t = s \<and> (\<not> admissible s nip mac \<or> \<not> env_mem env)"
proof (cases "admissible s nip mac")
  case False
  then show ?thesis using assms(2) by (simp add: add_lease_def get_lease_inadmissible)
next
  case True
  show ?thesis
  proof (cases "srv_nip_lease_hash s nip")
    case None
    from get_lease_hash_miss [OF assms(1) True None, of env] assms(2) show ?thesis
      by (auto simp: add_lease_def Let_def split: if_splits)
  next
    case (Some p)
    from get_lease_hash_hit [OF assms(1) True Some, of env] assms(2) show ?thesis
      by (auto simp: add_lease_def Let_def)
  qed
qed

lemma get_lease_range:
  "srv_start_ip (snd (get_lease env s nip mac)) = srv_start_ip s \<and>
   srv_end_ip (snd (get_lease env s nip mac)) = srv_end_ip s \<and>
   srv_lease_seconds (snd (get_lease env s nip mac)) = srv_lease_seconds s"
  by (cases "admissible s nip mac")
    (auto simp: get_lease_inadmissible get_lease_admissible remove_lease_def Let_def
      split: option.split)

lemma add_lease_range:
  "add_lease env s e mac nip = (o', t) \<Longrightarrow> srv_start_ip t = srv_start_ip s \<and> srv_end_ip t = srv_end_ip s"
  using get_lease_range [of env s nip mac]
  by (auto simp: add_lease_def Let_def split: prod.splits sum.splits)

lemma get_lease_succeeds:
  assumes "lease_inv s" and "get_lease env s nip mac = (Inr p, s1)"
  shows "admissible s nip mac \<and> lease_inv s1 \<and> table s1 = others s nip mac \<and>
    p \<notin> fst ` table s1 \<and> p < srv_next_ptr s1"
proof -
  have adm: "admissible s nip mac"
    using assms(2) get_lease_inadmissible [of s nip mac env] by auto
  show ?thesis
  proof (cases "srv_nip_lease_hash s nip")
    case None
    from get_lease_hash_miss [OF assms(1) adm None, of env] assms(2) adm show ?thesis
      by (auto split: if_splits)
  next
    case (Some q)
    have "q < srv_next_ptr s" using Some lease_invD(2,4) [OF assms(1)] by blast
    with get_lease_hash_hit [OF assms(1) adm Some, of env] assms(2) adm show ?thesis by auto
  qed
qed

lemma insert_lease_inv [keeps]:
  assumes inv: "lease_inv s" and ins: "inserts_sorted ins"
    and fresh: "p \<notin> fst ` table s" "p < srv_next_ptr s"
    and new: "\<forall>(q, m) \<in> table s. lease_nip m \<noteq> lease_nip l \<and> lease_mac m \<noteq> lease_mac l"
      "lease_nip l \<noteq> 0" "length (lease_mac l) \<le> ETH_ALEN"
  shows "lease_inv (s\<lparr>srv_lease_list := ins cmp (p, l) (srv_lease_list s),
      srv_nip_lease_hash := (srv_nip_lease_hash s)(lease_nip l \<mapsto> p)\<rparr>)" (is "lease_inv ?t")
proof -
  have tab: "table ?t = insert (p, l) (table s)" by (simp add: set_insert_sorted [OF ins])
  have "distinct (map fst (srv_lease_list ?t))"
    using distinct_insert_sorted [OF ins lease_invD(1) [OF inv], of "(p, l)" cmp] fresh(1) by simp
  moreover have "srv_nip_lease_hash ?t n = Some q \<longleftrightarrow> (\<exists>m. (q, m) \<in> table ?t \<and> lease_nip m = n)" for n q
    using lease_invD(2) [OF inv, of n q] new(1) unfolding tab by auto
  moreover have "p' = q" if "(p', k) \<in> table ?t" "(q, m) \<in> table ?t" "lease_mac k = lease_mac m" for p' k q m
    using that lease_invD(3) [OF inv, of p' k q m] new(1) unfolding tab by auto
  moreover have "p' < srv_next_ptr s \<and> lease_nip k \<noteq> 0 \<and> length (lease_mac k) \<le> ETH_ALEN" if "(p', k) \<in> table ?t" for p' k
    using that lease_invD(4-6) [OF inv, of p' k] fresh(2) new(2,3) unfolding tab by auto
  ultimately show ?thesis unfolding lease_inv_def by auto
qed

lemma add_lease_effect:
  assumes inv: "lease_inv s" and ins: "inserts_sorted (env_insert_sorted env)"
    and add: "add_lease env s e mac nip = (Some (p, l), t)"
  shows "lease_inv t \<and> table t = insert (p, l) (others s nip mac) \<and> admissible s nip mac \<and>
    l = \<lparr>lease_expire = (if e = 0 then env_now env + uint (srv_lease_seconds s) else uint e),
         lease_nip = nip, lease_mac = take ETH_ALEN mac\<rparr>"
proof -
  obtain s1 where get: "get_lease env s nip mac = (Inr p, s1)"
    using add by (auto simp: add_lease_def Let_def split: prod.splits sum.splits)
  note g = get_lease_succeeds [OF inv get]
  have sec: "srv_lease_seconds s1 = srv_lease_seconds s"
    using get_lease_range [of env s nip mac] get by simp
  have l: "l = \<lparr>lease_expire = (if e = 0 then env_now env + uint (srv_lease_seconds s) else uint e),
         lease_nip = nip, lease_mac = take ETH_ALEN mac\<rparr>"
    and t: "t = s1\<lparr>srv_lease_list := env_insert_sorted env compare_expire (p, l) (srv_lease_list s1),
         srv_nip_lease_hash := (srv_nip_lease_hash s1)(lease_nip l \<mapsto> p)\<rparr>"
    using add by (auto simp: add_lease_def get Let_def sec)
  have "lease_inv t" unfolding t
    using g by (intro insert_lease_inv ins) (auto simp: l others_def admissible_def)
  moreover have "table t = insert (p, l) (others s nip mac)"
    using g by (simp add: t set_insert_sorted [OF ins])
  ultimately show ?thesis using g l by blast
qed

lemma lease_set_expire_effect:
  assumes inv: "lease_inv s" and ins: "inserts_sorted (env_insert_sorted env)"
    and l: "(p, l) \<in> table s"
  shows "lease_inv (lease_set_expire env s (p, l) e) \<and>
    table (lease_set_expire env s (p, l) e) =
      insert (p, l\<lparr>lease_expire := uint (word_of_int e :: u32)\<rparr>) (table s - {(p, l)})"
proof -
  let ?l = "l\<lparr>lease_expire := uint (word_of_int e :: u32)\<rparr>" and ?s1 = "remove_lease s (p, l)"
  have "srv_nip_lease_hash s (lease_nip l) = Some p" using l lease_invD(2) [OF inv] by blast
  then have hash: "(srv_nip_lease_hash ?s1)(lease_nip ?l \<mapsto> p) = srv_nip_lease_hash s"
    by (auto simp: remove_lease_def)
  have t: "lease_set_expire env s (p, l) e = ?s1\<lparr>srv_lease_list :=
      env_insert_sorted env compare_expire (p, ?l) (srv_lease_list ?s1),
      srv_nip_lease_hash := (srv_nip_lease_hash ?s1)(lease_nip ?l \<mapsto> p)\<rparr>"
    unfolding hash by (simp add: lease_set_expire_def remove_lease_def)
  have tab: "table ?s1 = table s - {(p, l)}" by (rule remove_lease_table [OF inv l])
  have "lease_nip m \<noteq> lease_nip l \<and> lease_mac m \<noteq> lease_mac l" if "(q, m) \<in> table ?s1" for q m
    using that table_nip_unique [OF inv l, of q m] table_mac_unique [OF inv l, of q m]
    unfolding tab by auto
  moreover have "p \<notin> fst ` table ?s1" using table_functional [OF inv l] unfolding tab by auto
  moreover have "p < srv_next_ptr ?s1" "lease_nip l \<noteq> 0" "length (lease_mac l) \<le> ETH_ALEN"
    using lease_invD(4-6) [OF inv l] by (auto simp: remove_lease_def)
  ultimately have "lease_inv (lease_set_expire env s (p, l) e)" unfolding t
    using remove_lease_inv [OF inv l] by (intro insert_lease_inv ins) auto
  then show ?thesis by (simp add: t tab set_insert_sorted [OF ins])
qed

text \<open>
  What a lease table promises its client, the protocol: lookups by client and by address see
  the set of leases, adding a lease replaces what the client and the address had, removing
  one removes just that one. Uniqueness of holders follows from the laws.
\<close>

locale lease_table =
  fixes inv :: "'s \<Rightarrow> bool"
    and leases :: "'s \<Rightarrow> dhcp_lease set"
    and find_mac :: "'s \<Rightarrow> u8 list \<Rightarrow> dhcp_lease option"
    and find_nip :: "'s \<Rightarrow> u32 \<Rightarrow> dhcp_lease option"
    and expiry :: "'s \<Rightarrow> u32 \<Rightarrow> int"
    and add :: "'s \<Rightarrow> u32 \<Rightarrow> u8 list \<Rightarrow> u32 \<Rightarrow> 's option"
    and remove :: "'s \<Rightarrow> u8 list \<Rightarrow> 's"
  assumes find_mac: "inv s \<Longrightarrow> find_mac s mac = Some l \<longleftrightarrow> l \<in> leases s \<and> lease_mac l = take ETH_ALEN mac"
    and find_nip: "inv s \<Longrightarrow> find_nip s nip = Some l \<longleftrightarrow> l \<in> leases s \<and> lease_nip l = nip"
    and mac_short: "inv s \<Longrightarrow> l \<in> leases s \<Longrightarrow> take ETH_ALEN (lease_mac l) = lease_mac l"
    and add_inv: "inv s \<Longrightarrow> add s e mac nip = Some t \<Longrightarrow> inv t"
    and add_leases: "inv s \<Longrightarrow> add s e mac nip = Some t \<Longrightarrow>
      leases t = insert \<lparr>lease_expire = expiry s e, lease_nip = nip, lease_mac = take ETH_ALEN mac\<rparr>
        {m \<in> leases s. lease_nip m \<noteq> nip \<and> lease_mac m \<noteq> take ETH_ALEN mac}"
    and remove_inv: "inv s \<Longrightarrow> inv (remove s mac)"
    and remove_leases: "inv s \<Longrightarrow> leases (remove s mac) = {m \<in> leases s. lease_mac m \<noteq> take ETH_ALEN mac}"
begin

lemma one_client_per_address:
  "inv s \<Longrightarrow> l \<in> leases s \<Longrightarrow> m \<in> leases s \<Longrightarrow> lease_nip l = lease_nip m \<Longrightarrow> l = m"
  by (metis find_nip option.inject)

lemma one_address_per_client:
  assumes "inv s" and "l \<in> leases s" and "m \<in> leases s" and "lease_mac l = lease_mac m"
  shows "l = m"
proof -
  have t: "take ETH_ALEN (lease_mac l) = lease_mac l" by (rule mac_short [OF assms(1,2)])
  have "find_mac s (lease_mac l) = Some l"
    by (rule find_mac [THEN iffD2, OF assms(1)]) (simp only: t assms(2) simp_thms)
  moreover have "find_mac s (lease_mac l) = Some m"
    by (rule find_mac [THEN iffD2, OF assms(1)]) (simp only: t assms(3) assms(4) [symmetric] simp_thms)
  ultimately show ?thesis by simp
qed

lemma find_mac_after_add:
  "inv s \<Longrightarrow> add s e mac nip = Some t \<Longrightarrow>
   find_mac t mac = Some \<lparr>lease_expire = expiry s e, lease_nip = nip, lease_mac = take ETH_ALEN mac\<rparr>"
  by (simp add: find_mac add_inv add_leases)

lemma find_nip_after_add:
  "inv s \<Longrightarrow> add s e mac nip = Some t \<Longrightarrow>
   find_nip t nip = Some \<lparr>lease_expire = expiry s e, lease_nip = nip, lease_mac = take ETH_ALEN mac\<rparr>"
  by (simp add: find_nip add_inv add_leases)

lemma find_nip_other_after_add:
  assumes "inv s" and "add s e mac nip = Some t" and "n \<noteq> nip" and "find_nip s n = Some l"
    and "lease_mac l \<noteq> take ETH_ALEN mac"
  shows "find_nip t n = Some l"
  using assms by (simp add: find_nip add_inv add_leases)

lemma find_mac_after_remove:
  assumes "inv s"
  shows "find_mac (remove s mac) mac = None"
proof (cases "find_mac (remove s mac) mac")
  case (Some l)
  then have "l \<in> leases (remove s mac)" and "lease_mac l = take ETH_ALEN mac"
    using find_mac [OF remove_inv [OF assms]] by auto
  then show ?thesis by (simp add: remove_leases [OF assms])
qed

end

text \<open>The server's table, with its environment, provides the contract.\<close>

definition find_nip_lease :: "GDHCPServer \<Rightarrow> u32 \<Rightarrow> dhcp_lease option" where
  "find_nip_lease s nip = Option.bind (find_lease_by_nip s nip) (map_of (srv_lease_list s))"

definition env_ok :: "srv_env \<times> GDHCPServer \<Rightarrow> bool" where
  "env_ok es \<longleftrightarrow> inserts_sorted (env_insert_sorted (fst es)) \<and> lease_inv (snd es)"

definition lease_expiry :: "srv_env \<times> GDHCPServer \<Rightarrow> u32 \<Rightarrow> int" where
  "lease_expiry es e =
     (if e = 0 then env_now (fst es) + uint (srv_lease_seconds (snd es)) else uint e)"

definition table_add :: "srv_env \<times> GDHCPServer \<Rightarrow> u32 \<Rightarrow> u8 list \<Rightarrow> u32 \<Rightarrow> (srv_env \<times> GDHCPServer) option" where
  "table_add es e mac nip =
     (case add_lease (fst es) (snd es) e mac nip of (None, t) \<Rightarrow> None | (Some l, t) \<Rightarrow> Some (fst es, t))"

definition table_remove :: "srv_env \<times> GDHCPServer \<Rightarrow> u8 list \<Rightarrow> srv_env \<times> GDHCPServer" where
  "table_remove es mac =
     (fst es, case find_lease_by_mac (snd es) mac of None \<Rightarrow> snd es | Some l \<Rightarrow> remove_lease (snd es) l)"

lemma find_nip_lease_iff:
  assumes "lease_inv s"
  shows "find_nip_lease s nip = Some l \<longleftrightarrow> l \<in> snd ` table s \<and> lease_nip l = nip"
proof
  assume "find_nip_lease s nip = Some l"
  then obtain p where p: "srv_nip_lease_hash s nip = Some p" "map_of (srv_lease_list s) p = Some l"
    by (auto simp: find_nip_lease_def find_lease_by_nip_def bind_eq_Some_conv)
  then have "(p, l) \<in> table s" by (simp add: map_of_SomeD)
  moreover obtain m where "(p, m) \<in> table s" "lease_nip m = nip"
    using p(1) lease_invD(2) [OF assms] by blast
  ultimately show "l \<in> snd ` table s \<and> lease_nip l = nip"
    using table_functional [OF assms] by force
next
  assume "l \<in> snd ` table s \<and> lease_nip l = nip"
  then obtain p where p: "(p, l) \<in> table s" "lease_nip l = nip" by auto
  then have "srv_nip_lease_hash s nip = Some p" using lease_invD(2) [OF assms] by blast
  moreover have "map_of (srv_lease_list s) p = Some l"
    using p(1) lease_invD(1) [OF assms] by simp
  ultimately show "find_nip_lease s nip = Some l"
    by (simp add: find_nip_lease_def find_lease_by_nip_def)
qed

interpretation lt: lease_table env_ok "\<lambda>es. snd ` table (snd es)"
  "\<lambda>es mac. map_option snd (find_lease_by_mac (snd es) mac)" "\<lambda>es. find_nip_lease (snd es)"
  lease_expiry table_add table_remove
proof unfold_locales
  fix s t :: "srv_env \<times> GDHCPServer" and mac :: "u8 list" and l nip e
  assume ok: "env_ok s"
  then have inv: "lease_inv (snd s)" and ins: "inserts_sorted (env_insert_sorted (fst s))"
    by (auto simp: env_ok_def)
  show "map_option snd (find_lease_by_mac (snd s) mac) = Some l \<longleftrightarrow>
      l \<in> snd ` table (snd s) \<and> lease_mac l = take ETH_ALEN mac"
    using find_lease_by_mac_iff [OF inv, of mac] by force
  show "find_nip_lease (snd s) nip = Some l \<longleftrightarrow> l \<in> snd ` table (snd s) \<and> lease_nip l = nip"
    by (rule find_nip_lease_iff [OF inv])
  show "take ETH_ALEN (lease_mac l) = lease_mac l" if "l \<in> snd ` table (snd s)"
    using that lease_invD(6) [OF inv] by auto
  show "env_ok (table_remove s mac)"
    using ok remove_lease_inv [OF inv] find_lease_by_mac_Some [of "snd s" mac]
    by (auto simp: table_remove_def env_ok_def split: option.split)
  show "snd ` table (snd (table_remove s mac)) =
      {m \<in> snd ` table (snd s). lease_mac m \<noteq> take ETH_ALEN mac}"
  proof (cases "find_lease_by_mac (snd s) mac")
    case None
    then show ?thesis using find_lease_by_mac_None [OF None] by (auto simp: table_remove_def)
  next
    case (Some pl)
    obtain p k where pl: "pl = (p, k)" by (cases pl)
    have k: "(p, k) \<in> table (snd s)" "lease_mac k = take ETH_ALEN mac"
      using find_lease_by_mac_Some Some unfolding pl by blast+
    have u: "(q, m) \<in> table (snd s) \<Longrightarrow> lease_mac m = take ETH_ALEN mac \<Longrightarrow> (q, m) = (p, k)" for q m
      using table_mac_unique [OF inv k(1), of q m] k(2) by auto
    have "snd ` (table (snd s) - {(p, k)}) = {m \<in> snd ` table (snd s). lease_mac m \<noteq> take ETH_ALEN mac}"
    proof (intro set_eqI iffI)
      fix m assume "m \<in> snd ` (table (snd s) - {(p, k)})"
      then obtain z where "z \<in> table (snd s)" "z \<noteq> (p, k)" "m = snd z" by blast
      then obtain q where "(q, m) \<in> table (snd s)" "(q, m) \<noteq> (p, k)" 
        by (metis prod.collapse)
      with u show "m \<in> {m \<in> snd ` table (snd s). lease_mac m \<noteq> take ETH_ALEN mac}" by force
    next
      fix m assume "m \<in> {m \<in> snd ` table (snd s). lease_mac m \<noteq> take ETH_ALEN mac}"
      then have "m \<in> snd ` table (snd s)" and "m \<noteq> k" using k(2) by auto
      then show "m \<in> snd ` (table (snd s) - {(p, k)})" by force
    qed
    then show ?thesis
      using Some by (simp add: table_remove_def pl remove_lease_table [OF inv k(1)])
  qed
  show "env_ok t" if add: "table_add s e mac nip = Some t"
    using add add_lease_effect [OF inv ins] ins
    by (auto simp: table_add_def env_ok_def split: prod.splits option.splits)
  show "snd ` table (snd t) =
      insert \<lparr>lease_expire = lease_expiry s e, lease_nip = nip, lease_mac = take ETH_ALEN mac\<rparr>
        {m \<in> snd ` table (snd s). lease_nip m \<noteq> nip \<and> lease_mac m \<noteq> take ETH_ALEN mac}"
    if add: "table_add s e mac nip = Some t"
  proof -
    obtain p k where "add_lease (fst s) (snd s) e mac nip = (Some (p, k), snd t)"
      using add by (auto simp: table_add_def split: prod.splits option.splits)
    from add_lease_effect [OF inv ins this] show ?thesis
      by (force simp: others_def lease_expiry_def)
  qed
qed

end
