(* ===== verification/Dhcp_Protocol.thy ===== *)
theory Dhcp_Protocol
  imports Lease_Table
begin

text \<open>
  The protocol side of the DHCP server: replies are always built without a fault, an offered
  address is free to be offered, the server as a state machine over all its operations, and
  the properties of the whole server.
\<close>

section \<open>Replies never fault\<close>

lemma opts_fit_update [simp]:
  "opts_fit (p\<lparr>pkt_xid := a\<rparr>) = opts_fit p" "opts_fit (p\<lparr>pkt_chaddr := b\<rparr>) = opts_fit p"
  "opts_fit (p\<lparr>pkt_flags := c\<rparr>) = opts_fit p" "opts_fit (p\<lparr>pkt_gateway_nip := d\<rparr>) = opts_fit p"
  "opts_fit (p\<lparr>pkt_ciaddr := e\<rparr>) = opts_fit p" "opts_fit (p\<lparr>pkt_yiaddr := g\<rparr>) = opts_fit p"
  by (simp_all add: opts_fit_def)

text \<open>A reply to a client: its transaction, hardware address, flags and relay are copied.\<close>

definition reply_to :: "dhcp_packet \<Rightarrow> u32 \<Rightarrow> dhcp_packet \<Rightarrow> bool" where
  "reply_to cp y q \<longleftrightarrow> opts_fit q \<and> pkt_yiaddr q = y \<and> pkt_xid q = pkt_xid cp \<and>
     pkt_chaddr q = pkt_chaddr cp \<and> pkt_flags q = pkt_flags cp \<and>
     pkt_gateway_nip q = pkt_gateway_nip cp \<and> pkt_ciaddr q = pkt_ciaddr cp"

lemma init_packet_total: "\<exists>q. init_packet s cp t = Inr q \<and> reply_to cp 0 q"
proof -
  obtain h where h: "dhcp_init_header t = Inr h" "opts_fit h" "pkt_yiaddr h = 0"
    using init_header_rep [of t] by (auto simp: wf_packet_def opts_fit_def)
  let ?h = "h\<lparr>pkt_xid := pkt_xid cp, pkt_chaddr := pkt_chaddr cp, pkt_flags := pkt_flags cp,
    pkt_gateway_nip := pkt_gateway_nip cp, pkt_ciaddr := pkt_ciaddr cp\<rparr>"
  have "opts_fit ?h" using h(2) by simp
  from add_simple_option_total [OF this, of DHCP_SERVER_ID "srv_server_nip s"] h(3)
  show ?thesis by (auto simp: init_packet_def h(1) reply_to_def)
qed

lemma add_simple_option_reply:
  "reply_to cp y q \<Longrightarrow> \<exists>r. dhcp_add_simple_option q c d = Inr r \<and> reply_to cp y r"
  using add_simple_option_total [of q c d] by (auto simp: reply_to_def)

lemma add_options_reply:
  "reply_to cp y q \<Longrightarrow> \<exists>r. add_options env hash cs q = Inr r \<and> reply_to cp y r"
proof (induction cs arbitrary: q)
  case (Cons c cs)
  show ?case
  proof (cases "hash c")
    case None
    then show ?thesis using Cons by simp
  next
    case (Some v)
    have "\<exists>r. add_option env c v q = Inr r \<and> reply_to cp y r"
      using add_simple_option_reply [OF Cons.prems] Cons.prems
      by (auto simp: add_option_def split: option.split)
    then obtain r where "add_option env c v q = Inr r" and "reply_to cp y r" by blast
    then show ?thesis using Some Cons.IH by simp
  qed
qed simp

lemma send_ACK_total:
  "\<exists>q. send_ACK env s cp y = Inr (snd (add_lease env s 0 (pkt_chaddr cp) y), [send_packet_to_client s q]) \<and>
     reply_to cp y q"
proof -
  obtain q where q: "init_packet s cp DHCPACK = Inr q" "reply_to cp 0 q"
    using init_packet_total by blast
  then have "reply_to cp y (q\<lparr>pkt_yiaddr := y\<rparr>)" by (simp add: reply_to_def)
  then obtain r where r: "dhcp_add_simple_option (q\<lparr>pkt_yiaddr := y\<rparr>) DHCP_LEASE_TIME
      (htonl (srv_lease_seconds s)) = Inr r" "reply_to cp y r"
    using add_simple_option_reply by blast
  then obtain r' where r': "add_server_options env s r = Inr r'" "reply_to cp y r'"
    using add_options_reply by (metis add_server_options_def)
  have "pkt_chaddr r' = pkt_chaddr cp" and "pkt_yiaddr r' = y" using r'(2) by (auto simp: reply_to_def)
  then show ?thesis using q r r' by (auto simp: send_ACK_def)
qed

lemma send_NAK_total:
  "\<exists>q. send_NAK s cp = Inr [SendRaw q (srv_server_nip s) SERVER_PORT INADDR_BROADCAST CLIENT_PORT
     MAC_BCAST_ADDR (srv_ifindex s)] \<and> reply_to cp 0 q"
  using init_packet_total [of s cp DHCPNAK] by (auto simp: send_NAK_def)

lemma send_inform_total:
  "\<exists>q. send_inform env s cp = Inr [send_packet_to_client s q] \<and> reply_to cp 0 q"
proof -
  obtain q where q: "init_packet s cp DHCPACK = Inr q" "reply_to cp 0 q"
    using init_packet_total by blast
  then obtain r where "add_server_options env s q = Inr r" "reply_to cp 0 r"
    using add_options_reply by (metis add_server_options_def)
  then show ?thesis using q by (auto simp: send_inform_def)
qed

lemma send_offer_cases:
  assumes y: "offer_address env s (pkt_chaddr cp) lease req = ret_d y"
  shows "y = 0 \<Longrightarrow> send_offer env s cp lease req = ret_d (s, [])"
    and "y \<noteq> 0 \<Longrightarrow> add_lease env s OFFER_TIME (pkt_chaddr cp) y = (None, t) \<Longrightarrow>
      send_offer env s cp lease req = ret_d (t, [])"
    and "y \<noteq> 0 \<Longrightarrow> add_lease env s OFFER_TIME (pkt_chaddr cp) y = (Some l, t) \<Longrightarrow>
      \<exists>q. send_offer env s cp lease req = ret_d (t, [send_packet_to_client t q]) \<and> reply_to cp y q"
proof -
  obtain q where q: "init_packet s cp DHCPOFFER = Inr q" "reply_to cp 0 q"
    using init_packet_total by blast
  then have ch: "pkt_chaddr q = pkt_chaddr cp" by (simp add: reply_to_def)
  note simps = send_offer_def y q(1) ch
  show "y = 0 \<Longrightarrow> send_offer env s cp lease req = ret_d (s, [])" by (simp add: simps)
  show "y \<noteq> 0 \<Longrightarrow> add_lease env s OFFER_TIME (pkt_chaddr cp) y = (None, t) \<Longrightarrow>
      send_offer env s cp lease req = ret_d (t, [])" by (simp add: simps)
  have "reply_to cp y (q\<lparr>pkt_yiaddr := y\<rparr>)" using q(2) by (simp add: reply_to_def)
  then obtain r where r: "dhcp_add_simple_option (q\<lparr>pkt_yiaddr := y\<rparr>) DHCP_LEASE_TIME
      (htonl (srv_lease_seconds t)) = Inr r" "reply_to cp y r"
    using add_simple_option_reply by blast
  then obtain r' where "add_server_options env t r = Inr r'" "reply_to cp y r'"
    using add_options_reply by (metis add_server_options_def)
  with r show "y \<noteq> 0 \<Longrightarrow> add_lease env s OFFER_TIME (pkt_chaddr cp) y = (Some l, t) \<Longrightarrow>
      \<exists>q. send_offer env s cp lease req = ret_d (t, [send_packet_to_client t q]) \<and> reply_to cp y q"
    by (auto simp: simps)
qed

section \<open>The address that is offered\<close>

lemma free_nip_loop_result:
  assumes "free_nip_loop s mac ip = Some r"
  shows "r = Some n \<longrightarrow> find_lease_by_nip s n = None \<and> ntohl n \<le> srv_end_ip s \<and>
    ntohl n AND 0xff \<noteq> 0 \<and> ntohl n AND 0xff \<noteq> 0xff"
proof (rule free_nip_loop.raw_induct [where P = "\<lambda>s mac ip r. r = Some n \<longrightarrow>
      find_lease_by_nip s n = None \<and> ntohl n \<le> srv_end_ip s \<and>
      ntohl n AND 0xff \<noteq> 0 \<and> ntohl n AND 0xff \<noteq> 0xff", OF _ assms], goal_cases)
  case (1 f s mac ip r)
  then show ?case by (auto simp: arp_check_def split: if_splits)
qed

lemma free_nip_loop_ends:
  assumes "srv_end_ip s \<noteq> - 1"
  shows "\<exists>r. free_nip_loop s mac ip = Some r \<and>
    (\<forall>n. r = Some n \<longrightarrow> ip \<le> ntohl n) \<and>
    (r = None \<longrightarrow> (\<forall>a. ip \<le> a \<longrightarrow> a \<le> srv_end_ip s \<longrightarrow> a AND 0xff \<noteq> 0 \<longrightarrow> a AND 0xff \<noteq> 0xff \<longrightarrow>
       find_lease_by_nip s (htonl a) \<noteq> None))"
proof (induction "unat (srv_end_ip s) + 1 - unat ip" arbitrary: ip rule: less_induct)
  case (less ip)
  show ?case
  proof (cases "ip \<le> srv_end_ip s")
    case False
    then show ?thesis by (auto simp: free_nip_loop.simps [of s mac ip])
  next
    case True
    have "ip \<noteq> - 1" using True assms by (metis word_order.extremum_unique)
    then have suc: "unat (ip + 1) = Suc (unat ip)"
      by (metis add.commute add_eq_0_iff unatSuc)
    have le: "unat ip \<le> unat (srv_end_ip s)" using True by (simp add: word_le_nat_alt)
    have next_le: "ip \<le> a \<longleftrightarrow> a = ip \<or> ip + 1 \<le> a" for a
      using suc by (auto simp: word_le_nat_alt word_unat_eq_iff)
    have dec: "unat (srv_end_ip s) + 1 - unat (ip + 1) < unat (srv_end_ip s) + 1 - unat ip"
      using suc le by simp
    obtain r where r: "free_nip_loop s mac (ip + 1) = Some r"
      "\<forall>n. r = Some n \<longrightarrow> ip + 1 \<le> ntohl n"
      "r = None \<longrightarrow> (\<forall>a. ip + 1 \<le> a \<longrightarrow> a \<le> srv_end_ip s \<longrightarrow> a AND 0xff \<noteq> 0 \<longrightarrow> a AND 0xff \<noteq> 0xff \<longrightarrow>
         find_lease_by_nip s (htonl a) \<noteq> None)"
      using less [OF dec] by blast
    show ?thesis
      using True r next_le by (auto simp: free_nip_loop.simps [of s mac ip] arp_check_def)
  qed
qed

text \<open>
  An address may be offered to a client when nobody holds it, the client itself holds it, or
  the lease on it has expired.
\<close>

definition offerable :: "srv_env \<Rightarrow> GDHCPServer \<Rightarrow> u8 list \<Rightarrow> u32 \<Rightarrow> bool" where
  "offerable env s mac y \<longleftrightarrow> (\<forall>(p, l) \<in> table s. lease_nip l = y \<longrightarrow>
     lease_mac l = take ETH_ALEN mac \<or> is_expired_lease env l)"

lemma offerable_unleased: "lease_inv s \<Longrightarrow> find_lease_by_nip s y = None \<Longrightarrow> offerable env s mac y"
  using hash_None [of s y] by (auto simp: offerable_def find_lease_by_nip_def)

lemma offerable_single:
  assumes "lease_inv s" and "(p, l) \<in> table s" and "lease_nip l = y"
    and "lease_mac l = take ETH_ALEN mac \<or> is_expired_lease env l"
  shows "offerable env s mac y"
  unfolding offerable_def
proof (intro ballI, clarify)
  fix q m assume "(q, m) \<in> table s" and "\<not> is_expired_lease env m" and "y = lease_nip m"
  then show "lease_mac m = take ETH_ALEN mac"
    using table_nip_unique [OF assms(1,2), of q m] assms(3,4) by auto
qed

lemma offer_address_offerable:
  assumes inv: "lease_inv s" and lease: "lease = find_lease_by_mac s mac"
    and y: "offer_address env s mac lease req = ret_d y" and "y \<noteq> 0"
  shows "offerable env s mac y"
proof (cases lease)
  case (Some pl)
  obtain p l where pl: "pl = (p, l)" by (cases pl)
  have "(p, l) \<in> table s" "lease_mac l = take ETH_ALEN mac"
    using find_lease_by_mac_Some Some lease unfolding pl by metis+
  then show ?thesis using y Some pl offerable_single [OF inv] by (auto simp: offer_address_def)
next
  case None
  then obtain ok where ok: "check_requested_nip env s req = Inr ok"
    and rest: "(if ok then ret_d req else map_option Inr (find_free_or_expired_nip env s mac)) = ret_d y"
    using y by (auto simp: offer_address_def bind_d_eq_ret)
  show ?thesis
  proof (cases ok)
    case True
    then have "y = req" using rest by simp
    with ok True show ?thesis
      using offerable_unleased [OF inv] offerable_single [OF inv]
      by (auto simp: check_requested_nip_def find_lease_by_nip_def split: if_splits option.splits)
         (metis lease_invD(2) [OF inv] map_of_SomeD table_functional [OF inv])
  next
    case False
    then have "find_free_or_expired_nip env s mac = Some y" using rest by auto
    then consider "free_nip_loop s mac (srv_start_ip s) = Some (Some y)"
      | "srv_lease_list s \<noteq> []" "is_expired_lease env (snd (last (srv_lease_list s)))"
        "y = lease_nip (snd (last (srv_lease_list s)))"
      using \<open>y \<noteq> 0\<close>
      by (auto simp: find_free_or_expired_nip_def Let_def split: option.splits if_splits)
    then show ?thesis
    proof cases
      case 1
      then show ?thesis using free_nip_loop_result offerable_unleased [OF inv] by blast
    next
      case 2
      then show ?thesis using offerable_single [OF inv] by (metis last_in_set prod.collapse)
    qed
  qed
qed

section \<open>The server as a state machine\<close>

lemma add_lease_inv [keeps]:
  assumes "lease_inv s" and "inserts_sorted (env_insert_sorted env)"
  shows "lease_inv (snd (add_lease env s e mac nip))"
proof (cases "add_lease env s e mac nip")
  case (Pair o' t)
  then show ?thesis
    using add_lease_fails [OF assms(1), of env e mac nip t] add_lease_effect [OF assms, of e mac nip _ _ t] assms(1)
    by (cases o') (auto simp: prod_eq_iff)
qed

lemma send_offer_inv [keeps]:
  assumes "lease_inv s" and "inserts_sorted (env_insert_sorted env)"
    and "send_offer env s cp lease req = ret_d (t, out)"
  shows "lease_inv t"
proof -
  obtain y where y: "offer_address env s (pkt_chaddr cp) lease req = ret_d y"
    using assms(3) by (auto simp: send_offer_def bind_d_eq_ret)
  obtain o' t' where add: "add_lease env s OFFER_TIME (pkt_chaddr cp) y = (o', t')" by fastforce
  have "lease_inv t'" using add_lease_inv [OF assms(1,2), of OFFER_TIME "pkt_chaddr cp" y] add by simp
  then show ?thesis
    using send_offer_cases [OF y] add assms(1,3) by (cases "y = 0"; cases o') auto
qed

lemma handle_message_inv [keeps]:
  assumes "lease_inv s" and "inserts_sorted (env_insert_sorted env)"
    and "handle_message env s p type sid rip = ret_d (t, out)"
  shows "lease_inv t"
proof -
  have found: "find_lease_by_mac s mac = Some l \<Longrightarrow> (fst l, snd l) \<in> table s" for mac l
    using find_lease_by_mac_Some by (metis prod.collapse)
  have ack: "send_ACK env s p y = Inr (t, out) \<Longrightarrow> lease_inv t" for y
    using send_ACK_total [of env s p y] add_lease_inv [OF assms(1,2)] by auto
  have rel: "find_lease_by_mac s mac = Some l \<Longrightarrow> lease_inv (lease_set_expire env s l e)" for mac l e
    using lease_set_expire_effect [OF assms(1,2) found] by simp
  have rem: "find_lease_by_mac s mac = Some l \<Longrightarrow> lease_inv (remove_lease s l)" for mac l
    using remove_lease_inv [OF assms(1) found] by simp
  show ?thesis
    using assms(3) assms(1) ack rel rem send_offer_inv [OF assms(1,2)]
    unfolding handle_message_def Let_def
    by (auto simp: bind_r_eq_Inr split: if_splits option.splits)
qed

lemma handle_packet_inv [keeps]:
  assumes "lease_inv s" and "inserts_sorted (env_insert_sorted env)"
    and "handle_packet env s p = ret_d (t, out)"
  shows "lease_inv t"
  using assms(3) handle_message_inv [OF assms(1,2)] assms(1)
  unfolding handle_packet_def by (auto simp: bind_d_eq_ret split: if_splits option.splits)

lemma lease_inv_frame:
  "srv_lease_list t = srv_lease_list s \<Longrightarrow> srv_nip_lease_hash t = srv_nip_lease_hash s \<Longrightarrow>
   srv_next_ptr t = srv_next_ptr s \<Longrightarrow> lease_inv t = lease_inv s"
  by (simp add: lease_inv_def)

lemma listener_event_inv [keeps]:
  assumes "lease_inv s" and "inserts_sorted (env_insert_sorted env)"
    and "listener_event env s err input = ret_d (keep, t, out)"
  shows "lease_inv t"
proof (cases err)
  case True
  then show ?thesis using assms(1,3) by (auto simp: listener_event_def lease_inv_def)
next
  case False
  then obtain re where "dhcp_recv_l3_packet input = ret_d re"
    and "(case re of Inl e \<Rightarrow> ret_d (True, s, [])
      | Inr packet \<Rightarrow> bind_d (handle_packet env s packet) (\<lambda>(s1, out). ret_d (True, s1, out))) =
      ret_d (keep, t, out)"
    using assms(3) by (auto simp: listener_event_def bind_d_eq_ret)
  then show ?thesis
    using assms(1) handle_packet_inv [OF assms(1,2)] by (cases re) (auto simp: bind_d_eq_ret)
qed

text \<open>
  Every operation of the server as an event, with the environment as part of the state: the
  clock, the allocator and the hash order may change at any time.
\<close>

datatype srv_event =
    EvEnvironment int bool "u8 list"
  | EvListen bool "int + u8 list"
  | EvLoadLease u32 "u8 list" u32
  | EvSetOption u8 "string option"
  | EvSetRange string string
  | EvSetLeaseTime u32
  | EvSetSaveLease bool
  | EvStart int bool u32
  | EvStop
  | EvRef

fun srv_step :: "srv_env \<times> GDHCPServer \<Rightarrow> srv_event \<Rightarrow> (srv_env \<times> GDHCPServer) option" where
  "srv_step (env, s) (EvEnvironment now mem order) =
     Some (env\<lparr>env_now := now, env_mem := mem, env_option_order := order\<rparr>, s)"
| "srv_step (env, s) (EvListen err input) =
     (case listener_event env s err input of
        Some (Inr (keep, t, out)) \<Rightarrow> Some (env, t)
      | _ \<Rightarrow> None)"
| "srv_step (env, s) (EvLoadLease e mac ip) = Some (env, g_dhcp_server_load_lease env s e mac ip)"
| "srv_step (env, s) (EvSetOption c v) = Some (env, snd (g_dhcp_server_set_option env s c v))"
| "srv_step (env, s) (EvSetRange a b) = Some (env, snd (g_dhcp_server_set_ip_range env s a b))"
| "srv_step (env, s) (EvSetLeaseTime n) = Some (env, g_dhcp_server_set_lease_time s n)"
| "srv_step (env, s) (EvSetSaveLease b) = Some (env, g_dhcp_server_set_save_lease s b)"
| "srv_step (env, s) (EvStart fd ch w) = Some (env, snd (g_dhcp_server_start s fd ch w))"
| "srv_step (env, s) EvStop = Some (env, fst (g_dhcp_server_stop s))"
| "srv_step (env, s) EvRef = Some (env, g_dhcp_server_ref s)"

fun srv_start :: "srv_env \<times> GDHCPServer \<Rightarrow> bool" where
  "srv_start (env, s) \<longleftrightarrow> inserts_sorted (env_insert_sorted env) \<and>
     (\<exists>type ifindex mem name up addr. g_dhcp_server_new type ifindex mem name up addr = Inr s)"

lemma new_server_inv: "g_dhcp_server_new type ifindex mem name up addr = Inr s \<Longrightarrow> lease_inv s"
  by (auto simp: g_dhcp_server_new_def lease_inv_def split: if_splits option.splits)

interpretation srv: invariant_machine srv_start srv_step env_ok
proof unfold_locales
  show "env_ok s" if "srv_start s" for s
    using that by (cases s) (auto simp: env_ok_def new_server_inv)
next
  fix s t :: "srv_env \<times> GDHCPServer" and e
  assume ok: "env_ok s" and step: "srv_step s e = Some t"
  obtain env x where s: "s = (env, x)" by (cases s)
  from ok have inv: "lease_inv x" and ins: "inserts_sorted (env_insert_sorted env)"
    by (auto simp: env_ok_def s)
  show "env_ok t"
  proof (cases e)
    case (EvListen err input)
    then obtain keep y out where "listener_event env x err input = ret_d (keep, y, out)" and t: "t = (env, y)"
      using step by (auto simp: s split: option.splits sum.splits)
    then have "lease_inv y" using listener_event_inv [OF inv ins] by blast
    then show ?thesis using ins by (simp add: env_ok_def t)
  next
    case (EvLoadLease x1 x2 x3)
    then show ?thesis using step ins add_lease_inv [OF inv ins]
      by (auto simp: s env_ok_def g_dhcp_server_load_lease_def)
  qed (use step ins inv in \<open>auto simp: s env_ok_def g_dhcp_server_set_option_def
    g_dhcp_server_set_ip_range_def g_dhcp_server_set_lease_time_def g_dhcp_server_set_save_lease_def
    g_dhcp_server_start_def g_dhcp_server_stop_def g_dhcp_server_ref_def Let_def
    split: option.splits if_splits elim!: lease_inv_frame [THEN iffD2, rotated 3]\<close>)
qed

section \<open>A concrete environment and server\<close>

fun insert_by :: "('a \<Rightarrow> 'a \<Rightarrow> int) \<Rightarrow> 'a \<Rightarrow> 'a list \<Rightarrow> 'a list" where
  "insert_by cmp x [] = [x]"
| "insert_by cmp x (y # ys) = (if 0 < cmp x y then y # insert_by cmp x ys else x # y # ys)"

lemma insert_by_split:
  "insert_by cmp x xs = takeWhile (\<lambda>y. 0 < cmp x y) xs @ x # dropWhile (\<lambda>y. 0 < cmp x y) xs"
  by (induction xs) auto

lemma inserts_sorted_insert_by: "inserts_sorted insert_by"
  unfolding inserts_sorted_def
proof (intro allI)
  fix cmp :: "'a \<Rightarrow> 'a \<Rightarrow> int" and x xs
  let ?P = "\<lambda>y. 0 < cmp x y"
  have "\<forall>y \<in> set (takeWhile ?P xs). ?P y" by (auto dest: set_takeWhileD)
  moreover have "dropWhile ?P xs \<noteq> [] \<longrightarrow> cmp x (hd (dropWhile ?P xs)) \<le> 0"
    using hd_dropWhile [of ?P xs] by (simp only: not_less) blast
  ultimately show "\<exists>ys zs. xs = ys @ zs \<and> insert_by cmp x xs = ys @ x # zs \<and>
      (\<forall>y \<in> set ys. 0 < cmp x y) \<and> (zs \<noteq> [] \<longrightarrow> cmp x (hd zs) \<le> 0)"
    by (intro exI [of _ "takeWhile ?P xs"] exI [of _ "dropWhile ?P xs"]) (simp add: insert_by_split)
qed

definition ex_env :: srv_env where
  "ex_env = \<lparr>env_now = 1000, env_mem = True, env_insert_sorted = insert_by,
     env_inet_aton = (\<lambda>_. None), env_option_order = []\<rparr>"

definition ex_server :: GDHCPServer where
  "ex_server = \<lparr>srv_ref_count = 1, srv_type = G_DHCP_IPV4, srv_started = True, srv_ifindex = 3,
     srv_interface = ''tether'', srv_start_ip = 0xc0a83702, srv_end_ip = 0xc0a83703,
     srv_server_nip = 0x0137a8c0, srv_lease_seconds = 28800, srv_listener_sockfd = 7,
     srv_listener_watch = 9, srv_listener_channel = True, srv_lease_list = [],
     srv_nip_lease_hash = Map.empty, srv_option_hash = Map.empty,
     srv_save_lease_func = False, srv_next_ptr = 0\<rparr>"

definition ex_mac :: "u8 list" where "ex_mac = [2, 0, 0, 0, 0, 1, 0, 0, 0, 0, 0, 0, 0, 0, 0, 0]"
definition ex_mac2 :: "u8 list" where "ex_mac2 = [2, 0, 0, 0, 0, 2, 0, 0, 0, 0, 0, 0, 0, 0, 0, 0]"
definition ex_nip :: u32 where "ex_nip = 0x0237a8c0"

definition ex_lease :: dhcp_lease where
  "ex_lease = \<lparr>lease_expire = 29800, lease_nip = ex_nip, lease_mac = [2, 0, 0, 0, 0, 1]\<rparr>"

definition ex_bound :: GDHCPServer where
  "ex_bound = ex_server\<lparr>srv_lease_list := [(0, ex_lease)],
     srv_nip_lease_hash := [ex_nip \<mapsto> 0], srv_next_ptr := 1\<rparr>"

definition ex_discover :: dhcp_packet where
  "ex_discover = zero_packet\<lparr>pkt_op := 1, pkt_hlen := 6, pkt_xid := 77, pkt_chaddr := ex_mac\<rparr>"

lemma ex_env_sorted [simp]: "inserts_sorted (env_insert_sorted ex_env)"
  by (simp add: ex_env_def inserts_sorted_insert_by)

lemma ex_server_inv [simp]: "lease_inv ex_server"
  by (simp add: lease_inv_def ex_server_def)

lemma ex_bound_inv [simp]: "lease_inv ex_bound"
  by (auto simp: lease_inv_def ex_bound_def ex_server_def ex_lease_def ex_nip_def ETH_ALEN_def)

lemma ex_htonl: "htonl 0x0237a8c0 = 0xc0a83702" "htonl 0xc0a83702 = 0x0237a8c0"
  by (simp_all add: htonl_def bytes32_def of_bytes32_def)

lemma mac_constants:
  "MAC_BCAST_ADDR = [0xff, 0xff, 0xff, 0xff, 0xff, 0xff]" "MAC_ANY_ADDR = [0, 0, 0, 0, 0, 0]"
  by (simp_all add: MAC_BCAST_ADDR_def MAC_ANY_ADDR_def numeral_eq_Suc)

lemma ex_add_lease:
  "add_lease ex_env ex_server OFFER_TIME ex_mac ex_nip =
     (Some (0, \<lparr>lease_expire = 300, lease_nip = ex_nip, lease_mac = [2, 0, 0, 0, 0, 1]\<rparr>),
      ex_server\<lparr>srv_lease_list := [(0, \<lparr>lease_expire = 300, lease_nip = ex_nip, lease_mac = [2, 0, 0, 0, 0, 1]\<rparr>)],
        srv_nip_lease_hash := [ex_nip \<mapsto> 0], srv_next_ptr := 1\<rparr>)"
  by (simp add: add_lease_def get_lease_def ex_env_def ex_server_def ex_nip_def ex_htonl ex_mac_def
    find_lease_by_mac_def ETH_ALEN_def mac_constants OFFER_TIME_def Let_def)

lemma ex_offer_address: "offer_address ex_env ex_server ex_mac None ex_nip = ret_d ex_nip"
  by (simp add: offer_address_def check_requested_nip_def ex_server_def ex_nip_def ex_htonl
    find_lease_by_nip_def)

lemma ex_offer:
  "\<exists>t q. handle_message ex_env ex_server ex_discover DHCPDISCOVER None (Some ex_nip) =
     ret_d (t, [send_packet_to_client t q]) \<and> reply_to ex_discover ex_nip q"
proof -
  have "find_lease_by_mac ex_server (pkt_chaddr ex_discover) = None"
    by (simp add: find_lease_by_mac_def ex_server_def)
  moreover have "pkt_chaddr ex_discover = ex_mac" by (simp add: ex_discover_def)
  moreover have "ex_nip \<noteq> 0" by (simp add: ex_nip_def)
  ultimately show ?thesis
    using send_offer_cases(3) [of ex_env ex_server ex_discover None ex_nip ex_nip] ex_offer_address
      ex_add_lease
    by (auto simp: handle_message_def)
qed

section \<open>Properties of the server\<close>

text \<open>
  C2. No address is leased twice: from a new server, after any sequence of received packets,
  loaded leases, configuration changes, starts and stops in any order and at any clock times,
  no address has two leases, no client has two leases, and the lookup by address finds
  exactly the leases of the list.
\<close>

theorem server_leases_unique:
  assumes "srv_start s" and "run srv_step s events = Some (env, t)"
  shows "(\<forall>l m. l \<in> snd ` table t \<longrightarrow> m \<in> snd ` table t \<longrightarrow>
      lease_nip l = lease_nip m \<or> lease_mac l = lease_mac m \<longrightarrow> l = m) \<and>
    (\<forall>nip l. find_nip_lease t nip = Some l \<longleftrightarrow> l \<in> snd ` table t \<and> lease_nip l = nip)"
proof -
  have ok: "env_ok (env, t)" using srv.run_from_start [OF assms] .
  show ?thesis
  proof (intro conjI allI impI)
    fix l m assume lm: "l \<in> snd ` table t" "m \<in> snd ` table t"
      and same: "lease_nip l = lease_nip m \<or> lease_mac l = lease_mac m"
    have "l \<in> snd ` table (snd (env, t))" and "m \<in> snd ` table (snd (env, t))" using lm by simp_all
    from lt.one_client_per_address [OF ok this] lt.one_address_per_client [OF ok this] same
    show "l = m" by blast
  next
    fix nip l
    show "find_nip_lease t nip = Some l \<longleftrightarrow> l \<in> snd ` table t \<and> lease_nip l = nip"
      using lt.find_nip [OF ok, of nip l] by (simp only: snd_conv)
  qed
qed

definition ex_new :: GDHCPServer where
  "ex_new = ex_server\<lparr>srv_started := False, srv_start_ip := 0, srv_end_ip := 0,
     srv_lease_seconds := DEFAULT_DHCP_LEASE_SEC, srv_listener_sockfd := - 1,
     srv_listener_watch := - 1, srv_listener_channel := False\<rparr>"

lemma ex_new_start: "srv_start (ex_env, ex_new)"
proof -
  have "g_dhcp_server_new G_DHCP_IPV4 3 True (Some ''tether'') True 0x0137a8c0 = Inr ex_new"
    by (simp add: g_dhcp_server_new_def ex_new_def ex_server_def)
  then show ?thesis unfolding srv_start.simps using ex_env_sorted by blast
qed

theorem server_leases_unique_witness:
  "\<exists>env t. run srv_step (ex_env, ex_new) [EvStart 7 True 9, EvSetLeaseTime 60, EvStop] = Some (env, t) \<and>
     (\<forall>l m. l \<in> snd ` table t \<longrightarrow> m \<in> snd ` table t \<longrightarrow>
        lease_nip l = lease_nip m \<or> lease_mac l = lease_mac m \<longrightarrow> l = m)"
proof -
  have r: "run srv_step (ex_env, ex_new) [EvStart 7 True 9, EvSetLeaseTime 60, EvStop] =
      Some (ex_env, ex_new\<lparr>srv_listener_sockfd := 7, srv_listener_watch := 0, srv_lease_seconds := 60\<rparr>)"
    by (simp add: ex_new_def ex_server_def g_dhcp_server_start_def g_dhcp_server_set_lease_time_def
      g_dhcp_server_stop_def)
  show ?thesis using server_leases_unique [OF ex_new_start r] r by blast
qed

lemma discover_cases:
  assumes run: "handle_message env s p DHCPDISCOVER sid rip = ret_d (t, out)" and "out \<noteq> []"
  obtains y pt k q where
    "offer_address env s (pkt_chaddr p) (find_lease_by_mac s (pkt_chaddr p))
       (case rip of None \<Rightarrow> 0 | Some v \<Rightarrow> v) = ret_d y" and "y \<noteq> 0"
    and "add_lease env s OFFER_TIME (pkt_chaddr p) y = (Some (pt, k), t)"
    and "out = [send_packet_to_client t q]" and "reply_to p y q"
proof -
  let ?lease = "find_lease_by_mac s (pkt_chaddr p)" and ?req = "case rip of None \<Rightarrow> 0 | Some v \<Rightarrow> v"
  have so: "send_offer env s p ?lease ?req = ret_d (t, out)"
    using run by (simp add: handle_message_def)
  then obtain y where y: "offer_address env s (pkt_chaddr p) ?lease ?req = ret_d y"
    by (auto simp: send_offer_def bind_d_eq_ret)
  have y0: "y \<noteq> 0" using send_offer_cases(1) [OF y] so \<open>out \<noteq> []\<close> by auto
  obtain o' t' where add: "add_lease env s OFFER_TIME (pkt_chaddr p) y = (o', t')" by fastforce
  then obtain pt k where "o' = Some (pt, k)"
    using send_offer_cases(2) [OF y y0] so \<open>out \<noteq> []\<close> by (cases o') auto
  then show ?thesis using that [OF y y0] send_offer_cases(3) [OF y y0] add so by fastforce
qed

text \<open>
  C3. An offer never takes an address from a client whose lease runs: if a DISCOVER makes the
  server send something, it is one reply to that client, the address in it is nonzero and in
  the configured range, every other client's lease on it has expired, and afterwards the
  table holds the address for the client while all leases of other clients on other
  addresses are untouched.
\<close>

theorem discover_offer_safe:
  assumes inv: "lease_inv s" and ins: "inserts_sorted (env_insert_sorted env)"
    and run: "handle_message env s p DHCPDISCOVER sid rip = ret_d (t, out)" and "out \<noteq> []"
  shows "\<exists>q l. out = [send_packet_to_client t q] \<and> reply_to p (pkt_yiaddr q) q \<and>
    admissible s (pkt_yiaddr q) (pkt_chaddr p) \<and> offerable env s (pkt_chaddr p) (pkt_yiaddr q) \<and>
    lease_nip (snd l) = pkt_yiaddr q \<and> lease_mac (snd l) = take ETH_ALEN (pkt_chaddr p) \<and>
    table t = insert l (others s (pkt_yiaddr q) (pkt_chaddr p))"
proof -
  obtain y pt k q where y: "offer_address env s (pkt_chaddr p) (find_lease_by_mac s (pkt_chaddr p))
       (case rip of None \<Rightarrow> 0 | Some v \<Rightarrow> v) = ret_d y" "y \<noteq> 0"
    and add: "add_lease env s OFFER_TIME (pkt_chaddr p) y = (Some (pt, k), t)"
    and q: "out = [send_packet_to_client t q]" "reply_to p y q"
    using run \<open>out \<noteq> []\<close> by (rule discover_cases)
  have yq: "pkt_yiaddr q = y" using q(2) by (simp add: reply_to_def)
  show ?thesis
    using q yq add_lease_effect [OF inv ins add] offer_address_offerable [OF inv refl y]
    by (intro exI [of _ q] exI [of _ "(pt, k)"]) auto
qed

theorem discover_offer_safe_witness:
  "\<exists>t out. handle_message ex_env ex_server ex_discover DHCPDISCOVER None (Some ex_nip) = ret_d (t, out) \<and>
    (\<exists>q l. out = [send_packet_to_client t q] \<and> reply_to ex_discover (pkt_yiaddr q) q \<and>
    admissible ex_server (pkt_yiaddr q) (pkt_chaddr ex_discover) \<and>
    offerable ex_env ex_server (pkt_chaddr ex_discover) (pkt_yiaddr q) \<and>
    lease_nip (snd l) = pkt_yiaddr q \<and> lease_mac (snd l) = take ETH_ALEN (pkt_chaddr ex_discover) \<and>
    table t = insert l (others ex_server (pkt_yiaddr q) (pkt_chaddr ex_discover)))"
proof -
  obtain t q where h: "handle_message ex_env ex_server ex_discover DHCPDISCOVER None (Some ex_nip) =
     ret_d (t, [send_packet_to_client t q])"
    using ex_offer by blast
  show ?thesis using discover_offer_safe [OF ex_server_inv ex_env_sorted h] h by blast
qed

lemma add_lease_own:
  assumes inv: "lease_inv s" and ins: "inserts_sorted (env_insert_sorted env)"
    and l: "(pt, l) \<in> table s" "lease_nip l = r" "lease_mac l = take ETH_ALEN mac"
    and adm: "admissible s r mac"
  shows "\<exists>pt' t. add_lease env s 0 mac r = (Some (pt', \<lparr>lease_expire = env_now env +
      uint (srv_lease_seconds s), lease_nip = r, lease_mac = take ETH_ALEN mac\<rparr>), t) \<and>
    table t = insert (pt', \<lparr>lease_expire = env_now env + uint (srv_lease_seconds s),
      lease_nip = r, lease_mac = take ETH_ALEN mac\<rparr>) (table s - {(pt, l)})"
proof -
  have "srv_nip_lease_hash s r = Some pt" using l lease_invD(2) [OF inv] by blast
  then obtain s1 where "get_lease env s r mac = (Inr pt, s1)"
    using get_lease_hash_hit [OF inv adm] by blast
  then obtain k t where add: "add_lease env s 0 mac r = (Some (pt, k), t)"
    by (auto simp: add_lease_def Let_def)
  have "others s r mac = table s - {(pt, l)}"
    using table_nip_unique [OF inv l(1)] table_mac_unique [OF inv l(1)] l
    by (intro others_eqI [symmetric]) (metis Diff_iff prod.inject singletonD singletonI)
  with add_lease_effect [OF inv ins add] add show ?thesis by auto
qed

text \<open>The options of a reply: the message type first, then the server identifier and what follows.\<close>

lemma server_id_item:
  "known_code DHCP_SERVER_ID" "simple_data DHCP_SERVER_ID v = bytes32 v"
  by (simp_all add: simple_data_def dhcp_get_code_type_def client_options_def dhcp_codes bytes32_def known_code_def)

text \<open>A reply of the server to the packet \<open>cp\<close>, with options that fit into the part that is sent.\<close>

definition reply_opts :: "GDHCPServer \<Rightarrow> dhcp_packet \<Rightarrow> u8 \<Rightarrow> u32 \<Rightarrow> opt_item list \<Rightarrow> dhcp_packet \<Rightarrow> bool" where
  "reply_opts s cp t y os q \<longleftrightarrow> wf_packet q \<and> pkt_cookie q = htonl DHCP_MAGIC \<and> pkt_hlen q = 6 \<and>
     pkt_xid q = pkt_xid cp \<and> pkt_chaddr q = pkt_chaddr cp \<and> pkt_yiaddr q = y \<and>
     opts_rep (pkt_options q) (Opt DHCP_MESSAGE_TYPE [t] # Opt DHCP_SERVER_ID (bytes32 (srv_server_nip s)) # os) \<and>
     length (items_bytes (Opt DHCP_MESSAGE_TYPE [t] # Opt DHCP_SERVER_ID (bytes32 (srv_server_nip s)) # os)) < DHCP_OPTIONS_BUFSIZE"

fun config_item :: "opt_item \<Rightarrow> bool" where
  "config_item Pad = False"
| "config_item (Opt c d) \<longleftrightarrow> c \<in> {DHCP_SUBNET, DHCP_ROUTER, DHCP_DNS_SERVER} \<and> length d = 4"

lemma init_packet_opts:
  assumes "wf_packet cp"
  shows "\<exists>q. init_packet s cp t = Inr q \<and> reply_opts s cp t 0 [] q"
proof -
  obtain h where h: "dhcp_init_header t = Inr h" "wf_packet h" "opts_rep (pkt_options h) [Opt DHCP_MESSAGE_TYPE [t]]"
      "pkt_cookie h = htonl DHCP_MAGIC" "pkt_hlen h = 6" "pkt_yiaddr h = 0"
    using init_header_rep [of t] by auto
  let ?h = "h\<lparr>pkt_xid := pkt_xid cp, pkt_chaddr := pkt_chaddr cp, pkt_flags := pkt_flags cp,
    pkt_gateway_nip := pkt_gateway_nip cp, pkt_ciaddr := pkt_ciaddr cp\<rparr>"
  have "opts_rep (pkt_options ?h) [Opt DHCP_MESSAGE_TYPE [t]]" "length (pkt_options ?h) = 388"
    using h(2,3) by (simp_all add: wf_packet_def)
  from add_simple_option_rep [OF this server_id_item(1), of "srv_server_nip s"]
  show ?thesis using assms h
    by (auto simp: init_packet_def reply_opts_def server_id_item DHCP_OPTIONS_BUFSIZE_def wf_packet_def)
qed

lemma add_reply_option:
  assumes "reply_opts s cp t y os q" and "known_code code"
  shows "\<exists>r. dhcp_add_simple_option q code v = Inr r \<and>
    reply_opts s cp t y (if length (items_bytes os) + length (simple_data code v) + 12 < DHCP_OPTIONS_BUFSIZE
      then os @ [Opt code (simple_data code v)] else os) r"
proof -
  let ?os = "Opt DHCP_MESSAGE_TYPE [t] # Opt DHCP_SERVER_ID (bytes32 (srv_server_nip s)) # os"
  let ?d = "simple_data code v"
  have rep: "opts_rep (pkt_options q) ?os" "length (pkt_options q) = 388"
    using assms(1) by (auto simp: reply_opts_def wf_packet_def)
  show ?thesis
  proof (cases "length (items_bytes ?os) + length ?d + 3 < DHCP_OPTIONS_BUFSIZE")
    case True
    then obtain xs where "dhcp_add_simple_option q code v = Inr (q\<lparr>pkt_options := xs\<rparr>)"
        "opts_rep xs (?os @ [Opt code ?d])" "length xs = 388"
      using add_simple_option_rep [OF rep assms(2)] by blast
    then show ?thesis using True assms(1)
      by (auto simp: reply_opts_def wf_packet_def intro!: exI [of _ "q\<lparr>pkt_options := xs\<rparr>"])
  next
    case False
    have "length ?d < 256" using known_item_ok [OF assms(2), of v] by simp
    then have "dhcp_add_simple_option q code v = Inr q"
      using False add_binary_option_full [OF rep(1)] by (simp add: add_simple_option_binary [OF assms(2)])
    then show ?thesis using assms(1) False by simp
  qed
qed

lemma config_code_data:
  "code \<in> {DHCP_SUBNET, DHCP_ROUTER, DHCP_DNS_SERVER} \<Longrightarrow> known_code code \<and> length (simple_data code v) = 4"
  by (auto simp: simple_data_def dhcp_get_code_type_def client_options_def dhcp_codes known_code_iff)

lemma add_options_opts:
  assumes "reply_opts s cp t y os q"
  shows "\<exists>r os'. add_options env hash cs q = Inr r \<and> list_all config_item os' \<and> reply_opts s cp t y (os @ os') r"
  using assms
proof (induction cs arbitrary: q os)
  case Nil
  then show ?case by (intro exI [of _ q] exI [of _ "[]"]) simp
next
  case (Cons c cs)
  have "\<exists>r os'. (case hash c of None \<Rightarrow> Inr q | Some v \<Rightarrow> add_option env c v q) = Inr r \<and> list_all config_item os' \<and>
      reply_opts s cp t y (os @ os') r"
  proof (cases "\<exists>v nip. hash c = Some v \<and> c \<in> {DHCP_SUBNET, DHCP_ROUTER, DHCP_DNS_SERVER} \<and> env_inet_aton env v = Some nip")
    case True
    then obtain v nip where h: "hash c = Some v" "c \<in> {DHCP_SUBNET, DHCP_ROUTER, DHCP_DNS_SERVER}" "env_inet_aton env v = Some nip" by blast
    obtain r where "dhcp_add_simple_option q c nip = Inr r"
        "reply_opts s cp t y (if length (items_bytes os) + length (simple_data c nip) + 12 < DHCP_OPTIONS_BUFSIZE
          then os @ [Opt c (simple_data c nip)] else os) r"
      using add_reply_option [OF Cons.prems] config_code_data [OF h(2)] by blast
    then show ?thesis using h config_code_data [OF h(2), of nip]
      by (intro exI [of _ r] exI [of _ "if length (items_bytes os) + length (simple_data c nip) + 12 < DHCP_OPTIONS_BUFSIZE
          then [Opt c (simple_data c nip)] else []"]) (auto simp: add_option_def)
  next
    case False
    then show ?thesis using Cons.prems
      by (intro exI [of _ q] exI [of _ "[]"]) (auto simp: add_option_def split: option.split)
  qed
  then obtain r os' where r: "(case hash c of None \<Rightarrow> Inr q | Some v \<Rightarrow> add_option env c v q) = Inr r"
      "list_all config_item os'" "reply_opts s cp t y (os @ os') r" by blast
  obtain r' os'' where "add_options env hash cs r = Inr r'" "list_all config_item os''" "reply_opts s cp t y ((os @ os') @ os'') r'"
    using Cons.IH [OF r(3)] by blast
  then show ?case using r by (intro exI [of _ r'] exI [of _ "os' @ os''"]) (auto split: option.splits)
qed


definition lease_reply :: "GDHCPServer \<Rightarrow> dhcp_packet \<Rightarrow> u8 \<Rightarrow> u32 \<Rightarrow> dhcp_packet \<Rightarrow> bool" where
  "lease_reply s cp t y q \<longleftrightarrow> (\<exists>os. list_all config_item os \<and>
     reply_opts s cp t y (Opt DHCP_LEASE_TIME (bytes32 (htonl (srv_lease_seconds s))) # os) q)"

lemma lease_options_reply:
  assumes "reply_opts s cp t 0 [] q"
  shows "\<exists>r. bind_r (dhcp_add_simple_option (q\<lparr>pkt_yiaddr := y\<rparr>) DHCP_LEASE_TIME (htonl (srv_lease_seconds s)))
      (add_options env hash cs) = Inr r \<and> lease_reply s cp t y r"
proof -
  have lt: "known_code DHCP_LEASE_TIME" "simple_data DHCP_LEASE_TIME v = bytes32 v" for v
    by (simp_all add: known_code_iff simple_data_def dhcp_get_code_type_def client_options_def dhcp_codes bytes32_def)
  have "reply_opts s cp t y [] (q\<lparr>pkt_yiaddr := y\<rparr>)" using assms by (auto simp: reply_opts_def wf_packet_def)
  from add_reply_option [OF this lt(1), of "htonl (srv_lease_seconds s)"]
  obtain r where r: "dhcp_add_simple_option (q\<lparr>pkt_yiaddr := y\<rparr>) DHCP_LEASE_TIME (htonl (srv_lease_seconds s)) = Inr r"
      "reply_opts s cp t y [Opt DHCP_LEASE_TIME (bytes32 (htonl (srv_lease_seconds s)))] r"
    by (auto simp: lt(2) DHCP_OPTIONS_BUFSIZE_def)
  from add_options_opts [OF r(2), of env hash cs] r(1) show ?thesis by (auto simp: lease_reply_def)
qed

lemma send_ACK_reply:
  assumes "wf_packet cp"
  shows "\<exists>q. send_ACK env s cp y = Inr (snd (add_lease env s 0 (pkt_chaddr cp) y), [send_packet_to_client s q]) \<and>
     lease_reply s cp DHCPACK y q"
proof -
  obtain q where q: "init_packet s cp DHCPACK = Inr q" "reply_opts s cp DHCPACK 0 [] q"
    using init_packet_opts [OF assms] by blast
  obtain r where r: "bind_r (dhcp_add_simple_option (q\<lparr>pkt_yiaddr := y\<rparr>) DHCP_LEASE_TIME (htonl (srv_lease_seconds s)))
      (add_options env (srv_option_hash s) (env_option_order env)) = Inr r" "lease_reply s cp DHCPACK y r"
    using lease_options_reply [OF q(2)] by blast
  then have "pkt_chaddr r = pkt_chaddr cp" "pkt_yiaddr r = y" by (auto simp: lease_reply_def reply_opts_def)
  then show ?thesis using q(1) r by (auto simp: send_ACK_def add_server_options_def bind_r_eq_Inr)
qed

lemma send_offer_reply:
  assumes "wf_packet cp" and "offer_address env s (pkt_chaddr cp) lease req = ret_d y" and "y \<noteq> 0"
    and "add_lease env s OFFER_TIME (pkt_chaddr cp) y = (Some l, t)"
  shows "\<exists>q. send_offer env s cp lease req = ret_d (t, [send_packet_to_client t q]) \<and> lease_reply s cp DHCPOFFER y q"
proof -
  obtain q where q: "init_packet s cp DHCPOFFER = Inr q" "reply_opts s cp DHCPOFFER 0 [] q"
    using init_packet_opts [OF assms(1)] by blast
  then have ch: "pkt_chaddr q = pkt_chaddr cp" by (simp add: reply_opts_def)
  have sec: "srv_lease_seconds t = srv_lease_seconds s"
    using assms(4) get_lease_range [of env s y "pkt_chaddr cp"] by (auto simp: add_lease_def Let_def split: prod.splits sum.splits)
  obtain r where r: "bind_r (dhcp_add_simple_option (q\<lparr>pkt_yiaddr := y\<rparr>) DHCP_LEASE_TIME (htonl (srv_lease_seconds s)))
      (add_options env (srv_option_hash t) (env_option_order env)) = Inr r" "lease_reply s cp DHCPOFFER y r"
    using lease_options_reply [OF q(2)] by blast
  have "bind_r (dhcp_add_simple_option (q\<lparr>pkt_yiaddr := y\<rparr>) DHCP_LEASE_TIME (htonl (srv_lease_seconds t)))
      (add_server_options env t) = Inr r"
    using r(1) by (simp add: sec add_server_options_def [abs_def])
  then show ?thesis using q(1) ch assms(2-4) r(2) by (intro exI [of _ r]) (simp add: send_offer_def)
qed

lemma send_NAK_reply:
  assumes "wf_packet cp"
  shows "\<exists>q. send_NAK s cp = Inr [SendRaw q (srv_server_nip s) SERVER_PORT INADDR_BROADCAST CLIENT_PORT
     MAC_BCAST_ADDR (srv_ifindex s)] \<and> reply_to cp 0 q \<and> reply_opts s cp DHCPNAK 0 [] q"
  using init_packet_opts [OF assms, of s DHCPNAK] init_packet_total [of s cp DHCPNAK]
  by (auto simp: send_NAK_def)

lemma send_packet_to_client_inj:
  "send_packet_to_client s q = send_packet_to_client s q' \<Longrightarrow> q = q'"
  by (auto simp: send_packet_to_client_def split: if_splits)

definition nak_packet :: "GDHCPServer \<Rightarrow> dhcp_packet \<Rightarrow> srv_out list \<Rightarrow> bool" where
  "nak_packet s p out \<longleftrightarrow> (\<exists>q. out = [SendRaw q (srv_server_nip s) SERVER_PORT INADDR_BROADCAST
     CLIENT_PORT MAC_BCAST_ADDR (srv_ifindex s)] \<and> reply_to p 0 q \<and> reply_opts s p DHCPNAK 0 [] q)"

definition ack_packet :: "GDHCPServer \<Rightarrow> dhcp_packet \<Rightarrow> u32 \<Rightarrow> srv_out list \<Rightarrow> bool" where
  "ack_packet s p r out \<longleftrightarrow>
     (\<exists>q. out = [send_packet_to_client s q] \<and> reply_to p r q \<and> lease_reply s p DHCPACK r q)"

lemma send_ACK_packet:
  assumes "wf_packet p"
  shows "\<exists>out. send_ACK env s p r = Inr (snd (add_lease env s 0 (pkt_chaddr p) r), out) \<and> ack_packet s p r out"
  using send_ACK_reply [OF assms, of env s r] send_ACK_total [of env s p r] send_packet_to_client_inj
  unfolding ack_packet_def by (metis Inr_inject list.inject prod.inject)

text \<open>
  C4. The answer to a REQUEST, on every branch. With the requested address \<open>r\<close> taken from the
  option or from \<^verbatim>\<open>ciaddr\<close>: a REQUEST for no address is not answered; a client that holds a lease
  on \<open>r\<close> gets exactly one packet, of type DHCPACK and with the address \<open>r\<close>, the identifier of this
  server and the lease time, and (if \<open>r\<close> is still in range) its lease is renewed to the full lease
  time; a client that holds another lease gets one packet of type DHCPNAK without an address if it
  named this server and nothing otherwise; a client without a lease gets a DHCPNAK. No other
  lease changes. The packet is any whose fixed fields have their sizes.
\<close>

theorem request_reply:
  assumes inv: "lease_inv s" and ins: "inserts_sorted (env_insert_sorted env)" and wf: "wf_packet p"
    and r: "r = (case rip of None \<Rightarrow> pkt_ciaddr p | Some v \<Rightarrow> if v = 0 then pkt_ciaddr p else v)"
  shows "\<exists>t out. handle_message env s p DHCPREQUEST sid rip = ret_d (t, out) \<and>
    (if r = 0 then out = [] \<and> t = s
     else case find_lease_by_mac s (pkt_chaddr p) of
       None \<Rightarrow> nak_packet s p out \<and> t = s
     | Some (pt, l) \<Rightarrow>
         if lease_nip l = r then
           ack_packet s p r out \<and>
           (admissible s r (pkt_chaddr p) \<longrightarrow>
             (\<exists>pt'. table t = insert (pt', \<lparr>lease_expire = env_now env + uint (srv_lease_seconds s),
                lease_nip = r, lease_mac = take ETH_ALEN (pkt_chaddr p)\<rparr>) (table s - {(pt, l)})))
         else if sid \<noteq> None then nak_packet s p out \<and> t = s
         else out = [] \<and> t = s)"
proof (cases "r = 0")
  case True
  then show ?thesis using r by (auto simp: handle_message_def dhcp_types split: option.splits if_splits)
next
  case r0: False
  have req: "(if (case rip of None \<Rightarrow> 0 | Some v \<Rightarrow> v) = 0 then pkt_ciaddr p
      else (case rip of None \<Rightarrow> 0 | Some v \<Rightarrow> v)) = r"
    using r by (auto split: option.splits if_splits)
  have ne: "DHCPREQUEST \<noteq> DHCPDISCOVER" by (simp add: dhcp_types)
  obtain nout where nak: "send_NAK s p = Inr nout" "nak_packet s p nout"
    using send_NAK_reply [OF wf] unfolding nak_packet_def by blast
  obtain aout where ack: "send_ACK env s p r = Inr (snd (add_lease env s 0 (pkt_chaddr p) r), aout)"
      "ack_packet s p r aout"
    using send_ACK_packet [OF wf] by blast
  show ?thesis
  proof (cases "find_lease_by_mac s (pkt_chaddr p)")
    case None
    then show ?thesis using nak r0 ne by (simp add: handle_message_def req)
  next
    case (Some lm)
    obtain pt l where lm: "lm = (pt, l)" by (cases lm)
    have l: "(pt, l) \<in> table s" "lease_mac l = take ETH_ALEN (pkt_chaddr p)"
      using find_lease_by_mac_Some Some unfolding lm by blast+
    show ?thesis
    proof (cases "lease_nip l = r")
      case True
      then show ?thesis
        using Some ack r0 ne add_lease_own [OF inv ins l(1) True l(2)]
        by (fastforce simp: handle_message_def req lm)
    next
      case False
      then show ?thesis using Some nak r0 ne by (auto simp: handle_message_def req lm)
    qed
  qed
qed

theorem request_reply_witness:
  "\<exists>t out. handle_message ex_env ex_bound ex_discover DHCPREQUEST None (Some ex_nip) = ret_d (t, out) \<and>
     ack_packet ex_bound ex_discover ex_nip out"
proof -
  have "find_lease_by_mac ex_bound (pkt_chaddr ex_discover) = Some (0, ex_lease)"
    by (simp add: find_lease_by_mac_def ex_bound_def ex_server_def ex_discover_def ex_mac_def
      ex_lease_def ETH_ALEN_def)
  moreover have "wf_packet ex_discover"
    by (simp add: wf_packet_def ex_discover_def ex_mac_def zero_packet_def)
  ultimately show ?thesis
    using request_reply [OF ex_bound_inv ex_env_sorted, where r = ex_nip and rip = "Some ex_nip" and p = ex_discover and sid = None]
    by (auto simp: ex_nip_def ex_lease_def)
qed

text \<open>
  The reservation an offer makes does not hold: \<open>OFFER_TIME\<close> is stored as an absolute time,
  so at every clock value past 300 the lease an offer records has expired when it is made,
  and the next client that asks for the address is offered the same one.
\<close>

lemma offer_not_reserved:
  assumes inv: "lease_inv s" and ins: "inserts_sorted (env_insert_sorted env)"
    and run: "handle_message env s p DHCPDISCOVER sid rip = ret_d (t, out)" and "out \<noteq> []"
    and now: "300 < env_now env"
  shows "\<exists>q. out = [send_packet_to_client t q] \<and> admissible s (pkt_yiaddr q) (pkt_chaddr p) \<and>
    offer_address env t mac2 None (pkt_yiaddr q) = ret_d (pkt_yiaddr q)"
proof -
  obtain y pt k q where y0: "y \<noteq> 0"
    and add: "add_lease env s OFFER_TIME (pkt_chaddr p) y = (Some (pt, k), t)"
    and q: "out = [send_packet_to_client t q]" "reply_to p y q"
    using run \<open>out \<noteq> []\<close> by (rule discover_cases)
  note eff = add_lease_effect [OF inv ins add]
  have "map_of (srv_lease_list t) pt = Some k" and "srv_nip_lease_hash t y = Some pt"
    using eff lease_invD(1,2) [of t] by auto
  moreover have "is_expired_lease env k"
    using eff now by (simp add: is_expired_lease_def OFFER_TIME_def)
  moreover have "srv_start_ip t = srv_start_ip s \<and> srv_end_ip t = srv_end_ip s"
    by (rule add_lease_range [OF add])
  ultimately have "offer_address env t mac2 None y = ret_d y"
    using y0 eff by (auto simp: offer_address_def check_requested_nip_def find_lease_by_nip_def
      admissible_def dest: leD)
  moreover have "pkt_yiaddr q = y" using q(2) by (simp add: reply_to_def)
  ultimately show ?thesis using q eff by auto
qed

lemma offer_not_reserved_witness:
  "\<exists>t q. handle_message ex_env ex_server ex_discover DHCPDISCOVER None (Some ex_nip) =
       ret_d (t, [send_packet_to_client t q]) \<and>
     offer_address ex_env t ex_mac2 None (pkt_yiaddr q) = ret_d (pkt_yiaddr q)"
proof -
  obtain t q where h: "handle_message ex_env ex_server ex_discover DHCPDISCOVER None (Some ex_nip) =
     ret_d (t, [send_packet_to_client t q])"
    using ex_offer by blast
  have "300 < env_now ex_env" by (simp add: ex_env_def)
  from offer_not_reserved [OF ex_server_inv ex_env_sorted h _ this, of ex_mac2] h
  show ?thesis by auto
qed

section \<open>Termination and the order of the lease list\<close>

lemma check_requested_nip_total:
  assumes "lease_inv s"
  shows "\<exists>b. check_requested_nip env s nip = Inr b"
proof (cases "srv_nip_lease_hash s nip")
  case None
  then show ?thesis by (auto simp: check_requested_nip_def find_lease_by_nip_def)
next
  case (Some p)
  then obtain l where "(p, l) \<in> table s" using lease_invD(2) [OF assms] by blast
  then have "map_of (srv_lease_list s) p = Some l" using lease_invD(1) [OF assms] by simp
  with Some show ?thesis by (auto simp: check_requested_nip_def find_lease_by_nip_def)
qed

lemma find_free_total:
  "srv_end_ip s \<noteq> - 1 \<Longrightarrow> \<exists>y. find_free_or_expired_nip env s mac = Some y"
  using free_nip_loop_ends [of s mac "srv_start_ip s"]
  by (auto simp: find_free_or_expired_nip_def Let_def split: option.split)

text \<open>
  C31. The handler of a message always ends and never faults, whatever the client sent, unless
  the configured range ends at 255.255.255.255 (where the search for a free address wraps
  around): it returns a new server state and its replies.
\<close>

theorem handle_message_total:
  assumes inv: "lease_inv s" and "srv_end_ip s \<noteq> - 1"
  shows "\<exists>t out. handle_message env s p type sid rip = ret_d (t, out)"
proof -
  have "\<exists>y. offer_address env s mac lease req = ret_d y" for mac lease req
    using check_requested_nip_total [OF inv, of env req] find_free_total [OF assms(2), of env mac]
    by (auto simp: offer_address_def split: option.split)
  then have off: "\<exists>t out. send_offer env s p lease req = ret_d (t, out)" for lease req
    using send_offer_cases [of env s p lease req] by (metis not_None_eq surj_pair)
  have ack: "\<exists>t out. send_ACK env s p r = Inr (t, out)" for r using send_ACK_total by blast
  have nak: "\<exists>out. send_NAK s p = Inr out" using send_NAK_total by blast
  have inf: "\<exists>out. send_inform env s p = Inr out" using send_inform_total by blast
  show ?thesis
    using off ack nak inf unfolding handle_message_def Let_def
    by (auto split: option.split)
qed

theorem handle_message_total_witness:
  "\<exists>t out. handle_message ex_env ex_bound ex_discover DHCPINFORM None None = ret_d (t, out)"
  by (rule handle_message_total [OF ex_bound_inv]) (simp add: ex_bound_def ex_server_def)

text \<open>The list runs from the latest to the earliest expiry while the times fit in 31 bits.\<close>

definition expiry_sorted :: "GDHCPServer \<Rightarrow> bool" where
  "expiry_sorted s \<longleftrightarrow>
     sorted_wrt (\<lambda>a b. lease_expire (snd b) \<le> lease_expire (snd a)) (srv_lease_list s) \<and>
     (\<forall>a \<in> table s. 0 \<le> lease_expire (snd a) \<and> lease_expire (snd a) < 2 ^ 31)"

lemma compare_expire_exact:
  assumes "0 \<le> lease_expire (snd a)" "lease_expire (snd a) < 2 ^ 31"
    and "0 \<le> lease_expire (snd b)" "lease_expire (snd b) < 2 ^ 31"
  shows "compare_expire a b = lease_expire (snd b) - lease_expire (snd a)"
proof -
  let ?d = "lease_expire (snd b) - lease_expire (snd a)"
  have "sint (word_of_int ?d :: 32 word) = signed_take_bit 31 ?d"
    by (simp only: sint_sbintrunc') simp
  also have "\<dots> = ?d" using assms by (intro signed_take_bit_int_eq_self) auto
  finally show ?thesis by (simp only: compare_expire_def)
qed

lemma expiry_sorted_insert:
  assumes ins: "inserts_sorted ins" and "sorted_wrt (\<lambda>a b. lease_expire (snd b) \<le> lease_expire (snd a)) xs"
    and bd: "\<forall>a \<in> insert x (set xs). 0 \<le> lease_expire (snd a) \<and> lease_expire (snd a) < 2 ^ 31"
  shows "sorted_wrt (\<lambda>a b. lease_expire (snd b) \<le> lease_expire (snd a)) (ins compare_expire x xs)"
proof -
  obtain ys zs where xs: "xs = ys @ zs" and i: "ins compare_expire x xs = ys @ x # zs"
    and gt: "\<forall>y \<in> set ys. 0 < compare_expire x y"
    and le: "zs \<noteq> [] \<longrightarrow> compare_expire x (hd zs) \<le> 0"
    using ins by (rule inserts_sortedE)
  have "\<forall>y \<in> set ys. lease_expire (snd x) \<le> lease_expire (snd y)"
    using gt bd by (auto simp: xs compare_expire_exact)
  moreover have "\<forall>z \<in> set zs. lease_expire (snd z) \<le> lease_expire (snd x)"
  proof (cases zs)
    case (Cons z zs')
    then have "lease_expire (snd z) \<le> lease_expire (snd x)"
      using le bd by (auto simp: xs compare_expire_exact)
    then show ?thesis using assms(2) by (auto simp: xs Cons sorted_wrt_append)
  qed simp
  ultimately show ?thesis unfolding i using assms(2) [unfolded xs] by (auto simp: sorted_wrt_append)
qed

lemma sorted_wrt_g_list_remove: "sorted_wrt P xs \<Longrightarrow> sorted_wrt P (g_list_remove p xs)"
proof (induction xs)
  case (Cons x xs)
  then show ?case using g_list_remove_subset [of p xs] by auto
qed simp

lemma expiry_sorted_remove: "expiry_sorted s \<Longrightarrow> expiry_sorted (remove_lease s l)"
  using g_list_remove_subset [of "fst l" "srv_lease_list s"]
  by (auto simp: expiry_sorted_def remove_lease_def sorted_wrt_g_list_remove)

lemma get_lease_sorted: "expiry_sorted s \<Longrightarrow> expiry_sorted (snd (get_lease env s nip mac))"
  using g_list_remove_subset
  by (cases "admissible s nip mac")
    (auto 4 3 simp: get_lease_inadmissible get_lease_admissible Let_def remove_lease_def expiry_sorted_def
      sorted_wrt_g_list_remove split: option.split dest!: subsetD [OF g_list_remove_subset])

lemma add_lease_sorted:
  assumes "expiry_sorted s" and ins: "inserts_sorted (env_insert_sorted env)"
    and "0 \<le> env_now env" and "env_now env + uint (srv_lease_seconds s) < 2 ^ 31" and "uint e < 2 ^ 31"
  shows "expiry_sorted (snd (add_lease env s e mac nip))"
proof (cases "get_lease env s nip mac")
  case (Pair r s1)
  have s1: "expiry_sorted s1" "srv_lease_seconds s1 = srv_lease_seconds s"
    using get_lease_sorted [OF assms(1), of env nip mac] get_lease_range [of env s nip mac] Pair by auto
  show ?thesis
  proof (cases r)
    case (Inr p)
    let ?x = "(p, \<lparr>lease_expire = (if e = 0 then env_now env + uint (srv_lease_seconds s1) else uint e),
       lease_nip = nip, lease_mac = take ETH_ALEN mac\<rparr>)"
    have "\<forall>a \<in> insert ?x (table s1). 0 \<le> lease_expire (snd a) \<and> lease_expire (snd a) < 2 ^ 31"
      using s1 assms(3-5) by (auto simp: expiry_sorted_def)
    with expiry_sorted_insert [OF ins, of "srv_lease_list s1" ?x] s1(1) Pair Inr show ?thesis
      by (auto simp: add_lease_def Let_def expiry_sorted_def set_insert_sorted [OF ins])
  qed (use s1 Pair in \<open>simp add: add_lease_def\<close>)
qed


lemma last_expires_first:
  assumes "expiry_sorted s" and "a \<in> table s"
  shows "lease_expire (snd (last (srv_lease_list s))) \<le> lease_expire (snd a)"
proof -
  let ?R = "\<lambda>a b. lease_expire (snd b) \<le> lease_expire (snd a)"
  have ne: "srv_lease_list s \<noteq> []" using assms(2) by auto
  have "sorted_wrt ?R (butlast (srv_lease_list s) @ [last (srv_lease_list s)])"
    using assms(1) ne by (simp add: expiry_sorted_def)
  moreover have "a \<in> set (butlast (srv_lease_list s) @ [last (srv_lease_list s)])"
    using assms(2) ne by simp
  ultimately show ?thesis by (auto simp: sorted_wrt_append)
qed

lemma expired_iff_last:
  assumes "expiry_sorted s" and "srv_lease_list s \<noteq> []"
  shows "(\<forall>(p, l) \<in> table s. \<not> is_expired_lease env l) \<longleftrightarrow>
    \<not> is_expired_lease env (snd (last (srv_lease_list s)))" (is "?all = ?last")
proof
  assume ?last
  then show ?all using last_expires_first [OF assms(1)]
    by (auto simp: is_expired_lease_def) (metis leD le_less_trans snd_conv)
next
  assume ?all
  moreover have "last (srv_lease_list s) \<in> table s" using assms(2) by simp
  ultimately show ?last by (metis case_prodD prod.collapse)
qed

text \<open>
  C32. The search for an address gives up (address 0) exactly when every usable address of the
  range is leased and no lease has expired: a free address is never missed, and looking at the
  last lease of the list alone is enough to know that none has expired, because the list is
  kept in the order of expiry.
\<close>

theorem find_free_or_expired_nip_complete:
  assumes "expiry_sorted s" and "srv_end_ip s \<noteq> - 1" and "\<forall>(p, l) \<in> table s. lease_nip l \<noteq> 0"
  shows "find_free_or_expired_nip env s mac = Some 0 \<longleftrightarrow>
    (\<forall>a. srv_start_ip s \<le> a \<longrightarrow> a \<le> srv_end_ip s \<longrightarrow> a AND 0xff \<noteq> 0 \<longrightarrow> a AND 0xff \<noteq> 0xff \<longrightarrow>
       find_lease_by_nip s (htonl a) \<noteq> None) \<and>
    (\<forall>(p, l) \<in> table s. \<not> is_expired_lease env l)"
proof -
  let ?leased = "\<forall>a. srv_start_ip s \<le> a \<longrightarrow> a \<le> srv_end_ip s \<longrightarrow> a AND 0xff \<noteq> 0 \<longrightarrow> a AND 0xff \<noteq> 0xff \<longrightarrow>
    find_lease_by_nip s (htonl a) \<noteq> None"
  obtain r where loop: "free_nip_loop s mac (srv_start_ip s) = Some r"
    and least: "\<forall>n. r = Some n \<longrightarrow> srv_start_ip s \<le> ntohl n" and none: "r = None \<longrightarrow> ?leased"
    using free_nip_loop_ends [OF assms(2), of mac "srv_start_ip s"] by (elim exE conjE)
  show ?thesis
  proof (cases r)
    case (Some n)
    note free = free_nip_loop_result [OF loop, of n, THEN mp, OF Some]
    have "n \<noteq> 0" using free by (intro notI) simp
    moreover have "\<not> ?leased"
    proof
      assume ?leased
      from this [rule_format, of "ntohl n"] free least Some show False by simp
    qed
    moreover have "find_free_or_expired_nip env s mac = Some n"
      using loop Some by (simp add: find_free_or_expired_nip_def)
    ultimately show ?thesis by (metis option.inject)
  next
    case None
    show ?thesis
    proof (cases "srv_lease_list s = []")
      case True
      then have "find_free_or_expired_nip env s mac = Some 0" and "\<forall>(p, l) \<in> table s. \<not> is_expired_lease env l"
        using None loop by (simp_all add: find_free_or_expired_nip_def)
      then show ?thesis using none None by blast
    next
      case False
      let ?l = "last (srv_lease_list s)"
      have l: "?l \<in> table s" using False by simp
      then have nz: "lease_nip (snd ?l) \<noteq> 0" using bspec [OF assms(3) l] by (simp add: case_prod_beta)
      have "(\<forall>(p, l) \<in> table s. \<not> is_expired_lease env l) \<longleftrightarrow> \<not> is_expired_lease env (snd ?l)"
        using expired_iff_last [OF assms(1)] False by blast
      moreover have "find_free_or_expired_nip env s mac = Some 0 \<longleftrightarrow> \<not> is_expired_lease env (snd ?l)"
        using None loop nz False by (simp add: find_free_or_expired_nip_def Let_def arp_check_def)
      ultimately show ?thesis using none None by blast
    qed
  qed
qed


theorem find_free_or_expired_nip_complete_witness:
  "find_free_or_expired_nip ex_env ex_bound ex_mac2 \<noteq> Some 0"
proof
  assume "find_free_or_expired_nip ex_env ex_bound ex_mac2 = Some 0"
  moreover have "expiry_sorted ex_bound" "srv_end_ip ex_bound \<noteq> - 1" "\<forall>(p, l) \<in> table ex_bound. lease_nip l \<noteq> 0"
    by (simp_all add: expiry_sorted_def ex_bound_def ex_server_def ex_lease_def ex_nip_def)
  ultimately have "\<forall>a. srv_start_ip ex_bound \<le> a \<longrightarrow> a \<le> srv_end_ip ex_bound \<longrightarrow> a AND 0xff \<noteq> 0 \<longrightarrow>
      a AND 0xff \<noteq> 0xff \<longrightarrow> find_lease_by_nip ex_bound (htonl a) \<noteq> None"
    using find_free_or_expired_nip_complete by blast
  from this [rule_format, of "0xc0a83703"] show False
    by (simp add: ex_bound_def ex_server_def ex_nip_def find_lease_by_nip_def htonl_def bytes32_def of_bytes32_def)
qed

lemma lease_set_expire_sorted:
  assumes "expiry_sorted s" and ins: "inserts_sorted (env_insert_sorted env)" and "0 \<le> e" "e < 2 ^ 31"
  shows "expiry_sorted (lease_set_expire env s l e)"
proof -
  have e: "uint (word_of_int e :: u32) = e" using assms(3,4) by (simp add: uint_word_of_int take_bit_int_eq_self)
  have sub: "\<forall>a \<in> set (g_list_remove (fst l) (srv_lease_list s)). 0 \<le> lease_expire (snd a) \<and> lease_expire (snd a) < 2 ^ 31"
    using assms(1) g_list_remove_subset [of "fst l" "srv_lease_list s"] by (auto simp: expiry_sorted_def)
  let ?x = "(fst l, (snd l)\<lparr>lease_expire := e\<rparr>)"
  have "\<forall>a \<in> insert ?x (set (g_list_remove (fst l) (srv_lease_list s))).
      0 \<le> lease_expire (snd a) \<and> lease_expire (snd a) < 2 ^ 31"
    using sub assms(3,4) by auto
  with expiry_sorted_insert [OF ins, of "g_list_remove (fst l) (srv_lease_list s)" ?x] assms(1)
    sorted_wrt_g_list_remove
  show ?thesis by (auto simp: expiry_sorted_def lease_set_expire_def e set_insert_sorted [OF ins])
qed

lemma send_offer_sorted:
  assumes "expiry_sorted s" and ins: "inserts_sorted (env_insert_sorted env)"
    and clock: "0 \<le> env_now env" "env_now env + uint (srv_lease_seconds s) < 2 ^ 31"
    and "send_offer env s cp lease req = ret_d (t, out)"
  shows "expiry_sorted t"
proof -
  obtain y where y: "offer_address env s (pkt_chaddr cp) lease req = ret_d y"
    using assms(5) by (auto simp: send_offer_def bind_d_eq_ret)
  obtain o' t' where add: "add_lease env s OFFER_TIME (pkt_chaddr cp) y = (o', t')" by fastforce
  have "expiry_sorted t'"
    using add_lease_sorted [OF assms(1-4), of OFFER_TIME "pkt_chaddr cp" y] add by (simp add: OFFER_TIME_def)
  then show ?thesis using send_offer_cases [OF y] add assms(1,5) by (cases "y = 0"; cases o') auto
qed

text \<open>
  The list of leases stays in the order of expiry through every message the server
  handles, as long as the clock plus the configured lease time stays within 31 bits (the
  comparison function of the list truncates the difference of two times to an \<open>int\<close>).
\<close>

lemma handle_message_keeps_order:
  assumes "expiry_sorted s" and "inserts_sorted (env_insert_sorted env)"
    and "0 \<le> env_now env" "env_now env + uint (srv_lease_seconds s) < 2 ^ 31"
    and "handle_message env s p type sid rip = ret_d (t, out)"
  shows "expiry_sorted t"
proof -
  have ack: "send_ACK env s p y = Inr (t, out) \<Longrightarrow> expiry_sorted t" for y
    using send_ACK_total [of env s p y] add_lease_sorted [OF assms(1-4), of 0 "pkt_chaddr p" y] by auto
  have "env_now env < 2 ^ 31" using assms(4) uint_nonnegative [of "srv_lease_seconds s"] by linarith
  then have rel: "expiry_sorted (lease_set_expire env s l (env_now env))" for l
    using lease_set_expire_sorted [OF assms(1,2,3)] by blast
  show ?thesis
    using assms(5,1) ack rel expiry_sorted_remove [OF assms(1)] send_offer_sorted [OF assms(1-4)]
    unfolding handle_message_def Let_def
    by (auto simp: bind_r_eq_Inr split: if_splits option.splits)
qed

lemma handle_message_keeps_order_witness:
  "expiry_sorted (lease_set_expire ex_env ex_bound (0, ex_lease) 1000)"
proof -
  let ?p = "ex_discover\<lparr>pkt_ciaddr := ex_nip\<rparr>"
  have "handle_message ex_env ex_bound ?p DHCPRELEASE (Some 1) None =
      ret_d (lease_set_expire ex_env ex_bound (0, ex_lease) 1000, [])"
    by (simp add: handle_message_def dhcp_types find_lease_by_mac_def ex_bound_def ex_server_def ex_lease_def
        ex_discover_def ex_mac_def ETH_ALEN_def ex_env_def)
  then show ?thesis
    by (rule handle_message_keeps_order [rotated 4])
      (simp_all add: expiry_sorted_def ex_bound_def ex_server_def ex_lease_def ex_env_def inserts_sorted_insert_by)
qed

end
