(* ===== verification/Ipv4ll.thy ===== *)
theory Ipv4ll
  imports Dhcp_Wire
begin

text \<open>
  Link-local addressing (\<open>gdhcp/ipv4ll.c\<close>): random addresses and delays over the pseudo random
  generator of the C library, and the ARP packets that probe for an address and announce it.
  The state machine that drives them is part of the DHCP client.
\<close>

section \<open>Constants\<close>

definition LINKLOCAL_ADDR :: u32 where "LINKLOCAL_ADDR = 0xa9fe0000"
definition IN_CLASSB_HOST :: u32 where "IN_CLASSB_HOST = 0xffff"

definition PROBE_WAIT :: u32 where "PROBE_WAIT = 1"
definition PROBE_NUM :: u8 where "PROBE_NUM = 3"
definition PROBE_MIN :: u32 where "PROBE_MIN = 1"
definition PROBE_MAX :: u32 where "PROBE_MAX = 2"
definition ANNOUNCE_WAIT :: u32 where "ANNOUNCE_WAIT = 2"
definition ANNOUNCE_NUM :: u8 where "ANNOUNCE_NUM = 2"
definition ANNOUNCE_INTERVAL :: u32 where "ANNOUNCE_INTERVAL = 2"
definition MAX_CONFLICTS :: u8 where "MAX_CONFLICTS = 10"
definition DEFEND_INTERVAL :: u32 where "DEFEND_INTERVAL = 10"

lemmas ipv4ll_constants = PROBE_WAIT_def PROBE_NUM_def PROBE_MIN_def PROBE_MAX_def ANNOUNCE_WAIT_def
  ANNOUNCE_NUM_def ANNOUNCE_INTERVAL_def MAX_CONFLICTS_def DEFEND_INTERVAL_def

definition ARPHRD_ETHER :: u16 where "ARPHRD_ETHER = 1"
definition ETHERTYPE_IP :: u16 where "ETHERTYPE_IP = 0x0800"
definition ARPOP_REQUEST :: u16 where "ARPOP_REQUEST = 1"
definition ARPOP_REPLY :: u16 where "ARPOP_REPLY = 2"

section \<open>Random addresses and delays\<close>

text \<open>
  The pseudo random generator of the C library: \<open>rand_seq seed k\<close> is what the \<open>k\<close>-th call of
  \<open>rand\<close> after \<open>srand (seed)\<close> returns, and its state is the seed with the number of draws.
\<close>

type_synonym rand_seq = "u32 \<Rightarrow> nat \<Rightarrow> u32"
type_synonym rng = "u32 \<times> nat"

definition rand :: "rand_seq \<Rightarrow> rng \<Rightarrow> u32 \<times> rng" where
  "rand rs g = (rs (fst g) (snd g), (fst g, Suc (snd g)))"

partial_function (option) random_host_loop :: "rand_seq \<Rightarrow> rng \<Rightarrow> (u32 \<times> rng) option" where
  "random_host_loop rs g =
     (let (r, g1) = rand rs g;
          tmp = r AND IN_CLASSB_HOST in
      if IN_CLASSB_HOST - 0x0200 < tmp then random_host_loop rs g1
      else Some (tmp, g1))"

definition ipv4ll_random_ip :: "rand_seq \<Rightarrow> u32 \<Rightarrow> u32 \<Rightarrow> (u32 \<times> rng) option" where
  "ipv4ll_random_ip rs tv_usec seed =
     (case random_host_loop rs (if seed \<noteq> 0 then seed else tv_usec, 0) of
        None \<Rightarrow> None
      | Some (tmp, g) \<Rightarrow> Some ((LINKLOCAL_ADDR + 0x0100) + tmp, g))"

definition ipv4ll_random_delay_ms :: "rand_seq \<Rightarrow> u32 \<Rightarrow> u32 \<Rightarrow> (u32 \<times> rng) result" where
  "ipv4ll_random_delay_ms rs tv_usec secs =
     (let (tmp, g) = rand rs (tv_usec, 0) in
      if secs * 1000 = 0 then Inl DivByZero
      else Inr (tmp mod (secs * 1000), g))"

section \<open>ARP packets\<close>

record ether_arp =
  arp_hrd :: u16
  arp_pro :: u16
  arp_hln :: u8
  arp_pln :: u8
  arp_op :: u16
  arp_sha :: "u8 list"
  arp_spa :: "u8 list"
  arp_tha :: "u8 list"
  arp_tpa :: "u8 list"

definition ETHER_ARP_SIZE :: nat where "ETHER_ARP_SIZE = 28"

definition ether_arp_bytes :: "ether_arp \<Rightarrow> u8 list" where
  "ether_arp_bytes p = bytes16 (arp_hrd p) @ bytes16 (arp_pro p) @ [arp_hln p, arp_pln p] @
     bytes16 (arp_op p) @ arp_sha p @ arp_spa p @ arp_tha p @ arp_tpa p"

text \<open>A read into a zeroed structure: what was not received stays zero.\<close>

definition ether_arp_of :: "u8 list \<Rightarrow> ether_arp" where
  "ether_arp_of input =
     (let bs = take ETHER_ARP_SIZE (input @ replicate ETHER_ARP_SIZE 0) in
      \<lparr>arp_hrd = of_bytes16 (field bs 0 2), arp_pro = of_bytes16 (field bs 2 2),
       arp_hln = bs ! 4, arp_pln = bs ! 5, arp_op = of_bytes16 (field bs 6 2),
       arp_sha = field bs 8 6, arp_spa = field bs 14 4, arp_tha = field bs 18 6,
       arp_tpa = field bs 24 4\<rparr>)"

text \<open>What the kernel answers to the system calls of one operation.\<close>

record sys_results =
  sys_socket :: int
  sys_bind :: int
  sys_sendto :: int
  sys_errno :: int

text \<open>The result, the frame that is broadcast, and whether the descriptor is closed again.\<close>

definition ipv4ll_send_arp_packet ::
  "sys_results \<Rightarrow> u8 list \<Rightarrow> u32 \<Rightarrow> u32 \<Rightarrow> int \<times> ether_arp option \<times> bool" where
  "ipv4ll_send_arp_packet sys source_eth source_ip target_ip =
     (if sys_socket sys < 0 then (- sys_errno sys, None, True)
      else if sys_bind sys < 0 then (- sys_errno sys, None, True)
      else
        let p = \<lparr>arp_hrd = htons ARPHRD_ETHER, arp_pro = htons ETHERTYPE_IP, arp_hln = 6, arp_pln = 4,
                 arp_op = htons ARPOP_REQUEST, arp_sha = take 6 source_eth,
                 arp_spa = bytes32 (htonl source_ip), arp_tha = replicate 6 0,
                 arp_tpa = bytes32 (htonl target_ip)\<rparr> in
        if sys_sendto sys < 0 then (- sys_errno sys, Some p, False)
        else (sys_sendto sys, Some p, True))"

definition ipv4ll_arp_socket :: "sys_results \<Rightarrow> int" where
  "ipv4ll_arp_socket sys =
     (if sys_socket sys < 0 then sys_socket sys
      else if sys_bind sys \<noteq> 0 then - sys_errno sys
      else sys_socket sys)"

text \<open>The address test of the receiver (\<open>ipv4ll_recv_arp_packet\<close>): source and target conflict.\<close>

definition arp_conflicts :: "ether_arp \<Rightarrow> u32 \<Rightarrow> bool \<times> bool" where
  "arp_conflicts arp requested_ip =
     (let ip_requested = ntohl requested_ip in
      (arp_spa arp = bytes32 ip_requested, arp_tpa arp = bytes32 ip_requested))"

section \<open>The range of the addresses\<close>

lemma random_host_loop_bound:
  assumes "random_host_loop rs g = Some r"
  shows "fst r \<le> IN_CLASSB_HOST - 0x0200"
proof (rule random_host_loop.raw_induct [where P = "\<lambda>rs g r. fst r \<le> IN_CLASSB_HOST - 0x0200", OF _ assms], goal_cases)
  case (1 f rs g r)
  then show ?case by (auto simp: Let_def case_prod_beta not_less split: if_splits)
qed

lemma random_host_loop_ends:
  assumes "rs seed (k + n) AND IN_CLASSB_HOST \<le> IN_CLASSB_HOST - 0x0200"
  shows "\<exists>r. random_host_loop rs (seed, k) = Some r"
  using assms
proof (induction n arbitrary: k)
  case 0
  then have "\<not> IN_CLASSB_HOST - 0x0200 < rs seed k AND IN_CLASSB_HOST" by (simp add: not_less)
  then show ?case by (simp add: random_host_loop.simps [of rs "(seed, k)"] rand_def Let_def)
next
  case (Suc n)
  then have "\<exists>r. random_host_loop rs (seed, Suc k) = Some r" by simp
  then show ?case by (auto simp add: random_host_loop.simps [of rs "(seed, k)"] rand_def Let_def)
qed

text \<open>
  An address picked for link-local use is always in 169.254.1.0 to 169.254.254.255, the
  range of RFC 3927, and it is found as soon as one of the numbers drawn has its low 16 bits
  in range.
\<close>

lemma ipv4ll_random_ip_range:
  assumes "rs (if seed \<noteq> 0 then seed else usec) n AND IN_CLASSB_HOST \<le> IN_CLASSB_HOST - 0x0200"
  shows "\<exists>ip g. ipv4ll_random_ip rs usec seed = Some (ip, g) \<and> 0xa9fe0100 \<le> ip \<and> ip \<le> 0xa9fefeff"
proof -
  obtain t g where r: "random_host_loop rs (if seed \<noteq> 0 then seed else usec, 0) = Some (t, g)"
    using random_host_loop_ends [of rs "if seed \<noteq> 0 then seed else usec" 0 n] assms by auto
  have t: "uint t \<le> 0xfdff"
    using random_host_loop_bound [OF r] by (simp add: IN_CLASSB_HOST_def word_le_def)
  have "uint (0xa9fe0100 + t) = 0xa9fe0100 + uint t"
    using t by (subst uint_add_lem [THEN iffD1]) (auto simp: )
  then show ?thesis using r t by (auto simp: ipv4ll_random_ip_def LINKLOCAL_ADDR_def word_le_def)
qed

lemma ipv4ll_random_ip_range_witness:
  "\<exists>ip g. ipv4ll_random_ip (\<lambda>s k. s + 0xff00 * of_nat (1 - k)) 5 0 = Some (ip, g) \<and>
     0xa9fe0100 \<le> ip \<and> ip \<le> 0xa9fefeff"
  by (rule ipv4ll_random_ip_range [where n = 1]) (simp add: IN_CLASSB_HOST_def)

section \<open>Conflicts are seen on the wire\<close>

lemma ether_arp_roundtrip:
  assumes "length (arp_sha p) = 6" "length (arp_spa p) = 4" "length (arp_tha p) = 6" "length (arp_tpa p) = 4"
  shows "length (ether_arp_bytes p) = ETHER_ARP_SIZE" and "ether_arp_of (ether_arp_bytes p) = p"
proof -
  show len: "length (ether_arp_bytes p) = ETHER_ARP_SIZE"
    using assms by (simp add: ether_arp_bytes_def ETHER_ARP_SIZE_def bytes16_def)
  then have t: "take ETHER_ARP_SIZE (ether_arp_bytes p @ replicate ETHER_ARP_SIZE 0) = ether_arp_bytes p"
    by simp
  show "ether_arp_of (ether_arp_bytes p) = p"
    using assms unfolding ether_arp_of_def t Let_def
    by (intro ether_arp.equality)
      (simp_all add: ether_arp_bytes_def field_def bytes16_def of_bytes16_bytes16 [unfolded bytes16_def])
qed

lemma bytes32_eq_iff [simp]: "bytes32 a = bytes32 b \<longleftrightarrow> a = b"
  by (metis of_bytes32_bytes32)

text \<open>
  Two hosts see each other's use of an address: when one sends an ARP packet from source
  address \<open>a\<close> for target \<open>b\<close> and the system calls work, the packet that another host decodes
  from the wire is a source conflict exactly when that host uses \<open>a\<close>, and a target conflict
  exactly when it uses \<open>b\<close>; the descriptor is closed again.
\<close>

lemma arp_conflict_seen:
  assumes "0 \<le> sys_socket sys" "0 \<le> sys_bind sys" "0 \<le> sys_sendto sys" and "6 \<le> length mac"
  shows "\<exists>p. ipv4ll_send_arp_packet sys mac a b = (sys_sendto sys, Some p, True) \<and>
    arp_op (ether_arp_of (ether_arp_bytes p)) = htons ARPOP_REQUEST \<and>
    (\<forall>ip. arp_conflicts (ether_arp_of (ether_arp_bytes p)) ip = (a = ip, b = ip))"
  using assms
  by (simp add: ipv4ll_send_arp_packet_def ether_arp_roundtrip arp_conflicts_def)

lemma arp_conflict_seen_witness:
  "\<exists>p. ipv4ll_send_arp_packet \<lparr>sys_socket = 5, sys_bind = 0, sys_sendto = 28, sys_errno = 0\<rparr>
      [2, 0, 0, 0, 0, 1] 0 0xa9fe0101 = (28, Some p, True) \<and>
    arp_op (ether_arp_of (ether_arp_bytes p)) = htons ARPOP_REQUEST \<and>
    (\<forall>ip. arp_conflicts (ether_arp_of (ether_arp_bytes p)) ip = (0 = ip, 0xa9fe0101 = ip))"
  using arp_conflict_seen [of "\<lparr>sys_socket = 5, sys_bind = 0, sys_sendto = 28, sys_errno = 0\<rparr>"
      "[2, 0, 0, 0, 0, 1]" 0 "0xa9fe0101"] by simp

end
