(* ===== verification/Dhcp_Client.thy ===== *)
theory Dhcp_Client
  imports Ipv4ll Dhcp_Server
begin

text \<open>
  The DHCP client (\<open>gdhcp/client.c\<close>): the DHCP and link-local state machines as functions on
  the world of a client, which is the client with the sources of the main loop that drive it.
  A function that may fault or not return gives a \<open>result\<close> or a \<open>diverging\<close> value.
\<close>

section \<open>State\<close>

datatype ClientState =
    INIT_SELECTING | REQUESTING | BOUND | RENEWING | REBINDING | RELEASED
  | IPV4LL_PROBE | IPV4LL_ANNOUNCE | IPV4LL_MONITOR | IPV4LL_DEFEND

datatype ListenMode = L_NONE | L2 | L3 | L_ARP

datatype GDHCPClientEvent =
    G_DHCP_CLIENT_EVENT_LEASE_AVAILABLE | G_DHCP_CLIENT_EVENT_IPV4LL_AVAILABLE
  | G_DHCP_CLIENT_EVENT_NO_LEASE | G_DHCP_CLIENT_EVENT_LEASE_LOST
  | G_DHCP_CLIENT_EVENT_IPV4LL_LOST | G_DHCP_CLIENT_EVENT_ADDRESS_CONFLICT

datatype GDHCPClientError =
    G_DHCP_CLIENT_ERROR_NONE | G_DHCP_CLIENT_ERROR_INTERFACE_UNAVAILABLE
  | G_DHCP_CLIENT_ERROR_INTERFACE_IN_USE | G_DHCP_CLIENT_ERROR_INTERFACE_DOWN
  | G_DHCP_CLIENT_ERROR_NOMEM | G_DHCP_CLIENT_ERROR_INVALID_INDEX
  | G_DHCP_CLIENT_ERROR_INVALID_OPTION

record GDHCPClient =
  cl_ref_count :: int
  cl_type :: GDHCPType
  cl_state :: ClientState
  cl_ifindex :: int
  cl_interface :: string
  cl_mac_address :: "u8 list"
  cl_xid :: u32
  cl_server_ip :: u32
  cl_requested_ip :: u32
  cl_assigned_ip :: "string option"
  cl_lease_seconds :: u32
  cl_listen_mode :: ListenMode
  cl_listener_sockfd :: int
  cl_retry_times :: u8
  cl_ack_retry_times :: u8
  cl_conflicts :: u8
  cl_timeout :: nat
  cl_listener_watch :: nat
  cl_listener_channel :: bool
  cl_request_list :: "u8 list"
  cl_code_value_hash :: "u8 \<rightharpoonup> string list"
  cl_send_value_hash :: "u8 \<rightharpoonup> u8 list"
  cl_lease_available_cb :: bool
  cl_ipv4ll_available_cb :: bool
  cl_no_lease_cb :: bool
  cl_lease_lost_cb :: bool
  cl_ipv4ll_lost_cb :: bool
  cl_address_conflict_cb :: bool
  cl_last_address :: "string option"

text \<open>
  The sources of the main loop: the timers of the client with their callback and their delay
  in milliseconds, the watch on its socket, and the sources of everybody else.
\<close>

datatype timer_fn =
    Send_probe_packet | Ipv4ll_probe_timeout | Ipv4ll_announce_timeout | Ipv4ll_defend_timeout
  | Request_timeout | Discover_timeout | Start_renew_timeout | Start_rebound_timeout
  | Restart_dhcp_timeout

datatype source = Timer timer_fn nat | Watch int | Foreign

datatype cl_out =
    CSendRaw dhcp_packet u32 u16 u32 u16 "u8 list" int
  | CSendKernel dhcp_packet u32 u16 u32 u16
  | CSendArp "u8 list" u32 u32 int
  | CCallback GDHCPClientEvent
  | CBadSourceRemove nat

text \<open>
  The world of a client: the client, the live sources, the identifiers of the sources that
  are being dispatched (GLib keeps them reserved until the dispatch ends), the state of the
  random generator and what was sent or reported so far.
\<close>

record cl_world =
  w_client :: GDHCPClient
  w_sources :: "(nat \<times> source) list"
  w_busy :: "nat list"
  w_rng :: rng
  w_out :: "cl_out list"

text \<open>
  What the code relies on from outside: the random generator and the clock, the choice of
  source identifiers, the results of the socket calls, whether a channel can be created,
  whether \<open>malloc\<close> succeeds, \<open>inet_addr\<close>, the traversal order of the hash of options to send,
  and the functions the user registered.
\<close>

record cl_env =
  ce_rand :: rand_seq
  ce_usec :: u32
  ce_new_id :: "nat list \<Rightarrow> nat"
  ce_sys :: sys_results
  ce_bindtodevice :: int
  ce_channel :: bool
  ce_mem :: bool
  ce_inet_addr :: "string \<Rightarrow> u32"
  ce_hash_order :: "u8 list"
  ce_callback :: "GDHCPClientEvent \<Rightarrow> cl_world \<Rightarrow> cl_world diverging"

definition DISCOVER_TIMEOUT :: nat where "DISCOVER_TIMEOUT = 3"
definition DISCOVER_RETRIES :: u8 where "DISCOVER_RETRIES = 10"
definition REQUEST_TIMEOUT :: nat where "REQUEST_TIMEOUT = 3"
definition REQUEST_RETRIES :: u8 where "REQUEST_RETRIES = 5"
definition G_DHCP_SUBNET :: u8 where "G_DHCP_SUBNET = 0x01"
definition G_DHCP_HOST_NAME :: u8 where "G_DHCP_HOST_NAME = 0x0c"

lemmas client_constants = DISCOVER_TIMEOUT_def DISCOVER_RETRIES_def REQUEST_TIMEOUT_def REQUEST_RETRIES_def

section \<open>The main loop\<close>

definition cl_upd :: "(GDHCPClient \<Rightarrow> GDHCPClient) \<Rightarrow> cl_world \<Rightarrow> cl_world" where
  "cl_upd f w = w\<lparr>w_client := f (w_client w)\<rparr>"

definition emit :: "cl_out \<Rightarrow> cl_world \<Rightarrow> cl_world" where
  "emit e w = w\<lparr>w_out := w_out w @ [e]\<rparr>"

definition g_source_remove :: "nat \<Rightarrow> cl_world \<Rightarrow> cl_world" where
  "g_source_remove tag w =
     (if tag \<in> fst ` set (w_sources w) then w\<lparr>w_sources := filter (\<lambda>s. fst s \<noteq> tag) (w_sources w)\<rparr>
      else emit (CBadSourceRemove tag) w)"

definition new_source_id :: "cl_env \<Rightarrow> cl_world \<Rightarrow> nat" where
  "new_source_id env w = ce_new_id env (w_busy w @ map fst (w_sources w))"

definition g_source_add :: "cl_env \<Rightarrow> source \<Rightarrow> cl_world \<Rightarrow> cl_world" where
  "g_source_add env src w = w\<lparr>w_sources := (new_source_id env w, src) # w_sources w\<rparr>"

text \<open>\<open>dhcp_client->timeout = g_timeout_add_full (...)\<close>, with the delay in milliseconds.\<close>

definition start_timer :: "cl_env \<Rightarrow> timer_fn \<Rightarrow> nat \<Rightarrow> cl_world \<Rightarrow> cl_world" where
  "start_timer env fn ms w =
     cl_upd (\<lambda>c. c\<lparr>cl_timeout := new_source_id env w\<rparr>) (g_source_add env (Timer fn ms) w)"

text \<open>\<open>if (dhcp_client->timeout > 0) g_source_remove (dhcp_client->timeout)\<close>.\<close>

definition remove_timeout :: "cl_world \<Rightarrow> cl_world" where
  "remove_timeout w =
     (if 0 < cl_timeout (w_client w) then g_source_remove (cl_timeout (w_client w)) w else w)"

text \<open>The same, with \<open>dhcp_client->timeout = 0\<close> after it (a no-op when there was no timeout).\<close>

definition clear_timeout :: "cl_world \<Rightarrow> cl_world" where
  "clear_timeout w = cl_upd (\<lambda>c. c\<lparr>cl_timeout := 0\<rparr>) (remove_timeout w)"

text \<open>\<open>if (dhcp_client->listener_watch > 0)\<close> remove it and forget it.\<close>

definition drop_watch :: "cl_world \<Rightarrow> cl_world" where
  "drop_watch w =
     (if 0 < cl_listener_watch (w_client w)
      then cl_upd (\<lambda>c. c\<lparr>cl_listener_watch := 0\<rparr>) (g_source_remove (cl_listener_watch (w_client w)) w)
      else w)"

definition call_cb :: "cl_env \<Rightarrow> (GDHCPClient \<Rightarrow> bool) \<Rightarrow> GDHCPClientEvent \<Rightarrow> cl_world \<Rightarrow> cl_world diverging" where
  "call_cb env registered ev w =
     (if registered (w_client w) then ce_callback env ev (emit (CCallback ev) w) else ret_d w)"

section \<open>Building and sending packets\<close>

definition client_init_packet :: "GDHCPClient \<Rightarrow> u8 \<Rightarrow> dhcp_packet result" where
  "client_init_packet c type =
     bind_r (dhcp_init_header type) (\<lambda>p. Inr (p\<lparr>pkt_chaddr := poke 0 (cl_mac_address c) (pkt_chaddr p)\<rparr>))"

definition add_request_options :: "GDHCPClient \<Rightarrow> dhcp_packet \<Rightarrow> dhcp_packet result" where
  "add_request_options c p =
     bind_r (dhcp_end_option (pkt_options p)) (\<lambda>end.
       let codes = cl_request_list c; len = length codes in
       if len = 0 then Inr p
       else if end + 2 + len < length (pkt_options p) then
         Inr (p\<lparr>pkt_options := poke end ([DHCP_PARAM_REQ, of_nat len] @ codes @ [DHCP_END]) (pkt_options p)\<rparr>)
       else Inl OutOfBounds)"

fun add_send_list :: "(u8 \<rightharpoonup> u8 list) \<Rightarrow> u8 list \<Rightarrow> dhcp_packet \<Rightarrow> dhcp_packet result" where
  "add_send_list hash [] p = Inr p"
| "add_send_list hash (k # ks) p =
     (case hash k of
        None \<Rightarrow> add_send_list hash ks p
      | Some option \<Rightarrow> bind_r (dhcp_add_binary_option p option) (add_send_list hash ks))"

definition add_send_options :: "cl_env \<Rightarrow> GDHCPClient \<Rightarrow> dhcp_packet \<Rightarrow> dhcp_packet result" where
  "add_send_options env c p = add_send_list (cl_send_value_hash c) (ce_hash_order env) p"

definition broadcast :: "GDHCPClient \<Rightarrow> dhcp_packet \<Rightarrow> cl_out" where
  "broadcast c p = CSendRaw p 0 CLIENT_PORT INADDR_BROADCAST SERVER_PORT MAC_BCAST_ADDR (cl_ifindex c)"

definition send_discover :: "cl_env \<Rightarrow> u32 \<Rightarrow> cl_world \<Rightarrow> cl_world result" where
  "send_discover env requested w =
     (let c = w_client w in
      bind_r (client_init_packet c DHCPDISCOVER) (\<lambda>p0.
      let p1 = p0\<lparr>pkt_xid := cl_xid c\<rparr> in
      bind_r (if requested \<noteq> 0 then dhcp_add_simple_option p1 DHCP_REQUESTED_IP requested else Inr p1) (\<lambda>p2.
      bind_r (dhcp_add_simple_option p2 DHCP_MAX_SIZE (ucast (htons 576))) (\<lambda>p3.
      bind_r (add_request_options c p3) (\<lambda>p4.
      bind_r (add_send_options env c p4) (\<lambda>p5.
      Inr (emit (broadcast c p5) w)))))))"

definition send_select :: "cl_env \<Rightarrow> cl_world \<Rightarrow> cl_world result" where
  "send_select env w =
     (let c = w_client w in
      bind_r (client_init_packet c DHCPREQUEST) (\<lambda>p0.
      bind_r (dhcp_add_simple_option (p0\<lparr>pkt_xid := cl_xid c\<rparr>) DHCP_REQUESTED_IP (cl_requested_ip c)) (\<lambda>p2.
      bind_r (dhcp_add_simple_option p2 DHCP_SERVER_ID (cl_server_ip c)) (\<lambda>p3.
      bind_r (add_request_options c p3) (\<lambda>p4.
      bind_r (add_send_options env c p4) (\<lambda>p5.
      Inr (emit (broadcast c p5) w)))))))"

text \<open>The packet of \<open>send_renew\<close> and \<open>send_rebound\<close>, which differ in how it is sent.\<close>

definition renew_packet :: "cl_env \<Rightarrow> GDHCPClient \<Rightarrow> dhcp_packet result" where
  "renew_packet env c =
     bind_r (client_init_packet c DHCPREQUEST) (\<lambda>p0.
     bind_r (add_request_options c (p0\<lparr>pkt_xid := cl_xid c, pkt_ciaddr := cl_requested_ip c\<rparr>)) (\<lambda>p4.
     add_send_options env c p4))"

definition send_renew :: "cl_env \<Rightarrow> cl_world \<Rightarrow> cl_world result" where
  "send_renew env w =
     (let c = w_client w in
      bind_r (renew_packet env c) (\<lambda>p.
        Inr (emit (CSendKernel p (cl_requested_ip c) CLIENT_PORT (cl_server_ip c) SERVER_PORT) w)))"

definition send_rebound :: "cl_env \<Rightarrow> cl_world \<Rightarrow> cl_world result" where
  "send_rebound env w =
     (let c = w_client w in
      bind_r (renew_packet env c) (\<lambda>p. Inr (emit (broadcast c p) w)))"

definition send_release :: "cl_env \<Rightarrow> u32 \<Rightarrow> u32 \<Rightarrow> cl_world \<Rightarrow> cl_world result" where
  "send_release env server ciaddr w =
     bind_r (client_init_packet (w_client w) DHCPRELEASE) (\<lambda>p0.
     let (x, g) = rand (ce_rand env) (w_rng w) in
     bind_r (dhcp_add_simple_option (p0\<lparr>pkt_xid := x, pkt_ciaddr := ciaddr\<rparr>) DHCP_SERVER_ID server) (\<lambda>p1.
     Inr (emit (CSendKernel p1 ciaddr CLIENT_PORT server SERVER_PORT) (w\<lparr>w_rng := g\<rparr>))))"

section \<open>Listening\<close>

definition dhcp_l2_socket :: "sys_results \<Rightarrow> int" where
  "dhcp_l2_socket sys =
     (if sys_socket sys < 0 then sys_socket sys
      else if sys_bind sys \<noteq> 0 then - sys_errno sys
      else sys_socket sys)"

definition dhcp_l3_socket :: "sys_results \<Rightarrow> int \<Rightarrow> int" where
  "dhcp_l3_socket sys bindtodevice =
     (if bindtodevice < 0 then - 1
      else if sys_bind sys \<noteq> 0 then - 1
      else sys_socket sys)"

definition stop_listening :: "cl_world \<Rightarrow> cl_world" where
  "stop_listening w =
     cl_upd (\<lambda>c. c\<lparr>cl_listener_channel := False, cl_listen_mode := L_NONE,
       cl_listener_sockfd := - 1, cl_listener_watch := 0\<rparr>)
       (g_source_remove (cl_listener_watch (w_client w)) w)"

definition switch_listening_mode :: "cl_env \<Rightarrow> ListenMode \<Rightarrow> cl_world \<Rightarrow> int \<times> cl_world" where
  "switch_listening_mode env listen_mode w =
     (if cl_listen_mode (w_client w) = listen_mode then (0, w)
      else
        let w1 = (if cl_listen_mode (w_client w) \<noteq> L_NONE then stop_listening w else w) in
        if listen_mode = L_NONE then (0, w1)
        else
          let fd = (if listen_mode = L2 then dhcp_l2_socket (ce_sys env)
                    else if listen_mode = L3 then dhcp_l3_socket (ce_sys env) (ce_bindtodevice env)
                    else ipv4ll_arp_socket (ce_sys env)) in
          if fd < 0 then (- EIO, w1)
          else if \<not> ce_channel env then (- EIO, w1)
          else (0, cl_upd (\<lambda>c. c\<lparr>cl_listen_mode := listen_mode, cl_listener_sockfd := fd,
                     cl_listener_channel := True, cl_listener_watch := new_source_id env w1\<rparr>)
                     (g_source_add env (Watch fd) w1)))"


section \<open>Link-local addressing\<close>

text \<open>\<open>g_timeout_add_full\<close> of \<open>send_probe_packet\<close> after a random delay.\<close>

definition delayed_probe :: "cl_env \<Rightarrow> cl_world \<Rightarrow> cl_world diverging" where
  "delayed_probe env w =
     bind_d (Some (ipv4ll_random_delay_ms (ce_rand env) (ce_usec env) PROBE_WAIT)) (\<lambda>(timeout, g).
     ret_d (start_timer env Send_probe_packet (unat timeout)
       (cl_upd (\<lambda>c. c\<lparr>cl_retry_times := cl_retry_times c + 1\<rparr>) (w\<lparr>w_rng := g\<rparr>))))"

definition ipv4ll_start :: "cl_env \<Rightarrow> cl_world \<Rightarrow> cl_world diverging" where
  "ipv4ll_start env w =
     (let w1 = clear_timeout w;
          w2 = cl_upd (\<lambda>c. c\<lparr>cl_type := G_DHCP_IPV4LL, cl_retry_times := 0, cl_requested_ip := 0\<rparr>)
                 (snd (switch_listening_mode env L_NONE w1));
          m = ucast (cl_mac_address (w_client w2) ! 4);
          seed = push_bit 8 m OR m in
      case ipv4ll_random_ip (ce_rand env) (ce_usec env) seed of
        None \<Rightarrow> None
      | Some (ip, g) \<Rightarrow>
          delayed_probe env (cl_upd (\<lambda>c. c\<lparr>cl_requested_ip := ip\<rparr>) (w2\<lparr>w_rng := g\<rparr>)))"

definition ipv4ll_stop :: "cl_env \<Rightarrow> cl_world \<Rightarrow> cl_world" where
  "ipv4ll_stop env w =
     cl_upd (\<lambda>c. c\<lparr>cl_state := IPV4LL_PROBE, cl_retry_times := 0, cl_requested_ip := 0,
       cl_assigned_ip := None\<rparr>)
       (drop_watch (remove_timeout (snd (switch_listening_mode env L_NONE w))))"

definition send_probe_packet :: "cl_env \<Rightarrow> cl_world \<Rightarrow> cl_world diverging" where
  "send_probe_packet env w =
     (case (if cl_requested_ip (w_client w) = 0
            then (case ipv4ll_random_ip (ce_rand env) (ce_usec env) 0 of
                    None \<Rightarrow> None
                  | Some (ip, g) \<Rightarrow> Some (cl_upd (\<lambda>c. c\<lparr>cl_requested_ip := ip\<rparr>) (w\<lparr>w_rng := g\<rparr>)))
            else Some w) of
        None \<Rightarrow> None
      | Some w1 \<Rightarrow>
          let w2 = (if cl_retry_times (w_client w1) = 1
                    then snd (switch_listening_mode env L_ARP (cl_upd (\<lambda>c. c\<lparr>cl_state := IPV4LL_PROBE\<rparr>) w1))
                    else w1);
              c = w_client w2;
              w3 = emit (CSendArp (cl_mac_address c) 0 (cl_requested_ip c) (cl_ifindex c)) w2 in
          if cl_retry_times c < PROBE_NUM then
            bind_d (Some (ipv4ll_random_delay_ms (ce_rand env) (ce_usec env) (PROBE_MAX - PROBE_MIN)))
              (\<lambda>(timeout, g). ret_d (start_timer env Ipv4ll_probe_timeout
                 (unat (timeout + PROBE_MIN * 1000)) (w3\<lparr>w_rng := g\<rparr>)))
          else ret_d (start_timer env Ipv4ll_probe_timeout (unat (ANNOUNCE_WAIT * 1000)) w3))"

definition send_announce_packet :: "cl_env \<Rightarrow> cl_world \<Rightarrow> cl_world" where
  "send_announce_packet env w =
     (let c = w_client w;
          w1 = clear_timeout (emit (CSendArp (cl_mac_address c) (cl_requested_ip c) (cl_requested_ip c)
                 (cl_ifindex c)) w) in
      if cl_state c = IPV4LL_DEFEND
      then start_timer env Ipv4ll_defend_timeout (unat DEFEND_INTERVAL * 1000) w1
      else start_timer env Ipv4ll_announce_timeout (unat ANNOUNCE_INTERVAL * 1000) w1)"

definition ipv4ll_recv_arp_packet :: "cl_env \<Rightarrow> int + u8 list \<Rightarrow> cl_world \<Rightarrow> (int \<times> cl_world) diverging" where
  "ipv4ll_recv_arp_packet env input w =
     (case input of
        Inl e \<Rightarrow> ret_d (e, w)
      | Inr bs \<Rightarrow>
          let arp = ether_arp_of bs;
              (source_conflict, target_conflict) = arp_conflicts arp (cl_requested_ip (w_client w)) in
          if arp_op arp \<noteq> htons ARPOP_REPLY \<and> arp_op arp \<noteq> htons ARPOP_REQUEST then ret_d (- EINVAL, w)
          else if \<not> source_conflict \<and> \<not> target_conflict then ret_d (0, w)
          else
            let w1 = cl_upd (\<lambda>c. c\<lparr>cl_conflicts := cl_conflicts c + 1\<rparr>) w;
                state = cl_state (w_client w1) in
            if state = IPV4LL_MONITOR then
              (if \<not> source_conflict then ret_d (0, w1)
               else ret_d (0, send_announce_packet env (cl_upd (\<lambda>c. c\<lparr>cl_state := IPV4LL_DEFEND\<rparr>) w1)))
            else if state = IPV4LL_DEFEND \<and> \<not> source_conflict then ret_d (0, w1)
            else
              bind_d (if state = IPV4LL_DEFEND
                      then call_cb env cl_ipv4ll_lost_cb G_DHCP_CLIENT_EVENT_IPV4LL_LOST w1
                      else ret_d w1) (\<lambda>w2.
              let w3 = ipv4ll_stop env w2 in
              if cl_conflicts (w_client w3) < MAX_CONFLICTS
              then bind_d (delayed_probe env w3) (\<lambda>w4. ret_d (0, w4))
              else bind_d (call_cb env cl_no_lease_cb G_DHCP_CLIENT_EVENT_NO_LEASE w3) (\<lambda>w4. ret_d (0, w4))))"

definition ipv4ll_defend_timeout :: "cl_world \<Rightarrow> cl_world" where
  "ipv4ll_defend_timeout w = cl_upd (\<lambda>c. c\<lparr>cl_conflicts := 0, cl_state := IPV4LL_MONITOR\<rparr>) w"

text \<open>\<open>inet_ntoa\<close> and \<open>sprintf\<close> of unsigned numbers.\<close>

definition sprint_nip :: "u8 list \<Rightarrow> string" where
  "sprint_nip ip = show_nat (unat (ip ! 0)) @ ''.'' @ show_nat (unat (ip ! 1)) @ ''.'' @
     show_nat (unat (ip ! 2)) @ ''.'' @ show_nat (unat (ip ! 3))"

definition get_ip :: "u32 \<Rightarrow> string" where
  "get_ip ip = sprint_nip (bytes32 ip)"

definition ipv4ll_announce_timeout :: "cl_env \<Rightarrow> cl_world \<Rightarrow> cl_world diverging" where
  "ipv4ll_announce_timeout env w =
     (if cl_retry_times (w_client w) \<noteq> ANNOUNCE_NUM
      then ret_d (send_announce_packet env (cl_upd (\<lambda>c. c\<lparr>cl_retry_times := cl_retry_times c + 1\<rparr>) w))
      else
        let ip = htonl (cl_requested_ip (w_client w));
            w1 = cl_upd (\<lambda>c. c\<lparr>cl_state := IPV4LL_MONITOR, cl_assigned_ip := Some (get_ip ip)\<rparr>) w in
        bind_d (call_cb env cl_ipv4ll_available_cb G_DHCP_CLIENT_EVENT_IPV4LL_AVAILABLE w1) (\<lambda>w2.
          ret_d (cl_upd (\<lambda>c. c\<lparr>cl_conflicts := 0\<rparr>) w2)))"

definition ipv4ll_probe_timeout :: "cl_env \<Rightarrow> cl_world \<Rightarrow> cl_world diverging" where
  "ipv4ll_probe_timeout env w =
     (if cl_retry_times (w_client w) = PROBE_NUM
      then ret_d (send_announce_packet env
             (cl_upd (\<lambda>c. c\<lparr>cl_state := IPV4LL_ANNOUNCE, cl_retry_times := 0 + 1\<rparr>) w))
      else send_probe_packet env (cl_upd (\<lambda>c. c\<lparr>cl_retry_times := cl_retry_times c + 1\<rparr>) w))"

section \<open>Starting and requesting\<close>

text \<open>
  The string argument of \<open>g_dhcp_client_start\<close>: a null pointer, a string of the caller, or the
  client's own \<open>last_address\<close> (the pointer \<open>restart_dhcp\<close> passes), which the function frees
  before it copies its argument.
\<close>

datatype str_arg = NullStr | CallerStr string | OwnLastAddress

definition start_address :: "cl_env \<Rightarrow> str_arg \<Rightarrow> cl_world \<Rightarrow> (u32 \<times> cl_world) result" where
  "start_address env arg w =
     (case arg of
        NullStr \<Rightarrow> Inr (0, w)
      | CallerStr s \<Rightarrow>
          if ce_inet_addr env s = 0xFFFFFFFF then Inr (0, w)
          else Inr (ce_inet_addr env s, cl_upd (\<lambda>c. c\<lparr>cl_last_address := Some s\<rparr>) w)
      | OwnLastAddress \<Rightarrow>
          (case cl_last_address (w_client w) of
             None \<Rightarrow> Inr (0, w)
           | Some s \<Rightarrow> if ce_inet_addr env s = 0xFFFFFFFF then Inr (0, w) else Inl UseAfterFree))"

definition g_dhcp_client_start :: "cl_env \<Rightarrow> str_arg \<Rightarrow> cl_world \<Rightarrow> (int \<times> cl_world) diverging" where
  "g_dhcp_client_start env last_address w =
     (if cl_retry_times (w_client w) = DISCOVER_RETRIES
      then bind_d (ipv4ll_start env w) (\<lambda>w1. ret_d (0, w1))
      else
        let (re, w2) =
          (if cl_retry_times (w_client w) = 0 then
             (let (re, w1) = switch_listening_mode env L2
                    (cl_upd (\<lambda>c. c\<lparr>cl_assigned_ip := None, cl_state := INIT_SELECTING\<rparr>) w) in
              if re \<noteq> 0 then (re, w1)
              else let (x, g) = rand (ce_rand env) (w_rng w1) in
                   (0, cl_upd (\<lambda>c. c\<lparr>cl_xid := x\<rparr>) (w1\<lparr>w_rng := g\<rparr>)))
           else (0, w)) in
        if re \<noteq> 0 then ret_d (re, w2)
        else
          bind_d (Some (start_address env last_address w2)) (\<lambda>(addr, w3).
          bind_d (Some (send_discover env addr w3)) (\<lambda>w4.
          ret_d (0, start_timer env Discover_timeout (DISCOVER_TIMEOUT * 1000) w4))))"

definition discover_timeout :: "cl_env \<Rightarrow> cl_world \<Rightarrow> cl_world diverging" where
  "discover_timeout env w =
     bind_d (g_dhcp_client_start env NullStr
       (cl_upd (\<lambda>c. c\<lparr>cl_retry_times := cl_retry_times c + 1\<rparr>) w)) (\<lambda>(re, w1). ret_d w1)"

definition start_request :: "cl_env \<Rightarrow> cl_world \<Rightarrow> cl_world diverging" where
  "start_request env w =
     (if cl_retry_times (w_client w) = REQUEST_RETRIES
      then ipv4ll_start env (cl_upd (\<lambda>c. c\<lparr>cl_state := INIT_SELECTING\<rparr>) w)
      else
        let w1 = (if cl_retry_times (w_client w) = 0
                  then snd (switch_listening_mode env L2 (cl_upd (\<lambda>c. c\<lparr>cl_state := REQUESTING\<rparr>) w))
                  else w) in
        bind_d (Some (send_select env w1)) (\<lambda>w2.
        ret_d (start_timer env Request_timeout (REQUEST_TIMEOUT * 1000) w2)))"

definition request_timeout :: "cl_env \<Rightarrow> cl_world \<Rightarrow> cl_world diverging" where
  "request_timeout env w =
     start_request env (cl_upd (\<lambda>c. c\<lparr>cl_retry_times := cl_retry_times c + 1\<rparr>) w)"

definition client_get_lease :: "dhcp_packet \<Rightarrow> u32 diverging" where
  "client_get_lease packet =
     bind_d (dhcp_get_option packet DHCP_LEASE_TIME) (\<lambda>option_u8.
     case option_u8 of
       None \<Rightarrow> ret_d 3600
     | Some ptr \<Rightarrow>
         bind_d (Some (dhcp_get_unaligned packet ptr)) (\<lambda>v.
         let lease_seconds = ntohl v AND 0x0fffffff in
         ret_d (if lease_seconds < 10 then 10 else lease_seconds)))"

definition restart_dhcp :: "cl_env \<Rightarrow> u8 \<Rightarrow> cl_world \<Rightarrow> cl_world diverging" where
  "restart_dhcp env retry_times w =
     (let w1 = clear_timeout w;
          w2 = snd (switch_listening_mode env L2
                 (cl_upd (\<lambda>c. c\<lparr>cl_retry_times := retry_times, cl_requested_ip := 0\<rparr>) w1)) in
      bind_d (g_dhcp_client_start env OwnLastAddress w2) (\<lambda>(re, w3). ret_d w3))"

definition restart_dhcp_timeout :: "cl_env \<Rightarrow> cl_world \<Rightarrow> cl_world diverging" where
  "restart_dhcp_timeout env w =
     (let w1 = cl_upd (\<lambda>c. c\<lparr>cl_ack_retry_times := cl_ack_retry_times c + 1\<rparr>) w in
      restart_dhcp env (cl_ack_retry_times (w_client w1)) w1)"

section \<open>Keeping a lease\<close>

text \<open>Half the remaining lease, in milliseconds.\<close>

definition half_lease_ms :: "GDHCPClient \<Rightarrow> nat" where
  "half_lease_ms c = unat (drop_bit 1 (cl_lease_seconds c)) * 1000"

definition halve_lease :: "cl_world \<Rightarrow> cl_world" where
  "halve_lease w = cl_upd (\<lambda>c. c\<lparr>cl_lease_seconds := drop_bit 1 (cl_lease_seconds c)\<rparr>) w"

definition start_rebound_timeout :: "cl_env \<Rightarrow> cl_world \<Rightarrow> cl_world diverging" where
  "start_rebound_timeout env w =
     (let w1 = halve_lease (snd (switch_listening_mode env L2 w)) in
      if cl_lease_seconds (w_client w1) \<le> 6 then
        bind_d (call_cb env cl_lease_lost_cb G_DHCP_CLIENT_EVENT_LEASE_LOST w1) (restart_dhcp env 0)
      else
        bind_d (Some (send_rebound env w1)) (\<lambda>w2.
        ret_d (start_timer env Start_rebound_timeout (half_lease_ms (w_client w2)) w2)))"

definition start_rebound :: "cl_env \<Rightarrow> cl_world \<Rightarrow> cl_world" where
  "start_rebound env w =
     start_timer env Start_rebound_timeout (half_lease_ms (w_client w))
       (cl_upd (\<lambda>c. c\<lparr>cl_state := REBINDING\<rparr>) w)"

definition start_renew_timeout :: "cl_env \<Rightarrow> cl_world \<Rightarrow> cl_world diverging" where
  "start_renew_timeout env w =
     (let w1 = snd (switch_listening_mode env L3 (halve_lease (cl_upd (\<lambda>c. c\<lparr>cl_state := RENEWING\<rparr>) w))) in
      if cl_lease_seconds (w_client w1) \<le> 60 then ret_d (start_rebound env w1)
      else
        bind_d (Some (send_renew env w1)) (\<lambda>w2.
        let w3 = remove_timeout w2 in
        ret_d (start_timer env Start_renew_timeout (half_lease_ms (w_client w3)) w3)))"

definition start_bound :: "cl_env \<Rightarrow> cl_world \<Rightarrow> cl_world" where
  "start_bound env w =
     (let w1 = remove_timeout (cl_upd (\<lambda>c. c\<lparr>cl_state := BOUND\<rparr>) w) in
      start_timer env Start_renew_timeout (half_lease_ms (w_client w1)) w1)"


section \<open>Option values as strings\<close>

fun len_of_option_as_string :: "option_base \<Rightarrow> nat" where
  "len_of_option_as_string OPTION_UNKNOWN = 0"
| "len_of_option_as_string OPTION_IP = 17"
| "len_of_option_as_string OPTION_STRING = 1"
| "len_of_option_as_string OPTION_U8 = 5"
| "len_of_option_as_string OPTION_U16 = 7"
| "len_of_option_as_string OPTION_U32 = 12"

text \<open>
  The allocated buffer: its size, what was written, and whether a terminating zero was
  written. A write has to fit with its terminating zero.
\<close>

record out_buf =
  ob_size :: nat
  ob_text :: string
  ob_terminated :: bool

definition buf_put :: "string \<Rightarrow> out_buf \<Rightarrow> out_buf result" where
  "buf_put s b =
     (if length (ob_text b) + length s < ob_size b
      then Inr (b\<lparr>ob_text := ob_text b @ s, ob_terminated := True\<rparr>)
      else Inl OutOfBounds)"

text \<open>The bytes of the option, from the data pointer on, are the first argument.\<close>

fun read_bytes :: "nat \<Rightarrow> u8 list \<Rightarrow> u8 list result" where
  "read_bytes n bs = (if n \<le> length bs then Inr (take n bs) else Inl OutOfBounds)"

definition put_value :: "option_base \<Rightarrow> u8 list \<Rightarrow> out_buf \<Rightarrow> out_buf result" where
  "put_value type option dest =
     (case type of
        OPTION_IP \<Rightarrow> bind_r (read_bytes 4 option) (\<lambda>v. buf_put (sprint_nip v) dest)
      | OPTION_U16 \<Rightarrow> bind_r (read_bytes 2 option) (\<lambda>v. buf_put (show_nat (unat (ntohs (of_bytes16 v)))) dest)
      | OPTION_U32 \<Rightarrow> bind_r (read_bytes 4 option) (\<lambda>v. buf_put (show_nat (unat (ntohl (of_bytes32 v)))) dest)
      | _ \<Rightarrow> Inr dest)"

function option_value_loop :: "option_base \<Rightarrow> u8 list \<Rightarrow> nat \<Rightarrow> out_buf \<Rightarrow> out_buf result" where
  "option_value_loop type option len dest =
     (let optlen = dhcp_option_lengths type in
      if len < optlen \<or> optlen = 0 then Inr dest
      else if type = OPTION_STRING then
        bind_r (read_bytes len option) (\<lambda>v. buf_put (map (\<lambda>b. char_of (unat b)) v) dest)
      else
        bind_r (put_value type option dest) (\<lambda>dest1.
        if len - optlen \<le> 0 then Inr dest1
        else bind_r (buf_put '' '' dest1) (option_value_loop type (drop optlen option) (len - optlen))))"
  by pat_completeness auto
termination by (relation "measure (\<lambda>(t, option, len, dest). len)") auto

declare option_value_loop.simps [simp del]

text \<open>
  \<open>malloc_option_value_string\<close>: no string for a type without a length or when the allocation
  fails. The length of the option is the byte before its data.
\<close>

definition malloc_option_value_string ::
  "cl_env \<Rightarrow> dhcp_packet \<Rightarrow> optionptr \<Rightarrow> GDHCPOptionType \<Rightarrow> out_buf option result" where
  "malloc_option_value_string env packet ptr type =
     bind_r (dhcp_get_u8 packet (fst ptr, snd ptr - 1)) (\<lambda>l.
     let len = unat l; optlen = dhcp_option_lengths (fst type) in
     if optlen = 0 then Inr None
     else if \<not> ce_mem env then Inr None
     else
       bind_r (option_value_loop (fst type) (drop (snd ptr) (area_bytes packet (fst ptr))) len
         \<lparr>ob_size = len_of_option_as_string (fst type) * (len div optlen) + 1, ob_text = [],
          ob_terminated = False\<rparr>)
         (\<lambda>b. Inr (Some b)))"

fun split_spaces :: "string \<Rightarrow> string \<Rightarrow> string list" where
  "split_spaces acc [] = [rev acc]"
| "split_spaces acc (c # cs) =
     (if c = CHR '' '' then rev acc # split_spaces [] cs else split_spaces (c # acc) cs)"

text \<open>A C string ends at its first zero; reading one that has none is a fault.\<close>

definition c_string :: "out_buf \<Rightarrow> string result" where
  "c_string b = (if ob_terminated b then Inr (takeWhile (\<lambda>c. c \<noteq> CHR 0x00) (ob_text b)) else Inl Uninitialised)"

definition get_option_value_list :: "out_buf option \<Rightarrow> GDHCPOptionType \<Rightarrow> string list option result" where
  "get_option_value_list value type =
     (case value of
        None \<Rightarrow> Inr None
      | Some b \<Rightarrow>
          bind_r (c_string b) (\<lambda>s.
          if type = (OPTION_STRING, False) then Inr (Some [s])
          else Inr (Some (split_spaces [] s))))"

definition request_value :: "cl_env \<Rightarrow> dhcp_packet \<Rightarrow> u8 \<Rightarrow> string list option diverging" where
  "request_value env packet code =
     bind_d (dhcp_get_option packet code) (\<lambda>option.
     case option of
       None \<Rightarrow> ret_d None
     | Some ptr \<Rightarrow>
         let type = dhcp_get_code_type code in
         bind_d (Some (malloc_option_value_string env packet ptr type)) (\<lambda>option_value.
         Some (get_option_value_list option_value type)))"

fun get_request_loop ::
  "cl_env \<Rightarrow> dhcp_packet \<Rightarrow> u8 list \<Rightarrow> (u8 \<rightharpoonup> string list) \<Rightarrow> (u8 \<rightharpoonup> string list) diverging" where
  "get_request_loop env packet [] hash = ret_d hash"
| "get_request_loop env packet (code # list) hash =
     bind_d (request_value env packet code) (\<lambda>value_list.
     get_request_loop env packet list (hash(code := value_list)))"

definition get_request :: "cl_env \<Rightarrow> dhcp_packet \<Rightarrow> cl_world \<Rightarrow> cl_world diverging" where
  "get_request env packet w =
     bind_d (get_request_loop env packet (cl_request_list (w_client w)) (cl_code_value_hash (w_client w)))
       (\<lambda>hash. ret_d (cl_upd (\<lambda>c. c\<lparr>cl_code_value_hash := hash\<rparr>) w))"

section \<open>Received packets\<close>

definition check_package_owner :: "GDHCPClient \<Rightarrow> dhcp_packet \<Rightarrow> bool" where
  "check_package_owner c packet \<longleftrightarrow> pkt_xid packet = cl_xid c \<and> pkt_hlen packet = 6 \<and>
     take 6 (pkt_chaddr packet) = cl_mac_address c"

definition receive_offer :: "cl_env \<Rightarrow> dhcp_packet \<Rightarrow> cl_world \<Rightarrow> cl_world diverging" where
  "receive_offer env packet w =
     (let w1 = cl_upd (\<lambda>c. c\<lparr>cl_timeout := 0, cl_retry_times := 0\<rparr>)
                 (g_source_remove (cl_timeout (w_client w)) w) in
      bind_d (dhcp_get_option packet DHCP_SERVER_ID) (\<lambda>option_u8.
      bind_d (Some (case option_u8 of None \<Rightarrow> Inl NullDeref | Some ptr \<Rightarrow> dhcp_get_unaligned packet ptr)) (\<lambda>server.
      start_request env (cl_upd (\<lambda>c. c\<lparr>cl_server_ip := server, cl_requested_ip := pkt_yiaddr packet,
        cl_state := REQUESTING\<rparr>) w1))))"

definition receive_ack :: "cl_env \<Rightarrow> dhcp_packet \<Rightarrow> cl_world \<Rightarrow> cl_world diverging" where
  "receive_ack env packet w =
     (let w1 = clear_timeout (cl_upd (\<lambda>c. c\<lparr>cl_retry_times := 0\<rparr>) w) in
      bind_d (client_get_lease packet) (\<lambda>lease.
      bind_d (get_request env packet (cl_upd (\<lambda>c. c\<lparr>cl_lease_seconds := lease\<rparr>) w1)) (\<lambda>w2.
      let w3 = cl_upd (\<lambda>c. c\<lparr>cl_assigned_ip := Some (get_ip (pkt_yiaddr packet))\<rparr>)
                 (snd (switch_listening_mode env L_NONE w2)) in
      bind_d (call_cb env cl_lease_available_cb G_DHCP_CLIENT_EVENT_LEASE_AVAILABLE w3) (\<lambda>w4.
      ret_d (start_bound env w4)))))"

definition receive_nak :: "cl_env \<Rightarrow> cl_world \<Rightarrow> cl_world" where
  "receive_nak env w =
     start_timer env Restart_dhcp_timeout (3 * 1000) (remove_timeout (cl_upd (\<lambda>c. c\<lparr>cl_retry_times := 0\<rparr>) w))"

definition handle_reply :: "cl_env \<Rightarrow> dhcp_packet \<Rightarrow> u8 \<Rightarrow> cl_world \<Rightarrow> cl_world diverging" where
  "handle_reply env packet message_type w =
     (let state = cl_state (w_client w) in
      if state = INIT_SELECTING then
        (if message_type \<noteq> DHCPOFFER then ret_d w else receive_offer env packet w)
      else if state = REQUESTING \<or> state = RENEWING \<or> state = REBINDING then
        (if message_type = DHCPACK then receive_ack env packet w
         else if message_type = DHCPNAK then ret_d (receive_nak env w)
         else ret_d w)
      else ret_d w)"

text \<open>
  \<open>listener_event\<close>: whether the watch stays, and the world. The arguments are whether the
  condition reports an error, the uninitialised packet on the stack and what \<open>read\<close> delivers.
\<close>

definition recv_packet :: "GDHCPClient \<Rightarrow> u8 list \<Rightarrow> int + u8 list \<Rightarrow> dhcp_packet option diverging" where
  "recv_packet c stack input =
     (if cl_listen_mode c = L2 then
        Some (dhcp_recv_l2_packet stack (case input of Inl e \<Rightarrow> None | Inr bs \<Rightarrow> Some bs))
      else bind_d (dhcp_recv_l3_packet input) (\<lambda>re. ret_d (case re of Inl e \<Rightarrow> None | Inr p \<Rightarrow> Some p)))"

definition client_listener_event ::
  "cl_env \<Rightarrow> bool \<Rightarrow> u8 list \<Rightarrow> int + u8 list \<Rightarrow> cl_world \<Rightarrow> (bool \<times> cl_world) diverging" where
  "client_listener_event env err stack input w =
     (let c = w_client w in
      if err then ret_d (False, cl_upd (\<lambda>c. c\<lparr>cl_listener_watch := 0\<rparr>) w)
      else if cl_listen_mode c = L_NONE then ret_d (False, w)
      else if cl_listen_mode c = L_ARP then
        bind_d (ipv4ll_recv_arp_packet env input w) (\<lambda>(re, w1). ret_d (True, w1))
      else
        bind_d (recv_packet c stack input) (\<lambda>re.
        case re of
          None \<Rightarrow> ret_d (True, w)
        | Some packet \<Rightarrow>
            if \<not> check_package_owner c packet then ret_d (True, w)
            else
              bind_d (dhcp_get_option packet DHCP_MESSAGE_TYPE) (\<lambda>message_type.
              case message_type of
                None \<Rightarrow> ret_d (True, w)
              | Some ptr \<Rightarrow>
                  bind_d (Some (dhcp_get_u8 packet ptr)) (\<lambda>t.
                  bind_d (handle_reply env packet t w) (\<lambda>w1. ret_d (True, w1))))))"

section \<open>Dispatching a source\<close>

text \<open>The callbacks of the timers all return false, so their source is removed afterwards.\<close>

fun run_timer :: "cl_env \<Rightarrow> timer_fn \<Rightarrow> cl_world \<Rightarrow> cl_world diverging" where
  "run_timer env Send_probe_packet w = send_probe_packet env w"
| "run_timer env Ipv4ll_probe_timeout w = ipv4ll_probe_timeout env w"
| "run_timer env Ipv4ll_announce_timeout w = ipv4ll_announce_timeout env w"
| "run_timer env Ipv4ll_defend_timeout w = ret_d (ipv4ll_defend_timeout w)"
| "run_timer env Request_timeout w = request_timeout env w"
| "run_timer env Discover_timeout w = discover_timeout env w"
| "run_timer env Start_renew_timeout w = start_renew_timeout env w"
| "run_timer env Start_rebound_timeout w = start_rebound_timeout env w"
| "run_timer env Restart_dhcp_timeout w = restart_dhcp_timeout env w"

definition destroy_source :: "nat \<Rightarrow> cl_world \<Rightarrow> cl_world" where
  "destroy_source tag w = w\<lparr>w_sources := filter (\<lambda>s. fst s \<noteq> tag) (w_sources w)\<rparr>"

definition fire_timer :: "cl_env \<Rightarrow> nat \<Rightarrow> cl_world \<Rightarrow> cl_world diverging" where
  "fire_timer env tag w =
     (case map_of (w_sources w) tag of
        Some (Timer fn ms) \<Rightarrow>
          bind_d (run_timer env fn (w\<lparr>w_busy := [tag]\<rparr>)) (\<lambda>w1. ret_d ((destroy_source tag w1)\<lparr>w_busy := []\<rparr>))
      | _ \<Rightarrow> ret_d w)"

definition fire_watch :: "cl_env \<Rightarrow> nat \<Rightarrow> bool \<Rightarrow> u8 list \<Rightarrow> int + u8 list \<Rightarrow> cl_world \<Rightarrow> cl_world diverging" where
  "fire_watch env tag err stack input w =
     (case map_of (w_sources w) tag of
        Some (Watch fd) \<Rightarrow>
          bind_d (client_listener_event env err stack input (w\<lparr>w_busy := [tag]\<rparr>)) (\<lambda>(keep, w1).
            ret_d ((if keep then w1 else destroy_source tag w1)\<lparr>w_busy := []\<rparr>))
      | _ \<Rightarrow> ret_d w)"

section \<open>The interface of the client\<close>

definition g_dhcp_client_new ::
  "GDHCPType \<Rightarrow> int \<Rightarrow> bool \<Rightarrow> string option \<Rightarrow> bool \<Rightarrow> u8 list option \<Rightarrow> GDHCPClientError + GDHCPClient" where
  "g_dhcp_client_new type ifindex mem name up mac =
     (if ifindex < 0 then Inl G_DHCP_CLIENT_ERROR_INVALID_INDEX
      else if \<not> mem then Inl G_DHCP_CLIENT_ERROR_NOMEM
      else case name of
        None \<Rightarrow> Inl G_DHCP_CLIENT_ERROR_INTERFACE_UNAVAILABLE
      | Some interface \<Rightarrow>
          if \<not> up then Inl G_DHCP_CLIENT_ERROR_INTERFACE_DOWN
          else Inr
            \<lparr>cl_ref_count = 1, cl_type = type, cl_state = INIT_SELECTING, cl_ifindex = ifindex,
             cl_interface = interface,
             cl_mac_address = (case mac of None \<Rightarrow> replicate 6 0 | Some m \<Rightarrow> take 6 m),
             cl_xid = 0, cl_server_ip = 0, cl_requested_ip = 0, cl_assigned_ip = None,
             cl_lease_seconds = 0, cl_listen_mode = L_NONE, cl_listener_sockfd = - 1,
             cl_retry_times = 0, cl_ack_retry_times = 0, cl_conflicts = 0, cl_timeout = 0,
             cl_listener_watch = 0, cl_listener_channel = False, cl_request_list = [],
             cl_code_value_hash = Map.empty, cl_send_value_hash = Map.empty,
             cl_lease_available_cb = False, cl_ipv4ll_available_cb = False, cl_no_lease_cb = False,
             cl_lease_lost_cb = False, cl_ipv4ll_lost_cb = False, cl_address_conflict_cb = False,
             cl_last_address = None\<rparr>)"

definition g_dhcp_client_stop :: "cl_env \<Rightarrow> cl_world \<Rightarrow> cl_world result" where
  "g_dhcp_client_stop env w =
     (let w1 = snd (switch_listening_mode env L_NONE w); c = w_client w1 in
      bind_r (if cl_state c = BOUND \<or> cl_state c = RENEWING \<or> cl_state c = REBINDING
              then send_release env (cl_server_ip c) (cl_requested_ip c) w1 else Inr w1) (\<lambda>w2.
      Inr (cl_upd (\<lambda>c. c\<lparr>cl_listener_channel := False, cl_retry_times := 0, cl_ack_retry_times := 0,
        cl_requested_ip := 0, cl_state := RELEASED, cl_lease_seconds := 0\<rparr>)
        (drop_watch (clear_timeout w2)))))"

definition g_dhcp_client_get_option :: "GDHCPClient \<Rightarrow> u8 \<Rightarrow> string list option" where
  "g_dhcp_client_get_option c option_code = cl_code_value_hash c option_code"

fun g_dhcp_client_register_event :: "GDHCPClientEvent \<Rightarrow> bool \<Rightarrow> GDHCPClient \<Rightarrow> GDHCPClient" where
  "g_dhcp_client_register_event G_DHCP_CLIENT_EVENT_LEASE_AVAILABLE func c = c\<lparr>cl_lease_available_cb := func\<rparr>"
| "g_dhcp_client_register_event G_DHCP_CLIENT_EVENT_IPV4LL_AVAILABLE func c = c\<lparr>cl_ipv4ll_available_cb := func\<rparr>"
| "g_dhcp_client_register_event G_DHCP_CLIENT_EVENT_NO_LEASE func c = c\<lparr>cl_no_lease_cb := func\<rparr>"
| "g_dhcp_client_register_event G_DHCP_CLIENT_EVENT_LEASE_LOST func c = c\<lparr>cl_lease_lost_cb := func\<rparr>"
| "g_dhcp_client_register_event G_DHCP_CLIENT_EVENT_IPV4LL_LOST func c = c\<lparr>cl_ipv4ll_lost_cb := func\<rparr>"
| "g_dhcp_client_register_event G_DHCP_CLIENT_EVENT_ADDRESS_CONFLICT func c = c\<lparr>cl_address_conflict_cb := func\<rparr>"

definition g_dhcp_client_get_netmask :: "GDHCPClient \<Rightarrow> string option" where
  "g_dhcp_client_get_netmask c =
     (if cl_state c = IPV4LL_DEFEND \<or> cl_state c = IPV4LL_MONITOR then Some ''255.255.0.0''
      else if cl_state c = BOUND \<or> cl_state c = RENEWING \<or> cl_state c = REBINDING then
        (case g_dhcp_client_get_option c G_DHCP_SUBNET of
           Some (v # vs) \<Rightarrow> Some v
         | _ \<Rightarrow> None)
      else None)"

definition g_dhcp_client_set_request :: "u8 \<Rightarrow> GDHCPClient \<Rightarrow> GDHCPClient" where
  "g_dhcp_client_set_request option_code c =
     (if option_code \<in> set (cl_request_list c) then c
      else c\<lparr>cl_request_list := option_code # cl_request_list c\<rparr>)"

definition alloc_dhcp_option :: "u8 \<Rightarrow> string \<Rightarrow> u8 list" where
  "alloc_dhcp_option code str =
     (let s = take 255 (takeWhile (\<lambda>ch. ch \<noteq> CHR 0x00) str) in
      [code, of_nat (length s)] @ map (\<lambda>ch. of_nat (of_char ch)) s)"

definition g_dhcp_client_set_send :: "u8 \<Rightarrow> string option \<Rightarrow> GDHCPClient \<Rightarrow> GDHCPClient" where
  "g_dhcp_client_set_send option_code option_value c =
     (case option_value of
        None \<Rightarrow> c
      | Some v \<Rightarrow>
          if option_code = G_DHCP_HOST_NAME
          then c\<lparr>cl_send_value_hash := (cl_send_value_hash c)(option_code \<mapsto> alloc_dhcp_option option_code v)\<rparr>
          else c)"

definition g_dhcp_client_ref :: "GDHCPClient \<Rightarrow> GDHCPClient" where
  "g_dhcp_client_ref c = c\<lparr>cl_ref_count := cl_ref_count c + 1\<rparr>"

text \<open>Whether the client is freed, and the world; the last reference stops the client first.\<close>

definition g_dhcp_client_unref :: "cl_env \<Rightarrow> cl_world \<Rightarrow> (bool \<times> cl_world) result" where
  "g_dhcp_client_unref env w =
     (let w1 = cl_upd (\<lambda>c. c\<lparr>cl_ref_count := cl_ref_count c - 1\<rparr>) w in
      if cl_ref_count (w_client w) \<noteq> 1 then Inr (False, w1)
      else bind_r (g_dhcp_client_stop env w1) (\<lambda>w2. Inr (True, w2)))"

end
