(* ===== verification/Client_Protocol.thy ===== *)
theory Client_Protocol
  imports Dhcp_Client
begin

text \<open>
  The behaviour of the DHCP client over time: how it uses the sources of the main loop, as an
  inductive step relation over all its operations, and the properties of its handlers.
\<close>

section \<open>Main loop discipline\<close>

fun is_timer :: "source \<Rightarrow> bool" where
  "is_timer (Timer fn ms) = True"
| "is_timer _ = False"

fun is_watch :: "source \<Rightarrow> bool" where
  "is_watch (Watch fd) = True"
| "is_watch _ = False"

text \<open>GLib gives a new source an identifier above zero that no reserved source has.\<close>

definition ids_fresh :: "cl_env \<Rightarrow> bool" where
  "ids_fresh env \<longleftrightarrow> (\<forall>used. ce_new_id env used \<notin> set used \<and> 0 < ce_new_id env used)"

text \<open>
  The live sources of a client: identifiers are unique and above zero, a timer that is not
  being dispatched (\<open>ex\<close>) is the one the client remembers, and so is its watch, which exists
  only while the client listens.
\<close>

definition src_inv :: "(nat \<times> source) list \<Rightarrow> nat set \<Rightarrow> nat \<Rightarrow> nat \<Rightarrow> ListenMode \<Rightarrow> bool" where
  "src_inv srcs ex timeout watch mode \<longleftrightarrow> distinct (map fst srcs) \<and> 0 \<notin> fst ` set srcs \<and>
     (\<forall>(i, s) \<in> set srcs. is_timer s \<longrightarrow> i \<in> ex \<or> i = timeout) \<and>
     (\<forall>(i, s) \<in> set srcs. is_watch s \<longrightarrow> i = watch \<and> mode \<noteq> L_NONE)"

definition loop_inv :: "nat set \<Rightarrow> cl_world \<Rightarrow> bool" where
  "loop_inv ex w \<longleftrightarrow> src_inv (w_sources w) ex (cl_timeout (w_client w))
     (cl_listener_watch (w_client w)) (cl_listen_mode (w_client w))"

text \<open>No timer is live, apart from one that is being dispatched.\<close>

definition idle :: "nat set \<Rightarrow> cl_world \<Rightarrow> bool" where
  "idle ex w \<longleftrightarrow> (\<forall>(i, s) \<in> set (w_sources w). is_timer s \<longrightarrow> i \<in> ex)"

lemma cl_upd_simps [simp]:
  "w_client (cl_upd f w) = f (w_client w)" "w_sources (cl_upd f w) = w_sources w"
  "w_busy (cl_upd f w) = w_busy w" "w_rng (cl_upd f w) = w_rng w" "w_out (cl_upd f w) = w_out w"
  by (simp_all add: cl_upd_def)

lemma emit_simps [simp]:
  "w_client (emit e w) = w_client w" "w_sources (emit e w) = w_sources w"
  "w_busy (emit e w) = w_busy w" "w_rng (emit e w) = w_rng w" "w_out (emit e w) = w_out w @ [e]"
  by (simp_all add: emit_def)

lemma g_source_remove_simps [simp]:
  "w_client (g_source_remove t w) = w_client w" "w_busy (g_source_remove t w) = w_busy w"
  "w_sources (g_source_remove t w) = filter (\<lambda>s. fst s \<noteq> t) (w_sources w)"
  "w_rng (g_source_remove t w) = w_rng w"
  by (auto simp: g_source_remove_def intro!: filter_True [symmetric])

lemma g_source_add_simps [simp]:
  "w_client (g_source_add env s w) = w_client w" "w_busy (g_source_add env s w) = w_busy w"
  "w_sources (g_source_add env s w) = (new_source_id env w, s) # w_sources w"
  "w_rng (g_source_add env s w) = w_rng w" "w_out (g_source_add env s w) = w_out w"
  by (simp_all add: g_source_add_def)

lemma timeout_simps [simp]:
  "w_busy (remove_timeout w) = w_busy w" "w_busy (clear_timeout w) = w_busy w"
  "w_client (remove_timeout w) = w_client w"
  "w_client (clear_timeout w) = (w_client w)\<lparr>cl_timeout := 0\<rparr>"
  "w_busy (start_timer env fn ms w) = w_busy w"
  "w_client (start_timer env fn ms w) = (w_client w)\<lparr>cl_timeout := new_source_id env w\<rparr>"
  by (simp_all add: remove_timeout_def clear_timeout_def start_timer_def)

lemma new_source_id_fresh:
  "ids_fresh env \<Longrightarrow> new_source_id env w \<notin> fst ` set (w_sources w) \<and>
     new_source_id env w \<notin> set (w_busy w) \<and> 0 < new_source_id env w"
  unfolding ids_fresh_def new_source_id_def
  by (metis UnCI image_set set_append)

lemma src_inv_filter: "src_inv srcs ex t w m \<Longrightarrow> src_inv (filter P srcs) ex t w m"
  by (auto simp: src_inv_def distinct_map_filter)

lemma remove_source_inv [keeps]: "loop_inv ex w \<Longrightarrow> loop_inv ex (g_source_remove t w)"
  by (simp add: loop_inv_def src_inv_filter)

lemma remove_source_idle [keeps]: "idle ex w \<Longrightarrow> idle ex (g_source_remove t w)"
  by (auto simp: idle_def)

lemma remove_own_timer_idle: "loop_inv ex w \<Longrightarrow> idle ex (g_source_remove (cl_timeout (w_client w)) w)"
  by (auto simp: idle_def loop_inv_def src_inv_def)

lemma idle_zero_timeout: "loop_inv ex w \<Longrightarrow> cl_timeout (w_client w) = 0 \<Longrightarrow> idle ex w"
  by (force simp: idle_def loop_inv_def src_inv_def)

lemma remove_timeout_keeps [keeps]:
  "loop_inv ex w \<Longrightarrow> loop_inv ex (remove_timeout w)" "loop_inv ex w \<Longrightarrow> idle ex (remove_timeout w)"
  by (auto simp: remove_timeout_def remove_source_inv remove_own_timer_idle idle_zero_timeout)

lemma loop_inv_frame:
  "w_sources w = w_sources v \<Longrightarrow>
   cl_timeout (w_client w) = cl_timeout (w_client v) \<Longrightarrow>
   cl_listener_watch (w_client w) = cl_listener_watch (w_client v) \<Longrightarrow>
   cl_listen_mode (w_client w) = cl_listen_mode (w_client v) \<Longrightarrow> loop_inv ex w = loop_inv ex v"
  by (simp add: loop_inv_def)

lemma idle_frame: "w_sources w = w_sources v \<Longrightarrow> idle ex w = idle ex v"
  by (simp add: idle_def)

lemma idle_any_timeout: "loop_inv ex w \<Longrightarrow> idle ex w \<Longrightarrow> src_inv (w_sources w) ex t
     (cl_listener_watch (w_client w)) (cl_listen_mode (w_client w))"
  by (auto simp: loop_inv_def src_inv_def idle_def)

lemma clear_timeout_keeps [keeps]:
  assumes "loop_inv ex w"
  shows "loop_inv ex (clear_timeout w)" and "idle ex (clear_timeout w)"
proof -
  have "loop_inv ex (remove_timeout w)" and "idle ex (remove_timeout w)" using assms keeps by blast+
  then show "loop_inv ex (clear_timeout w)" and "idle ex (clear_timeout w)"
    using idle_any_timeout [of ex "remove_timeout w" 0]
    by (simp_all add: clear_timeout_def loop_inv_def idle_def)
qed

lemma start_timer_inv [keeps]:
  assumes "loop_inv ex w" and "idle ex w" and "ids_fresh env"
  shows "loop_inv ex (start_timer env fn ms w)"
  using assms new_source_id_fresh [OF assms(3), of w]
  by (auto simp: loop_inv_def src_inv_def idle_def start_timer_def)

text \<open>Switching the mode keeps the old watch, stops it, or replaces it by a new one.\<close>

definition unwatched :: "cl_world \<Rightarrow> cl_world" where
  "unwatched w = (if cl_listen_mode (w_client w) \<noteq> L_NONE then stop_listening w else w)"

definition watching :: "cl_env \<Rightarrow> ListenMode \<Rightarrow> int \<Rightarrow> cl_world \<Rightarrow> cl_world" where
  "watching env m fd w = cl_upd (\<lambda>c. c\<lparr>cl_listen_mode := m, cl_listener_sockfd := fd,
     cl_listener_channel := True, cl_listener_watch := new_source_id env w\<rparr>) (g_source_add env (Watch fd) w)"

lemma switch_listening_mode_cases:
  "snd (switch_listening_mode env m w) \<in> {w, unwatched w} \<union> {watching env m fd (unwatched w) | fd. m \<noteq> L_NONE}"
  unfolding switch_listening_mode_def Let_def unwatched_def [symmetric] watching_def [symmetric] by auto

lemma unwatched_simps [simp]:
  "w_busy (unwatched w) = w_busy w" "cl_timeout (w_client (unwatched w)) = cl_timeout (w_client w)"
  "cl_listen_mode (w_client (unwatched w)) = L_NONE" "idle ex w \<Longrightarrow> idle ex (unwatched w)"
  by (auto simp: unwatched_def stop_listening_def idle_def)

lemma unwatched_inv: "loop_inv ex w \<Longrightarrow> loop_inv ex (unwatched w)"
  by (auto simp: unwatched_def stop_listening_def loop_inv_def src_inv_def distinct_map_filter)

lemma watching_inv:
  assumes "loop_inv ex w" and "cl_listen_mode (w_client w) = L_NONE" and "m \<noteq> L_NONE" and "ids_fresh env"
  shows "loop_inv ex (watching env m fd w)"
  using assms(1-3) new_source_id_fresh [OF assms(4), of w] by (auto simp: watching_def loop_inv_def src_inv_def)

lemma switch_listening_mode_keeps [keeps]:
  assumes "ids_fresh env"
  shows "loop_inv ex w \<Longrightarrow> loop_inv ex (snd (switch_listening_mode env m w))"
    and "idle ex w \<Longrightarrow> idle ex (snd (switch_listening_mode env m w))"
proof -
  show "loop_inv ex (snd (switch_listening_mode env m w))" if "loop_inv ex w"
    using switch_listening_mode_cases [of env m w] that unwatched_inv [OF that]
      watching_inv [OF unwatched_inv [OF that] unwatched_simps(3) _ assms] by auto
  show "idle ex (snd (switch_listening_mode env m w))" if "idle ex w"
    using switch_listening_mode_cases [of env m w] that unwatched_simps(4) [OF that]
    by (auto simp: watching_def idle_def)
qed

lemma switch_listening_mode_frame [simp]:
  "w_busy (snd (switch_listening_mode env m w)) = w_busy w"
  "cl_timeout (w_client (snd (switch_listening_mode env m w))) = cl_timeout (w_client w)"
  using switch_listening_mode_cases [of env m w] by (auto simp: watching_def)


lemma loop_frames [simp]:
  "(\<And>c. cl_timeout (f c) = cl_timeout c \<and> cl_listener_watch (f c) = cl_listener_watch c \<and>
     cl_listen_mode (f c) = cl_listen_mode c) \<Longrightarrow> loop_inv ex (cl_upd f w) = loop_inv ex w"
  "loop_inv ex (emit e w) = loop_inv ex w" "loop_inv ex (w\<lparr>w_rng := g\<rparr>) = loop_inv ex w"
  "idle ex (cl_upd f w) = idle ex w" "idle ex (emit e w) = idle ex w" "idle ex (w\<lparr>w_rng := g\<rparr>) = idle ex w"
  by (auto simp: loop_inv_def idle_def)

lemma idle_set_timeout: "loop_inv ex w \<Longrightarrow> idle ex w \<Longrightarrow> loop_inv ex (cl_upd (\<lambda>c. c\<lparr>cl_timeout := t, cl_retry_times := r\<rparr>) w)"
  using idle_any_timeout [of ex w t] by (simp add: loop_inv_def)

text \<open>What an operation that starts from \<open>w\<close> leaves behind.\<close>

definition left_ok :: "nat set \<Rightarrow> cl_world \<Rightarrow> cl_world \<Rightarrow> bool" where
  "left_ok ex w w' \<longleftrightarrow> loop_inv ex w' \<and> w_busy w' = w_busy w"

lemma left_okI: "loop_inv ex w' \<Longrightarrow> w_busy w' = w_busy w \<Longrightarrow> left_ok ex w w'"
  by (simp add: left_ok_def)

lemma delayed_probe_keeps [keeps]:
  assumes "ids_fresh env" "loop_inv ex w" "idle ex w" "delayed_probe env w = ret_d w'"
  shows "left_ok ex w w'"
  using assms by (auto simp: delayed_probe_def bind_d_eq_ret intro!: left_okI start_timer_inv)

lemma drop_watch_keeps [keeps]:
  "loop_inv ex w \<Longrightarrow> loop_inv ex (drop_watch w)" "idle ex w \<Longrightarrow> idle ex (drop_watch w)"
  by (auto simp: drop_watch_def loop_inv_def src_inv_def idle_def distinct_map_filter)

lemma drop_watch_busy [simp]: "w_busy (drop_watch w) = w_busy w"
  by (simp add: drop_watch_def)

lemma ipv4ll_start_keeps [keeps]:
  assumes "ids_fresh env" "loop_inv ex w" "ipv4ll_start env w = ret_d w'"
  shows "left_ok ex w w'"
proof -
  let ?w1 = "clear_timeout w"
  let ?w2 = "cl_upd (\<lambda>c. c\<lparr>cl_type := G_DHCP_IPV4LL, cl_retry_times := 0, cl_requested_ip := 0\<rparr>)
                 (snd (switch_listening_mode env L_NONE ?w1))"
  have w2: "loop_inv ex ?w2" "idle ex ?w2" "w_busy ?w2 = w_busy w"
    using switch_listening_mode_keeps [OF assms(1)] clear_timeout_keeps [OF assms(2)] by simp_all
  obtain ip g where "delayed_probe env (cl_upd (\<lambda>c. c\<lparr>cl_requested_ip := ip\<rparr>) (?w2\<lparr>w_rng := g\<rparr>)) = ret_d w'"
    using assms(3) unfolding ipv4ll_start_def Let_def by (auto split: option.splits)
  from delayed_probe_keeps [OF assms(1) _ _ this] w2 show ?thesis by (simp add: left_ok_def)
qed

lemma ipv4ll_stop_keeps [keeps]:
  assumes "ids_fresh env" "loop_inv ex w"
  shows "loop_inv ex (ipv4ll_stop env w)" "idle ex (ipv4ll_stop env w)" "w_busy (ipv4ll_stop env w) = w_busy w"
proof -
  let ?w1 = "remove_timeout (snd (switch_listening_mode env L_NONE w))"
  have w1: "loop_inv ex ?w1" "idle ex ?w1" "w_busy ?w1 = w_busy w"
    using switch_listening_mode_keeps [OF assms(1)] remove_timeout_keeps assms(2) by simp_all
  then show "loop_inv ex (ipv4ll_stop env w)" "idle ex (ipv4ll_stop env w)" "w_busy (ipv4ll_stop env w) = w_busy w"
    using drop_watch_keeps [of ex ?w1] by (simp_all add: ipv4ll_stop_def)
qed

lemma send_probe_packet_keeps [keeps]:
  assumes "ids_fresh env" "loop_inv ex w" "idle ex w" "send_probe_packet env w = ret_d w'"
  shows "left_ok ex w w'"
proof -
  let ?pick = "if cl_requested_ip (w_client w) = 0
            then (case ipv4ll_random_ip (ce_rand env) (ce_usec env) 0 of
                    None \<Rightarrow> None
                  | Some (ip, g) \<Rightarrow> Some (cl_upd (\<lambda>c. c\<lparr>cl_requested_ip := ip\<rparr>) (w\<lparr>w_rng := g\<rparr>)))
            else Some w"
  obtain w1 where pick: "?pick = Some w1"
    using assms(4) unfolding send_probe_packet_def by (cases ?pick) simp_all
  then have w1: "loop_inv ex w1" "idle ex w1" "w_busy w1 = w_busy w"
    using assms(2,3) by (auto split: if_splits option.splits)
  define w2 where "w2 = (if cl_retry_times (w_client w1) = 1
    then snd (switch_listening_mode env L_ARP (cl_upd (\<lambda>c. c\<lparr>cl_state := IPV4LL_PROBE\<rparr>) w1)) else w1)"
  have w2: "loop_inv ex w2" "idle ex w2" "w_busy w2 = w_busy w"
    using switch_listening_mode_keeps [OF assms(1)] w1 by (simp_all add: w2_def)
  let ?w3 = "emit (CSendArp (cl_mac_address (w_client w2)) 0 (cl_requested_ip (w_client w2)) (cl_ifindex (w_client w2))) w2"
  have "(\<exists>fn ms h. w' = start_timer env fn ms (?w3\<lparr>w_rng := h\<rparr>)) \<or> (\<exists>fn ms. w' = start_timer env fn ms ?w3)"
    using assms(4) unfolding send_probe_packet_def pick option.case Let_def w2_def [symmetric]
    by (auto simp: bind_d_eq_ret split: if_splits)
  then show ?thesis using start_timer_inv [OF _ _ assms(1)] w2 by (auto intro!: left_okI)
qed

lemma send_announce_packet_keeps [keeps]:
  assumes "ids_fresh env" "loop_inv ex w"
  shows "left_ok ex w (send_announce_packet env w)"
  using clear_timeout_keeps [of ex "emit e w" for e] assms
  by (auto simp: send_announce_packet_def Let_def intro!: left_okI start_timer_inv)


lemma send_effects:
  "send_discover env r w = Inr w' \<Longrightarrow> \<exists>p. w' = emit (broadcast (w_client w) p) w"
  "send_select env w = Inr w' \<Longrightarrow> \<exists>p. w' = emit (broadcast (w_client w) p) w"
  "send_rebound env w = Inr w' \<Longrightarrow> \<exists>p. w' = emit (broadcast (w_client w) p) w"
  "send_renew env w = Inr w' \<Longrightarrow> \<exists>p. w' = emit (CSendKernel p (cl_requested_ip (w_client w)) CLIENT_PORT
     (cl_server_ip (w_client w)) SERVER_PORT) w"
  "send_release env sv ci w = Inr w' \<Longrightarrow> \<exists>p g. w' = emit (CSendKernel p ci CLIENT_PORT sv SERVER_PORT) (w\<lparr>w_rng := g\<rparr>)"
  by (auto simp: send_discover_def send_select_def send_rebound_def send_renew_def send_release_def
      Let_def bind_r_eq_Inr case_prod_beta simp del: split_paired_Ex)

lemma start_address_keeps:
  "start_address env arg w = Inr (a, w') \<Longrightarrow> loop_inv ex w' = loop_inv ex w \<and> idle ex w' = idle ex w \<and> w_busy w' = w_busy w"
  by (auto simp: start_address_def split: str_arg.splits if_splits option.splits)

lemma g_dhcp_client_start_keeps [keeps]:
  assumes "ids_fresh env" "loop_inv ex w" "idle ex w" "g_dhcp_client_start env arg w = ret_d (re, w')"
  shows "left_ok ex w w'"
proof (cases "cl_retry_times (w_client w) = DISCOVER_RETRIES")
  case True
  then show ?thesis
    using assms(4) ipv4ll_start_keeps [OF assms(1,2)] by (auto simp: g_dhcp_client_start_def bind_d_eq_ret)
next
  case False
  let ?u = "cl_upd (\<lambda>c. c\<lparr>cl_assigned_ip := None, cl_state := INIT_SELECTING\<rparr>) w"
  have sw: "loop_inv ex (snd (switch_listening_mode env L2 ?u))" "idle ex (snd (switch_listening_mode env L2 ?u))"
    using switch_listening_mode_keeps [OF assms(1), of ex ?u L2] assms(2,3) by simp_all
  define first where "first = (if cl_retry_times (w_client w) = 0 then
             (let (re, w1) = switch_listening_mode env L2 ?u in
              if re \<noteq> 0 then (re, w1)
              else let (x, g) = rand (ce_rand env) (w_rng w1) in
                   (0, cl_upd (\<lambda>c. c\<lparr>cl_xid := x\<rparr>) (w1\<lparr>w_rng := g\<rparr>)))
           else (0, w))"
  have w2: "loop_inv ex (snd first)" "idle ex (snd first)" "w_busy (snd first) = w_busy w"
    using sw assms(2,3) switch_listening_mode_frame(1) [of env L2 ?u]
    by (auto simp: first_def case_prod_beta)
  have "w' = snd first \<or> (\<exists>addr w3 w4. start_address env arg (snd first) = Inr (addr, w3) \<and>
      send_discover env addr w3 = Inr w4 \<and> w' = start_timer env Discover_timeout (DISCOVER_TIMEOUT * 1000) w4)"
    using assms(4) False unfolding g_dhcp_client_start_def first_def [symmetric]
    by (auto simp: case_prod_beta Let_def bind_d_eq_ret split: if_splits)
  then show ?thesis
  proof
    assume "w' = snd first"
    then show ?thesis using w2 by (simp add: left_ok_def)
  next
    assume "\<exists>addr w3 w4. start_address env arg (snd first) = Inr (addr, w3) \<and>
      send_discover env addr w3 = Inr w4 \<and> w' = start_timer env Discover_timeout (DISCOVER_TIMEOUT * 1000) w4"
    then obtain addr w3 w4 where w3: "start_address env arg (snd first) = Inr (addr, w3)"
      and w4: "send_discover env addr w3 = Inr w4" and w': "w' = start_timer env Discover_timeout (DISCOVER_TIMEOUT * 1000) w4"
      by blast
    have "loop_inv ex w4" "idle ex w4" "w_busy w4 = w_busy w"
      using w2 start_address_keeps [OF w3] send_effects(1) [OF w4] by auto
    then show ?thesis unfolding w' by (intro left_okI start_timer_inv assms(1)) simp_all
  qed
qed

lemma g_dhcp_client_stop_keeps [keeps]:
  assumes env: "ids_fresh env" and w: "loop_inv ex w" and ret: "g_dhcp_client_stop env w = Inr w'"
  shows "left_ok ex w w' \<and> idle ex w'"
proof -
  define w1 where "w1 = snd (switch_listening_mode env L_NONE w)"
  have w1: "loop_inv ex w1" "w_busy w1 = w_busy w" using switch_listening_mode_keeps(1) [OF env w] by (simp_all add: w1_def)
  obtain w2 where w2: "w2 = w1 \<or> send_release env (cl_server_ip (w_client w1)) (cl_requested_ip (w_client w1)) w1 = Inr w2"
    and w': "w' = cl_upd (\<lambda>c. c\<lparr>cl_listener_channel := False, cl_retry_times := 0, cl_ack_retry_times := 0,
        cl_requested_ip := 0, cl_state := RELEASED, cl_lease_seconds := 0\<rparr>)
        (drop_watch (clear_timeout w2))"
    using ret unfolding g_dhcp_client_stop_def Let_def w1_def [symmetric]
    by (auto simp only: bind_r_eq_Inr sum.inject split: if_splits)
  have w2: "loop_inv ex w2" "w_busy w2 = w_busy w" using w2 w1 by (auto dest!: send_effects(5))
  then show ?thesis unfolding w' left_ok_def
    using drop_watch_keeps [of ex "clear_timeout w2"] clear_timeout_keeps [OF w2(1)] by simp
qed

lemma configure_frame:
  assumes "f \<in> {g_dhcp_client_register_event ev b, g_dhcp_client_set_request code,
     g_dhcp_client_set_send code value, g_dhcp_client_ref}"
  shows "cl_timeout (f c) = cl_timeout c \<and> cl_listener_watch (f c) = cl_listener_watch c \<and>
     cl_listen_mode (f c) = cl_listen_mode c"
  using assms by (cases ev)
    (auto simp: g_dhcp_client_set_request_def g_dhcp_client_set_send_def g_dhcp_client_ref_def split: option.split)

text \<open>
  What the functions that a user registers may do to the client: stop it, start it again after
  they have stopped it, configure it, and use sources of their own.
\<close>

inductive user_calls :: "cl_world \<Rightarrow> cl_world \<Rightarrow> bool" where
  none: "user_calls w w"
| stop: "ids_fresh env \<Longrightarrow> g_dhcp_client_stop env w = Inr v \<Longrightarrow> user_calls v w' \<Longrightarrow> user_calls w w'"
| restart: "ids_fresh env \<Longrightarrow> g_dhcp_client_stop env w = Inr u \<Longrightarrow> g_dhcp_client_start env arg u = ret_d (re, v) \<Longrightarrow>
     user_calls v w' \<Longrightarrow> user_calls w w'"
| configure: "f \<in> {g_dhcp_client_register_event ev b, g_dhcp_client_set_request code,
     g_dhcp_client_set_send code value, g_dhcp_client_ref} \<Longrightarrow> user_calls (cl_upd f w) w' \<Longrightarrow> user_calls w w'"
| foreign_add: "ids_fresh env \<Longrightarrow> user_calls (g_source_add env Foreign w) w' \<Longrightarrow> user_calls w w'"
| foreign_remove: "(tag, Foreign) \<in> set (w_sources w) \<Longrightarrow> user_calls (g_source_remove tag w) w' \<Longrightarrow> user_calls w w'"

definition callbacks_ok :: "cl_env \<Rightarrow> bool" where
  "callbacks_ok env \<longleftrightarrow> (\<forall>ev w w'. ce_callback env ev w = ret_d w' \<longrightarrow> user_calls w w')"

lemma foreign_keeps:
  assumes "loop_inv ex w"
  shows "ids_fresh env \<Longrightarrow> loop_inv ex (g_source_add env Foreign w)" and "loop_inv ex (g_source_remove tag w)"
proof -
  show "loop_inv ex (g_source_add env Foreign w)" if "ids_fresh env"
    using assms new_source_id_fresh [OF that, of w] by (auto simp: loop_inv_def src_inv_def)
  show "loop_inv ex (g_source_remove tag w)" using assms remove_source_inv by simp
qed

lemma user_calls_keep:
  assumes "user_calls w w'" and "loop_inv ex w"
  shows "left_ok ex w w'"
  using assms
proof (induction rule: user_calls.induct)
  case (stop env w v w')
  then show ?case using g_dhcp_client_stop_keeps [OF stop(1) stop.prems stop(2)] by (simp add: left_ok_def)
next
  case (restart env w u arg re v w')
  have u: "loop_inv ex u" "idle ex u" "w_busy u = w_busy w"
    using g_dhcp_client_stop_keeps [OF restart(1) restart.prems restart(2)] by (simp_all add: left_ok_def)
  from g_dhcp_client_start_keeps [OF restart(1) u(1,2) restart(3)] restart.IH u(3) show ?case by (simp add: left_ok_def)
next
  case (configure f ev b code "value" w w')
  have "loop_inv ex (cl_upd f w)" using configure_frame [OF configure(1), of "w_client w"] configure.prems by (simp add: loop_inv_def)
  with configure.IH show ?case by (simp add: left_ok_def)
next
  case (foreign_add env w w')
  from foreign_add.IH [OF foreign_keeps(1) [OF foreign_add.prems foreign_add(1)]] show ?case by (simp add: left_ok_def)
next
  case (foreign_remove tag w w')
  from foreign_remove.IH [OF foreign_keeps(2) [OF foreign_remove.prems]] show ?case by (simp add: left_ok_def)
qed (simp add: left_ok_def)

lemma call_cb_keeps [keeps]:
  assumes "callbacks_ok env" and "loop_inv ex w" and "call_cb env reg ev w = ret_d w'"
  shows "left_ok ex w w'"
proof (cases "reg (w_client w)")
  case True
  then obtain v where "user_calls v w'" "loop_inv ex v" "w_busy v = w_busy w"
    using assms by (fastforce simp: call_cb_def callbacks_ok_def)
  from user_calls_keep [OF this(1,2)] this(3) show ?thesis by (simp add: left_ok_def)
qed (use assms in \<open>simp add: call_cb_def left_ok_def\<close>)

lemma discover_timeout_keeps [keeps]:
  assumes "ids_fresh env" "loop_inv ex w" "idle ex w" "discover_timeout env w = ret_d w'"
  shows "left_ok ex w w'"
proof -
  let ?u = "cl_upd (\<lambda>c. c\<lparr>cl_retry_times := cl_retry_times c + 1\<rparr>) w"
  obtain re where "g_dhcp_client_start env NullStr ?u = ret_d (re, w')"
    using assms(4) by (auto simp: discover_timeout_def bind_d_eq_ret)
  from g_dhcp_client_start_keeps [OF assms(1) _ _ this] assms(2,3) show ?thesis by (simp add: left_ok_def)
qed

lemma start_request_keeps [keeps]:
  assumes "ids_fresh env" "loop_inv ex w" "idle ex w" "start_request env w = ret_d w'"
  shows "left_ok ex w w'"
proof (cases "cl_retry_times (w_client w) = REQUEST_RETRIES")
  case True
  then show ?thesis
    using assms(2,4) ipv4ll_start_keeps [OF assms(1), of ex "cl_upd (\<lambda>c. c\<lparr>cl_state := INIT_SELECTING\<rparr>) w" w']
    by (simp add: start_request_def left_ok_def)
next
  case False
  define w1 where "w1 = (if cl_retry_times (w_client w) = 0
    then snd (switch_listening_mode env L2 (cl_upd (\<lambda>c. c\<lparr>cl_state := REQUESTING\<rparr>) w)) else w)"
  have w1: "loop_inv ex w1" "idle ex w1" "w_busy w1 = w_busy w"
    using switch_listening_mode_keeps [OF assms(1)] assms(2,3) by (simp_all add: w1_def)
  obtain w2 where "send_select env w1 = Inr w2" "w' = start_timer env Request_timeout (REQUEST_TIMEOUT * 1000) w2"
    using assms(4) False unfolding start_request_def w1_def [symmetric] Let_def by (auto simp: bind_d_eq_ret)
  moreover from this have "loop_inv ex w2" "idle ex w2" "w_busy w2 = w_busy w"
    using w1 send_effects(2) [of env w1 w2] by auto
  ultimately show ?thesis using start_timer_inv [OF _ _ assms(1)] by (simp add: left_ok_def)
qed

lemma restart_dhcp_keeps [keeps]:
  assumes "ids_fresh env" "loop_inv ex w" "restart_dhcp env n w = ret_d w'"
  shows "left_ok ex w w'"
proof -
  define w2 where "w2 = snd (switch_listening_mode env L2 (cl_upd (\<lambda>c. c\<lparr>cl_retry_times := n, cl_requested_ip := 0\<rparr>)
    (clear_timeout w)))"
  have w2: "loop_inv ex w2" "idle ex w2" "w_busy w2 = w_busy w"
    using switch_listening_mode_keeps [OF assms(1)] clear_timeout_keeps [OF assms(2)] by (simp_all add: w2_def)
  obtain re where "g_dhcp_client_start env OwnLastAddress w2 = ret_d (re, w')"
    using assms(3) unfolding restart_dhcp_def Let_def w2_def [symmetric] by (auto simp: bind_d_eq_ret)
  from g_dhcp_client_start_keeps [OF assms(1) w2(1,2) this] w2(3) show ?thesis by (simp add: left_ok_def)
qed

lemma restart_dhcp_timeout_keeps [keeps]:
  "ids_fresh env \<Longrightarrow> loop_inv ex w \<Longrightarrow> restart_dhcp_timeout env w = ret_d w' \<Longrightarrow> left_ok ex w w'"
  using restart_dhcp_keeps [of env ex "cl_upd (\<lambda>c. c\<lparr>cl_ack_retry_times := cl_ack_retry_times c + 1\<rparr>) w"]
  by (auto simp: restart_dhcp_timeout_def Let_def left_ok_def)

lemma halve_lease_simps [simp]:
  "loop_inv ex (halve_lease w) = loop_inv ex w" "idle ex (halve_lease w) = idle ex w" "w_busy (halve_lease w) = w_busy w"
  by (simp_all add: halve_lease_def)

lemma start_rebound_timeout_keeps [keeps]:
  assumes "ids_fresh env" "callbacks_ok env" "loop_inv ex w" "idle ex w" "start_rebound_timeout env w = ret_d w'"
  shows "left_ok ex w w'"
proof -
  define w1 where "w1 = halve_lease (snd (switch_listening_mode env L2 w))"
  have w1: "loop_inv ex w1" "idle ex w1" "w_busy w1 = w_busy w"
    using switch_listening_mode_keeps [OF assms(1)] assms(3,4) by (simp_all add: w1_def)
  consider w2 where "call_cb env cl_lease_lost_cb G_DHCP_CLIENT_EVENT_LEASE_LOST w1 = ret_d w2" "restart_dhcp env 0 w2 = ret_d w'"
    | w2 ms where "send_rebound env w1 = Inr w2" "w' = start_timer env Start_rebound_timeout ms w2"
    using assms(5) unfolding start_rebound_timeout_def Let_def w1_def [symmetric]
    by (auto simp: bind_d_eq_ret split: if_splits)
  then show ?thesis
  proof cases
    case 1
    then show ?thesis using call_cb_keeps [OF assms(2) w1(1)] restart_dhcp_keeps [OF assms(1)] w1(3)
      by (metis left_ok_def)
  next
    case 2
    moreover from this have "loop_inv ex w2" "idle ex w2" "w_busy w2 = w_busy w"
      using w1 send_effects(3) [of env w1 w2] by auto
    ultimately show ?thesis using start_timer_inv [OF _ _ assms(1)] by (simp add: left_ok_def)
  qed
qed

lemma start_rebound_keeps [keeps]:
  "ids_fresh env \<Longrightarrow> loop_inv ex w \<Longrightarrow> idle ex w \<Longrightarrow> left_ok ex w (start_rebound env w)"
  by (auto simp: start_rebound_def intro!: left_okI start_timer_inv)

lemma start_renew_timeout_keeps [keeps]:
  assumes "ids_fresh env" "loop_inv ex w" "idle ex w" "start_renew_timeout env w = ret_d w'"
  shows "left_ok ex w w'"
proof -
  define w1 where "w1 = snd (switch_listening_mode env L3 (halve_lease (cl_upd (\<lambda>c. c\<lparr>cl_state := RENEWING\<rparr>) w)))"
  have w1: "loop_inv ex w1" "idle ex w1" "w_busy w1 = w_busy w"
    using switch_listening_mode_keeps [OF assms(1)] assms(2,3) by (simp_all add: w1_def)
  consider "w' = start_rebound env w1"
    | w2 ms where "send_renew env w1 = Inr w2" "w' = start_timer env Start_renew_timeout ms (remove_timeout w2)"
    using assms(4) unfolding start_renew_timeout_def Let_def w1_def [symmetric]
    by (auto simp: bind_d_eq_ret split: if_splits)
  then show ?thesis
  proof cases
    case 1
    then show ?thesis using start_rebound_keeps [OF assms(1)] w1 by (metis left_ok_def)
  next
    case 2
    obtain p where "w2 = emit p w1" using send_effects(4) [OF 2(1)] by blast
    then show ?thesis using 2(2) start_timer_inv [OF _ _ assms(1)] remove_timeout_keeps [of ex w2] w1
      by (auto intro!: left_okI)
  qed
qed

lemma start_bound_keeps [keeps]: "ids_fresh env \<Longrightarrow> loop_inv ex w \<Longrightarrow> left_ok ex w (start_bound env w)"
  using remove_timeout_keeps [of ex "cl_upd (\<lambda>c. c\<lparr>cl_state := BOUND\<rparr>) w"]
  by (auto simp: start_bound_def Let_def intro!: left_okI start_timer_inv)


lemma ipv4ll_recv_arp_packet_keeps [keeps]:
  assumes env: "ids_fresh env" "callbacks_ok env" and w: "loop_inv ex w"
    and ret: "ipv4ll_recv_arp_packet env input w = ret_d (re, w')"
  shows "left_ok ex w w'"
proof -
  define w1 where "w1 = cl_upd (\<lambda>c. c\<lparr>cl_conflicts := cl_conflicts c + 1\<rparr>) w"
  have w1: "loop_inv ex w1" "w_busy w1 = w_busy w" using w by (simp_all add: w1_def)
  let ?d = "cl_upd (\<lambda>c. c\<lparr>cl_state := IPV4LL_DEFEND\<rparr>) w1"
  consider "w' \<in> {w, w1}" | "w' = send_announce_packet env ?d"
    | w2 where "w2 = w1 \<or> call_cb env cl_ipv4ll_lost_cb G_DHCP_CLIENT_EVENT_IPV4LL_LOST w1 = ret_d w2"
        "delayed_probe env (ipv4ll_stop env w2) = ret_d w' \<or>
         call_cb env cl_no_lease_cb G_DHCP_CLIENT_EVENT_NO_LEASE (ipv4ll_stop env w2) = ret_d w'"
    using ret unfolding ipv4ll_recv_arp_packet_def Let_def w1_def [symmetric]
    by (auto simp: bind_d_eq_ret case_prod_beta split: sum.splits if_splits)
  then show ?thesis
  proof cases
    case 1
    then show ?thesis using w w1 by (auto simp: left_ok_def)
  next
    case 2
    then show ?thesis using send_announce_packet_keeps [OF env(1), of ex ?d] w1 by (simp add: left_ok_def)
  next
    case 3
    have "left_ok ex w w2" using 3(1) call_cb_keeps [OF env(2) w1(1)] w1 by (auto simp: left_ok_def)
    then have st: "loop_inv ex (ipv4ll_stop env w2)" "idle ex (ipv4ll_stop env w2)" "w_busy (ipv4ll_stop env w2) = w_busy w"
      using ipv4ll_stop_keeps [OF env(1), of ex w2] by (auto simp: left_ok_def)
    then show ?thesis
      using 3(2) delayed_probe_keeps [OF env(1)] call_cb_keeps [OF env(2)] by (metis left_ok_def)
  qed
qed

lemma ipv4ll_announce_timeout_keeps [keeps]:
  assumes env: "ids_fresh env" "callbacks_ok env" and w: "loop_inv ex w"
    and ret: "ipv4ll_announce_timeout env w = ret_d w'"
  shows "left_ok ex w w'"
proof -
  let ?u = "cl_upd (\<lambda>c. c\<lparr>cl_retry_times := cl_retry_times c + 1\<rparr>) w"
  let ?m = "cl_upd (\<lambda>c. c\<lparr>cl_state := IPV4LL_MONITOR, cl_assigned_ip := Some (get_ip (htonl (cl_requested_ip (w_client w))))\<rparr>) w"
  consider "w' = send_announce_packet env ?u"
    | w2 where "call_cb env cl_ipv4ll_available_cb G_DHCP_CLIENT_EVENT_IPV4LL_AVAILABLE ?m = ret_d w2"
        "w' = cl_upd (\<lambda>c. c\<lparr>cl_conflicts := 0\<rparr>) w2"
    using ret unfolding ipv4ll_announce_timeout_def Let_def by (auto simp: bind_d_eq_ret split: if_splits)
  then show ?thesis
  proof cases
    case 1
    then show ?thesis using send_announce_packet_keeps [OF env(1), of ex ?u] w by (simp add: left_ok_def)
  next
    case 2
    then show ?thesis using call_cb_keeps [OF env(2) _ 2(1)] w by (simp add: left_ok_def)
  qed
qed

lemma ipv4ll_probe_timeout_keeps [keeps]:
  assumes "ids_fresh env" "loop_inv ex w" "idle ex w" "ipv4ll_probe_timeout env w = ret_d w'"
  shows "left_ok ex w w'"
  using assms(2-4) send_announce_packet_keeps [OF assms(1), of ex "cl_upd (\<lambda>c. c\<lparr>cl_state := IPV4LL_ANNOUNCE, cl_retry_times := 0 + 1\<rparr>) w"]
    send_probe_packet_keeps [OF assms(1), of ex "cl_upd (\<lambda>c. c\<lparr>cl_retry_times := cl_retry_times c + 1\<rparr>) w" w']
  by (auto simp: ipv4ll_probe_timeout_def left_ok_def split: if_splits)

lemma run_timer_keeps [keeps]:
  assumes "ids_fresh env" "callbacks_ok env" "loop_inv ex w" "idle ex w" "run_timer env fn w = ret_d w'"
  shows "left_ok ex w w'"
proof (cases fn)
  case Request_timeout
  then show ?thesis
    using assms(3-5) start_request_keeps [OF assms(1), of ex "cl_upd (\<lambda>c. c\<lparr>cl_retry_times := cl_retry_times c + 1\<rparr>) w" w']
    by (simp add: request_timeout_def left_ok_def)
next
  case Ipv4ll_defend_timeout
  then show ?thesis using assms(3-5) by (auto simp: ipv4ll_defend_timeout_def left_ok_def)
qed (insert assms, auto intro: send_probe_packet_keeps ipv4ll_probe_timeout_keeps ipv4ll_announce_timeout_keeps
  discover_timeout_keeps start_renew_timeout_keeps start_rebound_timeout_keeps restart_dhcp_timeout_keeps)

lemma receive_offer_keeps [keeps]:
  assumes "ids_fresh env" "loop_inv ex w" "receive_offer env packet w = ret_d w'"
  shows "left_ok ex w w'"
proof -
  define w1 where "w1 = cl_upd (\<lambda>c. c\<lparr>cl_timeout := 0, cl_retry_times := 0\<rparr>)
                 (g_source_remove (cl_timeout (w_client w)) w)"
  have w1: "loop_inv ex w1" "idle ex w1" "w_busy w1 = w_busy w"
    using idle_set_timeout [OF remove_source_inv remove_own_timer_idle] remove_own_timer_idle assms(2)
    by (simp_all add: w1_def)
  obtain server where "start_request env (cl_upd (\<lambda>c. c\<lparr>cl_server_ip := server, cl_requested_ip := pkt_yiaddr packet,
        cl_state := REQUESTING\<rparr>) w1) = ret_d w'"
    using assms(3) unfolding receive_offer_def Let_def w1_def [symmetric] by (auto simp: bind_d_eq_ret)
  from start_request_keeps [OF assms(1) _ _ this] w1 show ?thesis by (simp add: left_ok_def)
qed

lemma receive_ack_keeps [keeps]:
  assumes env: "ids_fresh env" "callbacks_ok env" and "loop_inv ex w" and ret: "receive_ack env packet w = ret_d w'"
  shows "left_ok ex w w'"
proof -
  define w1 where "w1 = clear_timeout (cl_upd (\<lambda>c. c\<lparr>cl_retry_times := 0\<rparr>) w)"
  have w1: "loop_inv ex w1" "w_busy w1 = w_busy w" using clear_timeout_keeps(1) assms(3) by (simp_all add: w1_def)
  obtain lease w2 w4 where w2: "get_request env packet (cl_upd (\<lambda>c. c\<lparr>cl_lease_seconds := lease\<rparr>) w1) = ret_d w2"
    and w4: "call_cb env cl_lease_available_cb G_DHCP_CLIENT_EVENT_LEASE_AVAILABLE
      (cl_upd (\<lambda>c. c\<lparr>cl_assigned_ip := Some (get_ip (pkt_yiaddr packet))\<rparr>) (snd (switch_listening_mode env L_NONE w2))) = ret_d w4"
    and w': "w' = start_bound env w4"
    using ret unfolding receive_ack_def Let_def w1_def [symmetric] by (auto simp: bind_d_eq_ret)
  have "loop_inv ex w2" "w_busy w2 = w_busy w" using w2 w1 by (auto simp: get_request_def bind_d_eq_ret)
  then have "left_ok ex w w4"
    using call_cb_keeps [OF env(2) _ w4] switch_listening_mode_keeps(1) [OF env(1), of ex w2 L_NONE] by (simp add: left_ok_def)
  then show ?thesis using start_bound_keeps [OF env(1), of ex w4] by (simp add: w' left_ok_def)
qed

lemma receive_nak_keeps [keeps]: "ids_fresh env \<Longrightarrow> loop_inv ex w \<Longrightarrow> left_ok ex w (receive_nak env w)"
  using remove_timeout_keeps [of ex "cl_upd (\<lambda>c. c\<lparr>cl_retry_times := 0\<rparr>) w"]
  by (auto simp: receive_nak_def intro!: left_okI start_timer_inv)

lemma client_listener_event_keeps [keeps]:
  assumes env: "ids_fresh env" "callbacks_ok env" and w: "loop_inv ex w" and err: "\<not> err"
    and ret: "client_listener_event env err stack input w = ret_d (keep, w')"
  shows "left_ok ex w w'"
proof -
  have reply: "handle_reply env packet t w = ret_d w' \<Longrightarrow> left_ok ex w w'" for packet t
    using receive_offer_keeps [OF env(1) w] receive_ack_keeps [OF env w] receive_nak_keeps [OF env(1) w] w
    by (auto simp: handle_reply_def Let_def left_ok_def split: if_splits)
  have arp: "ipv4ll_recv_arp_packet env input w = ret_d (re, w') \<Longrightarrow> left_ok ex w w'" for re
    using ipv4ll_recv_arp_packet_keeps [OF env w] by blast
  have same: "left_ok ex w w" using w by (simp add: left_ok_def)
  consider "w' = w" | re where "ipv4ll_recv_arp_packet env input w = ret_d (re, w')"
    | packet where "bind_d (dhcp_get_option packet DHCP_MESSAGE_TYPE) (\<lambda>message_type.
          case message_type of
            None \<Rightarrow> ret_d (True, w)
          | Some ptr \<Rightarrow>
              bind_d (Some (dhcp_get_u8 packet ptr)) (\<lambda>t.
              bind_d (handle_reply env packet t w) (\<lambda>w1. ret_d (True, w1)))) = ret_d (keep, w')"
    using ret err unfolding client_listener_event_def Let_def
    by (auto simp: bind_d_eq_ret [of "recv_packet c st i" for c st i] bind_d_eq_ret [of "ipv4ll_recv_arp_packet e i v" for e i v]
        split: if_splits option.splits)
  then show ?thesis
  proof cases
    case 3
    then obtain mt where "(case mt of None \<Rightarrow> ret_d (True, w)
          | Some ptr \<Rightarrow> bind_d (Some (dhcp_get_u8 packet ptr)) (\<lambda>t.
              bind_d (handle_reply env packet t w) (\<lambda>w1. ret_d (True, w1)))) = ret_d (keep, w')"
      by (auto simp: bind_d_eq_ret [of "dhcp_get_option p c" for p c])
    then show ?thesis using same reply by (cases mt) (auto simp: bind_d_eq_ret)
  qed (use same arp in auto)
qed

section \<open>The client as a step relation\<close>

lemma dispatch_frame [simp]:
  "loop_inv ex (w\<lparr>w_busy := b\<rparr>) = loop_inv ex w" "idle ex (w\<lparr>w_busy := b\<rparr>) = idle ex w"
  by (simp_all add: loop_inv_def idle_def)

lemma loop_inv_mono: "loop_inv {} w \<Longrightarrow> loop_inv ex w"
  by (auto simp: loop_inv_def src_inv_def)

lemma dispatch_timer_idle:
  assumes "loop_inv {} w" "map_of (w_sources w) tag = Some (Timer fn ms)"
  shows "idle {tag} w"
proof -
  have "(tag, Timer fn ms) \<in> set (w_sources w)" using assms(2) by (rule map_of_SomeD)
  then have "tag = cl_timeout (w_client w)" using assms(1) by (auto simp: loop_inv_def src_inv_def)
  then show ?thesis using assms(1) by (auto simp: loop_inv_def src_inv_def idle_def)
qed

lemma dispatched_inv:
  "loop_inv {tag} w \<Longrightarrow> loop_inv {} (destroy_source tag w)" "loop_inv {} w \<Longrightarrow> loop_inv {} (destroy_source tag w)"
  by (auto simp: loop_inv_def src_inv_def destroy_source_def distinct_map_filter)

lemma fire_timer_keeps [keeps]:
  assumes "ids_fresh env" "callbacks_ok env" "loop_inv {} w" "fire_timer env tag w = ret_d w'"
  shows "loop_inv {} w'"
proof (cases "\<exists>fn ms. map_of (w_sources w) tag = Some (Timer fn ms)")
  case True
  then obtain fn ms where src: "map_of (w_sources w) tag = Some (Timer fn ms)" by blast
  then obtain w1 where "run_timer env fn (w\<lparr>w_busy := [tag]\<rparr>) = ret_d w1"
    and w': "w' = (destroy_source tag w1)\<lparr>w_busy := []\<rparr>"
    using assms(4) by (auto simp: fire_timer_def bind_d_eq_ret)
  from run_timer_keeps [OF assms(1,2) _ _ this(1), of "{tag}"] loop_inv_mono [OF assms(3)]
    dispatch_timer_idle [OF assms(3) src]
  have "loop_inv {tag} w1" by (simp add: left_ok_def)
  then show ?thesis using dispatched_inv(1) w' by simp
next
  case False
  then have "w' = w" using assms(4) by (auto simp: fire_timer_def split: option.splits source.splits)
  then show ?thesis using assms(3) by simp
qed

lemma watch_error_inv:
  assumes "loop_inv {} w" "map_of (w_sources w) tag = Some (Watch fd)"
  shows "loop_inv {} (destroy_source tag (cl_upd (\<lambda>c. c\<lparr>cl_listener_watch := 0\<rparr>) w))"
proof -
  have "(tag, Watch fd) \<in> set (w_sources w)" using assms(2) by (rule map_of_SomeD)
  then have "tag = cl_listener_watch (w_client w)" using assms(1) by (auto simp: loop_inv_def src_inv_def)
  then show ?thesis using assms(1)
    by (auto simp: loop_inv_def src_inv_def destroy_source_def distinct_map_filter)
qed

lemma fire_watch_keeps [keeps]:
  assumes "ids_fresh env" "callbacks_ok env" "loop_inv {} w"
    and "fire_watch env tag err stack input w = ret_d w'"
  shows "loop_inv {} w'"
proof (cases "\<exists>fd. map_of (w_sources w) tag = Some (Watch fd)")
  case True
  then obtain fd where src: "map_of (w_sources w) tag = Some (Watch fd)" by blast
  let ?b = "w\<lparr>w_busy := [tag]\<rparr>"
  obtain keep w1 where ev: "client_listener_event env err stack input ?b = ret_d (keep, w1)"
    and w': "w' = (if keep then w1 else destroy_source tag w1)\<lparr>w_busy := []\<rparr>"
    using assms(4) src by (auto simp: fire_watch_def bind_d_eq_ret)
  show ?thesis
  proof (cases err)
    case True
    then have "keep = False" "w1 = cl_upd (\<lambda>c. c\<lparr>cl_listener_watch := 0\<rparr>) ?b"
      using ev by (simp_all add: client_listener_event_def Let_def)
    then show ?thesis using w' watch_error_inv [of ?b tag fd] assms(3) src by simp
  next
    case False
    from client_listener_event_keeps [OF assms(1,2) _ False ev, of "{}"] assms(3)
    have "loop_inv {} w1" by (simp add: left_ok_def)
    then show ?thesis using dispatched_inv(2) w' by simp
  qed
next
  case False
  then have "w' = w" using assms(4) by (auto simp: fire_watch_def split: option.splits source.splits)
  then show ?thesis using assms(3) by simp
qed


text \<open>
  The steps of a client: its timers and its watch are dispatched in any order, its user starts
  it while no timer runs (the code does not check that), stops it and configures it, and other parts of the
  program add and remove sources of their own.
\<close>

inductive cl_step :: "cl_world \<Rightarrow> cl_world \<Rightarrow> bool" where
  timer: "ids_fresh env \<Longrightarrow> callbacks_ok env \<Longrightarrow> fire_timer env tag w = ret_d w' \<Longrightarrow> cl_step w w'"
| watch: "ids_fresh env \<Longrightarrow> callbacks_ok env \<Longrightarrow> fire_watch env tag err stack input w = ret_d w' \<Longrightarrow> cl_step w w'"
| start: "ids_fresh env \<Longrightarrow> idle {} w \<Longrightarrow> g_dhcp_client_start env arg w = ret_d (re, w') \<Longrightarrow> cl_step w w'"
| stop: "ids_fresh env \<Longrightarrow> g_dhcp_client_stop env w = Inr w' \<Longrightarrow> cl_step w w'"
| configure: "f \<in> {g_dhcp_client_register_event ev b, g_dhcp_client_set_request code,
     g_dhcp_client_set_send code value, g_dhcp_client_ref} \<Longrightarrow> cl_step w (cl_upd f w)"
| foreign_add: "ids_fresh env \<Longrightarrow> cl_step w (g_source_add env Foreign w)"
| foreign_remove: "(tag, Foreign) \<in> set (w_sources w) \<Longrightarrow> cl_step w (g_source_remove tag w)"

inductive_cases cl_stepE: "cl_step w w'"

inductive cl_reachable :: "cl_world \<Rightarrow> bool" where
  new: "g_dhcp_client_new type ifindex mem name up mac = Inr c \<Longrightarrow> distinct (map fst srcs) \<Longrightarrow>
     0 \<notin> fst ` set srcs \<Longrightarrow> snd ` set srcs \<subseteq> {Foreign} \<Longrightarrow>
     cl_reachable \<lparr>w_client = c, w_sources = srcs, w_busy = [], w_rng = g, w_out = []\<rparr>"
| step: "cl_reachable w \<Longrightarrow> cl_step w w' \<Longrightarrow> cl_reachable w'"

lemma foreign_neither: "snd ` set srcs \<subseteq> {Foreign} \<Longrightarrow> (i, s) \<in> set srcs \<Longrightarrow> \<not> is_timer s \<and> \<not> is_watch s"
  by force

lemma cl_step_inv:
  assumes "cl_step w w'" and "loop_inv {} w"
  shows "loop_inv {} w'"
  using assms
proof (cases rule: cl_step.cases)
  case (start env arg re)
  then show ?thesis using g_dhcp_client_start_keeps [OF start(1) assms(2) start(2,3)] by (simp add: left_ok_def)
next
  case (stop env)
  then show ?thesis using g_dhcp_client_stop_keeps [OF stop(1) assms(2) stop(2)] by (simp add: left_ok_def)
next
  case (configure f ev b code "value")
  then show ?thesis using configure_frame [OF configure(2), of "w_client w"] assms(2) by (simp add: loop_inv_def)
next
  case (foreign_add env)
  then show ?thesis using foreign_keeps(1) [OF assms(2)] by simp
next
  case (foreign_remove tag)
  then show ?thesis using foreign_keeps(2) [OF assms(2)] by simp
next
  case (timer env tag)
  then show ?thesis using fire_timer_keeps [OF timer(1,2) assms(2) timer(3)] by simp
next
  case (watch env tag err stack input)
  then show ?thesis using fire_watch_keeps [OF watch(1,2) assms(2) watch(3)] by simp
qed

lemma cl_reachable_inv: "cl_reachable w \<Longrightarrow> loop_inv {} w"
proof (induction rule: cl_reachable.induct)
  case (new type ifindex mem name up mac c srcs g)
  then show ?case using foreign_neither [OF new(4)] by (auto simp: loop_inv_def src_inv_def)
next
  case (step w w')
  then show ?case using cl_step_inv by blast
qed

section \<open>A concrete client\<close>

definition cex_env :: cl_env where
  "cex_env = \<lparr>ce_rand = (\<lambda>s k. s + of_nat k), ce_usec = 17, ce_new_id = (\<lambda>used. Suc (fold max used 0)),
     ce_sys = \<lparr>sys_socket = 5, sys_bind = 0, sys_sendto = 576, sys_errno = 0\<rparr>, ce_bindtodevice = 0,
     ce_channel = True, ce_mem = True, ce_inet_addr = (\<lambda>_. 0x0237a8c0), ce_hash_order = [],
     ce_callback = (\<lambda>ev w. ret_d w)\<rparr>"

definition cex_client :: GDHCPClient where
  "cex_client = projr (g_dhcp_client_new G_DHCP_IPV4 3 True (Some ''eth0'') True (Some [2, 0, 0, 0, 0, 1]))"

definition cex_world :: cl_world where
  "cex_world = \<lparr>w_client = cex_client, w_sources = [], w_busy = [], w_rng = (1, 0), w_out = []\<rparr>"

lemma fold_max_ge: "a \<le> fold max xs (a :: nat) \<and> (\<forall>x \<in> set xs. x \<le> fold max xs a)"
proof (induction xs arbitrary: a)
  case (Cons x xs)
  from Cons.IH [of "max x a"] show ?case by auto
qed simp

lemma cex_env_ok [simp]: "ids_fresh cex_env" "callbacks_ok cex_env"
proof -
  show "ids_fresh cex_env" using fold_max_ge [of 0] by (fastforce simp: ids_fresh_def cex_env_def)
  show "callbacks_ok cex_env" by (auto simp: callbacks_ok_def cex_env_def intro: user_calls.none)
qed

lemma cex_reachable: "cl_reachable cex_world"
  unfolding cex_world_def cex_client_def
  by (rule cl_reachable.new [where type = G_DHCP_IPV4 and ifindex = 3 and mem = True and name = "Some ''eth0''"
      and up = True and mac = "Some [2, 0, 0, 0, 0, 1]"])
    (simp_all add: g_dhcp_client_new_def)

end
