(* ===== verification/Client_Packets.thy ===== *)
theory Client_Packets
  imports Client_Protocol
begin

text \<open>
  What the client puts on the wire and what it reads from it: the packets it sends as sequences of
  options, and the strings it makes of received options.
\<close>

section \<open>What the client sends\<close>

definition host_item :: "opt_item \<Rightarrow> bool" where
  "host_item x \<longleftrightarrow> (\<exists>d. x = Opt DHCP_HOST_NAME d \<and> length d < 256)"

text \<open>
  The configuration the interface functions build: a hardware address of six bytes, a list of
  at most 255 requested codes, and options to send that are host names of the wire format.
\<close>

definition client_ok :: "GDHCPClient \<Rightarrow> bool" where
  "client_ok c \<longleftrightarrow> length (cl_mac_address c) = 6 \<and> length (cl_request_list c) \<le> 255 \<and>
     (\<forall>k v. cl_send_value_hash c k = Some v \<longrightarrow> (\<exists>x. host_item x \<and> v = item_bytes x))"

definition param_items :: "GDHCPClient \<Rightarrow> opt_item list" where
  "param_items c = (if cl_request_list c = [] then [] else [Opt DHCP_PARAM_REQ (cl_request_list c)])"

text \<open>
  A request of the client of the given type, with the given options before the common ones; all
  of them fit into the part of the option field that is sent.
\<close>

definition client_request :: "GDHCPClient \<Rightarrow> u8 \<Rightarrow> opt_item list \<Rightarrow> dhcp_packet \<Rightarrow> bool" where
  "client_request c t os p \<longleftrightarrow> wf_packet p \<and> pkt_cookie p = htonl DHCP_MAGIC \<and> pkt_hlen p = 6 \<and>
     pkt_op p = BOOTREQUEST \<and> pkt_chaddr p = cl_mac_address c @ replicate 10 0 \<and>
     (\<exists>hs. list_all host_item hs \<and> opts_rep (pkt_options p) (Opt DHCP_MESSAGE_TYPE [t] # os @ param_items c @ hs) \<and>
        length (items_bytes (Opt DHCP_MESSAGE_TYPE [t] # os @ param_items c @ hs)) < DHCP_OPTIONS_BUFSIZE)"

lemma client_init_packet_rep:
  assumes "client_ok c" and "t \<notin> {DHCPOFFER, DHCPACK, DHCPNAK}"
  shows "\<exists>p. client_init_packet c t = Inr p \<and> wf_packet p \<and> pkt_cookie p = htonl DHCP_MAGIC \<and> pkt_hlen p = 6 \<and>
    pkt_op p = BOOTREQUEST \<and> pkt_chaddr p = cl_mac_address c @ replicate 10 0 \<and>
    opts_rep (pkt_options p) [Opt DHCP_MESSAGE_TYPE [t]]"
proof -
  obtain h where h: "dhcp_init_header t = Inr h" "wf_packet h" "opts_rep (pkt_options h) [Opt DHCP_MESSAGE_TYPE [t]]"
    "pkt_cookie h = htonl DHCP_MAGIC" "pkt_hlen h = 6" "pkt_op h = BOOTREQUEST" "pkt_chaddr h = replicate 16 0"
    using init_header_rep [of t] assms(2) by auto
  have "poke 0 (cl_mac_address c) (replicate 16 0) = cl_mac_address c @ replicate 10 0"
    using assms(1) by (simp add: poke_def client_ok_def)
  then show ?thesis using h assms(1) by (simp add: client_init_packet_def wf_packet_def client_ok_def)
qed

lemma add_request_options_rep:
  assumes "opts_rep (pkt_options p) os" and len: "length (pkt_options p) = 388" and "client_ok c"
    and "length (items_bytes os) < 100"
  shows "\<exists>xs. add_request_options c p = Inr (p\<lparr>pkt_options := xs\<rparr>) \<and> opts_rep xs (os @ param_items c) \<and> length xs = 388"
proof (cases "cl_request_list c = []")
  case True
  then show ?thesis
    using assms by (auto simp: add_request_options_def end_option_rep param_items_def intro!: exI [of _ "pkt_options p"])
next
  case False
  obtain rest where xs: "pkt_options p = items_bytes os @ DHCP_END # rest" and ok: "list_all item_ok os"
    using assms(1) by (rule opts_repD)
  let ?l = "cl_request_list c"
  let ?new = "[DHCP_PARAM_REQ, of_nat (length ?l)] @ ?l @ [DHCP_END]"
  have l: "length ?l < 256" "length (items_bytes os) + 2 + length ?l < 388" using assms(3,4) by (auto simp: client_ok_def)
  have "poke (length (items_bytes os)) ?new (pkt_options p) =
      items_bytes (os @ param_items c) @ DHCP_END # drop (length (items_bytes os) + length ?new) (pkt_options p)"
    using False by (simp add: poke_def xs param_items_def)
  moreover have "list_all item_ok (os @ param_items c)"
    using ok l(1) by (simp add: param_items_def dhcp_codes)
  ultimately have "opts_rep (poke (length (items_bytes os)) ?new (pkt_options p)) (os @ param_items c)"
    using opts_repI by metis
  moreover have "length (poke (length (items_bytes os)) ?new (pkt_options p)) = 388"
    using l len by (simp add: length_poke)
  ultimately show ?thesis
    using False l len assms(1)
    by (intro exI [of _ "poke (length (items_bytes os)) ?new (pkt_options p)"])
      (simp add: add_request_options_def end_option_rep Let_def)
qed

lemma add_send_list_rep:
  assumes "opts_rep (pkt_options p) os" and "length (pkt_options p) = 388"
    and "\<forall>k v. hash k = Some v \<longrightarrow> (\<exists>x. host_item x \<and> v = item_bytes x)"
    and "length (items_bytes os) < DHCP_OPTIONS_BUFSIZE"
  shows "\<exists>xs hs. add_send_list hash ks p = Inr (p\<lparr>pkt_options := xs\<rparr>) \<and> list_all host_item hs \<and>
    opts_rep xs (os @ hs) \<and> length xs = 388 \<and> length (items_bytes (os @ hs)) < DHCP_OPTIONS_BUFSIZE"
  using assms
proof (induction ks arbitrary: p os)
  case Nil
  then show ?case by (intro exI [of _ "pkt_options p"], intro exI [of _ "[]"]) simp
next
  case (Cons k ks)
  show ?case
  proof (cases "hash k")
    case None
    then show ?thesis using Cons by simp
  next
    case (Some v)
    then obtain d where d: "length d < 256" "v = DHCP_HOST_NAME # of_nat (length d) # d"
      using Cons.prems(3) by (force simp: host_item_def)
    have ok: "item_ok (Opt DHCP_HOST_NAME d)" using d(1) by (simp add: dhcp_codes)
    have "\<exists>ys os'. dhcp_add_binary_option p v = Inr (p\<lparr>pkt_options := ys\<rparr>) \<and> opts_rep ys (os @ os') \<and>
        list_all host_item os' \<and> length ys = 388 \<and> length (items_bytes (os @ os')) < DHCP_OPTIONS_BUFSIZE"
    proof (cases "length (items_bytes os) + length d + 3 < DHCP_OPTIONS_BUFSIZE")
      case True
      from add_binary_option_rep [OF Cons.prems(1,2) ok True, of "[]"] d True show ?thesis
        by (auto simp: host_item_def intro!: exI [of _ "[Opt DHCP_HOST_NAME d]"])
    next
      case False
      then have "dhcp_add_binary_option p v = Inr p"
        using add_binary_option_full [OF Cons.prems(1) d(1), of DHCP_HOST_NAME "[]"] d(2) by simp
      then show ?thesis using Cons.prems(1,2,4) by (intro exI [of _ "pkt_options p"], intro exI [of _ "[]"]) simp
    qed
    then obtain ys os' where ys: "dhcp_add_binary_option p v = Inr (p\<lparr>pkt_options := ys\<rparr>)" "opts_rep ys (os @ os')"
        "list_all host_item os'" "length ys = 388" "length (items_bytes (os @ os')) < DHCP_OPTIONS_BUFSIZE" by blast
    from Cons.IH [of "p\<lparr>pkt_options := ys\<rparr>" "os @ os'"] ys Cons.prems(3)
    obtain xs hs where "add_send_list hash ks (p\<lparr>pkt_options := ys\<rparr>) = Inr (p\<lparr>pkt_options := xs\<rparr>)" "list_all host_item hs"
        "opts_rep xs ((os @ os') @ hs)" "length xs = 388" "length (items_bytes ((os @ os') @ hs)) < DHCP_OPTIONS_BUFSIZE" by auto
    then show ?thesis using Some ys(1,3) by (auto intro!: exI [of _ xs] exI [of _ "os' @ hs"])
  qed
qed

text \<open>The common tail of every request: the parameter list and the options to send.\<close>

lemma finish_request:
  assumes c: "client_ok c" and rep: "opts_rep (pkt_options p) (Opt DHCP_MESSAGE_TYPE [t] # os)"
    and small: "length (items_bytes os) < 40"
    and p: "wf_packet p" "pkt_cookie p = htonl DHCP_MAGIC" "pkt_hlen p = 6" "pkt_op p = BOOTREQUEST"
      "pkt_chaddr p = cl_mac_address c @ replicate 10 0"
  shows "\<exists>q xs. bind_r (add_request_options c p) (add_send_options env c) = Inr q \<and> client_request c t os q \<and>
    q = p\<lparr>pkt_options := xs\<rparr>"
proof -
  have len: "length (pkt_options p) = 388" using p(1) by (simp add: wf_packet_def)
  have fit: "length (items_bytes (Opt DHCP_MESSAGE_TYPE [t] # os @ param_items c)) < DHCP_OPTIONS_BUFSIZE"
    using small c by (simp add: param_items_def client_ok_def DHCP_OPTIONS_BUFSIZE_def)
  obtain xs where xs: "add_request_options c p = Inr (p\<lparr>pkt_options := xs\<rparr>)"
      "opts_rep xs (Opt DHCP_MESSAGE_TYPE [t] # os @ param_items c)" "length xs = 388"
    using add_request_options_rep [OF rep len c] small by auto
  obtain ys hs where "add_send_list (cl_send_value_hash c) (ce_hash_order env) (p\<lparr>pkt_options := xs\<rparr>) = Inr (p\<lparr>pkt_options := ys\<rparr>)"
      "list_all host_item hs" "opts_rep ys (Opt DHCP_MESSAGE_TYPE [t] # os @ param_items c @ hs)" "length ys = 388"
      "length (items_bytes (Opt DHCP_MESSAGE_TYPE [t] # os @ param_items c @ hs)) < DHCP_OPTIONS_BUFSIZE"
    using add_send_list_rep [of "p\<lparr>pkt_options := xs\<rparr>" "Opt DHCP_MESSAGE_TYPE [t] # os @ param_items c"
      "cl_send_value_hash c" "ce_hash_order env"] xs(2,3) c fit
    by (auto simp: client_ok_def)
  then show ?thesis using xs(1) p
    by (auto simp: add_send_options_def client_request_def wf_packet_def intro!: exI [of _ ys])
qed

lemma request_item_lengths:
  "simple_data DHCP_REQUESTED_IP v = bytes32 v" "simple_data DHCP_SERVER_ID v = bytes32 v"
  "length (simple_data DHCP_MAX_SIZE v) = 2"
  "known_code DHCP_REQUESTED_IP" "known_code DHCP_SERVER_ID" "known_code DHCP_MAX_SIZE"
  by (simp_all add: simple_data_def dhcp_get_code_type_def client_options_def dhcp_codes bytes32_def known_code_def)

definition discover_items :: "u32 \<Rightarrow> opt_item list" where
  "discover_items requested =
     (if requested \<noteq> 0 then [Opt DHCP_REQUESTED_IP (bytes32 requested)] else []) @
     [Opt DHCP_MAX_SIZE (simple_data DHCP_MAX_SIZE (ucast (htons 576)))]"

lemma send_discover_total:
  assumes "client_ok (w_client w)"
  shows "\<exists>p. send_discover env requested w = Inr (emit (broadcast (w_client w) p) w) \<and>
    client_request (w_client w) DHCPDISCOVER (discover_items requested) p \<and> pkt_xid p = cl_xid (w_client w)"
proof -
  let ?c = "w_client w"
  obtain p0 where p0: "client_init_packet ?c DHCPDISCOVER = Inr p0" "wf_packet p0" "pkt_cookie p0 = htonl DHCP_MAGIC"
      "pkt_hlen p0 = 6" "pkt_op p0 = BOOTREQUEST" "pkt_chaddr p0 = cl_mac_address ?c @ replicate 10 0"
      "opts_rep (pkt_options p0) [Opt DHCP_MESSAGE_TYPE [DHCPDISCOVER]]"
    using client_init_packet_rep [OF assms, of DHCPDISCOVER] by (auto simp: dhcp_types)
  let ?p1 = "p0\<lparr>pkt_xid := cl_xid ?c\<rparr>"
  let ?r = "if requested \<noteq> 0 then [Opt DHCP_REQUESTED_IP (bytes32 requested)] else []"
  have len: "length (pkt_options ?p1) = 388" using p0(2) by (simp add: wf_packet_def)
  have r: "length (items_bytes ?r) < 300" by simp
  obtain xs where xs: "(if requested \<noteq> 0 then dhcp_add_simple_option ?p1 DHCP_REQUESTED_IP requested else Inr ?p1) =
      Inr (?p1\<lparr>pkt_options := xs\<rparr>)" "opts_rep xs (Opt DHCP_MESSAGE_TYPE [DHCPDISCOVER] # ?r)" "length xs = 388"
  proof (cases "requested = 0")
    case True
    then show thesis using that [of "pkt_options ?p1"] p0(7) len by simp
  next
    case False
    then show thesis
      using add_simple_option_rep [of ?p1 "[Opt DHCP_MESSAGE_TYPE [DHCPDISCOVER]]" DHCP_REQUESTED_IP requested] p0(7) len that
      by (auto simp: request_item_lengths DHCP_OPTIONS_BUFSIZE_def)
  qed
  obtain ys where ys: "dhcp_add_simple_option (?p1\<lparr>pkt_options := xs\<rparr>) DHCP_MAX_SIZE (ucast (htons 576)) = Inr (?p1\<lparr>pkt_options := ys\<rparr>)"
      "opts_rep ys (Opt DHCP_MESSAGE_TYPE [DHCPDISCOVER] # discover_items requested)" "length ys = 388"
    using add_simple_option_rep [of "?p1\<lparr>pkt_options := xs\<rparr>" "Opt DHCP_MESSAGE_TYPE [DHCPDISCOVER] # ?r" DHCP_MAX_SIZE "ucast (htons 576)"] xs r
    by (auto simp: request_item_lengths DHCP_OPTIONS_BUFSIZE_def discover_items_def)
  have "length (items_bytes (discover_items requested)) < 40" by (simp add: discover_items_def request_item_lengths)
  from finish_request [OF assms, of "?p1\<lparr>pkt_options := ys\<rparr>" DHCPDISCOVER "discover_items requested" env] this ys p0
  obtain q zs where "bind_r (add_request_options ?c (?p1\<lparr>pkt_options := ys\<rparr>)) (add_send_options env ?c) = Inr q"
      "client_request ?c DHCPDISCOVER (discover_items requested) q" "q = ?p1\<lparr>pkt_options := zs\<rparr>"
    by (auto simp: wf_packet_def)
  then show ?thesis
    using p0(1) xs(1) ys(1) by (auto simp: send_discover_def Let_def bind_r_eq_Inr)
qed


definition select_items :: "GDHCPClient \<Rightarrow> opt_item list" where
  "select_items c = [Opt DHCP_REQUESTED_IP (bytes32 (cl_requested_ip c)), Opt DHCP_SERVER_ID (bytes32 (cl_server_ip c))]"

lemma send_select_total:
  assumes "client_ok (w_client w)"
  shows "\<exists>p. send_select env w = Inr (emit (broadcast (w_client w) p) w) \<and>
    client_request (w_client w) DHCPREQUEST (select_items (w_client w)) p \<and> pkt_xid p = cl_xid (w_client w)"
proof -
  let ?c = "w_client w"
  obtain p0 where p0: "client_init_packet ?c DHCPREQUEST = Inr p0" "wf_packet p0" "pkt_cookie p0 = htonl DHCP_MAGIC"
      "pkt_hlen p0 = 6" "pkt_op p0 = BOOTREQUEST" "pkt_chaddr p0 = cl_mac_address ?c @ replicate 10 0"
      "opts_rep (pkt_options p0) [Opt DHCP_MESSAGE_TYPE [DHCPREQUEST]]"
    using client_init_packet_rep [OF assms, of DHCPREQUEST] by (auto simp: dhcp_types)
  let ?p1 = "p0\<lparr>pkt_xid := cl_xid ?c\<rparr>"
  have len: "length (pkt_options ?p1) = 388" using p0(2) by (simp add: wf_packet_def)
  obtain xs where xs: "dhcp_add_simple_option ?p1 DHCP_REQUESTED_IP (cl_requested_ip ?c) = Inr (?p1\<lparr>pkt_options := xs\<rparr>)"
      "opts_rep xs [Opt DHCP_MESSAGE_TYPE [DHCPREQUEST], Opt DHCP_REQUESTED_IP (bytes32 (cl_requested_ip ?c))]" "length xs = 388"
    using add_simple_option_rep [of ?p1 "[Opt DHCP_MESSAGE_TYPE [DHCPREQUEST]]" DHCP_REQUESTED_IP "cl_requested_ip ?c"] p0(7) len
    by (auto simp: request_item_lengths DHCP_OPTIONS_BUFSIZE_def)
  obtain ys where ys: "dhcp_add_simple_option (?p1\<lparr>pkt_options := xs\<rparr>) DHCP_SERVER_ID (cl_server_ip ?c) = Inr (?p1\<lparr>pkt_options := ys\<rparr>)"
      "opts_rep ys (Opt DHCP_MESSAGE_TYPE [DHCPREQUEST] # select_items ?c)" "length ys = 388"
    using add_simple_option_rep [of "?p1\<lparr>pkt_options := xs\<rparr>" _ DHCP_SERVER_ID "cl_server_ip ?c", simplified, OF xs(2)] xs(3)
    by (auto simp: request_item_lengths DHCP_OPTIONS_BUFSIZE_def select_items_def)
  have "length (items_bytes (select_items ?c)) < 40" by (simp add: select_items_def)
  from finish_request [OF assms, of "?p1\<lparr>pkt_options := ys\<rparr>" DHCPREQUEST "select_items ?c" env] this ys p0
  obtain q zs where "bind_r (add_request_options ?c (?p1\<lparr>pkt_options := ys\<rparr>)) (add_send_options env ?c) = Inr q"
      "client_request ?c DHCPREQUEST (select_items ?c) q" "q = ?p1\<lparr>pkt_options := zs\<rparr>"
    by (auto simp: wf_packet_def)
  then show ?thesis
    using p0(1) xs(1) ys(1) by (auto simp: send_select_def Let_def bind_r_eq_Inr)
qed

lemma renew_packet_total:
  assumes "client_ok c"
  shows "\<exists>p. renew_packet env c = Inr p \<and> client_request c DHCPREQUEST [] p \<and>
    pkt_xid p = cl_xid c \<and> pkt_ciaddr p = cl_requested_ip c"
proof -
  obtain p0 where p0: "client_init_packet c DHCPREQUEST = Inr p0" "wf_packet p0" "pkt_cookie p0 = htonl DHCP_MAGIC"
      "pkt_hlen p0 = 6" "pkt_op p0 = BOOTREQUEST" "pkt_chaddr p0 = cl_mac_address c @ replicate 10 0"
      "opts_rep (pkt_options p0) [Opt DHCP_MESSAGE_TYPE [DHCPREQUEST]]"
    using client_init_packet_rep [OF assms, of DHCPREQUEST] by (auto simp: dhcp_types)
  let ?p1 = "p0\<lparr>pkt_xid := cl_xid c, pkt_ciaddr := cl_requested_ip c\<rparr>"
  from finish_request [OF assms, of ?p1 DHCPREQUEST "[]" env] p0
  obtain q zs where "bind_r (add_request_options c ?p1) (add_send_options env c) = Inr q"
      "client_request c DHCPREQUEST [] q" "q = ?p1\<lparr>pkt_options := zs\<rparr>"
    by (auto simp: wf_packet_def)
  then show ?thesis using p0(1) by (auto simp: renew_packet_def)
qed

lemma send_release_total:
  assumes "client_ok (w_client w)"
  shows "\<exists>p g. send_release env server ci w = Inr (emit (CSendKernel p ci CLIENT_PORT server SERVER_PORT) (w\<lparr>w_rng := g\<rparr>)) \<and>
    pkt_ciaddr p = ci \<and> opts_rep (pkt_options p) [Opt DHCP_MESSAGE_TYPE [DHCPRELEASE], Opt DHCP_SERVER_ID (bytes32 server)]"
proof -
  obtain p0 where p0: "client_init_packet (w_client w) DHCPRELEASE = Inr p0" "wf_packet p0"
      "opts_rep (pkt_options p0) [Opt DHCP_MESSAGE_TYPE [DHCPRELEASE]]"
    using client_init_packet_rep [OF assms, of DHCPRELEASE] by (auto simp: dhcp_types)
  obtain x g where rnd: "rand (ce_rand env) (w_rng w) = (x, g)" by (rule prod.exhaust)
  let ?p1 = "p0\<lparr>pkt_xid := x, pkt_ciaddr := ci\<rparr>"
  obtain xs where "dhcp_add_simple_option ?p1 DHCP_SERVER_ID server = Inr (?p1\<lparr>pkt_options := xs\<rparr>)"
      "opts_rep xs [Opt DHCP_MESSAGE_TYPE [DHCPRELEASE], Opt DHCP_SERVER_ID (bytes32 server)]"
    using add_simple_option_rep [of ?p1 "[Opt DHCP_MESSAGE_TYPE [DHCPRELEASE]]" DHCP_SERVER_ID server] p0(2,3)
    by (auto simp: request_item_lengths DHCP_OPTIONS_BUFSIZE_def wf_packet_def)
  then show ?thesis using p0(1) rnd
    by (auto simp: send_release_def simp del: split_paired_Ex intro!: exI [of _ "?p1\<lparr>pkt_options := xs\<rparr>"] exI [of _ g])
qed

text \<open>The options a receiver reads from a request of the client.\<close>

lemma find_item_hosts: "list_all host_item hs \<Longrightarrow> code \<noteq> DHCP_HOST_NAME \<Longrightarrow> find_item code i hs = None"
  by (induction hs arbitrary: i) (auto simp: host_item_def)

lemma client_request_option:
  assumes "client_request c t os p" and "\<not> list_ex is_overload os"
    and "code \<noteq> DHCP_HOST_NAME" and "code \<noteq> DHCP_PARAM_REQ"
  shows "dhcp_get_option p code = ret_d (map_option (\<lambda>(k, d). (OptionsField, k)) (find_item code 0 (Opt DHCP_MESSAGE_TYPE [t] # os)))"
    and "find_item code 0 (Opt DHCP_MESSAGE_TYPE [t] # os) = Some (k, d) \<Longrightarrow>
      k + length d \<le> 388 \<and> take (length d) (drop k (pkt_options p)) = d"
proof -
  obtain hs where hs: "list_all host_item hs" and rep: "opts_rep (pkt_options p) (Opt DHCP_MESSAGE_TYPE [t] # os @ param_items c @ hs)"
    and wf: "wf_packet p" using assms(1) by (auto simp: client_request_def)
  let ?os = "Opt DHCP_MESSAGE_TYPE [t] # os @ param_items c @ hs"
  have "\<not> list_ex is_overload hs" using hs by (induction hs) (auto simp: host_item_def dhcp_codes)
  then have ov: "\<not> list_ex is_overload ?os" using assms(2) by (auto simp: param_items_def dhcp_codes)
  have "find_item code n (param_items c @ hs) = None" for n
    using find_item_hosts [OF hs assms(3)] assms(4) by (auto simp: param_items_def)
  then have f: "find_item code 0 ?os = find_item code 0 (Opt DHCP_MESSAGE_TYPE [t] # os)"
    by (auto simp: find_item_append split: option.split)
  show "dhcp_get_option p code = ret_d (map_option (\<lambda>(k, d). (OptionsField, k)) (find_item code 0 (Opt DHCP_MESSAGE_TYPE [t] # os)))"
    using get_option_rep [OF wf rep ov] by (simp only: f)
  assume "find_item code 0 (Opt DHCP_MESSAGE_TYPE [t] # os) = Some (k, d)"
  then have "find_item code 0 ?os = Some (k, d)" using f by simp
  from find_item_in_options [OF rep this] wf show "k + length d \<le> 388 \<and> take (length d) (drop k (pkt_options p)) = d"
    by (simp add: wf_packet_def)
qed


section \<open>Option values as strings\<close>

lemma length_show_nat: "n < 10 ^ Suc k \<Longrightarrow> length (show_nat n) \<le> Suc k"
proof (induction k arbitrary: n)
  case 0
  then show ?case by (simp add: show_nat.simps [of n])
next
  case (Suc k)
  then have "n div 10 < 10 ^ Suc k" by (simp add: less_mult_imp_div_less)
  from Suc.IH [OF this] show ?case by (simp add: show_nat.simps [of n])
qed

lemma length_show_u8: "length (show_nat (unat (b :: u8))) \<le> 3"
  using length_show_nat [of "unat b" 2] unsigned_less [of b, where 'a = nat] by simp

lemma length_sprint_nip: "length (sprint_nip v) \<le> 15"
  using length_show_u8 [of "v ! 0"] length_show_u8 [of "v ! 1"] length_show_u8 [of "v ! 2"] length_show_u8 [of "v ! 3"]
  by (simp add: sprint_nip_def)

lemma put_value_fits:
  assumes "dhcp_option_lengths type \<le> length option" and "type \<noteq> OPTION_STRING"
    and "length (ob_text b) + len_of_option_as_string type \<le> ob_size b"
  shows "\<exists>b'. put_value type option b = Inr b' \<and> ob_size b' = ob_size b \<and>
    length (ob_text b') + 2 \<le> length (ob_text b) + len_of_option_as_string type \<or>
    put_value type option b = Inr b \<and> dhcp_option_lengths type = 0"
proof (cases type)
  case OPTION_IP
  then show ?thesis using assms length_sprint_nip [of "take 4 option"]
    by (auto simp: put_value_def buf_put_def)
next
  case OPTION_U16
  have "length (show_nat (unat (w :: u16))) \<le> 5" for w using length_show_nat [of "unat w" 4] unsigned_less [of w, where 'a = nat] by simp
  from this [of "ntohs (of_bytes16 (take 2 option))"] show ?thesis using assms OPTION_U16
    by (auto simp: put_value_def buf_put_def)
next
  case OPTION_U32
  have "length (show_nat (unat (w :: u32))) \<le> 10" for w using length_show_nat [of "unat w" 9] unsigned_less [of w, where 'a = nat] by simp
  from this [of "ntohl (of_bytes32 (take 4 option))"] show ?thesis using assms OPTION_U32
    by (auto simp: put_value_def buf_put_def)
qed (use assms in \<open>auto simp: put_value_def\<close>)

lemma option_value_loop_fits:
  assumes "len \<le> length option"
    and "length (ob_text b) + len_of_option_as_string type * (len div dhcp_option_lengths type) < ob_size b"
  shows "\<exists>b'. option_value_loop type option len b = Inr b'"
  using assms
proof (induction type option len b rule: option_value_loop.induct)
  case (1 type option len b)
  let ?n = "dhcp_option_lengths type" and ?W = "len_of_option_as_string type"
  show ?case
  proof (cases "len < ?n \<or> ?n = 0 \<or> type = OPTION_STRING")
    case True
    then show ?thesis using 1(2,3)
      by (auto simp: option_value_loop.simps [of type option len b] Let_def buf_put_def)
  next
    case False
    then have n: "0 < ?n" "?n \<le> len" "type \<noteq> OPTION_STRING" by auto
    then have div: "len div ?n = Suc ((len - ?n) div ?n)" by (simp add: le_div_geq)
    obtain b1 where b1: "put_value type option b = Inr b1" "ob_size b1 = ob_size b"
      "length (ob_text b1) + 2 \<le> length (ob_text b) + ?W"
      using put_value_fits [of type option b] 1(2,3) n by (auto simp: div)
    show ?thesis
    proof (cases "len - ?n \<le> 0")
      case True
      then have "option_value_loop type option len b = Inr b1"
        using n b1(1) by (subst option_value_loop.simps) (simp add: Let_def)
      then show ?thesis by blast
    next
      case more: False
      let ?b2 = "b1\<lparr>ob_text := ob_text b1 @ '' '', ob_terminated := True\<rparr>"
      have "length (ob_text ?b2) + ?W * ((len - ?n) div ?n) < ob_size ?b2"
        using b1 1(3) by (simp add: div)
      moreover have put: "buf_put '' '' b1 = Inr ?b2" using b1 1(3) by (simp add: buf_put_def div)
      ultimately have "\<exists>b'. option_value_loop type (drop ?n option) (len - ?n) ?b2 = Inr b'"
        using 1(1) [OF refl _ _ _ _, of ?b2] False more 1(2) by simp
      then show ?thesis using False more b1(1) put
        by (simp add: option_value_loop.simps [of type option len b] Let_def)
    qed
  qed
qed


fun join_spaces :: "string list \<Rightarrow> string" where
  "join_spaces [] = []"
| "join_spaces [x] = x"
| "join_spaces (x # xs) = x @ '' '' @ join_spaces xs"

lemma show_nat_digits: "set (show_nat n) \<subseteq> char_of ` {48..57::nat}"
proof (induction n rule: show_nat.induct)
  case (1 n)
  have "48 + n mod 10 \<in> {48..57}" by simp
  then show ?case using 1 by (cases "n < 10") (auto simp: show_nat.simps [of n])
qed

lemma get_ip_chars: "c \<in> set (get_ip ip) \<Longrightarrow> c \<noteq> CHR '' '' \<and> c \<noteq> CHR 0x00"
proof -
  assume c: "c \<in> set (get_ip ip)"
  have "of_char c \<in> {48..57::nat}" if "c \<in> set (show_nat n)" for n c
    using show_nat_digits [of n] that by (auto simp: of_char_mod_256 dest!: subsetD)
  from this [of "CHR '' ''"] this [of "CHR 0x00"]
  have no: "CHR '' '' \<notin> set (show_nat n)" "CHR 0x00 \<notin> set (show_nat n)" for n by auto
  then show ?thesis using c by (auto simp: get_ip_def sprint_nip_def)
qed

lemma split_spaces_word:
  "CHR '' '' \<notin> set x \<Longrightarrow> split_spaces acc (x @ '' '' @ y) = (rev acc @ x) # split_spaces [] y"
  "CHR '' '' \<notin> set x \<Longrightarrow> split_spaces acc x = [rev acc @ x]"
  by (induction x arbitrary: acc) auto

lemma split_join_spaces:
  "xs \<noteq> [] \<Longrightarrow> \<forall>x \<in> set xs. CHR '' '' \<notin> set x \<Longrightarrow> split_spaces [] (join_spaces xs) = xs"
  by (induction xs rule: join_spaces.induct) (simp_all add: split_spaces_word [where acc = "[]", simplified])

lemma option_value_loop_ips:
  assumes "ips \<noteq> []" and "length (ob_text b) + 17 * length ips < ob_size b"
  shows "\<exists>b'. option_value_loop OPTION_IP (concat (map bytes32 ips) @ rest) (4 * length ips) b = Inr b' \<and>
    ob_text b' = ob_text b @ join_spaces (map get_ip ips) \<and> ob_terminated b'"
  using assms
proof (induction ips arbitrary: b rule: induct_list012)
  case (2 ip)
  then show ?case using length_sprint_nip [of "bytes32 ip"]
    by (simp add: option_value_loop.simps [of _ _ 4] put_value_def buf_put_def get_ip_def)
next
  case (3 ip ip' ips)
  let ?ips = "ip' # ips"
  let ?b2 = "b\<lparr>ob_text := (ob_text b @ get_ip ip) @ '' '', ob_terminated := True\<rparr>"
  have fit: "length (get_ip ip) \<le> 15" by (simp add: get_ip_def length_sprint_nip)
  have "length (ob_text ?b2) + 17 * length ?ips < ob_size ?b2" using 3(3,4) fit by simp
  from 3(2) [OF _ this] obtain b' where "option_value_loop OPTION_IP (concat (map bytes32 ?ips) @ rest) (4 * length ?ips) ?b2 = Inr b'"
    "ob_text b' = ob_text ?b2 @ join_spaces (map get_ip ?ips)" "ob_terminated b'" by auto
  moreover have "option_value_loop OPTION_IP (concat (map bytes32 (ip # ?ips)) @ rest) (4 * length (ip # ?ips)) b =
      option_value_loop OPTION_IP (concat (map bytes32 ?ips) @ rest) (4 * length ?ips) ?b2"
    using 3(4) fit by (subst option_value_loop.simps) (simp add: put_value_def buf_put_def get_ip_def)
  ultimately show ?case by simp
qed simp

lemma join_chars: "c \<in> set (join_spaces (map get_ip ips)) \<Longrightarrow> c \<noteq> CHR 0x00"
  using get_ip_chars by (induction ips rule: induct_list012) auto

lemma find_item_header:
  "find_item code (length pre) os = Some (k, d) \<Longrightarrow>
     \<exists>u v. pre @ items_bytes os = u @ code # of_nat (length d) # d @ v \<and> length u + 2 = k"
proof (induction os arbitrary: pre)
  case (Cons x os)
  show ?case
  proof (cases x)
    case Pad
    with Cons.prems Cons.IH [of "pre @ [DHCP_PADDING]"] show ?thesis by auto
  next
    case (Opt c e)
    with Cons.prems Cons.IH [of "pre @ c # of_nat (length e) # e"] show ?thesis
      by (cases "c = code") (auto simp: add.assoc)
  qed
qed simp

lemma option_length_byte:
  assumes "opts_rep xs os" and "find_item code 0 os = Some (k, d)"
  shows "0 < k" and "k - 1 < length xs" and "xs ! (k - 1) = of_nat (length d)"
proof -
  obtain rest where "xs = items_bytes os @ DHCP_END # rest" using assms(1) by (rule opts_repD)
  moreover obtain u v where "items_bytes os = u @ code # of_nat (length d) # d @ v" "length u + 2 = k"
    using find_item_header [of code "[]" os k d] assms(2) by auto
  ultimately show "0 < k" and "k - 1 < length xs" and "xs ! (k - 1) = of_nat (length d)"
    by (auto simp: nth_append)
qed

text \<open>
  Round trip of addresses: when the server's option of a code of address type holds the
  addresses \<open>ips\<close> (one to 63 of them), the client stores exactly their dotted notations, in
  order, without a fault.
\<close>

lemma request_value_addresses:
  assumes "wf_packet p" and "opts_rep (pkt_options p) os" and "\<not> list_ex is_overload os"
    and "find_item code 0 os = Some (k, concat (map bytes32 ips))"
    and "fst (dhcp_get_code_type code) = OPTION_IP" and "ips \<noteq> []" and "length ips \<le> 63" and "ce_mem env"
  shows "request_value env p code = ret_d (Some (map get_ip ips))"
proof -
  let ?d = "concat (map bytes32 ips)"
  have len: "length ?d = 4 * length ips" by (induction ips) auto
  have get: "dhcp_get_option p code = ret_d (Some (OptionsField, k))"
    using get_option_rep [OF assms(1-3)] assms(4) by simp
  note data = find_item_in_options [OF assms(2,4)]
  obtain rest where rest: "drop k (pkt_options p) = ?d @ rest" using data(1) by (metis append_take_drop_id)
  have "dhcp_get_u8 p (OptionsField, k - 1) = Inr (of_nat (length ?d))"
    using option_length_byte [OF assms(2,4)] by (simp add: dhcp_get_u8_def)
  moreover have "unat (of_nat (length ?d) :: u8) = 4 * length ips"
    unfolding len using assms(7) by (intro unat_of_nat_u8) simp
  moreover obtain b where "option_value_loop OPTION_IP (?d @ rest) (4 * length ips)
      \<lparr>ob_size = 17 * length ips + 1, ob_text = [], ob_terminated = False\<rparr> = Inr b"
      "ob_text b = join_spaces (map get_ip ips)" "ob_terminated b"
    using option_value_loop_ips [OF assms(6), of "\<lparr>ob_size = 17 * length ips + 1, ob_text = [], ob_terminated = False\<rparr>" rest] by auto
  ultimately have m: "malloc_option_value_string env p (OptionsField, k) (dhcp_get_code_type code) = Inr (Some b)"
    using assms(5,8) rest by (simp add: malloc_option_value_string_def)
  have tw: "takeWhile (\<lambda>c. c \<noteq> CHR 0x00) (join_spaces (map get_ip ips)) = join_spaces (map get_ip ips)"
    using join_chars by (auto simp: takeWhile_eq_all_conv)
  moreover have "c_string b = Inr (join_spaces (map get_ip ips))"
    unfolding c_string_def \<open>ob_text b = _\<close> tw using \<open>ob_terminated b\<close> by simp
  moreover have "split_spaces [] (join_spaces (map get_ip ips)) = map get_ip ips"
    using split_join_spaces [of "map get_ip ips"] assms(6) get_ip_chars by auto
  moreover have "dhcp_get_code_type code \<noteq> (OPTION_STRING, False)" using assms(5) by auto
  ultimately show ?thesis
    using get m by (simp add: request_value_def get_option_value_list_def Let_def)
qed


lemma request_value_addresses_witness:
  "request_value cex_env (zero_packet\<lparr>pkt_options := [0x35, 1, 5, 6, 8, 8, 8, 8, 8, 1, 1, 1, 1, 0xff] @ replicate 374 0\<rparr>)
     DHCP_DNS_SERVER = ret_d (Some [''8.8.8.8'', ''1.1.1.1''])"
proof -
  let ?p = "zero_packet\<lparr>pkt_options := [0x35, 1, 5, 6, 8, 8, 8, 8, 8, 1, 1, 1, 1, 0xff] @ replicate 374 0\<rparr>"
  have "request_value cex_env ?p DHCP_DNS_SERVER = ret_d (Some (map get_ip [0x08080808, 0x01010101]))"
    by (rule request_value_addresses [where os = "[Opt 0x35 [5], Opt 6 [8, 8, 8, 8, 1, 1, 1, 1]]" and k = 5])
      (simp_all add: wf_packet_def zero_packet_def opts_rep_def dhcp_codes bytes32_def dhcp_get_code_type_def
        client_options_def cex_env_def)
  moreover have "char_of (56 :: nat) = CHR ''8''" "char_of (49 :: nat) = CHR ''1''" by code_simp+
  ultimately show ?thesis by (simp add: get_ip_def sprint_nip_def bytes32_def show_nat.simps)
qed

text \<open>
  Rendering an option never writes or reads out of bounds: whatever option of a received
  packet the search returns, and whatever its type, \<open>malloc_option_value_string\<close> stays inside
  the buffer it allocated and inside the option.
\<close>

lemma option_string_in_bounds:
  assumes "wf_packet p" and "dhcp_get_option p code = ret_d (Some ptr)"
  shows "\<exists>b. malloc_option_value_string env p ptr type = Inr b"
proof -
  obtain a k where ptr: "ptr = (a, k)" by (rule prod.exhaust)
  have g: "good_ptr p code ptr"
    using get_option_loop_in_bounds [of p code OptionsField 0] assms
    by (auto simp: dhcp_get_option_def wf_packet_def DHCP_OPTIONS_BUFSIZE_def EXTEND_FOR_BUGGY_SERVERS_def)
  let ?len = "unat (area_bytes p a ! (k - 1))" and ?t = "fst type"
  have "dhcp_get_u8 p (a, k - 1) = Inr (area_bytes p a ! (k - 1))" and "?len \<le> length (drop k (area_bytes p a))"
    using g by (auto simp: ptr dhcp_get_u8_def)
  moreover from this(2) obtain b where "option_value_loop ?t (drop k (area_bytes p a)) ?len
      \<lparr>ob_size = len_of_option_as_string ?t * (?len div dhcp_option_lengths ?t) + 1, ob_text = [], ob_terminated = False\<rparr> = Inr b"
    using option_value_loop_fits by fastforce
  ultimately show ?thesis by (simp add: malloc_option_value_string_def ptr Let_def)
qed

lemma option_string_in_bounds_witness:
  "\<exists>b. malloc_option_value_string cex_env (zero_packet\<lparr>pkt_options := [0x0c, 3, 97, 98, 99, 0xff] @ replicate 382 0\<rparr>)
     (OptionsField, 2) (OPTION_STRING, False) = Inr b"
  by (rule option_string_in_bounds [where code = DHCP_HOST_NAME])
    (simp_all add: wf_packet_def zero_packet_def dhcp_get_option_def get_option_loop.simps rd_def
       dhcp_codes DHCP_OPTIONS_BUFSIZE_def EXTEND_FOR_BUGGY_SERVERS_def)

text \<open>
  An address option with fewer than four data bytes (or none) is a fault: no byte is
  written to the allocated buffer, and the client reads it as a string.
\<close>

lemma short_address_uninitialised:
  assumes "wf_packet p" and "opts_rep (pkt_options p) os" and "\<not> list_ex is_overload os"
    and "find_item code 0 os = Some (k, d)" and "length d < 4"
    and "fst (dhcp_get_code_type code) = OPTION_IP" and "ce_mem env"
  shows "request_value env p code = Some (Inl Uninitialised)"
proof -
  have get: "dhcp_get_option p code = ret_d (Some (OptionsField, k))"
    using get_option_rep [OF assms(1-3)] assms(4) by simp
  have l: "unat (of_nat (length d) :: u8) = length d" using assms(5) by (intro unat_of_nat_u8) simp
  have "dhcp_get_u8 p (OptionsField, k - 1) = Inr (of_nat (length d))"
    using option_length_byte [OF assms(2,4)] by (simp add: dhcp_get_u8_def)
  then have "malloc_option_value_string env p (OptionsField, k) (dhcp_get_code_type code) =
      Inr (Some \<lparr>ob_size = 1, ob_text = [], ob_terminated = False\<rparr>)"
    using assms(5-7) l by (simp add: malloc_option_value_string_def option_value_loop.simps)
  then show ?thesis using get by (simp add: request_value_def get_option_value_list_def c_string_def)
qed

lemma short_address_uninitialised_witness:
  "request_value cex_env (zero_packet\<lparr>pkt_options := [3, 2, 10, 0, 0xff] @ replicate 383 0\<rparr>) DHCP_ROUTER = Some (Inl Uninitialised)"
  by (rule short_address_uninitialised [where os = "[Opt 3 [10, 0]]" and k = 2 and d = "[10, 0]"])
    (simp_all add: wf_packet_def zero_packet_def opts_rep_def dhcp_codes dhcp_get_code_type_def client_options_def cex_env_def)

text \<open>
  The lease time the client works with is between ten seconds and 2^28 - 1 seconds,
  whatever the server sends, and an hour when the server sends none.
\<close>

lemma client_get_lease_bounds:
  assumes "client_get_lease p = ret_d l"
  shows "10 \<le> l \<and> l \<le> 0x0fffffff \<and> (dhcp_get_option p DHCP_LEASE_TIME = ret_d None \<longrightarrow> l = 3600)"
proof -
  have "x AND 0x0fffffff \<le> 0x0fffffff" for x :: u32 by (rule word_and_le1)
  then show ?thesis using assms
    by (auto simp: client_get_lease_def bind_d_eq_ret Let_def not_less split: option.splits if_splits)
qed

lemma client_get_lease_bounds_witness:
  "\<exists>l. client_get_lease (zero_packet\<lparr>pkt_options := [0x33, 4, 0, 0, 0, 1, 0xff] @ replicate 381 0\<rparr>) = ret_d l \<and>
     10 \<le> l \<and> l \<le> 0x0fffffff"
proof -
  have "client_get_lease (zero_packet\<lparr>pkt_options := [0x33, 4, 0, 0, 0, 1, 0xff] @ replicate 381 0\<rparr>) = ret_d 10"
    by (simp add: client_get_lease_def zero_packet_def dhcp_get_option_def get_option_loop.simps rd_def dhcp_get_unaligned_def
       dhcp_codes DHCP_OPTIONS_BUFSIZE_def EXTEND_FOR_BUGGY_SERVERS_def of_bytes32_def htonl_def bytes32_def)
  then show ?thesis using client_get_lease_bounds by blast
qed

end
