(* ===== verification/Client_Lease.thy ===== *)
theory Client_Lease
  imports Client_Packets
begin

text \<open>
  The life of a lease in the client: starting, requesting, binding, renewing, rebinding and losing
  a lease, restarting, and the faults on those paths.
\<close>

section \<open>Frames of the primitive operations\<close>

lemma unwatched_client [simp]:
  "cl_state (w_client (unwatched w)) = cl_state (w_client w)"
  "cl_lease_seconds (w_client (unwatched w)) = cl_lease_seconds (w_client w)"
  "cl_retry_times (w_client (unwatched w)) = cl_retry_times (w_client w)"
  "cl_ack_retry_times (w_client (unwatched w)) = cl_ack_retry_times (w_client w)"
  "cl_last_address (w_client (unwatched w)) = cl_last_address (w_client w)"
  "cl_xid (w_client (unwatched w)) = cl_xid (w_client w)"
  "cl_requested_ip (w_client (unwatched w)) = cl_requested_ip (w_client w)"
  "cl_server_ip (w_client (unwatched w)) = cl_server_ip (w_client w)"
  "cl_assigned_ip (w_client (unwatched w)) = cl_assigned_ip (w_client w)"
  "cl_lease_lost_cb (w_client (unwatched w)) = cl_lease_lost_cb (w_client w)"
  "cl_lease_available_cb (w_client (unwatched w)) = cl_lease_available_cb (w_client w)"
  "cl_mac_address (w_client (unwatched w)) = cl_mac_address (w_client w)"
  "cl_ifindex (w_client (unwatched w)) = cl_ifindex (w_client w)"
  "cl_request_list (w_client (unwatched w)) = cl_request_list (w_client w)"
  "cl_send_value_hash (w_client (unwatched w)) = cl_send_value_hash (w_client w)"
  "cl_code_value_hash (w_client (unwatched w)) = cl_code_value_hash (w_client w)"
  "client_ok (w_client (unwatched w)) = client_ok (w_client w)"
  by (simp_all add: unwatched_def stop_listening_def client_ok_def)

lemma watching_client [simp]:
  "cl_state (w_client (watching env m fd w)) = cl_state (w_client w)"
  "cl_lease_seconds (w_client (watching env m fd w)) = cl_lease_seconds (w_client w)"
  "cl_retry_times (w_client (watching env m fd w)) = cl_retry_times (w_client w)"
  "cl_ack_retry_times (w_client (watching env m fd w)) = cl_ack_retry_times (w_client w)"
  "cl_last_address (w_client (watching env m fd w)) = cl_last_address (w_client w)"
  "cl_xid (w_client (watching env m fd w)) = cl_xid (w_client w)"
  "cl_requested_ip (w_client (watching env m fd w)) = cl_requested_ip (w_client w)"
  "cl_server_ip (w_client (watching env m fd w)) = cl_server_ip (w_client w)"
  "cl_assigned_ip (w_client (watching env m fd w)) = cl_assigned_ip (w_client w)"
  "cl_lease_lost_cb (w_client (watching env m fd w)) = cl_lease_lost_cb (w_client w)"
  "cl_lease_available_cb (w_client (watching env m fd w)) = cl_lease_available_cb (w_client w)"
  "cl_mac_address (w_client (watching env m fd w)) = cl_mac_address (w_client w)"
  "cl_ifindex (w_client (watching env m fd w)) = cl_ifindex (w_client w)"
  "cl_request_list (w_client (watching env m fd w)) = cl_request_list (w_client w)"
  "cl_send_value_hash (w_client (watching env m fd w)) = cl_send_value_hash (w_client w)"
  "cl_code_value_hash (w_client (watching env m fd w)) = cl_code_value_hash (w_client w)"
  "client_ok (w_client (watching env m fd w)) = client_ok (w_client w)"
  by (simp_all add: watching_def client_ok_def)

lemma switch_client [simp]:
  "cl_state (w_client (snd (switch_listening_mode env m w))) = cl_state (w_client w)"
  "cl_lease_seconds (w_client (snd (switch_listening_mode env m w))) = cl_lease_seconds (w_client w)"
  "cl_retry_times (w_client (snd (switch_listening_mode env m w))) = cl_retry_times (w_client w)"
  "cl_ack_retry_times (w_client (snd (switch_listening_mode env m w))) = cl_ack_retry_times (w_client w)"
  "cl_last_address (w_client (snd (switch_listening_mode env m w))) = cl_last_address (w_client w)"
  "cl_xid (w_client (snd (switch_listening_mode env m w))) = cl_xid (w_client w)"
  "cl_requested_ip (w_client (snd (switch_listening_mode env m w))) = cl_requested_ip (w_client w)"
  "cl_server_ip (w_client (snd (switch_listening_mode env m w))) = cl_server_ip (w_client w)"
  "cl_assigned_ip (w_client (snd (switch_listening_mode env m w))) = cl_assigned_ip (w_client w)"
  "cl_lease_lost_cb (w_client (snd (switch_listening_mode env m w))) = cl_lease_lost_cb (w_client w)"
  "cl_lease_available_cb (w_client (snd (switch_listening_mode env m w))) = cl_lease_available_cb (w_client w)"
  "cl_mac_address (w_client (snd (switch_listening_mode env m w))) = cl_mac_address (w_client w)"
  "cl_ifindex (w_client (snd (switch_listening_mode env m w))) = cl_ifindex (w_client w)"
  "cl_request_list (w_client (snd (switch_listening_mode env m w))) = cl_request_list (w_client w)"
  "cl_send_value_hash (w_client (snd (switch_listening_mode env m w))) = cl_send_value_hash (w_client w)"
  "cl_code_value_hash (w_client (snd (switch_listening_mode env m w))) = cl_code_value_hash (w_client w)"
  "client_ok (w_client (snd (switch_listening_mode env m w))) = client_ok (w_client w)"
  using switch_listening_mode_cases [of env m w] by (elim UnE insertE emptyE CollectE exE conjE; simp)+

lemma client_ok_frame [simp]:
  "client_ok (c\<lparr>cl_state := a\<rparr>) = client_ok c" "client_ok (c\<lparr>cl_lease_seconds := b\<rparr>) = client_ok c"
  "client_ok (c\<lparr>cl_timeout := d\<rparr>) = client_ok c" "client_ok (c\<lparr>cl_retry_times := e\<rparr>) = client_ok c"
  "client_ok (c\<lparr>cl_requested_ip := f\<rparr>) = client_ok c" "client_ok (c\<lparr>cl_assigned_ip := g\<rparr>) = client_ok c"
  "client_ok (c\<lparr>cl_xid := h\<rparr>) = client_ok c" "client_ok (c\<lparr>cl_server_ip := i\<rparr>) = client_ok c"
  "client_ok (c\<lparr>cl_last_address := j\<rparr>) = client_ok c" "client_ok (c\<lparr>cl_ack_retry_times := k\<rparr>) = client_ok c"
  "client_ok (c\<lparr>cl_listen_mode := m\<rparr>) = client_ok c" "client_ok (c\<lparr>cl_listener_sockfd := n\<rparr>) = client_ok c"
  "client_ok (c\<lparr>cl_listener_channel := q\<rparr>) = client_ok c" "client_ok (c\<lparr>cl_listener_watch := r\<rparr>) = client_ok c"
  "client_ok (c\<lparr>cl_code_value_hash := t\<rparr>) = client_ok c"
  by (simp_all add: client_ok_def)

lemma client_request_timeout [simp]: "client_request (c\<lparr>cl_timeout := t\<rparr>) ty os p = client_request c ty os p"
proof -
  have "cl_mac_address (c\<lparr>cl_timeout := t\<rparr>) = cl_mac_address c" "param_items (c\<lparr>cl_timeout := t\<rparr>) = param_items c"
    by (simp_all add: param_items_def)
  then show ?thesis by (simp only: client_request_def)
qed

lemma out_grows [simp]:
  "set (w_out w) \<subseteq> set (w_out (g_source_remove t w))"
  "set (w_out w) \<subseteq> set (w_out (remove_timeout w))" "set (w_out w) \<subseteq> set (w_out (clear_timeout w))"
  "w_out (start_timer env fn ms w) = w_out w"
  by (auto simp: g_source_remove_def remove_timeout_def clear_timeout_def start_timer_def)

lemma switch_out_grows [simp]: "set (w_out w) \<subseteq> set (w_out (snd (switch_listening_mode env m w)))"
  using switch_listening_mode_cases [of env m w]
  by (auto simp: watching_def unwatched_def stop_listening_def g_source_remove_def split: if_splits)

text \<open>The timer the client remembers is live.\<close>

definition timer_live :: "cl_world \<Rightarrow> timer_fn \<Rightarrow> nat \<Rightarrow> bool" where
  "timer_live w fn ms \<longleftrightarrow> map_of (w_sources w) (cl_timeout (w_client w)) = Some (Timer fn ms)"

lemma map_of_filter_other: "k \<noteq> t \<Longrightarrow> map_of (filter (\<lambda>s. fst s \<noteq> t) xs) k = map_of xs k"
  by (induction xs) auto

lemma fire_timer_next:
  assumes "ids_fresh env" and "timer_live w fn ms" and "tag = cl_timeout (w_client w)"
    and run: "run_timer env fn (w\<lparr>w_busy := [tag]\<rparr>) = ret_d (start_timer env fn' ms' v)" and "w_busy v = [tag]"
  shows "\<exists>w'. fire_timer env tag w = ret_d w' \<and> timer_live w' fn' ms' \<and> w_out w' = w_out v \<and>
    w_client w' = (w_client v)\<lparr>cl_timeout := new_source_id env v\<rparr>"
proof -
  have "new_source_id env v \<noteq> tag" using new_source_id_fresh [OF assms(1), of v] assms(5) by auto
  then show ?thesis using assms(2,3) run
    by (auto simp: fire_timer_def timer_live_def destroy_source_def map_of_filter_other start_timer_def)
qed

section \<open>A lease that is not renewed\<close>

text \<open>Registered functions that return without touching the client.\<close>

definition quiet :: "cl_env \<Rightarrow> bool" where
  "quiet env \<longleftrightarrow> (\<forall>ev w. ce_callback env ev w = ret_d w)"

text \<open>Time passes until the client's timer fires, again and again; nothing is received.\<close>

inductive passes :: "cl_env \<Rightarrow> cl_world \<Rightarrow> nat \<Rightarrow> cl_world \<Rightarrow> bool" for env where
  none: "passes env w 0 w"
| fire: "timer_live w fn ms \<Longrightarrow> fire_timer env (cl_timeout (w_client w)) w = ret_d w1 \<Longrightarrow>
    passes env w1 t w' \<Longrightarrow> passes env w (ms + t) w'"

definition lease_is_lost :: "cl_world \<Rightarrow> cl_world \<Rightarrow> bool" where
  "lease_is_lost w w' \<longleftrightarrow> cl_state (w_client w') = INIT_SELECTING \<and> cl_assigned_ip (w_client w') = None \<and>
     (cl_lease_lost_cb (w_client w) \<longrightarrow> CCallback G_DHCP_CLIENT_EVENT_LEASE_LOST \<in> set (w_out w'))"

lemma start_again_total:
  assumes "client_ok (w_client w)" and "cl_retry_times (w_client w) = 0" and "cl_last_address (w_client w) = None"
  shows "\<exists>re w'. g_dhcp_client_start env OwnLastAddress w = ret_d (re, w') \<and> cl_state (w_client w') = INIT_SELECTING \<and>
    cl_assigned_ip (w_client w') = None \<and> set (w_out w) \<subseteq> set (w_out w')"
proof -
  let ?u = "cl_upd (\<lambda>c. c\<lparr>cl_assigned_ip := None, cl_state := INIT_SELECTING\<rparr>) w"
  obtain re w1 where sw: "switch_listening_mode env L2 ?u = (re, w1)" by (rule prod.exhaust)
  have w1: "cl_state (w_client w1) = INIT_SELECTING" "cl_assigned_ip (w_client w1) = None" "client_ok (w_client w1)"
      "cl_last_address (w_client w1) = None" "set (w_out w) \<subseteq> set (w_out w1)"
    using switch_client [of env L2 ?u] switch_out_grows [of ?u env L2] assms unfolding sw by simp_all
  obtain x g where rnd: "rand (ce_rand env) (w_rng w1) = (x, g)" by (rule prod.exhaust)
  let ?w2 = "cl_upd (\<lambda>c. c\<lparr>cl_xid := x\<rparr>) (w1\<lparr>w_rng := g\<rparr>)"
  obtain p where "send_discover env 0 ?w2 = Inr (emit (broadcast (w_client ?w2) p) ?w2)"
    using send_discover_total [of ?w2 env 0] w1(3) by auto
  then show ?thesis using assms(2) w1 sw rnd
    by (auto simp: g_dhcp_client_start_def start_address_def DISCOVER_RETRIES_def)
qed

lemma restart_total:
  assumes "client_ok (w_client w)" and "cl_last_address (w_client w) = None"
  shows "\<exists>w'. restart_dhcp env 0 w = ret_d w' \<and> cl_state (w_client w') = INIT_SELECTING \<and>
    cl_assigned_ip (w_client w') = None \<and> set (w_out w) \<subseteq> set (w_out w')"
proof -
  define w1 where "w1 = cl_upd (\<lambda>c. c\<lparr>cl_retry_times := 0, cl_requested_ip := 0\<rparr>) (clear_timeout w)"
  define w2 where "w2 = snd (switch_listening_mode env L2 w1)"
  have out: "set (w_out w) \<subseteq> set (w_out w2)"
  proof (rule order_trans [OF out_grows(3)])
    have "set (w_out w1) \<subseteq> set (w_out w2)" unfolding w2_def by (rule switch_out_grows)
    then show "set (w_out (clear_timeout w)) \<subseteq> set (w_out w2)" by (simp add: w1_def)
  qed
  have "client_ok (w_client w2)" "cl_retry_times (w_client w2) = 0" "cl_last_address (w_client w2) = None"
    using assms by (simp_all add: w2_def w1_def)
  then obtain re w' where w': "g_dhcp_client_start env OwnLastAddress w2 = ret_d (re, w')"
      "cl_state (w_client w') = INIT_SELECTING" "cl_assigned_ip (w_client w') = None" "set (w_out w2) \<subseteq> set (w_out w')"
    using start_again_total [of w2 env] by blast
  have "restart_dhcp env 0 w = ret_d w'"
    using w'(1) unfolding restart_dhcp_def Let_def w1_def [symmetric] w2_def [symmetric] by simp
  then show ?thesis using out w' by blast
qed

lemma halve_lease_client [simp]:
  "w_client (halve_lease w) = (w_client w)\<lparr>cl_lease_seconds := drop_bit 1 (cl_lease_seconds (w_client w))\<rparr>"
  "w_out (halve_lease w) = w_out w"
  by (simp_all add: halve_lease_def)

lemma unat_half [simp]: "unat (drop_bit (Suc 0) (x :: u32)) = unat x div 2"
  by (simp add: drop_bit_Suc unat_div)

lemma rebind_runs_out:
  assumes "ids_fresh env" and "quiet env" and "client_ok (w_client w)" and "cl_last_address (w_client w) = None"
    and "timer_live w Start_rebound_timeout (half_lease_ms (w_client w))"
  shows "\<exists>t w'. passes env w t w' \<and> t \<le> 1000 * unat (cl_lease_seconds (w_client w)) \<and> lease_is_lost w w'"
  using assms(3-5)
proof (induction "unat (cl_lease_seconds (w_client w))" arbitrary: w rule: less_induct)
  case less
  let ?tag = "cl_timeout (w_client w)" and ?l = "unat (cl_lease_seconds (w_client w))"
  let ?b = "w\<lparr>w_busy := [?tag]\<rparr>"
  define w1 where "w1 = halve_lease (snd (switch_listening_mode env L2 ?b))"
  have w1: "client_ok (w_client w1)" "cl_last_address (w_client w1) = None" "w_busy w1 = [?tag]"
      "cl_lease_seconds (w_client w1) = drop_bit 1 (cl_lease_seconds (w_client w))"
      "cl_lease_lost_cb (w_client w1) = cl_lease_lost_cb (w_client w)"
    using less.prems by (simp_all add: w1_def)
  show ?case
  proof (cases "cl_lease_seconds (w_client w1) \<le> 6")
    case True
    define w2 where "w2 = (if cl_lease_lost_cb (w_client w1) then emit (CCallback G_DHCP_CLIENT_EVENT_LEASE_LOST) w1 else w1)"
    have w2: "client_ok (w_client w2)" "cl_last_address (w_client w2) = None" using w1 by (simp_all add: w2_def)
    obtain w3 where w3: "restart_dhcp env 0 w2 = ret_d w3" "cl_state (w_client w3) = INIT_SELECTING"
        "cl_assigned_ip (w_client w3) = None" "set (w_out w2) \<subseteq> set (w_out w3)"
      using restart_total [OF w2] by blast
    have "call_cb env cl_lease_lost_cb G_DHCP_CLIENT_EVENT_LEASE_LOST w1 = ret_d w2"
      using assms(2) by (simp add: call_cb_def quiet_def w2_def)
    then have "run_timer env Start_rebound_timeout ?b = ret_d w3"
      using True w3(1) unfolding run_timer.simps start_rebound_timeout_def Let_def w1_def [symmetric] by simp
    then have fire: "fire_timer env ?tag w = ret_d ((destroy_source ?tag w3)\<lparr>w_busy := []\<rparr>)" (is "_ = ret_d ?e")
      using less.prems(3) by (simp add: fire_timer_def timer_live_def)
    have "lease_is_lost w ?e" using w3 w1(5) by (auto simp: lease_is_lost_def destroy_source_def w2_def split: if_splits)
    moreover have "passes env w (half_lease_ms (w_client w) + 0) ?e"
      using passes.fire [OF less.prems(3) fire passes.none] .
    moreover have "half_lease_ms (w_client w) + 0 \<le> 1000 * ?l" by (simp add: half_lease_ms_def)
    ultimately show ?thesis by blast
  next
    case False
    obtain p where p: "send_rebound env w1 = Inr (emit (broadcast (w_client w1) p) w1)" (is "_ = Inr ?w2")
      using renew_packet_total [OF w1(1), of env] by (auto simp: send_rebound_def Let_def)
    have "run_timer env Start_rebound_timeout ?b = ret_d (start_timer env Start_rebound_timeout (half_lease_ms (w_client ?w2)) ?w2)"
      using False p unfolding run_timer.simps start_rebound_timeout_def Let_def w1_def [symmetric] by simp
    from fire_timer_next [OF assms(1) less.prems(3) refl this] w1(3)
    obtain w3 where fire: "fire_timer env ?tag w = ret_d w3" and w3: "timer_live w3 Start_rebound_timeout (half_lease_ms (w_client w1))"
        "w_client w3 = (w_client w1)\<lparr>cl_timeout := new_source_id env ?w2\<rparr>" by auto
    have l: "unat (cl_lease_seconds (w_client w3)) = ?l div 2" using w3(2) w1(4) by simp
    have "6 < ?l div 2" using False w1(4) by (simp add: not_le word_less_nat_alt)
    then have "unat (cl_lease_seconds (w_client w3)) < ?l" using l by linarith
    from less.hyps [OF this] w3 w1
    obtain t w' where "passes env w3 t w'" "t \<le> 1000 * (?l div 2)" "lease_is_lost w3 w'"
      by (auto simp: l half_lease_ms_def)
    moreover have "passes env w (half_lease_ms (w_client w) + t) w'"
      using passes.fire [OF less.prems(3) fire] calculation(1) .
    moreover have "lease_is_lost w w'" using calculation(3) w3(2) w1(5) by (simp add: lease_is_lost_def)
    moreover have "half_lease_ms (w_client w) + t \<le> 1000 * ?l"
      using calculation(2) by (simp add: half_lease_ms_def)
    ultimately show ?thesis by blast
  qed
qed


lemma renew_runs_out:
  assumes "ids_fresh env" and "quiet env" and "client_ok (w_client w)" and "cl_last_address (w_client w) = None"
    and "timer_live w Start_renew_timeout (half_lease_ms (w_client w))"
  shows "\<exists>t w'. passes env w t w' \<and> t \<le> 1000 * unat (cl_lease_seconds (w_client w)) \<and> lease_is_lost w w'"
  using assms(3-5)
proof (induction "unat (cl_lease_seconds (w_client w))" arbitrary: w rule: less_induct)
  case less
  let ?tag = "cl_timeout (w_client w)" and ?l = "unat (cl_lease_seconds (w_client w))"
  let ?b = "w\<lparr>w_busy := [?tag]\<rparr>"
  define w1 where "w1 = snd (switch_listening_mode env L3 (halve_lease (cl_upd (\<lambda>c. c\<lparr>cl_state := RENEWING\<rparr>) ?b)))"
  have w1: "client_ok (w_client w1)" "cl_last_address (w_client w1) = None" "w_busy w1 = [?tag]"
      "cl_lease_seconds (w_client w1) = drop_bit 1 (cl_lease_seconds (w_client w))"
      "cl_lease_lost_cb (w_client w1) = cl_lease_lost_cb (w_client w)"
    using less.prems by (simp_all add: w1_def)
  text \<open>Whatever timer is started, the rest of the lease runs out within half the time.\<close>
  have rest: ?case
    if run: "run_timer env Start_renew_timeout ?b = ret_d (start_timer env fn (half_lease_ms (w_client v)) v)"
      and v: "w_busy v = [?tag]" "client_ok (w_client v)" "cl_last_address (w_client v) = None"
        "cl_lease_seconds (w_client v) = drop_bit 1 (cl_lease_seconds (w_client w))"
        "cl_lease_lost_cb (w_client v) = cl_lease_lost_cb (w_client w)"
      and go: "\<And>u. client_ok (w_client u) \<Longrightarrow> cl_last_address (w_client u) = None \<Longrightarrow>
        cl_lease_seconds (w_client u) = drop_bit 1 (cl_lease_seconds (w_client w)) \<Longrightarrow>
        timer_live u fn (half_lease_ms (w_client u)) \<Longrightarrow>
        \<exists>t w'. passes env u t w' \<and> t \<le> 1000 * unat (cl_lease_seconds (w_client u)) \<and> lease_is_lost u w'"
    for fn v
  proof -
    from fire_timer_next [OF assms(1) less.prems(3) refl run v(1)]
    obtain w3 where fire: "fire_timer env ?tag w = ret_d w3" and w3: "timer_live w3 fn (half_lease_ms (w_client v))"
        "w_client w3 = (w_client v)\<lparr>cl_timeout := new_source_id env v\<rparr>" by auto
    obtain t w' where t: "passes env w3 t w'" "t \<le> 1000 * unat (cl_lease_seconds (w_client w3))" "lease_is_lost w3 w'"
      using go [of w3] w3 v by (auto simp: half_lease_ms_def)
    have "passes env w (half_lease_ms (w_client w) + t) w'" using passes.fire [OF less.prems(3) fire t(1)] .
    moreover have "lease_is_lost w w'" using t(3) w3(2) v(5) by (simp add: lease_is_lost_def)
    moreover have "half_lease_ms (w_client w) + t \<le> 1000 * ?l"
      using t(2) w3(2) v(4) by (simp add: half_lease_ms_def)
    ultimately show ?thesis by blast
  qed
  show ?case
  proof (cases "cl_lease_seconds (w_client w1) \<le> 60")
    case True
    let ?v = "cl_upd (\<lambda>c. c\<lparr>cl_state := REBINDING\<rparr>) w1"
    have "start_rebound env w1 = start_timer env Start_rebound_timeout (half_lease_ms (w_client ?v)) ?v"
      by (simp add: start_rebound_def half_lease_ms_def)
    then have run: "run_timer env Start_renew_timeout ?b =
        ret_d (start_timer env Start_rebound_timeout (half_lease_ms (w_client ?v)) ?v)"
      using True unfolding run_timer.simps start_renew_timeout_def Let_def w1_def [symmetric] by simp
    show ?thesis
    proof (rule rest [OF run])
      show "\<exists>t w'. passes env u t w' \<and> t \<le> 1000 * unat (cl_lease_seconds (w_client u)) \<and> lease_is_lost u w'"
        if "client_ok (w_client u)" "cl_last_address (w_client u) = None"
          "timer_live u Start_rebound_timeout (half_lease_ms (w_client u))" for u
        by (rule rebind_runs_out [OF assms(1,2) that])
    qed (use w1 in simp_all)
  next
    case False
    obtain p where p: "send_renew env w1 = Inr (emit p w1)"
      using renew_packet_total [OF w1(1), of env] by (auto simp: send_renew_def Let_def)
    let ?v = "remove_timeout (emit p w1)"
    have run: "run_timer env Start_renew_timeout ?b = ret_d (start_timer env Start_renew_timeout (half_lease_ms (w_client ?v)) ?v)"
      using False p unfolding run_timer.simps start_renew_timeout_def Let_def w1_def [symmetric] by simp
    have "60 < ?l div 2" using False w1(4) by (simp add: not_le word_less_nat_alt)
    then have dec: "?l div 2 < ?l" by linarith
    show ?thesis
    proof (rule rest [OF run])
      show "\<exists>t w'. passes env u t w' \<and> t \<le> 1000 * unat (cl_lease_seconds (w_client u)) \<and> lease_is_lost u w'"
        if "client_ok (w_client u)" "cl_last_address (w_client u) = None"
          "cl_lease_seconds (w_client u) = drop_bit 1 (cl_lease_seconds (w_client w))"
          "timer_live u Start_renew_timeout (half_lease_ms (w_client u))" for u
        using less.hyps [of u] that dec by simp
    qed (use w1 in simp_all)
  qed
qed

text \<open>
  C27. A lease is not kept beyond its time: when a client that has just been bound (its renew
  timer runs, with half the lease time), that was started without a last address, whose callbacks
  do not call back into it, and whose requests can be built (a hardware address of six bytes, at most 255 requested
  options, and a host name at most to send) hears nothing from any server, its timers alone lead
  it through renewing and rebinding to the loss of the lease, which it reports, and back to
  selecting, within the lease time. With a last address the restart at the end uses freed memory, as is shown below.
\<close>

theorem unanswered_lease_is_lost:
  assumes "ids_fresh env" and "quiet env" and "client_ok (w_client w)" and "cl_last_address (w_client w) = None"
  shows "\<exists>t w'. passes env (start_bound env w) t w' \<and> t \<le> 1000 * unat (cl_lease_seconds (w_client w)) \<and>
    cl_state (w_client w') = INIT_SELECTING \<and> cl_assigned_ip (w_client w') = None \<and>
    (cl_lease_lost_cb (w_client w) \<longrightarrow> CCallback G_DHCP_CLIENT_EVENT_LEASE_LOST \<in> set (w_out w'))"
proof -
  let ?b = "start_bound env w"
  have "timer_live ?b Start_renew_timeout (half_lease_ms (w_client ?b))"
    by (simp add: start_bound_def Let_def timer_live_def start_timer_def half_lease_ms_def)
  moreover have "client_ok (w_client ?b)" "cl_last_address (w_client ?b) = None"
      "cl_lease_seconds (w_client ?b) = cl_lease_seconds (w_client w)" "cl_lease_lost_cb (w_client ?b) = cl_lease_lost_cb (w_client w)"
    using assms(3,4) by (simp_all add: start_bound_def Let_def)
  ultimately show ?thesis using renew_runs_out [OF assms(1,2), of ?b] by (simp add: lease_is_lost_def)
qed


lemma cex_facts [simp]:
  "client_ok cex_client" "cl_last_address cex_client = None" "cl_retry_times cex_client = 0"
  "cl_listen_mode cex_client = L_NONE" "cl_ack_retry_times cex_client = 0" "quiet cex_env"
  by (simp_all add: cex_client_def g_dhcp_client_new_def client_ok_def quiet_def cex_env_def)

theorem unanswered_lease_is_lost_witness:
  "\<exists>t w'. passes cex_env (start_bound cex_env (cl_upd (\<lambda>c. c\<lparr>cl_lease_seconds := 3600\<rparr>) cex_world)) t w' \<and>
    t \<le> 3600000 \<and> cl_state (w_client w') = INIT_SELECTING \<and> cl_assigned_ip (w_client w') = None"
  using unanswered_lease_is_lost [of cex_env "cl_upd (\<lambda>c. c\<lparr>cl_lease_seconds := 3600\<rparr>) cex_world"]
  by (auto simp: cex_world_def)

section \<open>Restarting\<close>

text \<open>
  Restarting after the loss of a lease or a refused request uses freed memory whenever the
  client was once started with a valid last address: \<open>restart_dhcp\<close> hands the client's own
  string to \<open>g_dhcp_client_start\<close>, which frees it before it copies it.
\<close>

lemma restart_use_after_free:
  assumes "cl_last_address (w_client w) = Some s" and "ce_inet_addr env s \<noteq> 0xFFFFFFFF"
    and "n \<noteq> 0" and "n \<noteq> DISCOVER_RETRIES"
  shows "restart_dhcp env n w = Some (Inl UseAfterFree)"
  using assms by (simp add: restart_dhcp_def Let_def g_dhcp_client_start_def start_address_def)

lemma restart_use_after_free_witness:
  "restart_dhcp cex_env 1 (cl_upd (\<lambda>c. c\<lparr>cl_last_address := Some ''192.168.55.2''\<rparr>) cex_world) = Some (Inl UseAfterFree)"
  by (rule restart_use_after_free [where s = "''192.168.55.2''"])
    (simp_all add: cex_world_def cex_env_def DISCOVER_RETRIES_def)

text \<open>
  A refused request is not retried properly: three seconds after a \<open>DHCPNAK\<close> the client
  broadcasts a discover, but it stays in the state in which it was refused, so that every
  offer that answers the discover is ignored.
\<close>

lemma offers_ignored_after_nak:
  assumes "client_ok (w_client w)" and "cl_last_address (w_client w) = None" and "ids_fresh env"
    and "cl_state (w_client w) \<in> {REQUESTING, RENEWING, REBINDING}" and "cl_ack_retry_times (w_client w) = 0"
  shows "\<exists>w1 w2 p. handle_reply env nak DHCPNAK w = ret_d w1 \<and> timer_live w1 Restart_dhcp_timeout 3000 \<and>
    run_timer env Restart_dhcp_timeout w1 = ret_d w2 \<and> broadcast (w_client w2) p \<in> set (w_out w2) \<and>
    client_request (w_client w2) DHCPDISCOVER (discover_items 0) p \<and>
    cl_state (w_client w2) = cl_state (w_client w) \<and>
    (\<forall>offer. handle_reply env offer DHCPOFFER w2 = ret_d w2)"
proof -
  let ?w1 = "receive_nak env w"
  have nak: "handle_reply env nak DHCPNAK w = ret_d ?w1"
    using assms(4) by (auto simp: handle_reply_def Let_def dhcp_types)
  define v where "v = snd (switch_listening_mode env L2 (cl_upd (\<lambda>c. c\<lparr>cl_retry_times := 1, cl_requested_ip := 0\<rparr>)
    (clear_timeout (cl_upd (\<lambda>c. c\<lparr>cl_ack_retry_times := cl_ack_retry_times c + 1\<rparr>) ?w1))))"
  have v: "client_ok (w_client v)" "cl_last_address (w_client v) = None" "cl_retry_times (w_client v) = 1"
      "cl_state (w_client v) = cl_state (w_client w)"
    using assms(1,2) by (simp_all add: v_def receive_nak_def)
  obtain p where p: "send_discover env 0 v = Inr (emit (broadcast (w_client v) p) v)"
      "client_request (w_client v) DHCPDISCOVER (discover_items 0) p"
    using send_discover_total [OF v(1)] by blast
  let ?w2 = "start_timer env Discover_timeout (DISCOVER_TIMEOUT * 1000) (emit (broadcast (w_client v) p) v)"
  have "g_dhcp_client_start env OwnLastAddress v = ret_d (0, ?w2)"
    using v(2,3) p(1) by (simp add: g_dhcp_client_start_def start_address_def DISCOVER_RETRIES_def)
  then have "run_timer env Restart_dhcp_timeout ?w1 = ret_d ?w2"
    using assms(5) unfolding run_timer.simps restart_dhcp_timeout_def restart_dhcp_def Let_def
    by (simp add: receive_nak_def v_def)
  moreover have "timer_live ?w1 Restart_dhcp_timeout 3000" by (simp add: receive_nak_def timer_live_def start_timer_def)
  moreover have "broadcast (w_client ?w2) p \<in> set (w_out ?w2)" by (simp add: broadcast_def)
  moreover have "client_request (w_client ?w2) DHCPDISCOVER (discover_items 0) p"
    using p(2) by simp
  moreover have "cl_state (w_client ?w2) = cl_state (w_client w)" using v(4) by simp
  moreover from this have "\<forall>offer. handle_reply env offer DHCPOFFER ?w2 = ret_d ?w2"
    using assms(4) by (auto simp: handle_reply_def Let_def dhcp_types)
  ultimately show ?thesis using nak by blast
qed

lemma offers_ignored_after_nak_witness:
  "\<exists>w1 w2 p. handle_reply cex_env zero_packet DHCPNAK (cl_upd (\<lambda>c. c\<lparr>cl_state := REQUESTING\<rparr>) cex_world) = ret_d w1 \<and>
    timer_live w1 Restart_dhcp_timeout 3000 \<and>
    run_timer cex_env Restart_dhcp_timeout w1 = ret_d w2 \<and> broadcast (w_client w2) p \<in> set (w_out w2) \<and>
    client_request (w_client w2) DHCPDISCOVER (discover_items 0) p \<and>
    cl_state (w_client w2) = REQUESTING \<and> (\<forall>offer. handle_reply cex_env offer DHCPOFFER w2 = ret_d w2)"
  using offers_ignored_after_nak [of "cl_upd (\<lambda>c. c\<lparr>cl_state := REQUESTING\<rparr>) cex_world" cex_env zero_packet]
  by (simp add: cex_world_def)

section \<open>Acquiring a lease\<close>

text \<open>The socket calls of the environment succeed.\<close>

definition sockets_ok :: "cl_env \<Rightarrow> bool" where
  "sockets_ok env \<longleftrightarrow> 0 \<le> sys_socket (ce_sys env) \<and> sys_bind (ce_sys env) = 0 \<and> 0 \<le> ce_bindtodevice env \<and> ce_channel env"

definition wanted_address :: "cl_env \<Rightarrow> str_arg \<Rightarrow> u32" where
  "wanted_address env arg = (case arg of CallerStr s \<Rightarrow> if ce_inet_addr env s = 0xFFFFFFFF then 0 else ce_inet_addr env s | _ \<Rightarrow> 0)"

lemma cex_sockets_ok [simp]: "sockets_ok cex_env"
  by (simp add: sockets_ok_def cex_env_def)

lemma switch_from_none:
  assumes "sockets_ok env" and "cl_listen_mode (w_client w) = L_NONE" and "m \<noteq> L_NONE"
  shows "switch_listening_mode env m w = (0, watching env m (sys_socket (ce_sys env)) w)"
  using assms by (cases m) (simp_all add: switch_listening_mode_def sockets_ok_def dhcp_l2_socket_def
    dhcp_l3_socket_def ipv4ll_arp_socket_def watching_def Let_def)

lemma cl_upd_same: "cl_upd (\<lambda>c. c\<lparr>cl_last_address := cl_last_address (w_client w)\<rparr>) w = w"
  by (simp add: cl_upd_def)

lemma start_address_wanted:
  assumes "arg \<noteq> OwnLastAddress"
  shows "\<exists>l. start_address env arg w = Inr (wanted_address env arg, cl_upd (\<lambda>c. c\<lparr>cl_last_address := l\<rparr>) w)"
proof (cases "\<exists>s. arg = CallerStr s \<and> ce_inet_addr env s \<noteq> 0xFFFFFFFF")
  case True
  then obtain s where "arg = CallerStr s" "ce_inet_addr env s \<noteq> 0xFFFFFFFF" by blast
  then show ?thesis by (intro exI [of _ "Some s"]) (simp add: start_address_def wanted_address_def)
next
  case False
  then have "start_address env arg w = Inr (wanted_address env arg, w)"
    using assms by (cases arg) (simp_all add: start_address_def wanted_address_def)
  then show ?thesis by (intro exI [of _ "cl_last_address (w_client w)"]) (simp add: cl_upd_same)
qed

text \<open>What the exchange of packets does not change in a client.\<close>

definition same_setup :: "GDHCPClient \<Rightarrow> GDHCPClient \<Rightarrow> bool" where
  "same_setup c d \<longleftrightarrow> cl_mac_address d = cl_mac_address c \<and> cl_request_list d = cl_request_list c \<and>
     cl_send_value_hash d = cl_send_value_hash c"

lemma same_setup_timeout [simp]: "same_setup c (d\<lparr>cl_timeout := t\<rparr>) = same_setup c d"
  by (simp add: same_setup_def)

lemma same_setup_ok: "client_ok c \<Longrightarrow> same_setup c d \<Longrightarrow> client_ok d"
  by (simp add: same_setup_def client_ok_def)

lemma start_listens:
  assumes "client_ok (w_client w)" and "cl_retry_times (w_client w) = 0" and "cl_listen_mode (w_client w) = L_NONE"
    and "sockets_ok env" and "ids_fresh env" and "arg \<noteq> OwnLastAddress"
  shows "\<exists>w' p. g_dhcp_client_start env arg w = ret_d (0, w') \<and> cl_state (w_client w') = INIT_SELECTING \<and>
    cl_listen_mode (w_client w') = L2 \<and> w_out w' = w_out w @ [broadcast (w_client w') p] \<and>
    client_request (w_client w') DHCPDISCOVER (discover_items (wanted_address env arg)) p \<and>
    pkt_xid p = cl_xid (w_client w') \<and> timer_live w' Discover_timeout 3000 \<and>
    map_of (w_sources w') (cl_listener_watch (w_client w')) = Some (Watch (sys_socket (ce_sys env))) \<and>
    same_setup (w_client w) (w_client w')"
proof -
  let ?u = "cl_upd (\<lambda>c. c\<lparr>cl_assigned_ip := None, cl_state := INIT_SELECTING\<rparr>) w"
  let ?w1 = "watching env L2 (sys_socket (ce_sys env)) ?u"
  have sw: "switch_listening_mode env L2 ?u = (0, ?w1)" using assms(3,4) by (intro switch_from_none) simp_all
  obtain x g where rnd: "rand (ce_rand env) (w_rng ?w1) = (x, g)" by (rule prod.exhaust)
  let ?w2 = "cl_upd (\<lambda>c. c\<lparr>cl_xid := x\<rparr>) (?w1\<lparr>w_rng := g\<rparr>)"
  obtain l where l: "start_address env arg ?w2 = Inr (wanted_address env arg, cl_upd (\<lambda>c. c\<lparr>cl_last_address := l\<rparr>) ?w2)"
    using start_address_wanted [OF assms(6)] by blast
  define w3 where "w3 = cl_upd (\<lambda>c. c\<lparr>cl_last_address := l\<rparr>) ?w2"
  have w3: "client_ok (w_client w3)" "cl_state (w_client w3) = INIT_SELECTING" "cl_listen_mode (w_client w3) = L2"
      "w_out w3 = w_out w" "map_of (w_sources w3) (cl_listener_watch (w_client w3)) = Some (Watch (sys_socket (ce_sys env)))"
      "same_setup (w_client w) (w_client w3)"
    using assms(1) by (simp_all add: w3_def watching_def same_setup_def)
  obtain p where p: "send_discover env (wanted_address env arg) w3 = Inr (emit (broadcast (w_client w3) p) w3)"
      "client_request (w_client w3) DHCPDISCOVER (discover_items (wanted_address env arg)) p" "pkt_xid p = cl_xid (w_client w3)"
    using send_discover_total [OF w3(1)] by blast
  let ?w' = "start_timer env Discover_timeout (DISCOVER_TIMEOUT * 1000) (emit (broadcast (w_client w3) p) w3)"
  have "g_dhcp_client_start env arg w = ret_d (0, ?w')"
    using assms(2) sw rnd l p(1) by (simp add: g_dhcp_client_start_def DISCOVER_RETRIES_def w3_def)
  moreover have "map_of (w_sources ?w') (cl_listener_watch (w_client ?w')) = Some (Watch (sys_socket (ce_sys env)))"
  proof -
    have "cl_listener_watch (w_client w3) \<in> fst ` set (w_sources w3)"
      using map_of_SomeD [OF w3(5)] by (rule rev_image_eqI) simp
    then have "cl_listener_watch (w_client w3) \<noteq> new_source_id env (emit (broadcast (w_client w3) p) w3)"
      using new_source_id_fresh [OF assms(5), of "emit (broadcast (w_client w3) p) w3"] by (metis emit_simps(2))
    then show ?thesis using w3(5) by (simp add: start_timer_def)
  qed
  moreover have "timer_live ?w' Discover_timeout 3000" by (simp add: timer_live_def start_timer_def DISCOVER_TIMEOUT_def)
  ultimately show ?thesis using w3 p(2,3) by (intro exI [of _ ?w'] exI [of _ p]) (simp add: broadcast_def)
qed

text \<open>
  Starting an idle client whose sockets work: it listens on the packet socket in the
  selecting state, has broadcast exactly one frame, a discover of its transaction with the
  options it was configured for and the address it was asked for, and waits three seconds.
\<close>

lemma client_start_discovers:
  assumes "client_ok (w_client w)" and "cl_retry_times (w_client w) = 0" and "cl_listen_mode (w_client w) = L_NONE"
    and "sockets_ok env" and "ids_fresh env" and "arg \<noteq> OwnLastAddress"
  shows "\<exists>w' p. g_dhcp_client_start env arg w = ret_d (0, w') \<and> cl_state (w_client w') = INIT_SELECTING \<and>
    cl_listen_mode (w_client w') = L2 \<and> w_out w' = w_out w @ [broadcast (w_client w') p] \<and>
    client_request (w_client w') DHCPDISCOVER (discover_items (wanted_address env arg)) p \<and>
    pkt_xid p = cl_xid (w_client w') \<and> timer_live w' Discover_timeout 3000 \<and>
    map_of (w_sources w') (cl_listener_watch (w_client w')) = Some (Watch (sys_socket (ce_sys env)))"
  using start_listens [OF assms] by blast

lemma client_start_discovers_witness:
  "\<exists>w' p. g_dhcp_client_start cex_env (CallerStr ''192.168.55.2'') cex_world = ret_d (0, w') \<and>
    cl_state (w_client w') = INIT_SELECTING \<and>
    cl_listen_mode (w_client w') = L2 \<and> w_out w' = w_out cex_world @ [broadcast (w_client w') p] \<and>
    client_request (w_client w') DHCPDISCOVER (discover_items (wanted_address cex_env (CallerStr ''192.168.55.2''))) p \<and>
    pkt_xid p = cl_xid (w_client w') \<and> timer_live w' Discover_timeout 3000 \<and>
    map_of (w_sources w') (cl_listener_watch (w_client w')) = Some (Watch (sys_socket (ce_sys cex_env)))"
  by (rule client_start_discovers) (simp_all add: cex_world_def)

lemma select_requests:
  assumes "client_ok (w_client w)" and "cl_state (w_client w) = INIT_SELECTING"
    and "dhcp_get_option offer DHCP_SERVER_ID = ret_d (Some ptr)" and "dhcp_get_unaligned offer ptr = Inr server"
  shows "\<exists>w' p. handle_reply env offer DHCPOFFER w = ret_d w' \<and> cl_state (w_client w') = REQUESTING \<and>
    cl_server_ip (w_client w') = server \<and> cl_requested_ip (w_client w') = pkt_yiaddr offer \<and>
    last (w_out w') = broadcast (w_client w') p \<and>
    client_request (w_client w') DHCPREQUEST [Opt DHCP_REQUESTED_IP (bytes32 (pkt_yiaddr offer)), Opt DHCP_SERVER_ID (bytes32 server)] p \<and>
    pkt_xid p = cl_xid (w_client w) \<and> timer_live w' Request_timeout 3000 \<and>
    same_setup (w_client w) (w_client w') \<and> cl_xid (w_client w') = cl_xid (w_client w) \<and>
    (cl_listen_mode (w_client w) = L2 \<longrightarrow> cl_listen_mode (w_client w') = L2)"
proof -
  define u where "u = cl_upd (\<lambda>c. c\<lparr>cl_server_ip := server, cl_requested_ip := pkt_yiaddr offer, cl_state := REQUESTING\<rparr>)
    (cl_upd (\<lambda>c. c\<lparr>cl_timeout := 0, cl_retry_times := 0\<rparr>) (g_source_remove (cl_timeout (w_client w)) w))"
  define v where "v = snd (switch_listening_mode env L2 (cl_upd (\<lambda>c. c\<lparr>cl_state := REQUESTING\<rparr>) u))"
  have v: "client_ok (w_client v)" "cl_state (w_client v) = REQUESTING" "cl_server_ip (w_client v) = server"
      "cl_requested_ip (w_client v) = pkt_yiaddr offer" "cl_xid (w_client v) = cl_xid (w_client w)"
      "same_setup (w_client w) (w_client v)"
    using assms(1) by (simp_all add: v_def u_def same_setup_def)
  have l2: "cl_listen_mode (w_client w) = L2 \<Longrightarrow> cl_listen_mode (w_client v) = L2"
    by (simp add: v_def u_def switch_listening_mode_def)
  obtain p where p: "send_select env v = Inr (emit (broadcast (w_client v) p) v)"
      "client_request (w_client v) DHCPREQUEST (select_items (w_client v)) p" "pkt_xid p = cl_xid (w_client v)"
    using send_select_total [OF v(1)] by blast
  let ?w' = "start_timer env Request_timeout (REQUEST_TIMEOUT * 1000) (emit (broadcast (w_client v) p) v)"
  have "cl_retry_times (w_client u) = 0" by (simp add: u_def)
  then have "start_request env u = ret_d ?w'"
    using p(1) unfolding start_request_def Let_def v_def [symmetric] by (simp add: REQUEST_RETRIES_def v_def)
  then have "handle_reply env offer DHCPOFFER w = ret_d ?w'"
    using assms(2-4) by (simp add: handle_reply_def receive_offer_def Let_def u_def)
  moreover have "timer_live ?w' Request_timeout 3000" by (simp add: timer_live_def start_timer_def REQUEST_TIMEOUT_def)
  ultimately show ?thesis
    using v l2 p(2,3) by (intro exI [of _ ?w'] exI [of _ p]) (simp add: broadcast_def select_items_def)
qed

text \<open>
  An offer is taken up: a selecting client that receives an offer with a server identifier
  remembers the server and the offered address, broadcasts a request that names both, and
  waits three seconds for the answer.
\<close>

lemma offer_is_requested:
  assumes "client_ok (w_client w)" and "cl_state (w_client w) = INIT_SELECTING"
    and "dhcp_get_option offer DHCP_SERVER_ID = ret_d (Some ptr)" and "dhcp_get_unaligned offer ptr = Inr server"
  shows "\<exists>w' p. handle_reply env offer DHCPOFFER w = ret_d w' \<and> cl_state (w_client w') = REQUESTING \<and>
    cl_server_ip (w_client w') = server \<and> cl_requested_ip (w_client w') = pkt_yiaddr offer \<and>
    last (w_out w') = broadcast (w_client w') p \<and>
    client_request (w_client w') DHCPREQUEST [Opt DHCP_REQUESTED_IP (bytes32 (pkt_yiaddr offer)), Opt DHCP_SERVER_ID (bytes32 server)] p \<and>
    pkt_xid p = cl_xid (w_client w) \<and> timer_live w' Request_timeout 3000"
  using select_requests [OF assms] by blast

definition ex_offer :: dhcp_packet where
  "ex_offer = zero_packet\<lparr>pkt_yiaddr := 0x0237a8c0, pkt_options := [0x36, 4, 192, 168, 55, 1, 0xff] @ replicate 381 0\<rparr>"

lemma offer_is_requested_witness:
  "\<exists>w' p. handle_reply cex_env ex_offer DHCPOFFER cex_world = ret_d w' \<and> cl_state (w_client w') = REQUESTING \<and>
    cl_server_ip (w_client w') = 0x0137a8c0 \<and> cl_requested_ip (w_client w') = pkt_yiaddr ex_offer \<and>
    last (w_out w') = broadcast (w_client w') p \<and>
    client_request (w_client w') DHCPREQUEST [Opt DHCP_REQUESTED_IP (bytes32 (pkt_yiaddr ex_offer)), Opt DHCP_SERVER_ID (bytes32 0x0137a8c0)] p \<and>
    pkt_xid p = cl_xid (w_client cex_world) \<and> timer_live w' Request_timeout 3000"
  by (rule offer_is_requested [where ptr = "(OptionsField, 2)"])
    (simp_all add: cex_world_def cex_client_def g_dhcp_client_new_def client_ok_def ex_offer_def dhcp_get_option_def
      get_option_loop.simps rd_def dhcp_codes DHCP_OPTIONS_BUFSIZE_def EXTEND_FOR_BUGGY_SERVERS_def
      dhcp_get_unaligned_def of_bytes32_def)

text \<open>
  An offer without a server identifier crashes a selecting client: the pointer that the
  option search returns is read without a check.
\<close>

lemma offer_without_server_faults:
  assumes "cl_state (w_client w) = INIT_SELECTING" and "dhcp_get_option offer DHCP_SERVER_ID = ret_d None"
  shows "handle_reply env offer DHCPOFFER w = Some (Inl NullDeref)"
  using assms by (simp add: handle_reply_def receive_offer_def Let_def)

lemma offer_without_server_faults_witness:
  "handle_reply cex_env (zero_packet\<lparr>pkt_options := 0xff # replicate 387 0\<rparr>) DHCPOFFER cex_world = Some (Inl NullDeref)"
  by (rule offer_without_server_faults)
    (simp_all add: cex_world_def cex_client_def g_dhcp_client_new_def zero_packet_def dhcp_get_option_def
      get_option_loop.simps rd_def dhcp_codes DHCP_OPTIONS_BUFSIZE_def EXTEND_FOR_BUGGY_SERVERS_def FILE_FIELD_def SNAME_FIELD_def)

lemma ack_received:
  assumes "cl_state (w_client w) \<in> {REQUESTING, RENEWING, REBINDING}" and "quiet env"
    and "client_get_lease ack = ret_d lease"
    and "get_request_loop env ack (cl_request_list (w_client w)) (cl_code_value_hash (w_client w)) = ret_d hash"
  shows "\<exists>w'. handle_reply env ack DHCPACK w = ret_d w' \<and> cl_state (w_client w') = BOUND \<and>
    cl_listen_mode (w_client w') = L_NONE \<and> cl_assigned_ip (w_client w') = Some (get_ip (pkt_yiaddr ack)) \<and>
    cl_lease_seconds (w_client w') = lease \<and> cl_code_value_hash (w_client w') = hash \<and>
    (cl_lease_available_cb (w_client w) \<longrightarrow> CCallback G_DHCP_CLIENT_EVENT_LEASE_AVAILABLE \<in> set (w_out w')) \<and>
    timer_live w' Start_renew_timeout (unat lease div 2 * 1000)"
proof -
  let ?w2 = "cl_upd (\<lambda>c. c\<lparr>cl_code_value_hash := hash\<rparr>) (cl_upd (\<lambda>c. c\<lparr>cl_lease_seconds := lease\<rparr>)
    (clear_timeout (cl_upd (\<lambda>c. c\<lparr>cl_retry_times := 0\<rparr>) w)))"
  define w3 where "w3 = cl_upd (\<lambda>c. c\<lparr>cl_assigned_ip := Some (get_ip (pkt_yiaddr ack))\<rparr>)
    (snd (switch_listening_mode env L_NONE ?w2))"
  define w4 where "w4 = (if cl_lease_available_cb (w_client w3)
    then emit (CCallback G_DHCP_CLIENT_EVENT_LEASE_AVAILABLE) w3 else w3)"
  have "cl_listen_mode (w_client w3) = L_NONE"
    by (simp add: w3_def switch_listening_mode_def Let_def stop_listening_def)
  then have w4: "cl_listen_mode (w_client w4) = L_NONE" "cl_lease_seconds (w_client w4) = lease"
      "cl_assigned_ip (w_client w4) = Some (get_ip (pkt_yiaddr ack))" "cl_code_value_hash (w_client w4) = hash"
      "cl_lease_available_cb (w_client w) \<longrightarrow> CCallback G_DHCP_CLIENT_EVENT_LEASE_AVAILABLE \<in> set (w_out w4)"
    by (simp_all add: w4_def) (simp_all add: w3_def)
  have "call_cb env cl_lease_available_cb G_DHCP_CLIENT_EVENT_LEASE_AVAILABLE w3 = ret_d w4"
    using assms(2) by (simp add: call_cb_def quiet_def w4_def)
  then have "receive_ack env ack w = ret_d (start_bound env w4)"
    using assms(3,4) by (simp add: receive_ack_def get_request_def Let_def w3_def)
  then have "handle_reply env ack DHCPACK w = ret_d (start_bound env w4)"
    using assms(1) by (auto simp: handle_reply_def Let_def)
  moreover have "set (w_out w4) \<subseteq> set (w_out (start_bound env w4))"
    using out_grows(2) [of "cl_upd (\<lambda>c. c\<lparr>cl_state := BOUND\<rparr>) w4"] by (simp add: start_bound_def Let_def)
  ultimately show ?thesis using w4
    by (intro exI [of _ "start_bound env w4"])
      (auto simp: start_bound_def Let_def timer_live_def start_timer_def half_lease_ms_def)
qed

text \<open>
  An acknowledgement binds the client: in any of the states that wait for one, the client
  stops listening, knows its address and the lease time of the packet, has told its user, and
  has its renewal timer at half the lease.
\<close>

lemma ack_binds:
  assumes "cl_state (w_client w) \<in> {REQUESTING, RENEWING, REBINDING}" and "quiet env"
    and "client_get_lease ack = ret_d lease"
    and "get_request_loop env ack (cl_request_list (w_client w)) (cl_code_value_hash (w_client w)) = ret_d hash"
  shows "\<exists>w'. handle_reply env ack DHCPACK w = ret_d w' \<and> cl_state (w_client w') = BOUND \<and>
    cl_listen_mode (w_client w') = L_NONE \<and> cl_assigned_ip (w_client w') = Some (get_ip (pkt_yiaddr ack)) \<and>
    cl_lease_seconds (w_client w') = lease \<and> cl_code_value_hash (w_client w') = hash \<and>
    (cl_lease_available_cb (w_client w) \<longrightarrow> CCallback G_DHCP_CLIENT_EVENT_LEASE_AVAILABLE \<in> set (w_out w')) \<and>
    timer_live w' Start_renew_timeout (unat lease div 2 * 1000)"
  using assms by (rule ack_received)

lemma ack_binds_witness:
  "\<exists>w'. handle_reply cex_env ex_offer DHCPACK (cl_upd (\<lambda>c. c\<lparr>cl_state := REQUESTING\<rparr>) cex_world) = ret_d w' \<and>
    cl_state (w_client w') = BOUND \<and> cl_lease_seconds (w_client w') = 3600 \<and>
    timer_live w' Start_renew_timeout 1800000"
proof -
  let ?w = "cl_upd (\<lambda>c. c\<lparr>cl_state := REQUESTING\<rparr>) cex_world"
  have "client_get_lease ex_offer = ret_d 3600"
    by (simp add: client_get_lease_def ex_offer_def dhcp_get_option_def get_option_loop.simps rd_def dhcp_codes
      DHCP_OPTIONS_BUFSIZE_def EXTEND_FOR_BUGGY_SERVERS_def FILE_FIELD_def SNAME_FIELD_def)
  moreover have "get_request_loop cex_env ex_offer (cl_request_list (w_client ?w)) (cl_code_value_hash (w_client ?w)) = ret_d Map.empty"
    by (simp add: cex_world_def cex_client_def g_dhcp_client_new_def)
  ultimately show ?thesis using ack_binds [of ?w cex_env ex_offer 3600 Map.empty] by auto
qed

text \<open>
  After an error on its socket a client that listens is deaf: its watch is gone from the main loop,
  and asking for the same listening mode again reports success and changes nothing.
\<close>

lemma deaf_after_error:
  assumes "cl_reachable w" and "map_of (w_sources w) tag = Some (Watch fd)"
  shows "\<exists>w'. fire_watch env tag True stack input w = ret_d w' \<and>
    (\<forall>i fd'. (i, Watch fd') \<notin> set (w_sources w')) \<and>
    (\<forall>env'. switch_listening_mode env' (cl_listen_mode (w_client w)) w' = (0, w'))"
proof -
  have inv: "loop_inv {} w" using cl_reachable_inv [OF assms(1)] .
  have "(tag, Watch fd) \<in> set (w_sources w)" using assms(2) by (rule map_of_SomeD)
  then have "tag = cl_listener_watch (w_client w)" using inv by (auto simp: loop_inv_def src_inv_def)
  then have "\<forall>i fd'. (i, Watch fd') \<in> set (w_sources w) \<longrightarrow> i = tag" using inv by (auto simp: loop_inv_def src_inv_def)
  then show ?thesis using assms(2)
    by (auto simp: fire_watch_def client_listener_event_def destroy_source_def switch_listening_mode_def)
qed


lemma deaf_after_error_witness:
  "\<exists>w tag. (\<exists>fd. map_of (w_sources w) tag = Some (Watch fd)) \<and>
    (\<exists>w'. fire_watch cex_env tag True [] (Inl 0) w = ret_d w' \<and> (\<forall>i fd'. (i, Watch fd') \<notin> set (w_sources w')) \<and>
      (\<forall>env'. switch_listening_mode env' (cl_listen_mode (w_client w)) w' = (0, w')))"
proof -
  obtain w' where w': "g_dhcp_client_start cex_env NullStr cex_world = ret_d (0, w')"
      "map_of (w_sources w') (cl_listener_watch (w_client w')) = Some (Watch (sys_socket (ce_sys cex_env)))"
    using start_listens [of cex_world cex_env NullStr] by (auto simp: cex_world_def)
  have "cl_reachable w'"
    by (rule cl_reachable.step [OF cex_reachable]) (rule cl_step.start [OF _ _ w'(1)]; simp add: idle_def cex_world_def)
  from deaf_after_error [OF this w'(2)] w'(2) show ?thesis by blast
qed

text \<open>
  C28. Whatever happens to a client from its creation on, in any order, it never has two timers and never two
  watches in the main loop, and the ones it has are those it remembers in \<open>timeout\<close> and
  \<open>listener_watch\<close>, so that it can remove them. What happens: its timers and its watch are dispatched, with any input,
  other sources come and go, and its user configures it, stops it and starts it, the last only while no timer of it is live; the
  callbacks it calls may do the same, where a start comes right after a stop. The condition on the start is needed, as is shown below.
\<close>

theorem client_one_timer:
  assumes "cl_reachable w"
  shows "(\<forall>i f m. (i, Timer f m) \<in> set (w_sources w) \<longrightarrow> i = cl_timeout (w_client w)) \<and>
    (\<forall>i fd. (i, Watch fd) \<in> set (w_sources w) \<longrightarrow>
       i = cl_listener_watch (w_client w) \<and> cl_listen_mode (w_client w) \<noteq> L_NONE) \<and>
    distinct (map fst (w_sources w))"
  using cl_reachable_inv [OF assms] by (auto simp: loop_inv_def src_inv_def)

lemma cex_started:
  "\<exists>w. g_dhcp_client_start cex_env NullStr cex_world = ret_d (0, w) \<and> cl_reachable w \<and> timer_live w Discover_timeout 3000 \<and>
     cl_listen_mode (w_client w) = L2"
proof -
  obtain w where w: "g_dhcp_client_start cex_env NullStr cex_world = ret_d (0, w)" "timer_live w Discover_timeout 3000"
      "cl_listen_mode (w_client w) = L2"
    using start_listens [of cex_world cex_env NullStr] by (auto simp: cex_world_def)
  have "cl_reachable w"
    by (rule cl_reachable.step [OF cex_reachable]) (rule cl_step.start [OF _ _ w(1)]; simp add: idle_def cex_world_def)
  then show ?thesis using w by blast
qed

theorem client_one_timer_witness:
  "\<exists>w i. cl_reachable w \<and> (i, Timer Discover_timeout 3000) \<in> set (w_sources w) \<and>
     (\<forall>j f m. (j, Timer f m) \<in> set (w_sources w) \<longrightarrow> j = i)"
proof -
  obtain w where w: "cl_reachable w" "timer_live w Discover_timeout 3000" using cex_started by blast
  then have l: "(cl_timeout (w_client w), Timer Discover_timeout 3000) \<in> set (w_sources w)"
    by (auto simp: timer_live_def intro: map_of_SomeD)
  from client_one_timer [OF w(1)] have "\<forall>j f m. (j, Timer f m) \<in> set (w_sources w) \<longrightarrow> j = cl_timeout (w_client w)" by (elim conjE)
  with w(1) l show ?thesis by blast
qed

text \<open>
  Starting a client that already listens while a timer of it is live: the new timer overwrites the
  identifier of the old one, which stays in the main loop and cannot be removed any more.
\<close>

lemma second_start_loses_timer:
  assumes "ids_fresh env" and "client_ok (w_client w)" and "cl_listen_mode (w_client w) = L2"
    and "cl_retry_times (w_client w) \<noteq> DISCOVER_RETRIES" and "arg \<noteq> OwnLastAddress"
    and t: "(t, Timer f m) \<in> set (w_sources w)"
  shows "\<exists>w'. g_dhcp_client_start env arg w = ret_d (0, w') \<and> (t, Timer f m) \<in> set (w_sources w') \<and>
    cl_timeout (w_client w') \<noteq> t \<and> timer_live w' Discover_timeout 3000"
proof -
  define first where "first = (if cl_retry_times (w_client w) = 0 then
      (let w1 = cl_upd (\<lambda>c. c\<lparr>cl_assigned_ip := None, cl_state := INIT_SELECTING\<rparr>) w; (x, g) = rand (ce_rand env) (w_rng w1) in
       cl_upd (\<lambda>c. c\<lparr>cl_xid := x\<rparr>) (w1\<lparr>w_rng := g\<rparr>)) else w)"
  have f: "client_ok (w_client first)" "w_sources first = w_sources w"
    using assms(2) by (simp_all add: first_def split_beta)
  obtain l where l: "start_address env arg first = Inr (wanted_address env arg, cl_upd (\<lambda>c. c\<lparr>cl_last_address := l\<rparr>) first)"
    using start_address_wanted [OF assms(5)] by blast
  define w3 where "w3 = cl_upd (\<lambda>c. c\<lparr>cl_last_address := l\<rparr>) first"
  have w3: "client_ok (w_client w3)" "w_sources w3 = w_sources w" using f by (simp_all add: w3_def)
  obtain p where p: "send_discover env (wanted_address env arg) w3 = Inr (emit (broadcast (w_client w3) p) w3)"
    using send_discover_total [OF w3(1)] by blast
  let ?v = "emit (broadcast (w_client w3) p) w3"
  have "g_dhcp_client_start env arg w = ret_d (0, start_timer env Discover_timeout (DISCOVER_TIMEOUT * 1000) ?v)"
    using assms(3,4) l p by (simp add: g_dhcp_client_start_def switch_listening_mode_def first_def w3_def split_beta split: if_splits)
  moreover have "new_source_id env ?v \<noteq> t"
    using new_source_id_fresh [OF assms(1), of ?v] rev_image_eqI [OF t, of t fst] w3(2) by (metis emit_simps(2) fst_conv)
  ultimately show ?thesis using t w3(2) by (auto simp: start_timer_def timer_live_def DISCOVER_TIMEOUT_def)
qed

end
