(* ===== verification/Dhcp_Exchange.thy ===== *)
theory Dhcp_Exchange
  imports Dhcp_Protocol Client_Lease
begin

text \<open>
  Client and server together: what the client sends is what the server hears and the other way
  round, byte for byte, and the four messages of a lease from the start of the client to its lease.
\<close>

section \<open>The link between them\<close>

text \<open>
  What the link and the kernel of the receiver do with a raw frame: the packet socket of the client
  gets the IP datagram, the UDP socket of the server what follows the IP and the UDP header.
\<close>

fun client_hears :: "srv_out \<Rightarrow> int + u8 list" where
  "client_hears (SendRaw p sip sport dip dport mac ifindex) =
     (case snd (dhcp_send_raw_packet 0 0 0 p sip sport dip dport) of None \<Rightarrow> Inl (- 1) | Some bs \<Rightarrow> Inr bs)"
| "client_hears _ = Inl (- 1)"

fun server_hears :: "cl_out \<Rightarrow> int + u8 list" where
  "server_hears (CSendRaw p sip sport dip dport mac ifindex) =
     (case snd (dhcp_send_raw_packet 0 0 0 p sip sport dip dport) of None \<Rightarrow> Inl (- 1) | Some bs \<Rightarrow> Inr (drop 28 bs))"
| "server_hears _ = Inl (- 1)"

text \<open>The receiver of a packet sees the options that were sent, with anything behind them.\<close>

definition received :: "u8 list \<Rightarrow> dhcp_packet \<Rightarrow> dhcp_packet" where
  "received rest p = p\<lparr>pkt_options := take 308 (pkt_options p) @ rest\<rparr>"

lemma received_opts_rep:
  assumes "opts_rep (pkt_options p) os" and "length (items_bytes os) < DHCP_OPTIONS_BUFSIZE" and "length (pkt_options p) = 388"
  shows "opts_rep (pkt_options (received rest p)) os"
proof -
  obtain more where xs: "pkt_options p = items_bytes os @ DHCP_END # more" and ok: "list_all item_ok os"
    using assms(1) by (rule opts_repD)
  have "pkt_options (received rest p) = items_bytes os @ DHCP_END # take (307 - length (items_bytes os)) more @ rest"
    using assms(2) by (simp add: received_def xs DHCP_OPTIONS_BUFSIZE_def take_Cons' numeral_eq_Suc)
  then show ?thesis using ok by (simp add: opts_repI)
qed

lemma received_wf [simp]: "wf_packet p \<Longrightarrow> length rest = 80 \<Longrightarrow> wf_packet (received rest p)"
  by (simp add: received_def wf_packet_def)

lemma received_fields [simp]:
  "pkt_op (received r p) = pkt_op p" "pkt_hlen (received r p) = pkt_hlen p" "pkt_xid (received r p) = pkt_xid p"
  "pkt_ciaddr (received r p) = pkt_ciaddr p" "pkt_yiaddr (received r p) = pkt_yiaddr p"
  "pkt_chaddr (received r p) = pkt_chaddr p" "pkt_cookie (received r p) = pkt_cookie p"
  by (simp_all add: received_def)

lemma client_request_received:
  "client_request c t os p \<Longrightarrow> length rest = 80 \<Longrightarrow> client_request c t os (received rest p)"
  using received_opts_rep [of p] by (auto simp: client_request_def wf_packet_def received_def)

lemma server_hears_broadcast:
  assumes "wf_packet p"
  shows "server_hears (broadcast c p) = Inr (take 548 (dhcp_packet_bytes p))"
proof -
  have "length (dhcp_packet_bytes p) = 628" using assms by (rule length_dhcp_packet_bytes)
  then show ?thesis
    by (simp add: broadcast_def dhcp_send_raw_packet_def wire_sizes frame_bytes_def raw_frame_def Let_def)
qed

lemma client_hears_reply:
  "client_hears (send_packet_to_client s q) =
     (let dip = (if pkt_flags q AND htons BROADCAST_FLAG \<noteq> 0 \<or> pkt_ciaddr q = 0 then INADDR_BROADCAST else pkt_ciaddr q) in
      Inr (the (snd (dhcp_send_raw_packet 0 0 0 q (srv_server_nip s) SERVER_PORT dip CLIENT_PORT))))"
  by (simp add: send_packet_to_client_def dhcp_send_raw_packet_def)

lemma find_item_None: "find_item code i os = None \<longleftrightarrow> (\<forall>d. Opt code d \<notin> set os)"
  by (induction code i os rule: find_item.induct) auto

lemma find_item_set: "find_item code i os = Some (k, d) \<Longrightarrow> Opt code d \<in> set os"
  by (induction code i os rule: find_item.induct) (auto split: if_splits)

text \<open>The server receives a request of the client.\<close>

lemma server_receives:
  assumes "client_request c t os p" and "\<not> list_ex is_overload os" and "\<forall>d. Opt DHCP_VENDOR d \<notin> set os"
  shows "dhcp_recv_l3_packet (server_hears (broadcast c' p)) = ret_d (Inr (received (replicate 80 0) p))"
proof -
  let ?q = "received (replicate 80 0) p"
  have wf: "wf_packet p" "pkt_cookie p = htonl DHCP_MAGIC" using assms(1) by (auto simp: client_request_def)
  have "length (dhcp_packet_bytes p) = 628" using wf(1) by (rule length_dhcp_packet_bytes)
  then have eq: "dhcp_packet_of (take 548 (dhcp_packet_bytes p) @ replicate 80 0) = ?q"
    using dhcp_packet_of_partial [OF wf(1), of "replicate 628 0"] by (simp add: received_def)
  have "find_item DHCP_VENDOR 0 (Opt DHCP_MESSAGE_TYPE [t] # os) = None"
    using assms(3) by (simp add: find_item_None dhcp_codes)
  then have "dhcp_get_option ?q DHCP_VENDOR = ret_d None"
    using client_request_option(1) [OF client_request_received [OF assms(1)] assms(2), of "replicate 80 0" DHCP_VENDOR]
    by (simp add: dhcp_codes)
  then show ?thesis
    using wf(2) eq \<open>length (dhcp_packet_bytes p) = 628\<close>
    by (simp add: dhcp_recv_l3_packet_def server_hears_broadcast [OF wf(1)] Let_def check_broken_vendor_def DHCP_PACKET_SIZE_def)
qed

text \<open>What the server reads from a request, up to the call of its handler.\<close>

lemma request_ip_option:
  assumes "client_request c t os p" and "\<not> list_ex is_overload os" and "code \<noteq> DHCP_HOST_NAME" and "code \<noteq> DHCP_PARAM_REQ"
  shows "find_item code 0 (Opt DHCP_MESSAGE_TYPE [t] # os) = None \<Longrightarrow> get_ip_option p code = ret_d None"
    and "find_item code 0 (Opt DHCP_MESSAGE_TYPE [t] # os) = Some (k, bytes32 v) \<Longrightarrow> get_ip_option p code = ret_d (Some v)"
proof -
  note get = client_request_option [OF assms]
  show "find_item code 0 (Opt DHCP_MESSAGE_TYPE [t] # os) = None \<Longrightarrow> get_ip_option p code = ret_d None"
    using get(1) by (simp add: get_ip_option_def)
  assume f: "find_item code 0 (Opt DHCP_MESSAGE_TYPE [t] # os) = Some (k, bytes32 v)"
  have "length (pkt_options p) = 388" using assms(1) by (simp add: client_request_def wf_packet_def)
  then have "dhcp_get_unaligned p (OptionsField, k) = Inr v"
    using get(2) [OF f] by (simp add: dhcp_get_unaligned_def u32.dec_enc)
  then show "get_ip_option p code = ret_d (Some v)" using get(1) f by (simp add: get_ip_option_def)
qed

lemma request_type:
  assumes "client_request c t os p" and "\<not> list_ex is_overload os" and "DHCP_MINTYPE \<le> t" and "t \<le> DHCP_MAXTYPE"
  shows "check_packet_type p = ret_d t"
proof -
  note get = client_request_option [OF assms(1,2), of DHCP_MESSAGE_TYPE]
  have "dhcp_get_option p DHCP_MESSAGE_TYPE = ret_d (Some (OptionsField, 2))" using get(1) by (simp add: dhcp_codes)
  moreover have "take 1 (drop 2 (pkt_options p)) = [t]" using get(2) [of 2 "[t]"] by (simp add: dhcp_codes)
  then obtain ys where "drop 2 (pkt_options p) = t # ys" by (cases "drop 2 (pkt_options p)") auto
  then have "dhcp_get_u8 p (OptionsField, 2) = Inr t"
    using nth_via_drop [of 2 "pkt_options p" t ys] assms(1) by (simp add: dhcp_get_u8_def rd_def client_request_def wf_packet_def)
  moreover have "pkt_hlen p = 6" "pkt_op p = BOOTREQUEST" using assms(1) by (auto simp: client_request_def)
  ultimately show ?thesis using assms(3,4) by (auto simp: check_packet_type_def ETH_ALEN_def)
qed

section \<open>What the client makes of it\<close>

lemma client_receives:
  assumes "reply_opts s cp t y os q" and "length stack = 628" and "cl_listen_mode c = L2"
  shows "recv_packet c stack (client_hears (send_packet_to_client s' q)) = ret_d (Some (received (drop 548 stack) q))"
proof -
  have wf: "wf_packet q" "pkt_cookie q = htonl DHCP_MAGIC" using assms(1) by (auto simp: reply_opts_def)
  have "dhcp_recv_l2_packet stack (Some (the (snd (dhcp_send_raw_packet 0 0 0 q sip sport dip CLIENT_PORT)))) =
      Inr (Some (received (drop 548 stack) q))" for sip sport dip
    using raw_frame_received [OF wf assms(2), of 0 0 0 sip sport dip] by (simp add: received_def dhcp_send_raw_packet_def)
  then show ?thesis using assms(3) by (simp add: recv_packet_def client_hears_reply Let_def)
qed

lemma reply_received:
  assumes "reply_opts s cp t y os q" and "length rest = 80"
  shows "wf_packet (received rest q)" and "opts_rep (pkt_options (received rest q))
      (Opt DHCP_MESSAGE_TYPE [t] # Opt DHCP_SERVER_ID (bytes32 (srv_server_nip s)) # os)"
proof -
  show "wf_packet (received rest q)" using assms by (simp add: reply_opts_def)
  show "opts_rep (pkt_options (received rest q)) (Opt DHCP_MESSAGE_TYPE [t] # Opt DHCP_SERVER_ID (bytes32 (srv_server_nip s)) # os)"
    using assms(1) by (intro received_opts_rep) (simp_all add: reply_opts_def wf_packet_def)
qed

lemma reply_option:
  assumes "reply_opts s cp t y os q" and "\<not> list_ex is_overload os" and "length rest = 80"
  shows "dhcp_get_option (received rest q) code = ret_d (map_option (\<lambda>(k, d). (OptionsField, k)) (find_item code 0
      (Opt DHCP_MESSAGE_TYPE [t] # Opt DHCP_SERVER_ID (bytes32 (srv_server_nip s)) # os)))"
    and "find_item code 0 (Opt DHCP_MESSAGE_TYPE [t] # Opt DHCP_SERVER_ID (bytes32 (srv_server_nip s)) # os) = Some (k, d) \<Longrightarrow>
      k + length d \<le> 388 \<and> take (length d) (drop k (pkt_options (received rest q))) = d"
proof -
  let ?os = "Opt DHCP_MESSAGE_TYPE [t] # Opt DHCP_SERVER_ID (bytes32 (srv_server_nip s)) # os"
  note q = reply_received(1) [OF assms(1,3)] and rep = reply_received(2) [OF assms(1,3)]
  have ov: "\<not> list_ex is_overload ?os" using assms(2) by (simp add: dhcp_codes)
  show "dhcp_get_option (received rest q) code = ret_d (map_option (\<lambda>(k, d). (OptionsField, k)) (find_item code 0 ?os))"
    by (rule get_option_rep [OF q rep ov])
  assume "find_item code 0 ?os = Some (k, d)"
  from find_item_in_options [OF rep this] q show "k + length d \<le> 388 \<and> take (length d) (drop k (pkt_options (received rest q))) = d"
    by (simp add: wf_packet_def)
qed

lemma lease_replyE:
  assumes "lease_reply s cp t y q"
  obtains os where "list_all config_item os" and "reply_opts s cp t y (Opt DHCP_LEASE_TIME (bytes32 (htonl (srv_lease_seconds s))) # os) q"
    and "\<not> list_ex is_overload (Opt DHCP_LEASE_TIME (bytes32 (htonl (srv_lease_seconds s))) # os)"
proof -
  obtain os where os: "list_all config_item os"
      "reply_opts s cp t y (Opt DHCP_LEASE_TIME (bytes32 (htonl (srv_lease_seconds s))) # os) q"
    using assms by (auto simp: lease_reply_def)
  have "\<not> list_ex is_overload os"
    using os(1) by (induction os) (auto simp: dhcp_codes elim!: config_item.elims)
  then show thesis using that [OF os] by (simp add: dhcp_codes)
qed

text \<open>Every requested value is read without a fault.\<close>

lemma request_value_four:
  assumes "wf_packet p" and "opts_rep (pkt_options p) os" and "\<not> list_ex is_overload os"
    and "find_item code 0 os = Some (k, d)" and "length d = 4" and "fst (dhcp_get_code_type code) \<in> {OPTION_IP, OPTION_U32}"
  shows "\<exists>v. request_value env p code = ret_d v"
proof -
  have get: "dhcp_get_option p code = ret_d (Some (OptionsField, k))"
    using get_option_rep [OF assms(1-3)] assms(4) by simp
  have len: "dhcp_get_u8 p (OptionsField, k - 1) = Inr 4"
    using option_length_byte [OF assms(2,4)] assms(5) by (simp add: dhcp_get_u8_def)
  obtain rest where rest: "drop k (pkt_options p) = d @ rest"
    using find_item_in_options(1) [OF assms(2,4)] by (metis append_take_drop_id)
  let ?t = "fst (dhcp_get_code_type code)"
  have nip: "length (sprint_nip v) \<le> 15" for v by (rule length_sprint_nip)
  have u32: "length (show_nat (unat (w :: u32))) \<le> 10" for w
    using length_show_nat [of "unat w" 9] unsigned_less [of w, where 'a = nat] by simp
  have "\<exists>b. option_value_loop ?t (d @ rest) 4 \<lparr>ob_size = len_of_option_as_string ?t + 1, ob_text = [], ob_terminated = False\<rparr> =
      Inr b \<and> ob_terminated b"
    using assms(5,6) le_imp_less_Suc [OF nip [of d]] u32 [of "ntohl (of_bytes32 d)"]
    by (auto simp: option_value_loop.simps [of _ _ 4] put_value_def buf_put_def)
  then obtain b where "option_value_loop ?t (d @ rest) 4 \<lparr>ob_size = len_of_option_as_string ?t + 1, ob_text = [], ob_terminated = False\<rparr> =
      Inr b" "ob_terminated b" by blast
  moreover have "dhcp_option_lengths ?t = 4" using assms(6) by auto
  ultimately show ?thesis
    using get len rest by (auto simp: request_value_def malloc_option_value_string_def get_option_value_list_def c_string_def Let_def)
qed

lemma reply_values:
  assumes "lease_reply s cp t y q" and "length rest = 80" and "DHCP_MESSAGE_TYPE \<notin> set codes"
  shows "\<exists>hash'. get_request_loop env (received rest q) codes hash = ret_d hash'"
  using assms(3)
proof (induction codes arbitrary: hash)
  case (Cons code codes)
  obtain os where os: "list_all config_item os"
      "reply_opts s cp t y (Opt DHCP_LEASE_TIME (bytes32 (htonl (srv_lease_seconds s))) # os) q"
    and ov': "\<not> list_ex is_overload (Opt DHCP_LEASE_TIME (bytes32 (htonl (srv_lease_seconds s))) # os)"
    using assms(1) by (rule lease_replyE)
  let ?os = "Opt DHCP_MESSAGE_TYPE [t] # Opt DHCP_SERVER_ID (bytes32 (srv_server_nip s)) #
    Opt DHCP_LEASE_TIME (bytes32 (htonl (srv_lease_seconds s))) # os"
  note q = reply_received [OF os(2) assms(2)]
  have ov: "\<not> list_ex is_overload ?os" using ov' by (simp add: dhcp_codes)
  have "\<exists>v. request_value env (received rest q) code = ret_d v"
  proof (cases "find_item code 0 ?os")
    case None
    then show ?thesis using get_option_rep [OF q ov, of code] by (simp add: request_value_def)
  next
    case (Some kd)
    obtain k d where kd: "kd = (k, d)" by (rule prod.exhaust)
    have "Opt code d \<in> set ?os" using Some by (simp only: kd find_item_set)
    moreover have "Opt code d \<in> set os \<Longrightarrow> config_item (Opt code d)" using os(1) unfolding list_all_iff by blast
    ultimately have "length d = 4" "code \<in> {DHCP_SERVER_ID, DHCP_LEASE_TIME, DHCP_SUBNET, DHCP_ROUTER, DHCP_DNS_SERVER}"
      using Cons.prems by auto
    then have "length d = 4" "fst (dhcp_get_code_type code) \<in> {OPTION_IP, OPTION_U32}"
      by (auto simp: dhcp_get_code_type_def client_options_def dhcp_codes)
    then show ?thesis using request_value_four [OF q ov Some [unfolded kd]] by blast
  qed
  then show ?case using Cons by auto
qed simp

lemma reply_lease_time:
  assumes "lease_reply s cp t y q" and "length rest = 80"
  shows "client_get_lease (received rest q) = ret_d (max 10 (srv_lease_seconds s AND 0x0fffffff))"
proof -
  obtain os where os: "list_all config_item os"
      "reply_opts s cp t y (Opt DHCP_LEASE_TIME (bytes32 (htonl (srv_lease_seconds s))) # os) q"
    and ov: "\<not> list_ex is_overload (Opt DHCP_LEASE_TIME (bytes32 (htonl (srv_lease_seconds s))) # os)"
    using assms(1) by (rule lease_replyE)
  note get = reply_option [OF os(2) ov assms(2), of DHCP_LEASE_TIME]
  have "dhcp_get_option (received rest q) DHCP_LEASE_TIME = ret_d (Some (OptionsField, 11))"
    using get(1) by (simp add: dhcp_codes)
  moreover have "dhcp_get_unaligned (received rest q) (OptionsField, 11) = Inr (htonl (srv_lease_seconds s))"
    using get(2) [of 11 "bytes32 (htonl (srv_lease_seconds s))"] reply_received(1) [OF os(2) assms(2)]
    by (simp add: dhcp_codes dhcp_get_unaligned_def u32.dec_enc wf_packet_def)
  ultimately show ?thesis by (auto simp: client_get_lease_def max_def Let_def not_le)
qed

lemma reply_is_handled:
  assumes "lease_reply s cp t y q" and "length stack = 628" and "cl_listen_mode (w_client w) = L2"
    and "pkt_xid cp = cl_xid (w_client w)" and "pkt_chaddr cp = cl_mac_address (w_client w) @ replicate 10 0"
    and "length (cl_mac_address (w_client w)) = 6"
    and "handle_reply env (received (drop 548 stack) q) t w = ret_d w'"
  shows "client_listener_event env False stack (client_hears (send_packet_to_client s' q)) w = ret_d (True, w')"
proof -
  let ?q = "received (drop 548 stack) q"
  have l: "length (drop 548 stack) = 80" using assms(2) by simp
  obtain os where os: "list_all config_item os"
      "reply_opts s cp t y (Opt DHCP_LEASE_TIME (bytes32 (htonl (srv_lease_seconds s))) # os) q"
    and ov: "\<not> list_ex is_overload (Opt DHCP_LEASE_TIME (bytes32 (htonl (srv_lease_seconds s))) # os)"
    using assms(1) by (rule lease_replyE)
  note get = reply_option [OF os(2) ov l, of DHCP_MESSAGE_TYPE]
  have "dhcp_get_option ?q DHCP_MESSAGE_TYPE = ret_d (Some (OptionsField, 2))" using get(1) by (simp add: dhcp_codes)
  moreover have "dhcp_get_u8 ?q (OptionsField, 2) = Inr t"
    using reply_received(2) [OF os(2) l] by (auto simp: dhcp_get_u8_def rd_def elim!: opts_repD)
  moreover have "check_package_owner (w_client w) ?q"
    using os(2) assms(4-6) by (auto simp: check_package_owner_def reply_opts_def)
  ultimately show ?thesis
    using assms(3,7) client_receives [OF os(2) assms(2,3)] by (simp add: client_listener_event_def Let_def)
qed

section \<open>The server's side of the exchange\<close>

lemma reply_opts_to [simp]:
  "reply_opts s (received rest cp) t y os q = reply_opts s cp t y os q"
  "lease_reply s (received rest cp) t y q = lease_reply s cp t y q"
  by (simp_all add: reply_opts_def lease_reply_def)

lemma add_lease_succeeds:
  assumes "lease_inv s" and "admissible s y mac" and "env_mem env"
  shows "\<exists>l t. add_lease env s e mac y = (Some l, t)"
proof -
  have "\<exists>p s1. get_lease env s y mac = (Inr p, s1)"
    using get_lease_hash_hit [OF assms(1,2)] get_lease_hash_miss [OF assms(1,2)] assms(3)
    by (cases "srv_nip_lease_hash s y") (fastforce split: if_splits)+
  then show ?thesis by (auto simp: add_lease_def Let_def)
qed

lemma add_lease_setup:
  "add_lease env s e mac y = (o', t) \<Longrightarrow>
    srv_server_nip t = srv_server_nip s \<and> srv_lease_seconds t = srv_lease_seconds s"
  by (cases "admissible s y mac")
    (auto simp: add_lease_def get_lease_inadmissible get_lease_admissible remove_lease_def Let_def
      split: option.splits if_splits)

lemma server_offers:
  assumes "client_request c DHCPDISCOVER (discover_items wanted) p"
    and "offer_address env s (pkt_chaddr p) (find_lease_by_mac s (pkt_chaddr p)) wanted = ret_d y" and "y \<noteq> 0"
    and "add_lease env s OFFER_TIME (pkt_chaddr p) y = (Some l, t)"
  shows "\<exists>q. listener_event env s False (server_hears (broadcast c' p)) = ret_d (True, t, [send_packet_to_client t q]) \<and>
    lease_reply s p DHCPOFFER y q"
proof -
  let ?p = "received (replicate 80 0) p" and ?os = "discover_items wanted"
  have os: "\<not> list_ex is_overload ?os" "\<forall>d. Opt DHCP_VENDOR d \<notin> set ?os"
    by (simp_all add: discover_items_def dhcp_codes)
  have req: "client_request c DHCPDISCOVER ?os ?p" using client_request_received [OF assms(1)] by simp
  have ty: "check_packet_type ?p = ret_d DHCPDISCOVER"
    by (rule request_type [OF req os(1)]) (simp_all add: dhcp_types)
  have sid: "get_ip_option ?p DHCP_SERVER_ID = ret_d None"
    by (rule request_ip_option(1) [OF req os(1)]) (simp_all add: dhcp_codes discover_items_def)
  have rip: "get_ip_option ?p DHCP_REQUESTED_IP = ret_d (if wanted = 0 then None else Some wanted)"
    using request_ip_option(1) [OF req os(1), of DHCP_REQUESTED_IP] request_ip_option(2) [OF req os(1), of DHCP_REQUESTED_IP 5 wanted]
    by (simp add: dhcp_codes discover_items_def)
  have "wf_packet ?p" using req by (simp add: client_request_def)
  then obtain q where q: "send_offer env s ?p (find_lease_by_mac s (pkt_chaddr p)) wanted = ret_d (t, [send_packet_to_client t q])"
      "lease_reply s p DHCPOFFER y q"
    using send_offer_reply [of ?p env s _ wanted y l t] assms(2-4) by auto
  have "handle_packet env s ?p = ret_d (t, [send_packet_to_client t q])"
    using q(1) by (auto simp: handle_packet_def ty sid rip handle_message_def dhcp_types)
  then show ?thesis
    using q(2) server_receives [OF assms(1) os] by (auto simp: listener_event_def)
qed

lemma server_acks:
  assumes "client_request c DHCPREQUEST [Opt DHCP_REQUESTED_IP (bytes32 y), Opt DHCP_SERVER_ID (bytes32 (srv_server_nip s))] p"
    and "find_lease_by_mac s (pkt_chaddr p) = Some (pt, l)" and "lease_nip l = y" and "y \<noteq> 0"
  shows "\<exists>q. listener_event env s False (server_hears (broadcast c' p)) =
      ret_d (True, snd (add_lease env s 0 (pkt_chaddr p) y), [send_packet_to_client s q]) \<and> lease_reply s p DHCPACK y q"
proof -
  let ?p = "received (replicate 80 0) p"
    and ?os = "[Opt DHCP_REQUESTED_IP (bytes32 y), Opt DHCP_SERVER_ID (bytes32 (srv_server_nip s))]"
  have os: "\<not> list_ex is_overload ?os" "\<forall>d. Opt DHCP_VENDOR d \<notin> set ?os" by (simp_all add: dhcp_codes)
  have req: "client_request c DHCPREQUEST ?os ?p" using client_request_received [OF assms(1)] by simp
  have ty: "check_packet_type ?p = ret_d DHCPREQUEST"
    by (rule request_type [OF req os(1)]) (simp_all add: dhcp_types)
  have sid: "get_ip_option ?p DHCP_SERVER_ID = ret_d (Some (srv_server_nip s))"
    by (rule request_ip_option(2) [OF req os(1), where k = 11]) (simp_all add: dhcp_codes)
  have rip: "get_ip_option ?p DHCP_REQUESTED_IP = ret_d (Some y)"
    by (rule request_ip_option(2) [OF req os(1), where k = 5]) (simp_all add: dhcp_codes)
  have "wf_packet ?p" using req by (simp add: client_request_def)
  then obtain q where q: "send_ACK env s ?p y = Inr (snd (add_lease env s 0 (pkt_chaddr p) y), [send_packet_to_client s q])"
      "lease_reply s p DHCPACK y q"
    using send_ACK_reply [of ?p env s y] by auto
  have "handle_packet env s ?p = ret_d (snd (add_lease env s 0 (pkt_chaddr p) y), [send_packet_to_client s q])"
    using q(1) assms(2-4) by (simp add: handle_packet_def ty sid rip handle_message_def dhcp_types)
  then show ?thesis
    using q(2) server_receives [OF assms(1) os] by (auto simp: listener_event_def)
qed

section \<open>The whole exchange\<close>

text \<open>
  From the client's start to its lease: the four messages, each as the bytes that the other side
  hears, with the worlds of the client and the servers in between.
\<close>

definition lease_exchange ::
  "cl_env \<Rightarrow> srv_env \<Rightarrow> u8 list \<Rightarrow> str_arg \<Rightarrow> cl_world \<Rightarrow> GDHCPServer \<Rightarrow> cl_world \<Rightarrow> GDHCPServer \<Rightarrow> bool" where
  "lease_exchange cenv senv stack arg w s w' s' \<longleftrightarrow> (\<exists>w1 s1 offer w2 ack.
     g_dhcp_client_start cenv arg w = ret_d (0, w1) \<and>
     listener_event senv s False (server_hears (last (w_out w1))) = ret_d (True, s1, [offer]) \<and>
     client_listener_event cenv False stack (client_hears offer) w1 = ret_d (True, w2) \<and>
     listener_event senv s1 False (server_hears (last (w_out w2))) = ret_d (True, s', [ack]) \<and>
     client_listener_event cenv False stack (client_hears ack) w2 = ret_d (True, w'))"

lemma reply_server_id:
  assumes "lease_reply s cp t y q" and "length rest = 80"
  shows "dhcp_get_option (received rest q) DHCP_SERVER_ID = ret_d (Some (OptionsField, 5))"
    and "dhcp_get_unaligned (received rest q) (OptionsField, 5) = Inr (srv_server_nip s)"
    and "pkt_yiaddr (received rest q) = y"
proof -
  obtain os where os: "reply_opts s cp t y (Opt DHCP_LEASE_TIME (bytes32 (htonl (srv_lease_seconds s))) # os) q"
    and ov: "\<not> list_ex is_overload (Opt DHCP_LEASE_TIME (bytes32 (htonl (srv_lease_seconds s))) # os)"
    using assms(1) by (rule lease_replyE)
  note get = reply_option [OF os ov assms(2), of DHCP_SERVER_ID]
  show "dhcp_get_option (received rest q) DHCP_SERVER_ID = ret_d (Some (OptionsField, 5))"
    using get(1) by (simp add: dhcp_codes)
  show "dhcp_get_unaligned (received rest q) (OptionsField, 5) = Inr (srv_server_nip s)"
    using get(2) [of 5 "bytes32 (srv_server_nip s)"] reply_received(1) [OF os assms(2)]
    by (simp add: dhcp_codes dhcp_get_unaligned_def u32.dec_enc wf_packet_def)
  show "pkt_yiaddr (received rest q) = y" using os by (simp add: reply_opts_def)
qed

text \<open>The first half: the client starts, the server offers, the client requests.\<close>

lemma exchange_offer:
  assumes c: "client_ok (w_client w)" "cl_retry_times (w_client w) = 0" "cl_listen_mode (w_client w) = L_NONE"
    and cenv: "sockets_ok cenv" "ids_fresh cenv" and arg: "arg \<noteq> OwnLastAddress" and stack: "length stack = 628"
    and mac: "mac = cl_mac_address (w_client w) @ replicate 10 0"
    and y: "offer_address senv s mac (find_lease_by_mac s mac) (wanted_address cenv arg) = ret_d y" "y \<noteq> 0"
    and add: "add_lease senv s OFFER_TIME mac y = (Some l, s1)"
  shows "\<exists>w1 q w2 p2. g_dhcp_client_start cenv arg w = ret_d (0, w1) \<and>
    listener_event senv s False (server_hears (last (w_out w1))) = ret_d (True, s1, [send_packet_to_client s1 q]) \<and>
    client_listener_event cenv False stack (client_hears (send_packet_to_client s1 q)) w1 = ret_d (True, w2) \<and>
    cl_state (w_client w2) = REQUESTING \<and> cl_listen_mode (w_client w2) = L2 \<and>
    same_setup (w_client w) (w_client w2) \<and> last (w_out w2) = broadcast (w_client w2) p2 \<and>
    pkt_xid p2 = cl_xid (w_client w2) \<and> pkt_chaddr p2 = mac \<and>
    client_request (w_client w2) DHCPREQUEST [Opt DHCP_REQUESTED_IP (bytes32 y), Opt DHCP_SERVER_ID (bytes32 (srv_server_nip s))] p2"
proof -
  obtain w1 p1 where w1: "g_dhcp_client_start cenv arg w = ret_d (0, w1)" "cl_state (w_client w1) = INIT_SELECTING"
      "cl_listen_mode (w_client w1) = L2" "w_out w1 = w_out w @ [broadcast (w_client w1) p1]"
      "client_request (w_client w1) DHCPDISCOVER (discover_items (wanted_address cenv arg)) p1"
      "pkt_xid p1 = cl_xid (w_client w1)" "same_setup (w_client w) (w_client w1)"
    using start_listens [OF c cenv arg] by blast
  have ch1: "pkt_chaddr p1 = mac" using w1(5,7) by (simp add: client_request_def same_setup_def mac)
  obtain q where q: "listener_event senv s False (server_hears (last (w_out w1))) = ret_d (True, s1, [send_packet_to_client s1 q])"
      "lease_reply s p1 DHCPOFFER y q"
    using server_offers [OF w1(5), of senv s y l s1 "w_client w1"] y add by (auto simp: ch1 w1(4))
  have "length (drop 548 stack) = 80" using stack by simp
  note off = reply_server_id [OF q(2) this]
  obtain w2 p2 where w2: "handle_reply cenv (received (drop 548 stack) q) DHCPOFFER w1 = ret_d w2" "cl_state (w_client w2) = REQUESTING"
      "last (w_out w2) = broadcast (w_client w2) p2" "pkt_xid p2 = cl_xid (w_client w1)"
      "client_request (w_client w2) DHCPREQUEST [Opt DHCP_REQUESTED_IP (bytes32 y), Opt DHCP_SERVER_ID (bytes32 (srv_server_nip s))] p2"
      "same_setup (w_client w1) (w_client w2)" "cl_xid (w_client w2) = cl_xid (w_client w1)" "cl_listen_mode (w_client w2) = L2"
    using select_requests [OF same_setup_ok [OF c(1) w1(7)] w1(2) off(1,2)] w1(3) unfolding off(3) by blast
  have same: "same_setup (w_client w) (w_client w2)" using w1(7) w2(6) by (simp add: same_setup_def)
  then have "pkt_chaddr p2 = mac" using w2(5) by (simp add: client_request_def same_setup_def mac)
  moreover have "client_listener_event cenv False stack (client_hears (send_packet_to_client s1 q)) w1 = ret_d (True, w2)"
    using reply_is_handled [OF q(2) stack w1(3,6)] w1(7) c(1) w2(1) by (simp add: ch1 mac same_setup_def client_ok_def)
  ultimately show ?thesis using w1(1) q(1) w2 same
    by (intro exI [of _ w1] exI [of _ q] exI [of _ w2] exI [of _ p2]) simp
qed

text \<open>The second half: the server acknowledges, the client is bound.\<close>

lemma exchange_ack:
  assumes w: "cl_state (w_client w) = REQUESTING" "cl_listen_mode (w_client w) = L2" "client_ok (w_client w)"
      "DHCP_MESSAGE_TYPE \<notin> set (cl_request_list (w_client w))"
    and cenv: "quiet cenv" and stack: "length stack = 628"
    and p: "pkt_xid p = cl_xid (w_client w)" "pkt_chaddr p = cl_mac_address (w_client w) @ replicate 10 0"
      "client_request (w_client w) DHCPREQUEST [Opt DHCP_REQUESTED_IP (bytes32 y), Opt DHCP_SERVER_ID (bytes32 (srv_server_nip s))] p"
    and l: "find_lease_by_mac s (pkt_chaddr p) = Some (pt, l)" "lease_nip l = y" "y \<noteq> 0"
  shows "\<exists>q w'. listener_event senv s False (server_hears (broadcast (w_client w) p)) =
      ret_d (True, snd (add_lease senv s 0 (pkt_chaddr p) y), [send_packet_to_client s q]) \<and>
    client_listener_event cenv False stack (client_hears (send_packet_to_client s q)) w = ret_d (True, w') \<and>
    cl_state (w_client w') = BOUND \<and> cl_assigned_ip (w_client w') = Some (get_ip y) \<and>
    cl_lease_seconds (w_client w') = max 10 (srv_lease_seconds s AND 0x0fffffff)"
proof -
  obtain q where q: "listener_event senv s False (server_hears (broadcast (w_client w) p)) =
        ret_d (True, snd (add_lease senv s 0 (pkt_chaddr p) y), [send_packet_to_client s q])" "lease_reply s p DHCPACK y q"
    using server_acks [OF p(3) l] by blast
  let ?q = "received (drop 548 stack) q"
  have l80: "length (drop 548 stack) = 80" using stack by simp
  obtain hash where
    hash: "get_request_loop cenv ?q (cl_request_list (w_client w)) (cl_code_value_hash (w_client w)) = ret_d hash"
    using reply_values [OF q(2) l80 w(4)] by blast
  obtain w' where w': "handle_reply cenv ?q DHCPACK w = ret_d w'" "cl_state (w_client w') = BOUND"
      "cl_assigned_ip (w_client w') = Some (get_ip (pkt_yiaddr ?q))"
      "cl_lease_seconds (w_client w') = max 10 (srv_lease_seconds s AND 0x0fffffff)"
    using ack_received [OF _ cenv reply_lease_time [OF q(2) l80] hash] w(1) by auto
  have "client_listener_event cenv False stack (client_hears (send_packet_to_client s q)) w = ret_d (True, w')"
    using reply_is_handled [OF q(2) stack w(2) p(1,2) _ w'(1)] w(3) by (simp add: client_ok_def)
  then show ?thesis using q(1) w'(2-4) reply_server_id(3) [OF q(2) l80] by auto
qed

lemma lease_exchange_binds:
  fixes y :: u32
  assumes c: "client_ok (w_client w)" "cl_retry_times (w_client w) = 0" "cl_listen_mode (w_client w) = L_NONE"
      "DHCP_MESSAGE_TYPE \<notin> set (cl_request_list (w_client w))"
    and cenv: "sockets_ok cenv" "ids_fresh cenv" "quiet cenv" and arg: "arg \<noteq> OwnLastAddress" and stack: "length stack = 628"
    and s: "lease_inv s" and senv: "inserts_sorted (env_insert_sorted senv)" "env_mem senv"
    and mac: "mac = cl_mac_address (w_client w) @ replicate 10 0"
    and y: "offer_address senv s mac (find_lease_by_mac s mac) (wanted_address cenv arg) = ret_d y" "admissible s y mac"
  shows "\<exists>w' s'. lease_exchange cenv senv stack arg w s w' s' \<and> cl_state (w_client w') = BOUND \<and>
    cl_assigned_ip (w_client w') = Some (get_ip y) \<and>
    cl_lease_seconds (w_client w') = max 10 (srv_lease_seconds s AND 0x0fffffff) \<and> lease_inv s' \<and>
    (\<exists>p. (p, \<lparr>lease_expire = env_now senv + uint (srv_lease_seconds s), lease_nip = y,
        lease_mac = cl_mac_address (w_client w)\<rparr>) \<in> table s')"
proof -
  have y0: "y \<noteq> 0" using y(2) by (simp add: admissible_def)
  have m: "take ETH_ALEN mac = cl_mac_address (w_client w)" using c(1) by (simp add: mac client_ok_def ETH_ALEN_def)
  obtain pt l s1 where add: "add_lease senv s OFFER_TIME mac y = (Some (pt, l), s1)"
    using add_lease_succeeds [OF s y(2) senv(2), of OFFER_TIME] by (metis surj_pair)
  have s1: "lease_inv s1" "(pt, l) \<in> table s1" "lease_nip l = y" "lease_mac l = take ETH_ALEN mac" "srv_server_nip s1 = srv_server_nip s"
      "srv_lease_seconds s1 = srv_lease_seconds s" "admissible s1 y mac"
    using add_lease_effect [OF s senv(1) add] add_lease_setup [OF add] add_lease_range [OF add] y(2) by (auto simp: admissible_def)
  obtain w1 q w2 p2 where a: "g_dhcp_client_start cenv arg w = ret_d (0, w1)"
      "listener_event senv s False (server_hears (last (w_out w1))) = ret_d (True, s1, [send_packet_to_client s1 q])"
      "client_listener_event cenv False stack (client_hears (send_packet_to_client s1 q)) w1 = ret_d (True, w2)"
      "cl_state (w_client w2) = REQUESTING" "cl_listen_mode (w_client w2) = L2" "same_setup (w_client w) (w_client w2)"
      "last (w_out w2) = broadcast (w_client w2) p2" "pkt_xid p2 = cl_xid (w_client w2)" "pkt_chaddr p2 = mac"
      "client_request (w_client w2) DHCPREQUEST [Opt DHCP_REQUESTED_IP (bytes32 y), Opt DHCP_SERVER_ID (bytes32 (srv_server_nip s1))] p2"
    using exchange_offer [OF c(1-3) cenv(1,2) arg stack mac y(1) y0 add] unfolding s1(5) by blast
  have "find_lease_by_mac s1 mac = Some (pt, l)" using find_lease_by_mac_iff [OF s1(1)] s1(2,4) by blast
  then obtain q2 w' where b: "listener_event senv s1 False (server_hears (last (w_out w2))) =
        ret_d (True, snd (add_lease senv s1 0 mac y), [send_packet_to_client s1 q2])"
      "client_listener_event cenv False stack (client_hears (send_packet_to_client s1 q2)) w2 = ret_d (True, w')"
      "cl_state (w_client w') = BOUND" "cl_assigned_ip (w_client w') = Some (get_ip y)"
      "cl_lease_seconds (w_client w') = max 10 (srv_lease_seconds s AND 0x0fffffff)"
    using exchange_ack [OF a(4,5) same_setup_ok [OF c(1) a(6)] _ cenv(3) stack a(8) _ a(10), of pt l senv] a(6,7,9) s1(3,6) y0 c(4)
    by (auto simp: same_setup_def mac)
  obtain pt' s2 where s2: "add_lease senv s1 0 mac y = (Some (pt', \<lparr>lease_expire = env_now senv + uint (srv_lease_seconds s1),
        lease_nip = y, lease_mac = take ETH_ALEN mac\<rparr>), s2)"
      "(pt', \<lparr>lease_expire = env_now senv + uint (srv_lease_seconds s1), lease_nip = y, lease_mac = take ETH_ALEN mac\<rparr>) \<in> table s2"
    using add_lease_own [OF s1(1) senv(1) s1(2-4,7)] by blast
  then have "lease_inv s2" using add_lease_effect [OF s1(1) senv(1)] by blast
  moreover have "lease_exchange cenv senv stack arg w s w' s2"
    using a(1-3) b(1,2) s2(1) unfolding lease_exchange_def by auto
  ultimately show ?thesis using b(3-5) s2(2) m s1(6) by (intro exI [of _ w'] exI [of _ s2]) auto
qed

end
