(* ===== verification/Stats.thy ===== *)
theory Stats
  imports Prelude
begin

text \<open>
  Traffic statistics, \<^verbatim>\<open>src/stats.c\<close>: per service a ring buffer of records in a file that is
  mapped into memory, and a history file into which a full ring is summarised.

  The file system is modelled as far as the code uses it: names, open descriptors and the
  bytes of each inode. The files are mapped shared and from their start, so the memory of a
  mapping is the content of its inode, limited to the length of the mapping. A pointer into
  the mapping of a file is its offset from the start of the mapping: the kernel may move a
  mapping when it grows, and the code computes every pointer again after that.

  The results of the system calls that can fail, the page size, the clock, the calendar of
  GLib, the configured file size and the names of the services are arguments
  (\<open>stats_env\<close>): the n-th fallible call of a run fails with error \<open>se_fail e n\<close> unless that
  is 0. Accesses outside a mapping and through a null pointer are faults.
\<close>

section \<open>Records and their layout\<close>

type_synonym u64 = "64 word"

definition bytes64 :: "u64 \<Rightarrow> u8 list" where
  "bytes64 w = bytes32 (ucast w) @ bytes32 (ucast (drop_bit 32 w))"

definition of_bytes64 :: "u8 list \<Rightarrow> u64" where
  "of_bytes64 bs = ucast (of_bytes32 (take 4 bs)) OR
     push_bit 32 (ucast (of_bytes32 (take 4 (drop 4 bs))))"

record connman_stats_data =
  rx_packets :: u32
  tx_packets :: u32
  rx_bytes :: u32
  tx_bytes :: u32
  rx_errors :: u32
  tx_errors :: u32
  rx_dropped :: u32
  tx_dropped :: u32
  sd_time :: u32

record stats_record =
  sr_ts :: u64
  sr_roaming :: u32
  sr_data :: connman_stats_data

definition stats_data_bytes :: "connman_stats_data \<Rightarrow> u8 list" where
  "stats_data_bytes d = bytes32 (rx_packets d) @ bytes32 (tx_packets d) @ bytes32 (rx_bytes d) @
     bytes32 (tx_bytes d) @ bytes32 (rx_errors d) @ bytes32 (tx_errors d) @
     bytes32 (rx_dropped d) @ bytes32 (tx_dropped d) @ bytes32 (sd_time d)"

definition field32 :: "nat \<Rightarrow> u8 list \<Rightarrow> u32" where
  "field32 off bs = of_bytes32 (take 4 (drop off bs))"

definition stats_data_of_bytes :: "u8 list \<Rightarrow> connman_stats_data" where
  "stats_data_of_bytes bs = \<lparr>rx_packets = field32 0 bs, tx_packets = field32 4 bs,
     rx_bytes = field32 8 bs, tx_bytes = field32 12 bs, rx_errors = field32 16 bs,
     tx_errors = field32 20 bs, rx_dropped = field32 24 bs, tx_dropped = field32 28 bs,
     sd_time = field32 32 bs\<rparr>"

definition stats_record_bytes :: "stats_record \<Rightarrow> u8 list" where
  "stats_record_bytes r = bytes64 (sr_ts r) @ bytes32 (sr_roaming r) @ stats_data_bytes (sr_data r)"

definition stats_record_of_bytes :: "u8 list \<Rightarrow> stats_record" where
  "stats_record_of_bytes bs = \<lparr>sr_ts = of_bytes64 (take 8 bs), sr_roaming = field32 8 bs,
     sr_data = stats_data_of_bytes (drop 12 bs)\<rparr>"

text \<open>
  The sizes of the two structures: five unsigned integers; a 64-bit time, an unsigned integer
  and nine more, without padding.
\<close>

abbreviation (input) header_size :: nat where "header_size \<equiv> 20"
abbreviation (input) record_size :: nat where "record_size \<equiv> 48"

definition MAGIC :: u32 where "MAGIC = 0xFA00B916"

abbreviation (input) UINT_MAX :: u32 where "UINT_MAX \<equiv> 0xFFFFFFFF"

section \<open>State\<close>

record stats_file =
  sf_fd :: int
  sf_name :: "string option"
  sf_addr :: "nat option"            \<comment> \<open>the mapped inode\<close>
  sf_len :: u64
  sf_max_len :: u64
  sf_first :: nat
  sf_last :: nat
  sf_home :: "nat option"
  sf_roaming :: "nat option"
  sf_history_name :: "string option"
  sf_account_period_offset :: int

record stats_world =
  sw_hash :: "nat \<rightharpoonup> stats_file"
  sw_names :: "string \<rightharpoonup> nat"
  sw_dirs :: "string list"
  sw_data :: "nat \<Rightarrow> u8 list"
  sw_next :: nat                     \<comment> \<open>the next unused inode\<close>
  sw_fds :: "(int \<times> nat) list"
  sw_calls :: nat

record stats_env =
  se_fail :: "nat \<Rightarrow> nat"
  se_page :: u64
  se_max_file_size :: u64
  se_now :: u64
  se_alloc :: bool
  se_ident :: "nat \<Rightarrow> string"
  se_storage :: string
  se_temp :: "nat \<Rightarrow> string"
  se_date :: "u64 \<Rightarrow> int"
  se_day :: "int \<Rightarrow> nat"
  se_month :: "int \<Rightarrow> nat"
  se_subtract_months :: "int \<Rightarrow> nat \<Rightarrow> int"
  se_set_day :: "int \<Rightarrow> int \<Rightarrow> int"

definition zero_file :: stats_file where
  "zero_file = \<lparr>sf_fd = 0, sf_name = None, sf_addr = None, sf_len = 0, sf_max_len = 0,
     sf_first = 0, sf_last = 0, sf_home = None, sf_roaming = None, sf_history_name = None,
     sf_account_period_offset = 0\<rparr>"

section \<open>System calls\<close>

definition syscall :: "stats_env \<Rightarrow> stats_world \<Rightarrow> nat \<times> stats_world" where
  "syscall e w = (se_fail e (sw_calls w), w\<lparr>sw_calls := Suc (sw_calls w)\<rparr>)"

text \<open>A new descriptor is the lowest one that is not open.\<close>

definition lowest_fd :: "stats_world \<Rightarrow> int" where
  "lowest_fd w = int (hd (filter (\<lambda>n. int n \<notin> fst ` set (sw_fds w)) [0..<Suc (length (sw_fds w))]))"

definition close_fd :: "int \<Rightarrow> stats_world \<Rightarrow> stats_world" where
  "close_fd fd w = w\<lparr>sw_fds := filter (\<lambda>(d, _). d \<noteq> fd) (sw_fds w)\<rparr>"

definition open_inode :: "nat \<Rightarrow> stats_world \<Rightarrow> int \<times> stats_world" where
  "open_inode i w = (lowest_fd w, w\<lparr>sw_fds := (lowest_fd w, i) # sw_fds w\<rparr>)"

definition create_file :: "string \<Rightarrow> stats_world \<Rightarrow> nat \<times> stats_world" where
  "create_file name w = (sw_next w, w\<lparr>sw_names := (sw_names w)(name \<mapsto> sw_next w),
     sw_data := (sw_data w)(sw_next w := []), sw_next := Suc (sw_next w)\<rparr>)"

definition sys_open :: "stats_env \<Rightarrow> string \<Rightarrow> stats_world \<Rightarrow> (nat + int) \<times> stats_world" where
  "sys_open e name w = (let (err, w1) = syscall e w in
     if err \<noteq> 0 then (Inl err, w1)
     else let (i, w2) = (case sw_names w1 name of Some i \<Rightarrow> (i, w1) | None \<Rightarrow> create_file name w1);
              (fd, w3) = open_inode i w2
          in (Inr fd, w3))"

definition sys_mkstemp :: "stats_env \<Rightarrow> stats_world \<Rightarrow> (nat + int \<times> string) \<times> stats_world" where
  "sys_mkstemp e w = (let (err, w1) = syscall e w in
     if err \<noteq> 0 then (Inl err, w1)
     else let name = se_temp e (sw_calls w);
              (i, w2) = create_file name w1;
              (fd, w3) = open_inode i w2
          in (Inr (fd, name), w3))"

abbreviation (input) EBADF :: nat where "EBADF \<equiv> 9"
abbreviation (input) EEXIST :: nat where "EEXIST \<equiv> 17"
abbreviation (input) EINVAL :: nat where "EINVAL \<equiv> 22"
abbreviation (input) ENOMEM :: nat where "ENOMEM \<equiv> 12"
abbreviation (input) EALREADY :: nat where "EALREADY \<equiv> 114"

definition fd_call :: "stats_env \<Rightarrow> int \<Rightarrow> stats_world \<Rightarrow> (nat + nat) \<times> stats_world" where
  "fd_call e fd w = (let (err, w1) = syscall e w in
     case map_of (sw_fds w1) fd of
       None \<Rightarrow> (Inl EBADF, w1)
     | Some i \<Rightarrow> (if err \<noteq> 0 then Inl err else Inr i, w1))"

definition resize :: "nat \<Rightarrow> u8 list \<Rightarrow> u8 list" where
  "resize n bs = take n bs @ replicate (n - length bs) 0"

definition sys_unlink :: "stats_env \<Rightarrow> string \<Rightarrow> stats_world \<Rightarrow> stats_world" where
  "sys_unlink e name w = (let (err, w1) = syscall e w in
     if err \<noteq> 0 then w1 else w1\<lparr>sw_names := (sw_names w1)(name := None)\<rparr>)"

definition sys_link :: "stats_env \<Rightarrow> string \<Rightarrow> string \<Rightarrow> stats_world \<Rightarrow> int \<times> stats_world" where
  "sys_link e old new w = (let (err, w1) = syscall e w in
     if err \<noteq> 0 then (-1, w1)
     else case sw_names w1 old of
       None \<Rightarrow> (-1, w1)
     | Some i \<Rightarrow> (if sw_names w1 new \<noteq> None then (-1, w1)
                  else (0, w1\<lparr>sw_names := (sw_names w1)(new \<mapsto> i)\<rparr>)))"

section \<open>Access to the mapping\<close>

definition mapped :: "stats_world \<Rightarrow> stats_file \<Rightarrow> nat \<Rightarrow> u8 list" where
  "mapped w f i = take (unat (sf_len f)) (sw_data w i)"

definition read_map :: "stats_world \<Rightarrow> stats_file \<Rightarrow> nat \<Rightarrow> nat \<Rightarrow> u8 list result" where
  "read_map w f off n = (case sf_addr f of
     None \<Rightarrow> Inl NullDeref
   | Some i \<Rightarrow> if off + n \<le> length (mapped w f i) then Inr (take n (drop off (mapped w f i)))
               else Inl OutOfBounds)"

definition write_map :: "stats_world \<Rightarrow> stats_file \<Rightarrow> nat \<Rightarrow> u8 list \<Rightarrow> stats_world result" where
  "write_map w f off bs = (case sf_addr f of
     None \<Rightarrow> Inl NullDeref
   | Some i \<Rightarrow> if off + length bs \<le> length (mapped w f i)
               then Inr (w\<lparr>sw_data := (sw_data w)(i := poke off bs (sw_data w i))\<rparr>)
               else Inl OutOfBounds)"

definition read_u32 :: "stats_world \<Rightarrow> stats_file \<Rightarrow> nat \<Rightarrow> u32 result" where
  "read_u32 w f off = bind_r (read_map w f off 4) (\<lambda>bs. Inr (of_bytes32 bs))"

definition read_record :: "stats_world \<Rightarrow> stats_file \<times> nat \<Rightarrow> stats_record result" where
  "read_record w p = bind_r (read_map w (fst p) (snd p) record_size)
     (\<lambda>bs. Inr (stats_record_of_bytes bs))"

text \<open>The fields of the header, by their offsets in the structure.\<close>

abbreviation (input) hdr_magic :: nat where "hdr_magic \<equiv> 0"
abbreviation (input) hdr_begin :: nat where "hdr_begin \<equiv> 4"
abbreviation (input) hdr_end :: nat where "hdr_end \<equiv> 8"
abbreviation (input) hdr_home :: nat where "hdr_home \<equiv> 12"
abbreviation (input) hdr_roaming :: nat where "hdr_roaming \<equiv> 16"

definition get_begin :: "stats_world \<Rightarrow> stats_file \<Rightarrow> nat result" where
  "get_begin w f = bind_r (read_u32 w f hdr_begin) (\<lambda>off. Inr (unat off))"

definition get_end :: "stats_world \<Rightarrow> stats_file \<Rightarrow> nat result" where
  "get_end w f = bind_r (read_u32 w f hdr_end) (\<lambda>off. Inr (unat off))"

definition get_home :: "stats_world \<Rightarrow> stats_file \<Rightarrow> nat option result" where
  "get_home w f = bind_r (read_u32 w f hdr_home)
     (\<lambda>h. Inr (if h = UINT_MAX then None else Some (unat h)))"

definition get_roaming :: "stats_world \<Rightarrow> stats_file \<Rightarrow> nat option result" where
  "get_roaming w f = bind_r (read_u32 w f hdr_roaming)
     (\<lambda>h. Inr (if h = UINT_MAX then None else Some (unat h)))"

definition set_end :: "stats_world \<Rightarrow> stats_file \<Rightarrow> nat \<Rightarrow> stats_world result" where
  "set_end w f p = write_map w f hdr_end (bytes32 (of_nat p))"

definition set_home :: "stats_world \<Rightarrow> stats_file \<Rightarrow> nat \<Rightarrow> stats_world result" where
  "set_home w f p = write_map w f hdr_home (bytes32 (of_nat p))"

definition set_roaming :: "stats_world \<Rightarrow> stats_file \<Rightarrow> nat \<Rightarrow> stats_world result" where
  "set_roaming w f p = write_map w f hdr_roaming (bytes32 (of_nat p))"

definition get_next :: "stats_file \<Rightarrow> nat \<Rightarrow> nat" where
  "get_next f cur = (let cur' = cur + record_size in if cur' > sf_last f then sf_first f else cur')"

definition get_iterator_begin :: "stats_world \<Rightarrow> stats_file \<Rightarrow> nat result" where
  "get_iterator_begin w f = bind_r (get_begin w f) (\<lambda>p. Inr (get_next f p))"

definition get_iterator_end :: "stats_world \<Rightarrow> stats_file \<Rightarrow> nat result" where
  "get_iterator_end w f = bind_r (get_end w f) (\<lambda>p. Inr (get_next f p))"

section \<open>Mapping and opening files\<close>

definition update_first :: "stats_file \<Rightarrow> stats_file" where
  "update_first f = f\<lparr>sf_first := header_size\<rparr>"

definition update_last :: "stats_file \<Rightarrow> stats_file" where
  "update_last f =
     (let max_entries = (ucast ((sf_len f - of_nat header_size) div of_nat record_size) :: u32)
      in f\<lparr>sf_last := sf_first f + unat max_entries * record_size - record_size\<rparr>)"

definition update_home :: "stats_world \<Rightarrow> stats_file \<Rightarrow> stats_file result" where
  "update_home w f = bind_r (get_home w f) (\<lambda>h. Inr (f\<lparr>sf_home := h\<rparr>))"

definition update_roaming :: "stats_world \<Rightarrow> stats_file \<Rightarrow> stats_file result" where
  "update_roaming w f = bind_r (get_roaming w f) (\<lambda>h. Inr (f\<lparr>sf_roaming := h\<rparr>))"

definition stats_file_update_cache :: "stats_world \<Rightarrow> stats_file \<Rightarrow> stats_file result" where
  "stats_file_update_cache w f =
     bind_r (update_home w (update_last (update_first f))) (update_roaming w)"

text \<open>The length is passed to \<^verbatim>\<open>ftruncate\<close> as a signed offset, which may not be negative.\<close>

definition page_round :: "stats_env \<Rightarrow> u64 \<Rightarrow> u64" where
  "page_round e sz = (sz + se_page e - 1) AND NOT (se_page e - 1)"

definition stats_file_remap ::
    "stats_env \<Rightarrow> stats_file \<Rightarrow> u64 \<Rightarrow> stats_world \<Rightarrow> (int \<times> stats_file \<times> stats_world) result" where
  "stats_file_remap e f sz w =
     (let new_size = page_round e sz;
          (t, w1) = fd_call e (sf_fd f) w
      in case t of
        Inl err \<Rightarrow> Inr (- int err, f, w1)
      | Inr i \<Rightarrow>
         if sint new_size < 0 then Inr (- int EINVAL, f, w1)
         else
          (let w2 = w1\<lparr>sw_data := (sw_data w1)(i := resize (unat new_size) (sw_data w1 i))\<rparr>;
               (err, w3) = syscall e w2
           in if err \<noteq> 0 then Inr (- int err, f, w3)
              else let addr = (case sf_addr f of None \<Rightarrow> i | Some j \<Rightarrow> j);
                       f1 = f\<lparr>sf_addr := Some addr, sf_len := new_size\<rparr>
                   in bind_r (stats_file_update_cache w3 f1) (\<lambda>f2. Inr (0, f2, w3))))"

definition stats_open ::
    "stats_env \<Rightarrow> stats_file \<Rightarrow> string \<Rightarrow> stats_world \<Rightarrow> int \<times> stats_file \<times> stats_world" where
  "stats_open e f name w = (case sys_open e name w of
     (Inl err, w1) \<Rightarrow> (- int err, f\<lparr>sf_fd := -1, sf_name := None\<rparr>, w1)
   | (Inr fd, w1) \<Rightarrow> (0, f\<lparr>sf_fd := fd, sf_name := Some name\<rparr>, w1))"

definition stats_open_temp ::
    "stats_env \<Rightarrow> stats_file \<Rightarrow> stats_world \<Rightarrow> int \<times> stats_file \<times> stats_world" where
  "stats_open_temp e f w = (case sys_mkstemp e w of
     (Inl err, w1) \<Rightarrow> (- int err, f\<lparr>sf_fd := -1, sf_name := None\<rparr>, w1)
   | (Inr (fd, name), w1) \<Rightarrow> (0, f\<lparr>sf_fd := fd, sf_name := Some name\<rparr>, w1))"

text \<open>The test of the header of an existing file, and the header of a new one.\<close>

definition header_bad :: "stats_world \<Rightarrow> stats_file \<Rightarrow> bool result" where
  "header_bad w f =
     bind_r (read_u32 w f hdr_magic) (\<lambda>magic.
     bind_r (read_u32 w f hdr_begin) (\<lambda>b.
     bind_r (read_u32 w f hdr_end) (\<lambda>en.
     bind_r (read_u32 w f hdr_home) (\<lambda>h.
     bind_r (read_u32 w f hdr_roaming) (\<lambda>r.
       Inr (magic \<noteq> MAGIC \<or> b < of_nat header_size \<or> en < of_nat header_size \<or>
            h < of_nat header_size \<or> r < of_nat header_size \<or>
            ucast b > sf_len f \<or> ucast en > sf_len f))))))"

definition header_bytes :: "u8 list" where
  "header_bytes = bytes32 MAGIC @ bytes32 (of_nat header_size) @ bytes32 (of_nat header_size) @
     bytes32 UINT_MAX @ bytes32 UINT_MAX"

definition stats_file_setup ::
    "stats_env \<Rightarrow> stats_file \<Rightarrow> stats_world \<Rightarrow> (int \<times> stats_file \<times> stats_world) result" where
  "stats_file_setup e f w =
     (let (t, w1) = fd_call e (sf_fd f) w
      in case t of
        Inl err \<Rightarrow> Inr (- int err, f\<lparr>sf_name := None\<rparr>, close_fd (sf_fd f) w1)
      | Inr i \<Rightarrow>
          (let sz = (of_nat (length (sw_data w1 i)) :: u64);
               f1 = f\<lparr>sf_max_len := se_max_file_size e\<rparr>;
               sz' = (if sz < se_page e then se_page e else sz)
           in bind_r (stats_file_remap e f1 sz' w1) (\<lambda>(err, f2, w2).
              if err < 0 then Inr (err, f2\<lparr>sf_name := None\<rparr>, close_fd (sf_fd f2) w2)
              else bind_r (header_bad w2 f2) (\<lambda>bad.
                   if bad then bind_r (write_map w2 f2 0 header_bytes) (\<lambda>w3.
                               bind_r (stats_file_update_cache w3 f2) (\<lambda>f3. Inr (0, f3, w3)))
                   else Inr (0, f2, w2)))))"

section \<open>Iterating and appending\<close>

record stats_iter =
  si_file :: stats_file
  si_begin :: nat
  si_end :: nat
  si_it :: nat

definition get_next_record :: "stats_iter \<Rightarrow> (stats_file \<times> nat) option \<times> stats_iter" where
  "get_next_record iter = (if si_it iter \<noteq> si_end iter
     then (Some (si_file iter, si_it iter), iter\<lparr>si_it := get_next (si_file iter) (si_it iter)\<rparr>)
     else (None, iter))"

definition append_record ::
    "stats_env \<Rightarrow> stats_file \<Rightarrow> stats_file \<times> nat \<Rightarrow> stats_world \<Rightarrow>
     (int \<times> stats_file \<times> stats_world) result" where
  "append_record e f rec w =
     bind_r (get_end w f) (\<lambda>en.
     bind_r (if sf_last f = en
             then bind_r (stats_file_remap e f (sf_len f + se_page e) w) (\<lambda>(err, f1, w1).
                  if err < 0 then Inr (err, f1, w1)
                  else bind_r (stats_file_update_cache w1 f1) (\<lambda>f2. Inr (0, f2, w1)))
             else Inr (0, f, w)) (\<lambda>(err, f1, w1).
     if err < 0 then Inr (err, f1, w1)
     else bind_r (get_end w1 f1) (\<lambda>cur.
          let next = get_next f1 cur in
          bind_r (read_map w1 (fst rec) (snd rec) record_size) (\<lambda>bs.
          bind_r (write_map w1 f1 next bs) (\<lambda>w2.
          bind_r (set_end w2 f1 next) (\<lambda>w3. Inr (0, f1, w3)))))))"

record process_state =
  ps_iter :: stats_iter
  ps_temp :: stats_file
  ps_cur :: "(stats_file \<times> nat) option"
  ps_next :: "(stats_file \<times> nat) option"
  ps_home :: "(stats_file \<times> nat) option"
  ps_roaming :: "(stats_file \<times> nat) option"
  ps_world :: stats_world

text \<open>Whether the period of a record ends before the next record begins.\<close>

definition period_ends :: "stats_env \<Rightarrow> int \<Rightarrow> int \<Rightarrow> u64 \<Rightarrow> u64 \<Rightarrow> bool" where
  "period_ends e step_date offset cur_ts next_ts =
     (let date_cur = se_date e cur_ts; date_next = se_date e next_ts in
      if date_cur < step_date then
        (let month_cur = se_month e date_cur; month_next = se_month e date_next;
             day_cur = int (se_day e date_cur); day_next = int (se_day e date_next)
         in if day_cur = day_next \<and> month_cur \<noteq> month_next then True
            else day_cur < offset \<and> day_next \<ge> offset)
      else date_next - date_cur > 0)"

definition append_pending ::
    "stats_env \<Rightarrow> (stats_file \<times> nat) option \<Rightarrow> stats_file \<Rightarrow> stats_world \<Rightarrow>
     (stats_file \<times> stats_world) result" where
  "append_pending e p temp w = (case p of
     None \<Rightarrow> Inr (temp, w)
   | Some rec \<Rightarrow> bind_r (append_record e temp rec w) (\<lambda>(err, temp1, w1). Inr (temp1, w1)))"

definition process_body ::
    "stats_env \<Rightarrow> int \<Rightarrow> int \<Rightarrow> process_state \<Rightarrow> process_state result" where
  "process_body e step_date offset s = (case (ps_cur s, ps_next s) of
     (Some cur, Some next) \<Rightarrow>
       bind_r (read_record (ps_world s) cur) (\<lambda>rc.
       bind_r (read_record (ps_world s) next) (\<lambda>rn.
       let s1 = (if sr_roaming rc = 1 then s\<lparr>ps_roaming := Some cur\<rparr> else s\<lparr>ps_home := Some cur\<rparr>) in
       bind_r (if period_ends e step_date offset (sr_ts rc) (sr_ts rn)
               then bind_r (append_pending e (ps_home s1) (ps_temp s1) (ps_world s1)) (\<lambda>(t1, w1).
                    bind_r (append_pending e (ps_roaming s1) t1 w1) (\<lambda>(t2, w2).
                    Inr (s1\<lparr>ps_home := None, ps_roaming := None, ps_temp := t2, ps_world := w2\<rparr>)))
               else Inr s1) (\<lambda>s2.
       let (n, iter) = get_next_record (ps_iter s2)
       in Inr (s2\<lparr>ps_cur := Some next, ps_next := n, ps_iter := iter\<rparr>))))
   | _ \<Rightarrow> Inl NullDeref)"

partial_function (option) process_loop ::
    "stats_env \<Rightarrow> int \<Rightarrow> int \<Rightarrow> process_state \<Rightarrow> process_state diverging" where
  "process_loop e step_date offset s =
     (if ps_next s = None then Some (Inr s)
      else case process_body e step_date offset s of
             Inl x \<Rightarrow> Some (Inl x)
           | Inr s' \<Rightarrow> process_loop e step_date offset s')"

definition process_file ::
    "stats_env \<Rightarrow> stats_iter \<Rightarrow> stats_file \<Rightarrow> (stats_file \<times> nat) option \<Rightarrow> int \<Rightarrow> int \<Rightarrow>
     stats_world \<Rightarrow> ((stats_file \<times> nat) option \<times> stats_file \<times> stats_world) diverging" where
  "process_file e iter temp cur step_date offset w =
     (let (cur1, iter1) = (case cur of None \<Rightarrow> get_next_record iter | Some _ \<Rightarrow> (cur, iter));
          (next, iter2) = get_next_record iter1
      in bind_d (process_loop e step_date offset \<lparr>ps_iter = iter2, ps_temp = temp, ps_cur = cur1,
                   ps_next = next, ps_home = None, ps_roaming = None, ps_world = w\<rparr>)
           (\<lambda>s. Some (Inr (ps_cur s, ps_temp s, ps_world s))))"

section \<open>Summarising a full ring\<close>

text \<open>The date at which the accounting changes from months to days.\<close>

definition step_size_date :: "stats_env \<Rightarrow> int \<Rightarrow> int" where
  "step_size_date e offset =
     (let today = se_date e (se_now e);
          d = (if int (se_day e today) - offset \<ge> 0 then se_subtract_months e today 2
               else se_subtract_months e today 3)
      in se_set_day e d offset)"

text \<open>The records of the data file that are older than the last record of the history.\<close>

partial_function (option) skip_older ::
    "stats_world \<Rightarrow> u64 \<Rightarrow> (stats_file \<times> nat) option \<Rightarrow> stats_iter \<Rightarrow> stats_iter diverging" where
  "skip_older w ts next iter = (case next of
     None \<Rightarrow> Some (Inr iter)
   | Some p \<Rightarrow> (case read_record w p of
       Inl x \<Rightarrow> Some (Inl x)
     | Inr r \<Rightarrow> if sint ts > sint (sr_ts r)
                then skip_older w ts (fst (get_next_record iter)) (snd (get_next_record iter))
                else Some (Inr iter)))"

definition file_iter :: "stats_world \<Rightarrow> stats_file \<Rightarrow> stats_iter result" where
  "file_iter w f = bind_r (get_iterator_begin w f) (\<lambda>b. bind_r (get_iterator_end w f) (\<lambda>en.
     Inr \<lparr>si_file = f, si_begin = b, si_end = en, si_it = b\<rparr>))"

definition summarize ::
    "stats_env \<Rightarrow> stats_file \<Rightarrow> stats_file option \<Rightarrow> stats_file \<Rightarrow> stats_world \<Rightarrow>
     (int \<times> stats_file \<times> stats_world) diverging" where
  "summarize e data_file history_file temp_file w =
     (let offset = sf_account_period_offset data_file; step_date = step_size_date e offset in
      bind_d (case history_file of
                None \<Rightarrow> Some (Inr (None, temp_file, w))
              | Some h \<Rightarrow> bind_d (Some (file_iter w h)) (\<lambda>iter.
                            process_file e iter temp_file None step_date offset w))
        (\<lambda>(cur, temp1, w1).
      bind_d (Some (file_iter w1 data_file)) (\<lambda>data_iter.
      bind_d (case cur of
                None \<Rightarrow> Some (Inr data_iter)
              | Some c \<Rightarrow> let (next, iter1) = get_next_record data_iter in
                  (case read_record w1 c of
                     Inl x \<Rightarrow> if next = None then Some (Inr iter1) else Some (Inl x)
                   | Inr rc \<Rightarrow> skip_older w1 (sr_ts rc) next iter1))
        (\<lambda>data_iter1.
      bind_d (process_file e data_iter1 temp1 cur step_date offset w1) (\<lambda>(cur1, temp2, w2).
      case cur1 of
        None \<Rightarrow> Some (Inr (0, temp2, w2))
      | Some c \<Rightarrow> bind_d (Some (append_record e temp2 c w2))
                    (\<lambda>(_, temp3, w3). Some (Inr (0, temp3, w3))))))))"

definition stats_file_unmap :: "stats_file \<Rightarrow> stats_file" where
  "stats_file_unmap f = f\<lparr>sf_addr := None\<rparr>"

definition stats_file_cleanup :: "stats_file \<Rightarrow> stats_file" where
  "stats_file_cleanup f = f\<lparr>sf_fd := -1, sf_name := None\<rparr>"

definition unlink_name :: "stats_env \<Rightarrow> string option \<Rightarrow> stats_world \<Rightarrow> stats_world" where
  "unlink_name e name w = (case name of None \<Rightarrow> w | Some n \<Rightarrow> sys_unlink e n w)"

definition stats_file_close_swap ::
    "stats_env \<Rightarrow> stats_file \<Rightarrow> stats_file \<Rightarrow> stats_world \<Rightarrow>
     int \<times> stats_file \<times> stats_file \<times> stats_world" where
  "stats_file_close_swap e history_file temp_file w =
     (let w1 = close_fd (sf_fd temp_file) w;
          w2 = unlink_name e (sf_name history_file) w1;
          (err, w3) = (case (sf_name temp_file, sf_name history_file) of
                         (Some t, Some h) \<Rightarrow> sys_link e t h w2
                       | _ \<Rightarrow> (-1, w2));
          w4 = unlink_name e (sf_name temp_file) w3;
          w5 = close_fd (sf_fd history_file) w4
      in (err, stats_file_cleanup (stats_file_unmap history_file),
          stats_file_cleanup (stats_file_unmap temp_file), w5))"

text \<open>
  The structure itself is freed with \<^verbatim>\<open>g_free\<close>, which is only allowed for memory that the
  allocator handed out; \<open>on_heap\<close> says where the structure is.
\<close>

definition stats_free :: "bool \<Rightarrow> stats_file option \<Rightarrow> stats_world \<Rightarrow> stats_world result" where
  "stats_free on_heap file w = (case file of
     None \<Rightarrow> Inr w
   | Some f \<Rightarrow> if on_heap then Inr (close_fd (sf_fd f) w) else Inl BadFree)"

definition stats_file_history_update ::
    "stats_env \<Rightarrow> stats_file \<Rightarrow> stats_world \<Rightarrow> (int \<times> stats_world) diverging" where
  "stats_file_history_update e data_file w =
     (case sf_history_name data_file of
        None \<Rightarrow> Some (Inl NullDeref)
      | Some hname \<Rightarrow>
     (let (err, history_file, w1) = stats_open e zero_file hname w in
      if err < 0 then Some (Inr (err, w1))
      else
      bind_d (Some (stats_file_setup e history_file w1)) (\<lambda>(_, history_file, w2).
      let (err, temp_file, w3) = stats_open_temp e zero_file w2 in
      if err < 0 then bind_d (Some (stats_free False (Some history_file) w3)) (\<lambda>w4. Some (Inr (err, w4)))
      else
      bind_d (Some (stats_file_setup e temp_file w3)) (\<lambda>(_, temp_file, w4).
      bind_d (summarize e data_file (Some history_file) temp_file w4) (\<lambda>(_, temp_file, w5).
      let (err, _, _, w6) = stats_file_close_swap e history_file temp_file w5
      in Some (Inr (err, w6)))))))"

section \<open>Interface\<close>

definition path_of :: "stats_env \<Rightarrow> nat \<Rightarrow> string \<Rightarrow> string" where
  "path_of e service leaf = se_storage e @ ''/'' @ se_ident e service @ leaf"

definition g_hash_table_remove :: "nat \<Rightarrow> stats_world \<Rightarrow> stats_world result" where
  "g_hash_table_remove service w =
     bind_r (stats_free True (sw_hash w service) w)
       (\<lambda>w1. Inr (w1\<lparr>sw_hash := (sw_hash w1)(service := None)\<rparr>))"

definition make_dir :: "stats_env \<Rightarrow> string \<Rightarrow> stats_world \<Rightarrow> nat \<times> stats_world" where
  "make_dir e dir w = (if dir \<in> set (sw_dirs w) then (0, w)
     else let (err, w1) = syscall e w in
       if err = 0 then (0, w1\<lparr>sw_dirs := dir # sw_dirs w1\<rparr>)
       else if err = EEXIST then (0, w1) else (err, w1))"

definition stats_service_register ::
    "stats_env \<Rightarrow> nat \<Rightarrow> stats_world \<Rightarrow> (int \<times> stats_world) result" where
  "stats_service_register e service w =
     (if sw_hash w service \<noteq> None then Inr (- int EALREADY, w)
      else if \<not> se_alloc e then Inr (- int ENOMEM, w)
      else
       let put = (\<lambda>f v. v\<lparr>sw_hash := (sw_hash v)(service \<mapsto> f)\<rparr>);
           fail = (\<lambda>err v. bind_r (g_hash_table_remove service v) (\<lambda>v1. Inr (err, v1)));
           w1 = put zero_file w;
           (derr, w2) = make_dir e (path_of e service []) w1
       in if derr \<noteq> 0 then fail (- int derr) w2
          else
           let f1 = zero_file\<lparr>sf_history_name := Some (path_of e service ''/history''),
                              sf_account_period_offset := 1\<rparr>;
               (oerr, f2, w3) = stats_open e f1 (path_of e service ''/data'') (put f1 w2)
           in if oerr < 0 then fail oerr (put f2 w3)
              else bind_r (stats_file_setup e f2 (put f2 w3)) (\<lambda>(serr, f3, w4).
                   if serr < 0 then fail serr (put f3 w4) else Inr (0, put f3 w4)))"

definition stats_service_unregister :: "nat \<Rightarrow> stats_world \<Rightarrow> stats_world result" where
  "stats_service_unregister service w = g_hash_table_remove service w"

text \<open>
  The flag is a \<^verbatim>\<open>connman_bool_t\<close>, an integer that is compared with \<^verbatim>\<open>TRUE\<close>; a history update
  that fails is only reported.
\<close>

definition stats_grow ::
    "stats_env \<Rightarrow> stats_file \<Rightarrow> stats_world \<Rightarrow> (int \<times> stats_file \<times> stats_world) result" where
  "stats_grow e f w =
     (if sf_len f < sf_max_len f then bind_r (get_end w f) (\<lambda>en.
        if sf_last f = en then stats_file_remap e f (sf_len f + se_page e) w
        else Inr (0, f, w))
      else Inr (0, f, w))"

definition store_record ::
    "stats_env \<Rightarrow> stats_file \<Rightarrow> nat \<Rightarrow> u32 \<Rightarrow> connman_stats_data \<Rightarrow> stats_world \<Rightarrow>
     stats_world result" where
  "store_record e f next roaming data w =
     bind_r (write_map w f next
       (stats_record_bytes \<lparr>sr_ts = se_now e, sr_roaming = roaming, sr_data = data\<rparr>)) (\<lambda>w1.
     bind_r (if roaming \<noteq> 1 then set_home w1 f next else set_roaming w1 f next) (\<lambda>w2.
     set_end w2 f next))"

definition stats_update ::
    "stats_env \<Rightarrow> nat \<Rightarrow> u32 \<Rightarrow> connman_stats_data \<Rightarrow> stats_world \<Rightarrow>
     (int \<times> stats_world) diverging" where
  "stats_update e service roaming data w = (case sw_hash w service of
     None \<Rightarrow> Some (Inr (- int EEXIST, w))
   | Some f \<Rightarrow>
       bind_d (Some (stats_grow e f w)) (\<lambda>(err, f1, w1).
       let w2 = w1\<lparr>sw_hash := (sw_hash w1)(service \<mapsto> f1)\<rparr> in
       if err < 0 then Some (Inr (err, w2))
       else
       bind_d (Some (get_end w2 f1)) (\<lambda>en.
       let next = get_next f1 en in
       bind_d (Some (get_begin w2 f1)) (\<lambda>b.
       bind_d (if next = b
               then bind_d (stats_file_history_update e f1 w2) (\<lambda>(_, w3). Some (Inr w3))
               else Some (Inr w2)) (\<lambda>w3.
       bind_d (Some (store_record e f1 next roaming data w3)) (\<lambda>w4. Some (Inr (0, w4))))))))"

definition stats_get ::
    "nat \<Rightarrow> u32 \<Rightarrow> connman_stats_data \<Rightarrow> stats_world \<Rightarrow>
     (int \<times> connman_stats_data) result" where
  "stats_get service roaming data w = (case sw_hash w service of
     None \<Rightarrow> Inr (- int EEXIST, data)
   | Some f \<Rightarrow>
       (case (if roaming \<noteq> 1 then sf_home f else sf_roaming f) of
          None \<Rightarrow> Inr (0, data)
        | Some p \<Rightarrow> bind_r (read_map w f (p + 12) 36) (\<lambda>bs. Inr (0, stats_data_of_bytes bs))))"

definition stats_init :: "stats_world \<Rightarrow> stats_world" where
  "stats_init w = w\<lparr>sw_hash := Map.empty\<rparr>"

text \<open>Destroying the table frees every file in it; the services registered are an argument.\<close>

fun stats_cleanup :: "nat list \<Rightarrow> stats_world \<Rightarrow> stats_world result" where
  "stats_cleanup [] w = Inr (w\<lparr>sw_hash := Map.empty\<rparr>)"
| "stats_cleanup (s # ss) w = bind_r (g_hash_table_remove s w) (stats_cleanup ss)"

end
