(* ===== verification/Stats_Ring.thy ===== *)
theory Stats_Ring
  imports Stats
begin

text \<open>
  The ring buffer of \<^verbatim>\<open>src/stats.c\<close>: layout of the records, rounding to pages, mapped files and
  their growth, the records of a file as a list, iteration and appending. The lemmas lift the
  byte-level model to lists of records.
\<close>

section \<open>Layout of a record\<close>

lemma length_bytes64 [simp]: "length (bytes64 w) = 8"
  by (simp add: bytes64_def)

lemma of_bytes64_bytes64: "of_bytes64 (bytes64 w) = w"
proof (rule bit_word_eqI)
  fix n assume n: "n < LENGTH(64)"
  then show "bit (of_bytes64 (bytes64 w)) n = bit w n"
    by (auto simp: of_bytes64_def bytes64_def u32.dec_enc bit_or_iff bit_push_bit_iff
        bit_unsigned_iff bit_drop_bit_eq dest: bit_imp_le_length)
qed

lemma bytes64_of_bytes64:
  assumes "length bs = 8" shows "bytes64 (of_bytes64 bs) = bs"
proof -
  have lo: "(ucast (of_bytes64 bs) :: u32) = of_bytes32 (take 4 bs)"
    by (rule bit_word_eqI) (auto simp: of_bytes64_def bit_or_iff bit_push_bit_iff bit_unsigned_iff)
  have hi: "(ucast (drop_bit 32 (of_bytes64 bs)) :: u32) = of_bytes32 (take 4 (drop 4 bs))"
    by (rule bit_word_eqI) (auto simp: of_bytes64_def bit_or_iff bit_push_bit_iff bit_unsigned_iff
        bit_drop_bit_eq dest: bit_imp_le_length)
  have "bytes64 (of_bytes64 bs) = take 4 bs @ take 4 (drop 4 bs)"
    using assms by (simp add: bytes64_def lo hi u32.enc_dec)
  also have "\<dots> = bs" using assms append_take_drop_id [of 4 bs] by simp
  finally show ?thesis .
qed

interpretation u64: byte_codec bytes64 of_bytes64 8
  by unfold_locales (simp_all add: of_bytes64_bytes64 bytes64_of_bytes64)

lemma field32_here: "field32 0 (bytes32 v @ rest) = v"
  by (simp add: field32_def u32.dec_enc)

lemma field32_later: "4 \<le> off \<Longrightarrow> field32 off (bytes32 v @ rest) = field32 (off - 4) rest"
  by (simp add: field32_def)

lemma bytes32_field32: "off + 4 \<le> length bs \<Longrightarrow> bytes32 (field32 off bs) = take 4 (drop off bs)"
  by (simp add: field32_def u32.enc_dec)

lemma take_Suc_fields:
  "n \<le> length bs \<Longrightarrow> take n bs @ take m (drop n bs) = take (n + m) bs"
  by (simp add: take_add)

interpretation sdata: byte_codec stats_data_bytes stats_data_of_bytes 36
proof unfold_locales
  fix x :: connman_stats_data and bs :: "u8 list"
  show "length (stats_data_bytes x) = 36" by (simp add: stats_data_bytes_def)
  show "stats_data_of_bytes (stats_data_bytes x) = x"
    by (cases x) (simp add: stats_data_of_bytes_def stats_data_bytes_def field32_here field32_later
      u32.dec_enc field32_def)
  assume "length bs = 36"
  then show "stats_data_bytes (stats_data_of_bytes bs) = bs"
    by (simp add: stats_data_of_bytes_def stats_data_bytes_def bytes32_field32 take_add [symmetric]
      flip: append_assoc)
qed

interpretation srec: byte_codec stats_record_bytes stats_record_of_bytes 48
proof unfold_locales
  fix x :: stats_record and bs :: "u8 list"
  show "length (stats_record_bytes x) = 48"
    by (simp add: stats_record_bytes_def sdata.length_enc)
  show "stats_record_of_bytes (stats_record_bytes x) = x"
    by (cases x) (simp add: stats_record_of_bytes_def stats_record_bytes_def u64.dec_enc
      sdata.dec_enc field32_def u32.dec_enc)
  assume "length bs = 48"
  then show "stats_record_bytes (stats_record_of_bytes bs) = bs"
    by (simp add: stats_record_of_bytes_def stats_record_bytes_def u64.enc_dec bytes32_field32
      sdata.enc_dec take_add [symmetric] flip: append_assoc)
qed

section \<open>Page rounding\<close>

definition page_ok :: "stats_env \<Rightarrow> bool" where
  "page_ok e \<longleftrightarrow> (\<exists>p. 7 \<le> p \<and> p < 32 \<and> se_page e = 2 ^ p)"

lemma and_not_mask_word: "(x :: 'a :: len word) AND NOT (mask p) = x - take_bit p x"
proof -
  have "x = (x AND mask p) + (x AND NOT (mask p))"
    by (subst disjunctive_add) (auto simp: bit_simps intro: bit_word_eqI)
  then show ?thesis by (metis add_diff_cancel_left' take_bit_eq_mask)
qed

lemma unat_of_nat_small: "n < 2 ^ 64 \<Longrightarrow> unat (of_nat n :: u64) = n"
  by (simp only: unsigned_of_nat) (simp add: take_bit_nat_eq_self)

lemma page_word:
  assumes "page_ok e"
  obtains p where "7 \<le> p" "p < 32" "se_page e = 2 ^ p" "unat (se_page e) = 2 ^ p"
proof -
  obtain p where p: "7 \<le> p" "p < 32" "se_page e = 2 ^ p" using assms by (auto simp: page_ok_def)
  have "(2 :: nat) ^ p < 2 ^ 64" using p by (intro power_strict_increasing) auto
  then have "unat (of_nat (2 ^ p) :: u64) = 2 ^ p" by (simp only: unat_of_nat_small)
  then have "unat (se_page e) = 2 ^ p" by (simp add: p)
  then show thesis using that p by blast
qed

lemma page_size_bounds:
  assumes "page_ok e" shows "128 \<le> unat (se_page e)" and "unat (se_page e) < 2 ^ 32"
proof -
  obtain p where p: "7 \<le> p" "p < 32" "unat (se_page e) = 2 ^ p" by (rule page_word [OF assms])
  have "(2 :: nat) ^ 7 \<le> 2 ^ p" using p by (intro power_increasing) auto
  moreover have "(2 :: nat) ^ p < 2 ^ 32" using p by (intro power_strict_increasing) auto
  ultimately show "128 \<le> unat (se_page e)" and "unat (se_page e) < 2 ^ 32" using p by simp_all
qed

lemma page_round_unat:
  assumes e: "page_ok e" and s: "unat sz \<le> 2 ^ 63 + 2 ^ 32"
  shows "unat (page_round e sz) =
    (unat sz + unat (se_page e) - 1) div unat (se_page e) * unat (se_page e)"
proof -
  obtain p where p: "7 \<le> p" "p < 32" "se_page e = 2 ^ p" "unat (se_page e) = 2 ^ p"
    by (rule page_word [OF e])
  note b = page_size_bounds [OF e]
  let ?x = "sz + se_page e - 1"
  have x: "unat ?x = unat sz + unat (se_page e) - 1"
  proof -
    have "?x = of_nat (unat sz + unat (se_page e) - 1)"
      using b by (simp add: of_nat_diff)
    also have "unat \<dots> = unat sz + unat (se_page e) - 1"
      using b s by (intro unat_of_nat_small) simp
    finally show ?thesis .
  qed
  have pr: "page_round e sz = ?x - take_bit p ?x"
    by (simp add: page_round_def p and_not_mask_word flip: mask_eq_exp_minus_1)
  have "unat (page_round e sz) = unat ?x - unat ?x mod 2 ^ p"
  proof -
    have t: "unat (take_bit p ?x) = unat ?x mod 2 ^ p"
      by (simp only: unsigned_take_bit_eq) (simp only: take_bit_eq_mod)
    then have "take_bit p ?x \<le> ?x" by (simp add: word_le_nat_alt)
    then show ?thesis using t pr by (simp only: unat_sub)
  qed
  then show ?thesis by (simp add: x p(4) minus_mod_eq_div_mult)
qed

lemma page_round_ge:
  assumes "page_ok e" and "unat sz \<le> 2 ^ 63 + 2 ^ 32"
  shows "unat sz \<le> unat (page_round e sz)" and "unat (page_round e sz) < unat sz + unat (se_page e)"
proof -
  let ?P = "unat (se_page e)"
  have P: "0 < ?P" using page_size_bounds [OF assms(1)] by simp
  have *: "(unat sz + ?P - 1) div ?P * ?P + (unat sz + ?P - 1) mod ?P = unat sz + ?P - 1"
    by (rule div_mult_mod_eq)
  have "(unat sz + ?P - 1) mod ?P < ?P" using P by simp
  with * P show "unat sz \<le> unat (page_round e sz)" and "unat (page_round e sz) < unat sz + ?P"
    unfolding page_round_unat [OF assms] by linarith+
qed

lemma page_round_multiple:
  assumes "page_ok e" and "unat sz \<le> 2 ^ 63 + 2 ^ 32" and "unat (se_page e) dvd unat sz"
  shows "page_round e sz = sz"
proof -
  let ?P = "unat (se_page e)"
  have P: "0 < ?P" using page_size_bounds [OF assms(1)] by simp
  obtain k where k: "unat sz = ?P * k" using assms(3) by blast
  have "(?P * k + ?P - 1) div ?P = k"
    using P by (cases ?P) (simp_all add: div_nat_eqI)
  then have "unat (page_round e sz) = unat sz"
    by (simp add: page_round_unat [OF assms(1,2)] k mult.commute)
  then show ?thesis by (simp add: word_unat_eq_iff)
qed

section \<open>Mapped files\<close>

text \<open>
  The last slot of a mapping as the code computes it, and the well-formedness of a mapped
  file: the descriptor and the mapping name the same inode, the mapping is inside the file and
  has room for the header and a record, and the cached ends of the ring fit its length.
\<close>

definition file_last :: "u64 \<Rightarrow> nat" where
  "file_last len = header_size + unat (ucast ((len - 20) div 48) :: u32) * record_size - record_size"

definition file_ok :: "stats_world \<Rightarrow> stats_file \<Rightarrow> nat \<Rightarrow> bool" where
  "file_ok w f i \<longleftrightarrow> sf_addr f = Some i \<and> map_of (sw_fds w) (sf_fd f) = Some i \<and>
     sf_first f = header_size \<and> sf_last f = file_last (sf_len f) \<and>
     128 \<le> unat (sf_len f) \<and> unat (sf_len f) < 2 ^ 63 \<and> unat (sf_len f) \<le> length (sw_data w i)"

lemma len_div:
  assumes "20 \<le> unat len"
  shows "unat ((len - 20) div 48 :: u64) = (unat len - 20) div 48"
proof -
  have "20 \<le> len" using assms by (simp add: word_le_nat_alt)
  then have "unat (len - 20) = unat len - 20" by (simp add: unat_sub)
  then show ?thesis by (simp add: unat_div)
qed

lemma file_last_bound:
  assumes "128 \<le> unat len" shows "file_last len + record_size \<le> unat len"
proof -
  have "unat (ucast ((len - 20) div 48) :: u32) \<le> unat ((len - 20) div 48)"
    by (simp add: unsigned_ucast_eq take_bit_nat_less_eq_self)
  also have "\<dots> = (unat len - 20) div 48" using assms by (simp add: len_div)
  finally have "unat (ucast ((len - 20) div 48) :: u32) * 48 \<le> unat len - 20"
    by (metis div_times_less_eq_dividend le_trans mult_le_mono1)
  then show ?thesis using assms by (simp add: file_last_def)
qed

text \<open>Number of slots of a mapping whose length fits the offsets of the header.\<close>

definition capacity :: "stats_file \<Rightarrow> nat" where
  "capacity f = (unat (sf_len f) - header_size) div record_size"

definition slot_off :: "nat \<Rightarrow> nat" where
  "slot_off j = header_size + record_size * j"

lemma slot_off_inj [simp]: "slot_off j = slot_off k \<longleftrightarrow> j = k"
  by (simp add: slot_off_def)

lemma slot_off_le [simp]: "slot_off j \<le> slot_off k \<longleftrightarrow> j \<le> k"
  by (simp add: slot_off_def)

lemma file_last_small:
  assumes "128 \<le> unat (sf_len f)" and "unat (sf_len f) < 2 ^ 32"
  shows "file_last (sf_len f) = slot_off (capacity f - 1)" and "2 \<le> capacity f"
    and "slot_off (capacity f) \<le> unat (sf_len f)"
proof -
  have "(unat (sf_len f) - 20) div 48 < 2 ^ 32" using assms by simp
  then have "unat (ucast ((sf_len f - 20) div 48) :: u32) = capacity f"
    using assms by (simp add: unsigned_ucast_eq len_div capacity_def take_bit_nat_eq_self)
  moreover show two: "2 \<le> capacity f" using assms by (simp add: capacity_def)
  ultimately show "file_last (sf_len f) = slot_off (capacity f - 1)"
    by (simp add: file_last_def slot_off_def algebra_simps)
  have "48 * ((unat (sf_len f) - 20) div 48) \<le> unat (sf_len f) - 20" by simp
  then show "slot_off (capacity f) \<le> unat (sf_len f)"
    using assms by (simp add: capacity_def slot_off_def)
qed

lemma get_next_in_bounds:
  assumes "file_ok w f i"
  shows "header_size \<le> get_next f c" and "get_next f c + record_size \<le> unat (sf_len f)"
  using assms file_last_bound [of "sf_len f"]
  by (auto simp: get_next_def file_ok_def Let_def not_less)

lemma get_next_slot:
  assumes "file_ok w f i" and "unat (sf_len f) < 2 ^ 32" and "j < capacity f"
  shows "get_next f (slot_off j) = slot_off (Suc j mod capacity f)"
proof (cases "Suc j = capacity f")
  case True
  then show ?thesis using assms file_last_small [of f]
    by (auto simp: get_next_def file_ok_def Let_def slot_off_def)
next
  case False
  then have "Suc j < capacity f" using assms by simp
  moreover have "\<not> slot_off (capacity f - 1) < slot_off j + 48"
    using \<open>Suc j < capacity f\<close> by (auto simp: slot_off_def)
  ultimately show ?thesis using assms file_last_small [of f]
    by (auto simp: get_next_def file_ok_def Let_def) (simp add: slot_off_def)
qed

subsection \<open>Reading and writing\<close>

lemma read_map_ok:
  assumes "file_ok w f i" and "off + n \<le> unat (sf_len f)"
  shows "read_map w f off n = Inr (take n (drop off (sw_data w i)))"
proof -
  have "take n (drop off (mapped w f i)) = take n (drop off (sw_data w i))"
    using assms(2) by (simp add: mapped_def drop_take min_absorb1)
  then show ?thesis using assms by (simp add: read_map_def file_ok_def mapped_def)
qed

lemma read_u32_ok:
  assumes "file_ok w f i" and "k \<le> 100"
  shows "read_u32 w f k = Inr (field32 k (sw_data w i))"
  using assms read_map_ok [OF assms(1), of k 4]
  by (auto simp: read_u32_def field32_def file_ok_def)

lemma get_begin_ok: "file_ok w f i \<Longrightarrow> get_begin w f = Inr (unat (field32 hdr_begin (sw_data w i)))"
  and get_end_ok: "file_ok w f i \<Longrightarrow> get_end w f = Inr (unat (field32 hdr_end (sw_data w i)))"
  by (simp_all add: get_begin_def get_end_def read_u32_ok)

definition poke_at :: "nat \<Rightarrow> nat \<Rightarrow> u8 list \<Rightarrow> stats_world \<Rightarrow> stats_world" where
  "poke_at i off bs w = w\<lparr>sw_data := (sw_data w)(i := poke off bs (sw_data w i))\<rparr>"

lemma write_map_ok:
  assumes "file_ok w f i" and "off + length bs \<le> unat (sf_len f)"
  shows "write_map w f off bs = Inr (poke_at i off bs w)"
  using assms by (simp add: write_map_def poke_at_def file_ok_def mapped_def)

lemma poke_at_simps [simp]:
  "sw_hash (poke_at i off bs w) = sw_hash w" "sw_names (poke_at i off bs w) = sw_names w"
  "sw_dirs (poke_at i off bs w) = sw_dirs w" "sw_next (poke_at i off bs w) = sw_next w"
  "sw_fds (poke_at i off bs w) = sw_fds w" "sw_calls (poke_at i off bs w) = sw_calls w"
  "j \<noteq> i \<Longrightarrow> sw_data (poke_at i off bs w) j = sw_data w j"
  "sw_data (poke_at i off bs w) i = poke off bs (sw_data w i)"
  by (simp_all add: poke_at_def)

lemma file_ok_poke:
  assumes "file_ok w f i" and "off + length bs \<le> unat (sf_len f)"
  shows "file_ok (poke_at i off bs w) f i"
  using assms by (simp add: file_ok_def length_poke)

lemma field32_poke_other:
  assumes "off + length bs \<le> length d" and "k + 4 \<le> length d"
    and "k + 4 \<le> off \<or> off + length bs \<le> k"
  shows "field32 k (poke off bs d) = field32 k d"
proof -
  have "take 4 (drop k (poke off bs d)) = take 4 (drop k d)"
    using assms by (intro nth_equalityI) (auto simp: length_poke nth_poke)
  then show ?thesis by (simp add: field32_def)
qed

lemma field32_poke_same:
  "off + 4 \<le> length d \<Longrightarrow> field32 off (poke off (bytes32 v) d) = v"
  by (simp add: field32_def poke_def u32.dec_enc)

lemma block_poke_other:
  assumes "off + length bs \<le> length d" and "k + n \<le> length d"
    and "k + n \<le> off \<or> off + length bs \<le> k"
  shows "take n (drop k (poke off bs d)) = take n (drop k d)"
  using assms by (intro nth_equalityI) (auto simp: length_poke nth_poke)

lemma block_poke_same:
  "off + length bs \<le> length d \<Longrightarrow> take (length bs) (drop off (poke off bs d)) = bs"
  by (simp add: poke_def)

subsection \<open>Growing\<close>

definition hdr_ptr :: "u32 \<Rightarrow> nat option" where
  "hdr_ptr h = (if h = UINT_MAX then None else Some (unat h))"

definition cached :: "stats_world \<Rightarrow> nat \<Rightarrow> stats_file \<Rightarrow> stats_file" where
  "cached w i f = f\<lparr>sf_first := header_size, sf_last := file_last (sf_len f),
     sf_home := hdr_ptr (field32 hdr_home (sw_data w i)),
     sf_roaming := hdr_ptr (field32 hdr_roaming (sw_data w i))\<rparr>"

lemma cached_simps [simp]:
  "sf_fd (cached w i f) = sf_fd f" "sf_name (cached w i f) = sf_name f"
  "sf_addr (cached w i f) = sf_addr f" "sf_len (cached w i f) = sf_len f"
  "sf_max_len (cached w i f) = sf_max_len f" "sf_history_name (cached w i f) = sf_history_name f"
  "sf_account_period_offset (cached w i f) = sf_account_period_offset f"
  by (simp_all add: cached_def)

lemma update_cache_ok:
  assumes "sf_addr f = Some i" "128 \<le> unat (sf_len f)" "unat (sf_len f) \<le> length (sw_data w i)"
  shows "stats_file_update_cache w f = Inr (cached w i f)"
proof -
  have read: "read_u32 w g k = Inr (field32 k (sw_data w i))"
    if "sf_addr g = Some i" "sf_len g = sf_len f" "k \<le> 100" for g k
  proof -
    have "take 4 (drop k (mapped w g i)) = take 4 (drop k (sw_data w i))"
      using assms that by (simp add: mapped_def drop_take min_absorb1)
    then show ?thesis using assms that
      by (simp add: read_u32_def read_map_def field32_def mapped_def)
  qed
  show ?thesis using assms
    by (simp add: stats_file_update_cache_def update_home_def update_roaming_def get_home_def
        get_roaming_def read update_first_def update_last_def Let_def cached_def hdr_ptr_def
        file_last_def)
qed

text \<open>What an operation on the file with inode \<open>i\<close> may change of the world.\<close>

definition touches :: "nat \<Rightarrow> stats_world \<Rightarrow> stats_world \<Rightarrow> bool" where
  "touches i w w' \<longleftrightarrow> sw_hash w' = sw_hash w \<and> sw_names w' = sw_names w \<and>
     sw_dirs w' = sw_dirs w \<and> sw_next w' = sw_next w \<and> sw_fds w' = sw_fds w \<and>
     (\<forall>j. j \<noteq> i \<longrightarrow> sw_data w' j = sw_data w j)"

lemma touches_refl [simp]: "touches i w w"
  by (simp add: touches_def)

lemma touches_trans: "touches i u v \<Longrightarrow> touches i v w \<Longrightarrow> touches i u w"
  by (simp add: touches_def)

lemma touches_poke [simp]: "touches i w (poke_at i off bs w)"
  by (simp add: touches_def)

lemma touchesD:
  assumes "touches i w w'"
  shows "sw_hash w' = sw_hash w" "sw_names w' = sw_names w" "sw_dirs w' = sw_dirs w"
    "sw_next w' = sw_next w" "sw_fds w' = sw_fds w" "j \<noteq> i \<Longrightarrow> sw_data w' j = sw_data w j"
  using assms by (simp_all add: touches_def)

lemma file_ok_other: "file_ok w f j \<Longrightarrow> touches i w w' \<Longrightarrow> j \<noteq> i \<Longrightarrow> file_ok w' f j"
  by (simp add: file_ok_def touches_def)

lemma length_resize [simp]: "length (resize n d) = n"
  by (simp add: resize_def)

lemma take_resize: "m \<le> n \<Longrightarrow> m \<le> length d \<Longrightarrow> take m (resize n d) = take m d"
  by (simp add: resize_def)

lemma sint_nonneg: "sint (x :: u64) < 0 \<longleftrightarrow> 2 ^ 63 \<le> unat x"
proof -
  have "sint x < 0 \<longleftrightarrow> bit (uint x) 63" by (simp add: sint_uint)
  also have "\<dots> \<longleftrightarrow> bit (unat x) 63" by (simp add: bit_unsigned_iff)
  also have "\<dots> \<longleftrightarrow> odd (unat x div 2 ^ 63)" by (simp only: bit_iff_odd)
  also have "\<dots> \<longleftrightarrow> 2 ^ 63 \<le> unat x"
  proof (cases "2 ^ 63 \<le> unat x")
    case True
    have "unat x < 2 ^ 64" using unsigned_less [of x] by simp
    with True have "unat x div 2 ^ 63 = 1" by (intro div_nat_eqI) simp_all
    with True show ?thesis by simp
  qed simp
  finally show ?thesis .
qed

lemma stats_file_remap_cases:
  assumes e: "page_ok e" and fd: "map_of (sw_fds w) (sf_fd f) = Some i"
    and addr: "sf_addr f = None \<or> sf_addr f = Some i"
    and s: "128 \<le> unat sz" "unat sz \<le> 2 ^ 63 + 2 ^ 32"
    and l: "unat (sf_len f) \<le> unat sz" "unat (sf_len f) \<le> length (sw_data w i)"
  shows "\<exists>err f' w'. stats_file_remap e f sz w = Inr (err, f', w') \<and> touches i w w' \<and>
    take (unat (sf_len f)) (sw_data w' i) = take (unat (sf_len f)) (sw_data w i) \<and>
    unat (sf_len f) \<le> length (sw_data w' i) \<and>
    (err < 0 \<and> f' = f \<or>
     err = 0 \<and> file_ok w' f' i \<and> sw_data w' i = resize (unat (page_round e sz)) (sw_data w i) \<and>
     f' = cached w' i (f\<lparr>sf_addr := Some i, sf_len := page_round e sz\<rparr>))"
proof -
  let ?n = "page_round e sz"
  note ge = page_round_ge(1) [OF e s(2)]
  define w1 where "w1 = w\<lparr>sw_calls := Suc (sw_calls w)\<rparr>"
  define w3 where "w3 = w1\<lparr>sw_data := (sw_data w)(i := resize (unat ?n) (sw_data w i)),
    sw_calls := Suc (Suc (sw_calls w))\<rparr>"
  define f1 where "f1 = f\<lparr>sf_addr := Some i, sf_len := ?n\<rparr>"
  have cache: "stats_file_update_cache w3 f1 = Inr (cached w3 i f1)"
    using s ge by (intro update_cache_ok) (simp_all add: f1_def w3_def)
  have t: "touches i w w1" "touches i w w3" by (simp_all add: touches_def w1_def w3_def)
  have d1: "sw_data w1 i = sw_data w i" by (simp add: w1_def)
  have d3: "sw_data w3 i = resize (unat ?n) (sw_data w i)" by (simp add: w3_def)
  have ok: "file_ok w3 (cached w3 i f1) i" if "\<not> sint ?n < 0"
    using that s ge fd
    by (simp add: file_ok_def cached_def f1_def d3 w3_def w1_def sint_nonneg)
  have "stats_file_remap e f sz w =
    (if se_fail e (sw_calls w) \<noteq> 0 then Inr (- int (se_fail e (sw_calls w)), f, w1)
     else if sint ?n < 0 then Inr (- int EINVAL, f, w1)
     else if se_fail e (Suc (sw_calls w)) \<noteq> 0 then Inr (- int (se_fail e (Suc (sw_calls w))), f, w3)
     else Inr (0, cached w3 i f1, w3))"
    using fd addr cache
    by (auto simp: stats_file_remap_def fd_call_def syscall_def Let_def w1_def w3_def f1_def)
  then show ?thesis using t d1 d3 ok l ge
    by (auto simp: take_resize f1_def)
qed

lemma stats_file_remap_succeeds:
  assumes "map_of (sw_fds w) (sf_fd f) = Some i" and "\<forall>n. se_fail e n = 0"
    and "unat (page_round e sz) < 2 ^ 63"
    and "stats_file_remap e f sz w = Inr (err, f', w')"
  shows "err = 0"
  using assms
  by (auto simp: stats_file_remap_def fd_call_def syscall_def Let_def sint_nonneg bind_r_eq_Inr
      split: if_splits)

subsection \<open>Setting up a file\<close>

definition header_valid :: "u8 list \<Rightarrow> u64 \<Rightarrow> bool" where
  "header_valid d len \<longleftrightarrow> field32 hdr_magic d = MAGIC \<and>
     20 \<le> field32 hdr_begin d \<and> 20 \<le> field32 hdr_end d \<and>
     20 \<le> field32 hdr_home d \<and> 20 \<le> field32 hdr_roaming d \<and>
     unat (field32 hdr_begin d) \<le> unat len \<and> unat (field32 hdr_end d) \<le> unat len"

lemma ucast_le_iff: "ucast (b :: u32) \<le> (len :: u64) \<longleftrightarrow> unat b \<le> unat len"
proof -
  have "unat b < 2 ^ 32" using unsigned_less [of b, where ?'a = nat] by simp
  then have "unat b < 2 ^ 64" by simp
  then show ?thesis by (simp add: word_le_nat_alt unsigned_ucast_eq take_bit_nat_eq_self)
qed

lemma header_bad_ok:
  assumes "file_ok w f i"
  shows "header_bad w f = Inr (\<not> header_valid (sw_data w i) (sf_len f))"
  using assms
  by (simp add: header_bad_def read_u32_ok header_valid_def ucast_le_iff not_le [symmetric])

lemma length_header_bytes [simp]: "length header_bytes = 20"
  by (simp add: header_bytes_def)

lemma header_bytes_fields:
  assumes "20 \<le> length d"
  shows "field32 0 (poke 0 header_bytes d) = MAGIC" "field32 4 (poke 0 header_bytes d) = 20"
    "field32 8 (poke 0 header_bytes d) = 20" "field32 12 (poke 0 header_bytes d) = 0xFFFFFFFF"
    "field32 16 (poke 0 header_bytes d) = 0xFFFFFFFF"
  using assms
  by (simp_all add: poke_def header_bytes_def field32_here field32_later
      field32_def u32.dec_enc)

lemma header_valid_new:
  assumes "128 \<le> length d" and "128 \<le> unat len"
  shows "header_valid (poke 0 header_bytes d) len"
proof -
  have "20 \<le> length d" using assms by simp
  note h = header_bytes_fields [OF this]
  show ?thesis unfolding header_valid_def h using assms by simp
qed

definition setup_size :: "stats_env \<Rightarrow> nat \<Rightarrow> u64" where
  "setup_size e n = page_round e (if of_nat n < se_page e then se_page e else of_nat n)"

definition setup_data :: "stats_env \<Rightarrow> u8 list \<Rightarrow> u8 list" where
  "setup_data e d = (let n = setup_size e (length d); d1 = resize (unat n) d in
     if header_valid d1 n then d1 else poke 0 header_bytes d1)"

definition setup_file :: "stats_env \<Rightarrow> stats_world \<Rightarrow> nat \<Rightarrow> u64 \<Rightarrow> stats_file \<Rightarrow> stats_file" where
  "setup_file e w i n f =
     cached w i (f\<lparr>sf_max_len := se_max_file_size e, sf_addr := Some i, sf_len := n\<rparr>)"

lemma stats_file_setup_cases:
  assumes e: "page_ok e" and fd: "map_of (sw_fds w) (sf_fd f) = Some i"
    and f: "sf_addr f = None" "sf_len f = 0" and d: "length (sw_data w i) \<le> 2 ^ 63"
  shows "\<exists>err f' w'. stats_file_setup e f w = Inr (err, f', w') \<and>
    (err < 0 \<and> sf_addr f' = None \<and> sf_name f' = None \<and> sf_fd f' = sf_fd f \<and>
       (\<exists>v. touches i w v \<and> w' = close_fd (sf_fd f) v) \<or>
     err = 0 \<and> touches i w w' \<and> file_ok w' f' i \<and> header_valid (sw_data w' i) (sf_len f') \<and>
     sw_data w' i = setup_data e (sw_data w i) \<and>
     f' = setup_file e w' i (setup_size e (length (sw_data w i))) f)"
proof -
  define w1 where "w1 = w\<lparr>sw_calls := Suc (sw_calls w)\<rparr>"
  define f1 where "f1 = f\<lparr>sf_max_len := se_max_file_size e\<rparr>"
  define sz :: u64 where
    "sz = (let n = of_nat (length (sw_data w i)) in if n < se_page e then se_page e else n)"
  have n: "setup_size e (length (sw_data w i)) = page_round e sz"
    by (simp add: setup_size_def sz_def Let_def)
  have w1: "touches i w w1" "sw_fds w1 = sw_fds w" "sw_data w1 = sw_data w"
    by (simp_all add: touches_def w1_def)
  note P = page_size_bounds [OF e]
  have len: "unat (of_nat (length (sw_data w i)) :: u64) = length (sw_data w i)"
    using d by (intro unat_of_nat_small) simp
  have sz: "128 \<le> unat sz" "unat sz \<le> 2 ^ 63 + 2 ^ 32"
    using P d len by (auto simp: sz_def Let_def word_less_nat_alt)
  have "\<exists>err f2 w2. stats_file_remap e f1 sz w1 = Inr (err, f2, w2) \<and> touches i w1 w2 \<and>
     (err < 0 \<and> f2 = f1 \<or> err = 0 \<and> file_ok w2 f2 i \<and>
      sw_data w2 i = resize (unat (page_round e sz)) (sw_data w i) \<and>
      f2 = cached w2 i (f1\<lparr>sf_addr := Some i, sf_len := page_round e sz\<rparr>))"
    using stats_file_remap_cases [OF e, of w1 f1 i sz] fd f sz
    by (simp add: f1_def w1)
  then obtain err f2 w2 where r: "stats_file_remap e f1 sz w1 = Inr (err, f2, w2)"
    and t: "touches i w1 w2"
    and c: "err < 0 \<and> f2 = f1 \<or> err = 0 \<and> file_ok w2 f2 i \<and>
      sw_data w2 i = resize (unat (page_round e sz)) (sw_data w i) \<and>
      f2 = cached w2 i (f1\<lparr>sf_addr := Some i, sf_len := page_round e sz\<rparr>)" by blast
  have s: "stats_file_setup e f w =
    (if se_fail e (sw_calls w) \<noteq> 0
     then Inr (- int (se_fail e (sw_calls w)), f\<lparr>sf_name := None\<rparr>, close_fd (sf_fd f) w1)
     else bind_r (stats_file_remap e f1 sz w1) (\<lambda>(err, f2, w2).
              if err < 0 then Inr (err, f2\<lparr>sf_name := None\<rparr>, close_fd (sf_fd f2) w2)
              else bind_r (header_bad w2 f2) (\<lambda>bad.
                   if bad then bind_r (write_map w2 f2 0 header_bytes) (\<lambda>w3.
                               bind_r (stats_file_update_cache w3 f2) (\<lambda>f3. Inr (0, f3, w3)))
                   else Inr (0, f2, w2))))"
    using fd by (simp add: stats_file_setup_def fd_call_def syscall_def f1_def sz_def w1_def Let_def)
  have t': "touches i w w2" using w1(1) t by (rule touches_trans)
  show ?thesis
  proof (cases "se_fail e (sw_calls w) \<noteq> 0 \<or> err < 0")
    case True
    then show ?thesis using c w1 t' f unfolding s r by (auto simp: f1_def)
  next
    case False
    then have ok: "file_ok w2 f2 i"
      and d2: "sw_data w2 i = resize (unat (page_round e sz)) (sw_data w i)"
      and f2: "f2 = cached w2 i (f1\<lparr>sf_addr := Some i, sf_len := page_round e sz\<rparr>)"
      and e0: "se_fail e (sw_calls w) = 0" "err = 0" using c by auto
    have f2s: "f2 = setup_file e w2 i (page_round e sz) f"
      by (simp add: f2 setup_file_def f1_def)
    have l2: "sf_len f2 = page_round e sz" by (simp add: f2)
    show ?thesis
    proof (cases "header_valid (sw_data w2 i) (sf_len f2)")
      case True
      have "stats_file_setup e f w = Inr (0, f2, w2)"
        unfolding s r by (simp add: header_bad_ok [OF ok] True e0)
      moreover have "sw_data w2 i = setup_data e (sw_data w i)"
        using True by (simp add: setup_data_def n Let_def d2 l2)
      ultimately show ?thesis using t' ok True f2s n by simp
    next
      case False
      define w3 where "w3 = poke_at i 0 header_bytes w2"
      have b: "128 \<le> unat (sf_len f2)" "unat (sf_len f2) \<le> length (sw_data w2 i)"
        using ok by (simp_all add: file_ok_def)
      have wr: "write_map w2 f2 0 header_bytes = Inr w3"
        using write_map_ok [OF ok, of 0 header_bytes] b by (simp add: w3_def)
      have ok3: "file_ok w3 f2 i"
        using file_ok_poke [OF ok, of 0 header_bytes] b by (simp add: w3_def)
      have d3: "sw_data w3 i = poke 0 header_bytes (sw_data w2 i)" by (simp add: w3_def)
      have hv: "header_valid (sw_data w3 i) (sf_len f2)"
        unfolding d3 using b by (intro header_valid_new) simp_all
      have ch: "stats_file_update_cache w3 f2 = Inr (cached w3 i f2)"
        using ok3 by (intro update_cache_ok) (simp_all add: file_ok_def)
      have "stats_file_setup e f w = Inr (0, cached w3 i f2, w3)"
        unfolding s r by (simp add: header_bad_ok [OF ok] False e0 wr ch)
      moreover have "touches i w w3"
        using t' touches_poke [of i w2 0 header_bytes] unfolding w3_def by (rule touches_trans)
      moreover have "file_ok w3 (cached w3 i f2) i" using ok3 by (simp add: file_ok_def cached_def)
      moreover have "sw_data w3 i = setup_data e (sw_data w i)"
        using False by (simp add: setup_data_def n Let_def d2 l2 d3)
      moreover have "cached w3 i f2 = setup_file e w3 i (page_round e sz) f"
        by (simp add: f2 setup_file_def f1_def cached_def)
      ultimately show ?thesis using hv n l2 by (simp add: setup_file_def)
    qed
  qed
qed

section \<open>The ring as a list\<close>

text \<open>
  The slots of the range \<open>(begin, end]\<close>, oldest first, and the records in them: the abstract
  value of a file whose header points at slots.
\<close>

definition ring_slots :: "nat \<Rightarrow> nat \<Rightarrow> nat \<Rightarrow> nat list" where
  "ring_slots cap b e = map (\<lambda>n. (Suc b + n) mod cap) [0..<(e + cap - b) mod cap]"

definition slot_of :: "u32 \<Rightarrow> nat" where
  "slot_of h = (unat h - header_size) div record_size"

definition slot :: "u8 list \<Rightarrow> nat \<Rightarrow> stats_record" where
  "slot d j = stats_record_of_bytes (take record_size (drop (slot_off j) d))"

definition aligned :: "u8 list \<Rightarrow> stats_file \<Rightarrow> bool" where
  "aligned d f \<longleftrightarrow> unat (sf_len f) < 2 ^ 32 \<and>
     unat (field32 hdr_begin d) = slot_off (slot_of (field32 hdr_begin d)) \<and>
     slot_of (field32 hdr_begin d) < capacity f \<and>
     unat (field32 hdr_end d) = slot_off (slot_of (field32 hdr_end d)) \<and>
     slot_of (field32 hdr_end d) < capacity f"

definition records :: "u8 list \<Rightarrow> stats_file \<Rightarrow> stats_record list" where
  "records d f = map (slot d)
     (ring_slots (capacity f) (slot_of (field32 hdr_begin d)) (slot_of (field32 hdr_end d)))"

lemma slot_of_slot_off: "unat h = slot_off j \<Longrightarrow> slot_of h = j"
  by (simp add: slot_of_def slot_off_def)

lemma alignedI:
  assumes "unat (sf_len f) < 2 ^ 32" "unat (field32 hdr_begin d) = slot_off b" "b < capacity f"
    "unat (field32 hdr_end d) = slot_off en" "en < capacity f"
  shows "aligned d f"
  using assms slot_of_slot_off [OF assms(2)] slot_of_slot_off [OF assms(4)]
  by (simp add: aligned_def)

lemma length_ring_slots: "length (ring_slots cap b e) = (e + cap - b) mod cap"
  by (simp add: ring_slots_def)

lemma ring_slots_bound: "0 < cap \<Longrightarrow> j \<in> set (ring_slots cap b e) \<Longrightarrow> j < cap"
  by (auto simp: ring_slots_def)

lemma ring_slots_empty: "ring_slots cap b b = []"
  by (simp add: ring_slots_def)

lemma mod_add_inj:
  assumes "(a + n) mod cap = (a + m) mod cap" and "n < cap" and "m < cap"
  shows "n = (m :: nat)"
proof -
  have le: "x = y" if "x \<le> y" "y < cap" "(a + x) mod cap = (a + y) mod cap" for x y
  proof -
    have "cap dvd (a + y) - (a + x)"
      using that by (subst mod_eq_dvd_iff_nat [symmetric]) simp_all
    then have "cap dvd y - x" by simp
    moreover have "y - x < cap" using that(2) by simp
    ultimately have "\<not> 0 < y - x" using nat_dvd_not_less by blast
    then show ?thesis using that(1) by simp
  qed
  show ?thesis using assms le [of n m] le [of m n] by linarith
qed

lemma ring_length_cases:
  fixes b e cap :: nat
  assumes "b < cap" and "e < cap"
  shows "(e + cap - b) mod cap = (if b \<le> e then e - b else e + cap - b)"
proof (cases "b \<le> e")
  case True
  have "e + cap - b = (e - b) + cap" using True by simp
  then have "(e + cap - b) mod cap = (e - b) mod cap" by (simp only: mod_add_self2)
  then show ?thesis using True assms by simp
qed (use assms in simp)

lemma ring_length_next:
  fixes b e cap :: nat
  assumes "b < cap" and "e < cap" and "Suc e mod cap \<noteq> b"
  shows "(Suc e mod cap + cap - b) mod cap = Suc ((e + cap - b) mod cap)"
    and "(Suc b + (e + cap - b) mod cap) mod cap = Suc e mod cap"
    and "Suc ((e + cap - b) mod cap) < cap"
proof -
  note m = ring_length_cases [OF assms(1,2)]
  consider "Suc e = cap" "b \<le> e" | "Suc e < cap" "b \<le> e" | "Suc e < cap" "e < b"
    using assms(1,2) by linarith
  note cs = this
  show "(Suc e mod cap + cap - b) mod cap = Suc ((e + cap - b) mod cap)"
  proof (cases rule: cs)
    case 1
    then have "0 < b" using assms(3) by simp
    then show ?thesis using 1 assms(1) m by simp
  next
    case 2
    then show ?thesis using ring_length_cases [of b cap "Suc e"] assms(1) m by simp
  next
    case 3
    then have "b \<noteq> Suc e" using assms(3) by simp
    then show ?thesis using 3 ring_length_cases [of b cap "Suc e"] assms(1) m by simp
  qed
  show "(Suc b + (e + cap - b) mod cap) mod cap = Suc e mod cap"
  proof (cases "b \<le> e")
    case False
    then have "Suc b + (e + cap - b) mod cap = Suc e + cap" using assms(1) unfolding m by simp
    then show ?thesis by (simp only: mod_add_self2)
  qed (simp add: m)
  show "Suc ((e + cap - b) mod cap) < cap"
  proof (cases rule: cs)
    case 1
    then have "0 < b" using assms(3) by simp
    then show ?thesis using 1 unfolding m by simp
  next
    case 2
    then show ?thesis unfolding m by simp
  next
    case 3
    then have "b \<noteq> Suc e" using assms(3) by simp
    then show ?thesis using 3 assms(1) unfolding m by simp
  qed
qed

lemma ring_slots_next:
  assumes "b < cap" and "e < cap" and "Suc e mod cap \<noteq> b"
  shows "ring_slots cap b (Suc e mod cap) = ring_slots cap b e @ [Suc e mod cap]"
    and "Suc e mod cap \<notin> set (ring_slots cap b e)"
    and "Suc (length (ring_slots cap b e)) < cap"
proof -
  let ?m = "(e + cap - b) mod cap"
  note nx = ring_length_next [OF assms]
  have l: "[0..<Suc ?m] = [0..<?m] @ [?m]" by simp
  show "ring_slots cap b (Suc e mod cap) = ring_slots cap b e @ [Suc e mod cap]"
    unfolding ring_slots_def nx(1) l map_append list.map nx(2) by (rule refl)
  show "Suc (length (ring_slots cap b e)) < cap"
    using nx(3) by (simp only: length_ring_slots)
  show "Suc e mod cap \<notin> set (ring_slots cap b e)"
  proof
    assume "Suc e mod cap \<in> set (ring_slots cap b e)"
    then obtain n where n: "n < ?m" "(Suc b + n) mod cap = Suc e mod cap"
      unfolding ring_slots_def set_map set_upt by auto
    have "(Suc b + n) mod cap = (Suc b + ?m) mod cap" unfolding n(2) nx(2) by (rule refl)
    then have "n = ?m" by (rule mod_add_inj) (use n(1) nx(3) in linarith)+
    with n(1) show False by simp
  qed
qed

lemma ring_slots_full:
  assumes "b < cap" and "e < cap" and "Suc e mod cap = b"
  shows "Suc (length (ring_slots cap b e)) = cap"
proof (cases "Suc e = cap")
  case True
  then have "b = 0" using assms(3) by simp
  then show ?thesis using True assms(2) by (simp add: length_ring_slots ring_length_cases)
next
  case False
  then have "b = Suc e" using assms by simp
  then show ?thesis using assms(1,2) by (simp add: length_ring_slots ring_length_cases)
qed

lemma ring_slots_grow:
  assumes "b \<le> e" and "e < cap" and "cap \<le> cap'"
  shows "ring_slots cap' b e = ring_slots cap b e"
  using assms by (auto simp: ring_slots_def ring_length_cases)

subsection \<open>Bytes that a mapping shares with a grown one\<close>

lemma take_drop_prefix:
  assumes "take n d' = take n d" and "k + m \<le> n"
  shows "take m (drop k d') = take m (drop k d)"
proof -
  have "take m (drop k (take n d')) = take m (drop k (take n d))" using assms(1) by simp
  then show ?thesis using assms(2) by (simp add: drop_take min_absorb1)
qed

lemma field32_prefix: "take n d' = take n d \<Longrightarrow> k + 4 \<le> n \<Longrightarrow> field32 k d' = field32 k d"
  using take_drop_prefix [of n d' d k 4] by (simp add: field32_def)

lemma slot_prefix:
  "take n d' = take n d \<Longrightarrow> slot_off (Suc j) \<le> n \<Longrightarrow> slot d' j = slot d j"
  using take_drop_prefix [of n d' d "slot_off j" 48] by (simp add: slot_def slot_off_def)

lemma slot_off_bound: 
  assumes "file_ok w f i" and "unat (sf_len f) < 2 ^ 32" and "j < capacity f"
  shows "slot_off j + record_size \<le> unat (sf_len f)" and "slot_off j < 2 ^ 32"
proof -
  have "slot_off (Suc j) \<le> slot_off (capacity f)" using assms(3) by simp
  also have "\<dots> \<le> unat (sf_len f)" using assms file_last_small [of f] by (simp add: file_ok_def)
  finally show "slot_off j + record_size \<le> unat (sf_len f)" by (simp add: slot_off_def)
  then show "slot_off j < 2 ^ 32" using assms(2) by simp
qed

lemma unat_slot_off:
  assumes "file_ok w f i" and "unat (sf_len f) < 2 ^ 32" and "j < capacity f"
  shows "unat (of_nat (slot_off j) :: u32) = slot_off j"
  using slot_off_bound(2) [OF assms] by (simp only: unsigned_of_nat) (simp add: take_bit_nat_eq_self)

text \<open>Growing a file whose end is its last slot keeps its records.\<close>

lemma records_grow:
  assumes ok: "file_ok w f i" and al: "aligned (sw_data w i) f"
    and pre: "take (unat (sf_len f)) d' = take (unat (sf_len f)) (sw_data w i)"
    and l: "unat (sf_len f) \<le> unat (sf_len f')" "unat (sf_len f') < 2 ^ 32"
    and en: "sf_last f = unat (field32 hdr_end (sw_data w i))"
  shows "aligned d' f'" and "records d' f' = records (sw_data w i) f"
proof -
  let ?d = "sw_data w i"
  let ?b = "slot_of (field32 4 ?d)" and ?e = "slot_of (field32 8 ?d)"
  have len: "128 \<le> unat (sf_len f)" and small: "unat (sf_len f) < 2 ^ 32"
    using ok al by (simp_all add: file_ok_def aligned_def)
  have cap: "capacity f \<le> capacity f'" using l by (simp add: capacity_def div_le_mono)
  have h: "field32 4 d' = field32 4 ?d" "field32 8 d' = field32 8 ?d"
    using len by (simp_all add: field32_prefix [OF pre])
  have "slot_off ?e = slot_off (capacity f - 1)"
    using en ok al file_last_small(1) [OF len small] unfolding file_ok_def aligned_def by metis
  then have "?e = capacity f - 1" by simp
  then have be: "?b \<le> ?e" "?e < capacity f" using al by (auto simp: aligned_def)
  show "aligned d' f'"
    using al cap l(2) unfolding aligned_def h by linarith
  have "slot d' j = slot ?d j" if "j \<in> set (ring_slots (capacity f) ?b ?e)" for j
  proof -
    have "j < capacity f" using be by (intro ring_slots_bound [OF _ that]) simp
    then have "slot_off (Suc j) \<le> unat (sf_len f)"
      using slot_off_bound(1) [OF ok small] by (simp add: slot_off_def)
    then show ?thesis by (rule slot_prefix [OF pre])
  qed
  then show "records d' f' = records ?d f"
    by (simp add: records_def h ring_slots_grow [OF be cap])
qed

subsection \<open>Storing a record in the next slot\<close>

definition next_slot :: "u8 list \<Rightarrow> stats_file \<Rightarrow> nat" where
  "next_slot d f = Suc (slot_of (field32 hdr_end d)) mod capacity f"

lemma get_next_aligned:
  assumes "file_ok w f i" and "aligned d f"
  shows "get_next f (unat (field32 hdr_end d)) = slot_off (next_slot d f)"
    and "get_next f (unat (field32 hdr_begin d)) =
      slot_off (Suc (slot_of (field32 hdr_begin d)) mod capacity f)"
    and "next_slot d f < capacity f"
  using assms get_next_slot [OF assms(1)] unfolding aligned_def next_slot_def by (metis, metis, simp)

text \<open>
  The abstract operation: a record is appended unless the ring is full, and storing a record in
  a full ring leaves an empty ring.
\<close>

definition ring_put :: "nat \<Rightarrow> stats_record \<Rightarrow> stats_record list \<Rightarrow> stats_record list" where
  "ring_put cap r rs = (if Suc (length rs) < cap then rs @ [r] else [])"

lemma records_put:
  assumes al: "aligned d f" and j: "j = next_slot d f"
    and b': "field32 hdr_begin d' = field32 hdr_begin d"
    and e': "unat (field32 hdr_end d') = slot_off j"
    and new: "slot d' j = r" and old: "\<And>k. k < capacity f \<Longrightarrow> k \<noteq> j \<Longrightarrow> slot d' k = slot d k"
  shows "aligned d' f" and "records d' f = ring_put (capacity f) r (records d f)"
proof -
  let ?b = "slot_of (field32 4 d)" and ?e = "slot_of (field32 8 d)" and ?cap = "capacity f"
  have lt: "?b < ?cap" "?e < ?cap" using al by (simp_all add: aligned_def)
  then have jc: "j < ?cap" by (simp add: j next_slot_def)
  have s: "slot_of (field32 8 d') = j" by (rule slot_of_slot_off [OF e'])
  show "aligned d' f" using al jc e' unfolding aligned_def b' s by blast
  show "records d' f = ring_put ?cap r (records d f)"
  proof (cases "j = ?b")
    case True
    then have "Suc (length (ring_slots ?cap ?b ?e)) = ?cap"
      using ring_slots_full [OF lt] by (simp add: j next_slot_def)
    then show ?thesis using True
      by (simp add: records_def b' s ring_slots_empty ring_put_def)
  next
    case False
    note n = ring_slots_next [OF lt False [unfolded j next_slot_def], folded next_slot_def, folded j]
    have "map (slot d') (ring_slots ?cap ?b ?e) = map (slot d) (ring_slots ?cap ?b ?e)"
      using n(2) lt by (auto intro!: old dest: ring_slots_bound [rotated])
    then show ?thesis using n new by (simp add: records_def b' s ring_put_def)
  qed
qed

text \<open>Writing a record and then header fields, as far as the ring is concerned.\<close>

lemma slot_poke_header:
  assumes "off + length bs \<le> 20" and "20 \<le> length d" and "slot_off (Suc k) \<le> length d"
  shows "slot (poke off bs d) k = slot d k"
  using assms block_poke_other [of off bs d "slot_off k" 48] by (simp add: slot_def slot_off_def)

lemma slot_poke_slot:
  assumes "length bs = 48" and "slot_off (Suc j) \<le> length d" and "slot_off (Suc k) \<le> length d"
  shows "slot (poke (slot_off j) bs d) k = (if k = j then stats_record_of_bytes bs else slot d k)"
proof (cases "k = j")
  case True
  then show ?thesis using assms block_poke_same [of "slot_off j" bs d]
    by (simp add: slot_def slot_off_def)
next
  case False
  then have "slot_off k + 48 \<le> slot_off j \<or> slot_off j + length bs \<le> slot_off k"
    using assms(1) by (auto simp: slot_off_def)
  then show ?thesis using False assms block_poke_other [of "slot_off j" bs d "slot_off k" 48]
    by (simp add: slot_def slot_off_def)
qed

lemma store_record_ok:
  assumes ok: "file_ok w f i" and n: "header_size \<le> next" "next + record_size \<le> unat (sf_len f)"
  shows "store_record e f next roaming data w =
    Inr (poke_at i 8 (bytes32 (of_nat next)) (poke_at i (if roaming \<noteq> 1 then 12 else 16)
      (bytes32 (of_nat next)) (poke_at i next (stats_record_bytes
        \<lparr>sr_ts = se_now e, sr_roaming = roaming, sr_data = data\<rparr>) w)))"
proof -
  let ?bs = "stats_record_bytes \<lparr>sr_ts = se_now e, sr_roaming = roaming, sr_data = data\<rparr>"
  let ?h = "if roaming \<noteq> 1 then 12 else (16 :: nat)"
  define w1 where "w1 = poke_at i next ?bs w"
  define w2 where "w2 = poke_at i ?h (bytes32 (of_nat next)) w1"
  have l: "128 \<le> unat (sf_len f)" using ok by (simp add: file_ok_def)
  have ok1: "file_ok w1 f i"
    unfolding w1_def using n by (intro file_ok_poke [OF ok]) (simp add: srec.length_enc)
  have ok2: "file_ok w2 f i"
    unfolding w2_def using l by (intro file_ok_poke [OF ok1]) simp
  have s1: "write_map w f next ?bs = Inr w1"
    unfolding w1_def using n by (intro write_map_ok [OF ok]) (simp add: srec.length_enc)
  have s2: "(if roaming \<noteq> 1 then set_home w1 f next else set_roaming w1 f next) = Inr w2"
    using write_map_ok [OF ok1, of 12 "bytes32 (of_nat next)"]
      write_map_ok [OF ok1, of 16 "bytes32 (of_nat next)"] l
    by (simp add: set_home_def set_roaming_def w2_def)
  have s3: "set_end w2 f next = Inr (poke_at i 8 (bytes32 (of_nat next)) w2)"
    unfolding set_end_def using l by (intro write_map_ok [OF ok2]) simp
  show ?thesis
    unfolding w1_def [symmetric] w2_def [symmetric]
    by (simp only: store_record_def s1 bind_r_simps s2 s3)
qed

lemma store_record_in_bounds:
  assumes ok: "file_ok w f i" and n: "header_size \<le> next" "next + record_size \<le> unat (sf_len f)"
  shows "\<exists>w'. store_record e f next roaming data w = Inr w' \<and> touches i w w' \<and> file_ok w' f i"
proof -
  have l: "128 \<le> unat (sf_len f)" using ok by (simp add: file_ok_def)
  have "file_ok (poke_at i 8 (bytes32 (of_nat next)) (poke_at i (if roaming \<noteq> 1 then 12 else 16)
      (bytes32 (of_nat next)) (poke_at i next (stats_record_bytes
        \<lparr>sr_ts = se_now e, sr_roaming = roaming, sr_data = data\<rparr>) w))) f i"
    using n l by (intro file_ok_poke ok) (simp_all add: srec.length_enc)
  then show ?thesis unfolding store_record_ok [OF assms]
    by (blast intro: touches_trans touches_poke)
qed

lemma store_record_records:
  assumes ok: "file_ok w f i" and al: "aligned (sw_data w i) f"
    and w': "store_record e f (slot_off (next_slot (sw_data w i) f)) roaming data w = Inr w'"
  shows "aligned (sw_data w' i) f"
    and "records (sw_data w' i) f = ring_put (capacity f)
      \<lparr>sr_ts = se_now e, sr_roaming = roaming, sr_data = data\<rparr> (records (sw_data w i) f)"
    and "field32 (if roaming \<noteq> 1 then hdr_home else hdr_roaming) (sw_data w' i) =
      of_nat (slot_off (next_slot (sw_data w i) f))"
    and "slot (sw_data w' i) (next_slot (sw_data w i) f) =
      \<lparr>sr_ts = se_now e, sr_roaming = roaming, sr_data = data\<rparr>"
proof -
  let ?d = "sw_data w i" and ?r = "\<lparr>sr_ts = se_now e, sr_roaming = roaming, sr_data = data\<rparr>"
  let ?j = "next_slot ?d f" and ?h = "if roaming \<noteq> 1 then 12 else (16 :: nat)"
  have jc: "?j < capacity f" by (rule get_next_aligned(3) [OF ok al])
  have small: "unat (sf_len f) < 2 ^ 32" using al by (simp add: aligned_def)
  have L: "slot_off (Suc k) \<le> length ?d" if "k < capacity f" for k
    using slot_off_bound(1) [OF ok small that] ok by (simp add: slot_off_def file_ok_def)
  have Lj: "slot_off ?j + 48 \<le> length ?d" using L [OF jc] by (simp add: slot_off_def)
  have L0: "128 \<le> length ?d" using ok by (simp add: file_ok_def)
  define d1 where "d1 = poke (slot_off ?j) (stats_record_bytes ?r) ?d"
  define d2 where "d2 = poke ?h (bytes32 (of_nat (slot_off ?j))) d1"
  have l1: "length d1 = length ?d" unfolding d1_def
    using Lj by (simp add: length_poke srec.length_enc)
  have l2: "length d2 = length ?d" unfolding d2_def using L0 by (simp add: length_poke l1)
  have "20 \<le> slot_off ?j" "slot_off ?j + 48 \<le> unat (sf_len f)"
    using slot_off_bound(1) [OF ok small jc] by (simp_all add: slot_off_def)
  then have d': "sw_data w' i = poke 8 (bytes32 (of_nat (slot_off ?j))) d2"
    using w' by (auto simp: store_record_ok [OF ok] d1_def d2_def)
  have off: "20 \<le> slot_off ?j" by (simp add: slot_off_def)
  have f1: "field32 k d1 = field32 k ?d" if "k + 4 \<le> 20" for k unfolding d1_def
    using that Lj off by (intro field32_poke_other) (simp_all add: srec.length_enc)
  have "field32 4 (sw_data w' i) = field32 4 d2" "field32 4 d2 = field32 4 d1"
    unfolding d' d2_def using L0 l1 l2 by (auto intro!: field32_poke_other simp: length_poke)
  then have b': "field32 4 (sw_data w' i) = field32 4 ?d" by (simp add: f1)
  have e': "unat (field32 8 (sw_data w' i)) = slot_off ?j"
    unfolding d' using L0 l2 unat_slot_off [OF ok small jc] by (simp add: field32_poke_same)
  have sl: "slot (sw_data w' i) k = (if k = ?j then ?r else slot ?d k)" if k: "k < capacity f" for k
  proof -
    have "slot (sw_data w' i) k = slot d2 k" unfolding d'
      using L0 l2 L [OF k] by (intro slot_poke_header) simp_all
    also have "\<dots> = slot d1 k" unfolding d2_def
      using L0 l1 L [OF k] by (intro slot_poke_header) simp_all
    also have "\<dots> = (if k = ?j then ?r else slot ?d k)" unfolding d1_def
      using slot_poke_slot [of "stats_record_bytes ?r" ?j ?d k] L [OF k] L [OF jc]
      by (simp add: srec.length_enc srec.dec_enc)
    finally show ?thesis .
  qed
  show "slot (sw_data w' i) ?j = ?r" using sl [OF jc] by simp
  show "aligned (sw_data w' i) f" and "records (sw_data w' i) f = ring_put (capacity f) ?r (records ?d f)"
    using records_put [OF al refl b' e'] sl jc by simp_all
  show "field32 ?h (sw_data w' i) = of_nat (slot_off ?j)"
  proof -
    have "field32 ?h (sw_data w' i) = field32 ?h d2"
      unfolding d' using L0 l2 by (intro field32_poke_other) auto
    also have "\<dots> = of_nat (slot_off ?j)"
      unfolding d2_def using L0 l1 by (intro field32_poke_same) auto
    finally show ?thesis .
  qed
qed

section \<open>Iterating over a file\<close>

definition slots_from :: "nat \<Rightarrow> nat \<Rightarrow> nat \<Rightarrow> nat list" where
  "slots_from cap a z = map (\<lambda>n. (a + n) mod cap) [0..<(z + cap - a) mod cap]"

lemma slots_from_Nil: "slots_from cap a a = []"
  by (simp add: slots_from_def)

lemma slots_from_Cons:
  assumes "a < cap" and "z < cap" and "a \<noteq> z"
  shows "slots_from cap a z = a # slots_from cap (Suc a mod cap) z"
proof -
  have l: "(z + cap - a) mod cap = Suc ((z + cap - Suc a mod cap) mod cap)"
  proof (cases "Suc a = cap")
    case True
    then show ?thesis using assms ring_length_cases [OF assms(1,2)] by simp
  next
    case False
    then have "Suc a < cap" using assms(1) by simp
    then show ?thesis using assms ring_length_cases [OF assms(1,2)]
        ring_length_cases [of "Suc a" cap z] by (cases "a \<le> z") simp_all
  qed
  have "map (\<lambda>n. (a + n) mod cap) [0..<Suc k] = a # map (\<lambda>n. (Suc a mod cap + n) mod cap) [0..<k]" for k
    using assms(1) by (simp add: upt_conv_Cons mod_add_left_eq flip: map_Suc_upt del: upt_Suc)
  then show ?thesis unfolding slots_from_def l by simp
qed

lemma slots_from_bound: "0 < cap \<Longrightarrow> j \<in> set (slots_from cap a z) \<Longrightarrow> j < cap"
  by (auto simp: slots_from_def)

lemma slots_from_ring:
  assumes "b < cap" and "e < cap"
  shows "slots_from cap (Suc b mod cap) (Suc e mod cap) = ring_slots cap b e"
proof -
  have "(Suc e mod cap + cap - Suc b mod cap) mod cap = (e + cap - b) mod cap"
  proof (cases "Suc b = cap"; cases "Suc e = cap")
    assume c: "Suc b \<noteq> cap" "Suc e \<noteq> cap"
    then show ?thesis using assms ring_length_cases [OF assms] ring_length_cases [of "Suc b" cap "Suc e"]
      by simp
  next
    assume c: "Suc b = cap" "Suc e \<noteq> cap"
    then have "Suc e mod cap + cap - Suc b mod cap = Suc e + cap" "e + cap - b = Suc e"
      using assms by simp_all
    then show ?thesis by (simp only: mod_add_self2)
  next
    assume c: "Suc b \<noteq> cap" "Suc e = cap"
    then show ?thesis using assms ring_length_cases [OF assms] by simp
  next
    assume c: "Suc b = cap" "Suc e = cap"
    then have "b = e" by simp
    then show ?thesis by simp
  qed
  then show ?thesis unfolding slots_from_def ring_slots_def by (simp add: mod_add_left_eq)
qed

text \<open>
  A pointer to a record outside the file \<open>i\<close> that is being written, and an iterator over such
  a file with the records it still yields.
\<close>

definition ptr_rel :: "stats_world \<Rightarrow> nat \<Rightarrow> stats_file \<times> nat \<Rightarrow> stats_record \<Rightarrow> bool" where
  "ptr_rel w i p r \<longleftrightarrow> (\<exists>k. k \<noteq> i \<and> file_ok w (fst p) k \<and>
     snd p + record_size \<le> unat (sf_len (fst p)) \<and>
     stats_record_of_bytes (take record_size (drop (snd p) (sw_data w k))) = r)"

definition iter_rel :: "stats_world \<Rightarrow> nat \<Rightarrow> stats_iter \<Rightarrow> stats_record list \<Rightarrow> bool" where
  "iter_rel w i it rs \<longleftrightarrow> (\<exists>k a z. k \<noteq> i \<and> file_ok w (si_file it) k \<and>
     unat (sf_len (si_file it)) < 2 ^ 32 \<and> si_it it = slot_off a \<and> si_end it = slot_off z \<and>
     a < capacity (si_file it) \<and> z < capacity (si_file it) \<and>
     rs = map (slot (sw_data w k)) (slots_from (capacity (si_file it)) a z))"

lemma ptr_rel_touches: "ptr_rel w i p r \<Longrightarrow> touches i w w' \<Longrightarrow> ptr_rel w' i p r"
  unfolding ptr_rel_def by (metis file_ok_other touchesD(6))

lemma iter_rel_touches: "iter_rel w i it rs \<Longrightarrow> touches i w w' \<Longrightarrow> iter_rel w' i it rs"
  unfolding iter_rel_def by (metis file_ok_other touchesD(6))

lemma ptr_rel_read: "ptr_rel w i p r \<Longrightarrow> read_record w p = Inr r"
  by (auto simp: ptr_rel_def read_record_def read_map_ok)

lemma ptr_rel_bytes:
  assumes "ptr_rel w i p r" shows "read_map w (fst p) (snd p) record_size = Inr (stats_record_bytes r)"
proof -
  obtain k where k: "file_ok w (fst p) k" "snd p + 48 \<le> unat (sf_len (fst p))"
    "stats_record_of_bytes (take 48 (drop (snd p) (sw_data w k))) = r"
    using assms by (auto simp: ptr_rel_def)
  have "unat (sf_len (fst p)) \<le> length (sw_data w k)" using k(1) by (simp add: file_ok_def)
  then have "length (take 48 (drop (snd p) (sw_data w k))) = 48" using k(2) by simp
  then have "stats_record_bytes r = take 48 (drop (snd p) (sw_data w k))"
    using k(3) srec.enc_dec by blast
  then show ?thesis by (simp add: read_map_ok [OF k(1,2)])
qed

lemma get_next_record_Nil:
  assumes "iter_rel w i it []" shows "get_next_record it = (None, it)"
proof -
  obtain a z where az: "si_it it = slot_off a" "si_end it = slot_off z"
    "a < capacity (si_file it)" "z < capacity (si_file it)"
    "slots_from (capacity (si_file it)) a z = []" using assms by (auto simp: iter_rel_def)
  then have "a = z" using slots_from_Cons [OF az(3,4)] by force
  then show ?thesis using az by (simp add: get_next_record_def)
qed

lemma get_next_record_Cons:
  assumes "iter_rel w i it (r # rs)"
  shows "\<exists>p it'. get_next_record it = (Some p, it') \<and> ptr_rel w i p r \<and> iter_rel w i it' rs"
proof -
  let ?f = "si_file it"
  obtain k a z where k: "k \<noteq> i" "file_ok w ?f k" "unat (sf_len ?f) < 2 ^ 32"
    "si_it it = slot_off a" "si_end it = slot_off z" "a < capacity ?f" "z < capacity ?f"
    and rs: "r # rs = map (slot (sw_data w k)) (slots_from (capacity ?f) a z)"
    using assms by (auto simp: iter_rel_def)
  have "a \<noteq> z" using rs by (auto simp: slots_from_Nil)
  note c = slots_from_Cons [OF k(6,7) this]
  have "get_next_record it = (Some (?f, slot_off a), it\<lparr>si_it := slot_off (Suc a mod capacity ?f)\<rparr>)"
    using k \<open>a \<noteq> z\<close> get_next_slot [OF k(2,3,6)] by (simp add: get_next_record_def)
  moreover have "ptr_rel w i (?f, slot_off a) r"
    using k rs c slot_off_bound(1) [OF k(2,3,6)] by (auto simp: ptr_rel_def slot_def)
  moreover have "iter_rel w i (it\<lparr>si_it := slot_off (Suc a mod capacity ?f)\<rparr>) rs"
    unfolding iter_rel_def using k rs c
    by (intro exI [of _ k] exI [of _ "Suc a mod capacity ?f"] exI [of _ z]) simp
  ultimately show ?thesis by blast
qed

lemma file_iter_rel:
  assumes ok: "file_ok w f k" and al: "aligned (sw_data w k) f" and "k \<noteq> i"
  shows "\<exists>it. file_iter w f = Inr it \<and> iter_rel w i it (records (sw_data w k) f)"
proof -
  let ?d = "sw_data w k" and ?cap = "capacity f"
  let ?b = "slot_of (field32 4 ?d)" and ?e = "slot_of (field32 8 ?d)"
  have lt: "?b < ?cap" "?e < ?cap" "unat (sf_len f) < 2 ^ 32" using al by (simp_all add: aligned_def)
  define it where "it = \<lparr>si_file = f, si_begin = slot_off (Suc ?b mod ?cap),
    si_end = slot_off (Suc ?e mod ?cap), si_it = slot_off (Suc ?b mod ?cap)\<rparr>"
  have "file_iter w f = Inr it"
    using get_next_aligned [OF ok al]
    by (simp add: file_iter_def get_iterator_begin_def get_iterator_end_def get_begin_ok [OF ok]
        get_end_ok [OF ok] it_def next_slot_def)
  moreover have "iter_rel w i it (records ?d f)"
    unfolding iter_rel_def records_def slots_from_ring [OF lt(1,2), symmetric]
    using assms lt
    by (intro exI [of _ k] exI [of _ "Suc ?b mod ?cap"] exI [of _ "Suc ?e mod ?cap"])
      (simp add: it_def)
  ultimately show ?thesis by blast
qed

section \<open>Appending to a file\<close>

text \<open>
  A new file that is written from its start: it has whole pages and no current records, its
  records are \<open>out\<close>, and its length leaves room for \<open>n\<close> more growing steps before offsets leave
  32 bits.
\<close>

definition new_file :: "stats_env \<Rightarrow> u8 list \<Rightarrow> stats_file \<Rightarrow> bool" where
  "new_file e d t \<longleftrightarrow> length d = unat (sf_len t) \<and> unat (se_page e) dvd unat (sf_len t) \<and>
     field32 hdr_magic d = MAGIC \<and> field32 hdr_home d = UINT_MAX \<and> field32 hdr_roaming d = UINT_MAX"

definition temp_rel ::
    "stats_env \<Rightarrow> stats_world \<Rightarrow> stats_file \<Rightarrow> nat \<Rightarrow> stats_record list \<Rightarrow> nat \<Rightarrow> bool" where
  "temp_rel e w t i out n \<longleftrightarrow> file_ok w t i \<and> aligned (sw_data w i) t \<and>
     slot_of (field32 hdr_begin (sw_data w i)) = 0 \<and> records (sw_data w i) t = out \<and>
     new_file e (sw_data w i) t \<and> unat (sf_len t) + 2 * unat (se_page e) * n < 2 ^ 32"

definition no_failure :: "stats_env \<Rightarrow> bool" where
  "no_failure e \<longleftrightarrow> (\<forall>n. se_fail e n = 0)"

lemma temp_rel_less: "temp_rel e w t i out n \<Longrightarrow> m \<le> n \<Longrightarrow> temp_rel e w t i out m"
proof -
  assume t: "temp_rel e w t i out n" and m: "m \<le> n"
  have "2 * unat (se_page e) * m \<le> 2 * unat (se_page e) * n" using m by simp
  then show ?thesis using t unfolding temp_rel_def by linarith
qed

lemma copy_record_records:
  assumes ok: "file_ok w f i" and al: "aligned (sw_data w i) f"
    and w': "w' = poke_at i 8 (bytes32 (of_nat (slot_off (next_slot (sw_data w i) f))))
      (poke_at i (slot_off (next_slot (sw_data w i) f)) (stats_record_bytes r) w)"
  shows "file_ok w' f i" and "aligned (sw_data w' i) f"
    and "records (sw_data w' i) f = ring_put (capacity f) r (records (sw_data w i) f)"
    and "k + 4 \<le> 8 \<or> 12 \<le> k \<and> k + 4 \<le> 20 \<Longrightarrow>
      field32 k (sw_data w' i) = field32 k (sw_data w i)"
    and "length (sw_data w' i) = length (sw_data w i)"
proof -
  let ?d = "sw_data w i" and ?j = "next_slot (sw_data w i) f"
  have jc: "?j < capacity f" by (rule get_next_aligned(3) [OF ok al])
  have small: "unat (sf_len f) < 2 ^ 32" using al by (simp add: aligned_def)
  note jb = slot_off_bound(1) [OF ok small jc]
  have L: "slot_off (Suc k) \<le> length ?d" if "k < capacity f" for k
    using slot_off_bound(1) [OF ok small that] ok by (simp add: slot_off_def file_ok_def)
  have Lj: "slot_off ?j + 48 \<le> length ?d" using L [OF jc] by (simp add: slot_off_def)
  have L0: "128 \<le> length ?d" "128 \<le> unat (sf_len f)" using ok by (simp_all add: file_ok_def)
  define d1 where "d1 = poke (slot_off ?j) (stats_record_bytes r) ?d"
  have l1: "length d1 = length ?d" unfolding d1_def
    using Lj by (simp add: length_poke srec.length_enc)
  have d': "sw_data w' i = poke 8 (bytes32 (of_nat (slot_off ?j))) d1"
    by (simp add: w' d1_def)
  have off: "20 \<le> slot_off ?j" by (simp add: slot_off_def)
  show "file_ok w' f i" unfolding w'
    using jb L0 by (intro file_ok_poke ok) (simp_all add: srec.length_enc)
  have h: "field32 k (sw_data w' i) = field32 k ?d" if "k + 4 \<le> 8 \<or> 12 \<le> k \<and> k + 4 \<le> 20" for k
  proof -
    have "field32 k (sw_data w' i) = field32 k d1"
      unfolding d' using L0 l1 that by (intro field32_poke_other) auto
    also have "\<dots> = field32 k ?d"
      unfolding d1_def using Lj off that by (intro field32_poke_other) (auto simp: srec.length_enc)
    finally show ?thesis .
  qed
  then show "k + 4 \<le> 8 \<or> 12 \<le> k \<and> k + 4 \<le> 20 \<Longrightarrow> field32 k (sw_data w' i) = field32 k ?d" .
  have b': "field32 4 (sw_data w' i) = field32 4 ?d" by (rule h) simp
  show "length (sw_data w' i) = length ?d" unfolding d' using L0 l1 by (simp add: length_poke)
  have e': "unat (field32 8 (sw_data w' i)) = slot_off ?j"
    unfolding d' using L0 l1 unat_slot_off [OF ok small jc] by (simp add: field32_poke_same)
  have sl: "slot (sw_data w' i) k = (if k = ?j then r else slot ?d k)" if k: "k < capacity f" for k
  proof -
    have "slot (sw_data w' i) k = slot d1 k" unfolding d'
      using L0 l1 L [OF k] by (intro slot_poke_header) simp_all
    also have "\<dots> = (if k = ?j then r else slot ?d k)" unfolding d1_def
      using slot_poke_slot [of "stats_record_bytes r" ?j ?d k] L [OF k] L [OF jc]
      by (simp add: srec.length_enc srec.dec_enc)
    finally show ?thesis .
  qed
  show "aligned (sw_data w' i) f" and "records (sw_data w' i) f = ring_put (capacity f) r (records ?d f)"
    using records_put [OF al refl b' e'] sl jc by simp_all
qed

lemma append_tail:
  assumes ok: "file_ok w f i" and p: "ptr_rel w i p r"
  defines "nx \<equiv> get_next f (unat (field32 hdr_end (sw_data w i)))"
  shows "bind_r (get_end w f) (\<lambda>cur. let next = get_next f cur in
          bind_r (read_map w (fst p) (snd p) record_size) (\<lambda>bs.
          bind_r (write_map w f next bs) (\<lambda>w2.
          bind_r (set_end w2 f next) (\<lambda>w3. Inr (0 :: int, f, w3))))) =
    Inr (0, f, poke_at i 8 (bytes32 (of_nat nx)) (poke_at i nx (stats_record_bytes r) w))"
proof -
  note b = get_next_in_bounds [OF ok, of "unat (field32 hdr_end (sw_data w i))", folded nx_def]
  have l: "128 \<le> unat (sf_len f)" using ok by (simp add: file_ok_def)
  have wr: "write_map w f nx (stats_record_bytes r) = Inr (poke_at i nx (stats_record_bytes r) w)"
    using b by (intro write_map_ok [OF ok]) (simp add: srec.length_enc)
  have ok1: "file_ok (poke_at i nx (stats_record_bytes r) w) f i"
    using b by (intro file_ok_poke [OF ok]) (simp add: srec.length_enc)
  have se: "set_end (poke_at i nx (stats_record_bytes r) w) f nx =
    Inr (poke_at i 8 (bytes32 (of_nat nx)) (poke_at i nx (stats_record_bytes r) w))"
    unfolding set_end_def using l by (intro write_map_ok [OF ok1]) simp
  show ?thesis
    by (simp add: get_end_ok [OF ok] Let_def ptr_rel_bytes [OF p] nx_def [symmetric] wr se)
qed

lemma cached_idem [simp]: "cached w i (cached w i f) = cached w i f"
  by (simp add: cached_def)

lemma append_record_temp:
  assumes e: "page_ok e" "no_failure e" and t: "temp_rel e w t i out (Suc n)" and p: "ptr_rel w i p r"
  shows "\<exists>t' w'. append_record e t p w = Inr (0, t', w') \<and> touches i w w' \<and>
    temp_rel e w' t' i (out @ [r]) n \<and> sf_fd t' = sf_fd t \<and> sf_name t' = sf_name t"
proof -
  let ?d = "sw_data w i"
  note P = page_size_bounds [OF e(1)]
  have ok: "file_ok w t i" and al: "aligned ?d t" and b0: "slot_of (field32 4 ?d) = 0"
    and out: "records ?d t = out" and nf: "new_file e ?d t"
    and room: "unat (sf_len t) + 2 * unat (se_page e) * Suc n < 2 ^ 32"
    using t unfolding temp_rel_def by blast+
  have len: "128 \<le> unat (sf_len t)" using ok by (simp add: file_ok_def)
  have "\<exists>f1 w1. (if sf_last t = unat (field32 8 ?d)
             then bind_r (stats_file_remap e t (sf_len t + se_page e) w) (\<lambda>(err, f1, w1).
                  if err < 0 then Inr (err, f1, w1)
                  else bind_r (stats_file_update_cache w1 f1) (\<lambda>f2. Inr (0, f2, w1)))
             else Inr (0, t, w)) = Inr (0, f1, w1) \<and> touches i w w1 \<and> file_ok w1 f1 i \<and>
      aligned (sw_data w1 i) f1 \<and> slot_of (field32 4 (sw_data w1 i)) = 0 \<and>
      records (sw_data w1 i) f1 = out \<and> Suc (slot_of (field32 8 (sw_data w1 i))) < capacity f1 \<and>
      new_file e (sw_data w1 i) f1 \<and>
      unat (sf_len f1) + 2 * unat (se_page e) * n < 2 ^ 32 \<and> sf_fd f1 = sf_fd t \<and> sf_name f1 = sf_name t"
    (is "\<exists>f1 w1. ?g = _ \<and> _")
  proof (cases "sf_last t = unat (field32 8 ?d)")
    case False
    have sm: "unat (sf_len t) < 2 ^ 32" using al by (simp add: aligned_def)
    have "slot_of (field32 8 ?d) \<noteq> capacity t - 1"
      using False ok al file_last_small(1) [OF len sm] by (auto simp: file_ok_def aligned_def)
    then have "Suc (slot_of (field32 8 ?d)) < capacity t" using al by (auto simp: aligned_def)
    moreover have "unat (sf_len t) + 2 * unat (se_page e) * n < 2 ^ 32" using room by simp
    ultimately show ?thesis using False ok al b0 out nf by simp
  next
    case True
    define sz where "sz = sf_len t + se_page e"
    have sz: "unat sz = unat (sf_len t) + unat (se_page e)"
      unfolding sz_def using room by (intro unat_plus_simple [THEN iffD1]) (simp add: no_olen_add_nat)
    note pr = page_round_ge [OF e(1), of sz]
    obtain err f1 w1 where r: "stats_file_remap e t sz w = Inr (err, f1, w1)"
      and tch: "touches i w w1"
      and pre: "take (unat (sf_len t)) (sw_data w1 i) = take (unat (sf_len t)) ?d"
      and c: "err < 0 \<and> f1 = t \<or> err = 0 \<and> file_ok w1 f1 i \<and>
        sw_data w1 i = resize (unat (page_round e sz)) ?d \<and>
        f1 = cached w1 i (t\<lparr>sf_addr := Some i, sf_len := page_round e sz\<rparr>)"
      using stats_file_remap_cases [OF e(1), of w t i sz] ok len room sz
      unfolding file_ok_def by auto
    have "unat (page_round e sz) < 2 ^ 63" using pr sz room P by simp
    then have "err = 0" using stats_file_remap_succeeds [OF _ _ _ r] ok e(2)
      by (simp add: file_ok_def no_failure_def)
    then have ok1: "file_ok w1 f1 i"
      and f1: "f1 = cached w1 i (t\<lparr>sf_addr := Some i, sf_len := page_round e sz\<rparr>)" using c by auto
    have l1: "unat (sf_len t) + unat (se_page e) \<le> unat (sf_len f1)"
      "unat (sf_len f1) < unat (sf_len t) + 2 * unat (se_page e)"
      using pr sz room unfolding f1 by simp_all
    have room1: "unat (sf_len f1) + 2 * unat (se_page e) * n < 2 ^ 32" using l1 room by simp
    have g: "?g = Inr (0, f1, w1)"
    proof -
      have "stats_file_update_cache w1 f1 = Inr (cached w1 i f1)"
        using ok1 by (intro update_cache_ok) (simp_all add: file_ok_def)
      also have "cached w1 i f1 = f1" unfolding f1 by simp
      finally show ?thesis using True r \<open>err = 0\<close> unfolding sz_def by simp
    qed
    note rg = records_grow [OF ok al pre, of f1]
    have al1: "aligned (sw_data w1 i) f1" and rec1: "records (sw_data w1 i) f1 = out"
      using rg l1 room1 True out by simp_all
    have h: "field32 k (sw_data w1 i) = field32 k ?d" if "k \<le> 16" for k
      using len that by (auto intro!: field32_prefix [OF pre])
    have nf1: "new_file e (sw_data w1 i) f1"
    proof -
      have "length (sw_data w1 i) = unat (page_round e sz)" using c \<open>err = 0\<close> by simp
      moreover have "unat (se_page e) dvd unat (page_round e sz)"
        using sz room by (subst page_round_unat [OF e(1)]) simp_all
      ultimately show ?thesis using nf unfolding new_file_def by (simp add: h f1)
    qed
    have "Suc (slot_of (field32 8 ?d)) \<le> capacity t" using al by (simp add: aligned_def)
    also have "capacity t < capacity f1"
    proof -
      have "(unat (sf_len t) - 20 + 48) div 48 \<le> (unat (sf_len f1) - 20) div 48"
        using l1 P len by (intro div_le_mono) simp
      then show ?thesis by (simp add: capacity_def)
    qed
    finally show ?thesis using g tch ok1 al1 b0 rec1 room1 h nf1
      by (intro exI [of _ f1] exI [of _ w1]) (simp add: f1)
  qed
  then obtain f1 w1 where g: "?g = Inr (0, f1, w1)" and tch: "touches i w w1"
    and ok1: "file_ok w1 f1 i" and al1: "aligned (sw_data w1 i) f1"
    and b1: "slot_of (field32 4 (sw_data w1 i)) = 0" and rec1: "records (sw_data w1 i) f1 = out"
    and sp: "Suc (slot_of (field32 8 (sw_data w1 i))) < capacity f1"
    and nf1: "new_file e (sw_data w1 i) f1"
    and room1: "unat (sf_len f1) + 2 * unat (se_page e) * n < 2 ^ 32"
    and nm: "sf_fd f1 = sf_fd t" "sf_name f1 = sf_name t" by blast
  let ?j = "next_slot (sw_data w1 i) f1"
  define w' where "w' = poke_at i 8 (bytes32 (of_nat (slot_off ?j)))
    (poke_at i (slot_off ?j) (stats_record_bytes r) w1)"
  note cp = copy_record_records [OF ok1 al1 w'_def]
  have "append_record e t p w = Inr (0, f1, w')"
    unfolding append_record_def get_end_ok [OF ok] bind_r_simps g
    using append_tail [OF ok1 ptr_rel_touches [OF p tch]]
    by (simp add: get_next_aligned(1) [OF ok1 al1] w'_def)
  moreover have "touches i w w'"
    unfolding w'_def by (blast intro: touches_trans touches_poke tch)
  moreover have "records (sw_data w' i) f1 = out @ [r]"
  proof -
    have "Suc (length out) < capacity f1"
      using sp al1 ring_length_cases [of 0 "capacity f1" "slot_of (field32 8 (sw_data w1 i))"]
      by (simp add: rec1 [symmetric] records_def b1 length_ring_slots)
    then show ?thesis using cp(3) by (simp add: rec1 ring_put_def)
  qed
  moreover have "new_file e (sw_data w' i) f1"
    using nf1 by (simp add: new_file_def cp(4,5))
  ultimately show ?thesis using cp b1 room1 nm
    by (intro exI [of _ f1] exI [of _ w']) (simp add: temp_rel_def)
qed

end
