(* ===== verification/Stats_History.thy ===== *)
theory Stats_History
  imports Stats_Ring
begin

text \<open>
  The history of \<^verbatim>\<open>src/stats.c\<close>: the summary as a function on lists, the proof that the code
  computes it with its iterators and files, and the refinement of an update to its
  specification on lists.
\<close>

section \<open>Summaries as functions on lists\<close>

text \<open>
  The specification of a history update. A record is kept when the period of the following
  record is another one: the last home record and the last roaming record of the period are
  written, in this order. The last record is handed on to the next file.
\<close>

definition opt_list :: "'a option \<Rightarrow> 'a list" where
  "opt_list x = (case x of None \<Rightarrow> [] | Some a \<Rightarrow> [a])"

fun sum_loop :: "(u64 \<Rightarrow> u64 \<Rightarrow> bool) \<Rightarrow> stats_record \<Rightarrow> stats_record option \<Rightarrow>
    stats_record option \<Rightarrow> stats_record list \<Rightarrow> stats_record list \<times> stats_record" where
  "sum_loop ends cur h r [] = ([], cur)"
| "sum_loop ends cur h r (n # ns) =
     (let (h1, r1) = (if sr_roaming cur = 1 then (h, Some cur) else (Some cur, r)) in
      if ends (sr_ts cur) (sr_ts n)
      then (let (out, c) = sum_loop ends n None None ns in (opt_list h1 @ opt_list r1 @ out, c))
      else sum_loop ends n h1 r1 ns)"

fun sum_file :: "(u64 \<Rightarrow> u64 \<Rightarrow> bool) \<Rightarrow> stats_record option \<Rightarrow> stats_record list \<Rightarrow>
    stats_record list \<times> stats_record option" where
  "sum_file ends None [] = ([], None)"
| "sum_file ends None (c # rs) = (let (out, c') = sum_loop ends c None None rs in (out, Some c'))"
| "sum_file ends (Some c) rs = (let (out, c') = sum_loop ends c None None rs in (out, Some c'))"

definition newer_than :: "stats_record option \<Rightarrow> stats_record list \<Rightarrow> stats_record list" where
  "newer_than cur rs = (case cur of None \<Rightarrow> rs
     | Some c \<Rightarrow> drop 1 (dropWhile (\<lambda>r. sint (sr_ts r) < sint (sr_ts c)) rs))"

definition sum_all :: "(u64 \<Rightarrow> u64 \<Rightarrow> bool) \<Rightarrow> stats_record list \<Rightarrow> stats_record list \<Rightarrow>
    stats_record list" where
  "sum_all ends hist data = (let (out1, c1) = sum_file ends None hist;
     (out2, c2) = sum_file ends c1 (newer_than c1 data) in out1 @ out2 @ opt_list c2)"

section \<open>The code computes the summary\<close>

definition opt_ptr :: "stats_world \<Rightarrow> nat \<Rightarrow> (stats_file \<times> nat) option \<Rightarrow> stats_record option \<Rightarrow> bool" where
  "opt_ptr w i p r = (case (p, r) of (None, None) \<Rightarrow> True | (Some q, Some s) \<Rightarrow> ptr_rel w i q s
     | _ \<Rightarrow> False)"

lemma opt_ptr_simps [simp]:
  "opt_ptr w i None r \<longleftrightarrow> r = None" "opt_ptr w i p None \<longleftrightarrow> p = None"
  "opt_ptr w i (Some q) (Some s) \<longleftrightarrow> ptr_rel w i q s"
  by (auto simp: opt_ptr_def split: option.splits)

lemma opt_ptr_touches: "opt_ptr w i p r \<Longrightarrow> touches i w w' \<Longrightarrow> opt_ptr w' i p r"
  by (auto simp: opt_ptr_def split: option.splits intro: ptr_rel_touches)

lemma append_pending_temp:
  assumes e: "page_ok e" "no_failure e" and t: "temp_rel e w t i out (Suc n)" and p: "opt_ptr w i p r"
  shows "\<exists>t' w'. append_pending e p t w = Inr (t', w') \<and> touches i w w' \<and>
    temp_rel e w' t' i (out @ opt_list r) n \<and> sf_fd t' = sf_fd t \<and> sf_name t' = sf_name t"
proof (cases p)
  case None
  then have "r = None" using p by simp
  then show ?thesis using None temp_rel_less [OF t, of n]
    by (simp add: append_pending_def opt_list_def)
next
  case (Some q)
  then obtain s where r: "r = Some s" "ptr_rel w i q s" using p by (cases r) auto
  then show ?thesis using append_record_temp [OF e t r(2)] Some
    by (auto simp: append_pending_def opt_list_def)
qed

definition process_rel :: "stats_env \<Rightarrow> nat \<Rightarrow> process_state \<Rightarrow> stats_record list \<Rightarrow> stats_record \<Rightarrow>
    stats_record option \<Rightarrow> stats_record option \<Rightarrow> stats_record list \<Rightarrow> nat \<Rightarrow> bool" where
  "process_rel e i s out cur h r rs n \<longleftrightarrow>
     opt_ptr (ps_world s) i (ps_cur s) (Some cur) \<and> opt_ptr (ps_world s) i (ps_home s) h \<and>
     opt_ptr (ps_world s) i (ps_roaming s) r \<and> temp_rel e (ps_world s) (ps_temp s) i out n \<and>
     (case rs of [] \<Rightarrow> ps_next s = None
      | m # ms \<Rightarrow> opt_ptr (ps_world s) i (ps_next s) (Some m) \<and> iter_rel (ps_world s) i (ps_iter s) ms)"

lemma process_body_rel:
  fixes sd off :: int
  assumes e: "page_ok e" "no_failure e"
    and s: "process_rel e i s out cur h r (m # ms) (Suc (Suc n))"
  defines "h1 \<equiv> (if sr_roaming cur = 1 then h else Some cur)"
    and "r1 \<equiv> (if sr_roaming cur = 1 then Some cur else r)"
    and "ends \<equiv> period_ends e sd off (sr_ts cur) (sr_ts m)"
  shows "\<exists>s'. process_body e sd off s = Inr s' \<and> touches i (ps_world s) (ps_world s') \<and>
    sf_fd (ps_temp s') = sf_fd (ps_temp s) \<and> sf_name (ps_temp s') = sf_name (ps_temp s) \<and>
    (if ends then process_rel e i s' (out @ opt_list h1 @ opt_list r1) m None None ms n
     else process_rel e i s' out m h1 r1 ms n)"
proof -
  let ?w = "ps_world s"
  obtain pc pn where pc: "ps_cur s = Some pc" "ptr_rel ?w i pc cur"
    and pn: "ps_next s = Some pn" "ptr_rel ?w i pn m"
    using s by (cases "ps_cur s"; cases "ps_next s") (auto simp: process_rel_def)
  have it: "iter_rel ?w i (ps_iter s) ms" and t: "temp_rel e ?w (ps_temp s) i out (Suc (Suc n))"
    and hr: "opt_ptr ?w i (ps_home s) h" "opt_ptr ?w i (ps_roaming s) r"
    using s by (auto simp: process_rel_def)
  define s1 where "s1 = (if sr_roaming cur = 1 then s\<lparr>ps_roaming := Some pc\<rparr> else s\<lparr>ps_home := Some pc\<rparr>)"
  have s1: "ps_world s1 = ?w" "ps_temp s1 = ps_temp s" "ps_iter s1 = ps_iter s"
    "opt_ptr ?w i (ps_home s1) h1" "opt_ptr ?w i (ps_roaming s1) r1"
    using hr pc by (auto simp: s1_def h1_def r1_def)
  have "\<exists>s2. (if ends
      then bind_r (append_pending e (ps_home s1) (ps_temp s1) (ps_world s1)) (\<lambda>(t1, w1).
           bind_r (append_pending e (ps_roaming s1) t1 w1) (\<lambda>(t2, w2).
           Inr (s1\<lparr>ps_home := None, ps_roaming := None, ps_temp := t2, ps_world := w2\<rparr>)))
      else Inr s1) = Inr s2 \<and> touches i ?w (ps_world s2) \<and> ps_iter s2 = ps_iter s \<and>
      sf_fd (ps_temp s2) = sf_fd (ps_temp s) \<and> sf_name (ps_temp s2) = sf_name (ps_temp s) \<and>
      opt_ptr (ps_world s2) i (ps_home s2) (if ends then None else h1) \<and>
      opt_ptr (ps_world s2) i (ps_roaming s2) (if ends then None else r1) \<and>
      temp_rel e (ps_world s2) (ps_temp s2) i (if ends then out @ opt_list h1 @ opt_list r1 else out) n"
    (is "\<exists>s2. ?g = _ \<and> _")
  proof (cases ends)
    case False
    then show ?thesis using s1 temp_rel_less [OF t, of n] by simp
  next
    case True
    obtain t1 w1 where a1: "append_pending e (ps_home s1) (ps_temp s1) ?w = Inr (t1, w1)"
      "touches i ?w w1" "temp_rel e w1 t1 i (out @ opt_list h1) (Suc n)"
      "sf_fd t1 = sf_fd (ps_temp s)" "sf_name t1 = sf_name (ps_temp s)"
      using append_pending_temp [OF e t s1(4)] s1(2) by auto
    obtain t2 w2 where a2: "append_pending e (ps_roaming s1) t1 w1 = Inr (t2, w2)"
      "touches i w1 w2" "temp_rel e w2 t2 i ((out @ opt_list h1) @ opt_list r1) n"
      "sf_fd t2 = sf_fd t1" "sf_name t2 = sf_name t1"
      using append_pending_temp [OF e a1(3) opt_ptr_touches [OF s1(5) a1(2)]] by auto
    show ?thesis using True a1 a2 s1 touches_trans [OF a1(2) a2(2)] by simp
  qed
  then obtain s2 where g: "?g = Inr s2" and tch: "touches i ?w (ps_world s2)"
    and r2: "ps_iter s2 = ps_iter s" "sf_fd (ps_temp s2) = sf_fd (ps_temp s)"
      "sf_name (ps_temp s2) = sf_name (ps_temp s)"
      "opt_ptr (ps_world s2) i (ps_home s2) (if ends then None else h1)"
      "opt_ptr (ps_world s2) i (ps_roaming s2) (if ends then None else r1)"
      "temp_rel e (ps_world s2) (ps_temp s2) i (if ends then out @ opt_list h1 @ opt_list r1 else out) n"
    by blast
  define nx where "nx = fst (get_next_record (ps_iter s2))"
  define it2 where "it2 = snd (get_next_record (ps_iter s2))"
  have body: "process_body e sd off s = Inr (s2\<lparr>ps_cur := Some pn, ps_next := nx, ps_iter := it2\<rparr>)"
    by (simp only: process_body_def pc(1) pn(1) prod.case option.case ptr_rel_read [OF pc(2)]
        ptr_rel_read [OF pn(2)] bind_r_simps Let_def s1_def [symmetric] ends_def [symmetric] g)
      (simp add: nx_def it2_def split_beta)
  have itr: "iter_rel (ps_world s2) i (ps_iter s2) ms" using iter_rel_touches [OF it tch] r2(1) by simp
  have "case ms of [] \<Rightarrow> nx = None
      | m' # ms' \<Rightarrow> opt_ptr (ps_world s2) i nx (Some m') \<and> iter_rel (ps_world s2) i it2 ms'"
  proof (cases ms)
    case Nil
    then show ?thesis using get_next_record_Nil itr by (simp add: nx_def)
  next
    case (Cons m' ms')
    then show ?thesis using get_next_record_Cons [of "ps_world s2" i "ps_iter s2" m' ms'] itr
      by (auto simp: nx_def it2_def)
  qed
  then show ?thesis using r2 tch ptr_rel_touches [OF pn(2) tch]
    unfolding body by (auto simp: process_rel_def split: list.splits)
qed

lemma process_loop_rel:
  assumes e: "page_ok e" "no_failure e"
  shows "process_rel e i s out cur h r rs (2 * length rs + n) \<Longrightarrow>
    \<exists>s'. process_loop e sd off s = Some (Inr s') \<and> touches i (ps_world s) (ps_world s') \<and>
      sf_fd (ps_temp s') = sf_fd (ps_temp s) \<and> sf_name (ps_temp s') = sf_name (ps_temp s) \<and>
      opt_ptr (ps_world s') i (ps_cur s') (Some (snd (sum_loop (period_ends e sd off) cur h r rs))) \<and>
      temp_rel e (ps_world s') (ps_temp s') i (out @ fst (sum_loop (period_ends e sd off) cur h r rs)) n"
proof (induction rs arbitrary: s out cur h r)
  case Nil
  then show ?case by (subst process_loop.simps) (auto simp: process_rel_def)
next
  case (Cons m ms)
  let ?ends = "period_ends e sd off"
  let ?h1 = "if sr_roaming cur = 1 then h else Some cur"
  let ?r1 = "if sr_roaming cur = 1 then Some cur else r"
  have "process_rel e i s out cur h r (m # ms) (Suc (Suc (2 * length ms + n)))"
    using Cons.prems by simp
  from process_body_rel [OF e this, of sd off] obtain s1
    where b: "process_body e sd off s = Inr s1" "touches i (ps_world s) (ps_world s1)"
      "sf_fd (ps_temp s1) = sf_fd (ps_temp s)" "sf_name (ps_temp s1) = sf_name (ps_temp s)"
    and r1: "if ?ends (sr_ts cur) (sr_ts m)
      then process_rel e i s1 (out @ opt_list ?h1 @ opt_list ?r1) m None None ms (2 * length ms + n)
      else process_rel e i s1 out m ?h1 ?r1 ms (2 * length ms + n)" by blast
  have "ps_next s \<noteq> None" using Cons.prems by (cases "ps_next s") (auto simp: process_rel_def)
  then have l: "process_loop e sd off s = process_loop e sd off s1"
    using b(1) by (subst process_loop.simps) (simp del: not_None_eq)
  have sl: "sum_loop ?ends cur h r (m # ms) = (if ?ends (sr_ts cur) (sr_ts m)
      then (opt_list ?h1 @ opt_list ?r1 @ fst (sum_loop ?ends m None None ms),
            snd (sum_loop ?ends m None None ms))
      else sum_loop ?ends m ?h1 ?r1 ms)"
    by (simp add: split_beta)
  show ?case
  proof (cases "?ends (sr_ts cur) (sr_ts m)")
    case True
    with r1 have "process_rel e i s1 (out @ opt_list ?h1 @ opt_list ?r1) m None None ms
      (2 * length ms + n)" by simp
    from Cons.IH [OF this] show ?thesis
      unfolding l sl using True b touches_trans [OF b(2)] by auto
  next
    case False
    with r1 have "process_rel e i s1 out m ?h1 ?r1 ms (2 * length ms + n)" by simp
    from Cons.IH [OF this] show ?thesis
      unfolding l sl using False b touches_trans [OF b(2)] by auto
  qed
qed

lemma process_file_rel:
  assumes e: "page_ok e" "no_failure e" and it: "iter_rel w i it rs" and c: "opt_ptr w i p c"
    and t: "temp_rel e w t i out (2 * length rs + n)"
  shows "\<exists>p' t' w'. process_file e it t p sd off w = Some (Inr (p', t', w')) \<and> touches i w w' \<and>
    sf_fd t' = sf_fd t \<and> sf_name t' = sf_name t \<and>
    opt_ptr w' i p' (snd (sum_file (period_ends e sd off) c rs)) \<and>
    temp_rel e w' t' i (out @ fst (sum_file (period_ends e sd off) c rs)) n"
proof -
  let ?ends = "period_ends e sd off"
  have main: "\<exists>p' t' w'. bind_d (process_loop e sd off \<lparr>ps_iter = snd (get_next_record it1), ps_temp = t,
        ps_cur = Some q, ps_next = fst (get_next_record it1), ps_home = None, ps_roaming = None,
        ps_world = w\<rparr>) (\<lambda>s. Some (Inr (ps_cur s, ps_temp s, ps_world s))) = Some (Inr (p', t', w')) \<and>
      touches i w w' \<and> sf_fd t' = sf_fd t \<and> sf_name t' = sf_name t \<and>
      opt_ptr w' i p' (Some (snd (sum_loop ?ends c1 None None rs1))) \<and>
      temp_rel e w' t' i (out @ fst (sum_loop ?ends c1 None None rs1)) n"
    if it1: "iter_rel w i it1 rs1" and q: "ptr_rel w i q c1" and l: "length rs1 \<le> length rs"
    for it1 q c1 rs1
  proof -
    have tr: "temp_rel e w t i out (2 * length rs1 + n)" using temp_rel_less [OF t] l by simp
    have "process_rel e i \<lparr>ps_iter = snd (get_next_record it1), ps_temp = t, ps_cur = Some q,
        ps_next = fst (get_next_record it1), ps_home = None, ps_roaming = None, ps_world = w\<rparr>
        out c1 None None rs1 (2 * length rs1 + n)"
    proof (cases rs1)
      case Nil
      then show ?thesis using get_next_record_Nil [of w i it1] it1 q tr by (simp add: process_rel_def)
    next
      case (Cons m ms)
      then show ?thesis using get_next_record_Cons [of w i it1 m ms] it1 q tr
        by (auto simp: process_rel_def)
    qed
    from process_loop_rel [OF e this, of sd off] show ?thesis by auto
  qed
  show ?thesis
  proof (cases c)
    case None
    then have p: "p = None" using c by simp
    show ?thesis
    proof (cases rs)
      case Nil
      then have g: "get_next_record it = (None, it)" using get_next_record_Nil it by simp
      show ?thesis unfolding process_file_def p option.case g
        using t Nil None by (subst process_loop.simps) (simp add: g)
    next
      case (Cons m ms)
      then obtain q it1 where g: "get_next_record it = (Some q, it1)" "ptr_rel w i q m" "iter_rel w i it1 ms"
        using get_next_record_Cons [of w i it m ms] it by auto
      have "fst (sum_file ?ends c rs) = fst (sum_loop ?ends m None None ms)"
        "snd (sum_file ?ends c rs) = Some (snd (sum_loop ?ends m None None ms))"
        using None Cons by (simp_all add: split_beta)
      then show ?thesis using main [OF g(3,2)] Cons
        by (simp add: process_file_def p g(1) split_beta Let_def)
    qed
  next
    case (Some c1)
    then obtain q where q: "p = Some q" "ptr_rel w i q c1" using c by (cases p) auto
    have "fst (sum_file ?ends c rs) = fst (sum_loop ?ends c1 None None rs)"
      "snd (sum_file ?ends c rs) = Some (snd (sum_loop ?ends c1 None None rs))"
      using Some by (simp_all add: split_beta)
    then show ?thesis using main [OF it q(2)] by (simp add: process_file_def q(1) split_beta Let_def)
  qed
qed

lemma skip_older_rel:
  "(case rs of [] \<Rightarrow> next = None \<and> iter_rel w i it []
    | m # ms \<Rightarrow> opt_ptr w i next (Some m) \<and> iter_rel w i it ms) \<Longrightarrow>
   \<exists>it'. skip_older w ts next it = Some (Inr it') \<and>
     iter_rel w i it' (drop 1 (dropWhile (\<lambda>r. sint (sr_ts r) < sint ts) rs))"
proof (induction rs arbitrary: "next" it)
  case Nil
  then show ?case by (subst skip_older.simps) simp
next
  case (Cons m ms)
  then obtain q where q: "next = Some q" "ptr_rel w i q m" and it: "iter_rel w i it ms"
    by (cases "next") auto
  show ?case
  proof (cases "sint (sr_ts m) < sint ts")
    case False
    then show ?thesis using q it ptr_rel_read [OF q(2)] by (subst skip_older.simps) simp
  next
    case True
    have "case ms of [] \<Rightarrow> fst (get_next_record it) = None \<and> iter_rel w i (snd (get_next_record it)) []
      | m' # ms' \<Rightarrow> opt_ptr w i (fst (get_next_record it)) (Some m') \<and>
          iter_rel w i (snd (get_next_record it)) ms'"
    proof (cases ms)
      case Nil
      then show ?thesis using it get_next_record_Nil [of w i it] by simp
    next
      case (Cons m' ms')
      then show ?thesis using it get_next_record_Cons [of w i it m' ms'] by auto
    qed
    from Cons.IH [OF this] show ?thesis
      using True q ptr_rel_read [OF q(2)] by (subst skip_older.simps) simp
  qed
qed

lemma summarize_rel:
  assumes e: "page_ok e" "no_failure e"
    and f: "file_ok w f k" "aligned (sw_data w k) f" "k \<noteq> i"
    and h: "file_ok w h j" "aligned (sw_data w j) h" "j \<noteq> i"
    and t: "temp_rel e w t i [] (2 * length (records (sw_data w j) h) + 2 * length (records (sw_data w k) f) + 1)"
  defines "sd \<equiv> step_size_date e (sf_account_period_offset f)"
    and "off \<equiv> sf_account_period_offset f"
  shows "\<exists>t' w'. summarize e f (Some h) t w = Some (Inr (0, t', w')) \<and> touches i w w' \<and>
    sf_fd t' = sf_fd t \<and> sf_name t' = sf_name t \<and>
    temp_rel e w' t' i (sum_all (period_ends e sd off) (records (sw_data w j) h)
      (records (sw_data w k) f)) 0"
proof -
  let ?ends = "period_ends e sd off" and ?hs = "records (sw_data w j) h" and ?ds = "records (sw_data w k) f"
  obtain hit where hit: "file_iter w h = Inr hit" "iter_rel w i hit ?hs"
    using file_iter_rel [OF h] by blast
  have t0: "temp_rel e w t i [] (2 * length ?hs + (2 * length ?ds + 1))" using t by (simp add: add.assoc)
  obtain p1 t1 w1 where s1: "process_file e hit t None sd off w = Some (Inr (p1, t1, w1))"
    and u1: "touches i w w1" "sf_fd t1 = sf_fd t" "sf_name t1 = sf_name t"
    and c1: "opt_ptr w1 i p1 (snd (sum_file ?ends None ?hs))"
    and t1: "temp_rel e w1 t1 i (fst (sum_file ?ends None ?hs)) (2 * length ?ds + 1)"
    using process_file_rel [OF e hit(2) _ t0, of None None sd off] by auto
  have ds1: "records (sw_data w1 k) f = ?ds" using touchesD(6) [OF u1(1) f(3)] by simp
  obtain dit where dit: "file_iter w1 f = Inr dit" "iter_rel w1 i dit ?ds"
    using file_iter_rel [OF file_ok_other [OF f(1) u1(1) f(3)] _ f(3)] f(2) touchesD(6) [OF u1(1) f(3)]
    by (auto simp: ds1)
  let ?c = "snd (sum_file ?ends None ?hs)"
  have "\<exists>dit1. (case p1 of None \<Rightarrow> Some (Inr dit)
              | Some c \<Rightarrow> let (next, iter1) = get_next_record dit in
                  (case read_record w1 c of
                     Inl x \<Rightarrow> if next = None then Some (Inr iter1) else Some (Inl x)
                   | Inr rc \<Rightarrow> skip_older w1 (sr_ts rc) next iter1)) = Some (Inr dit1) \<and>
      iter_rel w1 i dit1 (newer_than ?c ?ds)" (is "\<exists>dit1. ?skip = _ \<and> _")
  proof (cases p1)
    case None
    then show ?thesis using c1 dit(2) by (simp add: newer_than_def)
  next
    case (Some q)
    then obtain c where c: "?c = Some c" "ptr_rel w1 i q c" using c1 by (cases ?c) auto
    have "case ?ds of [] \<Rightarrow> fst (get_next_record dit) = None \<and> iter_rel w1 i (snd (get_next_record dit)) []
      | m # ms \<Rightarrow> opt_ptr w1 i (fst (get_next_record dit)) (Some m) \<and>
          iter_rel w1 i (snd (get_next_record dit)) ms"
      using dit(2) get_next_record_Nil [of w1 i dit] get_next_record_Cons [of w1 i dit]
      by (cases ?ds) force+
    from skip_older_rel [OF this, of "sr_ts c"] show ?thesis
      using Some c ptr_rel_read [OF c(2)] by (simp add: split_beta newer_than_def)
  qed
  then obtain dit1 where sk: "?skip = Some (Inr dit1)" and dit1: "iter_rel w1 i dit1 (newer_than ?c ?ds)"
    by blast
  have ln: "length (newer_than ?c ?ds) \<le> length ?ds"
    using length_dropWhile_le [of "\<lambda>r. sint (sr_ts r) < sint (sr_ts (the ?c))" ?ds]
    by (auto simp: newer_than_def split: option.splits)
  have t1': "temp_rel e w1 t1 i (fst (sum_file ?ends None ?hs)) (2 * length (newer_than ?c ?ds) + 1)"
    using temp_rel_less [OF t1] ln by simp
  obtain p2 t2 w2 where s2: "process_file e dit1 t1 p1 sd off w1 = Some (Inr (p2, t2, w2))"
    and u2: "touches i w1 w2" "sf_fd t2 = sf_fd t1" "sf_name t2 = sf_name t1"
    and c2: "opt_ptr w2 i p2 (snd (sum_file ?ends ?c (newer_than ?c ?ds)))"
    and t2: "temp_rel e w2 t2 i (fst (sum_file ?ends None ?hs) @
       fst (sum_file ?ends ?c (newer_than ?c ?ds))) (Suc 0)"
    using process_file_rel [OF e dit1 c1 t1', of sd off] by auto
  have all: "sum_all ?ends ?hs ?ds = fst (sum_file ?ends None ?hs) @
      fst (sum_file ?ends ?c (newer_than ?c ?ds)) @ opt_list (snd (sum_file ?ends ?c (newer_than ?c ?ds)))"
    by (simp add: sum_all_def split_beta Let_def)
  have u12: "touches i w w2" by (rule touches_trans [OF u1(1) u2(1)])
  have sd': "step_size_date e off = sd" by (simp add: sd_def off_def)
  note start = summarize_def off_def [symmetric] sd' Let_def option.case hit(1)
    bind_d_simps s1 prod.case dit(1)
  show ?thesis
  proof (cases p2)
    case None
    then show ?thesis using s1 s2 sk c2 u1 u2 u12 temp_rel_less [OF t2, of 0]
      by (simp only: start sk [unfolded Let_def] s2) (simp add: all opt_list_def)
  next
    case (Some q)
    then obtain c where c: "snd (sum_file ?ends ?c (newer_than ?c ?ds)) = Some c" "ptr_rel w2 i q c"
      using c2 by (cases "snd (sum_file ?ends ?c (newer_than ?c ?ds))") auto
    obtain t3 w3 where a: "append_record e t2 q w2 = Inr (0, t3, w3)" "touches i w2 w3"
      "temp_rel e w3 t3 i ((fst (sum_file ?ends None ?hs) @
       fst (sum_file ?ends ?c (newer_than ?c ?ds))) @ [c]) 0" "sf_fd t3 = sf_fd t2" "sf_name t3 = sf_name t2"
      using append_record_temp [OF e t2 c(2)] by blast
    show ?thesis using Some a u1 u2 c touches_trans [OF u12 a(2)]
      by (simp only: start sk [unfolded Let_def] s2) (simp add: all opt_list_def)
  qed
qed

section \<open>Names, descriptors and the history file\<close>

definition world_wf :: "stats_world \<Rightarrow> bool" where
  "world_wf w \<longleftrightarrow> (\<forall>n i. sw_names w n = Some i \<longrightarrow> i < sw_next w) \<and>
     (\<forall>(fd, i) \<in> set (sw_fds w). i < sw_next w) \<and> distinct (map fst (sw_fds w))"

lemma lowest_fd_fresh: "lowest_fd w \<notin> fst ` set (sw_fds w)"
proof -
  let ?S = "fst ` set (sw_fds w)"
  have "\<exists>n < Suc (length (sw_fds w)). int n \<notin> ?S"
  proof (rule ccontr)
    assume "\<not> ?thesis"
    then have "int ` {..<Suc (length (sw_fds w))} \<subseteq> ?S" by auto
    then have "card (int ` {..<Suc (length (sw_fds w))}) \<le> card ?S" by (intro card_mono) auto
    also have "\<dots> \<le> length (sw_fds w)"
      by (metis card_length length_map set_map)
    finally show False by (simp add: card_image)
  qed
  then have "filter (\<lambda>n. int n \<notin> ?S) [0..<Suc (length (sw_fds w))] \<noteq> []"
    by (simp add: filter_empty_conv del: upt_Suc) (metis atLeastLessThan_iff le0 lessThan_Suc)
  from hd_in_set [OF this] show ?thesis unfolding lowest_fd_def by (simp only: set_filter) blast
qed

definition file_content :: "stats_world \<Rightarrow> string \<Rightarrow> u8 list" where
  "file_content w name = (case sw_names w name of None \<Rightarrow> [] | Some i \<Rightarrow> sw_data w i)"

text \<open>A new descriptor for the file \<open>name\<close>, which is created when it does not exist.\<close>

definition opened :: "stats_world \<Rightarrow> string \<Rightarrow> int \<Rightarrow> nat \<Rightarrow> stats_world \<Rightarrow> bool" where
  "opened w name fd j w' \<longleftrightarrow> sw_hash w' = sw_hash w \<and> sw_names w' = (sw_names w)(name \<mapsto> j) \<and>
     sw_data w' = (sw_data w)(j := file_content w name) \<and> sw_fds w' = (fd, j) # sw_fds w \<and>
     fd \<notin> fst ` set (sw_fds w) \<and> world_wf w' \<and> (sw_names w name = Some j \<or> j = sw_next w \<and> sw_next w' = Suc j)"

lemma stats_open_opened:
  assumes "no_failure e" and "world_wf w"
  shows "\<exists>fd j w'. stats_open e f name w = (0, f\<lparr>sf_fd := fd, sf_name := Some name\<rparr>, w') \<and>
    opened w name fd j w'"
proof -
  define w1 where "w1 = w\<lparr>sw_calls := Suc (sw_calls w)\<rparr>"
  have w1: "sw_names w1 = sw_names w" "sw_fds w1 = sw_fds w" "sw_data w1 = sw_data w"
    "sw_hash w1 = sw_hash w" "sw_next w1 = sw_next w" by (simp_all add: w1_def)
  have sc: "syscall e w = (0, w1)" using assms(1) by (simp add: syscall_def no_failure_def w1_def)
  have fresh: "lowest_fd v \<notin> fst ` set (sw_fds w)" if "sw_fds v = sw_fds w" for v
    using lowest_fd_fresh [of v] that by simp
  show ?thesis
  proof (cases "sw_names w name")
    case (Some j)
    define w' where "w' = w1\<lparr>sw_fds := (lowest_fd w1, j) # sw_fds w1\<rparr>"
    have "stats_open e f name w = (0, f\<lparr>sf_fd := lowest_fd w1, sf_name := Some name\<rparr>, w')"
      using Some by (simp add: stats_open_def sys_open_def sc w1 open_inode_def w'_def)
    moreover have "opened w name (lowest_fd w1) j w'"
      using Some assms(2) fresh [OF w1(2)]
      by (auto simp: opened_def w'_def w1 file_content_def world_wf_def fun_upd_idem)
    ultimately show ?thesis by blast
  next
    case None
    define w2 where "w2 = snd (create_file name w1)"
    define w' where "w' = w2\<lparr>sw_fds := (lowest_fd w2, sw_next w) # sw_fds w2\<rparr>"
    have w2: "sw_fds w2 = sw_fds w" by (simp add: w2_def create_file_def w1)
    have "stats_open e f name w = (0, f\<lparr>sf_fd := lowest_fd w2, sf_name := Some name\<rparr>, w')"
      using None by (simp add: stats_open_def sys_open_def sc w1 open_inode_def w'_def w2_def create_file_def)
    moreover have "opened w name (lowest_fd w2) (sw_next w) w'"
      using None assms(2) fresh [OF w2]
      by (auto simp: opened_def w'_def w2_def create_file_def w1 file_content_def world_wf_def
          intro: less_SucI)
    ultimately show ?thesis by blast
  qed
qed

lemma stats_open_temp_opened:
  assumes "no_failure e" and "world_wf w" and "\<forall>n. sw_names w (se_temp e n) = None"
  shows "\<exists>fd w' n. stats_open_temp e f w = (0, f\<lparr>sf_fd := fd, sf_name := Some (se_temp e n)\<rparr>, w') \<and>
    opened w (se_temp e n) fd (sw_next w) w'"
proof -
  define w1 where "w1 = w\<lparr>sw_calls := Suc (sw_calls w)\<rparr>"
  have w1: "sw_names w1 = sw_names w" "sw_fds w1 = sw_fds w" "sw_data w1 = sw_data w"
    "sw_hash w1 = sw_hash w" "sw_next w1 = sw_next w" by (simp_all add: w1_def)
  have sc: "syscall e w = (0, w1)" using assms(1) by (simp add: syscall_def no_failure_def w1_def)
  let ?name = "se_temp e (sw_calls w)"
  define w2 where "w2 = snd (create_file ?name w1)"
  define w' where "w' = w2\<lparr>sw_fds := (lowest_fd w2, sw_next w) # sw_fds w2\<rparr>"
  have w2: "sw_fds w2 = sw_fds w" by (simp add: w2_def create_file_def w1)
  have "stats_open_temp e f w = (0, f\<lparr>sf_fd := lowest_fd w2, sf_name := Some ?name\<rparr>, w')"
    by (simp add: stats_open_temp_def sys_mkstemp_def sc w1 open_inode_def w'_def w2_def create_file_def Let_def)
  moreover have "opened w ?name (lowest_fd w2) (sw_next w) w'"
    using assms(2,3) lowest_fd_fresh [of w2]
    by (auto simp: opened_def w'_def w2_def create_file_def w1 file_content_def world_wf_def
        intro: less_SucI)
  ultimately show ?thesis by blast
qed

lemma file_ok_opened:
  assumes o: "opened w name fd j w'" and f: "file_ok w f k" and "k \<noteq> j"
  shows "file_ok w' f k"
proof -
  have "sf_fd f \<in> fst ` set (sw_fds w)" using f by (force simp: file_ok_def dest: map_of_SomeD)
  then have "sf_fd f \<noteq> fd" using o by (auto simp: opened_def)
  then show ?thesis using assms by (simp add: opened_def file_ok_def)
qed

lemma stats_file_setup_succeeds:
  assumes e: "page_ok e" "no_failure e" and fd: "map_of (sw_fds w) (sf_fd f) = Some i"
    and f: "sf_addr f = None" "sf_len f = 0" and d: "length (sw_data w i) < 2 ^ 32"
  shows "\<exists>w'. stats_file_setup e f w =
      Inr (0, setup_file e w' i (setup_size e (length (sw_data w i))) f, w') \<and> touches i w w' \<and>
    file_ok w' (setup_file e w' i (setup_size e (length (sw_data w i))) f) i \<and>
    sw_data w' i = setup_data e (sw_data w i)"
proof -
  let ?n = "of_nat (length (sw_data w i)) :: u64"
  let ?sz = "if ?n < se_page e then se_page e else ?n"
  note P = page_size_bounds [OF e(1)]
  have n: "unat ?n = length (sw_data w i)" using d by (intro unat_of_nat_small) simp
  have sz: "unat ?sz < 2 ^ 32" using P d n by simp
  have pr: "unat (page_round e ?sz) < 2 ^ 63" using page_round_ge(2) [OF e(1), of ?sz] sz P by simp
  obtain err f' w' where s: "stats_file_setup e f w = Inr (err, f', w')"
    and c: "err < 0 \<or> err = 0 \<and> touches i w w' \<and> file_ok w' f' i \<and>
     sw_data w' i = setup_data e (sw_data w i) \<and>
     f' = setup_file e w' i (setup_size e (length (sw_data w i))) f"
    using stats_file_setup_cases [OF e(1) fd f] d by auto
  have "\<not> err < 0"
  proof
    assume neg: "err < 0"
    have nf: "se_fail e m = 0" for m using e(2) by (simp add: no_failure_def)
    have "\<exists>err2 f2 w2 v. stats_file_remap e (f\<lparr>sf_max_len := se_max_file_size e\<rparr>) ?sz v =
        Inr (err2, f2, w2) \<and> err2 < 0 \<and> map_of (sw_fds v) (sf_fd f) = Some i"
      using s neg fd
      by (fastforce simp: stats_file_setup_def fd_call_def syscall_def nf Let_def bind_r_eq_Inr
          split: if_splits)
    then obtain err2 f2 w2 v where r:
      "stats_file_remap e (f\<lparr>sf_max_len := se_max_file_size e\<rparr>) ?sz v = Inr (err2, f2, w2)"
      "err2 < 0" "map_of (sw_fds v) (sf_fd f) = Some i" by blast
    have "err2 = 0"
      by (rule stats_file_remap_succeeds [OF _ _ pr r(1)]) (simp_all add: r(3) nf)
    with r(2) show False by simp
  qed
  then show ?thesis using s c by auto
qed

definition hist_file :: "stats_env \<Rightarrow> stats_world \<Rightarrow> string \<Rightarrow> stats_file" where
  "hist_file e w name = zero_file\<lparr>sf_len := setup_size e (length (file_content w name))\<rparr>"

definition hist_records :: "stats_env \<Rightarrow> stats_world \<Rightarrow> string \<Rightarrow> stats_record list" where
  "hist_records e w name = records (setup_data e (file_content w name)) (hist_file e w name)"

text \<open>
  What a history update relies on: the history file is another file than the data file, its
  header points at slots, temporary names are unused, and the offsets of the new history file
  stay within 32 bits.
\<close>

definition history_ready :: "stats_env \<Rightarrow> stats_world \<Rightarrow> stats_file \<Rightarrow> nat \<Rightarrow> string \<Rightarrow> bool" where
  "history_ready e w f k name \<longleftrightarrow> sf_history_name f = Some name \<and> sw_names w name \<noteq> Some k \<and>
     (\<forall>n. sw_names w (se_temp e n) = None \<and> se_temp e n \<noteq> name) \<and>
     length (file_content w name) < 2 ^ 32 \<and>
     aligned (setup_data e (file_content w name)) (hist_file e w name) \<and>
     unat (se_page e) * (4 * (length (hist_records e w name) + length (records (sw_data w k) f)) + 3)
       < 2 ^ 32"

lemma aligned_len: "sf_len f = sf_len g \<Longrightarrow> aligned d f \<longleftrightarrow> aligned d g"
  by (simp add: aligned_def capacity_def)

lemma records_len: "sf_len f = sf_len g \<Longrightarrow> records d f = records d g"
  by (simp add: records_def capacity_def)

lemma setup_file_simps [simp]:
  "sf_len (setup_file e w i n f) = n" "sf_fd (setup_file e w i n f) = sf_fd f"
  "sf_name (setup_file e w i n f) = sf_name f" "sf_addr (setup_file e w i n f) = Some i"
  by (simp_all add: setup_file_def)

lemma page_round_page: "page_ok e \<Longrightarrow> page_round e (se_page e) = se_page e"
  using page_size_bounds [of e] by (intro page_round_multiple) simp_all

lemma field32_zeros: "k + 4 \<le> n \<Longrightarrow> field32 k (replicate n 0) = 0"
  by (simp add: field32_def of_bytes32_def min_def eval_nat_numeral)

lemma setup_empty:
  assumes e: "page_ok e"
  shows "setup_size e 0 = se_page e"
    and "setup_data e [] = poke 0 header_bytes (replicate (unat (se_page e)) 0)"
proof -
  note P = page_size_bounds [OF e]
  have "(0 :: u64) < se_page e" using P by (simp add: word_less_nat_alt)
  then show s: "setup_size e 0 = se_page e" by (simp add: setup_size_def page_round_page [OF e])
  have "\<not> header_valid (replicate (unat (se_page e)) 0) (se_page e)"
    using P by (simp add: header_valid_def field32_zeros MAGIC_def)
  then show "setup_data e [] = poke 0 header_bytes (replicate (unat (se_page e)) 0)"
    by (simp add: setup_data_def s resize_def)
qed

lemma setup_temp_rel:
  assumes e: "page_ok e" and ok: "file_ok w t i" and d: "sw_data w i = setup_data e []"
    and len: "sf_len t = se_page e" and room: "unat (se_page e) * (2 * n + 1) < 2 ^ 32"
  shows "temp_rel e w t i [] n"
proof -
  note P = page_size_bounds [OF e]
  have L: "20 \<le> length (replicate (unat (se_page e)) (0 :: u8))" using P by simp
  note h = header_bytes_fields [OF L, folded setup_empty(2) [OF e], folded d]
  have cap: "0 < capacity t" using P len by (simp add: capacity_def)
  have so: "slot_of 20 = 0" "slot_off 0 = 20" by (simp_all add: slot_of_def slot_off_def)
  have "aligned (sw_data w i) t"
    using cap P len by (intro alignedI [where b = 0 and en = 0]) (simp_all add: h so)
  moreover have "records (sw_data w i) t = []" by (simp add: records_def h ring_slots_empty)
  moreover have "length (sw_data w i) = unat (se_page e)"
    using P by (simp add: d setup_empty [OF e] length_poke)
  ultimately show ?thesis using ok room len
    by (simp add: temp_rel_def h so new_file_def algebra_simps)
qed

lemma setup_new_file:
  assumes e: "page_ok e" and nf: "new_file e d t" and al: "aligned d t" and l: "128 \<le> unat (sf_len t)"
  shows "setup_size e (length d) = sf_len t" and "setup_data e d = d"
proof -
  note P = page_size_bounds [OF e]
  have len: "length d = unat (sf_len t)" and dv: "unat (se_page e) dvd unat (sf_len t)"
    using nf by (simp_all add: new_file_def)
  have small: "unat (sf_len t) < 2 ^ 32" using al by (simp add: aligned_def)
  have "unat (se_page e) \<le> unat (sf_len t)" using dv l by (intro dvd_imp_le) simp_all
  then have "\<not> of_nat (length d) < se_page e" by (simp add: len word_less_nat_alt)
  then show s: "setup_size e (length d) = sf_len t"
    using dv small by (simp add: setup_size_def len page_round_multiple [OF e])
  have cap: "slot_off j \<le> unat (sf_len t)" if "j < capacity t" for j
  proof -
    have "slot_off j \<le> slot_off (capacity t)" using that by simp
    then show ?thesis using file_last_small(3) [OF l small] by linarith
  qed
  have b: "20 \<le> unat (field32 k d) \<and> unat (field32 k d) \<le> unat (sf_len t)"
    if kk: "k = 4 \<or> k = 8" for k
  proof -
    obtain j where "unat (field32 k d) = slot_off j" "j < capacity t"
      using al kk unfolding aligned_def by metis
    then show ?thesis using cap [of j] by (simp add: slot_off_def)
  qed
  have "header_valid d (sf_len t)"
    using nf b [of 4] b [of 8] by (simp add: header_valid_def new_file_def word_le_nat_alt)
  then show "setup_data e d = d"
    unfolding setup_data_def s Let_def using len by (simp add: resize_def)
qed

lemma close_swap_succeeds:
  assumes "no_failure e" and "sf_name t = Some tn" and "sf_name h = Some hn"
    and "sw_names w tn = Some i" and "tn \<noteq> hn"
  shows "\<exists>c. stats_file_close_swap e h t w =
    (0, stats_file_cleanup (stats_file_unmap h), stats_file_cleanup (stats_file_unmap t),
     w\<lparr>sw_calls := c, sw_names := (sw_names w)(hn \<mapsto> i, tn := None),
       sw_fds := filter (\<lambda>(d, _). d \<noteq> sf_fd h) (filter (\<lambda>(d, _). d \<noteq> sf_fd t) (sw_fds w))\<rparr>)"
  using assms
  by (simp add: stats_file_close_swap_def unlink_name_def sys_unlink_def sys_link_def syscall_def
      no_failure_def close_fd_def) blast

lemma touches_wf: "touches i w w' \<Longrightarrow> world_wf w \<Longrightarrow> world_wf w'"
  by (simp add: touches_def world_wf_def)

lemma file_ok_bound: "world_wf w \<Longrightarrow> file_ok w f k \<Longrightarrow> k < sw_next w"
  by (auto simp: world_wf_def file_ok_def dest!: map_of_SomeD)

lemma file_ok_close:
  assumes "file_ok w f k" and "sw_data w' k = sw_data w k"
    and "sw_fds w' = filter (\<lambda>(d, _). d \<noteq> a) (filter (\<lambda>(d, _). d \<noteq> b) (sw_fds w))"
    and "sf_fd f \<noteq> a" "sf_fd f \<noteq> b"
  shows "file_ok w' f k"
proof -
  have "map_of (filter (\<lambda>(d, _). d \<noteq> a) (filter (\<lambda>(d, _). d \<noteq> b) xs)) (sf_fd f) = map_of xs (sf_fd f)"
    for xs :: "(int \<times> nat) list"
    using assms(4,5) by (induction xs) auto
  then show ?thesis using assms by (simp add: file_ok_def)
qed

lemma opened_fd: "opened w name fd j w' \<Longrightarrow> map_of (sw_fds w') fd = Some j"
  by (simp add: opened_def)

lemma file_ok_fd: "file_ok w f k \<Longrightarrow> sf_fd f \<in> fst ` set (sw_fds w)"
  by (force simp: file_ok_def dest: map_of_SomeD)

text \<open>
  The state in which the summary of a history update starts: the old history is open as \<open>h\<close>
  with inode \<open>j\<close>, and an empty temporary file as \<open>t\<close> with inode \<open>i\<close>.
\<close>

definition prepared ::
    "stats_env \<Rightarrow> stats_world \<Rightarrow> stats_file \<Rightarrow> nat \<Rightarrow> string \<Rightarrow> stats_file \<Rightarrow> stats_file \<Rightarrow> nat \<Rightarrow> nat \<Rightarrow>
     string \<Rightarrow> stats_world \<Rightarrow> bool" where
  "prepared e w f k hn h t j i tn w' \<longleftrightarrow> j \<noteq> i \<and> k \<noteq> i \<and> world_wf w' \<and> sw_hash w' = sw_hash w \<and>
     sw_names w' = (sw_names w)(hn \<mapsto> j, tn \<mapsto> i) \<and> sw_names w tn = None \<and> tn \<noteq> hn \<and>
     file_ok w' f k \<and> sw_data w' k = sw_data w k \<and> sf_fd f \<noteq> sf_fd h \<and> sf_fd f \<noteq> sf_fd t \<and>
     file_ok w' h j \<and> aligned (sw_data w' j) h \<and> records (sw_data w' j) h = hist_records e w hn \<and>
     sf_name h = Some hn \<and> sf_name t = Some tn \<and>
     temp_rel e w' t i [] (2 * length (hist_records e w hn) + 2 * length (records (sw_data w k) f) + 1)"

lemma history_prepare:
  assumes e: "page_ok e" "no_failure e" and wf: "world_wf w"
    and f: "file_ok w f k" and r: "history_ready e w f k hn"
  shows "\<exists>h t j i tn w4. prepared e w f k hn h t j i tn w4 \<and>
    stats_file_history_update e f w = bind_d (summarize e f (Some h) t w4) (\<lambda>(_, t5, w5).
      let (err, _, _, w6) = stats_file_close_swap e h t5 w5 in Some (Inr (err, w6)))"
proof -
  have hn: "sf_history_name f = Some hn" "sw_names w hn \<noteq> Some k"
    and tn: "\<And>n. sw_names w (se_temp e n) = None" "\<And>n. se_temp e n \<noteq> hn"
    and hd: "length (file_content w hn) < 2 ^ 32"
    and hal: "aligned (setup_data e (file_content w hn)) (hist_file e w hn)"
    and room: "unat (se_page e) *
      (4 * (length (hist_records e w hn) + length (records (sw_data w k) f)) + 3) < 2 ^ 32"
    using r by (auto simp: history_ready_def)
  let ?d0 = "file_content w hn"
  obtain hfd j w1 where o1: "stats_open e zero_file hn w =
      (0, zero_file\<lparr>sf_fd := hfd, sf_name := Some hn\<rparr>, w1)" "opened w hn hfd j w1"
    using stats_open_opened [OF e(2) wf] by blast
  define h0 where "h0 = zero_file\<lparr>sf_fd := hfd, sf_name := Some hn\<rparr>"
  have jk: "j \<noteq> k" using o1(2) hn(2) file_ok_bound [OF wf f] by (auto simp: opened_def)
  have w1: "sw_data w1 j = ?d0" "sw_data w1 k = sw_data w k" "world_wf w1"
    "sw_names w1 = (sw_names w)(hn \<mapsto> j)" "sw_hash w1 = sw_hash w"
    using o1(2) jk by (simp_all add: opened_def)
  obtain w2 where s2: "stats_file_setup e h0 w1 = Inr (0, setup_file e w2 j (setup_size e (length ?d0)) h0, w2)"
    and u2: "touches j w1 w2"
    and hok2: "file_ok w2 (setup_file e w2 j (setup_size e (length ?d0)) h0) j"
    and d2: "sw_data w2 j = setup_data e ?d0"
    using stats_file_setup_succeeds [OF e, of w1 h0 j] opened_fd [OF o1(2)] hd
    by (auto simp: h0_def zero_file_def w1)
  define h where "h = setup_file e w2 j (setup_size e (length ?d0)) h0"
  have hs: "sf_fd h = hfd" "sf_name h = Some hn" "sf_len h = sf_len (hist_file e w hn)"
    by (simp_all add: h_def h0_def hist_file_def)
  have wf2: "world_wf w2" by (rule touches_wf [OF u2 w1(3)])
  have n2: "sw_names w2 = (sw_names w)(hn \<mapsto> j)" using touchesD(2) [OF u2] w1(4) by simp
  have fok2: "file_ok w2 f k" by (rule file_ok_other [OF file_ok_opened [OF o1(2) f] u2]) (use jk in auto)
  have temp_free: "\<forall>n. sw_names w2 (se_temp e n) = None" using tn by (simp add: n2)
  obtain tfd w3 m where o3: "stats_open_temp e zero_file w2 =
      (0, zero_file\<lparr>sf_fd := tfd, sf_name := Some (se_temp e m)\<rparr>, w3)"
      "opened w2 (se_temp e m) tfd (sw_next w2) w3"
    using stats_open_temp_opened [OF e(2) wf2 temp_free] by blast
  define i where "i = sw_next w2"
  define t0 where "t0 = zero_file\<lparr>sf_fd := tfd, sf_name := Some (se_temp e m)\<rparr>"
  have ij: "i \<noteq> j" "i \<noteq> k"
    using file_ok_bound [OF wf2 hok2] file_ok_bound [OF wf2 fok2] by (auto simp: i_def)
  have fc: "file_content w2 (se_temp e m) = []" using temp_free by (simp add: file_content_def)
  have w3: "sw_data w3 i = []" "sw_data w3 j = setup_data e ?d0" "sw_data w3 k = sw_data w k"
    "world_wf w3" "sw_names w3 = (sw_names w)(hn \<mapsto> j, se_temp e m \<mapsto> i)" "sw_hash w3 = sw_hash w"
    using o3(2) ij jk fc d2 touchesD [OF u2] w1 n2 by (simp_all add: opened_def i_def)
  have fok3: "file_ok w3 f k" and hok3: "file_ok w3 h j"
    using file_ok_opened [OF o3(2)] fok2 hok2 ij by (auto simp: i_def h_def)
  have t0s: "sf_fd t0 = tfd" "sf_addr t0 = None" "sf_len t0 = 0" by (simp_all add: t0_def zero_file_def)
  obtain w4 where s4: "stats_file_setup e t0 w3 = Inr (0, setup_file e w4 i (se_page e) t0, w4)"
    and u4: "touches i w3 w4" and tok4: "file_ok w4 (setup_file e w4 i (se_page e) t0) i"
    and d4: "sw_data w4 i = setup_data e []"
    using stats_file_setup_succeeds [OF e, of w3 t0 i] opened_fd [OF o3(2), folded i_def]
    by (auto simp: t0s w3 setup_empty(1) [OF e(1)])
  define t where "t = setup_file e w4 i (se_page e) t0"
  have ts: "sf_fd t = tfd" "sf_name t = Some (se_temp e m)" by (simp_all add: t_def t0_def)
  have d4': "sw_data w4 k = sw_data w k" "sw_data w4 j = setup_data e ?d0"
    using touchesD(6) [OF u4] w3 ij by simp_all
  have fds: "sf_fd f \<noteq> sf_fd h" "sf_fd f \<noteq> sf_fd t"
    using file_ok_fd [OF f] file_ok_fd [OF fok2] o1(2) o3(2) by (auto simp: opened_def hs ts)
  have "temp_rel e w4 t i [] (2 * length (hist_records e w hn) + 2 * length (records (sw_data w k) f) + 1)"
    using room by (intro setup_temp_rel [OF e(1) _ d4]) (simp_all add: t_def tok4 algebra_simps)
  moreover have "aligned (sw_data w4 j) h" "records (sw_data w4 j) h = hist_records e w hn"
    using hal aligned_len [OF hs(3)] records_len [OF hs(3)] by (simp_all add: d4' hist_records_def)
  moreover have "world_wf w4" "sw_hash w4 = sw_hash w"
    "sw_names w4 = (sw_names w)(hn \<mapsto> j, se_temp e m \<mapsto> i)"
    using touches_wf [OF u4 w3(4)] touchesD [OF u4] w3 by simp_all
  ultimately have "prepared e w f k hn h t j i (se_temp e m) w4"
    unfolding prepared_def
    using file_ok_other [OF fok3 u4] file_ok_other [OF hok3 u4] ij tn d4'(1) hs(2) ts(2) fds by simp
  moreover have "stats_file_history_update e f w = bind_d (summarize e f (Some h) t w4) (\<lambda>(_, t5, w5).
      let (err, _, _, w6) = stats_file_close_swap e h t5 w5 in Some (Inr (err, w6)))"
    unfolding stats_file_history_update_def hn(1) option.case o1(1) h0_def [symmetric]
    using s2 o3(1) s4 by (simp add: h_def [symmetric] t0_def [symmetric] t_def [symmetric])
  ultimately show ?thesis by blast
qed

lemma history_finish:
  assumes e: "page_ok e" "no_failure e" and p: "prepared e w f k hn h t j i tn w4"
    and u: "touches i w4 w5" and ts: "sf_fd t5 = sf_fd t" "sf_name t5 = sf_name t"
    and tr: "temp_rel e w5 t5 i out 0"
  shows "\<exists>hc tc w6. stats_file_close_swap e h t5 w5 = (0, hc, tc, w6) \<and> sw_hash w6 = sw_hash w \<and>
    world_wf w6 \<and> file_ok w6 f k \<and> sw_data w6 k = sw_data w k \<and> sw_names w6 = (sw_names w)(hn \<mapsto> i) \<and>
    aligned (setup_data e (file_content w6 hn)) (hist_file e w6 hn) \<and> hist_records e w6 hn = out"
proof -
  have k: "k \<noteq> i" "file_ok w4 f k" "sw_data w4 k = sw_data w k" "sw_names w tn = None" "tn \<noteq> hn"
    "sf_fd f \<noteq> sf_fd h" "sf_fd f \<noteq> sf_fd t" "sf_name h = Some hn" "sf_name t5 = Some tn"
    using p ts by (simp_all add: prepared_def)
  have n5: "sw_names w5 = (sw_names w)(hn \<mapsto> j, tn \<mapsto> i)"
    and wf5: "world_wf w5" and h5: "sw_hash w5 = sw_hash w"
    using touchesD(1,2) [OF u] touches_wf [OF u] p by (simp_all add: prepared_def)
  have tm: "sw_names w5 tn = Some i" by (simp add: n5)
  from close_swap_succeeds [OF e(2) k(9,8) tm k(5)] obtain c where
    s6: "stats_file_close_swap e h t5 w5 =
    (0, stats_file_cleanup (stats_file_unmap h), stats_file_cleanup (stats_file_unmap t5),
     w5\<lparr>sw_calls := c, sw_names := (sw_names w5)(hn \<mapsto> i, tn := None),
       sw_fds := filter (\<lambda>(d, _). d \<noteq> sf_fd h) (filter (\<lambda>(d, _). d \<noteq> sf_fd t5) (sw_fds w5))\<rparr>)"
    by blast
  define w6 where "w6 = w5\<lparr>sw_calls := c, sw_names := (sw_names w5)(hn \<mapsto> i, tn := None),
       sw_fds := filter (\<lambda>(d, _). d \<noteq> sf_fd h) (filter (\<lambda>(d, _). d \<noteq> sf_fd t5) (sw_fds w5))\<rparr>"
  have n6: "sw_names w6 = (sw_names w)(hn \<mapsto> i)" using k(4,5) by (auto simp: w6_def n5 fun_eq_iff)
  have wf6: "world_wf w6"
  proof -
    have i5: "i < sw_next w5" using wf5 tm by (auto simp: world_wf_def)
    have "x < sw_next w5" if "sw_names w n = Some x" "n \<noteq> hn" for n x
    proof -
      have "sw_names w5 n = Some x" using that k(4) by (auto simp: n5)
      then show ?thesis using wf5 by (simp add: world_wf_def)
    qed
    then have "\<forall>n x. sw_names w6 n = Some x \<longrightarrow> x < sw_next w5" using i5 by (simp add: n6)
    moreover have "distinct (map fst (sw_fds w6))"
      using wf5 by (simp add: w6_def world_wf_def distinct_map_filter)
    moreover have "\<forall>(fd, x) \<in> set (sw_fds w6). x < sw_next w5"
      using wf5 by (auto simp: w6_def world_wf_def)
    ultimately show ?thesis by (simp add: world_wf_def w6_def)
  qed
  have fok6: "file_ok w6 f k"
    by (rule file_ok_close [OF file_ok_other [OF k(2) u k(1)], of _ "sf_fd h" "sf_fd t5"])
      (use k ts in \<open>simp_all add: w6_def\<close>)
  have dk: "sw_data w6 k = sw_data w k" using touchesD(6) [OF u k(1)] k(3) by (simp add: w6_def)
  have cont: "file_content w6 hn = sw_data w5 i" unfolding file_content_def n6 by (simp add: w6_def)
  have al5: "aligned (sw_data w5 i) t5" and nf5: "new_file e (sw_data w5 i) t5"
    and l5: "128 \<le> unat (sf_len t5)" and rec5: "records (sw_data w5 i) t5 = out"
    using tr by (auto simp: temp_rel_def file_ok_def)
  note fin = setup_new_file [OF e(1) nf5 al5 l5]
  have len6: "sf_len (hist_file e w6 hn) = sf_len t5" by (simp add: hist_file_def cont fin)
  have "aligned (setup_data e (file_content w6 hn)) (hist_file e w6 hn)" "hist_records e w6 hn = out"
    using al5 rec5 aligned_len [OF len6] records_len [OF len6]
    by (simp_all add: hist_records_def cont fin)
  moreover have "sw_hash w6 = sw_hash w" using h5 by (simp add: w6_def)
  ultimately show ?thesis using s6 [folded w6_def] wf6 fok6 dk n6 by blast
qed

text \<open>
  A history update with working system calls: it ends, replaces the history file by the summary
  of the old history and of the ring, and leaves the data file alone.
\<close>

lemma history_update_total:
  assumes e: "page_ok e" "no_failure e" and wf: "world_wf w"
    and f: "file_ok w f k" "aligned (sw_data w k) f" and r: "history_ready e w f k hn"
  defines "off \<equiv> sf_account_period_offset f"
  shows "\<exists>w' i. stats_file_history_update e f w = Some (Inr (0, w')) \<and> sw_hash w' = sw_hash w \<and>
    world_wf w' \<and> file_ok w' f k \<and> sw_data w' k = sw_data w k \<and>
    sw_names w' = (sw_names w)(hn \<mapsto> i) \<and> i \<noteq> k \<and>
    aligned (setup_data e (file_content w' hn)) (hist_file e w' hn) \<and>
    hist_records e w' hn = sum_all (period_ends e (step_size_date e off) off) (hist_records e w hn)
      (records (sw_data w k) f)"
proof -
  obtain h t j i tn w4 where p: "prepared e w f k hn h t j i tn w4"
    and run: "stats_file_history_update e f w = bind_d (summarize e f (Some h) t w4) (\<lambda>(_, t5, w5).
      let (err, _, _, w6) = stats_file_close_swap e h t5 w5 in Some (Inr (err, w6)))"
    using history_prepare [OF e wf f(1) r] by blast
  have d: "sw_data w4 k = sw_data w k" and hr: "records (sw_data w4 j) h = hist_records e w hn"
    using p by (simp_all add: prepared_def)
  have "k \<noteq> i" "j \<noteq> i" "file_ok w4 f k" "aligned (sw_data w4 k) f" "file_ok w4 h j"
    "aligned (sw_data w4 j) h"
    "temp_rel e w4 t i [] (2 * length (records (sw_data w4 j) h) + 2 * length (records (sw_data w4 k) f) + 1)"
    using p f(2) unfolding prepared_def by simp_all
  then obtain t5 w5 where s: "summarize e f (Some h) t w4 = Some (Inr (0, t5, w5))"
    and u: "touches i w4 w5" and ts: "sf_fd t5 = sf_fd t" "sf_name t5 = sf_name t"
    and tr: "temp_rel e w5 t5 i (sum_all (period_ends e (step_size_date e off) off)
      (hist_records e w hn) (records (sw_data w k) f)) 0"
    using summarize_rel [OF e, of w4 f k i h j t] unfolding hr d off_def by blast
  from history_finish [OF e p u ts tr] obtain hc tc w6 where
    sw: "stats_file_close_swap e h t5 w5 = (0, hc, tc, w6)" and
    rest: "sw_hash w6 = sw_hash w \<and> world_wf w6 \<and> file_ok w6 f k \<and> sw_data w6 k = sw_data w k \<and>
      sw_names w6 = (sw_names w)(hn \<mapsto> i) \<and>
      aligned (setup_data e (file_content w6 hn)) (hist_file e w6 hn) \<and>
      hist_records e w6 hn = sum_all (period_ends e (step_size_date e off) off)
        (hist_records e w hn) (records (sw_data w k) f)" by blast
  have "stats_file_history_update e f w = Some (Inr (0, w6))" by (simp add: run s sw)
  then show ?thesis using rest \<open>k \<noteq> i\<close> by (intro exI [of _ w6] exI [of _ i]) auto
qed

section \<open>An update refines its specification\<close>

text \<open>
  The abstract state of a service is the list of its records and the list of its history. An
  update appends the new record; when the ring is full, the ring is summarised into the history
  and the ring is empty afterwards.
\<close>

definition spec_update :: "(u64 \<Rightarrow> u64 \<Rightarrow> bool) \<Rightarrow> nat \<Rightarrow> stats_record \<Rightarrow>
    stats_record list \<times> stats_record list \<Rightarrow> stats_record list \<times> stats_record list" where
  "spec_update ends cap r s = (let (rs, hs) = s in
     if Suc (length rs) < cap then (rs @ [r], hs) else ([], sum_all ends hs rs))"

definition stats_abs :: "stats_env \<Rightarrow> stats_world \<Rightarrow> nat \<Rightarrow> stats_file \<Rightarrow> string \<Rightarrow>
    stats_record list \<times> stats_record list" where
  "stats_abs e w k f hn = (records (sw_data w k) f, hist_records e w hn)"

lemma hist_cong:
  assumes "sw_names w' hn = sw_names w hn" and "sw_names w hn \<noteq> Some k"
    and "\<And>j. j \<noteq> k \<Longrightarrow> sw_data w' j = sw_data w j"
  shows "file_content w' hn = file_content w hn" and "hist_records e w' hn = hist_records e w hn"
    and "hist_file e w' hn = hist_file e w hn"
proof -
  show c: "file_content w' hn = file_content w hn"
    using assms by (cases "sw_names w hn") (auto simp: file_content_def)
  show "hist_file e w' hn = hist_file e w hn" by (simp add: hist_file_def c)
  then show "hist_records e w' hn = hist_records e w hn" by (simp add: hist_records_def c)
qed

lemma stats_grow_records:
  assumes e: "page_ok e" "no_failure e" and f: "file_ok w f k" "aligned (sw_data w k) f"
    and room: "unat (sf_len f) + 2 * unat (se_page e) < 2 ^ 32"
  shows "\<exists>f1 w1. stats_grow e f w = Inr (0, f1, w1) \<and> touches k w w1 \<and> file_ok w1 f1 k \<and>
    aligned (sw_data w1 k) f1 \<and> records (sw_data w1 k) f1 = records (sw_data w k) f \<and>
    capacity f \<le> capacity f1 \<and> sf_history_name f1 = sf_history_name f \<and>
    sf_account_period_offset f1 = sf_account_period_offset f"
proof (cases "sf_len f < sf_max_len f \<and> sf_last f = unat (field32 hdr_end (sw_data w k))")
  case False
  then show ?thesis using f by (auto simp: stats_grow_def get_end_ok [OF f(1)])
next
  case True
  note P = page_size_bounds [OF e(1)]
  define sz where "sz = sf_len f + se_page e"
  have sz: "unat sz = unat (sf_len f) + unat (se_page e)"
    unfolding sz_def using room by (intro unat_plus_simple [THEN iffD1]) (simp add: no_olen_add_nat)
  note pr = page_round_ge [OF e(1), of sz]
  have len: "128 \<le> unat (sf_len f)" using f by (simp add: file_ok_def)
  obtain err f1 w1 where r: "stats_file_remap e f sz w = Inr (err, f1, w1)"
    and tch: "touches k w w1"
    and pre: "take (unat (sf_len f)) (sw_data w1 k) = take (unat (sf_len f)) (sw_data w k)"
    and c: "err < 0 \<and> f1 = f \<or> err = 0 \<and> file_ok w1 f1 k \<and>
      f1 = cached w1 k (f\<lparr>sf_addr := Some k, sf_len := page_round e sz\<rparr>)"
    using stats_file_remap_cases [OF e(1), of w f k sz] f len room sz
    unfolding file_ok_def by auto
  have "unat (page_round e sz) < 2 ^ 63" using pr sz room P by simp
  then have "err = 0" using stats_file_remap_succeeds [OF _ _ _ r] f e(2)
    by (simp add: file_ok_def no_failure_def)
  then have ok1: "file_ok w1 f1 k"
    and f1: "f1 = cached w1 k (f\<lparr>sf_addr := Some k, sf_len := page_round e sz\<rparr>)" using c by auto
  have l1: "unat (sf_len f) \<le> unat (sf_len f1)" "unat (sf_len f1) < 2 ^ 32"
    using pr sz room unfolding f1 by simp_all
  have "capacity f \<le> capacity f1" using l1 by (simp add: capacity_def div_le_mono)
  then show ?thesis using records_grow [OF f pre l1] True r tch ok1 \<open>err = 0\<close>
    by (intro exI [of _ f1] exI [of _ w1])
      (simp add: stats_grow_def get_end_ok [OF f(1)] sz_def f1)
qed

lemma full_iff:
  assumes "aligned d f"
  shows "next_slot d f = slot_of (field32 hdr_begin d) \<longleftrightarrow> \<not> Suc (length (records d f)) < capacity f"
  using assms ring_slots_next(3) ring_slots_full
  unfolding aligned_def records_def next_slot_def length_map by (metis less_irrefl)

lemma stats_update_refines_spec:
  assumes e: "page_ok e" "no_failure e" and wf: "world_wf w" and s: "sw_hash w s = Some f"
    and f: "file_ok w f k" "aligned (sw_data w k) f" and r: "history_ready e w f k hn"
    and room: "unat (sf_len f) + 2 * unat (se_page e) < 2 ^ 32"
  defines "off \<equiv> sf_account_period_offset f"
  shows "\<exists>f' w'. stats_update e s roaming data w = Some (Inr (0, w')) \<and> sw_hash w' s = Some f' \<and>
    world_wf w' \<and> file_ok w' f' k \<and> aligned (sw_data w' k) f' \<and> capacity f \<le> capacity f' \<and>
    stats_abs e w' k f' hn = spec_update (period_ends e (step_size_date e off) off) (capacity f')
      \<lparr>sr_ts = se_now e, sr_roaming = roaming, sr_data = data\<rparr> (stats_abs e w k f hn)"
proof -
  let ?r = "\<lparr>sr_ts = se_now e, sr_roaming = roaming, sr_data = data\<rparr>"
  let ?ends = "period_ends e (step_size_date e off) off"
  obtain f1 w1 where g: "stats_grow e f w = Inr (0, f1, w1)" and u1: "touches k w w1"
    and g1: "file_ok w1 f1 k" "aligned (sw_data w1 k) f1"
      "records (sw_data w1 k) f1 = records (sw_data w k) f" "capacity f \<le> capacity f1"
      "sf_history_name f1 = sf_history_name f" "sf_account_period_offset f1 = off"
    using stats_grow_records [OF e f room] unfolding off_def by blast
  define w2 where "w2 = w1\<lparr>sw_hash := (sw_hash w1)(s \<mapsto> f1)\<rparr>"
  have w2: "sw_data w2 = sw_data w1" "sw_names w2 = sw_names w" "sw_fds w2 = sw_fds w1"
    using touchesD(2) [OF u1] by (simp_all add: w2_def)
  have ok2: "file_ok w2 f1 k" and al2: "aligned (sw_data w2 k) f1"
    using g1 by (simp_all add: file_ok_def w2)
  have wf2: "world_wf w2" using touches_wf [OF u1 wf] by (simp add: world_wf_def w2_def)
  have hk: "sw_names w hn \<noteq> Some k" using r by (simp add: history_ready_def)
  have hc: "file_content w2 hn = file_content w hn" "hist_records e w2 hn = hist_records e w hn"
    "hist_file e w2 hn = hist_file e w hn"
    by (rule hist_cong [OF _ hk]; use touchesD(6) [OF u1] w2 in simp)+
  have r2: "history_ready e w2 f1 k hn" using r g1 hc w2 by (simp add: history_ready_def)
  let ?nx = "slot_off (next_slot (sw_data w2 k) f1)"
  have nb: "?nx = unat (field32 4 (sw_data w2 k)) \<longleftrightarrow> \<not> Suc (length (records (sw_data w k) f)) < capacity f1"
    using full_iff [OF al2] al2 g1(3) unfolding aligned_def w2 by (metis slot_off_inj)
  have upd: "stats_update e s roaming data w =
      bind_d (if ?nx = unat (field32 4 (sw_data w2 k))
               then bind_d (stats_file_history_update e f1 w2) (\<lambda>(_, w3). Some (Inr w3))
               else Some (Inr w2)) (\<lambda>w3.
       bind_d (Some (store_record e f1 ?nx roaming data w3)) (\<lambda>w4. Some (Inr (0, w4))))"
    unfolding stats_update_def s option.case g
    by (simp add: w2_def [symmetric] get_end_ok [OF ok2] get_begin_ok [OF ok2] Let_def
        get_next_aligned(1) [OF ok2 al2])
  have "\<exists>w3. (if ?nx = unat (field32 4 (sw_data w2 k))
        then bind_d (stats_file_history_update e f1 w2) (\<lambda>(_, w3). Some (Inr w3))
        else Some (Inr w2)) = Some (Inr w3) \<and> sw_hash w3 s = Some f1 \<and> world_wf w3 \<and> file_ok w3 f1 k \<and>
      sw_data w3 k = sw_data w2 k \<and> sw_names w3 hn \<noteq> Some k \<and>
      hist_records e w3 hn = snd (spec_update ?ends (capacity f1) ?r (stats_abs e w k f hn))"
  proof (cases "?nx = unat (field32 4 (sw_data w2 k))")
    case False
    then show ?thesis using wf2 ok2 hk hc nb
      by (simp add: w2 spec_update_def stats_abs_def) (simp add: w2_def)
  next
    case True
    obtain w3 i where h: "stats_file_history_update e f1 w2 = Some (Inr (0, w3))" "sw_hash w3 = sw_hash w2"
      "world_wf w3" "file_ok w3 f1 k" "sw_data w3 k = sw_data w2 k" "sw_names w3 = (sw_names w2)(hn \<mapsto> i)"
      "i \<noteq> k" "hist_records e w3 hn = sum_all ?ends (hist_records e w hn) (records (sw_data w k) f)"
      using history_update_total [OF e wf2 ok2 al2 r2] unfolding g1(6) hc w2(1) g1(3) by blast
    have "sw_hash w3 s = Some f1" using h(2) by (simp add: w2_def)
    moreover have "sw_names w3 hn \<noteq> Some k" using h(6,7) by simp
    ultimately show ?thesis using True h nb by (simp add: spec_update_def stats_abs_def)
  qed
  then obtain w3 where s3: "(if ?nx = unat (field32 4 (sw_data w2 k))
        then bind_d (stats_file_history_update e f1 w2) (\<lambda>(_, w3). Some (Inr w3))
        else Some (Inr w2)) = Some (Inr w3)"
    and w3: "sw_hash w3 s = Some f1" "world_wf w3" "file_ok w3 f1 k" "sw_data w3 k = sw_data w2 k"
      "sw_names w3 hn \<noteq> Some k"
      "hist_records e w3 hn = snd (spec_update ?ends (capacity f1) ?r (stats_abs e w k f hn))" by blast
  have al3: "aligned (sw_data w3 k) f1" using al2 w3 by simp
  have b: "20 \<le> ?nx" "?nx + 48 \<le> unat (sf_len f1)"
    using get_next_in_bounds [OF ok2, of "unat (field32 hdr_end (sw_data w2 k))"]
    by (simp_all add: get_next_aligned(1) [OF ok2 al2])
  obtain w4 where s4: "store_record e f1 ?nx roaming data w3 = Inr w4" "touches k w3 w4" "file_ok w4 f1 k"
    using store_record_in_bounds [OF w3(3) b] by blast
  note st = store_record_records [OF w3(3) al3, of e roaming data w4, unfolded w3(4), OF s4(1)]
  have hc4: "hist_records e w4 hn = hist_records e w3 hn"
    by (rule hist_cong(2) [OF _ w3(5)]) (use touchesD [OF s4(2)] in simp_all)
  have "stats_abs e w4 k f1 hn = spec_update ?ends (capacity f1) ?r (stats_abs e w k f hn)"
    using st(2) g1(3) hc4 w3(6)
    by (simp add: stats_abs_def spec_update_def ring_put_def w2)
  moreover have "stats_update e s roaming data w = Some (Inr (0, w4))"
    unfolding upd s3 by (simp add: s4)
  ultimately show ?thesis
    using touchesD(1) [OF s4(2)] touches_wf [OF s4(2) w3(2)] s4(3) st(1) g1(4) w3(1)
    by (intro exI [of _ f1] exI [of _ w4]) simp
qed

end
