(* ===== verification/Stats_Safety.thy ===== *)
theory Stats_Safety
  imports Stats_History
begin

text \<open>
  Memory safety of \<^verbatim>\<open>src/stats.c\<close> for arbitrary file contents and failing
  system calls.
\<close>

section \<open>Memory safety for every content and every failure\<close>

text \<open>
  Without assumptions on the header and the system calls: pointers and iterators stay inside
  their mappings, because every pointer comes from \<open>get_next\<close>. What remains possible is a null
  pointer, when a file could not be mapped, and the release of a structure on the stack: a
  computation is safe when it has no other fault.
\<close>

definition safe :: "('a \<Rightarrow> bool) \<Rightarrow> 'a result \<Rightarrow> bool" where
  "safe Q r \<longleftrightarrow> (case r of Inl x \<Rightarrow> x = NullDeref \<or> x = BadFree | Inr v \<Rightarrow> Q v)"

definition safe_d :: "('a \<Rightarrow> bool) \<Rightarrow> 'a diverging \<Rightarrow> bool" where
  "safe_d Q r \<longleftrightarrow> (case r of None \<Rightarrow> True | Some x \<Rightarrow> safe Q x)"

lemma safe_simps [simp]: "safe Q (Inr v) \<longleftrightarrow> Q v" "safe Q (Inl NullDeref)" "safe Q (Inl BadFree)"
  "safe_d Q (Some r) \<longleftrightarrow> safe Q r" "safe_d Q None"
  by (simp_all add: safe_def safe_d_def)

lemma safe_bind:
  assumes "safe Q m" and "\<And>v. Q v \<Longrightarrow> safe R (k v)" shows "safe R (bind_r m k)"
  using assms by (cases m) (auto simp: safe_def)

lemma safe_d_bind:
  assumes "safe_d Q m" and "\<And>v. Q v \<Longrightarrow> safe_d R (k v)" shows "safe_d R (bind_d m k)"
  using assms by (cases m; cases "the m") (auto simp: safe_d_def safe_def)

lemma safe_mono: "safe Q m \<Longrightarrow> (\<And>v. Q v \<Longrightarrow> R v) \<Longrightarrow> safe R m"
  by (cases m) (auto simp: safe_def)

definition ptr_in :: "stats_world \<Rightarrow> nat \<Rightarrow> (stats_file \<times> nat) option \<Rightarrow> bool" where
  "ptr_in w i p \<longleftrightarrow> (case p of None \<Rightarrow> True | Some q \<Rightarrow> \<exists>r. ptr_rel w i q r)"

definition iter_in :: "stats_world \<Rightarrow> nat \<Rightarrow> stats_iter \<Rightarrow> bool" where
  "iter_in w i it \<longleftrightarrow> (\<exists>k. k \<noteq> i \<and> file_ok w (si_file it) k \<and>
     si_it it + record_size \<le> unat (sf_len (si_file it)))"

lemma ptr_in_simps [simp]: "ptr_in w i None" "ptr_in w i (Some q) \<longleftrightarrow> (\<exists>r. ptr_rel w i q r)"
  by (simp_all add: ptr_in_def)

lemma ptr_in_touches: "ptr_in w i p \<Longrightarrow> touches i w w' \<Longrightarrow> ptr_in w' i p"
  by (cases p) (auto intro: ptr_rel_touches)

lemma iter_in_touches: "iter_in w i it \<Longrightarrow> touches i w w' \<Longrightarrow> iter_in w' i it"
  unfolding iter_in_def by (metis file_ok_other)

lemma get_next_record_in:
  assumes "iter_in w i it" and "get_next_record it = (p, it')"
  shows "ptr_in w i p" and "iter_in w i it'"
proof -
  obtain k where k: "k \<noteq> i" "file_ok w (si_file it) k" "si_it it + 48 \<le> unat (sf_len (si_file it))"
    using assms(1) by (auto simp: iter_in_def)
  show "ptr_in w i p"
    using assms(2) k by (auto simp: get_next_record_def ptr_rel_def split: if_splits)
  show "iter_in w i it'"
    using assms k get_next_in_bounds(2) [OF k(2)]
    by (auto simp: get_next_record_def iter_in_def split: if_splits)
qed

lemma remap_safe:
  assumes e: "page_ok e" and ok: "file_ok w f i"
  shows "\<exists>err f' w'. stats_file_remap e f (sf_len f + se_page e) w = Inr (err, f', w') \<and>
    touches i w w' \<and> file_ok w' f' i \<and> sf_history_name f' = sf_history_name f"
proof -
  note P = page_size_bounds [OF e]
  let ?sz = "sf_len f + se_page e"
  have l: "128 \<le> unat (sf_len f)" "unat (sf_len f) < 2 ^ 63" "unat (sf_len f) \<le> length (sw_data w i)"
    using ok by (simp_all add: file_ok_def)
  have sz: "unat ?sz = unat (sf_len f) + unat (se_page e)"
    using l P by (intro unat_plus_simple [THEN iffD1]) (simp add: no_olen_add_nat)
  obtain err f' w' where r: "stats_file_remap e f ?sz w = Inr (err, f', w')" "touches i w w'"
    "unat (sf_len f) \<le> length (sw_data w' i)" "f' = f \<or> file_ok w' f' i"
    "sf_history_name f' = sf_history_name f"
    using stats_file_remap_cases [OF e, of w f i ?sz] ok l P sz unfolding file_ok_def by auto
  moreover have "file_ok w' f i" using ok r(2,3) by (simp add: file_ok_def touches_def)
  ultimately show ?thesis by auto
qed

lemma append_record_safe:
  assumes e: "page_ok e" and ok: "file_ok w f i" and p: "ptr_rel w i p r"
  shows "\<exists>err f' w'. append_record e f p w = Inr (err, f', w') \<and> touches i w w' \<and> file_ok w' f' i"
proof -
  have "\<exists>err f1 w1. (if sf_last f = unat (field32 8 (sw_data w i))
             then bind_r (stats_file_remap e f (sf_len f + se_page e) w) (\<lambda>(err, f1, w1).
                  if err < 0 then Inr (err, f1, w1)
                  else bind_r (stats_file_update_cache w1 f1) (\<lambda>f2. Inr (0, f2, w1)))
             else Inr (0, f, w)) = Inr (err, f1, w1) \<and> touches i w w1 \<and> file_ok w1 f1 i"
    (is "\<exists>err f1 w1. ?g = _ \<and> _")
  proof (cases "sf_last f = unat (field32 8 (sw_data w i))")
    case False
    then show ?thesis using ok by simp
  next
    case True
    obtain err f1 w1 where r: "stats_file_remap e f (sf_len f + se_page e) w = Inr (err, f1, w1)"
      "touches i w w1" "file_ok w1 f1 i" using remap_safe [OF e ok] by blast
    have "stats_file_update_cache w1 f1 = Inr (cached w1 i f1)"
      using r(3) by (intro update_cache_ok) (simp_all add: file_ok_def)
    moreover have "file_ok w1 (cached w1 i f1) i" using r(3) by (simp add: file_ok_def cached_def)
    ultimately show ?thesis using True r by (cases "err < 0") auto
  qed
  then obtain err f1 w1 where g: "?g = Inr (err, f1, w1)" "touches i w w1" "file_ok w1 f1 i" by blast
  show ?thesis
  proof (cases "err < 0")
    case True
    then show ?thesis using g unfolding append_record_def get_end_ok [OF ok] bind_r_simps g(1) by simp
  next
    case False
    define nx where "nx = get_next f1 (unat (field32 8 (sw_data w1 i)))"
    define w' where "w' = poke_at i 8 (bytes32 (of_nat nx)) (poke_at i nx (stats_record_bytes r) w1)"
    have "append_record e f p w = Inr (0, f1, w')"
      unfolding append_record_def get_end_ok [OF ok] bind_r_simps g(1)
      using False append_tail [OF g(3) ptr_rel_touches [OF p g(2)]] by (simp add: w'_def nx_def)
    moreover have "touches i w w'" unfolding w'_def by (blast intro: touches_trans touches_poke g(2))
    moreover have "file_ok w' f1 i" unfolding w'_def
      using get_next_in_bounds [OF g(3), of "unat (field32 8 (sw_data w1 i))", folded nx_def] g(3)
      by (intro file_ok_poke g(3)) (simp_all add: srec.length_enc file_ok_def)
    ultimately show ?thesis by blast
  qed
qed

definition temp_in :: "stats_world \<Rightarrow> stats_file \<Rightarrow> nat \<Rightarrow> bool" where
  "temp_in w t i \<longleftrightarrow> sf_addr t = None \<and> map_of (sw_fds w) (sf_fd t) = None \<or> file_ok w t i"

lemma append_unmapped: "sf_addr t = None \<Longrightarrow> append_record e t p w = Inl NullDeref"
  by (simp add: append_record_def get_end_def read_u32_def read_map_def)

lemma append_pending_safe:
  assumes "page_ok e" and "temp_in w t i" and "ptr_in w i p"
  shows "safe (\<lambda>(t', w'). touches i w w' \<and> temp_in w' t' i) (append_pending e p t w)"
proof (cases p)
  case (Some q)
  then obtain r where r: "ptr_rel w i q r" using assms(3) by auto
  show ?thesis
  proof (cases "sf_addr t = None")
    case True
    then show ?thesis using Some by (simp add: append_pending_def append_unmapped)
  next
    case False
    then obtain m where "sf_addr t = Some m" by blast
    then have "file_ok w t i" using assms(2) by (simp add: temp_in_def)
    from append_record_safe [OF assms(1) this r] show ?thesis
      using Some by (auto simp: append_pending_def temp_in_def)
  qed
qed (use assms in \<open>simp add: append_pending_def\<close>)

definition process_in :: "nat \<Rightarrow> process_state \<Rightarrow> bool" where
  "process_in i s \<longleftrightarrow> temp_in (ps_world s) (ps_temp s) i \<and> iter_in (ps_world s) i (ps_iter s) \<and>
     ptr_in (ps_world s) i (ps_cur s) \<and> ptr_in (ps_world s) i (ps_next s) \<and>
     ptr_in (ps_world s) i (ps_home s) \<and> ptr_in (ps_world s) i (ps_roaming s) \<and>
     (ps_cur s = None \<longrightarrow> ps_next s = None)"

lemma append_both_safe:
  assumes e: "page_ok e" and t: "temp_in w t i" and p: "ptr_in w i p" "ptr_in w i q"
  shows "safe (\<lambda>s2. touches i w (ps_world s2) \<and> ps_iter s2 = ps_iter s1 \<and>
      temp_in (ps_world s2) (ps_temp s2) i \<and> ps_home s2 = None \<and> ps_roaming s2 = None)
    (bind_r (append_pending e p t w) (\<lambda>(t1, w1). bind_r (append_pending e q t1 w1) (\<lambda>(t2, w2).
       Inr (s1\<lparr>ps_home := None, ps_roaming := None, ps_temp := t2, ps_world := w2\<rparr>))))"
proof (rule safe_bind [OF append_pending_safe [OF e t p(1)]], clarify)
  fix t1 w1 assume a: "touches i w w1" "temp_in w1 t1 i"
  show "safe (\<lambda>s2. touches i w (ps_world s2) \<and> ps_iter s2 = ps_iter s1 \<and>
      temp_in (ps_world s2) (ps_temp s2) i \<and> ps_home s2 = None \<and> ps_roaming s2 = None)
    (bind_r (append_pending e q t1 w1) (\<lambda>(t2, w2).
       Inr (s1\<lparr>ps_home := None, ps_roaming := None, ps_temp := t2, ps_world := w2\<rparr>)))"
    by (rule safe_bind [OF append_pending_safe [OF e a(2) ptr_in_touches [OF p(2) a(1)]]])
      (auto intro: touches_trans [OF a(1)])
qed

lemma process_body_safe:
  assumes e: "page_ok e" and s: "process_in i s" and n: "ps_next s \<noteq> None"
  shows "safe (\<lambda>s'. process_in i s' \<and> touches i (ps_world s) (ps_world s')) (process_body e sd off s)"
proof -
  let ?w = "ps_world s"
  obtain pc pn rc rn where c: "ps_cur s = Some pc" "ps_next s = Some pn" "ptr_rel ?w i pc rc" "ptr_rel ?w i pn rn"
    using s n by (cases "ps_cur s"; cases "ps_next s") (auto simp: process_in_def)
  define s1 where "s1 = (if sr_roaming rc = 1 then s\<lparr>ps_roaming := Some pc\<rparr> else s\<lparr>ps_home := Some pc\<rparr>)"
  have s1: "ps_world s1 = ?w" "ps_iter s1 = ps_iter s" "temp_in ?w (ps_temp s1) i"
    "ptr_in ?w i (ps_home s1)" "ptr_in ?w i (ps_roaming s1)" "iter_in ?w i (ps_iter s)"
    using s c by (auto simp: s1_def process_in_def)
  let ?Q = "\<lambda>s2. touches i ?w (ps_world s2) \<and> ps_iter s2 = ps_iter s \<and>
      temp_in (ps_world s2) (ps_temp s2) i \<and> ptr_in (ps_world s2) i (ps_home s2) \<and>
      ptr_in (ps_world s2) i (ps_roaming s2)"
  have step: "safe ?Q (if period_ends e sd off (sr_ts rc) (sr_ts rn)
      then bind_r (append_pending e (ps_home s1) (ps_temp s1) (ps_world s1)) (\<lambda>(t1, w1).
           bind_r (append_pending e (ps_roaming s1) t1 w1) (\<lambda>(t2, w2).
           Inr (s1\<lparr>ps_home := None, ps_roaming := None, ps_temp := t2, ps_world := w2\<rparr>)))
      else Inr s1)"
    using safe_mono [OF append_both_safe [OF e s1(3,4,5), of s1], of ?Q] s1 by (auto simp: s1(1,2))
  show ?thesis
    unfolding process_body_def c(1,2) prod.case option.case ptr_rel_read [OF c(3)]
      ptr_rel_read [OF c(4)] bind_r_simps Let_def s1_def [symmetric]
  proof (rule safe_bind [OF step], goal_cases)
    case (1 s2)
    obtain nx it2 where g: "get_next_record (ps_iter s2) = (nx, it2)" by (cases "get_next_record (ps_iter s2)")
    have "iter_in (ps_world s2) i (ps_iter s2)" using iter_in_touches [OF s1(6)] 1 by auto
    from get_next_record_in [OF this g] show ?case
      using 1 g ptr_rel_touches [OF c(4)] by (auto simp: process_in_def)
  qed
qed

lemma process_loop_safe:
  assumes e: "page_ok e" and s: "process_in i s"
  shows "safe_d (\<lambda>s'. process_in i s' \<and> touches i (ps_world s) (ps_world s')) (process_loop e sd off s)"
proof (cases "process_loop e sd off s")
  case (Some y)
  have "page_ok e \<longrightarrow> process_in i s \<longrightarrow>
    safe (\<lambda>s'. process_in i s' \<and> touches i (ps_world s) (ps_world s')) y"
  proof (rule process_loop.raw_induct [where P = "\<lambda>e sd off s y. page_ok e \<longrightarrow> process_in i s \<longrightarrow>
      safe (\<lambda>s'. process_in i s' \<and> touches i (ps_world s) (ps_world s')) y", OF _ Some],
      intro impI, goal_cases)
    case (1 loop e sd off s y)
    show ?case
    proof (cases "ps_next s = None")
      case True
      then show ?thesis using 1 by auto
    next
      case False
      note b = process_body_safe [OF 1(3,4) False, of sd off]
      show ?thesis
      proof (cases "process_body e sd off s")
        case (Inl x)
        then have "y = Inl x" using 1(2) False by (simp del: not_None_eq)
        then show ?thesis using b by (simp add: Inl safe_def)
      next
        case (Inr s1)
        then have s1: "process_in i s1" "touches i (ps_world s) (ps_world s1)" using b by simp_all
        have "loop e sd off s1 = Some y" using 1(2) False Inr by (simp del: not_None_eq)
        from 1(1) [rule_format, OF this 1(3) s1(1)] show ?thesis
          by (rule safe_mono) (auto intro: touches_trans [OF s1(2)])
      qed
    qed
  qed
  then show ?thesis using e s Some by simp
qed simp

lemma process_file_safe:
  assumes e: "page_ok e" and t: "temp_in w t i" and it: "iter_in w i it" and p: "ptr_in w i p"
  shows "safe_d (\<lambda>(p', t', w'). touches i w w' \<and> temp_in w' t' i \<and> ptr_in w' i p')
    (process_file e it t p sd off w)"
proof -
  define c1 where "c1 = (case p of None \<Rightarrow> get_next_record it | Some _ \<Rightarrow> (p, it))"
  define s where "s = \<lparr>ps_iter = snd (get_next_record (snd c1)), ps_temp = t, ps_cur = fst c1,
    ps_next = fst (get_next_record (snd c1)), ps_home = None, ps_roaming = None, ps_world = w\<rparr>"
  have c: "ptr_in w i (fst c1)" "iter_in w i (snd c1)"
    using p it get_next_record_in [OF it, of "fst (get_next_record it)" "snd (get_next_record it)"]
    by (auto simp: c1_def split: option.splits)
  note n = get_next_record_in [OF c(2), of "fst (get_next_record (snd c1))" "snd (get_next_record (snd c1))"]
  have "fst c1 = None \<Longrightarrow> fst (get_next_record (snd c1)) = None"
    by (auto simp: c1_def get_next_record_def split: option.splits if_splits)
  then have "process_in i s" using t c n by (simp add: process_in_def s_def)
  from process_loop_safe [OF e this, of sd off]
  have "safe_d (\<lambda>(p', t', w'). touches i w w' \<and> temp_in w' t' i \<and> ptr_in w' i p')
    (bind_d (process_loop e sd off s) (\<lambda>s. Some (Inr (ps_cur s, ps_temp s, ps_world s))))"
    by (rule safe_d_bind) (simp add: process_in_def s_def)
  then show ?thesis by (simp add: process_file_def s_def c1_def split_beta Let_def)
qed

lemma skip_older_safe:
  assumes p: "ptr_in w i nx" and it: "iter_in w i it"
  shows "safe_d (iter_in w i) (skip_older w ts nx it)"
proof (cases "skip_older w ts nx it")
  case (Some y)
  have "ptr_in v i nx \<longrightarrow> iter_in v i it \<longrightarrow> safe (iter_in v i) y" if "skip_older v ts nx it = Some y" for v
  proof (rule skip_older.raw_induct [where P = "\<lambda>v ts nx it y. ptr_in v i nx \<longrightarrow> iter_in v i it \<longrightarrow>
      safe (iter_in v i) y", OF _ that], intro impI, goal_cases)
    case (1 loop v ts nx it y)
    show ?case
    proof (cases nx)
      case None
      then show ?thesis using 1 by auto
    next
      case (Some q)
      then obtain r where r: "ptr_rel v i q r" using 1(3) by auto
      have g: "ptr_in v i (fst (get_next_record it))" "iter_in v i (snd (get_next_record it))"
        using get_next_record_in [OF 1(4), of "fst (get_next_record it)" "snd (get_next_record it)"]
        by simp_all
      show ?thesis
        using 1 Some ptr_rel_read [OF r] g by (auto split: if_splits)
    qed
  qed
  then show ?thesis using p it Some by simp
qed simp

lemma file_iter_safe:
  assumes "sf_addr f = None \<or> (\<exists>k. k \<noteq> i \<and> file_ok w f k)"
  shows "safe (iter_in w i) (file_iter w f)"
proof (cases "sf_addr f")
  case None
  then show ?thesis
    by (simp add: file_iter_def get_iterator_begin_def get_begin_def read_u32_def read_map_def)
next
  case (Some a)
  then obtain k where k: "k \<noteq> i" "file_ok w f k" using assms by auto
  show ?thesis using k get_next_in_bounds(2) [OF k(2)]
    by (auto simp: file_iter_def get_iterator_begin_def get_iterator_end_def get_begin_ok [OF k(2)]
        get_end_ok [OF k(2)] iter_in_def)
qed

lemma summarize_safe:
  assumes e: "page_ok e" and t: "temp_in w t i" and f: "file_ok w f k" "k \<noteq> i"
    and h: "sf_addr h = None \<or> (\<exists>j. j \<noteq> i \<and> file_ok w h j)"
  shows "safe_d (\<lambda>(_, t', w'). touches i w w' \<and> temp_in w' t' i) (summarize e f (Some h) t w)"
  unfolding summarize_def Let_def option.case
proof (rule safe_d_bind [where Q = "\<lambda>(p', t', w'). touches i w w' \<and> temp_in w' t' i \<and> ptr_in w' i p'"],
    goal_cases)
  case 1
  show ?case
    by (rule safe_d_bind [where Q = "iter_in w i"])
      (use file_iter_safe [OF h] in \<open>auto intro!: process_file_safe [OF e t]\<close>)
next
  case (2 v)
  obtain p1 t1 w1 where v: "v = (p1, t1, w1)" by (cases v)
  have u: "touches i w w1" and t1: "temp_in w1 t1 i" and p1: "ptr_in w1 i p1" using 2 by (simp_all add: v)
  have f1: "sf_addr f = None \<or> (\<exists>k. k \<noteq> i \<and> file_ok w1 f k)"
    using file_ok_other [OF f(1) u f(2)] f(2) by blast
  show ?case unfolding v prod.case
  proof (rule safe_d_bind [where Q = "iter_in w1 i"], goal_cases)
    case 1
    then show ?case using file_iter_safe [OF f1] by simp
  next
    case (2 it)
    show ?case
    proof (rule safe_d_bind [where Q = "iter_in w1 i"], goal_cases)
      case 1
      obtain nx it1 where g: "get_next_record it = (nx, it1)" by (cases "get_next_record it")
      note gn = get_next_record_in [OF 2 g]
      show ?case
        using 2 p1 gn by (cases p1) (auto simp: g ptr_rel_read intro!: skip_older_safe)
    next
      case (2 it1)
      show ?case
      proof (rule safe_d_bind [OF process_file_safe [OF e t1 2 p1]], clarify, goal_cases)
        case (1 p2 t2 w2)
        note u2 = touches_trans [OF u 1(1)]
        show ?case
        proof (cases p2)
          case None
          then show ?thesis using 1 u2 by simp
        next
          case (Some q)
          have "append_record e t2 q w2 = bind_r (append_record e t2 q w2) Inr"
            by (cases "append_record e t2 q w2") simp_all
          then show ?thesis
            using append_pending_safe [OF e 1(2,3)] u2 Some
            by (cases "append_record e t2 q w2")
              (auto simp: append_pending_def safe_def intro: touches_trans)
        qed
      qed
    qed
  qed
qed

text \<open>What every step of a history update keeps of the data file.\<close>

definition data_kept :: "stats_file \<Rightarrow> nat \<Rightarrow> stats_world \<Rightarrow> stats_world \<Rightarrow> bool" where
  "data_kept f k w w' \<longleftrightarrow> file_ok w' f k \<and> sw_data w' k = sw_data w k \<and> sw_hash w' = sw_hash w"

lemma stats_open_cases:
  assumes "world_wf w" and "stats_open e f name w = (err, f', w')"
  shows "err < 0 \<or> err = 0 \<and> (\<exists>fd j. f' = f\<lparr>sf_fd := fd, sf_name := Some name\<rparr> \<and> opened w name fd j w')"
proof (cases "se_fail e (sw_calls w) = 0")
  case True
  have "stats_open e f name w = stats_open (e\<lparr>se_fail := \<lambda>_. 0\<rparr>) f name w"
    using True by (simp add: stats_open_def sys_open_def syscall_def)
  then show ?thesis using stats_open_opened [OF _ assms(1), of "e\<lparr>se_fail := \<lambda>_. 0\<rparr>" f name] assms(2)
    by (auto simp: no_failure_def) blast
next
  case False
  then show ?thesis using assms(2) by (auto simp: stats_open_def sys_open_def syscall_def)
qed

lemma stats_open_temp_cases:
  assumes "world_wf w" and "\<forall>n. sw_names w (se_temp e n) = None"
    and "stats_open_temp e f w = (err, f', w')"
  shows "err < 0 \<or> err = 0 \<and>
    (\<exists>fd n. f' = f\<lparr>sf_fd := fd, sf_name := Some (se_temp e n)\<rparr> \<and> opened w (se_temp e n) fd (sw_next w) w')"
proof (cases "se_fail e (sw_calls w) = 0")
  case True
  have "stats_open_temp e f w = stats_open_temp (e\<lparr>se_fail := \<lambda>_. 0\<rparr>) f w"
    using True by (simp add: stats_open_temp_def sys_mkstemp_def syscall_def)
  then show ?thesis
    using stats_open_temp_opened [OF _ assms(1), of "e\<lparr>se_fail := \<lambda>_. 0\<rparr>" f] assms(2,3)
    by (auto simp: no_failure_def) blast
next
  case False
  then show ?thesis using assms(3) by (auto simp: stats_open_temp_def sys_mkstemp_def syscall_def)
qed

lemma close_fd_wf: "world_wf w \<Longrightarrow> world_wf (close_fd fd w)"
  by (auto simp: world_wf_def close_fd_def distinct_map_filter)

lemma file_ok_close_fd: "file_ok w f k \<Longrightarrow> sf_fd f \<noteq> fd \<Longrightarrow> file_ok (close_fd fd w) f k"
  using file_ok_close [of w f k "close_fd fd w" fd fd] by (simp add: close_fd_def)

lemma setup_keeps:
  assumes e: "page_ok e" and o: "opened w name fd j w1" and f: "file_ok w f k" and jk: "j \<noteq> k"
    and h0: "sf_fd h0 = fd" "sf_addr h0 = None" "sf_len h0 = 0"
    and l: "length (file_content w name) \<le> 2 ^ 63"
    and s: "stats_file_setup e h0 w1 = r"
  shows "\<exists>err h w2. r = Inr (err, h, w2) \<and> temp_in w2 h j \<and> sf_fd h = fd \<and>
    data_kept f k w w2 \<and> world_wf w2 \<and> sw_names w2 = sw_names w1 \<and> sw_next w2 = sw_next w1"
proof -
  have fd: "map_of (sw_fds w1) (sf_fd h0) = Some j" using opened_fd [OF o] h0 by simp
  have d: "sw_data w1 j = file_content w name" "sw_data w1 k = sw_data w k" "world_wf w1"
    "sw_hash w1 = sw_hash w"
    using o jk by (simp_all add: opened_def)
  have f1: "file_ok w1 f k" using file_ok_opened [OF o f] jk by simp
  have nfd: "sf_fd f \<noteq> fd" using file_ok_fd [OF f] o by (auto simp: opened_def)
  obtain err h w2 where r: "stats_file_setup e h0 w1 = Inr (err, h, w2)"
    and c: "sf_addr h = None \<and> sf_fd h = fd \<and> (\<exists>v. touches j w1 v \<and> w2 = close_fd fd v) \<or>
      touches j w1 w2 \<and> file_ok w2 h j \<and> sf_fd h = fd"
    using stats_file_setup_cases [OF e fd h0(2,3)] l h0(1) by (auto simp: d)
  from c have k: "temp_in w2 h j \<and> data_kept f k w w2 \<and> world_wf w2 \<and> sw_names w2 = sw_names w1 \<and> sw_next w2 = sw_next w1"
  proof
    assume "sf_addr h = None \<and> sf_fd h = fd \<and> (\<exists>v. touches j w1 v \<and> w2 = close_fd fd v)"
    then obtain v where v: "touches j w1 v" "w2 = close_fd fd v" "sf_addr h = None" "sf_fd h = fd" by blast
    have "map_of (filter (\<lambda>(d, _). d \<noteq> fd) xs) fd = None" for xs :: "(int \<times> nat) list"
      by (induction xs) auto
    then have "temp_in w2 h j" using v by (simp add: temp_in_def close_fd_def)
    then show ?thesis
      using file_ok_close_fd [OF file_ok_other [OF f1 v(1)] nfd] close_fd_wf [OF touches_wf [OF v(1) d(3)]]
        touchesD [OF v(1)] jk d v(2) by (simp add: data_kept_def close_fd_def)
  next
    assume a: "touches j w1 w2 \<and> file_ok w2 h j \<and> sf_fd h = fd"
    then have t: "touches j w1 w2" "temp_in w2 h j" by (simp_all add: temp_in_def)
    show ?thesis
      using file_ok_other [OF f1 t(1)] touches_wf [OF t(1) d(3)] touchesD [OF t(1)] t(2) jk d
      by (simp add: data_kept_def)
  qed
  then show ?thesis using r s c by auto
qed

lemma name_frames:
  "sw_fds (unlink_name e n w) = sw_fds w" "sw_data (unlink_name e n w) = sw_data w"
  "sw_hash (unlink_name e n w) = sw_hash w" "sw_hash (snd (sys_link e a b w)) = sw_hash w"
  "sw_fds (snd (sys_link e a b w)) = sw_fds w" "sw_data (snd (sys_link e a b w)) = sw_data w"
  by (simp_all add: unlink_name_def sys_unlink_def sys_link_def syscall_def split: option.splits)

lemma close_swap_keeps:
  assumes "file_ok w f k" and "sf_fd f \<noteq> sf_fd h" and "sf_fd f \<noteq> sf_fd t"
    and "stats_file_close_swap e h t w = (err, h', t', w')"
  shows "data_kept f k w w'"
proof -
  have "sw_data w' = sw_data w \<and> sw_hash w' = sw_hash w \<and>
    sw_fds w' = filter (\<lambda>(d, _). d \<noteq> sf_fd h) (filter (\<lambda>(d, _). d \<noteq> sf_fd t) (sw_fds w))"
    using assms(4) unfolding stats_file_close_swap_def close_fd_def
    by (cases "sf_name t"; cases "sf_name h")
      (clarsimp simp: name_frames split_beta Let_def)+
  then show ?thesis using file_ok_close [OF assms(1), of w' "sf_fd h" "sf_fd t"] assms(2,3)
    by (simp add: data_kept_def)
qed

lemma history_update_safe:
  assumes e: "page_ok e" and wf: "world_wf w" and f: "file_ok w f k"
    and hn: "sf_history_name f = Some hn" "sw_names w hn \<noteq> Some k" "length (file_content w hn) \<le> 2 ^ 63"
    and tn: "\<forall>n. sw_names w (se_temp e n) = None \<and> se_temp e n \<noteq> hn"
  shows "safe_d (\<lambda>(_, w'). data_kept f k w w') (stats_file_history_update e f w)"
proof -
  obtain err h0 w1 where o: "stats_open e zero_file hn w = (err, h0, w1)"
    by (cases "stats_open e zero_file hn w")
  show ?thesis
  proof (cases "err < 0")
    case True
    then have "w1 = w\<lparr>sw_calls := Suc (sw_calls w)\<rparr>"
      using o by (auto simp: stats_open_def sys_open_def syscall_def Let_def split: if_splits prod.splits)
    then show ?thesis using True o f hn(1)
      by (simp add: stats_file_history_update_def data_kept_def file_ok_def)
  next
    case False
    then obtain hfd j where h0: "h0 = zero_file\<lparr>sf_fd := hfd, sf_name := Some hn\<rparr>" and o1: "opened w hn hfd j w1"
      using stats_open_cases [OF wf o] by auto
    have jk: "j \<noteq> k" using o1 hn(2) file_ok_bound [OF wf f] by (auto simp: opened_def)
    have z: "sf_fd h0 = hfd" "sf_addr h0 = None" "sf_len h0 = 0" by (simp_all add: h0 zero_file_def)
    obtain serr h w2 where s2: "stats_file_setup e h0 w1 = Inr (serr, h, w2)"
      and h: "temp_in w2 h j" "sf_fd h = hfd" and k2: "data_kept f k w w2"
      and wf2: "world_wf w2" "sw_names w2 = sw_names w1"
      using setup_keeps [OF e o1 f jk z hn(3) refl] by auto
    have f2: "file_ok w2 f k" using k2 by (simp add: data_kept_def)
    have nh: "sf_fd f \<noteq> sf_fd h" using file_ok_fd [OF f] o1 unfolding opened_def h(2) by metis
    have tf: "\<forall>n. sw_names w2 (se_temp e n) = None" using tn o1 wf2(2) by (simp add: opened_def)
    obtain terr t0 w3 where o3: "stats_open_temp e zero_file w2 = (terr, t0, w3)"
      by (cases "stats_open_temp e zero_file w2")
    have start: "stats_file_history_update e f w = (if terr < 0
      then bind_d (Some (stats_free False (Some h) w3)) (\<lambda>w4. Some (Inr (terr, w4)))
      else bind_d (Some (stats_file_setup e t0 w3)) (\<lambda>(_, t, w4).
        bind_d (summarize e f (Some h) t w4) (\<lambda>(_, t5, w5).
        let (err, _, _, w6) = stats_file_close_swap e h t5 w5 in Some (Inr (err, w6)))))"
      using False by (simp add: stats_file_history_update_def hn(1) o s2 o3)
    show ?thesis
    proof (cases "terr < 0")
      case True
      then show ?thesis by (simp add: start stats_free_def)
    next
      case False
      then obtain tfd m where t0: "t0 = zero_file\<lparr>sf_fd := tfd, sf_name := Some (se_temp e m)\<rparr>"
        and o3': "opened w2 (se_temp e m) tfd (sw_next w2) w3"
        using stats_open_temp_cases [OF wf2(1) tf o3] by auto
      define i where "i = sw_next w2"
      have ik: "i \<noteq> k" using file_ok_bound [OF wf2(1) f2] by (simp add: i_def)
      have z3: "sf_fd t0 = tfd" "sf_addr t0 = None" "sf_len t0 = 0" by (simp_all add: t0 zero_file_def)
      have c0: "length (file_content w2 (se_temp e m)) \<le> 2 ^ 63" using tf by (simp add: file_content_def)
      obtain s4err t w4 where s4: "stats_file_setup e t0 w3 = Inr (s4err, t, w4)"
        and t: "temp_in w4 t i" and k4: "data_kept f k w2 w4"
        using setup_keeps [OF e o3' f2 _ z3 c0 refl] ik by (auto simp: i_def)
      have h4: "sf_addr h = None \<or> (\<exists>j. j \<noteq> i \<and> file_ok w4 h j)"
      proof (cases "sf_addr h = None")
        case False
        then obtain a where "sf_addr h = Some a" by blast
        then have hok: "file_ok w2 h j" using h(1) by (simp add: temp_in_def)
        then have ij: "i \<noteq> j" using file_ok_bound [OF wf2(1)] by (auto simp: i_def)
        have "data_kept h j w2 w4"
          using setup_keeps [OF e o3' hok _ z3 c0 s4] ij by (auto simp: i_def)
        then show ?thesis using ij by (auto simp: data_kept_def)
      qed simp
      have f4: "file_ok w4 f k" "k \<noteq> i" using k4 ik by (simp_all add: data_kept_def)
      have "safe_d (\<lambda>(_, w'). data_kept f k w w') (bind_d (summarize e f (Some h) t w4) (\<lambda>(_, t5, w5).
        let (err, _, _, w6) = stats_file_close_swap e h t5 w5 in Some (Inr (err, w6))))"
      proof (rule safe_d_bind [OF summarize_safe [OF e t f4 h4]], clarify)
        fix x t5 w5 assume u5: "touches i w4 w5" and t5: "temp_in w5 t5 i"
        have f5: "file_ok w5 f k" and d5: "sw_data w5 k = sw_data w k" "sw_hash w5 = sw_hash w"
          using file_ok_other [OF f4(1) u5] touchesD(1,6) [OF u5] k4 k2 ik by (auto simp: data_kept_def)
        have n5: "sf_fd f \<noteq> sf_fd t5"
          using t5 f5 ik unfolding temp_in_def file_ok_def by auto
        obtain err6 h6 t6 w6 where s6: "stats_file_close_swap e h t5 w5 = (err6, h6, t6, w6)"
          by (cases "stats_file_close_swap e h t5 w5")
        show "safe_d (\<lambda>(_, w'). data_kept f k w w')
          (let (err, _, _, w6) = stats_file_close_swap e h t5 w5 in ret_d (err, w6))"
          using close_swap_keeps [OF f5 nh n5 s6] d5 by (simp add: s6 data_kept_def)
      qed
      then show ?thesis using False by (simp add: start s4)
    qed
  qed
qed

text \<open>An update is safe for every content of the files and every pattern of failing system calls.\<close>

lemma stats_update_safe:
  assumes e: "page_ok e" and wf: "world_wf w" and s: "sw_hash w s = Some f" and f: "file_ok w f k"
    and hn: "sf_history_name f = Some hn" "sw_names w hn \<noteq> Some k" "length (file_content w hn) \<le> 2 ^ 63"
    and tn: "\<forall>n. sw_names w (se_temp e n) = None \<and> se_temp e n \<noteq> hn"
  shows "safe_d (\<lambda>(err, w'). \<exists>f'. sw_hash w' s = Some f' \<and> file_ok w' f' k) (stats_update e s roaming data w)"
proof -
  have "\<exists>err f1 w1. stats_grow e f w = Inr (err, f1, w1) \<and> touches k w w1 \<and> file_ok w1 f1 k \<and>
    sf_history_name f1 = Some hn"
    using remap_safe [OF e f] f hn(1) by (auto simp: stats_grow_def get_end_ok [OF f])
  then obtain err f1 w1 where g: "stats_grow e f w = Inr (err, f1, w1)" "touches k w w1"
    "file_ok w1 f1 k" "sf_history_name f1 = Some hn" by blast
  define w2 where "w2 = w1\<lparr>sw_hash := (sw_hash w1)(s \<mapsto> f1)\<rparr>"
  have f2: "file_ok w2 f1 k" and wf2: "world_wf w2" and h2: "sw_hash w2 s = Some f1"
    and n2: "sw_names w2 = sw_names w" and d2: "sw_data w2 = sw_data w1"
    using g(3) touches_wf [OF g(2) wf] touchesD(2) [OF g(2)]
    by (simp_all add: w2_def file_ok_def world_wf_def)
  have c2: "file_content w2 hn = file_content w hn"
    by (rule hist_cong(1) [OF _ hn(2)]) (use n2 d2 touchesD(6) [OF g(2)] in simp_all)
  let ?nx = "get_next f1 (unat (field32 hdr_end (sw_data w2 k)))"
  note b = get_next_in_bounds [OF f2, of "unat (field32 hdr_end (sw_data w2 k))"]
  let ?h = "if ?nx = unat (field32 hdr_begin (sw_data w2 k))
      then bind_d (stats_file_history_update e f1 w2) (\<lambda>(_, w3). Some (Inr w3)) else Some (Inr w2)"
  have "safe_d (\<lambda>w3. data_kept f1 k w2 w3) ?h"
  proof -
    have "safe_d (\<lambda>(_, w'). data_kept f1 k w2 w') (stats_file_history_update e f1 w2)"
      using hn(2,3) tn by (intro history_update_safe [OF e wf2 f2 g(4)]) (simp_all add: n2 c2)
    then have "safe_d (\<lambda>w3. data_kept f1 k w2 w3)
        (bind_d (stats_file_history_update e f1 w2) (\<lambda>(_, w3). Some (Inr w3)))"
      by (rule safe_d_bind) auto
    then show ?thesis using f2 by (simp add: data_kept_def)
  qed
  then have "safe_d (\<lambda>(err, w'). \<exists>f'. sw_hash w' s = Some f' \<and> file_ok w' f' k)
    (bind_d ?h (\<lambda>w3. bind_d (Some (store_record e f1 ?nx roaming data w3)) (\<lambda>w4. Some (Inr (0, w4)))))"
  proof (rule safe_d_bind)
    fix w3 assume "data_kept f1 k w2 w3"
    then have f3: "file_ok w3 f1 k" "sw_hash w3 s = Some f1" using h2 by (simp_all add: data_kept_def)
    obtain w4 where "store_record e f1 ?nx roaming data w3 = Inr w4" "touches k w3 w4" "file_ok w4 f1 k"
      using store_record_in_bounds [OF f3(1) b] by blast
    then show "safe_d (\<lambda>(err, w'). \<exists>f'. sw_hash w' s = Some f' \<and> file_ok w' f' k)
      (bind_d (Some (store_record e f1 ?nx roaming data w3)) (\<lambda>w4. Some (Inr (0, w4))))"
      using f3(2) touchesD(1) by auto
  qed
  then show ?thesis
    using f2 h2
    unfolding stats_update_def s option.case g(1) bind_d_simps prod.case Let_def w2_def [symmetric]
    by (cases "err < 0")
      (simp_all add: get_end_ok [OF f2] get_begin_ok [OF f2] split del: if_split)
qed

end
