(* ===== verification/Stats_Properties.thy ===== *)
theory Stats_Properties
  imports Stats_Safety
begin

text \<open>
  The properties of the statistics component (\<^verbatim>\<open>src/stats.c\<close>), with an example machine on which
  each of them is applied.
\<close>

section \<open>An example\<close>

text \<open>A machine with pages of 128 bytes, so that a file of one page has two slots.\<close>

definition exs_env :: stats_env where
  "exs_env = \<lparr>se_fail = (\<lambda>_. 0), se_page = 128, se_max_file_size = 128, se_now = 1000000,
     se_alloc = True, se_ident = (\<lambda>_. ''wifi''), se_storage = ''/var'',
     se_temp = (\<lambda>_. ''/var/stats.tmp''), se_date = (\<lambda>t. sint t div 86400),
     se_day = (\<lambda>d. Suc (nat (d mod 30))), se_month = (\<lambda>d. Suc (nat (d div 30 mod 12))),
     se_subtract_months = (\<lambda>d n. d - 30 * int n), se_set_day = (\<lambda>d k. d - d mod 30 + k - 1)\<rparr>"

definition exs_file :: stats_file where
  "exs_file = \<lparr>sf_fd = 0, sf_name = Some ''/var/wifi/data'', sf_addr = Some 0, sf_len = 128,
     sf_max_len = 128, sf_first = 20, sf_last = 68, sf_home = None, sf_roaming = None,
     sf_history_name = Some ''/var/wifi/history'', sf_account_period_offset = 1\<rparr>"

definition exs_world :: stats_world where
  "exs_world = \<lparr>sw_hash = [0 \<mapsto> exs_file], sw_names = [''/var/wifi/data'' \<mapsto> 0], sw_dirs = [],
     sw_data = (\<lambda>_. setup_data exs_env []), sw_next = 1, sw_fds = [(0, 0)], sw_calls = 0\<rparr>"

definition exs_data :: connman_stats_data where
  "exs_data = \<lparr>rx_packets = 1, tx_packets = 2, rx_bytes = 3, tx_bytes = 4, rx_errors = 5,
     tx_errors = 6, rx_dropped = 7, tx_dropped = 8, sd_time = 9\<rparr>"

text \<open>The same service with one record in its ring, and a history with another record.\<close>

definition exs_record :: "u64 \<Rightarrow> stats_record" where
  "exs_record ts = \<lparr>sr_ts = ts, sr_roaming = 0, sr_data = exs_data\<rparr>"

definition exs_content :: "u64 \<Rightarrow> u8 list" where
  "exs_content ts = poke 8 (bytes32 68) (poke 68 (stats_record_bytes (exs_record ts)) (setup_data exs_env []))"

definition exs_full :: stats_world where
  "exs_full = \<lparr>sw_hash = [0 \<mapsto> exs_file],
     sw_names = [''/var/wifi/data'' \<mapsto> 0, ''/var/wifi/history'' \<mapsto> 1], sw_dirs = [],
     sw_data = (\<lambda>i. if i = 0 then exs_content 900000 else exs_content 800000), sw_next = 2,
     sw_fds = [(0, 0)], sw_calls = 0\<rparr>"

lemma exs_env_ok: "page_ok exs_env" "no_failure exs_env" "unat (se_page exs_env) = 128"
  by (auto simp: page_ok_def no_failure_def exs_env_def intro!: exI [of _ 7])

lemma exs_empty: "length (setup_data exs_env []) = 128"
  by (simp add: setup_empty [OF exs_env_ok(1)] exs_env_ok(3) length_poke)

lemma exs_capacity: "capacity exs_file = 2" "file_last 128 = 68" "slot_off 0 = 20" "slot_off (Suc 0) = 68"
  by (simp_all add: capacity_def exs_file_def slot_off_def file_last_def)

lemma exs_world_ok:
  "world_wf exs_world" "file_ok exs_world exs_file 0" "temp_rel exs_env exs_world exs_file 0 [] 1"
proof -
  show "world_wf exs_world" by (auto simp: world_wf_def exs_world_def)
  show ok: "file_ok exs_world exs_file 0"
    by (simp add: file_ok_def exs_world_def exs_file_def exs_empty exs_capacity)
  show "temp_rel exs_env exs_world exs_file 0 [] 1"
    by (rule setup_temp_rel [OF exs_env_ok(1) ok])
      (simp_all add: exs_world_def exs_file_def exs_env_def)
qed

lemma exs_aligned: "aligned (setup_data exs_env []) exs_file" "records (setup_data exs_env []) exs_file = []"
  using exs_world_ok(3) by (simp_all add: temp_rel_def exs_world_def)

lemma exs_setup_empty: "setup_size exs_env 0 = 128" "setup_size exs_env 128 = 128"
  using setup_empty(1) [OF exs_env_ok(1)] page_round_page [OF exs_env_ok(1)]
  by (simp_all add: exs_env_def setup_size_def)

lemma exs_ready: "history_ready exs_env exs_world exs_file 0 ''/var/wifi/history''"
proof -
  have c: "file_content exs_world ''/var/wifi/history'' = []"
    by (simp add: file_content_def exs_world_def)
  have l: "sf_len (hist_file exs_env exs_world ''/var/wifi/history'') = sf_len exs_file"
    by (simp add: hist_file_def c exs_setup_empty exs_file_def)
  show ?thesis
    using exs_aligned aligned_len [OF l] records_len [OF l]
    by (simp add: history_ready_def hist_records_def c) (simp add: exs_file_def exs_world_def exs_env_def)
qed

lemma exs_content_ok:
  "length (exs_content ts) = 128" "aligned (exs_content ts) exs_file"
  "records (exs_content ts) exs_file = [exs_record ts]" "setup_data exs_env (exs_content ts) = exs_content ts"
proof -
  let ?d = "setup_data exs_env []"
  have ok: "file_ok exs_world exs_file 0" by (rule exs_world_ok)
  have d: "sw_data exs_world 0 = ?d" by (simp add: exs_world_def)
  have al: "aligned (sw_data exs_world 0) exs_file" by (simp add: d exs_aligned)
  have nf: "new_file exs_env ?d exs_file" using exs_world_ok(3) by (simp add: temp_rel_def d)
  have L: "20 \<le> length (replicate (unat (se_page exs_env)) (0 :: u8))" by (simp add: exs_env_ok(3))
  have e: "field32 8 ?d = 20"
    using header_bytes_fields(3) [OF L] by (simp add: setup_empty(2) [OF exs_env_ok(1)])
  have nx: "next_slot ?d exs_file = 1" by (simp add: next_slot_def e exs_capacity slot_of_def)
  define w' where "w' = poke_at 0 8 (bytes32 (of_nat (slot_off (next_slot (sw_data exs_world 0) exs_file))))
    (poke_at 0 (slot_off (next_slot (sw_data exs_world 0) exs_file)) (stats_record_bytes (exs_record ts)) exs_world)"
  note cp = copy_record_records [OF ok al w'_def]
  have c: "sw_data w' 0 = exs_content ts"
    by (simp add: w'_def d nx exs_capacity exs_content_def)
  show l: "length (exs_content ts) = 128" using cp(5) by (simp add: c d exs_empty)
  show al': "aligned (exs_content ts) exs_file" using cp(2) by (simp add: c)
  show "records (exs_content ts) exs_file = [exs_record ts]"
    using cp(3) by (simp add: c d exs_aligned ring_put_def exs_capacity)
  have "new_file exs_env (exs_content ts) exs_file"
    using nf cp(4) [of 0] cp(4) [of 12] cp(4) [of 16] l by (simp add: new_file_def c d exs_empty exs_env_ok(3))
  from setup_new_file(2) [OF exs_env_ok(1) this al'] show "setup_data exs_env (exs_content ts) = exs_content ts"
    by (simp add: exs_file_def)
qed

lemma exs_full_ok:
  "world_wf exs_full" "file_ok exs_full exs_file 0" "aligned (sw_data exs_full 0) exs_file"
  "records (sw_data exs_full 0) exs_file = [exs_record 900000]"
  "hist_records exs_env exs_full ''/var/wifi/history'' = [exs_record 800000]"
  "history_ready exs_env exs_full exs_file 0 ''/var/wifi/history''"
proof -
  have c: "file_content exs_full ''/var/wifi/history'' = exs_content 800000"
    by (simp add: file_content_def exs_full_def)
  have l: "sf_len (hist_file exs_env exs_full ''/var/wifi/history'') = sf_len exs_file"
    by (simp add: hist_file_def c exs_content_ok exs_setup_empty exs_file_def)
  show "world_wf exs_full" by (auto simp: world_wf_def exs_full_def)
  show "file_ok exs_full exs_file 0"
    by (simp add: file_ok_def exs_full_def exs_file_def exs_content_ok exs_capacity)
  show "aligned (sw_data exs_full 0) exs_file" and d: "records (sw_data exs_full 0) exs_file = [exs_record 900000]"
    by (simp_all add: exs_full_def exs_content_ok)
  show h: "hist_records exs_env exs_full ''/var/wifi/history'' = [exs_record 800000]"
    using records_len [OF l] by (simp add: hist_records_def c exs_content_ok)
  show "history_ready exs_env exs_full exs_file 0 ''/var/wifi/history''"
    using aligned_len [OF l] d
    by (simp add: history_ready_def h c exs_content_ok) (simp add: exs_file_def exs_full_def exs_env_def)
qed

section \<open>Properties\<close>

text \<open>
  C34. An update refines its specification on lists of records. For a mapped file whose header
  points at slots, with working system calls and a readable history, the update ends with
  success, the file stays well-formed, and its abstract state is the specified one: the record
  is appended to the ring, or, when the ring (after growing the file up to its configured size)
  has no free slot, the history becomes the summary of history and ring and the ring is empty.
  The new record is then in no list: it lies in the slot that is not part of the range.
\<close>

theorem stats_update_refines:
  assumes "page_ok e" and "no_failure e" and "world_wf w" and "sw_hash w s = Some f"
    and "file_ok w f k" and "aligned (sw_data w k) f" and "history_ready e w f k hn"
    and "unat (sf_len f) + 2 * unat (se_page e) < 2 ^ 32"
  shows "\<exists>f' w'. stats_update e s roaming data w = Some (Inr (0, w')) \<and> sw_hash w' s = Some f' \<and>
    world_wf w' \<and> file_ok w' f' k \<and> aligned (sw_data w' k) f' \<and> capacity f \<le> capacity f' \<and>
    stats_abs e w' k f' hn = spec_update
      (period_ends e (step_size_date e (sf_account_period_offset f)) (sf_account_period_offset f))
      (capacity f') \<lparr>sr_ts = se_now e, sr_roaming = roaming, sr_data = data\<rparr> (stats_abs e w k f hn)"
  by (rule stats_update_refines_spec [OF assms])

theorem stats_update_refines_witness:
  "\<exists>f' w'. stats_update exs_env 0 0 exs_data exs_full = Some (Inr (0, w')) \<and> sw_hash w' 0 = Some f' \<and>
    world_wf w' \<and> file_ok w' f' 0 \<and> aligned (sw_data w' 0) f' \<and> capacity exs_file \<le> capacity f' \<and>
    stats_abs exs_env w' 0 f' ''/var/wifi/history'' = spec_update
      (period_ends exs_env (step_size_date exs_env (sf_account_period_offset exs_file))
        (sf_account_period_offset exs_file))
      (capacity f') \<lparr>sr_ts = se_now exs_env, sr_roaming = 0, sr_data = exs_data\<rparr>
      (stats_abs exs_env exs_full 0 exs_file ''/var/wifi/history'')"
  by (rule stats_update_refines [OF exs_env_ok(1,2) exs_full_ok(1) _ exs_full_ok(2,3,6)])
    (simp_all add: exs_full_def exs_env_ok(3) exs_file_def)

text \<open>
  A history update with working system calls ends, leaves the data file and its records
  alone, and puts under the name of the history a file whose records are the summary of the old
  history and of the ring: for each accounting period the last home and the last roaming record,
  and the last record of all. A missing or damaged history counts as empty.
\<close>

lemma history_update_summarises:
  assumes "page_ok e" and "no_failure e" and "world_wf w" and "file_ok w f k"
    and "aligned (sw_data w k) f" and "history_ready e w f k hn"
  shows "\<exists>w'. stats_file_history_update e f w = Some (Inr (0, w')) \<and> world_wf w' \<and> file_ok w' f k \<and>
    sw_data w' k = sw_data w k \<and> (\<exists>i. i \<noteq> k \<and> sw_names w' = (sw_names w)(hn \<mapsto> i)) \<and>
    hist_records e w' hn = sum_all
      (period_ends e (step_size_date e (sf_account_period_offset f)) (sf_account_period_offset f))
      (hist_records e w hn) (records (sw_data w k) f)"
  using history_update_total [OF assms] by blast

lemma history_update_summarises_witness:
  "\<exists>w'. stats_file_history_update exs_env exs_file exs_full = Some (Inr (0, w')) \<and>
    hist_records exs_env w' ''/var/wifi/history'' = sum_all
      (period_ends exs_env (step_size_date exs_env (sf_account_period_offset exs_file))
        (sf_account_period_offset exs_file)) [exs_record 800000] [exs_record 900000]"
  using history_update_summarises [OF exs_env_ok(1,2) exs_full_ok(1,2,3,6)] exs_full_ok(4,5) by auto

text \<open>
  C35. Whatever bytes the data file and the history file hold, and whichever system calls fail, an
  update of a mapped file never reads or writes outside a mapping: the only faults left are those
  of an unmapped history or temporary file.
\<close>

theorem stats_update_in_bounds:
  assumes "page_ok e" and "world_wf w" and "sw_hash w s = Some f" and "file_ok w f k"
    and "sf_history_name f = Some hn" and "sw_names w hn \<noteq> Some k"
    and "length (file_content w hn) \<le> 2 ^ 63"
    and "\<forall>n. sw_names w (se_temp e n) = None \<and> se_temp e n \<noteq> hn"
  shows "stats_update e s roaming data w \<noteq> Some (Inl OutOfBounds)"
  using stats_update_safe [OF assms, of roaming data] by (auto simp: safe_d_def safe_def)

theorem stats_update_in_bounds_witness:
  "stats_update exs_env 0 1 exs_data exs_world \<noteq> Some (Inl OutOfBounds)"
  by (rule stats_update_in_bounds [OF exs_env_ok(1) exs_world_ok(1) _ exs_world_ok(2),
      where hn = "''/var/wifi/history''"])
    (simp_all add: exs_world_def exs_file_def exs_env_def file_content_def)

text \<open>
  Setting up a descriptor either fails with an error and leaves the file unmapped, or maps the
  file with a valid header: an existing header is kept when it is plausible, and any other content
  gets the header of an empty ring.
\<close>

lemma stats_file_setup_result:
  assumes "page_ok e" and "map_of (sw_fds w) (sf_fd f) = Some i"
    and "sf_addr f = None" and "sf_len f = 0" and "length (sw_data w i) \<le> 2 ^ 63"
  shows "\<exists>err f' w'. stats_file_setup e f w = Inr (err, f', w') \<and>
    (err < 0 \<and> sf_addr f' = None \<and> sf_name f' = None \<or>
     err = 0 \<and> file_ok w' f' i \<and> header_valid (sw_data w' i) (sf_len f') \<and>
     sw_data w' i = setup_data e (sw_data w i))"
  using stats_file_setup_cases [OF assms] by blast

lemma stats_file_setup_result_witness:
  "\<exists>err f' w'. stats_file_setup exs_env (zero_file\<lparr>sf_fd := 0\<rparr>) exs_world = Inr (err, f', w') \<and>
    (err < 0 \<and> sf_addr f' = None \<and> sf_name f' = None \<or>
     err = 0 \<and> file_ok w' f' 0 \<and> header_valid (sw_data w' 0) (sf_len f') \<and>
     sw_data w' 0 = setup_data exs_env (sw_data exs_world 0))"
  by (rule stats_file_setup_result [OF exs_env_ok(1)])
    (simp_all add: zero_file_def exs_world_def exs_empty)

lemma sum_loop_last: "snd (sum_loop ends cur h r rs) = last (cur # rs)"
  by (induction rs arbitrary: cur h r) (simp_all add: split_beta Let_def)

lemma sum_loop_set:
  "set (fst (sum_loop ends cur h r rs)) \<subseteq> insert cur (set (opt_list h) \<union> set (opt_list r) \<union> set rs)"
proof (induction rs arbitrary: cur h r)
  case (Cons n ns)
  show ?case using Cons [of n None None] Cons [of n h "Some cur"] Cons [of n "Some cur" r]
    by (auto simp: split_beta Let_def opt_list_def)
qed simp

lemma sum_file_set:
  "set (fst (sum_file ends c rs)) \<union> set (opt_list (snd (sum_file ends c rs))) \<subseteq> set (opt_list c) \<union> set rs"
proof (cases "(ends, c, rs)" rule: sum_file.cases)
  case (2 ends c' rs')
  then show ?thesis using sum_loop_set [of ends c' None None rs'] sum_loop_last [of ends c' None None rs']
    by (auto simp: split_beta Let_def opt_list_def)
next
  case (3 ends c' rs')
  then show ?thesis using sum_loop_set [of ends c' None None rs'] sum_loop_last [of ends c' None None rs']
    by (auto simp: split_beta Let_def opt_list_def)
qed simp

lemma sum_file_carry: "rs \<noteq> [] \<Longrightarrow> snd (sum_file ends None rs) = Some (last rs)"
  by (cases rs) (simp_all add: split_beta sum_loop_last)

text \<open>
  With a history that is not empty, the first record of the ring that is not older than the
  last record of the history is left out of the new history: the loop that skips older records
  has already taken it from the iterator.
\<close>

lemma history_leaves_record_out:
  assumes "page_ok e" and "no_failure e" and "world_wf w" and "file_ok w f k"
    and "aligned (sw_data w k) f" and "history_ready e w f k hn"
    and "hist_records e w hn \<noteq> []" and "records (sw_data w k) f = d # ds"
    and "sint (sr_ts (last (hist_records e w hn))) \<le> sint (sr_ts d)"
    and "d \<notin> set (hist_records e w hn)" and "d \<notin> set ds"
  shows "\<exists>w'. stats_file_history_update e f w = Some (Inr (0, w')) \<and> d \<notin> set (hist_records e w' hn)"
proof -
  let ?ends = "period_ends e (step_size_date e (sf_account_period_offset f)) (sf_account_period_offset f)"
  let ?hs = "hist_records e w hn"
  obtain w' where u: "stats_file_history_update e f w = Some (Inr (0, w'))"
    and h: "hist_records e w' hn = sum_all ?ends ?hs (d # ds)"
    using history_update_total [OF assms(1-6)] assms(8) by auto
  have n: "newer_than (Some (last ?hs)) (d # ds) = ds" using assms(9) by (simp add: newer_than_def)
  have "set (sum_all ?ends ?hs (d # ds)) \<subseteq> set ?hs \<union> set ds"
    using sum_file_set [of ?ends None ?hs] sum_file_set [of ?ends "Some (last ?hs)" ds]
      sum_file_carry [OF assms(7), of ?ends] last_in_set [OF assms(7)]
    by (auto simp: sum_all_def split_beta Let_def n opt_list_def)
  then show ?thesis using u h assms(10,11) by auto
qed

lemma history_leaves_record_out_witness:
  "\<exists>w'. stats_file_history_update exs_env exs_file exs_full = Some (Inr (0, w')) \<and>
    exs_record 900000 \<notin> set (hist_records exs_env w' ''/var/wifi/history'')"
proof -
  have "(800000 :: u64) \<noteq> 900000" by simp
  then have "exs_record 900000 \<noteq> exs_record 800000" by (auto simp: exs_record_def)
  moreover have "sint (sr_ts (exs_record 800000)) \<le> sint (sr_ts (exs_record 900000))"
    by (simp add: exs_record_def)
  ultimately show ?thesis
    using history_leaves_record_out [OF exs_env_ok(1,2) exs_full_ok(1,2,3,6) _ exs_full_ok(4)]
    by (simp add: exs_full_ok(5))
qed

lemma grow_not_needed:
  assumes "file_ok w f k" and "\<not> (sf_len f < sf_max_len f \<and> sf_last f = unat (field32 hdr_end (sw_data w k)))"
  shows "stats_grow e f w = Inr (0, f, w)"
  using assms(2) by (auto simp: stats_grow_def get_end_ok [OF assms(1)])

text \<open>
  An update does not refresh the cached pointers to the current records. When the file is not
  grown by it, asking for the home statistics after storing a home record in a file that had none
  returns success and leaves the caller's data as it was, although the record is the newest one
  of the ring.
\<close>

lemma stats_get_misses_update:
  assumes "page_ok e" and "sw_hash w s = Some f" and "file_ok w f k" and "aligned (sw_data w k) f"
    and "\<not> (sf_len f < sf_max_len f \<and> sf_last f = unat (field32 hdr_end (sw_data w k)))"
    and "Suc (length (records (sw_data w k) f)) < capacity f"
    and "sf_home f = None" and "roaming \<noteq> 1"
  shows "\<exists>w'. stats_update e s roaming data w = Some (Inr (0, w')) \<and>
    last (records (sw_data w' k) f) = \<lparr>sr_ts = se_now e, sr_roaming = roaming, sr_data = data\<rparr> \<and>
    stats_get s roaming other w' = Inr (0, other)"
proof -
  note ok = assms(3) and al = assms(4)
  define w2 where "w2 = w\<lparr>sw_hash := (sw_hash w)(s \<mapsto> f)\<rparr>"
  have w2: "w2 = w" using assms(2) by (simp add: w2_def fun_upd_idem)
  let ?nx = "slot_off (next_slot (sw_data w k) f)"
  have b: "20 \<le> ?nx" "?nx + 48 \<le> unat (sf_len f)"
    using get_next_in_bounds [OF ok, of "unat (field32 hdr_end (sw_data w k))"]
    by (simp_all add: get_next_aligned(1) [OF ok al])
  obtain w4 where s4: "store_record e f ?nx roaming data w = Inr w4" "touches k w w4"
    using store_record_in_bounds [OF ok b] by blast
  have nb: "?nx \<noteq> unat (field32 4 (sw_data w k))"
    using full_iff [OF al] assms(6) al unfolding aligned_def by (metis slot_off_inj)
  have "stats_update e s roaming data w = Some (Inr (0, w4))"
    unfolding stats_update_def assms(2) option.case grow_not_needed [OF ok assms(5)]
    using nb by (simp add: w2_def [symmetric] w2 get_end_ok [OF ok] get_begin_ok [OF ok] Let_def
        get_next_aligned(1) [OF ok al] s4)
  moreover have "records (sw_data w4 k) f =
      records (sw_data w k) f @ [\<lparr>sr_ts = se_now e, sr_roaming = roaming, sr_data = data\<rparr>]"
    using store_record_records(2) [OF ok al s4(1)] assms(6) by (simp add: ring_put_def)
  moreover have "sw_hash w4 s = Some f" using touchesD(1) [OF s4(2)] assms(2) by simp
  ultimately show ?thesis using assms(7,8) by (simp add: stats_get_def)
qed

lemma stats_get_misses_update_witness:
  "\<exists>w'. stats_update exs_env 0 0 exs_data exs_world = Some (Inr (0, w')) \<and>
    last (records (sw_data w' 0) exs_file) = \<lparr>sr_ts = se_now exs_env, sr_roaming = 0, sr_data = exs_data\<rparr> \<and>
    stats_get 0 0 (exs_data\<lparr>rx_packets := 0\<rparr>) w' = Inr (0, exs_data\<lparr>rx_packets := 0\<rparr>)"
  using exs_aligned
  by (intro stats_get_misses_update [OF exs_env_ok(1) _ exs_world_ok(2)])
    (simp_all add: exs_world_def exs_capacity, simp_all add: exs_file_def)

text \<open>
  The header check does not bound the offset of the current record. A file whose header
  passes the check but whose home offset lies behind the end of the file is set up without an
  error, and asking for the statistics then reads outside the mapping.
\<close>

lemma stats_get_trusts_header:
  assumes "page_ok e" and "no_failure e" and "map_of (sw_fds w) (sf_fd f) = Some i"
    and "sf_addr f = None" and "sf_len f = 0" and "length (sw_data w i) < 2 ^ 32"
    and "length (sw_data w i) = unat (setup_size e (length (sw_data w i)))"
    and "header_valid (sw_data w i) (setup_size e (length (sw_data w i)))"
    and "field32 hdr_home (sw_data w i) \<noteq> UINT_MAX"
    and "unat (setup_size e (length (sw_data w i))) < unat (field32 hdr_home (sw_data w i)) + record_size"
    and "roaming \<noteq> 1"
  shows "\<exists>f' w'. stats_file_setup e f w = Inr (0, f', w') \<and>
    stats_get s roaming data (w'\<lparr>sw_hash := [s \<mapsto> f']\<rparr>) = Inl OutOfBounds"
proof -
  let ?n = "setup_size e (length (sw_data w i))"
  have "setup_data e (sw_data w i) = sw_data w i"
    unfolding setup_data_def Let_def assms(7) [symmetric] using assms(8) by (simp add: resize_def)
  then obtain w' where s: "stats_file_setup e f w = Inr (0, setup_file e w' i ?n f, w')"
    and d: "sw_data w' i = sw_data w i"
    using stats_file_setup_succeeds [OF assms(1-6)] by auto
  have h: "sf_home (setup_file e w' i ?n f) = Some (unat (field32 12 (sw_data w i)))"
    using assms(9) by (simp add: setup_file_def cached_def d hdr_ptr_def)
  have "length (mapped (w'\<lparr>sw_hash := [s \<mapsto> setup_file e w' i ?n f]\<rparr>) (setup_file e w' i ?n f) i) \<le> unat ?n"
    by (simp add: mapped_def)
  then have "stats_get s roaming data (w'\<lparr>sw_hash := [s \<mapsto> setup_file e w' i ?n f]\<rparr>) = Inl OutOfBounds"
    using assms(10,11) by (simp add: stats_get_def h read_map_def)
  then show ?thesis using s by blast
qed
definition exs_bad_home :: stats_world where
  "exs_bad_home = exs_world\<lparr>sw_data := \<lambda>_. poke 12 (bytes32 0x10000) (setup_data exs_env [])\<rparr>"

lemma stats_get_trusts_header_witness:
  "\<exists>f' w'. stats_file_setup exs_env (zero_file\<lparr>sf_fd := 0\<rparr>) exs_bad_home = Inr (0, f', w') \<and>
    stats_get 0 0 exs_data (w'\<lparr>sw_hash := [0 \<mapsto> f']\<rparr>) = Inl OutOfBounds"
proof -
  let ?d = "setup_data exs_env []"
  have L: "20 \<le> length (replicate (unat (se_page exs_env)) (0 :: u8))" by (simp add: exs_env_ok(3))
  note h = header_bytes_fields [OF L, folded setup_empty(2) [OF exs_env_ok(1)]]
  have l: "length (sw_data exs_bad_home i) = 128" for i
    by (simp add: exs_bad_home_def length_poke exs_empty)
  have o: "field32 k (sw_data exs_bad_home i) = field32 k ?d" if "k + 4 \<le> 12 \<or> k = 16" for k i
    unfolding exs_bad_home_def using that
    by (simp add: exs_world_def) (intro field32_poke_other, auto simp: exs_empty)
  have hm: "field32 12 (sw_data exs_bad_home i) = 0x10000" for i
    by (simp add: exs_bad_home_def field32_poke_same exs_empty)
  have hv: "header_valid (sw_data exs_bad_home 0) (setup_size exs_env (length (sw_data exs_bad_home 0)))"
    using o [of 0 0] o [of 4 0] o [of 8 0] o [of 16 0]
    by (simp add: header_valid_def l hm h exs_setup_empty)
  have "map_of (sw_fds exs_bad_home) (sf_fd (zero_file\<lparr>sf_fd := 0\<rparr>)) = Some 0"
    by (simp add: exs_bad_home_def exs_world_def)
  from stats_get_trusts_header [OF exs_env_ok(1,2) this _ _ _ _ hv]
  show ?thesis by (simp add: l hm exs_setup_empty zero_file_def)
qed

text \<open>
  Two errors of a history update that the code does not handle. When the temporary file
  cannot be created, the history structure, which is a local variable, is released like allocated
  memory. When the history file could not be mapped, the error is ignored and its header is read
  through a null pointer.
\<close>

lemma history_update_failures:
  assumes "page_ok e" and "world_wf w" and "file_ok w f k" and "sf_history_name f = Some hn"
    and "sw_names w hn \<noteq> Some k" and "length (file_content w hn) \<le> 2 ^ 63"
    and "\<forall>n. sw_names w (se_temp e n) = None \<and> se_temp e n \<noteq> hn"
    and "stats_open e zero_file hn w = (0, h0, w1)" and "stats_file_setup e h0 w1 = Inr (err, h, w2)"
  shows "if se_fail e (sw_calls w2) \<noteq> 0 then stats_file_history_update e f w = Some (Inl BadFree)
    else sf_addr h = None \<longrightarrow> stats_file_history_update e f w = Some (Inl NullDeref)"
proof -
  obtain hfd j where h0: "h0 = zero_file\<lparr>sf_fd := hfd, sf_name := Some hn\<rparr>" and o1: "opened w hn hfd j w1"
    using stats_open_cases [OF assms(2,8)] by auto
  have jk: "j \<noteq> k" using o1 assms(5) file_ok_bound [OF assms(2,3)] by (auto simp: opened_def)
  have z: "sf_fd h0 = hfd" "sf_addr h0 = None" "sf_len h0 = 0" by (simp_all add: h0 zero_file_def)
  have wf2: "world_wf w2" "sw_names w2 = sw_names w1" "file_ok w2 f k"
    using setup_keeps [OF assms(1) o1 assms(3) jk z assms(6,9)] by (auto simp: data_kept_def)
  have tf: "\<forall>n. sw_names w2 (se_temp e n) = None" using assms(7) o1 wf2(2) by (simp add: opened_def)
  obtain terr t0 w3 where o3: "stats_open_temp e zero_file w2 = (terr, t0, w3)"
    by (cases "stats_open_temp e zero_file w2")
  have start: "stats_file_history_update e f w = (if terr < 0
      then bind_d (Some (stats_free False (Some h) w3)) (\<lambda>w4. Some (Inr (terr, w4)))
      else bind_d (Some (stats_file_setup e t0 w3)) (\<lambda>(_, t, w4).
        bind_d (summarize e f (Some h) t w4) (\<lambda>(_, t5, w5).
        let (err, _, _, w6) = stats_file_close_swap e h t5 w5 in Some (Inr (err, w6)))))"
    using assms(8,9) by (simp add: stats_file_history_update_def assms(4) o3)
  show ?thesis
  proof (cases "se_fail e (sw_calls w2) = 0")
    case False
    then have "terr < 0"
      using o3 by (auto simp: stats_open_temp_def sys_mkstemp_def syscall_def)
    then show ?thesis using False by (simp add: start stats_free_def)
  next
    case True
    then have "\<not> terr < 0"
      using o3 by (auto simp: stats_open_temp_def sys_mkstemp_def syscall_def Let_def
          create_file_def open_inode_def)
    then obtain tfd m where t0: "t0 = zero_file\<lparr>sf_fd := tfd, sf_name := Some (se_temp e m)\<rparr>"
      and o3': "opened w2 (se_temp e m) tfd (sw_next w2) w3"
      using stats_open_temp_cases [OF wf2(1) tf o3] by auto
    have z3: "sf_fd t0 = tfd" "sf_addr t0 = None" "sf_len t0 = 0" by (simp_all add: t0 zero_file_def)
    have c0: "length (file_content w2 (se_temp e m)) \<le> 2 ^ 63" using tf by (simp add: file_content_def)
    have "sw_next w2 \<noteq> k" using file_ok_bound [OF wf2(1,3)] by simp
    from setup_keeps [OF assms(1) o3' wf2(3) this z3 c0 refl]
    obtain s4err t w4 where s4: "stats_file_setup e t0 w3 = Inr (s4err, t, w4)" by auto
    have "file_iter w4 h = Inl NullDeref" if "sf_addr h = None"
      using that by (simp add: file_iter_def get_iterator_begin_def get_begin_def read_u32_def read_map_def)
    then show ?thesis using True \<open>\<not> terr < 0\<close> by (simp add: start s4 summarize_def)
  qed
qed

definition exs_failing :: "nat list \<Rightarrow> stats_env" where
  "exs_failing ns = exs_env\<lparr>se_fail := \<lambda>n. if n \<in> set ns then 5 else 0\<rparr>"

lemma history_update_failures_witness:
  "stats_file_history_update (exs_failing [1, 2]) exs_file exs_world = Some (Inl BadFree) \<and>
   stats_file_history_update (exs_failing [1]) exs_file exs_world = Some (Inl NullDeref)"
proof -
  have p: "page_ok (exs_failing ns)" for ns
    using exs_env_ok(1) by (simp add: page_ok_def exs_failing_def)
  let ?hn = "''/var/wifi/history''"
  have hn: "sf_history_name exs_file = Some ?hn" "sw_names exs_world ?hn \<noteq> Some 0"
    "length (file_content exs_world ?hn) \<le> 2 ^ 63"
    by (simp_all add: exs_file_def exs_world_def file_content_def)
  have t: "\<forall>n. sw_names exs_world (se_temp (exs_failing ns) n) = None \<and> se_temp (exs_failing ns) n \<noteq> ?hn" for ns
    by (simp add: exs_failing_def exs_env_def exs_world_def)
  have o: "\<exists>h0 w1 err h w2. stats_open (exs_failing (1 # ns)) zero_file ?hn exs_world = (0, h0, w1) \<and>
      stats_file_setup (exs_failing (1 # ns)) h0 w1 = Inr (err, h, w2) \<and> sf_addr h = None \<and>
      sw_calls w2 = 2" if "0 \<notin> set ns" for ns
    using that
    by (simp add: stats_open_def sys_open_def syscall_def exs_failing_def create_file_def open_inode_def
        exs_world_def stats_file_setup_def fd_call_def zero_file_def close_fd_def)
  note r = history_update_failures [OF p exs_world_ok(1,2) hn t]
  obtain h0 w1 err h w2 where
    a: "stats_open (exs_failing [1, 2]) zero_file ?hn exs_world = (0, h0, w1)"
      "stats_file_setup (exs_failing [1, 2]) h0 w1 = Inr (err, h, w2)" "sw_calls w2 = 2"
    using o [of "[2]"] by auto
  obtain h0' w1' err' h' w2' where
    b: "stats_open (exs_failing [1]) zero_file ?hn exs_world = (0, h0', w1')"
      "stats_file_setup (exs_failing [1]) h0' w1' = Inr (err', h', w2')" "sw_calls w2' = 2" "sf_addr h' = None"
    using o [of "[]"] by auto
  show ?thesis using r [OF a(1,2)] r [OF b(1,2)] a(3) b(3,4) by (simp add: exs_failing_def)
qed

lemma append_pending_mapped:
  assumes "page_ok e" and "file_ok w t i" and "ptr_in w i p"
  shows "\<exists>t' w'. append_pending e p t w = Inr (t', w') \<and> touches i w w' \<and> file_ok w' t' i"
proof (cases p)
  case (Some q)
  then obtain r where "ptr_rel w i q r" using assms(3) by auto
  from append_record_safe [OF assms(1,2) this] show ?thesis using Some by (auto simp: append_pending_def)
qed (use assms in \<open>simp add: append_pending_def\<close>)

lemma process_body_mapped:
  assumes e: "page_ok e" and s: "process_in i s" and t: "file_ok (ps_world s) (ps_temp s) i"
    and n: "ps_next s \<noteq> None"
  shows "\<exists>s'. process_body e sd off s = Inr s' \<and> process_in i s' \<and> file_ok (ps_world s') (ps_temp s') i \<and>
    ps_next s' = fst (get_next_record (ps_iter s)) \<and> ps_iter s' = snd (get_next_record (ps_iter s))"
proof -
  let ?w = "ps_world s"
  obtain pc pn rc rn where c: "ps_cur s = Some pc" "ps_next s = Some pn" "ptr_rel ?w i pc rc" "ptr_rel ?w i pn rn"
    using s n by (cases "ps_cur s"; cases "ps_next s") (auto simp: process_in_def)
  define s1 where "s1 = (if sr_roaming rc = 1 then s\<lparr>ps_roaming := Some pc\<rparr> else s\<lparr>ps_home := Some pc\<rparr>)"
  have s1: "ps_world s1 = ?w" "ps_iter s1 = ps_iter s" "file_ok ?w (ps_temp s1) i"
    "ptr_in ?w i (ps_home s1)" "ptr_in ?w i (ps_roaming s1)"
    using s c t by (auto simp: s1_def process_in_def)
  obtain t1 w1 where a1: "append_pending e (ps_home s1) (ps_temp s1) ?w = Inr (t1, w1)"
    "touches i ?w w1" "file_ok w1 t1 i" using append_pending_mapped [OF e s1(3,4)] by blast
  obtain t2 w2 where a2: "append_pending e (ps_roaming s1) t1 w1 = Inr (t2, w2)" "file_ok w2 t2 i"
    using append_pending_mapped [OF e a1(3) ptr_in_touches [OF s1(5) a1(2)]] by blast
  have "\<exists>s'. process_body e sd off s = Inr s' \<and> file_ok (ps_world s') (ps_temp s') i \<and>
      ps_next s' = fst (get_next_record (ps_iter s)) \<and> ps_iter s' = snd (get_next_record (ps_iter s))"
    unfolding process_body_def c(1,2) prod.case option.case ptr_rel_read [OF c(3)]
      ptr_rel_read [OF c(4)] bind_r_simps Let_def s1_def [symmetric]
    using a1(1) a2 s1 by (simp add: split_beta)
  moreover have "process_in i s'" if "process_body e sd off s = Inr s'" for s'
    using process_body_safe [OF e s n, of sd off] that by simp
  ultimately show ?thesis by blast
qed

text \<open>An iterator that steps over slots and whose end is not the position of a slot.\<close>

definition endless :: "stats_world \<Rightarrow> nat \<Rightarrow> stats_iter \<Rightarrow> bool" where
  "endless w k it \<longleftrightarrow> file_ok w (si_file it) k \<and> unat (sf_len (si_file it)) < 2 ^ 32 \<and>
     (\<exists>a < capacity (si_file it). si_it it = slot_off a) \<and> (\<forall>z. si_end it \<noteq> slot_off z)"

lemma get_next_record_endless:
  assumes "endless w k it"
  shows "fst (get_next_record it) \<noteq> None" and "endless w k (snd (get_next_record it))"
proof -
  obtain a where a: "a < capacity (si_file it)" "si_it it = slot_off a" "si_end it \<noteq> slot_off a"
    using assms by (auto simp: endless_def)
  then show "fst (get_next_record it) \<noteq> None" by (simp add: get_next_record_def)
  show "endless w k (snd (get_next_record it))"
  proof -
    have "get_next (si_file it) (slot_off a) = slot_off (Suc a mod capacity (si_file it))"
      using assms a(1) by (intro get_next_slot) (auto simp: endless_def)
    moreover have "Suc a mod capacity (si_file it) < capacity (si_file it)" using a(1) by simp
    moreover have "si_it it \<noteq> si_end it" using a by simp
    ultimately show ?thesis using assms a(2) by (auto simp: endless_def get_next_record_def)
  qed
qed

lemma process_loop_endless:
  assumes "page_ok e" and "process_in i s" and "file_ok (ps_world s) (ps_temp s) i"
    and "ps_next s \<noteq> None" and "endless v k (ps_iter s)"
  shows "process_loop e sd off s = None"
proof (rule ccontr)
  assume "process_loop e sd off s \<noteq> None"
  then obtain y where y: "process_loop e sd off s = Some y" by blast
  have "page_ok e \<longrightarrow> process_in i s \<longrightarrow> file_ok (ps_world s) (ps_temp s) i \<longrightarrow> ps_next s \<noteq> None \<longrightarrow>
    endless v k (ps_iter s) \<longrightarrow> False"
  proof (rule process_loop.raw_induct [where P = "\<lambda>e sd off s y. page_ok e \<longrightarrow> process_in i s \<longrightarrow>
      file_ok (ps_world s) (ps_temp s) i \<longrightarrow> ps_next s \<noteq> None \<longrightarrow> endless v k (ps_iter s) \<longrightarrow> False",
      OF _ y], intro impI, goal_cases)
    case (1 loop e sd off s y)
    obtain s1 where b: "process_body e sd off s = Inr s1" "process_in i s1"
      "file_ok (ps_world s1) (ps_temp s1) i" "ps_next s1 = fst (get_next_record (ps_iter s))"
      "ps_iter s1 = snd (get_next_record (ps_iter s))"
      using process_body_mapped [OF 1(3,4,5,6)] by blast
    have "loop e sd off s1 = Some y" using 1(2,6) b(1) by (simp del: not_None_eq)
    then show ?case
      using 1(1) [rule_format, OF _ 1(3) b(2,3)] get_next_record_endless [OF 1(7)] b(4,5) by metis
  qed
  then show False using assms by blast
qed

text \<open>
  The header check does not require that the offsets point at slots. In a file whose begin
  is a slot and whose end lies between two slots, the iteration of a history update steps past
  the end forever, although the file has passed the check.
\<close>

lemma misaligned_file_never_ends:
  assumes "page_ok e" and "file_ok w g k" and "file_ok w t i" and "k \<noteq> i"
    and "unat (sf_len g) < 2 ^ 32" and "header_valid (sw_data w k) (sf_len g)"
    and "unat (field32 hdr_begin (sw_data w k)) = slot_off b" and "b < capacity g"
    and "unat (field32 hdr_end (sw_data w k)) + record_size \<le> sf_last g"
    and "(unat (field32 hdr_end (sw_data w k)) - header_size) mod record_size \<noteq> 0"
  shows "\<exists>it. file_iter w g = Inr it \<and> process_file e it t None sd off w = None"
proof -
  let ?en = "unat (field32 8 (sw_data w k))" and ?a = "Suc b mod capacity g"
  define it where "it = \<lparr>si_file = g, si_begin = slot_off ?a, si_end = ?en + 48, si_it = slot_off ?a\<rparr>"
  have fi: "file_iter w g = Inr it"
    using assms(9) get_next_slot [OF assms(2,5,8)]
    by (simp add: file_iter_def get_iterator_begin_def get_iterator_end_def get_begin_ok [OF assms(2)]
        get_end_ok [OF assms(2)] it_def assms(7)) (simp add: get_next_def)
  have ac: "?a < capacity g" using assms(8) by simp
  have nz: "?en + 48 \<noteq> slot_off z" for z
  proof
    assume z: "?en + 48 = slot_off z"
    have "20 \<le> ?en" using assms(6) by (simp add: header_valid_def word_le_nat_alt)
    then have "?en - 20 = 48 * (z - 1)" using z by (cases z) (simp_all add: slot_off_def)
    then show False using assms(10) by simp
  qed
  have en: "endless w k it" using assms ac nz by (auto simp: endless_def it_def)
  have iin: "iter_in w i it"
    using assms(2,4) slot_off_bound(1) [OF assms(2,5) ac] by (auto simp: iter_in_def it_def)
  obtain p it1 where g1: "get_next_record it = (Some p, it1)" "endless w k it1"
    using get_next_record_endless [OF en] by (cases "get_next_record it") auto
  obtain q it2 where g2: "get_next_record it1 = (Some q, it2)" "endless w k it2"
    using get_next_record_endless [OF g1(2)] by (cases "get_next_record it1") auto
  note in1 = get_next_record_in [OF iin g1(1)]
  note in2 = get_next_record_in [OF in1(2) g2(1)]
  let ?s = "\<lparr>ps_iter = it2, ps_temp = t, ps_cur = Some p, ps_next = Some q, ps_home = None,
    ps_roaming = None, ps_world = w\<rparr>"
  have "process_in i ?s" using in1 in2 assms(3) by (simp add: process_in_def temp_in_def)
  then have "process_loop e sd off ?s = None"
    using process_loop_endless [OF assms(1), of i ?s w k sd off] assms(3) g2(2) by simp
  then have "process_file e it t None sd off w = None" by (simp add: process_file_def g1 g2)
  then show ?thesis using fi by blast
qed

definition exs_long :: stats_file where
  "exs_long = exs_file\<lparr>sf_fd := 1, sf_addr := Some 1, sf_len := 256, sf_last := 164\<rparr>"

definition exs_misaligned :: stats_world where
  "exs_misaligned = exs_world\<lparr>sw_fds := [(0, 0), (1, 1)], sw_next := 2,
     sw_data := (sw_data exs_world)(1 := poke 8 (bytes32 21) (poke 0 header_bytes (replicate 256 0)))\<rparr>"

lemma misaligned_file_never_ends_witness:
  "\<exists>it. file_iter exs_misaligned exs_long = Inr it \<and>
    process_file exs_env it exs_file None 0 1 exs_misaligned = None"
proof (rule misaligned_file_never_ends [OF exs_env_ok(1), where k = "Suc 0" and i = 0 and b = 0])
  have L: "20 \<le> length (replicate 256 (0 :: u8))" by simp
  note h = header_bytes_fields [OF L]
  let ?d = "sw_data exs_misaligned (Suc 0)"
  have d: "?d = poke 8 (bytes32 21) (poke 0 header_bytes (replicate 256 0))"
    by (simp add: exs_misaligned_def)
  have l: "length (poke 0 header_bytes (replicate 256 (0 :: u8))) = 256" by (simp add: length_poke)
  have f: "field32 k ?d = field32 k (poke 0 header_bytes (replicate 256 0))" if "k = 0 \<or> k = 4 \<or> k = 12 \<or> k = 16" for k
    unfolding d using that by (intro field32_poke_other) (auto simp: l)
  have e8: "field32 8 ?d = 21" unfolding d by (rule field32_poke_same) (simp add: l)
  have ld: "length ?d = 256" by (simp add: d l length_poke)
  show "file_ok exs_misaligned exs_long (Suc 0)"
    using ld by (simp add: file_ok_def exs_long_def exs_file_def exs_misaligned_def file_last_def)
  show "file_ok exs_misaligned exs_file 0"
    using exs_world_ok(2) by (simp add: file_ok_def exs_misaligned_def exs_file_def)
  show "unat (sf_len exs_long) < 2 ^ 32" by (simp add: exs_long_def)
  show "header_valid ?d (sf_len exs_long)"
    using f h by (simp add: header_valid_def e8 exs_long_def)
  show "unat (field32 4 ?d) = slot_off 0" using f h by (simp add: slot_off_def)
  show "0 < capacity exs_long" by (simp add: capacity_def exs_long_def)
  show "unat (field32 8 ?d) + 48 \<le> sf_last exs_long" by (simp add: e8 exs_long_def)
  show "(unat (field32 8 ?d) - 20) mod 48 \<noteq> 0" by (simp add: e8)
qed simp

lemma make_dir_frame:
  assumes "no_failure e" and "make_dir e d w = (err, w')"
  shows "err = 0" "sw_hash w' = sw_hash w" "sw_names w' = sw_names w" "sw_data w' = sw_data w"
    "sw_fds w' = sw_fds w" "sw_next w' = sw_next w"
  using assms by (auto simp: make_dir_def syscall_def no_failure_def split: if_splits)

text \<open>
  Registering a service opens its statistics with the content they had: with working system
  calls the registration succeeds, and the service has a mapped, well-formed file whose records
  are those of the stored data file (none, when there is no such file or its header is damaged),
  ready for updates.
\<close>

lemma stats_register_reads_back:
  assumes "page_ok e" and "no_failure e" and "world_wf w" and "sw_hash w s = None" and "se_alloc e"
    and "length (file_content w (path_of e s ''/data'')) < 2 ^ 32"
    and "aligned (setup_data e (file_content w (path_of e s ''/data''))) (hist_file e w (path_of e s ''/data''))"
  shows "\<exists>f k w'. stats_service_register e s w = Inr (0, w') \<and> sw_hash w' s = Some f \<and> world_wf w' \<and>
    file_ok w' f k \<and> aligned (sw_data w' k) f \<and> sw_names w' (path_of e s ''/data'') = Some k \<and>
    records (sw_data w' k) f = hist_records e w (path_of e s ''/data'') \<and>
    sf_history_name f = Some (path_of e s ''/history'') \<and> sf_account_period_offset f = 1"
proof -
  let ?dn = "path_of e s ''/data''"
  let ?put = "\<lambda>f v. v\<lparr>sw_hash := (sw_hash v)(s \<mapsto> f)\<rparr>"
  define f1 where "f1 = zero_file\<lparr>sf_history_name := Some (path_of e s ''/history''),
    sf_account_period_offset := 1\<rparr>"
  obtain derr w2 where md: "make_dir e (path_of e s []) (?put zero_file w) = (derr, w2)"
    by (cases "make_dir e (path_of e s []) (?put zero_file w)")
  note m = make_dir_frame [OF assms(2) md]
  have wf2: "world_wf (?put f1 w2)" using assms(3) m by (simp add: world_wf_def)
  obtain fd k w3 where o: "stats_open e f1 ?dn (?put f1 w2) = (0, f1\<lparr>sf_fd := fd, sf_name := Some ?dn\<rparr>, w3)"
    "opened (?put f1 w2) ?dn fd k w3"
    using stats_open_opened [OF assms(2) wf2] by blast
  define f2 where "f2 = f1\<lparr>sf_fd := fd, sf_name := Some ?dn\<rparr>"
  have fc: "file_content (?put f1 w2) ?dn = file_content w ?dn"
    using m by (simp add: file_content_def split: option.splits)
  have w3: "sw_data (?put f2 w3) k = file_content w ?dn" "map_of (sw_fds (?put f2 w3)) (sf_fd f2) = Some k"
    "sw_names (?put f2 w3) ?dn = Some k" "world_wf w3"
    using o(2) fc by (simp_all add: opened_def f2_def)
  have wf3: "world_wf (?put f2 w3)" using w3(4) by (simp add: world_wf_def)
  have f2: "sf_addr f2 = None" "sf_len f2 = 0" by (simp_all add: f2_def f1_def zero_file_def)
  let ?n = "setup_size e (length (file_content w ?dn))"
  obtain w4 where s4: "stats_file_setup e f2 (?put f2 w3) = Inr (0, setup_file e w4 k ?n f2, w4)"
    and u4: "touches k (?put f2 w3) w4" and ok4: "file_ok w4 (setup_file e w4 k ?n f2) k"
    and d4: "sw_data w4 k = setup_data e (file_content w ?dn)"
    using stats_file_setup_succeeds [OF assms(1,2) w3(2) f2] assms(6) 
    unfolding w3(1) by blast
  define f where "f = setup_file e w4 k ?n f2"
  define w' where "w' = ?put f w4"
  have len: "sf_len f = sf_len (hist_file e w ?dn)" by (simp add: f_def hist_file_def)
  have run: "stats_service_register e s w = Inr (0, w')"
    using assms(4,5) md m(1) o(1) s4
    by (simp add: stats_service_register_def f1_def [symmetric] f2_def [symmetric] w'_def f_def)
  have hist: "sf_history_name f = Some (path_of e s ''/history'')" "sf_account_period_offset f = 1"
    by (simp_all add: f_def setup_file_def f2_def f1_def)
  have "world_wf w'" using touches_wf [OF u4 wf3] by (simp add: w'_def world_wf_def)
  moreover have "file_ok w' f k" using ok4 by (simp add: w'_def f_def file_ok_def)
  moreover have "aligned (sw_data w' k) f" "records (sw_data w' k) f = hist_records e w ?dn"
    using assms(7) aligned_len [OF len] records_len [OF len] by (simp_all add: w'_def d4 hist_records_def)
  moreover have "sw_names w' ?dn = Some k" using touchesD(2) [OF u4] w3(3) by (simp add: w'_def)
  moreover have "sw_hash w' s = Some f" by (simp add: w'_def)
  ultimately show ?thesis using run hist by blast
qed

lemma stats_register_reads_back_witness:
  "\<exists>f k w'. stats_service_register exs_env (Suc 0) exs_full = Inr (0, w') \<and> sw_hash w' (Suc 0) = Some f \<and>
    world_wf w' \<and> file_ok w' f k \<and> records (sw_data w' k) f = [exs_record 900000]"
proof -
  have p: "path_of exs_env (Suc 0) ''/data'' = ''/var/wifi/data''" by (simp add: path_of_def exs_env_def)
  have c: "file_content exs_full ''/var/wifi/data'' = exs_content 900000"
    by (simp add: file_content_def exs_full_def)
  have l: "sf_len (hist_file exs_env exs_full ''/var/wifi/data'') = sf_len exs_file"
    by (simp add: hist_file_def c exs_content_ok exs_setup_empty exs_file_def)
  have r: "hist_records exs_env exs_full ''/var/wifi/data'' = [exs_record 900000]"
    using records_len [OF l] by (simp add: hist_records_def c exs_content_ok)
  have a: "aligned (exs_content 900000) (hist_file exs_env exs_full ''/var/wifi/data'')"
    using aligned_len [OF l] by (simp add: exs_content_ok)
  have "sw_hash exs_full (Suc 0) = None" "se_alloc exs_env" by (simp_all add: exs_full_def exs_env_def)
  from stats_register_reads_back [OF exs_env_ok(1,2) exs_full_ok(1) this] a show ?thesis
    by (auto simp: p c exs_content_ok r)
qed

end
