(* ===== verification/Gateway.thy ===== *)
theory Gateway
  imports Prelude
begin

text \<open>
  Gateways and the default route, \<^verbatim>\<open>src/connection.c\<close>: a table from services to gateway
  objects, the objects with their configurations on an explicit heap (so that freed memory is
  visible), and the calls to the routing and service functions as a trace.
\<close>

section \<open>State\<close>

type_synonym svc = nat

datatype connman_ipconfig_type = TYPE_ALL | TYPE_IPV4 | TYPE_IPV6

record gateway_config =
  gc_active :: bool
  gc_gateway :: string
  gc_vpn :: bool
  gc_vpn_ip :: "string option"
  gc_vpn_phy_index :: int
  gc_vpn_phy_ip :: "string option"

record gateway_data =
  gd_index :: int
  gd_service :: svc
  gd_order :: u32
  gd_ipv4_gateway :: "addr option"
  gd_ipv6_gateway :: "addr option"

text \<open>The calls to \<^verbatim>\<open>src/inet.c\<close> and \<^verbatim>\<open>src/service.c\<close>; a missing string is a null pointer.\<close>

datatype gw_call =
    Add_host_route int "string option" "string option"
  | Del_host_route int "string option"
  | Add_ipv6_host_route int "string option" "string option"
  | Del_ipv6_host_route int "string option"
  | Set_gateway_address int "string option"
  | Clear_gateway_address int "string option"
  | Set_ipv6_gateway_address int "string option"
  | Clear_ipv6_gateway_address int "string option"
  | Set_gateway_interface int
  | Clear_gateway_interface int
  | Set_ipv6_gateway_interface int
  | Clear_ipv6_gateway_interface int
  | Indicate_default svc
  | Indicate_ready svc connman_ipconfig_type
  | Nameserver_add_routes svc string
  | Nameserver_del_routes svc

text \<open>
  The table (none before \<open>init\<close> and after \<open>cleanup\<close>), the heap, the next address, the references
  that the table took on services, and the calls so far.
\<close>

record gw_world =
  gateway_hash :: "(svc \<times> addr) list option"
  gw_datas :: "addr \<rightharpoonup> gateway_data"
  gw_configs :: "addr \<rightharpoonup> gateway_config"
  gw_next :: addr
  gw_refs :: "svc \<Rightarrow> int"
  gw_trace :: "gw_call list"

text \<open>
  What belongs to other components: the order in which the hash table is traversed, whether an
  allocation succeeds, the index, the order and the type of a service, the results of the calls, and
  whether \<^verbatim>\<open>service.c\<close>, when a service becomes ready, asks for an update of the gateways before it returns.
  What may change over time depends on the number of calls made so far.
\<close>

record gw_env =
  ge_iter :: "(svc \<times> addr) list \<Rightarrow> (svc \<times> addr) list"
  ge_mem_data :: "nat \<Rightarrow> bool"
  ge_mem_config :: "nat \<Rightarrow> bool"
  ge_index :: "nat \<Rightarrow> svc \<Rightarrow> int"
  ge_order :: "nat \<Rightarrow> svc \<Rightarrow> u32"
  ge_is_vpn :: "svc \<Rightarrow> bool"
  ge_result :: "nat \<Rightarrow> gw_call \<Rightarrow> int"
  ge_ready_updates :: "nat \<Rightarrow> svc \<Rightarrow> connman_ipconfig_type \<Rightarrow> bool"

abbreviation (input) gw_now :: "gw_world \<Rightarrow> nat" where "gw_now w \<equiv> length (gw_trace w)"

definition gw_tell :: "gw_call \<Rightarrow> gw_world \<Rightarrow> gw_world" where
  "gw_tell c w = w\<lparr>gw_trace := gw_trace w @ [c]\<rparr>"

definition gw_ask :: "gw_env \<Rightarrow> gw_call \<Rightarrow> gw_world \<Rightarrow> int \<times> gw_world" where
  "gw_ask env c w = (ge_result env (gw_now w) c, gw_tell c w)"

definition table_of :: "gw_world \<Rightarrow> (svc \<times> addr) list result" where
  "table_of w = (case gateway_hash w of None \<Rightarrow> Inl NullDeref | Some h \<Rightarrow> Inr h)"

definition data_at :: "gw_world \<Rightarrow> addr \<Rightarrow> gateway_data result" where
  "data_at w p = (case gw_datas w p of None \<Rightarrow> Inl UseAfterFree | Some d \<Rightarrow> Inr d)"

definition config_at :: "gw_world \<Rightarrow> addr \<Rightarrow> gateway_config result" where
  "config_at w a = (case gw_configs w a of None \<Rightarrow> Inl UseAfterFree | Some c \<Rightarrow> Inr c)"

definition deref_config :: "gw_world \<Rightarrow> addr option \<Rightarrow> gateway_config result" where
  "deref_config w g = (case g of None \<Rightarrow> Inl NullDeref | Some a \<Rightarrow> config_at w a)"

text \<open>The configuration behind a pointer that the code tests first, when the family is asked for.\<close>

definition family_config :: "gw_world \<Rightarrow> bool \<Rightarrow> addr option \<Rightarrow> gateway_config option result" where
  "family_config w wanted g =
     (if \<not> wanted then Inr None
      else case g of None \<Rightarrow> Inr None | Some a \<Rightarrow> bind_r (config_at w a) (\<lambda>c. Inr (Some c)))"

definition set_config :: "addr option \<Rightarrow> (gateway_config \<Rightarrow> gateway_config) \<Rightarrow> gw_world \<Rightarrow> gw_world" where
  "set_config g f w =
     (case g of None \<Rightarrow> w
      | Some a \<Rightarrow> w\<lparr>gw_configs := (gw_configs w)(a := map_option f (gw_configs w a))\<rparr>)"

definition do_ipv4 :: "connman_ipconfig_type \<Rightarrow> bool" where "do_ipv4 type \<longleftrightarrow> type \<noteq> TYPE_IPV6"
definition do_ipv6 :: "connman_ipconfig_type \<Rightarrow> bool" where "do_ipv6 type \<longleftrightarrow> type \<noteq> TYPE_IPV4"

definition is_vpn :: "gateway_config option \<Rightarrow> bool" where
  "is_vpn c = (case c of None \<Rightarrow> False | Some c \<Rightarrow> gc_vpn c)"

definition has_gateway :: "string \<Rightarrow> gateway_config option \<Rightarrow> bool" where
  "has_gateway s c = (case c of None \<Rightarrow> False | Some c \<Rightarrow> gc_gateway c = s)"

abbreviation any4 :: string where "any4 \<equiv> ''0.0.0.0''"
abbreviation any6 :: string where "any6 \<equiv> ''::''"

section \<open>Searching the table\<close>

fun gateway_scan :: "gw_world \<Rightarrow> int \<Rightarrow> string \<Rightarrow> (svc \<times> addr) list \<Rightarrow> addr option result" where
  "gateway_scan w index gateway [] = Inr None"
| "gateway_scan w index gateway ((s, p) # es) =
     bind_r (data_at w p) (\<lambda>data.
     bind_r (family_config w True (gd_ipv4_gateway data)) (\<lambda>c4.
     if gd_index data = index \<and> has_gateway gateway c4 then Inr (gd_ipv4_gateway data)
     else bind_r (family_config w True (gd_ipv6_gateway data)) (\<lambda>c6.
     if gd_index data = index \<and> has_gateway gateway c6 then Inr (gd_ipv6_gateway data)
     else gateway_scan w index gateway es)))"

definition find_gateway :: "gw_env \<Rightarrow> int \<Rightarrow> string option \<Rightarrow> gw_world \<Rightarrow> addr option result" where
  "find_gateway env index gateway w =
     (case gateway of
        None \<Rightarrow> Inr None
      | Some g \<Rightarrow> bind_r (table_of w) (\<lambda>h. gateway_scan w index g (ge_iter env h)))"

fun default_scan :: "gw_world \<Rightarrow> (svc \<times> addr) list \<Rightarrow> addr option \<Rightarrow> u32 \<Rightarrow> addr option result" where
  "default_scan w [] found order = Inr found"
| "default_scan w ((s, p) # es) found order =
     bind_r (data_at w p) (\<lambda>data.
     if found = None \<or> gd_order data > order then default_scan w es (Some p) (gd_order data)
     else default_scan w es found order)"

definition find_default_gateway :: "gw_env \<Rightarrow> gw_world \<Rightarrow> addr option result" where
  "find_default_gateway env w = bind_r (table_of w) (\<lambda>h. default_scan w (ge_iter env h) None 0)"

definition config_active :: "gateway_config option \<Rightarrow> bool" where
  "config_active c = (case c of None \<Rightarrow> False | Some c \<Rightarrow> gc_active c)"

fun active_scan :: "gw_world \<Rightarrow> (svc \<times> addr) list \<Rightarrow> addr option result" where
  "active_scan w [] = Inr None"
| "active_scan w ((s, p) # es) =
     bind_r (data_at w p) (\<lambda>data.
     bind_r (family_config w True (gd_ipv4_gateway data)) (\<lambda>c4.
     if config_active c4 then Inr (Some p)
     else bind_r (family_config w True (gd_ipv6_gateway data)) (\<lambda>c6.
     if config_active c6 then Inr (Some p) else active_scan w es)))"

definition find_active_gateway :: "gw_env \<Rightarrow> gw_world \<Rightarrow> addr option result" where
  "find_active_gateway env w = bind_r (table_of w) (\<lambda>h. active_scan w (ge_iter env h))"

fun order_scan :: "gw_env \<Rightarrow> (svc \<times> addr) list \<Rightarrow> gw_world \<Rightarrow> gw_world result" where
  "order_scan env [] w = Inr w"
| "order_scan env ((s, p) # es) w =
     bind_r (data_at w p) (\<lambda>data.
     order_scan env es (w\<lparr>gw_datas := (gw_datas w)(p \<mapsto> data\<lparr>gd_order := ge_order env (gw_now w) (gd_service data)\<rparr>)\<rparr>))"

definition update_order :: "gw_env \<Rightarrow> gw_world \<Rightarrow> gw_world result" where
  "update_order env w = bind_r (table_of w) (\<lambda>h. order_scan env (ge_iter env h) w)"

section \<open>Routes of a gateway\<close>

definition del_routes4 :: "gw_env \<Rightarrow> gateway_data \<Rightarrow> gateway_config \<Rightarrow> gw_world \<Rightarrow> int \<times> gw_world" where
  "del_routes4 env data c w =
     (if gc_vpn c then
        gw_ask env (Clear_gateway_address (gd_index data) (gc_vpn_ip c))
          (if gc_vpn_phy_index c \<ge> 0 then gw_tell (Del_host_route (gc_vpn_phy_index c) (Some (gc_gateway c))) w else w)
      else if gc_gateway c = any4 then gw_ask env (Clear_gateway_interface (gd_index data)) w
      else gw_ask env (Clear_gateway_address (gd_index data) (Some (gc_gateway c)))
             (gw_tell (Del_host_route (gd_index data) (Some (gc_gateway c))) w))"

definition del_routes6 :: "gw_env \<Rightarrow> gateway_data \<Rightarrow> gateway_config \<Rightarrow> gw_world \<Rightarrow> int \<times> gw_world" where
  "del_routes6 env data c w =
     (if gc_vpn c then
        gw_ask env (Clear_ipv6_gateway_address (gd_index data) (gc_vpn_ip c))
          (if gc_vpn_phy_index c \<ge> 0 then gw_tell (Del_host_route (gc_vpn_phy_index c) (Some (gc_gateway c))) w else w)
      else if gc_gateway c = any6 then gw_ask env (Clear_ipv6_gateway_interface (gd_index data)) w
      else gw_ask env (Clear_ipv6_gateway_address (gd_index data) (Some (gc_gateway c)))
             (gw_tell (Del_ipv6_host_route (gd_index data) (Some (gc_gateway c))) w))"

definition del_routes :: "gw_env \<Rightarrow> addr \<Rightarrow> connman_ipconfig_type \<Rightarrow> gw_world \<Rightarrow> (int \<times> gw_world) result" where
  "del_routes env p type w =
     bind_r (data_at w p) (\<lambda>data.
     bind_r (family_config w (do_ipv4 type) (gd_ipv4_gateway data)) (\<lambda>c4.
     let (status4, w1) = (case c4 of None \<Rightarrow> (0, w) | Some c \<Rightarrow> del_routes4 env data c w) in
     bind_r (family_config w1 (do_ipv6 type) (gd_ipv6_gateway data)) (\<lambda>c6.
     let (status6, w2) = (case c6 of None \<Rightarrow> (0, w1) | Some c \<Rightarrow> del_routes6 env data c w1) in
     Inr (if status4 < 0 then status4 else status6, w2))))"

definition disable_gateway :: "gw_env \<Rightarrow> addr \<Rightarrow> connman_ipconfig_type \<Rightarrow> gw_world \<Rightarrow> (int \<times> gw_world) result" where
  "disable_gateway env p type w =
     bind_r (data_at w p) (\<lambda>data.
     bind_r (case type of
         TYPE_IPV4 \<Rightarrow> bind_r (family_config w True (gd_ipv4_gateway data)) (\<lambda>c. Inr (config_active c))
       | TYPE_IPV6 \<Rightarrow> bind_r (family_config w True (gd_ipv6_gateway data)) (\<lambda>c. Inr (config_active c))
       | TYPE_ALL \<Rightarrow> Inr True) (\<lambda>active.
     if active then del_routes env p type w else Inr (0, w)))"

definition set_default_gateway :: "gw_env \<Rightarrow> addr \<Rightarrow> connman_ipconfig_type \<Rightarrow> gw_world \<Rightarrow> gw_world result" where
  "set_default_gateway env p type w =
     bind_r (data_at w p) (\<lambda>data.
     bind_r (family_config w (do_ipv4 type) (gd_ipv4_gateway data)) (\<lambda>c4.
     if is_vpn c4 then
       (let c = the c4;
            w1 = gw_tell (Set_gateway_address (gd_index data) (gc_vpn_ip c)) w;
            w2 = gw_tell (Add_host_route (gc_vpn_phy_index c) (gc_vpn_ip c) (gc_vpn_phy_ip c)) w1;
            w3 = set_config (gd_ipv4_gateway data) (\<lambda>c. c\<lparr>gc_active := True\<rparr>) w2
        in Inr (gw_tell (Indicate_default (gd_service data)) w3))
     else bind_r (family_config w (do_ipv6 type) (gd_ipv6_gateway data)) (\<lambda>c6.
     if is_vpn c6 then
       (let c = the c6;
            w1 = gw_tell (Set_ipv6_gateway_address (gd_index data) (gc_vpn_ip c)) w;
            w2 = gw_tell (Add_ipv6_host_route (gc_vpn_phy_index c) (gc_vpn_ip c) (gc_vpn_phy_ip c)) w1;
            w3 = set_config (gd_ipv6_gateway data) (\<lambda>c. c\<lparr>gc_active := True\<rparr>) w2
        in Inr (gw_tell (Indicate_default (gd_service data)) w3))
     else
       (let index = ge_index env (gw_now w) (gd_service data) in
        if has_gateway any4 c4 then
          (let (r, w1) = gw_ask env (Set_gateway_interface index) w
           in Inr (if r < 0 then w1 else gw_tell (Indicate_default (gd_service data)) w1))
        else if has_gateway any6 c6 then
          (let (r, w1) = gw_ask env (Set_ipv6_gateway_interface index) w
           in Inr (if r < 0 then w1 else gw_tell (Indicate_default (gd_service data)) w1))
        else
          (let (status6, w1) = (case c6 of None \<Rightarrow> (0, w)
                 | Some c \<Rightarrow> gw_ask env (Set_ipv6_gateway_address index (Some (gc_gateway c))) w);
               (status4, w2) = (case c4 of None \<Rightarrow> (0, w1)
                 | Some c \<Rightarrow> gw_ask env (Set_gateway_address index (Some (gc_gateway c))) w1)
           in Inr (if status4 < 0 \<or> status6 < 0 then w2 else gw_tell (Indicate_default (gd_service data)) w2))))))"

definition unset_default_gateway :: "gw_env \<Rightarrow> addr \<Rightarrow> connman_ipconfig_type \<Rightarrow> gw_world \<Rightarrow> gw_world result" where
  "unset_default_gateway env p type w =
     bind_r (data_at w p) (\<lambda>data.
     bind_r (family_config w (do_ipv4 type) (gd_ipv4_gateway data)) (\<lambda>c4.
     if is_vpn c4 then
       (let c = the c4;
            w1 = gw_tell (Del_host_route (gd_index data) (gc_vpn_ip c)) w;
            w2 = gw_tell (Clear_gateway_address (gd_index data) (gc_vpn_ip c)) w1
        in Inr (set_config (gd_ipv4_gateway data) (\<lambda>c. c\<lparr>gc_active := False\<rparr>) w2))
     else bind_r (family_config w (do_ipv6 type) (gd_ipv6_gateway data)) (\<lambda>c6.
     if is_vpn c6 then
       (let c = the c6;
            w1 = gw_tell (Del_ipv6_host_route (gd_index data) (gc_vpn_ip c)) w;
            w2 = gw_tell (Clear_ipv6_gateway_address (gd_index data) (gc_vpn_ip c)) w1
        in Inr (set_config (gd_ipv6_gateway data) (\<lambda>c. c\<lparr>gc_active := False\<rparr>) w2))
     else
       (let index = ge_index env (gw_now w) (gd_service data) in
        if has_gateway any4 c4 then Inr (gw_tell (Clear_gateway_interface index) w)
        else if has_gateway any6 c6 then Inr (gw_tell (Clear_ipv6_gateway_interface index) w)
        else
          (let w1 = (case c6 of None \<Rightarrow> w
                 | Some c \<Rightarrow> gw_tell (Clear_ipv6_gateway_address index (Some (gc_gateway c))) w);
               w2 = (case c4 of None \<Rightarrow> w1
                 | Some c \<Rightarrow> gw_tell (Clear_gateway_address index (Some (gc_gateway c))) w1)
           in Inr w2)))))"

section \<open>Changing the table\<close>

definition free_config :: "addr option \<Rightarrow> gw_world \<Rightarrow> gw_world result" where
  "free_config g w =
     (case g of None \<Rightarrow> Inr w
      | Some a \<Rightarrow> bind_r (config_at w a) (\<lambda>c. Inr (w\<lparr>gw_configs := (gw_configs w)(a := None)\<rparr>)))"

definition remove_gateway :: "addr \<Rightarrow> gw_world \<Rightarrow> gw_world result" where
  "remove_gateway p w =
     bind_r (data_at w p) (\<lambda>data.
     bind_r (free_config (gd_ipv4_gateway data) w) (\<lambda>w1.
     bind_r (free_config (gd_ipv6_gateway data) w1) (\<lambda>w2.
     Inr (w2\<lparr>gw_datas := (gw_datas w2)(p := None)\<rparr>))))"

text \<open>The hash table of GLib frees the value that it drops, after the table has been changed.\<close>

definition gateway_hash_replace :: "svc \<Rightarrow> addr \<Rightarrow> gw_world \<Rightarrow> gw_world result" where
  "gateway_hash_replace s p w =
     bind_r (table_of w) (\<lambda>h.
     case map_of h s of
       None \<Rightarrow> Inr (w\<lparr>gateway_hash := Some (h @ [(s, p)])\<rparr>)
     | Some old \<Rightarrow> remove_gateway old
         (w\<lparr>gateway_hash := Some (map (\<lambda>(k, v). (k, if k = s then p else v)) h)\<rparr>))"

definition gateway_hash_remove :: "svc \<Rightarrow> gw_world \<Rightarrow> gw_world result" where
  "gateway_hash_remove s w =
     bind_r (table_of w) (\<lambda>h.
     case map_of h s of
       None \<Rightarrow> Inr w
     | Some old \<Rightarrow> remove_gateway old (w\<lparr>gateway_hash := Some (filter (\<lambda>e. fst e \<noteq> s) h)\<rparr>))"

definition lookup_gateway :: "svc \<Rightarrow> gw_world \<Rightarrow> addr option result" where
  "lookup_gateway s w = bind_r (table_of w) (\<lambda>h. Inr (map_of h s))"

definition new_config :: "string \<Rightarrow> gateway_config" where
  "new_config gateway = \<lparr>gc_active = False, gc_gateway = gateway, gc_vpn = False, gc_vpn_ip = None,
     gc_vpn_phy_index = - 1, gc_vpn_phy_ip = None\<rparr>"

text \<open>The other family of an old object moves to the new one; the old one forgets it.\<close>

definition take_over :: "gw_env \<Rightarrow> connman_ipconfig_type \<Rightarrow> addr \<Rightarrow> gateway_data \<Rightarrow> gw_world \<Rightarrow> (gateway_data \<times> gw_world) result" where
  "take_over env type old data w =
     bind_r (disable_gateway env old type w) (\<lambda>(err, w1).
     bind_r (data_at w1 old) (\<lambda>o'.
     if type = TYPE_IPV4 then
       Inr (data\<lparr>gd_ipv6_gateway := gd_ipv6_gateway o'\<rparr>,
            w1\<lparr>gw_datas := (gw_datas w1)(old \<mapsto> o'\<lparr>gd_ipv6_gateway := None\<rparr>)\<rparr>)
     else if type = TYPE_IPV6 then
       Inr (data\<lparr>gd_ipv4_gateway := gd_ipv4_gateway o'\<rparr>,
            w1\<lparr>gw_datas := (gw_datas w1)(old \<mapsto> o'\<lparr>gd_ipv4_gateway := None\<rparr>)\<rparr>)
     else Inr (data, w1)))"

definition add_gateway ::
  "gw_env \<Rightarrow> svc \<Rightarrow> int \<Rightarrow> string option \<Rightarrow> connman_ipconfig_type \<Rightarrow> gw_world \<Rightarrow> (addr option \<times> gw_world) result" where
  "add_gateway env service index gateway type w =
     (case gateway of
        None \<Rightarrow> Inr (None, w)
      | Some g \<Rightarrow>
          if g = [] then Inr (None, w)
          else if \<not> ge_mem_data env (gw_now w) then Inr (None, w)
          else if \<not> ge_mem_config env (gw_now w) then Inr (None, w)
          else if type = TYPE_ALL then Inr (None, w)
          else
            (let p = gw_next w; a = Suc p;
                 data = \<lparr>gd_index = index, gd_service = service, gd_order = ge_order env (gw_now w) service,
                   gd_ipv4_gateway = (if type = TYPE_IPV4 then Some a else None),
                   gd_ipv6_gateway = (if type = TYPE_IPV6 then Some a else None)\<rparr>;
                 w1 = w\<lparr>gw_next := Suc a, gw_configs := (gw_configs w)(a \<mapsto> new_config g)\<rparr> in
             bind_r (lookup_gateway service w1) (\<lambda>old.
             bind_r (case old of None \<Rightarrow> Inr (data, w1) | Some q \<Rightarrow> take_over env type q data w1) (\<lambda>(data', w2).
             bind_r (gateway_hash_replace service p
                 (w2\<lparr>gw_datas := (gw_datas w2)(p \<mapsto> data'), gw_refs := (gw_refs w2)(service := gw_refs w2 service + 1)\<rparr>)) (\<lambda>w3.
             Inr (Some p, w3))))))"

section \<open>Events from the kernel\<close>

definition connection_newgateway :: "gw_env \<Rightarrow> int \<Rightarrow> string option \<Rightarrow> gw_world \<Rightarrow> gw_world result" where
  "connection_newgateway env index gateway w =
     bind_r (find_gateway env index gateway w) (\<lambda>config.
     Inr (set_config config (\<lambda>c. c\<lparr>gc_active := True\<rparr>) w))"

definition connection_delgateway :: "gw_env \<Rightarrow> int \<Rightarrow> string option \<Rightarrow> gw_world \<Rightarrow> gw_world result" where
  "connection_delgateway env index gateway w =
     bind_r (find_gateway env index gateway w) (\<lambda>config.
     let w1 = set_config config (\<lambda>c. c\<lparr>gc_active := False\<rparr>) w in
     bind_r (find_default_gateway env w1) (\<lambda>data.
     case data of None \<Rightarrow> Inr w1 | Some p \<Rightarrow> set_default_gateway env p TYPE_ALL w1))"

section \<open>The interface\<close>

definition gateway_activate :: "svc \<Rightarrow> connman_ipconfig_type \<Rightarrow> gw_world \<Rightarrow> gw_world result" where
  "gateway_activate service type w =
     bind_r (lookup_gateway service w) (\<lambda>data.
     case data of
       None \<Rightarrow> Inr w
     | Some p \<Rightarrow> bind_r (data_at w p) (\<lambda>d.
         case type of
           TYPE_ALL \<Rightarrow> Inr w
         | TYPE_IPV4 \<Rightarrow> bind_r (deref_config w (gd_ipv4_gateway d)) (\<lambda>c.
             Inr (set_config (gd_ipv4_gateway d) (\<lambda>c. c\<lparr>gc_active := True\<rparr>) w))
         | TYPE_IPV6 \<Rightarrow> bind_r (deref_config w (gd_ipv6_gateway d)) (\<lambda>c.
             Inr (set_config (gd_ipv6_gateway d) (\<lambda>c. c\<lparr>gc_active := True\<rparr>) w))))"

definition switch_default :: "gw_env \<Rightarrow> addr \<Rightarrow> addr option \<Rightarrow> gw_world \<Rightarrow> gw_world result" where
  "switch_default env active dflt w =
     bind_r (data_at w active) (\<lambda>a.
     bind_r (if gd_ipv4_gateway a \<noteq> None then unset_default_gateway env active TYPE_IPV4 w else Inr w) (\<lambda>w1.
     bind_r (if gd_ipv6_gateway a \<noteq> None then unset_default_gateway env active TYPE_IPV6 w1 else Inr w1) (\<lambda>w2.
     case dflt of
       None \<Rightarrow> Inr w2
     | Some p \<Rightarrow>
         bind_r (data_at w2 p) (\<lambda>d.
         bind_r (if gd_ipv4_gateway d \<noteq> None then set_default_gateway env p TYPE_IPV4 w2 else Inr w2) (\<lambda>w3.
         if gd_ipv6_gateway d \<noteq> None then set_default_gateway env p TYPE_IPV6 w3 else Inr w3)))))"

definition update_gateway :: "gw_env \<Rightarrow> gw_world \<Rightarrow> (bool \<times> gw_world) result" where
  "update_gateway env w =
     (if gateway_hash w = None then Inr (False, w)
      else bind_r (find_active_gateway env w) (\<lambda>active_gateway.
        bind_r (update_order env w) (\<lambda>w1.
        bind_r (find_default_gateway env w1) (\<lambda>default_gateway.
        case active_gateway of
          None \<Rightarrow> Inr (False, w1)
        | Some active \<Rightarrow>
            if active_gateway = default_gateway then Inr (False, w1)
            else bind_r (switch_default env active default_gateway w1) (\<lambda>w2. Inr (True, w2))))))"

text \<open>When a service becomes ready, \<^verbatim>\<open>service.c\<close> may ask for an update before it returns.\<close>

definition indicate_ready :: "gw_env \<Rightarrow> svc \<Rightarrow> connman_ipconfig_type \<Rightarrow> gw_world \<Rightarrow> gw_world result" where
  "indicate_ready env service type w =
     (let w1 = gw_tell (Indicate_ready service type) w in
      if ge_ready_updates env (gw_now w) service type
      then bind_r (update_gateway env w1) (\<lambda>(updated, w2). Inr w2) else Inr w1)"

text \<open>The first half of \<open>gateway_add\<close>: host route to the gateway, name server routes, the new state.\<close>

definition announce_gateway :: "gw_env \<Rightarrow> svc \<Rightarrow> int \<Rightarrow> connman_ipconfig_type \<Rightarrow> addr \<Rightarrow> gw_world \<Rightarrow> gw_world result" where
  "announce_gateway env service index type p w =
     bind_r (data_at w p) (\<lambda>d.
     bind_r (family_config w (type = TYPE_IPV6) (gd_ipv6_gateway d)) (\<lambda>c6.
     let w1 = (case c6 of None \<Rightarrow> w | Some c \<Rightarrow>
           if gc_gateway c \<noteq> any6 then gw_tell (Add_ipv6_host_route index (Some (gc_gateway c)) None) w else w) in
     bind_r (family_config w1 (type = TYPE_IPV4) (gd_ipv4_gateway d)) (\<lambda>c4.
     let w2 = (case c4 of None \<Rightarrow> w1 | Some c \<Rightarrow>
           if gc_gateway c \<noteq> any4 then gw_tell (Add_host_route index (Some (gc_gateway c)) None) w1 else w1) in
     bind_r (case c4 of None \<Rightarrow> Inr w2 | Some c \<Rightarrow>
         indicate_ready env service TYPE_IPV4 (gw_tell (Nameserver_add_routes service (gc_gateway c)) w2)) (\<lambda>w3.
     case c6 of None \<Rightarrow> Inr w3 | Some c \<Rightarrow>
         indicate_ready env service TYPE_IPV6 (gw_tell (Nameserver_add_routes service (gc_gateway c)) w3)))))"

text \<open>
  The tunnel of a VPN: it runs over the gateway that was active before, through a pointer that was
  taken before the table was changed. One definition per family.
\<close>

definition vpn_setup4 :: "string \<Rightarrow> string option \<Rightarrow> addr option \<Rightarrow> addr option \<Rightarrow> gw_world \<Rightarrow> gw_world result" where
  "vpn_setup4 gateway peer active g w =
     (let w1 = set_config g (\<lambda>c. c\<lparr>gc_vpn := True, gc_vpn_ip := Some (case peer of Some s \<Rightarrow> s | None \<Rightarrow> gateway)\<rparr>) w in
      case active of
        None \<Rightarrow> Inr w1
      | Some q \<Rightarrow> bind_r (data_at w1 q) (\<lambda>d. bind_r (deref_config w1 (gd_ipv4_gateway d)) (\<lambda>c.
          Inr (set_config g (\<lambda>n. n\<lparr>gc_vpn_phy_ip := (if gc_gateway c \<noteq> any4 then Some (gc_gateway c) else gc_vpn_phy_ip n),
            gc_vpn_phy_index := gd_index d\<rparr>) w1))))"

definition vpn_setup6 :: "string \<Rightarrow> string option \<Rightarrow> addr option \<Rightarrow> addr option \<Rightarrow> gw_world \<Rightarrow> gw_world result" where
  "vpn_setup6 gateway peer active g w =
     (let w1 = set_config g (\<lambda>c. c\<lparr>gc_vpn := True, gc_vpn_ip := Some (case peer of Some s \<Rightarrow> s | None \<Rightarrow> gateway)\<rparr>) w in
      case active of
        None \<Rightarrow> Inr w1
      | Some q \<Rightarrow> bind_r (data_at w1 q) (\<lambda>d. bind_r (deref_config w1 (gd_ipv6_gateway d)) (\<lambda>c.
          Inr (set_config g (\<lambda>n. n\<lparr>gc_vpn_phy_ip := (if gc_gateway c \<noteq> any6 then Some (gc_gateway c) else gc_vpn_phy_ip n),
            gc_vpn_phy_index := gd_index d\<rparr>) w1))))"

definition vpn_setup ::
  "gw_env \<Rightarrow> svc \<Rightarrow> string \<Rightarrow> connman_ipconfig_type \<Rightarrow> string option \<Rightarrow> addr option \<Rightarrow> addr \<Rightarrow> gw_world \<Rightarrow> gw_world result" where
  "vpn_setup env service gateway type peer active p w =
     bind_r (data_at w p) (\<lambda>d.
     if ge_is_vpn env service then
       (if type = TYPE_IPV4 \<and> gd_ipv4_gateway d \<noteq> None then vpn_setup4 gateway peer active (gd_ipv4_gateway d) w
        else if type = TYPE_IPV6 \<and> gd_ipv6_gateway d \<noteq> None then vpn_setup6 gateway peer active (gd_ipv6_gateway d) w
        else Inr w)
     else
       (let w1 = (if type = TYPE_IPV4 then set_config (gd_ipv4_gateway d) (\<lambda>c. c\<lparr>gc_vpn := False\<rparr>) w else w)
        in Inr (if type = TYPE_IPV6 then set_config (gd_ipv6_gateway d) (\<lambda>c. c\<lparr>gc_vpn := False\<rparr>) w1 else w1)))"

definition vpn_route :: "connman_ipconfig_type \<Rightarrow> addr \<Rightarrow> addr \<Rightarrow> gw_world \<Rightarrow> gw_world result" where
  "vpn_route type active p w =
     bind_r (data_at w p) (\<lambda>d.
     bind_r (family_config w (type = TYPE_IPV4) (gd_ipv4_gateway d)) (\<lambda>c4.
     bind_r (if is_vpn c4 then
         bind_r (data_at w active) (\<lambda>a. bind_r (deref_config w (gd_ipv4_gateway a)) (\<lambda>c.
           Inr (gw_tell (Clear_gateway_address (gd_index a) (Some (gc_gateway c)))
             (gw_tell (Add_host_route (gd_index a) (Some (gc_gateway (the c4))) (Some (gc_gateway c))) w))))
       else Inr w) (\<lambda>w1.
     bind_r (family_config w1 (type = TYPE_IPV6) (gd_ipv6_gateway d)) (\<lambda>c6.
     if is_vpn c6 then
       bind_r (data_at w1 active) (\<lambda>a. bind_r (deref_config w1 (gd_ipv6_gateway a)) (\<lambda>c.
         Inr (gw_tell (Clear_ipv6_gateway_address (gd_index a) (Some (gc_gateway c)))
           (gw_tell (Add_ipv6_host_route (gd_index a) (Some (gc_gateway (the c6))) (Some (gc_gateway c))) w1))))
     else Inr w1))))"

definition default_address :: "connman_ipconfig_type \<Rightarrow> string option \<Rightarrow> string option" where
  "default_address type gateway =
     (case gateway of
        Some g \<Rightarrow> Some g
      | None \<Rightarrow> (case type of TYPE_IPV4 \<Rightarrow> Some any4 | TYPE_IPV6 \<Rightarrow> Some any6 | TYPE_ALL \<Rightarrow> None))"

definition gateway_add ::
  "gw_env \<Rightarrow> svc \<Rightarrow> string option \<Rightarrow> connman_ipconfig_type \<Rightarrow> string option \<Rightarrow> gw_world \<Rightarrow> (int \<times> gw_world) result" where
  "gateway_add env service gateway type peer w =
     (let index = ge_index env (gw_now w) service; gateway' = default_address type gateway in
      bind_r (find_active_gateway env w) (\<lambda>active_gateway.
      bind_r (add_gateway env service index gateway' type w) (\<lambda>(new_gateway, w1).
      case new_gateway of
        None \<Rightarrow> Inr (- EINVAL, w1)
      | Some p \<Rightarrow>
          bind_r (announce_gateway env service index type p w1) (\<lambda>w2.
          bind_r (vpn_setup env service (the gateway') type peer active_gateway p w2) (\<lambda>w3.
          case active_gateway of
            None \<Rightarrow> bind_r (set_default_gateway env p type w3) (\<lambda>w4. Inr (0, w4))
          | Some active \<Rightarrow> bind_r (vpn_route type active p w3) (\<lambda>w4. Inr (0, w4)))))))"

text \<open>The last part of \<open>gateway_remove\<close>: a new default gateway when no event of the kernel will follow.\<close>

definition renew_default :: "gw_env \<Rightarrow> connman_ipconfig_type \<Rightarrow> gw_world \<Rightarrow> gw_world result" where
  "renew_default env type w =
     bind_r (find_default_gateway env w) (\<lambda>data.
     case data of None \<Rightarrow> Inr w | Some p \<Rightarrow> set_default_gateway env p type w)"

definition gateway_remove :: "gw_env \<Rightarrow> svc \<Rightarrow> connman_ipconfig_type \<Rightarrow> gw_world \<Rightarrow> gw_world result" where
  "gateway_remove env service type w =
     (let w1 = gw_tell (Nameserver_del_routes service) w in
      bind_r (lookup_gateway service w1) (\<lambda>data.
      case data of
        None \<Rightarrow> Inr w1
      | Some p \<Rightarrow>
          bind_r (data_at w1 p) (\<lambda>d.
          bind_r (family_config w1 (do_ipv4 type) (gd_ipv4_gateway d)) (\<lambda>c4.
          bind_r (family_config w1 (do_ipv6 type) (gd_ipv6_gateway d)) (\<lambda>c6.
          let w2 = (if is_vpn c4 \<and> gd_index d \<ge> 0
                then gw_tell (Del_host_route (gd_index d) (Some (gc_gateway (the c4)))) w1 else w1);
              w3 = (if is_vpn c6 \<and> gd_index d \<ge> 0
                then gw_tell (Del_ipv6_host_route (gd_index d) (Some (gc_gateway (the c6)))) w2 else w2);
              w4 = gw_tell (Nameserver_del_routes service) w3 in
          bind_r (disable_gateway env p type w4) (\<lambda>(err, w5).
          bind_r (if do_ipv4 type = do_ipv6 type \<or>
                (gd_ipv4_gateway d \<noteq> None \<and> gd_ipv6_gateway d = None \<and> do_ipv4 type) \<or>
                (gd_ipv6_gateway d \<noteq> None \<and> gd_ipv4_gateway d = None \<and> do_ipv6 type)
              then gateway_hash_remove service (w5\<lparr>gw_refs := (gw_refs w5)(service := gw_refs w5 service - 1)\<rparr>)
              else Inr w5) (\<lambda>w6.
          if is_vpn c4 \<or> is_vpn c6 \<or> err < 0 then renew_default env type w6 else Inr w6)))))))"

text \<open>\<open>__connman_connection_init\<close> gets the result of the registration with \<^verbatim>\<open>rtnl.c\<close>.\<close>

definition connection_init :: "int \<Rightarrow> gw_world \<Rightarrow> int \<times> gw_world" where
  "connection_init err w = (err, w\<lparr>gateway_hash := Some []\<rparr>)"

fun disable_all :: "gw_env \<Rightarrow> (svc \<times> addr) list \<Rightarrow> gw_world \<Rightarrow> gw_world result" where
  "disable_all env [] w = Inr w"
| "disable_all env ((s, p) # es) w =
     bind_r (disable_gateway env p TYPE_ALL w) (\<lambda>(err, w1). disable_all env es w1)"

fun remove_all :: "(svc \<times> addr) list \<Rightarrow> gw_world \<Rightarrow> gw_world result" where
  "remove_all [] w = Inr w"
| "remove_all ((s, p) # es) w = bind_r (remove_gateway p w) (remove_all es)"

definition connection_cleanup :: "gw_env \<Rightarrow> gw_world \<Rightarrow> gw_world result" where
  "connection_cleanup env w =
     bind_r (table_of w) (\<lambda>h.
     bind_r (disable_all env (ge_iter env h) w) (\<lambda>w1.
     bind_r (remove_all (ge_iter env h) w1) (\<lambda>w2.
     Inr (w2\<lparr>gateway_hash := None\<rparr>))))"

end
