(* ===== verification/Gateway_Table.thy ===== *)
theory Gateway_Table
  imports Gateway
begin

text \<open>
  The invariant of the gateway table: the links between the table, the gateway objects and their
  configurations. Every operation that does not change the table keeps its shape and cannot fault
  in a well-formed state.
\<close>

section \<open>The shape of the table\<close>

text \<open>
  What a world consists of, without the flags and orders that most operations change: the table,
  the links between the objects, and the configurations.
\<close>

definition data_links :: "gw_world \<Rightarrow> addr \<rightharpoonup> int \<times> svc \<times> addr option \<times> addr option" where
  "data_links w p = map_option (\<lambda>d. (gd_index d, gd_service d, gd_ipv4_gateway d, gd_ipv6_gateway d)) (gw_datas w p)"

definition plain_configs :: "gw_world \<Rightarrow> addr \<rightharpoonup> gateway_config" where
  "plain_configs w a = map_option (\<lambda>c. c\<lparr>gc_active := False\<rparr>) (gw_configs w a)"

definition same_shape :: "gw_world \<Rightarrow> gw_world \<Rightarrow> bool" where
  "same_shape w w' \<longleftrightarrow> gateway_hash w' = gateway_hash w \<and> gw_next w' = gw_next w \<and> gw_refs w' = gw_refs w \<and>
     data_links w' = data_links w \<and> plain_configs w' = plain_configs w"

lemma same_shape_refl [simp, intro]: "same_shape w w"
  by (simp add: same_shape_def)

lemma same_shape_trans [trans]: "same_shape w w' \<Longrightarrow> same_shape w' w'' \<Longrightarrow> same_shape w w''"
  by (simp add: same_shape_def)

lemma same_shape_tell [simp]: "same_shape w (gw_tell c w') = same_shape w w'"
  by (simp add: same_shape_def gw_tell_def data_links_def [abs_def] plain_configs_def [abs_def])

lemma same_shape_ask [simp]: "same_shape w (snd (gw_ask env c w')) = same_shape w w'"
  by (simp add: gw_ask_def)

lemma same_shape_active [simp]: "same_shape w (set_config g (\<lambda>c. c\<lparr>gc_active := b\<rparr>) w') = same_shape w w'"
proof -
  have "plain_configs (set_config g (\<lambda>c. c\<lparr>gc_active := b\<rparr>) w') = plain_configs w'"
    by (rule ext) (auto simp: plain_configs_def set_config_def option.map_comp o_def split: option.split)
  moreover have "data_links (set_config g (\<lambda>c. c\<lparr>gc_active := b\<rparr>) w') = data_links w'"
    by (rule ext) (auto simp: data_links_def set_config_def split: option.split)
  ultimately show ?thesis by (simp add: same_shape_def set_config_def split: option.split)
qed

lemma same_shape_order:
  assumes "gw_datas w' p = Some d"
  shows "same_shape w (w'\<lparr>gw_datas := (gw_datas w')(p \<mapsto> d\<lparr>gd_order := n\<rparr>)\<rparr>) = same_shape w w'"
proof -
  have "data_links (w'\<lparr>gw_datas := (gw_datas w')(p \<mapsto> d\<lparr>gd_order := n\<rparr>)\<rparr>) = data_links w'"
    using assms by (intro ext) (auto simp: data_links_def)
  then show ?thesis by (simp add: same_shape_def plain_configs_def [abs_def])
qed

text \<open>
  The invariant: every service has at most one entry, the live objects are exactly those of the
  table, each with at least one configuration, and every live configuration belongs to exactly
  one object.
\<close>

definition owned :: "addr option \<times> addr option \<Rightarrow> addr set" where
  "owned gs = set_option (fst gs) \<union> set_option (snd gs)"

definition links_ok :: "(addr \<rightharpoonup> int \<times> svc \<times> addr option \<times> addr option) \<Rightarrow> addr set \<Rightarrow> addr \<Rightarrow> bool" where
  "links_ok L C n \<longleftrightarrow>
     (\<forall>p i s g4 g6. L p = Some (i, s, g4, g6) \<longrightarrow> p < n \<and> owned (g4, g6) \<noteq> {} \<and> owned (g4, g6) \<subseteq> C \<and> (g4 = None \<or> g4 \<noteq> g6)) \<and>
     (\<forall>p i s gs q j t hs. L p = Some (i, s, gs) \<longrightarrow> L q = Some (j, t, hs) \<longrightarrow> owned gs \<inter> owned hs \<noteq> {} \<longrightarrow> p = q) \<and>
     (\<forall>a \<in> C. a < n \<and> (\<exists>p i s gs. L p = Some (i, s, gs) \<and> a \<in> owned gs))"

definition gw_wf :: "gw_world \<Rightarrow> bool" where
  "gw_wf w \<longleftrightarrow>
     (case gateway_hash w of
        None \<Rightarrow> data_links w = Map.empty
      | Some h \<Rightarrow> distinct (map fst h) \<and> (\<forall>s p. (s, p) \<in> set h \<longleftrightarrow> (\<exists>i gs. data_links w p = Some (i, s, gs)))) \<and>
     links_ok (data_links w) (dom (plain_configs w)) (gw_next w)"

lemma same_shape_wf: "same_shape w w' \<Longrightarrow> gw_wf w' = gw_wf w"
  unfolding same_shape_def gw_wf_def by (elim conjE) (simp only:)

lemma dom_plain_configs [simp]: "dom (plain_configs w) = dom (gw_configs w)"
  by (auto simp: plain_configs_def)

lemma data_links_None: "data_links w p = None \<longleftrightarrow> gw_datas w p = None"
  by (simp add: data_links_def)

abbreviation live :: "gw_world \<Rightarrow> addr \<Rightarrow> bool" where "live w p \<equiv> gw_datas w p \<noteq> None"

lemma same_shape_live: "same_shape w w' \<Longrightarrow> live w' p = live w p"
  by (metis data_links_None same_shape_def)

text \<open>No live object has a pointer to a configuration that is not live.\<close>

definition no_dangling :: "gw_world \<Rightarrow> bool" where
  "no_dangling w \<longleftrightarrow> (\<forall>p i s gs. data_links w p = Some (i, s, gs) \<longrightarrow> owned gs \<subseteq> dom (gw_configs w))"

lemma wf_no_dangling: "gw_wf w \<Longrightarrow> no_dangling w"
  by (auto simp: gw_wf_def links_ok_def no_dangling_def)

lemma no_danglingD: "no_dangling w \<Longrightarrow> data_links w p = Some (i, s, gs) \<Longrightarrow> a \<in> owned gs \<Longrightarrow> \<exists>c. gw_configs w a = Some c"
  unfolding no_dangling_def by blast

lemma same_shape_no_dangling: "same_shape w w' \<Longrightarrow> no_dangling w' = no_dangling w"
  unfolding same_shape_def no_dangling_def dom_plain_configs [symmetric] by (elim conjE) (simp only:)

lemma no_dangling_config:
  assumes "no_dangling w" and "gw_datas w p = Some d"
  shows "gd_ipv4_gateway d = Some a \<Longrightarrow> \<exists>c. gw_configs w a = Some c" and "gd_ipv6_gateway d = Some a \<Longrightarrow> \<exists>c. gw_configs w a = Some c"
proof -
  have "owned (gd_ipv4_gateway d, gd_ipv6_gateway d) \<subseteq> dom (gw_configs w)"
    using assms(1) [unfolded no_dangling_def, rule_format, of p "gd_index d" "gd_service d"] assms(2) by (simp add: data_links_def)
  then show "gd_ipv4_gateway d = Some a \<Longrightarrow> \<exists>c. gw_configs w a = Some c" "gd_ipv6_gateway d = Some a \<Longrightarrow> \<exists>c. gw_configs w a = Some c"
    by (auto simp: owned_def)
qed

lemma data_at_live [simp]: "succeeds (data_at w p) P \<longleftrightarrow> (\<exists>d. gw_datas w p = Some d \<and> P d)"
  by (auto simp: data_at_def split: option.split)

lemma family_config_read:
  assumes "no_dangling w" and "gw_datas w p = Some d"
  shows "succeeds (family_config w b (gd_ipv4_gateway d)) P \<longleftrightarrow>
      P (if b then Option.bind (gd_ipv4_gateway d) (gw_configs w) else None)"
    and "succeeds (family_config w b (gd_ipv6_gateway d)) P \<longleftrightarrow>
      P (if b then Option.bind (gd_ipv6_gateway d) (gw_configs w) else None)"
  using no_dangling_config [OF assms] by (auto simp: family_config_def config_at_def split: option.splits)

section \<open>Operations that only change flags and routes\<close>

named_theorems gw_total \<open>operations that succeed and keep the shape\<close>

lemma tell_datas [simp]:
  "gw_datas (gw_tell c w) = gw_datas w" "gw_configs (gw_tell c w) = gw_configs w" "gateway_hash (gw_tell c w) = gateway_hash w"
  "gw_wf (gw_tell c w) = gw_wf w" "gw_refs (gw_tell c w) = gw_refs w" "gw_next (gw_tell c w) = gw_next w"
  using same_shape_wf [of w "gw_tell c w"] by (simp_all add: gw_tell_def same_shape_def data_links_def [abs_def] plain_configs_def [abs_def])

lemma family_config_cong: "gw_configs w' = gw_configs w \<Longrightarrow> family_config w' b g = family_config w b g"
  by (simp add: family_config_def config_at_def split: option.split)

lemma del_routes_parts [simp]:
  "same_shape w (snd (del_routes4 env d c w')) = same_shape w w'" "same_shape w (snd (del_routes6 env d c w')) = same_shape w w'"
  "gw_configs (snd (del_routes4 env d c w')) = gw_configs w'"
  by (simp_all add: del_routes4_def del_routes6_def gw_ask_def)

lemma del_routes_total [gw_total]:
  assumes "no_dangling w" and "live w p"
  shows "succeeds (del_routes env p type w) (\<lambda>(r, w'). same_shape w w')"
proof -
  obtain d where d: "gw_datas w p = Some d" using assms(2) by blast
  have c: "family_config (snd (case c4 of None \<Rightarrow> (0, w) | Some c \<Rightarrow> del_routes4 env d c w)) b g = family_config w b g" for c4 b g
    by (rule family_config_cong) (simp split: option.split)
  show ?thesis using d
    by (auto simp: del_routes_def split_def Let_def c family_config_read [OF assms(1) d] split: option.split)
qed

lemma disable_gateway_total [gw_total]:
  assumes "no_dangling w" and "live w p"
  shows "succeeds (disable_gateway env p type w) (\<lambda>(r, w'). same_shape w w')"
proof -
  obtain d where d: "gw_datas w p = Some d" using assms(2) by blast
  show ?thesis using d del_routes_total [OF assms]
    by (cases type) (simp_all add: disable_gateway_def family_config_read [OF assms(1) d])
qed

lemma set_default_gateway_total [gw_total]:
  assumes "gw_wf w" and "live w p"
  shows "succeeds (set_default_gateway env p type w) (same_shape w)"
proof -
  obtain d where d: "gw_datas w p = Some d" using assms(2) by blast
  show ?thesis using d
    by (simp add: set_default_gateway_def Let_def split_def gw_ask_def family_config_read [OF wf_no_dangling [OF assms(1)] d] split: option.split)
qed

lemma unset_default_gateway_total [gw_total]:
  assumes "gw_wf w" and "live w p"
  shows "succeeds (unset_default_gateway env p type w) (same_shape w)"
proof -
  obtain d where d: "gw_datas w p = Some d" using assms(2) by blast
  show ?thesis using d
    by (simp add: unset_default_gateway_def Let_def family_config_read [OF wf_no_dangling [OF assms(1)] d] split: option.split)
qed

section \<open>Searching the table\<close>

text \<open>What the code relies on from GLib: a traversal visits every entry once.\<close>

definition iter_ok :: "gw_env \<Rightarrow> bool" where
  "iter_ok env \<longleftrightarrow> (\<forall>h. set (ge_iter env h) = set h \<and> length (ge_iter env h) = length h)"

lemma iter_set: "iter_ok env \<Longrightarrow> set (ge_iter env h) = set h"
  by (simp add: iter_ok_def)

lemma wf_entries:
  assumes "gw_wf w" and "gateway_hash w = Some h"
  shows "(s, p) \<in> set h \<longleftrightarrow> (\<exists>d. gw_datas w p = Some d \<and> gd_service d = s)"
  using assms by (auto simp: gw_wf_def data_links_def)

lemma wf_live:
  assumes "gw_wf w" and "gateway_hash w = Some h"
  shows "live w p \<longleftrightarrow> p \<in> snd ` set h"
proof -
  have "p \<in> snd ` set h \<longleftrightarrow> (\<exists>s. (s, p) \<in> set h)" by force
  then show ?thesis by (simp add: wf_entries [OF assms])
qed

lemma gateway_scan_total:
  assumes "gw_wf w" and "\<forall>e \<in> set es. live w (snd e)"
  shows "succeeds (gateway_scan w index gateway es) (\<lambda>g. True)"
  using assms(2)
proof (induction es)
  case (Cons e es)
  obtain s p where e: "e = (s, p)" by (rule prod.exhaust)
  obtain d where d: "gw_datas w p = Some d" using Cons.prems e by auto
  have "succeeds (gateway_scan w index gateway es) (\<lambda>g. True)" using Cons by simp
  then show ?case using d by (simp add: e family_config_read [OF wf_no_dangling [OF assms(1)] d])
qed simp

lemma find_gateway_total [gw_total]:
  assumes "gw_wf w" and "gateway_hash w = Some h" and "iter_ok env"
  shows "succeeds (find_gateway env index gateway w) (\<lambda>g. True)"
  using gateway_scan_total [OF assms(1), of "ge_iter env h"] wf_live [OF assms(1,2)] assms(2) iter_set [OF assms(3)]
  by (auto simp: find_gateway_def table_of_def split: option.split)

lemma active_scan_total:
  assumes "gw_wf w" and "\<forall>e \<in> set es. live w (snd e)"
  shows "succeeds (active_scan w es) (\<lambda>r. case r of None \<Rightarrow> True | Some p \<Rightarrow> p \<in> snd ` set es)"
  using assms(2)
proof (induction es)
  case (Cons e es)
  obtain s p where e: "e = (s, p)" by (rule prod.exhaust)
  obtain d where d: "gw_datas w p = Some d" using Cons.prems e by auto
  have "succeeds (active_scan w es) (\<lambda>r. case r of None \<Rightarrow> True | Some p \<Rightarrow> p \<in> snd ` set es)" using Cons by simp
  then show ?case using d
    by (auto simp: e family_config_read [OF wf_no_dangling [OF assms(1)] d] elim!: succeeds_mono split: option.splits)
qed simp

lemma find_active_total [gw_total]:
  assumes "gw_wf w" and "gateway_hash w = Some h" and "iter_ok env"
  shows "succeeds (find_active_gateway env w) (\<lambda>r. case r of None \<Rightarrow> True | Some p \<Rightarrow> live w p)"
proof -
  have "succeeds (active_scan w (ge_iter env h)) (\<lambda>r. case r of None \<Rightarrow> True | Some p \<Rightarrow> p \<in> snd ` set h)"
    using active_scan_total [OF assms(1), of "ge_iter env h"] wf_live [OF assms(1,2)] iter_set [OF assms(3)] by simp
  then show ?thesis using assms(2) wf_live [OF assms(1,2)]
    by (auto simp: find_active_gateway_def table_of_def elim!: succeeds_mono split: option.splits)
qed

text \<open>
  The default gateway is an entry of highest order: the entries that were scanned do not have a
  higher order than the one that is remembered.
\<close>

definition order_of :: "gw_world \<Rightarrow> addr \<Rightarrow> u32" where
  "order_of w p = gd_order (the (gw_datas w p))"

lemma default_scan_max:
  assumes "\<forall>e \<in> set es. live w (snd e)" and "found \<noteq> None \<Longrightarrow> live w (the found) \<and> order = order_of w (the found)"
  shows "succeeds (default_scan w es found order) (\<lambda>r. case r of
      None \<Rightarrow> found = None \<and> es = []
    | Some p \<Rightarrow> p \<in> set_option found \<union> snd ` set es \<and> (\<forall>q \<in> set_option found \<union> snd ` set es. order_of w q \<le> order_of w p))"
  using assms
proof (induction es arbitrary: found order)
  case Nil
  then show ?case by (auto split: option.split)
next
  case (Cons e es)
  obtain s p where e: "e = (s, p)" by (rule prod.exhaust)
  obtain d where d: "gw_datas w p = Some d" using Cons.prems(1) e by auto
  show ?case
  proof (cases "found = None \<or> gd_order d > order")
    case True
    have "succeeds (default_scan w es (Some p) (gd_order d)) (\<lambda>r. case r of
        None \<Rightarrow> Some p = None \<and> es = []
      | Some q \<Rightarrow> q \<in> set_option (Some p) \<union> snd ` set es \<and> (\<forall>x \<in> set_option (Some p) \<union> snd ` set es. order_of w x \<le> order_of w q))"
      using Cons.prems d by (intro Cons.IH) (auto simp: order_of_def)
    then show ?thesis using True d Cons.prems(2)
      by (auto simp: e order_of_def elim!: succeeds_mono split: option.splits)
  next
    case False
    then have "succeeds (default_scan w es found order) (\<lambda>r. case r of
        None \<Rightarrow> found = None \<and> es = []
      | Some q \<Rightarrow> q \<in> set_option found \<union> snd ` set es \<and> (\<forall>x \<in> set_option found \<union> snd ` set es. order_of w x \<le> order_of w q))"
      using Cons.prems by (intro Cons.IH) auto
    then show ?thesis using False d Cons.prems(2)
      by (auto simp: e order_of_def elim!: succeeds_mono split: option.splits)
  qed
qed

lemma find_default_total [gw_total]:
  assumes "gw_wf w" and "gateway_hash w = Some h" and "iter_ok env"
  shows "succeeds (find_default_gateway env w) (\<lambda>r. case r of
      None \<Rightarrow> h = [] | Some p \<Rightarrow> live w p \<and> (\<forall>q. live w q \<longrightarrow> order_of w q \<le> order_of w p))"
proof -
  have "\<forall>e \<in> set (ge_iter env h). live w (snd e)" using wf_live [OF assms(1,2)] iter_set [OF assms(3)] by auto
  then have "succeeds (default_scan w (ge_iter env h) None 0) (\<lambda>r. case r of
      None \<Rightarrow> ge_iter env h = []
    | Some p \<Rightarrow> p \<in> snd ` set (ge_iter env h) \<and> (\<forall>q \<in> snd ` set (ge_iter env h). order_of w q \<le> order_of w p))"
    using default_scan_max [of "ge_iter env h" w None 0]
    by (auto elim!: succeeds_mono split: option.splits) force
  moreover have "ge_iter env h = [] \<longleftrightarrow> h = []" using iter_set [OF assms(3), of h] by (metis set_empty)
  ultimately show ?thesis using assms(2) wf_live [OF assms(1,2)] iter_set [OF assms(3)]
    by (auto simp: find_default_gateway_def table_of_def elim!: succeeds_mono split: option.splits)
qed

lemma order_scan_total:
  assumes "\<forall>e \<in> set es. live w (snd e)"
  shows "succeeds (order_scan env es w) (\<lambda>w'. same_shape w w' \<and> gw_configs w' = gw_configs w \<and> gw_trace w' = gw_trace w \<and>
    (\<forall>p d. gw_datas w p = Some d \<longrightarrow> gw_datas w' p = Some
       (if p \<in> snd ` set es then d\<lparr>gd_order := ge_order env (gw_now w) (gd_service d)\<rparr> else d)))"
  using assms
proof (induction es arbitrary: w)
  case (Cons e es)
  obtain s p where e: "e = (s, p)" by (rule prod.exhaust)
  obtain d where d: "gw_datas w p = Some d" using Cons.prems e by auto
  let ?w = "w\<lparr>gw_datas := (gw_datas w)(p \<mapsto> d\<lparr>gd_order := ge_order env (gw_now w) (gd_service d)\<rparr>)\<rparr>"
  have "\<forall>e \<in> set es. live ?w (snd e)" using Cons.prems by auto
  note IH = Cons.IH [OF this]
  have sh: "same_shape w ?w" using d by (simp add: same_shape_order)
  have eq: "order_scan env (e # es) w = order_scan env es ?w" using d by (simp add: e data_at_def)
  show ?case unfolding eq
  proof (rule succeeds_mono [OF IH], elim conjE, intro conjI allI impI)
    fix w' q f
    assume A: "\<forall>p d. gw_datas ?w p = Some d \<longrightarrow> gw_datas w' p = Some
        (if p \<in> snd ` set es then d\<lparr>gd_order := ge_order env (gw_now ?w) (gd_service d)\<rparr> else d)"
      and f: "gw_datas w q = Some f"
    show "gw_datas w' q = Some (if q \<in> snd ` set (e # es) then f\<lparr>gd_order := ge_order env (gw_now w) (gd_service f)\<rparr> else f)"
      using spec [OF A, of q] f d by (cases "q = p") (auto simp: e)
  qed (auto intro: same_shape_trans [OF sh])
qed simp

lemma update_order_total [gw_total]:
  assumes "gw_wf w" and "gateway_hash w = Some h" and "iter_ok env"
  shows "succeeds (update_order env w) (\<lambda>w'. same_shape w w' \<and> gw_configs w' = gw_configs w \<and> gw_trace w' = gw_trace w \<and>
    (\<forall>p d. gw_datas w p = Some d \<longrightarrow> gw_datas w' p = Some (d\<lparr>gd_order := ge_order env (gw_now w) (gd_service d)\<rparr>)))"
proof -
  have "\<forall>e \<in> set (ge_iter env h). live w (snd e)" using wf_live [OF assms(1,2)] iter_set [OF assms(3)] by auto
  note scan = order_scan_total [OF this, of env]
  have "gw_datas w p = Some d \<Longrightarrow> p \<in> snd ` set (ge_iter env h)" for p d
    using wf_live [OF assms(1,2), of p] iter_set [OF assms(3)] by simp
  then show ?thesis using assms(2) by (auto simp: update_order_def table_of_def intro!: succeeds_mono [OF scan])
qed

section \<open>Operations that keep the table\<close>

lemma set_default_any:
  assumes "gw_wf w" and "gateway_hash w = Some h" and "iter_ok env"
  shows "succeeds (renew_default env type w) (same_shape w)"
  unfolding renew_default_def succeeds_bind
  by (rule succeeds_mono [OF find_default_total [OF assms]])
    (auto split: option.splits intro: set_default_gateway_total [OF assms(1)])

lemma connection_newgateway_total [gw_total]:
  assumes "gw_wf w" and "gateway_hash w = Some h" and "iter_ok env"
  shows "succeeds (connection_newgateway env index gateway w) (same_shape w)"
  using find_gateway_total [OF assms] by (auto simp: connection_newgateway_def elim!: succeeds_mono)

lemma connection_delgateway_total [gw_total]:
  assumes "gw_wf w" and "gateway_hash w = Some h" and "iter_ok env"
  shows "succeeds (connection_delgateway env index gateway w) (same_shape w)"
proof -
  have "succeeds (renew_default env TYPE_ALL (set_config g (\<lambda>c. c\<lparr>gc_active := False\<rparr>) w)) (same_shape w)" for g
  proof -
    let ?w = "set_config g (\<lambda>c. c\<lparr>gc_active := False\<rparr>) w"
    have sh: "same_shape w ?w" by simp
    then have "gw_wf ?w" "gateway_hash ?w = Some h" using same_shape_wf [OF sh] assms(1,2) by (auto simp: same_shape_def)
    from set_default_any [OF this assms(3)] show ?thesis by (rule succeeds_mono) (rule same_shape_trans [OF sh])
  qed
  then show ?thesis using find_gateway_total [OF assms, of index gateway]
    by (auto simp: connection_delgateway_def renew_default_def Let_def elim!: succeeds_mono)
qed

lemma set_both_total:
  assumes "gw_wf w" and "live w p" and op: "\<And>type v. gw_wf v \<Longrightarrow> live v p \<Longrightarrow> succeeds (op type v) (same_shape v)"
  shows "succeeds (bind_r (if b4 then op TYPE_IPV4 w else Inr w) (\<lambda>w1. if b6 then op TYPE_IPV6 w1 else Inr w1)) (same_shape w)"
proof -
  have "succeeds (if b4 then op TYPE_IPV4 w else Inr w) (same_shape w)" using op assms(1,2) by simp
  then show ?thesis unfolding succeeds_bind
  proof (rule succeeds_mono)
    fix w1 assume sh: "same_shape w w1"
    have "succeeds (if b6 then op TYPE_IPV6 w1 else Inr w1) (same_shape w1)"
      using op same_shape_wf [OF sh] same_shape_live [OF sh] assms(1,2) by simp
    then show "succeeds (if b6 then op TYPE_IPV6 w1 else Inr w1) (same_shape w)"
      by (rule succeeds_mono) (rule same_shape_trans [OF sh])
  qed
qed

lemma switch_default_total:
  assumes "gw_wf w" and "live w a" and "dflt \<noteq> None \<Longrightarrow> live w (the dflt)"
  shows "succeeds (switch_default env a dflt w) (same_shape w)"
proof -
  obtain d where d: "gw_datas w a = Some d" using assms(2) by blast
  have "succeeds (bind_r (if gd_ipv4_gateway d \<noteq> None then unset_default_gateway env a TYPE_IPV4 w else Inr w)
      (\<lambda>w1. if gd_ipv6_gateway d \<noteq> None then unset_default_gateway env a TYPE_IPV6 w1 else Inr w1)) (same_shape w)"
    by (rule set_both_total [OF assms(1,2)]) (rule unset_default_gateway_total)
  then show ?thesis using d unfolding switch_default_def succeeds_bind data_at_live
  proof (intro exI [of _ d] conjI, simp, elim succeeds_mono)
    fix w1 w2 assume sh: "same_shape w w2"
    show "succeeds (case dflt of None \<Rightarrow> Inr w2 | Some p \<Rightarrow>
         bind_r (data_at w2 p) (\<lambda>d.
         bind_r (if gd_ipv4_gateway d \<noteq> None then set_default_gateway env p TYPE_IPV4 w2 else Inr w2) (\<lambda>w3.
         if gd_ipv6_gateway d \<noteq> None then set_default_gateway env p TYPE_IPV6 w3 else Inr w3))) (same_shape w)"
    proof (cases dflt)
      case None
      then show ?thesis using sh by simp
    next
      case (Some p)
      then have l: "live w2 p" using assms(3) same_shape_live [OF sh] by simp
      then obtain e where e: "gw_datas w2 p = Some e" by blast
      have "gw_wf w2" using same_shape_wf [OF sh] assms(1) by simp
      from set_both_total [OF this l, of "\<lambda>type v. set_default_gateway env p type v"] set_default_gateway_total
      have "succeeds (bind_r (if gd_ipv4_gateway e \<noteq> None then set_default_gateway env p TYPE_IPV4 w2 else Inr w2) (\<lambda>w3.
         if gd_ipv6_gateway e \<noteq> None then set_default_gateway env p TYPE_IPV6 w3 else Inr w3)) (same_shape w2)" by blast
      then show ?thesis using Some e
        by (simp add: data_at_def) (auto elim!: succeeds_mono intro: same_shape_trans [OF sh])
    qed
  qed
qed

lemma update_gateway_total [gw_total]:
  assumes "gw_wf w" and "iter_ok env"
  shows "succeeds (update_gateway env w) (\<lambda>(b, w'). same_shape w w')"
proof (cases "gateway_hash w")
  case None
  then show ?thesis by (simp add: update_gateway_def)
next
  case (Some h)
  obtain act where act: "find_active_gateway env w = Inr act" "case act of None \<Rightarrow> True | Some p \<Rightarrow> live w p"
    using find_active_total [OF assms(1) Some assms(2)] by (auto simp: succeeds_def)
  obtain w1 where w1: "update_order env w = Inr w1" "same_shape w w1"
    using update_order_total [OF assms(1) Some assms(2)] by (auto simp: succeeds_def)
  have wf1: "gw_wf w1" "gateway_hash w1 = Some h" using same_shape_wf [OF w1(2)] assms(1) w1(2) Some by (auto simp: same_shape_def)
  obtain dflt where dflt: "find_default_gateway env w1 = Inr dflt" "case dflt of None \<Rightarrow> True | Some p \<Rightarrow> live w1 p"
    using find_default_total [OF wf1 assms(2)] by (auto simp: succeeds_def split: option.splits)
  show ?thesis
  proof (cases "act = None \<or> act = dflt")
    case True
    then show ?thesis using act w1 dflt Some by (auto simp: update_gateway_def split: option.splits)
  next
    case False
    then obtain a where a: "act = Some a" by auto
    have "succeeds (switch_default env a dflt w1) (same_shape w1)"
      using act(2) dflt(2) same_shape_live [OF w1(2)] a by (intro switch_default_total [OF wf1(1)]) (auto split: option.splits)
    then show ?thesis using act(1) w1 dflt(1) Some False a
      by (auto simp: update_gateway_def elim!: succeeds_mono intro: same_shape_trans)
  qed
qed

lemma indicate_ready_total [gw_total]:
  assumes "gw_wf w" and "iter_ok env"
  shows "succeeds (indicate_ready env s type w) (same_shape w)"
proof -
  have "gw_wf (gw_tell (Indicate_ready s type) w)" using assms(1) by simp
  from update_gateway_total [OF this assms(2)]
  have "succeeds (update_gateway env (gw_tell (Indicate_ready s type) w)) (\<lambda>(b, w'). same_shape w w')"
    by (rule succeeds_mono) (auto intro: same_shape_trans [of w "gw_tell (Indicate_ready s type) w"])
  then show ?thesis by (auto simp: indicate_ready_def Let_def elim!: succeeds_mono)
qed

lemma announce_gateway_total [gw_total]:
  assumes "gw_wf w" and "live w p" and "iter_ok env"
  shows "succeeds (announce_gateway env s index type p w) (same_shape w)"
proof -
  obtain d where d: "gw_datas w p = Some d" using assms(2) by blast
  have "same_shape w v \<Longrightarrow> succeeds (indicate_ready env s t (gw_tell c v)) (same_shape w)" for v t c
    using indicate_ready_total [of "gw_tell c v" env s t] same_shape_wf [of w v] assms(1,3)
    by (auto elim!: succeeds_mono intro: same_shape_trans [of w "gw_tell c v"])
  then show ?thesis using d
    by (cases type) (auto simp: announce_gateway_def family_config_read [OF wf_no_dangling [OF assms(1)] d]
      family_config_cong [of "gw_tell _ w" w] Let_def elim!: succeeds_mono split: option.split)
qed

lemma disable_all_total:
  assumes "gw_wf w" and "\<forall>e \<in> set es. live w (snd e)"
  shows "succeeds (disable_all env es w) (same_shape w)"
  using assms
proof (induction es arbitrary: w)
  case (Cons e es)
  obtain s p where e: "e = (s, p)" by (rule prod.exhaust)
  obtain r w1 where w1: "disable_gateway env p TYPE_ALL w = Inr (r, w1)" "same_shape w w1"
    using disable_gateway_total [OF wf_no_dangling [OF Cons.prems(1)], of p env TYPE_ALL] Cons.prems(2) e by (auto simp: succeeds_def)
  have "succeeds (disable_all env es w1) (same_shape w1)"
    using Cons.prems same_shape_wf [OF w1(2)] same_shape_live [OF w1(2)] by (intro Cons.IH) auto
  then show ?case using w1 by (auto simp: e elim!: succeeds_mono intro: same_shape_trans)
qed simp

end
