(* ===== verification/Gateway_Operations.thy ===== *)
theory Gateway_Operations
  imports Gateway_Table
begin

text \<open>
  The operations that change the gateway table, each specified on the abstract view of the table, a
  map from services to an interface index and two gateways: additions with every way in which
  they are refused or fault, removals, activation, and the cleanup.
\<close>

section \<open>Operations that change the table\<close>

lemma links_ok_remove:
  assumes "links_ok L C n" and "L p = Some (i, s, gs)"
  shows "links_ok (L(p := None)) (C - owned gs) n"
  unfolding links_ok_def
proof (intro conjI allI impI ballI)
  fix q j t g4 g6 assume q: "(L(p := None)) q = Some (j, t, g4, g6)"
  then have "L q = Some (j, t, g4, g6)" "q \<noteq> p" by (auto split: if_splits)
  then show "q < n" "owned (g4, g6) \<noteq> {}" "g4 = None \<or> g4 \<noteq> g6" "owned (g4, g6) \<subseteq> C - owned gs"
    using assms unfolding links_ok_def by blast+
next
  fix q j t hs r k u ks
  assume "(L(p := None)) q = Some (j, t, hs)" "(L(p := None)) r = Some (k, u, ks)" "owned hs \<inter> owned ks \<noteq> {}"
  then show "q = r" using assms(1) unfolding links_ok_def by (metis fun_upd_apply option.distinct(1))
next
  fix a assume "a \<in> C - owned gs"
  then show "a < n" "\<exists>q j t hs. (L(p := None)) q = Some (j, t, hs) \<and> a \<in> owned hs"
    using assms unfolding links_ok_def by (auto, metis option.inject prod.inject)
qed

lemma links_ok_insert:
  assumes "links_ok L C n" and "L p = None" and "owned gs \<inter> C = {}" and "owned gs \<noteq> {}" and "\<forall>a \<in> owned gs. a < m"
    and "p < m" and "n \<le> m" and "fst gs = None \<or> fst gs \<noteq> snd gs"
  shows "links_ok (L(p \<mapsto> (i, s, gs))) (C \<union> owned gs) m"
  unfolding links_ok_def
proof (intro conjI allI impI ballI)
  fix q j t g4 g6 assume q: "(L(p \<mapsto> (i, s, gs))) q = Some (j, t, g4, g6)"
  have "q < m \<and> owned (g4, g6) \<noteq> {} \<and> (g4 = None \<or> g4 \<noteq> g6) \<and> owned (g4, g6) \<subseteq> C \<union> owned gs"
  proof (cases "q = p")
    case True
    then show ?thesis using q assms(4,6,8) by auto
  next
    case False
    then have "q < n \<and> owned (g4, g6) \<noteq> {} \<and> (g4 = None \<or> g4 \<noteq> g6) \<and> owned (g4, g6) \<subseteq> C"
      using q assms(1) unfolding links_ok_def by auto
    then show ?thesis using assms(7) by auto
  qed
  then show "q < m" "owned (g4, g6) \<noteq> {}" "g4 = None \<or> g4 \<noteq> g6" "owned (g4, g6) \<subseteq> C \<union> owned gs" by blast+
next
  fix q j t hs r k u ks
  assume q: "(L(p \<mapsto> (i, s, gs))) q = Some (j, t, hs)" "(L(p \<mapsto> (i, s, gs))) r = Some (k, u, ks)" "owned hs \<inter> owned ks \<noteq> {}"
  have sub: "L x = Some (j', t', hs') \<Longrightarrow> owned hs' \<subseteq> C" for x j' t' hs'
    using assms(1) unfolding links_ok_def by (cases hs') blast
  show "q = r"
  proof (cases "q = p \<or> r = p")
    case True
    then show ?thesis using q sub [of q] sub [of r] assms(3) by (auto split: if_splits)
  next
    case False
    then show ?thesis using q assms(1) unfolding links_ok_def by (metis fun_upd_apply)
  qed
next
  fix a assume "a \<in> C \<union> owned gs"
  then consider "a \<in> owned gs" | "a \<in> C" by blast
  then show "a < m" using assms(1,5,7) unfolding links_ok_def by cases force+
  show "\<exists>q j t hs. (L(p \<mapsto> (i, s, gs))) q = Some (j, t, hs) \<and> a \<in> owned hs"
  proof (cases "a \<in> owned gs")
    case True
    then show ?thesis by (intro exI [of _ p]) auto
  next
    case False
    then have "a \<in> C" using \<open>a \<in> C \<union> owned gs\<close> by blast
    then obtain q j t hs where "L q = Some (j, t, hs)" "a \<in> owned hs" using assms(1) unfolding links_ok_def by blast
    then show ?thesis using assms(2) by (intro exI [of _ q] exI [of _ j] exI [of _ t] exI [of _ hs]) auto
  qed
qed

lemma remove_gateway_effect:
  assumes "gw_datas w p = Some d" and "owned (gd_ipv4_gateway d, gd_ipv6_gateway d) \<subseteq> dom (gw_configs w)"
    and "gd_ipv4_gateway d = None \<or> gd_ipv4_gateway d \<noteq> gd_ipv6_gateway d"
  shows "remove_gateway p w = Inr (w\<lparr>gw_datas := (gw_datas w)(p := None),
    gw_configs := gw_configs w |` (- owned (gd_ipv4_gateway d, gd_ipv6_gateway d))\<rparr>)"
proof -
  have [simp]: "gw_configs w |` UNIV = gw_configs w" by (simp add: restrict_map_def)
  have "free_config (gd_ipv4_gateway d) w = Inr (w\<lparr>gw_configs := gw_configs w |` (- set_option (gd_ipv4_gateway d))\<rparr>)"
    using assms(2) by (cases "gd_ipv4_gateway d")
      (auto simp: free_config_def config_at_def owned_def restrict_complement_singleton_eq split: option.split)
  moreover have "free_config (gd_ipv6_gateway d) (w\<lparr>gw_configs := gw_configs w |` (- set_option (gd_ipv4_gateway d))\<rparr>) =
      Inr (w\<lparr>gw_configs := gw_configs w |` (- owned (gd_ipv4_gateway d, gd_ipv6_gateway d))\<rparr>)"
    using assms(2,3) by (cases "gd_ipv6_gateway d")
      (auto simp: free_config_def config_at_def owned_def restrict_map_def fun_eq_iff split: option.split)
  ultimately show ?thesis using assms(1) by (simp add: remove_gateway_def data_at_def)
qed

lemma map_of_entry:
  assumes "gw_wf w" and "gateway_hash w = Some h"
  shows "map_of h s = Some p \<longleftrightarrow> (\<exists>i gs. data_links w p = Some (i, s, gs))"
  using assms by (simp add: gw_wf_def)

lemma wf_links:
  assumes "gw_wf w" and "gw_datas w p = Some d"
  shows "data_links w p = Some (gd_index d, gd_service d, gd_ipv4_gateway d, gd_ipv6_gateway d)"
    and "owned (gd_ipv4_gateway d, gd_ipv6_gateway d) \<subseteq> dom (gw_configs w)"
    and "gd_ipv4_gateway d = None \<or> gd_ipv4_gateway d \<noteq> gd_ipv6_gateway d"
proof -
  show l: "data_links w p = Some (gd_index d, gd_service d, gd_ipv4_gateway d, gd_ipv6_gateway d)"
    using assms(2) by (simp add: data_links_def)
  show "owned (gd_ipv4_gateway d, gd_ipv6_gateway d) \<subseteq> dom (gw_configs w)"
      "gd_ipv4_gateway d = None \<or> gd_ipv4_gateway d \<noteq> gd_ipv6_gateway d"
    using assms(1) l unfolding gw_wf_def links_ok_def dom_plain_configs by blast+
qed

text \<open>
  The abstract view of the table: for every service its interface index and its two gateways. It is
  what the operations are specified on.
\<close>

type_synonym gw_entry = "int \<times> gateway_config option \<times> gateway_config option"

definition links_entry :: "(addr \<rightharpoonup> gateway_config) \<Rightarrow> int \<times> svc \<times> addr option \<times> addr option \<Rightarrow> gw_entry" where
  "links_entry C l = (case l of (i, s, g4, g6) \<Rightarrow> (i, Option.bind g4 C, Option.bind g6 C))"

definition gateway_entry :: "gw_world \<Rightarrow> svc \<rightharpoonup> gw_entry" where
  "gateway_entry w s =
     (case gateway_hash w of
        None \<Rightarrow> None
      | Some h \<Rightarrow> Option.bind (map_of h s) (\<lambda>p. map_option (links_entry (plain_configs w)) (data_links w p)))"

lemma same_shape_entry: "same_shape w w' \<Longrightarrow> gateway_entry w' = gateway_entry w"
  by (rule ext) (simp add: same_shape_def gateway_entry_def split: option.split)

lemma gateway_entry_live:
  assumes "gw_wf w" and "gw_datas w p = Some d"
  shows "gateway_entry w (gd_service d) = Some (links_entry (plain_configs w) (gd_index d, gd_service d, gd_ipv4_gateway d, gd_ipv6_gateway d))"
proof (cases "gateway_hash w")
  case None
  then show ?thesis using assms by (auto simp: gw_wf_def data_links_def fun_eq_iff)
next
  case (Some h)
  have "map_of h (gd_service d) = Some p" using wf_links(1) [OF assms] map_of_entry [OF assms(1) Some] by blast
  then show ?thesis using Some wf_links(1) [OF assms] by (simp add: gateway_entry_def)
qed

text \<open>An entry does not see changes of configurations that belong to another object.\<close>

lemma links_entry_frame:
  assumes "\<And>a. a \<in> owned (g4, g6) \<Longrightarrow> C' a = C a"
  shows "links_entry C' (i, s, g4, g6) = links_entry C (i, s, g4, g6)"
  using assms by (cases g4; cases g6) (simp_all add: links_entry_def owned_def)

lemma gateway_entry_wf:
  assumes "gw_wf w" and "gateway_hash w = Some h"
  shows "gateway_entry w s = Some e \<longleftrightarrow> (\<exists>p l. data_links w p = Some l \<and> fst (snd l) = s \<and> e = links_entry (plain_configs w) l)"
proof -
  have "gateway_entry w s = Some e \<longleftrightarrow> (\<exists>p l. map_of h s = Some p \<and> data_links w p = Some l \<and> e = links_entry (plain_configs w) l)"
    using assms(2) by (auto simp: gateway_entry_def bind_eq_Some_conv)
  then show ?thesis unfolding map_of_entry [OF assms] by fastforce
qed

text \<open>The entry of a service whose objects did not change.\<close>

lemma gateway_entry_frame:
  assumes "gateway_hash w = Some h" and "gateway_hash w' = Some h'" and "map_of h' t = map_of h t"
    and "\<And>q i s gs. map_of h t = Some q \<Longrightarrow> data_links w q = Some (i, s, gs) \<Longrightarrow>
      data_links w' q = data_links w q \<and> (\<forall>a \<in> owned gs. plain_configs w' a = plain_configs w a)"
    and "\<And>q. map_of h t = Some q \<Longrightarrow> data_links w q \<noteq> None"
  shows "gateway_entry w' t = gateway_entry w t"
proof (cases "map_of h t")
  case None
  then show ?thesis using assms(1-3) by (simp add: gateway_entry_def)
next
  case (Some q)
  obtain l where l: "data_links w q = Some l" using assms(5) [OF Some] by blast
  obtain i s g4 g6 where l4: "l = (i, s, g4, g6)" by (metis prod_cases4)
  have q: "data_links w' q = data_links w q" "\<forall>a \<in> owned (g4, g6). plain_configs w' a = plain_configs w a"
    using assms(4) [OF Some, of i s "(g4, g6)"] l l4 by auto
  have "links_entry (plain_configs w') l = links_entry (plain_configs w) l"
    unfolding l4 using q(2) by (intro links_entry_frame) auto
  then show ?thesis using assms(1-3) Some l q(1) by (simp add: gateway_entry_def)
qed

lemma wf_disjoint:
  assumes "gw_wf w" and "data_links w p = Some (i, s, gs)" and "data_links w q = Some (j, t, hs)" and "p \<noteq> q"
  shows "owned gs \<inter> owned hs = {}"
  using assms unfolding gw_wf_def links_ok_def by blast

lemma map_of_filter_key: "map_of (filter (\<lambda>e. fst e \<noteq> s) h) t = (if t = s then None else map_of h t)"
  by (induction h) auto

text \<open>Removing an entry: the table loses it, the objects are freed, and nothing else changes.\<close>

lemma gateway_hash_remove_effect:
  assumes "gw_wf w" and "gateway_hash w = Some h" and "map_of h s = Some p"
  shows "\<exists>w'. gateway_hash_remove s w = Inr w' \<and> gw_wf w' \<and> gateway_hash w' = Some (filter (\<lambda>e. fst e \<noteq> s) h) \<and>
    gateway_entry w' = (gateway_entry w)(s := None) \<and> gw_refs w' = gw_refs w \<and> gw_next w' = gw_next w \<and>
    data_links w' = (data_links w)(p := None) \<and>
    plain_configs w' = plain_configs w |` (- owned (snd (snd (the (data_links w p)))))"
proof -
  obtain i gs where l: "data_links w p = Some (i, s, gs)" using assms(3) map_of_entry [OF assms(1,2)] by blast
  then obtain d where d: "gw_datas w p = Some d" by (auto simp: data_links_def)
  note dl = wf_links [OF assms(1) d]
  let ?gs = "(gd_ipv4_gateway d, gd_ipv6_gateway d)" and ?h = "filter (\<lambda>e. fst e \<noteq> s) h"
  define w' where "w' = w\<lparr>gateway_hash := Some ?h, gw_datas := (gw_datas w)(p := None), gw_configs := gw_configs w |` (- owned ?gs)\<rparr>"
  have run: "gateway_hash_remove s w = Inr w'"
    using assms(2,3) remove_gateway_effect [of "w\<lparr>gateway_hash := Some ?h\<rparr>" p d] d dl
    by (simp add: gateway_hash_remove_def table_of_def w'_def)
  have L: "data_links w' = (data_links w)(p := None)" by (rule ext) (simp add: data_links_def w'_def)
  have C: "plain_configs w' = plain_configs w |` (- owned ?gs)" by (rule ext) (simp add: plain_configs_def w'_def restrict_map_def)
  have H: "gateway_hash w' = Some ?h" "gw_refs w' = gw_refs w" "gw_next w' = gw_next w" by (simp_all add: w'_def)
  have gs: "gs = ?gs" using l dl(1) by simp
  have uniq: "data_links w q = Some (j, s, hs) \<Longrightarrow> q = p" for q j hs using assms(3) map_of_entry [OF assms(1,2), of s q] by auto
  have "links_ok (data_links w') (dom (plain_configs w')) (gw_next w')"
    using links_ok_remove [where L = "data_links w" and p = p, OF _ l] assms(1) by (simp add: gw_wf_def L C H gs Diff_eq Int_commute)
  moreover have "(t, q) \<in> set ?h \<longleftrightarrow> (\<exists>j hs. data_links w' q = Some (j, t, hs))" for t q
    using assms(1,2) l by (auto simp: gw_wf_def L dest: uniq)
  ultimately have wf: "gw_wf w'" using assms(1,2) by (simp add: gw_wf_def H distinct_map_filter)
  have "gateway_entry w' t = ((gateway_entry w)(s := None)) t" for t
  proof (cases "t = s")
    case True
    then show ?thesis by (simp add: gateway_entry_def H map_of_filter_key)
  next
    case False
    have "gateway_entry w' t = gateway_entry w t"
    proof (rule gateway_entry_frame [OF assms(2) H(1)])
      fix q j u hs assume q: "map_of h t = Some q" "data_links w q = Some (j, u, hs)"
      then have "q \<noteq> p" using False l map_of_entry [OF assms(1,2), of t q] by auto
      then show "data_links w' q = data_links w q \<and> (\<forall>a \<in> owned hs. plain_configs w' a = plain_configs w a)"
        using wf_disjoint [OF assms(1) q(2) l] by (auto simp: L C gs restrict_map_def)
    qed (use False map_of_entry [OF assms(1,2)] in \<open>auto simp: map_of_filter_key\<close>)
    then show ?thesis using False by simp
  qed
  then show ?thesis using run wf H L C l gs by (intro exI [of _ w']) auto
qed

text \<open>A new entry with a new object.\<close>

lemma insert_entry_effect:
  assumes wf: "gw_wf u" and hu: "gateway_hash u = Some hu" "s \<notin> fst ` set hu"
    and h': "gateway_hash w' = Some h'" "distinct (map fst h')" "set h' = insert (s, p) (set hu)"
    and L: "data_links u p = None" "data_links w' = (data_links u)(p \<mapsto> (i, s, gs))"
    and C: "plain_configs w' = plain_configs u ++ K" "dom K = owned gs" "owned gs \<inter> dom (plain_configs u) = {}"
    and gs: "owned gs \<noteq> {}" "\<forall>a \<in> owned gs. a < gw_next w'" "fst gs = None \<or> fst gs \<noteq> snd gs"
    and n: "p < gw_next w'" "gw_next u \<le> gw_next w'"
  shows "gw_wf w' \<and> gateway_entry w' = (gateway_entry u)(s \<mapsto> links_entry K (i, s, gs))"
proof
  have "links_ok (data_links u) (dom (plain_configs u)) (gw_next u)" using wf by (simp add: gw_wf_def)
  from links_ok_insert [OF this L(1) C(3) gs(1,2) n gs(3)]
  have "links_ok (data_links w') (dom (plain_configs w')) (gw_next w')" by (simp add: L(2) C(1,2) Un_commute del: dom_plain_configs)
  moreover have "(t, q) \<in> set h' \<longleftrightarrow> (\<exists>j hs. data_links w' q = Some (j, t, hs))" for t q
    using wf hu L(1) by (auto simp: h'(3) gw_wf_def L(2))
  ultimately show "gw_wf w'" using h'(1,2) by (simp add: gw_wf_def)
  have m: "map_of h' t = (if t = s then Some p else map_of hu t)" for t
  proof -
    have "distinct (map fst hu)" using wf hu(1) by (simp add: gw_wf_def)
    then have "map_of h' t = Some q \<longleftrightarrow> (if t = s then q = p else map_of hu t = Some q)" for q
      using h'(2,3) hu(2) by (auto simp: rev_image_eqI)
    then show ?thesis by (metis not_None_eq)
  qed
  have "gateway_entry w' t = ((gateway_entry u)(s \<mapsto> links_entry K (i, s, gs))) t" for t
  proof (cases "t = s")
    case True
    have "plain_configs w' a = K a" if "a \<in> owned gs" for a
      using that C(2) by (simp add: C(1) map_add_dom_app_simps)
    then have "links_entry (plain_configs w') (i, s, gs) = links_entry K (i, s, gs)"
      by (cases gs) (auto intro!: links_entry_frame)
    then show ?thesis using True by (simp add: gateway_entry_def h'(1) m L(2))
  next
    case False
    have "gateway_entry w' t = gateway_entry u t"
    proof (rule gateway_entry_frame [OF hu(1) h'(1)])
      fix q j v hs assume q: "map_of hu t = Some q" "data_links u q = Some (j, v, hs)"
      have "owned hs \<subseteq> dom (plain_configs u)" using no_danglingD [OF wf_no_dangling [OF wf] q(2)] by auto
      then show "data_links w' q = data_links u q \<and> (\<forall>a \<in> owned hs. plain_configs w' a = plain_configs u a)"
        using q(2) C L(1) by (auto simp: L(2) map_add_def split: option.splits)
    qed (use False m map_of_entry [OF wf hu(1)] in \<open>auto\<close>)
    then show ?thesis using False by simp
  qed
  then show "gateway_entry w' = (gateway_entry u)(s \<mapsto> links_entry K (i, s, gs))" by blast
qed

lemma wf_fresh:
  assumes "gw_wf w" and "gw_next w \<le> n"
  shows "data_links w n = None" and "plain_configs w n = None"
proof -
  have ok: "links_ok (data_links w) (dom (plain_configs w)) (gw_next w)" using assms(1) by (simp add: gw_wf_def)
  show "data_links w n = None"
  proof (rule ccontr)
    assume "data_links w n \<noteq> None"
    then obtain i s g4 g6 where "data_links w n = Some (i, s, g4, g6)" by (metis not_None_eq prod_cases4)
    then show False using ok assms(2) unfolding links_ok_def by (meson leD)
  qed
  show "plain_configs w n = None" using ok assms(2) unfolding links_ok_def by (meson domIff leD)
qed

definition kept :: "connman_ipconfig_type \<Rightarrow> 'a \<times> 'a \<Rightarrow> 'a" where
  "kept type gs = (if type = TYPE_IPV4 then snd gs else fst gs)"

definition replaced :: "connman_ipconfig_type \<Rightarrow> 'a \<times> 'a \<Rightarrow> 'a" where
  "replaced type gs = (if type = TYPE_IPV4 then fst gs else snd gs)"

definition merged :: "connman_ipconfig_type \<Rightarrow> 'a \<Rightarrow> 'a \<Rightarrow> 'a \<times> 'a" where
  "merged type new old = (if type = TYPE_IPV4 then (new, old) else (old, new))"

lemma owned_families:
  "owned (merged type new old) = set_option new \<union> set_option old" "owned gs = set_option (replaced type gs) \<union> set_option (kept type gs)"
  by (auto simp: merged_def owned_def kept_def replaced_def)

lemma take_over_effect:
  assumes "no_dangling w" and "data_links w q = Some (i, s, gs)" and "type \<noteq> TYPE_ALL"
    and "(gd_ipv4_gateway data, gd_ipv6_gateway data) = merged type new None"
  shows "\<exists>data' w2. take_over env type q data w = Inr (data', w2) \<and>
    gd_index data' = gd_index data \<and> gd_service data' = gd_service data \<and>
    (gd_ipv4_gateway data', gd_ipv6_gateway data') = merged type new (kept type gs) \<and>
    data_links w2 = (data_links w)(q \<mapsto> (i, s, merged type (replaced type gs) None)) \<and> plain_configs w2 = plain_configs w \<and>
    gateway_hash w2 = gateway_hash w \<and> gw_next w2 = gw_next w \<and> gw_refs w2 = gw_refs w"
proof -
  have "live w q" using assms(2) by (auto simp: data_links_def)
  then obtain r v where v: "disable_gateway env q type w = Inr (r, v)" "same_shape w v"
    using disable_gateway_total [OF assms(1), of q env type] by (auto simp: succeeds_def)
  then have "data_links v q = Some (i, s, gs)" using assms(2) by (simp add: same_shape_def)
  then obtain d where d: "gw_datas v q = Some d" "gd_index d = i" "gd_service d = s" "gs = (gd_ipv4_gateway d, gd_ipv6_gateway d)"
    by (auto simp: data_links_def)
  let ?d = "if type = TYPE_IPV4 then d\<lparr>gd_ipv6_gateway := None\<rparr> else d\<lparr>gd_ipv4_gateway := None\<rparr>"
  let ?data = "if type = TYPE_IPV4 then data\<lparr>gd_ipv6_gateway := gd_ipv6_gateway d\<rparr> else data\<lparr>gd_ipv4_gateway := gd_ipv4_gateway d\<rparr>"
  let ?w = "v\<lparr>gw_datas := (gw_datas v)(q \<mapsto> ?d)\<rparr>"
  have run: "take_over env type q data w = Inr (?data, ?w)"
    using v(1) d(1) assms(3) by (cases type) (simp_all add: take_over_def data_at_def)
  have L: "data_links ?w = (data_links v)(q \<mapsto> (i, s, merged type (replaced type gs) None))"
    by (rule ext) (simp add: data_links_def d merged_def replaced_def)
  have C: "plain_configs ?w = plain_configs v" by (rule ext) (simp add: plain_configs_def)
  show ?thesis
    using run v(2) assms(4) d(4) L C by (intro exI [of _ ?data] exI [of _ ?w]) (auto simp: same_shape_def merged_def kept_def)
qed

text \<open>
  The specification of an addition: the entry of the service gets the new gateway in the family of
  the type and keeps the other one.
\<close>

definition entry_add :: "connman_ipconfig_type \<Rightarrow> int \<Rightarrow> gateway_config \<Rightarrow> gw_entry option \<Rightarrow> gw_entry" where
  "entry_add type index c e = (index, merged type (Some c) (case e of None \<Rightarrow> None | Some (i, cs) \<Rightarrow> kept type cs))"

lemma links_entry_merged:
  "links_entry K (i, s, merged type (Some a) g) = (i, merged type (K a) (Option.bind g K))"
  by (simp add: links_entry_def merged_def)

lemma add_gateway_first:
  assumes wf: "gw_wf w" and h: "gateway_hash w = Some h" "map_of h s = None"
    and arg: "g \<noteq> []" "ge_mem_data env (gw_now w)" "ge_mem_config env (gw_now w)" "type \<noteq> TYPE_ALL"
  shows "\<exists>w'. add_gateway env s index (Some g) type w = Inr (Some (gw_next w), w') \<and> gw_wf w' \<and>
    gateway_entry w' = (gateway_entry w)(s \<mapsto> entry_add type index (new_config g) None) \<and>
    data_links w' = (data_links w)(gw_next w \<mapsto> (index, s, merged type (Some (Suc (gw_next w))) None)) \<and>
    gateway_hash w' \<noteq> None \<and> gw_refs w' = (gw_refs w)(s := gw_refs w s + 1)"
proof -
  let ?p = "gw_next w" and ?a = "Suc (gw_next w)"
  define data where "data = \<lparr>gd_index = index, gd_service = s, gd_order = ge_order env (gw_now w) s,
    gd_ipv4_gateway = (if type = TYPE_IPV4 then Some ?a else None), gd_ipv6_gateway = (if type = TYPE_IPV6 then Some ?a else None)\<rparr>"
  define w' where "w' = w\<lparr>gateway_hash := Some (h @ [(s, ?p)]), gw_datas := (gw_datas w)(?p \<mapsto> data),
    gw_configs := (gw_configs w)(?a \<mapsto> new_config g), gw_next := Suc ?a, gw_refs := (gw_refs w)(s := gw_refs w s + 1)\<rparr>"
  have run: "add_gateway env s index (Some g) type w = Inr (Some ?p, w')"
    using h arg by (simp add: add_gateway_def Let_def lookup_gateway_def table_of_def gateway_hash_replace_def w'_def data_def)
  note fresh = wf_fresh(1) [OF wf order_refl] wf_fresh(2) [OF wf, of ?a]
  have L: "data_links w' = (data_links w)(?p \<mapsto> (index, s, merged type (Some ?a) None))"
    using arg(4) by (cases type) (auto simp: data_links_def w'_def data_def merged_def)
  have C: "plain_configs w' = plain_configs w ++ [?a \<mapsto> new_config g]"
    by (rule ext) (simp add: plain_configs_def w'_def new_config_def)
  have s: "s \<notin> fst ` set h" using h(2) by (simp add: map_of_eq_None_iff)
  have "gw_wf w' \<and> gateway_entry w' = (gateway_entry w)(s \<mapsto> links_entry [?a \<mapsto> new_config g] (index, s, merged type (Some ?a) None))"
  proof (rule insert_entry_effect [OF wf h(1) s _ _ _ fresh(1) L C])
    show "gateway_hash w' = Some (h @ [(s, ?p)])" "gw_next w \<le> gw_next w'" "?p < gw_next w'"
        "\<forall>a \<in> owned (merged type (Some ?a) None). a < gw_next w'"
      by (simp_all add: w'_def owned_families)
    show "distinct (map fst (h @ [(s, ?p)]))" using wf h(1) s by (auto simp: gw_wf_def)
    show "owned (merged type (Some ?a) None) \<inter> dom (plain_configs w) = {}" using fresh(2) by (auto simp: owned_families simp del: dom_plain_configs)
    show "fst (merged type (Some ?a) None) = None \<or> fst (merged type (Some ?a) None) \<noteq> snd (merged type (Some ?a) None)"
      by (simp add: merged_def)
  qed (simp_all add: owned_families)
  then show ?thesis using run L by (auto simp: links_entry_merged entry_add_def w'_def)
qed

lemma replaced_key:
  assumes "distinct (map fst h)" and "(s, q) \<in> set h"
  shows "set (map (\<lambda>(k, v). (k, if k = s then p else v)) h) = insert (s, p) (set (filter (\<lambda>e. fst e \<noteq> s) h))"
  using assms by (auto simp: image_iff split: if_splits) force+

lemma add_gateway_again:
  assumes wf: "gw_wf w" and h: "gateway_hash w = Some h" "map_of h s = Some q" and l: "data_links w q = Some (i, s, gs)"
    and arg: "g \<noteq> []" "ge_mem_data env (gw_now w)" "ge_mem_config env (gw_now w)" "type \<noteq> TYPE_ALL"
  shows "\<exists>w'. add_gateway env s index (Some g) type w = Inr (Some (gw_next w), w') \<and>
    gateway_hash w' = Some (map (\<lambda>(k, v). (k, if k = s then gw_next w else v)) h) \<and>
    data_links w' = (data_links w)(q := None, gw_next w \<mapsto> (index, s, merged type (Some (Suc (gw_next w))) (kept type gs))) \<and>
    plain_configs w' = ((plain_configs w)(Suc (gw_next w) \<mapsto> new_config g)) |` (- set_option (replaced type gs)) \<and>
    gw_next w' = Suc (Suc (gw_next w)) \<and> gw_refs w' = (gw_refs w)(s := gw_refs w s + 1)"
proof -
  let ?p = "gw_next w" and ?a = "Suc (gw_next w)" and ?h = "map (\<lambda>(k, v). (k, if k = s then gw_next w else v)) h"
  define data where "data = \<lparr>gd_index = index, gd_service = s, gd_order = ge_order env (gw_now w) s,
    gd_ipv4_gateway = (if type = TYPE_IPV4 then Some ?a else None), gd_ipv6_gateway = (if type = TYPE_IPV6 then Some ?a else None)\<rparr>"
  define w1 where "w1 = w\<lparr>gw_next := Suc ?a, gw_configs := (gw_configs w)(?a \<mapsto> new_config g)\<rparr>"
  have L1: "data_links w1 = data_links w" and C1: "plain_configs w1 = (plain_configs w)(?a \<mapsto> new_config g)"
    by (auto simp: data_links_def plain_configs_def w1_def new_config_def)
  have nd: "no_dangling w1" using no_danglingD [OF wf_no_dangling [OF wf]]
    by (auto simp: no_dangling_def L1) (fastforce simp: w1_def)
  have dm: "(gd_ipv4_gateway data, gd_ipv6_gateway data) = merged type (Some ?a) None"
    using arg(4) by (cases type) (simp_all add: data_def merged_def)
  have flds: "gd_index data = index" "gd_service data = s" "gateway_hash w1 = Some h" "gw_next w1 = Suc ?a" "gw_refs w1 = gw_refs w"
    using h(1) by (simp_all add: data_def w1_def)
  obtain data' w2 where w2: "take_over env type q data w1 = Inr (data', w2)" "gd_index data' = index" "gd_service data' = s"
      "(gd_ipv4_gateway data', gd_ipv6_gateway data') = merged type (Some ?a) (kept type gs)"
      "data_links w2 = (data_links w)(q \<mapsto> (i, s, merged type (replaced type gs) None))" "plain_configs w2 = plain_configs w1"
      "gateway_hash w2 = Some h" "gw_next w2 = Suc ?a" "gw_refs w2 = gw_refs w"
    using take_over_effect [OF nd l [folded L1] arg(4) dm, of env] unfolding L1 flds by (elim exE conjE) (rule that)
  have qp: "q \<noteq> ?p" using l wf_fresh(1) [OF wf order_refl] by auto
  obtain d2 where d2: "gw_datas w2 q = Some d2" "(gd_ipv4_gateway d2, gd_ipv6_gateway d2) = merged type (replaced type gs) None"
    using fun_cong [OF w2(5), of q] by (auto simp: data_links_def)
  let ?w3 = "w2\<lparr>gw_datas := (gw_datas w2)(?p \<mapsto> data'), gw_refs := (gw_refs w2)(s := gw_refs w2 s + 1)\<rparr>"
  define w' where "w' = w2\<lparr>gateway_hash := Some ?h, gw_datas := ((gw_datas w2)(?p \<mapsto> data'))(q := None),
    gw_configs := gw_configs w2 |` (- set_option (replaced type gs)), gw_refs := (gw_refs w2)(s := gw_refs w2 s + 1)\<rparr>"
  have own: "owned (gd_ipv4_gateway d2, gd_ipv6_gateway d2) = set_option (replaced type gs)" by (simp only: d2(2) owned_families) simp
  have live: "set_option (replaced type gs) \<subseteq> dom (gw_configs w2)"
  proof
    fix x assume "x \<in> set_option (replaced type gs)"
    then have "x \<in> dom (plain_configs w)" using no_danglingD [OF wf_no_dangling [OF wf] l, of x] by (auto simp: owned_families(2) [of gs type])
    then show "x \<in> dom (gw_configs w2)" unfolding dom_plain_configs [symmetric] w2(6) C1 by simp
  qed
  have "gd_ipv4_gateway d2 = None \<or> gd_ipv4_gateway d2 \<noteq> gd_ipv6_gateway d2" using d2(2) by (auto simp: merged_def split: if_splits)
  then have "remove_gateway q (?w3\<lparr>gateway_hash := Some ?h\<rparr>) = Inr w'"
    using remove_gateway_effect [of "?w3\<lparr>gateway_hash := Some ?h\<rparr>" q d2] d2(1) qp live own by (simp add: w'_def)
  moreover have "map_of h s = Some q" by (rule h(2))
  ultimately have "add_gateway env s index (Some g) type w = Inr (Some ?p, w')"
    using arg w2(1,7) h(1) by (simp add: add_gateway_def Let_def lookup_gateway_def table_of_def gateway_hash_replace_def
      data_def [symmetric] w1_def [symmetric] flds)
  moreover have "data_links w' = (data_links w)(q := None, ?p \<mapsto> (index, s, merged type (Some ?a) (kept type gs)))"
    using w2(2-4) qp fun_cong [OF w2(5)] by (intro ext) (auto simp: data_links_def w'_def)
  moreover have "plain_configs w' = ((plain_configs w)(?a \<mapsto> new_config g)) |` (- set_option (replaced type gs))"
    using fun_cong [OF w2(6)] by (intro ext) (simp add: plain_configs_def w'_def C1 [symmetric] restrict_map_def)
  ultimately show ?thesis using w2(8,9) by (intro exI [of _ w']) (simp add: w'_def)
qed

lemma wf_families:
  assumes "gw_wf w" and "data_links w q = Some (i, s, gs)"
  shows "fst gs = None \<or> fst gs \<noteq> snd gs"
  using assms unfolding gw_wf_def links_ok_def by (metis prod.collapse)

lemma add_gateway_again_effect:
  assumes wf: "gw_wf w" and h: "gateway_hash w = Some h" "map_of h s = Some q" and l: "data_links w q = Some (i, s, gs)"
    and arg: "g \<noteq> []" "ge_mem_data env (gw_now w)" "ge_mem_config env (gw_now w)" "type \<noteq> TYPE_ALL"
  shows "\<exists>w'. add_gateway env s index (Some g) type w = Inr (Some (gw_next w), w') \<and> gw_wf w' \<and>
    gateway_entry w' = (gateway_entry w)(s \<mapsto> entry_add type index (new_config g) (gateway_entry w s)) \<and>
    data_links w' = (data_links w)(q := None, gw_next w \<mapsto> (index, s, merged type (Some (Suc (gw_next w))) (kept type gs))) \<and>
    gateway_hash w' \<noteq> None \<and> gw_refs w' = (gw_refs w)(s := gw_refs w s + 1)"
proof -
  let ?p = "gw_next w" and ?a = "Suc (gw_next w)" and ?h = "map (\<lambda>(k, v). (k, if k = s then gw_next w else v)) h"
  let ?gs = "merged type (Some ?a) (kept type gs)" and ?f = "filter (\<lambda>e. fst e \<noteq> s) h"
  obtain w' where w': "add_gateway env s index (Some g) type w = Inr (Some ?p, w')" "gateway_hash w' = Some ?h"
    "data_links w' = (data_links w)(q := None, ?p \<mapsto> (index, s, ?gs))"
    "plain_configs w' = ((plain_configs w)(?a \<mapsto> new_config g)) |` (- set_option (replaced type gs))"
    "gw_next w' = Suc ?a" "gw_refs w' = (gw_refs w)(s := gw_refs w s + 1)"
    using add_gateway_again [OF wf h l arg, of index] by (elim exE conjE) (rule that)
  obtain u where u: "gw_wf u" "gateway_hash u = Some ?f" "gateway_entry u = (gateway_entry w)(s := None)"
      "gw_next u = ?p" "data_links u = (data_links w)(q := None)" "plain_configs u = plain_configs w |` (- owned gs)"
    using gateway_hash_remove_effect [OF wf h] l by auto
  define K where "K = (plain_configs w |` set_option (kept type gs))(?a \<mapsto> new_config g)"
  have own: "owned gs \<subseteq> dom (plain_configs w)" using no_danglingD [OF wf_no_dangling [OF wf] l] by auto
  have lt: "a < ?p" if "a \<in> owned gs" for a
    using own that wf_fresh(2) [OF wf, of a] by (metis domIff not_less subsetD)
  have ne: "x \<notin> set_option (kept type gs) \<or> x \<notin> set_option (replaced type gs)" for x
    using wf_families [OF wf l] by (auto simp: kept_def replaced_def)
  have os: "owned gs = set_option (replaced type gs) \<union> set_option (kept type gs)" by (rule owned_families)
  have C: "plain_configs w' = plain_configs u ++ K"
  proof
    fix x show "plain_configs w' x = (plain_configs u ++ K) x"
      using ne [of x] lt [of x] wf_fresh(2) [OF wf, of ?a] by (auto simp: w'(4) u(6) K_def map_add_def restrict_map_def os split: option.splits)
  qed
  have dK: "dom K = owned ?gs" using own by (auto simp: K_def owned_families os simp del: dom_plain_configs)
  have "gw_wf w' \<and> gateway_entry w' = (gateway_entry u)(s \<mapsto> links_entry K (index, s, ?gs))"
  proof (rule insert_entry_effect [OF u(1,2) _ w'(2) _ _ _ _ C dK])
    show "s \<notin> fst ` set ?f" "data_links u ?p = None" using wf_fresh(1) [OF wf order_refl] by (auto simp: u(5))
    show "distinct (map fst ?h)" using wf h(1) by (simp add: gw_wf_def case_prod_beta comp_def)
    show "set ?h = insert (s, ?p) (set ?f)"
      using wf h by (intro replaced_key [where q = q]) (auto simp: gw_wf_def dest: map_of_SomeD)
    show "data_links w' = (data_links u)(?p \<mapsto> (index, s, ?gs))" by (simp add: w'(3) u(5))
    show "owned ?gs \<inter> dom (plain_configs u) = {}"
      using wf_fresh(2) [OF wf, of ?a] by (auto simp: owned_families u(6) os simp del: dom_plain_configs)
    show "\<forall>a \<in> owned ?gs. a < gw_next w'" using lt by (auto simp: owned_families os w'(5) less_Suc_eq)
    show "fst ?gs = None \<or> fst ?gs \<noteq> snd ?gs" using lt [of ?a] by (auto simp: merged_def os)
  qed (simp_all add: owned_families w'(5) u(4))
  moreover have "links_entry K (index, s, ?gs) = entry_add type index (new_config g) (gateway_entry w s)"
  proof -
    have e: "gateway_entry w s = Some (links_entry (plain_configs w) (i, s, gs))" using h l by (simp add: gateway_entry_def)
    have "Option.bind (kept type gs) K = kept type (snd (links_entry (plain_configs w) (i, s, gs)))"
      using lt [of ?a] by (cases gs) (auto simp: K_def kept_def links_entry_def owned_def restrict_map_def split: Option.bind_splits)
    then show ?thesis by (simp add: links_entry_merged entry_add_def e K_def split_def)
  qed
  ultimately show ?thesis using w' u(3) by (intro exI [of _ w']) simp
qed

text \<open>Both cases together: an addition refines the update of the abstract map.\<close>

definition without_service :: "svc \<Rightarrow> (addr \<rightharpoonup> int \<times> svc \<times> addr option \<times> addr option) \<Rightarrow> addr \<rightharpoonup> int \<times> svc \<times> addr option \<times> addr option" where
  "without_service s L q = (case L q of None \<Rightarrow> None | Some l \<Rightarrow> if fst (snd l) = s then None else Some l)"

lemma without_service_entry:
  assumes "gw_wf w" and "gateway_hash w = Some h"
  shows "without_service s (data_links w) = (case map_of h s of None \<Rightarrow> data_links w | Some q \<Rightarrow> (data_links w)(q := None))"
proof
  fix x
  have "map_of h s = Some x \<longleftrightarrow> (\<exists>l. data_links w x = Some l \<and> fst (snd l) = s)"
    unfolding map_of_entry [OF assms] by (metis fst_conv prod.collapse snd_conv)
  then show "without_service s (data_links w) x = (case map_of h s of None \<Rightarrow> data_links w | Some q \<Rightarrow> (data_links w)(q := None)) x"
    by (auto simp: without_service_def split: option.split)
qed

lemma add_gateway_effect:
  assumes wf: "gw_wf w" and h: "gateway_hash w \<noteq> None"
    and arg: "g \<noteq> []" "ge_mem_data env (gw_now w)" "ge_mem_config env (gw_now w)" "type \<noteq> TYPE_ALL"
  shows "\<exists>w' gs. add_gateway env s index (Some g) type w = Inr (Some (gw_next w), w') \<and> gw_wf w' \<and>
    gateway_entry w' = (gateway_entry w)(s \<mapsto> entry_add type index (new_config g) (gateway_entry w s)) \<and>
    data_links w' = (without_service s (data_links w))(gw_next w \<mapsto> (index, s, gs)) \<and> replaced type gs \<noteq> None \<and>
    gateway_hash w' \<noteq> None \<and> gw_refs w' = (gw_refs w)(s := gw_refs w s + 1)"
proof -
  obtain h' where h': "gateway_hash w = Some h'" using h by blast
  have m: "replaced type (merged type (Some (Suc (gw_next w))) k) \<noteq> None" for k by (simp add: merged_def replaced_def)
  show ?thesis
  proof (cases "map_of h' s")
    case None
    then have e: "gateway_entry w s = None" by (simp add: gateway_entry_def h')
    show ?thesis unfolding without_service_entry [OF wf h'] e None option.case
      using add_gateway_first [OF wf h' None arg, of index] m [of None] by (elim exE conjE) (intro exI conjI)
  next
    case (Some q)
    then obtain i gs where l: "data_links w q = Some (i, s, gs)" using map_of_entry [OF wf h'] by blast
    show ?thesis unfolding without_service_entry [OF wf h'] Some option.case
      using add_gateway_again_effect [OF wf h' Some l arg, of index] m [of "kept type gs"] by (elim exE conjE) (intro exI conjI)
  qed
qed

section \<open>Changing one configuration\<close>

lemma set_config_links [simp]:
  "data_links (set_config g f w) = data_links w" "gateway_hash (set_config g f w) = gateway_hash w"
  "gw_next (set_config g f w) = gw_next w" "gw_refs (set_config g f w) = gw_refs w" "gw_trace (set_config g f w) = gw_trace w"
  "dom (plain_configs (set_config g f w)) = dom (plain_configs w)" "gw_datas (set_config g f w) = gw_datas w"
  by (auto simp: set_config_def data_links_def [abs_def] plain_configs_def split: option.splits if_splits)

lemma set_config_wf [simp]: "gw_wf (set_config g f w) = gw_wf w"
  by (simp add: gw_wf_def del: dom_plain_configs split: option.split)

text \<open>A change that does not depend on the flag \<open>active\<close>.\<close>

definition flagless :: "(gateway_config \<Rightarrow> gateway_config) \<Rightarrow> bool" where
  "flagless f \<longleftrightarrow> (\<forall>c. (f c)\<lparr>gc_active := False\<rparr> = f (c\<lparr>gc_active := False\<rparr>))"

definition entry_map :: "connman_ipconfig_type \<Rightarrow> (gateway_config \<Rightarrow> gateway_config) \<Rightarrow> gw_entry \<Rightarrow> gw_entry" where
  "entry_map type f e = (fst e, merged type (map_option f (replaced type (snd e))) (kept type (snd e)))"

lemma entry_map_add: "entry_map type f (entry_add type index c e) = entry_add type index (f c) e"
  by (simp add: entry_map_def entry_add_def merged_def replaced_def kept_def)

lemma set_config_plain:
  assumes "flagless f"
  shows "plain_configs (set_config (Some a) f w) = (plain_configs w)(a := map_option f (plain_configs w a))"
  using assms by (intro ext) (simp add: plain_configs_def set_config_def option.map_comp o_def flagless_def)

lemma set_config_entry:
  assumes wf: "gw_wf w" and l: "data_links w p = Some (i, s, gs)" and g: "replaced type gs = Some a" and f: "flagless f"
  shows "gateway_entry (set_config (Some a) f w) = (gateway_entry w)(s := map_option (entry_map type f) (gateway_entry w s))"
proof
  fix t
  let ?w = "set_config (Some a) f w"
  obtain h where h: "gateway_hash w = Some h" using wf l by (auto simp: gw_wf_def split: option.splits)
  then have hw: "gateway_hash ?w = Some h" by simp
  have a: "a \<in> owned gs" using g by (simp add: owned_families(2) [of gs type])
  show "gateway_entry ?w t = ((gateway_entry w)(s := map_option (entry_map type f) (gateway_entry w s))) t"
  proof (cases "t = s")
    case True
    have "a \<notin> set_option (kept type gs)" using wf_families [OF wf l] g by (auto simp: kept_def replaced_def split: if_splits)
    then have "links_entry (plain_configs ?w) (i, s, gs) = entry_map type f (links_entry (plain_configs w) (i, s, gs))"
      unfolding set_config_plain [OF f] using g
      by (cases gs) (auto simp: links_entry_def entry_map_def merged_def kept_def replaced_def split: if_splits Option.bind_splits)
    then show ?thesis using True l map_of_entry [OF wf h, of s p] hw h by (simp add: gateway_entry_def)
  next
    case False
    have "gateway_entry ?w t = gateway_entry w t"
    proof (rule gateway_entry_frame [OF h hw])
      fix q j u hs assume q: "map_of h t = Some q" "data_links w q = Some (j, u, hs)"
      then have "q \<noteq> p" using False l map_of_entry [OF wf h, of t q] by auto
      then show "data_links ?w q = data_links w q \<and> (\<forall>b \<in> owned hs. plain_configs ?w b = plain_configs w b)"
        using wf_disjoint [OF wf q(2) l] a by (auto simp: set_config_plain [OF f])
    qed (use map_of_entry [OF wf h] in \<open>auto\<close>)
    then show ?thesis using False by simp
  qed
qed

section \<open>Adding a gateway\<close>

definition any_address :: "connman_ipconfig_type \<Rightarrow> string" where
  "any_address type = (if type = TYPE_IPV4 then any4 else any6)"

text \<open>
  The configuration that an addition stores: a plain one, or for a VPN the end of the tunnel and
  the interface and gateway that carry it.
\<close>

definition tunnel_end :: "string \<Rightarrow> string option \<Rightarrow> gateway_config \<Rightarrow> gateway_config" where
  "tunnel_end gateway peer c = c\<lparr>gc_vpn := True, gc_vpn_ip := Some (case peer of Some s \<Rightarrow> s | None \<Rightarrow> gateway)\<rparr>"

definition tunnel_over :: "connman_ipconfig_type \<Rightarrow> int \<Rightarrow> string \<Rightarrow> gateway_config \<Rightarrow> gateway_config" where
  "tunnel_over type index phy c =
     c\<lparr>gc_vpn_phy_ip := (if phy \<noteq> any_address type then Some phy else gc_vpn_phy_ip c), gc_vpn_phy_index := index\<rparr>"

definition added_config ::
  "bool \<Rightarrow> connman_ipconfig_type \<Rightarrow> string \<Rightarrow> string option \<Rightarrow> (int \<times> string) option \<Rightarrow> gateway_config" where
  "added_config vpn type gateway peer carry =
     (if \<not> vpn then new_config gateway
      else case carry of
        None \<Rightarrow> tunnel_end gateway peer (new_config gateway)
      | Some (i, phy) \<Rightarrow> tunnel_over type i phy (tunnel_end gateway peer (new_config gateway)))"

lemma flagless_tunnel:
  "flagless (tunnel_end g peer)" "flagless (tunnel_over type i phy)" "flagless (\<lambda>c. c\<lparr>gc_vpn := b\<rparr>)"
  by (simp_all add: flagless_def tunnel_end_def tunnel_over_def)

text \<open>The interface and the gateway of an active object that carries the tunnel.\<close>

definition carrier :: "connman_ipconfig_type \<Rightarrow> gw_entry \<Rightarrow> (int \<times> string) option" where
  "carrier type e = map_option (\<lambda>c. (fst e, gc_gateway c)) (replaced type (snd e))"

lemma vpn_setup_links:
  assumes "type \<noteq> TYPE_ALL" and "gw_datas w p = Some d" and "replaced type (gd_ipv4_gateway d, gd_ipv6_gateway d) = Some a"
  shows "vpn_setup env s g type peer active p w =
    (if \<not> ge_is_vpn env s then Inr (set_config (Some a) (\<lambda>c. c\<lparr>gc_vpn := False\<rparr>) w)
     else let w1 = set_config (Some a) (tunnel_end g peer) w in
       case active of None \<Rightarrow> Inr w1
       | Some q \<Rightarrow> bind_r (data_at w1 q) (\<lambda>d'. bind_r (deref_config w1 (replaced type (gd_ipv4_gateway d', gd_ipv6_gateway d'))) (\<lambda>c.
           Inr (set_config (Some a) (tunnel_over type (gd_index d') (gc_gateway c)) w1))))"
  using assms by (cases type) (auto simp: vpn_setup_def vpn_setup4_def vpn_setup6_def tunnel_end_def [abs_def] tunnel_over_def [abs_def]
    any_address_def replaced_def data_at_def Let_def cong: option.case_cong)

lemma vpn_route_total:
  assumes "type \<noteq> TYPE_ALL" and "gw_datas w p = Some d" and "replaced type (gd_ipv4_gateway d, gd_ipv6_gateway d) = Some a" and "gw_configs w a = Some c"
    and "gc_vpn c \<Longrightarrow> \<exists>x. gw_datas w q = Some x \<and> (\<exists>b y. replaced type (gd_ipv4_gateway x, gd_ipv6_gateway x) = Some b \<and> gw_configs w b = Some y)"
  shows "succeeds (vpn_route type q p w) (same_shape w)"
  using assms by (cases type) (auto simp: vpn_route_def family_config_def config_at_def deref_config_def data_at_def is_vpn_def replaced_def)

text \<open>What is left of an addition once the object is in the table.\<close>

definition added_ok :: "gw_env \<Rightarrow> connman_ipconfig_type \<Rightarrow> svc \<Rightarrow> addr option \<Rightarrow> gw_world \<Rightarrow> bool" where
  "added_ok env type s active w \<longleftrightarrow> (ge_is_vpn env s \<longrightarrow> (\<forall>q. active = Some q \<longrightarrow>
     (\<exists>i t gs. data_links w q = Some (i, t, gs) \<and> t \<noteq> s \<and> replaced type gs \<noteq> None)))"

definition carried_by :: "connman_ipconfig_type \<Rightarrow> gw_world \<Rightarrow> addr \<Rightarrow> (int \<times> string) option" where
  "carried_by type w q = Option.bind (data_links w q) (\<lambda>l. carrier type (links_entry (plain_configs w) l))"

lemma carried_by_read:
  assumes "gw_wf w" and "data_links w q = Some (i, t, gs)" and "replaced type gs = Some b"
  shows "\<exists>x y. gw_datas w q = Some x \<and> gd_index x = i \<and> gs = (gd_ipv4_gateway x, gd_ipv6_gateway x) \<and>
    gw_configs w b = Some y \<and> carried_by type w q = Some (i, gc_gateway y)"
proof -
  obtain x where x: "gw_datas w q = Some x" "gd_index x = i" "gs = (gd_ipv4_gateway x, gd_ipv6_gateway x)"
    using assms(2) by (auto simp: data_links_def)
  have "b \<in> owned gs" using assms(3) by (simp add: owned_families(2) [of gs type])
  then obtain y where y: "gw_configs w b = Some y" using no_danglingD [OF wf_no_dangling [OF assms(1)] assms(2)] by blast
  have "carried_by type w q = Some (i, gc_gateway y)"
    using assms(2,3) y by (cases gs) (auto simp: carried_by_def carrier_def links_entry_def replaced_def plain_configs_def split: if_splits)
  then show ?thesis using x y by blast
qed

lemma same_shape_carried: "same_shape w w' \<Longrightarrow> carried_by type w' q = carried_by type w q"
  by (simp add: same_shape_def carried_by_def)

lemma vpn_setup_effect:
  assumes wf: "gw_wf w" and type: "type \<noteq> TYPE_ALL" and l: "data_links w p = Some (i, s, gs)" and g: "replaced type gs = Some a"
    and e: "gateway_entry w s = Some (entry_add type i (new_config gw) old)" and ok: "added_ok env type s active w"
  shows "\<exists>w'. vpn_setup env s gw type peer active p w = Inr w' \<and> gw_wf w' \<and> data_links w' = data_links w \<and>
    gateway_entry w' = (gateway_entry w)(s \<mapsto> entry_add type i
      (added_config (ge_is_vpn env s) type gw peer (Option.bind active (carried_by type w))) old) \<and>
    gateway_hash w' = gateway_hash w \<and> gw_refs w' = gw_refs w \<and> gw_next w' = gw_next w"
proof -
  obtain d where d: "gw_datas w p = Some d" "gs = (gd_ipv4_gateway d, gd_ipv6_gateway d)" using l by (auto simp: data_links_def)
  note run = vpn_setup_links [OF type d(1), of a env s gw peer active]
  note put = set_config_entry [OF _ _ g, of _ p i s]
  show ?thesis
  proof (cases "ge_is_vpn env s")
    case False
    have "entry_map type (\<lambda>c. c\<lparr>gc_vpn := False\<rparr>) (entry_add type i (new_config gw) old) = entry_add type i (new_config gw) old"
      unfolding entry_map_add by (simp add: new_config_def)
    then show ?thesis using run False d(2) g wf put [OF wf l flagless_tunnel(3)] e by (simp add: added_config_def)
  next
    case True
    let ?w1 = "set_config (Some a) (tunnel_end gw peer) w"
    have e1: "gateway_entry ?w1 = (gateway_entry w)(s \<mapsto> entry_add type i (tunnel_end gw peer (new_config gw)) old)"
      using put [OF wf l flagless_tunnel(1)] e by (simp add: entry_map_add)
    show ?thesis
    proof (cases active)
      case None
      then show ?thesis using run True d(2) g wf e1 by (simp add: added_config_def)
    next
      case (Some q)
      then obtain j t hs where q: "data_links w q = Some (j, t, hs)" "t \<noteq> s" "replaced type hs \<noteq> None"
        using ok True by (auto simp: added_ok_def)
      then obtain b where b: "replaced type hs = Some b" by blast
      obtain x y where x: "gw_datas w q = Some x" "gd_index x = j" "hs = (gd_ipv4_gateway x, gd_ipv6_gateway x)" "gw_configs w b = Some y"
          "carried_by type w q = Some (j, gc_gateway y)"
        using carried_by_read [OF wf q(1) b] by blast
      have "q \<noteq> p" using q l by auto
      then have "a \<noteq> b" using wf_disjoint [OF wf l q(1)] g b by (auto simp: owned_families(2) [of _ type])
      then have y: "gw_configs ?w1 b = Some y" using x(4) by (simp add: set_config_def)
      let ?f = "tunnel_over type j (gc_gateway y)"
      have "vpn_setup env s gw type peer active p w = Inr (set_config (Some a) ?f ?w1)"
        using run True d(2) g Some x b y by (simp add: data_at_def deref_config_def config_at_def)
      moreover have "gateway_entry (set_config (Some a) ?f ?w1) = (gateway_entry ?w1)(s := map_option (entry_map type ?f) (gateway_entry ?w1 s))"
        by (rule put) (use wf l in \<open>simp_all add: flagless_tunnel\<close>)
      ultimately show ?thesis using wf True Some x(5) by (simp add: e1 entry_map_add added_config_def)
    qed
  qed
qed

lemma entry_config:
  assumes wf: "gw_wf w" and l: "data_links w p = Some (i, s, gs)" and g: "replaced type gs = Some a"
    and e: "gateway_entry w s = Some (entry_add type j c0 old)"
  shows "\<exists>c. gw_configs w a = Some c \<and> c\<lparr>gc_active := False\<rparr> = c0"
proof -
  obtain d where d: "gw_datas w p = Some d" "i = gd_index d" "s = gd_service d" "gs = (gd_ipv4_gateway d, gd_ipv6_gateway d)"
    using l by (auto simp: data_links_def)
  have "entry_add type j c0 old = links_entry (plain_configs w) (i, s, gs)"
    using e gateway_entry_live [OF wf d(1)] by (simp add: d)
  then have "plain_configs w a = Some c0"
    using g by (cases gs) (auto simp: entry_add_def links_entry_def merged_def replaced_def split: if_splits)
  then show ?thesis by (auto simp: plain_configs_def)
qed

lemma added_ok_links: "data_links w' = data_links w \<Longrightarrow> added_ok env type s act w' = added_ok env type s act w"
  by (simp add: added_ok_def)

lemma added_finish:
  assumes wf: "gw_wf w" and type: "type \<noteq> TYPE_ALL" and l: "data_links w p = Some (i, s, gs)" and g: "replaced type gs = Some a"
    and e: "gateway_entry w s = Some (entry_add type j (added_config (ge_is_vpn env s) type gw peer carry) old)"
    and ok: "added_ok env type s active w"
  shows "succeeds (case active of
      None \<Rightarrow> bind_r (set_default_gateway env p type w) (\<lambda>w4. Inr (0, w4))
    | Some q \<Rightarrow> bind_r (vpn_route type q p w) (\<lambda>w4. Inr (0, w4))) (\<lambda>(r, w'). r = (0::int) \<and> same_shape w w')"
proof -
  obtain d where d: "gw_datas w p = Some d" "gs = (gd_ipv4_gateway d, gd_ipv6_gateway d)" using l by (auto simp: data_links_def)
  obtain c where c: "gw_configs w a = Some c" "gc_vpn c = ge_is_vpn env s"
  proof -
    obtain c where c: "gw_configs w a = Some c" "c\<lparr>gc_active := False\<rparr> = added_config (ge_is_vpn env s) type gw peer carry"
      using entry_config [OF wf l g e] by blast
    have "gc_vpn (added_config v type gw peer carry) = v" for v
      by (simp add: added_config_def new_config_def tunnel_over_def tunnel_end_def split: option.split prod.split)
    from this [of "ge_is_vpn env s", folded c(2)] show ?thesis using c(1) that by simp
  qed
  show ?thesis
  proof (cases active)
    case None
    then show ?thesis using set_default_gateway_total [OF wf, of p env type] d(1) by simp
  next
    case (Some q)
    have "succeeds (vpn_route type q p w) (same_shape w)"
    proof (rule vpn_route_total [OF type d(1) _ c(1)])
      show "replaced type (gd_ipv4_gateway d, gd_ipv6_gateway d) = Some a" using g d(2) by simp
      assume "gc_vpn c"
      then obtain j t hs b where q: "data_links w q = Some (j, t, hs)" "replaced type hs = Some b"
        using ok c(2) Some by (auto simp: added_ok_def)
      then show "\<exists>x. gw_datas w q = Some x \<and> (\<exists>b y. replaced type (gd_ipv4_gateway x, gd_ipv6_gateway x) = Some b \<and> gw_configs w b = Some y)"
        using carried_by_read [OF wf q] by fastforce
    qed
    then show ?thesis using Some by simp
  qed
qed

lemma carried_by_frame:
  assumes "gw_wf w" and "gw_wf w'" and "data_links w q = Some (i, t, gs)" and "data_links w' q = Some (i, t, gs)"
    and "gateway_entry w' t = gateway_entry w t"
  shows "carried_by type w' q = carried_by type w q"
proof -
  have "gateway_entry v t = Some (links_entry (plain_configs v) (i, t, gs))" if "gw_wf v" "data_links v q = Some (i, t, gs)" for v
    using that gateway_entry_live [OF that(1), of q] by (auto simp: data_links_def)
  then show ?thesis using assms by (simp add: carried_by_def)
qed

lemma without_service_Some [simp]:
  "without_service s L q = Some (i, t, gs) \<longleftrightarrow> t \<noteq> s \<and> L q = Some (i, t, gs)"
  by (auto simp: without_service_def split: option.split)

lemma added_config_frame:
  assumes wf: "gw_wf w" "gw_wf v" and ok: "added_ok env type s active w"
    and L: "data_links v = (without_service s (data_links w))(gw_next w \<mapsto> l)" and E: "\<And>t. t \<noteq> s \<Longrightarrow> gateway_entry v t = gateway_entry w t"
  shows "added_config (ge_is_vpn env s) type g peer (Option.bind active (carried_by type v)) =
      added_config (ge_is_vpn env s) type g peer (Option.bind active (carried_by type w))"
    and "added_ok env type s active v"
proof -
  have fresh: "data_links w (gw_next w) = None" by (rule wf_fresh(1) [OF wf(1) order_refl])
  show "added_ok env type s active v" using ok fresh by (auto simp: added_ok_def L)
  have "Option.bind active (carried_by type v) = Option.bind active (carried_by type w)" if v: "ge_is_vpn env s"
  proof (cases active)
    case (Some q)
    then obtain i t gs' where q: "data_links w q = Some (i, t, gs')" "t \<noteq> s" using ok v by (auto simp: added_ok_def)
    then have "q \<noteq> gw_next w" using fresh by auto
    then show ?thesis using carried_by_frame [OF wf q(1)] q Some E by (simp add: L)
  qed simp
  then show "added_config (ge_is_vpn env s) type g peer (Option.bind active (carried_by type v)) =
      added_config (ge_is_vpn env s) type g peer (Option.bind active (carried_by type w))"
    by (cases "ge_is_vpn env s") (simp_all add: added_config_def)
qed

text \<open>The whole addition.\<close>

lemma gateway_add_effect:
  assumes wf: "gw_wf w" and h: "gateway_hash w \<noteq> None" and it: "iter_ok env"
    and mem: "ge_mem_data env (gw_now w)" "ge_mem_config env (gw_now w)"
    and arg: "type \<noteq> TYPE_ALL" "default_address type gateway = Some g" "g \<noteq> []"
    and act: "find_active_gateway env w = Inr active" and ok: "added_ok env type s active w"
  shows "\<exists>w'. gateway_add env s gateway type peer w = Inr (0, w') \<and> gw_wf w' \<and> gateway_hash w' \<noteq> None \<and>
    gateway_entry w' = (gateway_entry w)(s \<mapsto> entry_add type (ge_index env (gw_now w) s)
      (added_config (ge_is_vpn env s) type g peer (Option.bind active (carried_by type w))) (gateway_entry w s)) \<and>
    gw_refs w' = (gw_refs w)(s := gw_refs w s + 1)"
proof -
  let ?p = "gw_next w" and ?i = "ge_index env (gw_now w) s"
  obtain w1 gs where w1: "add_gateway env s ?i (Some g) type w = Inr (Some ?p, w1)" "gw_wf w1"
      "gateway_entry w1 = (gateway_entry w)(s \<mapsto> entry_add type ?i (new_config g) (gateway_entry w s))"
      "data_links w1 = (without_service s (data_links w))(?p \<mapsto> (?i, s, gs))" "replaced type gs \<noteq> None"
      "gateway_hash w1 \<noteq> None" "gw_refs w1 = (gw_refs w)(s := gw_refs w s + 1)"
    using add_gateway_effect [OF wf h arg(3) mem arg(1), of s ?i] by (elim exE conjE) (rule that)
  then obtain a where a: "replaced type gs = Some a" by blast
  have l1: "data_links w1 ?p = Some (?i, s, gs)" using w1(4) by simp
  then have "live w1 ?p" by (auto simp: data_links_def)
  then obtain w2 where w2: "announce_gateway env s ?i type ?p w1 = Inr w2" "same_shape w1 w2"
    using announce_gateway_total [OF w1(2) _ it, of ?p s ?i type] by (auto simp: succeeds_def)
  have s2: "gw_wf w2" "data_links w2 = data_links w1" "gateway_entry w2 = gateway_entry w1" "gateway_hash w2 = gateway_hash w1" "gw_refs w2 = gw_refs w1"
    using w2(2) same_shape_wf [OF w2(2)] w1(2) same_shape_entry [OF w2(2)] by (simp_all add: same_shape_def)
  have ok1: "added_ok env type s active w2" and cfg: "added_config (ge_is_vpn env s) type g peer (Option.bind active (carried_by type w2)) =
      added_config (ge_is_vpn env s) type g peer (Option.bind active (carried_by type w))"
    using added_config_frame [OF wf s2(1) ok, where l = "(?i, s, gs)"] by (simp_all add: s2 w1)
  have l2: "data_links w2 ?p = Some (?i, s, gs)" using l1 s2(2) by simp
  have e2: "gateway_entry w2 s = Some (entry_add type ?i (new_config g) (gateway_entry w s))" by (simp add: s2(3) w1(3))
  obtain w3 where w3: "vpn_setup env s g type peer active ?p w2 = Inr w3" "gw_wf w3" "data_links w3 = data_links w2"
      "gateway_entry w3 = (gateway_entry w2)(s \<mapsto> entry_add type ?i
        (added_config (ge_is_vpn env s) type g peer (Option.bind active (carried_by type w))) (gateway_entry w s))"
      "gateway_hash w3 = gateway_hash w2" "gw_refs w3 = gw_refs w2"
    using vpn_setup_effect [OF s2(1) arg(1) l2 a e2 ok1, of peer] unfolding cfg by blast
  have l3: "data_links w3 ?p = Some (?i, s, gs)" using l2 w3(3) by simp
  have e3: "gateway_entry w3 s = Some (entry_add type ?i
        (added_config (ge_is_vpn env s) type g peer (Option.bind active (carried_by type w))) (gateway_entry w s))" using w3(4) by simp
  have ok3: "added_ok env type s active w3" using ok1 added_ok_links [OF w3(3)] by simp
  obtain w4 where w4: "(case active of
      None \<Rightarrow> bind_r (set_default_gateway env ?p type w3) (\<lambda>w4. Inr (0, w4))
    | Some q \<Rightarrow> bind_r (vpn_route type q ?p w3) (\<lambda>w4. Inr (0, w4))) = Inr (0 :: int, w4)" "same_shape w3 w4"
    using added_finish [OF w3(2) arg(1) l3 a e3 ok3] by (auto simp: succeeds_def)
  have "gateway_add env s gateway type peer w = Inr (0, w4)"
    using w4(1) by (simp add: gateway_add_def act arg(2) w1(1) w2(1) w3(1))
  then show ?thesis using w4(2) same_shape_wf [OF w4(2)] same_shape_entry [OF w4(2)] w3 s2 w1
    by (intro exI [of _ w4]) (simp add: same_shape_def)
qed

section \<open>Additions that fail\<close>

definition add_refused :: "gw_env \<Rightarrow> connman_ipconfig_type \<Rightarrow> string option \<Rightarrow> gw_world \<Rightarrow> bool" where
  "add_refused env type gateway w \<longleftrightarrow> default_address type gateway \<in> {None, Some []} \<or> type = TYPE_ALL \<or>
     \<not> ge_mem_data env (gw_now w) \<or> \<not> ge_mem_config env (gw_now w)"

lemma gateway_add_refused:
  assumes "gw_wf w" and "gateway_hash w \<noteq> None" and "iter_ok env" and "add_refused env type gateway w"
  shows "gateway_add env s gateway type peer w = Inr (- EINVAL, w)"
proof -
  obtain active where "find_active_gateway env w = Inr active"
    using find_active_total [OF assms(1) _ assms(3)] assms(2) by (auto simp: succeeds_def)
  then show ?thesis using assms(4) by (auto simp: gateway_add_def add_refused_def add_gateway_def Let_def split: option.split)
qed

lemma gateway_add_faults:
  assumes wf: "gw_wf w" and h: "gateway_hash w \<noteq> None" and it: "iter_ok env" and no: "\<not> add_refused env type gateway w"
    and act: "find_active_gateway env w = Inr (Some q)" and vpn: "ge_is_vpn env s"
    and q: "data_links w q = Some (i, t, gs)" and bad: "t = s \<or> replaced type gs = None"
  shows "gateway_add env s gateway type peer w = Inl (if t = s then UseAfterFree else NullDeref)"
proof -
  obtain g where g: "default_address type gateway = Some g" "g \<noteq> []" using no by (cases "default_address type gateway") (auto simp: add_refused_def)
  have arg: "ge_mem_data env (gw_now w)" "ge_mem_config env (gw_now w)" "type \<noteq> TYPE_ALL" using no by (auto simp: add_refused_def)
  let ?p = "gw_next w" and ?i = "ge_index env (gw_now w) s"
  obtain w1 hs where w1: "add_gateway env s ?i (Some g) type w = Inr (Some ?p, w1)" "gw_wf w1"
      "data_links w1 = (without_service s (data_links w))(?p \<mapsto> (?i, s, hs))" "replaced type hs \<noteq> None"
    using add_gateway_effect [OF wf h g(2) arg, of s ?i] by blast
  obtain a where a: "replaced type hs = Some a" using w1(4) by blast
  have "data_links w1 ?p = Some (?i, s, hs)" using w1(3) by simp
  then obtain w2 where w2: "announce_gateway env s ?i type ?p w1 = Inr w2" "same_shape w1 w2"
    using announce_gateway_total [OF w1(2) _ it, of ?p s ?i type] by (auto simp: succeeds_def data_links_def)
  have l2: "data_links w2 = data_links w1" using w2(2) by (simp add: same_shape_def)
  then have "data_links w2 ?p = Some (?i, s, hs)" using w1(3) by simp
  then obtain d where d: "gw_datas w2 ?p = Some d" "hs = (gd_ipv4_gateway d, gd_ipv6_gateway d)"
    by (auto simp: data_links_def)
  have "q \<noteq> ?p" using q wf_fresh(1) [OF wf order_refl] by auto
  then have lq: "data_links w2 q = (if t = s then None else Some (i, t, gs))" using q by (simp add: l2 w1(3) without_service_def)
  let ?w = "set_config (Some a) (tunnel_end g peer) w2"
  have "vpn_setup env s g type peer (Some q) ?p w2 = bind_r (data_at ?w q) (\<lambda>d'. bind_r
      (deref_config ?w (replaced type (gd_ipv4_gateway d', gd_ipv6_gateway d'))) (\<lambda>c.
        Inr (set_config (Some a) (tunnel_over type (gd_index d') (gc_gateway c)) ?w)))"
    using vpn_setup_links [OF arg(3) d(1), of a] a d(2) vpn by (simp add: Let_def)
  also have "\<dots> = Inl (if t = s then UseAfterFree else NullDeref)"
    using lq bad by (auto simp: data_links_def data_at_def deref_config_def split: if_splits option.splits)
  finally show ?thesis by (simp add: gateway_add_def act g(1) w1(1) w2(1))
qed

section \<open>Removing a gateway\<close>

definition entry_dropped :: "connman_ipconfig_type \<Rightarrow> gw_entry \<Rightarrow> bool" where
  "entry_dropped type e \<longleftrightarrow> type = TYPE_ALL \<or> replaced type (snd e) \<noteq> None \<and> kept type (snd e) = None"

lemma refs_update:
  "data_links (w\<lparr>gw_refs := r\<rparr>) = data_links w" "plain_configs (w\<lparr>gw_refs := r\<rparr>) = plain_configs w"
  "gw_wf (w\<lparr>gw_refs := r\<rparr>) = gw_wf w" "gateway_entry (w\<lparr>gw_refs := r\<rparr>) = gateway_entry w"
proof -
  show *: "data_links (w\<lparr>gw_refs := r\<rparr>) = data_links w" "plain_configs (w\<lparr>gw_refs := r\<rparr>) = plain_configs w"
    by (auto simp: data_links_def plain_configs_def)
  show "gw_wf (w\<lparr>gw_refs := r\<rparr>) = gw_wf w" "gateway_entry (w\<lparr>gw_refs := r\<rparr>) = gateway_entry w"
    by (auto simp: gw_wf_def gateway_entry_def * simp del: dom_plain_configs split: option.split)
qed

lemma entry_families:
  assumes "gw_wf w" and "gw_datas w p = Some d" and "gateway_entry w (gd_service d) = Some e"
  shows "fst (snd e) = None \<longleftrightarrow> gd_ipv4_gateway d = None" "snd (snd e) = None \<longleftrightarrow> gd_ipv6_gateway d = None"
proof -
  have "e = (gd_index d, Option.bind (gd_ipv4_gateway d) (plain_configs w), Option.bind (gd_ipv6_gateway d) (plain_configs w))"
    using assms(3) gateway_entry_live [OF assms(1,2)] by (simp add: links_entry_def)
  moreover have "a \<in> owned (gd_ipv4_gateway d, gd_ipv6_gateway d) \<Longrightarrow> plain_configs w a \<noteq> None" for a
    using wf_links(2) [OF assms(1,2)] by (auto simp: plain_configs_def)
  ultimately show "fst (snd e) = None \<longleftrightarrow> gd_ipv4_gateway d = None" "snd (snd e) = None \<longleftrightarrow> gd_ipv6_gateway d = None"
    by (auto simp: owned_def bind_eq_None_conv split: Option.bind_splits)
qed

text \<open>The outcome of a removal on the abstract table.\<close>

definition removed_from :: "svc \<Rightarrow> connman_ipconfig_type \<Rightarrow> gw_world \<Rightarrow> gw_world \<Rightarrow> bool" where
  "removed_from s type w w' \<longleftrightarrow> gw_wf w' \<and> gateway_hash w' \<noteq> None \<and>
     (if \<exists>e. gateway_entry w s = Some e \<and> entry_dropped type e
      then gateway_entry w' = (gateway_entry w)(s := None) \<and> gw_refs w' = (gw_refs w)(s := gw_refs w s - 1)
      else gateway_entry w' = gateway_entry w \<and> gw_refs w' = gw_refs w)"

lemma removed_from_shape: "removed_from s type w v \<Longrightarrow> same_shape v w' \<Longrightarrow> removed_from s type w w'"
  using same_shape_wf [of v w'] same_shape_entry [of v w'] by (simp add: removed_from_def same_shape_def)

lemma remove_entry_effect:
  assumes wf: "gw_wf w" and h: "gateway_hash w = Some h" and p: "map_of h s = Some p" and d: "gw_datas w p = Some d" and sh: "same_shape w v"
  shows "succeeds (if do_ipv4 type = do_ipv6 type \<or> (gd_ipv4_gateway d \<noteq> None \<and> gd_ipv6_gateway d = None \<and> do_ipv4 type) \<or>
        (gd_ipv6_gateway d \<noteq> None \<and> gd_ipv4_gateway d = None \<and> do_ipv6 type)
      then gateway_hash_remove s (v\<lparr>gw_refs := (gw_refs v)(s := gw_refs v s - 1)\<rparr>) else Inr v) (removed_from s type w)"
    (is "succeeds (if ?drop then _ else _) _")
proof -
  have s: "gd_service d = s" using p map_of_entry [OF wf h] d by (auto simp: data_links_def)
  obtain e where e: "gateway_entry w s = Some e" using gateway_entry_live [OF wf d] s by simp
  have drop: "?drop = entry_dropped type e"
    using entry_families [OF wf d] e s by (cases type) (auto simp: entry_dropped_def kept_def replaced_def do_ipv4_def do_ipv6_def)
  have v: "gw_wf v" "gateway_hash v = Some h" "gw_refs v = gw_refs w" "gateway_entry v = gateway_entry w"
    using sh wf h same_shape_wf [OF sh] same_shape_entry [OF sh] by (simp_all add: same_shape_def)
  show ?thesis unfolding drop
    using gateway_hash_remove_effect [of "v\<lparr>gw_refs := (gw_refs v)(s := gw_refs v s - 1)\<rparr>" h s p] v p
    by (auto simp: refs_update succeeds_def removed_from_def e)
qed

lemma gateway_remove_effect:
  assumes wf: "gw_wf w" and h: "gateway_hash w = Some h" and it: "iter_ok env"
  shows "succeeds (gateway_remove env s type w) (removed_from s type w)"
proof (cases "map_of h s")
  case None
  then have "gateway_remove env s type w = Inr (gw_tell (Nameserver_del_routes s) w)"
    using h by (simp add: gateway_remove_def lookup_gateway_def table_of_def)
  moreover have "gateway_entry (gw_tell (Nameserver_del_routes s) w) = gateway_entry w"
    using same_shape_entry [of w "gw_tell (Nameserver_del_routes s) w"] by simp
  moreover have "gateway_entry w s = None" using None h by (simp add: gateway_entry_def)
  ultimately show ?thesis using h wf by (simp add: removed_from_def)
next
  case (Some p)
  then obtain d where d: "gw_datas w p = Some d" using map_of_entry [OF wf h] by (auto simp: data_links_def)
  note entry = remove_entry_effect [OF wf h Some d]
  have renew: "succeeds (if b then renew_default env type v else Inr v) (removed_from s type w)" if v: "removed_from s type w v" for b v
  proof -
    have "succeeds (renew_default env type v) (same_shape v)"
      using v set_default_any [OF _ _ it] by (auto simp: removed_from_def)
    then show ?thesis using v by (auto elim!: succeeds_mono intro: removed_from_shape)
  qed
  have disable: "succeeds (disable_gateway env p type v) (\<lambda>(r, w'). same_shape w w')" if v: "same_shape w v" for v
    using disable_gateway_total [of v p env type] same_shape_no_dangling [OF v] wf_no_dangling [OF wf] same_shape_live [OF v] d
    by (auto elim!: succeeds_mono intro: same_shape_trans [OF v])
  let ?cut = "\<lambda>v. if do_ipv4 type = do_ipv6 type \<or> (gd_ipv4_gateway d \<noteq> None \<and> gd_ipv6_gateway d = None \<and> do_ipv4 type) \<or>
        (gd_ipv6_gateway d \<noteq> None \<and> gd_ipv4_gateway d = None \<and> do_ipv6 type)
      then gateway_hash_remove s (v\<lparr>gw_refs := (gw_refs v)(s := gw_refs v s - 1)\<rparr>) else Inr v"
  have tail: "succeeds (disable_gateway env p type v) (\<lambda>x. succeeds (?cut (snd x))
      (\<lambda>w6. succeeds (if b (fst x) then renew_default env type w6 else Inr w6) (removed_from s type w)))" if v: "same_shape w v" for v b
  proof (rule succeeds_mono [OF disable [OF v]])
    fix x :: "int \<times> gw_world" assume "case x of (r, w') \<Rightarrow> same_shape w w'"
    then have "succeeds (?cut (snd x)) (removed_from s type w)" by (intro entry) (simp add: split_def)
    then show "succeeds (?cut (snd x)) (\<lambda>w6. succeeds (if b (fst x) then renew_default env type w6 else Inr w6) (removed_from s type w))"
      by (rule succeeds_mono) (rule renew)
  qed
  have rd: "gw_datas (gw_tell c w) p = Some d" "no_dangling (gw_tell c w)" for c
    using d wf_no_dangling [OF wf] same_shape_no_dangling [of w "gw_tell c w"] by simp_all
  let ?c4 = "if do_ipv4 type then Option.bind (gd_ipv4_gateway d) (gw_configs (gw_tell (Nameserver_del_routes s) w)) else None"
    and ?c6 = "if do_ipv6 type then Option.bind (gd_ipv6_gateway d) (gw_configs (gw_tell (Nameserver_del_routes s) w)) else None"
  show ?thesis
    unfolding gateway_remove_def Let_def succeeds_bind lookup_gateway_def table_of_def split_def
    using h Some rd(1) by (simp add: family_config_read [OF rd(2,1)] split del: if_split del: not_None_eq)
      (rule tail [where b = "\<lambda>r. is_vpn ?c4 \<or> is_vpn ?c6 \<or> r < 0"], simp)
qed

section \<open>Activating a gateway\<close>

lemma gateway_activate_cases:
  assumes wf: "gw_wf w" and h: "gateway_hash w = Some h"
  shows "case gateway_entry w s of
      None \<Rightarrow> gateway_activate s type w = Inr w
    | Some e \<Rightarrow>
        if type = TYPE_ALL then gateway_activate s type w = Inr w
        else if replaced type (snd e) = None then gateway_activate s type w = Inl NullDeref
        else succeeds (gateway_activate s type w) (same_shape w)"
proof (cases "map_of h s")
  case None
  then show ?thesis using h by (simp add: gateway_entry_def gateway_activate_def lookup_gateway_def table_of_def)
next
  case (Some p)
  then obtain d where d: "gw_datas w p = Some d" "gd_service d = s" using map_of_entry [OF wf h] by (auto simp: data_links_def)
  obtain e where e: "gateway_entry w s = Some e" using gateway_entry_live [OF wf d(1)] d(2) by simp
  note f = entry_families [OF wf d(1)] and c = no_dangling_config [OF wf_no_dangling [OF wf] d(1)]
  have "deref_config w g = (case g of None \<Rightarrow> Inl NullDeref | Some a \<Rightarrow> Inr (the (gw_configs w a)))"
    if g: "g = gd_ipv4_gateway d \<or> g = gd_ipv6_gateway d" for g
  proof (cases g)
    case (Some a)
    then obtain c where "gw_configs w a = Some c" using g c [of a] by auto
    then show ?thesis using Some by (simp add: deref_config_def config_at_def)
  qed (simp add: deref_config_def)
  then show ?thesis using e d(2) f Some h
    by (cases type) (auto simp: gateway_activate_def lookup_gateway_def table_of_def data_at_def d(1) replaced_def split: option.splits)
qed

section \<open>Cleaning up\<close>

lemma remove_all_effect:
  assumes "links_ok (data_links w) (dom (plain_configs w)) (gw_next w)" and "distinct (map snd es)"
    and "dom (data_links w) = snd ` set es"
  shows "\<exists>w'. remove_all es w = Inr w' \<and> data_links w' = Map.empty \<and> plain_configs w' = Map.empty \<and> gw_refs w' = gw_refs w \<and> gw_trace w' = gw_trace w"
  using assms
proof (induction es arbitrary: w)
  case Nil
  have "a \<notin> dom (plain_configs w)" for a using Nil unfolding links_ok_def by auto
  then have "plain_configs w = Map.empty" by (simp add: fun_eq_iff domIff del: dom_plain_configs)
  then show ?case using Nil by auto
next
  case (Cons e es)
  obtain s p where e: "e = (s, p)" by (rule prod.exhaust)
  have "p \<in> dom (data_links w)" using Cons.prems(3) e by simp
  then obtain i t g4 g6 where l: "data_links w p = Some (i, t, g4, g6)" by (metis domD prod_cases4)
  then obtain d where d: "gw_datas w p = Some d" "g4 = gd_ipv4_gateway d" "g6 = gd_ipv6_gateway d" by (auto simp: data_links_def)
  let ?w = "w\<lparr>gw_datas := (gw_datas w)(p := None), gw_configs := gw_configs w |` (- owned (g4, g6))\<rparr>"
  have lk: "owned (g4, g6) \<subseteq> dom (gw_configs w)" "g4 = None \<or> g4 \<noteq> g6"
    using Cons.prems(1) l unfolding links_ok_def dom_plain_configs by blast+
  have run: "remove_gateway p w = Inr ?w" using remove_gateway_effect [OF d(1)] lk d by simp
  have L: "data_links ?w = (data_links w)(p := None)" by (rule ext) (simp add: data_links_def)
  have C: "dom (plain_configs ?w) = dom (plain_configs w) - owned (g4, g6)" by auto
  have "links_ok (data_links ?w) (dom (plain_configs ?w)) (gw_next ?w)"
    unfolding L C using links_ok_remove [OF Cons.prems(1) l] by simp
  moreover have "dom (data_links ?w) = snd ` set es" using Cons.prems(2,3) e unfolding L by auto
  ultimately obtain w' where "remove_all es ?w = Inr w'" "data_links w' = Map.empty" "plain_configs w' = Map.empty"
      "gw_refs w' = gw_refs w" "gw_trace w' = gw_trace w"
    using Cons.IH [of ?w] Cons.prems(2) by auto
  then show ?case using run e by simp
qed

lemma empty_wf: "data_links w = Map.empty \<Longrightarrow> plain_configs w = Map.empty \<Longrightarrow> gateway_hash w \<in> {None, Some []} \<Longrightarrow> gw_wf w"
  by (auto simp: gw_wf_def links_ok_def simp del: dom_plain_configs)

lemma iter_distinct: "iter_ok env \<Longrightarrow> distinct h \<Longrightarrow> distinct (ge_iter env h)"
  by (metis card_distinct distinct_card iter_ok_def)

lemma connection_cleanup_effect:
  assumes wf: "gw_wf w" and h: "gateway_hash w = Some h" and it: "iter_ok env"
  shows "succeeds (connection_cleanup env w) (\<lambda>w'. gateway_hash w' = None \<and> gw_datas w' = Map.empty \<and> gw_configs w' = Map.empty)"
proof -
  have "\<forall>e \<in> set (ge_iter env h). live w (snd e)" using wf_live [OF wf h] iter_set [OF it] by auto
  then obtain w1 where w1: "disable_all env (ge_iter env h) w = Inr w1" "same_shape w w1"
    using disable_all_total [OF wf, of "ge_iter env h" env] by (auto simp: succeeds_def)
  have dk: "distinct (map fst h)" using wf h by (simp add: gw_wf_def)
  have inj: "inj_on snd (set h)" using map_of_entry [OF wf h] wf_entries [OF wf h] by (intro inj_onI) (auto simp: prod_eq_iff)
  have "distinct (ge_iter env h)" using iter_distinct [OF it] dk by (simp add: distinct_map)
  then have "distinct (map snd (ge_iter env h))" using inj iter_set [OF it] by (simp add: distinct_map)
  moreover have "links_ok (data_links w1) (dom (plain_configs w1)) (gw_next w1)"
    using wf same_shape_wf [OF w1(2)] by (simp add: gw_wf_def)
  moreover have "dom (data_links w1) = snd ` set (ge_iter env h)"
    unfolding iter_set [OF it] set_eq_iff domIff data_links_None wf_live [OF wf h, folded same_shape_live [OF w1(2)]] by blast
  ultimately obtain w2 where w2: "remove_all (ge_iter env h) w1 = Inr w2" "data_links w2 = Map.empty" "plain_configs w2 = Map.empty"
    using remove_all_effect by blast
  have "gw_datas w2 = Map.empty" "gw_configs w2 = Map.empty"
    using fun_cong [OF w2(2)] fun_cong [OF w2(3)] by (auto simp: data_links_def plain_configs_def)
  then show ?thesis using h w1(1) w2(1) by (simp add: connection_cleanup_def table_of_def)
qed

end
