(* ===== verification/Gateway_Properties.thy ===== *)
theory Gateway_Properties
  imports Gateway_Operations
begin

text \<open>
  The properties of the gateway component: it is a state machine whose invariant is the
  well-formedness of the table, with the exact set of events that fault, the refinement of additions
  and removals to updates of the abstract table, and the choice of the default gateway.
\<close>

section \<open>The component as a state machine\<close>

text \<open>
  What the rest of the program does with this component: the calls of its interface and the events
  of the kernel, in any order, between \<open>init\<close> and \<open>cleanup\<close>. A step that would read freed memory
  or a null pointer does not exist.
\<close>

datatype gw_event =
    Gw_init int
  | Gw_cleanup
  | Gw_newgateway int "string option"
  | Gw_delgateway int "string option"
  | Gw_activate svc connman_ipconfig_type
  | Gw_add svc "string option" connman_ipconfig_type "string option"
  | Gw_remove svc connman_ipconfig_type
  | Gw_update

fun gateway_event :: "gw_env \<Rightarrow> gw_event \<Rightarrow> gw_world \<Rightarrow> gw_world result" where
  "gateway_event env (Gw_init err) w = Inr (snd (connection_init err w))"
| "gateway_event env Gw_cleanup w = connection_cleanup env w"
| "gateway_event env (Gw_newgateway index gateway) w = connection_newgateway env index gateway w"
| "gateway_event env (Gw_delgateway index gateway) w = connection_delgateway env index gateway w"
| "gateway_event env (Gw_activate s type) w = gateway_activate s type w"
| "gateway_event env (Gw_add s gateway type peer) w = bind_r (gateway_add env s gateway type peer w) (\<lambda>(r, w'). Inr w')"
| "gateway_event env (Gw_remove s type) w = gateway_remove env s type w"
| "gateway_event env Gw_update w = bind_r (update_gateway env w) (\<lambda>(b, w'). Inr w')"

definition in_order :: "gw_event \<Rightarrow> gw_world \<Rightarrow> bool" where
  "in_order e w \<longleftrightarrow> (case e of Gw_init err \<Rightarrow> gateway_hash w = None | _ \<Rightarrow> gateway_hash w \<noteq> None)"

definition gateway_step :: "gw_env \<times> gw_world \<Rightarrow> gw_event \<Rightarrow> (gw_env \<times> gw_world) option" where
  "gateway_step s e =
     (if \<not> in_order e (snd s) then None
      else case gateway_event (fst s) e (snd s) of Inl f \<Rightarrow> None | Inr w \<Rightarrow> Some (fst s, w))"

definition gw_boot :: gw_world where
  "gw_boot = \<lparr>gateway_hash = None, gw_datas = Map.empty, gw_configs = Map.empty, gw_next = 0, gw_refs = (\<lambda>s. 0), gw_trace = []\<rparr>"

definition gateway_start :: "gw_env \<times> gw_world \<Rightarrow> bool" where
  "gateway_start s \<longleftrightarrow> iter_ok (fst s) \<and> snd s = gw_boot"

definition gateway_inv :: "gw_env \<times> gw_world \<Rightarrow> bool" where
  "gateway_inv s \<longleftrightarrow> iter_ok (fst s) \<and> gw_wf (snd s)"

text \<open>The events that a well-formed state can take: exactly those that do not run into one of the three faults.\<close>

definition event_safe :: "gw_env \<Rightarrow> gw_event \<Rightarrow> gw_world \<Rightarrow> bool" where
  "event_safe env e w =
     (case e of
        Gw_activate s type \<Rightarrow> (case gateway_entry w s of None \<Rightarrow> True | Some x \<Rightarrow> type = TYPE_ALL \<or> replaced type (snd x) \<noteq> None)
      | Gw_add s gateway type peer \<Rightarrow> add_refused env type gateway w \<or>
          (case find_active_gateway env w of Inl f \<Rightarrow> False | Inr active \<Rightarrow> added_ok env type s active w)
      | _ \<Rightarrow> True)"

lemma shape_wf: "gw_wf w \<Longrightarrow> succeeds m (same_shape w) \<Longrightarrow> succeeds m gw_wf"
  using same_shape_wf by (auto elim!: succeeds_mono)

lemma not_refused:
  assumes "\<not> add_refused env type gateway w"
  obtains g where "default_address type gateway = Some g" "g \<noteq> []" "type \<noteq> TYPE_ALL" "ge_mem_data env (gw_now w)" "ge_mem_config env (gw_now w)"
  using assms by (cases "default_address type gateway") (auto simp: add_refused_def)

lemma gateway_add_event:
  assumes wf: "gw_wf w" and h: "gateway_hash w \<noteq> None" and it: "iter_ok env"
  shows "if event_safe env (Gw_add s gateway type peer) w then succeeds (gateway_add env s gateway type peer w) (\<lambda>(r, w'). gw_wf w')
    else \<exists>f. gateway_add env s gateway type peer w = Inl f"
proof (cases "add_refused env type gateway w")
  case True
  then show ?thesis using gateway_add_refused [OF wf h it] wf by (simp add: event_safe_def)
next
  case False
  obtain g where g: "default_address type gateway = Some g" "g \<noteq> []" "type \<noteq> TYPE_ALL" "ge_mem_data env (gw_now w)" "ge_mem_config env (gw_now w)"
    using False by (rule not_refused)
  obtain active where act: "find_active_gateway env w = Inr active" "\<And>q. active = Some q \<Longrightarrow> live w q"
    using find_active_total [OF wf _ it] h by (auto simp: succeeds_def split: option.splits)
  show ?thesis
  proof (cases "added_ok env type s active w")
    case True
    then show ?thesis using gateway_add_effect [OF wf h it g(4,5,3,1,2) act(1) True, of peer] by (auto simp: event_safe_def act(1))
  next
    case bad: False
    then obtain q where q: "active = Some q" "ge_is_vpn env s"
      "\<forall>i t gs. data_links w q = Some (i, t, gs) \<longrightarrow> t = s \<or> replaced type gs = None" by (auto simp: added_ok_def)
    obtain i t gs where l: "data_links w q = Some (i, t, gs)" using act(2) [OF q(1)] by (auto simp: data_links_def)
    then have "t = s \<or> replaced type gs = None" by (rule q(3) [rule_format])
    from gateway_add_faults [OF wf h it False act(1) [unfolded q(1)] q(2) l this, of peer]
    show ?thesis using bad False by (simp add: event_safe_def act(1))
  qed
qed

lemma gateway_event_cases:
  assumes wf: "gw_wf w" and it: "iter_ok env" and o: "in_order e w"
  shows "if event_safe env e w then succeeds (gateway_event env e w) gw_wf else \<exists>f. gateway_event env e w = Inl f"
proof (cases "gateway_hash w")
  case None
  then show ?thesis using o wf
    by (cases e) (auto simp: in_order_def event_safe_def connection_init_def gw_wf_def data_links_def [abs_def] plain_configs_def [abs_def] fun_eq_iff)
next
  case (Some h)
  show ?thesis
  proof (cases e)
    case (Gw_init err)
    then show ?thesis using o Some by (simp add: in_order_def)
  next
    case Gw_cleanup
    then show ?thesis using connection_cleanup_effect [OF wf Some it]
      by (auto simp: event_safe_def data_links_def plain_configs_def fun_eq_iff elim!: succeeds_mono intro!: empty_wf)
  next
    case (Gw_newgateway i g)
    then show ?thesis using connection_newgateway_total [OF wf Some it] shape_wf [OF wf] by (simp add: event_safe_def)
  next
    case (Gw_delgateway i g)
    then show ?thesis using connection_delgateway_total [OF wf Some it] shape_wf [OF wf] by (simp add: event_safe_def)
  next
    case (Gw_activate s type)
    then show ?thesis using gateway_activate_cases [OF wf Some, of s type] wf shape_wf [OF wf]
      by (auto simp: event_safe_def split: option.splits if_splits)
  next
    case (Gw_add s g type peer)
    then show ?thesis using gateway_add_event [OF wf _ it, of s g type peer] Some by (auto elim: succeeds_mono split: if_splits)
  next
    case (Gw_remove s type)
    then show ?thesis using gateway_remove_effect [OF wf Some it, of s type]
      by (auto simp: event_safe_def removed_from_def elim!: succeeds_mono)
  next
    case Gw_update
    then show ?thesis using update_gateway_total [OF wf it] same_shape_wf [of w] wf
      by (auto simp: event_safe_def elim!: succeeds_mono)
  qed
qed

interpretation gw: invariant_machine gateway_start gateway_step gateway_inv
proof
  fix s assume "gateway_start s"
  then show "gateway_inv s"
    by (auto simp: gateway_start_def gateway_inv_def gw_boot_def data_links_def plain_configs_def fun_eq_iff intro!: empty_wf)
next
  fix s e t assume "gateway_inv s" "gateway_step s e = Some t"
  then show "gateway_inv t" using gateway_event_cases [of "snd s" "fst s" e]
    by (auto simp: gateway_inv_def gateway_step_def succeeds_def split: if_splits sum.splits)
qed

section \<open>Choosing the default gateway\<close>

lemma order_after:
  assumes "gw_datas w' p = Some (d\<lparr>gd_order := n\<rparr>)"
  shows "order_of w' p = n"
  using assms by (simp add: order_of_def)

text \<open>
  The calls of a switch, read off the gateways alone: what withdraws a gateway of a family from
  the routes, and what makes one the default. A tunnel uses the index of the gateway object, any
  other gateway the index its service has at the time of the call.\<close>

definition cleared4 :: "gw_env \<Rightarrow> int \<Rightarrow> svc \<Rightarrow> gateway_config \<Rightarrow> gw_call list \<Rightarrow> gw_call list" where
  "cleared4 env i s c tr = tr @
     (if gc_vpn c then [Del_host_route i (gc_vpn_ip c), Clear_gateway_address i (gc_vpn_ip c)]
      else if gc_gateway c = any4 then [Clear_gateway_interface (ge_index env (length tr) s)]
      else [Clear_gateway_address (ge_index env (length tr) s) (Some (gc_gateway c))])"

definition cleared6 :: "gw_env \<Rightarrow> int \<Rightarrow> svc \<Rightarrow> gateway_config \<Rightarrow> gw_call list \<Rightarrow> gw_call list" where
  "cleared6 env i s c tr = tr @
     (if gc_vpn c then [Del_ipv6_host_route i (gc_vpn_ip c), Clear_ipv6_gateway_address i (gc_vpn_ip c)]
      else if gc_gateway c = any6 then [Clear_ipv6_gateway_interface (ge_index env (length tr) s)]
      else [Clear_ipv6_gateway_address (ge_index env (length tr) s) (Some (gc_gateway c))])"

definition announced :: "gw_env \<Rightarrow> svc \<Rightarrow> gw_call \<Rightarrow> gw_call list \<Rightarrow> gw_call list" where
  "announced env s call tr = tr @ call # (if ge_result env (length tr) call < 0 then [] else [Indicate_default s])"

definition taken4 :: "gw_env \<Rightarrow> int \<Rightarrow> svc \<Rightarrow> gateway_config \<Rightarrow> gw_call list \<Rightarrow> gw_call list" where
  "taken4 env i s c tr =
     (if gc_vpn c then tr @ [Set_gateway_address i (gc_vpn_ip c),
        Add_host_route (gc_vpn_phy_index c) (gc_vpn_ip c) (gc_vpn_phy_ip c), Indicate_default s]
      else if gc_gateway c = any4 then announced env s (Set_gateway_interface (ge_index env (length tr) s)) tr
      else announced env s (Set_gateway_address (ge_index env (length tr) s) (Some (gc_gateway c))) tr)"

definition taken6 :: "gw_env \<Rightarrow> int \<Rightarrow> svc \<Rightarrow> gateway_config \<Rightarrow> gw_call list \<Rightarrow> gw_call list" where
  "taken6 env i s c tr =
     (if gc_vpn c then tr @ [Set_ipv6_gateway_address i (gc_vpn_ip c),
        Add_ipv6_host_route (gc_vpn_phy_index c) (gc_vpn_ip c) (gc_vpn_phy_ip c), Indicate_default s]
      else if gc_gateway c = any6 then announced env s (Set_ipv6_gateway_interface (ge_index env (length tr) s)) tr
      else announced env s (Set_ipv6_gateway_address (ge_index env (length tr) s) (Some (gc_gateway c))) tr)"

text \<open>The index, the service and the gateways of the two families of an object of the table.\<close>

definition routes_of :: "gw_world \<Rightarrow> addr \<Rightarrow> int \<times> svc \<times> gateway_config option \<times> gateway_config option" where
  "routes_of w p = (case the (data_links w p) of (i, s, g4, g6) \<Rightarrow>
     (i, s, Option.bind g4 (plain_configs w), Option.bind g6 (plain_configs w)))"

definition withdrawn :: "gw_env \<Rightarrow> int \<times> svc \<times> gateway_config option \<times> gateway_config option \<Rightarrow> gw_call list \<Rightarrow> gw_call list" where
  "withdrawn env g tr = (case g of (i, s, c4, c6) \<Rightarrow>
     case_option id (cleared6 env i s) c6 (case_option id (cleared4 env i s) c4 tr))"

definition installed :: "gw_env \<Rightarrow> int \<times> svc \<times> gateway_config option \<times> gateway_config option \<Rightarrow> gw_call list \<Rightarrow> gw_call list" where
  "installed env g tr = (case g of (i, s, c4, c6) \<Rightarrow>
     case_option id (taken6 env i s) c6 (case_option id (taken4 env i s) c4 tr))"

lemma set_config_trace [simp]: "gw_trace (set_config g f w) = gw_trace w"
  by (simp add: set_config_def split: option.split)

lemma plain_config_at:
  assumes "gw_wf w" and "gw_datas w p = Some d"
  shows "gd_ipv4_gateway d = Some a \<Longrightarrow> \<exists>c. gw_configs w a = Some c \<and> plain_configs w a = Some (c\<lparr>gc_active := False\<rparr>)"
    and "gd_ipv6_gateway d = Some a \<Longrightarrow> \<exists>c. gw_configs w a = Some c \<and> plain_configs w a = Some (c\<lparr>gc_active := False\<rparr>)"
  using no_dangling_config [OF wf_no_dangling [OF assms(1)] assms(2)] by (auto simp: plain_configs_def)

lemma succeeds_both: "succeeds x P \<Longrightarrow> succeeds x Q \<Longrightarrow> succeeds x (\<lambda>w. P w \<and> Q w)"
  by (auto simp: succeeds_def)

lemma bind_r_nested: "bind_r (bind_r x f) g = bind_r x (\<lambda>y. bind_r (f y) g)"
  by (cases x) simp_all

lemmas route_steps = data_at_def family_config_def config_at_def do_ipv4_def do_ipv6_def is_vpn_def has_gateway_def
  gw_ask_def gw_tell_def Let_def

lemma unset_trace:
  assumes wf: "gw_wf w" and d: "gw_datas w p = Some d"
  shows "succeeds (if gd_ipv4_gateway d \<noteq> None then unset_default_gateway env p TYPE_IPV4 w else Inr w)
      (\<lambda>w'. same_shape w w' \<and> gw_trace w' = case_option id (cleared4 env (gd_index d) (gd_service d)) (Option.bind (gd_ipv4_gateway d) (plain_configs w)) (gw_trace w))"
    and "succeeds (if gd_ipv6_gateway d \<noteq> None then unset_default_gateway env p TYPE_IPV6 w else Inr w)
      (\<lambda>w'. same_shape w w' \<and> gw_trace w' = case_option id (cleared6 env (gd_index d) (gd_service d)) (Option.bind (gd_ipv6_gateway d) (plain_configs w)) (gw_trace w))"
proof -
  have sh: "succeeds (if b then unset_default_gateway env p ty w else Inr w) (same_shape w)" for b ty
    using unset_default_gateway_total [OF wf] d by simp
  have t1: "succeeds (if gd_ipv4_gateway d \<noteq> None then unset_default_gateway env p TYPE_IPV4 w else Inr w) (\<lambda>w'. gw_trace w' = case_option id (cleared4 env (gd_index d) (gd_service d)) (Option.bind (gd_ipv4_gateway d) (plain_configs w)) (gw_trace w))"
    using d plain_config_at [OF wf d]
    by (auto simp: succeeds_def unset_default_gateway_def route_steps cleared4_def cleared6_def)
  have t2: "succeeds (if gd_ipv6_gateway d \<noteq> None then unset_default_gateway env p TYPE_IPV6 w else Inr w) (\<lambda>w'. gw_trace w' = case_option id (cleared6 env (gd_index d) (gd_service d)) (Option.bind (gd_ipv6_gateway d) (plain_configs w)) (gw_trace w))"
    using d plain_config_at [OF wf d]
    by (auto simp: succeeds_def unset_default_gateway_def route_steps cleared4_def cleared6_def)
  show "succeeds (if gd_ipv4_gateway d \<noteq> None then unset_default_gateway env p TYPE_IPV4 w else Inr w) (\<lambda>w'. same_shape w w' \<and> gw_trace w' = case_option id (cleared4 env (gd_index d) (gd_service d)) (Option.bind (gd_ipv4_gateway d) (plain_configs w)) (gw_trace w))"
    by (rule succeeds_both [OF sh t1])
  show "succeeds (if gd_ipv6_gateway d \<noteq> None then unset_default_gateway env p TYPE_IPV6 w else Inr w) (\<lambda>w'. same_shape w w' \<and> gw_trace w' = case_option id (cleared6 env (gd_index d) (gd_service d)) (Option.bind (gd_ipv6_gateway d) (plain_configs w)) (gw_trace w))"
    by (rule succeeds_both [OF sh t2])
qed

lemma set_trace:
  assumes wf: "gw_wf w" and d: "gw_datas w p = Some d"
  shows "succeeds (if gd_ipv4_gateway d \<noteq> None then set_default_gateway env p TYPE_IPV4 w else Inr w)
      (\<lambda>w'. same_shape w w' \<and> gw_trace w' = case_option id (taken4 env (gd_index d) (gd_service d)) (Option.bind (gd_ipv4_gateway d) (plain_configs w)) (gw_trace w))"
    and "succeeds (if gd_ipv6_gateway d \<noteq> None then set_default_gateway env p TYPE_IPV6 w else Inr w)
      (\<lambda>w'. same_shape w w' \<and> gw_trace w' = case_option id (taken6 env (gd_index d) (gd_service d)) (Option.bind (gd_ipv6_gateway d) (plain_configs w)) (gw_trace w))"
proof -
  have sh: "succeeds (if b then set_default_gateway env p ty w else Inr w) (same_shape w)" for b ty
    using set_default_gateway_total [OF wf] d by simp
  have t1: "succeeds (if gd_ipv4_gateway d \<noteq> None then set_default_gateway env p TYPE_IPV4 w else Inr w) (\<lambda>w'. gw_trace w' = case_option id (taken4 env (gd_index d) (gd_service d)) (Option.bind (gd_ipv4_gateway d) (plain_configs w)) (gw_trace w))"
    using d plain_config_at [OF wf d]
    by (auto simp: succeeds_def set_default_gateway_def route_steps taken4_def taken6_def announced_def)
  have t2: "succeeds (if gd_ipv6_gateway d \<noteq> None then set_default_gateway env p TYPE_IPV6 w else Inr w) (\<lambda>w'. gw_trace w' = case_option id (taken6 env (gd_index d) (gd_service d)) (Option.bind (gd_ipv6_gateway d) (plain_configs w)) (gw_trace w))"
    using d plain_config_at [OF wf d]
    by (auto simp: succeeds_def set_default_gateway_def route_steps taken4_def taken6_def announced_def)
  show "succeeds (if gd_ipv4_gateway d \<noteq> None then set_default_gateway env p TYPE_IPV4 w else Inr w) (\<lambda>w'. same_shape w w' \<and> gw_trace w' = case_option id (taken4 env (gd_index d) (gd_service d)) (Option.bind (gd_ipv4_gateway d) (plain_configs w)) (gw_trace w))"
    by (rule succeeds_both [OF sh t1])
  show "succeeds (if gd_ipv6_gateway d \<noteq> None then set_default_gateway env p TYPE_IPV6 w else Inr w) (\<lambda>w'. same_shape w w' \<and> gw_trace w' = case_option id (taken6 env (gd_index d) (gd_service d)) (Option.bind (gd_ipv6_gateway d) (plain_configs w)) (gw_trace w))"
    by (rule succeeds_both [OF sh t2])
qed

lemma same_shape_object:
  assumes "same_shape w w'" and "gw_datas w p = Some d"
  shows "\<exists>d'. gw_datas w' p = Some d' \<and> gd_index d' = gd_index d \<and> gd_service d' = gd_service d \<and>
    gd_ipv4_gateway d' = gd_ipv4_gateway d \<and> gd_ipv6_gateway d' = gd_ipv6_gateway d"
proof -
  have "data_links w' p = data_links w p" using assms(1) by (simp add: same_shape_def)
  then show ?thesis using assms(2) by (auto simp: data_links_def)
qed

lemma same_shape_routes: "same_shape w w' \<Longrightarrow> routes_of w' p = routes_of w p"
  by (simp add: same_shape_def routes_of_def)

lemma routes_of_object:
  "gw_datas w p = Some d \<Longrightarrow> routes_of w p = (gd_index d, gd_service d,
     Option.bind (gd_ipv4_gateway d) (plain_configs w), Option.bind (gd_ipv6_gateway d) (plain_configs w))"
  by (simp add: routes_of_def data_links_def)

lemma unset_both:
  assumes wf: "gw_wf w" and d: "gw_datas w p = Some d"
  shows "succeeds (bind_r (if gd_ipv4_gateway d \<noteq> None then unset_default_gateway env p TYPE_IPV4 w else Inr w)
      (\<lambda>w1. if gd_ipv6_gateway d \<noteq> None then unset_default_gateway env p TYPE_IPV6 w1 else Inr w1))
    (\<lambda>w'. same_shape w w' \<and> gw_trace w' = withdrawn env (routes_of w p) (gw_trace w))"
proof -
  obtain w1 where w1: "(if gd_ipv4_gateway d \<noteq> None then unset_default_gateway env p TYPE_IPV4 w else Inr w) = Inr w1" "same_shape w w1"
      "gw_trace w1 = case_option id (cleared4 env (gd_index d) (gd_service d)) (Option.bind (gd_ipv4_gateway d) (plain_configs w)) (gw_trace w)"
    using unset_trace(1) [OF wf d, of env] unfolding succeeds_def by blast
  obtain d1 where d1: "gw_datas w1 p = Some d1" "gd_index d1 = gd_index d" "gd_service d1 = gd_service d" "gd_ipv6_gateway d1 = gd_ipv6_gateway d"
    using same_shape_object [OF w1(2) d] by blast
  have wf1: "gw_wf w1" using same_shape_wf [OF w1(2)] wf by simp
  obtain w2 where w2: "(if gd_ipv6_gateway d \<noteq> None then unset_default_gateway env p TYPE_IPV6 w1 else Inr w1) = Inr w2" "same_shape w1 w2"
      "gw_trace w2 = case_option id (cleared6 env (gd_index d) (gd_service d)) (Option.bind (gd_ipv6_gateway d) (plain_configs w1)) (gw_trace w1)"
    using unset_trace(2) [OF wf1 d1(1), of env] unfolding succeeds_def d1(2-4) by blast
  have "plain_configs w1 = plain_configs w" using w1(2) by (simp add: same_shape_def)
  then show ?thesis using w1 w2 same_shape_trans [OF w1(2) w2(2)]
    by (simp add: succeeds_def withdrawn_def routes_of_object [OF d])
qed

lemma set_both:
  assumes wf: "gw_wf w" and d: "gw_datas w p = Some d"
  shows "succeeds (bind_r (if gd_ipv4_gateway d \<noteq> None then set_default_gateway env p TYPE_IPV4 w else Inr w)
      (\<lambda>w1. if gd_ipv6_gateway d \<noteq> None then set_default_gateway env p TYPE_IPV6 w1 else Inr w1))
    (\<lambda>w'. same_shape w w' \<and> gw_trace w' = installed env (routes_of w p) (gw_trace w))"
proof -
  obtain w1 where w1: "(if gd_ipv4_gateway d \<noteq> None then set_default_gateway env p TYPE_IPV4 w else Inr w) = Inr w1" "same_shape w w1"
      "gw_trace w1 = case_option id (taken4 env (gd_index d) (gd_service d)) (Option.bind (gd_ipv4_gateway d) (plain_configs w)) (gw_trace w)"
    using set_trace(1) [OF wf d, of env] unfolding succeeds_def by blast
  obtain d1 where d1: "gw_datas w1 p = Some d1" "gd_index d1 = gd_index d" "gd_service d1 = gd_service d" "gd_ipv6_gateway d1 = gd_ipv6_gateway d"
    using same_shape_object [OF w1(2) d] by blast
  have wf1: "gw_wf w1" using same_shape_wf [OF w1(2)] wf by simp
  obtain w2 where w2: "(if gd_ipv6_gateway d \<noteq> None then set_default_gateway env p TYPE_IPV6 w1 else Inr w1) = Inr w2" "same_shape w1 w2"
      "gw_trace w2 = case_option id (taken6 env (gd_index d) (gd_service d)) (Option.bind (gd_ipv6_gateway d) (plain_configs w1)) (gw_trace w1)"
    using set_trace(2) [OF wf1 d1(1), of env] unfolding succeeds_def d1(2-4) by blast
  have "plain_configs w1 = plain_configs w" using w1(2) by (simp add: same_shape_def)
  then show ?thesis using w1 w2 same_shape_trans [OF w1(2) w2(2)]
    by (simp add: succeeds_def installed_def routes_of_object [OF d])
qed

lemma switch_trace:
  assumes wf: "gw_wf w" and a: "gw_datas w a = Some d" and p: "gw_datas w p = Some e"
    and "switch_default env a (Some p) w = Inr w'"
  shows "gw_trace w' = installed env (routes_of w p) (withdrawn env (routes_of w a) (gw_trace w))"
proof -
  obtain w2 where w2: "bind_r (if gd_ipv4_gateway d \<noteq> None then unset_default_gateway env a TYPE_IPV4 w else Inr w)
      (\<lambda>w1. if gd_ipv6_gateway d \<noteq> None then unset_default_gateway env a TYPE_IPV6 w1 else Inr w1) = Inr w2"
      "same_shape w w2" "gw_trace w2 = withdrawn env (routes_of w a) (gw_trace w)"
    using unset_both [OF wf a, of env] by (auto simp: succeeds_def)
  obtain e2 where e2: "gw_datas w2 p = Some e2" using same_shape_object [OF w2(2) p] by blast
  have "gw_wf w2" using same_shape_wf [OF w2(2)] wf by simp
  from set_both [OF this e2, of env]
  obtain w4 where w4: "bind_r (if gd_ipv4_gateway e2 \<noteq> None then set_default_gateway env p TYPE_IPV4 w2 else Inr w2)
      (\<lambda>w3. if gd_ipv6_gateway e2 \<noteq> None then set_default_gateway env p TYPE_IPV6 w3 else Inr w3) = Inr w4"
      "gw_trace w4 = installed env (routes_of w p) (gw_trace w2)"
    by (auto simp: succeeds_def same_shape_routes [OF w2(2)])
  have "switch_default env a (Some p) w =
      bind_r (bind_r (if gd_ipv4_gateway d \<noteq> None then unset_default_gateway env a TYPE_IPV4 w else Inr w)
        (\<lambda>w1. if gd_ipv6_gateway d \<noteq> None then unset_default_gateway env a TYPE_IPV6 w1 else Inr w1)) (\<lambda>w2.
      bind_r (data_at w2 p) (\<lambda>d. bind_r (if gd_ipv4_gateway d \<noteq> None then set_default_gateway env p TYPE_IPV4 w2 else Inr w2) (\<lambda>w3.
        if gd_ipv6_gateway d \<noteq> None then set_default_gateway env p TYPE_IPV6 w3 else Inr w3)))"
    by (simp add: switch_default_def data_at_def a bind_r_nested)
  also have "\<dots> = Inr w4" unfolding w2(1) using e2 w4(1) by (simp add: data_at_def)
  finally show ?thesis using assms(4) w4(2) w2(3) by simp
qed

lemma update_gateway_effect:
  assumes wf: "gw_wf w" and h: "gateway_hash w = Some h" "h \<noteq> []" and it: "iter_ok env"
  shows "\<exists>act p b w'. find_active_gateway env w = Inr act \<and> live w p \<and>
    (\<forall>q. live w q \<longrightarrow> ge_order env (gw_now w) (gd_service (the (gw_datas w q))) \<le> ge_order env (gw_now w) (gd_service (the (gw_datas w p)))) \<and>
    update_gateway env w = Inr (b, w') \<and> (b \<longleftrightarrow> act \<noteq> None \<and> act \<noteq> Some p) \<and> same_shape w w' \<and>
    gw_trace w' = (if b then installed env (routes_of w p) (withdrawn env (routes_of w (the act)) (gw_trace w)) else gw_trace w) \<and>
    (\<not> b \<longrightarrow> gw_configs w' = gw_configs w)"
proof -
  let ?o = "\<lambda>q. ge_order env (gw_now w) (gd_service (the (gw_datas w q)))"
  obtain act where act: "find_active_gateway env w = Inr act" "\<And>a. act = Some a \<Longrightarrow> live w a"
    using find_active_total [OF wf h(1) it] by (auto simp: succeeds_def split: option.splits)
  obtain w1 where w1: "update_order env w = Inr w1" "same_shape w w1" "gw_configs w1 = gw_configs w" "gw_trace w1 = gw_trace w"
      "\<forall>p d. gw_datas w p = Some d \<longrightarrow> gw_datas w1 p = Some (d\<lparr>gd_order := ge_order env (gw_now w) (gd_service d)\<rparr>)"
    using update_order_total [OF wf h(1) it] unfolding succeeds_def by blast
  have s1: "gw_wf w1" "gateway_hash w1 = Some h" using same_shape_wf [OF w1(2)] wf w1(2) h(1) by (auto simp: same_shape_def)
  obtain dflt where "find_default_gateway env w1 = Inr dflt"
      "case dflt of None \<Rightarrow> h = [] | Some p \<Rightarrow> live w1 p \<and> (\<forall>q. live w1 q \<longrightarrow> order_of w1 q \<le> order_of w1 p)"
    using find_default_total [OF s1 it] unfolding succeeds_def by blast
  then obtain p where p: "find_default_gateway env w1 = Inr (Some p)" "live w1 p" "\<And>q. live w1 q \<Longrightarrow> order_of w1 q \<le> order_of w1 p"
    using h(2) by (cases dflt) auto
  have o: "order_of w1 q = ?o q" if "live w q" for q using that w1(5) by (auto intro: order_after)
  have best: "live w p" "\<forall>q. live w q \<longrightarrow> ?o q \<le> ?o p"
    using p(2) p(3) o same_shape_live [OF w1(2)] by metis+
  obtain b w' where u: "update_gateway env w = Inr (b, w')" "same_shape w w'"
    using update_gateway_total [OF wf it] by (auto simp: succeeds_def)
  have "(b \<longleftrightarrow> act \<noteq> None \<and> act \<noteq> Some p) \<and> (\<not> b \<longrightarrow> gw_configs w' = gw_configs w) \<and>
    gw_trace w' = (if b then installed env (routes_of w p) (withdrawn env (routes_of w (the act)) (gw_trace w)) else gw_trace w)"
  proof (cases "act = None \<or> act = Some p")
    case True
    then have "update_gateway env w = Inr (False, w1)" by (auto simp: update_gateway_def h act(1) w1(1) p(1))
    then show ?thesis using u(1) True w1 by auto
  next
    case False
    then obtain a where a: "act = Some a" by auto
    then have "update_gateway env w = bind_r (switch_default env a (Some p) w1) (\<lambda>w2. Inr (True, w2))"
      using False by (simp add: update_gateway_def h act(1) w1(1) p(1))
    then have sw: "switch_default env a (Some p) w1 = Inr w'" "b"
      using u(1) by (cases "switch_default env a (Some p) w1"; simp)+
    obtain d e where "gw_datas w1 a = Some d" "gw_datas w1 p = Some e"
      using act(2) [OF a] p(2) same_shape_live [OF w1(2)] by blast
    from switch_trace [OF s1(1) this sw(1)] sw(2) a False show ?thesis
      by (simp add: same_shape_routes [OF w1(2)] w1(4))
  qed
  then show ?thesis using act(1) best u by blast
qed

text \<open>The switch between two plain IPv4 gateways: one route is cleared, the other is set.\<close>

definition plain4 :: "gw_world \<Rightarrow> addr \<Rightarrow> svc \<Rightarrow> string \<Rightarrow> bool" where
  "plain4 w p s g \<longleftrightarrow> gateway_entry w s = Some (the (map_option gd_index (gw_datas w p)), Some (new_config g), None) \<and> g \<noteq> any4 \<and>
     map_option gd_service (gw_datas w p) = Some s"

lemma plain4_read:
  assumes "gw_wf w" and "plain4 w p s g"
  shows "\<exists>d a c. gw_datas w p = Some d \<and> gd_service d = s \<and> gd_ipv4_gateway d = Some a \<and> gd_ipv6_gateway d = None \<and>
    gw_configs w a = Some c \<and> gc_gateway c = g \<and> \<not> gc_vpn c"
proof -
  obtain d where d: "gw_datas w p = Some d" "gd_service d = s" using assms(2) by (auto simp: plain4_def)
  have e: "Option.bind (gd_ipv4_gateway d) (plain_configs w) = Some (new_config g)" "Option.bind (gd_ipv6_gateway d) (plain_configs w) = None"
    using gateway_entry_live [OF assms(1) d(1)] assms(2) d by (auto simp: plain4_def links_entry_def)
  obtain a where a: "gd_ipv4_gateway d = Some a" "plain_configs w a = Some (new_config g)" using e(1) by (auto simp: bind_eq_Some_conv)
  obtain c where c: "gw_configs w a = Some c" "c\<lparr>gc_active := False\<rparr> = new_config g" using a(2) by (auto simp: plain_configs_def)
  have "gd_ipv6_gateway d = None"
    using e(2) no_dangling_config(2) [OF wf_no_dangling [OF assms(1)] d(1)] by (cases "gd_ipv6_gateway d") (auto simp: plain_configs_def)
  moreover have "gc_gateway c = gc_gateway (c\<lparr>gc_active := False\<rparr>)" "gc_vpn c = gc_vpn (c\<lparr>gc_active := False\<rparr>)" by simp_all
  ultimately show ?thesis using d a(1) c unfolding c(2) by (auto simp: new_config_def)
qed

lemma set_plain4:
  assumes "gw_wf w" and "plain4 w p s g"
  shows "set_default_gateway env p TYPE_IPV4 w = Inr
    (let c = Set_gateway_address (ge_index env (gw_now w) s) (Some g) in
     if ge_result env (gw_now w) c < 0 then gw_tell c w else gw_tell (Indicate_default s) (gw_tell c w))"
proof -
  obtain d a c where d: "gw_datas w p = Some d" "gd_service d = s" "gd_ipv4_gateway d = Some a" "gd_ipv6_gateway d = None"
      "gw_configs w a = Some c" "gc_gateway c = g" "\<not> gc_vpn c"
    using plain4_read [OF assms] by blast
  have "g \<noteq> any4" using assms(2) by (simp add: plain4_def)
  then show ?thesis using d by (simp add: set_default_gateway_def data_at_def family_config_def config_at_def do_ipv4_def do_ipv6_def
      is_vpn_def has_gateway_def gw_ask_def Let_def)
qed

lemma unset_plain4:
  assumes "gw_wf w" and "plain4 w p s g"
  shows "unset_default_gateway env p TYPE_IPV4 w = Inr (gw_tell (Clear_gateway_address (ge_index env (gw_now w) s) (Some g)) w)"
proof -
  obtain d a c where d: "gw_datas w p = Some d" "gd_service d = s" "gd_ipv4_gateway d = Some a" "gd_ipv6_gateway d = None"
      "gw_configs w a = Some c" "gc_gateway c = g" "\<not> gc_vpn c"
    using plain4_read [OF assms] by blast
  have "g \<noteq> any4" using assms(2) by (simp add: plain4_def)
  then show ?thesis using d by (simp add: unset_default_gateway_def data_at_def family_config_def config_at_def do_ipv4_def do_ipv6_def
      is_vpn_def has_gateway_def Let_def)
qed

lemma switch_plain4:
  assumes wf: "gw_wf w" and a: "plain4 w a s g" and p: "plain4 w p t k"
  shows "switch_default env a (Some p) w = Inr
    (let w1 = gw_tell (Clear_gateway_address (ge_index env (gw_now w) s) (Some g)) w;
         c = Set_gateway_address (ge_index env (gw_now w1) t) (Some k)
     in if ge_result env (gw_now w1) c < 0 then gw_tell c w1 else gw_tell (Indicate_default t) (gw_tell c w1))"
proof -
  let ?w = "gw_tell (Clear_gateway_address (ge_index env (gw_now w) s) (Some g)) w"
  have "gateway_entry ?w = gateway_entry w" by (rule same_shape_entry) simp
  then have p1: "gw_wf ?w" "plain4 ?w p t k" using wf p by (simp_all add: plain4_def)
  obtain d where d: "gw_datas w a = Some d" "gd_ipv4_gateway d \<noteq> None" "gd_ipv6_gateway d = None" using plain4_read [OF wf a] by blast
  obtain e where e: "gw_datas w p = Some e" "gd_ipv4_gateway e \<noteq> None" "gd_ipv6_gateway e = None" using plain4_read [OF wf p] by blast
  show ?thesis using d e by (simp add: switch_default_def data_at_def unset_plain4 [OF wf a] set_plain4 [OF p1] Let_def)
qed

text \<open>
  The default route of a VPN: the host route to the tunnel end is added on the carrying interface and
  deleted on the interface of the tunnel.
\<close>

lemma vpn_host_route_not_deleted:
  assumes "gw_datas w p = Some d" and "gd_ipv4_gateway d = Some a" and "gw_configs w a = Some c" and "gc_vpn c"
  shows "\<exists>w1 w2. set_default_gateway env p TYPE_IPV4 w = Inr w1 \<and> unset_default_gateway env p TYPE_IPV4 w1 = Inr w2 \<and>
    gw_trace w2 = gw_trace w @ [Set_gateway_address (gd_index d) (gc_vpn_ip c), Add_host_route (gc_vpn_phy_index c) (gc_vpn_ip c) (gc_vpn_phy_ip c),
      Indicate_default (gd_service d), Del_host_route (gd_index d) (gc_vpn_ip c), Clear_gateway_address (gd_index d) (gc_vpn_ip c)]"
  using assms by (simp add: set_default_gateway_def unset_default_gateway_def data_at_def family_config_def config_at_def do_ipv4_def is_vpn_def
    Let_def gw_tell_def set_config_def)

section \<open>Successful additions\<close>

lemma gateway_add_success:
  assumes wf: "gw_wf w" and h: "gateway_hash w \<noteq> None" and it: "iter_ok env" and run: "gateway_add env s gateway type peer w = Inr (0, w')"
  shows "gw_wf w'" and "gateway_hash w' \<noteq> None" and "gw_refs w' = (gw_refs w)(s := gw_refs w s + 1)" and "gateway_entry w' s \<noteq> None"
proof -
  have no: "\<not> add_refused env type gateway w" using gateway_add_refused [OF wf h it] run by (auto simp: EINVAL_def)
  obtain g where g: "default_address type gateway = Some g" "g \<noteq> []" "type \<noteq> TYPE_ALL" "ge_mem_data env (gw_now w)" "ge_mem_config env (gw_now w)"
    using no by (rule not_refused)
  obtain active where act: "find_active_gateway env w = Inr active" using find_active_total [OF wf _ it] h by (auto simp: succeeds_def)
  have ok: "added_ok env type s active w"
    using gateway_add_event [OF wf h it, of s gateway type peer] run no by (auto simp: event_safe_def act split: if_splits)
  have "gw_wf w' \<and> gateway_hash w' \<noteq> None \<and> gw_refs w' = (gw_refs w)(s := gw_refs w s + 1) \<and> gateway_entry w' s \<noteq> None"
    using gateway_add_effect [OF wf h it g(4,5,3,1,2) act ok, of peer] run by auto
  then show "gw_wf w'" "gateway_hash w' \<noteq> None" "gw_refs w' = (gw_refs w)(s := gw_refs w s + 1)" "gateway_entry w' s \<noteq> None" by blast+
qed

section \<open>Properties\<close>

text \<open>Services 1 to 9 are ordinary, the others are VPNs; a higher number has a higher order.\<close>

definition ex_gw_env :: gw_env where
  "ex_gw_env = \<lparr>ge_iter = id, ge_mem_data = (\<lambda>n. True), ge_mem_config = (\<lambda>n. True), ge_index = (\<lambda>n s. int s), ge_order = (\<lambda>n s. of_nat s),
     ge_is_vpn = (\<lambda>s. s \<ge> 10), ge_result = (\<lambda>n c. 0), ge_ready_updates = (\<lambda>n s type. True)\<rparr>"

definition ex_gw :: "gw_event list \<Rightarrow> gw_world" where
  "ex_gw es = snd (the (run gateway_step (ex_gw_env, gw_boot) (Gw_init 0 # es)))"

lemma ex_gw_iter: "iter_ok ex_gw_env"
  by (simp add: ex_gw_env_def iter_ok_def)

lemma ex_gw_wf:
  assumes "\<not> Option.is_none (run gateway_step (ex_gw_env, gw_boot) (Gw_init 0 # es))"
  shows "gw_wf (ex_gw es)"
proof -
  obtain s where s: "run gateway_step (ex_gw_env, gw_boot) (Gw_init 0 # es) = Some s" using assms by (auto simp: Option.is_none_def)
  have "gateway_start (ex_gw_env, gw_boot)" using ex_gw_iter by (simp add: gateway_start_def)
  from gw.run_from_start [OF this s] show ?thesis using s by (simp add: gateway_inv_def ex_gw_def)
qed

abbreviation ex_add1 :: gw_event where "ex_add1 \<equiv> Gw_add 1 (Some ''10.0.0.1'') TYPE_IPV4 None"
abbreviation ex_add2 :: gw_event where "ex_add2 \<equiv> Gw_add 2 (Some ''10.0.0.2'') TYPE_IPV4 None"

definition ex_gw2 :: gw_world where
  "ex_gw2 = ex_gw [ex_add1, Gw_activate 1 TYPE_IPV4, ex_add2]"

lemma ex_gw2_wf: "gw_wf ex_gw2"
  unfolding ex_gw2_def by (rule ex_gw_wf) code_simp

lemma ex_gw2_facts:
  "gateway_hash ex_gw2 = Some [(1, 0), (2, 2)]" "find_active_gateway ex_gw_env ex_gw2 = Inr (Some 0)"
  "data_links ex_gw2 0 = Some (1, 1, Some 1, None)" "carried_by TYPE_IPV4 ex_gw2 0 = Some (1, ''10.0.0.1'')"
  "gateway_entry ex_gw2 10 = None"
  by code_simp+

text \<open>
  C5. After any sequence of interface calls and kernel events that starts with an empty component,
  the gateway table is well formed: a service has at most one entry, the live gateway objects are
  exactly those of the table, filed under their own service, each with at least one gateway, and every live
  configuration belongs to exactly one object, so nothing dangles and nothing is leaked.\<close>

theorem gateway_table_wf:
  assumes "gateway_start s" and "run gateway_step s es = Some t"
  shows "gw_wf (snd t)"
  using gw.run_from_start [OF assms] by (simp add: gateway_inv_def)

theorem gateway_table_wf_witness:
  "gw_wf (snd (the (run gateway_step (ex_gw_env, gw_boot) [Gw_init 0, ex_add1, ex_add2, Gw_remove 1 TYPE_IPV4])))"
proof -
  have "\<not> Option.is_none (run gateway_step (ex_gw_env, gw_boot) [Gw_init 0, ex_add1, ex_add2, Gw_remove 1 TYPE_IPV4])" by code_simp
  then obtain s where s: "run gateway_step (ex_gw_env, gw_boot) [Gw_init 0, ex_add1, ex_add2, Gw_remove 1 TYPE_IPV4] = Some s"
    by (auto simp: Option.is_none_def)
  have "gateway_start (ex_gw_env, gw_boot)" using ex_gw_iter by (simp add: gateway_start_def)
  from gateway_table_wf [OF this s] show ?thesis unfolding s by simp
qed

text \<open>
  C6. In a well-formed state, after \<open>init\<close> and before \<open>cleanup\<close>, an interface call or a kernel
  event reads no freed memory and no null pointer, whatever its arguments, with exactly these exceptions: the activation of a
  family that the service has no gateway for, and the addition of a VPN while a gateway is
  active that belongs to the same service or has no gateway of that family.\<close>

theorem gateway_step_safe:
  assumes "gw_wf w" and "iter_ok env" and "in_order e w"
  shows "gateway_step (env, w) e \<noteq> None \<longleftrightarrow> event_safe env e w"
  using gateway_event_cases [OF assms] assms(3) by (auto simp: gateway_step_def succeeds_def split: sum.split if_splits)

theorem gateway_step_safe_witness:
  "gateway_step (ex_gw_env, ex_gw2) (Gw_add 10 (Some ''10.0.0.3'') TYPE_IPV4 None) \<noteq> None \<and>
   gateway_step (ex_gw_env, ex_gw2) (Gw_add 10 (Some ''fe80::3'') TYPE_IPV6 None) = None"
proof -
  have o: "in_order (Gw_add 10 g type None) ex_gw2" for g type by (simp add: in_order_def ex_gw2_facts)
  have "event_safe ex_gw_env (Gw_add 10 (Some ''10.0.0.3'') TYPE_IPV4 None) ex_gw2" "\<not> event_safe ex_gw_env (Gw_add 10 (Some ''fe80::3'') TYPE_IPV6 None) ex_gw2"
    using ex_gw2_facts by (simp_all add: event_safe_def added_ok_def replaced_def add_refused_def ex_gw_env_def default_address_def)
  then show ?thesis using gateway_step_safe [OF ex_gw2_wf ex_gw_iter o] by blast
qed

text \<open>
  C7. An addition refines the update of the abstract table: it succeeds, the service gets the new
  gateway in the family of the call and keeps the other one, for a VPN with the end of
  the tunnel and the interface and gateway that carry it, and no other service is touched.\<close>

theorem gateway_add_refines:
  assumes "gw_wf w" and "gateway_hash w \<noteq> None" and "iter_ok env"
    and "ge_mem_data env (gw_now w)" and "ge_mem_config env (gw_now w)"
    and "type \<noteq> TYPE_ALL" and "default_address type gateway = Some g" and "g \<noteq> []"
    and "find_active_gateway env w = Inr active" and "added_ok env type s active w"
  shows "\<exists>w'. gateway_add env s gateway type peer w = Inr (0, w') \<and> gw_wf w' \<and> gateway_hash w' \<noteq> None \<and>
    gateway_entry w' = (gateway_entry w)(s \<mapsto> entry_add type (ge_index env (gw_now w) s)
      (added_config (ge_is_vpn env s) type g peer (Option.bind active (carried_by type w))) (gateway_entry w s)) \<and>
    gw_refs w' = (gw_refs w)(s := gw_refs w s + 1)"
  using assms by (rule gateway_add_effect)

theorem gateway_add_refines_witness:
  "\<exists>w'. gateway_add ex_gw_env 10 (Some ''10.0.0.3'') TYPE_IPV4 (Some ''10.9.9.9'') ex_gw2 = Inr (0, w') \<and>
     gateway_entry w' 10 = Some (10, Some \<lparr>gc_active = False, gc_gateway = ''10.0.0.3'', gc_vpn = True, gc_vpn_ip = Some ''10.9.9.9'',
       gc_vpn_phy_index = 1, gc_vpn_phy_ip = Some ''10.0.0.1''\<rparr>, None)"
proof -
  have ok: "added_ok ex_gw_env TYPE_IPV4 10 (Some 0) ex_gw2" using ex_gw2_facts by (simp add: added_ok_def replaced_def)
  have e: "ge_index ex_gw_env n 10 = 10" "ge_is_vpn ex_gw_env 10" for n by (simp_all add: ex_gw_env_def)
  have h: "gateway_hash ex_gw2 \<noteq> None" by (simp add: ex_gw2_facts)
  have "ge_mem_data ex_gw_env (gw_now ex_gw2)" "ge_mem_config ex_gw_env (gw_now ex_gw2)" "TYPE_IPV4 \<noteq> TYPE_ALL"
    "default_address TYPE_IPV4 (Some ''10.0.0.3'') = Some ''10.0.0.3''" "''10.0.0.3'' \<noteq> []"
    by (simp_all add: ex_gw_env_def default_address_def)
  note add = gateway_add_refines [OF ex_gw2_wf h ex_gw_iter this ex_gw2_facts(2) ok, of "Some ''10.9.9.9''"]
  have "entry_add TYPE_IPV4 10 (added_config True TYPE_IPV4 ''10.0.0.3'' (Some ''10.9.9.9'') (Some (1, ''10.0.0.1''))) None =
    (10, Some \<lparr>gc_active = False, gc_gateway = ''10.0.0.3'', gc_vpn = True, gc_vpn_ip = Some ''10.9.9.9'',
       gc_vpn_phy_index = 1, gc_vpn_phy_ip = Some ''10.0.0.1''\<rparr>, None)"
    by (simp add: entry_add_def added_config_def new_config_def tunnel_end_def tunnel_over_def any_address_def merged_def)
  with add show ?thesis by (auto simp: e ex_gw2_facts)
qed

text \<open>
  C40. A VPN that is added while a gateway is active reads freed memory when that gateway belongs to
  the same service, whose old object the addition has just freed, and a null pointer when the active gateway
  has no gateway of the family.\<close>

theorem vpn_add_faults:
  assumes "gw_wf w" and "gateway_hash w \<noteq> None" and "iter_ok env" and "\<not> add_refused env type gateway w"
    and "find_active_gateway env w = Inr (Some q)" and "ge_is_vpn env s"
    and "data_links w q = Some (i, t, gs)" and "t = s \<or> replaced type gs = None"
  shows "gateway_add env s gateway type peer w = Inl (if t = s then UseAfterFree else NullDeref)"
  using assms by (rule gateway_add_faults)

abbreviation ex_add10 :: gw_event where "ex_add10 \<equiv> Gw_add 10 (Some ''10.0.0.3'') TYPE_IPV4 None"

theorem vpn_add_faults_witness:
  "gateway_add ex_gw_env 10 (Some ''10.0.0.4'') TYPE_IPV4 None (ex_gw [ex_add10]) = Inl UseAfterFree"
proof -
  have wf: "gw_wf (ex_gw [ex_add10])" by (rule ex_gw_wf) code_simp
  have h: "gateway_hash (ex_gw [ex_add10]) = Some [(10, 0)]" by code_simp
  have a: "find_active_gateway ex_gw_env (ex_gw [ex_add10]) = Inr (Some 0)" "data_links (ex_gw [ex_add10]) 0 = Some (10, 10, Some 1, None)" by code_simp+
  have "\<not> add_refused ex_gw_env TYPE_IPV4 (Some ''10.0.0.4'') (ex_gw [ex_add10])" "ge_is_vpn ex_gw_env 10"
    by (simp_all add: add_refused_def ex_gw_env_def default_address_def)
  then show ?thesis using vpn_add_faults [OF wf _ ex_gw_iter _ a(1) _ a(2)] h by auto
qed

text \<open>
  C8. A removal never faults. It drops the entry of the service and one reference when all families
  are to be removed or the family is the only one of the entry; otherwise it leaves the table
  alone. No other service is touched.\<close>

theorem gateway_remove_refines:
  assumes "gw_wf w" and "gateway_hash w = Some h" and "iter_ok env"
  shows "\<exists>w'. gateway_remove env s type w = Inr w' \<and> gw_wf w' \<and>
    (if \<exists>e. gateway_entry w s = Some e \<and> entry_dropped type e
     then gateway_entry w' = (gateway_entry w)(s := None) \<and> gw_refs w' = (gw_refs w)(s := gw_refs w s - 1)
     else gateway_entry w' = gateway_entry w \<and> gw_refs w' = gw_refs w)"
  using gateway_remove_effect [OF assms] unfolding succeeds_def removed_from_def by blast

theorem gateway_remove_refines_witness:
  "\<exists>w'. gateway_remove ex_gw_env 1 TYPE_IPV4 ex_gw2 = Inr w' \<and> gateway_entry w' 1 = None \<and> gateway_entry w' 2 \<noteq> None"
proof -
  have "\<not> Option.is_none (gateway_entry ex_gw2 2)" "entry_dropped TYPE_IPV4 (the (gateway_entry ex_gw2 1))" "\<not> Option.is_none (gateway_entry ex_gw2 1)"
    by code_simp+
  then have e: "gateway_entry ex_gw2 2 \<noteq> None" "\<exists>e. gateway_entry ex_gw2 1 = Some e \<and> entry_dropped TYPE_IPV4 e"
    by (auto simp: Option.is_none_def)
  from gateway_remove_refines [OF ex_gw2_wf ex_gw2_facts(1) ex_gw_iter, of 1 TYPE_IPV4, unfolded if_P [OF e(2)]]
  show ?thesis using e(1) by (elim exE conjE) (rule exI, intro conjI, assumption, simp_all)
qed

text \<open>
  Removing the two families of a service one after the other leaves its entry in the table, with
  both gateways and the reference: a single removal never clears a family.\<close>

lemma removal_by_family_keeps_entry:
  assumes "gw_wf w" and "gateway_hash w = Some h" and "iter_ok env" and "gateway_entry w s = Some (i, Some c4, Some c6)"
    and "gateway_remove env s TYPE_IPV4 w = Inr w1" and "gateway_remove env s TYPE_IPV6 w1 = Inr w2"
  shows "gateway_entry w2 s = Some (i, Some c4, Some c6) \<and> gw_refs w2 = gw_refs w"
proof -
  have r1: "removed_from s TYPE_IPV4 w w1" using gateway_remove_effect [OF assms(1-3), of s TYPE_IPV4] assms(5) by (simp add: succeeds_def)
  then obtain h1 where w1: "gw_wf w1" "gateway_hash w1 = Some h1" "gateway_entry w1 = gateway_entry w" "gw_refs w1 = gw_refs w"
    using assms(4) by (auto simp: removed_from_def entry_dropped_def kept_def replaced_def)
  have "removed_from s TYPE_IPV6 w1 w2" using gateway_remove_effect [OF w1(1,2) assms(3), of s TYPE_IPV6] assms(6) by (simp add: succeeds_def)
  then show ?thesis using assms(4) w1 by (auto simp: removed_from_def entry_dropped_def kept_def replaced_def)
qed

abbreviation ex_add1v6 :: gw_event where "ex_add1v6 \<equiv> Gw_add 1 (Some ''fe80::1'') TYPE_IPV6 None"

definition ex_gw_dual :: gw_world where "ex_gw_dual = ex_gw [ex_add1, ex_add1v6]"

lemma removal_by_family_keeps_entry_witness:
  "\<exists>w1 w2. gateway_remove ex_gw_env 1 TYPE_IPV4 ex_gw_dual = Inr w1 \<and> gateway_remove ex_gw_env 1 TYPE_IPV6 w1 = Inr w2 \<and>
     gateway_entry w2 1 = Some (1, Some (new_config ''10.0.0.1''), Some (new_config ''fe80::1''))"
proof -
  have wf: "gw_wf ex_gw_dual" unfolding ex_gw_dual_def by (rule ex_gw_wf) code_simp
  have h: "gateway_hash ex_gw_dual = Some [(1, 2)]" and e: "gateway_entry ex_gw_dual 1 = Some (1, Some (new_config ''10.0.0.1''), Some (new_config ''fe80::1''))"
    by code_simp+
  obtain w1 h1 where w1: "gateway_remove ex_gw_env 1 TYPE_IPV4 ex_gw_dual = Inr w1" "gw_wf w1" "gateway_hash w1 = Some h1"
    using gateway_remove_effect [OF wf h ex_gw_iter, of 1 TYPE_IPV4] by (auto simp: succeeds_def removed_from_def)
  obtain w2 where w2: "gateway_remove ex_gw_env 1 TYPE_IPV6 w1 = Inr w2"
    using gateway_remove_effect [OF w1(2,3) ex_gw_iter, of 1 TYPE_IPV6] by (auto simp: succeeds_def)
  show ?thesis using removal_by_family_keeps_entry [OF wf h ex_gw_iter e w1(1) w2] w1(1) w2 by blast
qed

text \<open>
  A service whose gateway is added for both families, and then removed, is left with one
  reference too many: each addition takes one, the removal returns one.\<close>

lemma dual_stack_leaks_reference:
  assumes "gw_wf w" and "gateway_hash w \<noteq> None" and "iter_ok env"
    and "gateway_add env s g4 TYPE_IPV4 None w = Inr (0, w1)" and "gateway_add env s g6 TYPE_IPV6 None w1 = Inr (0, w2)"
    and "gateway_remove env s TYPE_ALL w2 = Inr w3"
  shows "gateway_entry w3 s = None \<and> gw_refs w3 s = gw_refs w s + 1"
proof -
  note a1 = gateway_add_success [OF assms(1-4)]
  note a2 = gateway_add_success [OF a1(1,2) assms(3,5)]
  obtain h where h: "gateway_hash w2 = Some h" using a2(2) by blast
  have "removed_from s TYPE_ALL w2 w3" using gateway_remove_effect [OF a2(1) h assms(3), of s TYPE_ALL] assms(6) by (simp add: succeeds_def)
  then show ?thesis using a1(3) a2(3,4) by (auto simp: removed_from_def entry_dropped_def)
qed

lemma result_parts: "\<not> isl x \<Longrightarrow> fst (projr x) = r \<Longrightarrow> x = Inr (r, snd (projr x))"
  by (cases x) auto

lemma dual_stack_leaks_reference_witness:
  "\<exists>w1 w2 w3. gateway_add ex_gw_env 1 (Some ''10.0.0.1'') TYPE_IPV4 None (ex_gw []) = Inr (0, w1) \<and>
     gateway_add ex_gw_env 1 (Some ''fe80::1'') TYPE_IPV6 None w1 = Inr (0, w2) \<and>
     gateway_remove ex_gw_env 1 TYPE_ALL w2 = Inr w3 \<and> gateway_entry w3 1 = None \<and> gw_refs w3 1 = gw_refs (ex_gw []) 1 + 1"
proof -
  have wf: "gw_wf (ex_gw [])" by (rule ex_gw_wf) code_simp
  have "gateway_hash (ex_gw []) = Some []" by code_simp
  then have h: "gateway_hash (ex_gw []) \<noteq> None" by simp
  let ?x1 = "gateway_add ex_gw_env 1 (Some ''10.0.0.1'') TYPE_IPV4 None (ex_gw [])"
  have "\<not> isl ?x1" "fst (projr ?x1) = 0" by code_simp+
  note w1 = result_parts [OF this]
  let ?x2 = "gateway_add ex_gw_env 1 (Some ''fe80::1'') TYPE_IPV6 None (snd (projr ?x1))"
  have "\<not> isl ?x2" "fst (projr ?x2) = 0" by code_simp+
  note w2 = result_parts [OF this]
  let ?x3 = "gateway_remove ex_gw_env 1 TYPE_ALL (snd (projr ?x2))"
  have "\<not> isl ?x3" by code_simp
  then have w3: "?x3 = Inr (projr ?x3)" by (cases ?x3) auto
  from dual_stack_leaks_reference [OF wf h ex_gw_iter w1 w2 w3] show ?thesis using w1 w2 w3 by blast
qed

text \<open>
  The cleanup never faults, and it frees every gateway object and every configuration.\<close>

lemma connection_cleanup_frees:
  assumes "gw_wf w" and "gateway_hash w = Some h" and "iter_ok env"
  shows "\<exists>w'. connection_cleanup env w = Inr w' \<and> gateway_hash w' = None \<and> gw_datas w' = Map.empty \<and> gw_configs w' = Map.empty"
  using connection_cleanup_effect [OF assms] by (simp add: succeeds_def)

lemma connection_cleanup_frees_witness:
  "\<exists>w'. connection_cleanup ex_gw_env ex_gw2 = Inr w' \<and> gateway_hash w' = None \<and> gw_datas w' = Map.empty \<and> gw_configs w' = Map.empty"
  by (rule connection_cleanup_frees [OF ex_gw2_wf ex_gw2_facts(1) ex_gw_iter])

text \<open>
  C9. An update of the gateways chooses, among all gateways, one whose service has the highest order
  now. Exactly when another gateway is active it switches, and says so: the calls it makes are those that
  withdraw the routes of the active gateway, family by family, followed by those that install the routes of the chosen one,
  and after each family whose routes were set the service is reported as the default one. Otherwise it
  makes no call and changes no configuration.\<close>

theorem update_gateway_picks_best:
  assumes "gw_wf w" and "gateway_hash w = Some h" and "h \<noteq> []" and "iter_ok env"
  shows "\<exists>act p b w'. find_active_gateway env w = Inr act \<and> live w p \<and>
    (\<forall>q. live w q \<longrightarrow> ge_order env (gw_now w) (gd_service (the (gw_datas w q))) \<le> ge_order env (gw_now w) (gd_service (the (gw_datas w p)))) \<and>
    update_gateway env w = Inr (b, w') \<and> (b \<longleftrightarrow> act \<noteq> None \<and> act \<noteq> Some p) \<and> same_shape w w' \<and>
    gw_trace w' = (if b then installed env (routes_of w p) (withdrawn env (routes_of w (the act)) (gw_trace w)) else gw_trace w) \<and>
    (\<not> b \<longrightarrow> gw_configs w' = gw_configs w)"
  using assms by (rule update_gateway_effect)

theorem update_gateway_picks_best_witness:
  "\<exists>w'. update_gateway ex_gw_env ex_gw2 = Inr (True, w') \<and> gw_trace w' = gw_trace ex_gw2 @
     [Clear_gateway_address 1 (Some ''10.0.0.1''), Set_gateway_address 2 (Some ''10.0.0.2''), Indicate_default 2]"
proof -
  let ?o = "\<lambda>p. ge_order ex_gw_env (gw_now ex_gw2) (gd_service (the (gw_datas ex_gw2 p)))"
  have o: "?o 0 = 1" "?o 2 = 2" "\<not> Option.is_none (gw_datas ex_gw2 2)" by code_simp+
  have r: "routes_of ex_gw2 0 = (1, 1, Some (new_config ''10.0.0.1''), None)"
    "routes_of ex_gw2 2 = (2, 2, Some (new_config ''10.0.0.2''), None)" by code_simp+
  have h: "gateway_hash ex_gw2 = Some [(1, 0), (2, 2)]" "[(1 :: nat, 0 :: nat), (2, 2)] \<noteq> []" by (simp_all add: ex_gw2_facts)
  obtain act p b w' where u: "find_active_gateway ex_gw_env ex_gw2 = Inr act" "live ex_gw2 p" "\<forall>q. live ex_gw2 q \<longrightarrow> ?o q \<le> ?o p"
      "update_gateway ex_gw_env ex_gw2 = Inr (b, w')" "b \<longleftrightarrow> act \<noteq> None \<and> act \<noteq> Some p"
      "gw_trace w' = (if b then installed ex_gw_env (routes_of ex_gw2 p) (withdrawn ex_gw_env (routes_of ex_gw2 (the act)) (gw_trace ex_gw2)) else gw_trace ex_gw2)"
    using update_gateway_picks_best [OF ex_gw2_wf h ex_gw_iter] by (elim exE conjE) (rule that)
  have le: "?o 2 \<le> ?o p" using u(3) o(3) by (auto simp: Option.is_none_def)
  have "p = 0 \<or> p = 2" using wf_live [OF ex_gw2_wf h(1), of p] u(2) by auto
  moreover have "p \<noteq> 0"
  proof
    assume "p = 0"
    then show False using le by (simp add: o(1,2) word_le_nat_alt)
  qed
  ultimately have p: "p = 2" by simp
  have e: "ge_index ex_gw_env n k = int k" "ge_result ex_gw_env n c = 0" for n k c by (simp_all add: ex_gw_env_def)
  have a: "act = Some 0" using u(1) ex_gw2_facts(2) by simp
  have "b" using u(5) a p by simp
  moreover have "gw_trace w' = gw_trace ex_gw2 @
     [Clear_gateway_address 1 (Some ''10.0.0.1''), Set_gateway_address 2 (Some ''10.0.0.2''), Indicate_default 2]"
    using u(6) \<open>b\<close> by (simp add: a p r e installed_def withdrawn_def cleared4_def taken4_def announced_def new_config_def)
  ultimately show ?thesis using u(4) by auto
qed

text \<open>
  The switch from one plain IPv4 gateway to another clears the route of the first, then sets the
  route of the second, and reports the second service as the default one exactly when that succeeds.\<close>

lemma switch_moves_route:
  assumes "gw_wf w" and "plain4 w a s g" and "plain4 w p t k"
  shows "switch_default env a (Some p) w = Inr
    (let w1 = gw_tell (Clear_gateway_address (ge_index env (gw_now w) s) (Some g)) w;
         c = Set_gateway_address (ge_index env (gw_now w1) t) (Some k)
     in if ge_result env (gw_now w1) c < 0 then gw_tell c w1 else gw_tell (Indicate_default t) (gw_tell c w1))"
  using assms by (rule switch_plain4)

lemma switch_moves_route_witness:
  "\<exists>w'. switch_default ex_gw_env 0 (Some 2) ex_gw2 = Inr w' \<and> gw_trace w' = gw_trace ex_gw2 @
     [Clear_gateway_address 1 (Some ''10.0.0.1''), Set_gateway_address 2 (Some ''10.0.0.2''), Indicate_default 2]"
proof -
  have p: "plain4 ex_gw2 0 1 ''10.0.0.1''" "plain4 ex_gw2 2 2 ''10.0.0.2''" by code_simp+
  have e: "ge_index ex_gw_env n k = int k" "ge_result ex_gw_env n c = 0" for n k c by (simp_all add: ex_gw_env_def)
  show ?thesis using switch_moves_route [OF ex_gw2_wf p, of ex_gw_env] by (simp add: e Let_def gw_tell_def)
qed

end
