(* ===== verification/Event_Loop.thy ===== *)
theory Event_Loop
  imports Prelude
begin

text \<open>
  What the name resolution components share: memory that may be uninitialised, the calls to the
  operating system and to GLib with their results as parameters, and the sources (timers and
  watches) of the main loop.
\<close>

section \<open>Memory\<close>

text \<open>A byte of a buffer is unknown until it is written.\<close>

type_synonym cell = "u8 option"

definition load :: "cell list \<Rightarrow> nat \<Rightarrow> u8 result" where
  "load mem i =
     (case rd mem i of None \<Rightarrow> Inl OutOfBounds | Some None \<Rightarrow> Inl Uninitialised | Some (Some b) \<Rightarrow> Inr b)"

definition slice :: "cell list \<Rightarrow> nat \<Rightarrow> nat \<Rightarrow> cell list result" where
  "slice mem i n = (if i + n \<le> length mem then Inr (take n (drop i mem)) else Inl OutOfBounds)"

definition store :: "cell list \<Rightarrow> nat \<Rightarrow> cell list \<Rightarrow> cell list result" where
  "store mem i cs = (if i + length cs \<le> length mem then Inr (poke i cs mem) else Inl OutOfBounds)"

abbreviation known :: "u8 list \<Rightarrow> cell list" where "known bs \<equiv> map Some bs"

text \<open>A buffer of a fixed size after a packet was received: what does not fit into it is lost.\<close>

definition recv_buf :: "nat \<Rightarrow> u8 list \<Rightarrow> cell list" where
  "recv_buf n bs = known (take n bs) @ replicate (n - length bs) None"

text \<open>The bytes of a string in memory, up to a zero byte or a given number.\<close>

fun read_string :: "cell list \<Rightarrow> nat \<Rightarrow> nat \<Rightarrow> u8 list result" where
  "read_string mem i 0 = Inr []"
| "read_string mem i (Suc n) =
     bind_r (load mem i) (\<lambda>b. if b = 0 then Inr [] else bind_r (read_string mem (Suc i) n) (\<lambda>bs. Inr (b # bs)))"

text \<open>\<open>strlen\<close> of a string in memory: a missing zero byte is a read outside the buffer.\<close>

definition string_length :: "cell list \<Rightarrow> nat \<Rightarrow> nat result" where
  "string_length mem i = bind_r (read_string mem i (Suc (length mem) - i)) (\<lambda>bs. Inr (length bs))"

definition string_bytes :: "string \<Rightarrow> u8 list" where "string_bytes s = map of_char s"

lemma load_known: "i < length mem \<Longrightarrow> mem ! i = Some b \<Longrightarrow> load mem i = Inr b"
  by (simp add: load_def)

lemma length_recv_buf [simp]: "length (recv_buf n bs) = n"
  by (simp add: recv_buf_def)

lemma recv_buf_nth: "i < length bs \<Longrightarrow> i < n \<Longrightarrow> recv_buf n bs ! i = Some (bs ! i)"
  by (simp add: recv_buf_def nth_append)

lemma load_recv_buf: "i < length bs \<Longrightarrow> length bs \<le> n \<Longrightarrow> load (recv_buf n bs) i = Inr (bs ! i)"
  by (simp add: load_known recv_buf_nth)

lemma load_unreceived: "length bs \<le> i \<Longrightarrow> i < n \<Longrightarrow> load (recv_buf n bs) i = Inl Uninitialised"
  by (simp add: load_def recv_buf_def rd_def nth_append)

section \<open>Calls and sources\<close>

type_synonym sockaddr = "u8 list"

datatype event_source =
    Udp_server addr
  | Tcp_server addr
  | Tcp_idle addr
  | Request_timeout addr
  | Udp_listener addr
  | Tcp_listener addr
  | Resolver_expire addr

datatype sys_call =
    Open_file string
  | Ftruncate int
  | Write int string
  | Close int
  | Alloc
  | Getaddrinfo string
  | Socket bool int
  | Set_device int string
  | Clear_v6only int
  | Bind int
  | Listen int
  | Io_channel int
  | Connect int
  | Send int "cell list"
  | Sendto int "cell list" sockaddr
  | Add_source event_source
  | Notifier_register
  | Service_of_interface "string option"
  | Service_nameserver_append string
  | Service_nameserver_remove string

text \<open>
  The result of a call depends on the call and on when it is made. A call that fails returns the
  negative error number; an allocation fails with a negative number.
\<close>

record os_env =
  oe_result :: "nat \<Rightarrow> sys_call \<Rightarrow> int"

record os_world =
  os_trace :: "sys_call list"
  os_sources :: "(nat \<times> event_source) list"
  os_next :: addr

definition sys :: "os_env \<Rightarrow> sys_call \<Rightarrow> 'a os_world_scheme \<Rightarrow> int \<times> 'a os_world_scheme" where
  "sys env c w = (oe_result env (length (os_trace w)) c, w\<lparr>os_trace := os_trace w @ [c]\<rparr>)"

definition sys_do :: "os_env \<Rightarrow> sys_call \<Rightarrow> 'a os_world_scheme \<Rightarrow> 'a os_world_scheme" where
  "sys_do env c w = snd (sys env c w)"

definition add_source :: "os_env \<Rightarrow> event_source \<Rightarrow> 'a os_world_scheme \<Rightarrow> nat \<times> 'a os_world_scheme" where
  "add_source env src w =
     (let (r, w1) = sys env (Add_source src) w in (nat r, w1\<lparr>os_sources := (nat r, src) # os_sources w1\<rparr>))"

definition remove_source :: "nat \<Rightarrow> 'a os_world_scheme \<Rightarrow> 'a os_world_scheme" where
  "remove_source i w = w\<lparr>os_sources := filter (\<lambda>s. fst s \<noteq> i) (os_sources w)\<rparr>"

definition remove_source_if :: "nat \<Rightarrow> 'a os_world_scheme \<Rightarrow> 'a os_world_scheme" where
  "remove_source_if i w = (if i > 0 then remove_source i w else w)"


end
