(* ===== verification/Resolv_File.thy ===== *)
theory Resolv_File
  imports Event_Loop
begin

text \<open>
  The part of \<^verbatim>\<open>src/resolver.c\<close> that keeps the entries of \<^verbatim>\<open>/etc/resolv.conf\<close> and writes the file.
\<close>

record resolvfile_entry =
  rf_interface :: string
  rf_domain :: "string option"
  rf_server :: "string option"

text \<open>The list of entries and the content of the file.\<close>

record res_world = os_world +
  resolvfile_list :: "resolvfile_entry list"
  resolv_conf :: string

text \<open>The limits of the resolver of the C library (\<^verbatim>\<open>resolv.h\<close>).\<close>

definition MAXDNSRCH :: nat where "MAXDNSRCH = 6"
definition MAXNS :: nat where "MAXNS = 3"

abbreviation newline :: string where "newline \<equiv> [CHR 0x0A]"

fun search_loop :: "resolvfile_entry list \<Rightarrow> nat \<Rightarrow> string \<Rightarrow> nat \<times> string" where
  "search_loop [] count content = (count, content)"
| "search_loop (e # es) count content =
     (if count < MAXDNSRCH then
        (case rf_domain e of
           None \<Rightarrow> search_loop es count content
         | Some d \<Rightarrow> search_loop es (count + 1) ((if count = 0 then content @ ''search '' else content) @ d @ '' ''))
      else (count, content))"

fun nameserver_loop :: "resolvfile_entry list \<Rightarrow> nat \<Rightarrow> string \<Rightarrow> string" where
  "nameserver_loop [] count content = content"
| "nameserver_loop (e # es) count content =
     (if count < MAXNS then
        (case rf_server e of
           None \<Rightarrow> nameserver_loop es count content
         | Some s \<Rightarrow> nameserver_loop es (count + 1) (content @ ''nameserver '' @ s @ newline))
      else content)"

definition resolvfile_content :: "resolvfile_entry list \<Rightarrow> string" where
  "resolvfile_content es =
     (let (count, content) = search_loop (rev es) 0 (''# Generated by Connection Manager'' @ newline);
          content1 = (if count \<noteq> 0 then content @ newline else content)
      in nameserver_loop (rev es) 0 content1)"

definition resolvfile_export :: "os_env \<Rightarrow> 'a res_world_scheme \<Rightarrow> int \<times> 'a res_world_scheme" where
  "resolvfile_export env w =
     (let content = resolvfile_content (resolvfile_list w);
          (fd, w1) = sys env (Open_file ''/etc/resolv.conf'') w in
      if fd < 0 then (fd, w1)
      else
        let (t, w2) = sys env (Ftruncate fd) w1 in
        if t < 0 then (t, sys_do env (Close fd) w2)
        else
          let (n, w3) = sys env (Write fd content) (w2\<lparr>resolv_conf := []\<rparr>) in
          if n < 0 then (n, sys_do env (Close fd) w3)
          else (0, sys_do env (Close fd) (w3\<lparr>resolv_conf := take (nat n) content\<rparr>)))"

definition resolvfile_append ::
  "os_env \<Rightarrow> string option \<Rightarrow> string option \<Rightarrow> string option \<Rightarrow> 'a res_world_scheme \<Rightarrow> int \<times> 'a res_world_scheme" where
  "resolvfile_append env interface domain server w =
     (case interface of
        None \<Rightarrow> (- ENOENT, w)
      | Some i \<Rightarrow>
          let (r, w1) = sys env Alloc w in
          if r < 0 then (- ENOMEM, w1)
          else resolvfile_export env (w1\<lparr>resolvfile_list := resolvfile_list w1 @
            [\<lparr>rf_interface = i, rf_domain = domain, rf_server = server\<rparr>]\<rparr>))"

text \<open>A null interface or domain matches every entry; a null server matches entries without a server.\<close>

definition resolvfile_match :: "string option \<Rightarrow> string option \<Rightarrow> string option \<Rightarrow> resolvfile_entry \<Rightarrow> bool" where
  "resolvfile_match interface domain server e \<longleftrightarrow>
     (interface = None \<or> Some (rf_interface e) = interface) \<and> (domain = None \<or> rf_domain e = domain) \<and> rf_server e = server"

definition resolvfile_remove ::
  "os_env \<Rightarrow> string option \<Rightarrow> string option \<Rightarrow> string option \<Rightarrow> 'a res_world_scheme \<Rightarrow> int \<times> 'a res_world_scheme" where
  "resolvfile_remove env interface domain server w =
     resolvfile_export env (w\<lparr>resolvfile_list := filter (\<lambda>e. \<not> resolvfile_match interface domain server e) (resolvfile_list w)\<rparr>)"

end
