(* ===== verification/Dnsproxy.thy ===== *)
theory Dnsproxy
  imports Resolv_File
begin

text \<open>
  The DNS proxy, \<^verbatim>\<open>src/dnsproxy.c\<close>: servers, requests and listeners on an explicit heap, the queries and
  replies as bytes of buffers, and the events of the main loop.
\<close>

section \<open>State\<close>

text \<open>The protocol numbers of the C library.\<close>

definition proto_tcp :: int where "proto_tcp = 6"
definition proto_udp :: int where "proto_udp = 17"

record partial_reply =
  pr_len :: nat
  pr_received :: nat
  pr_buf :: "cell list"

record server_data =
  sd_interface :: "string option"
  sd_domains :: "string list"
  sd_server :: string
  sd_protocol :: int
  sd_channel :: int
  sd_watch :: nat
  sd_timeout :: nat
  sd_enabled :: bool
  sd_connected :: bool
  sd_incoming_reply :: "partial_reply option"

text \<open>A buffer that a field points to after it was freed.\<close>

datatype 'a buffer = Live 'a | Freed

record request_data =
  rq_sa :: sockaddr
  rq_client_sk :: int
  rq_protocol :: int
  rq_srcid :: u16
  rq_dstid :: u16
  rq_altid :: u16
  rq_timeout :: nat
  rq_numserv :: u32
  rq_numresp :: u32
  rq_request :: "cell list buffer option"
  rq_request_len :: nat
  rq_name :: "string buffer option"
  rq_resp :: "cell list option"
  rq_resplen :: nat
  rq_ifdata :: addr
  rq_append_domain :: bool

record listener_data =
  ld_ifname :: string
  ld_udp_listener_channel :: "int option"
  ld_udp_listener_watch :: nat
  ld_tcp_listener_channel :: "int option"
  ld_tcp_listener_watch :: nat

record dns_world = res_world +
  dw_servers :: "addr \<rightharpoonup> server_data"
  server_list :: "addr list"
  dw_requests :: "addr \<rightharpoonup> request_data"
  request_list :: "addr list"
  request_pending_list :: "addr list"
  request_id :: u16
  dw_listeners :: "addr \<rightharpoonup> listener_data"
  listener_table :: "(string \<times> addr) list option"

definition deref :: "(addr \<rightharpoonup> 'a) \<Rightarrow> addr \<Rightarrow> 'a result" where
  "deref heap p = (case heap p of None \<Rightarrow> Inl UseAfterFree | Some x \<Rightarrow> Inr x)"

definition put_server :: "addr \<Rightarrow> server_data \<Rightarrow> 'a dns_world_scheme \<Rightarrow> 'a dns_world_scheme" where
  "put_server p d w = w\<lparr>dw_servers := (dw_servers w)(p \<mapsto> d)\<rparr>"

definition put_request :: "addr \<Rightarrow> request_data \<Rightarrow> 'a dns_world_scheme \<Rightarrow> 'a dns_world_scheme" where
  "put_request p d w = w\<lparr>dw_requests := (dw_requests w)(p \<mapsto> d)\<rparr>"

definition free_request :: "addr \<Rightarrow> 'a dns_world_scheme \<Rightarrow> 'a dns_world_scheme" where
  "free_request p w = w\<lparr>dw_requests := (dw_requests w)(p := None)\<rparr>"

text \<open>A buffer may be freed once, and the null pointer always.\<close>

definition free_buffer :: "'b buffer option \<Rightarrow> unit result" where
  "free_buffer x = (case x of Some Freed \<Rightarrow> Inl BadFree | _ \<Rightarrow> Inr ())"

definition put_listener :: "addr \<Rightarrow> listener_data \<Rightarrow> 'a dns_world_scheme \<Rightarrow> 'a dns_world_scheme" where
  "put_listener p d w = w\<lparr>dw_listeners := (dw_listeners w)(p \<mapsto> d)\<rparr>"

definition new_addr :: "'a os_world_scheme \<Rightarrow> addr \<times> 'a os_world_scheme" where
  "new_addr w = (os_next w, w\<lparr>os_next := Suc (os_next w)\<rparr>)"

definition through :: "'b option \<Rightarrow> 'b result" where
  "through x = (case x of None \<Rightarrow> Inl NullDeref | Some y \<Rightarrow> Inr y)"

definition live_buffer :: "'b buffer option \<Rightarrow> 'b result" where
  "live_buffer x = (case x of None \<Rightarrow> Inl NullDeref | Some Freed \<Rightarrow> Inl UseAfterFree | Some (Live y) \<Rightarrow> Inr y)"

definition protocol_offset :: "int \<Rightarrow> int" where
  "protocol_offset protocol = (if protocol = proto_udp then 0 else if protocol = proto_tcp then 2 else - EINVAL)"

section \<open>Looking up requests and servers\<close>

fun request_scan :: "'a dns_world_scheme \<Rightarrow> u16 \<Rightarrow> addr list \<Rightarrow> addr option result" where
  "request_scan w rid [] = Inr None"
| "request_scan w rid (p # ps) =
     bind_r (deref (dw_requests w) p) (\<lambda>req.
     if rq_dstid req = rid \<or> rq_altid req = rid then Inr (Some p) else request_scan w rid ps)"

definition find_request :: "u16 \<Rightarrow> 'a dns_world_scheme \<Rightarrow> addr option result" where
  "find_request rid w = request_scan w rid (request_list w)"

fun server_scan :: "'a dns_world_scheme \<Rightarrow> string option \<Rightarrow> string \<Rightarrow> int \<Rightarrow> addr list \<Rightarrow> addr option result" where
  "server_scan w interface server protocol [] = Inr None"
| "server_scan w interface server protocol (p # ps) =
     bind_r (deref (dw_servers w) p) (\<lambda>data.
     if interface = None \<and> sd_interface data = None \<and> sd_server data = server \<and> sd_protocol data = protocol then Inr (Some p)
     else if interface = None \<or> sd_interface data = None then server_scan w interface server protocol ps
     else if sd_interface data = interface \<and> sd_server data = server \<and> sd_protocol data = protocol then Inr (Some p)
     else server_scan w interface server protocol ps)"

definition find_server :: "string option \<Rightarrow> string \<Rightarrow> int \<Rightarrow> 'a dns_world_scheme \<Rightarrow> addr option result" where
  "find_server interface server protocol w = server_scan w interface server protocol (server_list w)"

section \<open>Answers of the proxy itself\<close>

text \<open>An error response is the request with the response bit and the code for a server failure.\<close>

definition send_response ::
  "os_env \<Rightarrow> int \<Rightarrow> cell list \<Rightarrow> nat \<Rightarrow> sockaddr \<Rightarrow> int \<Rightarrow> 'a dns_world_scheme \<Rightarrow> (cell list \<times> 'a dns_world_scheme) result" where
  "send_response env sk buf len to protocol w =
     (let offset = protocol_offset protocol; h = nat offset in
      if offset < 0 then Inr (buf, w)
      else if len < 12 then Inr (buf, w)
      else
        bind_r (load buf (h + 2)) (\<lambda>f.
        bind_r (store buf (h + 2) [Some (f OR 0x80)]) (\<lambda>b1.
        bind_r (load b1 (h + 3)) (\<lambda>g.
        bind_r (store b1 (h + 3) [Some ((g AND 0xF0) OR 2)]) (\<lambda>b2.
        bind_r (store b2 (h + 6) (replicate 6 (Some 0))) (\<lambda>b3.
        bind_r (slice b3 0 len) (\<lambda>cs.
        Inr (b3, sys_do env (Sendto sk cs to) w))))))))"

definition id_cells :: "u16 \<Rightarrow> cell list" where
  "id_cells i = [Some (ucast i), Some (ucast (drop_bit 8 i))]"

text \<open>The answer of a request that was not answered in time: the request itself, with its own identifier, as an error.\<close>

definition answer_failure :: "os_env \<Rightarrow> addr \<Rightarrow> 'a dns_world_scheme \<Rightarrow> 'a dns_world_scheme result" where
  "answer_failure env p w =
     bind_r (deref (dw_requests w) p) (\<lambda>req.
     if rq_protocol req = proto_tcp then
       bind_r (live_buffer (rq_request req)) (\<lambda>b.
       bind_r (store b 2 (id_cells (rq_srcid req))) (\<lambda>b1.
       bind_r (send_response env (rq_client_sk req) b1 (rq_request_len req) [] proto_tcp w) (\<lambda>(b2, w1). Inr w1)))
     else if rq_protocol req = proto_udp then
       bind_r (live_buffer (rq_request req)) (\<lambda>b.
       bind_r (store b 0 (id_cells (rq_srcid req))) (\<lambda>b1.
       bind_r (deref (dw_listeners w) (rq_ifdata req)) (\<lambda>l.
       bind_r (through (ld_udp_listener_channel l)) (\<lambda>sk.
       bind_r (send_response env sk b1 (rq_request_len req) (rq_sa req) proto_udp w) (\<lambda>(b2, w1). Inr w1)))))
     else Inr w)"

definition request_timeout :: "os_env \<Rightarrow> addr \<Rightarrow> 'a dns_world_scheme \<Rightarrow> 'a dns_world_scheme result" where
  "request_timeout env p w =
     bind_r (deref (dw_requests w) p) (\<lambda>req.
     let req1 = req\<lparr>rq_numserv := rq_numserv req - 1\<rparr>;
         w1 = put_request p req1 (w\<lparr>request_list := remove1 p (request_list w)\<rparr>) in
     if rq_resplen req1 > 0 \<and> rq_resp req1 \<noteq> None then
       bind_r (deref (dw_listeners w1) (rq_ifdata req1)) (\<lambda>l.
       bind_r (through (ld_udp_listener_channel l)) (\<lambda>sk.
       bind_r (slice (the (rq_resp req1)) 0 (rq_resplen req1)) (\<lambda>cs.
       let (r, w2) = sys env (Sendto sk cs (rq_sa req1)) w1 in
       Inr (if r < 0 then w2 else free_request p w2))))
     else if rq_request req1 \<noteq> None \<and> rq_numserv req1 = 0 then
       bind_r (answer_failure env p w1) (\<lambda>w2. Inr (free_request p w2))
     else Inr (free_request p w1))"

section \<open>Queries with a domain\<close>

fun strchr :: "char \<Rightarrow> string \<Rightarrow> nat option" where
  "strchr c [] = None"
| "strchr c (x # xs) = (if x = c then Some 0 else map_option Suc (strchr c xs))"

lemma strchr_less: "strchr c s = Some k \<Longrightarrow> k < length s"
  by (induction s arbitrary: k) (auto split: if_splits)

text \<open>One label per part of the name, behind each other; an empty last part is left out.\<close>

function append_labels :: "cell list \<Rightarrow> nat \<Rightarrow> string \<Rightarrow> (cell list \<times> nat) result" where
  "append_labels mem ptr s =
     (case strchr (CHR ''.'') s of
        None \<Rightarrow>
          if s = [] then Inr (mem, ptr)
          else bind_r (store mem ptr [Some (of_nat (length s))]) (\<lambda>m1.
            bind_r (store m1 (ptr + 1) (known (string_bytes s))) (\<lambda>m2. Inr (m2, ptr + length s + 1)))
      | Some k \<Rightarrow>
          bind_r (store mem ptr [Some (of_nat k)]) (\<lambda>m1.
          bind_r (store m1 (ptr + 1) (known (string_bytes (take k s)))) (\<lambda>m2.
          append_labels m2 (ptr + k + 1) (drop (k + 1) s))))"
  by pat_completeness auto

termination append_labels
  by (relation "measure (\<lambda>(mem, ptr, s). length s)") (auto dest: strchr_less)

declare append_labels.simps [simp del]

definition append_query :: "cell list \<Rightarrow> nat \<Rightarrow> string \<Rightarrow> string \<Rightarrow> (cell list \<times> nat) result" where
  "append_query mem start query domain =
     bind_r (append_labels mem start query) (\<lambda>(m1, p1).
     bind_r (append_labels m1 p1 domain) (\<lambda>(m2, p2).
     bind_r (store m2 p2 [Some 0]) (\<lambda>m3. Inr (m3, p2 + 1 - start))))"

text \<open>The query for the name with a domain, built in a buffer of 1024 bytes.\<close>

definition alternate_query ::
  "cell list \<Rightarrow> nat \<Rightarrow> u16 \<Rightarrow> int \<Rightarrow> string \<Rightarrow> string \<Rightarrow> cell list result" where
  "alternate_query request request_len altid protocol name domain =
     (let h = nat (protocol_offset protocol); domlen = length domain + 1 in
      bind_r (store (replicate 1024 None) h (id_cells altid)) (\<lambda>a1.
      bind_r (slice request (h + 2) 10) (\<lambda>flags.
      bind_r (store a1 (h + 2) flags) (\<lambda>a2.
      bind_r (store a2 4 [Some 0, Some 1]) (\<lambda>a3.
      bind_r (append_query a3 (h + 12) name domain) (\<lambda>(a4, n).
      let altlen = n + 12; rest = int request_len - int altlen - int h + int domlen; from = int h + int altlen - int domlen in
      if rest < 0 then Inl BadLength
      else if from < 0 then Inl OutOfBounds
      else
        bind_r (slice request (nat from) (nat rest)) (\<lambda>t.
        bind_r (store a4 (h + altlen) t) (\<lambda>a5.
        if protocol = proto_tcp
        then (let req_len = request_len + domlen - 2 in
          store a5 0 [Some (of_nat (req_len div 256)), Some (of_nat req_len)])
        else Inr a5))))))))"

definition count_server :: "addr \<Rightarrow> 'a dns_world_scheme \<Rightarrow> 'a dns_world_scheme result" where
  "count_server p w = bind_r (deref (dw_requests w) p) (\<lambda>req. Inr (put_request p (req\<lparr>rq_numserv := rq_numserv req + 1\<rparr>) w))"

fun domain_loop ::
  "os_env \<Rightarrow> int \<Rightarrow> int \<Rightarrow> addr \<Rightarrow> cell list \<Rightarrow> string \<Rightarrow> string list \<Rightarrow> 'a dns_world_scheme \<Rightarrow> (int \<times> 'a dns_world_scheme) result" where
  "domain_loop env sk protocol p request name [] w = Inr (0, w)"
| "domain_loop env sk protocol p request name (domain # ds) w =
     (if protocol_offset protocol < 0 then Inr (protocol_offset protocol, w)
      else if length domain + 1 < 5 then Inr (- EINVAL, w)
      else
        bind_r (deref (dw_requests w) p) (\<lambda>req.
        bind_r (alternate_query request (rq_request_len req) (rq_altid req) protocol name domain) (\<lambda>alt.
        bind_r (slice alt 0 (rq_request_len req + (length domain + 1))) (\<lambda>cs.
        let (r, w1) = sys env (Send sk cs) w in
        if r < 0 then Inr (- EIO, w1)
        else bind_r (count_server p w1) (\<lambda>w2. domain_loop env sk protocol p request name ds w2)))))"

text \<open>A name with a dot that is not its last character is not combined with domains.\<close>

definition has_inner_dot :: "string \<Rightarrow> bool" where
  "has_inner_dot name = (case strchr (CHR ''.'') name of None \<Rightarrow> False | Some k \<Rightarrow> k \<noteq> length name - 1)"

definition ns_resolv ::
  "os_env \<Rightarrow> addr \<Rightarrow> addr \<Rightarrow> cell list \<Rightarrow> string \<Rightarrow> 'a dns_world_scheme \<Rightarrow> (int \<times> 'a dns_world_scheme) result" where
  "ns_resolv env s p request name w =
     bind_r (deref (dw_servers w) s) (\<lambda>server.
     bind_r (deref (dw_requests w) p) (\<lambda>req.
     bind_r (slice request 0 (rq_request_len req)) (\<lambda>cs.
     bind_r (count_server p (sys_do env (Send (sd_channel server) cs) w)) (\<lambda>w1.
     if has_inner_dot name then Inr (0, w1)
     else
       bind_r (if sd_domains server \<noteq> []
           then bind_r (deref (dw_requests w1) p) (\<lambda>r. Inr (put_request p (r\<lparr>rq_append_domain := True\<rparr>) w1)) else Inr w1) (\<lambda>w2.
       domain_loop env (sd_channel server) (sd_protocol server) p request name (sd_domains server) w2)))))"

section \<open>Replies of a server\<close>

text \<open>
  The domain is cut out of the name in the question, so that the reply answers the question of the
  client. The length of the domain is an unsigned integer, and the lengths of the copy are the code's.
\<close>

definition strip_domain :: "cell list \<Rightarrow> nat \<Rightarrow> nat \<Rightarrow> (cell list \<times> nat) result" where
  "strip_domain reply reply_len ptr =
     bind_r (load reply ptr) (\<lambda>host_len.
     bind_r (string_length reply ptr) (\<lambda>n.
     let domain_len = (of_nat n - ucast host_len - 1 :: u32);
         rest = int reply_len - (int ptr + uint domain_len) in
     if rest < 0 then Inl BadLength
     else
       bind_r (slice reply (ptr + unat host_len + unat domain_len + 1) (nat rest)) (\<lambda>cs.
       bind_r (store reply (ptr + unat host_len + 1) cs) (\<lambda>reply1.
       Inr (reply1, reply_len - unat domain_len)))))"

text \<open>Keeping a reply: the first one, and every one without an error.\<close>

definition keep_reply :: "os_env \<Rightarrow> addr \<Rightarrow> cell list \<Rightarrow> nat \<Rightarrow> nat \<Rightarrow> 'a dns_world_scheme \<Rightarrow> (bool \<times> 'a dns_world_scheme) result" where
  "keep_reply env p reply reply_len h w =
     bind_r (deref (dw_requests w) p) (\<lambda>req.
     bind_r (if rq_append_domain req then strip_domain reply reply_len (h + 12) else Inr (reply, reply_len)) (\<lambda>(reply1, len1).
     let (r, w1) = sys env Alloc w in
     if r < 0 then Inr (False, put_request p (req\<lparr>rq_resp := None, rq_resplen := 0\<rparr>) w1)
     else bind_r (slice reply1 0 len1) (\<lambda>cs.
       Inr (True, put_request p (req\<lparr>rq_resp := Some cs, rq_resplen := len1\<rparr>) w1))))"

definition send_reply :: "os_env \<Rightarrow> int \<Rightarrow> request_data \<Rightarrow> 'a dns_world_scheme \<Rightarrow> (int \<times> 'a dns_world_scheme) result" where
  "send_reply env protocol req w =
     bind_r (through (rq_resp req)) (\<lambda>resp.
     bind_r (slice resp 0 (rq_resplen req)) (\<lambda>cs.
     if protocol = proto_udp then
       bind_r (deref (dw_listeners w) (rq_ifdata req)) (\<lambda>l.
       bind_r (through (ld_udp_listener_channel l)) (\<lambda>sk.
       Inr (sys env (Sendto sk cs (rq_sa req)) w)))
     else
       let (r, w1) = sys env (Send (rq_client_sk req) cs) w in Inr (r, sys_do env (Close (rq_client_sk req)) w1)))"

definition forward_dns_reply ::
  "os_env \<Rightarrow> cell list \<Rightarrow> nat \<Rightarrow> int \<Rightarrow> 'a dns_world_scheme \<Rightarrow> (int \<times> 'a dns_world_scheme) result" where
  "forward_dns_reply env reply reply_len protocol w =
     (let offset = protocol_offset protocol; h = nat offset in
      if offset < 0 then Inr (offset, w)
      else
        bind_r (load reply h) (\<lambda>b0.
        bind_r (load reply (h + 1)) (\<lambda>b1.
        bind_r (find_request (of_bytes16 [b0, b1]) w) (\<lambda>found.
        case found of
          None \<Rightarrow> Inr (- EINVAL, w)
        | Some p \<Rightarrow>
            bind_r (deref (dw_requests w) p) (\<lambda>req0.
            bind_r (store reply h (id_cells (rq_srcid req0))) (\<lambda>reply1.
            let w1 = put_request p (req0\<lparr>rq_numresp := rq_numresp req0 + 1\<rparr>) w in
            bind_r (load reply1 (h + 3)) (\<lambda>flags.
            let rcode = flags AND 0x0F in
            bind_r (if rcode = 0 \<or> rq_resp req0 = None then keep_reply env p reply1 reply_len h w1 else Inr (True, w1)) (\<lambda>(kept, w2).
            if \<not> kept then Inr (- ENOMEM, w2)
            else
              bind_r (deref (dw_requests w2) p) (\<lambda>req.
              if rcode > 0 \<and> rq_numresp req < rq_numserv req then Inr (- EINVAL, w2)
              else
                let w3 = remove_source_if (rq_timeout req) w2;
                    w4 = w3\<lparr>request_list := remove1 p (request_list w3)\<rparr> in
                bind_r (send_reply env protocol req w4) (\<lambda>(err, w5). Inr (err, free_request p w5)))))))))))"

end
