(* ===== verification/Dns_Events.thy ===== *)
theory Dns_Events
  imports Dnsproxy
begin

text \<open>
  The rest of \<^verbatim>\<open>src/dnsproxy.c\<close>: the list of servers, the parser of requests, the handlers of the main
  loop, the listeners and the interface of the component.
\<close>

section \<open>Servers\<close>

text \<open>
  The nodes of a list of GLib that a loop walks over: each has a number, in the order of the list, and its data pointer. The functions
  of GLib that remove an element free its node; data and successor of a node can be read as long as it is not freed.
\<close>

type_synonym glist = "(nat \<times> addr) list"

definition list_nodes :: "addr list \<Rightarrow> glist" where
  "list_nodes xs = enumerate 0 xs"

fun g_list_remove :: "addr \<Rightarrow> glist \<Rightarrow> glist" where
  "g_list_remove x [] = []"
| "g_list_remove x (n # ns) = (if snd n = x then ns else n # g_list_remove x ns)"

definition list_data :: "glist \<Rightarrow> nat \<Rightarrow> addr result" where
  "list_data ns n = deref (map_of ns) n"

definition list_next :: "glist \<Rightarrow> nat \<Rightarrow> nat option result" where
  "list_next ns n =
     bind_r (list_data ns n) (\<lambda>_. Inr (case filter (\<lambda>m. n < fst m) ns of [] \<Rightarrow> None | m # _ \<Rightarrow> Some (fst m)))"

definition list_first :: "glist \<Rightarrow> nat option" where
  "list_first ns = (case ns of [] \<Rightarrow> None | n # _ \<Rightarrow> Some (fst n))"

lemma length_remove_node: "length (filter P (g_list_remove x ns)) \<le> length (filter P ns)"
  by (induction ns) auto

lemma list_next_shorter:
  assumes "list_next ns n = Inr (Some k)"
  shows "length (filter (\<lambda>m. k \<le> fst m) ns) < length (filter (\<lambda>m. n \<le> fst m) ns)"
proof -
  obtain d where d: "(n, d) \<in> set ns"
    using assms by (auto simp: list_next_def list_data_def deref_def bind_r_eq_Inr split: option.splits dest: map_of_SomeD)
  obtain x xs where "filter (\<lambda>m. n < fst m) ns = x # xs" "fst x = k"
    using assms by (auto simp: list_next_def bind_r_eq_Inr split: list.splits)
  then have k: "n < k" by (metis (mono_tags, lifting) filter_eq_Cons_iff)
  have "filter (\<lambda>m. k \<le> fst m) ns = filter (\<lambda>m. k \<le> fst m) (filter (\<lambda>m. n \<le> fst m) ns)"
    using k by (auto intro!: filter_cong)
  moreover have "(n, d) \<in> set (filter (\<lambda>m. n \<le> fst m) ns)" using d by simp
  ultimately show ?thesis using k by (metis (no_types, lifting) fst_conv length_filter_less not_le)
qed

text \<open>
  The loop that frees the domains of a server. The strings are allocated one by one, so their pointers are different.
\<close>

function free_domains_loop :: "glist \<Rightarrow> nat option \<Rightarrow> unit result" where
  "free_domains_loop domains list =
     (case list of
        None \<Rightarrow> Inr ()
      | Some n \<Rightarrow>
          (case list_data domains n of
             Inl e \<Rightarrow> Inl e
           | Inr domain \<Rightarrow>
               let domains1 = g_list_remove domain domains in
               (case list_next domains1 n of Inl e \<Rightarrow> Inl e | Inr list1 \<Rightarrow> free_domains_loop domains1 list1)))"
  by pat_completeness auto

termination free_domains_loop
proof (relation "measure (\<lambda>(ns, list). case list of None \<Rightarrow> 0 | Some n \<Rightarrow> Suc (length (filter (\<lambda>m. n \<le> fst m) ns)))", goal_cases)
  case (2 domains list n domain domains1 list1)
  then show ?case
    using list_next_shorter [of domains1 n] length_remove_node [of "\<lambda>m. n \<le> fst m" domain domains] by (cases list1) fastforce+
qed simp

declare free_domains_loop.simps [simp del]

definition free_domains :: "string list \<Rightarrow> unit result" where
  "free_domains domains = (let ns = list_nodes [0..<length domains] in free_domains_loop ns (list_first ns))"

lemma free_domains_result: "free_domains domains = (if domains = [] then Inr () else Inl UseAfterFree)"
proof (cases domains)
  case (Cons d ds)
  then have "[0..<length domains] = 0 # [1..<length domains]" by (simp add: upt_conv_Cons del: upt_Suc)
  then have "list_nodes [0..<length domains] = (0, 0) # enumerate 1 [1..<length domains]" by (simp add: list_nodes_def)
  moreover have "map_of (enumerate 1 [1..<length domains]) 0 = None" 
    unfolding map_of_eq_None_iff list.set_map [symmetric] map_fst_enumerate by (simp del: upt_Suc)
  ultimately show ?thesis
    using Cons by (simp add: free_domains_def free_domains_loop.simps list_first_def list_data_def list_next_def deref_def)
qed (simp add: free_domains_def list_nodes_def list_first_def free_domains_loop.simps)

definition destroy_server :: "os_env \<Rightarrow> addr \<Rightarrow> 'a dns_world_scheme \<Rightarrow> 'a dns_world_scheme result" where
  "destroy_server env p w =
     bind_r (deref (dw_servers w) p) (\<lambda>server.
     let w1 = w\<lparr>server_list := remove1 p (server_list w)\<rparr>;
         w2 = remove_source_if (sd_watch server) w1;
         w3 = remove_source_if (sd_timeout server) w2;
         w4 = sys_do env (Close (sd_channel server)) w3 in
     bind_r (free_domains (sd_domains server)) (\<lambda>_. Inr (w4\<lparr>dw_servers := (dw_servers w4)(p := None)\<rparr>)))"

text \<open>The address, the socket and the channel of a new server; every failure releases what was taken.\<close>

definition open_server :: "os_env \<Rightarrow> string option \<Rightarrow> string \<Rightarrow> int \<Rightarrow> 'a dns_world_scheme \<Rightarrow> int option \<times> 'a dns_world_scheme" where
  "open_server env interface server protocol w =
     (let (r, w1) = sys env (Getaddrinfo server) w in
      if r \<noteq> 0 then (None, w1)
      else let (sk, w2) = sys env (Socket False protocol) w1 in
      if sk < 0 then (None, w2)
      else let (b, w3) = (case interface of None \<Rightarrow> (0, w2) | Some i \<Rightarrow> sys env (Set_device sk i) w2) in
      if b < 0 then (None, sys_do env (Close sk) w3)
      else let (m, w4) = sys env Alloc w3 in
      if m < 0 then (None, sys_do env (Close sk) w4)
      else let (c, w5) = sys env (Io_channel sk) w4 in
      if c < 0 then (None, sys_do env (Close sk) w5) else (Some sk, w5))"

definition create_server ::
  "os_env \<Rightarrow> string option \<Rightarrow> string option \<Rightarrow> string \<Rightarrow> int \<Rightarrow> 'a dns_world_scheme \<Rightarrow> (addr option \<times> 'a dns_world_scheme) result" where
  "create_server env interface domain server protocol w =
     (if protocol \<noteq> proto_udp \<and> protocol \<noteq> proto_tcp then Inr (None, w)
      else
        let (sock, w1) = open_server env interface server protocol w in
        case sock of
          None \<Rightarrow> Inr (None, w1)
        | Some sk \<Rightarrow>
            let (p, w2) = new_addr w1;
                (watch, w3) = add_source env (if protocol = proto_tcp then Tcp_server p else Udp_server p) w2;
                (timeout, w4) = (if protocol = proto_tcp then add_source env (Tcp_idle p) w3 else (0, w3));
                domains = (case domain of None \<Rightarrow> [] | Some d \<Rightarrow> [d]);
                data = \<lparr>sd_interface = interface, sd_domains = domains, sd_server = server, sd_protocol = protocol, sd_channel = sk,
                  sd_watch = watch, sd_timeout = timeout, sd_enabled = False, sd_connected = False, sd_incoming_reply = None\<rparr>;
                (r, w5) = sys env (Connect sk) w4 in
            if r < 0 \<and> (protocol = proto_tcp \<and> r \<noteq> - EINPROGRESS \<or> protocol = proto_udp) then
              bind_r (free_domains domains) (\<lambda>_.
              Inr (None, sys_do env (Close sk) (sys_do env (Close sk) (remove_source_if timeout (remove_source_if watch w5)))))
            else if protocol = proto_udp then
              Inr (Some p, put_server p (data\<lparr>sd_enabled := True\<rparr>) (w5\<lparr>server_list := server_list w5 @ [p]\<rparr>))
            else Inr (None, put_server p data w5))"

text \<open>A request goes to every server that is enabled.\<close>

fun resolv_loop :: "os_env \<Rightarrow> addr \<Rightarrow> cell list \<Rightarrow> string \<Rightarrow> addr list \<Rightarrow> 'a dns_world_scheme \<Rightarrow> 'a dns_world_scheme result" where
  "resolv_loop env q request name [] w = Inr w"
| "resolv_loop env q request name (p # ps) w =
     bind_r (deref (dw_servers w) p) (\<lambda>data.
     if \<not> sd_enabled data then resolv_loop env q request name ps w
     else
       let w1 = (if sd_watch data = 0 \<and> sd_protocol data = proto_udp
             then let (i, w0) = add_source env (Udp_server p) w in put_server p (data\<lparr>sd_watch := i\<rparr>) w0 else w) in
       bind_r (ns_resolv env p q request name w1) (\<lambda>(err, w2). resolv_loop env q request name ps w2))"

definition resolv :: "os_env \<Rightarrow> addr \<Rightarrow> cell list \<Rightarrow> string \<Rightarrow> 'a dns_world_scheme \<Rightarrow> 'a dns_world_scheme result" where
  "resolv env q request name w = resolv_loop env q request name (server_list w) w"

fun append_domain_loop :: "string option \<Rightarrow> string \<Rightarrow> addr list \<Rightarrow> 'a dns_world_scheme \<Rightarrow> 'a dns_world_scheme result" where
  "append_domain_loop interface domain [] w = Inr w"
| "append_domain_loop interface domain (p # ps) w =
     bind_r (deref (dw_servers w) p) (\<lambda>data.
     if sd_interface data = None then append_domain_loop interface domain ps w
     else if interface = None then Inl NullDeref
     else if sd_interface data \<noteq> interface then append_domain_loop interface domain ps w
     else append_domain_loop interface domain ps
       (if domain \<in> set (sd_domains data) then w
        else put_server p (data\<lparr>sd_domains := sd_domains data @ [domain]\<rparr>) w))"

definition append_domain :: "string option \<Rightarrow> string option \<Rightarrow> 'a dns_world_scheme \<Rightarrow> 'a dns_world_scheme result" where
  "append_domain interface domain w =
     (case domain of None \<Rightarrow> Inr w | Some d \<Rightarrow> append_domain_loop interface d (server_list w) w)"

abbreviation localhost :: string where "localhost \<equiv> ''127.0.0.1''"

definition dnsproxy_append ::
  "os_env \<Rightarrow> string option \<Rightarrow> string option \<Rightarrow> string option \<Rightarrow> 'a dns_world_scheme \<Rightarrow> (int \<times> 'a dns_world_scheme) result" where
  "dnsproxy_append env interface domain server w =
     (case server of
        None \<Rightarrow> if domain = None then Inr (- EINVAL, w) else bind_r (append_domain interface domain w) (\<lambda>w1. Inr (0, w1))
      | Some s \<Rightarrow>
          if s = localhost then Inr (- ENODEV, w)
          else bind_r (find_server interface s proto_udp w) (\<lambda>data.
            case data of
              Some p \<Rightarrow> bind_r (append_domain interface domain w) (\<lambda>w1. Inr (0, w1))
            | None \<Rightarrow> bind_r (create_server env interface domain s proto_udp w) (\<lambda>(p, w1).
                Inr (if p = None then - EIO else 0, w1))))"

definition remove_server ::
  "os_env \<Rightarrow> string option \<Rightarrow> string \<Rightarrow> int \<Rightarrow> 'a dns_world_scheme \<Rightarrow> 'a dns_world_scheme result" where
  "remove_server env interface server protocol w =
     bind_r (find_server interface server protocol w) (\<lambda>data. case data of None \<Rightarrow> Inr w | Some p \<Rightarrow> destroy_server env p w)"

definition dnsproxy_remove ::
  "os_env \<Rightarrow> string option \<Rightarrow> string option \<Rightarrow> string option \<Rightarrow> 'a dns_world_scheme \<Rightarrow> (int \<times> 'a dns_world_scheme) result" where
  "dnsproxy_remove env interface domain server w =
     (case server of
        None \<Rightarrow> Inr (- EINVAL, w)
      | Some s \<Rightarrow>
          if s = localhost then Inr (- ENODEV, w)
          else bind_r (remove_server env interface s proto_udp w) (\<lambda>w1.
            bind_r (remove_server env interface s proto_tcp w1) (\<lambda>w2. Inr (0, w2))))"

fun flush_loop :: "os_env \<Rightarrow> addr list \<Rightarrow> 'a dns_world_scheme \<Rightarrow> 'a dns_world_scheme result" where
  "flush_loop env [] w = Inr w"
| "flush_loop env (p # ps) w =
     bind_r (deref (dw_requests w) p) (\<lambda>req.
     bind_r (live_buffer (rq_request req)) (\<lambda>request.
     bind_r (live_buffer (rq_name req)) (\<lambda>name.
     bind_r (resolv env p request name (w\<lparr>request_pending_list := remove1 p (request_pending_list w)\<rparr>)) (\<lambda>w1.
     bind_r (deref (dw_requests w1) p) (\<lambda>r.
     flush_loop env ps (put_request p (r\<lparr>rq_request := Some Freed, rq_name := Some Freed\<rparr>) w1))))))"

definition dnsproxy_flush :: "os_env \<Rightarrow> 'a dns_world_scheme \<Rightarrow> 'a dns_world_scheme result" where
  "dnsproxy_flush env w = flush_loop env (request_pending_list w) w"

fun enable_loop :: "(server_data \<Rightarrow> bool) \<Rightarrow> addr list \<Rightarrow> 'a dns_world_scheme \<Rightarrow> 'a dns_world_scheme result" where
  "enable_loop f [] w = Inr w"
| "enable_loop f (p # ps) w =
     bind_r (deref (dw_servers w) p) (\<lambda>data. enable_loop f ps (put_server p (data\<lparr>sd_enabled := f data\<rparr>) w))"

definition dnsproxy_offline_mode :: "bool \<Rightarrow> 'a dns_world_scheme \<Rightarrow> 'a dns_world_scheme result" where
  "dnsproxy_offline_mode enabled w = enable_loop (\<lambda>data. \<not> enabled) (server_list w) w"

text \<open>The new default service, if there is one, and its interface, if it has one.\<close>

definition dnsproxy_default_changed :: "string option option \<Rightarrow> 'a dns_world_scheme \<Rightarrow> 'a dns_world_scheme result" where
  "dnsproxy_default_changed service w =
     (case service of
        None \<Rightarrow> dnsproxy_offline_mode True w
      | Some None \<Rightarrow> Inr w
      | Some (Some interface) \<Rightarrow> enable_loop (\<lambda>data. sd_interface data = Some interface) (server_list w) w)"

section \<open>Parsing a request\<close>

definition bytes_string :: "u8 list \<Rightarrow> string" where "bytes_string bs = map (\<lambda>b. char_of (unat b)) bs"

text \<open>\<open>strncat\<close> into an array of \<open>size\<close> characters: the final zero byte needs room, too.\<close>

definition concat_string :: "nat \<Rightarrow> string \<Rightarrow> string \<Rightarrow> string result" where
  "concat_string n name s = (if length name + length s < n then Inr (name @ s) else Inl OutOfBounds)"

text \<open>
  The labels of the name. The remaining length is unsigned: it wraps when a label is longer than what
  is left of the packet. The result is an error number, or the name, the position behind the name and
  the remaining length.
\<close>

function parse_labels ::
  "cell list \<Rightarrow> nat \<Rightarrow> nat \<Rightarrow> u32 \<Rightarrow> nat \<Rightarrow> string \<Rightarrow> (int + string \<times> nat option \<times> u32) result" where
  "parse_labels mem n ptr remain used name =
     (if remain = 0 then Inr (Inr (name, None, remain))
      else
        case load mem ptr of
          Inl e \<Rightarrow> Inl e
        | Inr len \<Rightarrow>
            if len = 0 then Inr (Inr (name, Some (ptr + 1), remain))
            else if used + unat len + 1 > n then Inr (Inl (- ENOBUFS))
            else
              case bind_r (read_string mem (ptr + 1) (unat len)) (\<lambda>bs.
                bind_r (concat_string n name (bytes_string bs)) (\<lambda>name1. concat_string n name1 ''.'')) of
                Inl e \<Rightarrow> Inl e
              | Inr name2 \<Rightarrow> parse_labels mem n (ptr + unat len + 1) (remain - (ucast len + 1)) (used + unat len + 1) name2)"
  by pat_completeness auto

termination parse_labels
  by (relation "measure (\<lambda>(mem, n, ptr, remain, used, name). n + 1 - used)") auto

declare parse_labels.simps [simp del]

text \<open>
  The buffer size of an EDNS0 record is raised to 4096 when it is smaller. It is read through a
  pointer to (signed) characters.
\<close>

definition edns_size :: "u8 \<Rightarrow> u8 \<Rightarrow> u16" where
  "edns_size hi lo = push_bit 8 (scast hi) OR scast lo"

definition raise_edns :: "cell list \<Rightarrow> nat \<Rightarrow> cell list result" where
  "raise_edns buf label =
     bind_r (load buf (label + 4)) (\<lambda>root.
     if root \<noteq> 0 then Inr buf
     else
       bind_r (load buf (label + 5)) (\<lambda>t1.
       bind_r (load buf (label + 6)) (\<lambda>t2.
       if [t1, t2] \<noteq> [0x00, 0x29] then Inr buf
       else
         bind_r (load buf (label + 7)) (\<lambda>hi.
         bind_r (load buf (label + 8)) (\<lambda>lo.
         if edns_size hi lo < 0x1000 then store buf (label + 7) [Some 0x10, Some 0x00] else Inr buf)))))"

definition parse_request :: "cell list \<Rightarrow> nat \<Rightarrow> nat \<Rightarrow> nat \<Rightarrow> (int \<times> cell list \<times> string) result" where
  "parse_request buf start len n =
     (if len < 12 then Inr (- EINVAL, buf, [])
      else
        bind_r (load buf (start + 2)) (\<lambda>flags.
        bind_r (load buf (start + 4)) (\<lambda>q1. bind_r (load buf (start + 5)) (\<lambda>q2.
        bind_r (load buf (start + 10)) (\<lambda>a1. bind_r (load buf (start + 11)) (\<lambda>a2.
        if flags AND 0x80 \<noteq> 0 \<or> [q1, q2] \<noteq> [0, 1] then Inr (- EINVAL, buf, [])
        else
          bind_r (parse_labels buf n (start + 12) (of_nat (len - 12)) 0 []) (\<lambda>r.
          case r of
            Inl e \<Rightarrow> Inr (e, buf, [])
          | Inr (name, last_label, remain) \<Rightarrow>
              (case last_label of
                 None \<Rightarrow> Inr (0, buf, name)
               | Some label \<Rightarrow>
                   if [a1, a2] \<noteq> [0, 0] \<and> remain \<ge> 9
                   then bind_r (raise_edns buf label) (\<lambda>buf1. Inr (0, buf1, name)) else Inr (0, buf, name)))))))))"

end
