(* ===== verification/Dns_Listeners.thy ===== *)
theory Dns_Listeners
  imports Dns_Events
begin

text \<open>
  The handlers of the main loop of \<^verbatim>\<open>src/dnsproxy.c\<close> and its listeners. A handler gets what the system calls
  return (the received bytes) as arguments, and returns whether its source stays.
\<close>

section \<open>Requests of clients\<close>

definition next_request_id :: "u16 \<Rightarrow> u16" where
  "next_request_id i = (let j = i + 2 in if j = 0x0000 \<or> j = 0xFFFF then j + 2 else j)"

text \<open>A received packet: its bytes and the address of the sender, or none when the call fails.\<close>

definition udp_listener_event ::
  "os_env \<Rightarrow> addr \<Rightarrow> bool \<Rightarrow> (u8 list \<times> sockaddr) option \<Rightarrow> 'a dns_world_scheme \<Rightarrow> (bool \<times> 'a dns_world_scheme) result" where
  "udp_listener_event env l failed packet w =
     bind_r (deref (dw_listeners w) l) (\<lambda>ifdata.
     if failed then Inr (False, put_listener l (ifdata\<lparr>ld_udp_listener_watch := 0\<rparr>) w)
     else
       case packet of
         None \<Rightarrow> Inr (True, w)
       | Some (data, sa) \<Rightarrow>
           let len = min 768 (length data); buf = recv_buf 768 data in
           if len < 2 then Inr (True, w)
           else
             bind_r (parse_request buf 0 len 512) (\<lambda>(err, buf1, query).
             if err < 0 \<or> server_list w = [] then
               bind_r (through (ld_udp_listener_channel ifdata)) (\<lambda>sk.
               bind_r (send_response env sk buf1 len sa proto_udp w) (\<lambda>(b, w1). Inr (True, w1)))
             else
               let (m, w1) = sys env Alloc w in
               if m < 0 then Inr (True, w1)
               else
                 let (p, w2) = new_addr w1; rid = next_request_id (request_id w2) in
                 bind_r (load buf1 0) (\<lambda>b0. bind_r (load buf1 1) (\<lambda>b1.
                 bind_r (store buf1 0 (id_cells rid)) (\<lambda>buf2.
                 let (timeout, w3) = add_source env (Request_timeout p) w2;
                     req = \<lparr>rq_sa = sa, rq_client_sk = 0, rq_protocol = proto_udp, rq_srcid = of_bytes16 [b0, b1], rq_dstid = rid,
                       rq_altid = rid + 1, rq_timeout = timeout, rq_numserv = 0, rq_numresp = 0, rq_request = None,
                       rq_request_len = len, rq_name = None, rq_resp = None, rq_resplen = 0, rq_ifdata = l, rq_append_domain = False\<rparr>;
                     w4 = put_request p req (w3\<lparr>request_id := rid, request_list := request_list w3 @ [p]\<rparr>) in
                 bind_r (resolv env p buf2 query w4) (\<lambda>w5. Inr (True, w5)))))))"

text \<open>
  A request over TCP opens a connection to every server that is enabled; the request is kept until the
  connection is made. The flag says whether the handler ends early.
\<close>

fun tcp_servers_loop ::
  "os_env \<Rightarrow> addr \<Rightarrow> cell list \<Rightarrow> string \<Rightarrow> addr list \<Rightarrow> 'a dns_world_scheme \<Rightarrow> 'a dns_world_scheme result" where
  "tcp_servers_loop env q buf query [] w = Inr w"
| "tcp_servers_loop env q buf query (p # ps) w =
     bind_r (deref (dw_servers w) p) (\<lambda>data.
     if sd_protocol data \<noteq> proto_udp \<or> \<not> sd_enabled data then tcp_servers_loop env q buf query ps w
     else
       bind_r (create_server env (sd_interface data) None (sd_server data) proto_tcp w) (\<lambda>(server, w1).
       bind_r (deref (dw_requests w1) q) (\<lambda>req.
       case server of
         None \<Rightarrow>
           let (m, w2) = sys env Alloc w1 in
           if m < 0 then Inr (put_request q (req\<lparr>rq_request := None\<rparr>) w2)
           else bind_r (slice buf 0 (rq_request_len req)) (\<lambda>cs.
             let req1 = req\<lparr>rq_request := Some (Live cs)\<rparr>; (m2, w3) = sys env Alloc w2 in
             if m2 < 0 then Inr (put_request q (req1\<lparr>rq_request := Some Freed, rq_name := None\<rparr>) w3)
             else tcp_servers_loop env q buf query ps (put_request q (req1\<lparr>rq_name := Some (Live query)\<rparr>) w3))
       | Some s \<Rightarrow>
           bind_r (deref (dw_servers w1) s) (\<lambda>new.
           let w2 = remove_source_if (rq_timeout req) w1;
               w3 = put_server s (new\<lparr>sd_domains := sd_domains new @ sd_domains data\<rparr>) w2;
               (timeout, w4) = add_source env (Request_timeout q) w3;
               w5 = put_request q (req\<lparr>rq_timeout := timeout\<rparr>) w4 in
           bind_r (ns_resolv env s q buf query w5) (\<lambda>(err, w6). tcp_servers_loop env q buf query ps w6)))))"

text \<open>The result of \<open>accept\<close> and the bytes received on the new socket.\<close>

definition tcp_listener_event ::
  "os_env \<Rightarrow> addr \<Rightarrow> bool \<Rightarrow> (int \<times> sockaddr) option \<Rightarrow> u8 list \<Rightarrow> 'a dns_world_scheme \<Rightarrow> (bool \<times> 'a dns_world_scheme) result" where
  "tcp_listener_event env l failed accepted data w =
     bind_r (deref (dw_listeners w) l) (\<lambda>ifdata.
     if failed then
       Inr (False, put_listener l (ifdata\<lparr>ld_tcp_listener_watch := 0\<rparr>) (remove_source_if (ld_tcp_listener_watch ifdata) w))
     else
       case accepted of
         None \<Rightarrow> Inr (False, put_listener l (ifdata\<lparr>ld_tcp_listener_watch := 0\<rparr>) w)
       | Some (client_sk, sa) \<Rightarrow>
           let len = min 768 (length data); buf = recv_buf 768 data in
           if len < 2 then Inr (True, w)
           else
             bind_r (parse_request buf 2 (len - 2) 512) (\<lambda>(err, buf1, query).
             if err < 0 \<or> server_list w = [] then
               bind_r (send_response env client_sk buf1 len [] proto_tcp w) (\<lambda>(b, w1). Inr (True, w1))
             else
               let (m, w1) = sys env Alloc w in
               if m < 0 then Inr (True, w1)
               else
                 let (p, w2) = new_addr w1; rid = next_request_id (request_id w2) in
                 bind_r (load buf1 2) (\<lambda>b0. bind_r (load buf1 3) (\<lambda>b1.
                 bind_r (store buf1 2 (id_cells rid)) (\<lambda>buf2.
                 let req = \<lparr>rq_sa = sa, rq_client_sk = client_sk, rq_protocol = proto_tcp, rq_srcid = of_bytes16 [b0, b1], rq_dstid = rid,
                       rq_altid = rid + 1, rq_timeout = 0, rq_numserv = 0, rq_numresp = 0, rq_request = None,
                       rq_request_len = len, rq_name = None, rq_resp = None, rq_resplen = 0, rq_ifdata = l, rq_append_domain = False\<rparr>;
                     w3 = put_request p req (w2\<lparr>request_id := rid, request_list := request_list w2 @ [p]\<rparr>) in
                 bind_r (tcp_servers_loop env p buf2 query (server_list w3) w3) (\<lambda>w4. Inr (True, w4)))))))"

section \<open>Replies of servers\<close>

definition udp_server_event ::
  "os_env \<Rightarrow> addr \<Rightarrow> bool \<Rightarrow> u8 list \<Rightarrow> 'a dns_world_scheme \<Rightarrow> (bool \<times> 'a dns_world_scheme) result" where
  "udp_server_event env s failed data w =
     (if failed then bind_r (deref (dw_servers w) s) (\<lambda>d. Inr (False, put_server s (d\<lparr>sd_watch := 0\<rparr>) w))
      else if length data < 12 then Inr (True, w)
      else bind_r (forward_dns_reply env (recv_buf 4096 data) (min 4096 (length data)) proto_udp w) (\<lambda>(err, w1). Inr (True, w1)))"

datatype recv_result = Data "u8 list" | Eof | Again | Failed

text \<open>
  When a connection is closed every request over TCP that waits for no other server is answered with
  an error and taken off the list that the loop walks over.
\<close>

definition hangup_request :: "os_env \<Rightarrow> glist \<Rightarrow> addr \<Rightarrow> 'a dns_world_scheme \<Rightarrow> (glist \<times> 'a dns_world_scheme) result" where
  "hangup_request env requests p w =
     bind_r (deref (dw_requests w) p) (\<lambda>req.
     if rq_protocol req = proto_udp then Inr (requests, w)
     else if rq_request req = None then Inr (requests, w)
     else
       let req1 = (if rq_numserv req = 0 then req else req\<lparr>rq_numserv := rq_numserv req - 1\<rparr>); w1 = put_request p req1 w in
       if rq_numserv req1 \<noteq> 0 then Inr (requests, w1)
       else bind_r (answer_failure env p w1) (\<lambda>w2.
         Inr (g_list_remove p requests, w2\<lparr>request_list := remove1 p (request_list w2)\<rparr>)))"

lemma hangup_request_nodes:
  "hangup_request env requests p w = Inr (requests1, w1) \<Longrightarrow> length (filter P requests1) \<le> length (filter P requests)"
  using length_remove_node [of P p requests]
  by (auto simp: hangup_request_def bind_r_eq_Inr Let_def split: if_splits)

function hangup_loop :: "os_env \<Rightarrow> glist \<Rightarrow> nat option \<Rightarrow> 'a dns_world_scheme \<Rightarrow> 'a dns_world_scheme result" where
  "hangup_loop env requests list w =
     (case list of
        None \<Rightarrow> Inr w
      | Some n \<Rightarrow>
          (case list_data requests n of
             Inl e \<Rightarrow> Inl e
           | Inr p \<Rightarrow>
               (case hangup_request env requests p w of
                  Inl e \<Rightarrow> Inl e
                | Inr (requests1, w1) \<Rightarrow>
                    (case list_next requests1 n of Inl e \<Rightarrow> Inl e | Inr list1 \<Rightarrow> hangup_loop env requests1 list1 w1))))"
  by pat_completeness auto

termination hangup_loop
proof (relation "measure (\<lambda>(env, ns, list, w). case list of None \<Rightarrow> 0 | Some n \<Rightarrow> Suc (length (filter (\<lambda>m. n \<le> fst m) ns)))", goal_cases)
  case (2 env requests list w n p x requests1 w1 list1)
  then show ?case
    using list_next_shorter [of requests1 n] hangup_request_nodes [of env requests p w requests1 w1 "\<lambda>m. n \<le> fst m"]
    by (cases list1) fastforce+
qed simp

declare hangup_loop.simps [simp del]

definition hangup :: "os_env \<Rightarrow> addr \<Rightarrow> 'a dns_world_scheme \<Rightarrow> (bool \<times> 'a dns_world_scheme) result" where
  "hangup env s w =
     bind_r (deref (dw_servers w) s) (\<lambda>server.
     let ns = list_nodes (request_list w) in
     bind_r (hangup_loop env ns (list_first ns) (put_server s (server\<lparr>sd_incoming_reply := None\<rparr>) w)) (\<lambda>w1.
     bind_r (destroy_server env s w1) (\<lambda>w2. Inr (False, w2))))"

text \<open>A connection that was made: the requests over TCP are sent on it.\<close>

fun connected_loop :: "os_env \<Rightarrow> addr \<Rightarrow> addr list \<Rightarrow> 'a dns_world_scheme \<Rightarrow> 'a dns_world_scheme result" where
  "connected_loop env s [] w = Inr w"
| "connected_loop env s (p # ps) w =
     bind_r (deref (dw_requests w) p) (\<lambda>req.
     if rq_protocol req = proto_udp then connected_loop env s ps w
     else
       let (timeout, w1) = add_source env (Request_timeout p) (remove_source_if (rq_timeout req) w);
           w2 = put_request p (req\<lparr>rq_timeout := timeout\<rparr>) w1 in
       bind_r (live_buffer (rq_name req)) (\<lambda>name.
       bind_r (live_buffer (rq_request req)) (\<lambda>request.
       bind_r (ns_resolv env s p request name w2) (\<lambda>(err, w3). connected_loop env s ps w3))))"

definition tcp_connected :: "os_env \<Rightarrow> addr \<Rightarrow> 'a dns_world_scheme \<Rightarrow> (bool \<times> 'a dns_world_scheme) result" where
  "tcp_connected env s w =
     bind_r (deref (dw_servers w) s) (\<lambda>server.
     bind_r (find_server (sd_interface server) (sd_server server) proto_udp w) (\<lambda>udp.
     bind_r (case udp of None \<Rightarrow> Inr [] | Some u \<Rightarrow> bind_r (deref (dw_servers w) u) (\<lambda>d. Inr (sd_domains d))) (\<lambda>domains.
     let w1 = put_server s (server\<lparr>sd_domains := sd_domains server @ domains, sd_connected := True, sd_timeout := 0\<rparr>)
           (remove_source_if (sd_timeout server) (w\<lparr>server_list := server_list w @ [s]\<rparr>)) in
     bind_r (connected_loop env s (request_list w1) w1) (\<lambda>w2. Inr (True, w2)))))"

text \<open>Receiving a reply: the loop ends with the whole reply, at the end of the stream, or to wait for more.\<close>

fun recv_loop :: "recv_result list \<Rightarrow> partial_reply \<Rightarrow> (bool \<times> partial_reply) result" where
  "recv_loop rs reply =
     (if pr_received reply < pr_len reply then
        (case rs of
           [] \<Rightarrow> Inr (False, reply)
         | Again # _ \<Rightarrow> Inr (False, reply)
         | Eof # _ \<Rightarrow> Inr (True, reply)
         | Failed # _ \<Rightarrow> Inr (True, reply)
         | Data bs # rs' \<Rightarrow>
             (let cs = known (take (pr_len reply - pr_received reply) bs) in
              case store (pr_buf reply) (pr_received reply) cs of
                Inl e \<Rightarrow> Inl e
              | Inr buf \<Rightarrow> recv_loop rs' (reply\<lparr>pr_buf := buf, pr_received := pr_received reply + length cs\<rparr>)))
      else Inr (True, reply))"

declare recv_loop.simps [simp del]

text \<open>The length of a reply is in its first two bytes; a sixteen bit integer holds it together with these two bytes.\<close>

definition reply_length :: "u8 \<Rightarrow> u8 \<Rightarrow> u16" where
  "reply_length hi lo = (ucast lo OR push_bit 8 (ucast hi)) + 2"

definition tcp_receive :: "os_env \<Rightarrow> addr \<Rightarrow> partial_reply \<Rightarrow> recv_result list \<Rightarrow> 'a dns_world_scheme \<Rightarrow> (bool \<times> 'a dns_world_scheme) result" where
  "tcp_receive env s reply rs w =
     bind_r (recv_loop rs reply) (\<lambda>(complete, reply1).
     bind_r (deref (dw_servers w) s) (\<lambda>server.
     if \<not> complete then Inr (True, put_server s (server\<lparr>sd_incoming_reply := Some reply1\<rparr>) w)
     else
       bind_r (forward_dns_reply env (pr_buf reply1) (pr_received reply1) proto_tcp w) (\<lambda>(err, w1).
       bind_r (deref (dw_servers w1) s) (\<lambda>server1.
       bind_r (destroy_server env s (put_server s (server1\<lparr>sd_incoming_reply := None\<rparr>) w1)) (\<lambda>w2. Inr (False, w2))))))"

definition tcp_server_event ::
  "os_env \<Rightarrow> addr \<Rightarrow> bool \<Rightarrow> bool \<Rightarrow> bool \<Rightarrow> recv_result \<Rightarrow> recv_result list \<Rightarrow> 'a dns_world_scheme \<Rightarrow> (bool \<times> 'a dns_world_scheme) result" where
  "tcp_server_event env s failed out inp peek rs w =
     bind_r (deref (dw_servers w) s) (\<lambda>server.
     if sd_channel server = 0 then Inr (False, w)
     else if failed then hangup env s w
     else if out \<and> \<not> sd_connected server then tcp_connected env s w
     else if inp then
       (case sd_incoming_reply server of
          Some reply \<Rightarrow> tcp_receive env s reply rs w
        | None \<Rightarrow>
            (case peek of
               Eof \<Rightarrow> hangup env s w
             | Failed \<Rightarrow> hangup env s w
             | Again \<Rightarrow> Inr (True, w)
             | Data bs \<Rightarrow>
                 (case bs of
                    [] \<Rightarrow> hangup env s w
                  | [hi] \<Rightarrow> Inr (True, w)
                  | hi # lo # _ \<Rightarrow>
                      let len = unat (reply_length hi lo); (m, w1) = sys env Alloc w in
                      if m < 0 then Inr (True, w1)
                      else tcp_receive env s \<lparr>pr_len = len, pr_received = 0, pr_buf = replicate (len + 2) None\<rparr> rs w1)))
     else Inr (True, w))"

definition tcp_idle_timeout :: "os_env \<Rightarrow> addr \<Rightarrow> 'a dns_world_scheme \<Rightarrow> 'a dns_world_scheme result" where
  "tcp_idle_timeout env s w = destroy_server env s w"

section \<open>Listeners\<close>

definition create_dns_listener :: "os_env \<Rightarrow> int \<Rightarrow> addr \<Rightarrow> 'a dns_world_scheme \<Rightarrow> (int \<times> 'a dns_world_scheme) result" where
  "create_dns_listener env protocol l w =
     bind_r (deref (dw_listeners w) l) (\<lambda>ifdata.
     if protocol \<noteq> proto_udp \<and> protocol \<noteq> proto_tcp then Inr (- EINVAL, w)
     else
       let (sk6, w1) = sys env (Socket True protocol) w;
           v6 = (sk6 \<noteq> - EAFNOSUPPORT);
           (sk, w2) = (if v6 then (sk6, w1) else sys env (Socket False protocol) w1) in
       Inr (if sk < 0 then (- EIO, w2)
       else let (r1, w3) = sys env (Set_device sk (ld_ifname ifdata)) w2 in
       if r1 < 0 then (- EIO, sys_do env (Close sk) w3)
       else let (r2, w4) = (if v6 then sys env (Clear_v6only sk) w3 else (0, w3)) in
       if r2 < 0 then (- EIO, sys_do env (Close sk) w4)
       else let (r3, w5) = sys env (Bind sk) w4 in
       if r3 < 0 then (- EIO, sys_do env (Close sk) w5)
       else let (r4, w6) = (if protocol = proto_tcp then sys env (Listen sk) w5 else (0, w5)) in
       if r4 < 0 then (- EIO, sys_do env (Close sk) w6)
       else let (r5, w7) = sys env (Io_channel sk) w6 in
       if r5 < 0 then (- EIO, sys_do env (Close sk) w7)
       else let (i, w8) = add_source env (if protocol = proto_tcp then Tcp_listener l else Udp_listener l) w7 in
       (0, put_listener l (if protocol = proto_tcp
          then ifdata\<lparr>ld_tcp_listener_channel := Some sk, ld_tcp_listener_watch := i\<rparr>
          else ifdata\<lparr>ld_udp_listener_channel := Some sk, ld_udp_listener_watch := i\<rparr>) w8)))"

definition destroy_udp_listener :: "os_env \<Rightarrow> addr \<Rightarrow> 'a dns_world_scheme \<Rightarrow> 'a dns_world_scheme result" where
  "destroy_udp_listener env l w =
     bind_r (deref (dw_listeners w) l) (\<lambda>ifdata.
     bind_r (through (ld_udp_listener_channel ifdata)) (\<lambda>sk.
     Inr (sys_do env (Close sk) (remove_source_if (ld_udp_listener_watch ifdata) w))))"

definition destroy_tcp_listener :: "os_env \<Rightarrow> addr \<Rightarrow> 'a dns_world_scheme \<Rightarrow> 'a dns_world_scheme result" where
  "destroy_tcp_listener env l w =
     bind_r (deref (dw_listeners w) l) (\<lambda>ifdata.
     bind_r (through (ld_tcp_listener_channel ifdata)) (\<lambda>sk.
     Inr (sys_do env (Close sk) (remove_source_if (ld_tcp_listener_watch ifdata) w))))"

definition create_listener :: "os_env \<Rightarrow> addr \<Rightarrow> 'a dns_world_scheme \<Rightarrow> (int \<times> 'a dns_world_scheme) result" where
  "create_listener env l w =
     bind_r (create_dns_listener env proto_udp l w) (\<lambda>(e1, w1).
     if e1 < 0 then Inr (e1, w1)
     else
       bind_r (create_dns_listener env proto_tcp l w1) (\<lambda>(e2, w2).
       if e2 < 0 then bind_r (destroy_udp_listener env l w2) (\<lambda>w3. Inr (e2, w3))
       else
         bind_r (deref (dw_listeners w2) l) (\<lambda>ifdata.
         Inr (0, if ld_ifname ifdata = ''lo'' then snd (resolvfile_append env (Some ''lo'') None (Some localhost) w2) else w2))))"

text \<open>
  All requests are freed with their buffers, whichever listener they came from; their timers stay. A buffer that was freed before, by
  \<open>dnsproxy_flush\<close> or after a failed allocation, is freed again.
\<close>

fun free_requests :: "addr list \<Rightarrow> 'a dns_world_scheme \<Rightarrow> 'a dns_world_scheme result" where
  "free_requests [] w = Inr w"
| "free_requests (p # ps) w =
     bind_r (deref (dw_requests w) p) (\<lambda>req.
     bind_r (free_buffer (rq_request req)) (\<lambda>_.
     bind_r (free_buffer (rq_name req)) (\<lambda>_. free_requests ps (free_request p w))))"

definition destroy_listener :: "os_env \<Rightarrow> addr \<Rightarrow> 'a dns_world_scheme \<Rightarrow> 'a dns_world_scheme result" where
  "destroy_listener env l w =
     bind_r (deref (dw_listeners w) l) (\<lambda>ifdata.
     let w1 = (if ld_ifname ifdata = ''lo'' then snd (resolvfile_remove env (Some ''lo'') None (Some localhost) w) else w) in
     bind_r (free_requests (request_pending_list w1) w1) (\<lambda>w2.
     bind_r (free_requests (request_list w2) (w2\<lparr>request_pending_list := []\<rparr>)) (\<lambda>w3.
     bind_r (destroy_tcp_listener env l (w3\<lparr>request_list := []\<rparr>)) (\<lambda>w4.
     destroy_udp_listener env l w4))))"

definition dnsproxy_add_listener :: "os_env \<Rightarrow> string \<Rightarrow> 'a dns_world_scheme \<Rightarrow> (int \<times> 'a dns_world_scheme) result" where
  "dnsproxy_add_listener env interface w =
     bind_r (through (listener_table w)) (\<lambda>table.
     if map_of table interface \<noteq> None then Inr (0, w)
     else
       let (m, w1) = sys env Alloc w in
       if m < 0 then Inr (- ENOMEM, w1)
       else
         let (l, w2) = new_addr w1;
             w3 = put_listener l \<lparr>ld_ifname = interface, ld_udp_listener_channel = None, ld_udp_listener_watch = 0,
               ld_tcp_listener_channel = None, ld_tcp_listener_watch = 0\<rparr> w2 in
         bind_r (create_listener env l w3) (\<lambda>(err, w4).
         if err < 0 then Inr (err, w4\<lparr>dw_listeners := (dw_listeners w4)(l := None)\<rparr>)
         else Inr (0, w4\<lparr>listener_table := Some (table @ [(interface, l)])\<rparr>)))"

definition dnsproxy_remove_listener :: "os_env \<Rightarrow> string \<Rightarrow> 'a dns_world_scheme \<Rightarrow> 'a dns_world_scheme result" where
  "dnsproxy_remove_listener env interface w =
     bind_r (through (listener_table w)) (\<lambda>table.
     case map_of table interface of
       None \<Rightarrow> Inr w
     | Some l \<Rightarrow>
         bind_r (destroy_listener env l w) (\<lambda>w1.
         Inr (w1\<lparr>listener_table := Some (filter (\<lambda>e. fst e \<noteq> interface) table), dw_listeners := (dw_listeners w1)(l := None)\<rparr>)))"

definition dnsproxy_init :: "os_env \<Rightarrow> 'a dns_world_scheme \<Rightarrow> (int \<times> 'a dns_world_scheme) result" where
  "dnsproxy_init env w =
     bind_r (dnsproxy_add_listener env ''lo'' (w\<lparr>listener_table := Some []\<rparr>)) (\<lambda>(err, w1).
     if err < 0 then Inr (err, w1)
     else
       let (r, w2) = sys env Notifier_register w1 in
       if r < 0 then
         bind_r (dnsproxy_remove_listener env ''lo'' w2) (\<lambda>w3. Inr (r, w3\<lparr>listener_table := None\<rparr>))
       else Inr (0, w2))"

text \<open>
  The cleanup removes entries from the table while GLib walks over it; which entries the walk still
  visits is not specified and is an argument.
\<close>

fun remove_listeners :: "os_env \<Rightarrow> string list \<Rightarrow> 'a dns_world_scheme \<Rightarrow> 'a dns_world_scheme result" where
  "remove_listeners env [] w = Inr w"
| "remove_listeners env (i # is) w = bind_r (dnsproxy_remove_listener env i w) (remove_listeners env is)"

definition dnsproxy_cleanup :: "os_env \<Rightarrow> string list \<Rightarrow> 'a dns_world_scheme \<Rightarrow> 'a dns_world_scheme result" where
  "dnsproxy_cleanup env visited w = bind_r (remove_listeners env visited w) (\<lambda>w1. Inr (w1\<lparr>listener_table := None\<rparr>))"

end
