(* ===== verification/Resolver.thy ===== *)
theory Resolver
  imports Dns_Listeners
begin

text \<open>
  The rest of \<^verbatim>\<open>src/resolver.c\<close>: the list of name servers and domains of all interfaces, with the
  timers of those that expire. An entry is handed on to the DNS proxy, or to the file when the proxy is off.
\<close>

record entry_data =
  ed_interface :: "string option"
  ed_domain :: "string option"
  ed_server :: "string option"
  ed_flags :: u32
  ed_timeout :: nat

record resolver_world = dns_world +
  rs_entries :: "addr \<rightharpoonup> entry_data"
  entry_list :: "addr list"
  dnsproxy_enabled :: bool

definition RESOLVER_FLAG_PUBLIC :: u32 where "RESOLVER_FLAG_PUBLIC = 1"

text \<open>Handing an entry on; the result is not used.\<close>

definition unpublish ::
  "os_env \<Rightarrow> string option \<Rightarrow> string option \<Rightarrow> string option \<Rightarrow> 'a resolver_world_scheme \<Rightarrow> 'a resolver_world_scheme result" where
  "unpublish env interface domain server w =
     (if dnsproxy_enabled w then bind_r (dnsproxy_remove env interface domain server w) (\<lambda>(r, w1). Inr w1)
      else Inr (snd (resolvfile_remove env interface domain server w)))"

definition publish ::
  "os_env \<Rightarrow> string option \<Rightarrow> string option \<Rightarrow> string option \<Rightarrow> 'a resolver_world_scheme \<Rightarrow> 'a resolver_world_scheme result" where
  "publish env interface domain server w =
     (if dnsproxy_enabled w then bind_r (dnsproxy_append env interface domain server w) (\<lambda>(r, w1). Inr w1)
      else Inr (snd (resolvfile_append env interface domain server w)))"

fun remove_entries :: "os_env \<Rightarrow> addr list \<Rightarrow> 'a resolver_world_scheme \<Rightarrow> 'a resolver_world_scheme result" where
  "remove_entries env [] w = Inr w"
| "remove_entries env (p # ps) w =
     bind_r (deref (rs_entries w) p) (\<lambda>entry.
     bind_r (unpublish env (ed_interface entry) (ed_domain entry) (ed_server entry)
         (w\<lparr>entry_list := remove1 p (entry_list w)\<rparr>)) (\<lambda>w1.
     let w2 = remove_source_if (ed_timeout entry) w1 in
     remove_entries env ps (w2\<lparr>rs_entries := (rs_entries w2)(p := None)\<rparr>)))"

text \<open>Entries with a lifetime come from the kernel; the service of their interface is told.\<close>

definition tell_service ::
  "os_env \<Rightarrow> string option \<Rightarrow> string option \<Rightarrow> (string \<Rightarrow> sys_call) \<Rightarrow> 'a resolver_world_scheme \<Rightarrow> 'a resolver_world_scheme" where
  "tell_service env interface server f w =
     (let (r, w1) = sys env (Service_of_interface interface) w in
      if r < 0 then w1 else case server of None \<Rightarrow> w1 | Some s \<Rightarrow> sys_do env (f s) w1)"

definition resolver_expire_cb :: "os_env \<Rightarrow> addr \<Rightarrow> 'a resolver_world_scheme \<Rightarrow> 'a resolver_world_scheme result" where
  "resolver_expire_cb env p w =
     bind_r (deref (rs_entries w) p) (\<lambda>entry.
     remove_entries env [p] (tell_service env (ed_interface entry) (ed_server entry) Service_nameserver_remove w))"

definition append_resolver ::
  "os_env \<Rightarrow> string option \<Rightarrow> string option \<Rightarrow> string option \<Rightarrow> nat \<Rightarrow> u32 \<Rightarrow> 'a resolver_world_scheme \<Rightarrow> (int \<times> 'a resolver_world_scheme) result" where
  "append_resolver env interface domain server lifetime flags w =
     (if server = None \<and> domain = None then Inr (- EINVAL, w)
      else
        let (m, w1) = sys env Alloc w in
        if m < 0 then Inr (- ENOMEM, w1)
        else
          let (p, w2) = new_addr w1;
              (timeout, w3) = (if lifetime \<noteq> 0 then
                  (let (i, w0) = add_source env (Resolver_expire p) w2 in (i, tell_service env interface server Service_nameserver_append w0))
                else (0, w2));
              entry = \<lparr>ed_interface = interface, ed_domain = domain, ed_server = server, ed_flags = flags, ed_timeout = timeout\<rparr>;
              w4 = w3\<lparr>rs_entries := (rs_entries w3)(p \<mapsto> entry), entry_list := entry_list w3 @ [p]\<rparr> in
          bind_r (publish env interface domain server w4) (\<lambda>w5. Inr (0, w5)))"

fun match_entries :: "(entry_data \<Rightarrow> bool) \<Rightarrow> 'a resolver_world_scheme \<Rightarrow> addr list \<Rightarrow> addr list result" where
  "match_entries P w [] = Inr []"
| "match_entries P w (p # ps) =
     bind_r (deref (rs_entries w) p) (\<lambda>entry.
     bind_r (match_entries P w ps) (\<lambda>qs. Inr (if P entry then p # qs else qs)))"

definition same_entry :: "string option \<Rightarrow> string option \<Rightarrow> string option \<Rightarrow> entry_data \<Rightarrow> bool" where
  "same_entry interface domain server e \<longleftrightarrow> ed_interface e = interface \<and> ed_domain e = domain \<and> ed_server e = server"

definition resolver_append ::
  "os_env \<Rightarrow> string option \<Rightarrow> string option \<Rightarrow> string option \<Rightarrow> 'a resolver_world_scheme \<Rightarrow> (int \<times> 'a resolver_world_scheme) result" where
  "resolver_append env interface domain server w =
     (if server = None \<and> domain = None then Inr (- EINVAL, w)
      else
        bind_r (match_entries (\<lambda>e. ed_timeout e = 0 \<and> same_entry interface domain server e) w (entry_list w)) (\<lambda>matches.
        bind_r (remove_entries env matches w) (\<lambda>w1.
        append_resolver env interface domain server 0 0 w1)))"

fun find_lifetime :: "string option \<Rightarrow> string option \<Rightarrow> string option \<Rightarrow> 'a resolver_world_scheme \<Rightarrow> addr list \<Rightarrow> addr option result" where
  "find_lifetime interface domain server w [] = Inr None"
| "find_lifetime interface domain server w (p # ps) =
     bind_r (deref (rs_entries w) p) (\<lambda>e.
     if ed_timeout e = 0 \<or> \<not> same_entry interface domain server e then find_lifetime interface domain server w ps else Inr (Some p))"

definition resolver_append_lifetime ::
  "os_env \<Rightarrow> string option \<Rightarrow> string option \<Rightarrow> string option \<Rightarrow> nat \<Rightarrow> 'a resolver_world_scheme \<Rightarrow> (int \<times> 'a resolver_world_scheme) result" where
  "resolver_append_lifetime env interface domain server lifetime w =
     (if server = None then Inr (- EINVAL, w)
      else
        bind_r (find_lifetime interface domain server w (entry_list w)) (\<lambda>found.
        case found of
          Some p \<Rightarrow>
            bind_r (deref (rs_entries w) p) (\<lambda>entry.
            let w1 = remove_source (ed_timeout entry) w in
            if lifetime = 0 then bind_r (resolver_expire_cb env p w1) (\<lambda>w2. Inr (0, w2))
            else
              let (i, w2) = add_source env (Resolver_expire p) w1 in
              Inr (0, w2\<lparr>rs_entries := (rs_entries w2)(p \<mapsto> entry\<lparr>ed_timeout := i\<rparr>)\<rparr>))
        | None \<Rightarrow> append_resolver env interface domain server lifetime 0 w))"

definition entry_match :: "string option \<Rightarrow> string option \<Rightarrow> string option \<Rightarrow> entry_data \<Rightarrow> bool" where
  "entry_match interface domain server e \<longleftrightarrow>
     (interface = None \<or> ed_interface e = interface) \<and> (domain = None \<or> ed_domain e = domain) \<and> ed_server e = server"

definition remove_matching :: "os_env \<Rightarrow> (entry_data \<Rightarrow> bool) \<Rightarrow> 'a resolver_world_scheme \<Rightarrow> (int \<times> 'a resolver_world_scheme) result" where
  "remove_matching env P w =
     bind_r (match_entries P w (entry_list w)) (\<lambda>matches.
     if matches = [] then Inr (- ENOENT, w) else bind_r (remove_entries env matches w) (\<lambda>w1. Inr (0, w1)))"

definition resolver_remove ::
  "os_env \<Rightarrow> string option \<Rightarrow> string option \<Rightarrow> string option \<Rightarrow> 'a resolver_world_scheme \<Rightarrow> (int \<times> 'a resolver_world_scheme) result" where
  "resolver_remove env interface domain server w =
     (if server = None then Inr (- EINVAL, w) else remove_matching env (entry_match interface domain server) w)"

definition resolver_remove_all :: "os_env \<Rightarrow> string option \<Rightarrow> 'a resolver_world_scheme \<Rightarrow> (int \<times> 'a resolver_world_scheme) result" where
  "resolver_remove_all env interface w =
     (if interface = None then Inr (- EINVAL, w) else remove_matching env (\<lambda>e. ed_interface e = interface) w)"

definition resolver_append_public_server :: "os_env \<Rightarrow> string option \<Rightarrow> 'a resolver_world_scheme \<Rightarrow> (int \<times> 'a resolver_world_scheme) result" where
  "resolver_append_public_server env server w = append_resolver env None None server 0 RESOLVER_FLAG_PUBLIC w"

definition resolver_remove_public_server :: "os_env \<Rightarrow> string option \<Rightarrow> 'a resolver_world_scheme \<Rightarrow> (int \<times> 'a resolver_world_scheme) result" where
  "resolver_remove_public_server env server w = resolver_remove env None None server w"

definition resolver_flush :: "os_env \<Rightarrow> 'a resolver_world_scheme \<Rightarrow> 'a resolver_world_scheme result" where
  "resolver_flush env w = (if dnsproxy_enabled w then dnsproxy_flush env w else Inr w)"

definition resolver_init :: "os_env \<Rightarrow> bool \<Rightarrow> 'a resolver_world_scheme \<Rightarrow> (int \<times> 'a resolver_world_scheme) result" where
  "resolver_init env dnsproxy w =
     (if \<not> dnsproxy then Inr (0, w)
      else bind_r (dnsproxy_init env w) (\<lambda>(r, w1). Inr (0, if r < 0 then w1 else w1\<lparr>dnsproxy_enabled := True\<rparr>)))"

definition resolver_cleanup :: "os_env \<Rightarrow> string list \<Rightarrow> 'a resolver_world_scheme \<Rightarrow> 'a resolver_world_scheme result" where
  "resolver_cleanup env visited w = (if dnsproxy_enabled w then dnsproxy_cleanup env visited w else Inr w)"

end
