(* ===== verification/Dns_Packets.thy ===== *)
theory Dns_Packets
  imports Resolver
begin

text \<open>
  The packets of the DNS proxy as bytes: the encoder of names against the format, what the parser
  does with every query, the query with a domain that is sent in addition, and the reply from which
  the domain is cut out again.
\<close>

section \<open>Writing to a buffer\<close>

lemma length_known [simp]: "length (known bs) = length bs"
  by simp

lemma poke_append: "i + length a + length b \<le> length m \<Longrightarrow> poke (i + length a) b (poke i a m) = poke i (a @ b) m"
  by (rule nth_equalityI) (auto simp: nth_poke length_poke nth_append)

lemma poke_nil [simp]: "poke i [] m = m"
  by (simp add: poke_def)

lemma store_append:
  "bind_r (store m i a) (\<lambda>m1. bind_r (store m1 (i + length a) b) f) = bind_r (store m i (a @ b)) f"
  by (simp add: store_def length_poke poke_append add.assoc)

lemma length_store: "store m i cs = Inr m1 \<Longrightarrow> length m1 = length m"
  by (auto simp: store_def length_poke split: if_splits)

section \<open>Names on the wire\<close>

text \<open>A label is its length and its bytes.\<close>

definition wire :: "u8 list list \<Rightarrow> u8 list" where
  "wire ls = concat (map (\<lambda>l. of_nat (length l) # l) ls)"

lemma wire_simps [simp]: "wire [] = []" "wire (l # ls) = of_nat (length l) # l @ wire ls" "wire (ls @ ms) = wire ls @ wire ms"
  by (simp_all add: wire_def)

text \<open>The parts of a name between its dots, without an empty last one.\<close>

function dot_labels :: "string \<Rightarrow> string list" where
  "dot_labels s = (case strchr (CHR ''.'') s of None \<Rightarrow> if s = [] then [] else [s] | Some k \<Rightarrow> take k s # dot_labels (drop (k + 1) s))"
  by pat_completeness auto

termination dot_labels
  by (relation "measure length") (auto dest: strchr_less)

declare dot_labels.simps [simp del]

definition name_wire :: "string \<Rightarrow> u8 list" where
  "name_wire s = wire (map string_bytes (dot_labels s))"

lemma length_string_bytes [simp]: "length (string_bytes s) = length s"
  by (simp add: string_bytes_def)

lemma append_labels_wire:
  assumes "ptr \<le> length mem"
  shows "append_labels mem ptr s = bind_r (store mem ptr (known (name_wire s))) (\<lambda>m. Inr (m, ptr + length (name_wire s)))"
  using assms
proof (induction s arbitrary: mem ptr rule: dot_labels.induct)
  case (1 s)
  show ?case
  proof (cases "strchr (CHR ''.'') s")
    case None
    show ?thesis
    proof (cases "s = []")
      case True
      then show ?thesis using 1(2) by (subst append_labels.simps) (simp add: name_wire_def dot_labels.simps [of "[]"] store_def)
    next
      case False
      then show ?thesis using None store_append [of mem ptr "[Some (of_nat (length s))]" "known (string_bytes s)"]
        by (subst append_labels.simps) (simp add: name_wire_def dot_labels.simps [of s])
    qed
  next
    case (Some k)
    let ?a = "Some (of_nat k :: u8) # known (string_bytes (take k s))"
    have k: "k < length s" using Some by (rule strchr_less)
    then have la: "length ?a = k + 1" by simp
    have w: "name_wire s = of_nat k # string_bytes (take k s) @ name_wire (drop (k + 1) s)"
      using Some k by (simp add: name_wire_def dot_labels.simps [of s] string_bytes_def)
    have "append_labels mem ptr s = bind_r (store mem ptr ?a) (\<lambda>m2. append_labels m2 (ptr + k + 1) (drop (k + 1) s))"
      using Some store_append [of mem ptr "[Some (of_nat k)]" "known (string_bytes (take k s))"] by (subst append_labels.simps) simp
    also have "\<dots> = bind_r (store mem ptr ?a) (\<lambda>m2. bind_r (store m2 (ptr + length ?a) (known (name_wire (drop (k + 1) s))))
        (\<lambda>m. Inr (m, ptr + k + 1 + length (name_wire (drop (k + 1) s)))))"
    proof (cases "store mem ptr ?a")
      case (Inr m2)
      then have "ptr + k + 1 \<le> length m2" using length_store [OF Inr] la by (auto simp: store_def split: if_splits)
      then show ?thesis using Inr 1(1) [OF Some, of "ptr + k + 1" m2] la by (simp add: add.assoc)
    qed simp
    also have "\<dots> = bind_r (store mem ptr (?a @ known (name_wire (drop (k + 1) s))))
        (\<lambda>m. Inr (m, ptr + k + 1 + length (name_wire (drop (k + 1) s))))" by (rule store_append)
    finally show ?thesis using w k by (simp add: ac_simps)
  qed
qed

text \<open>The encoder of the proxy against the format: it writes the labels of the name and of the domain and a zero byte, or runs out of the buffer.\<close>

lemma append_query_wire:
  assumes "start \<le> length mem"
  shows "append_query mem start query domain =
    bind_r (store mem start (known (name_wire query @ name_wire domain @ [0])))
      (\<lambda>m. Inr (m, length (name_wire query) + length (name_wire domain) + 1))"
proof -
  let ?q = "name_wire query" and ?d = "name_wire domain"
  have "append_query mem start query domain = bind_r (store mem start (known ?q)) (\<lambda>m1. bind_r (store m1 (start + length (known ?q)) (known ?d))
      (\<lambda>m2. bind_r (store m2 (start + length (known ?q @ known ?d)) [Some 0]) (\<lambda>m3. Inr (m3, length ?q + length ?d + 1))))"
  proof (cases "store mem start (known ?q)")
    case (Inr m1)
    then have le: "start + length ?q \<le> length m1" using length_store [OF Inr] by (auto simp: store_def split: if_splits)
    show ?thesis
    proof (cases "store m1 (start + length ?q) (known ?d)")
      case (Inr m2)
      then show ?thesis using append_labels_wire [OF assms, of query] append_labels_wire [OF le, of domain] \<open>store mem start (known ?q) = _\<close>
        by (simp add: append_query_def add.assoc)
    qed (use append_labels_wire [OF assms, of query] append_labels_wire [OF le, of domain] Inr in \<open>simp add: append_query_def\<close>)
  qed (use append_labels_wire [OF assms, of query] in \<open>simp add: append_query_def\<close>)
  also have "\<dots> = bind_r (store mem start (known (?q @ ?d @ [0]))) (\<lambda>m. Inr (m, length ?q + length ?d + 1))"
    unfolding store_append by (simp add: store_append [where b = "[Some 0]" and i = start and a = "known ?q @ known ?d", simplified] add.assoc)
  finally show ?thesis .
qed

section \<open>Reading from a buffer\<close>

text \<open>A buffer holds given bytes at a position.\<close>

definition holds :: "cell list \<Rightarrow> nat \<Rightarrow> u8 list \<Rightarrow> bool" where
  "holds mem i bs \<longleftrightarrow> i + length bs \<le> length mem \<and> (\<forall>j < length bs. mem ! (i + j) = Some (bs ! j))"

lemma holds_nil [simp]: "holds mem i [] \<longleftrightarrow> i \<le> length mem"
  by (simp add: holds_def)

lemma holds_Cons: "holds mem i (b # bs) \<longleftrightarrow> i < length mem \<and> mem ! i = Some b \<and> holds mem (Suc i) bs"
proof -
  have "(\<forall>j < Suc (length bs). mem ! (i + j) = Some ((b # bs) ! j)) \<longleftrightarrow> mem ! i = Some b \<and> (\<forall>j < length bs. mem ! (Suc i + j) = Some (bs ! j))"
    by (simp add: All_less_Suc2)
  then show ?thesis by (auto simp: holds_def)
qed

lemma holds_append: "holds mem i (as @ bs) \<longleftrightarrow> holds mem i as \<and> holds mem (i + length as) bs"
  by (induction as arbitrary: i) (auto simp: holds_Cons, auto simp: holds_def)

lemma holds_slice: "holds mem i bs \<Longrightarrow> slice mem i (length bs) = Inr (known bs)"
  by (auto simp: holds_def slice_def intro!: nth_equalityI)

lemma holds_load: "holds mem i bs \<Longrightarrow> j < length bs \<Longrightarrow> load mem (i + j) = Inr (bs ! j)"
  by (rule load_known) (auto simp: holds_def)

lemma holds_load_hd: "holds mem i (b # bs) \<Longrightarrow> load mem i = Inr b"
  using holds_load [of mem i "b # bs" 0] by simp

lemma holds_recv_buf: "length bs \<le> n \<Longrightarrow> holds (recv_buf n bs) 0 bs"
  by (auto simp: holds_def recv_buf_nth)

lemma holds_poke:
  assumes "i + length bs \<le> length mem"
  shows "holds (poke i (known bs) mem) i bs"
  using assms by (auto simp: holds_def length_poke nth_poke)

lemma holds_poke_other:
  assumes "holds mem j cs" and "i + length bs \<le> length mem" and "i + length bs \<le> j \<or> j + length cs \<le> i"
  shows "holds (poke i bs mem) j cs"
  using assms by (auto simp: holds_def length_poke nth_poke)

lemma read_string_holds: "holds mem i bs \<Longrightarrow> 0 \<notin> set bs \<Longrightarrow> read_string mem i (length bs) = Inr bs"
  by (induction bs arbitrary: i) (auto simp: holds_Cons load_known)

lemma read_string_until:
  "holds mem i (bs @ [0]) \<Longrightarrow> 0 \<notin> set bs \<Longrightarrow> length bs < n \<Longrightarrow> read_string mem i n = Inr bs"
proof (induction bs arbitrary: i n)
  case Nil
  then show ?case by (cases n) (auto simp: holds_Cons load_known)
next
  case (Cons b bs)
  then show ?case by (cases n) (auto simp: holds_Cons load_known)
qed

lemma string_length_holds: "holds mem i (bs @ [0]) \<Longrightarrow> 0 \<notin> set bs \<Longrightarrow> string_length mem i = Inr (length bs)"
  using read_string_until [of mem i bs "Suc (length mem) - i"] by (auto simp: string_length_def holds_def)

section \<open>Parsing a name\<close>

definition label_ok :: "u8 list \<Rightarrow> bool" where
  "label_ok l \<longleftrightarrow> l \<noteq> [] \<and> length l < 256 \<and> 0 \<notin> set l"

definition label_name :: "u8 list list \<Rightarrow> string" where
  "label_name ls = concat (map (\<lambda>l. bytes_string l @ ''.'') ls)"

lemma label_name_simps [simp]: "label_name [] = []" "label_name (l # ls) = bytes_string l @ ''.'' @ label_name ls"
  by (simp_all add: label_name_def)

lemma length_bytes_string [simp]: "length (bytes_string bs) = length bs"
  by (simp add: bytes_string_def)

lemma length_label_name: "length (label_name ls) = length (wire ls)"
  by (induction ls) auto

lemma label_ok_byte:
  assumes "label_ok l"
  shows "unat (of_nat (length l) :: u8) = length l" "(of_nat (length l) :: u8) \<noteq> 0" "ucast (of_nat (length l) :: u8) = (of_nat (length l) :: u32)"
proof -
  show 1: "unat (of_nat (length l) :: u8) = length l" using assms by (simp add: label_ok_def unat_of_nat)
  show "(of_nat (length l) :: u8) \<noteq> 0" using assms 1 by (metis label_ok_def length_0_conv unat_0)
  show "ucast (of_nat (length l) :: u8) = (of_nat (length l) :: u32)" using 1 by (metis of_nat_unat)
qed

lemma parse_step:
  assumes h: "holds mem ptr (of_nat (length l) # l)" and l: "label_ok l" and r: "remain \<noteq> 0"
  shows "parse_labels mem n ptr remain used name =
    (if used + length l + 1 > n then Inr (Inl (- ENOBUFS))
     else if length name + length l + 1 < n
     then parse_labels mem n (ptr + length l + 1) (remain - of_nat (length l + 1)) (used + length l + 1) (name @ bytes_string l @ ''.'')
     else Inl OutOfBounds)"
proof -
  note b = label_ok_byte [OF l]
  have "read_string mem (ptr + 1) (length l) = Inr l"
    using h l by (intro read_string_holds) (auto simp: holds_Cons label_ok_def)
  then show ?thesis using r b holds_load_hd [OF h]
    by (subst parse_labels.simps) (simp add: concat_string_def add.commute)
qed

lemma parse_end: "holds mem ptr (0 # tail) \<Longrightarrow> remain \<noteq> 0 \<Longrightarrow> parse_labels mem n ptr remain used name = Inr (Inr (name, Some (ptr + 1), remain))"
  using holds_load_hd [of mem ptr 0 tail] by (subst parse_labels.simps) simp

text \<open>
  What the parser does with a name of well-formed labels, for every length: it is read, or the array of
  the caller is overrun by the final zero byte, or an error is returned.
\<close>

lemma u32_of_nat: "k < 2 ^ 32 \<Longrightarrow> unat (of_nat k :: u32) = k"
  by (simp add: unat_of_nat)

lemma u32_nonzero: "0 < k \<Longrightarrow> k < 2 ^ 32 \<Longrightarrow> (of_nat k :: u32) \<noteq> 0"
  using u32_of_nat [of k] by (metis less_irrefl unat_0)

lemma parse_labels_wire:
  assumes "holds mem ptr (wire ls @ 0 # tail)" and "\<forall>l \<in> set ls. label_ok l" and "length (wire ls @ 0 # tail) < 2 ^ 32"
    and "used = length name" and "used < n"
  shows "parse_labels mem n ptr (of_nat (length (wire ls @ 0 # tail))) used name =
    (if used + length (wire ls) < n then Inr (Inr (name @ label_name ls, Some (ptr + length (wire ls) + 1), of_nat (length tail + 1)))
     else if \<exists>k. used + length (wire (take k ls)) = n then Inl OutOfBounds else Inr (Inl (- ENOBUFS)))"
  using assms
proof (induction ls arbitrary: ptr used name)
  case Nil
  have "of_nat (length (0 # tail)) \<noteq> (0 :: u32)" using Nil(3) by (intro u32_nonzero) simp_all
  then show ?case using parse_end [of mem ptr tail] Nil by (simp add: add.commute)
next
  case (Cons l ls)
  let ?r = "of_nat (length (wire (l # ls) @ 0 # tail)) :: u32" and ?u = "used + length l + 1"
  have l: "label_ok l" using Cons.prems(2) by simp
  have r: "?r \<noteq> 0" using Cons.prems(3) by (intro u32_nonzero) simp_all
  have r': "?r - of_nat (length l + 1) = of_nat (length (wire ls @ 0 # tail))" by simp
  have hl: "holds mem ptr (of_nat (length l) # l)" and hs: "holds mem (ptr + length l + 1) (wire ls @ 0 # tail)"
    using Cons.prems(1) by (simp_all add: holds_Cons holds_append)
  have ex: "(\<exists>k. used + length (wire (take k (l # ls))) = n) \<longleftrightarrow> (\<exists>k. ?u + length (wire (take k ls)) = n)"
  proof
    assume "\<exists>k. used + length (wire (take k (l # ls))) = n"
    then obtain k where "used + length (wire (take k (l # ls))) = n" ..
    then show "\<exists>k. ?u + length (wire (take k ls)) = n" using Cons.prems(5) by (cases k) auto
  next
    assume "\<exists>k. ?u + length (wire (take k ls)) = n"
    then obtain k where "?u + length (wire (take k ls)) = n" ..
    then have "used + length (wire (take (Suc k) (l # ls))) = n" by simp
    then show "\<exists>k. used + length (wire (take k (l # ls))) = n" ..
  qed
  consider "?u > n" | "?u = n" | "?u < n" by linarith
  then show ?case
  proof cases
    case 1
    have "\<not> (\<exists>k. ?u + length (wire (take k ls)) = n)" using 1 by auto
    then show ?thesis using 1 parse_step [OF hl l r, of n used name] ex by simp
  next
    case 2
    then have "\<exists>k. used + length (wire (take k (l # ls))) = n" by (intro exI [of _ 1]) simp
    then show ?thesis using 2 parse_step [OF hl l r, of n used name] Cons.prems(4) by simp
  next
    case 3
    have "parse_labels mem n ptr ?r used name =
        parse_labels mem n (ptr + length l + 1) (of_nat (length (wire ls @ 0 # tail))) ?u (name @ bytes_string l @ ''.'')"
      using 3 parse_step [OF hl l r, of n used name] r' Cons.prems(4) by simp
    also have "\<dots> = (if ?u + length (wire ls) < n then Inr (Inr ((name @ bytes_string l @ ''.'') @ label_name ls,
          Some (ptr + length l + 1 + length (wire ls) + 1), of_nat (length tail + 1)))
        else if \<exists>k. ?u + length (wire (take k ls)) = n then Inl OutOfBounds else Inr (Inl (- ENOBUFS)))"
      using Cons.prems 3 hs by (intro Cons.IH) simp_all
    finally show ?thesis unfolding ex by simp
  qed
qed

section \<open>Parsing a request\<close>

text \<open>The buffer size of an EDNS0 record behind the question, as the parser changes it.\<close>

definition edns_raised :: "u8 list \<Rightarrow> u8 list" where
  "edns_raised tail =
     (if tail ! 4 = 0 \<and> tail ! 5 = 0 \<and> tail ! 6 = 0x29 \<and> edns_size (tail ! 7) (tail ! 8) < 0x1000
      then poke 7 [0x10, 0x00] tail else tail)"

lemma poke_poke_inner:
  assumes "i + length tail \<le> length mem" and "j + length bs \<le> length tail"
  shows "poke (i + j) (map f bs) (poke i (map f tail) mem) = poke i (map f (poke j bs tail)) mem"
  using assms by (intro nth_equalityI) (auto simp: nth_poke length_poke)

lemma holds_nth: "holds mem i bs \<Longrightarrow> i \<le> k \<Longrightarrow> k < i + length bs \<Longrightarrow> mem ! k = Some (bs ! (k - i))"
  unfolding holds_def by (metis add_less_cancel_left le_add_diff_inverse)

lemma holds_poke_same:
  assumes "holds mem i bs"
  shows "poke i (known bs) mem = mem"
proof -
  have "i + length (known bs) \<le> length mem" using assms by (simp add: holds_def)
  then show ?thesis using holds_nth [OF assms] by (intro nth_equalityI) (auto simp: length_poke nth_poke)
qed

lemma raise_edns_holds:
  assumes h: "holds buf i tail" and l: "9 \<le> length tail"
  shows "raise_edns buf i = Inr (poke i (known (edns_raised tail)) buf)"
proof -
  note ld = holds_load [OF h]
  have b: "i + length tail \<le> length buf" using h by (simp add: holds_def)
  have "store buf (i + 7) [Some 0x10, Some 0] = Inr (poke i (known (poke 7 [0x10, 0x00] tail)) buf)"
    using poke_poke_inner [of i tail buf 7 "[0x10, 0x00]" Some] holds_poke_same [OF h] b l by (simp add: store_def)
  then show ?thesis using ld [of 4] ld [of 5] ld [of 6] ld [of 7] ld [of 8] l holds_poke_same [OF h]
    by (auto simp: raise_edns_def edns_raised_def)
qed

text \<open>A query: a header without the response bit and with one question, the labels of the name, the rest.\<close>

definition query_ok :: "u8 list \<Rightarrow> u8 list list \<Rightarrow> bool" where
  "query_ok hdr ls \<longleftrightarrow> length hdr = 12 \<and> hdr ! 2 AND 0x80 = 0 \<and> hdr ! 4 = 0 \<and> hdr ! 5 = 1 \<and> (\<forall>l \<in> set ls. label_ok l)"

definition has_edns :: "u8 list \<Rightarrow> u8 list \<Rightarrow> bool" where
  "has_edns hdr tail \<longleftrightarrow> (hdr ! 10 \<noteq> 0 \<or> hdr ! 11 \<noteq> 0) \<and> 8 \<le> length tail"

lemma parse_request_wire:
  assumes h: "holds buf start (hdr @ wire ls @ 0 # tail)" and q: "query_ok hdr ls" and len: "len = length (hdr @ wire ls @ 0 # tail)" "len < 2 ^ 32"
    and n: "0 < n" and e: "has_edns hdr tail \<Longrightarrow> length tail \<noteq> 8"
  shows "parse_request buf start len n =
    (if length (wire ls) < n then Inr (0, if has_edns hdr tail then poke (start + 12 + length (wire ls) + 1) (known (edns_raised tail)) buf else buf, label_name ls)
     else if \<exists>k. length (wire (take k ls)) = n then Inl OutOfBounds else Inr (- ENOBUFS, buf, []))"
proof -
  have hdr: "length hdr = 12" using q by (simp add: query_ok_def)
  have ld: "load buf (start + j) = Inr (hdr ! j)" if "j < 12" for j
    using holds_load [OF h, of j] that hdr by (simp add: nth_append)
  have hs: "holds buf (start + 12) (wire ls @ 0 # tail)" and ht: "holds buf (start + 12 + length (wire ls) + 1) tail"
    using h hdr by (simp_all add: holds_append holds_Cons add.assoc)
  have len': "len - 12 = length (wire ls @ 0 # tail)" "\<not> len < 12" "length (wire ls @ 0 # tail) < 2 ^ 32" using len hdr by simp_all
  have p: "parse_labels buf n (start + 12) (of_nat (len - 12)) 0 [] =
    (if length (wire ls) < n then Inr (Inr (label_name ls, Some (start + 12 + length (wire ls) + 1), of_nat (length tail + 1)))
     else if \<exists>k. length (wire (take k ls)) = n then Inl OutOfBounds else Inr (Inl (- ENOBUFS)))"
    unfolding len'(1) using parse_labels_wire [OF hs, of 0 "[]" n] q n len'(3) by (simp add: query_ok_def)
  have nine: "(9 :: u32) \<le> of_nat (length tail + 1) \<longleftrightarrow> 8 \<le> length tail"
    using len'(3) u32_of_nat [of "length tail + 1"] unfolding word_le_nat_alt by simp
  have "parse_request buf start len n = bind_r (parse_labels buf n (start + 12) (of_nat (len - 12)) 0 []) (\<lambda>r.
      case r of Inl e \<Rightarrow> Inr (e, buf, [])
      | Inr (name, last_label, remain) \<Rightarrow> (case last_label of None \<Rightarrow> Inr (0, buf, name)
         | Some label \<Rightarrow> if [hdr ! 10, hdr ! 11] \<noteq> [0, 0] \<and> remain \<ge> 9
             then bind_r (raise_edns buf label) (\<lambda>buf1. Inr (0, buf1, name)) else Inr (0, buf, name)))"
    using ld [of 2] ld [of 4] ld [of 5] ld [of 10] ld [of 11] q len'(2) by (simp add: parse_request_def query_ok_def)
  then show ?thesis using raise_edns_holds [OF ht] e nine unfolding p
    by (cases "has_edns hdr tail") (auto simp: has_edns_def)
qed

section \<open>The query with a domain\<close>

lemma unat_less_256: "unat (b :: u8) < 256"
  using unsigned_less [of b] by simp

lemma byte_of_char: "of_char (char_of (unat b)) = (b :: u8)"
proof -
  have "of_char (char_of (unat b)) = (of_nat (of_char (char_of (unat b))) :: u8)" by (rule of_nat_of_char [symmetric])
  then show ?thesis using unat_less_256 [of b] by (simp del: of_nat_of_char)
qed

lemma string_bytes_string: "string_bytes (bytes_string l) = l"
  by (simp add: string_bytes_def bytes_string_def comp_def map_idI byte_of_char)

lemma strchr_first: "c \<notin> set s \<Longrightarrow> strchr c (s @ c # t) = Some (length s)"
  by (induction s) auto

lemma strchr_none: "strchr c s = None \<longleftrightarrow> c \<notin> set s"
  by (induction s) auto

text \<open>A label without dots is a part of the name that the parser gives.\<close>

definition no_dot :: "u8 list \<Rightarrow> bool" where "no_dot l \<longleftrightarrow> CHR ''.'' \<notin> set (bytes_string l)"

lemma name_wire_label_name:
  assumes "\<forall>l \<in> set ls. no_dot l"
  shows "name_wire (label_name ls) = wire ls"
  using assms
proof (induction ls)
  case Nil
  then show ?case by (simp add: name_wire_def dot_labels.simps [of "[]"])
next
  case (Cons l ls)
  have "strchr (CHR ''.'') (label_name (l # ls)) = Some (length l)"
    using Cons.prems strchr_first [of "CHR ''.''" "bytes_string l" "label_name ls"] by (simp add: no_dot_def)
  then have "dot_labels (label_name (l # ls)) = bytes_string l # dot_labels (label_name ls)"
    by (subst dot_labels.simps) simp
  then show ?case using Cons by (simp add: name_wire_def string_bytes_string)
qed

text \<open>A domain whose encoding is one byte longer than the domain: not empty and not ending with a dot.\<close>

definition domain_ok :: "string \<Rightarrow> bool" where
  "domain_ok d \<longleftrightarrow> length (name_wire d) = length d + 1 \<and> 4 \<le> length d"

text \<open>The bytes of the second query that is sent for a name: the identifier and the name are changed, nothing else.\<close>

definition query_with_domain :: "u16 \<Rightarrow> u8 list \<Rightarrow> u8 list list \<Rightarrow> string \<Rightarrow> u8 list \<Rightarrow> u8 list" where
  "query_with_domain altid hdr ls domain tail = bytes16 altid @ drop 2 hdr @ wire ls @ name_wire domain @ 0 # tail"

lemma id_cells_bytes: "id_cells i = known (bytes16 i)"
  by (simp add: id_cells_def bytes16_def)

lemma slice_length: "slice mem i n = Inr cs \<Longrightarrow> length cs = n"
  by (auto simp: slice_def split: if_splits)

lemma alternate_query_holds:
  assumes h: "holds request 0 (hdr @ wire ls @ 0 # tail)" and q: "query_ok hdr ls" and nd: "\<forall>l \<in> set ls. no_dot l"
    and len: "request_len = length (hdr @ wire ls @ 0 # tail)" and d: "domain_ok domain" and fit: "request_len + length domain + 1 \<le> 1024"
  shows "\<exists>alt. alternate_query request request_len altid proto_udp (label_name ls) domain = Inr alt \<and> length alt = 1024 \<and>
    holds alt 0 (query_with_domain altid hdr ls domain tail)"
proof -
  let ?n = "name_wire domain" and ?w = "wire ls"
  have hdr: "length hdr = 12" "hdr ! 4 = 0" "hdr ! 5 = 1" using q by (simp_all add: query_ok_def)
  have dl: "length ?n = length domain + 1" using d by (simp add: domain_ok_def)
  have h2: "holds request 2 (drop 2 hdr)" and ht: "holds request (12 + length ?w + 1) tail"
    using h hdr holds_append [of request 0 "take 2 hdr" "drop 2 hdr"] by (simp_all add: holds_append holds_Cons numeral_2_eq_2)
  define a1 where "a1 = poke 0 (known (bytes16 altid)) (replicate 1024 None :: cell list)"
  define a2 where "a2 = poke 2 (known (drop 2 hdr)) a1"
  define a4 where "a4 = poke 12 (known (?w @ ?n @ [0])) a2"
  define a5 where "a5 = poke (12 + length (?w @ ?n @ [0])) (known tail) a4"
  have L: "length a1 = 1024" "length a2 = 1024" "length a4 = 1024" "length a5 = 1024"
    using hdr len fit dl by (simp_all add: a1_def a2_def a4_def a5_def length_poke)
  have H1: "holds a1 0 (bytes16 altid)" unfolding a1_def by (rule holds_poke) simp
  have H2: "holds a2 0 (bytes16 altid)" "holds a2 2 (drop 2 hdr)"
    using L hdr by (auto simp: a2_def intro!: holds_poke holds_poke_other [OF H1])
  have a3: "store a2 4 [Some 0, Some 1] = Inr a2"
  proof -
    have "a2 ! 4 = Some 0" "a2 ! 5 = Some 1" using holds_nth [OF H2(2), of 4] holds_nth [OF H2(2), of 5] hdr by simp_all
    then have "holds a2 4 [0, 1]" using L by (simp add: holds_Cons)
    from holds_poke_same [OF this] L show ?thesis by (simp add: store_def)
  qed
  have b12: "12 + length (known (?w @ ?n @ [0])) \<le> length a2" and bt: "12 + length (?w @ ?n @ [0]) + length (known tail) \<le> length a4"
    using L len fit dl hdr by simp_all
  have H4: "holds a4 12 (?w @ ?n @ [0])" unfolding a4_def by (rule holds_poke) (use b12 in simp)
  have H4': "holds a4 0 (bytes16 altid)" "holds a4 2 (drop 2 hdr)"
    unfolding a4_def using hdr b12 by (auto intro!: holds_poke_other [OF H2(1)] holds_poke_other [OF H2(2)])
  have H5: "holds a5 (12 + length (?w @ ?n @ [0])) tail" unfolding a5_def by (rule holds_poke) (use bt in simp)
  have H5': "holds a5 0 (bytes16 altid)" "holds a5 2 (drop 2 hdr)" "holds a5 12 (?w @ ?n @ [0])"
    unfolding a5_def using hdr bt by (auto intro!: holds_poke_other [OF H4'(1)] holds_poke_other [OF H4'(2)] holds_poke_other [OF H4])
  have "holds a5 0 (bytes16 altid @ drop 2 hdr @ (?w @ ?n @ [0]) @ tail)"
    using H5 H5' hdr by (simp only: holds_append) (simp add: numeral_2_eq_2)
  then have "holds a5 0 (query_with_domain altid hdr ls domain tail)" by (simp add: query_with_domain_def)
  moreover have "alternate_query request request_len altid proto_udp (label_name ls) domain = Inr a5"
  proof -
    have s1: "store (replicate 1024 None) 0 (id_cells altid) = Inr a1" by (simp add: store_def a1_def id_cells_bytes)
    have s2: "slice request 2 10 = Inr (known (drop 2 hdr))" using holds_slice [OF h2] hdr by simp
    have s3: "store a1 2 (known (drop 2 hdr)) = Inr a2" using L hdr by (simp add: store_def a2_def)
    have s4: "append_query a2 12 (label_name ls) domain = Inr (a4, length ?w + length ?n + 1)"
      using append_query_wire [of 12 a2 "label_name ls" domain] name_wire_label_name [OF nd] L b12 by (simp add: store_def a4_def)
    have s5: "slice request (12 + length ?w + 1) (length tail) = Inr (known tail)" by (rule holds_slice [OF ht])
    have s6: "store a4 (12 + length (?w @ ?n @ [0])) (known tail) = Inr a5" using bt by (simp add: store_def a5_def)
    have rest: "int request_len - int (length ?w + length ?n + 1 + 12) - int 0 + int (length domain + 1) = int (length tail)"
      "int 0 + int (length ?w + length ?n + 1 + 12) - int (length domain + 1) = int (12 + length ?w + 1)"
      "0 + (length ?w + length ?n + 1 + 12) = 12 + length (?w @ ?n @ [0])"
      using len hdr dl by simp_all
    have h0: "nat (protocol_offset proto_udp) = 0" "proto_udp \<noteq> proto_tcp" by (simp_all add: protocol_offset_def proto_udp_def proto_tcp_def)
    have two: "0 + 2 = (2 :: nat)" "0 + 12 = (12 :: nat)" by simp_all
    show ?thesis unfolding alternate_query_def Let_def h0(1) two s1 s2 s3 bind_r_simps a3 s4 prod.case rest nat_int s5 s6
      using h0(2) by (simp add: s5 s6)
  qed
  ultimately show ?thesis using L by blast
qed

section \<open>Cutting the domain out of a reply\<close>

lemma wire_nonzero: "\<forall>l \<in> set ls. label_ok l \<Longrightarrow> 0 \<notin> set (wire ls)"
  by (induction ls) (auto simp: label_ok_byte(2) label_ok_def [of "hd _"], auto simp: label_ok_def)

lemma strip_domain_cells:
  assumes h: "holds reply ptr (bs @ [0])" and z: "0 \<notin> set bs" and l: "bs \<noteq> []" "length bs < 2 ^ 32"
  shows "strip_domain reply reply_len ptr =
    (let h = unat (hd bs); d = unat (of_nat (length bs) - ucast (hd bs) - 1 :: u32); rest = int reply_len - (int ptr + int d) in
     if rest < 0 then Inl BadLength
     else bind_r (slice reply (ptr + h + d + 1) (nat rest)) (\<lambda>cs. bind_r (store reply (ptr + h + 1) cs) (\<lambda>reply1. Inr (reply1, reply_len - d))))"
proof -
  obtain b cs where bs: "bs = b # cs" using l(1) by (cases bs) auto
  have "load reply ptr = Inr (hd bs)" using h holds_load_hd [of reply ptr b "cs @ [0]"] by (simp add: bs)
  then show ?thesis by (simp add: strip_domain_def string_length_holds [OF h z] Let_def)
qed

text \<open>The first label stays, the other labels are cut out, and what follows the name moves up.\<close>

lemma strip_domain_wire:
  assumes h: "holds reply 0 (pre @ wire (l # ds) @ 0 # tail)" and ok: "\<forall>m \<in> set (l # ds). label_ok m"
    and len: "reply_len = length (pre @ wire (l # ds) @ 0 # tail)" and fit: "reply_len + length l + 1 \<le> length reply" "length reply < 2 ^ 32"
  shows "\<exists>reply1. strip_domain reply reply_len (length pre) = Inr (reply1, length (pre @ wire [l] @ 0 # tail)) \<and>
    length reply1 = length reply \<and> holds reply1 0 (pre @ wire [l] @ 0 # tail)"
proof -
  let ?p = "length pre" and ?bs = "wire (l # ds)" and ?d = "length (wire ds)"
  have hb: "holds reply ?p (?bs @ [0])" and hp: "holds reply 0 (pre @ wire [l])" and ht: "holds reply (?p + length l + ?d + 1) (0 # tail)"
    using h by (simp_all add: holds_append holds_Cons ac_simps)
  have l: "label_ok l" using ok by simp
  have d: "unat (of_nat (length ?bs) - ucast (hd ?bs) - 1 :: u32) = ?d" "unat (hd ?bs) = length l"
  proof -
    have "of_nat (length ?bs) - ucast (hd ?bs) - 1 = (of_nat ?d :: u32)" using label_ok_byte(3) [OF l] by simp
    moreover have "?d < 2 ^ 32" using len fit by simp
    ultimately show "unat (of_nat (length ?bs) - ucast (hd ?bs) - 1 :: u32) = ?d" by (simp add: u32_of_nat)
    show "unat (hd ?bs) = length l" using label_ok_byte(1) [OF l] by simp
  qed
  let ?n = "length (0 # tail) + (length l + 1)"
  have rest: "int reply_len - (int ?p + int ?d) = int ?n" using len by simp
  obtain cs where cs: "slice reply (?p + length l + ?d + 1) ?n = Inr cs" "take (length (0 # tail)) cs = known (0 # tail)" "length cs = ?n"
  proof -
    have "?p + length l + ?d + 1 + ?n \<le> length reply" using len fit by simp
    then have s: "slice reply (?p + length l + ?d + 1) ?n = Inr (take ?n (drop (?p + length l + ?d + 1) reply))" by (simp add: slice_def)
    have "take (length (0 # tail)) (take ?n (drop (?p + length l + ?d + 1) reply)) = known (0 # tail)"
      using holds_slice [OF ht] by (auto simp: slice_def split: if_splits simp del: take_Suc_Cons)
    then show ?thesis using that [OF s] slice_length [OF s] by blast
  qed
  define reply1 where "reply1 = poke (?p + length l + 1) cs reply"
  have b1: "?p + length l + 1 + length cs \<le> length reply" using len fit cs(3) by simp
  have st: "store reply (?p + length l + 1) cs = Inr reply1" using b1 by (simp add: store_def reply1_def)
  have "?bs \<noteq> []" "length ?bs < 2 ^ 32" using len fit by simp_all
  from strip_domain_cells [OF hb wire_nonzero [OF ok] this, of reply_len, unfolded d Let_def rest nat_int cs(1) bind_r_simps st]
  have "strip_domain reply reply_len ?p = Inr (reply1, length (pre @ wire [l] @ 0 # tail))" using len by simp
  moreover have "holds reply1 0 (pre @ wire [l])" unfolding reply1_def using b1 by (intro holds_poke_other [OF hp]) simp_all
  moreover have "holds reply1 (?p + length l + 1) (0 # tail)"
  proof -
    have "reply1 ! (?p + length l + 1 + j) = Some ((0 # tail) ! j)" if j: "j < length (0 # tail)" for j
    proof -
      have "reply1 ! (?p + length l + 1 + j) = cs ! j" using b1 j cs(3) by (simp add: reply1_def nth_poke)
      also have "\<dots> = take (length (0 # tail)) cs ! j" using j by simp
      finally show ?thesis unfolding cs(2) nth_map [OF j] .
    qed
    then show ?thesis using b1 cs(3) by (simp add: holds_def reply1_def length_poke)
  qed
  moreover have "length reply1 = length reply" using b1 by (simp add: reply1_def length_poke)
  ultimately show ?thesis by (intro exI [of _ reply1]) (simp add: holds_append holds_Cons ac_simps)
qed

text \<open>A reply whose first label is longer than the rest of the name ends in a copy of a wrapped length.\<close>

lemma strip_domain_faults:
  assumes h: "holds reply ptr (bs @ [0])" and z: "0 \<notin> set bs" and l: "length bs < 2 ^ 31" and b: "bs = [] \<or> length bs \<le> unat (hd bs)"
    and len: "reply_len < 2 ^ 31"
  shows "strip_domain reply reply_len ptr = Inl BadLength"
proof -
  have ld: "load reply ptr = Inr (hd (bs @ [0]))" using h by (cases bs) (auto simp: holds_Cons load_known)
  let ?h = "hd (bs @ [0])"
  have hh: "length bs \<le> unat ?h" "unat ?h < 256" using b unat_less_256 [of ?h] by (cases bs; auto)+
  have "uint (of_nat (length bs) - ucast ?h - 1 :: u32) \<ge> 2 ^ 31"
  proof -
    let ?i = "int (length bs) - int (unat ?h) - 1"
    have p: "(2 :: int) ^ 31 + 256 \<le> 2 ^ 32" "(0 :: int) \<le> 2 ^ 31" by simp_all
    have e: "of_nat (length bs) - ucast ?h - 1 = (word_of_int ?i :: u32)" by simp
    have "uint (of_nat (length bs) - ucast ?h - 1 :: u32) = ?i mod 2 ^ 32" unfolding e uint_word_of_int by (simp add: take_bit_eq_mod)
    also have "\<dots> = (?i + 2 ^ 32) mod 2 ^ 32" by (rule mod_add_self2 [symmetric])
    also have "\<dots> = ?i + 2 ^ 32" using hh p by (intro mod_pos_pos_trivial) linarith+
    finally show ?thesis using hh p by linarith
  qed
  then show ?thesis using len by (simp add: strip_domain_def ld string_length_holds [OF h z] Let_def)
qed

section \<open>Forwarding a reply\<close>

lemmas world_defs = put_request_def put_server_def put_listener_def free_request_def sys_def sys_do_def remove_source_if_def remove_source_def
  add_source_def new_addr_def deref_def

lemma protocol_offsets [simp]: "protocol_offset proto_udp = 0" "protocol_offset proto_tcp = 2" "proto_udp \<noteq> proto_tcp"
  by (simp_all add: protocol_offset_def proto_udp_def proto_tcp_def)

text \<open>The reply that is kept and sent on: a reply without an error, under the identifier of the client.\<close>

lemma forward_good_reply:
  assumes h: "holds reply 0 (rhdr @ rest)" "length rhdr = 12" and rc: "rhdr ! 3 AND 0x0F = 0"
    and p: "find_request (of_bytes16 [rhdr ! 0, rhdr ! 1]) w = Inr (Some p)" "dw_requests w p = Some req"
    and l: "dw_listeners w (rq_ifdata req) = Some ld" "ld_udp_listener_channel ld = Some sk"
    and m: "oe_result env (length (os_trace w)) Alloc \<ge> 0"
    and cut: "(if rq_append_domain req then strip_domain (poke 0 (known (bytes16 (rq_srcid req))) reply) len 12
        else Inr (poke 0 (known (bytes16 (rq_srcid req))) reply, len)) = Inr (reply1, length out)"
    and out: "holds reply1 0 out"
  shows "\<exists>w'. forward_dns_reply env reply len proto_udp w = Inr (oe_result env (length (os_trace w) + 1) (Sendto sk (known out) (rq_sa req)), w') \<and>
    os_trace w' = os_trace w @ [Alloc, Sendto sk (known out) (rq_sa req)] \<and>
    request_list w' = remove1 p (request_list w) \<and> dw_requests w' = (dw_requests w)(p := None) \<and>
    os_sources w' = (if rq_timeout req > 0 then filter (\<lambda>s. fst s \<noteq> rq_timeout req) (os_sources w) else os_sources w)"
proof -
  have ld: "load reply 0 = Inr (rhdr ! 0)" "load reply (Suc 0) = Inr (rhdr ! 1)" "12 \<le> length reply"
    using holds_load [OF h(1), of 0] holds_load [OF h(1), of 1] h by (auto simp: nth_append holds_def)
  let ?r = "poke 0 (known (bytes16 (rq_srcid req))) reply"
  have st: "store reply 0 (id_cells (rq_srcid req)) = Inr ?r" using ld(3) by (simp add: store_def id_cells_bytes)
  have "?r ! 3 = Some (rhdr ! 3)" using ld(3) holds_nth [OF h(1), of 3] h(2) by (simp add: nth_poke nth_append)
  then have ld3: "load ?r 3 = Inr (rhdr ! 3)" using ld(3) by (intro load_known) (simp_all add: length_poke)
  have sl: "slice reply1 0 (length out) = Inr (known out)" by (rule holds_slice [OF out])
  have sl2: "slice (known out) 0 (length out) = Inr (known out)" by (simp add: slice_def)
  show ?thesis using m rc l cut sl sl2 p ld st ld3
    by (cases "rq_append_domain req") (simp_all add: forward_dns_reply_def keep_reply_def send_reply_def through_def world_defs Let_def)
qed

lemma forward_cut_reply:
  assumes R: "R = rhdr @ wire (l # ds) @ 0 # tail" "length rhdr = 12" "\<forall>m \<in> set (l # ds). label_ok m" "length R + length l + 1 \<le> 4096"
    and rc: "rhdr ! 3 AND 0x0F = 0"
    and p: "find_request (of_bytes16 [rhdr ! 0, rhdr ! 1]) w = Inr (Some p)" "dw_requests w p = Some req" "rq_append_domain req"
    and l: "dw_listeners w (rq_ifdata req) = Some ld" "ld_udp_listener_channel ld = Some sk"
    and m: "oe_result env (length (os_trace w)) Alloc \<ge> 0"
    and out: "out = bytes16 (rq_srcid req) @ drop 2 rhdr @ wire [l] @ 0 # tail"
  shows "\<exists>w'. udp_server_event env s False R w = Inr (True, w') \<and>
    os_trace w' = os_trace w @ [Alloc, Sendto sk (known out) (rq_sa req)] \<and>
    request_list w' = remove1 p (request_list w) \<and> dw_requests w' = (dw_requests w)(p := None)"
proof -
  let ?mem = "recv_buf 4096 R" and ?pre = "bytes16 (rq_srcid req) @ drop 2 rhdr"
  let ?mem1 = "poke 0 (known (bytes16 (rq_srcid req))) ?mem"
  have lR: "length ?mem = 4096" using R(4) by simp
  have h: "holds ?mem 0 R" by (rule holds_recv_buf) (use R(4) in simp)
  have "holds ?mem 2 (drop 2 rhdr @ wire (l # ds) @ 0 # tail)"
    using h R(1,2) holds_append [of ?mem 0 "take 2 rhdr" "drop 2 rhdr @ wire (l # ds) @ 0 # tail"]
    by (simp add: append_assoc [symmetric] numeral_2_eq_2 del: append_assoc)
  then have h1: "holds ?mem1 2 (drop 2 rhdr @ wire (l # ds) @ 0 # tail)" by (rule holds_poke_other) (simp_all add: lR)
  have "holds ?mem1 0 (bytes16 (rq_srcid req))" by (rule holds_poke) (simp add: lR)
  then have h2: "holds ?mem1 0 (?pre @ wire (l # ds) @ 0 # tail)" using h1 by (simp add: holds_append [of _ _ "bytes16 _"] numeral_2_eq_2)
  have "length R = length (?pre @ wire (l # ds) @ 0 # tail)" using R(1,2) by simp
  moreover have "length R + length l + 1 \<le> length ?mem1" "length ?mem1 < 2 ^ 32" using R(4) lR by (simp_all add: length_poke)
  ultimately obtain reply1 where r1: "strip_domain ?mem1 (length R) (length ?pre) = Inr (reply1, length (?pre @ wire [l] @ 0 # tail))"
      "holds reply1 0 (?pre @ wire [l] @ 0 # tail)"
    using strip_domain_wire [OF h2 R(3)] by blast
  have "length ?pre = 12" using R(2) by simp
  then have cut: "(if rq_append_domain req then strip_domain ?mem1 (length R) 12 else Inr (?mem1, length R)) = Inr (reply1, length out)"
    using r1(1) p(3) out by simp
  have h0: "holds ?mem 0 (rhdr @ wire (l # ds) @ 0 # tail)" using h R(1) by simp
  have o: "holds reply1 0 out" using r1(2) out by simp
  obtain w' where "forward_dns_reply env ?mem (length R) proto_udp w = Inr (oe_result env (length (os_trace w) + 1) (Sendto sk (known out) (rq_sa req)), w')"
      "os_trace w' = os_trace w @ [Alloc, Sendto sk (known out) (rq_sa req)]" "request_list w' = remove1 p (request_list w)"
      "dw_requests w' = (dw_requests w)(p := None)"
    using forward_good_reply [OF h0 R(2) rc p(1,2) l m cut o] by blast
  moreover have "min 4096 (length R) = length R" using R(4) by simp
  moreover have "\<not> length R < 12" using R(1,2) by simp
  ultimately show ?thesis by (intro exI [of _ w']) (simp add: udp_server_event_def)
qed

section \<open>Sending a query\<close>

lemma inner_dot:
  assumes "\<forall>l \<in> set ls. no_dot l" and "length ls \<le> 1"
  shows "\<not> has_inner_dot (label_name ls)"
proof (cases ls)
  case (Cons l ms)
  then have "label_name ls = bytes_string l @ ''.''" using assms(2) by simp
  then show ?thesis using assms(1) Cons strchr_first [of "CHR ''.''" "bytes_string l" "[]"] by (simp add: has_inner_dot_def no_dot_def)
qed (simp add: has_inner_dot_def)

lemma domain_loop_trace:
  assumes h: "holds request 0 (hdr @ wire ls @ 0 # tail)" and q: "query_ok hdr ls" and nd: "\<forall>l \<in> set ls. no_dot l"
    and d: "\<forall>d \<in> set ds. domain_ok d \<and> length (hdr @ wire ls @ 0 # tail) + length d + 1 \<le> 1024"
    and p: "dw_requests w p = Some req" "rq_request_len req = length (hdr @ wire ls @ 0 # tail)"
    and ok: "\<And>n cs. oe_result env n (Send sk cs) \<ge> 0"
  shows "\<exists>w'. domain_loop env sk proto_udp p request (label_name ls) ds w = Inr (0, w') \<and>
    os_trace w' = os_trace w @ map (\<lambda>d. Send sk (known (query_with_domain (rq_altid req) hdr ls d tail))) ds \<and>
    dw_requests w' = (dw_requests w)(p \<mapsto> req\<lparr>rq_numserv := rq_numserv req + of_nat (length ds)\<rparr>) \<and> os_sources w' = os_sources w \<and>
    dw_servers w' = dw_servers w \<and> request_list w' = request_list w"
  using d p
proof (induction ds arbitrary: w req)
  case Nil
  then show ?case by (intro exI [of _ w]) (auto simp: fun_upd_idem_iff)
next
  case (Cons d ds)
  let ?q = "query_with_domain (rq_altid req) hdr ls d tail"
  have dk: "domain_ok d" "rq_request_len req + length d + 1 \<le> 1024" using Cons.prems by simp_all
  obtain alt where alt: "alternate_query request (rq_request_len req) (rq_altid req) proto_udp (label_name ls) d = Inr alt" "holds alt 0 ?q"
    using alternate_query_holds [OF h q nd Cons.prems(3) dk] by blast
  have "length ?q = rq_request_len req + (length d + 1)"
    using Cons.prems(3) dk(1) q by (simp add: query_with_domain_def domain_ok_def query_ok_def)
  then have sl: "slice alt 0 (rq_request_len req + (length d + 1)) = Inr (known ?q)" using holds_slice [OF alt(2)] by simp
  let ?req = "req\<lparr>rq_numserv := rq_numserv req + 1\<rparr>"
  let ?w = "put_request p ?req (w\<lparr>os_trace := os_trace w @ [Send sk (known ?q)]\<rparr>)"
  have step: "domain_loop env sk proto_udp p request (label_name ls) (d # ds) w = domain_loop env sk proto_udp p request (label_name ls) ds ?w"
    using dk alt(1) sl Cons.prems(2) ok [of "length (os_trace w)" "known ?q"]
    by (simp add: domain_ok_def deref_def sys_def count_server_def put_request_def)
  have "dw_requests ?w p = Some ?req" "rq_request_len ?req = length (hdr @ wire ls @ 0 # tail)" using Cons.prems by (simp_all add: put_request_def)
  have ds: "\<forall>d \<in> set ds. domain_ok d \<and> length (hdr @ wire ls @ 0 # tail) + length d + 1 \<le> 1024" using Cons.prems(1) by simp
  from Cons.IH [OF ds \<open>dw_requests ?w p = _\<close> \<open>rq_request_len ?req = _\<close>]
  show ?case unfolding step by (elim exE conjE) (rule exI, intro conjI, assumption, simp_all add: put_request_def ac_simps fun_eq_iff)
qed

lemma ns_resolv_trace:
  assumes h: "holds request 0 Q" "Q = hdr @ wire ls @ 0 # tail" and q: "query_ok hdr ls" and nd: "\<forall>l \<in> set ls. no_dot l" "length ls \<le> 1"
    and s: "dw_servers w s = Some server" "sd_protocol server = proto_udp"
    and d: "\<forall>d \<in> set (sd_domains server). domain_ok d \<and> length Q + length d + 1 \<le> 1024"
    and p: "dw_requests w p = Some req" "rq_request_len req = length Q"
    and ok: "\<And>n cs. oe_result env n (Send (sd_channel server) cs) \<ge> 0"
  shows "\<exists>w'. ns_resolv env s p request (label_name ls) w = Inr (0, w') \<and>
    os_trace w' = os_trace w @ Send (sd_channel server) (known Q) #
      map (\<lambda>d. Send (sd_channel server) (known (query_with_domain (rq_altid req) hdr ls d tail))) (sd_domains server) \<and>
    dw_requests w' = (dw_requests w)(p \<mapsto> req\<lparr>rq_append_domain := rq_append_domain req \<or> sd_domains server \<noteq> [],
      rq_numserv := rq_numserv req + 1 + of_nat (length (sd_domains server))\<rparr>)"
proof -
  let ?sk = "sd_channel server" and ?ds = "sd_domains server"
  let ?req = "req\<lparr>rq_numserv := rq_numserv req + 1, rq_append_domain := rq_append_domain req \<or> ?ds \<noteq> []\<rparr>"
  let ?w = "put_request p ?req (w\<lparr>os_trace := os_trace w @ [Send ?sk (known Q)]\<rparr>)"
  have sl: "slice request 0 (rq_request_len req) = Inr (known Q)" using holds_slice [OF h(1)] p(2) by simp
  have run: "ns_resolv env s p request (label_name ls) w = domain_loop env ?sk proto_udp p request (label_name ls) ?ds ?w"
    using s p sl inner_dot [OF nd]
    by (cases "?ds = []") (simp_all add: ns_resolv_def deref_def count_server_def sys_do_def sys_def put_request_def)
  have h': "holds request 0 (hdr @ wire ls @ 0 # tail)" using h by simp
  have pw: "dw_requests ?w p = Some ?req" "rq_request_len ?req = length (hdr @ wire ls @ 0 # tail)" using p h(2) by (simp_all add: put_request_def)
  obtain w' where "domain_loop env ?sk proto_udp p request (label_name ls) ?ds ?w = Inr (0, w')"
      "os_trace w' = os_trace ?w @ map (\<lambda>d. Send ?sk (known (query_with_domain (rq_altid ?req) hdr ls d tail))) ?ds"
      "dw_requests w' = (dw_requests ?w)(p \<mapsto> ?req\<lparr>rq_numserv := rq_numserv ?req + of_nat (length ?ds)\<rparr>)"
    using domain_loop_trace [OF h' q nd(1) _ pw, of ?ds env ?sk] ok d h(2) by auto
  then show ?thesis unfolding run by (intro exI [of _ w']) (simp add: put_request_def)
qed

end
