(* ===== verification/Dns_Properties.thy ===== *)
theory Dns_Properties
  imports Dns_Packets
begin

text \<open>
  The properties of the DNS proxy: the identifiers of requests, the queries that are sent for a request and to
  which servers, the reply that the client gets, and the inputs and calls that end in a fault.
\<close>

section \<open>Identifiers of requests\<close>

definition nth_id :: "nat \<Rightarrow> u16" where
  "nth_id k = (next_request_id ^^ Suc k) 0"

lemma u16_of_nat: "k < 2 ^ 16 \<Longrightarrow> unat (of_nat k :: u16) = k"
  by (simp add: unat_of_nat)

lemma next_id_even:
  assumes "m \<le> 32767"
  shows "next_request_id (of_nat (2 * m)) = of_nat (2 * (m mod 32767 + 1))"
proof (cases "m = 32767")
  case True
  then show ?thesis by (simp add: next_request_id_def)
next
  case False
  have e: "of_nat (2 * m) + 2 = (of_nat (2 * (m + 1)) :: u16)" by simp
  have u: "unat (of_nat (2 * (m + 1)) :: u16) = 2 * (m + 1)" using assms False by (intro u16_of_nat) simp
  have "(of_nat (2 * (m + 1)) :: u16) \<noteq> 0" "(of_nat (2 * (m + 1)) :: u16) \<noteq> 0xFFFF"
  proof -
    show "(of_nat (2 * (m + 1)) :: u16) \<noteq> 0" using u by (metis mult_is_0 unat_0 zero_neq_numeral add_is_0 zero_neq_one)
    have "even (unat (of_nat (2 * (m + 1)) :: u16))" unfolding u by simp
    moreover have "odd (unat (0xFFFF :: u16))" by simp
    ultimately show "(of_nat (2 * (m + 1)) :: u16) \<noteq> 0xFFFF" by metis
  qed
  then have "next_request_id (of_nat (2 * m)) = of_nat (2 * (m + 1))" unfolding next_request_id_def e Let_def by simp
  moreover have "m mod 32767 = m" using assms False by simp
  ultimately show ?thesis by simp
qed

lemma nth_id_eq: "nth_id k = of_nat (2 * (k mod 32767 + 1))"
proof (induction k)
  case 0
  have "next_request_id 0 = of_nat (2 * (0 mod 32767 + 1))" using next_id_even [of 0] by simp
  then show ?case by (simp add: nth_id_def)
next
  case (Suc k)
  have le: "k mod 32767 + 1 \<le> 32767" using mod_less_divisor [of 32767 k] by linarith
  have "nth_id (Suc k) = next_request_id (nth_id k)" by (simp add: nth_id_def)
  also have "\<dots> = of_nat (2 * ((k mod 32767 + 1) mod 32767 + 1))" unfolding Suc.IH by (rule next_id_even [OF le])
  also have "(k mod 32767 + 1) mod 32767 = Suc k mod 32767" by (simp add: mod_Suc_eq)
  finally show ?case .
qed

lemma unat_nth_id: "unat (nth_id k) = 2 * (k mod 32767 + 1)" "unat (nth_id k + 1) = 2 * (k mod 32767 + 1) + 1"
proof -
  have le: "k mod 32767 < 32767" by simp
  have e: "nth_id k + 1 = of_nat (2 * (k mod 32767 + 1) + 1)" by (simp add: nth_id_eq)
  show "unat (nth_id k) = 2 * (k mod 32767 + 1)" unfolding nth_id_eq using le by (intro u16_of_nat) simp
  show "unat (nth_id k + 1) = 2 * (k mod 32767 + 1) + 1" unfolding e using le by (intro u16_of_nat) simp
qed

lemma distinct_mapI: "distinct (map f xs) \<Longrightarrow> distinct xs"
  by (simp add: distinct_map)

lemma nth_id_distinct:
  assumes "i < j" and "j - i < 32767"
  shows "distinct [nth_id i, nth_id i + 1, nth_id j, nth_id j + 1] \<and> nth_id i \<noteq> 0"
proof -
  have m: "i mod 32767 \<noteq> j mod 32767"
  proof
    assume "i mod 32767 = j mod 32767"
    then have "32767 dvd j - i" using assms(1) mod_eq_dvd_iff_nat [of i j 32767] by simp
    then show False using assms nat_dvd_not_less [of "j - i" 32767] by simp
  qed
  define a where "a = i mod 32767"
  define b where "b = j mod 32767"
  have u: "unat (nth_id i) = 2 * (a + 1)" "unat (nth_id i + 1) = 2 * (a + 1) + 1" "unat (nth_id j) = 2 * (b + 1)" "unat (nth_id j + 1) = 2 * (b + 1) + 1"
    unfolding a_def b_def by (rule unat_nth_id)+
  have "a \<noteq> b" using m by (simp add: a_def b_def)
  then have "distinct (map unat [nth_id i, nth_id i + 1, nth_id j, nth_id j + 1])" unfolding list.map u by simp
  then have "distinct [nth_id i, nth_id i + 1, nth_id j, nth_id j + 1]" by (rule distinct_mapI)
  moreover have "nth_id i \<noteq> 0" using u(1) by (metis add_is_0 mult_is_0 unat_0 zero_neq_numeral zero_neq_one)
  ultimately show ?thesis by simp
qed

section \<open>Which servers are asked\<close>

text \<open>The channels and flags of the servers, which sending does not change.\<close>

definition asked :: "'a dns_world_scheme \<Rightarrow> addr \<rightharpoonup> bool \<times> int" where
  "asked w p = map_option (\<lambda>d. (sd_enabled d, sd_channel d)) (dw_servers w p)"

lemma asked_cong: "dw_servers w' = dw_servers w \<Longrightarrow> asked w' = asked w"
  by (rule ext) (simp add: asked_def)

lemma domain_loop_sends:
  assumes "domain_loop env sk protocol p request name ds w = Inr (r, w')"
  shows "\<exists>t. os_trace w' = os_trace w @ t \<and> (\<forall>c \<in> set t. \<exists>cs. c = Send sk cs) \<and> asked w' = asked w"
  using assms
proof (induction ds arbitrary: w)
  case (Cons d ds)
  show ?case
  proof (cases "protocol_offset protocol < 0 \<or> length d + 1 < 5")
    case True
    then show ?thesis using Cons.prems by (auto split: if_splits)
  next
    case False
    then obtain req alt cs where *: "dw_requests w p = Some req" "alternate_query request (rq_request_len req) (rq_altid req) protocol name d = Inr alt"
        "slice alt 0 (rq_request_len req + (length d + 1)) = Inr cs"
      using Cons.prems by (auto simp: bind_r_eq_Inr deref_def split: if_splits option.splits)
    let ?w = "w\<lparr>os_trace := os_trace w @ [Send sk cs]\<rparr>"
    have a: "asked ?w = asked w" by (rule asked_cong) simp
    show ?thesis
    proof (cases "oe_result env (length (os_trace w)) (Send sk cs) < 0")
      case True
      then have "w' = ?w" using Cons.prems False * by (auto simp: deref_def sys_def)
      then show ?thesis using a by auto
    next
      case ok: False
      let ?w2 = "put_request p (req\<lparr>rq_numserv := rq_numserv req + 1\<rparr>) ?w"
      have "domain_loop env sk protocol p request name ds ?w2 = Inr (r, w')"
        using Cons.prems False * ok by (auto simp: deref_def sys_def count_server_def)
      from Cons.IH [OF this] obtain t where "os_trace w' = os_trace ?w2 @ t" "\<forall>c \<in> set t. \<exists>cs. c = Send sk cs" "asked w' = asked ?w2" by blast
      moreover have "asked ?w2 = asked w" by (rule asked_cong) (simp add: put_request_def)
      ultimately show ?thesis by (intro exI [of _ "Send sk cs # t"]) (simp add: put_request_def)
    qed
  qed
qed auto

lemma count_server_effect:
  assumes "count_server p w = Inr w'"
  shows "os_trace w' = os_trace w" "asked w' = asked w"
  using assms by (auto simp: count_server_def bind_r_eq_Inr put_request_def intro!: asked_cong)

lemma ns_resolv_sends:
  assumes "ns_resolv env s p request name w = Inr (r, w')" and "asked w s = Some (b, sk)"
  shows "\<exists>t. os_trace w' = os_trace w @ t \<and> (\<forall>c \<in> set t. \<exists>cs. c = Send sk cs) \<and> asked w' = asked w"
proof -
  obtain server where s: "dw_servers w s = Some server" "sd_channel server = sk" using assms(2) by (auto simp: asked_def)
  obtain req cs w1 where *: "dw_requests w p = Some req" "slice request 0 (rq_request_len req) = Inr cs"
      "count_server p (w\<lparr>os_trace := os_trace w @ [Send sk cs]\<rparr>) = Inr w1"
    using assms(1) s by (auto simp: ns_resolv_def bind_r_eq_Inr deref_def sys_do_def sys_def split: option.splits)
  have t1: "os_trace w1 = os_trace w @ [Send sk cs]" "asked w1 = asked w"
    using count_server_effect [OF *(3)] asked_cong [of "w\<lparr>os_trace := os_trace w @ [Send sk cs]\<rparr>" w] by simp_all
  show ?thesis
  proof (cases "has_inner_dot name")
    case True
    then have "w' = w1" using assms(1) s * by (auto simp: ns_resolv_def deref_def sys_do_def sys_def)
    then show ?thesis using t1 by auto
  next
    case False
    then obtain w2 where w2: "w2 = w1 \<or> (\<exists>r. w2 = put_request p r w1)" "domain_loop env sk (sd_protocol server) p request name (sd_domains server) w2 = Inr (r, w')"
      using assms(1) s * by (auto simp: ns_resolv_def deref_def sys_do_def sys_def bind_r_eq_Inr split: if_splits option.splits)
    then have w2': "os_trace w2 = os_trace w1" "asked w2 = asked w1" by (auto simp: put_request_def intro!: asked_cong)
    from domain_loop_sends [OF w2(2)] show ?thesis using w2' t1 by (elim exE conjE) (intro exI [of _ "Send sk cs # _"], simp)
  qed
qed

text \<open>The channels of the servers of a list that are enabled.\<close>

definition enabled_channels :: "'a dns_world_scheme \<Rightarrow> addr list \<Rightarrow> int set" where
  "enabled_channels w ps = {sk. \<exists>p \<in> set ps. asked w p = Some (True, sk)}"

definition sends_in :: "int set \<Rightarrow> sys_call list \<Rightarrow> bool" where
  "sends_in S t \<longleftrightarrow> (\<forall>sk cs. Send sk cs \<in> set t \<longrightarrow> sk \<in> S)"

lemma sends_in_append: "sends_in S (t @ u) \<longleftrightarrow> sends_in S t \<and> sends_in S u"
  by (auto simp: sends_in_def)

lemma resolv_loop_sends:
  assumes "resolv_loop env q request name ps w = Inr w'"
  shows "\<exists>t. os_trace w' = os_trace w @ t \<and> sends_in (enabled_channels w ps) t \<and> asked w' = asked w"
  using assms
proof (induction ps arbitrary: w)
  case Nil
  then show ?case by (simp add: sends_in_def)
next
  case (Cons p ps)
  obtain data where d: "dw_servers w p = Some data" using Cons.prems by (auto simp: bind_r_eq_Inr deref_def split: option.splits)
  show ?case
  proof (cases "sd_enabled data")
    case False
    then have "resolv_loop env q request name ps w = Inr w'" using Cons.prems d by (simp add: deref_def)
    from Cons.IH [OF this] show ?thesis by (auto simp: sends_in_def enabled_channels_def)
  next
    case True
    define w1 where "w1 = (if sd_watch data = 0 \<and> sd_protocol data = proto_udp
             then let (i, w0) = add_source env (Udp_server p) w in put_server p (data\<lparr>sd_watch := i\<rparr>) w0 else w)"
    have a1: "asked w1 = asked w"
      using d by (intro ext) (auto simp: w1_def asked_def add_source_def sys_def put_server_def)
    have "os_trace w1 = os_trace w @ [] \<or> os_trace w1 = os_trace w @ [Add_source (Udp_server p)]"
      by (simp add: w1_def add_source_def sys_def put_server_def)
    then obtain t1 where t1: "os_trace w1 = os_trace w @ t1" "sends_in {} t1" by (fastforce simp: sends_in_def)
    obtain r w2 where w2: "ns_resolv env p q request name w1 = Inr (r, w2)" "resolv_loop env q request name ps w2 = Inr w'"
      using Cons.prems d True by (auto simp: deref_def w1_def bind_r_eq_Inr)
    have p: "asked w1 p = Some (True, sd_channel data)" using a1 d True by (simp add: asked_def)
    obtain t2 where t2: "os_trace w2 = os_trace w1 @ t2" "\<forall>c \<in> set t2. \<exists>cs. c = Send (sd_channel data) cs" "asked w2 = asked w1"
      using ns_resolv_sends [OF w2(1) p] by blast
    obtain t3 where t3: "os_trace w' = os_trace w2 @ t3" "sends_in (enabled_channels w2 ps) t3" "asked w' = asked w2" using Cons.IH [OF w2(2)] by blast
    have "sd_channel data \<in> enabled_channels w (p # ps)" using p a1 by (auto simp: enabled_channels_def)
    moreover have "enabled_channels w2 ps \<subseteq> enabled_channels w (p # ps)" using t2(3) a1 by (auto simp: enabled_channels_def)
    ultimately have "sends_in (enabled_channels w (p # ps)) (t1 @ t2 @ t3)"
      using t1(2) t2(2) t3(2) by (fastforce simp: sends_in_def)
    then show ?thesis using t1(1) t2(1,3) t3(1,3) a1 by (intro exI [of _ "t1 @ t2 @ t3"]) simp
  qed
qed

lemma sending_keeps_list:
  "domain_loop env sk protocol p request name ds w = Inr (r, w') \<Longrightarrow> server_list w' = server_list w"
  "ns_resolv env s p request name w = Inr (r, w') \<Longrightarrow> server_list w' = server_list w"
  "resolv_loop env p request name ss w = Inr w' \<Longrightarrow> server_list w' = server_list w"
proof -
  show d: "domain_loop env sk protocol p request name ds w = Inr (r, w') \<Longrightarrow> server_list w' = server_list w" for sk protocol ds w w' r
  proof (induction ds arbitrary: w)
    case (Cons d ds)
    from Cons.prems show ?case
      by (auto simp: bind_r_eq_Inr sys_def count_server_def put_request_def Let_def split: if_splits dest!: Cons.IH)
  qed simp
  show n: "ns_resolv env s p request name w = Inr (r, w') \<Longrightarrow> server_list w' = server_list w" for s w w' r
    by (auto simp: ns_resolv_def bind_r_eq_Inr sys_do_def sys_def count_server_def put_request_def split: if_splits dest!: d)
  show "resolv_loop env p request name ss w = Inr w' \<Longrightarrow> server_list w' = server_list w"
  proof (induction ss arbitrary: w)
    case (Cons s ss)
    from Cons.prems show ?case
      by (auto simp: bind_r_eq_Inr add_source_def sys_def put_server_def Let_def split: if_splits dest!: Cons.IH n)
  qed simp
qed

lemma send_response_trace:
  assumes "send_response env sk buf len to protocol w = Inr (b, w')"
  shows "\<exists>t. os_trace w' = os_trace w @ t \<and> sends_in {} t \<and> asked w' = asked w \<and> server_list w' = server_list w"
proof -
  have "w' = w \<or> (\<exists>cs. w' = sys_do env (Sendto sk cs to) w)"
    using assms by (auto simp: send_response_def Let_def bind_r_eq_Inr split: if_splits)
  then show ?thesis by (auto simp: sys_do_def sys_def sends_in_def asked_def fun_eq_iff)
qed

lemma udp_request_sends:
  assumes "udp_listener_event env l failed packet w = Inr (b, w')"
  shows "\<exists>t. os_trace w' = os_trace w @ t \<and> sends_in (enabled_channels w (server_list w)) t \<and> asked w' = asked w \<and> server_list w' = server_list w"
proof -
  obtain ifdata where l: "dw_listeners w l = Some ifdata" using assms by (auto simp: udp_listener_event_def bind_r_eq_Inr deref_def split: option.splits)
  have same: ?thesis if "os_trace w' = os_trace w @ t" "sends_in {} t" "asked w' = asked w" "server_list w' = server_list w" for t
    using that by (auto simp: sends_in_def)
  show ?thesis
  proof (cases "failed \<or> packet = None \<or> length (fst (the packet)) < 2")
    case True
    then consider "failed" | "\<not> failed" "packet = None" | data sa where "\<not> failed" "packet = Some (data, sa)" "length data < 2" by force
    then have "w' = w \<or> w' = put_listener l (ifdata\<lparr>ld_udp_listener_watch := 0\<rparr>) w"
      using assms l by cases (simp_all add: udp_listener_event_def deref_def Let_def)
    then have "os_trace w' = os_trace w \<and> dw_servers w' = dw_servers w \<and> server_list w' = server_list w" by (auto simp: put_listener_def)
    then show ?thesis using asked_cong [of w' w] by (intro same [of "[]"]) (simp_all add: sends_in_def)
  next
    case False
    then obtain data sa where pk: "packet = Some (data, sa)" "\<not> failed" "\<not> min 768 (length data) < 2" by auto
    then obtain err buf1 query where pr: "parse_request (recv_buf 768 data) 0 (min 768 (length data)) 512 = Inr (err, buf1, query)"
      using assms l by (auto simp: udp_listener_event_def deref_def bind_r_eq_Inr Let_def)
    show ?thesis
    proof (cases "err < 0 \<or> server_list w = []")
      case True
      then obtain sk b' where "send_response env sk buf1 (min 768 (length data)) sa proto_udp w = Inr (b', w')"
        using assms l pk pr by (auto simp: udp_listener_event_def deref_def bind_r_eq_Inr Let_def)
      from send_response_trace [OF this] show ?thesis using same by blast
    next
      case False
      show ?thesis
      proof (cases "oe_result env (length (os_trace w)) Alloc < 0")
        case True
        then have "w' = w\<lparr>os_trace := os_trace w @ [Alloc]\<rparr>"
          using assms l pk pr False by (auto simp: udp_listener_event_def deref_def sys_def Let_def)
        then have "os_trace w' = os_trace w @ [Alloc]" "dw_servers w' = dw_servers w" "server_list w' = server_list w" by simp_all
        then show ?thesis using asked_cong [of w' w] by (intro same [of "[Alloc]"]) (simp_all add: sends_in_def)
      next
        case ok: False
        obtain q buf2 w4 where w4: "resolv env q buf2 query w4 = Inr w'" "server_list w4 = server_list w" "dw_servers w4 = dw_servers w"
            "os_trace w4 = os_trace w @ [Alloc, Add_source (Request_timeout q)]"
          using assms l pk pr False ok
          by (auto simp: udp_listener_event_def deref_def sys_def bind_r_eq_Inr new_addr_def add_source_def put_request_def Let_def)
        from resolv_loop_sends [OF w4(1) [unfolded resolv_def]] obtain t where
          "os_trace w' = os_trace w4 @ t" "sends_in (enabled_channels w4 (server_list w4)) t" "asked w' = asked w4" by blast
        moreover have "enabled_channels w4 (server_list w4) = enabled_channels w (server_list w)"
          using asked_cong [OF w4(3)] w4(2) by (simp add: enabled_channels_def)
        moreover have "server_list w' = server_list w" "asked w4 = asked w"
          using sending_keeps_list(3) [OF w4(1) [unfolded resolv_def]] w4(2) asked_cong [OF w4(3)] by simp_all
        ultimately show ?thesis using w4(4) by (intro exI [of _ "[Alloc, Add_source (Request_timeout q)] @ t"]) (simp add: sends_in_def)
      qed
    qed
  qed
qed

lemma enable_loop_effect:
  assumes "enable_loop f ps w = Inr w'" and f: "\<And>d b. f (d\<lparr>sd_enabled := b\<rparr>) = f d"
  shows "os_trace w' = os_trace w \<and> server_list w' = server_list w \<and>
    (\<forall>p. dw_servers w' p = (if p \<in> set ps then map_option (\<lambda>d. d\<lparr>sd_enabled := f d\<rparr>) (dw_servers w p) else dw_servers w p))"
  using assms(1)
proof (induction ps arbitrary: w)
  case (Cons p ps)
  obtain d where d: "dw_servers w p = Some d" using Cons.prems by (auto simp: bind_r_eq_Inr deref_def split: option.splits)
  let ?w = "put_server p (d\<lparr>sd_enabled := f d\<rparr>) w"
  have "enable_loop f ps ?w = Inr w'" using Cons.prems d by (simp add: deref_def)
  from Cons.IH [OF this] show ?case using d f by (auto simp: put_server_def)
qed simp

text \<open>
  After a change of the default service the requests of clients go only to servers of the
  interface of that service.
\<close>

fun udp_queries :: "os_env \<Rightarrow> (addr \<times> bool \<times> (u8 list \<times> sockaddr) option) list \<Rightarrow> 'a dns_world_scheme \<Rightarrow> 'a dns_world_scheme result" where
  "udp_queries env [] w = Inr w"
| "udp_queries env ((l, failed, packet) # qs) w = bind_r (udp_listener_event env l failed packet w) (\<lambda>(b, w1). udp_queries env qs w1)"

lemma udp_queries_send:
  assumes "udp_queries env qs w = Inr w'"
  shows "\<exists>t. os_trace w' = os_trace w @ t \<and> sends_in (enabled_channels w (server_list w)) t"
  using assms
proof (induction qs arbitrary: w)
  case (Cons q qs)
  obtain l failed packet where q: "q = (l, failed, packet)" by (cases q)
  obtain b w1 where 1: "udp_listener_event env l failed packet w = Inr (b, w1)" "udp_queries env qs w1 = Inr w'"
    using Cons.prems by (auto simp: q bind_r_eq_Inr)
  obtain t where t: "os_trace w1 = os_trace w @ t" "sends_in (enabled_channels w (server_list w)) t" "asked w1 = asked w" "server_list w1 = server_list w"
    using udp_request_sends [OF 1(1)] by blast
  then have "enabled_channels w1 (server_list w1) = enabled_channels w (server_list w)" by (simp add: enabled_channels_def)
  then obtain u where "os_trace w' = os_trace w1 @ u" "sends_in (enabled_channels w (server_list w)) u" using Cons.IH [OF 1(2)] by auto
  then have "os_trace w' = os_trace w @ t @ u \<and> sends_in (enabled_channels w (server_list w)) (t @ u)" using t(1,2) by (simp add: sends_in_append)
  then show ?case by blast
qed (simp add: sends_in_def)

lemma default_interface_only:
  assumes "dnsproxy_default_changed (Some (Some interface)) w = Inr w1" and "udp_queries env qs w1 = Inr w2"
    and "Send sk cs \<in> set (drop (length (os_trace w1)) (os_trace w2))"
  shows "\<exists>p d. p \<in> set (server_list w) \<and> dw_servers w p = Some d \<and> sd_interface d = Some interface \<and> sd_channel d = sk"
proof -
  have e: "server_list w1 = server_list w" "\<And>p. p \<in> set (server_list w) \<Longrightarrow> dw_servers w1 p =
      map_option (\<lambda>d. d\<lparr>sd_enabled := (sd_interface d = Some interface)\<rparr>) (dw_servers w p)"
    using enable_loop_effect [of "\<lambda>d. sd_interface d = Some interface" "server_list w" w w1] assms(1)
    by (simp_all add: dnsproxy_default_changed_def)
  obtain t where "os_trace w2 = os_trace w1 @ t" "sends_in (enabled_channels w1 (server_list w1)) t" using udp_queries_send [OF assms(2)] by blast
  then have "sk \<in> enabled_channels w1 (server_list w)" using assms(3) e(1) by (auto simp: sends_in_def)
  then show ?thesis using e(2) by (auto simp: enabled_channels_def asked_def)
qed

section \<open>Requests without an answer\<close>

lemma udp_timeout_silent:
  assumes "dw_requests w p = Some req" and "rq_resp req = None" and "rq_request req = None"
  shows "request_timeout env p w = Inr (free_request p (put_request p (req\<lparr>rq_numserv := rq_numserv req - 1\<rparr>)
    (w\<lparr>request_list := remove1 p (request_list w)\<rparr>)))"
  using assms by (simp add: request_timeout_def deref_def Let_def)

lemma removed_server_faults:
  assumes "find_server interface s proto_udp w = Inr (Some p)" and "dw_servers w p = Some d" and "sd_domains d \<noteq> []" and "s \<noteq> localhost"
  shows "dnsproxy_remove env interface domain (Some s) w = Inl UseAfterFree"
  using assms by (simp add: dnsproxy_remove_def remove_server_def destroy_server_def deref_def free_domains_result Let_def)

section \<open>Servers that are removed\<close>

text \<open>The servers of the list are live, and addresses behind the last one are free.\<close>

definition servers_wf :: "'a dns_world_scheme \<Rightarrow> bool" where
  "servers_wf w \<longleftrightarrow> (\<forall>p \<in> set (server_list w). dw_servers w p \<noteq> None \<and> p < os_next w)"

lemma server_scan_append:
  "server_scan w i s pr (ps @ qs) = bind_r (server_scan w i s pr ps) (\<lambda>r. case r of None \<Rightarrow> server_scan w i s pr qs | Some p \<Rightarrow> Inr (Some p))"
proof (induction ps)
  case (Cons p ps)
  show ?case by (cases "dw_servers w p") (auto simp: deref_def Cons.IH)
qed simp

lemma server_scan_cong: "(\<And>p. p \<in> set ps \<Longrightarrow> dw_servers w' p = dw_servers w p) \<Longrightarrow> server_scan w' i s pr ps = server_scan w i s pr ps"
proof (induction ps)
  case (Cons p ps)
  have e: "dw_servers w' p = dw_servers w p" and "server_scan w' i s pr ps = server_scan w i s pr ps" using Cons by simp_all
  then show ?case by (simp only: server_scan.simps deref_def e)
qed simp

lemma open_server_keeps:
  assumes "open_server env interface s pr w = (sock, w1)"
  shows "dw_servers w1 = dw_servers w \<and> server_list w1 = server_list w \<and> os_next w1 = os_next w"
  using assms by (auto simp: open_server_def sys_def sys_do_def Let_def split: if_splits option.splits)

lemma create_server_effect:
  assumes "create_server env interface domain s proto_udp w = Inr (Some p, w1)"
  shows "p = os_next w \<and> server_list w1 = server_list w @ [p] \<and> (\<exists>d. dw_servers w1 = (dw_servers w)(p \<mapsto> d) \<and> sd_interface d = interface \<and>
    sd_server d = s \<and> sd_protocol d = proto_udp \<and> sd_domains d = (case domain of None \<Rightarrow> [] | Some x \<Rightarrow> [x]) \<and> sd_enabled d)"
proof -
  obtain sock w0 where o: "open_server env interface s proto_udp w = (sock, w0)" by fastforce
  then obtain sk where sk: "sock = Some sk" using assms by (auto simp: create_server_def Let_def split: option.splits if_splits)
  show ?thesis using assms open_server_keeps [OF o] o sk
    by (auto simp: create_server_def Let_def new_addr_def add_source_def sys_def put_server_def bind_r_eq_Inr split: if_splits)
qed

lemma new_server_remove_faults:
  assumes wf: "servers_wf w" and new: "find_server interface s proto_udp w = Inr None" and s: "s \<noteq> localhost"
    and a: "dnsproxy_append env interface (Some d) (Some s) w = Inr (0, w1)"
  shows "dnsproxy_remove env' interface domain (Some s) w1 = Inl UseAfterFree"
proof -
  obtain p where c: "create_server env interface (Some d) s proto_udp w = Inr (Some p, w1)"
    using a new s by (auto simp: dnsproxy_append_def bind_r_eq_Inr EIO_def split: if_splits)
  from create_server_effect [OF c] obtain data where p: "p = os_next w" "server_list w1 = server_list w @ [p]"
      "dw_servers w1 = (dw_servers w)(p \<mapsto> data)" "sd_interface data = interface" "sd_server data = s" "sd_protocol data = proto_udp" "sd_domains data = [d]"
    by auto
  have "server_scan w1 interface s proto_udp (server_list w) = Inr None"
    using new wf p by (subst server_scan_cong [of _ w1 w]) (auto simp: find_server_def servers_wf_def)
  then have "find_server interface s proto_udp w1 = Inr (Some p)"
    using p by (cases interface) (simp_all add: find_server_def server_scan_append deref_def)
  then show ?thesis using p s by (intro removed_server_faults [of _ _ _ p data]) simp_all
qed

section \<open>Listeners that are removed\<close>

lemma free_requests_effect:
  assumes "free_requests ps w = Inr w'"
  shows "dw_requests w' = dw_requests w |` (- set ps) \<and> os_sources w' = os_sources w \<and> request_list w' = request_list w \<and> dw_listeners w' = dw_listeners w"
  using assms by (induction ps arbitrary: w) (auto simp: bind_r_eq_Inr free_request_def restrict_map_def fun_eq_iff)

lemma resolvfile_remove_keeps:
  "dw_requests (snd (resolvfile_remove env i d s w)) = dw_requests w" "os_sources (snd (resolvfile_remove env i d s w)) = os_sources w"
  "request_list (snd (resolvfile_remove env i d s w)) = request_list w" "dw_listeners (snd (resolvfile_remove env i d s w)) = dw_listeners w"
  by (auto simp: resolvfile_remove_def resolvfile_export_def sys_def sys_do_def Let_def)

lemma removed_listener_timers:
  assumes r: "dnsproxy_remove_listener env interface w = Inr w1" and l: "listener_table w = Some table" "map_of table interface = Some l"
      "dw_listeners w l = Some ld"
    and p: "p \<in> set (request_list w)" "(t, Request_timeout p) \<in> set (os_sources w)" "t \<noteq> ld_udp_listener_watch ld" "t \<noteq> ld_tcp_listener_watch ld"
  shows "(t, Request_timeout p) \<in> set (os_sources w1) \<and> request_timeout env' p w1 = Inl UseAfterFree"
proof -
  let ?w0 = "if ld_ifname ld = ''lo'' then snd (resolvfile_remove env (Some ''lo'') None (Some localhost) w) else w"
  obtain w2 w3 w4 w5 where *: "free_requests (request_pending_list ?w0) ?w0 = Inr w2" "free_requests (request_list w2) (w2\<lparr>request_pending_list := []\<rparr>) = Inr w3"
      "destroy_tcp_listener env l (w3\<lparr>request_list := []\<rparr>) = Inr w4" "destroy_udp_listener env l w4 = Inr w5"
      "w1 = w5\<lparr>listener_table := Some (filter (\<lambda>e. fst e \<noteq> interface) table), dw_listeners := (dw_listeners w5)(l := None)\<rparr>"
    using r l by (auto simp: dnsproxy_remove_listener_def destroy_listener_def bind_r_eq_Inr through_def deref_def Let_def)
  have "request_list w2 = request_list w" "os_sources w2 = os_sources w" "dw_listeners w3 = dw_listeners w"
    using free_requests_effect [OF *(1)] free_requests_effect [OF *(2)] resolvfile_remove_keeps by (simp_all split: if_splits)
  moreover have "dw_requests w3 p = None" "os_sources w3 = os_sources w2"
    using free_requests_effect [OF *(2)] p(1) calculation(1) by simp_all
  moreover have "dw_requests w5 = dw_requests w3" "(t, Request_timeout p) \<in> set (os_sources w5)"
    using *(3,4) l(3) p calculation
    by (auto simp: destroy_tcp_listener_def destroy_udp_listener_def deref_def bind_r_eq_Inr sys_do_def sys_def remove_source_if_def remove_source_def)
  ultimately show ?thesis using p *(5) by (auto simp: request_timeout_def deref_def)
qed

section \<open>Replies without the expected name\<close>

lemma forward_short_name:
  assumes R: "R = rhdr @ bs @ 0 # tail" "length rhdr = 12" "0 \<notin> set bs" "bs = [] \<or> length bs \<le> unat (hd bs)" "length R \<le> 4096"
    and p: "find_request (of_bytes16 [rhdr ! 0, rhdr ! 1]) w = Inr (Some p)" "dw_requests w p = Some req" "rq_append_domain req"
    and rc: "rhdr ! 3 AND 0x0F = 0 \<or> rq_resp req = None"
  shows "udp_server_event env s False R w = Inl BadLength"
proof -
  let ?mem = "recv_buf 4096 R" and ?id = "known (bytes16 (rq_srcid req))"
  have lR: "length ?mem = 4096" using R(5) by simp
  have h: "holds ?mem 0 R" by (rule holds_recv_buf) (use R(5) in simp)
  have ld: "load ?mem 0 = Inr (rhdr ! 0)" "load ?mem (Suc 0) = Inr (rhdr ! 1)"
    using holds_load [OF h, of 0] holds_load [OF h, of 1] R(1,2) by (auto simp: nth_append)
  have st: "store ?mem 0 (id_cells (rq_srcid req)) = Inr (poke 0 ?id ?mem)" using lR by (simp add: store_def id_cells_bytes)
  have "poke 0 ?id ?mem ! 3 = Some (rhdr ! 3)" using lR holds_nth [OF h, of 3] R(1,2) by (simp add: nth_poke nth_append)
  then have ld3: "load (poke 0 ?id ?mem) 3 = Inr (rhdr ! 3)" using lR by (intro load_known) (simp_all add: length_poke)
  have "holds ?mem 12 (bs @ [0])" using h R(1,2) by (simp add: holds_append holds_Cons)
  then have "holds (poke 0 ?id ?mem) 12 (bs @ [0])" by (rule holds_poke_other) (simp_all add: lR)
  moreover have "length bs < 2 ^ 31" "length R < 2 ^ 31" using R(1,5) by simp_all
  ultimately have "strip_domain (poke 0 ?id ?mem) (length R) 12 = Inl BadLength" using R(3,4) by (intro strip_domain_faults) simp_all
  then have "forward_dns_reply env ?mem (length R) proto_udp w = Inl BadLength"
    using p rc ld st ld3 by (auto simp: forward_dns_reply_def keep_reply_def deref_def put_request_def Let_def)
  moreover have "min 4096 (length R) = length R" using R(5) by simp
  moreover have "\<not> length R < 12" using R(1,2) by simp
  ultimately show ?thesis by (simp add: udp_server_event_def)
qed

section \<open>An example\<close>

text \<open>A client of the loopback interface asks for the host \<open>foo\<close>; the server of \<open>eth0\<close> has a domain.\<close>

definition dns_env :: os_env where
  "dns_env = \<lparr>oe_result = (\<lambda>n c. case c of Write fd s \<Rightarrow> int (length s) | Add_source src \<Rightarrow> int n + 1 | _ \<Rightarrow> 0)\<rparr>"

definition dns_server :: server_data where
  "dns_server = \<lparr>sd_interface = Some ''eth0'', sd_domains = [''home.lan''], sd_server = ''10.0.0.1'', sd_protocol = proto_udp, sd_channel = 7,
     sd_watch = 9, sd_timeout = 0, sd_enabled = True, sd_connected = False, sd_incoming_reply = None\<rparr>"

definition dns_request :: request_data where
  "dns_request = \<lparr>rq_sa = [127, 0, 0, 1], rq_client_sk = 0, rq_protocol = proto_udp, rq_srcid = 0x3412, rq_dstid = 2, rq_altid = 3, rq_timeout = 4,
     rq_numserv = 0, rq_numresp = 0, rq_request = None, rq_request_len = 21, rq_name = None, rq_resp = None, rq_resplen = 0, rq_ifdata = 0,
     rq_append_domain = True\<rparr>"

definition dns_listener :: listener_data where
  "dns_listener = \<lparr>ld_ifname = ''lo'', ld_udp_listener_channel = Some 5, ld_udp_listener_watch = 1, ld_tcp_listener_channel = Some 6, ld_tcp_listener_watch = 2\<rparr>"

definition dns_example :: dns_world where
  "dns_example = \<lparr>os_trace = [], os_sources = [(1, Udp_listener 0), (2, Tcp_listener 0), (9, Udp_server 1), (4, Request_timeout 2)], os_next = 3,
     resolvfile_list = [], resolv_conf = [], dw_servers = [1 \<mapsto> dns_server], server_list = [1], dw_requests = [2 \<mapsto> dns_request], request_list = [2],
     request_pending_list = [], request_id = 2, dw_listeners = [0 \<mapsto> dns_listener], listener_table = Some [(''lo'', 0)]\<rparr>"

definition foo_header :: "u8 list" where "foo_header = [2, 0, 1, 0, 0, 1, 0, 0, 0, 0, 0, 0]"
definition foo_label :: "u8 list" where "foo_label = [102, 111, 111]"
definition foo_tail :: "u8 list" where "foo_tail = [0, 1, 0, 1]"
definition foo_query :: "u8 list" where "foo_query = foo_header @ wire [foo_label] @ 0 # foo_tail"

text \<open>The reply of the server to the second query, and what the client gets.\<close>

definition foo_domain :: "u8 list list" where "foo_domain = [[104, 111, 109, 101], [108, 97, 110]]"
definition foo_reply_header :: "u8 list" where "foo_reply_header = [3, 0, 0x81, 0x80, 0, 1, 0, 0, 0, 0, 0, 0]"
definition foo_reply :: "u8 list" where "foo_reply = foo_reply_header @ wire (foo_label # foo_domain) @ 0 # foo_tail"
definition foo_answer :: "u8 list" where "foo_answer = [0x12, 0x34, 0x81, 0x80, 0, 1, 0, 0, 0, 0, 0, 0] @ wire [foo_label] @ 0 # foo_tail"

text \<open>The states after a change of the default service and a query, with a second server, and without the listener.\<close>

definition dns_eth0 :: dns_world where
  "dns_eth0 = projr (dnsproxy_default_changed (Some (Some ''eth0'')) dns_example)"

definition dns_asked :: "bool \<times> dns_world" where
  "dns_asked = projr (udp_listener_event dns_env 0 False (Some (foo_query, [127, 0, 0, 1])) dns_eth0)"

definition dns_two_servers :: "int \<times> dns_world" where
  "dns_two_servers = projr (dnsproxy_append dns_env (Some ''wlan0'') (Some ''corp.example'') (Some ''10.1.0.1'') dns_example)"

definition dns_no_listener :: dns_world where
  "dns_no_listener = projr (dnsproxy_remove_listener dns_env ''lo'' dns_example)"

section \<open>Properties\<close>

text \<open>
  C10. A well-formed query for a name of at most one label is sent on to a server over UDP unchanged, and then once more for every domain of the
  server, in the order of the domains: as the same query under the second identifier of the request, with the labels of
  the domain behind those of the name. The counter of the expected replies counts all of them. This holds when every domain of
  the server has at least four characters and no dot at its end, when the query with the
  domain fits into the 1024 bytes of the code's array, and when the sends succeed: a shorter domain or a failed send ends the loop with an error.\<close>

theorem query_sent_with_domains:
  assumes "holds request 0 Q" and "Q = hdr @ wire ls @ 0 # tail" and "query_ok hdr ls" and "\<forall>l \<in> set ls. no_dot l" and "length ls \<le> 1"
    and "dw_servers w s = Some server" and "sd_protocol server = proto_udp"
    and "\<forall>d \<in> set (sd_domains server). domain_ok d \<and> length Q + length d + 1 \<le> 1024"
    and "dw_requests w p = Some req" and "rq_request_len req = length Q"
    and "\<And>n cs. oe_result env n (Send (sd_channel server) cs) \<ge> 0"
  shows "\<exists>w'. ns_resolv env s p request (label_name ls) w = Inr (0, w') \<and>
    os_trace w' = os_trace w @ Send (sd_channel server) (known Q) #
      map (\<lambda>d. Send (sd_channel server) (known (query_with_domain (rq_altid req) hdr ls d tail))) (sd_domains server) \<and>
    dw_requests w' = (dw_requests w)(p \<mapsto> req\<lparr>rq_append_domain := rq_append_domain req \<or> sd_domains server \<noteq> [],
      rq_numserv := rq_numserv req + 1 + of_nat (length (sd_domains server))\<rparr>)"
  using assms by (rule ns_resolv_trace)

theorem query_sent_with_domains_witness:
  "\<exists>w'. ns_resolv dns_env 1 2 (recv_buf 768 foo_query) (label_name [foo_label]) dns_example = Inr (0, w') \<and>
    os_trace w' = [Send 7 (known foo_query), Send 7 (known (query_with_domain 3 foo_header [foo_label] ''home.lan'' foo_tail))]"
proof -
  have "holds (recv_buf 768 foo_query) 0 foo_query" by (rule holds_recv_buf) code_simp
  moreover have "query_ok foo_header [foo_label]" "\<forall>l \<in> set [foo_label]. no_dot l" by code_simp+
  moreover have "\<forall>d \<in> set (sd_domains dns_server). domain_ok d \<and> length foo_query + length d + 1 \<le> 1024" by code_simp
  moreover have "rq_request_len dns_request = length foo_query" "sd_protocol dns_server = proto_udp" by code_simp+
  moreover have "dw_servers dns_example 1 = Some dns_server" "dw_requests dns_example 2 = Some dns_request" "os_trace dns_example = []"
    by (simp_all add: dns_example_def)
  ultimately show ?thesis
    using query_sent_with_domains [of "recv_buf 768 foo_query" foo_query foo_header "[foo_label]" foo_tail dns_example 1 dns_server 2 dns_request dns_env]
    by (auto simp: foo_query_def dns_env_def dns_server_def dns_request_def)
qed

text \<open>
  C11. A reply without an error to a query that was sent with domains: the client gets the reply under its own identifier, with the
  domain cut out of the name in the question, so that it sees the question that it asked; the request is taken off the
  list and freed.\<close>

theorem reply_cut_to_question:
  assumes "R = rhdr @ wire (l # ds) @ 0 # tail" and "length rhdr = 12" and "\<forall>m \<in> set (l # ds). label_ok m" and "length R + length l + 1 \<le> 4096"
    and "rhdr ! 3 AND 0x0F = 0"
    and "find_request (of_bytes16 [rhdr ! 0, rhdr ! 1]) w = Inr (Some p)" and "dw_requests w p = Some req" and "rq_append_domain req"
    and "dw_listeners w (rq_ifdata req) = Some ld" and "ld_udp_listener_channel ld = Some sk"
    and "oe_result env (length (os_trace w)) Alloc \<ge> 0"
    and "out = bytes16 (rq_srcid req) @ drop 2 rhdr @ wire [l] @ 0 # tail"
  shows "\<exists>w'. udp_server_event env s False R w = Inr (True, w') \<and>
    os_trace w' = os_trace w @ [Alloc, Sendto sk (known out) (rq_sa req)] \<and>
    request_list w' = remove1 p (request_list w) \<and> dw_requests w' = (dw_requests w)(p := None)"
  using assms by (rule forward_cut_reply)

theorem reply_cut_to_question_witness:
  "\<exists>w'. udp_server_event dns_env 1 False foo_reply dns_example = Inr (True, w') \<and>
    os_trace w' = [Alloc, Sendto 5 (known foo_answer) [127, 0, 0, 1]] \<and> request_list w' = []"
proof -
  have "\<forall>m \<in> set (foo_label # foo_domain). label_ok m" "length foo_reply + length foo_label + 1 \<le> 4096" "length foo_reply_header = 12" by code_simp+
  moreover have "foo_reply_header ! 3 AND 0x0F = 0" "find_request (of_bytes16 [foo_reply_header ! 0, foo_reply_header ! 1]) dns_example = Inr (Some 2)"
    by code_simp+
  moreover have "dw_requests dns_example 2 = Some dns_request" "dw_listeners dns_example (rq_ifdata dns_request) = Some dns_listener"
    "ld_udp_listener_channel dns_listener = Some 5" "oe_result dns_env (length (os_trace dns_example)) Alloc \<ge> 0"
    "rq_append_domain dns_request" by (simp_all add: dns_example_def dns_request_def dns_listener_def dns_env_def)
  moreover have "foo_answer = bytes16 (rq_srcid dns_request) @ drop 2 foo_reply_header @ wire [foo_label] @ 0 # foo_tail" by code_simp
  ultimately have "\<exists>w'. udp_server_event dns_env 1 False foo_reply dns_example = Inr (True, w') \<and>
      os_trace w' = os_trace dns_example @ [Alloc, Sendto 5 (known foo_answer) (rq_sa dns_request)] \<and>
      request_list w' = remove1 2 (request_list dns_example) \<and> dw_requests w' = (dw_requests dns_example)(2 := None)"
    by (intro reply_cut_to_question [OF foo_reply_def])
  moreover have "os_trace dns_example = []" "request_list dns_example = [2]" "rq_sa dns_request = [127, 0, 0, 1]"
    by (simp_all add: dns_example_def dns_request_def)
  ultimately show ?thesis by auto
qed



text \<open>
  Two requests that are less than 32767 requests apart have four different identifiers, the first and the second identifier of each,
  and none of them is zero: a reply to one of them is never taken for a reply to another one.\<close>

lemma request_ids_distinct:
  assumes "i < j" and "j - i < 32767"
  shows "distinct [nth_id i, nth_id i + 1, nth_id j, nth_id j + 1] \<and> nth_id i \<noteq> 0"
  using assms by (rule nth_id_distinct)

lemma request_ids_distinct_witness: "distinct [nth_id 0, nth_id 0 + 1, nth_id 3, nth_id 3 + 1] \<and> nth_id 0 \<noteq> 0"
  by (rule request_ids_distinct) simp_all

text \<open>
  C14. After a change of the default service to one that uses an interface, any number of queries that clients send over UDP: every packet that
  the proxy sends to a server for them goes out on the channel of a server that belongs to the interface. (Queries over TCP, and servers that are
  added after the change, which start enabled, are not covered.)\<close>

theorem queries_stay_on_default_interface:
  assumes "dnsproxy_default_changed (Some (Some interface)) w = Inr w1" and "udp_queries env qs w1 = Inr w2"
    and "Send sk cs \<in> set (drop (length (os_trace w1)) (os_trace w2))"
  shows "\<exists>p d. p \<in> set (server_list w) \<and> dw_servers w p = Some d \<and> sd_interface d = Some interface \<and> sd_channel d = sk"
  using assms by (rule default_interface_only)

theorem queries_stay_on_default_interface_witness:
  "\<exists>p d. p \<in> set (server_list dns_example) \<and> dw_servers dns_example p = Some d \<and> sd_interface d = Some ''eth0'' \<and> sd_channel d = 7"
proof -
  have "\<not> isl (dnsproxy_default_changed (Some (Some ''eth0'')) dns_example)" by code_simp
  then have 1: "dnsproxy_default_changed (Some (Some ''eth0'')) dns_example = Inr dns_eth0" unfolding dns_eth0_def by (rule sum.collapse(2) [symmetric])
  have "\<not> isl (udp_listener_event dns_env 0 False (Some (foo_query, [127, 0, 0, 1])) dns_eth0)" by code_simp
  then have "udp_listener_event dns_env 0 False (Some (foo_query, [127, 0, 0, 1])) dns_eth0 = Inr (fst dns_asked, snd dns_asked)"
    unfolding dns_asked_def prod.collapse by (rule sum.collapse(2) [symmetric])
  then have 2: "udp_queries dns_env [(0, False, Some (foo_query, [127, 0, 0, 1]))] dns_eth0 = Inr (snd dns_asked)" by (simp add: split_beta)
  have "Send 7 (known (bytes16 4 @ drop 2 foo_query)) \<in> set (drop (length (os_trace dns_eth0)) (os_trace (snd dns_asked)))" by code_simp
  then show ?thesis by (rule queries_stay_on_default_interface [OF 1 2])
qed

text \<open>
  A reply to a request for which queries with domains were sent, whose question has a name that is empty or has fewer bytes
  than its first length byte says: the length of the domain wraps around, and the copy that should cut it out gets a negative length.\<close>

lemma reply_with_short_name_faults:
  assumes "R = rhdr @ bs @ 0 # tail" and "length rhdr = 12" and "0 \<notin> set bs" and "bs = [] \<or> length bs \<le> unat (hd bs)" and "length R \<le> 4096"
    and "find_request (of_bytes16 [rhdr ! 0, rhdr ! 1]) w = Inr (Some p)" and "dw_requests w p = Some req" and "rq_append_domain req"
    and "rhdr ! 3 AND 0x0F = 0 \<or> rq_resp req = None"
  shows "udp_server_event env s False R w = Inl BadLength"
  using assms by (rule forward_short_name)

lemma reply_with_short_name_faults_witness:
  "udp_server_event dns_env 1 False (foo_reply_header @ 0 # foo_tail) dns_example = Inl BadLength"
proof -
  have "length foo_reply_header = 12" "length (foo_reply_header @ [] @ 0 # foo_tail) \<le> 4096"
    "find_request (of_bytes16 [foo_reply_header ! 0, foo_reply_header ! 1]) dns_example = Inr (Some 2)" by code_simp+
  moreover have "dw_requests dns_example 2 = Some dns_request" "rq_append_domain dns_request" "rq_resp dns_request = None"
    by (simp_all add: dns_example_def dns_request_def)
  ultimately show ?thesis
    using reply_with_short_name_faults [of _ foo_reply_header "[]" foo_tail dns_example 2 dns_request dns_env 1] by simp
qed

text \<open>
  C36. A server that was added to the proxy together with a domain cannot be removed: the loop that frees its domains goes on from the list
  node that it has just freed.\<close>

theorem server_with_domain_remove_faults:
  assumes "servers_wf w" and "find_server interface s proto_udp w = Inr None" and "s \<noteq> localhost"
    and "dnsproxy_append env interface (Some d) (Some s) w = Inr (0, w1)"
  shows "dnsproxy_remove env' interface domain (Some s) w1 = Inl UseAfterFree"
  using assms by (rule new_server_remove_faults)

theorem server_with_domain_remove_faults_witness:
  "dnsproxy_remove dns_env (Some ''wlan0'') None (Some ''10.1.0.1'') (snd dns_two_servers) = Inl UseAfterFree"
proof -
  have "\<not> isl (dnsproxy_append dns_env (Some ''wlan0'') (Some ''corp.example'') (Some ''10.1.0.1'') dns_example)" "fst dns_two_servers = 0" by code_simp+
  then have "dnsproxy_append dns_env (Some ''wlan0'') (Some ''corp.example'') (Some ''10.1.0.1'') dns_example = Inr (0, snd dns_two_servers)"
    unfolding dns_two_servers_def by (metis sum.collapse(2) prod.collapse)
  moreover have "servers_wf dns_example" by (simp add: servers_wf_def dns_example_def)
  moreover have "find_server (Some ''wlan0'') ''10.1.0.1'' proto_udp dns_example = Inr None" by code_simp
  ultimately show ?thesis by (intro server_with_domain_remove_faults) simp_all
qed

text \<open>
  C37. Removing a listener frees every request that waits for a reply but not its timer: the timer stays in the main loop,
  and its callback reads the freed request.\<close>

theorem removed_listener_leaves_timers:
  assumes "dnsproxy_remove_listener env interface w = Inr w1" and "listener_table w = Some table" and "map_of table interface = Some l"
    and "dw_listeners w l = Some ld" and "p \<in> set (request_list w)" and "(t, Request_timeout p) \<in> set (os_sources w)"
    and "t \<noteq> ld_udp_listener_watch ld" and "t \<noteq> ld_tcp_listener_watch ld"
  shows "(t, Request_timeout p) \<in> set (os_sources w1) \<and> request_timeout env' p w1 = Inl UseAfterFree"
  using assms by (rule removed_listener_timers)

theorem removed_listener_leaves_timers_witness:
  "(4, Request_timeout 2) \<in> set (os_sources dns_no_listener) \<and> request_timeout dns_env 2 dns_no_listener = Inl UseAfterFree"
proof -
  have "\<not> isl (dnsproxy_remove_listener dns_env ''lo'' dns_example)" by code_simp
  then have "dnsproxy_remove_listener dns_env ''lo'' dns_example = Inr dns_no_listener"
    unfolding dns_no_listener_def by (rule sum.collapse(2) [symmetric])
  then show ?thesis
    by (rule removed_listener_leaves_timers [where table = "[(''lo'', 0)]" and l = 0 and ld = dns_listener])
      (simp_all add: dns_example_def dns_listener_def)
qed

end
