(* ===== verification/Resolver_State.thy ===== *)
theory Resolver_State
  imports Resolver
begin

text \<open>
  The resolver without the DNS proxy as a state machine: its invariant, which every call and every
  expired timer keeps, that none of them faults, and the content of \<^verbatim>\<open>/etc/resolv.conf\<close> against a reference.
\<close>

section \<open>The content of the file\<close>

text \<open>What the file should say: the last six domains in one line, and the last three servers, the newest first.\<close>

definition domains_of :: "resolvfile_entry list \<Rightarrow> string list" where
  "domains_of es = List.map_filter rf_domain (rev es)"

definition servers_of :: "resolvfile_entry list \<Rightarrow> string list" where
  "servers_of es = List.map_filter rf_server (rev es)"

definition resolv_reference :: "resolvfile_entry list \<Rightarrow> string" where
  "resolv_reference es = ''# Generated by Connection Manager'' @ newline @
     (let ds = take 6 (domains_of es) in if ds = [] then [] else ''search '' @ concat (map (\<lambda>d. d @ '' '') ds) @ newline) @
     concat (map (\<lambda>s. ''nameserver '' @ s @ newline) (take 3 (servers_of es)))"

lemma search_loop_reference:
  "search_loop es count content =
    (let ds = take (6 - count) (List.map_filter rf_domain es) in
     (count + length ds, content @ (if count = 0 \<and> ds \<noteq> [] then ''search '' else []) @ concat (map (\<lambda>d. d @ '' '') ds)))"
proof (induction es arbitrary: count content)
  case (Cons e es)
  show ?case
  proof (cases "count < 6")
    case True
    then obtain n where n: "6 - count = Suc n" "6 - Suc count = n" by (metis Suc_diff_Suc)
    show ?thesis using True Cons.IH n by (cases "rf_domain e") (auto simp: MAXDNSRCH_def Let_def List.map_filter_simps)
  qed (simp add: MAXDNSRCH_def Let_def)
qed (simp add: List.map_filter_simps)

lemma nameserver_loop_reference:
  "nameserver_loop es count content = content @ concat (map (\<lambda>s. ''nameserver '' @ s @ newline) (take (3 - count) (List.map_filter rf_server es)))"
proof (induction es arbitrary: count content)
  case (Cons e es)
  show ?case
  proof (cases "count < 3")
    case True
    then obtain n where n: "3 - count = Suc n" "3 - Suc count = n" by (metis Suc_diff_Suc)
    show ?thesis using True Cons.IH n by (cases "rf_server e") (auto simp: MAXNS_def List.map_filter_simps)
  qed (simp add: MAXNS_def)
qed (simp add: List.map_filter_simps)

lemma resolvfile_content_reference: "resolvfile_content es = resolv_reference es"
  by (auto simp: resolvfile_content_def resolv_reference_def search_loop_reference nameserver_loop_reference Let_def domains_of_def servers_of_def)

section \<open>The invariant\<close>

text \<open>GLib gives every source an identifier that is positive and that was not used before.\<close>

definition timers_ok :: "os_env \<Rightarrow> bool" where
  "timers_ok env \<longleftrightarrow> (\<forall>n s. 0 < oe_result env n (Add_source s)) \<and>
     (\<forall>n m s t. n \<noteq> m \<longrightarrow> oe_result env n (Add_source s) \<noteq> oe_result env m (Add_source t))"

definition files_ok :: "os_env \<Rightarrow> bool" where
  "files_ok env \<longleftrightarrow> (\<forall>n path. 0 \<le> oe_result env n (Open_file path)) \<and> (\<forall>n fd. 0 \<le> oe_result env n (Ftruncate fd)) \<and>
     (\<forall>n fd s. oe_result env n (Write fd s) = int (length s))"

text \<open>The entries of the list are live, and every live entry is in the list once.\<close>

definition entries_wf :: "'a resolver_world_scheme \<Rightarrow> bool" where
  "entries_wf w \<longleftrightarrow> distinct (entry_list w) \<and> dom (rs_entries w) = set (entry_list w) \<and> (\<forall>p \<in> set (entry_list w). p < os_next w)"

text \<open>The identifiers that the first calls gave.\<close>

definition issued :: "os_env \<Rightarrow> nat \<Rightarrow> nat \<Rightarrow> bool" where
  "issued env n i \<longleftrightarrow> (\<exists>k < n. \<exists>s. i = nat (oe_result env k (Add_source s)))"

lemma issued_mono: "issued env n i \<Longrightarrow> n \<le> m \<Longrightarrow> issued env m i"
  unfolding issued_def by (elim exE conjE) (intro exI conjI, erule (1) less_le_trans)

text \<open>The sources of the main loop are exactly the timers of the entries with a lifetime.\<close>

definition timer_set :: "(addr \<rightharpoonup> entry_data) \<Rightarrow> (nat \<times> event_source) set" where
  "timer_set m = {(ed_timeout e, Resolver_expire p) |p e. m p = Some e \<and> ed_timeout e \<noteq> 0}"

lemma timer_set_update:
  assumes "m p = None"
  shows "timer_set (m(p \<mapsto> e)) = (if ed_timeout e = 0 then timer_set m else insert (ed_timeout e, Resolver_expire p) (timer_set m))"
proof -
  have "x \<in> timer_set (m(p \<mapsto> e)) \<longleftrightarrow> x \<in> timer_set m \<or> ed_timeout e \<noteq> 0 \<and> x = (ed_timeout e, Resolver_expire p)" for x
  proof
    assume "x \<in> timer_set m \<or> ed_timeout e \<noteq> 0 \<and> x = (ed_timeout e, Resolver_expire p)"
    then have "\<exists>q d. x = (ed_timeout d, Resolver_expire q) \<and> (m(p \<mapsto> e)) q = Some d \<and> ed_timeout d \<noteq> 0"
    proof
      assume "x \<in> timer_set m"
      then obtain q d where q: "x = (ed_timeout d, Resolver_expire q)" "m q = Some d" "ed_timeout d \<noteq> 0" unfolding timer_set_def by blast
      then have "q \<noteq> p" using assms by auto
      then show ?thesis using q by (intro exI [of _ q] exI [of _ d]) simp
    qed auto
    then show "x \<in> timer_set (m(p \<mapsto> e))" unfolding timer_set_def by blast
  qed (auto simp: timer_set_def split: if_splits)
  then show ?thesis by auto
qed

definition timers_wf :: "os_env \<Rightarrow> 'a resolver_world_scheme \<Rightarrow> bool" where
  "timers_wf env w \<longleftrightarrow>
     set (os_sources w) = timer_set (rs_entries w) \<and>
     distinct (map fst (os_sources w)) \<and>
     (\<forall>i \<in> fst ` set (os_sources w). issued env (length (os_trace w)) i)"

text \<open>Every line of the file belongs to an entry.\<close>

definition listed :: "resolvfile_entry \<Rightarrow> entry_data \<Rightarrow> bool" where
  "listed f e \<longleftrightarrow> ed_interface e = Some (rf_interface f) \<and> ed_domain e = rf_domain f \<and> ed_server e = rf_server f"

definition file_wf :: "os_env \<Rightarrow> 'a resolver_world_scheme \<Rightarrow> bool" where
  "file_wf env w \<longleftrightarrow> (\<forall>f \<in> set (resolvfile_list w). \<exists>e \<in> ran (rs_entries w). listed f e) \<and>
     (if Open_file ''/etc/resolv.conf'' \<in> set (os_trace w) then files_ok env \<longrightarrow> resolv_conf w = resolv_reference (resolvfile_list w)
      else resolvfile_list w = [])"

definition rs_wf :: "os_env \<Rightarrow> 'a resolver_world_scheme \<Rightarrow> bool" where
  "rs_wf env w \<longleftrightarrow> \<not> dnsproxy_enabled w \<and> entries_wf w \<and> timers_wf env w \<and> file_wf env w"

section \<open>Effects of the operations\<close>

lemma export_effect:
  obtains r t c where "resolvfile_export env w = (r, w\<lparr>os_trace := os_trace w @ t, resolv_conf := c\<rparr>)"
    "Open_file ''/etc/resolv.conf'' \<in> set t" "files_ok env \<longrightarrow> r = 0 \<and> c = resolv_reference (resolvfile_list w)"
proof -
  let ?o = "Open_file ''/etc/resolv.conf''" and ?k = "resolv_reference (resolvfile_list w)" and ?n = "length (os_trace w)"
  let ?fd = "oe_result env ?n ?o"
  consider "?fd < 0" | "?fd \<ge> 0" "oe_result env (Suc ?n) (Ftruncate ?fd) < 0"
    | "?fd \<ge> 0" "oe_result env (Suc ?n) (Ftruncate ?fd) \<ge> 0" "oe_result env (Suc (Suc ?n)) (Write ?fd ?k) < 0"
    | "?fd \<ge> 0" "oe_result env (Suc ?n) (Ftruncate ?fd) \<ge> 0" "oe_result env (Suc (Suc ?n)) (Write ?fd ?k) \<ge> 0" by linarith
  then show ?thesis
  proof cases
    case 1
    then show ?thesis by (intro that [of ?fd "resolv_conf w" "[?o]"]) (auto simp: resolvfile_export_def resolvfile_content_reference sys_def sys_do_def Let_def files_ok_def not_less [symmetric])
  next
    case 2
    then show ?thesis by (intro that [of _ "resolv_conf w" "[?o, Ftruncate ?fd, Close ?fd]"])
        (auto simp: resolvfile_export_def resolvfile_content_reference sys_def sys_do_def Let_def files_ok_def not_less [symmetric])
  next
    case 3
    then show ?thesis by (intro that [of _ "[]" "[?o, Ftruncate ?fd, Write ?fd ?k, Close ?fd]"])
        (auto simp: resolvfile_export_def resolvfile_content_reference sys_def sys_do_def Let_def files_ok_def not_less [symmetric])
  next
    case 4
    then show ?thesis by (intro that [of 0 "take (nat (oe_result env (Suc (Suc ?n)) (Write ?fd ?k))) ?k" "[?o, Ftruncate ?fd, Write ?fd ?k, Close ?fd]"])
        (auto simp: resolvfile_export_def resolvfile_content_reference sys_def sys_do_def Let_def files_ok_def not_less [symmetric])
  qed
qed

lemma tell_service_effect:
  "\<exists>t. tell_service env interface server f w = w\<lparr>os_trace := os_trace w @ t\<rparr> \<and> set t \<subseteq> {Service_of_interface interface} \<union> f ` set_option server"
  by (auto simp: tell_service_def sys_def sys_do_def Let_def split: option.splits)

lemma rs_wf_trace:
  assumes "rs_wf env w" and "Open_file ''/etc/resolv.conf'' \<notin> set t"
  shows "rs_wf env (w\<lparr>os_trace := os_trace w @ t\<rparr>)"
proof -
  have "timers_wf env (w\<lparr>os_trace := os_trace w @ t\<rparr>)" using assms(1) issued_mono unfolding rs_wf_def timers_wf_def by fastforce
  then show ?thesis using assms by (auto simp: rs_wf_def entries_wf_def file_wf_def)
qed

lemma timers_wf_remove:
  assumes wf: "timers_wf env w" and e: "rs_entries w p = Some e" and re: "rs_entries w' = (rs_entries w)(p := None)"
    and s: "os_sources w' = (if ed_timeout e = 0 then os_sources w else filter (\<lambda>s. fst s \<noteq> ed_timeout e) (os_sources w))"
    and tr: "os_trace w' = os_trace w @ t"
  shows "timers_wf env w'"
proof -
  let ?i = "ed_timeout e"
  have tw: "\<And>x. x \<in> set (os_sources w) \<longleftrightarrow> (\<exists>q d. x = (ed_timeout d, Resolver_expire q) \<and> rs_entries w q = Some d \<and> ed_timeout d \<noteq> 0)"
    "distinct (map fst (os_sources w))" "\<forall>i \<in> fst ` set (os_sources w). issued env (length (os_trace w)) i"
    using wf by (simp_all add: timers_wf_def timer_set_def)
  have own: "q = p" if "rs_entries w q = Some d" "ed_timeout d = ?i" "?i \<noteq> 0" for q d
  proof -
    have "(?i, Resolver_expire q) \<in> set (os_sources w)" "(?i, Resolver_expire p) \<in> set (os_sources w)"
      using that e by (auto simp: tw(1))
    then show "q = p" using tw(2) by (auto dest: eq_key_imp_eq_value)
  qed
  have "x \<in> set (os_sources w') \<longleftrightarrow> (\<exists>q d. x = (ed_timeout d, Resolver_expire q) \<and> rs_entries w' q = Some d \<and> ed_timeout d \<noteq> 0)" for x
  proof
    assume "x \<in> set (os_sources w')"
    then have x: "x \<in> set (os_sources w)" "?i = 0 \<or> fst x \<noteq> ?i" by (simp_all add: s split: if_splits)
    then obtain q d where q: "x = (ed_timeout d, Resolver_expire q)" "rs_entries w q = Some d" "ed_timeout d \<noteq> 0" unfolding tw(1) by blast
    then have "q \<noteq> p" using x(2) e by auto
    then show "\<exists>q d. x = (ed_timeout d, Resolver_expire q) \<and> rs_entries w' q = Some d \<and> ed_timeout d \<noteq> 0" using q re by auto
  next
    assume "\<exists>q d. x = (ed_timeout d, Resolver_expire q) \<and> rs_entries w' q = Some d \<and> ed_timeout d \<noteq> 0"
    then obtain q d where q: "x = (ed_timeout d, Resolver_expire q)" "rs_entries w q = Some d" "ed_timeout d \<noteq> 0" "q \<noteq> p"
      unfolding re by (auto split: if_splits)
    then have "x \<in> set (os_sources w)" unfolding tw(1) by blast
    moreover have "?i = 0 \<or> ed_timeout d \<noteq> ?i" using own [OF q(2)] q(4) by auto
    ultimately show "x \<in> set (os_sources w')" using q(1) by (auto simp: s)
  qed
  then have "set (os_sources w') = {(ed_timeout e, Resolver_expire q) |q e. rs_entries w' q = Some e \<and> ed_timeout e \<noteq> 0}" by blast
  then have "set (os_sources w') = timer_set (rs_entries w')" by (simp add: timer_set_def)
  moreover have "distinct (map fst (os_sources w'))" using tw(2) by (simp add: s distinct_map_filter)
  moreover have "\<forall>i \<in> fst ` set (os_sources w'). issued env (length (os_trace w')) i"
    using tw(3) issued_mono [of env "length (os_trace w)" _ "length (os_trace w')"] by (auto simp: s tr)
  ultimately show ?thesis by (simp add: timers_wf_def)
qed

text \<open>Removing one entry, as the loop over the entries does it.\<close>

lemma remove_entry:
  assumes wf: "rs_wf env w" and e: "rs_entries w p = Some e"
  obtains w' where "remove_entries env [p] w = Inr w'" "rs_wf env w'" "rs_entries w' = (rs_entries w)(p := None)"
    "entry_list w' = remove1 p (entry_list w)"
proof -
  let ?fs = "filter (\<lambda>f. \<not> resolvfile_match (ed_interface e) (ed_domain e) (ed_server e) f) (resolvfile_list w)"
  let ?w0 = "w\<lparr>entry_list := remove1 p (entry_list w), resolvfile_list := ?fs\<rparr>"
  obtain r t c where x: "resolvfile_export env ?w0 = (r, ?w0\<lparr>os_trace := os_trace ?w0 @ t, resolv_conf := c\<rparr>)"
      "Open_file ''/etc/resolv.conf'' \<in> set t" "files_ok env \<longrightarrow> r = 0 \<and> c = resolv_reference (resolvfile_list ?w0)" by (rule export_effect)
  let ?w1 = "?w0\<lparr>os_trace := os_trace ?w0 @ t, resolv_conf := c\<rparr>"
  define w' where "w' = (remove_source_if (ed_timeout e) ?w1)\<lparr>rs_entries := (rs_entries w)(p := None)\<rparr>"
  have "remove_entries env [p] w = Inr w'"
    using wf e x(1) by (simp add: rs_wf_def deref_def unpublish_def resolvfile_remove_def w'_def remove_source_if_def remove_source_def Let_def)
  moreover have re: "rs_entries w' = (rs_entries w)(p := None)" and "entry_list w' = remove1 p (entry_list w)"
    by (simp_all add: w'_def remove_source_if_def remove_source_def)
  moreover have "rs_wf env w'"
  proof -
    have "entries_wf w'" using wf by (auto simp: rs_wf_def entries_wf_def w'_def remove_source_if_def remove_source_def)
    moreover have "timers_wf env w'"
      using wf by (intro timers_wf_remove [OF _ e re, of env t]) (simp_all add: rs_wf_def w'_def remove_source_if_def remove_source_def)
    moreover have "file_wf env w'"
    proof -
      have "\<exists>d \<in> ran ((rs_entries w)(p := None)). listed f d" if f: "f \<in> set ?fs" for f
      proof -
        obtain q d where d: "rs_entries w q = Some d" "listed f d" using wf f by (auto simp: rs_wf_def file_wf_def ran_def)
        have "\<not> listed f e" using f by (auto simp: listed_def resolvfile_match_def)
        then have "q \<noteq> p" using d e by auto
        then show ?thesis using d by (auto simp: ran_def)
      qed
      then show ?thesis using x(2,3) by (auto simp: file_wf_def w'_def remove_source_if_def remove_source_def)
    qed
    moreover have "\<not> dnsproxy_enabled w'" using wf by (simp add: rs_wf_def w'_def remove_source_if_def remove_source_def)
    ultimately show ?thesis by (simp add: rs_wf_def)
  qed
  ultimately show ?thesis by (intro that)
qed

lemma remove_entries_append: "remove_entries env (ps @ qs) w = bind_r (remove_entries env ps w) (remove_entries env qs)"
  by (induction ps arbitrary: w) (simp_all add: bind_r_def Let_def split: sum.splits)

lemma remove_entries_effect:
  assumes "rs_wf env w" and "distinct ps" and "set ps \<subseteq> dom (rs_entries w)"
  shows "succeeds (remove_entries env ps w) (\<lambda>w'. rs_wf env w' \<and> rs_entries w' = rs_entries w |` (- set ps) \<and>
    entry_list w' = filter (\<lambda>p. p \<notin> set ps) (entry_list w))"
  using assms
proof (induction ps rule: rev_induct)
  case (snoc p ps)
  obtain w1 where w1: "remove_entries env ps w = Inr w1" "rs_wf env w1" "rs_entries w1 = rs_entries w |` (- set ps)"
      "entry_list w1 = filter (\<lambda>p. p \<notin> set ps) (entry_list w)"
    using snoc by (auto simp: succeeds_def)
  obtain e where e: "rs_entries w1 p = Some e" using snoc.prems w1(3) by (auto simp: restrict_map_def)
  obtain w2 where w2: "remove_entries env [p] w1 = Inr w2" "rs_wf env w2" "rs_entries w2 = (rs_entries w1)(p := None)"
      "entry_list w2 = remove1 p (entry_list w1)"
    using remove_entry [OF w1(2) e] by blast
  have "distinct (entry_list w1)" using w1(2) by (simp add: rs_wf_def entries_wf_def)
  then have "entry_list w2 = filter (\<lambda>q. q \<notin> set (ps @ [p])) (entry_list w)"
    using w2(4) w1(4) by (auto simp: distinct_remove1_removeAll removeAll_filter_not_eq intro: filter_cong)
  moreover have "rs_entries w2 = rs_entries w |` (- set (ps @ [p]))" using w2(3) w1(3) by (auto simp: restrict_map_def fun_eq_iff)
  ultimately show ?case unfolding remove_entries_append w1(1) using w2(1,2) by (simp add: succeeds_def)
qed (simp add: restrict_map_def fun_eq_iff)

lemma match_entries_total:
  "set ps \<subseteq> dom (rs_entries w) \<Longrightarrow> match_entries P w ps = Inr (filter (\<lambda>p. P (the (rs_entries w p))) ps)"
  by (induction ps) (auto simp: deref_def)

lemma matching_removed:
  assumes wf: "rs_wf env w" and ps: "ps = filter (\<lambda>p. P (the (rs_entries w p))) (entry_list w)"
  shows "succeeds (remove_entries env ps w) (\<lambda>w'. rs_wf env w' \<and>
    rs_entries w' = (\<lambda>p. case rs_entries w p of None \<Rightarrow> None | Some e \<Rightarrow> if P e then None else Some e) \<and>
    entry_list w' = filter (\<lambda>p. \<not> P (the (rs_entries w p))) (entry_list w))"
proof -
  have ew: "distinct (entry_list w)" "dom (rs_entries w) = set (entry_list w)" using wf by (simp_all add: rs_wf_def entries_wf_def)
  then have "succeeds (remove_entries env ps w) (\<lambda>w'. rs_wf env w' \<and> rs_entries w' = rs_entries w |` (- set ps) \<and>
    entry_list w' = filter (\<lambda>p. p \<notin> set ps) (entry_list w))" using ps by (intro remove_entries_effect [OF wf]) auto
  moreover have "rs_entries w |` (- set ps) = (\<lambda>p. case rs_entries w p of None \<Rightarrow> None | Some e \<Rightarrow> if P e then None else Some e)"
  proof
    fix p
    show "(rs_entries w |` (- set ps)) p = (case rs_entries w p of None \<Rightarrow> None | Some e \<Rightarrow> if P e then None else Some e)"
      using ew(2) ps by (cases "rs_entries w p") (auto simp: restrict_map_def)
  qed
  moreover have "filter (\<lambda>p. p \<notin> set ps) (entry_list w) = filter (\<lambda>p. \<not> P (the (rs_entries w p))) (entry_list w)"
    using ps by (intro filter_cong) auto
  ultimately show ?thesis by simp
qed

lemma entries_live: "rs_wf env w \<Longrightarrow> set (entry_list w) \<subseteq> dom (rs_entries w)"
  by (simp add: rs_wf_def entries_wf_def)

lemma remove_matching_effect:
  assumes wf: "rs_wf env w"
  shows "succeeds (remove_matching env P w) (\<lambda>(r, w'). rs_wf env w' \<and> r = (if \<exists>e \<in> ran (rs_entries w). P e then 0 else - ENOENT) \<and>
    rs_entries w' = (\<lambda>p. case rs_entries w p of None \<Rightarrow> None | Some e \<Rightarrow> if P e then None else Some e))"
proof (cases "\<exists>e \<in> ran (rs_entries w). P e")
  case True
  then obtain p e where p: "rs_entries w p = Some e" "P e" by (auto simp: ran_def)
  then have "p \<in> set (entry_list w)" using wf by (auto simp: rs_wf_def entries_wf_def)
  then have "filter (\<lambda>p. P (the (rs_entries w p))) (entry_list w) \<noteq> []" using p by (force simp: filter_empty_conv)
  then show ?thesis using True matching_removed [OF wf refl, of P] match_entries_total [OF entries_live [OF wf], of P]
    by (auto simp: remove_matching_def succeeds_def)
next
  case False
  then have n: "filter (\<lambda>p. P (the (rs_entries w p))) (entry_list w) = []"
    using entries_live [OF wf] by (force simp: filter_empty_conv ran_def)
  have "(case rs_entries w p of None \<Rightarrow> None | Some e \<Rightarrow> if P e then None else Some e) = rs_entries w p" for p
    using False by (cases "rs_entries w p") (auto simp: ran_def)
  then show ?thesis using False n wf match_entries_total [OF entries_live [OF wf], of P]
    by (simp add: remove_matching_def fun_eq_iff)
qed

lemma timers_wf_add:
  assumes wf: "timers_wf env w" and ok: "timers_ok env" and p: "rs_entries w p = None"
    and i: "i = nat (oe_result env (length (os_trace w)) (Add_source s))" "ed_timeout e = i"
    and w': "os_sources w' = (i, Resolver_expire p) # os_sources w" "os_trace w' = os_trace w @ Add_source s # t" "rs_entries w' = (rs_entries w)(p \<mapsto> e)"
  shows "timers_wf env w'"
proof -
  have tw: "set (os_sources w) = timer_set (rs_entries w)"
    "distinct (map fst (os_sources w))" "\<forall>i \<in> fst ` set (os_sources w). issued env (length (os_trace w)) i"
    using wf by (simp_all add: timers_wf_def)
  have i0: "i \<noteq> 0" using ok i(1) by (auto simp: timers_ok_def not_le)
  have fresh: "\<not> issued env (length (os_trace w)) i"
    using ok i(1) unfolding issued_def timers_ok_def by (metis nat_eq_iff2 less_le less_irrefl)
  have "set (os_sources w') = timer_set (rs_entries w')" using tw(1) timer_set_update [of "rs_entries w" p e] p i(2) i0 by (simp add: w')
  moreover have "distinct (map fst (os_sources w'))" using tw(2,3) fresh by (auto simp: w'(1))
  moreover have "\<forall>i \<in> fst ` set (os_sources w'). issued env (length (os_trace w')) i"
  proof
    fix j assume "j \<in> fst ` set (os_sources w')"
    then have "j = i \<or> issued env (length (os_trace w)) j" using tw(3) by (auto simp: w'(1))
    then show "issued env (length (os_trace w')) j"
    proof
      assume "j = i"
      then show ?thesis unfolding issued_def i(1) w'(2) by (intro exI [of _ "length (os_trace w)"] conjI exI [of _ s]) simp_all
    qed (auto simp: w'(2) intro: issued_mono)
  qed
  ultimately show ?thesis by (simp add: timers_wf_def)
qed

lemma timers_wf_plain:
  assumes wf: "timers_wf env w" and "rs_entries w p = None" "ed_timeout e = 0"
    and w': "os_sources w' = os_sources w" "os_trace w' = os_trace w @ t" "rs_entries w' = (rs_entries w)(p \<mapsto> e)"
  shows "timers_wf env w'"
proof -
  have "set (os_sources w') = timer_set (rs_entries w')" using wf timer_set_update [of "rs_entries w" p e] assms(2,3) by (simp add: w' timers_wf_def)
  then show ?thesis using wf w'(1,2) issued_mono [of env "length (os_trace w)" _ "length (os_trace w')"]
    by (auto simp: timers_wf_def)
qed

lemma publish_effect:
  assumes wf: "rs_wf env w" and e: "\<exists>e \<in> ran (rs_entries w). ed_interface e = interface \<and> ed_domain e = domain \<and> ed_server e = server"
  shows "succeeds (publish env interface domain server w) (\<lambda>w'. rs_wf env w' \<and> rs_entries w' = rs_entries w \<and> entry_list w' = entry_list w)"
proof (cases interface)
  case None
  then show ?thesis using wf by (simp add: publish_def resolvfile_append_def rs_wf_def)
next
  case (Some i)
  let ?w = "w\<lparr>os_trace := os_trace w @ [Alloc]\<rparr>"
  let ?w1 = "?w\<lparr>resolvfile_list := resolvfile_list w @ [\<lparr>rf_interface = i, rf_domain = domain, rf_server = server\<rparr>]\<rparr>"
  have wf1: "rs_wf env ?w" by (rule rs_wf_trace [OF wf]) simp
  show ?thesis
  proof (cases "oe_result env (length (os_trace w)) Alloc < 0")
    case True
    then show ?thesis using wf wf1 Some by (simp add: publish_def resolvfile_append_def rs_wf_def sys_def)
  next
    case False
    obtain r t c where x: "resolvfile_export env ?w1 = (r, ?w1\<lparr>os_trace := os_trace ?w1 @ t, resolv_conf := c\<rparr>)"
      "Open_file ''/etc/resolv.conf'' \<in> set t" "files_ok env \<longrightarrow> r = 0 \<and> c = resolv_reference (resolvfile_list ?w1)" by (rule export_effect)
    let ?w' = "?w1\<lparr>os_trace := os_trace ?w1 @ t, resolv_conf := c\<rparr>"
    have "publish env interface domain server w = Inr ?w'"
      using x(1) wf Some False by (simp add: publish_def resolvfile_append_def rs_wf_def sys_def)
    moreover have "file_wf env ?w'" using wf e x(2,3) Some by (auto simp: file_wf_def rs_wf_def listed_def)
    moreover have "timers_wf env ?w'"
      using wf issued_mono [of env "length (os_trace w)" _ "length (os_trace ?w')"] by (auto simp: rs_wf_def timers_wf_def)
    ultimately show ?thesis using wf by (simp add: rs_wf_def entries_wf_def)
  qed
qed

text \<open>The entries after an entry was added, or not for want of memory.\<close>

definition added :: "(addr \<rightharpoonup> entry_data) \<Rightarrow> string option \<Rightarrow> string option \<Rightarrow> string option \<Rightarrow> nat \<Rightarrow> u32 \<Rightarrow> int \<Rightarrow> (addr \<rightharpoonup> entry_data) \<Rightarrow> bool" where
  "added m interface domain server lifetime flags r m' \<longleftrightarrow>
     (if r = 0 then \<exists>p i. m p = None \<and> (i = 0 \<longleftrightarrow> lifetime = 0) \<and> m' = m(p \<mapsto>
         \<lparr>ed_interface = interface, ed_domain = domain, ed_server = server, ed_flags = flags, ed_timeout = i\<rparr>)
      else r = - ENOMEM \<and> m' = m)"

lemma append_resolver_effect:
  assumes wf: "rs_wf env w" and ok: "timers_ok env" and s: "\<not> (server = None \<and> domain = None)"
  shows "succeeds (append_resolver env interface domain server lifetime flags w) (\<lambda>(r, w'). rs_wf env w' \<and>
    added (rs_entries w) interface domain server lifetime flags r (rs_entries w'))"
proof (cases "oe_result env (length (os_trace w)) Alloc < 0")
  case True
  then show ?thesis using rs_wf_trace [OF wf, of "[Alloc]"] s by (auto simp: append_resolver_def sys_def added_def ENOMEM_def)
next
  case False
  let ?p = "os_next w" and ?src = "Resolver_expire (os_next w)"
  let ?w1 = "w\<lparr>os_trace := os_trace w @ [Alloc], os_next := Suc (os_next w)\<rparr>"
  have p: "rs_entries w ?p = None" using wf by (auto simp: rs_wf_def entries_wf_def)
  have tw1: "timers_wf env ?w1" using rs_wf_trace [OF wf, of "[Alloc]"] by (simp add: rs_wf_def timers_wf_def)
  define i where "i = (if lifetime = 0 then 0 else nat (oe_result env (length (os_trace ?w1)) (Add_source ?src)))"
  define e where "e = \<lparr>ed_interface = interface, ed_domain = domain, ed_server = server, ed_flags = flags, ed_timeout = i\<rparr>"
  have i0: "i = 0 \<longleftrightarrow> lifetime = 0" using ok by (auto simp: i_def timers_ok_def not_le)
  define t where "t = (if lifetime = 0 then [] else Add_source ?src #
      (if oe_result env (Suc (Suc (length (os_trace w)))) (Service_of_interface interface) < 0 then [Service_of_interface interface]
       else Service_of_interface interface # (case server of None \<Rightarrow> [] | Some s \<Rightarrow> [Service_nameserver_append s])))"
  define w3 where "w3 = (if lifetime = 0 then ?w1
      else tell_service env interface server Service_nameserver_append (snd (add_source env ?src ?w1)))"
  define w4 where "w4 = w3\<lparr>rs_entries := (rs_entries w3)(?p \<mapsto> e), entry_list := entry_list w3 @ [?p]\<rparr>"
  have w4: "os_trace w4 = os_trace w @ Alloc # t" "os_next w4 = Suc ?p" "rs_entries w4 = (rs_entries w)(?p \<mapsto> e)" "entry_list w4 = entry_list w @ [?p]"
    "os_sources w4 = (if lifetime = 0 then os_sources w else (i, ?src) # os_sources w)" "resolvfile_list w4 = resolvfile_list w"
    "resolv_conf w4 = resolv_conf w" "dnsproxy_enabled w4 = dnsproxy_enabled w"
    by (auto simp: w4_def w3_def t_def i_def tell_service_def add_source_def sys_def sys_do_def Let_def split: option.splits)
  have run: "append_resolver env interface domain server lifetime flags w = bind_r (publish env interface domain server w4) (\<lambda>w5. Inr (0, w5))"
    unfolding append_resolver_def if_not_P [OF s] using False
    by (cases "lifetime = 0") (simp_all add: sys_def new_addr_def add_source_def w4_def w3_def e_def i_def Let_def)
  have nopen: "Open_file ''/etc/resolv.conf'' \<notin> set t" by (auto simp: t_def split: option.splits)
  have "timers_wf env w4"
  proof (cases "lifetime = 0")
    case True
    then show ?thesis using timers_wf_plain [OF tw1, of ?p e w4 t] p i0 by (simp add: w4 e_def)
  next
    case live: False
    then show ?thesis using timers_wf_add [OF tw1 ok, of ?p i ?src e w4 "tl t"] p by (simp add: w4 e_def i_def t_def)
  qed
  moreover have "entries_wf w4" using wf p by (auto simp: rs_wf_def entries_wf_def w4 less_Suc_eq)
  moreover have "file_wf env w4" using wf p nopen by (auto simp: rs_wf_def file_wf_def w4)
  ultimately have "rs_wf env w4" using wf by (simp add: rs_wf_def w4)
  moreover have "\<exists>e \<in> ran (rs_entries w4). ed_interface e = interface \<and> ed_domain e = domain \<and> ed_server e = server"
    by (rule bexI [of _ e]) (auto simp: e_def w4 ran_def)
  ultimately have "succeeds (publish env interface domain server w4) (\<lambda>w'. rs_wf env w' \<and> rs_entries w' = rs_entries w4 \<and> entry_list w' = entry_list w4)"
    by (rule publish_effect)
  moreover have "added (rs_entries w) interface domain server lifetime flags 0 (rs_entries w4)"
    unfolding added_def using p i0 by (simp add: w4 e_def) (intro exI [of _ ?p] conjI exI [of _ i], simp_all)
  ultimately show ?thesis unfolding run by (auto simp: succeeds_def)
qed

lemma resolver_append_effect:
  assumes wf: "rs_wf env w" and ok: "timers_ok env"
  shows "succeeds (resolver_append env interface domain server w) (\<lambda>(r, w'). rs_wf env w' \<and>
    (if server = None \<and> domain = None then r = - EINVAL \<and> w' = w
     else added (\<lambda>p. case rs_entries w p of None \<Rightarrow> None
        | Some e \<Rightarrow> if ed_timeout e = 0 \<and> same_entry interface domain server e then None else Some e)
       interface domain server 0 0 r (rs_entries w')))"
proof (cases "server = None \<and> domain = None")
  case False
  let ?P = "\<lambda>e. ed_timeout e = 0 \<and> same_entry interface domain server e"
  obtain w1 where w1: "remove_entries env (filter (\<lambda>p. ?P (the (rs_entries w p))) (entry_list w)) w = Inr w1" "rs_wf env w1"
      "rs_entries w1 = (\<lambda>p. case rs_entries w p of None \<Rightarrow> None | Some e \<Rightarrow> if ?P e then None else Some e)"
    using matching_removed [OF wf refl, of ?P] by (auto simp: succeeds_def)
  have "resolver_append env interface domain server w = append_resolver env interface domain server 0 0 w1"
    unfolding resolver_append_def if_not_P [OF False] using w1(1) match_entries_total [OF entries_live [OF wf], of ?P] by simp
  then show ?thesis using append_resolver_effect [OF w1(2) ok False, of interface 0 0] False by (auto simp: w1(3) elim!: succeeds_mono)
qed (use wf in \<open>simp add: resolver_append_def\<close>)

lemma resolver_expire_effect:
  assumes wf: "rs_wf env w" and e: "rs_entries w p = Some e"
  shows "succeeds (resolver_expire_cb env p w) (\<lambda>w'. rs_wf env w' \<and> rs_entries w' = (rs_entries w)(p := None))"
proof -
  obtain t where t: "tell_service env (ed_interface e) (ed_server e) Service_nameserver_remove w = w\<lparr>os_trace := os_trace w @ t\<rparr>"
      "Open_file ''/etc/resolv.conf'' \<notin> set t"
    using tell_service_effect [of env "ed_interface e" "ed_server e" Service_nameserver_remove w] by blast
  have e': "rs_entries (w\<lparr>os_trace := os_trace w @ t\<rparr>) p = Some e" using e by simp
  show ?thesis using remove_entry [OF rs_wf_trace [OF wf t(2)] e'] e t(1)
    by (auto simp: resolver_expire_cb_def deref_def succeeds_def simp del: remove_entries.simps)
qed

text \<open>
  An entry whose timer is already gone, when its lifetime is set to zero: the callback removes the
  timer once more, which has no effect.
\<close>

lemma remove_source_again:
  "remove_entries env [p] (remove_source i w) = remove_entries env [p] w" if "rs_entries w p = Some e" "ed_timeout e = i" "i \<noteq> 0" "\<not> dnsproxy_enabled w"
proof -
  have x: "resolvfile_export env (remove_source i u) = (fst (resolvfile_export env u), remove_source i (snd (resolvfile_export env u)))"
    for u :: "'a resolver_world_scheme"
    by (auto simp: resolvfile_export_def remove_source_def sys_def sys_do_def Let_def)
  have r: "remove_source i (remove_source i u) = remove_source i u" for u :: "'a resolver_world_scheme" by (simp add: remove_source_def)
  let ?u = "w\<lparr>entry_list := remove1 p (entry_list w), resolvfile_list := filter (\<lambda>f. \<not> resolvfile_match (ed_interface e) (ed_domain e) (ed_server e) f) (resolvfile_list w)\<rparr>"
  have u: "(remove_source i w)\<lparr>entry_list := remove1 p (entry_list w), resolvfile_list := resolvfile_list ?u\<rparr> = remove_source i ?u"
    by (simp add: remove_source_def)
  have re: "rs_entries (remove_source i v) = rs_entries v" "entry_list (remove_source i v) = entry_list v" "resolvfile_list (remove_source i v) = resolvfile_list v"
    "dnsproxy_enabled (remove_source i v) = dnsproxy_enabled v" for v :: "'a resolver_world_scheme" by (simp_all add: remove_source_def)
  show ?thesis using that by (simp add: deref_def unpublish_def resolvfile_remove_def remove_source_if_def re x u [simplified] r)
qed

lemma resolver_expire_after:
  assumes wf: "rs_wf env w" and e: "rs_entries w p = Some e" "ed_timeout e \<noteq> 0"
  shows "succeeds (resolver_expire_cb env p (remove_source (ed_timeout e) w)) (\<lambda>w'. rs_wf env w')"
proof -
  let ?g = "\<lambda>w. tell_service env (ed_interface e) (ed_server e) Service_nameserver_remove w"
  have g: "?g (remove_source (ed_timeout e) w) = remove_source (ed_timeout e) (?g w)" "rs_entries (?g w) = rs_entries w" "dnsproxy_enabled (?g w) = dnsproxy_enabled w"
    by (auto simp: tell_service_def remove_source_def sys_def sys_do_def Let_def split: option.splits)
  have "resolver_expire_cb env p (remove_source (ed_timeout e) w) = resolver_expire_cb env p w"
    using remove_source_again [of "?g w" p e "ed_timeout e" env] g e wf
    by (simp add: resolver_expire_cb_def deref_def rs_wf_def remove_source_def [of _ w] del: remove_entries.simps)
  then show ?thesis using resolver_expire_effect [OF wf e(1)] by (auto elim!: succeeds_mono)
qed

lemma find_lifetime_total:
  assumes "set ps \<subseteq> dom (rs_entries w)"
  shows "find_lifetime interface domain server w ps = Inr (find (\<lambda>p. let e = the (rs_entries w p) in ed_timeout e \<noteq> 0 \<and> same_entry interface domain server e) ps)"
  using assms by (induction ps) (auto simp: deref_def Let_def)

lemma renew_timer:
  assumes wf: "rs_wf env w" and ok: "timers_ok env" and e: "rs_entries w p = Some e" "ed_timeout e \<noteq> 0"
    and i: "add_source env (Resolver_expire p) (remove_source (ed_timeout e) w) = (i, w2)"
  shows "rs_wf env (w2\<lparr>rs_entries := (rs_entries w2)(p \<mapsto> e\<lparr>ed_timeout := i\<rparr>)\<rparr>)"
proof -
  let ?u = "(remove_source (ed_timeout e) w)\<lparr>rs_entries := (rs_entries w)(p := None)\<rparr>"
  let ?w' = "w2\<lparr>rs_entries := (rs_entries w2)(p \<mapsto> e\<lparr>ed_timeout := i\<rparr>)\<rparr>"
  have tu: "timers_wf env ?u" using wf e(2) by (intro timers_wf_remove [OF _ e(1), of env ?u "[]"]) (simp_all add: rs_wf_def remove_source_def)
  have w2: "i = nat (oe_result env (length (os_trace w)) (Add_source (Resolver_expire p)))" "os_trace w2 = os_trace w @ [Add_source (Resolver_expire p)]"
      "os_sources w2 = (i, Resolver_expire p) # filter (\<lambda>s. fst s \<noteq> ed_timeout e) (os_sources w)" "rs_entries w2 = rs_entries w"
      "entry_list w2 = entry_list w" "os_next w2 = os_next w" "resolvfile_list w2 = resolvfile_list w" "resolv_conf w2 = resolv_conf w"
      "dnsproxy_enabled w2 = dnsproxy_enabled w"
    using i by (auto simp: add_source_def sys_def remove_source_def)
  have "timers_wf env ?w'"
    using w2 by (intro timers_wf_add [OF tu ok, of p i "Resolver_expire p" "e\<lparr>ed_timeout := i\<rparr>" ?w' "[]"]) (simp_all add: remove_source_def)
  moreover have "file_wf env ?w'"
  proof -
    have "\<exists>d \<in> ran ((rs_entries w)(p \<mapsto> e\<lparr>ed_timeout := i\<rparr>)). listed f d" if f: "f \<in> set (resolvfile_list w)" for f
    proof -
      obtain q d where d: "rs_entries w q = Some d" "listed f d" using wf f by (auto simp: rs_wf_def file_wf_def ran_def)
      have "(if q = p then e\<lparr>ed_timeout := i\<rparr> else d) \<in> ran ((rs_entries w)(p \<mapsto> e\<lparr>ed_timeout := i\<rparr>))" using d by (auto simp: ran_def)
      moreover have "listed f (if q = p then e\<lparr>ed_timeout := i\<rparr> else d)" using d e(1) by (auto simp: listed_def)
      ultimately show ?thesis ..
    qed
    then show ?thesis using wf w2 by (auto simp: rs_wf_def file_wf_def)
  qed
  moreover have "entries_wf ?w'" using wf w2 e by (auto simp: rs_wf_def entries_wf_def)
  ultimately show ?thesis using wf w2 by (simp add: rs_wf_def)
qed

lemma resolver_append_lifetime_total:
  assumes wf: "rs_wf env w" and ok: "timers_ok env"
  shows "succeeds (resolver_append_lifetime env interface domain server lifetime w) (\<lambda>(r, w'). rs_wf env w')"
proof (cases "server = None")
  case False
  let ?f = "find (\<lambda>p. let e = the (rs_entries w p) in ed_timeout e \<noteq> 0 \<and> same_entry interface domain server e) (entry_list w)"
  note fl = find_lifetime_total [OF entries_live [OF wf], of interface domain server]
  show ?thesis
  proof (cases ?f)
    case None
    then show ?thesis unfolding resolver_append_lifetime_def if_not_P [OF False]
      using append_resolver_effect [OF wf ok, of server domain interface lifetime 0] False fl by (auto elim!: succeeds_mono)
  next
    case (Some p)
    then have "p \<in> set (entry_list w)" "ed_timeout (the (rs_entries w p)) \<noteq> 0" by (auto simp: find_Some_iff Let_def)
    then obtain e where e: "rs_entries w p = Some e" "ed_timeout e \<noteq> 0" using entries_live [OF wf] by (auto simp: subset_iff)
    obtain i w2 where i: "add_source env (Resolver_expire p) (remove_source (ed_timeout e) w) = (i, w2)" by fastforce
    show ?thesis unfolding resolver_append_lifetime_def if_not_P [OF False] fl Some
      using renew_timer [OF wf ok e i] resolver_expire_after [OF wf e] i e(1)
      by (auto simp: deref_def Let_def elim!: succeeds_mono)
  qed
qed (use wf in \<open>simp add: resolver_append_lifetime_def\<close>)

section \<open>The component as a state machine\<close>

text \<open>
  The calls of the interface and the timers that fire, in any order, while the DNS proxy is off. The main
  loop removes a timer whose callback does not ask to be called again.
\<close>

datatype rs_event =
    Rs_append "string option" "string option" "string option"
  | Rs_append_lifetime "string option" "string option" "string option" nat
  | Rs_remove "string option" "string option" "string option"
  | Rs_remove_all "string option"
  | Rs_append_public "string option"
  | Rs_remove_public "string option"
  | Rs_flush
  | Rs_timer nat

fun resolver_event :: "os_env \<Rightarrow> rs_event \<Rightarrow> resolver_world \<Rightarrow> resolver_world result" where
  "resolver_event env (Rs_append i d s) w = bind_r (resolver_append env i d s w) (\<lambda>(r, w1). Inr w1)"
| "resolver_event env (Rs_append_lifetime i d s t) w = bind_r (resolver_append_lifetime env i d s t w) (\<lambda>(r, w1). Inr w1)"
| "resolver_event env (Rs_remove i d s) w = bind_r (resolver_remove env i d s w) (\<lambda>(r, w1). Inr w1)"
| "resolver_event env (Rs_remove_all i) w = bind_r (resolver_remove_all env i w) (\<lambda>(r, w1). Inr w1)"
| "resolver_event env (Rs_append_public s) w = bind_r (resolver_append_public_server env s w) (\<lambda>(r, w1). Inr w1)"
| "resolver_event env (Rs_remove_public s) w = bind_r (resolver_remove_public_server env s w) (\<lambda>(r, w1). Inr w1)"
| "resolver_event env Rs_flush w = resolver_flush env w"
| "resolver_event env (Rs_timer n) w =
     (case map_of (os_sources w) n of
        Some (Resolver_expire p) \<Rightarrow> bind_r (resolver_expire_cb env p w) (\<lambda>w1. Inr (remove_source n w1))
      | _ \<Rightarrow> Inr w)"

definition resolver_step :: "os_env \<times> resolver_world \<Rightarrow> rs_event \<Rightarrow> (os_env \<times> resolver_world) option" where
  "resolver_step s e = (case resolver_event (fst s) e (snd s) of Inl f \<Rightarrow> None | Inr w \<Rightarrow> Some (fst s, w))"

text \<open>The state when the program starts, with any file.\<close>

definition resolver_boot :: "string \<Rightarrow> resolver_world" where
  "resolver_boot conf = \<lparr>os_trace = [], os_sources = [], os_next = 0, resolvfile_list = [], resolv_conf = conf, dw_servers = Map.empty, server_list = [],
     dw_requests = Map.empty, request_list = [], request_pending_list = [], request_id = 0, dw_listeners = Map.empty, listener_table = None,
     rs_entries = Map.empty, entry_list = [], dnsproxy_enabled = False\<rparr>"

definition resolver_start :: "os_env \<times> resolver_world \<Rightarrow> bool" where
  "resolver_start s \<longleftrightarrow> timers_ok (fst s) \<and> (\<exists>conf. snd s = resolver_boot conf)"

definition resolver_inv :: "os_env \<times> resolver_world \<Rightarrow> bool" where
  "resolver_inv s \<longleftrightarrow> timers_ok (fst s) \<and> rs_wf (fst s) (snd s)"

lemma boot_wf: "rs_wf env (resolver_boot conf)"
  by (simp add: rs_wf_def entries_wf_def timers_wf_def timer_set_def file_wf_def resolver_boot_def)

lemma timer_event_total:
  assumes wf: "rs_wf env w"
  shows "succeeds (resolver_event env (Rs_timer n) w) (rs_wf env)"
proof (cases "map_of (os_sources w) n")
  case (Some src)
  then have "(n, src) \<in> timer_set (rs_entries w)" using wf map_of_SomeD [OF Some] by (simp add: rs_wf_def timers_wf_def)
  then obtain p e where p: "src = Resolver_expire p" "rs_entries w p = Some e" "ed_timeout e = n" "n \<noteq> 0" by (auto simp: timer_set_def)
  obtain w1 where w1: "resolver_expire_cb env p w = Inr w1" "rs_wf env w1" "rs_entries w1 = (rs_entries w)(p := None)"
    using resolver_expire_effect [OF wf p(2)] by (auto simp: succeeds_def)
  have "n \<notin> fst ` set (os_sources w1)"
  proof
    assume "n \<in> fst ` set (os_sources w1)"
    then obtain x where "x \<in> timer_set (rs_entries w1)" "fst x = n" using w1(2) by (force simp: rs_wf_def timers_wf_def)
    then obtain q d where q: "rs_entries w1 q = Some d" "ed_timeout d = n" unfolding timer_set_def by auto
    then have "q \<noteq> p" "rs_entries w q = Some d" using w1(3) by (auto split: if_splits)
    moreover from this q(2) p(4) have "(n, Resolver_expire q) \<in> timer_set (rs_entries w)" unfolding timer_set_def by blast
    moreover have "set (os_sources w) = timer_set (rs_entries w)" using wf by (simp add: rs_wf_def timers_wf_def)
    moreover have "distinct (map fst (os_sources w))" using wf by (simp add: rs_wf_def timers_wf_def)
    ultimately show False using Some p(1) by (simp add: map_of_eq_Some_iff)
  qed
  then have "filter (\<lambda>s. fst s \<noteq> n) (os_sources w1) = os_sources w1" by (intro filter_True) force
  then have "remove_source n w1 = w1" by (simp add: remove_source_def)
  then show ?thesis using Some p(1) w1(1,2) by simp
qed (use wf in simp)

lemma resolver_event_total:
  assumes wf: "rs_wf env w" and ok: "timers_ok env"
  shows "succeeds (resolver_event env e w) (rs_wf env)"
proof (cases e)
  case (Rs_append i d s)
  then show ?thesis using resolver_append_effect [OF wf ok, of i d s] by (auto elim!: succeeds_mono)
next
  case (Rs_append_lifetime i d s n)
  then show ?thesis using resolver_append_lifetime_total [OF wf ok, of i d s n] by (auto elim!: succeeds_mono)
next
  case (Rs_remove i d s)
  then show ?thesis using remove_matching_effect [OF wf, of "entry_match i d s"] wf by (auto simp: resolver_remove_def elim!: succeeds_mono)
next
  case (Rs_remove_all i)
  then show ?thesis using remove_matching_effect [OF wf, of "\<lambda>e. ed_interface e = i"] wf by (auto simp: resolver_remove_all_def elim!: succeeds_mono)
next
  case (Rs_append_public s)
  then show ?thesis using append_resolver_effect [OF wf ok, of s None None 0 RESOLVER_FLAG_PUBLIC] wf
    by (cases s) (auto simp: resolver_append_public_server_def append_resolver_def [of _ _ None None] elim!: succeeds_mono)
next
  case (Rs_remove_public s)
  then show ?thesis using remove_matching_effect [OF wf, of "entry_match None None s"] wf
    by (auto simp: resolver_remove_public_server_def resolver_remove_def elim!: succeeds_mono)
next
  case Rs_flush
  then show ?thesis using wf by (simp add: resolver_flush_def rs_wf_def)
next
  case (Rs_timer n)
  then show ?thesis using timer_event_total [OF wf, of n] by simp
qed

interpretation rs: invariant_machine resolver_start resolver_step resolver_inv
proof
  fix s assume "resolver_start s"
  then show "resolver_inv s" using boot_wf by (auto simp: resolver_start_def resolver_inv_def)
next
  fix s e t assume "resolver_inv s" "resolver_step s e = Some t"
  then show "resolver_inv t" using resolver_event_total [of "fst s" "snd s" e]
    by (auto simp: resolver_inv_def resolver_step_def succeeds_def split: sum.splits)
qed

lemma step_env: "run resolver_step s es = Some t \<Longrightarrow> fst t = fst s"
  by (induction es arbitrary: s) (auto simp: resolver_step_def split: option.splits sum.splits)

lemma resolver_run_total: "resolver_inv s \<Longrightarrow> \<exists>t. run resolver_step s es = Some t"
proof (induction es arbitrary: s)
  case (Cons e es)
  obtain t where t: "resolver_step s e = Some t"
    using resolver_event_total [of "fst s" "snd s" e] Cons.prems by (auto simp: resolver_inv_def resolver_step_def succeeds_def split: sum.splits)
  then show ?case using Cons.IH rs.step_inv [OF Cons.prems t] by simp
qed simp

lemma forget_interface_effect:
  assumes wf: "rs_wf env w"
  shows "succeeds (resolver_remove_all env (Some i) w) (\<lambda>(r, w'). rs_wf env w' \<and>
    r = (if \<exists>e \<in> ran (rs_entries w). ed_interface e = Some i then 0 else - ENOENT) \<and>
    ran (rs_entries w') = {e \<in> ran (rs_entries w). ed_interface e \<noteq> Some i} \<and>
    (\<forall>f \<in> set (resolvfile_list w'). rf_interface f \<noteq> i))"
proof -
  obtain r w' where w': "resolver_remove_all env (Some i) w = Inr (r, w')" "rs_wf env w'"
      "r = (if \<exists>e \<in> ran (rs_entries w). ed_interface e = Some i then 0 else - ENOENT)"
      "rs_entries w' = (\<lambda>p. case rs_entries w p of None \<Rightarrow> None | Some e \<Rightarrow> if ed_interface e = Some i then None else Some e)"
    using remove_matching_effect [OF wf, of "\<lambda>e. ed_interface e = Some i"] by (auto simp: resolver_remove_all_def succeeds_def)
  have ran: "ran (rs_entries w') = {e \<in> ran (rs_entries w). ed_interface e \<noteq> Some i}"
    unfolding w'(4) by (force simp: ran_def split: option.splits if_splits)
  then have "\<forall>f \<in> set (resolvfile_list w'). rf_interface f \<noteq> i" using w'(2) by (fastforce simp: rs_wf_def file_wf_def listed_def)
  then show ?thesis using w'(1-3) ran by simp
qed

section \<open>An example\<close>

definition resolver_env :: os_env where
  "resolver_env = \<lparr>oe_result = (\<lambda>n c. case c of Write fd s \<Rightarrow> int (length s) | Add_source src \<Rightarrow> int n + 1 | _ \<Rightarrow> 0)\<rparr>"

definition resolver_events :: "rs_event list" where
  "resolver_events = [Rs_append (Some ''eth0'') (Some ''home.lan'') (Some ''10.0.0.1''), Rs_append_lifetime (Some ''eth0'') None (Some ''fe80::1'') 600,
     Rs_append (Some ''wlan0'') None (Some ''10.1.0.1''), Rs_append_public (Some ''8.8.8.8''), Rs_remove_all (Some ''wlan0''), Rs_timer 6]"

definition resolver_example :: resolver_world where
  "resolver_example = snd (the (run resolver_step (resolver_env, resolver_boot []) resolver_events))"

lemma resolver_env_ok: "timers_ok resolver_env" "files_ok resolver_env"
  by (simp_all add: timers_ok_def files_ok_def resolver_env_def)

lemma example_start: "resolver_start (resolver_env, resolver_boot [])"
  using resolver_env_ok by (auto simp: resolver_start_def)

lemma example_run: "run resolver_step (resolver_env, resolver_boot []) resolver_events = Some (resolver_env, resolver_example)"
proof -
  have "\<not> Option.is_none (run resolver_step (resolver_env, resolver_boot []) resolver_events)" by code_simp
  then obtain t where t: "run resolver_step (resolver_env, resolver_boot []) resolver_events = Some t" by (auto simp: Option.is_none_def)
  then have "t = (resolver_env, resolver_example)" using step_env [OF t] by (simp add: resolver_example_def prod_eq_iff)
  with t show ?thesis by simp
qed

section \<open>Properties\<close>

text \<open>
  C16. The file \<open>/etc/resolv.conf\<close>: its content is a comment, one line with the newest six domains, newest first, if there is any, and a line
  for each of the newest three servers, newest first.\<close>

theorem resolv_conf_content: "resolvfile_content es = resolv_reference es"
  by (rule resolvfile_content_reference)

text \<open>
  C12. In a program that runs without the DNS proxy, after any sequence of calls and expired timers: the list of entries and the entries in memory agree, the timers in the main
  loop are exactly those of the entries with a lifetime, and every line that is kept for the file belongs to an entry that is still there; if the calls for the
  file do not fail, the content of the file is the reference content of these lines. The converse does not hold: an entry can be
  without a line (below).\<close>

theorem resolver_entries_consistent:
  assumes "resolver_start s" and "run resolver_step s es = Some t"
  shows "entries_wf (snd t) \<and> timers_wf (fst t) (snd t) \<and> file_wf (fst t) (snd t)"
  using rs.run_from_start [OF assms] by (simp add: resolver_inv_def rs_wf_def)

theorem resolver_entries_consistent_witness:
  "entries_wf resolver_example \<and> resolv_conf resolver_example = resolv_reference (resolvfile_list resolver_example)"
proof -
  have "entries_wf resolver_example \<and> timers_wf resolver_env resolver_example \<and> file_wf resolver_env resolver_example"
    using resolver_entries_consistent [OF example_start example_run] by simp
  moreover have "Open_file ''/etc/resolv.conf'' \<in> set (os_trace resolver_example)" by code_simp
  ultimately show ?thesis using resolver_env_ok by (simp add: file_wf_def)
qed

text \<open>
  Removing an entry without a domain removes the lines of its server for every domain: after a server was appended with a domain, and then
  twice without one, its first entry is still there and has no line any more.
\<close>

definition lost_line_events :: "rs_event list" where
  "lost_line_events = [Rs_append (Some ''eth0'') (Some ''home.lan'') (Some ''10.0.0.1''), Rs_append (Some ''eth0'') None (Some ''10.0.0.1''),
     Rs_append (Some ''eth0'') None (Some ''10.0.0.1'')]"

lemma entry_without_line:
  "(case run resolver_step (resolver_env, resolver_boot []) lost_line_events of None \<Rightarrow> False
    | Some (env, w) \<Rightarrow> map_option ed_domain (rs_entries w 0) = Some (Some ''home.lan'') \<and> map rf_domain (resolvfile_list w) = [None])"
  by code_simp

text \<open>
  C13. In a program that runs without the DNS proxy (with it the removal of a server with a domain faults), no sequence of calls and expired timers makes the component read freed memory or follow a null pointer, as long as the identifiers of
  timers are positive and not used twice: every sequence runs through.\<close>

theorem resolver_never_faults:
  assumes "resolver_start s"
  shows "\<exists>t. run resolver_step s es = Some t"
  using rs.start_inv [OF assms] by (rule resolver_run_total)

theorem resolver_never_faults_witness: "\<exists>t. run resolver_step (resolver_env, resolver_boot []) resolver_events = Some t"
  by (rule resolver_never_faults [OF example_start])

text \<open>
  Forgetting an interface removes exactly its entries, keeps the others, leaves no line of the interface in the file, and
  returns an error if the interface had no entry.\<close>

lemma resolver_remove_all_forgets:
  assumes "rs_wf env w"
  shows "succeeds (resolver_remove_all env (Some i) w) (\<lambda>(r, w'). rs_wf env w' \<and>
    r = (if \<exists>e \<in> ran (rs_entries w). ed_interface e = Some i then 0 else - ENOENT) \<and>
    ran (rs_entries w') = {e \<in> ran (rs_entries w). ed_interface e \<noteq> Some i} \<and>
    (\<forall>f \<in> set (resolvfile_list w'). rf_interface f \<noteq> i))"
  using assms by (rule forget_interface_effect)

lemma resolver_remove_all_forgets_witness:
  "succeeds (resolver_remove_all resolver_env (Some ''eth0'') resolver_example) (\<lambda>(r, w').
    r = 0 \<and> (\<forall>f \<in> set (resolvfile_list w'). rf_interface f \<noteq> ''eth0''))"
proof -
  have "rs_wf resolver_env resolver_example" using rs.run_from_start [OF example_start example_run] by (simp add: resolver_inv_def)
  moreover have "map_option ed_interface (rs_entries resolver_example 0) = Some (Some ''eth0'')" by code_simp
  then have "\<exists>e \<in> ran (rs_entries resolver_example). ed_interface e = Some ''eth0''" by (auto simp: ran_def)
  ultimately show ?thesis using resolver_remove_all_forgets [of resolver_env resolver_example "''eth0''"] by (auto elim!: succeeds_mono)
qed

end
