(* ===== verification/Ipconfig.thy ===== *)
theory Ipconfig
  imports Gateway
begin

text \<open>
  Interfaces and their IP configurations, \<^verbatim>\<open>src/ipconfig.c\<close>: a table of the devices that the kernel
  reports, reference counted configurations on an explicit heap, and the list of the configurations that are in use.
  The calls to other components, the callbacks of a configuration among them, are a trace.
\<close>

section \<open>State\<close>

record connman_ipaddress =
  ia_family :: int
  ia_prefixlen :: u8
  ia_local :: "string option"
  ia_peer :: "string option"
  ia_broadcast :: "string option"
  ia_gateway :: "string option"

datatype connman_ipconfig_method = METHOD_UNKNOWN | METHOD_OFF | METHOD_FIXED | METHOD_MANUAL | METHOD_DHCP | METHOD_AUTO

text \<open>The operations of a configuration: those of its callbacks that are not null.\<close>

datatype ipconfig_op = Op_up | Op_down | Op_lower_up | Op_lower_down | Op_ip_bound | Op_ip_release

text \<open>
  A configuration owns its two addresses. (The field \<open>origin\<close> of the struct is left out: nothing in the
  program ever sets it.)
\<close>

record connman_ipconfig =
  ic_refcount :: int
  ic_index :: int
  ic_type :: connman_ipconfig_type
  ic_ops :: "ipconfig_op list option"
  ic_ops_data :: "svc option"
  ic_method :: connman_ipconfig_method
  ic_address :: "connman_ipaddress option"
  ic_system :: "connman_ipaddress option"
  ic_ipv6_privacy_config :: int
  ic_last_dhcp_address :: "string option"

record rtnl_link_stats =
  ls_rx_packets :: u32
  ls_tx_packets :: u32
  ls_rx_bytes :: u32
  ls_tx_bytes :: u32
  ls_rx_errors :: u32
  ls_tx_errors :: u32
  ls_rx_dropped :: u32
  ls_tx_dropped :: u32

record connman_ipdevice =
  id_index :: int
  id_ifname :: "string option"
  id_type :: u16
  id_flags :: u32
  id_address :: "string option"
  id_mtu :: u16
  id_stats :: rtnl_link_stats
  id_address_list :: "connman_ipaddress list"
  id_ipv4_gateway :: "string option"
  id_ipv6_gateway :: "string option"
  id_pac :: "string option"
  id_config_ipv4 :: "addr option"
  id_config_ipv6 :: "addr option"
  id_ipv6_enabled :: bool
  id_ipv6_privacy :: int

datatype ip_call =
    Ip_alloc
  | Write_proc string string
  | Inet_set_address int "connman_ipaddress option"
  | Inet_set_ipv6_address int "connman_ipaddress option"
  | Inet_clear_address int "connman_ipaddress option"
  | Inet_clear_ipv6_address int "string option" u8
  | Service_notify svc rtnl_link_stats
  | Callback ipconfig_op addr

text \<open>
  The table of devices is none before \<open>init\<close> and after \<open>cleanup\<close>; a lookup in it then finds nothing, as
  GLib does for a null table.
\<close>

record ip_world =
  ipdevice_hash :: "(int \<times> connman_ipdevice) list option"
  iw_configs :: "addr \<rightharpoonup> connman_ipconfig"
  ipconfig_list :: "addr list"
  iw_next :: addr
  iw_trace :: "ip_call list"

text \<open>
  What belongs to the system and to other components: results of calls (an allocation fails with a negative
  number), names of interfaces, numbers read from files of \<^verbatim>\<open>/proc\<close> (none when the file cannot be read), the parsers of the C library
  and of GLib, the service of an interface, and whether \<^verbatim>\<open>6to4.c\<close> uses a configuration. A write to a file of \<^verbatim>\<open>/proc\<close> is one call of the
  trace; the code ignores whether the file could be opened.
\<close>

record ip_env =
  ie_result :: "nat \<Rightarrow> ip_call \<Rightarrow> int"
  ie_ifname :: "nat \<Rightarrow> int \<Rightarrow> string option"
  ie_read_proc :: "nat \<Rightarrow> string \<Rightarrow> int option"
  ie_inet_network :: "string \<Rightarrow> u32"
  ie_inet_pton6 :: "string \<Rightarrow> bool"
  ie_atoi :: "string \<Rightarrow> int"
  ie_key_integer :: "string \<Rightarrow> int option"
  ie_service :: "nat \<Rightarrow> int \<Rightarrow> svc option"
  ie_6to4_check :: "nat \<Rightarrow> addr \<Rightarrow> bool"

abbreviation (input) ip_now :: "ip_world \<Rightarrow> nat" where "ip_now w \<equiv> length (iw_trace w)"

definition ip_tell :: "ip_call \<Rightarrow> ip_world \<Rightarrow> ip_world" where
  "ip_tell c w = w\<lparr>iw_trace := iw_trace w @ [c]\<rparr>"

definition ip_ask :: "ip_env \<Rightarrow> ip_call \<Rightarrow> ip_world \<Rightarrow> int \<times> ip_world" where
  "ip_ask env c w = (ie_result env (ip_now w) c, ip_tell c w)"

definition config_of :: "ip_world \<Rightarrow> addr \<Rightarrow> connman_ipconfig result" where
  "config_of w p = (case iw_configs w p of None \<Rightarrow> Inl UseAfterFree | Some c \<Rightarrow> Inr c)"

definition put_config :: "addr \<Rightarrow> connman_ipconfig \<Rightarrow> ip_world \<Rightarrow> ip_world" where
  "put_config p c w = w\<lparr>iw_configs := (iw_configs w)(p \<mapsto> c)\<rparr>"

definition upd_config :: "addr \<Rightarrow> (connman_ipconfig \<Rightarrow> connman_ipconfig) \<Rightarrow> ip_world \<Rightarrow> ip_world result" where
  "upd_config p f w = bind_r (config_of w p) (\<lambda>c. Inr (put_config p (f c) w))"

definition device_of :: "ip_world \<Rightarrow> int \<Rightarrow> connman_ipdevice option" where
  "device_of w index = (case ipdevice_hash w of None \<Rightarrow> None | Some h \<Rightarrow> map_of h index)"

definition upd_device :: "int \<Rightarrow> (connman_ipdevice \<Rightarrow> connman_ipdevice) \<Rightarrow> ip_world \<Rightarrow> ip_world" where
  "upd_device index f w =
     w\<lparr>ipdevice_hash := map_option (map (\<lambda>(i, d). (i, if i = index then f d else d))) (ipdevice_hash w)\<rparr>"

section \<open>Addresses\<close>

definition AF_INET :: int where "AF_INET = 2"
definition AF_INET6 :: int where "AF_INET6 = 10"

definition new_ipaddress :: "int \<Rightarrow> connman_ipaddress" where
  "new_ipaddress family = \<lparr>ia_family = family, ia_prefixlen = 0, ia_local = None, ia_peer = None, ia_broadcast = None, ia_gateway = None\<rparr>"

definition ipaddress_alloc :: "ip_env \<Rightarrow> int \<Rightarrow> ip_world \<Rightarrow> connman_ipaddress option \<times> ip_world" where
  "ipaddress_alloc env family w = (let (m, w1) = ip_ask env Ip_alloc w in (if m < 0 then None else Some (new_ipaddress family), w1))"

text \<open>The loop that shifts the mask to the left until it is zero.\<close>

function mask_bits :: "u32 \<Rightarrow> u8 \<Rightarrow> u8" where
  "mask_bits m bits = (if m = 0 then bits else mask_bits (push_bit 1 m) (bits + 1))"
  by pat_completeness auto

lemma push_bit_32: "push_bit 32 (m :: u32) = 0"
  by (rule bit_word_eqI) (auto simp: bit_push_bit_iff)

termination mask_bits
proof (relation "measure (\<lambda>(m, b). LEAST n. push_bit n m = 0)", simp)
  fix m :: u32 and b :: u8
  assume m: "m \<noteq> 0"
  obtain k where k: "(LEAST n. push_bit n m = 0) = Suc k"
    using m LeastI [of "\<lambda>n. push_bit n m = 0" 32] push_bit_32 [of m] by (cases "LEAST n. push_bit n m = 0") auto
  have "push_bit (Suc k) m = 0" using k LeastI [of "\<lambda>n. push_bit n m = 0" 32] push_bit_32 [of m] by simp
  then have "push_bit k (push_bit 1 m) = 0" by (simp add: push_bit_push_bit)
  then have "(LEAST n. push_bit n (push_bit 1 m) = 0) \<le> k" by (rule Least_le)
  then show "((push_bit 1 m, b + 1), m, b) \<in> measure (\<lambda>(m, b). LEAST n. push_bit n m = 0)" using k by simp
qed

declare mask_bits.simps [simp del]

definition netmask_prefix_len :: "ip_env \<Rightarrow> string option \<Rightarrow> u8" where
  "netmask_prefix_len env netmask =
     (case netmask of
        None \<Rightarrow> 32
      | Some s \<Rightarrow>
          let m = ie_inet_network env s; host = NOT m in
          if host AND (host + 1) \<noteq> 0 then - 1 else mask_bits m 0)"

definition check_ipv6_address :: "ip_env \<Rightarrow> string option \<Rightarrow> bool" where
  "check_ipv6_address env address = (case address of None \<Rightarrow> False | Some s \<Rightarrow> ie_inet_pton6 env s)"

definition ipaddress_set_ipv6 ::
  "ip_env \<Rightarrow> connman_ipaddress option \<Rightarrow> string option \<Rightarrow> u8 \<Rightarrow> string option \<Rightarrow> int \<times> connman_ipaddress option" where
  "ipaddress_set_ipv6 env ipaddress address prefix_length gateway =
     (case ipaddress of
        None \<Rightarrow> (- EINVAL, None)
      | Some a \<Rightarrow>
          if \<not> check_ipv6_address env address then (- EINVAL, Some a)
          else if \<not> check_ipv6_address env gateway then (- EINVAL, Some a)
          else (0, Some (a\<lparr>ia_family := AF_INET6, ia_prefixlen := prefix_length, ia_local := address, ia_gateway := gateway\<rparr>)))"

definition ipaddress_set_ipv4 ::
  "ip_env \<Rightarrow> connman_ipaddress option \<Rightarrow> string option \<Rightarrow> string option \<Rightarrow> string option \<Rightarrow> int \<times> connman_ipaddress option" where
  "ipaddress_set_ipv4 env ipaddress address netmask gateway =
     (case ipaddress of
        None \<Rightarrow> (- EINVAL, None)
      | Some a \<Rightarrow> (0, Some (a\<lparr>ia_family := AF_INET, ia_prefixlen := netmask_prefix_len env netmask, ia_local := address, ia_gateway := gateway\<rparr>)))"

definition ipaddress_set_peer :: "string option \<Rightarrow> connman_ipaddress option \<Rightarrow> connman_ipaddress option" where
  "ipaddress_set_peer peer ipaddress = map_option (\<lambda>a. a\<lparr>ia_peer := peer\<rparr>) ipaddress"

definition ipaddress_clear :: "connman_ipaddress option \<Rightarrow> connman_ipaddress option" where
  "ipaddress_clear ipaddress =
     map_option (\<lambda>a. a\<lparr>ia_prefixlen := 0, ia_local := None, ia_peer := None, ia_broadcast := None, ia_gateway := None\<rparr>) ipaddress"

definition ipaddress_copy :: "connman_ipaddress option \<Rightarrow> connman_ipaddress option \<Rightarrow> connman_ipaddress option" where
  "ipaddress_copy ipaddress source =
     (case (ipaddress, source) of
        (Some a, Some s) \<Rightarrow> Some \<lparr>ia_family = ia_family s, ia_prefixlen = ia_prefixlen s, ia_local = ia_local s, ia_peer = ia_peer s,
          ia_broadcast = ia_broadcast s, ia_gateway = ia_gateway s\<rparr>
      | _ \<Rightarrow> ipaddress)"

definition find_ipaddress :: "connman_ipdevice \<Rightarrow> u8 \<Rightarrow> string option \<Rightarrow> connman_ipaddress option" where
  "find_ipaddress ipdevice prefixlen local =
     find (\<lambda>a. ia_local a = local \<and> ia_prefixlen a = prefixlen) (id_address_list ipdevice)"

definition type2string :: "connman_ipconfig_type \<Rightarrow> string" where
  "type2string type = (case type of TYPE_ALL \<Rightarrow> ''unknown'' | TYPE_IPV4 \<Rightarrow> ''IPv4'' | TYPE_IPV6 \<Rightarrow> ''IPv6'')"

section \<open>Files of the kernel\<close>

definition ipv6_file :: "string option \<Rightarrow> string" where
  "ipv6_file ifname =
     (case ifname of None \<Rightarrow> ''/proc/sys/net/ipv6/conf/all/disable_ipv6''
      | Some i \<Rightarrow> ''/proc/sys/net/ipv6/conf/'' @ i @ ''/disable_ipv6'')"

definition get_ipv6_state :: "ip_env \<Rightarrow> string option \<Rightarrow> ip_world \<Rightarrow> bool" where
  "get_ipv6_state env ifname w =
     (case ie_read_proc env (ip_now w) (ipv6_file ifname) of None \<Rightarrow> False | Some disabled \<Rightarrow> disabled = 0)"

definition set_ipv6_state :: "string option \<Rightarrow> bool \<Rightarrow> ip_world \<Rightarrow> ip_world" where
  "set_ipv6_state ifname enable w = ip_tell (Write_proc (ipv6_file ifname) (if enable then ''0'' else ''1'')) w"

definition get_ipv6_privacy :: "ip_env \<Rightarrow> string option \<Rightarrow> ip_world \<Rightarrow> int" where
  "get_ipv6_privacy env ifname w =
     (case ifname of None \<Rightarrow> 0
      | Some i \<Rightarrow> (case ie_read_proc env (ip_now w) (''/proc/sys/net/ipv6/conf/'' @ i @ ''/use_tempaddr'') of None \<Rightarrow> 0 | Some v \<Rightarrow> v))"

definition show_int :: "int \<Rightarrow> string" where
  "show_int i = (if i < 0 then ''-'' @ show_nat (nat (- i)) else show_nat (nat i))"

definition set_ipv6_privacy :: "string option \<Rightarrow> int \<Rightarrow> ip_world \<Rightarrow> ip_world" where
  "set_ipv6_privacy ifname value w =
     (case ifname of None \<Rightarrow> w
      | Some i \<Rightarrow> ip_tell (Write_proc (''/proc/sys/net/ipv6/conf/'' @ i @ ''/use_tempaddr'') (show_int (if value < 0 then 0 else value))) w)"

abbreviation rp_filter_file :: string where "rp_filter_file \<equiv> ''/proc/sys/net/ipv4/conf/all/rp_filter''"

definition get_rp_filter :: "ip_env \<Rightarrow> ip_world \<Rightarrow> int" where
  "get_rp_filter env w = (case ie_read_proc env (ip_now w) rp_filter_file of None \<Rightarrow> - EINVAL | Some v \<Rightarrow> v)"

definition set_rp_filter :: "int \<Rightarrow> ip_world \<Rightarrow> ip_world" where
  "set_rp_filter value w = ip_tell (Write_proc rp_filter_file (show_int value)) w"

definition ipconfig_set_rp_filter :: "ip_env \<Rightarrow> ip_world \<Rightarrow> int \<times> ip_world" where
  "ipconfig_set_rp_filter env w = (let value = get_rp_filter env w in if value < 0 then (value, w) else (value, set_rp_filter 2 w))"

definition ipconfig_unset_rp_filter :: "int \<Rightarrow> ip_world \<Rightarrow> ip_world" where
  "ipconfig_unset_rp_filter old_value w = set_rp_filter old_value w"

section \<open>Reference counts\<close>

definition ipconfig_ref :: "addr \<Rightarrow> ip_world \<Rightarrow> ip_world result" where
  "ipconfig_ref p w = upd_config p (\<lambda>c. c\<lparr>ic_refcount := ic_refcount c + 1\<rparr>) w"

definition disable_ipv6 :: "int \<Rightarrow> ip_world \<Rightarrow> ip_world" where
  "disable_ipv6 index w = (case device_of w index of None \<Rightarrow> w | Some d \<Rightarrow> set_ipv6_state (id_ifname d) False w)"

definition enable_ipv6 :: "connman_ipconfig \<Rightarrow> ip_world \<Rightarrow> ip_world" where
  "enable_ipv6 c w =
     (case device_of w (ic_index c) of
        None \<Rightarrow> w
      | Some d \<Rightarrow> set_ipv6_state (id_ifname d) True
          (if ic_method c = METHOD_AUTO then set_ipv6_privacy (id_ifname d) (ic_ipv6_privacy_config c) w else w))"

text \<open>Taking a configuration off the list and clearing the address that the kernel reported.\<close>

definition retire_config :: "addr \<Rightarrow> ip_world \<Rightarrow> ip_world" where
  "retire_config p w = w\<lparr>ipconfig_list := remove1 p (ipconfig_list w),
     iw_configs := (iw_configs w)(p := map_option (\<lambda>c. c\<lparr>ic_system := ipaddress_clear (ic_system c)\<rparr>) (iw_configs w p))\<rparr>"

text \<open>
  Dropping the last reference disables the configuration, and disabling a configuration drops the reference of
  its device: the two functions call each other, at most once.
\<close>

function (sequential) unref_config :: "addr \<Rightarrow> ip_world \<Rightarrow> ip_world result"
  and disable_config :: "addr \<Rightarrow> ip_world \<Rightarrow> (int \<times> ip_world) result" where
  "unref_config p w =
     (case iw_configs w p of
        None \<Rightarrow> Inl UseAfterFree
      | Some c \<Rightarrow>
          let w1 = put_config p (c\<lparr>ic_refcount := ic_refcount c - 1\<rparr>) w in
          if ic_refcount c \<noteq> 1 then Inr w1
          else
            (case disable_config p w1 of
               Inl e \<Rightarrow> Inl e
             | Inr (r, w2) \<Rightarrow>
                 let w3 = (if r < 0 then w2\<lparr>ipconfig_list := remove1 p (ipconfig_list w2)\<rparr> else w2) in
                 Inr (w3\<lparr>iw_configs := (iw_configs w3)(p := None)\<rparr>)))"
| "disable_config p w =
     (case iw_configs w p of
        None \<Rightarrow> Inl UseAfterFree
      | Some c \<Rightarrow>
          if ic_index c < 0 then Inr (- ENODEV, w)
          else
            (case device_of w (ic_index c) of
               None \<Rightarrow> Inr (- ENXIO, w)
             | Some d \<Rightarrow>
                 if id_config_ipv4 d = None \<and> id_config_ipv6 d = None then Inr (- EINVAL, w)
                 else if id_config_ipv4 d = Some p then
                   (case unref_config p (retire_config p w) of
                      Inl e \<Rightarrow> Inl e
                    | Inr w1 \<Rightarrow> Inr (0, upd_device (ic_index c) (\<lambda>d. d\<lparr>id_config_ipv4 := None\<rparr>) w1))
                 else if id_config_ipv6 d = Some p then
                   (case unref_config p (retire_config p (if ic_method c = METHOD_AUTO then disable_ipv6 (ic_index c) w else w)) of
                      Inl e \<Rightarrow> Inl e
                    | Inr w1 \<Rightarrow> Inr (0, upd_device (ic_index c) (\<lambda>d. d\<lparr>id_config_ipv6 := None\<rparr>) w1))
                 else Inr (- EINVAL, w)))"
  by pat_completeness auto

definition last_reference :: "addr \<Rightarrow> ip_world \<Rightarrow> nat" where
  "last_reference p w = (case iw_configs w p of None \<Rightarrow> 0 | Some c \<Rightarrow> if ic_refcount c = 1 then 1 else 0)"

lemma last_reference_frame:
  "last_reference p (retire_config p w) = last_reference p w" "last_reference p (disable_ipv6 i w) = last_reference p w"
  by (auto simp: last_reference_def retire_config_def disable_ipv6_def set_ipv6_state_def ip_tell_def split: option.splits)

termination unref_config
proof (relation "measure (\<lambda>x. case x of Inl (p, w) \<Rightarrow> 2 * last_reference p w | Inr (p, w) \<Rightarrow> 2 * last_reference p w + 1)")
qed (auto simp: last_reference_frame, auto simp: last_reference_def put_config_def)

declare unref_config.simps [simp del] disable_config.simps [simp del]

definition ipconfig_unref :: "addr option \<Rightarrow> ip_world \<Rightarrow> ip_world result" where
  "ipconfig_unref ipconfig w = (case ipconfig of None \<Rightarrow> Inr w | Some p \<Rightarrow> unref_config p w)"

definition ipconfig_disable :: "addr option \<Rightarrow> ip_world \<Rightarrow> (int \<times> ip_world) result" where
  "ipconfig_disable ipconfig w = (case ipconfig of None \<Rightarrow> Inr (- ENODEV, w) | Some p \<Rightarrow> disable_config p w)"

end
