(* ===== verification/Ipconfig_Events.thy ===== *)
theory Ipconfig_Events
  imports Ipconfig
begin

text \<open>
  What the kernel reports about interfaces, and the use of a configuration by its owner: the second
  part of \<^verbatim>\<open>src/ipconfig.c\<close>. A callback is a call of the trace; it does not change the state of this component.
\<close>

section \<open>Callbacks\<close>

text \<open>The callbacks that the code tries, in its order, as far as they are not null.\<close>

definition call_ops :: "ipconfig_op list \<Rightarrow> ipconfig_op list \<Rightarrow> addr \<Rightarrow> ip_world \<Rightarrow> ip_world" where
  "call_ops wanted ops p w = w\<lparr>iw_trace := iw_trace w @ map (\<lambda>oper. Callback oper p) (filter (\<lambda>oper. oper \<in> set ops) wanted)\<rparr>"

text \<open>The loop over the list: the configurations of an interface, and of a family when one is given.\<close>

fun notify_loop :: "ipconfig_op list \<Rightarrow> int \<Rightarrow> connman_ipconfig_type option \<Rightarrow> addr list \<Rightarrow> ip_world \<Rightarrow> ip_world result" where
  "notify_loop wanted index type [] w = Inr w"
| "notify_loop wanted index type (p # ps) w =
     bind_r (config_of w p) (\<lambda>c.
     if ic_index c \<noteq> index then notify_loop wanted index type ps w
     else if type \<noteq> None \<and> type \<noteq> Some (ic_type c) then notify_loop wanted index type ps w
     else
       case ic_ops c of
         None \<Rightarrow> notify_loop wanted index type ps w
       | Some ops \<Rightarrow> notify_loop wanted index type ps (call_ops wanted ops p w))"

section \<open>Links\<close>

definition ARPHRD_LOOPBACK :: u16 where "ARPHRD_LOOPBACK = 772"
definition ARPHRD_VOID :: u16 where "ARPHRD_VOID = 0xFFFF"
definition IFF_UP :: u32 where "IFF_UP = 0x1"
definition IFF_RUNNING :: u32 where "IFF_RUNNING = 0x40"
definition IFF_LOWER_UP :: u32 where "IFF_LOWER_UP = 0x10000"

abbreviation link_carrier :: u32 where "link_carrier \<equiv> IFF_RUNNING OR IFF_LOWER_UP"

definition free_ipdevice :: "connman_ipdevice \<Rightarrow> ip_world \<Rightarrow> ip_world result" where
  "free_ipdevice ipdevice w =
     bind_r (ipconfig_unref (id_config_ipv4 ipdevice) w) (\<lambda>w1.
     bind_r (ipconfig_unref (id_config_ipv6 ipdevice) w1) (\<lambda>w2.
     Inr (set_ipv6_privacy (id_ifname ipdevice) (id_ipv6_privacy ipdevice) (set_ipv6_state (id_ifname ipdevice) (id_ipv6_enabled ipdevice) w2))))"

definition ipconfig_lower_down :: "connman_ipdevice \<Rightarrow> ip_world \<Rightarrow> ip_world result" where
  "ipconfig_lower_down ipdevice w =
     bind_r (case id_config_ipv4 ipdevice of
         None \<Rightarrow> Inr w
       | Some p \<Rightarrow> bind_r (config_of w p) (\<lambda>c. Inr (ip_tell (Inet_clear_address (id_index ipdevice) (ic_address c)) w))) (\<lambda>w1.
     case id_config_ipv6 ipdevice of
       None \<Rightarrow> Inr w1
     | Some p \<Rightarrow>
         bind_r (config_of w1 p) (\<lambda>c.
         case ic_address c of
           None \<Rightarrow> Inl NullDeref
         | Some a \<Rightarrow> Inr (ip_tell (Inet_clear_ipv6_address (id_index ipdevice) (ia_local a) (ia_prefixlen a)) w1)))"

text \<open>The service of the device: the data of its first configuration.\<close>

definition device_service :: "connman_ipdevice \<Rightarrow> ip_world \<Rightarrow> svc option result" where
  "device_service ipdevice w =
     (case (id_config_ipv4 ipdevice, id_config_ipv6 ipdevice) of
        (Some p, _) \<Rightarrow> bind_r (config_of w p) (\<lambda>c. Inr (ic_ops_data c))
      | (None, Some p) \<Rightarrow> bind_r (config_of w p) (\<lambda>c. Inr (ic_ops_data c))
      | (None, None) \<Rightarrow> Inr None)"

definition update_stats :: "int \<Rightarrow> connman_ipdevice \<Rightarrow> rtnl_link_stats \<Rightarrow> ip_world \<Rightarrow> ip_world result" where
  "update_stats index ipdevice stats w =
     (if ls_rx_packets stats = 0 \<and> ls_tx_packets stats = 0 then Inr w
      else
        bind_r (device_service ipdevice w) (\<lambda>service.
        case service of
          None \<Rightarrow> Inr w
        | Some s \<Rightarrow> Inr (ip_tell (Service_notify s stats) (upd_device index (\<lambda>d. d\<lparr>id_stats := stats\<rparr>) w))))"

definition no_stats :: rtnl_link_stats where
  "no_stats = \<lparr>ls_rx_packets = 0, ls_tx_packets = 0, ls_rx_bytes = 0, ls_tx_bytes = 0, ls_rx_errors = 0, ls_tx_errors = 0,
     ls_rx_dropped = 0, ls_tx_dropped = 0\<rparr>"

text \<open>A new device; without a table GLib ignores the insertion.\<close>

definition new_device :: "ip_env \<Rightarrow> int \<Rightarrow> u16 \<Rightarrow> string option \<Rightarrow> ip_world \<Rightarrow> connman_ipdevice" where
  "new_device env index type address w =
     (let ifname = ie_ifname env (ip_now w) index in
      \<lparr>id_index = index, id_ifname = ifname, id_type = type, id_flags = 0, id_address = address, id_mtu = 0, id_stats = no_stats,
        id_address_list = [], id_ipv4_gateway = None, id_ipv6_gateway = None, id_pac = None, id_config_ipv4 = None, id_config_ipv6 = None,
        id_ipv6_enabled = get_ipv6_state env ifname w, id_ipv6_privacy = get_ipv6_privacy env ifname w\<rparr>)"

definition insert_device :: "connman_ipdevice \<Rightarrow> ip_world \<Rightarrow> ip_world" where
  "insert_device d w = w\<lparr>ipdevice_hash := map_option (\<lambda>h. h @ [(id_index d, d)]) (ipdevice_hash w)\<rparr>"

definition link_ops :: "u32 \<Rightarrow> u32 \<Rightarrow> ipconfig_op list" where
  "link_ops old flags =
     (let changed = (old AND IFF_UP \<noteq> flags AND IFF_UP); lower = (old AND link_carrier \<noteq> flags AND link_carrier) in
      (if changed \<and> flags AND IFF_UP \<noteq> 0 then [Op_up] else []) @
      (if lower \<and> flags AND link_carrier = link_carrier then [Op_lower_up] else []) @
      (if lower \<and> flags AND link_carrier = 0 then [Op_lower_down] else []) @
      (if changed \<and> flags AND IFF_UP = 0 then [Op_down] else []))"

definition update_link :: "int \<Rightarrow> u32 \<Rightarrow> u16 \<Rightarrow> rtnl_link_stats \<Rightarrow> connman_ipdevice \<Rightarrow> ip_world \<Rightarrow> ip_world result" where
  "update_link index flags mtu stats d w =
     bind_r (update_stats index d stats (upd_device index (\<lambda>d. d\<lparr>id_mtu := mtu\<rparr>) w)) (\<lambda>w1.
     if flags = id_flags d then Inr w1
     else
       let wanted = link_ops (id_flags d) flags in
       bind_r (notify_loop wanted index None (ipconfig_list w1) (upd_device index (\<lambda>d. d\<lparr>id_flags := flags\<rparr>) w1)) (\<lambda>w2.
       if Op_lower_down \<in> set wanted then ipconfig_lower_down d w2 else Inr w2))"

definition ipconfig_newlink ::
  "ip_env \<Rightarrow> int \<Rightarrow> u16 \<Rightarrow> u32 \<Rightarrow> string option \<Rightarrow> u16 \<Rightarrow> rtnl_link_stats \<Rightarrow> ip_world \<Rightarrow> ip_world result" where
  "ipconfig_newlink env index type flags address mtu stats w =
     (if type = ARPHRD_LOOPBACK then Inr w
      else
        case device_of w index of
          Some d \<Rightarrow> update_link index flags mtu stats d w
        | None \<Rightarrow>
            let (m, w1) = ip_ask env Ip_alloc w in
            if m < 0 then Inr w1
            else let d = new_device env index type address w1 in update_link index flags mtu stats d (insert_device d w1))"

text \<open>A link that is gone: its configurations lose their index and are told, and the device is freed.\<close>

fun unlink_loop :: "int \<Rightarrow> addr list \<Rightarrow> ip_world \<Rightarrow> ip_world result" where
  "unlink_loop index [] w = Inr w"
| "unlink_loop index (p # ps) w =
     bind_r (config_of w p) (\<lambda>c.
     if ic_index c \<noteq> index then unlink_loop index ps w
     else
       let w1 = put_config p (c\<lparr>ic_index := - 1\<rparr>) w in
       case ic_ops c of
         None \<Rightarrow> unlink_loop index ps w1
       | Some ops \<Rightarrow> unlink_loop index ps (call_ops [Op_lower_down, Op_down] ops p w1))"

definition remove_device :: "int \<Rightarrow> ip_world \<Rightarrow> ip_world" where
  "remove_device index w = w\<lparr>ipdevice_hash := map_option (filter (\<lambda>x. fst x \<noteq> index)) (ipdevice_hash w)\<rparr>"

definition ipconfig_dellink :: "int \<Rightarrow> rtnl_link_stats \<Rightarrow> ip_world \<Rightarrow> ip_world result" where
  "ipconfig_dellink index stats w =
     (case device_of w index of
        None \<Rightarrow> Inr w
      | Some d \<Rightarrow>
          bind_r (update_stats index d stats w) (\<lambda>w1.
          bind_r (unlink_loop index (ipconfig_list w1) w1) (\<lambda>w2.
          bind_r (ipconfig_lower_down d w2) (\<lambda>w3.
          free_ipdevice d (remove_device index w3)))))"

section \<open>Addresses and routes of a link\<close>

definition check_duplicate_address :: "connman_ipaddress \<Rightarrow> connman_ipaddress \<Rightarrow> bool" where
  "check_duplicate_address a b \<longleftrightarrow> ia_prefixlen a = ia_prefixlen b \<and> ia_local a = ia_local b"

definition family_type :: "int \<Rightarrow> connman_ipconfig_type option" where
  "family_type family = (if family = AF_INET then Some TYPE_IPV4 else if family = AF_INET6 then Some TYPE_IPV6 else None)"

definition config_slot :: "connman_ipconfig_type \<Rightarrow> connman_ipdevice \<Rightarrow> addr option" where
  "config_slot type d = (if type = TYPE_IPV6 then id_config_ipv6 d else id_config_ipv4 d)"

definition upd_system :: "(connman_ipaddress option \<Rightarrow> connman_ipaddress option) \<Rightarrow> addr \<Rightarrow> ip_world \<Rightarrow> ip_world result" where
  "upd_system f p w = upd_config p (\<lambda>c. c\<lparr>ic_system := f (ic_system c)\<rparr>) w"

definition ipconfig_newaddr :: "ip_env \<Rightarrow> int \<Rightarrow> int \<Rightarrow> u8 \<Rightarrow> string option \<Rightarrow> ip_world \<Rightarrow> ip_world result" where
  "ipconfig_newaddr env index family prefixlen address w =
     (case device_of w index of
        None \<Rightarrow> Inr w
      | Some d \<Rightarrow>
          let (a, w1) = ipaddress_alloc env family w in
          case a of
            None \<Rightarrow> Inr w1
          | Some a0 \<Rightarrow>
              let ipaddress = a0\<lparr>ia_prefixlen := prefixlen, ia_local := address\<rparr> in
              if \<exists>b \<in> set (id_address_list d). check_duplicate_address b ipaddress then Inr w1
              else
                case family_type family of
                  None \<Rightarrow> Inr w1
                | Some type \<Rightarrow>
                    let w2 = upd_device index (\<lambda>d. d\<lparr>id_address_list := id_address_list d @ [ipaddress]\<rparr>) w1 in
                    case config_slot type d of
                      None \<Rightarrow> Inr w2
                    | Some p \<Rightarrow>
                        bind_r (upd_system (\<lambda>s. ipaddress_copy s (Some ipaddress)) p w2) (\<lambda>w3.
                        if id_flags d AND link_carrier \<noteq> link_carrier then Inr w3
                        else notify_loop [Op_ip_bound] index (Some type) (ipconfig_list w3) w3))"

definition ipconfig_deladdr :: "int \<Rightarrow> int \<Rightarrow> u8 \<Rightarrow> string option \<Rightarrow> ip_world \<Rightarrow> ip_world result" where
  "ipconfig_deladdr index family prefixlen address w =
     (case device_of w index of
        None \<Rightarrow> Inr w
      | Some d \<Rightarrow>
          (case find_ipaddress d prefixlen address of
             None \<Rightarrow> Inr w
           | Some a \<Rightarrow>
               (case family_type family of
                  None \<Rightarrow> Inr w
                | Some type \<Rightarrow>
                    let rest = remove1 a (id_address_list d); w1 = upd_device index (\<lambda>d. d\<lparr>id_address_list := rest\<rparr>) w in
                    if id_flags d AND link_carrier \<noteq> link_carrier then Inr w1
                    else if rest \<noteq> [] then Inr w1
                    else notify_loop [Op_ip_release] index (Some type) (ipconfig_list w1) w1)))"

definition default_dst :: "u8 \<Rightarrow> string option \<Rightarrow> bool" where
  "default_dst scope dst \<longleftrightarrow> scope = 0 \<and> (dst = Some any4 \<or> dst = Some any6)"

text \<open>A default route that was added or deleted: the gateway of the device, of its configuration and of all its addresses.\<close>

definition set_route_gateway ::
  "connman_ipconfig_type \<Rightarrow> string option \<Rightarrow> ipconfig_op \<Rightarrow> int \<Rightarrow> connman_ipdevice \<Rightarrow> ip_world \<Rightarrow> ip_world result" where
  "set_route_gateway type gateway wanted index d w =
     (let w1 = upd_device index (\<lambda>d.
            (if type = TYPE_IPV6 then d\<lparr>id_ipv6_gateway := gateway\<rparr> else d\<lparr>id_ipv4_gateway := gateway\<rparr>)
              \<lparr>id_address_list := map (\<lambda>a. a\<lparr>ia_gateway := gateway\<rparr>) (id_address_list d)\<rparr>) w in
      bind_r (case config_slot type d of
          None \<Rightarrow> Inr w1
        | Some p \<Rightarrow> upd_system (map_option (\<lambda>a. a\<lparr>ia_gateway := gateway\<rparr>)) p w1) (\<lambda>w2.
      notify_loop [wanted] index (Some type) (ipconfig_list w2) w2))"

definition ipconfig_newroute :: "int \<Rightarrow> int \<Rightarrow> u8 \<Rightarrow> string option \<Rightarrow> string option \<Rightarrow> ip_world \<Rightarrow> ip_world result" where
  "ipconfig_newroute index family scope dst gateway w =
     (case device_of w index of
        None \<Rightarrow> Inr w
      | Some d \<Rightarrow>
          if \<not> default_dst scope dst then Inr w
          else (case family_type family of None \<Rightarrow> Inr w | Some type \<Rightarrow> set_route_gateway type gateway Op_ip_bound index d w))"

definition ipconfig_delroute :: "int \<Rightarrow> int \<Rightarrow> u8 \<Rightarrow> string option \<Rightarrow> string option \<Rightarrow> ip_world \<Rightarrow> ip_world result" where
  "ipconfig_delroute index family scope dst gateway w =
     (case device_of w index of
        None \<Rightarrow> Inr w
      | Some d \<Rightarrow>
          if \<not> default_dst scope dst then Inr w
          else (case family_type family of None \<Rightarrow> Inr w | Some type \<Rightarrow> set_route_gateway type None Op_ip_release index d w))"

definition ipconfig_foreach :: "(int \<Rightarrow> 'u \<Rightarrow> 'u) \<Rightarrow> ip_world \<Rightarrow> 'u \<Rightarrow> 'u" where
  "ipconfig_foreach f w u = (case ipdevice_hash w of None \<Rightarrow> u | Some h \<Rightarrow> fold f (map fst h) u)"

section \<open>Use by the owner\<close>

definition create_config :: "ip_env \<Rightarrow> int \<Rightarrow> connman_ipconfig_type \<Rightarrow> connman_ipconfig_method \<Rightarrow> ip_world \<Rightarrow> addr option \<times> ip_world" where
  "create_config env index type method w =
     (let (m, w1) = ip_ask env Ip_alloc w in
      if m < 0 then (None, w1)
      else
        let family = (if type = TYPE_IPV6 then AF_INET6 else AF_INET); (address, w2) = ipaddress_alloc env family w1 in
        if address = None then (None, w2)
        else
          let (system, w3) = ipaddress_alloc env family w2; p = iw_next w3 in
          (Some p, put_config p \<lparr>ic_refcount = 1, ic_index = index, ic_type = type, ic_ops = None, ic_ops_data = None, ic_method = method,
             ic_address = address, ic_system = system, ic_ipv6_privacy_config = 0, ic_last_dhcp_address = None\<rparr>
             (w3\<lparr>iw_next := Suc (iw_next w3)\<rparr>)))"

definition create_ipv6config :: "ip_env \<Rightarrow> int \<Rightarrow> ip_world \<Rightarrow> addr option \<times> ip_world" where
  "create_ipv6config env index w = create_config env index TYPE_IPV6 METHOD_AUTO w"

definition ipconfig_create :: "ip_env \<Rightarrow> int \<Rightarrow> connman_ipconfig_type \<Rightarrow> ip_world \<Rightarrow> addr option \<times> ip_world" where
  "ipconfig_create env index type w =
     (if type = TYPE_IPV6 then create_ipv6config env index w else create_config env index TYPE_IPV4 METHOD_UNKNOWN w)"

text \<open>The configuration that is replaced by another one of the same family.\<close>

definition replace_config :: "addr option \<Rightarrow> ip_world \<Rightarrow> ip_world result" where
  "replace_config old w = (case old of None \<Rightarrow> Inr w | Some q \<Rightarrow> bind_r (config_of w q) (\<lambda>c. unref_config q (retire_config q w)))"

definition state_ops :: "u32 \<Rightarrow> ipconfig_op list" where
  "state_ops flags =
     (if flags AND IFF_UP \<noteq> 0 then [Op_up] else []) @
     (if flags AND link_carrier = link_carrier then [Op_lower_up] else if flags AND link_carrier = 0 then [Op_lower_down] else []) @
     (if flags AND IFF_UP = 0 then [Op_down] else [])"

definition enable_config :: "addr \<Rightarrow> ip_world \<Rightarrow> (int \<times> ip_world) result" where
  "enable_config p w =
     bind_r (config_of w p) (\<lambda>c.
     if ic_index c < 0 then Inr (- ENODEV, w)
     else
       case device_of w (ic_index c) of
         None \<Rightarrow> Inr (- ENXIO, w)
       | Some d \<Rightarrow>
           if ic_type c = TYPE_ALL then Inr (- EINVAL, w)
           else if config_slot (ic_type c) d = Some p then Inr (- EALREADY, w)
           else
             let w1 = (if ic_type c = TYPE_IPV6 then enable_ipv6 c w else w) in
             bind_r (replace_config (config_slot (ic_type c) d) w1) (\<lambda>w2.
             bind_r (ipconfig_ref p w2) (\<lambda>w3.
             let w4 = upd_device (ic_index c) (\<lambda>d. if ic_type c = TYPE_IPV6 then d\<lparr>id_config_ipv6 := Some p\<rparr> else d\<lparr>id_config_ipv4 := Some p\<rparr>)
                   (w3\<lparr>ipconfig_list := ipconfig_list w3 @ [p]\<rparr>) in
             case ic_ops c of
               None \<Rightarrow> Inl NullDeref
             | Some ops \<Rightarrow> Inr (0, call_ops (state_ops (id_flags d)) ops p w4))))"

definition ipconfig_enable :: "addr option \<Rightarrow> ip_world \<Rightarrow> (int \<times> ip_world) result" where
  "ipconfig_enable ipconfig w = (case ipconfig of None \<Rightarrow> Inr (- ENODEV, w) | Some p \<Rightarrow> enable_config p w)"

definition uses_address :: "connman_ipconfig_method \<Rightarrow> bool" where
  "uses_address method \<longleftrightarrow> method \<in> {METHOD_FIXED, METHOD_DHCP, METHOD_MANUAL}"

definition ipconfig_address_add :: "ip_env \<Rightarrow> addr \<Rightarrow> ip_world \<Rightarrow> (int \<times> ip_world) result" where
  "ipconfig_address_add env p w =
     bind_r (config_of w p) (\<lambda>c.
     Inr (if \<not> uses_address (ic_method c) then (0, w)
       else if ic_type c = TYPE_IPV4 then ip_ask env (Inet_set_address (ic_index c) (ic_address c)) w
       else if ic_type c = TYPE_IPV6 then ip_ask env (Inet_set_ipv6_address (ic_index c) (ic_address c)) w
       else (0, w)))"

definition ipconfig_address_unset :: "ip_env \<Rightarrow> addr option \<Rightarrow> ip_world \<Rightarrow> (int \<times> ip_world) result" where
  "ipconfig_address_unset env ipconfig w =
     (case ipconfig of
        None \<Rightarrow> Inr (0, w)
      | Some p \<Rightarrow>
          bind_r (config_of w p) (\<lambda>c.
          if \<not> uses_address (ic_method c) then Inr (0, w)
          else if ic_type c = TYPE_IPV4 then Inr (ip_ask env (Inet_clear_address (ic_index c) (ic_address c)) w)
          else if ic_type c = TYPE_IPV6 then
            (case ic_address c of
               None \<Rightarrow> Inl NullDeref
             | Some a \<Rightarrow> Inr (ip_ask env (Inet_clear_ipv6_address (ic_index c) (ia_local a) (ia_prefixlen a)) w))
          else Inr (- EINVAL, w)))"

definition ipconfig_address_remove :: "ip_env \<Rightarrow> addr option \<Rightarrow> ip_world \<Rightarrow> (int \<times> ip_world) result" where
  "ipconfig_address_remove env ipconfig w =
     (case ipconfig of
        None \<Rightarrow> Inr (0, w)
      | Some p \<Rightarrow>
          bind_r (config_of w p) (\<lambda>c.
          if \<not> uses_address (ic_method c) then Inr (0, w)
          else
            bind_r (ipconfig_address_unset env (Some p) w) (\<lambda>(err, w1).
            bind_r (upd_config p (\<lambda>c. c\<lparr>ic_address := ipaddress_clear (ic_address c)\<rparr>) w1) (\<lambda>w2. Inr (err, w2)))))"

text \<open>The gateway of a configuration, handed on to \<^verbatim>\<open>src/connection.c\<close>.\<close>

definition ipconfig_gateway_add :: "ip_env \<Rightarrow> gw_env \<Rightarrow> addr \<Rightarrow> ip_world \<Rightarrow> gw_world \<Rightarrow> (int \<times> gw_world) result" where
  "ipconfig_gateway_add env genv p w g =
     bind_r (config_of w p) (\<lambda>c.
     case ic_address c of
       None \<Rightarrow> Inr (- EINVAL, g)
     | Some a \<Rightarrow>
         (case ie_service env (ip_now w) (ic_index c) of
            None \<Rightarrow> Inr (- EINVAL, g)
          | Some s \<Rightarrow>
              bind_r (gateway_remove genv s (ic_type c) g) (\<lambda>g1.
              if ic_type c \<noteq> TYPE_ALL then gateway_add genv s (ia_gateway a) (ic_type c) (ia_peer a) g1 else Inr (0, g1))))"

definition ipconfig_gateway_remove :: "ip_env \<Rightarrow> gw_env \<Rightarrow> addr \<Rightarrow> ip_world \<Rightarrow> gw_world \<Rightarrow> gw_world result" where
  "ipconfig_gateway_remove env genv p w g =
     bind_r (config_of w p) (\<lambda>c.
     case ie_service env (ip_now w) (ic_index c) of None \<Rightarrow> Inr g | Some s \<Rightarrow> gateway_remove genv s (ic_type c) g)"

section \<open>Start and end\<close>

definition ipconfig_init :: "ip_world \<Rightarrow> int \<times> ip_world" where
  "ipconfig_init w = (0, w\<lparr>ipdevice_hash := Some []\<rparr>)"

text \<open>The table is destroyed device by device, in an order that is GLib's and an argument.\<close>

fun free_devices :: "(int \<times> connman_ipdevice) list \<Rightarrow> ip_world \<Rightarrow> ip_world result" where
  "free_devices [] w = Inr w"
| "free_devices ((i, d) # ds) w = bind_r (free_ipdevice d (remove_device i w)) (free_devices ds)"

definition ipconfig_cleanup :: "((int \<times> connman_ipdevice) list \<Rightarrow> (int \<times> connman_ipdevice) list) \<Rightarrow> ip_world \<Rightarrow> ip_world result" where
  "ipconfig_cleanup order w =
     (case ipdevice_hash w of
        None \<Rightarrow> Inr w
      | Some h \<Rightarrow> bind_r (free_devices (order h) w) (\<lambda>w1. Inr (w1\<lparr>ipdevice_hash := None\<rparr>)))"

end
