(* ===== verification/Ipconfig_Settings.thy ===== *)
theory Ipconfig_Settings
  imports Ipconfig_Events
begin

text \<open>
  The fields of a configuration, what a D-Bus client reads and writes of it, and how it is kept in a key
  file: the third part of \<^verbatim>\<open>src/ipconfig.c\<close>.
\<close>

section \<open>Fields of devices\<close>

definition ipconfig_get_config_type :: "addr option \<Rightarrow> ip_world \<Rightarrow> connman_ipconfig_type result" where
  "ipconfig_get_config_type ipconfig w = (case ipconfig of None \<Rightarrow> Inr TYPE_ALL | Some p \<Rightarrow> bind_r (config_of w p) (\<lambda>c. Inr (ic_type c)))"

definition ipconfig_get_type_from_index :: "int \<Rightarrow> ip_world \<Rightarrow> u16" where
  "ipconfig_get_type_from_index index w = (case device_of w index of None \<Rightarrow> ARPHRD_VOID | Some d \<Rightarrow> id_type d)"

definition ipconfig_get_flags_from_index :: "int \<Rightarrow> ip_world \<Rightarrow> u32" where
  "ipconfig_get_flags_from_index index w = (case device_of w index of None \<Rightarrow> 0 | Some d \<Rightarrow> id_flags d)"

text \<open>The gateway in the configuration of a slot; the outer option is none when the slot or its address is null.\<close>

definition slot_gateway :: "addr option \<Rightarrow> ip_world \<Rightarrow> string option option result" where
  "slot_gateway p w =
     (case p of None \<Rightarrow> Inr None | Some q \<Rightarrow> bind_r (config_of w q) (\<lambda>c. Inr (map_option ia_gateway (ic_address c))))"

definition ipconfig_get_gateway_from_index :: "int \<Rightarrow> ip_world \<Rightarrow> string option result" where
  "ipconfig_get_gateway_from_index index w =
     (case device_of w index of
        None \<Rightarrow> Inr None
      | Some d \<Rightarrow>
          if id_ipv4_gateway d \<noteq> None then Inr (id_ipv4_gateway d)
          else
            bind_r (slot_gateway (id_config_ipv4 d) w) (\<lambda>g4.
            case g4 of
              Some gateway \<Rightarrow> Inr gateway
            | None \<Rightarrow>
                if id_ipv6_gateway d \<noteq> None then Inr (id_ipv6_gateway d)
                else bind_r (slot_gateway (id_config_ipv6 d) w) (\<lambda>g6. case g6 of Some gateway \<Rightarrow> Inr gateway | None \<Rightarrow> Inr None)))"

definition ipconfig_get_ifname :: "addr option \<Rightarrow> ip_world \<Rightarrow> string option result" where
  "ipconfig_get_ifname ipconfig w =
     (case ipconfig of
        None \<Rightarrow> Inr None
      | Some p \<Rightarrow>
          bind_r (config_of w p) (\<lambda>c.
          if ic_index c < 0 then Inr None
          else (case device_of w (ic_index c) of None \<Rightarrow> Inr None | Some d \<Rightarrow> Inr (id_ifname d))))"

definition ipconfig_set_proxy_autoconfig :: "addr option \<Rightarrow> string option \<Rightarrow> ip_world \<Rightarrow> (int \<times> ip_world) result" where
  "ipconfig_set_proxy_autoconfig ipconfig url w =
     (case ipconfig of
        None \<Rightarrow> Inr (- ENODEV, w)
      | Some p \<Rightarrow>
          bind_r (config_of w p) (\<lambda>c.
          if ic_index c < 0 then Inr (- ENODEV, w)
          else
            (case device_of w (ic_index c) of
               None \<Rightarrow> Inr (- ENXIO, w)
             | Some d \<Rightarrow> Inr (0, upd_device (ic_index c) (\<lambda>d. d\<lparr>id_pac := url\<rparr>) w))))"

definition ipconfig_get_proxy_autoconfig :: "addr option \<Rightarrow> ip_world \<Rightarrow> string option result" where
  "ipconfig_get_proxy_autoconfig ipconfig w =
     (case ipconfig of
        None \<Rightarrow> Inr None
      | Some p \<Rightarrow>
          bind_r (config_of w p) (\<lambda>c.
          if ic_index c < 0 then Inr None
          else (case device_of w (ic_index c) of None \<Rightarrow> Inr None | Some d \<Rightarrow> Inr (id_pac d))))"

section \<open>Fields of a configuration\<close>

definition ipconfig_set_index :: "addr \<Rightarrow> int \<Rightarrow> ip_world \<Rightarrow> ip_world result" where
  "ipconfig_set_index p index w = upd_config p (\<lambda>c. c\<lparr>ic_index := index\<rparr>) w"

definition ipconfig_get_index :: "addr option \<Rightarrow> ip_world \<Rightarrow> int result" where
  "ipconfig_get_index ipconfig w = (case ipconfig of None \<Rightarrow> Inr (- 1) | Some p \<Rightarrow> bind_r (config_of w p) (\<lambda>c. Inr (ic_index c)))"

definition ipconfig_get_data :: "addr option \<Rightarrow> ip_world \<Rightarrow> svc option result" where
  "ipconfig_get_data ipconfig w = (case ipconfig of None \<Rightarrow> Inr None | Some p \<Rightarrow> bind_r (config_of w p) (\<lambda>c. Inr (ic_ops_data c)))"

definition ipconfig_set_data :: "addr \<Rightarrow> svc option \<Rightarrow> ip_world \<Rightarrow> ip_world result" where
  "ipconfig_set_data p data w = upd_config p (\<lambda>c. c\<lparr>ic_ops_data := data\<rparr>) w"

definition ipconfig_set_ops :: "addr \<Rightarrow> ipconfig_op list option \<Rightarrow> ip_world \<Rightarrow> ip_world result" where
  "ipconfig_set_ops p ops w = upd_config p (\<lambda>c. c\<lparr>ic_ops := ops\<rparr>) w"

definition ipconfig_set_method :: "addr \<Rightarrow> connman_ipconfig_method \<Rightarrow> ip_world \<Rightarrow> (int \<times> ip_world) result" where
  "ipconfig_set_method p method w = bind_r (upd_config p (\<lambda>c. c\<lparr>ic_method := method\<rparr>) w) (\<lambda>w1. Inr (0, w1))"

definition ipconfig_get_method :: "addr option \<Rightarrow> ip_world \<Rightarrow> connman_ipconfig_method result" where
  "ipconfig_get_method ipconfig w =
     (case ipconfig of None \<Rightarrow> Inr METHOD_UNKNOWN | Some p \<Rightarrow> bind_r (config_of w p) (\<lambda>c. Inr (ic_method c)))"

definition ipconfig_set_dhcp_address :: "addr option \<Rightarrow> string option \<Rightarrow> ip_world \<Rightarrow> ip_world result" where
  "ipconfig_set_dhcp_address ipconfig address w =
     (case ipconfig of None \<Rightarrow> Inr w | Some p \<Rightarrow> upd_config p (\<lambda>c. c\<lparr>ic_last_dhcp_address := address\<rparr>) w)"

definition ipconfig_get_dhcp_address :: "addr option \<Rightarrow> ip_world \<Rightarrow> string option result" where
  "ipconfig_get_dhcp_address ipconfig w =
     (case ipconfig of None \<Rightarrow> Inr None | Some p \<Rightarrow> bind_r (config_of w p) (\<lambda>c. Inr (ic_last_dhcp_address c)))"

definition ipconfig_enable_ipv6 :: "addr option \<Rightarrow> ip_world \<Rightarrow> ip_world result" where
  "ipconfig_enable_ipv6 ipconfig w =
     (case ipconfig of
        None \<Rightarrow> Inr w
      | Some p \<Rightarrow> bind_r (config_of w p) (\<lambda>c. Inr (if ic_type c \<noteq> TYPE_IPV6 then w else enable_ipv6 c w)))"

definition ipconfig_disable_ipv6 :: "addr option \<Rightarrow> ip_world \<Rightarrow> ip_world result" where
  "ipconfig_disable_ipv6 ipconfig w =
     (case ipconfig of
        None \<Rightarrow> Inr w
      | Some p \<Rightarrow> bind_r (config_of w p) (\<lambda>c. Inr (if ic_type c \<noteq> TYPE_IPV6 then w else disable_ipv6 (ic_index c) w)))"

section \<open>Fields of the address of a configuration\<close>

text \<open>A field of the address of a configuration, and a change of that address; both do nothing when it is null.\<close>

definition address_field :: "(connman_ipaddress \<Rightarrow> 'a) \<Rightarrow> 'a \<Rightarrow> addr \<Rightarrow> ip_world \<Rightarrow> 'a result" where
  "address_field f none p w = bind_r (config_of w p) (\<lambda>c. Inr (case ic_address c of None \<Rightarrow> none | Some a \<Rightarrow> f a))"

definition upd_address :: "(connman_ipaddress \<Rightarrow> connman_ipaddress) \<Rightarrow> addr \<Rightarrow> ip_world \<Rightarrow> ip_world result" where
  "upd_address f p w = upd_config p (\<lambda>c. c\<lparr>ic_address := map_option f (ic_address c)\<rparr>) w"

definition ipconfig_get_local :: "addr \<Rightarrow> ip_world \<Rightarrow> string option result" where
  "ipconfig_get_local p w = address_field ia_local None p w"

definition ipconfig_set_local :: "addr \<Rightarrow> string option \<Rightarrow> ip_world \<Rightarrow> ip_world result" where
  "ipconfig_set_local p address w = upd_address (\<lambda>a. a\<lparr>ia_local := address\<rparr>) p w"

definition ipconfig_get_peer :: "addr \<Rightarrow> ip_world \<Rightarrow> string option result" where
  "ipconfig_get_peer p w = address_field ia_peer None p w"

definition ipconfig_set_peer :: "addr \<Rightarrow> string option \<Rightarrow> ip_world \<Rightarrow> ip_world result" where
  "ipconfig_set_peer p address w = upd_address (\<lambda>a. a\<lparr>ia_peer := address\<rparr>) p w"

definition ipconfig_get_broadcast :: "addr \<Rightarrow> ip_world \<Rightarrow> string option result" where
  "ipconfig_get_broadcast p w = address_field ia_broadcast None p w"

definition ipconfig_set_broadcast :: "addr \<Rightarrow> string option \<Rightarrow> ip_world \<Rightarrow> ip_world result" where
  "ipconfig_set_broadcast p broadcast w = upd_address (\<lambda>a. a\<lparr>ia_broadcast := broadcast\<rparr>) p w"

definition ipconfig_get_gateway :: "addr \<Rightarrow> ip_world \<Rightarrow> string option result" where
  "ipconfig_get_gateway p w = address_field ia_gateway None p w"

definition ipconfig_set_gateway :: "addr \<Rightarrow> string option \<Rightarrow> ip_world \<Rightarrow> ip_world result" where
  "ipconfig_set_gateway p gateway w = upd_address (\<lambda>a. a\<lparr>ia_gateway := gateway\<rparr>) p w"

definition ipconfig_get_prefixlen :: "addr \<Rightarrow> ip_world \<Rightarrow> u8 result" where
  "ipconfig_get_prefixlen p w = address_field ia_prefixlen 0 p w"

definition ipconfig_set_prefixlen :: "addr \<Rightarrow> u8 \<Rightarrow> ip_world \<Rightarrow> ip_world result" where
  "ipconfig_set_prefixlen p prefixlen w = upd_address (\<lambda>a. a\<lparr>ia_prefixlen := prefixlen\<rparr>) p w"

section \<open>Names of methods and of privacy levels\<close>

definition method2string :: "connman_ipconfig_method \<Rightarrow> string option" where
  "method2string method =
     (case method of
        METHOD_UNKNOWN \<Rightarrow> None
      | METHOD_OFF \<Rightarrow> Some ''off''
      | METHOD_FIXED \<Rightarrow> Some ''fixed''
      | METHOD_MANUAL \<Rightarrow> Some ''manual''
      | METHOD_DHCP \<Rightarrow> Some ''dhcp''
      | METHOD_AUTO \<Rightarrow> Some ''auto'')"

definition string2method :: "string option \<Rightarrow> connman_ipconfig_method" where
  "string2method method =
     (if method = Some ''off'' then METHOD_OFF
      else if method = Some ''fixed'' then METHOD_FIXED
      else if method = Some ''manual'' then METHOD_MANUAL
      else if method = Some ''dhcp'' then METHOD_DHCP
      else if method = Some ''auto'' then METHOD_AUTO
      else METHOD_UNKNOWN)"

definition privacy2string :: "int \<Rightarrow> string" where
  "privacy2string privacy =
     (if privacy \<le> 0 then ''disabled'' else if privacy = 1 then ''enabled'' else if privacy > 1 then ''prefered'' else ''disabled'')"

definition string2privacy :: "string option \<Rightarrow> int" where
  "string2privacy privacy =
     (if privacy = Some ''disabled'' then 0 else if privacy = Some ''enabled'' then 1 else if privacy = Some ''prefered'' then 2 else 0)"

section \<open>Dictionaries for a D-Bus client\<close>

datatype dbus_value = Dbus_string string | Dbus_byte u8 | Dbus_uint16 u16

type_synonym dbus_dict = "(string \<times> dbus_value) list"

text \<open>
  \<open>inet_ntoa\<close> of the C library, and the netmask of a prefix: C leaves the shift undefined when its count is
  negative or not less than 32.
\<close>

definition inet_ntoa :: "u32 \<Rightarrow> string" where
  "inet_ntoa a = concat (map (\<lambda>i. (if i = 0 then [] else ''.'') @ show_nat (unat (bytes32 a ! i))) [0..<4])"

definition prefix_netmask :: "u8 \<Rightarrow> u32 result" where
  "prefix_netmask prefixlen =
     (let count = 32 - uint prefixlen in
      if count < 0 \<or> 32 \<le> count then Inl BadShift else Inr (push_bit (nat count) 0xFFFFFFFF))"

definition netmask_string :: "u8 \<Rightarrow> string result" where
  "netmask_string prefixlen = bind_r (prefix_netmask prefixlen) (\<lambda>m. Inr (inet_ntoa (htonl m)))"

definition append_string :: "string \<Rightarrow> string option \<Rightarrow> dbus_dict" where
  "append_string key v = (case v of None \<Rightarrow> [] | Some s \<Rightarrow> [(key, Dbus_string s)])"

definition append_address4 :: "connman_ipaddress \<Rightarrow> dbus_dict result" where
  "append_address4 a =
     (case ia_local a of
        None \<Rightarrow> Inr (append_string ''Gateway'' (ia_gateway a))
      | Some local \<Rightarrow>
          bind_r (netmask_string (ia_prefixlen a)) (\<lambda>netmask.
          Inr ([(''Address'', Dbus_string local), (''Netmask'', Dbus_string netmask)] @ append_string ''Gateway'' (ia_gateway a))))"

definition append_address6 :: "connman_ipaddress \<Rightarrow> dbus_dict" where
  "append_address6 a =
     (case ia_local a of None \<Rightarrow> [] | Some local \<Rightarrow> [(''Address'', Dbus_string local), (''PrefixLength'', Dbus_byte (ia_prefixlen a))]) @
     append_string ''Gateway'' (ia_gateway a)"

definition append_ipv4 :: "connman_ipconfig \<Rightarrow> dbus_dict result" where
  "append_ipv4 c =
     (if ic_type c \<noteq> TYPE_IPV4 then Inr []
      else
        case method2string (ic_method c) of
          None \<Rightarrow> Inr []
        | Some str \<Rightarrow>
            (case ic_system c of
               None \<Rightarrow> Inr [(''Method'', Dbus_string str)]
             | Some a \<Rightarrow> bind_r (append_address4 a) (\<lambda>ds. Inr ((''Method'', Dbus_string str) # ds))))"

definition append_ipv6 :: "ip_env \<Rightarrow> connman_ipconfig \<Rightarrow> addr option \<Rightarrow> ip_world \<Rightarrow> dbus_dict" where
  "append_ipv6 env c ipconfig_ipv4 w =
     (if ic_type c \<noteq> TYPE_IPV6 then []
      else
        case method2string (ic_method c) of
          None \<Rightarrow> []
        | Some name \<Rightarrow>
            let tunnel = (case ipconfig_ipv4 of None \<Rightarrow> False | Some q \<Rightarrow> ic_method c = METHOD_AUTO \<and> ie_6to4_check env (ip_now w) q);
                str = (if tunnel then ''6to4'' else name) in
            (''Method'', Dbus_string str) #
            (case ic_system c of
               None \<Rightarrow> []
             | Some a \<Rightarrow> append_address6 a @ [(''Privacy'', Dbus_string (privacy2string (ic_ipv6_privacy_config c)))]))"

definition append_ipv6config :: "connman_ipconfig \<Rightarrow> dbus_dict" where
  "append_ipv6config c =
     (case method2string (ic_method c) of
        None \<Rightarrow> []
      | Some str \<Rightarrow>
          (''Method'', Dbus_string str) #
          (if ic_method c \<in> {METHOD_UNKNOWN, METHOD_OFF, METHOD_DHCP} then []
           else
             case ic_address c of
               None \<Rightarrow> []
             | Some a \<Rightarrow> append_address6 a @ [(''Privacy'', Dbus_string (privacy2string (ic_ipv6_privacy_config c)))]))"

definition append_ipv4config :: "connman_ipconfig \<Rightarrow> dbus_dict result" where
  "append_ipv4config c =
     (case method2string (ic_method c) of
        None \<Rightarrow> Inr []
      | Some str \<Rightarrow>
          if ic_method c \<in> {METHOD_UNKNOWN, METHOD_OFF, METHOD_DHCP, METHOD_AUTO} then Inr [(''Method'', Dbus_string str)]
          else
            (case ic_address c of
               None \<Rightarrow> Inr [(''Method'', Dbus_string str)]
             | Some a \<Rightarrow> bind_r (append_address4 a) (\<lambda>ds. Inr ((''Method'', Dbus_string str) # ds))))"

definition append_ethernet :: "connman_ipconfig \<Rightarrow> ip_world \<Rightarrow> dbus_dict" where
  "append_ethernet c w =
     (''Method'', Dbus_string ''auto'') #
     (case device_of w (ic_index c) of
        None \<Rightarrow> []
      | Some d \<Rightarrow>
          append_string ''Interface'' (id_ifname d) @ append_string ''Address'' (id_address d) @
          (if id_mtu d > 0 then [(''MTU'', Dbus_uint16 (id_mtu d))] else []))"

section \<open>A configuration from a D-Bus client\<close>

text \<open>An argument of a message, as far as the code tells types apart.\<close>

datatype dbus_arg = Arg_string string | Arg_other

record config_args =
  ca_method :: connman_ipconfig_method
  ca_address :: "string option"
  ca_netmask :: "string option"
  ca_gateway :: "string option"
  ca_prefix_length :: int
  ca_privacy :: "int option"

definition no_args :: config_args where
  "no_args = \<lparr>ca_method = METHOD_UNKNOWN, ca_address = None, ca_netmask = None, ca_gateway = None, ca_prefix_length = 0, ca_privacy = None\<rparr>"

text \<open>One entry of the dictionary; none stands for the return of \<open>-EINVAL\<close>. An entry with another key is skipped whatever its type.\<close>

definition config_entry :: "ip_env \<Rightarrow> string \<Rightarrow> dbus_arg \<Rightarrow> config_args \<Rightarrow> config_args option" where
  "config_entry env key arg args =
     (if key \<notin> {''Method'', ''Address'', ''PrefixLength'', ''Netmask'', ''Gateway'', ''Privacy''} then Some args
      else
        case arg of
          Arg_other \<Rightarrow> None
        | Arg_string str \<Rightarrow>
            if key = ''Method'' then Some (args\<lparr>ca_method := string2method (Some str)\<rparr>)
            else if key = ''Address'' then Some (args\<lparr>ca_address := Some str\<rparr>)
            else if key = ''PrefixLength'' then
              (let n = ie_atoi env str in if n < 0 \<or> n > 128 then None else Some (args\<lparr>ca_prefix_length := n\<rparr>))
            else if key = ''Netmask'' then Some (args\<lparr>ca_netmask := Some str\<rparr>)
            else if key = ''Gateway'' then Some (args\<lparr>ca_gateway := Some str\<rparr>)
            else Some (args\<lparr>ca_privacy := Some (string2privacy (Some str))\<rparr>))"

fun config_entries :: "ip_env \<Rightarrow> (dbus_arg \<times> dbus_arg) list \<Rightarrow> config_args \<Rightarrow> config_args option" where
  "config_entries env [] args = Some args"
| "config_entries env ((key, arg) # ds) args =
     (case key of
        Arg_other \<Rightarrow> None
      | Arg_string k \<Rightarrow> (case config_entry env k arg args of None \<Rightarrow> None | Some args1 \<Rightarrow> config_entries env ds args1))"

definition set_manual :: "ip_env \<Rightarrow> config_args \<Rightarrow> connman_ipconfig \<Rightarrow> int \<times> connman_ipconfig" where
  "set_manual env args c =
     (if ic_type c = TYPE_IPV4
      then (0, c\<lparr>ic_address := snd (ipaddress_set_ipv4 env (ic_address c) (ca_address args) (ca_netmask args) (ca_gateway args))\<rparr>)
      else
        let (r, a) = ipaddress_set_ipv6 env (ic_address c) (ca_address args) (word_of_int (ca_prefix_length args)) (ca_gateway args) in
        (r, c\<lparr>ic_address := a\<rparr>))"

definition apply_config :: "ip_env \<Rightarrow> config_args \<Rightarrow> addr \<Rightarrow> connman_ipconfig \<Rightarrow> ip_world \<Rightarrow> int \<times> ip_world" where
  "apply_config env args p c w =
     (let c1 = c\<lparr>ic_method := ca_method args\<rparr> in
      case ca_method args of
        METHOD_UNKNOWN \<Rightarrow> (- EINVAL, w)
      | METHOD_FIXED \<Rightarrow> (- EINVAL, w)
      | METHOD_OFF \<Rightarrow> (0, if ic_type c = TYPE_IPV6 then disable_ipv6 (ic_index c) (put_config p c1 w) else put_config p c1 w)
      | METHOD_AUTO \<Rightarrow>
          if ic_type c \<noteq> TYPE_IPV6 then (- EINVAL, w)
          else
            let c2 = (case ca_privacy args of None \<Rightarrow> c1 | Some privacy \<Rightarrow> c1\<lparr>ic_ipv6_privacy_config := privacy\<rparr>) in
            (0, enable_ipv6 c2 (put_config p c2 w))
      | METHOD_MANUAL \<Rightarrow>
          if ca_address args = None then (- EINVAL, w)
          else let (r, c2) = set_manual env args c1 in (r, put_config p c2 w)
      | METHOD_DHCP \<Rightarrow> if ic_type c = TYPE_IPV6 then (- EOPNOTSUPP, w) else (0, put_config p c1 w))"

text \<open>The argument is none when it is not an array.\<close>

definition ipconfig_set_config :: "ip_env \<Rightarrow> addr \<Rightarrow> (dbus_arg \<times> dbus_arg) list option \<Rightarrow> ip_world \<Rightarrow> (int \<times> ip_world) result" where
  "ipconfig_set_config env p array w =
     (case array of
        None \<Rightarrow> Inr (- EINVAL, w)
      | Some dict \<Rightarrow>
          (case config_entries env dict no_args of
             None \<Rightarrow> Inr (- EINVAL, w)
           | Some args \<Rightarrow> bind_r (config_of w p) (\<lambda>c. Inr (apply_config env args p c w))))"

section \<open>The key file\<close>

text \<open>
  A key file as GLib keeps it: a value for a group and a key. Setting a null string is ignored; a number is kept in
  decimal digits.
\<close>

type_synonym key_file = "string \<Rightarrow> string \<rightharpoonup> string"

definition key_set :: "string \<Rightarrow> string \<Rightarrow> string option \<Rightarrow> key_file \<Rightarrow> key_file" where
  "key_set grp key v kf = (case v of None \<Rightarrow> kf | Some s \<Rightarrow> kf(grp := (kf grp)(key \<mapsto> s)))"

definition key_remove :: "string \<Rightarrow> string \<Rightarrow> key_file \<Rightarrow> key_file" where
  "key_remove grp key kf = kf(grp := (kf grp)(key := None))"

definition key_integer :: "ip_env \<Rightarrow> string \<Rightarrow> string \<Rightarrow> key_file \<Rightarrow> int" where
  "key_integer env grp key kf =
     (case kf grp key of None \<Rightarrow> 0 | Some s \<Rightarrow> (case ie_key_integer env s of None \<Rightarrow> 0 | Some n \<Rightarrow> n))"

definition load_method :: "connman_ipconfig_type \<Rightarrow> string option \<Rightarrow> connman_ipconfig_method" where
  "load_method type method =
     (case method of
        None \<Rightarrow> if type = TYPE_IPV4 then METHOD_DHCP else METHOD_OFF
      | Some s \<Rightarrow> (let m = string2method (Some s) in if m = METHOD_UNKNOWN then METHOD_OFF else m))"

definition load_fields :: "ip_env \<Rightarrow> addr \<Rightarrow> key_file \<Rightarrow> string \<Rightarrow> string \<Rightarrow> ip_world \<Rightarrow> ip_world result" where
  "load_fields env p kf identifier prefix w =
     bind_r (config_of w p) (\<lambda>c.
     let get = (\<lambda>key. kf identifier (prefix @ key)) in
     case ic_address c of
       None \<Rightarrow> Inl NullDeref
     | Some a \<Rightarrow>
         Inr (put_config p (c\<lparr>
           ic_address := Some (a\<lparr>
             ia_prefixlen := word_of_int (key_integer env identifier (prefix @ ''netmask_prefixlen'') kf),
             ia_local := get ''local_address'', ia_peer := get ''peer_address'',
             ia_broadcast := get ''broadcast_address'', ia_gateway := get ''gateway''\<rparr>),
           ic_last_dhcp_address := (case get ''DHCP.LastAddress'' of None \<Rightarrow> ic_last_dhcp_address c | Some s \<Rightarrow> Some s)\<rparr>) w))"

definition ipconfig_load :: "ip_env \<Rightarrow> addr \<Rightarrow> key_file \<Rightarrow> string \<Rightarrow> string \<Rightarrow> ip_world \<Rightarrow> (int \<times> ip_world) result" where
  "ipconfig_load env p kf identifier prefix w =
     bind_r (config_of w p) (\<lambda>c.
     let c1 = c\<lparr>ic_method := load_method (ic_type c) (kf identifier (prefix @ ''method''))\<rparr> in
     bind_r (if ic_type c = TYPE_IPV6 \<and> ic_method c1 \<in> {METHOD_AUTO, METHOD_MANUAL}
         then
           let c2 = c1\<lparr>ic_ipv6_privacy_config := string2privacy (kf identifier (prefix @ ''privacy''))\<rparr> in
           bind_r (enable_config p (put_config p c2 w)) (\<lambda>(r, w1). bind_r (config_of w1 p) (\<lambda>c3. Inr (enable_ipv6 c3 w1)))
         else Inr (put_config p c1 w)) (\<lambda>w2.
     bind_r (load_fields env p kf identifier prefix w2) (\<lambda>w3. Inr (0, w3))))"

definition save_address :: "connman_ipaddress \<Rightarrow> string \<Rightarrow> string \<Rightarrow> key_file \<Rightarrow> key_file" where
  "save_address a identifier prefix kf =
     key_set identifier (prefix @ ''gateway'') (ia_gateway a)
      (key_set identifier (prefix @ ''broadcast_address'') (ia_broadcast a)
       (key_set identifier (prefix @ ''peer_address'') (ia_peer a)
        (key_set identifier (prefix @ ''local_address'') (ia_local a)
         (key_set identifier (prefix @ ''netmask_prefixlen'') (Some (show_int (uint (ia_prefixlen a)))) kf))))"

definition ipconfig_save :: "connman_ipconfig \<Rightarrow> key_file \<Rightarrow> string \<Rightarrow> string \<Rightarrow> (int \<times> key_file) result" where
  "ipconfig_save c kf identifier prefix =
     (let kf1 = key_set identifier (prefix @ ''method'') (method2string (ic_method c)) kf;
          kf2 = (if ic_type c = TYPE_IPV6 then key_set identifier (prefix @ ''privacy'') (Some (privacy2string (ic_ipv6_privacy_config c))) kf1 else kf1);
          dhcp = prefix @ ''DHCP.LastAddress'' in
      if ic_method c = METHOD_DHCP then
        Inr (0, case ic_last_dhcp_address c of
            None \<Rightarrow> key_remove identifier dhcp kf2
          | Some s \<Rightarrow> if length s > 0 then key_set identifier dhcp (Some s) kf2 else key_remove identifier dhcp kf2)
      else if ic_method c \<in> {METHOD_UNKNOWN, METHOD_OFF, METHOD_AUTO} then Inr (0, kf2)
      else
        case ic_address c of
          None \<Rightarrow> Inl NullDeref
        | Some a \<Rightarrow> Inr (0, save_address a identifier prefix kf2))"

end
