(* ===== verification/Ipconfig_State.thy ===== *)
theory Ipconfig_State
  imports Ipconfig_Settings
begin

text \<open>
  The interface configurations as a state machine: the references that other components hold are a
  ghost counter beside the state of \<^verbatim>\<open>src/ipconfig.c\<close>. The invariant ties the reference counts to those references and to
  the devices, and gives that no configuration is used after it was freed and none is forgotten.
\<close>

section \<open>The invariant\<close>

definition devices :: "ip_world \<Rightarrow> (int \<times> connman_ipdevice) list" where
  "devices w = (case ipdevice_hash w of None \<Rightarrow> [] | Some h \<Rightarrow> h)"

definition device_slots :: "connman_ipdevice \<Rightarrow> addr list" where
  "device_slots d = (case id_config_ipv4 d of None \<Rightarrow> [] | Some p \<Rightarrow> [p]) @ (case id_config_ipv6 d of None \<Rightarrow> [] | Some p \<Rightarrow> [p])"

definition slots :: "(int \<times> connman_ipdevice) list \<Rightarrow> addr list" where
  "slots h = concat (map (\<lambda>x. device_slots (snd x)) h)"

definition devices_ok :: "(int \<times> connman_ipdevice) list \<Rightarrow> bool" where
  "devices_ok h \<longleftrightarrow> distinct (map fst h) \<and> (\<forall>x \<in> set h. id_index (snd x) = fst x) \<and> distinct (slots h)"

definition typed :: "(addr \<rightharpoonup> connman_ipconfig) \<Rightarrow> connman_ipdevice \<Rightarrow> bool" where
  "typed cs d \<longleftrightarrow> (\<forall>p c. cs p = Some c \<longrightarrow>
     (id_config_ipv4 d = Some p \<longrightarrow> ic_type c = TYPE_IPV4) \<and> (id_config_ipv6 d = Some p \<longrightarrow> ic_type c = TYPE_IPV6))"

definition counted :: "(addr \<Rightarrow> nat) \<Rightarrow> addr set \<Rightarrow> addr \<Rightarrow> addr \<Rightarrow> connman_ipconfig \<Rightarrow> bool" where
  "counted held S n p c \<longleftrightarrow> p < n \<and> ic_refcount c = int (held p) + (if p \<in> S then 1 else 0) \<and> 0 < ic_refcount c \<and> ic_address c \<noteq> None"

definition ip_ok ::
  "(addr \<Rightarrow> nat) \<Rightarrow> (int \<times> connman_ipdevice) list \<Rightarrow> (addr \<rightharpoonup> connman_ipconfig) \<Rightarrow> addr list \<Rightarrow> addr \<Rightarrow> bool" where
  "ip_ok held h cs ls n \<longleftrightarrow>
     devices_ok h \<and> (\<forall>x \<in> set h. typed cs (snd x)) \<and> set (slots h) \<subseteq> set ls \<and> distinct ls \<and> set ls \<subseteq> dom cs \<and>
     (\<forall>p c. cs p = Some c \<longrightarrow> counted held (set (slots h)) n p c) \<and> (\<forall>p. 0 < held p \<longrightarrow> p \<in> dom cs)"

definition ip_wf :: "(addr \<Rightarrow> nat) \<Rightarrow> ip_world \<Rightarrow> bool" where
  "ip_wf held w \<longleftrightarrow> ip_ok held (devices w) (iw_configs w) (ipconfig_list w) (iw_next w)"

lemma device_of_devices: "device_of w i = map_of (devices w) i"
  by (simp add: device_of_def devices_def split: option.splits)

lemma slots_simps [simp]: "slots [] = []" "slots (x # h) = device_slots (snd x) @ slots h" "slots (h @ h') = slots h @ slots h'"
  by (simp_all add: slots_def)

section \<open>Frames\<close>

text \<open>Operations that only extend the trace.\<close>

definition same :: "ip_world \<Rightarrow> ip_world \<Rightarrow> bool" where
  "same w w' \<longleftrightarrow> ipdevice_hash w' = ipdevice_hash w \<and> iw_configs w' = iw_configs w \<and> ipconfig_list w' = ipconfig_list w \<and> iw_next w' = iw_next w"

lemma same_refl [simp]: "same w w"
  by (simp add: same_def)

lemma same_trans: "same u v \<Longrightarrow> same v w \<Longrightarrow> same u w"
  by (simp add: same_def)

lemma same_wf: "same w w' \<Longrightarrow> ip_wf held w' = ip_wf held w"
  by (simp add: same_def ip_wf_def devices_def)

lemma same_ops [simp, intro]:
  "same w (ip_tell c w)" "same w (set_ipv6_state ifname e w)" "same w (set_ipv6_privacy ifname v w)"
  "same w (disable_ipv6 i w)" "same w (call_ops wanted ops p w)" "same w (set_rp_filter v w)"
  by (auto simp: same_def ip_tell_def set_ipv6_state_def set_ipv6_privacy_def disable_ipv6_def call_ops_def set_rp_filter_def
      split: option.splits)

lemma same_enable_ipv6 [simp, intro]: "same w (enable_ipv6 c w)"
  by (auto simp: enable_ipv6_def split: option.splits intro: same_trans)

lemma same_fields:
  assumes "same w w'"
  shows "ipdevice_hash w' = ipdevice_hash w" "iw_configs w' = iw_configs w" "ipconfig_list w' = ipconfig_list w" "iw_next w' = iw_next w"
    "devices w' = devices w" "device_of w' i = device_of w i" "config_of w' p = config_of w p"
  using assms by (auto simp: same_def devices_def device_of_def config_of_def)

lemma devices_upd_device: "devices (upd_device i f w) = map (\<lambda>(j, d). (j, if j = i then f d else d)) (devices w)"
  by (simp add: devices_def upd_device_def split: option.splits)

lemma upd_device_fields [simp]:
  "iw_configs (upd_device i f w) = iw_configs w" "ipconfig_list (upd_device i f w) = ipconfig_list w"
  "iw_next (upd_device i f w) = iw_next w" "config_of (upd_device i f w) p = config_of w p"
  by (simp_all add: upd_device_def config_of_def)

lemma put_config_fields [simp]:
  "iw_configs (put_config p c w) = (iw_configs w)(p \<mapsto> c)" "ipconfig_list (put_config p c w) = ipconfig_list w"
  "iw_next (put_config p c w) = iw_next w" "devices (put_config p c w) = devices w" "device_of (put_config p c w) i = device_of w i"
  by (simp_all add: put_config_def devices_def device_of_def)

lemma config_of_live: "p \<in> dom (iw_configs w) \<Longrightarrow> \<exists>c. config_of w p = Inr c \<and> iw_configs w p = Some c"
  by (auto simp: config_of_def)

lemma config_of_Some [simp]: "iw_configs w p = Some c \<Longrightarrow> config_of w p = Inr c"
  by (simp add: config_of_def)

section \<open>Updates that keep the invariant\<close>

lemma map_devices_keep:
  assumes "\<And>d. id_index (f d) = id_index d" and "\<And>d. device_slots (f d) = device_slots d"
    and "\<And>d. typed cs (f d) = typed cs d"
  shows "ip_ok held (map (\<lambda>(j, d). (j, if j = i then f d else d)) h) cs ls n = ip_ok held h cs ls n"
proof -
  let ?g = "\<lambda>(j, d). (j, if j = i then f d else d)"
  have s: "slots (map ?g h) = slots h" by (induction h) (auto simp: assms(2))
  have d: "map fst (map ?g h) = map fst h" by (auto simp: case_prod_beta)
  have x: "(\<forall>x \<in> set (map ?g h). id_index (snd x) = fst x) = (\<forall>x \<in> set h. id_index (snd x) = fst x)"
    "(\<forall>x \<in> set (map ?g h). typed cs (snd x)) = (\<forall>x \<in> set h. typed cs (snd x))"
    by (auto simp: assms split: if_splits)
  show ?thesis unfolding ip_ok_def devices_ok_def s d x by simp
qed

lemma upd_device_wf:
  assumes "\<And>d. id_index (f d) = id_index d" "\<And>d. id_config_ipv4 (f d) = id_config_ipv4 d" "\<And>d. id_config_ipv6 (f d) = id_config_ipv6 d"
  shows "ip_wf held (upd_device i f w) = ip_wf held w"
  using assms by (simp add: ip_wf_def devices_upd_device map_devices_keep device_slots_def typed_def)

lemma put_config_wf:
  assumes wf: "ip_wf held w" and p: "iw_configs w p = Some c"
    and k: "ic_refcount c' = ic_refcount c" "ic_type c' = ic_type c" "ic_address c' \<noteq> None"
  shows "ip_wf held (put_config p c' w)"
proof -
  have "typed ((iw_configs w)(p \<mapsto> c')) d" if "typed (iw_configs w) d" for d
    using that p k unfolding typed_def by auto
  moreover have "counted held S n p c' " if "counted held S n p c" for S n using that k by (simp add: counted_def)
  ultimately show ?thesis using wf p unfolding ip_wf_def ip_ok_def by auto
qed

lemma upd_config_total:
  assumes wf: "ip_wf held w" and p: "p \<in> dom (iw_configs w)"
    and k: "\<And>c. ic_refcount (f c) = ic_refcount c" "\<And>c. ic_type (f c) = ic_type c"
      "\<And>c. ic_address c \<noteq> None \<Longrightarrow> ic_address (f c) \<noteq> None"
  shows "succeeds (upd_config p f w) (ip_wf held)"
proof -
  obtain c where c: "iw_configs w p = Some c" using p by auto
  then have "ic_address c \<noteq> None" using wf by (auto simp: ip_wf_def ip_ok_def counted_def)
  then have "ip_wf held (put_config p (f c) w)" using put_config_wf [OF wf c] k by simp
  then show ?thesis using c by (simp add: upd_config_def)
qed

lemma ip_live:
  assumes "ip_wf held w"
  shows "set (ipconfig_list w) \<subseteq> dom (iw_configs w)" "distinct (ipconfig_list w)"
    "0 < held p \<Longrightarrow> p \<in> dom (iw_configs w)"
    "p \<in> set (slots (devices w)) \<Longrightarrow> p \<in> set (ipconfig_list w) \<and> p \<in> dom (iw_configs w)"
    "iw_configs w p = Some c \<Longrightarrow> counted held (set (slots (devices w))) (iw_next w) p c"
  using assms unfolding ip_wf_def ip_ok_def by blast+

lemma device_slot_in:
  assumes "device_of w i = Some d" and "config_slot t d = Some p"
  shows "p \<in> set (slots (devices w))"
proof -
  have "(i, d) \<in> set (devices w)" using assms(1) by (simp add: device_of_devices map_of_SomeD)
  moreover have "p \<in> set (device_slots d)" using assms(2) by (auto simp: config_slot_def device_slots_def split: if_splits)
  ultimately show ?thesis by (force simp: slots_def)
qed

section \<open>References\<close>

definition hold :: "addr \<Rightarrow> (addr \<Rightarrow> nat) \<Rightarrow> addr \<Rightarrow> nat" where
  "hold p held = held(p := Suc (held p))"

definition release :: "addr \<Rightarrow> (addr \<Rightarrow> nat) \<Rightarrow> addr \<Rightarrow> nat" where
  "release p held = held(p := held p - 1)"

definition hold_opt :: "addr option \<Rightarrow> (addr \<Rightarrow> nat) \<Rightarrow> addr \<Rightarrow> nat" where
  "hold_opt ipconfig held = (case ipconfig of None \<Rightarrow> held | Some p \<Rightarrow> hold p held)"

lemma release_hold [simp]: "release p (hold p held) = held"
  by (auto simp: release_def hold_def)

lemma hold_positive [simp]: "0 < hold p held p"
  by (simp add: hold_def)

lemma hold_release: "0 < held p \<Longrightarrow> hold p (release p held) = held"
  by (auto simp: release_def hold_def)

lemma typed_mono: "typed cs d \<Longrightarrow> (\<And>p c. cs' p = Some c \<Longrightarrow> \<exists>c0. cs p = Some c0 \<and> ic_type c = ic_type c0) \<Longrightarrow> typed cs' d"
  unfolding typed_def by metis

lemma recount_wf:
  assumes wf: "ip_wf held w" and p: "iw_configs w p = Some c"
    and c': "c' = c\<lparr>ic_refcount := n\<rparr>" "n = ic_refcount c + int (held' p) - int (held p)" "0 < n"
    and h: "\<And>q. q \<noteq> p \<Longrightarrow> held' q = held q"
  shows "ip_wf held' (put_config p c' w)"
proof -
  have t: "typed ((iw_configs w)(p \<mapsto> c')) d" if "typed (iw_configs w) d" for d
    by (rule typed_mono [OF that]) (use p c' in \<open>auto split: if_splits\<close>)
  have "counted held' (set (slots (devices w))) (iw_next w) q e" if e: "((iw_configs w)(p \<mapsto> c')) q = Some e" for q e
  proof (cases "q = p")
    case True
    then show ?thesis using e ip_live(5) [OF wf p] c' by (auto simp: counted_def)
  next
    case False
    then show ?thesis using e ip_live(5) [OF wf, of q e] h [OF False] by (simp add: counted_def)
  qed
  moreover have "q \<in> dom ((iw_configs w)(p \<mapsto> c'))" if "0 < held' q" for q
    using that ip_live(3) [OF wf, of q] h [of q] by (cases "q = p") simp_all
  moreover have "set (ipconfig_list w) \<subseteq> dom ((iw_configs w)(p \<mapsto> c'))" using ip_live(1) [OF wf] by auto
  ultimately show ?thesis using wf t unfolding ip_wf_def ip_ok_def put_config_fields by blast
qed

lemma ref_effect:
  assumes "ip_wf held w" and "iw_configs w p = Some c"
  shows "ipconfig_ref p w = Inr (put_config p (c\<lparr>ic_refcount := ic_refcount c + 1\<rparr>) w)"
    "ip_wf (hold p held) (put_config p (c\<lparr>ic_refcount := ic_refcount c + 1\<rparr>) w)"
proof -
  show "ipconfig_ref p w = Inr (put_config p (c\<lparr>ic_refcount := ic_refcount c + 1\<rparr>) w)"
    using assms(2) by (simp add: ipconfig_ref_def upd_config_def)
  show "ip_wf (hold p held) (put_config p (c\<lparr>ic_refcount := ic_refcount c + 1\<rparr>) w)"
    using ip_live(5) [OF assms] by (intro recount_wf [OF assms refl]) (auto simp: hold_def counted_def)
qed

text \<open>Disabling a configuration that no device uses changes nothing and reports an error.\<close>

lemma disable_unused:
  assumes c: "iw_configs w p = Some c" and p: "p \<notin> set (slots (devices w))"
  shows "\<exists>r < 0. disable_config p w = Inr (r, w)"
proof (cases "device_of w (ic_index c)")
  case (Some d)
  have "id_config_ipv4 d \<noteq> Some p" "id_config_ipv6 d \<noteq> Some p"
    using device_slot_in [OF Some, of TYPE_IPV4 p] device_slot_in [OF Some, of TYPE_IPV6 p] p by (auto simp: config_slot_def)
  then show ?thesis using c Some by (auto simp: disable_config.simps ENODEV_def EINVAL_def)
qed (use c in \<open>auto simp: disable_config.simps ENODEV_def ENXIO_def\<close>)

text \<open>The configuration that is freed with its last reference.\<close>

definition forget :: "addr \<Rightarrow> ip_world \<Rightarrow> ip_world" where
  "forget p w = w\<lparr>ipconfig_list := remove1 p (ipconfig_list w), iw_configs := (iw_configs w)(p := None)\<rparr>"

lemma devices_forget [simp]: "devices (forget p w) = devices w"
  by (simp add: forget_def devices_def)

lemma forget_wf:
  assumes wf: "ip_wf held w" and p: "p \<notin> set (slots (devices w))" and h: "held p \<le> 1"
  shows "ip_wf (held(p := 0)) (forget p w)"
proof -
  have t: "typed ((iw_configs w)(p := None)) d" if "typed (iw_configs w) d" for d
    by (rule typed_mono [OF that]) (auto split: if_splits)
  have "counted (held(p := 0)) (set (slots (devices w))) (iw_next w) q e" if "((iw_configs w)(p := None)) q = Some e" for q e
    using that ip_live(5) [OF wf, of q e] by (auto simp: counted_def split: if_splits)
  moreover have "q \<in> dom ((iw_configs w)(p := None))" if "0 < (held(p := 0)) q" for q
    using that ip_live(3) [OF wf, of q] by (auto split: if_splits)
  moreover have "set (remove1 p (ipconfig_list w)) \<subseteq> dom ((iw_configs w)(p := None))"
    using ip_live(1,2) [OF wf] by auto
  moreover have "set (slots (devices w)) \<subseteq> set (remove1 p (ipconfig_list w))"
    using wf p ip_live(2) [OF wf] by (auto simp: ip_wf_def ip_ok_def)
  ultimately show ?thesis
    using wf t unfolding ip_wf_def ip_ok_def devices_forget by (simp add: forget_def)
qed

lemma unref_effect:
  assumes wf: "ip_wf held w" and h: "0 < held p"
  shows "succeeds (unref_config p w) (\<lambda>w1. ip_wf (release p held) w1 \<and> devices w1 = devices w)"
proof -
  obtain c where c: "iw_configs w p = Some c" using ip_live(3) [OF wf h] by auto
  have n: "counted held (set (slots (devices w))) (iw_next w) p c" by (rule ip_live(5) [OF wf c])
  let ?w1 = "put_config p (c\<lparr>ic_refcount := ic_refcount c - 1\<rparr>) w"
  show ?thesis
  proof (cases "ic_refcount c = 1")
    case False
    have "ip_wf (release p held) ?w1"
      using n False h by (intro recount_wf [OF wf c refl]) (auto simp: release_def counted_def)
    then show ?thesis using c False by (simp add: unref_config.simps)
  next
    case True
    have p: "p \<notin> set (slots (devices w))" and h1: "held p = 1" using n True h by (auto simp: counted_def split: if_splits)
    obtain r where r: "r < 0" "disable_config p ?w1 = Inr (r, ?w1)" using disable_unused [of ?w1 p] p by auto
    have "unref_config p w = Inr (forget p w)"
      using c True r by (simp add: unref_config.simps forget_def put_config_def)
    moreover have "ip_wf (release p held) (forget p w)" using forget_wf [OF wf p] h1 by (simp add: release_def)
    ultimately show ?thesis by simp
  qed
qed

lemma unref_opt_effect:
  assumes "ip_wf (hold_opt ipconfig held) w"
  shows "succeeds (ipconfig_unref ipconfig w) (\<lambda>w1. ip_wf held w1 \<and> devices w1 = devices w)"
proof (cases ipconfig)
  case (Some p)
  then show ?thesis using assms unref_effect [of "hold p held" w p] by (simp add: hold_opt_def ipconfig_unref_def)
qed (use assms in \<open>simp add: hold_opt_def ipconfig_unref_def\<close>)

section \<open>Devices\<close>

lemma split_device:
  assumes "distinct (map fst h)" and "map_of h i = Some d"
  obtains h1 h2 where "h = h1 @ (i, d) # h2" "filter (\<lambda>x. fst x \<noteq> i) h = h1 @ h2"
    "\<And>f. map (\<lambda>(j, d). (j, if j = i then f d else d)) h = h1 @ (i, f d) # h2"
proof -
  obtain h1 h2 where h: "h = h1 @ (i, d) # h2" using map_of_SomeD [OF assms(2)] by (auto dest: split_list)
  have n: "i \<notin> fst ` set h1" "i \<notin> fst ` set h2" using assms(1) h by auto
  then have "filter (\<lambda>x. fst x \<noteq> i) h1 = h1" "filter (\<lambda>x. fst x \<noteq> i) h2 = h2" by (force intro: filter_True)+
  moreover have "map (\<lambda>(j, d). (j, if j = i then f d else d)) h1 = h1" "map (\<lambda>(j, d). (j, if j = i then f d else d)) h2 = h2" for f
    using n by (force intro: map_idI)+
  ultimately show thesis using that [OF h] h by simp
qed

lemma wf_devices: "ip_wf held w \<Longrightarrow> distinct (map fst (devices w))"
  by (simp add: ip_wf_def ip_ok_def devices_ok_def)

lemma hold_opt_slots:
  assumes "distinct (device_slots d)"
  shows "hold_opt (id_config_ipv4 d) (hold_opt (id_config_ipv6 d) held) p = held p + (if p \<in> set (device_slots d) then 1 else 0)"
  using assms by (auto simp: hold_opt_def hold_def device_slots_def split: option.splits)

lemma remove_device_wf:
  assumes wf: "ip_wf held w" and d: "device_of w i = Some d"
  shows "ip_wf (hold_opt (id_config_ipv4 d) (hold_opt (id_config_ipv6 d) held)) (remove_device i w)"
proof -
  obtain h1 h2 where h: "devices w = h1 @ (i, d) # h2" "filter (\<lambda>x. fst x \<noteq> i) (devices w) = h1 @ h2"
    using split_device [OF wf_devices [OF wf]] d device_of_devices by metis
  have r: "devices (remove_device i w) = h1 @ h2" using h(2) by (simp add: remove_device_def devices_def split: option.splits)
  have s: "distinct (device_slots d)" "set (device_slots d) \<inter> set (slots (h1 @ h2)) = {}"
    "set (slots (devices w)) = set (device_slots d) \<union> set (slots (h1 @ h2))"
    using wf unfolding ip_wf_def ip_ok_def devices_ok_def h(1) by auto
  have "counted (hold_opt (id_config_ipv4 d) (hold_opt (id_config_ipv6 d) held)) (set (slots (h1 @ h2))) (iw_next w) q c"
    if "iw_configs w q = Some c" for q c
    using ip_live(5) [OF wf that] s(2,3) by (auto simp: counted_def hold_opt_slots [OF s(1)])
  moreover have "q \<in> dom (iw_configs w)" if "0 < hold_opt (id_config_ipv4 d) (hold_opt (id_config_ipv6 d) held) q" for q
    using that ip_live(3,4) [OF wf, of q] s(3) by (auto simp: hold_opt_slots [OF s(1)] split: if_splits)
  ultimately show ?thesis
    using wf unfolding ip_wf_def ip_ok_def devices_ok_def r h(1) by (simp add: remove_device_def) blast
qed

definition put_slot :: "connman_ipconfig_type \<Rightarrow> addr option \<Rightarrow> connman_ipdevice \<Rightarrow> connman_ipdevice" where
  "put_slot t x d = (if t = TYPE_IPV6 then d\<lparr>id_config_ipv6 := x\<rparr> else d\<lparr>id_config_ipv4 := x\<rparr>)"

lemma put_slot_again [simp]: "put_slot t x (put_slot t y d) = put_slot t x d"
  by (simp add: put_slot_def)

lemma id_index_put_slot [simp]: "id_index (put_slot t x d) = id_index d"
  by (simp add: put_slot_def)

lemma upd_device_again: "upd_device i f (upd_device i g w) = upd_device i (\<lambda>d. f (g d)) w"
  by (cases "ipdevice_hash w") (simp_all add: upd_device_def o_def case_prod_beta cong: if_cong)

lemma slot_of_put [simp]: "config_slot t (put_slot t x d) = x"
  by (simp add: config_slot_def put_slot_def)

lemma slots_put_slot:
  "config_slot t d = Some q \<Longrightarrow> distinct (device_slots d) \<Longrightarrow> set (device_slots d) = insert q (set (device_slots (put_slot t None d))) \<and> q \<notin> set (device_slots (put_slot t None d)) \<and> distinct (device_slots (put_slot t None d))"
  "config_slot t d = None \<Longrightarrow> set (device_slots (put_slot t (Some p) d)) = insert p (set (device_slots d)) \<and> (p \<notin> set (device_slots d) \<longrightarrow> distinct (device_slots d) \<longrightarrow> distinct (device_slots (put_slot t (Some p) d)))"
  by (auto simp: config_slot_def put_slot_def device_slots_def split: option.splits if_splits)

lemma clear_slot_wf:
  assumes wf: "ip_wf held w" and d: "device_of w i = Some d" and q: "config_slot t d = Some q"
  shows "ip_wf (hold q held) (upd_device i (put_slot t None) w) \<and> q \<notin> set (slots (devices (upd_device i (put_slot t None) w)))"
proof -
  let ?d = "put_slot t None d"
  obtain h1 h2 where h: "devices w = h1 @ (i, d) # h2" "devices (upd_device i (put_slot t None) w) = h1 @ (i, ?d) # h2"
    using split_device [OF wf_devices [OF wf]] d device_of_devices devices_upd_device by metis
  note ok = wf [unfolded ip_wf_def ip_ok_def devices_ok_def h(1)]
  have dd: "distinct (device_slots d)" using ok by simp
  note s = slots_put_slot(1) [OF q dd]
  have q1: "q \<notin> set (slots (h1 @ (i, ?d) # h2))" and ins: "set (slots (devices w)) = insert q (set (slots (h1 @ (i, ?d) # h2)))"
    using ok s by (auto simp: h(1))
  have n: "distinct (slots (h1 @ (i, ?d) # h2))" using ok s by auto
  have "typed (iw_configs w) ?d" if "typed (iw_configs w) d" using that by (simp add: typed_def put_slot_def)
  moreover have "counted (hold q held) (set (slots (h1 @ (i, ?d) # h2))) (iw_next w) p c" if "iw_configs w p = Some c" for p c
    using ip_live(5) [OF wf that] q1 unfolding ins by (auto simp: counted_def hold_def)
  moreover have "p \<in> dom (iw_configs w)" if "0 < hold q held p" for p
    using that ip_live(3,4) [OF wf, of p] ins by (cases "p = q") (auto simp: hold_def)
  ultimately have "ip_wf (hold q held) (upd_device i (put_slot t None) w)"
    using ok n ins unfolding ip_wf_def ip_ok_def devices_ok_def h upd_device_fields by (auto simp del: slots_simps)
  then show ?thesis using q1 h(2) by simp
qed

lemma fill_slot_wf:
  assumes wf: "ip_wf held w" and d: "device_of w i = Some d" and e: "config_slot t d = None" and t: "t \<noteq> TYPE_ALL"
    and p: "iw_configs w p = Some c" "ic_type c = t" "p \<in> set (ipconfig_list w)" "p \<notin> set (slots (devices w))" "0 < held p"
  shows "ip_wf (release p held) (upd_device i (put_slot t (Some p)) w)"
proof -
  let ?d = "put_slot t (Some p) d"
  obtain h1 h2 where h: "devices w = h1 @ (i, d) # h2" "devices (upd_device i (put_slot t (Some p)) w) = h1 @ (i, ?d) # h2"
    using split_device [OF wf_devices [OF wf]] d device_of_devices devices_upd_device by metis
  note ok = wf [unfolded ip_wf_def ip_ok_def devices_ok_def h(1)]
  note s = slots_put_slot(2) [OF e, of p]
  have n: "distinct (slots (h1 @ (i, ?d) # h2))" and ins: "set (slots (h1 @ (i, ?d) # h2)) = insert p (set (slots (devices w)))"
    using ok s p(4) by (auto simp: h(1))
  have "typed (iw_configs w) ?d" if "typed (iw_configs w) d" using that p(1,2) t
    by (cases t) (auto simp: typed_def put_slot_def)
  moreover have "counted (release p held) (insert p (set (slots (devices w)))) (iw_next w) q e" if "iw_configs w q = Some e" for q e
    using ip_live(5) [OF wf that] p(4,5) by (auto simp: counted_def release_def)
  moreover have "q \<in> dom (iw_configs w)" if "0 < release p held q" for q
    using that ip_live(3) [OF wf, of q] by (cases "q = p") (auto simp: release_def)
  ultimately show ?thesis
    using ok n p(3) unfolding ip_wf_def ip_ok_def devices_ok_def h upd_device_fields ins by (auto simp del: slots_simps)
qed

text \<open>Taking a configuration that no device uses off the list, and putting one on it.\<close>

lemma devices_list [simp]: "devices (w\<lparr>ipconfig_list := ls\<rparr>) = devices w"
  by (simp add: devices_def)

lemma retire_fields [simp]: "devices (retire_config p w) = devices w" "iw_next (retire_config p w) = iw_next w"
  "ipconfig_list (retire_config p w) = remove1 p (ipconfig_list w)"
  by (simp_all add: retire_config_def devices_def)

lemma retire_configs:
  "iw_configs w p = Some c \<Longrightarrow> iw_configs (retire_config p w) = (iw_configs w)(p \<mapsto> c\<lparr>ic_system := ipaddress_clear (ic_system c)\<rparr>)"
  by (simp add: retire_config_def)

lemma retire_wf:
  assumes wf: "ip_wf held w" and p: "p \<notin> set (slots (devices w))" "iw_configs w p = Some c"
  shows "ip_wf held (retire_config p w)"
proof -
  have a: "ic_address c \<noteq> None" using ip_live(5) [OF wf p(2)] by (simp add: counted_def)
  let ?w = "put_config p (c\<lparr>ic_system := ipaddress_clear (ic_system c)\<rparr>) w"
  have w1: "ip_wf held ?w" by (rule put_config_wf [OF wf p(2)]) (use a in simp_all)
  have "retire_config p w = ?w\<lparr>ipconfig_list := remove1 p (ipconfig_list ?w)\<rparr>"
    using p(2) by (simp add: retire_config_def put_config_def)
  moreover have "ip_wf held (?w\<lparr>ipconfig_list := remove1 p (ipconfig_list ?w)\<rparr>)"
    using w1 p(1) unfolding ip_wf_def ip_ok_def devices_list by (auto dest: notin_set_remove1)
  ultimately show ?thesis by simp
qed

lemma enlist_wf:
  assumes "ip_wf held w" and "p \<in> dom (iw_configs w)" and "p \<notin> set (ipconfig_list w)"
  shows "ip_wf held (w\<lparr>ipconfig_list := ipconfig_list w @ [p]\<rparr>)"
  using assms unfolding ip_wf_def ip_ok_def devices_list by auto

section \<open>The reference of a device\<close>

lemma map_of_devices:
  "map_of (map (\<lambda>(j, d). (j, if j = i then f d else d)) h) j = (if j = i then map_option f (map_of h j) else map_of h j)"
  by (induction h) auto

lemma device_of_upd_device: "device_of (upd_device i f w) j = (if j = i then map_option f (device_of w j) else device_of w j)"
  by (simp add: device_of_devices devices_upd_device map_of_devices)

lemma slot_unique:
  assumes wf: "ip_wf held w" and d: "device_of w i = Some d" "config_slot t d = Some q" and e: "device_of w j = Some e" "config_slot t' e = Some q"
  shows "j = i \<and> (t' = TYPE_IPV6 \<longleftrightarrow> t = TYPE_IPV6)"
proof (rule ccontr)
  assume n: "\<not> ?thesis"
  let ?w = "upd_device i (put_slot t None) w"
  obtain e' where "device_of ?w j = Some e'" "config_slot t' e' = Some q"
    using d e n by (cases "j = i") (auto simp: device_of_upd_device config_slot_def put_slot_def split: if_splits)
  then show False using device_slot_in clear_slot_wf [OF wf d] by blast
qed

text \<open>Disabling a configuration whose count is already zero: it is only taken off its device and off the list.\<close>

lemma disable_dead:
  assumes c: "iw_configs w q = Some c" "ic_refcount c = 0"
  obtains (unused) r where "r < 0" "disable_config q w = Inr (r, w)"
  | (used) i d t u where "device_of w i = Some d" "config_slot t d = Some q" "disable_config q w = Inr (0, upd_device i (put_slot t None) u)"
      "devices u = devices w" "ipconfig_list u = remove1 q (ipconfig_list w)" "iw_next u = iw_next w"
      "(iw_configs u)(q := None) = (iw_configs w)(q := None)"
proof -
  have dec: "\<exists>u. unref_config q (retire_config q w') = Inr u \<and> devices u = devices w \<and> ipconfig_list u = remove1 q (ipconfig_list w) \<and>
      iw_next u = iw_next w \<and> (iw_configs u)(q := None) = (iw_configs w)(q := None)" if s: "same w w'" for w'
    using c by (simp add: unref_config.simps retire_configs same_fields [OF s])
  show thesis
  proof (cases "device_of w (ic_index c)")
    case None
    then show ?thesis using c unused [of "- ENODEV"] unused [of "- ENXIO"]
      by (cases "ic_index c < 0") (auto simp: disable_config.simps ENODEV_def ENXIO_def)
  next
    case (Some d)
    consider "ic_index c < 0" | "0 \<le> ic_index c" "id_config_ipv4 d \<noteq> Some q" "id_config_ipv6 d \<noteq> Some q"
      | "0 \<le> ic_index c" "id_config_ipv4 d = Some q" | "0 \<le> ic_index c" "id_config_ipv4 d \<noteq> Some q" "id_config_ipv6 d = Some q" by linarith
    then show ?thesis
    proof cases
      case 1
      then show ?thesis using c unused [of "- ENODEV"] by (simp add: disable_config.simps ENODEV_def)
    next
      case 2
      then show ?thesis using c Some unused [of "- EINVAL"] by (simp add: disable_config.simps EINVAL_def)
    next
      case 3
      obtain u where u: "unref_config q (retire_config q w) = Inr u" "devices u = devices w" "ipconfig_list u = remove1 q (ipconfig_list w)"
        "iw_next u = iw_next w" "(iw_configs u)(q := None) = (iw_configs w)(q := None)" using dec [OF same_refl] by blast
      show ?thesis by (rule used [of "ic_index c" d TYPE_IPV4 u])
          (use c Some 3 u in \<open>simp_all add: disable_config.simps config_slot_def put_slot_def [abs_def]\<close>)
    next
      case 4
      let ?w = "if ic_method c = METHOD_AUTO then disable_ipv6 (ic_index c) w else w"
      have s: "same w ?w" by simp
      obtain u where u: "unref_config q (retire_config q ?w) = Inr u" "devices u = devices w" "ipconfig_list u = remove1 q (ipconfig_list w)"
        "iw_next u = iw_next w" "(iw_configs u)(q := None) = (iw_configs w)(q := None)" using dec [OF s] by blast
      show ?thesis by (rule used [of "ic_index c" d TYPE_IPV6 u])
          (use c Some 4 u in \<open>simp_all add: disable_config.simps config_slot_def put_slot_def [abs_def]\<close>)
    qed
  qed
qed

lemma wf_fields:
  "devices u = devices w \<Longrightarrow> iw_configs u = iw_configs w \<Longrightarrow> ipconfig_list u = ipconfig_list w \<Longrightarrow> iw_next u = iw_next w \<Longrightarrow>
     ip_wf held u = ip_wf held w"
  by (simp add: ip_wf_def)

lemma same_put_slot: "(t' = TYPE_IPV6 \<longleftrightarrow> t = TYPE_IPV6) \<Longrightarrow> put_slot t' = put_slot t"
  by (simp add: put_slot_def [abs_def])

lemma unref_dead:
  assumes wf: "ip_wf held w" and d: "device_of w i = Some d" "config_slot t d = Some q"
    and u: "devices u = devices w" "iw_configs u q = Some c" "ic_refcount c = 1"
  shows "\<exists>v. unref_config q u = Inr v \<and> devices (upd_device i (put_slot t None) v) = devices (upd_device i (put_slot t None) w) \<and>
    (ipconfig_list v = remove1 q (ipconfig_list u)) \<and> iw_next v = iw_next u \<and> iw_configs v = (iw_configs u)(q := None)"
proof -
  let ?u = "put_config q (c\<lparr>ic_refcount := 0\<rparr>) u"
  have q: "iw_configs ?u q = Some (c\<lparr>ic_refcount := 0\<rparr>)" "ic_refcount (c\<lparr>ic_refcount := 0\<rparr>) = 0" by simp_all
  show ?thesis
  proof (rule disable_dead [OF q])
    fix r assume "r < 0" "disable_config q ?u = Inr (r, ?u)"
    then have "unref_config q u = Inr (forget q u)" using u by (simp add: unref_config.simps forget_def put_config_def)
    then show ?thesis by (simp add: devices_upd_device u(1)) (simp add: forget_def)
  next
    fix j e t' v
    assume e: "device_of ?u j = Some e" "config_slot t' e = Some q" and v: "disable_config q ?u = Inr (0, upd_device j (put_slot t' None) v)"
      "devices v = devices ?u" "ipconfig_list v = remove1 q (ipconfig_list ?u)" "iw_next v = iw_next ?u"
      "(iw_configs v)(q := None) = (iw_configs ?u)(q := None)"
    have "device_of w j = Some e" using e(1) u(1) by (simp add: device_of_devices)
    then have j: "j = i" "put_slot t' = put_slot t" using slot_unique [OF wf d _ e(2)] same_put_slot by blast+
    let ?v = "upd_device j (put_slot t' None) v"
    let ?f = "?v\<lparr>iw_configs := (iw_configs ?v)(q := None)\<rparr>"
    have "devices ?f = devices ?v" by (simp add: devices_def)
    then have "devices (upd_device i (put_slot t None) ?f) = devices (upd_device i (put_slot t None) ?v)" by (simp add: devices_upd_device)
    also have "\<dots> = devices (upd_device i (put_slot t None) w)"
      using v(2) u(1) unfolding j upd_device_again by (simp add: devices_upd_device)
    finally have "devices (upd_device i (put_slot t None) ?f) = devices (upd_device i (put_slot t None) w)" .
    moreover have "unref_config q u = Inr ?f" using u v(1) by (simp add: unref_config.simps)
    ultimately show ?thesis using v(3-5) by simp
  qed
qed

lemma upd_device_config: "upd_device i f (put_config q c w) = put_config q c (upd_device i f w)"
  by (simp add: upd_device_def put_config_def)

lemma upd_device_retire: "upd_device i f (retire_config q w) = retire_config q (upd_device i f w)"
  by (simp add: upd_device_def retire_config_def)

text \<open>Dropping the reference of a device to the configuration in one of its slots.\<close>

lemma unref_slot:
  assumes wf: "ip_wf held w" and d: "device_of w i = Some d" "config_slot t d = Some q"
  shows "\<exists>v. unref_config q (retire_config q w) = Inr v \<and> ip_wf held (upd_device i (put_slot t None) v) \<and>
    devices (upd_device i (put_slot t None) v) = devices (upd_device i (put_slot t None) w) \<and>
    ipconfig_list v = remove1 q (ipconfig_list w) \<and> (\<forall>p. p \<noteq> q \<longrightarrow> iw_configs v p = iw_configs w p)"
proof -
  let ?f = "upd_device i (put_slot t None)"
  let ?R = "retire_config q w"
  obtain c where c: "iw_configs w q = Some c" and l: "q \<in> set (ipconfig_list w)"
    using ip_live(4) [OF wf device_slot_in [OF d]] by auto
  let ?c = "c\<lparr>ic_system := ipaddress_clear (ic_system c)\<rparr>"
  have n: "ic_refcount c = int (held q) + 1" using ip_live(5) [OF wf c] device_slot_in [OF d] by (simp add: counted_def)
  have w1: "ip_wf (hold q held) (?f ?R)" and q: "q \<notin> set (slots (devices (?f ?R)))" and R: "iw_configs (?f ?R) q = Some ?c"
    using clear_slot_wf [OF wf d] retire_wf [of "hold q held" "?f w" q c] c by (simp_all add: upd_device_retire retire_configs)
  show ?thesis
  proof (cases "ic_refcount c = 1")
    case False
    let ?v = "put_config q (?c\<lparr>ic_refcount := ic_refcount c - 1\<rparr>) ?R"
    have "ip_wf held (put_config q (?c\<lparr>ic_refcount := ic_refcount c - 1\<rparr>) (?f ?R))"
      using False n by (intro recount_wf [OF w1 R refl]) (auto simp: hold_def)
    then have "ip_wf held (?f ?v)" by (simp add: upd_device_config)
    moreover have "unref_config q ?R = Inr ?v" using False c by (simp add: unref_config.simps retire_configs)
    ultimately show ?thesis using c by (simp add: devices_upd_device retire_configs)
  next
    case True
    have l2: "remove1 q (remove1 q (ipconfig_list w)) = remove1 q (ipconfig_list w)"
      using ip_live(2) [OF wf] by (auto intro: remove1_idem)
    obtain v where v: "unref_config q ?R = Inr v" "devices (?f v) = devices (?f w)" "ipconfig_list v = remove1 q (ipconfig_list w)"
      "iw_next v = iw_next w" "iw_configs v = (iw_configs ?R)(q := None)"
      using unref_dead [OF wf d, of ?R ?c] c True l2 by (auto simp: retire_configs)
    have "ip_wf ((hold q held)(q := 0)) (forget q (?f ?R))" using forget_wf [OF w1 q] True n by (simp add: hold_def)
    moreover have "(hold q held)(q := 0) = held" using True n by (auto simp: hold_def)
    ultimately have "ip_wf held (forget q (?f ?R))" by (simp only:)
    moreover have "ip_wf held (?f v) = ip_wf held (forget q (?f ?R))"
    proof (rule wf_fields)
      show "devices (?f v) = devices (forget q (?f ?R))" unfolding v(2) by (simp add: devices_upd_device)
      show "ipconfig_list (?f v) = ipconfig_list (forget q (?f ?R))" using v(3) l2 by (simp add: forget_def)
    qed (use v(4,5) in \<open>simp_all add: forget_def\<close>)
    ultimately have "ip_wf held (?f v)" by blast
    then show ?thesis using v c by (simp add: retire_configs)
  qed
qed

lemma disable_total:
  assumes wf: "ip_wf held w" and p: "p \<in> dom (iw_configs w)"
  shows "succeeds (disable_config p w) (\<lambda>x. ip_wf held (snd x))"
proof -
  obtain c where c: "iw_configs w p = Some c" using p by auto
  show ?thesis
  proof (cases "device_of w (ic_index c)")
    case (Some d)
    let ?w = "if ic_method c = METHOD_AUTO then disable_ipv6 (ic_index c) w else w"
    have s: "same w ?w" by simp
    have v4: "succeeds (unref_config p (retire_config p w)) (\<lambda>v. ip_wf held (upd_device (ic_index c) (\<lambda>d. d\<lparr>id_config_ipv4 := None\<rparr>) v))"
      if "id_config_ipv4 d = Some p"
      using unref_slot [OF wf Some, of TYPE_IPV4 p] that by (auto simp: succeeds_def config_slot_def put_slot_def [abs_def])
    have v6: "succeeds (unref_config p (retire_config p ?w)) (\<lambda>v. ip_wf held (upd_device (ic_index c) (\<lambda>d. d\<lparr>id_config_ipv6 := None\<rparr>) v))"
      if "id_config_ipv6 d = Some p"
      using unref_slot [of held ?w "ic_index c" d TYPE_IPV6 p] that wf Some same_wf [OF s] same_fields(6) [OF s]
      by (auto simp: succeeds_def config_slot_def put_slot_def [abs_def])
    show ?thesis using c Some v4 v6 wf by (auto simp: disable_config.simps succeeds_def)
  qed (use c wf in \<open>simp add: disable_config.simps\<close>)
qed

section \<open>Enabling\<close>

text \<open>
  Enabling is safe when the configuration has its callbacks, and is not on the list yet unless the call is refused.
\<close>

definition enable_safe :: "addr \<Rightarrow> ip_world \<Rightarrow> bool" where
  "enable_safe p w =
     (case iw_configs w p of
        None \<Rightarrow> False
      | Some c \<Rightarrow> ic_ops c \<noteq> None \<and>
          (p \<in> set (ipconfig_list w) \<longrightarrow> ic_index c < 0 \<or>
            (case device_of w (ic_index c) of None \<Rightarrow> True | Some d \<Rightarrow> config_slot (ic_type c) d = Some p)))"

lemma clear_empty_slot:
  assumes "ip_wf held w" and d: "device_of w i = Some d" and e: "config_slot t d = None"
  shows "devices (upd_device i (put_slot t None) w) = devices w"
proof -
  have "put_slot t None d = d" using e by (auto simp: config_slot_def put_slot_def split: if_splits)
  moreover obtain h1 h2 where "devices w = h1 @ (i, d) # h2" "devices (upd_device i (put_slot t None) w) = h1 @ (i, put_slot t None d) # h2"
    using split_device [OF wf_devices [OF assms(1)]] d device_of_devices devices_upd_device by metis
  ultimately show ?thesis by simp
qed

lemma replace_effect:
  assumes wf: "ip_wf held w" and d: "device_of w i = Some d" and p: "config_slot t d \<noteq> Some p"
  shows "\<exists>v. replace_config (config_slot t d) w = Inr v \<and> ip_wf held (upd_device i (put_slot t None) v) \<and>
    devices (upd_device i (put_slot t None) v) = devices (upd_device i (put_slot t None) w) \<and>
    set (ipconfig_list v) \<subseteq> set (ipconfig_list w) \<and> iw_configs v p = iw_configs w p"
proof (cases "config_slot t d")
  case None
  have "ip_wf held (upd_device i (put_slot t None) w) = ip_wf held w"
    by (rule wf_fields) (simp_all add: clear_empty_slot [OF wf d None])
  then show ?thesis using None wf by (simp add: replace_config_def)
next
  case (Some q)
  obtain v where v: "unref_config q (retire_config q w) = Inr v" "ip_wf held (upd_device i (put_slot t None) v)"
    "devices (upd_device i (put_slot t None) v) = devices (upd_device i (put_slot t None) w)"
    "ipconfig_list v = remove1 q (ipconfig_list w)" "\<forall>p. p \<noteq> q \<longrightarrow> iw_configs v p = iw_configs w p"
    using unref_slot [OF wf d Some] by blast
  have "q \<in> dom (iw_configs w)" using ip_live(4) [OF wf device_slot_in [OF d Some]] by blast
  then have "replace_config (config_slot t d) w = Inr v" using v(1) Some by (auto simp: replace_config_def)
  moreover have "iw_configs v p = iw_configs w p" using v(5) p Some by simp
  moreover have "set (ipconfig_list v) \<subseteq> set (ipconfig_list w)" unfolding v(4) by (rule set_remove1_subset)
  ultimately show ?thesis using v(2,3) by blast
qed

lemma install_wf:
  assumes wf: "ip_wf held (upd_device i (put_slot t None) v)" and d: "device_of v i = Some d" and t: "t \<noteq> TYPE_ALL"
    and p: "iw_configs v p = Some c" "ic_type c = t" "p \<notin> set (ipconfig_list v)"
  shows "ip_wf held (upd_device i (put_slot t (Some p))
    ((put_config p (c\<lparr>ic_refcount := ic_refcount c + 1\<rparr>) v)\<lparr>ipconfig_list := ipconfig_list v @ [p]\<rparr>))"
proof -
  let ?u = "upd_device i (put_slot t None) v"
  let ?c = "c\<lparr>ic_refcount := ic_refcount c + 1\<rparr>"
  let ?x = "(put_config p ?c ?u)\<lparr>ipconfig_list := ipconfig_list (put_config p ?c ?u) @ [p]\<rparr>"
  have "ip_wf (hold p held) (put_config p ?c ?u)" using ref_effect(2) [OF wf, of p c] p(1) by simp
  then have x: "ip_wf (hold p held) ?x" by (rule enlist_wf) (use p in simp_all)
  have "device_of ?x i = Some (put_slot t None d)" using d by (simp add: device_of_def put_config_def upd_device_def map_of_devices split: option.splits)
  then have "ip_wf (release p (hold p held)) (upd_device i (put_slot t (Some p)) ?x)"
  proof (rule fill_slot_wf [OF x _ _ t, where c = ?c])
    show "p \<notin> set (slots (devices ?x))"
      using ip_live(4) [OF wf, of p] p(3) by auto
  qed (use p in simp_all)
  moreover have "upd_device i (put_slot t (Some p)) ?x =
      upd_device i (put_slot t (Some p)) ((put_config p ?c v)\<lparr>ipconfig_list := ipconfig_list v @ [p]\<rparr>)"
  proof -
    have "?x = upd_device i (put_slot t None) ((put_config p ?c v)\<lparr>ipconfig_list := ipconfig_list v @ [p]\<rparr>)"
      by (simp add: upd_device_def put_config_def)
    then show ?thesis by (simp only: upd_device_again put_slot_again)
  qed
  ultimately show ?thesis by simp
qed

lemma enable_total:
  assumes wf: "ip_wf held w" and h: "0 < held p" and safe: "enable_safe p w"
  shows "succeeds (enable_config p w) (\<lambda>x. ip_wf held (snd x))"
proof -
  obtain c ops where c: "iw_configs w p = Some c" "ic_ops c = Some ops" using safe by (auto simp: enable_safe_def split: option.splits)
  let ?i = "ic_index c" and ?t = "ic_type c"
  show ?thesis
  proof (cases "ic_index c < 0 \<or> device_of w ?i = None \<or> ?t = TYPE_ALL \<or> (\<exists>d. device_of w ?i = Some d \<and> config_slot ?t d = Some p)")
    case True
    then show ?thesis using wf c by (auto simp: enable_config_def split: option.splits)
  next
    case False
    then obtain d where d: "device_of w ?i = Some d" "config_slot ?t d \<noteq> Some p" and i: "0 \<le> ?i" and t: "?t \<noteq> TYPE_ALL" by auto
    have l: "p \<notin> set (ipconfig_list w)" using safe c d i by (auto simp: enable_safe_def)
    define w1 where "w1 = (if ?t = TYPE_IPV6 then enable_ipv6 c w else w)"
    have s: "same w w1" by (simp add: w1_def)
    have wf1: "ip_wf held w1" and d1: "device_of w1 ?i = Some d" using wf d(1) same_wf [OF s] same_fields(6) [OF s] by simp_all
    obtain v where v: "replace_config (config_slot ?t d) w1 = Inr v" "ip_wf held (upd_device ?i (put_slot ?t None) v)"
      "devices (upd_device ?i (put_slot ?t None) v) = devices (upd_device ?i (put_slot ?t None) w1)"
      "set (ipconfig_list v) \<subseteq> set (ipconfig_list w1)" "iw_configs v p = iw_configs w1 p"
      using replace_effect [OF wf1 d1 d(2)] by blast
    have cv: "iw_configs v p = Some c" and lv: "p \<notin> set (ipconfig_list v)" using v(4,5) c l same_fields(2,3) [OF s] by auto
    have "device_of (upd_device ?i (put_slot ?t None) v) ?i = device_of (upd_device ?i (put_slot ?t None) w1) ?i"
      unfolding device_of_devices v(3) ..
    then obtain e where e: "device_of v ?i = Some e" using d1 by (auto simp: device_of_upd_device)
    define x where "x = upd_device ?i (put_slot ?t (Some p))
      ((put_config p (c\<lparr>ic_refcount := ic_refcount c + 1\<rparr>) v)\<lparr>ipconfig_list := ipconfig_list v @ [p]\<rparr>)"
    have "ip_wf held x" unfolding x_def by (rule install_wf [OF v(2) e t cv refl lv])
    moreover have "enable_config p w = Inr (0, call_ops (state_ops (id_flags d)) ops p x)"
      using c d i t v(1) cv by (simp add: enable_config_def ipconfig_ref_def upd_config_def w1_def [symmetric] x_def put_slot_def [abs_def])
    ultimately show ?thesis using same_wf [OF same_ops(5)] by simp
  qed
qed

end
