(* ===== verification/Ipconfig_Machine.thy ===== *)
theory Ipconfig_Machine
  imports Ipconfig_State
begin

text \<open>
  Every operation of \<^verbatim>\<open>src/ipconfig.c\<close> as an event of the state machine: what the kernel reports, and what the owners
  of configurations do. Each of them succeeds and keeps the invariant.
\<close>

section \<open>What the kernel reports\<close>

lemma notify_total:
  "set ps \<subseteq> dom (iw_configs w) \<Longrightarrow> succeeds (notify_loop wanted index type ps w) (same w)"
proof (induction ps arbitrary: w)
  case (Cons p ps)
  obtain c where c: "iw_configs w p = Some c" using Cons.prems by auto
  have "succeeds (notify_loop wanted index type ps w') (same w)" if "same w w'" for w'
    using Cons.IH [of w'] Cons.prems that same_fields(2) [OF that] by (auto intro: succeeds_mono same_trans)
  then show ?case using c by (auto split: option.splits)
qed simp

lemma succeeds_same: "succeeds m (same w) \<Longrightarrow> ip_wf held w \<Longrightarrow> succeeds m (ip_wf held)"
  by (auto simp: succeeds_def same_wf)

lemma notify_wf: "ip_wf held w \<Longrightarrow> succeeds (notify_loop wanted index type (ipconfig_list w) w) (ip_wf held)"
  by (rule succeeds_same [OF notify_total [OF ip_live(1)]])

lemma lower_down_total:
  assumes wf: "ip_wf held w" and d: "set (device_slots d) \<subseteq> dom (iw_configs w)"
  shows "succeeds (ipconfig_lower_down d w) (same w)"
proof -
  have a: "\<exists>c a. iw_configs w p = Some c \<and> ic_address c = Some a" if "p \<in> set (device_slots d)" for p
    using that d ip_live(5) [OF wf, of p] by (fastforce simp: counted_def)
  show ?thesis
    using a by (cases "id_config_ipv4 d"; cases "id_config_ipv6 d")
      (fastforce simp: ipconfig_lower_down_def device_slots_def config_of_def ip_tell_def same_def)+
qed

lemma service_total:
  assumes "set (device_slots d) \<subseteq> dom (iw_configs w)"
  shows "succeeds (device_service d w) (\<lambda>_. True)"
  using assms by (cases "id_config_ipv4 d"; cases "id_config_ipv6 d")
    (auto simp: device_service_def device_slots_def config_of_def)

lemma update_stats_total:
  assumes "ip_wf held w" and "set (device_slots d) \<subseteq> dom (iw_configs w)"
  shows "succeeds (update_stats i d stats w) (\<lambda>w1. ip_wf held w1 \<and> iw_configs w1 = iw_configs w)"
  using service_total [OF assms(2)] assms(1)
  by (auto simp: update_stats_def upd_device_wf same_wf [OF same_ops(1)] same_fields(2) [OF same_ops(1)] elim!: succeeds_mono split: option.splits)

lemma stats_device:
  assumes "update_stats i d stats w = Inr w1" and "device_of w i = Some e"
  shows "\<exists>e1. device_of w1 i = Some e1 \<and> id_config_ipv4 e1 = id_config_ipv4 e \<and> id_config_ipv6 e1 = id_config_ipv6 e"
  using assms by (auto simp: update_stats_def bind_r_eq_Inr same_fields(6) [OF same_ops(1)] device_of_upd_device split: if_splits option.splits)

lemma free_total:
  assumes "ip_wf (hold_opt (id_config_ipv4 d) (hold_opt (id_config_ipv6 d) held)) w"
  shows "succeeds (free_ipdevice d w) (\<lambda>w1. ip_wf held w1 \<and> devices w1 = devices w)"
proof -
  obtain w1 where w1: "ipconfig_unref (id_config_ipv4 d) w = Inr w1" "ip_wf (hold_opt (id_config_ipv6 d) held) w1" "devices w1 = devices w"
    using unref_opt_effect [OF assms] by (auto simp: succeeds_def)
  obtain w2 where w2: "ipconfig_unref (id_config_ipv6 d) w1 = Inr w2" "ip_wf held w2" "devices w2 = devices w1"
    using unref_opt_effect [OF w1(2)] by (auto simp: succeeds_def)
  then show ?thesis using w1 by (simp add: free_ipdevice_def same_wf [OF same_ops(2)] same_wf [OF same_ops(3)] same_fields(5) [OF same_ops(2)] same_fields(5) [OF same_ops(3)])
qed

lemma device_slots_live:
  assumes "ip_wf held w" and "device_of w i = Some d"
  shows "set (device_slots d) \<subseteq> dom (iw_configs w)"
proof -
  have "(i, d) \<in> set (devices w)" using assms(2) by (simp add: device_of_devices map_of_SomeD)
  then have "set (device_slots d) \<subseteq> set (slots (devices w))" by (force simp: slots_def)
  then show ?thesis using ip_live(4) [OF assms(1)] by blast
qed

lemma update_link_total:
  assumes wf: "ip_wf held w" and d: "set (device_slots d) \<subseteq> dom (iw_configs w)"
  shows "succeeds (update_link i flags mtu stats d w) (ip_wf held)"
proof -
  let ?w = "upd_device i (\<lambda>d. d\<lparr>id_mtu := mtu\<rparr>) w"
  have "ip_wf held ?w" using wf by (simp add: upd_device_wf)
  then obtain w1 where w1: "update_stats i d stats ?w = Inr w1" "ip_wf held w1" "iw_configs w1 = iw_configs w"
    using update_stats_total [of held ?w d i stats] d by (auto simp: succeeds_def)
  let ?w1 = "upd_device i (\<lambda>d. d\<lparr>id_flags := flags\<rparr>) w1"
  have u: "ip_wf held ?w1" using w1(2) by (simp add: upd_device_wf)
  have n: "succeeds (notify_loop ops i None (ipconfig_list w1) ?w1) (\<lambda>w2. same ?w1 w2 \<and> ip_wf held w2)" for ops
    using notify_total [of "ipconfig_list w1" ?w1 ops i None] ip_live(1) [OF w1(2)] u by (auto simp: same_wf elim!: succeeds_mono)
  have l: "succeeds (ipconfig_lower_down d w2) (ip_wf held)" if "same ?w1 w2" "ip_wf held w2" for w2
    using lower_down_total [of held w2 d] that d w1(3) same_fields(2) [OF that(1)] by (auto intro: succeeds_same)
  show ?thesis using w1 n [of "link_ops (id_flags d) flags"] l by (auto simp: update_link_def Let_def elim!: succeeds_mono)
qed

lemma insert_device_wf:
  assumes wf: "ip_wf held w" and i: "device_of w (id_index d) = None" and s: "device_slots d = []"
  shows "ip_wf held (insert_device d w)"
proof -
  have t: "typed cs d" for cs using s by (auto simp: typed_def device_slots_def split: option.splits)
  have "id_index d \<notin> fst ` set (devices w)" using i by (simp add: device_of_devices map_of_eq_None_iff)
  then have "ip_ok held (devices w @ [(id_index d, d)]) (iw_configs w) (ipconfig_list w) (iw_next w)"
    using wf s t by (auto simp: ip_wf_def ip_ok_def devices_ok_def)
  then show ?thesis using wf by (cases "ipdevice_hash w") (simp_all add: ip_wf_def insert_device_def devices_def)
qed

lemma newlink_total:
  assumes wf: "ip_wf held w"
  shows "succeeds (ipconfig_newlink env i type flags address mtu stats w) (ip_wf held)"
proof (cases "device_of w i")
  case (Some d)
  then show ?thesis using wf update_link_total [OF wf device_slots_live [OF wf Some]] by (simp add: ipconfig_newlink_def)
next
  case None
  let ?w = "ip_tell Ip_alloc w"
  let ?d = "new_device env i type address ?w"
  have d: "device_slots ?d = []" "id_index ?d = i" by (simp_all add: new_device_def device_slots_def Let_def)
  have w1: "ip_wf held ?w" using wf same_wf [OF same_ops(1)] by simp
  have "ip_wf held (insert_device ?d ?w)"
    by (rule insert_device_wf [OF w1 _ d(1)]) (use None same_fields(6) [OF same_ops(1)] d(2) in simp)
  then have "succeeds (update_link i flags mtu stats ?d (insert_device ?d ?w)) (ip_wf held)"
    by (rule update_link_total) (simp add: d)
  then show ?thesis using None wf w1 by (simp add: ipconfig_newlink_def ip_ask_def Let_def)
qed

lemma unlink_total:
  "ip_wf held w \<Longrightarrow> set ps \<subseteq> dom (iw_configs w) \<Longrightarrow>
     succeeds (unlink_loop i ps w) (\<lambda>w1. ip_wf held w1 \<and> devices w1 = devices w \<and> dom (iw_configs w1) = dom (iw_configs w))"
proof (induction ps arbitrary: w)
  case (Cons p ps)
  obtain c where c: "iw_configs w p = Some c" using Cons.prems by auto
  let ?w = "put_config p (c\<lparr>ic_index := - 1\<rparr>) w"
  have a: "ic_address c \<noteq> None" using ip_live(5) [OF Cons.prems(1) c] by (simp add: counted_def)
  have w1: "ip_wf held ?w" by (rule put_config_wf [OF Cons.prems(1) c]) (use a in simp_all)
  have k: "succeeds (unlink_loop i ps w') (\<lambda>w1. ip_wf held w1 \<and> devices w1 = devices w \<and> dom (iw_configs w1) = dom (iw_configs w))"
    if s: "same w w' \<or> same ?w w'" for w'
  proof -
    have d: "dom (iw_configs ?w) = dom (iw_configs w)" using c by auto
    obtain u where u: "same u w'" "u = w \<or> u = ?w" using s by blast
    have "ip_wf held u" "dom (iw_configs u) = dom (iw_configs w)" "devices u = devices w"
      using u(2) w1 d Cons.prems(1) by (metis, metis, metis put_config_fields(4))
    then have f: "dom (iw_configs w') = dom (iw_configs w)" "devices w' = devices w" "ip_wf held w'"
      by (simp_all add: same_fields(2,5) [OF u(1)] same_wf [OF u(1)])
    show ?thesis using Cons.IH [OF f(3)] Cons.prems(2) unfolding f(1,2) by simp
  qed
  show ?case using c k [of w] k [of ?w] k [of "call_ops _ _ _ ?w"] by (auto simp: Let_def split: option.splits)
qed simp

lemma dellink_total:
  assumes wf: "ip_wf held w"
  shows "succeeds (ipconfig_dellink i stats w) (ip_wf held)"
proof (cases "device_of w i")
  case (Some d)
  note live = device_slots_live [OF wf Some]
  obtain w1 where w1: "update_stats i d stats w = Inr w1" "ip_wf held w1" "iw_configs w1 = iw_configs w"
    using update_stats_total [OF wf live] by (auto simp: succeeds_def)
  obtain w2 where w2: "unlink_loop i (ipconfig_list w1) w1 = Inr w2" "ip_wf held w2" "devices w2 = devices w1"
      "dom (iw_configs w2) = dom (iw_configs w1)"
    using unlink_total [OF w1(2) ip_live(1) [OF w1(2)], of i] by (auto simp: succeeds_def)
  obtain w3 where w3: "ipconfig_lower_down d w2 = Inr w3" "same w2 w3" "ip_wf held w3"
    using lower_down_total [OF w2(2), of d] live w1(3) w2(4) w2(2) by (auto simp: succeeds_def same_wf)
  obtain d3 where d3: "device_of w3 i = Some d3" "id_config_ipv4 d3 = id_config_ipv4 d" "id_config_ipv6 d3 = id_config_ipv6 d"
    using stats_device [OF w1(1) Some] same_fields(6) [OF w3(2)] w2(3) by (auto simp: device_of_devices)
  have "succeeds (free_ipdevice d (remove_device i w3)) (ip_wf held)"
    using free_total [OF remove_device_wf [OF w3(3) d3(1), unfolded d3(2,3)]] by (auto elim: succeeds_mono)
  then show ?thesis using Some w1 w2 w3 by (simp add: ipconfig_dellink_def)
qed (use wf in \<open>simp add: ipconfig_dellink_def\<close>)

lemma alloc_same: "same w (snd (ipaddress_alloc env family w))" "same w (snd (ip_ask env c w))"
  by (auto simp: ipaddress_alloc_def ip_ask_def Let_def)

lemma slot_live:
  assumes "ip_wf held w" and "device_of w i = Some d" and "config_slot t d = Some p"
  shows "p \<in> dom (iw_configs w)"
  using ip_live(4) [OF assms(1) device_slot_in [OF assms(2,3)]] by blast

lemma upd_system_total:
  assumes "ip_wf held w" and "p \<in> dom (iw_configs w)"
  shows "succeeds (upd_system f p w) (ip_wf held)"
  unfolding upd_system_def by (rule upd_config_total [OF assms]) simp_all

lemma newaddr_total:
  assumes wf: "ip_wf held w"
  shows "succeeds (ipconfig_newaddr env i family prefixlen address w) (ip_wf held)"
proof (cases "device_of w i")
  case (Some d)
  obtain a w1 where a: "ipaddress_alloc env family w = (a, w1)" by fastforce
  have s: "same w w1" using alloc_same(1) [of w env family] a by simp
  have w1: "ip_wf held w1" "device_of w1 i = Some d" using wf Some same_wf [OF s] same_fields(6) [OF s] by simp_all
  have u: "ip_wf held (upd_device i (\<lambda>d. d\<lparr>id_address_list := id_address_list d @ [x]\<rparr>) w1)" for x using w1 by (simp add: upd_device_wf)
  have n: "succeeds (upd_system f p (upd_device i (\<lambda>d. d\<lparr>id_address_list := id_address_list d @ [x]\<rparr>) w1))
      (\<lambda>w3. (\<not> b \<longrightarrow> ip_wf held w3) \<and> (b \<longrightarrow> succeeds (notify_loop ops i ty (ipconfig_list w3) w3) (ip_wf held)))"
    if "config_slot t d = Some p" for f p x ops ty t b
    using upd_system_total [OF u [of x], of p f] slot_live [OF w1 that] by (auto elim: succeeds_mono intro: notify_wf)
  show ?thesis using Some w1(1) u n a
    by (auto simp: ipconfig_newaddr_def Let_def split: option.splits)
qed (use wf in \<open>simp add: ipconfig_newaddr_def\<close>)

lemma deladdr_total:
  assumes "ip_wf held w"
  shows "succeeds (ipconfig_deladdr i family prefixlen address w) (ip_wf held)"
proof -
  have u: "ip_wf held (upd_device i (\<lambda>d. d\<lparr>id_address_list := rest\<rparr>) w)" for rest using assms by (simp add: upd_device_wf)
  show ?thesis using assms u notify_wf [OF u] by (auto simp: ipconfig_deladdr_def Let_def split: option.splits)
qed

lemma set_route_total:
  assumes wf: "ip_wf held w" and d: "device_of w i = Some d"
  shows "succeeds (set_route_gateway type gateway wanted i d w) (ip_wf held)"
proof -
  define w1 where "w1 = upd_device i (\<lambda>d. (if type = TYPE_IPV6 then d\<lparr>id_ipv6_gateway := gateway\<rparr> else d\<lparr>id_ipv4_gateway := gateway\<rparr>)
      \<lparr>id_address_list := map (\<lambda>a. a\<lparr>ia_gateway := gateway\<rparr>) (id_address_list d)\<rparr>) w"
  have w1: "ip_wf held w1" unfolding w1_def using wf by (simp add: upd_device_wf)
  have "succeeds (upd_system f p w1) (ip_wf held)" if "config_slot type d = Some p" for f p
    using upd_system_total [OF w1, of p] slot_live [OF wf d that] by (simp add: w1_def)
  then have "succeeds (case config_slot type d of None \<Rightarrow> Inr w1 | Some p \<Rightarrow> upd_system f p w1) (ip_wf held)" for f
    using w1 by (cases "config_slot type d") simp_all
  then show ?thesis
    unfolding set_route_gateway_def w1_def [symmetric] Let_def succeeds_bind by (rule succeeds_mono) (rule notify_wf)
qed

lemma route_total:
  assumes "ip_wf held w"
  shows "succeeds (ipconfig_newroute i family scope dst gateway w) (ip_wf held)"
    "succeeds (ipconfig_delroute i family scope dst gateway w) (ip_wf held)"
  using assms by (auto simp: ipconfig_newroute_def ipconfig_delroute_def set_route_total split: option.splits)

section \<open>What the owners do\<close>

lemma new_config_wf:
  assumes wf: "ip_wf held w" and c: "ic_refcount c = 1" "ic_address c \<noteq> None"
  shows "ip_wf (hold (iw_next w) held) (put_config (iw_next w) c (w\<lparr>iw_next := Suc (iw_next w)\<rparr>))"
proof -
  let ?p = "iw_next w"
  have n: "iw_configs w ?p = None" using ip_live(5) [OF wf, of ?p] by (cases "iw_configs w ?p") (auto simp: counted_def)
  then have f: "held ?p = 0" "?p \<notin> set (slots (devices w))" "?p \<notin> set (ipconfig_list w)" using ip_live(1,3,4) [OF wf] by (blast | auto)+
  have d: "devices (w\<lparr>iw_next := Suc ?p\<rparr>) = devices w" by (simp add: devices_def)
  have "typed ((iw_configs w)(?p \<mapsto> c)) e" if "typed (iw_configs w) e" "set (device_slots e) \<subseteq> set (slots (devices w))" for e
    using that f(2) unfolding typed_def device_slots_def by (auto split: option.splits)
  moreover have "set (device_slots (snd x)) \<subseteq> set (slots (devices w))" if "x \<in> set (devices w)" for x using that by (auto simp: slots_def)
  moreover have "counted (hold ?p held) (set (slots (devices w))) (Suc ?p) q e" if "((iw_configs w)(?p \<mapsto> c)) q = Some e" for q e
    using that ip_live(5) [OF wf, of q e] c f by (cases "q = ?p") (auto simp: counted_def hold_def)
  moreover have "q \<in> dom ((iw_configs w)(?p \<mapsto> c))" if "0 < hold ?p held q" for q
    using that ip_live(3) [OF wf, of q] by (auto simp: hold_def split: if_splits)
  ultimately show ?thesis using wf f(3) unfolding ip_wf_def ip_ok_def put_config_fields d by (auto 0 4)
qed

text \<open>The new configuration belongs to its creator.\<close>

lemma create_total:
  assumes wf: "ip_wf held w" and r: "ipconfig_create env i type w = (ipconfig, w1)"
  shows "ip_wf (hold_opt ipconfig held) w1"
proof -
  have "ip_wf (hold_opt ipconfig held) w1" if x: "create_config env i t m w = (ipconfig, w1)" for t m
  proof -
    let ?f = "if t = TYPE_IPV6 then AF_INET6 else AF_INET"
    obtain k u1 where a: "ip_ask env Ip_alloc w = (k, u1)" by fastforce
    obtain x2 u2 where b: "ipaddress_alloc env ?f u1 = (x2, u2)" by fastforce
    obtain x3 u3 where c: "ipaddress_alloc env ?f u2 = (x3, u3)" by fastforce
    have s: "same w u1" "same w u2" "same w u3"
      using alloc_same(2) [of w env Ip_alloc] alloc_same(1) [of u1 env ?f] alloc_same(1) [of u2 env ?f] a b c by (auto intro: same_trans)
    have u: "ip_wf held u1" "ip_wf held u2" "ip_wf held u3" using wf same_wf [OF s(1)] same_wf [OF s(2)] same_wf [OF s(3)] by simp_all
    show ?thesis using x a b c u new_config_wf [OF u(3)]
      by (auto simp: create_config_def Let_def hold_opt_def split: if_splits)
  qed
  then show ?thesis using r by (auto simp: ipconfig_create_def create_ipv6config_def split: if_splits)
qed

lemma apply_config_wf:
  assumes wf: "ip_wf held w" and c: "iw_configs w p = Some c"
  shows "ip_wf held (snd (apply_config env args p c w))"
proof -
  have a: "ic_address c \<noteq> None" using ip_live(5) [OF wf c] by (simp add: counted_def)
  have put: "ip_wf held (put_config p c' w)" if "ic_refcount c' = ic_refcount c" "ic_type c' = ic_type c" "ic_address c' \<noteq> None" for c'
    by (rule put_config_wf [OF wf c that])
  have m: "ic_refcount (snd (set_manual env args c')) = ic_refcount c'" "ic_type (snd (set_manual env args c')) = ic_type c'"
    "ic_address c' \<noteq> None \<Longrightarrow> ic_address (snd (set_manual env args c')) \<noteq> None" for c'
    by (auto simp: set_manual_def ipaddress_set_ipv4_def ipaddress_set_ipv6_def Let_def split: option.splits prod.splits)
  show ?thesis
    using wf a m put same_wf [OF same_enable_ipv6] same_wf [OF same_ops(4)]
    by (auto simp: apply_config_def Let_def case_prod_beta split: connman_ipconfig_method.splits option.splits)
qed

lemma set_config_total:
  assumes "ip_wf held w" and "p \<in> dom (iw_configs w)"
  shows "succeeds (ipconfig_set_config env p array w) (\<lambda>x. ip_wf held (snd x))"
  using assms apply_config_wf by (auto simp: ipconfig_set_config_def split: option.splits)

lemma address_total:
  assumes wf: "ip_wf held w" and p: "p \<in> dom (iw_configs w)"
  shows "succeeds (ipconfig_address_add env p w) (\<lambda>x. ip_wf held (snd x))"
    "succeeds (ipconfig_address_unset env (Some p) w) (\<lambda>x. ip_wf held (snd x))"
    "succeeds (ipconfig_address_remove env (Some p) w) (\<lambda>x. ip_wf held (snd x))"
proof -
  obtain c where c: "iw_configs w p = Some c" using p by auto
  then obtain a where a: "ic_address c = Some a" using ip_live(5) [OF wf c] by (auto simp: counted_def)
  have k: "ip_wf held (snd (ip_ask env e w))" for e using wf same_wf [OF alloc_same(2)] by simp
  show "succeeds (ipconfig_address_add env p w) (\<lambda>x. ip_wf held (snd x))" using c k wf by (simp add: ipconfig_address_add_def)
  have u: "succeeds (ipconfig_address_unset env (Some p) w) (\<lambda>x. ip_wf held (snd x) \<and> dom (iw_configs (snd x)) = dom (iw_configs w))"
    using c a k wf same_fields(2) [OF alloc_same(2)] by (simp add: ipconfig_address_unset_def)
  then show "succeeds (ipconfig_address_unset env (Some p) w) (\<lambda>x. ip_wf held (snd x))" by (auto elim: succeeds_mono)
  have "succeeds (upd_config p (\<lambda>c. c\<lparr>ic_address := ipaddress_clear (ic_address c)\<rparr>) w1) (ip_wf held)"
    if "ip_wf held w1" "dom (iw_configs w1) = dom (iw_configs w)" for w1
    using that p by (intro upd_config_total) (auto simp: ipaddress_clear_def)
  then show "succeeds (ipconfig_address_remove env (Some p) w) (\<lambda>x. ip_wf held (snd x))"
    using u c wf by (auto simp: ipconfig_address_remove_def case_prod_beta elim!: succeeds_mono)
qed

lemma load_fields_total:
  assumes wf: "ip_wf held w" and p: "p \<in> dom (iw_configs w)"
  shows "succeeds (load_fields env p kf identifier prefix w) (ip_wf held)"
proof -
  obtain c where c: "iw_configs w p = Some c" using p by auto
  then obtain a where a: "ic_address c = Some a" using ip_live(5) [OF wf c] by (auto simp: counted_def)
  show ?thesis using c a put_config_wf [OF wf c] by (simp add: load_fields_def Let_def)
qed

lemma load_total:
  assumes wf: "ip_wf held w" and h: "0 < held p" and safe: "enable_safe p w"
  shows "succeeds (ipconfig_load env p kf identifier prefix w) (\<lambda>x. ip_wf held (snd x))"
proof -
  obtain c where c: "iw_configs w p = Some c" using ip_live(3) [OF wf h] by auto
  then have a: "ic_address c \<noteq> None" using ip_live(5) [OF wf c] by (auto simp: counted_def)
  have put: "ip_wf held (put_config p c' w)" if "ic_refcount c' = ic_refcount c" "ic_type c' = ic_type c" "ic_address c' = ic_address c" for c'
    by (rule put_config_wf [OF wf c]) (use that a in simp_all)
  have fields: "succeeds (load_fields env p kf identifier prefix w1) (ip_wf held)" if "ip_wf held w1" for w1
    by (rule load_fields_total [OF that ip_live(3) [OF that h]])
  let ?c1 = "c\<lparr>ic_method := load_method (ic_type c) (kf identifier (prefix @ ''method''))\<rparr>"
  let ?c2 = "?c1\<lparr>ic_ipv6_privacy_config := string2privacy (kf identifier (prefix @ ''privacy''))\<rparr>"
  have "enable_safe p (put_config p ?c2 w)" using safe c by (auto simp: enable_safe_def split: option.splits)
  then have "succeeds (enable_config p (put_config p ?c2 w)) (\<lambda>x. ip_wf held (snd x))"
    using enable_total [OF put h, of ?c2] by simp
  then have e: "succeeds (enable_config p (put_config p ?c2 w))
      (\<lambda>x. succeeds (config_of (snd x) p) (\<lambda>c3. succeeds (load_fields env p kf identifier prefix (enable_ipv6 c3 (snd x))) (ip_wf held)))"
  proof (rule succeeds_mono)
    fix x assume x: "ip_wf held (snd x)"
    obtain c3 where "iw_configs (snd x) p = Some c3" using ip_live(3) [OF x h] by auto
    then show "succeeds (config_of (snd x) p) (\<lambda>c3. succeeds (load_fields env p kf identifier prefix (enable_ipv6 c3 (snd x))) (ip_wf held))"
      using fields [of "enable_ipv6 c3 (snd x)"] x same_wf [OF same_enable_ipv6] by simp
  qed
  show ?thesis
    using c e fields [OF put, of ?c1] by (auto simp: ipconfig_load_def Let_def case_prod_beta)
qed

lemma remove_devices: "devices (remove_device i w) = filter (\<lambda>x. fst x \<noteq> i) (devices w)"
  by (simp add: remove_device_def devices_def split: option.splits)

lemma free_devices_total:
  "ip_wf held w \<Longrightarrow> distinct (map fst ds) \<Longrightarrow> set ds = set (devices w) \<Longrightarrow>
     succeeds (free_devices ds w) (\<lambda>w1. ip_wf held w1 \<and> devices w1 = [])"
proof (induction ds arbitrary: w)
  case (Cons x ds)
  obtain i d where x: "x = (i, d)" by force
  have d: "device_of w i = Some d" using Cons.prems wf_devices [of held w] x by (auto simp: device_of_devices)
  obtain w1 where w1: "free_ipdevice d (remove_device i w) = Inr w1" "ip_wf held w1" "devices w1 = devices (remove_device i w)"
    using free_total [OF remove_device_wf [OF Cons.prems(1) d]] by (auto simp: succeeds_def)
  have "set ds = {y \<in> set (x # ds). fst y \<noteq> i}" using Cons.prems(2) x by force
  then have "set ds = set (devices w1)" unfolding Cons.prems(3) w1(3) by (simp add: remove_devices)
  then show ?case using Cons.IH [OF w1(2)] Cons.prems(2) w1(1) x by simp
qed simp

lemma cleanup_total:
  assumes wf: "ip_wf held w" and o: "set (order (devices w)) = set (devices w)" "distinct (map fst (order (devices w)))"
  shows "succeeds (ipconfig_cleanup order w) (ip_wf held)"
proof (cases "ipdevice_hash w")
  case (Some h)
  then have h: "devices w = h" by (simp add: devices_def)
  have "ip_wf held (w1\<lparr>ipdevice_hash := None\<rparr>)" if "ip_wf held w1 \<and> devices w1 = []" for w1
    using that by (auto simp: ip_wf_def devices_def)
  then show ?thesis using Some free_devices_total [OF wf o(2) o(1)] h by (auto simp: ipconfig_cleanup_def elim!: succeeds_mono)
qed (use wf in \<open>simp add: ipconfig_cleanup_def\<close>)

section \<open>The machine\<close>

datatype ip_setting =
    Set_index int
  | Set_data "svc option"
  | Set_ops "ipconfig_op list option"
  | Set_method connman_ipconfig_method
  | Set_dhcp_address "string option"
  | Set_local "string option"
  | Set_peer "string option"
  | Set_broadcast "string option"
  | Set_gateway "string option"
  | Set_prefixlen u8
  | Set_config "(dbus_arg \<times> dbus_arg) list option"
  | Set_proxy_autoconfig "string option"
  | Set_enable_ipv6
  | Set_disable_ipv6
  | Address_add
  | Address_unset
  | Address_remove
  | Load key_file string string

definition result_state :: "(int \<times> ip_world) result \<Rightarrow> ip_world result" where
  "result_state m = bind_r m (\<lambda>x. Inr (snd x))"

fun apply_setting :: "ip_env \<Rightarrow> ip_setting \<Rightarrow> addr \<Rightarrow> ip_world \<Rightarrow> ip_world result" where
  "apply_setting env (Set_index i) p w = ipconfig_set_index p i w"
| "apply_setting env (Set_data x) p w = ipconfig_set_data p x w"
| "apply_setting env (Set_ops ops) p w = ipconfig_set_ops p ops w"
| "apply_setting env (Set_method m) p w = result_state (ipconfig_set_method p m w)"
| "apply_setting env (Set_dhcp_address a) p w = ipconfig_set_dhcp_address (Some p) a w"
| "apply_setting env (Set_local a) p w = ipconfig_set_local p a w"
| "apply_setting env (Set_peer a) p w = ipconfig_set_peer p a w"
| "apply_setting env (Set_broadcast a) p w = ipconfig_set_broadcast p a w"
| "apply_setting env (Set_gateway a) p w = ipconfig_set_gateway p a w"
| "apply_setting env (Set_prefixlen n) p w = ipconfig_set_prefixlen p n w"
| "apply_setting env (Set_config array) p w = result_state (ipconfig_set_config env p array w)"
| "apply_setting env (Set_proxy_autoconfig url) p w = result_state (ipconfig_set_proxy_autoconfig (Some p) url w)"
| "apply_setting env Set_enable_ipv6 p w = ipconfig_enable_ipv6 (Some p) w"
| "apply_setting env Set_disable_ipv6 p w = ipconfig_disable_ipv6 (Some p) w"
| "apply_setting env Address_add p w = result_state (ipconfig_address_add env p w)"
| "apply_setting env Address_unset p w = result_state (ipconfig_address_unset env (Some p) w)"
| "apply_setting env Address_remove p w = result_state (ipconfig_address_remove env (Some p) w)"
| "apply_setting env (Load kf identifier prefix) p w = result_state (ipconfig_load env p kf identifier prefix w)"

datatype ip_event =
    Newlink int u16 u32 "string option" u16 rtnl_link_stats
  | Dellink int rtnl_link_stats
  | Newaddr int int u8 "string option"
  | Deladdr int int u8 "string option"
  | Newroute int int u8 "string option" "string option"
  | Delroute int int u8 "string option" "string option"
  | Create int connman_ipconfig_type
  | Ref addr
  | Unref addr
  | Enable addr
  | Disable addr
  | Setting ip_setting addr
  | Cleanup "(int \<times> connman_ipdevice) list"

text \<open>
  Who may do what: a configuration is used by those who hold a reference to it, and enabled (also by loading it) when
  that is safe. Destroying the table visits every device once.
\<close>

fun permitted :: "(addr \<Rightarrow> nat) \<Rightarrow> ip_world \<Rightarrow> ip_event \<Rightarrow> bool" where
  "permitted held w (Ref p) = (0 < held p)"
| "permitted held w (Unref p) = (0 < held p)"
| "permitted held w (Enable p) = (0 < held p \<and> enable_safe p w)"
| "permitted held w (Disable p) = (0 < held p)"
| "permitted held w (Setting (Load kf identifier prefix) p) = (0 < held p \<and> enable_safe p w)"
| "permitted held w (Setting s p) = (0 < held p)"
| "permitted held w (Cleanup ds) = (set ds = set (devices w) \<and> distinct (map fst ds))"
| "permitted held w e = True"

definition with_held :: "(addr \<Rightarrow> nat) \<Rightarrow> ip_world result \<Rightarrow> ((addr \<Rightarrow> nat) \<times> ip_world) result" where
  "with_held held m = bind_r m (\<lambda>w. Inr (held, w))"

fun ip_handle :: "ip_env \<Rightarrow> ip_event \<Rightarrow> (addr \<Rightarrow> nat) \<Rightarrow> ip_world \<Rightarrow> ((addr \<Rightarrow> nat) \<times> ip_world) result" where
  "ip_handle env (Newlink i type flags address mtu stats) held w = with_held held (ipconfig_newlink env i type flags address mtu stats w)"
| "ip_handle env (Dellink i stats) held w = with_held held (ipconfig_dellink i stats w)"
| "ip_handle env (Newaddr i family prefixlen address) held w = with_held held (ipconfig_newaddr env i family prefixlen address w)"
| "ip_handle env (Deladdr i family prefixlen address) held w = with_held held (ipconfig_deladdr i family prefixlen address w)"
| "ip_handle env (Newroute i family scope dst gateway) held w = with_held held (ipconfig_newroute i family scope dst gateway w)"
| "ip_handle env (Delroute i family scope dst gateway) held w = with_held held (ipconfig_delroute i family scope dst gateway w)"
| "ip_handle env (Create i type) held w = (let (ipconfig, w1) = ipconfig_create env i type w in Inr (hold_opt ipconfig held, w1))"
| "ip_handle env (Ref p) held w = with_held (hold p held) (ipconfig_ref p w)"
| "ip_handle env (Unref p) held w = with_held (release p held) (ipconfig_unref (Some p) w)"
| "ip_handle env (Enable p) held w = with_held held (result_state (ipconfig_enable (Some p) w))"
| "ip_handle env (Disable p) held w = with_held held (result_state (ipconfig_disable (Some p) w))"
| "ip_handle env (Setting s p) held w = with_held held (apply_setting env s p w)"
| "ip_handle env (Cleanup ds) held w = with_held held (ipconfig_cleanup (\<lambda>h. ds) w)"

type_synonym ip_state = "ip_env \<times> (addr \<Rightarrow> nat) \<times> ip_world"

text \<open>A step; an event that is not permitted does not happen, and a fault ends the run.\<close>

definition ip_step :: "ip_state \<Rightarrow> ip_event \<Rightarrow> ip_state option" where
  "ip_step s e =
     (case s of (env, held, w) \<Rightarrow>
        if \<not> permitted held w e then Some s
        else (case ip_handle env e held w of Inl f \<Rightarrow> None | Inr x \<Rightarrow> Some (env, x)))"

definition ip_boot :: ip_world where
  "ip_boot = \<lparr>ipdevice_hash = Some [], iw_configs = Map.empty, ipconfig_list = [], iw_next = 0, iw_trace = []\<rparr>"

definition ip_start :: "ip_state \<Rightarrow> bool" where
  "ip_start s \<longleftrightarrow> snd s = (\<lambda>p. 0, ip_boot)"

definition ip_inv :: "ip_state \<Rightarrow> bool" where
  "ip_inv s \<longleftrightarrow> ip_wf (fst (snd s)) (snd (snd s))"

lemma setting_total:
  assumes wf: "ip_wf held w" and h: "permitted held w (Setting s p)"
  shows "succeeds (apply_setting env s p w) (ip_wf held)"
proof -
  have "0 < held p" using h by (cases s) simp_all
  then have p: "p \<in> dom (iw_configs w)" by (rule ip_live(3) [OF wf])
  note k = upd_config_total [OF wf p]
  show ?thesis using p wf h
    by (cases s) (auto simp: result_state_def ipconfig_set_index_def ipconfig_set_data_def ipconfig_set_ops_def ipconfig_set_method_def
        ipconfig_set_dhcp_address_def ipconfig_set_local_def ipconfig_set_peer_def ipconfig_set_broadcast_def ipconfig_set_gateway_def
        ipconfig_set_prefixlen_def upd_address_def ipconfig_set_proxy_autoconfig_def ipconfig_enable_ipv6_def ipconfig_disable_ipv6_def
        upd_device_wf same_wf [OF same_enable_ipv6] same_wf [OF same_ops(4)] set_config_total address_total load_total
        intro!: k split: option.splits)
qed

lemma handle_total:
  assumes wf: "ip_wf held w" and h: "permitted held w e"
  shows "succeeds (ip_handle env e held w) (\<lambda>x. ip_wf (fst x) (snd x))"
proof (cases e)
  case (Ref p)
  then have "p \<in> dom (iw_configs w)" using ip_live(3) [OF wf] h by simp
  then show ?thesis using Ref ref_effect [OF wf] by (auto simp: with_held_def)
next
  case (Unref p)
  then show ?thesis using unref_effect [OF wf, of p] h by (auto simp: with_held_def ipconfig_unref_def elim: succeeds_mono)
next
  case (Create i type)
  then show ?thesis using create_total [OF wf] by (auto split: prod.splits)
next
  case (Disable p)
  then show ?thesis using disable_total [OF wf ip_live(3) [OF wf], of p] h by (simp add: with_held_def result_state_def ipconfig_disable_def)
next
  case (Enable p)
  then show ?thesis using enable_total [OF wf, of p] h by (simp add: with_held_def result_state_def ipconfig_enable_def)
next
  case (Setting s p)
  then show ?thesis using setting_total [OF wf, of s p env] h by (simp add: with_held_def)
next
  case (Cleanup ds)
  then show ?thesis using cleanup_total [OF wf, of "\<lambda>h. ds"] h by (simp add: with_held_def)
qed (use wf in \<open>simp_all add: with_held_def newlink_total dellink_total newaddr_total deladdr_total route_total\<close>)

interpretation ip: invariant_machine ip_start ip_step ip_inv
proof
  fix s assume "ip_start s"
  then show "ip_inv s" by (simp add: ip_start_def ip_inv_def ip_boot_def ip_wf_def ip_ok_def devices_def devices_ok_def)
next
  fix s e t assume s: "ip_inv s" "ip_step s e = Some t"
  then show "ip_inv t"
    using handle_total [of "fst (snd s)" "snd (snd s)" e "fst s"]
    by (auto simp: ip_inv_def ip_step_def succeeds_def split: prod.splits if_splits sum.splits)
qed

lemma ip_run_total: "ip_inv s \<Longrightarrow> \<exists>t. run ip_step s es = Some t"
proof (induction es arbitrary: s)
  case Nil
  show ?case by (rule exI) (rule run.simps(1))
next
  case (Cons e es)
  obtain env held w where s: "s = (env, held, w)" by (cases s) auto
  have "\<exists>t. ip_step s e = Some t"
    using handle_total [of held w e env] Cons.prems unfolding s
    by (cases "permitted held w e") (auto simp: ip_inv_def ip_step_def succeeds_def)
  then obtain t where t: "ip_step s e = Some t" ..
  then show ?case using Cons.IH [OF ip.step_inv [OF Cons.prems t]] by simp
qed

end
