(* ===== verification/Ipconfig_Properties.thy ===== *)
theory Ipconfig_Properties
  imports Ipconfig_Machine Gateway_Properties
begin

text \<open>
  What holds of the interface configurations: the lengths of netmasks, the way of a static configuration through the
  key file, the gateway it gives to \<^verbatim>\<open>src/connection.c\<close>, references and errors.
\<close>

section \<open>Netmasks\<close>

text \<open>The netmask of a prefix, and the reference for the length of a netmask: 255 when it is none of the 33 masks.\<close>

abbreviation prefix_mask :: "nat \<Rightarrow> u32" where "prefix_mask n \<equiv> push_bit (32 - n) (- 1)"

definition netmask_reference :: "ip_env \<Rightarrow> string option \<Rightarrow> u8" where
  "netmask_reference env netmask =
     (case netmask of
        None \<Rightarrow> 32
      | Some s \<Rightarrow> (case find (\<lambda>n. ie_inet_network env s = prefix_mask n) [0..<33] of None \<Rightarrow> 255 | Some n \<Rightarrow> of_nat n))"

lemma and_succ_even: "even x \<Longrightarrow> and x (1 + x) = (x :: nat)"
  using even_bit_succ_iff [of x] by (intro bit_eqI) (auto simp only: bit_and_iff)

lemma and_succ_zero: "and x (1 + x) = (0 :: nat) \<Longrightarrow> \<exists>n. x = 2 ^ n - 1"
proof (induction x rule: less_induct)
  case (less x)
  show ?case
  proof (cases "even x")
    case True
    then show ?thesis using less.prems and_succ_even [OF True] by (intro exI [of _ 0]) simp
  next
    case False
    then obtain y where y: "x = 2 * y + 1" by (auto elim: oddE)
    have "and x (1 + x) = 2 * and y (1 + y)" unfolding y by (simp add: and_rec [of "Suc (2 * y)"])
    then obtain n where "y = 2 ^ n - 1" using less.IH [of y] less.prems y by auto
    then have "y + 1 = 2 ^ n" by simp
    then have "x = 2 ^ Suc n - 1" using y by simp
    then show ?thesis ..
  qed
qed

lemma contiguous_mask:
  assumes "NOT m AND (NOT m + 1) = (0 :: u32)"
  shows "\<exists>n \<le> 32. m = prefix_mask n"
proof -
  let ?h = "NOT m"
  have "\<exists>k \<le> 32. ?h = mask k"
  proof (cases "?h = - 1")
    case True
    then show ?thesis by (intro exI [of _ 32]) (simp add: mask_eq_exp_minus_1)
  next
    case False
    have "unat (?h + 1) = 1 + unat ?h" using False unatSuc [of ?h] by (metis add.commute add_eq_0_iff Suc_eq_plus1_left)
    then have "and (unat ?h) (1 + unat ?h) = 0" using assms by (metis unsigned_and_eq unsigned_0)
    then obtain k where k: "unat ?h = 2 ^ k - 1" using and_succ_zero by blast
    have "unat ?h < 2 ^ 32" using unsigned_less [of ?h] by simp
    then have "(2::nat) ^ k \<le> 2 ^ 32" using k by linarith
    then have l: "k \<le> 32" using power_le_imp_le_exp [of "2::nat" k 32] by simp
    have "of_nat (unat ?h) = ?h" by simp
    then have "?h = of_nat (2 ^ k - 1)" unfolding k by simp
    then have "?h = mask k" by (simp add: mask_eq_exp_minus_1 of_nat_diff)
    then show ?thesis using l by blast
  qed
  then obtain k where k: "k \<le> 32" "?h = mask k" by blast
  then have "m = NOT (mask k)" by (metis bit.double_compl)
  then have "m = push_bit k (- 1)" by (simp add: minus_exp_eq_not_mask [symmetric] push_bit_eq_mult)
  then show ?thesis using k(1) by (intro exI [of _ "32 - k"]) simp
qed

lemma prefix_mask_contiguous: "n \<le> 32 \<Longrightarrow> NOT (prefix_mask n) AND (NOT (prefix_mask n) + 1) = (0 :: u32)"
proof -
  have "NOT (prefix_mask n) = mask (32 - n)" by (simp add: push_bit_eq_mult minus_exp_eq_not_mask)
  then have "NOT (prefix_mask n) AND (NOT (prefix_mask n) + 1) = mask (32 - n) AND 2 ^ (32 - n)"
    by (simp add: mask_eq_exp_minus_1)
  also have "\<dots> = 0" by (rule bit_word_eqI) (auto simp: bit_and_iff bit_mask_iff bit_exp_iff)
  finally show ?thesis .
qed

lemma mask_bits_prefix: "n \<le> 32 \<Longrightarrow> mask_bits (prefix_mask n) b = b + of_nat n"
proof (induction n arbitrary: b)
  case 0
  have "prefix_mask 0 = 0" using push_bit_32 [of "- 1"] by (simp only: diff_zero)
  then show ?case by (subst mask_bits.simps) simp
next
  case (Suc n)
  have z: "prefix_mask (Suc n) \<noteq> 0"
  proof
    assume "prefix_mask (Suc n) = 0"
    moreover have "bit (prefix_mask (Suc n)) 31" using Suc.prems unfolding bit_push_bit_iff by simp
    ultimately show False by simp
  qed
  have e: "1 + (32 - Suc n) = 32 - n" using Suc.prems by simp
  have p: "push_bit 1 (prefix_mask (Suc n)) = prefix_mask n" by (simp only: push_bit_push_bit e)
  have "mask_bits (prefix_mask (Suc n)) b = mask_bits (prefix_mask n) (b + 1)"
    unfolding mask_bits.simps [of "prefix_mask (Suc n)" b] p using z by (simp only: if_False)
  also have "\<dots> = b + 1 + of_nat n" using Suc.prems by (intro Suc.IH) simp
  finally show ?case by (simp only: of_nat_Suc add.assoc)
qed

lemma netmask_length: "netmask_prefix_len env netmask = netmask_reference env netmask"
proof (cases netmask)
  case (Some s)
  let ?m = "ie_inet_network env s"
  show ?thesis
  proof (cases "find (\<lambda>n. ?m = prefix_mask n) [0..<33]")
    case None
    then have n: "\<nexists>n. n \<le> 32 \<and> ?m = prefix_mask n" by (auto simp: find_None_iff)
    then have "NOT ?m AND (NOT ?m + 1) \<noteq> 0" using contiguous_mask by blast
    then show ?thesis unfolding netmask_prefix_len_def netmask_reference_def Some Let_def option.case None by simp
  next
    case f: (Some n)
    then have n: "n \<le> 32" "?m = prefix_mask n" by (auto simp: find_Some_iff)
    have "\<not> NOT ?m AND (NOT ?m + 1) \<noteq> 0" unfolding n(2) using prefix_mask_contiguous [OF n(1)] by blast
    moreover have "mask_bits ?m 0 = of_nat n" unfolding n(2) using mask_bits_prefix [OF n(1), of 0] by (simp only: add_0)
    ultimately show ?thesis
      unfolding netmask_prefix_len_def netmask_reference_def Some Let_def option.case f by (simp only: if_False)
  qed
qed (simp add: netmask_prefix_len_def netmask_reference_def)

lemma prefix_netmask_cases:
  "prefix_netmask n = (if n = 0 \<or> 32 < n then Inl BadShift else Inr (prefix_mask (unat n)))"
proof -
  have i: "uint n = int (unat n)" by simp
  have "(n = 0) = (unat n = 0)" "(32 < n) = (32 < unat n)" by (simp_all add: unat_eq_0 word_less_nat_alt)
  then have "(32 - uint n < 0 \<or> 32 \<le> 32 - uint n) = (n = 0 \<or> 32 < n)" unfolding i by linarith
  moreover have "nat (32 - uint n) = 32 - unat n" unfolding i by linarith
  moreover have "(0xFFFFFFFF :: u32) = - 1" by simp
  ultimately show ?thesis unfolding prefix_netmask_def Let_def by (simp only:)
qed

lemma netmask_back:
  assumes n: "0 < n" "n \<le> 32"
    and parse: "ie_inet_network env (inet_ntoa (htonl (prefix_mask (unat n)))) = prefix_mask (unat n)"
  shows "\<exists>s. netmask_string n = Inr s \<and> netmask_prefix_len env (Some s) = n"
proof -
  let ?m = "prefix_mask (unat n)"
  have u: "unat n \<le> 32" using n(2) by (simp add: word_le_nat_alt)
  have s: "netmask_string n = Inr (inet_ntoa (htonl ?m))"
    unfolding netmask_string_def prefix_netmask_cases using n by (simp add: word_gt_0 not_less)
  have "\<not> NOT ?m AND (NOT ?m + 1) \<noteq> 0" using prefix_mask_contiguous [OF u] by blast
  moreover have "mask_bits ?m 0 = n" using mask_bits_prefix [OF u, of 0] by simp
  ultimately have "netmask_prefix_len env (Some (inet_ntoa (htonl ?m))) = n"
    unfolding netmask_prefix_len_def option.case Let_def parse by (simp only: if_False)
  then show ?thesis using s by blast
qed

section \<open>The key file and the dictionary\<close>

lemma method_round_trip: "m \<noteq> METHOD_UNKNOWN \<Longrightarrow> string2method (method2string m) = m"
  by (cases m) (simp_all add: string2method_def method2string_def)

lemma load_static4:
  assumes d: "iw_configs w p = Some d" "ic_type d = TYPE_IPV4" "ic_address d = Some b"
    and m: "kf identifier (prefix @ ''method'') = method2string m" "m \<noteq> METHOD_UNKNOWN"
  shows "ipconfig_load env p kf identifier prefix w =
    Inr (0, put_config p (d\<lparr>ic_method := m,
      ic_address := Some (b\<lparr>ia_prefixlen := word_of_int (key_integer env identifier (prefix @ ''netmask_prefixlen'') kf),
        ia_local := kf identifier (prefix @ ''local_address''), ia_peer := kf identifier (prefix @ ''peer_address''),
        ia_broadcast := kf identifier (prefix @ ''broadcast_address''), ia_gateway := kf identifier (prefix @ ''gateway'')\<rparr>),
      ic_last_dhcp_address := (case kf identifier (prefix @ ''DHCP.LastAddress'') of None \<Rightarrow> ic_last_dhcp_address d | Some s \<Rightarrow> Some s)\<rparr>) w)"
proof -
  have "load_method TYPE_IPV4 (method2string m) = m"
    using m(2) method_round_trip [OF m(2)] by (cases "method2string m") (auto simp: load_method_def Let_def method2string_def split: connman_ipconfig_method.splits)
  then show ?thesis using d m(1) by (simp add: ipconfig_load_def load_fields_def Let_def put_config_def cong: option.case_cong)
qed

lemma static_round_trip:
  assumes c: "ic_method c \<in> {METHOD_FIXED, METHOD_MANUAL}" "ic_address c = Some a" "ic_type c = TYPE_IPV4"
    and kf: "\<And>key. kf identifier (prefix @ key) = None"
    and int: "ie_key_integer env (show_int (uint (ia_prefixlen a))) = Some (uint (ia_prefixlen a))"
    and d: "iw_configs w p = Some d" "ic_type d = TYPE_IPV4" "ic_address d = Some b"
  shows "\<exists>kf'. ipconfig_save c kf identifier prefix = Inr (0, kf') \<and>
    ipconfig_load env p kf' identifier prefix w =
      Inr (0, put_config p (d\<lparr>ic_method := ic_method c, ic_address := Some (a\<lparr>ia_family := ia_family b\<rparr>)\<rparr>) w)"
proof -
  let ?k = "save_address a identifier prefix (key_set identifier (prefix @ ''method'') (method2string (ic_method c)) kf)"
  have s: "ipconfig_save c kf identifier prefix = Inr (0, ?k)" using c by (auto simp: ipconfig_save_def Let_def)
  have g: "?k identifier (prefix @ ''method'') = method2string (ic_method c)" "?k identifier (prefix @ ''local_address'') = ia_local a"
    "?k identifier (prefix @ ''peer_address'') = ia_peer a" "?k identifier (prefix @ ''broadcast_address'') = ia_broadcast a"
    "?k identifier (prefix @ ''gateway'') = ia_gateway a" "?k identifier (prefix @ ''DHCP.LastAddress'') = None"
    "?k identifier (prefix @ ''netmask_prefixlen'') = Some (show_int (uint (ia_prefixlen a)))"
    by (simp_all add: save_address_def key_set_def kf split: option.splits)
  have i: "key_integer env identifier (prefix @ ''netmask_prefixlen'') ?k = uint (ia_prefixlen a)" by (simp add: key_integer_def g(7) int)
  have u: "ic_method c \<noteq> METHOD_UNKNOWN" using c(1) by auto
  have r: "b\<lparr>ia_prefixlen := ia_prefixlen a, ia_local := ia_local a, ia_peer := ia_peer a, ia_broadcast := ia_broadcast a, ia_gateway := ia_gateway a\<rparr> =
      a\<lparr>ia_family := ia_family b\<rparr>" by (cases a; cases b) simp
  from load_static4 [where kf = ?k, OF d g(1) u] have "ipconfig_load env p ?k identifier prefix w =
      Inr (0, put_config p (d\<lparr>ic_method := ic_method c, ic_address := Some (a\<lparr>ia_family := ia_family b\<rparr>)\<rparr>) w)"
    by (simp add: g(2-6) i r)
  then show ?thesis using s by blast
qed

lemma refused_manual_config:
  assumes c: "iw_configs w p = Some c" "ic_type c = TYPE_IPV6"
    and args: "config_entries env dict no_args = Some args" "ca_method args = METHOD_MANUAL" "ca_address args \<noteq> None"
    and bad: "\<not> check_ipv6_address env (ca_gateway args)"
  shows "ipconfig_set_config env p (Some dict) w = Inr (- EINVAL, put_config p (c\<lparr>ic_method := METHOD_MANUAL\<rparr>) w)"
proof -
  have "c\<lparr>ic_method := m, ic_address := ic_address c\<rparr> = c\<lparr>ic_method := m\<rparr>" for m by (cases c) simp
  moreover have "ipaddress_set_ipv6 env (ic_address c) x n (ca_gateway args) = (- EINVAL, ic_address c)" for x n
    using bad by (simp add: ipaddress_set_ipv6_def split: option.splits)
  ultimately show ?thesis
    using c args by (auto simp: ipconfig_set_config_def apply_config_def set_manual_def Let_def)
qed

section \<open>Replacing a configuration\<close>

text \<open>The calls that enabling IPv6 on an interface makes.\<close>

definition ipv6_writes :: "connman_ipconfig \<Rightarrow> string \<Rightarrow> ip_call list" where
  "ipv6_writes c i =
     (if ic_method c = METHOD_AUTO
      then [Write_proc (''/proc/sys/net/ipv6/conf/'' @ i @ ''/use_tempaddr'')
             (show_int (if ic_ipv6_privacy_config c < 0 then 0 else ic_ipv6_privacy_config c))]
      else []) @ [Write_proc (ipv6_file (Some i)) ''0'']"

lemma enable_ipv6_trace:
  assumes "device_of w (ic_index c) = Some d" and "id_ifname d = Some i"
  shows "iw_trace (enable_ipv6 c w) = iw_trace w @ ipv6_writes c i"
  using assms by (simp add: enable_ipv6_def set_ipv6_state_def set_ipv6_privacy_def ip_tell_def ipv6_writes_def)

lemma unref_last_auto:
  assumes d: "device_of w (ic_index e) = Some d" "id_config_ipv6 d = Some q" "id_config_ipv4 d \<noteq> Some q" "id_ifname d = Some i"
    and e: "iw_configs w q = Some e" "ic_refcount e = 1" "ic_method e = METHOD_AUTO" "0 \<le> ic_index e"
  shows "succeeds (unref_config q w) (\<lambda>v. iw_trace v = iw_trace w @ [Write_proc (ipv6_file (Some i)) ''1''] \<and>
    (\<forall>p. p \<noteq> q \<longrightarrow> iw_configs v p = iw_configs w p))"
proof -
  let ?w1 = "put_config q (e\<lparr>ic_refcount := 0\<rparr>) w"
  let ?w2 = "retire_config q (disable_ipv6 (ic_index e) ?w1)"
  have t: "iw_trace (disable_ipv6 (ic_index e) ?w1) = iw_trace w @ [Write_proc (ipv6_file (Some i)) ''1'']"
    using d by (simp add: disable_ipv6_def set_ipv6_state_def ip_tell_def put_config_def device_of_def)
  have c: "iw_configs (disable_ipv6 (ic_index e) ?w1) = (iw_configs w)(q \<mapsto> e\<lparr>ic_refcount := 0\<rparr>)"
    using same_fields(2) [OF same_ops(4)] by simp
  have "disable_config q ?w1 = (case unref_config q ?w2 of Inl x \<Rightarrow> Inl x | Inr w1 \<Rightarrow> Inr (0, upd_device (ic_index e) (\<lambda>d. d\<lparr>id_config_ipv6 := None\<rparr>) w1))"
    using d e by (simp add: disable_config.simps [of q ?w1] cong: sum.case_cong)
  moreover have "unref_config q ?w2 = Inr (put_config q (e\<lparr>ic_system := ipaddress_clear (ic_system e), ic_refcount := - 1\<rparr>) ?w2)"
    using c by (simp add: unref_config.simps [of q ?w2] retire_configs)
  ultimately show ?thesis using e c t
    by (simp add: unref_config.simps [of q w] upd_device_def put_config_def retire_config_def)
qed

lemma replace_trace:
  assumes p: "iw_configs w p = Some c" "ic_type c = TYPE_IPV6" "ic_ops c = Some ops" "0 \<le> ic_index c" "p \<noteq> q"
    and d: "device_of w (ic_index c) = Some d" "id_config_ipv6 d = Some q" "id_config_ipv4 d \<noteq> Some q" "id_ifname d = Some i"
    and q: "iw_configs w q = Some e" "ic_refcount e = 1" "ic_method e = METHOD_AUTO" "ic_index e = ic_index c"
  shows "succeeds (enable_config p w) (\<lambda>x. fst x = 0 \<and> iw_trace (snd x) = iw_trace w @ ipv6_writes c i @
    [Write_proc (ipv6_file (Some i)) ''1''] @ map (\<lambda>oper. Callback oper p) (filter (\<lambda>oper. oper \<in> set ops) (state_ops (id_flags d))))"
proof -
  let ?w1 = "enable_ipv6 c w"
  let ?w2 = "retire_config q ?w1"
  let ?e = "e\<lparr>ic_system := ipaddress_clear (ic_system e)\<rparr>"
  note s = same_fields [OF same_enable_ipv6 [of w c]]
  have e2: "iw_configs ?w2 q = Some ?e" "iw_configs ?w2 p = Some c" "iw_trace ?w2 = iw_trace ?w1" "device_of ?w2 (ic_index ?e) = Some d"
    using q p d(1) s by (simp_all add: retire_configs) (simp_all add: retire_config_def device_of_def)
  obtain v where v: "unref_config q ?w2 = Inr v" "iw_trace v = iw_trace ?w1 @ [Write_proc (ipv6_file (Some i)) ''1'']" "iw_configs v p = Some c"
    using unref_last_auto [OF e2(4) d(2-4) e2(1)] q p(4,5) e2(2,3) by (auto simp: succeeds_def)
  have "replace_config (Some q) ?w1 = Inr v" using q(1) s(2) v(1) by (simp add: replace_config_def)
  then show ?thesis using p d v(2,3) enable_ipv6_trace [OF d(1,4)]
    by (simp add: enable_config_def config_slot_def ipconfig_ref_def upd_config_def call_ops_def upd_device_def put_config_def)
qed

lemma disable_effect:
  assumes wf: "ip_wf held w" and r: "disable_config p w = Inr (0, w')"
  shows "p \<notin> set (ipconfig_list w') \<and> p \<notin> set (slots (devices w'))"
proof -
  obtain c where c: "iw_configs w p = Some c" using r by (cases "iw_configs w p") (auto simp: disable_config.simps)
  obtain d where d: "device_of w (ic_index c) = Some d" "id_config_ipv4 d = Some p \<or> id_config_ipv6 d = Some p"
    using r c by (auto simp: disable_config.simps ENODEV_def ENXIO_def EINVAL_def split: if_splits option.splits sum.splits)
  have "p \<notin> set (ipconfig_list v) \<and> p \<notin> set (slots (devices (upd_device (ic_index c) (put_slot t None) v)))"
    if s: "same w u" and t: "config_slot t d = Some p" and v: "unref_config p (retire_config p u) = Inr v" for u t v
  proof -
    have u: "ip_wf held u" "device_of u (ic_index c) = Some d" using wf d(1) same_wf [OF s] same_fields(6) [OF s] by simp_all
    have "ipconfig_list v = remove1 p (ipconfig_list u)"
      "devices (upd_device (ic_index c) (put_slot t None) v) = devices (upd_device (ic_index c) (put_slot t None) u)"
      using unref_slot [OF u t] v by auto
    then show ?thesis using clear_slot_wf [OF u t] ip_live(2) [OF u(1)] by simp
  qed
  note k4 = this [of _ TYPE_IPV4] and k6 = this [of _ TYPE_IPV6]
  show ?thesis
  proof (cases "id_config_ipv4 d = Some p")
    case True
    then show ?thesis using r c d(1) k4 [OF same_refl]
      by (auto simp: disable_config.simps config_slot_def put_slot_def [abs_def] ENODEV_def split: if_splits sum.splits)
  next
    case False
    have "same w (if ic_method c = METHOD_AUTO then disable_ipv6 (ic_index c) w else w)" by simp
    from k6 [OF this] False r c d show ?thesis
      by (auto simp: disable_config.simps config_slot_def put_slot_def [abs_def] ENODEV_def split: if_splits sum.splits)
  qed
qed

section \<open>The gateway of a configuration\<close>

lemma entry_add_dropped: "type \<noteq> TYPE_ALL \<Longrightarrow> entry_dropped type e \<Longrightarrow> entry_add type i c None = entry_add type i c (Some e)"
  by (cases e) (simp add: entry_dropped_def entry_add_def)

lemma gateway_of_config:
  assumes g: "gw_wf g" "gateway_hash g = Some h" "iter_ok genv" and mem: "\<And>n. ge_mem_data genv n" "\<And>n. ge_mem_config genv n"
    and c: "iw_configs w p = Some c" "ic_type c \<noteq> TYPE_ALL" "ic_address c = Some a" "ie_service env (ip_now w) (ic_index c) = Some s"
    and a: "default_address (ic_type c) (ia_gateway a) = Some gw" "gw \<noteq> []"
  shows "\<exists>g1 act. gateway_remove genv s (ic_type c) g = Inr g1 \<and> find_active_gateway genv g1 = Inr act \<and>
    (\<not> ge_is_vpn genv s \<or> added_ok genv (ic_type c) s act g1 \<longrightarrow>
      (\<exists>g'. ipconfig_gateway_add env genv p w g = Inr (0, g') \<and> gw_wf g' \<and>
        gateway_entry g' = (gateway_entry g)(s \<mapsto> entry_add (ic_type c) (ge_index genv (gw_now g1) s)
          (added_config (ge_is_vpn genv s) (ic_type c) gw (ia_peer a) (Option.bind act (carried_by (ic_type c) g1))) (gateway_entry g s)) \<and>
        gw_refs g' = (gw_refs g)(s := gw_refs g s + (if \<exists>e. gateway_entry g s = Some e \<and> entry_dropped (ic_type c) e then 0 else 1))))"
proof -
  obtain g1 where g1: "gateway_remove genv s (ic_type c) g = Inr g1" "removed_from s (ic_type c) g g1"
    using gateway_remove_effect [OF g, of s "ic_type c"] by (auto simp: succeeds_def)
  have w1: "gw_wf g1" "gateway_hash g1 \<noteq> None" using g1(2) by (simp_all add: removed_from_def)
  obtain act where act: "find_active_gateway genv g1 = Inr act" using find_active_total [OF w1(1) _ g(3)] w1(2) by (auto simp: succeeds_def)
  let ?c = "added_config (ge_is_vpn genv s) (ic_type c) gw (ia_peer a) (Option.bind act (carried_by (ic_type c) g1))"
  have "\<exists>g'. ipconfig_gateway_add env genv p w g = Inr (0, g') \<and> gw_wf g' \<and>
      gateway_entry g' = (gateway_entry g)(s \<mapsto> entry_add (ic_type c) (ge_index genv (gw_now g1) s) ?c (gateway_entry g s)) \<and>
      gw_refs g' = (gw_refs g)(s := gw_refs g s + (if \<exists>e. gateway_entry g s = Some e \<and> entry_dropped (ic_type c) e then 0 else 1))"
    if "\<not> ge_is_vpn genv s \<or> added_ok genv (ic_type c) s act g1"
  proof -
    have "added_ok genv (ic_type c) s act g1" using that by (auto simp: added_ok_def)
    from gateway_add_effect [OF w1 g(3) mem c(2) a act this, of "ia_peer a"]
    obtain g2 where g2: "gateway_add genv s (ia_gateway a) (ic_type c) (ia_peer a) g1 = Inr (0, g2)" "gw_wf g2"
      "gateway_entry g2 = (gateway_entry g1)(s \<mapsto> entry_add (ic_type c) (ge_index genv (gw_now g1) s) ?c (gateway_entry g1 s))"
      "gw_refs g2 = (gw_refs g1)(s := gw_refs g1 s + 1)"
      by blast
    have "gateway_entry g2 = (gateway_entry g)(s \<mapsto> entry_add (ic_type c) (ge_index genv (gw_now g1) s) ?c (gateway_entry g s))"
      using g1(2) g2(3) entry_add_dropped [OF c(2)] by (auto simp: removed_from_def split: if_splits)
    moreover have "gw_refs g2 = (gw_refs g)(s := gw_refs g s + (if \<exists>e. gateway_entry g s = Some e \<and> entry_dropped (ic_type c) e then 0 else 1))"
      using g1(2) g2(4) by (auto simp: removed_from_def)
    moreover have "ipconfig_gateway_add env genv p w g = Inr (0, g2)" using c g1(1) g2(1) by (simp add: ipconfig_gateway_add_def)
    ultimately show ?thesis using g2(2) by blast
  qed
  then show ?thesis using g1(1) act by blast
qed

section \<open>Properties\<close>

text \<open>An environment in which allocations succeed, the interface 1 has service 1, and the parsers know a few strings.\<close>

definition ex_ip_env :: ip_env where
  "ex_ip_env = \<lparr>ie_result = (\<lambda>n c. 0), ie_ifname = (\<lambda>n i. Some ''eth0''), ie_read_proc = (\<lambda>n f. Some 0),
     ie_inet_network = (\<lambda>s. if s = ''255.255.255.0'' then 0xFFFFFF00 else 0xFFFFFFFF), ie_inet_pton6 = (\<lambda>s. s = ''2001:db8::1''),
     ie_atoi = (\<lambda>s. 64), ie_key_integer = (\<lambda>s. if s = ''24'' then Some 24 else None), ie_service = (\<lambda>n i. if i = 1 then Some 1 else None),
     ie_6to4_check = (\<lambda>n p. False)\<rparr>"

abbreviation ex_link :: "int \<Rightarrow> ip_event" where "ex_link i \<equiv> Newlink i 1 0x10043 None 1500 no_stats"

abbreviation ex_ops :: "addr \<Rightarrow> ip_event" where "ex_ops p \<equiv> Setting (Set_ops (Some [Op_up, Op_lower_up])) p"

definition ex_events :: "ip_event list" where
  "ex_events = [ex_link 1, Create 1 TYPE_IPV4, ex_ops 0, Enable 0, Create 1 TYPE_IPV6, ex_ops 1, Enable 1, Unref 1]"

definition ex_ip_state :: ip_state where "ex_ip_state = the (run ip_step (ex_ip_env, \<lambda>p. 0, ip_boot) ex_events)"
definition ex_held :: "addr \<Rightarrow> nat" where "ex_held = fst (snd ex_ip_state)"
definition ex_ip :: ip_world where "ex_ip = snd (snd ex_ip_state)"

lemma ex_ip_run: "run ip_step (ex_ip_env, \<lambda>p. 0, ip_boot) ex_events = Some (fst ex_ip_state, ex_held, ex_ip)"
proof -
  have "\<not> Option.is_none (run ip_step (ex_ip_env, \<lambda>p. 0, ip_boot) ex_events)" by code_simp
  then show ?thesis by (auto simp: Option.is_none_def ex_ip_state_def ex_held_def ex_ip_def)
qed

lemma ex_ip_start: "ip_start (ex_ip_env, \<lambda>p. 0, ip_boot)"
  by (simp add: ip_start_def)

lemma ex_ip_wf: "ip_wf ex_held ex_ip"
  using ip.run_from_start [OF ex_ip_start ex_ip_run] by (simp add: ip_inv_def)

text \<open>
  C17. After any sequence of kernel events and of calls by holders of references in which no configuration is
  enabled, or loaded, without its callbacks or while it is on the list and not in use by the device of its interface, the reference count
  of every configuration is the number of references held outside plus one when a device uses it; a configuration is
  live exactly when it is held or used, so none is leaked and none dangles; and a configuration that a device uses is on the
  list, once, as are only live ones. The code does not check that condition: \<open>ip_step\<close> leaves out the calls that violate it, and what one
  of them does is shown at the end of this theory.\<close>

theorem ipconfig_references_counted:
  assumes "ip_start s" and "run ip_step s es = Some (env, held, w)"
  shows "(\<forall>p c. iw_configs w p = Some c \<longrightarrow> ic_refcount c = int (held p) + (if p \<in> set (slots (devices w)) then 1 else 0)) \<and>
    dom (iw_configs w) = {p. 0 < held p} \<union> set (slots (devices w)) \<and>
    set (slots (devices w)) \<subseteq> set (ipconfig_list w) \<and> set (ipconfig_list w) \<subseteq> dom (iw_configs w) \<and> distinct (ipconfig_list w)"
proof -
  have wf: "ip_wf held w" using ip.run_from_start [OF assms] by (simp add: ip_inv_def)
  have "p \<in> {p. 0 < held p} \<union> set (slots (devices w))" if "p \<in> dom (iw_configs w)" for p
    using that ip_live(5) [OF wf, of p] by (auto simp: counted_def split: if_splits)
  then have d: "dom (iw_configs w) = {p. 0 < held p} \<union> set (slots (devices w))" using ip_live(3,4) [OF wf] by blast
  have "ic_refcount c = int (held p) + (if p \<in> set (slots (devices w)) then 1 else 0)" if "iw_configs w p = Some c" for p c
    using ip_live(5) [OF wf that] by (simp add: counted_def)
  then show ?thesis using d ip_live(1,2,4) [OF wf] by blast
qed

theorem ipconfig_references_counted_witness:
  "dom (iw_configs ex_ip) = {p. 0 < ex_held p} \<union> set (slots (devices ex_ip)) \<and> slots (devices ex_ip) = [0, 1] \<and> ex_held 0 = 1 \<and> ex_held 1 = 0"
proof -
  have "slots (devices ex_ip) = [0, 1]" "ex_held 0 = 1" "ex_held 1 = 0" by code_simp+
  then show ?thesis using ipconfig_references_counted [OF ex_ip_start ex_ip_run] by simp
qed



text \<open>
  A configuration that was disabled with success is neither in a slot of a device nor on the
  list.\<close>

lemma disabled_config_is_out:
  assumes "ip_wf held w" and "disable_config p w = Inr (0, w')"
  shows "p \<notin> set (ipconfig_list w') \<and> p \<notin> set (slots (devices w'))"
  using assms by (rule disable_effect)

definition ex_disabled :: ip_world where "ex_disabled = snd (projr (disable_config 0 ex_ip))"

lemma disabled_config_is_out_witness: "0 \<notin> set (ipconfig_list ex_disabled) \<and> 0 \<notin> set (slots (devices ex_disabled))"
proof -
  have "\<not> isl (disable_config 0 ex_ip)" "fst (projr (disable_config 0 ex_ip)) = 0" by code_simp+
  then have "disable_config 0 ex_ip = Inr (0, ex_disabled)" unfolding ex_disabled_def by (rule result_parts)
  then show ?thesis by (rule disabled_config_is_out [OF ex_ip_wf])
qed

text \<open>
  C21. The length of a netmask is the number of its leading ones when it is one of the 33 masks of
  that form, 255 for any other mask and 32 without a mask.\<close>

theorem netmask_prefix_len_reference: "netmask_prefix_len env netmask = netmask_reference env netmask"
  by (rule netmask_length)

text \<open>
  The netmask that a D-Bus client sees is parsed back to the prefix length it was made of, for
  the lengths from 1 to 32 (\<open>inet_network\<close> reads what \<open>inet_ntoa\<close> wrote).\<close>

lemma netmask_round_trip:
  assumes "0 < n" and "n \<le> 32"
    and "ie_inet_network env (inet_ntoa (htonl (prefix_mask (unat n)))) = prefix_mask (unat n)"
  shows "\<exists>s. netmask_string n = Inr s \<and> netmask_prefix_len env (Some s) = n"
  using assms by (rule netmask_back)

lemma netmask_round_trip_witness: "\<exists>s. netmask_string 24 = Inr s \<and> netmask_prefix_len ex_ip_env (Some s) = 24"
  by (rule netmask_round_trip) code_simp+

text \<open>
  The dictionary for a D-Bus client shifts by an undefined count exactly when an address has
  prefix length 0 or more than 32.\<close>

lemma netmask_shift_undefined: "netmask_string n = Inl BadShift \<longleftrightarrow> n = 0 \<or> 32 < n"
  unfolding netmask_string_def prefix_netmask_cases by simp

text \<open>
  C20. A static IPv4 configuration that is saved under fresh keys and loaded again has the method,
  the prefix length and all addresses it had.\<close>

theorem static_config_round_trip:
  assumes "ic_method c \<in> {METHOD_FIXED, METHOD_MANUAL}" and "ic_address c = Some a" and "ic_type c = TYPE_IPV4"
    and "\<And>key. kf identifier (prefix @ key) = None"
    and "ie_key_integer env (show_int (uint (ia_prefixlen a))) = Some (uint (ia_prefixlen a))"
    and "iw_configs w p = Some d" and "ic_type d = TYPE_IPV4" and "ic_address d = Some b"
  shows "\<exists>kf'. ipconfig_save c kf identifier prefix = Inr (0, kf') \<and>
    ipconfig_load env p kf' identifier prefix w =
      Inr (0, put_config p (d\<lparr>ic_method := ic_method c, ic_address := Some (a\<lparr>ia_family := ia_family b\<rparr>)\<rparr>) w)"
  using assms by (rule static_round_trip)

definition ex_address :: connman_ipaddress where
  "ex_address = (new_ipaddress AF_INET)\<lparr>ia_prefixlen := 24, ia_local := Some ''10.0.0.5'', ia_gateway := Some ''10.0.0.1''\<rparr>"

definition ex_config :: connman_ipconfig where
  "ex_config = (the (iw_configs ex_ip 0))\<lparr>ic_method := METHOD_MANUAL, ic_address := Some ex_address\<rparr>"

lemma ex_ip_facts:
  "iw_configs ex_ip 0 = Some (the (iw_configs ex_ip 0))" "ic_type (the (iw_configs ex_ip 0)) = TYPE_IPV4"
  "ic_address (the (iw_configs ex_ip 0)) = Some (new_ipaddress AF_INET)"
  by code_simp+

theorem static_config_round_trip_witness:
  "\<exists>kf. ipconfig_save ex_config (\<lambda>g k. None) ''wifi_1'' ''IPv4.'' = Inr (0, kf) \<and>
    ipconfig_load ex_ip_env 0 kf ''wifi_1'' ''IPv4.'' ex_ip = Inr (0, put_config 0 ex_config ex_ip)"
proof -
  have c: "ic_method ex_config \<in> {METHOD_FIXED, METHOD_MANUAL}" "ic_address ex_config = Some ex_address" "ic_type ex_config = TYPE_IPV4"
    "ie_key_integer ex_ip_env (show_int (uint (ia_prefixlen ex_address))) = Some (uint (ia_prefixlen ex_address))"
    by code_simp+
  have "(the (iw_configs ex_ip 0))\<lparr>ic_method := ic_method ex_config, ic_address := Some (ex_address\<lparr>ia_family := ia_family (new_ipaddress AF_INET)\<rparr>)\<rparr> = ex_config"
    by (simp add: ex_config_def ex_address_def new_ipaddress_def)
  then show ?thesis
    using static_config_round_trip [OF c(1-3) _ c(4) ex_ip_facts, of "\<lambda>g k. None" "''wifi_1''" "''IPv4.''"] by simp
qed

text \<open>
  C19. The gateway of a configuration reaches the gateway table. When the service is no VPN, or is one
  that can be added in the table that the removal of its old gateway leaves, the entry of the service gets the gateway in the family
  of the configuration, with the index the service has once the old gateway is removed, and keeps the other family; no other service is touched;
  and the table holds one more reference to the service unless the removal dropped the entry. (Allocations succeed.)\<close>

theorem config_gateway_refines:
  assumes "gw_wf g" and "gateway_hash g = Some h" and "iter_ok genv" and "\<And>n. ge_mem_data genv n" and "\<And>n. ge_mem_config genv n"
    and "iw_configs w p = Some c" and "ic_type c \<noteq> TYPE_ALL" and "ic_address c = Some a" and "ie_service env (ip_now w) (ic_index c) = Some s"
    and "default_address (ic_type c) (ia_gateway a) = Some gw" and "gw \<noteq> []"
  shows "\<exists>g1 act. gateway_remove genv s (ic_type c) g = Inr g1 \<and> find_active_gateway genv g1 = Inr act \<and>
    (\<not> ge_is_vpn genv s \<or> added_ok genv (ic_type c) s act g1 \<longrightarrow>
      (\<exists>g'. ipconfig_gateway_add env genv p w g = Inr (0, g') \<and> gw_wf g' \<and>
        gateway_entry g' = (gateway_entry g)(s \<mapsto> entry_add (ic_type c) (ge_index genv (gw_now g1) s)
          (added_config (ge_is_vpn genv s) (ic_type c) gw (ia_peer a) (Option.bind act (carried_by (ic_type c) g1))) (gateway_entry g s)) \<and>
        gw_refs g' = (gw_refs g)(s := gw_refs g s + (if \<exists>e. gateway_entry g s = Some e \<and> entry_dropped (ic_type c) e then 0 else 1))))"
  using assms by (rule gateway_of_config)

theorem config_gateway_refines_witness:
  "\<exists>g' n. ipconfig_gateway_add ex_ip_env ex_gw_env 0 (put_config 0 ex_config ex_ip) ex_gw2 = Inr (0, g') \<and> gw_wf g' \<and>
    gateway_entry g' = (gateway_entry ex_gw2)(1 \<mapsto> entry_add TYPE_IPV4 (ge_index ex_gw_env n 1) (new_config ''10.0.0.1'') (gateway_entry ex_gw2 1))"
proof -
  have c: "iw_configs (put_config 0 ex_config ex_ip) 0 = Some ex_config" by simp
  have t: "ic_type ex_config = TYPE_IPV4" by code_simp
  have f: "ic_type ex_config \<noteq> TYPE_ALL" "ic_address ex_config = Some ex_address"
    "ie_service ex_ip_env (ip_now (put_config 0 ex_config ex_ip)) (ic_index ex_config) = Some 1"
    "default_address (ic_type ex_config) (ia_gateway ex_address) = Some ''10.0.0.1''" "''10.0.0.1'' \<noteq> []"
    by code_simp+
  have v: "\<not> ge_is_vpn ex_gw_env 1" by code_simp
  have m: "ge_mem_data ex_gw_env n" "ge_mem_config ex_gw_env n" for n by (simp_all add: ex_gw_env_def)
  show ?thesis using config_gateway_refines [OF ex_gw2_wf ex_gw2_facts(1) ex_gw_iter m c f] v
    unfolding t by (auto simp: added_config_def)
qed

text \<open>
  A manual IPv6 configuration without a valid gateway is refused with an error, but the method
  of the configuration has changed to manual already, while its address has not.\<close>

lemma refused_config_changes_method:
  assumes "iw_configs w p = Some c" and "ic_type c = TYPE_IPV6"
    and "config_entries env dict no_args = Some args" and "ca_method args = METHOD_MANUAL" and "ca_address args \<noteq> None"
    and "\<not> check_ipv6_address env (ca_gateway args)"
  shows "ipconfig_set_config env p (Some dict) w = Inr (- EINVAL, put_config p (c\<lparr>ic_method := METHOD_MANUAL\<rparr>) w)"
  using assms by (rule refused_manual_config)

abbreviation ex_dict :: "(dbus_arg \<times> dbus_arg) list" where
  "ex_dict \<equiv> [(Arg_string ''Method'', Arg_string ''manual''), (Arg_string ''Address'', Arg_string ''2001:db8::1'')]"

lemma refused_config_changes_method_witness:
  "ipconfig_set_config ex_ip_env 1 (Some ex_dict) ex_ip =
    Inr (- EINVAL, put_config 1 ((the (iw_configs ex_ip 1))\<lparr>ic_method := METHOD_MANUAL\<rparr>) ex_ip)"
proof -
  have "config_entries ex_ip_env ex_dict no_args = Some (the (config_entries ex_ip_env ex_dict no_args))"
    "ca_method (the (config_entries ex_ip_env ex_dict no_args)) = METHOD_MANUAL"
    "ca_address (the (config_entries ex_ip_env ex_dict no_args)) \<noteq> None"
    "\<not> check_ipv6_address ex_ip_env (ca_gateway (the (config_entries ex_ip_env ex_dict no_args)))"
    "iw_configs ex_ip 1 = Some (the (iw_configs ex_ip 1))" "ic_type (the (iw_configs ex_ip 1)) = TYPE_IPV6" by code_simp+
  then show ?thesis using refused_config_changes_method by blast
qed

text \<open>
  Enabling an IPv6 configuration in place of an automatic one that only the device still holds
  enables IPv6 on the interface first and then disables it, as the old configuration is freed: the new one is in use on an
  interface without IPv6.\<close>

lemma replaced_config_disables_ipv6:
  assumes "iw_configs w p = Some c" and "ic_type c = TYPE_IPV6" and "ic_ops c = Some ops" and "0 \<le> ic_index c" and "p \<noteq> q"
    and "device_of w (ic_index c) = Some d" and "id_config_ipv6 d = Some q" and "id_config_ipv4 d \<noteq> Some q" and "id_ifname d = Some i"
    and "iw_configs w q = Some e" and "ic_refcount e = 1" and "ic_method e = METHOD_AUTO" and "ic_index e = ic_index c"
  shows "\<exists>w'. enable_config p w = Inr (0, w') \<and> iw_trace w' = iw_trace w @ ipv6_writes c i @
    [Write_proc (ipv6_file (Some i)) ''1''] @ map (\<lambda>oper. Callback oper p) (filter (\<lambda>oper. oper \<in> set ops) (state_ops (id_flags d)))"
  using replace_trace [OF assms] by (auto simp: succeeds_def)

definition ex_config6 :: connman_ipconfig where
  "ex_config6 = \<lparr>ic_refcount = 1, ic_index = 1, ic_type = TYPE_IPV6, ic_ops = Some [Op_up, Op_lower_up], ic_ops_data = None, ic_method = METHOD_AUTO,
     ic_address = Some (new_ipaddress AF_INET6), ic_system = None, ic_ipv6_privacy_config = 0, ic_last_dhcp_address = None\<rparr>"

definition ex_device6 :: connman_ipdevice where
  "ex_device6 = (new_device ex_ip_env 1 1 None ip_boot)\<lparr>id_flags := 0x10043, id_config_ipv6 := Some 1\<rparr>"

definition ex_ip2 :: ip_world where
  "ex_ip2 = \<lparr>ipdevice_hash = Some [(1, ex_device6)], iw_configs = [1 \<mapsto> ex_config6, 2 \<mapsto> ex_config6], ipconfig_list = [1], iw_next = 3, iw_trace = []\<rparr>"

lemma replaced_config_disables_ipv6_witness:
  "\<exists>w'. enable_config 2 ex_ip2 = Inr (0, w') \<and> iw_trace w' = ipv6_writes ex_config6 ''eth0'' @
    [Write_proc (ipv6_file (Some ''eth0'')) ''1'', Callback Op_up 2, Callback Op_lower_up 2]"
proof -
  have f: "iw_configs ex_ip2 2 = Some ex_config6" "ic_type ex_config6 = TYPE_IPV6" "ic_ops ex_config6 = Some [Op_up, Op_lower_up]"
    "0 \<le> ic_index ex_config6" "(2::addr) \<noteq> 1" "device_of ex_ip2 (ic_index ex_config6) = Some ex_device6"
    "id_config_ipv6 ex_device6 = Some 1" "id_config_ipv4 ex_device6 \<noteq> Some 1" "id_ifname ex_device6 = Some ''eth0''"
    "iw_configs ex_ip2 1 = Some ex_config6" "ic_refcount ex_config6 = 1" "ic_method ex_config6 = METHOD_AUTO" "ic_index ex_config6 = ic_index ex_config6"
    by (simp_all add: ex_ip2_def ex_config6_def ex_device6_def device_of_def new_device_def ex_ip_env_def Let_def)
  have "map (\<lambda>oper. Callback oper 2) (filter (\<lambda>oper. oper \<in> set [Op_up, Op_lower_up]) (state_ops (id_flags ex_device6))) =
      [Callback Op_up 2, Callback Op_lower_up 2]" by code_simp
  moreover have "iw_trace ex_ip2 = []" by (simp add: ex_ip2_def)
  ultimately show ?thesis using replaced_config_disables_ipv6 [OF f] by simp
qed

text \<open>
  What enabling does outside its condition: the list gets a second entry of a configuration that is on it
  already, and the entry that stays dangles once the configuration is freed.\<close>

lemma notify_dangling:
  assumes "iw_configs w p = None"
  shows "p \<in> set ps \<Longrightarrow> iw_configs w' = iw_configs w \<Longrightarrow> notify_loop wanted index type ps w' = Inl UseAfterFree"
proof (induction ps arbitrary: w')
  case (Cons q ps)
  have IH: "p \<in> set ps \<Longrightarrow> notify_loop wanted index type ps u = Inl UseAfterFree" if "iw_configs u = iw_configs w" for u
    using Cons.IH that by simp
  have c: "iw_configs (call_ops wanted ops q w') = iw_configs w" for ops using Cons.prems(2) by (simp add: call_ops_def)
  show ?case
  proof (cases "iw_configs w' q")
    case (Some c)
    then have "p \<in> set ps" using Cons.prems assms by auto
    then show ?thesis using Some IH [OF Cons.prems(2)] IH [OF c] by (auto simp: config_of_def split: option.splits)
  qed (simp add: config_of_def)
qed simp

lemma distinct_count_one: "distinct xs \<Longrightarrow> x \<in> set xs \<Longrightarrow> count_list xs x = 1"
  by (induction xs) (auto simp: count_list_0_iff)

lemma unlink_effect:
  "set ps \<subseteq> dom (iw_configs w) \<Longrightarrow> succeeds (unlink_loop i ps w) (\<lambda>w1. ipdevice_hash w1 = ipdevice_hash w \<and>
     ipconfig_list w1 = ipconfig_list w \<and>
     (\<forall>q c. iw_configs w q = Some c \<longrightarrow> iw_configs w1 q = Some (if q \<in> set ps \<and> ic_index c = i then c\<lparr>ic_index := - 1\<rparr> else c)))"
proof (induction ps arbitrary: w)
  case (Cons p ps)
  obtain c where c: "iw_configs w p = Some c" using Cons.prems by auto
  have step: "succeeds (unlink_loop i ps u) (\<lambda>w1. ipdevice_hash w1 = ipdevice_hash w \<and> ipconfig_list w1 = ipconfig_list w \<and>
     (\<forall>q c. iw_configs w q = Some c \<longrightarrow> iw_configs w1 q = Some (if q \<in> set (p # ps) \<and> ic_index c = i then c\<lparr>ic_index := - 1\<rparr> else c)))"
    if "same (put_config p (if ic_index c = i then c\<lparr>ic_index := - 1\<rparr> else c) w) u" for u
  proof -
    have u: "iw_configs u = (iw_configs w)(p \<mapsto> (if ic_index c = i then c\<lparr>ic_index := - 1\<rparr> else c))"
      "ipdevice_hash u = ipdevice_hash w" "ipconfig_list u = ipconfig_list w"
      using that by (simp_all add: same_def put_config_def)
    have "set ps \<subseteq> dom (iw_configs u)" using Cons.prems by (auto simp: u(1))
    then obtain x where x: "unlink_loop i ps u = Inr x" "ipdevice_hash x = ipdevice_hash w" "ipconfig_list x = ipconfig_list w"
        "\<And>q c. iw_configs u q = Some c \<Longrightarrow> iw_configs x q = Some (if q \<in> set ps \<and> ic_index c = i then c\<lparr>ic_index := - 1\<rparr> else c)"
      using Cons.IH u(2,3) unfolding succeeds_def by metis
    have "iw_configs x q = Some (if q \<in> set (p # ps) \<and> ic_index e = i then e\<lparr>ic_index := - 1\<rparr> else e)" if "iw_configs w q = Some e" for q e
      using x(4) [of q "if q = p \<and> ic_index e = i then e\<lparr>ic_index := - 1\<rparr> else e"] that c
      by (cases "q = p") (auto simp: u(1))
    then show ?thesis using x(1-3) by (simp add: succeeds_def)
  qed
  show ?case
  proof (cases "ic_index c = i")
    case True
    let ?u = "put_config p (c\<lparr>ic_index := - 1\<rparr>) w"
    have "unlink_loop i (p # ps) w = unlink_loop i ps
        (case ic_ops c of None \<Rightarrow> ?u | Some ops \<Rightarrow> call_ops [Op_lower_down, Op_down] ops p ?u)"
      using c True by (simp add: config_of_def Let_def split: option.split)
    moreover have "same (put_config p (if ic_index c = i then c\<lparr>ic_index := - 1\<rparr> else c) w)
        (case ic_ops c of None \<Rightarrow> ?u | Some ops \<Rightarrow> call_ops [Op_lower_down, Op_down] ops p ?u)"
      using True by (simp split: option.split)
    ultimately show ?thesis using step by (simp only:)
  next
    case False
    have "put_config p c w = w" using c by (simp add: put_config_def map_upd_triv)
    then have "same (put_config p (if ic_index c = i then c\<lparr>ic_index := - 1\<rparr> else c) w) w" using False by simp
    moreover have "unlink_loop i (p # ps) w = unlink_loop i ps w" using c False by (simp add: config_of_def)
    ultimately show ?thesis using step by (simp only:)
  qed
qed simp

lemma enable_listed_again:
  assumes c: "iw_configs w p = Some c" "ic_ops c = Some ops" "ic_type c \<noteq> TYPE_ALL" "0 \<le> ic_index c"
    and d: "device_of w (ic_index c) = Some d" "id_config_ipv4 d = None" "id_config_ipv6 d = None"
  shows "\<exists>w1. ipconfig_enable (Some p) w = Inr (0, w1) \<and> ipconfig_list w1 = ipconfig_list w @ [p] \<and>
    iw_configs w1 = (iw_configs w)(p \<mapsto> c\<lparr>ic_refcount := ic_refcount c + 1\<rparr>) \<and>
    device_of w1 (ic_index c) = Some (put_slot (ic_type c) (Some p) d)"
proof -
  define u where "u = (if ic_type c = TYPE_IPV6 then enable_ipv6 c w else w)"
  have u: "iw_configs u = iw_configs w" "ipconfig_list u = ipconfig_list w" "device_of u (ic_index c) = Some d"
    using d(1) same_fields(2,3,6) [of w u] by (simp_all add: u_def)
  have s: "config_slot (ic_type c) d = None" using d(2,3) by (simp add: config_slot_def)
  define x where "x = upd_device (ic_index c) (put_slot (ic_type c) (Some p))
    ((put_config p (c\<lparr>ic_refcount := ic_refcount c + 1\<rparr>) u)\<lparr>ipconfig_list := ipconfig_list u @ [p]\<rparr>)"
  have "ipconfig_enable (Some p) w = Inr (0, call_ops (state_ops (id_flags d)) ops p x)"
    using c d s u by (simp add: ipconfig_enable_def enable_config_def config_of_def replace_config_def ipconfig_ref_def upd_config_def
      u_def [symmetric] x_def put_slot_def [abs_def] Let_def)
  moreover have "iw_configs x = (iw_configs w)(p \<mapsto> c\<lparr>ic_refcount := ic_refcount c + 1\<rparr>)" "ipconfig_list x = ipconfig_list w @ [p]"
    by (simp_all add: x_def upd_device_def put_config_def u)
  moreover have "device_of x (ic_index c) = Some (put_slot (ic_type c) (Some p) d)"
    using u(3) by (simp add: x_def device_of_upd_device) (simp add: device_of_def put_config_def)
  moreover note same_fields(2,3,6) [OF same_ops(5)]
  ultimately show ?thesis by auto
qed

lemma unlink_frees_last:
  assumes c: "iw_configs w p = Some c" "ic_refcount c = 1" "ic_address c \<noteq> None" "ic_type c \<noteq> TYPE_ALL"
    and d: "device_of w (ic_index c) = Some (put_slot (ic_type c) (Some p) d)" "id_config_ipv4 d = None" "id_config_ipv6 d = None"
    and l: "set (ipconfig_list w) \<subseteq> dom (iw_configs w)" "p \<in> set (ipconfig_list w)"
  shows "\<exists>w'. ipconfig_dellink (ic_index c) no_stats w = Inr w' \<and> ipconfig_list w' = remove1 p (ipconfig_list w) \<and> iw_configs w' p = None"
proof -
  let ?d = "put_slot (ic_type c) (Some p) d" and ?c = "c\<lparr>ic_index := - 1\<rparr>"
  obtain w2 where w2: "unlink_loop (ic_index c) (ipconfig_list w) w = Inr w2" "ipconfig_list w2 = ipconfig_list w" "iw_configs w2 p = Some ?c"
    using unlink_effect [OF l(1), of "ic_index c"] c(1) l(2) by (auto simp: succeeds_def)
  have "\<exists>w3. ipconfig_lower_down ?d w2 = Inr w3 \<and> same w2 w3"
    using w2(3) c(3) d(2,3) by (auto simp: ipconfig_lower_down_def put_slot_def config_of_def)
  then obtain w3 where w3: "ipconfig_lower_down ?d w2 = Inr w3" "ipconfig_list w3 = ipconfig_list w" "iw_configs w3 p = Some ?c"
    using w2(2,3) by (auto simp: same_def)
  let ?w = "remove_device (ic_index c) w3"
  define v where "v = ?w\<lparr>iw_configs := (iw_configs ?w)(p := None), ipconfig_list := remove1 p (ipconfig_list w)\<rparr>"
  have "unref_config p ?w = Inr v"
    using w3(2,3) c(2) by (subst unref_config.simps) (simp add: disable_config.simps put_config_def remove_device_def v_def Let_def ENODEV_def)
  then have "\<exists>w'. free_ipdevice ?d ?w = Inr w' \<and> same v w'"
    using d(2,3) by (auto simp: free_ipdevice_def ipconfig_unref_def put_slot_def intro: same_trans)
  moreover have "update_stats (ic_index c) ?d no_stats w = Inr w" by (simp add: update_stats_def no_stats_def)
  ultimately show ?thesis using w2(1) w3(1) d(1) by (auto simp: ipconfig_dellink_def same_def v_def)
qed

text \<open>
  C38. A configuration with one holder that is still on the list when its link comes back, as a link
  that went away leaves it, is on the list twice after it is enabled. When the holder then drops its reference and the link
  goes away again, the configuration is freed while one entry stays on the list, and the next interface that appears with a flag set makes the
  component read the freed configuration.\<close>

theorem enabled_again_dangles:
  assumes wf: "ip_wf held w" and "held p = 1" and l: "p \<in> set (ipconfig_list w)"
    and c: "iw_configs w p = Some c" "ic_ops c = Some ops" "ic_type c \<noteq> TYPE_ALL" "0 \<le> ic_index c"
    and d: "device_of w (ic_index c) = Some d" "id_config_ipv4 d = None" "id_config_ipv6 d = None" and "p \<notin> set (slots (devices w))"
  shows "\<exists>w1 w2 w3. ipconfig_enable (Some p) w = Inr (0, w1) \<and> count_list (ipconfig_list w1) p = 2 \<and>
    ipconfig_unref (Some p) w1 = Inr w2 \<and> ipconfig_dellink (ic_index c) no_stats w2 = Inr w3 \<and>
    iw_configs w3 p = None \<and> p \<in> set (ipconfig_list w3) \<and>
    (\<forall>env j type flags address mtu stats. type \<noteq> ARPHRD_LOOPBACK \<longrightarrow> device_of w3 j = None \<longrightarrow>
       0 \<le> fst (ip_ask env Ip_alloc w3) \<longrightarrow> flags \<noteq> 0 \<longrightarrow>
       ipconfig_newlink env j type flags address mtu stats w3 = Inl UseAfterFree)"
proof -
  have r: "ic_refcount c = 1" "ic_address c \<noteq> None" using ip_live(5) [OF wf c(1)] assms(2,11) by (simp_all add: counted_def)
  obtain w1 where w1: "ipconfig_enable (Some p) w = Inr (0, w1)" "ipconfig_list w1 = ipconfig_list w @ [p]"
      "iw_configs w1 = (iw_configs w)(p \<mapsto> c\<lparr>ic_refcount := ic_refcount c + 1\<rparr>)"
      "device_of w1 (ic_index c) = Some (put_slot (ic_type c) (Some p) d)"
    using enable_listed_again [OF c d] by blast
  have n: "count_list (ipconfig_list w1) p = 2"
    using l distinct_count_one [OF ip_live(2) [OF wf]] by (simp add: w1(2))
  let ?w2 = "put_config p c w1"
  have same_count: "c\<lparr>ic_refcount := 1\<rparr> = c" using r(1) by (metis connman_ipconfig.surjective connman_ipconfig.update_convs(1))
  have "ipconfig_unref (Some p) w1 = Inr (put_config p (c\<lparr>ic_refcount := 1\<rparr>) w1)"
    by (simp add: ipconfig_unref_def unref_config.simps w1(3) Let_def r(1))
  note w2 = this [unfolded same_count]
  have f: "iw_configs ?w2 p = Some c" "ipconfig_list ?w2 = ipconfig_list w @ [p]" "device_of ?w2 (ic_index c) = Some (put_slot (ic_type c) (Some p) d)"
    using w1 by (simp_all add: put_config_def device_of_def)
  have live: "set (ipconfig_list ?w2) \<subseteq> dom (iw_configs ?w2)" "p \<in> set (ipconfig_list ?w2)"
    using ip_live(1) [OF wf] by (auto simp: put_config_def w1(2,3))
  obtain w3 where w3: "ipconfig_dellink (ic_index c) no_stats ?w2 = Inr w3" "ipconfig_list w3 = remove1 p (ipconfig_list w @ [p])" "iw_configs w3 p = None"
    using unlink_frees_last [OF f(1) r c(3) f(3) d(2,3) live] unfolding f(2) by blast
  have p3: "p \<in> set (ipconfig_list w3)" using l by (simp add: w3(2) remove1_append)
  have "ipconfig_newlink env j type flags address mtu stats w3 = Inl UseAfterFree"
    if "type \<noteq> ARPHRD_LOOPBACK" "device_of w3 j = None" "0 \<le> fst (ip_ask env Ip_alloc w3)" "flags \<noteq> 0" for env j type flags address mtu stats
  proof -
    note dangling = notify_dangling [OF w3(3) p3]
    show ?thesis using that
      by (simp add: ipconfig_newlink_def ip_ask_def Let_def update_link_def update_stats_def device_service_def new_device_def insert_device_def
        upd_device_def ip_tell_def dangling)
  qed
  then show ?thesis using w1(1) n w2 w3 p3 by blast
qed

definition replug_events :: "ip_event list" where
  "replug_events = [ex_link 1, Create 1 TYPE_IPV4, ex_ops 0, Enable 0, Dellink 1 no_stats, ex_link 1, Setting (Set_index 1) 0]"

definition ex_replug :: ip_state where "ex_replug = the (run ip_step (ex_ip_env, \<lambda>p. 0, ip_boot) replug_events)"

lemma ex_replug_wf: "ip_wf (fst (snd ex_replug)) (snd (snd ex_replug))"
proof -
  have "\<not> Option.is_none (run ip_step (ex_ip_env, \<lambda>p. 0, ip_boot) replug_events)" by code_simp
  then have "run ip_step (ex_ip_env, \<lambda>p. 0, ip_boot) replug_events = Some (fst ex_replug, fst (snd ex_replug), snd (snd ex_replug))"
    by (auto simp: Option.is_none_def ex_replug_def)
  from ip.run_from_start [OF ex_ip_start this] show ?thesis by (simp add: ip_inv_def)
qed

abbreviation ex_world3 :: ip_world where
  "ex_world3 \<equiv> projr (ipconfig_dellink 1 no_stats (projr (ipconfig_unref (Some 0) (snd (projr (ipconfig_enable (Some 0) (snd (snd ex_replug))))))))"

theorem enabled_again_dangles_witness:
  "ipconfig_newlink ex_ip_env 2 1 0x10043 None 1500 no_stats ex_world3 = Inl UseAfterFree"
proof -
  let ?w = "snd (snd ex_replug)"
  let ?c = "the (iw_configs ?w 0)" and ?d = "the (device_of ?w 1)"
  have f: "fst (snd ex_replug) 0 = 1" "ipconfig_list ?w = [0]" "\<not> Option.is_none (iw_configs ?w 0)" "ic_ops ?c = Some [Op_up, Op_lower_up]"
    "ic_type ?c = TYPE_IPV4" "ic_index ?c = 1" "\<not> Option.is_none (device_of ?w 1)" "id_config_ipv4 ?d = None" "id_config_ipv6 ?d = None"
    "slots (devices ?w) = []"
    by code_simp+
  have c: "iw_configs ?w 0 = Some ?c" "device_of ?w (ic_index ?c) = Some ?d" using f(3,7) by (auto simp: Option.is_none_def f(6))
  have g: "0 \<in> set (ipconfig_list ?w)" "ic_type ?c \<noteq> TYPE_ALL" "0 \<le> ic_index ?c" "0 \<notin> set (slots (devices ?w))"
    using f by simp_all
  obtain w1 w2 w3 where w: "ipconfig_enable (Some 0) ?w = Inr (0, w1)" "ipconfig_unref (Some 0) w1 = Inr w2"
      "ipconfig_dellink (ic_index ?c) no_stats w2 = Inr w3"
      "\<forall>env j type flags address mtu stats. type \<noteq> ARPHRD_LOOPBACK \<longrightarrow> device_of w3 j = None \<longrightarrow>
       0 \<le> fst (ip_ask env Ip_alloc w3) \<longrightarrow> flags \<noteq> 0 \<longrightarrow> ipconfig_newlink env j type flags address mtu stats w3 = Inl UseAfterFree"
    using enabled_again_dangles [OF ex_replug_wf f(1) g(1) c(1) f(4) g(2,3) c(2) f(8,9) g(4)] by (elim exE conjE) (rule that)
  have e: "ex_world3 = w3" using w(1-3) by (simp add: f(6))
  have "Option.is_none (device_of ex_world3 2)" "0 \<le> fst (ip_ask ex_ip_env Ip_alloc ex_world3)" by code_simp+
  moreover have "(1 :: u16) \<noteq> ARPHRD_LOOPBACK" "(0x10043 :: u32) \<noteq> 0" by (simp_all add: ARPHRD_LOOPBACK_def)
  ultimately show ?thesis using w(4) unfolding e by (simp add: Option.is_none_def)
qed

end
