(* ===== verification/Rtnl.thy ===== *)
theory Rtnl
  imports Ipconfig_Settings
begin

text \<open>
  The netlink socket of the kernel, \<^verbatim>\<open>src/rtnl.c\<close>: messages as bytes of the receive buffer, the requests, the watches
  and modules that are told about links and routes, and the interfaces as technologies see them. What the kernel reports is
  handed on to the interface configurations, whose state is a field of the state here.
\<close>

section \<open>State\<close>

datatype connman_service_type =
    SERVICE_TYPE_UNKNOWN | SERVICE_TYPE_SYSTEM | SERVICE_TYPE_ETHERNET | SERVICE_TYPE_WIFI | SERVICE_TYPE_WIMAX
  | SERVICE_TYPE_BLUETOOTH | SERVICE_TYPE_CELLULAR | SERVICE_TYPE_GPS | SERVICE_TYPE_VPN | SERVICE_TYPE_GADGET

datatype connman_device_type =
    DEVICE_TYPE_UNKNOWN | DEVICE_TYPE_ETHERNET | DEVICE_TYPE_WIFI | DEVICE_TYPE_WIMAX | DEVICE_TYPE_BLUETOOTH
  | DEVICE_TYPE_CELLULAR | DEVICE_TYPE_GPS | DEVICE_TYPE_GADGET | DEVICE_TYPE_VENDOR

text \<open>A watch and a module; their callbacks are told apart by whether they are null.\<close>

record watch_data =
  wd_id :: u32
  wd_index :: int
  wd_newlink :: bool
  wd_user_data :: nat

record interface_data =
  if_index :: int
  if_name :: "string option"
  if_ident :: string
  if_service_type :: connman_service_type
  if_device_type :: connman_device_type

record connman_rtnl =
  rm_module :: nat
  rm_priority :: int
  rm_newlink :: bool
  rm_dellink :: bool
  rm_newgateway :: bool
  rm_delgateway :: bool

record rtnl_request =
  nr_type :: u16
  nr_seq :: u32

datatype rt_call =
    Rt_alloc
  | Rt_socket
  | Rt_bind
  | Rt_send rtnl_request
  | Rt_timer_add u32
  | Rt_timer_remove nat
  | Technology_add_interface connman_service_type int "string option" string
  | Technology_remove_interface connman_service_type int "string option" string
  | Module_newlink nat u16 int u32 u32
  | Module_dellink nat u16 int u32 u32
  | Module_newgateway nat int string
  | Module_delgateway nat int string
  | Watch_newlink nat u32 u32
  | Resolver_append_lifetime string "string option" string u32

record rt_world =
  watch_list :: "watch_data list"
  watch_id :: u32
  update_list :: "u32 list"
  update_interval :: u32
  update_timeout :: nat
  interface_list :: "(int \<times> interface_data) list option"
  interface_freed :: bool
  rtnl_list :: "connman_rtnl list"
  nl_requests :: "rtnl_request list"
  request_seq :: u32
  channel :: bool
  rt_ip :: ip_world
  rt_trace :: "rt_call list"

text \<open>
  What belongs to the system: results of calls (failures are negative; a timer has the identifier of its call), the lines of a file as \<open>fgets\<close> returns them, the
  wireless ioctl, names of interfaces, \<open>inet_ntop\<close>, and the sorted insertions of GLib.
\<close>

record rt_env =
  re_ip :: ip_env
  re_result :: "nat \<Rightarrow> rt_call \<Rightarrow> int"
  re_lines :: "nat \<Rightarrow> string \<Rightarrow> string list option"
  re_wext :: "nat \<Rightarrow> string \<Rightarrow> bool"
  re_ifname :: "nat \<Rightarrow> int \<Rightarrow> string option"
  re_inet_ntop :: "u8 list \<Rightarrow> string option"
  re_insert_module :: "connman_rtnl \<Rightarrow> connman_rtnl list \<Rightarrow> connman_rtnl list"
  re_insert_interval :: "u32 \<Rightarrow> u32 list \<Rightarrow> u32 list"

abbreviation (input) rt_now :: "rt_world \<Rightarrow> nat" where "rt_now w \<equiv> length (rt_trace w)"

definition rt_tell :: "rt_call \<Rightarrow> rt_world \<Rightarrow> rt_world" where
  "rt_tell c w = w\<lparr>rt_trace := rt_trace w @ [c]\<rparr>"

definition rt_ask :: "rt_env \<Rightarrow> rt_call \<Rightarrow> rt_world \<Rightarrow> int \<times> rt_world" where
  "rt_ask env c w = (re_result env (rt_now w) c, rt_tell c w)"

definition on_ip :: "(ip_world \<Rightarrow> ip_world result) \<Rightarrow> rt_world \<Rightarrow> rt_world result" where
  "on_ip f w = bind_r (f (rt_ip w)) (\<lambda>i. Inr (w\<lparr>rt_ip := i\<rparr>))"

section \<open>Interfaces\<close>

definition free_interface :: "interface_data \<Rightarrow> rt_world \<Rightarrow> rt_world" where
  "free_interface i w = rt_tell (Technology_remove_interface (if_service_type i) (if_index i) (if_name i) (if_ident i)) w"

definition g_str_has_prefix :: "string \<Rightarrow> string \<Rightarrow> bool" where
  "g_str_has_prefix str prefix \<longleftrightarrow> take (length prefix) str = prefix"

definition ether_blacklisted :: "string option \<Rightarrow> bool" where
  "ether_blacklisted name =
     (case name of
        None \<Rightarrow> True
      | Some s \<Rightarrow> g_str_has_prefix s ''vmnet'' \<or> g_str_has_prefix s ''vboxnet'' \<or> g_str_has_prefix s ''virbr'')"

definition devtype :: "string \<Rightarrow> connman_service_type \<times> connman_device_type" where
  "devtype s =
     (if s = ''wlan'' then (SERVICE_TYPE_WIFI, DEVICE_TYPE_WIFI)
      else if s = ''wwan'' then (SERVICE_TYPE_CELLULAR, DEVICE_TYPE_CELLULAR)
      else if s = ''bluetooth'' then (SERVICE_TYPE_BLUETOOTH, DEVICE_TYPE_BLUETOOTH)
      else if s = ''wimax'' then (SERVICE_TYPE_WIMAX, DEVICE_TYPE_WIMAX)
      else if s = ''gadget'' then (SERVICE_TYPE_GADGET, DEVICE_TYPE_GADGET)
      else (SERVICE_TYPE_UNKNOWN, DEVICE_TYPE_UNKNOWN))"

text \<open>The loop over the lines; a line without a newline is skipped, the last \<open>DEVTYPE\<close> counts.\<close>

fun uevent_lines :: "string list \<Rightarrow> (connman_service_type \<times> connman_device_type) option \<Rightarrow> (connman_service_type \<times> connman_device_type) option" where
  "uevent_lines [] found = found"
| "uevent_lines (l # ls) found =
     (if char_of (10 :: nat) \<notin> set l then uevent_lines ls found
      else
        let s = takeWhile (\<lambda>c. c \<noteq> char_of (10 :: nat)) l in
        if \<not> g_str_has_prefix s ''DEVTYPE='' then uevent_lines ls found else uevent_lines ls (Some (devtype (drop 8 s))))"

definition put_types :: "connman_service_type \<times> connman_device_type \<Rightarrow> interface_data \<Rightarrow> interface_data" where
  "put_types t i = i\<lparr>if_service_type := fst t, if_device_type := snd t\<rparr>"

definition uevent_file :: "string option \<Rightarrow> string" where
  "uevent_file name = ''/sys/class/net/'' @ (case name of None \<Rightarrow> ''(null)'' | Some s \<Rightarrow> s) @ ''/uevent''"

definition read_uevent :: "rt_env \<Rightarrow> interface_data \<Rightarrow> rt_world \<Rightarrow> interface_data result" where
  "read_uevent env i w =
     (let i1 = put_types (if ether_blacklisted (if_name i) then (SERVICE_TYPE_UNKNOWN, DEVICE_TYPE_UNKNOWN)
            else (SERVICE_TYPE_ETHERNET, DEVICE_TYPE_ETHERNET)) i in
      case re_lines env (rt_now w) (uevent_file (if_name i)) of
        None \<Rightarrow> Inr i1
      | Some ls \<Rightarrow>
          (case uevent_lines ls None of
             Some t \<Rightarrow> Inr (put_types t i1)
           | None \<Rightarrow>
               (case if_name i of
                  None \<Rightarrow> Inl NullDeref
                | Some s \<Rightarrow> Inr (if re_wext env (rt_now w) s then put_types (SERVICE_TYPE_WIFI, DEVICE_TYPE_WIFI) i1 else i1))))"

text \<open>A lookup in the table; once the table is destroyed, the pointer to it dangles.\<close>

definition interface_of :: "rt_world \<Rightarrow> int \<Rightarrow> interface_data option result" where
  "interface_of w index =
     (if interface_freed w then Inl UseAfterFree
      else Inr (case interface_list w of None \<Rightarrow> None | Some h \<Rightarrow> map_of h index))"

definition rtnl_get_device_type :: "int \<Rightarrow> rt_world \<Rightarrow> connman_device_type result" where
  "rtnl_get_device_type index w =
     bind_r (interface_of w index) (\<lambda>interface.
     Inr (case interface of None \<Rightarrow> DEVICE_TYPE_UNKNOWN | Some i \<Rightarrow> if_device_type i))"

section \<open>Watches and modules\<close>

definition rtnl_add_newlink_watch :: "rt_env \<Rightarrow> int \<Rightarrow> bool \<Rightarrow> nat \<Rightarrow> rt_world \<Rightarrow> u32 \<times> rt_world" where
  "rtnl_add_newlink_watch env index callback user_data w =
     (let (m, w1) = rt_ask env Rt_alloc w in
      if m < 0 then (0, w1)
      else
        let new = watch_id w1 + 1;
            w2 = w1\<lparr>watch_id := new, watch_list := \<lparr>wd_id = new, wd_index = index, wd_newlink = callback, wd_user_data = user_data\<rparr> # watch_list w1\<rparr>;
            flags = ipconfig_get_flags_from_index index (rt_ip w2) in
        (new, if callback \<and> flags > 0 then rt_tell (Watch_newlink user_data flags 0) w2 else w2))"

fun remove_watch :: "u32 \<Rightarrow> watch_data list \<Rightarrow> watch_data list" where
  "remove_watch wid [] = []"
| "remove_watch wid (x # xs) = (if wd_id x = wid then xs else x # remove_watch wid xs)"

definition rtnl_remove_watch :: "u32 \<Rightarrow> rt_world \<Rightarrow> rt_world" where
  "rtnl_remove_watch wid w = (if wid = 0 then w else w\<lparr>watch_list := remove_watch wid (watch_list w)\<rparr>)"

definition trigger_rtnl :: "connman_rtnl \<Rightarrow> int \<Rightarrow> rt_world \<Rightarrow> rt_world result" where
  "trigger_rtnl rtnl index w =
     (let w1 = (if rm_newlink rtnl
            then rt_tell (Module_newlink (rm_module rtnl) (ipconfig_get_type_from_index index (rt_ip w)) index
                   (ipconfig_get_flags_from_index index (rt_ip w)) 0) w
            else w) in
      if rm_newgateway rtnl then
        bind_r (ipconfig_get_gateway_from_index index (rt_ip w1)) (\<lambda>gateway.
        case gateway of None \<Rightarrow> Inr w1 | Some g \<Rightarrow> Inr (rt_tell (Module_newgateway (rm_module rtnl) index g) w1))
      else Inr w1)"

definition rtnl_register :: "rt_env \<Rightarrow> connman_rtnl \<Rightarrow> rt_world \<Rightarrow> (int \<times> rt_world) result" where
  "rtnl_register env rtnl w =
     (let w1 = w\<lparr>rtnl_list := re_insert_module env rtnl (rtnl_list w)\<rparr> in
      bind_r (ipconfig_foreach (\<lambda>index m. bind_r m (trigger_rtnl rtnl index)) (rt_ip w1) (Inr w1)) (\<lambda>w2. Inr (0, w2)))"

definition rtnl_unregister :: "connman_rtnl \<Rightarrow> rt_world \<Rightarrow> rt_world" where
  "rtnl_unregister rtnl w = w\<lparr>rtnl_list := remove1 rtnl (rtnl_list w)\<rparr>"

section \<open>Attributes\<close>

text \<open>Reads from the receive buffer, which was filled with zeros before the message was received.\<close>

definition nl_bytes :: "u8 list \<Rightarrow> nat \<Rightarrow> nat \<Rightarrow> u8 list result" where
  "nl_bytes buf i n = (if i + n \<le> length buf then Inr (take n (drop i buf)) else Inl OutOfBounds)"

definition nl_u8 :: "u8 list \<Rightarrow> nat \<Rightarrow> u8 result" where
  "nl_u8 buf i = bind_r (nl_bytes buf i 1) (\<lambda>bs. Inr (bs ! 0))"

definition nl_u16 :: "u8 list \<Rightarrow> nat \<Rightarrow> u16 result" where
  "nl_u16 buf i = bind_r (nl_bytes buf i 2) (\<lambda>bs. Inr (of_bytes16 bs))"

definition nl_u32 :: "u8 list \<Rightarrow> nat \<Rightarrow> u32 result" where
  "nl_u32 buf i = bind_r (nl_bytes buf i 4) (\<lambda>bs. Inr (of_bytes32 bs))"

definition nl_string :: "u8 list \<Rightarrow> nat \<Rightarrow> string result" where
  "nl_string buf i =
     (if 0 \<in> set (drop i buf) then Inr (map (\<lambda>b. char_of (unat b)) (takeWhile (\<lambda>b. b \<noteq> 0) (drop i buf))) else Inl OutOfBounds)"

text \<open>\<open>RTA_ALIGN\<close>, and the loop \<open>RTA_OK\<close>, \<open>RTA_NEXT\<close>, whose body gets the type and the place of the data.\<close>

definition rta_align :: "u16 \<Rightarrow> nat" where
  "rta_align len = (unat len + 3) div 4 * 4"

function attr_loop :: "(u16 \<Rightarrow> nat \<Rightarrow> 'a \<Rightarrow> 'a result) \<Rightarrow> u8 list \<Rightarrow> nat \<Rightarrow> int \<Rightarrow> 'a \<Rightarrow> 'a result" where
  "attr_loop body buf pos bytes acc =
     (if bytes < 4 then Inr acc
      else
        bind_r (nl_u16 buf pos) (\<lambda>len.
        if unat len < 4 \<or> bytes < int (unat len) then Inr acc
        else
          bind_r (nl_u16 buf (pos + 2)) (\<lambda>type.
          bind_r (body type (pos + 4) acc) (\<lambda>acc1.
          attr_loop body buf (pos + rta_align len) (bytes - int (rta_align len)) acc1))))"
  by pat_completeness auto

termination attr_loop
  by (relation "measure (\<lambda>(body, buf, pos, bytes, acc). nat bytes)") (auto simp: rta_align_def)

declare attr_loop.simps [simp del]

record link_info =
  li_address :: "u8 list"
  li_ifname :: "nat option"
  li_mtu :: u32
  li_operstate :: u8
  li_stats :: rtnl_link_stats

definition stats_of :: "u8 list \<Rightarrow> rtnl_link_stats" where
  "stats_of bs =
     (let field = (\<lambda>i. of_bytes32 (take 4 (drop (4 * i) bs))) in
      \<lparr>ls_rx_packets = field 0, ls_tx_packets = field 1, ls_rx_bytes = field 2, ls_tx_bytes = field 3, ls_rx_errors = field 4,
        ls_tx_errors = field 5, ls_rx_dropped = field 6, ls_tx_dropped = field 7\<rparr>)"

text \<open>The size of the statistics of the kernel: 23 integers.\<close>

definition link_stats_size :: nat where "link_stats_size = 92"

definition IFLA_ADDRESS :: u16 where "IFLA_ADDRESS = 1"
definition IFLA_IFNAME :: u16 where "IFLA_IFNAME = 3"
definition IFLA_MTU :: u16 where "IFLA_MTU = 4"
definition IFLA_STATS :: u16 where "IFLA_STATS = 7"
definition IFLA_OPERSTATE :: u16 where "IFLA_OPERSTATE = 16"

text \<open>The first argument says whether the pointers for the address and the MTU are given.\<close>

definition link_attr :: "bool \<Rightarrow> u8 list \<Rightarrow> u16 \<Rightarrow> nat \<Rightarrow> link_info \<Rightarrow> link_info result" where
  "link_attr all buf type p li =
     (if type = IFLA_ADDRESS then (if all then bind_r (nl_bytes buf p 6) (\<lambda>bs. Inr (li\<lparr>li_address := bs\<rparr>)) else Inr li)
      else if type = IFLA_IFNAME then Inr (li\<lparr>li_ifname := Some p\<rparr>)
      else if type = IFLA_MTU then (if all then bind_r (nl_u32 buf p) (\<lambda>m. Inr (li\<lparr>li_mtu := m\<rparr>)) else Inr li)
      else if type = IFLA_STATS then bind_r (nl_bytes buf p link_stats_size) (\<lambda>bs. Inr (li\<lparr>li_stats := stats_of bs\<rparr>))
      else if type = IFLA_OPERSTATE then bind_r (nl_u8 buf p) (\<lambda>b. Inr (li\<lparr>li_operstate := b\<rparr>))
      else Inr li)"

definition extract_link :: "bool \<Rightarrow> u8 list \<Rightarrow> nat \<Rightarrow> int \<Rightarrow> link_info result" where
  "extract_link all buf msg bytes =
     attr_loop (link_attr all buf) buf (msg + 16) bytes
       \<lparr>li_address = replicate 6 0, li_ifname = None, li_mtu = 0, li_operstate = 0xff, li_stats = no_stats\<rparr>"

section \<open>Links\<close>

definition hex_digit :: "bool \<Rightarrow> nat \<Rightarrow> char" where
  "hex_digit upper n = char_of (if n < 10 then 48 + n else (if upper then 55 else 87) + n)"

definition hex_byte :: "bool \<Rightarrow> u8 \<Rightarrow> string" where
  "hex_byte upper b = [hex_digit upper (unat b div 16), hex_digit upper (unat b mod 16)]"

definition link_ident :: "u8 list \<Rightarrow> string" where
  "link_ident address = concat (map (hex_byte False) address)"

definition link_address :: "u8 list \<Rightarrow> string" where
  "link_address address = hex_byte True (hd address) @ concat (map (\<lambda>b. CHR '':'' # hex_byte True b) (tl address))"

definition ARPHRD_ETHERNET :: u16 where "ARPHRD_ETHERNET = 1"
definition ARPHRD_NONE :: u16 where "ARPHRD_NONE = 0xFFFE"
definition ARPHDR_PHONET_PIPE :: u16 where "ARPHDR_PHONET_PIPE = 821"

definition new_interface :: "rt_env \<Rightarrow> u8 list \<Rightarrow> u16 \<Rightarrow> int \<Rightarrow> link_info \<Rightarrow> rt_world \<Rightarrow> rt_world result" where
  "new_interface env buf type index li w =
     bind_r (case li_ifname li of None \<Rightarrow> Inr None | Some p \<Rightarrow> bind_r (nl_string buf p) (\<lambda>s. Inr (Some s))) (\<lambda>name.
     let i = \<lparr>if_index = index, if_name = name, if_ident = link_ident (li_address li),
           if_service_type = SERVICE_TYPE_UNKNOWN, if_device_type = DEVICE_TYPE_UNKNOWN\<rparr> in
     bind_r (if type = ARPHRD_ETHERNET then read_uevent env i w else Inr i) (\<lambda>i1.
     Inr (rt_tell (Technology_add_interface (if_service_type i1) (if_index i1) (if_name i1) (if_ident i1))
       (w\<lparr>interface_list := map_option (\<lambda>h. h @ [(index, i1)]) (interface_list w)\<rparr>))))"

definition modules_newlink :: "u16 \<Rightarrow> int \<Rightarrow> u32 \<Rightarrow> u32 \<Rightarrow> rt_world \<Rightarrow> rt_world" where
  "modules_newlink type index flags change w =
     w\<lparr>rt_trace := rt_trace w @ map (\<lambda>m. Module_newlink (rm_module m) type index flags change) (filter rm_newlink (rtnl_list w))\<rparr>"

definition watches_newlink :: "int \<Rightarrow> u32 \<Rightarrow> u32 \<Rightarrow> rt_world \<Rightarrow> rt_world" where
  "watches_newlink index flags change w =
     w\<lparr>rt_trace := rt_trace w @ map (\<lambda>x. Watch_newlink (wd_user_data x) flags change)
        (filter (\<lambda>x. wd_index x = index \<and> wd_newlink x) (watch_list w))\<rparr>"

definition process_newlink ::
  "rt_env \<Rightarrow> u16 \<Rightarrow> int \<Rightarrow> u32 \<Rightarrow> u32 \<Rightarrow> u8 list \<Rightarrow> nat \<Rightarrow> int \<Rightarrow> rt_world \<Rightarrow> rt_world result" where
  "process_newlink env type index flags change buf msg bytes w =
     bind_r (extract_link True buf msg bytes) (\<lambda>li.
     bind_r (if type \<in> {ARPHRD_ETHERNET, ARPHRD_LOOPBACK, ARPHDR_PHONET_PIPE, ARPHRD_NONE}
         then on_ip (ipconfig_newlink (re_ip env) index type flags (Some (link_address (li_address li))) (ucast (li_mtu li)) (li_stats li)) w
         else Inr w) (\<lambda>w1.
     bind_r (interface_of w1 index) (\<lambda>interface.
     bind_r (case interface of None \<Rightarrow> new_interface env buf type index li w1 | Some i \<Rightarrow> Inr w1) (\<lambda>w2.
     Inr (watches_newlink index flags change (modules_newlink type index flags change w2))))))"

definition remove_interface :: "int \<Rightarrow> rt_world \<Rightarrow> rt_world result" where
  "remove_interface index w =
     bind_r (interface_of w index) (\<lambda>interface.
     Inr (case interface of
        None \<Rightarrow> w
      | Some i \<Rightarrow> free_interface i (w\<lparr>interface_list := map_option (filter (\<lambda>x. fst x \<noteq> index)) (interface_list w)\<rparr>)))"

definition process_dellink ::
  "rt_env \<Rightarrow> u16 \<Rightarrow> int \<Rightarrow> u32 \<Rightarrow> u32 \<Rightarrow> u8 list \<Rightarrow> nat \<Rightarrow> int \<Rightarrow> rt_world \<Rightarrow> rt_world result" where
  "process_dellink env type index flags change buf msg bytes w =
     bind_r (extract_link False buf msg bytes) (\<lambda>li.
     let w1 = w\<lparr>rt_trace := rt_trace w @ map (\<lambda>m. Module_dellink (rm_module m) type index flags change) (filter rm_dellink (rtnl_list w))\<rparr> in
     bind_r (if type \<in> {ARPHRD_ETHERNET, ARPHRD_LOOPBACK, ARPHRD_NONE} then on_ip (ipconfig_dellink index (li_stats li)) w1 else Inr w1) (\<lambda>w2.
     remove_interface index w2))"

end
