(* ===== verification/Rtnl_Messages.thy ===== *)
theory Rtnl_Messages
  imports Rtnl
begin

text \<open>
  Addresses, routes and router advertisements, the loop over the messages of a datagram, the queue of
  requests and the update interval: the second part of \<^verbatim>\<open>src/rtnl.c\<close>.
\<close>

section \<open>Addresses\<close>

definition IFA_ADDRESS :: u16 where "IFA_ADDRESS = 1"
definition IFA_LOCAL :: u16 where "IFA_LOCAL = 2"

text \<open>
  The local IPv4 address, and the IPv6 address, which has no initial value. (The label is only printed; the other pointers are
  null or their values are not used.)
\<close>

definition extract_ipv4_addr :: "u8 list \<Rightarrow> nat \<Rightarrow> int \<Rightarrow> u8 list result" where
  "extract_ipv4_addr buf msg bytes =
     attr_loop (\<lambda>type p local. if type = IFA_LOCAL then nl_bytes buf p 4 else Inr local) buf (msg + 8) bytes (replicate 4 0)"

definition extract_ipv6_addr :: "u8 list \<Rightarrow> nat \<Rightarrow> int \<Rightarrow> u8 list option result" where
  "extract_ipv6_addr buf msg bytes =
     attr_loop (\<lambda>type p address.
         if type = IFA_ADDRESS then bind_r (nl_bytes buf p 16) (\<lambda>bs. Inr (Some bs))
         else if type = IFA_LOCAL then bind_r (nl_bytes buf p 16) (\<lambda>bs. Inr address)
         else Inr address) buf (msg + 8) bytes None"

definition link_local :: "u8 list \<Rightarrow> bool" where
  "link_local a \<longleftrightarrow> a ! 0 = 0xFE \<and> a ! 1 AND 0xC0 = 0x80"

text \<open>The address of a message as a string; none when the message is to be ignored.\<close>

definition message_address :: "rt_env \<Rightarrow> u8 \<Rightarrow> u8 list \<Rightarrow> nat \<Rightarrow> int \<Rightarrow> string option result" where
  "message_address env family buf msg bytes =
     (if uint family = AF_INET then bind_r (extract_ipv4_addr buf msg bytes) (\<lambda>a. Inr (re_inet_ntop env a))
      else if uint family = AF_INET6 then
        bind_r (extract_ipv6_addr buf msg bytes) (\<lambda>x.
        case x of
          None \<Rightarrow> Inl Uninitialised
        | Some a \<Rightarrow> if link_local a then Inr None else Inr (re_inet_ntop env a))
      else Inr None)"

definition process_newaddr :: "rt_env \<Rightarrow> u8 \<Rightarrow> u8 \<Rightarrow> int \<Rightarrow> u8 list \<Rightarrow> nat \<Rightarrow> int \<Rightarrow> rt_world \<Rightarrow> rt_world result" where
  "process_newaddr env family prefixlen index buf msg bytes w =
     bind_r (message_address env family buf msg bytes) (\<lambda>s.
     case s of
       None \<Rightarrow> Inr w
     | Some ip \<Rightarrow> on_ip (ipconfig_newaddr (re_ip env) index (uint family) prefixlen (Some ip)) w)"

definition process_deladdr :: "rt_env \<Rightarrow> u8 \<Rightarrow> u8 \<Rightarrow> int \<Rightarrow> u8 list \<Rightarrow> nat \<Rightarrow> int \<Rightarrow> rt_world \<Rightarrow> rt_world result" where
  "process_deladdr env family prefixlen index buf msg bytes w =
     bind_r (message_address env family buf msg bytes) (\<lambda>s.
     case s of
       None \<Rightarrow> Inr w
     | Some ip \<Rightarrow> on_ip (ipconfig_deladdr index (uint family) prefixlen (Some ip)) w)"

section \<open>Routes\<close>

definition RTA_DST :: u16 where "RTA_DST = 1"
definition RTA_OIF :: u16 where "RTA_OIF = 4"
definition RTA_GATEWAY :: u16 where "RTA_GATEWAY = 5"
definition RT_SCOPE_UNIVERSE :: u8 where "RT_SCOPE_UNIVERSE = 0"
definition RT_SCOPE_LINK :: u8 where "RT_SCOPE_LINK = 253"

record route_info =
  ro_index :: int
  ro_dst :: "u8 list"
  ro_gateway :: "u8 list"

text \<open>\<open>extract_ipv4_route\<close> and \<open>extract_ipv6_route\<close> are the same function for addresses of 4 and of 16 bytes.\<close>

definition extract_route :: "nat \<Rightarrow> u8 list \<Rightarrow> nat \<Rightarrow> int \<Rightarrow> route_info result" where
  "extract_route n buf msg bytes =
     attr_loop (\<lambda>type p ro.
         if type = RTA_DST then bind_r (nl_bytes buf p n) (\<lambda>bs. Inr (ro\<lparr>ro_dst := bs\<rparr>))
         else if type = RTA_GATEWAY then bind_r (nl_bytes buf p n) (\<lambda>bs. Inr (ro\<lparr>ro_gateway := bs\<rparr>))
         else if type = RTA_OIF then bind_r (nl_u32 buf p) (\<lambda>i. Inr (ro\<lparr>ro_index := sint i\<rparr>))
         else Inr ro) buf (msg + 12) bytes \<lparr>ro_index = - 1, ro_dst = replicate n 0, ro_gateway = replicate n 0\<rparr>"

definition family_bytes :: "u8 \<Rightarrow> nat option" where
  "family_bytes family = (if uint family = AF_INET then Some 4 else if uint family = AF_INET6 then Some 16 else None)"

definition default_route :: "u8 \<Rightarrow> u8 list \<Rightarrow> bool" where
  "default_route scope dst \<longleftrightarrow> (scope = RT_SCOPE_UNIVERSE \<or> scope = RT_SCOPE_LINK) \<and> (\<forall>b \<in> set dst. b = 0)"

text \<open>The result of \<open>inet_ntop\<close> is not checked: on a failure the array of the string is not initialised.\<close>

definition route_string :: "rt_env \<Rightarrow> u8 list \<Rightarrow> string result" where
  "route_string env a = (case re_inet_ntop env a of None \<Rightarrow> Inl Uninitialised | Some s \<Rightarrow> Inr s)"

definition process_newroute :: "rt_env \<Rightarrow> u8 \<Rightarrow> u8 \<Rightarrow> u8 list \<Rightarrow> nat \<Rightarrow> int \<Rightarrow> rt_world \<Rightarrow> rt_world result" where
  "process_newroute env family scope buf msg bytes w =
     (case family_bytes family of
        None \<Rightarrow> Inr w
      | Some n \<Rightarrow>
          bind_r (extract_route n buf msg bytes) (\<lambda>ro.
          bind_r (route_string env (ro_dst ro)) (\<lambda>dst.
          bind_r (route_string env (ro_gateway ro)) (\<lambda>gateway.
          bind_r (on_ip (ipconfig_newroute (ro_index ro) (uint family) scope (Some dst) (Some gateway)) w) (\<lambda>w1.
          if \<not> default_route scope (ro_dst ro) then Inr w1
          else Inr (w1\<lparr>rt_trace := rt_trace w1 @ map (\<lambda>m. Module_newgateway (rm_module m) (ro_index ro) gateway)
                 (filter rm_newgateway (rtnl_list w1))\<rparr>))))))"

definition process_delroute :: "rt_env \<Rightarrow> u8 \<Rightarrow> u8 \<Rightarrow> u8 list \<Rightarrow> nat \<Rightarrow> int \<Rightarrow> rt_world \<Rightarrow> rt_world result" where
  "process_delroute env family scope buf msg bytes w =
     (case family_bytes family of
        None \<Rightarrow> Inr w
      | Some n \<Rightarrow>
          bind_r (extract_route n buf msg bytes) (\<lambda>ro.
          bind_r (route_string env (ro_dst ro)) (\<lambda>dst.
          bind_r (route_string env (ro_gateway ro)) (\<lambda>gateway.
          bind_r (on_ip (ipconfig_delroute (ro_index ro) (uint family) scope (Some dst) (Some gateway)) w) (\<lambda>w1.
          if \<not> default_route scope (ro_dst ro) then Inr w1
          else Inr (w1\<lparr>rt_trace := rt_trace w1 @ map (\<lambda>m. Module_delgateway (rm_module m) (ro_index ro) gateway)
                 (filter rm_delgateway (rtnl_list w1))\<rparr>))))))"

section \<open>Handlers of messages\<close>

text \<open>
  A handler gets the place of the message header; the data follow it. The numbers of bytes are those of the
  macros \<open>IFA_PAYLOAD\<close> (also for links, whose header is 8 bytes longer) and \<open>RTM_PAYLOAD\<close>.
\<close>

definition ifa_payload :: "u32 \<Rightarrow> int" where "ifa_payload len = sint (len - 24)"
definition rtm_payload :: "u32 \<Rightarrow> int" where "rtm_payload len = sint (len - 28)"

definition link_message ::
  "u8 list \<Rightarrow> nat \<Rightarrow> (u16 \<Rightarrow> int \<Rightarrow> u32 \<Rightarrow> u32 \<Rightarrow> int \<Rightarrow> rt_world \<Rightarrow> rt_world result) \<Rightarrow> rt_world \<Rightarrow> rt_world result" where
  "link_message buf hdr f w =
     bind_r (nl_u32 buf hdr) (\<lambda>len.
     bind_r (nl_u16 buf (hdr + 18)) (\<lambda>type.
     bind_r (nl_u32 buf (hdr + 20)) (\<lambda>index.
     bind_r (nl_u32 buf (hdr + 24)) (\<lambda>flags.
     bind_r (nl_u32 buf (hdr + 28)) (\<lambda>change.
     f type (sint index) flags change (ifa_payload len) w)))))"

definition rtnl_newlink :: "rt_env \<Rightarrow> u8 list \<Rightarrow> nat \<Rightarrow> rt_world \<Rightarrow> rt_world result" where
  "rtnl_newlink env buf hdr w =
     link_message buf hdr (\<lambda>type index flags change bytes. process_newlink env type index flags change buf (hdr + 16) bytes) w"

definition rtnl_dellink :: "rt_env \<Rightarrow> u8 list \<Rightarrow> nat \<Rightarrow> rt_world \<Rightarrow> rt_world result" where
  "rtnl_dellink env buf hdr w =
     link_message buf hdr (\<lambda>type index flags change bytes. process_dellink env type index flags change buf (hdr + 16) bytes) w"

definition addr_message :: "u8 list \<Rightarrow> nat \<Rightarrow> (u8 \<Rightarrow> u8 \<Rightarrow> int \<Rightarrow> int \<Rightarrow> rt_world \<Rightarrow> rt_world result) \<Rightarrow> rt_world \<Rightarrow> rt_world result" where
  "addr_message buf hdr f w =
     bind_r (nl_u32 buf hdr) (\<lambda>len.
     bind_r (nl_u8 buf (hdr + 16)) (\<lambda>family.
     bind_r (nl_u8 buf (hdr + 17)) (\<lambda>prefixlen.
     bind_r (nl_u32 buf (hdr + 20)) (\<lambda>index.
     f family prefixlen (sint index) (ifa_payload len) w))))"

definition rtnl_newaddr :: "rt_env \<Rightarrow> u8 list \<Rightarrow> nat \<Rightarrow> rt_world \<Rightarrow> rt_world result" where
  "rtnl_newaddr env buf hdr w =
     addr_message buf hdr (\<lambda>family prefixlen index bytes. process_newaddr env family prefixlen index buf (hdr + 16) bytes) w"

definition rtnl_deladdr :: "rt_env \<Rightarrow> u8 list \<Rightarrow> nat \<Rightarrow> rt_world \<Rightarrow> rt_world result" where
  "rtnl_deladdr env buf hdr w =
     addr_message buf hdr (\<lambda>family prefixlen index bytes. process_deladdr env family prefixlen index buf (hdr + 16) bytes) w"

definition RT_TABLE_MAIN :: u8 where "RT_TABLE_MAIN = 254"
definition RTPROT_KERNEL :: u8 where "RTPROT_KERNEL = 2"
definition RTPROT_BOOT :: u8 where "RTPROT_BOOT = 3"
definition RTN_UNICAST :: u8 where "RTN_UNICAST = 1"

definition is_route_rtmsg :: "u8 list \<Rightarrow> nat \<Rightarrow> bool result" where
  "is_route_rtmsg buf msg =
     bind_r (nl_u8 buf (msg + 4)) (\<lambda>table.
     if table \<noteq> RT_TABLE_MAIN then Inr False
     else
       bind_r (nl_u8 buf (msg + 5)) (\<lambda>protocol.
       if protocol \<noteq> RTPROT_BOOT \<and> protocol \<noteq> RTPROT_KERNEL then Inr False
       else bind_r (nl_u8 buf (msg + 7)) (\<lambda>type. Inr (type = RTN_UNICAST))))"

definition route_message :: "u8 list \<Rightarrow> nat \<Rightarrow> (u8 \<Rightarrow> u8 \<Rightarrow> int \<Rightarrow> rt_world \<Rightarrow> rt_world result) \<Rightarrow> rt_world \<Rightarrow> rt_world result" where
  "route_message buf hdr f w =
     bind_r (is_route_rtmsg buf (hdr + 16)) (\<lambda>yes.
     if \<not> yes then Inr w
     else
       bind_r (nl_u32 buf hdr) (\<lambda>len.
       bind_r (nl_u8 buf (hdr + 16)) (\<lambda>family.
       bind_r (nl_u8 buf (hdr + 22)) (\<lambda>scope.
       f family scope (rtm_payload len) w))))"

definition rtnl_newroute :: "rt_env \<Rightarrow> u8 list \<Rightarrow> nat \<Rightarrow> rt_world \<Rightarrow> rt_world result" where
  "rtnl_newroute env buf hdr w = route_message buf hdr (\<lambda>family scope bytes. process_newroute env family scope buf (hdr + 16) bytes) w"

definition rtnl_delroute :: "rt_env \<Rightarrow> u8 list \<Rightarrow> nat \<Rightarrow> rt_world \<Rightarrow> rt_world result" where
  "rtnl_delroute env buf hdr w = route_message buf hdr (\<lambda>family scope bytes. process_delroute env family scope buf (hdr + 16) bytes) w"

section \<open>Options of router advertisements\<close>

definition min_lifetime :: "u8 list \<Rightarrow> nat \<Rightarrow> u32 \<Rightarrow> u32 result" where
  "min_lifetime buf opt lifetime = bind_r (nl_u32 buf (opt + 4)) (\<lambda>l. Inr (if lifetime > htonl l then htonl l else lifetime))"

text \<open>The place of the addresses of servers (none is the null pointer), the new lifetime and the new number of servers.\<close>

definition rtnl_nd_opt_rdnss :: "u8 list \<Rightarrow> nat \<Rightarrow> u32 \<Rightarrow> nat \<Rightarrow> (nat option \<times> u32 \<times> nat) result" where
  "rtnl_nd_opt_rdnss buf opt lifetime nr_servers =
     bind_r (nl_u8 buf (opt + 1)) (\<lambda>len.
     if unat len < 3 then Inr (None, lifetime, nr_servers)
     else bind_r (min_lifetime buf opt lifetime) (\<lambda>l. Inr (Some (opt + 8), l, unat len div 2)))"

text \<open>
  The first loop of \<open>rtnl_nd_opt_dnssl\<close> counts the domains and replaces the lengths of labels by dots; no number stands for
  the return of a null pointer.
\<close>

function dnssl_scan :: "u8 list \<Rightarrow> nat \<Rightarrow> nat \<Rightarrow> nat \<Rightarrow> nat \<Rightarrow> (nat option \<times> u8 list) result" where
  "dnssl_scan buf optc data_len i nr_domains =
     (if i < data_len then
        bind_r (nl_u8 buf (optc + i)) (\<lambda>b.
        if b > 0x3f then Inr (None, buf)
        else if b = 0 then
          (if i + 1 < data_len then
             bind_r (nl_u8 buf (optc + i + 1)) (\<lambda>c.
             if c = 0 then Inr (Some (nr_domains + 1), buf) else dnssl_scan buf optc data_len (i + 1) (nr_domains + 1))
           else Inr (Some (nr_domains + 1), buf))
        else if i + unat b + 1 \<ge> data_len then Inr (None, buf)
        else dnssl_scan (buf[optc + i := 0x2e]) optc data_len (i + unat b + 1) nr_domains)
      else Inr (Some nr_domains, buf))"
  by pat_completeness auto

termination dnssl_scan
  by (relation "measure (\<lambda>(buf, optc, data_len, i, nr_domains). data_len - i)") auto

declare dnssl_scan.simps [simp del]

fun dnssl_domains :: "u8 list \<Rightarrow> nat \<Rightarrow> nat \<Rightarrow> nat list result" where
  "dnssl_domains buf optc 0 = Inr []"
| "dnssl_domains buf optc (Suc n) =
     bind_r (nl_string buf optc) (\<lambda>s. bind_r (dnssl_domains buf (optc + length s + 1) n) (\<lambda>ds. Inr ((optc + 1) # ds)))"

definition rtnl_nd_opt_dnssl :: "rt_env \<Rightarrow> u8 list \<Rightarrow> nat \<Rightarrow> u32 \<Rightarrow> rt_world \<Rightarrow> (nat list option \<times> u32 \<times> u8 list \<times> rt_world) result" where
  "rtnl_nd_opt_dnssl env buf opt lifetime w =
     bind_r (nl_u8 buf (opt + 1)) (\<lambda>len.
     bind_r (min_lifetime buf opt lifetime) (\<lambda>l.
     bind_r (dnssl_scan buf (opt + 8) (unat len * 8 - 8) 0 0) (\<lambda>(n, buf1).
     case n of
       None \<Rightarrow> Inr (None, l, buf1, w)
     | Some nr_domains \<Rightarrow>
         let (m, w1) = rt_ask env Rt_alloc w in
         if m < 0 then Inr (None, l, buf1, w1)
         else bind_r (dnssl_domains buf1 (opt + 8) nr_domains) (\<lambda>ds. Inr (Some ds, l, buf1, w1)))))"

record nd_state =
  nd_buf :: "u8 list"
  nd_lifetime :: u32
  nd_domains :: "nat list option"
  nd_servers :: "nat option"
  nd_nr_servers :: nat

definition nd_option :: "rt_env \<Rightarrow> nat \<Rightarrow> nd_state \<times> rt_world \<Rightarrow> (nd_state \<times> rt_world) result" where
  "nd_option env opt x =
     (let (s, w) = x in
      bind_r (nl_u8 (nd_buf s) opt) (\<lambda>type.
      if type = 25 then
        bind_r (rtnl_nd_opt_rdnss (nd_buf s) opt (nd_lifetime s) (nd_nr_servers s)) (\<lambda>(p, l, n).
        Inr (s\<lparr>nd_servers := p, nd_lifetime := l, nd_nr_servers := n\<rparr>, w))
      else if type = 31 then
        bind_r (rtnl_nd_opt_dnssl env (nd_buf s) opt (nd_lifetime s) w) (\<lambda>(ds, l, buf1, w1).
        Inr (s\<lparr>nd_domains := ds, nd_lifetime := l, nd_buf := buf1\<rparr>, w1))
      else Inr (s, w)))"

text \<open>
  The loop over the options. The message length is in bytes, the length of an option in units of 8 bytes; the code
  compares and subtracts them as they are. (The body does not write to the header of an option, so its length is read once.)
\<close>

function nd_loop :: "rt_env \<Rightarrow> nat \<Rightarrow> nat \<Rightarrow> nd_state \<times> rt_world \<Rightarrow> (nd_state \<times> rt_world) result" where
  "nd_loop env opt msglen x =
     (if msglen < 2 then Inr x
      else
        bind_r (nl_u8 (nd_buf (fst x)) (opt + 1)) (\<lambda>len.
        if msglen < unat len \<or> len = 0 then Inr x
        else
          bind_r (nd_option env opt x) (nd_loop env (opt + unat len * 8) (msglen - unat len))))"
  by pat_completeness auto

termination nd_loop
  by (relation "measure (\<lambda>(env, opt, msglen, x). msglen)") (auto simp: unat_gt_0)

declare nd_loop.simps [simp del]

fun append_domains :: "u8 list \<Rightarrow> string \<Rightarrow> nat list \<Rightarrow> string \<Rightarrow> u32 \<Rightarrow> rt_world \<Rightarrow> rt_world result" where
  "append_domains buf interface [] server lifetime w = Inr w"
| "append_domains buf interface (d # ds) server lifetime w =
     bind_r (nl_string buf d) (\<lambda>s.
     append_domains buf interface ds server lifetime (rt_tell (Resolver_append_lifetime interface (Some s) server lifetime) w))"

fun append_servers :: "rt_env \<Rightarrow> nd_state \<Rightarrow> string \<Rightarrow> nat \<Rightarrow> nat \<Rightarrow> rt_world \<Rightarrow> rt_world result" where
  "append_servers env s interface p 0 w = Inr w"
| "append_servers env s interface p (Suc n) w =
     bind_r (nl_bytes (nd_buf s) p 16) (\<lambda>a.
     bind_r (case re_inet_ntop env a of
         None \<Rightarrow> Inr w
       | Some server \<Rightarrow>
           (case nd_domains s of
              None \<Rightarrow> Inr (rt_tell (Resolver_append_lifetime interface None server (nd_lifetime s)) w)
            | Some [] \<Rightarrow> Inr (rt_tell (Resolver_append_lifetime interface None server (nd_lifetime s)) w)
            | Some ds \<Rightarrow> append_domains (nd_buf s) interface ds server (nd_lifetime s) w))
       (append_servers env s interface (p + 16) n))"

definition ND_ROUTER_ADVERT :: u8 where "ND_ROUTER_ADVERT = 134"

definition rtnl_newnduseropt :: "rt_env \<Rightarrow> u8 list \<Rightarrow> nat \<Rightarrow> rt_world \<Rightarrow> (u8 list \<times> rt_world) result" where
  "rtnl_newnduseropt env buf hdr w =
     bind_r (nl_u16 buf (hdr + 18)) (\<lambda>opts_len.
     bind_r (nl_u8 buf (hdr + 16)) (\<lambda>family.
     bind_r (nl_u8 buf (hdr + 24)) (\<lambda>icmp_type.
     bind_r (nl_u8 buf (hdr + 25)) (\<lambda>icmp_code.
     if uint family \<noteq> AF_INET6 \<or> icmp_type \<noteq> ND_ROUTER_ADVERT \<or> icmp_code \<noteq> 0 then Inr (buf, w)
     else
       bind_r (nl_u32 buf (hdr + 20)) (\<lambda>index.
       case re_ifname env (rt_now w) (sint index) of
         None \<Rightarrow> Inr (buf, w)
       | Some interface \<Rightarrow>
           bind_r (nd_loop env (hdr + 32) (unat opts_len)
             (\<lparr>nd_buf = buf, nd_lifetime = - 1, nd_domains = None, nd_servers = None, nd_nr_servers = 0\<rparr>, w)) (\<lambda>(s, w1).
           if nd_nr_servers s = 0 then Inr (nd_buf s, w1)
           else
             (case nd_servers s of
                None \<Rightarrow> Inl NullDeref
              | Some p \<Rightarrow> bind_r (append_servers env s interface p (nd_nr_servers s) w1) (\<lambda>w2. Inr (nd_buf s, w2)))))))))"

section \<open>Requests\<close>

definition RTM_GETLINK :: u16 where "RTM_GETLINK = 18"
definition RTM_GETADDR :: u16 where "RTM_GETADDR = 22"
definition RTM_GETROUTE :: u16 where "RTM_GETROUTE = 26"

definition find_rtnl_request :: "u32 \<Rightarrow> rt_world \<Rightarrow> rtnl_request option" where
  "find_rtnl_request seq w = find (\<lambda>r. nr_seq r = seq) (nl_requests w)"

definition send_rtnl_request :: "rt_env \<Rightarrow> rtnl_request \<Rightarrow> rt_world \<Rightarrow> (int \<times> rt_world) result" where
  "send_rtnl_request env req w = (if \<not> channel w then Inl NullDeref else Inr (rt_ask env (Rt_send req) w))"

definition queue_request :: "rt_env \<Rightarrow> rtnl_request \<Rightarrow> rt_world \<Rightarrow> (int \<times> rt_world) result" where
  "queue_request env req w =
     (let w1 = w\<lparr>nl_requests := nl_requests w @ [req]\<rparr> in
      if length (nl_requests w1) > 1 then Inr (0, w1) else send_rtnl_request env req w1)"

definition process_response :: "rt_env \<Rightarrow> u32 \<Rightarrow> rt_world \<Rightarrow> (int \<times> rt_world) result" where
  "process_response env seq w =
     (let w1 = (case find_rtnl_request seq w of None \<Rightarrow> w | Some req \<Rightarrow> w\<lparr>nl_requests := remove1 req (nl_requests w)\<rparr>) in
      case nl_requests w1 of [] \<Rightarrow> Inr (0, w1) | req # reqs \<Rightarrow> send_rtnl_request env req w1)"

definition new_request :: "rt_env \<Rightarrow> u16 \<Rightarrow> rt_world \<Rightarrow> (int \<times> rt_world) result" where
  "new_request env type w =
     (let (m, w1) = rt_ask env Rt_alloc w in
      if m < 0 then Inr (- ENOMEM, w1)
      else queue_request env \<lparr>nr_type = type, nr_seq = request_seq w1\<rparr> (w1\<lparr>request_seq := request_seq w1 + 1\<rparr>))"

definition send_getlink :: "rt_env \<Rightarrow> rt_world \<Rightarrow> (int \<times> rt_world) result" where
  "send_getlink env w = new_request env RTM_GETLINK w"

definition send_getaddr :: "rt_env \<Rightarrow> rt_world \<Rightarrow> (int \<times> rt_world) result" where
  "send_getaddr env w = new_request env RTM_GETADDR w"

definition send_getroute :: "rt_env \<Rightarrow> rt_world \<Rightarrow> (int \<times> rt_world) result" where
  "send_getroute env w = new_request env RTM_GETROUTE w"

definition rtnl_request_update :: "rt_env \<Rightarrow> rt_world \<Rightarrow> (int \<times> rt_world) result" where
  "rtnl_request_update env w = send_getlink env w"

definition rtnl_start :: "rt_env \<Rightarrow> rt_world \<Rightarrow> rt_world result" where
  "rtnl_start env w =
     bind_r (send_getlink env w) (\<lambda>(r1, w1). bind_r (send_getaddr env w1) (\<lambda>(r2, w2). bind_r (send_getroute env w2) (\<lambda>(r3, w3). Inr w3)))"

section \<open>Datagrams\<close>

definition NLMSG_NOOP :: u16 where "NLMSG_NOOP = 1"
definition NLMSG_ERROR :: u16 where "NLMSG_ERROR = 2"
definition NLMSG_DONE :: u16 where "NLMSG_DONE = 3"
definition NLMSG_OVERRUN :: u16 where "NLMSG_OVERRUN = 4"
definition RTM_NEWLINK :: u16 where "RTM_NEWLINK = 16"
definition RTM_DELLINK :: u16 where "RTM_DELLINK = 17"
definition RTM_NEWADDR :: u16 where "RTM_NEWADDR = 20"
definition RTM_DELADDR :: u16 where "RTM_DELADDR = 21"
definition RTM_NEWROUTE :: u16 where "RTM_NEWROUTE = 24"
definition RTM_DELROUTE :: u16 where "RTM_DELROUTE = 25"
definition RTM_NEWNDUSEROPT :: u16 where "RTM_NEWNDUSEROPT = 68"

text \<open>One message; the first component says whether the code returns after it.\<close>

definition handle_one :: "rt_env \<Rightarrow> u16 \<Rightarrow> nat \<Rightarrow> u8 list \<Rightarrow> rt_world \<Rightarrow> (bool \<times> u8 list \<times> rt_world) result" where
  "handle_one env type hdr buf w =
     (let plain = (\<lambda>m. bind_r m (\<lambda>w1. Inr (False, buf, w1))) in
      if type = NLMSG_NOOP \<or> type = NLMSG_OVERRUN then Inr (True, buf, w)
      else if type = NLMSG_DONE then
        bind_r (nl_u32 buf (hdr + 8)) (\<lambda>seq. bind_r (process_response env seq w) (\<lambda>(r, w1). Inr (True, buf, w1)))
      else if type = NLMSG_ERROR then Inr (True, buf, w)
      else if type = RTM_NEWLINK then plain (rtnl_newlink env buf hdr w)
      else if type = RTM_DELLINK then plain (rtnl_dellink env buf hdr w)
      else if type = RTM_NEWADDR then plain (rtnl_newaddr env buf hdr w)
      else if type = RTM_DELADDR then plain (rtnl_deladdr env buf hdr w)
      else if type = RTM_NEWROUTE then plain (rtnl_newroute env buf hdr w)
      else if type = RTM_DELROUTE then plain (rtnl_delroute env buf hdr w)
      else if type = RTM_NEWNDUSEROPT then bind_r (rtnl_newnduseropt env buf hdr w) (\<lambda>x. Inr (False, x))
      else Inr (False, buf, w))"

function rtnl_message :: "rt_env \<Rightarrow> nat \<Rightarrow> nat \<Rightarrow> u8 list \<Rightarrow> rt_world \<Rightarrow> rt_world result" where
  "rtnl_message env hdr len buf w =
     (if len < 16 then Inr w
      else
        bind_r (nl_u32 buf hdr) (\<lambda>n.
        if unat n < 16 \<or> len < unat n then Inr w
        else
          bind_r (nl_u16 buf (hdr + 4)) (\<lambda>type.
          bind_r (handle_one env type hdr buf w) (\<lambda>(stop, buf1, w1).
          if stop then Inr w1 else rtnl_message env (hdr + unat n) (len - unat n) buf1 w1))))"
  by pat_completeness auto

termination rtnl_message
  by (relation "measure (\<lambda>(env, hdr, len, buf, w). len)") auto

declare rtnl_message.simps [simp del]

text \<open>What the watch of the socket sees: a condition, and the result of \<open>recvfrom\<close> with the process that sent the bytes.\<close>

datatype nl_recv = Nl_data "u8 list" u32 | Nl_again | Nl_failed

definition netlink_event :: "rt_env \<Rightarrow> bool \<Rightarrow> nl_recv \<Rightarrow> rt_world \<Rightarrow> (bool \<times> rt_world) result" where
  "netlink_event env error recv w =
     (if error then Inr (False, w)
      else
        case recv of
          Nl_again \<Rightarrow> Inr (True, w)
        | Nl_failed \<Rightarrow> Inr (False, w)
        | Nl_data bs pid \<Rightarrow>
            if bs = [] then Inr (False, w)
            else if pid \<noteq> 0 then Inr (True, w)
            else
              let buf = take 4096 (bs @ replicate 4096 0) in
              bind_r (rtnl_message env 0 (min (length bs) 4096) buf w) (\<lambda>w1. Inr (True, w1)))"

section \<open>The update interval\<close>

definition update_interval_callback :: "rt_env \<Rightarrow> u32 \<Rightarrow> rt_world \<Rightarrow> rt_world" where
  "update_interval_callback env minimum w =
     (let w1 = (if update_timeout w > 0 then rt_tell (Rt_timer_remove (update_timeout w)) w else w) in
      if minimum < - 1 then
        let (t, w2) = rt_ask env (Rt_timer_add minimum) w1 in w2\<lparr>update_interval := minimum, update_timeout := nat t\<rparr>
      else w1\<lparr>update_interval := - 1, update_timeout := 0\<rparr>)"

definition update_timeout_cb :: "rt_env \<Rightarrow> rt_world \<Rightarrow> (bool \<times> rt_world) result" where
  "update_timeout_cb env w = bind_r (rtnl_request_update env w) (\<lambda>(r, w1). Inr (True, w1))"

definition rtnl_update_interval_add :: "rt_env \<Rightarrow> u32 \<Rightarrow> rt_world \<Rightarrow> (u32 \<times> rt_world) result" where
  "rtnl_update_interval_add env interval w =
     (if interval = 0 then Inr (0, w)
      else
        let w1 = w\<lparr>update_list := re_insert_interval env interval (update_list w)\<rparr>;
            minimum = (case update_list w1 of [] \<Rightarrow> 0 | x # xs \<Rightarrow> x) in
        if minimum < update_interval w1 then
          bind_r (rtnl_request_update env (update_interval_callback env minimum w1)) (\<lambda>(r, w2). Inr (update_interval w2, w2))
        else Inr (update_interval w1, w1))"

definition rtnl_update_interval_remove :: "rt_env \<Rightarrow> u32 \<Rightarrow> rt_world \<Rightarrow> u32 \<times> rt_world" where
  "rtnl_update_interval_remove env interval w =
     (if interval = 0 then (0, w)
      else
        let w1 = w\<lparr>update_list := remove1 interval (update_list w)\<rparr>;
            minimum = (case update_list w1 of [] \<Rightarrow> - 1 | x # xs \<Rightarrow> x) in
        (minimum, if minimum > update_interval w1 then update_interval_callback env minimum w1 else w1))"

section \<open>Start and end\<close>

definition rtnl_init :: "rt_env \<Rightarrow> rt_world \<Rightarrow> int \<times> rt_world" where
  "rtnl_init env w =
     (let (sk, w1) = rt_ask env Rt_socket (w\<lparr>interface_list := Some [], interface_freed := False\<rparr>) in
      if sk < 0 then (- 1, w1)
      else let (r, w2) = rt_ask env Rt_bind w1 in if r < 0 then (- 1, w2) else (0, w2\<lparr>channel := True\<rparr>))"

text \<open>The cleanup destroys the table of interfaces and does not reset the pointer to it; the update timer stays.\<close>

definition rtnl_cleanup :: "((int \<times> interface_data) list \<Rightarrow> (int \<times> interface_data) list) \<Rightarrow> rt_world \<Rightarrow> rt_world result" where
  "rtnl_cleanup order w =
     (let w1 = w\<lparr>watch_list := [], update_list := [], nl_requests := [], channel := False\<rparr> in
      if interface_freed w1 then Inl UseAfterFree
      else Inr (case interface_list w1 of
          None \<Rightarrow> w1
        | Some h \<Rightarrow> fold (\<lambda>x. free_interface (snd x)) (order h) (w1\<lparr>interface_list := None, interface_freed := True\<rparr>)))"

end
