(* ===== verification/Rtnl_Format.thy ===== *)
theory Rtnl_Format
  imports Rtnl_Messages
begin

text \<open>
  The format of netlink messages, and what the handlers of \<^verbatim>\<open>src/rtnl.c\<close> do with messages of that format: attributes,
  messages one after the other in a datagram, and the search domains of router advertisements.
\<close>

section \<open>Reads\<close>

lemma nl_bytes_at: "length xs = n \<Longrightarrow> nl_bytes (pre @ xs @ rest) (length pre) n = Inr xs"
  by (simp add: nl_bytes_def)

lemma nl_bytes_split:
  assumes "buf = pre @ xs @ rest" and "i = length pre" and "n = length xs"
  shows "nl_bytes buf i n = Inr xs"
  using assms by (simp add: nl_bytes_at)

lemma nl_bytes_prefix:
  assumes "buf = pre @ xs @ rest" and "i = length pre" and "n \<le> length xs"
  shows "nl_bytes buf i n = Inr (take n xs)"
  using assms by (simp add: nl_bytes_def)

lemma nl_u8_at: "buf = pre @ b # rest \<Longrightarrow> i = length pre \<Longrightarrow> nl_u8 buf i = Inr b"
  by (simp add: nl_u8_def nl_bytes_def)

lemma nl_u16_at: "buf = pre @ bytes16 v @ rest \<Longrightarrow> i = length pre \<Longrightarrow> nl_u16 buf i = Inr v"
  by (simp add: nl_u16_def nl_bytes_split [of _ pre "bytes16 v" rest] of_bytes16_bytes16)

lemma nl_u32_at: "buf = pre @ bytes32 v @ rest \<Longrightarrow> i = length pre \<Longrightarrow> nl_u32 buf i = Inr v"
  by (simp add: nl_u32_def nl_bytes_split [of _ pre "bytes32 v" rest] of_bytes32_bytes32)

section \<open>Attributes\<close>

type_synonym nl_attr = "u16 \<times> u8 list"

definition attr_pad :: "nat \<Rightarrow> nat" where "attr_pad n = (4 - n mod 4) mod 4"

definition enc_attr :: "nl_attr \<Rightarrow> u8 list" where
  "enc_attr a = bytes16 (of_nat (4 + length (snd a))) @ bytes16 (fst a) @ snd a @ replicate (attr_pad (length (snd a))) 0"

definition enc_attrs :: "nl_attr list \<Rightarrow> u8 list" where "enc_attrs as = concat (map enc_attr as)"

definition attr_ok :: "nl_attr \<Rightarrow> bool" where "attr_ok a \<longleftrightarrow> length (snd a) + 4 < 2 ^ 16"

lemma length_enc_attr: "length (enc_attr a) = length (snd a) + 4 + attr_pad (length (snd a))"
  by (simp add: enc_attr_def)

lemma align_pad: "(n + 7) div 4 * 4 = n + 4 + attr_pad n"
proof -
  obtain q r where "n = 4 * q + r" "r < 4" using mod_less_divisor [of 4 n] mult_div_mod_eq [of 4 n] by (metis zero_less_numeral)
  moreover from this(2) have "r = 0 \<or> r = 1 \<or> r = 2 \<or> r = 3" by linarith
  ultimately show ?thesis by (auto simp: attr_pad_def)
qed

lemma align_attr:
  assumes "attr_ok a"
  shows "unat (of_nat (4 + length (snd a)) :: u16) = 4 + length (snd a)" "rta_align (of_nat (4 + length (snd a))) = length (enc_attr a)"
proof -
  have "unat (of_nat k :: u16) = k" if "k < 2 ^ 16" for k using that by (simp add: unsigned_of_nat take_bit_nat_eq_self)
  then show u: "unat (of_nat (4 + length (snd a)) :: u16) = 4 + length (snd a)" using assms by (simp only: attr_ok_def add.commute [of 4])
  show "rta_align (of_nat (4 + length (snd a))) = length (enc_attr a)"
    unfolding rta_align_def u length_enc_attr using align_pad [of "length (snd a)"] by (simp add: add.commute)
qed

lemma attr_loop_step:
  assumes "buf = pre @ enc_attr a @ rest" and "attr_ok a" and "int (length (enc_attr a)) \<le> bytes"
    and "body (fst a) (length pre + 4) acc = Inr acc1"
  shows "attr_loop body buf (length pre) bytes acc =
    attr_loop body buf (length (pre @ enc_attr a)) (bytes - int (length (enc_attr a))) acc1"
proof -
  note u = align_attr [OF assms(2)]
  have l: "nl_u16 buf (length pre) = Inr (of_nat (4 + length (snd a)))"
    using assms(1) by (intro nl_u16_at [of _ pre]) (auto simp: enc_attr_def)
  have t: "nl_u16 buf (length pre + 2) = Inr (fst a)"
    using assms(1) by (intro nl_u16_at [of _ "pre @ bytes16 (of_nat (4 + length (snd a)))"]) (auto simp: enc_attr_def)
  have n: "\<not> bytes < 4" "\<not> (4 + length (snd a) < 4 \<or> bytes < int (4 + length (snd a)))" using assms(3) by (auto simp: length_enc_attr)
  show ?thesis
    unfolding attr_loop.simps [of body buf "length pre" bytes acc] if_not_P [OF n(1)] l t bind_r_simps u if_not_P [OF n(2)] assms(4)
    by simp
qed

lemma attr_loop_enc:
  assumes "\<forall>a \<in> set as. attr_ok a"
    and "\<And>a pre rest acc. a \<in> set as \<Longrightarrow> buf = pre @ enc_attr a @ rest \<Longrightarrow> body (fst a) (length pre + 4) acc = Inr (f a acc)"
    and "buf = pre @ enc_attrs as @ rest" and "0 \<le> slack"
  shows "attr_loop body buf (length pre) (int (length (enc_attrs as)) + slack) acc =
    attr_loop body buf (length (pre @ enc_attrs as)) slack (fold f as acc)"
  using assms
proof (induction as arbitrary: pre acc)
  case (Cons a as)
  have b: "buf = pre @ enc_attr a @ enc_attrs as @ rest" "buf = (pre @ enc_attr a) @ enc_attrs as @ rest" using Cons.prems(3) by (simp_all add: enc_attrs_def)
  have e: "int (length (enc_attrs (a # as))) + slack - int (length (enc_attr a)) = int (length (enc_attrs as)) + slack" by (simp add: enc_attrs_def)
  have "attr_loop body buf (length pre) (int (length (enc_attrs (a # as))) + slack) acc =
      attr_loop body buf (length (pre @ enc_attr a)) (int (length (enc_attrs as)) + slack) (f a acc)"
    using attr_loop_step [OF b(1), of "int (length (enc_attrs (a # as))) + slack" body acc "f a acc"] Cons.prems(1,4) Cons.prems(2) [of a pre, OF _ b(1)] e
    by (auto simp: enc_attrs_def)
  also have "\<dots> = attr_loop body buf (length ((pre @ enc_attr a) @ enc_attrs as)) slack (fold f as (f a acc))"
    by (rule Cons.IH) (use Cons.prems b in auto)
  finally show ?case by (simp add: enc_attrs_def)
qed (simp add: enc_attrs_def)

lemma attr_loop_end: "bytes < 4 \<Longrightarrow> attr_loop body buf pos bytes acc = Inr acc"
  by (simp add: attr_loop.simps)

lemma attr_data:
  assumes "buf = pre @ enc_attr a @ rest" and "n \<le> length (snd a)"
  shows "nl_bytes buf (length pre + 4) n = Inr (take n (snd a))"
  using assms by (intro nl_bytes_prefix [of _ "pre @ bytes16 (of_nat (4 + length (snd a))) @ bytes16 (fst a)" "snd a"]) (auto simp: enc_attr_def)

text \<open>The last attribute of a type.\<close>

definition last_attr :: "u16 \<Rightarrow> nl_attr list \<Rightarrow> u8 list option" where
  "last_attr t as = map_of (rev as) t"

lemma last_attr_snoc: "last_attr t (as @ [a]) = (if fst a = t then Some (snd a) else last_attr t as)"
  by (cases a) (simp add: last_attr_def)

section \<open>Messages of a datagram\<close>

text \<open>
  The contract of a set of messages: their bytes start with the header of a message, and the handler has an effect on the
  state that does not depend on what surrounds the message in the buffer. Then a datagram has the effects of its messages, in their order.
\<close>

locale netlink_messages =
  fixes enc :: "'m \<Rightarrow> u8 list"
    and kind :: "'m \<Rightarrow> u16"
    and valid :: "rt_env \<Rightarrow> 'm \<Rightarrow> bool"
    and effect :: "rt_env \<Rightarrow> 'm \<Rightarrow> rt_world \<Rightarrow> rt_world result"
  assumes header: "valid env m \<Longrightarrow> \<exists>body. enc m = bytes32 (of_nat (length (enc m))) @ bytes16 (kind m) @ body"
    and sizes: "valid env m \<Longrightarrow> 16 \<le> length (enc m) \<and> length (enc m) < 2 ^ 32"
    and handled: "valid env m \<Longrightarrow> buf = pre @ enc m @ rest \<Longrightarrow>
      handle_one env (kind m) (length pre) buf w = bind_r (effect env m w) (\<lambda>w1. Inr (False, buf, w1))"
begin

lemma fold_fault: "fold (\<lambda>m r. bind_r r (effect env m)) ms (Inl e) = Inl e"
  by (induction ms) simp_all

lemma message_step:
  assumes v: "valid env m" and b: "buf = pre @ enc m @ rest" and n: "length (enc m) \<le> n"
  shows "rtnl_message env (length pre) n buf w =
    bind_r (effect env m w) (rtnl_message env (length (pre @ enc m)) (n - length (enc m)) buf)"
proof -
  obtain body where e: "enc m = bytes32 (of_nat (length (enc m))) @ bytes16 (kind m) @ body" using header [OF v] by blast
  have u: "unat (of_nat (length (enc m)) :: u32) = length (enc m)" using sizes [OF v] by (simp add: unsigned_of_nat take_bit_nat_eq_self)
  have bb: "buf = pre @ bytes32 (of_nat (length (enc m))) @ bytes16 (kind m) @ body @ rest" using b by (subst (asm) e) simp
  have l: "nl_u32 buf (length pre) = Inr (of_nat (length (enc m)))" using bb by (rule nl_u32_at) simp
  have t: "nl_u16 buf (length pre + 4) = Inr (kind m)"
    using bb by (intro nl_u16_at [of _ "pre @ bytes32 (of_nat (length (enc m)))"]) simp_all
  have c: "\<not> n < 16" "\<not> (length (enc m) < 16 \<or> n < length (enc m))" using n sizes [OF v] by auto
  show ?thesis
    unfolding rtnl_message.simps [of env "length pre" n buf w] if_not_P [OF c(1)] l t bind_r_simps u if_not_P [OF c(2)] handled [OF v b]
    by (cases "effect env m w") simp_all
qed

lemma datagram_effects:
  "(\<forall>m \<in> set ms. valid env m) \<Longrightarrow> buf = pre @ concat (map enc ms) @ rest \<Longrightarrow>
     rtnl_message env (length pre) (length (concat (map enc ms))) buf w = fold (\<lambda>m r. bind_r r (effect env m)) ms (Inr w)"
proof (induction ms arbitrary: pre w)
  case (Cons m ms)
  have b: "buf = pre @ enc m @ concat (map enc ms) @ rest" "buf = (pre @ enc m) @ concat (map enc ms) @ rest" using Cons.prems(2) by simp_all
  have v: "valid env m" using Cons.prems(1) by simp
  have "rtnl_message env (length pre) (length (concat (map enc (m # ms)))) buf w =
      bind_r (effect env m w) (rtnl_message env (length (pre @ enc m)) (length (concat (map enc ms))) buf)"
    using message_step [OF v b(1), of "length (concat (map enc (m # ms)))" w] by simp
  also have "\<dots> = fold (\<lambda>m r. bind_r r (effect env m)) (m # ms) (Inr w)"
    using Cons.IH [OF _ b(2)] Cons.prems(1) by (cases "effect env m w") (simp_all add: fold_fault)
  finally show ?case .
qed (simp add: rtnl_message.simps)

end

definition enc_message :: "u16 \<Rightarrow> u32 \<Rightarrow> u8 list \<Rightarrow> u8 list" where
  "enc_message type seq body = bytes32 (of_nat (16 + length body)) @ bytes16 type @ bytes16 0 @ bytes32 seq @ bytes32 0 @ body"

lemma length_enc_message [simp]: "length (enc_message type seq body) = 16 + length body"
  by (simp add: enc_message_def)

text \<open>Messages for addresses and for unicast routes of the kernel in the main table.\<close>

datatype nl_msg =
    Addr_msg bool u32 u8 u8 u32 "nl_attr list"
  | Route_msg bool u32 u8 u8 "nl_attr list"

fun msg_kind :: "nl_msg \<Rightarrow> u16" where
  "msg_kind (Addr_msg new seq family prefixlen index as) = (if new then RTM_NEWADDR else RTM_DELADDR)"
| "msg_kind (Route_msg new seq family scope as) = (if new then RTM_NEWROUTE else RTM_DELROUTE)"

fun enc_msg :: "nl_msg \<Rightarrow> u8 list" where
  "enc_msg (Addr_msg new seq family prefixlen index as) =
     enc_message (if new then RTM_NEWADDR else RTM_DELADDR) seq ([family, prefixlen, 0, 0] @ bytes32 index @ enc_attrs as)"
| "enc_msg (Route_msg new seq family scope as) =
     enc_message (if new then RTM_NEWROUTE else RTM_DELROUTE) seq
       ([family, 0, 0, 0, RT_TABLE_MAIN, RTPROT_KERNEL, scope, RTN_UNICAST] @ bytes32 0 @ enc_attrs as)"

definition attr_default :: "u16 \<Rightarrow> u8 list \<Rightarrow> nl_attr list \<Rightarrow> u8 list" where
  "attr_default t d as = (case last_attr t as of None \<Rightarrow> d | Some x \<Rightarrow> x)"

definition address_text :: "rt_env \<Rightarrow> u8 \<Rightarrow> nl_attr list \<Rightarrow> string option" where
  "address_text env family as =
     (if uint family = AF_INET then re_inet_ntop env (attr_default IFA_LOCAL (replicate 4 0) as)
      else if uint family = AF_INET6 then
        let a = attr_default IFA_ADDRESS [] as in if link_local a then None else re_inet_ntop env a
      else None)"

definition route_of :: "nat \<Rightarrow> nl_attr list \<Rightarrow> route_info" where
  "route_of n as =
     \<lparr>ro_index = (case last_attr RTA_OIF as of None \<Rightarrow> - 1 | Some d \<Rightarrow> sint (of_bytes32 d)),
       ro_dst = attr_default RTA_DST (replicate n 0) as, ro_gateway = attr_default RTA_GATEWAY (replicate n 0) as\<rparr>"

text \<open>What a message means: the address or route that the attributes describe, for the interface configurations and the modules.\<close>

fun msg_effect :: "rt_env \<Rightarrow> nl_msg \<Rightarrow> rt_world \<Rightarrow> rt_world result" where
  "msg_effect env (Addr_msg new seq family prefixlen index as) w =
     (case address_text env family as of
        None \<Rightarrow> Inr w
      | Some ip \<Rightarrow>
          if new then on_ip (ipconfig_newaddr (re_ip env) (sint index) (uint family) prefixlen (Some ip)) w
          else on_ip (ipconfig_deladdr (sint index) (uint family) prefixlen (Some ip)) w)"
| "msg_effect env (Route_msg new seq family scope as) w =
     (case family_bytes family of
        None \<Rightarrow> Inr w
      | Some n \<Rightarrow>
          let ro = route_of n as; dst = re_inet_ntop env (ro_dst ro); gateway = re_inet_ntop env (ro_gateway ro) in
          bind_r (on_ip (if new then ipconfig_newroute (ro_index ro) (uint family) scope dst gateway
              else ipconfig_delroute (ro_index ro) (uint family) scope dst gateway) w) (\<lambda>w1.
          Inr (if \<not> default_route scope (ro_dst ro) then w1
            else w1\<lparr>rt_trace := rt_trace w1 @
              (if new then map (\<lambda>m. Module_newgateway (rm_module m) (ro_index ro) (the gateway)) (filter rm_newgateway (rtnl_list w1))
               else map (\<lambda>m. Module_delgateway (rm_module m) (ro_index ro) (the gateway)) (filter rm_delgateway (rtnl_list w1)))\<rparr>)))"

text \<open>The sizes of the attributes that are read, as the kernel sends them.\<close>

definition attr_sizes :: "(u16 \<times> nat) list \<Rightarrow> nl_attr list \<Rightarrow> bool" where
  "attr_sizes ts as \<longleftrightarrow> (\<forall>a \<in> set as. attr_ok a \<and> (\<forall>n. map_of ts (fst a) = Some n \<longrightarrow> length (snd a) = n))"

fun msg_valid :: "rt_env \<Rightarrow> nl_msg \<Rightarrow> bool" where
  "msg_valid env (Addr_msg new seq family prefixlen index as) \<longleftrightarrow>
     length (enc_attrs as) < 2 ^ 30 \<and>
     (if uint family = AF_INET then attr_sizes [(IFA_LOCAL, 4)] as
      else if uint family = AF_INET6 then attr_sizes [(IFA_ADDRESS, 16), (IFA_LOCAL, 16)] as \<and> last_attr IFA_ADDRESS as \<noteq> None
      else True)"
| "msg_valid env (Route_msg new seq family scope as) \<longleftrightarrow>
     length (enc_attrs as) < 2 ^ 30 \<and>
     (case family_bytes family of
        None \<Rightarrow> True
      | Some n \<Rightarrow> attr_sizes [(RTA_DST, n), (RTA_GATEWAY, n), (RTA_OIF, 4)] as \<and>
          re_inet_ntop env (ro_dst (route_of n as)) \<noteq> None \<and> re_inet_ntop env (ro_gateway (route_of n as)) \<noteq> None)"

lemma fold_last: "fold (\<lambda>a d. if fst a = t then snd a else d) as d = attr_default t d as"
  by (induction as rule: rev_induct) (auto simp: attr_default_def last_attr_snoc, simp add: last_attr_def)

lemma fold_last_option: "fold (\<lambda>a d. if fst a = t then Some (snd a) else d) as None = last_attr t as"
  by (induction as rule: rev_induct) (auto simp: last_attr_snoc, simp add: last_attr_def)

lemma fold_route:
  "fold (\<lambda>a ro. if fst a = RTA_DST then ro\<lparr>ro_dst := snd a\<rparr> else if fst a = RTA_GATEWAY then ro\<lparr>ro_gateway := snd a\<rparr>
     else if fst a = RTA_OIF then ro\<lparr>ro_index := sint (of_bytes32 (snd a))\<rparr> else ro) as
     \<lparr>ro_index = - 1, ro_dst = replicate n 0, ro_gateway = replicate n 0\<rparr> = route_of n as"
  by (induction as rule: rev_induct)
    (auto simp: route_of_def attr_default_def last_attr_snoc RTA_DST_def RTA_GATEWAY_def RTA_OIF_def, simp_all add: last_attr_def)

lemma attrs_read:
  assumes "attr_sizes ts as" and "buf = pre @ enc_attrs as @ rest"
    and "\<And>a acc p. a \<in> set as \<Longrightarrow> (\<And>n. map_of ts (fst a) = Some n \<Longrightarrow> nl_bytes buf p n = Inr (snd a)) \<Longrightarrow> body (fst a) p acc = Inr (f a acc)"
  shows "attr_loop body buf (length pre) (int (length (enc_attrs as))) acc = Inr (fold f as acc)"
proof -
  have ok: "\<forall>a \<in> set as. attr_ok a" using assms(1) by (simp add: attr_sizes_def)
  have "body (fst a) (length p + 4) acc = Inr (f a acc)" if a: "a \<in> set as" and b: "buf = p @ enc_attr a @ r" for a p r acc
  proof (rule assms(3) [OF a])
    fix n assume "map_of ts (fst a) = Some n"
    then have "length (snd a) = n" using assms(1) a by (simp add: attr_sizes_def)
    then show "nl_bytes buf (length p + 4) n = Inr (snd a)" using attr_data [OF b, of n] by simp
  qed
  from attr_loop_enc [where f = f and body = body and slack = 0, OF ok this assms(2)] show ?thesis by (simp add: attr_loop_end)
qed

lemma extract_ipv4_enc:
  assumes "attr_sizes [(IFA_LOCAL, 4)] as" and "buf = pre @ enc_attrs as @ rest" and "msg + 8 = length pre"
  shows "extract_ipv4_addr buf msg (int (length (enc_attrs as))) = Inr (attr_default IFA_LOCAL (replicate 4 0) as)"
  unfolding extract_ipv4_addr_def assms(3) fold_last [symmetric] by (rule attrs_read [OF assms(1,2)]) auto

lemma extract_ipv6_enc:
  assumes "attr_sizes [(IFA_ADDRESS, 16), (IFA_LOCAL, 16)] as" and "buf = pre @ enc_attrs as @ rest" and "msg + 8 = length pre"
  shows "extract_ipv6_addr buf msg (int (length (enc_attrs as))) = Inr (last_attr IFA_ADDRESS as)"
  unfolding extract_ipv6_addr_def assms(3) fold_last_option [symmetric]
  by (rule attrs_read [OF assms(1,2)]) (auto simp: IFA_ADDRESS_def IFA_LOCAL_def)

lemma extract_route_enc:
  assumes "attr_sizes [(RTA_DST, n), (RTA_GATEWAY, n), (RTA_OIF, 4)] as" and "buf = pre @ enc_attrs as @ rest" and "msg + 12 = length pre"
  shows "extract_route n buf msg (int (length (enc_attrs as))) = Inr (route_of n as)"
  unfolding extract_route_def assms(3) fold_route [symmetric]
  by (rule attrs_read [OF assms(1,2)]) (auto simp: RTA_DST_def RTA_GATEWAY_def RTA_OIF_def nl_u32_def)

lemma payload_sizes:
  "n < 2 ^ 30 \<Longrightarrow> ifa_payload (of_nat (24 + n)) = int n" "n < 2 ^ 30 \<Longrightarrow> rtm_payload (of_nat (28 + n)) = int n"
proof -
  have "sint (of_nat n :: u32) = int n" if "n < 2 ^ 30" for n
    using that by (simp add: signed_of_nat signed_take_bit_int_eq_self)
  then show "n < 2 ^ 30 \<Longrightarrow> ifa_payload (of_nat (24 + n)) = int n" "n < 2 ^ 30 \<Longrightarrow> rtm_payload (of_nat (28 + n)) = int n"
    by (simp_all add: ifa_payload_def rtm_payload_def)
qed

lemma message_address_enc:
  assumes "msg_valid env (Addr_msg new seq family prefixlen index as)" and "buf = pre @ enc_attrs as @ rest" and "msg + 8 = length pre"
  shows "message_address env family buf msg (int (length (enc_attrs as))) = Inr (address_text env family as)"
  using assms extract_ipv4_enc [OF _ assms(2,3)] extract_ipv6_enc [OF _ assms(2,3)]
  by (auto simp: message_address_def address_text_def attr_default_def Let_def AF_INET_def AF_INET6_def)

lemma addr_message_enc:
  assumes v: "msg_valid env (Addr_msg new seq family prefixlen index as)"
    and b: "buf = pre @ enc_msg (Addr_msg new seq family prefixlen index as) @ rest"
  shows "handle_one env (msg_kind (Addr_msg new seq family prefixlen index as)) (length pre) buf w =
    bind_r (msg_effect env (Addr_msg new seq family prefixlen index as) w) (\<lambda>w1. Inr (False, buf, w1))"
proof -
  let ?t = "if new then RTM_NEWADDR else RTM_DELADDR" and ?n = "length (enc_attrs as)"
  let ?h = "bytes32 (of_nat (24 + ?n)) @ bytes16 ?t @ bytes16 0 @ bytes32 seq @ bytes32 0"
  have e: "buf = (pre @ ?h @ [family, prefixlen, 0, 0] @ bytes32 index) @ enc_attrs as @ rest" using b by (simp add: enc_message_def add.commute)
  have r: "nl_u32 buf (length pre) = Inr (of_nat (24 + ?n))" "nl_u8 buf (length pre + 16) = Inr family"
    "nl_u8 buf (length pre + 17) = Inr prefixlen" "nl_u32 buf (length pre + 20) = Inr index"
    by (rule nl_u32_at [of _ pre], simp add: e, simp)
      (rule nl_u8_at [of _ "pre @ ?h"], simp add: e, simp, rule nl_u8_at [of _ "pre @ ?h @ [family]"], simp add: e, simp,
       rule nl_u32_at [of _ "pre @ ?h @ [family, prefixlen, 0, 0]"], simp add: e, simp)
  have p: "ifa_payload (of_nat (24 + ?n)) = int ?n" using v by (intro payload_sizes) simp
  have a: "message_address env family buf (length pre + 16) (int ?n) = Inr (address_text env family as)"
    by (rule message_address_enc [OF v e]) simp
  show ?thesis
    unfolding handle_one_def Let_def rtnl_newaddr_def rtnl_deladdr_def addr_message_def r bind_r_simps p process_newaddr_def process_deladdr_def a
    by (cases new; cases "address_text env family as")
      (simp_all add: NLMSG_NOOP_def NLMSG_OVERRUN_def NLMSG_DONE_def NLMSG_ERROR_def RTM_NEWLINK_def RTM_DELLINK_def RTM_NEWADDR_def RTM_DELADDR_def)
qed

lemma route_message_enc:
  assumes v: "msg_valid env (Route_msg new seq family scope as)" and b: "buf = pre @ enc_msg (Route_msg new seq family scope as) @ rest"
  shows "handle_one env (msg_kind (Route_msg new seq family scope as)) (length pre) buf w =
    bind_r (msg_effect env (Route_msg new seq family scope as) w) (\<lambda>w1. Inr (False, buf, w1))"
proof -
  let ?t = "if new then RTM_NEWROUTE else RTM_DELROUTE" and ?n = "length (enc_attrs as)"
  let ?h = "bytes32 (of_nat (28 + ?n)) @ bytes16 ?t @ bytes16 0 @ bytes32 seq @ bytes32 0"
  let ?m = "[family, 0, 0, 0, RT_TABLE_MAIN, RTPROT_KERNEL, scope, RTN_UNICAST]"
  have e: "buf = (pre @ ?h @ ?m @ bytes32 0) @ enc_attrs as @ rest" using b by (simp add: enc_message_def add.commute)
  have r: "nl_u32 buf (length pre) = Inr (of_nat (28 + ?n))" by (rule nl_u32_at [of _ pre]) (simp_all add: e)
  have f: "nl_u8 buf (length pre + 16) = Inr family" by (rule nl_u8_at [of _ "pre @ ?h"]) (simp_all add: e)
  have tab: "nl_u8 buf (length pre + 20) = Inr RT_TABLE_MAIN" by (rule nl_u8_at [of _ "pre @ ?h @ [family, 0, 0, 0]"]) (simp_all add: e)
  have prot: "nl_u8 buf (length pre + 21) = Inr RTPROT_KERNEL" by (rule nl_u8_at [of _ "pre @ ?h @ [family, 0, 0, 0, RT_TABLE_MAIN]"]) (simp_all add: e)
  have sc: "nl_u8 buf (length pre + 22) = Inr scope" by (rule nl_u8_at [of _ "pre @ ?h @ [family, 0, 0, 0, RT_TABLE_MAIN, RTPROT_KERNEL]"]) (simp_all add: e)
  have ty: "nl_u8 buf (length pre + 23) = Inr RTN_UNICAST" by (rule nl_u8_at [of _ "pre @ ?h @ [family, 0, 0, 0, RT_TABLE_MAIN, RTPROT_KERNEL, scope]"]) (simp_all add: e)
  have yes: "is_route_rtmsg buf (length pre + 16) = Inr True" "nl_u8 buf (length pre + 16) = Inr family" "nl_u8 buf (length pre + 22) = Inr scope"
    using f tab prot sc ty unfolding is_route_rtmsg_def add.assoc by simp_all
  have p: "rtm_payload (of_nat (28 + ?n)) = int ?n" using v by (intro payload_sizes) simp
  have x: "extract_route n buf (length pre + 16) (int ?n) = Inr (route_of n as)" if "family_bytes family = Some n" for n
    using v that by (intro extract_route_enc [OF _ e]) simp_all
  have k: "handle_one env (msg_kind (Route_msg new seq family scope as)) (length pre) buf w =
      bind_r (if new then process_newroute env family scope buf (length pre + 16) (int ?n) w
        else process_delroute env family scope buf (length pre + 16) (int ?n) w) (\<lambda>w1. Inr (False, buf, w1))"
    unfolding handle_one_def Let_def rtnl_newroute_def rtnl_delroute_def route_message_def r yes bind_r_simps p
    by (cases new) (simp_all add: NLMSG_NOOP_def NLMSG_OVERRUN_def NLMSG_DONE_def NLMSG_ERROR_def RTM_NEWLINK_def RTM_DELLINK_def
        RTM_NEWADDR_def RTM_DELADDR_def RTM_NEWROUTE_def RTM_DELROUTE_def)
  show ?thesis unfolding k
  proof (cases "family_bytes family")
    case (Some n)
    obtain d g where "re_inet_ntop env (ro_dst (route_of n as)) = Some d" "re_inet_ntop env (ro_gateway (route_of n as)) = Some g"
      using v Some by auto
    then show "bind_r (if new then process_newroute env family scope buf (length pre + 16) (int ?n) w
        else process_delroute env family scope buf (length pre + 16) (int ?n) w) (\<lambda>w1. Inr (False, buf, w1)) =
      bind_r (msg_effect env (Route_msg new seq family scope as) w) (\<lambda>w1. Inr (False, buf, w1))"
      using Some x by (auto simp: process_newroute_def process_delroute_def route_string_def Let_def if_distrib [of Inr] cong: if_cong)
  qed (simp add: process_newroute_def process_delroute_def)
qed

interpretation nl: netlink_messages enc_msg msg_kind msg_valid msg_effect
proof
  fix env m assume v: "msg_valid env m"
  show "\<exists>body. enc_msg m = bytes32 (of_nat (length (enc_msg m))) @ bytes16 (msg_kind m) @ body"
    by (cases m) (simp_all add: enc_message_def add.commute)
  show "16 \<le> length (enc_msg m) \<and> length (enc_msg m) < 2 ^ 32" using v by (cases m) simp_all
next
  fix env m buf pre rest w assume v: "msg_valid env m" and b: "buf = pre @ enc_msg m @ rest"
  show "handle_one env (msg_kind m) (length pre) buf w = bind_r (msg_effect env m w) (\<lambda>w1. Inr (False, buf, w1))"
  proof (cases m)
    case (Addr_msg new seq family prefixlen index as)
    from addr_message_enc [OF v [unfolded this] b [unfolded this]] show ?thesis by (simp only: Addr_msg)
  next
    case (Route_msg new seq family scope as)
    from route_message_enc [OF v [unfolded this] b [unfolded this]] show ?thesis by (simp only: Route_msg)
  qed
qed

end
