(* ===== verification/Rtnl_Machine.thy ===== *)
theory Rtnl_Machine
  imports Rtnl_Format Ipconfig_Machine
begin

text \<open>
  The netlink component as a state machine: datagrams with any content, the timer, the calls of other components and what the holders
  of interface configurations do, in any order. The invariant covers the configurations, the table of interfaces, the queue of
  requests and the update interval with its timer.
\<close>

section \<open>Outcomes\<close>

text \<open>A computation ends in a state with a property, or with one of some faults.\<close>

definition ends :: "'a result \<Rightarrow> ('a \<Rightarrow> bool) \<Rightarrow> c_fault set \<Rightarrow> bool" where
  "ends m P F = (case m of Inl e \<Rightarrow> e \<in> F | Inr x \<Rightarrow> P x)"

lemma ends_simps [simp]: "ends (Inr x) P F = P x" "ends (Inl e) P F = (e \<in> F)"
  by (simp_all add: ends_def)

lemma ends_bind [simp]: "ends (bind_r m f) P F = ends m (\<lambda>x. ends (f x) P F) F"
  by (cases m) simp_all

lemma ends_succeeds: "succeeds m P \<Longrightarrow> ends m P F"
  by (auto simp: succeeds_def)

lemma ends_mono: "ends m P F \<Longrightarrow> (\<And>x. P x \<Longrightarrow> Q x) \<Longrightarrow> ends m Q F"
  by (cases m) simp_all

text \<open>
  Either reads outside the buffer are among the faults, or the buffer has room behind a place and ends with a zero byte.
\<close>

definition roomy :: "c_fault set \<Rightarrow> u8 list \<Rightarrow> int \<Rightarrow> bool" where
  "roomy F buf e \<longleftrightarrow> OutOfBounds \<in> F \<or> e + 100 \<le> int (length buf) \<and> last buf = 0"

lemma roomy_less: "roomy F buf e \<Longrightarrow> d \<le> e \<Longrightarrow> roomy F buf d"
  by (auto simp: roomy_def)

lemma ends_bytes: "roomy F buf e \<Longrightarrow> int (i + n) \<le> e + 100 \<Longrightarrow> (\<And>x. P x) \<Longrightarrow> ends (nl_bytes buf i n) P F"
  by (auto simp: nl_bytes_def roomy_def)

lemma ends_read:
  "roomy F buf e \<Longrightarrow> int i + 1 \<le> e + 100 \<Longrightarrow> (\<And>x. Q x) \<Longrightarrow> ends (nl_u8 buf i) Q F"
  "roomy F buf e \<Longrightarrow> int i + 2 \<le> e + 100 \<Longrightarrow> (\<And>x. R x) \<Longrightarrow> ends (nl_u16 buf i) R F"
  "roomy F buf e \<Longrightarrow> int i + 4 \<le> e + 100 \<Longrightarrow> (\<And>x. S x) \<Longrightarrow> ends (nl_u32 buf i) S F"
  unfolding nl_u8_def nl_u16_def nl_u32_def ends_bind ends_simps by (rule ends_bytes; simp)+

lemma ends_string:
  assumes "roomy F buf e" and "int i < e + 100" and "\<And>x. P x"
  shows "ends (nl_string buf i) P F"
proof (cases "OutOfBounds \<in> F")
  case False
  then have "i < length buf" "last buf = 0" using assms(1,2) by (auto simp: roomy_def)
  then have "drop i buf \<noteq> []" "last (drop i buf) = 0" by (simp_all add: last_drop)
  then have "0 \<in> set (drop i buf)" using last_in_set by metis
  then show ?thesis using assms(3) by (simp add: nl_string_def)
qed (use assms(3) in \<open>simp add: nl_string_def\<close>)

lemma attr_loop_ends:
  assumes "roomy F buf e" and "\<And>type p acc. int p \<le> e \<Longrightarrow> I acc \<Longrightarrow> ends (body type p acc) I F"
    and "int pos + bytes \<le> e" and "I acc"
  shows "ends (attr_loop body buf pos bytes acc) I F"
  using assms
proof (induction body buf pos bytes acc rule: attr_loop.induct)
  case (1 body buf pos bytes acc)
  have body: "ends (body type (pos + 4) acc) (\<lambda>x. ends (attr_loop body buf (pos + rta_align len) (bytes - int (rta_align len)) x) I F) F"
    if "\<not> bytes < 4" "\<not> (unat len < 4 \<or> bytes < int (unat len))" for type len
    using 1(1) [OF that 1(2,3)] 1(3) [of "pos + 4" acc type] 1(4,5) that by (auto elim!: ends_mono)
  show ?case
    unfolding attr_loop.simps [of body buf pos bytes acc]
    using body 1(4,5) by (auto simp: not_less intro!: ends_read(2) [OF 1(2)])
qed

lemma payload_le: "ifa_payload len \<le> int (unat len) - 24" "rtm_payload len \<le> int (unat len) - 28"
proof -
  have "sint (len - word_of_int k) \<le> uint len - k" if "0 \<le> k" "k < 2 ^ 31" for k
  proof -
    have "len - word_of_int k = word_of_int (uint len - k)" by simp
    then have "sint (len - word_of_int k) = signed_take_bit 31 (uint len - k)" by (simp only: signed_of_int) simp
    moreover have "- (2 ^ 31) \<le> uint len - k" using that uint_ge_0 [of len] by linarith
    ultimately show ?thesis by (simp add: signed_take_bit_int_less_eq_self_iff)
  qed
  from this [of 24] this [of 28] show "ifa_payload len \<le> int (unat len) - 24" "rtm_payload len \<le> int (unat len) - 28"
    by (simp_all add: ifa_payload_def rtm_payload_def)
qed

section \<open>What messages keep\<close>

definition interfaces_ok :: "rt_world \<Rightarrow> bool" where
  "interfaces_ok w \<longleftrightarrow> \<not> interface_freed w \<and> (case interface_list w of None \<Rightarrow> False
     | Some h \<Rightarrow> distinct (map fst h) \<and> (\<forall>x \<in> set h. if_index (snd x) = fst x))"

fun silent :: "rt_call \<Rightarrow> bool" where
  "silent (Rt_send r) = False"
| "silent (Rt_timer_add s) = False"
| "silent (Rt_timer_remove t) = False"
| "silent c = True"

text \<open>Requests and timers are as before.\<close>

definition told :: "rt_world \<Rightarrow> rt_world \<Rightarrow> bool" where
  "told w v \<longleftrightarrow> update_list v = update_list w \<and> update_interval v = update_interval w \<and> update_timeout v = update_timeout w \<and>
     nl_requests v = nl_requests w \<and> channel v = channel w \<and> (\<exists>cs. rt_trace v = rt_trace w @ cs \<and> (\<forall>c \<in> set cs. silent c))"

lemma told_refl [simp]: "told w w"
  by (simp add: told_def)

lemma told_trans: "told w v \<Longrightarrow> told v u \<Longrightarrow> told w u"
  by (auto simp: told_def)

lemma told_calls: "told w v \<Longrightarrow> (\<And>c. c \<in> set cs \<Longrightarrow> silent c) \<Longrightarrow> told w (v\<lparr>rt_trace := rt_trace v @ cs\<rparr>)"
  by (auto simp: told_def)

lemma told_tell: "told w v \<Longrightarrow> silent c \<Longrightarrow> told w (rt_tell c v)"
  unfolding rt_tell_def by (rule told_calls) simp_all

lemma told_fields: "told w v \<Longrightarrow> told w (v\<lparr>rt_ip := i\<rparr>)" "told w v \<Longrightarrow> told w (v\<lparr>interface_list := l\<rparr>)"
  by (auto simp: told_def)

definition conf_kept :: "(addr \<Rightarrow> nat) \<Rightarrow> rt_world \<Rightarrow> rt_world \<Rightarrow> bool" where
  "conf_kept held w v \<longleftrightarrow> ip_wf held (rt_ip v) \<and> interfaces_ok v \<and> told w v"

lemma kept_calls: "conf_kept held w v \<Longrightarrow> (\<And>c. c \<in> set cs \<Longrightarrow> silent c) \<Longrightarrow> conf_kept held w (v\<lparr>rt_trace := rt_trace v @ cs\<rparr>)"
  by (auto simp: conf_kept_def interfaces_ok_def intro: told_calls)

lemma kept_tell: "conf_kept held w v \<Longrightarrow> silent c \<Longrightarrow> conf_kept held w (rt_tell c v)"
  unfolding rt_tell_def by (rule kept_calls) simp_all

lemma kept_on_ip: "conf_kept held w v \<Longrightarrow> (\<And>i. ip_wf held i \<Longrightarrow> succeeds (f i) (ip_wf held)) \<Longrightarrow> ends (on_ip f v) (conf_kept held w) F"
  by (auto simp: on_ip_def conf_kept_def interfaces_ok_def told_fields intro!: ends_succeeds)

lemma kept_links: "conf_kept held w v \<Longrightarrow> interfaces_ok (v\<lparr>interface_list := l\<rparr>) \<Longrightarrow> conf_kept held w (v\<lparr>interface_list := l\<rparr>)"
  by (simp add: conf_kept_def told_fields)

lemma extract_link_ends:
  assumes "roomy F buf e" and "int msg + 16 + bytes \<le> e"
  shows "ends (extract_link all buf msg bytes) (\<lambda>li. \<forall>p. li_ifname li = Some p \<longrightarrow> int p \<le> e) F"
  unfolding extract_link_def
proof (rule attr_loop_ends [OF assms(1)])
  fix type p and li :: link_info assume "int p \<le> e" "\<forall>p. li_ifname li = Some p \<longrightarrow> int p \<le> e"
  then show "ends (link_attr all buf type p li) (\<lambda>li. \<forall>p. li_ifname li = Some p \<longrightarrow> int p \<le> e) F"
    by (auto simp: link_attr_def link_stats_size_def intro!: ends_bytes [OF assms(1)] ends_read [OF assms(1)])
qed (use assms(2) in auto)

lemma new_interface_ends:
  assumes r: "roomy F buf e" and n: "\<forall>p. li_ifname li = Some p \<longrightarrow> int p \<le> e" and f: "NullDeref \<in> F"
    and k: "conf_kept held w v" and i: "interface_of v index = Inr None"
  shows "ends (new_interface env buf type index li v) (conf_kept held w) F"
proof -
  obtain h where h: "interface_list v = Some h" "distinct (map fst h)" "\<forall>x \<in> set h. if_index (snd x) = fst x" "\<not> interface_freed v"
    using k by (auto simp: conf_kept_def interfaces_ok_def split: option.splits)
  have u: "ends (read_uevent env x v) (\<lambda>y. if_index y = if_index x) F" for x
    using f by (auto simp: read_uevent_def Let_def put_types_def split: option.splits)
  have "index \<notin> fst ` set h" using i h(1,4) by (simp add: interface_of_def map_of_eq_None_iff)
  then have add: "conf_kept held w (rt_tell (Technology_add_interface (if_service_type x) (if_index x) (if_name x) (if_ident x))
      (v\<lparr>interface_list := map_option (\<lambda>h. h @ [(index, x)]) (interface_list v)\<rparr>))" if "if_index x = index" for x
    using h that by (intro kept_tell kept_links [OF k]) (simp_all add: interfaces_ok_def)
  have fin: "ends (if type = ARPHRD_ETHERNET then read_uevent env x v else Inr x) (\<lambda>x. conf_kept held w
      (rt_tell (Technology_add_interface (if_service_type x) (if_index x) (if_name x) (if_ident x))
        (v\<lparr>interface_list := map_option (\<lambda>h. h @ [(index, x)]) (interface_list v)\<rparr>))) F" if "if_index x = index" for x
    using add [of x] that ends_mono [OF u [of x] add] by simp
  have name: "ends (case li_ifname li of None \<Rightarrow> Inr None | Some p \<Rightarrow> bind_r (nl_string buf p) (\<lambda>s. Inr (Some s))) (\<lambda>x. True) F"
    using n by (auto intro!: ends_string [OF r] split: option.splits)
  show ?thesis unfolding new_interface_def Let_def ends_bind ends_simps by (rule ends_mono [OF name], rule fin) simp
qed

lemma newlink_ends:
  assumes r: "roomy F buf e" and b: "int msg + 16 + bytes \<le> e" and f: "NullDeref \<in> F" and k: "conf_kept held w v"
  shows "ends (process_newlink env type index flags change buf msg bytes v) (conf_kept held w) F"
proof -
  have l: "conf_kept held w (watches_newlink index flags change (modules_newlink type index flags change u))" if "conf_kept held w u" for u
    unfolding watches_newlink_def modules_newlink_def using that by (intro kept_calls) auto
  have ip: "ends (if type \<in> {ARPHRD_ETHERNET, ARPHRD_LOOPBACK, ARPHDR_PHONET_PIPE, ARPHRD_NONE}
       then on_ip (ipconfig_newlink (re_ip env) index type flags a mtu stats) v else Inr v) (conf_kept held w) F" for a mtu stats
    using k by (auto intro: kept_on_ip newlink_total)
  have new: "ends (interface_of u index) (\<lambda>interface.
      ends (case interface of None \<Rightarrow> new_interface env buf type index li u | Some i \<Rightarrow> Inr u) (conf_kept held w) F) F"
    if "conf_kept held w u" "\<forall>p. li_ifname li = Some p \<longrightarrow> int p \<le> e" for u li
    using new_interface_ends [OF r that(2) f that(1)] that(1)
    by (auto simp: interface_of_def conf_kept_def interfaces_ok_def split: option.splits)
  show ?thesis unfolding process_newlink_def ends_bind ends_simps
    by (rule ends_mono [OF extract_link_ends [OF r b]]) (rule ends_mono [OF ip], rule ends_mono [OF new], assumption+, erule ends_mono, rule l)
qed

lemma dellink_ends:
  assumes r: "roomy F buf e" and b: "int msg + 16 + bytes \<le> e" and k: "conf_kept held w v"
  shows "ends (process_dellink env type index flags change buf msg bytes v) (conf_kept held w) F"
proof -
  have ip: "ends (if type \<in> {ARPHRD_ETHERNET, ARPHRD_LOOPBACK, ARPHRD_NONE} then on_ip (ipconfig_dellink index stats) u else Inr u) (conf_kept held w) F"
    if "conf_kept held w u" for u stats using that by (auto intro: kept_on_ip dellink_total)
  have l: "ends (remove_interface index u) (conf_kept held w) F" if u: "conf_kept held w u" for u
  proof -
    obtain h where "interface_list u = Some h" "distinct (map fst h)" "\<forall>x \<in> set h. if_index (snd x) = fst x" "\<not> interface_freed u"
      using u by (auto simp: conf_kept_def interfaces_ok_def split: option.splits)
    moreover from this have "interfaces_ok (u\<lparr>interface_list := map_option (filter (\<lambda>x. fst x \<noteq> index)) (interface_list u)\<rparr>)"
      by (simp add: interfaces_ok_def distinct_map_filter)
    note kept_tell [OF kept_links [OF u this]]
    ultimately show ?thesis
      using u by (auto simp: remove_interface_def interface_of_def free_interface_def split: option.splits)
  qed
  show ?thesis unfolding process_dellink_def Let_def ends_bind ends_simps
    by (rule ends_mono [OF extract_link_ends [OF r b]], rule ends_mono [OF ip]) (rule kept_calls [OF k], auto intro: l)
qed

lemma message_address_ends:
  assumes r: "roomy F buf e" and b: "int msg + 8 + bytes \<le> e" and f: "Uninitialised \<in> F"
  shows "ends (message_address env family buf msg bytes) (\<lambda>x. True) F"
proof -
  have "ends (extract_ipv4_addr buf msg bytes) (\<lambda>x. True) F" "ends (extract_ipv6_addr buf msg bytes) (\<lambda>x. True) F"
    unfolding extract_ipv4_addr_def extract_ipv6_addr_def
    by (rule attr_loop_ends [OF r]; use b in \<open>auto intro!: ends_bytes [OF r]\<close>)+
  then show ?thesis using f unfolding message_address_def by (auto elim!: ends_mono split: option.splits)
qed

lemma addr_ends:
  assumes r: "roomy F buf e" and b: "int msg + 8 + bytes \<le> e" and f: "Uninitialised \<in> F" and k: "conf_kept held w v"
  shows "ends (process_newaddr env family prefixlen index buf msg bytes v) (conf_kept held w) F"
    "ends (process_deladdr env family prefixlen index buf msg bytes v) (conf_kept held w) F"
  unfolding process_newaddr_def process_deladdr_def ends_bind using k
  by (rule_tac [!] ends_mono [OF message_address_ends [OF r b f]])
    (auto intro: kept_on_ip newaddr_total deladdr_total split: option.splits)

lemma route_ends:
  assumes r: "roomy F buf e" and b: "int msg + 12 + bytes \<le> e" and f: "Uninitialised \<in> F" and k: "conf_kept held w v"
  shows "ends (process_newroute env family scope buf msg bytes v) (conf_kept held w) F"
    "ends (process_delroute env family scope buf msg bytes v) (conf_kept held w) F"
proof -
  have x: "ends (extract_route n buf msg bytes) (\<lambda>x. True) F" if "n \<le> 16" for n
    unfolding extract_route_def by (rule attr_loop_ends [OF r]) (use b that in \<open>auto intro!: ends_bytes [OF r] ends_read [OF r]\<close>)
  have str: "ends (route_string env a) (\<lambda>x. True) F" for a using f by (auto simp: route_string_def split: option.splits)
  have ip: "ends (on_ip (ipconfig_newroute i fam sc d g) v) (conf_kept held w) F" "ends (on_ip (ipconfig_delroute i fam sc d g) v) (conf_kept held w) F"
    for i fam sc d g using k by (auto intro: kept_on_ip route_total)
  have n: "n \<le> 16" if "family_bytes family = Some n" for n using that by (auto simp: family_bytes_def split: if_splits)
  show "ends (process_newroute env family scope buf msg bytes v) (conf_kept held w) F"
    unfolding process_newroute_def using k n
    by (auto split: option.splits intro!: ends_mono [OF x] ends_mono [OF str] ends_mono [OF ip(1)] kept_calls)
  show "ends (process_delroute env family scope buf msg bytes v) (conf_kept held w) F"
    unfolding process_delroute_def using k n
    by (auto split: option.splits intro!: ends_mono [OF x] ends_mono [OF str] ends_mono [OF ip(2)] kept_calls)
qed

text \<open>A message at a place, of a length that was read there; the bytes behind it are those of the header that is 8 bytes longer.\<close>

lemma link_message_ends:
  assumes r: "roomy F buf (int hdr + int (unat n) + 8)" and n: "nl_u32 buf hdr = Inr n" "16 \<le> unat n" and f: "NullDeref \<in> F" and k: "conf_kept held w v"
  shows "ends (rtnl_newlink env buf hdr v) (conf_kept held w) F" "ends (rtnl_dellink env buf hdr v) (conf_kept held w) F"
proof -
  have b: "int (hdr + 16) + 16 + ifa_payload n \<le> int hdr + int (unat n) + 8" using payload_le(1) [of n] by simp
  have m: "ends (link_message buf hdr g v) (conf_kept held w) F" if "\<And>type i flags change. ends (g type i flags change (ifa_payload n) v) (conf_kept held w) F" for g
    unfolding link_message_def n(1) bind_r_simps ends_bind using that n(2) by (intro ends_read [OF r]) simp_all
  show "ends (rtnl_newlink env buf hdr v) (conf_kept held w) F" "ends (rtnl_dellink env buf hdr v) (conf_kept held w) F"
    unfolding rtnl_newlink_def rtnl_dellink_def by (rule m, rule newlink_ends [OF r b f k], rule m, rule dellink_ends [OF r b k])
qed

lemma addr_message_ends:
  assumes r: "roomy F buf (int hdr + int (unat n))" and n: "nl_u32 buf hdr = Inr n" "16 \<le> unat n" and f: "Uninitialised \<in> F" and k: "conf_kept held w v"
  shows "ends (rtnl_newaddr env buf hdr v) (conf_kept held w) F" "ends (rtnl_deladdr env buf hdr v) (conf_kept held w) F"
proof -
  have b: "int (hdr + 16) + 8 + ifa_payload n \<le> int hdr + int (unat n)" using payload_le(1) [of n] by simp
  have m: "ends (addr_message buf hdr g v) (conf_kept held w) F" if "\<And>family prefixlen i. ends (g family prefixlen i (ifa_payload n) v) (conf_kept held w) F" for g
    unfolding addr_message_def n(1) bind_r_simps ends_bind using that n(2) by (intro ends_read [OF r]) simp_all
  show "ends (rtnl_newaddr env buf hdr v) (conf_kept held w) F" "ends (rtnl_deladdr env buf hdr v) (conf_kept held w) F"
    unfolding rtnl_newaddr_def rtnl_deladdr_def by (rule m, rule addr_ends(1) [OF r b f k], rule m, rule addr_ends(2) [OF r b f k])
qed

lemma route_message_ends:
  assumes r: "roomy F buf (int hdr + int (unat n))" and n: "nl_u32 buf hdr = Inr n" "16 \<le> unat n" and f: "Uninitialised \<in> F" and k: "conf_kept held w v"
  shows "ends (rtnl_newroute env buf hdr v) (conf_kept held w) F" "ends (rtnl_delroute env buf hdr v) (conf_kept held w) F"
proof -
  have b: "int (hdr + 16) + 12 + rtm_payload n \<le> int hdr + int (unat n)" using payload_le(2) [of n] by simp
  have i: "ends (is_route_rtmsg buf (hdr + 16)) (\<lambda>x. True) F"
    unfolding is_route_rtmsg_def ends_bind using n(2) by (auto intro!: ends_read [OF r])
  have m: "ends (route_message buf hdr g v) (conf_kept held w) F" if "\<And>family scope. ends (g family scope (rtm_payload n) v) (conf_kept held w) F" for g
    unfolding route_message_def n(1) bind_r_simps ends_bind
    by (rule ends_mono [OF i]) (use that k n(2) in \<open>auto intro!: ends_read [OF r]\<close>)
  show "ends (rtnl_newroute env buf hdr v) (conf_kept held w) F" "ends (rtnl_delroute env buf hdr v) (conf_kept held w) F"
    unfolding rtnl_newroute_def rtnl_delroute_def by (rule m, rule route_ends(1) [OF r b f k], rule m, rule route_ends(2) [OF r b f k])
qed

section \<open>Router advertisements\<close>

lemma any_read:
  "OutOfBounds \<in> F \<Longrightarrow> (\<And>x. P x) \<Longrightarrow> ends (nl_bytes buf i n) P F"
  "OutOfBounds \<in> F \<Longrightarrow> (\<And>x. Q x) \<Longrightarrow> ends (nl_u8 buf i) Q F"
  "OutOfBounds \<in> F \<Longrightarrow> (\<And>x. R x) \<Longrightarrow> ends (nl_u16 buf i) R F"
  "OutOfBounds \<in> F \<Longrightarrow> (\<And>x. S x) \<Longrightarrow> ends (nl_u32 buf i) S F"
  "OutOfBounds \<in> F \<Longrightarrow> (\<And>x. T x) \<Longrightarrow> ends (nl_string buf i) T F"
  by (simp_all add: nl_u8_def nl_u16_def nl_u32_def nl_string_def nl_bytes_def)

lemma dnssl_scan_ends: "OutOfBounds \<in> F \<Longrightarrow> ends (dnssl_scan buf optc data_len i n) (\<lambda>x. True) F"
proof (induction buf optc data_len i n rule: dnssl_scan.induct)
  case (1 buf optc data_len i n)
  show ?case
    unfolding dnssl_scan.simps [of buf optc data_len i n] using 1 by (auto intro!: any_read)
qed

lemma dnssl_domains_ends: "OutOfBounds \<in> F \<Longrightarrow> ends (dnssl_domains buf optc n) (\<lambda>x. True) F"
  by (induction n arbitrary: optc) (auto intro!: any_read elim: ends_mono)

lemma min_lifetime_ends: "OutOfBounds \<in> F \<Longrightarrow> ends (min_lifetime buf opt l) (\<lambda>x. True) F"
  unfolding min_lifetime_def by (auto intro!: any_read)

lemma rt_ask_told: "silent c \<Longrightarrow> conf_kept held w v \<Longrightarrow> conf_kept held w (snd (rt_ask env c v))"
  by (simp add: rt_ask_def kept_tell)

lemma nd_option_ends:
  assumes f: "OutOfBounds \<in> F" and k: "conf_kept held w (snd x)"
  shows "ends (nd_option env opt x) (\<lambda>y. conf_kept held w (snd y)) F"
proof -
  have r: "ends (rtnl_nd_opt_rdnss buf opt l n) (\<lambda>x. True) F" for buf l n
    unfolding rtnl_nd_opt_rdnss_def using f by (auto intro!: any_read ends_mono [OF min_lifetime_ends])
  have d: "ends (rtnl_nd_opt_dnssl env buf opt l (snd x)) (\<lambda>y. conf_kept held w (snd (snd (snd y)))) F" for buf l
    unfolding rtnl_nd_opt_dnssl_def ends_bind using f k rt_ask_told [of Rt_alloc held w "snd x" env]
    by (auto simp: Let_def split: option.splits prod.splits
        intro!: any_read ends_mono [OF min_lifetime_ends] ends_mono [OF dnssl_scan_ends] ends_mono [OF dnssl_domains_ends])
  show ?thesis
    using k f ends_mono [OF r] ends_mono [OF d] by (cases x) (auto simp: nd_option_def intro!: any_read)
qed

lemma nd_loop_ends:
  assumes "OutOfBounds \<in> F" and "conf_kept held w (snd x)"
  shows "ends (nd_loop env opt msglen x) (\<lambda>y. conf_kept held w (snd y)) F"
  using assms
proof (induction env opt msglen x rule: nd_loop.induct)
  case (1 env opt msglen x)
  have "ends (nd_option env opt x) (\<lambda>y. ends (nd_loop env (opt + unat len * 8) (msglen - unat len) y) (\<lambda>y. conf_kept held w (snd y)) F) F"
    if "\<not> msglen < 2" "\<not> (msglen < unat len \<or> len = 0)" for len :: u8
    by (rule ends_mono [OF nd_option_ends [OF 1(2,3)]]) (rule 1(1) [OF that 1(2)])
  then show ?case unfolding nd_loop.simps [of env opt msglen x] using 1(2,3) by (auto intro!: any_read)
qed

lemma append_ends:
  assumes "OutOfBounds \<in> F"
  shows "conf_kept held w v \<Longrightarrow> ends (append_domains buf interface ds server l v) (conf_kept held w) F"
    "conf_kept held w v \<Longrightarrow> ends (append_servers env s interface p n v) (conf_kept held w) F"
proof -
  show d: "conf_kept held w v \<Longrightarrow> ends (append_domains buf interface ds server l v) (conf_kept held w) F" for buf ds server l v
    by (induction ds arbitrary: v) (auto simp: kept_tell intro!: any_read assms)
  show "conf_kept held w v \<Longrightarrow> ends (append_servers env s interface p n v) (conf_kept held w) F"
    by (induction n arbitrary: p v)
      (auto simp: kept_tell intro!: any_read assms ends_mono [OF d] split: option.splits list.splits)
qed

lemma nduseropt_ends:
  assumes f: "OutOfBounds \<in> F" "NullDeref \<in> F" and k: "conf_kept held w v"
  shows "ends (rtnl_newnduseropt env buf hdr v) (\<lambda>y. conf_kept held w (snd y)) F"
  unfolding rtnl_newnduseropt_def using f k
  by (auto split: option.splits intro!: any_read ends_mono [OF nd_loop_ends] ends_mono [OF append_ends(2)])

section \<open>The invariant\<close>

fun sent_request :: "rt_call \<Rightarrow> rtnl_request list" where
  "sent_request (Rt_send r) = [r]"
| "sent_request c = []"

definition sent :: "rt_call list \<Rightarrow> rtnl_request list" where
  "sent tr = concat (map sent_request tr)"

text \<open>The request at the head of the queue is the one that was sent last.\<close>

definition queue_ok :: "rt_world \<Rightarrow> bool" where
  "queue_ok w \<longleftrightarrow> (case nl_requests w of [] \<Rightarrow> True | r # rs \<Rightarrow> sent (rt_trace w) \<noteq> [] \<and> last (sent (rt_trace w)) = r)"

text \<open>The timers in the main loop, with their periods.\<close>

fun timer_step :: "rt_env \<Rightarrow> nat \<times> rt_call \<Rightarrow> (nat \<times> u32) list \<Rightarrow> (nat \<times> u32) list" where
  "timer_step env (n, Rt_timer_add s) ts = (nat (re_result env n (Rt_timer_add s)), s) # ts"
| "timer_step env (n, Rt_timer_remove t) ts = filter (\<lambda>x. fst x \<noteq> t) ts"
| "timer_step env (n, c) ts = ts"

definition rt_timers :: "rt_env \<Rightarrow> rt_call list \<Rightarrow> (nat \<times> u32) list" where
  "rt_timers env tr = fold (timer_step env) (enumerate 0 tr) []"

definition least_interval :: "u32 list \<Rightarrow> u32" where
  "least_interval is = (case is of [] \<Rightarrow> - 1 | i # is \<Rightarrow> i)"

text \<open>
  The intervals that were asked for, as long as they are known: then the list holds them in their order, and the interval and the timer
  fit it.
\<close>

definition interval_ok :: "rt_env \<Rightarrow> u32 list option \<Rightarrow> rt_world \<Rightarrow> bool" where
  "interval_ok env asked w \<longleftrightarrow> (\<forall>is. asked = Some is \<longrightarrow>
     update_list w = is \<and> sorted is \<and> (\<forall>i \<in> set is. 0 < i \<and> i < 2 ^ 31) \<and>
     update_interval w = least_interval is \<and> (0 < update_timeout w \<longleftrightarrow> is \<noteq> []) \<and>
     rt_timers env (rt_trace w) = (if is = [] then [] else [(update_timeout w, update_interval w)]))"

definition rt_inv :: "rt_env \<Rightarrow> u32 list option \<Rightarrow> (addr \<Rightarrow> nat) \<Rightarrow> rt_world \<Rightarrow> bool" where
  "rt_inv env asked held w \<longleftrightarrow> ip_wf held (rt_ip w) \<and> interfaces_ok w \<and> channel w \<and> queue_ok w \<and> interval_ok env asked w"

lemma interval_unknown [simp]: "interval_ok env None w"
  by (simp add: interval_ok_def)

lemma inv_unknown: "rt_inv env asked held w \<Longrightarrow> rt_inv env None held w"
  by (simp add: rt_inv_def)

lemma sent_append: "sent (xs @ ys) = sent xs @ sent ys"
  by (simp add: sent_def)

lemma sent_silent: "(\<forall>c \<in> set cs. silent c) \<Longrightarrow> sent cs = []"
proof (induction cs)
  case (Cons c cs)
  then show ?case by (cases c) (auto simp: sent_def)
qed (simp add: sent_def)

lemma timers_append: "rt_timers env (xs @ ys) = fold (timer_step env) (enumerate (length xs) ys) (rt_timers env xs)"
  by (simp add: rt_timers_def enumerate_append_eq)

lemma timers_silent: "(\<forall>c \<in> set cs. silent c) \<Longrightarrow> fold (timer_step env) (enumerate n cs) ts = ts"
proof (induction cs arbitrary: n)
  case (Cons c cs)
  then show ?case by (cases c) auto
qed simp

lemma told_inv:
  assumes "told w v"
  shows "queue_ok v = queue_ok w" "interval_ok env asked v = interval_ok env asked w" "channel v = channel w"
proof -
  obtain cs where cs: "rt_trace v = rt_trace w @ cs" "\<forall>c \<in> set cs. silent c" using assms by (auto simp: told_def)
  have f: "update_list v = update_list w" "update_interval v = update_interval w" "update_timeout v = update_timeout w"
    "nl_requests v = nl_requests w" "channel v = channel w"
    using assms by (simp_all add: told_def)
  have "sent (rt_trace v) = sent (rt_trace w)" "rt_timers env (rt_trace v) = rt_timers env (rt_trace w)"
    using cs by (simp_all add: sent_append sent_silent timers_append timers_silent)
  then show "queue_ok v = queue_ok w" "interval_ok env asked v = interval_ok env asked w" "channel v = channel w"
    by (simp_all only: f queue_ok_def interval_ok_def)
qed

lemma kept_inv: "rt_inv env asked held w \<Longrightarrow> conf_kept held w v \<Longrightarrow> rt_inv env asked held v"
  using told_inv [of w v] by (auto simp: rt_inv_def conf_kept_def)

lemma inv_kept: "rt_inv env asked held w \<Longrightarrow> conf_kept held w w"
  by (simp add: rt_inv_def conf_kept_def)

section \<open>Requests\<close>

lemma send_inv:
  assumes "ip_wf held (rt_ip w)" "interfaces_ok w" "channel w" "interval_ok env asked w" and "nl_requests w = r # rs"
  shows "succeeds (send_rtnl_request env r w) (\<lambda>x. rt_inv env asked held (snd x))"
  using assms
  by (simp add: send_rtnl_request_def rt_ask_def rt_tell_def rt_inv_def queue_ok_def interfaces_ok_def interval_ok_def sent_append timers_append)
    (simp add: sent_def)

lemma same_parts:
  "interfaces_ok (w\<lparr>nl_requests := rs\<rparr>) = interfaces_ok w" "interval_ok env asked (w\<lparr>nl_requests := rs\<rparr>) = interval_ok env asked w"
  "interfaces_ok (w\<lparr>request_seq := n\<rparr>) = interfaces_ok w" "interval_ok env asked (w\<lparr>request_seq := n\<rparr>) = interval_ok env asked w"
  "queue_ok (w\<lparr>request_seq := n\<rparr>) = queue_ok w"
  by (simp_all add: interfaces_ok_def interval_ok_def queue_ok_def cong: list.case_cong)

lemma response_inv:
  assumes "rt_inv env asked held w"
  shows "succeeds (process_response env seq w) (\<lambda>x. rt_inv env asked held (snd x))"
proof -
  define v where "v = (case find_rtnl_request seq w of None \<Rightarrow> w | Some req \<Rightarrow> w\<lparr>nl_requests := remove1 req (nl_requests w)\<rparr>)"
  have v: "ip_wf held (rt_ip v)" "interfaces_ok v" "channel v" "interval_ok env asked v"
    using assms by (auto simp: v_def rt_inv_def same_parts split: option.splits)
  show ?thesis unfolding process_response_def Let_def v_def [symmetric]
    using v send_inv [OF v] by (cases "nl_requests v") (auto simp: rt_inv_def queue_ok_def)
qed

lemma queue_inv:
  assumes "rt_inv env asked held w"
  shows "succeeds (queue_request env req w) (\<lambda>x. rt_inv env asked held (snd x))"
proof (cases "nl_requests w")
  case Nil
  then show ?thesis using assms send_inv [of held "w\<lparr>nl_requests := [req]\<rparr>" env asked req "[]"]
    by (simp add: queue_request_def rt_inv_def same_parts)
next
  case (Cons r rs)
  then show ?thesis using assms by (simp add: queue_request_def rt_inv_def same_parts queue_ok_def)
qed

lemma new_request_inv:
  assumes "rt_inv env asked held w"
  shows "succeeds (new_request env type w) (\<lambda>x. rt_inv env asked held (snd x))"
proof -
  have a: "rt_inv env asked held (rt_tell Rt_alloc w)" using kept_inv [OF assms kept_tell [OF inv_kept [OF assms]]] by simp
  then have "rt_inv env asked held (rt_tell Rt_alloc w\<lparr>request_seq := n\<rparr>)" for n by (simp add: rt_inv_def same_parts)
  then show ?thesis using a queue_inv by (simp add: new_request_def rt_ask_def Let_def)
qed

lemma start_inv: "rt_inv env asked held w \<Longrightarrow> succeeds (rtnl_start env w) (rt_inv env asked held)"
  unfolding rtnl_start_def send_getlink_def send_getaddr_def send_getroute_def
  by (simp add: split_beta) (rule new_request_inv | rule succeeds_mono [OF new_request_inv] | assumption)+

section \<open>Datagrams\<close>

lemma ends_known: "ends m (\<lambda>x. True) F \<Longrightarrow> (\<And>x. m = Inr x \<Longrightarrow> P x) \<Longrightarrow> ends m P F"
  by (cases m) simp_all

lemma ends_if: "(c \<Longrightarrow> ends a P F) \<Longrightarrow> (\<not> c \<Longrightarrow> ends b P F) \<Longrightarrow> ends (if c then a else b) P F"
  by simp

lemma handle_one_ends:
  assumes r: "roomy F buf (int hdr + int (unat n) + 8)" and n: "nl_u32 buf hdr = Inr n" "16 \<le> unat n"
    and f: "NullDeref \<in> F" "Uninitialised \<in> F" "type = RTM_NEWNDUSEROPT \<longrightarrow> OutOfBounds \<in> F" and i: "rt_inv env asked held w"
  shows "ends (handle_one env type hdr buf w) (\<lambda>y. (type \<noteq> RTM_NEWNDUSEROPT \<longrightarrow> fst (snd y) = buf) \<and> rt_inv env asked held (snd (snd y))) F"
    (is "ends _ ?Q F")
proof -
  note k = inv_kept [OF i] and k' = kept_inv [OF i]
  have r': "roomy F buf (int hdr + int (unat n))" by (rule roomy_less [OF r]) simp
  have plain: "ends (bind_r m (\<lambda>v. Inr (False, buf, v))) ?Q F" if "ends m (conf_kept held w) F" for m
    unfolding ends_bind using ends_mono [OF that] k' by simp
  have same: "ends (Inr (b, buf, w)) ?Q F" for b using i by simp
  have resp: "ends (bind_r (nl_u32 buf (hdr + 8)) (\<lambda>seq. bind_r (process_response env seq w) (\<lambda>(r, w1). Inr (True, buf, w1)))) ?Q F"
    unfolding ends_bind by (rule ends_read [OF r], use n(2) in simp, rule ends_mono [OF ends_succeeds [OF response_inv [OF i]]]) auto
  have nd: "ends (bind_r (rtnl_newnduseropt env buf hdr w) (\<lambda>x. Inr (False, x))) ?Q F" if "type = RTM_NEWNDUSEROPT"
    unfolding ends_bind by (rule ends_mono [OF nduseropt_ends [OF _ f(1) k]]) (use f(3) that k' in auto)
  show ?thesis unfolding handle_one_def Let_def
    by (intro ends_if same resp plain nd link_message_ends [OF r n f(1) k] addr_message_ends [OF r' n f(2) k] route_message_ends [OF r' n f(2) k])
qed

text \<open>The types of the messages of a datagram, as the loop walks over it.\<close>

function message_types :: "nat \<Rightarrow> nat \<Rightarrow> u8 list \<Rightarrow> u16 list" where
  "message_types hdr len buf =
     (if len < 16 then []
      else
        case nl_u32 buf hdr of
          Inl e \<Rightarrow> []
        | Inr n \<Rightarrow>
            if unat n < 16 \<or> len < unat n then []
            else (case nl_u16 buf (hdr + 4) of Inl e \<Rightarrow> [] | Inr type \<Rightarrow> type # message_types (hdr + unat n) (len - unat n) buf))"
  by pat_completeness auto

termination message_types
  by (relation "measure (\<lambda>(hdr, len, buf). len)") auto

declare message_types.simps [simp del]

lemma rtnl_message_ends:
  assumes "roomy F buf (int hdr + int len + 8)" and f: "NullDeref \<in> F" "Uninitialised \<in> F"
    and "OutOfBounds \<in> F \<or> RTM_NEWNDUSEROPT \<notin> set (message_types hdr len buf)" and "rt_inv env asked held w"
  shows "ends (rtnl_message env hdr len buf w) (rt_inv env asked held) F"
  using assms(1,4,5)
proof (induction env hdr len buf w rule: rtnl_message.induct)
  case (1 env hdr len buf w)
  have step: "ends (handle_one env type hdr buf w) (\<lambda>(stop, buf1, w1). ends (if stop then Inr w1 else rtnl_message env (hdr + unat n) (len - unat n) buf1 w1)
      (rt_inv env asked held) F) F"
    if n: "\<not> len < 16" "nl_u32 buf hdr = Inr n" "\<not> (unat n < 16 \<or> len < unat n)" "nl_u16 buf (hdr + 4) = Inr type" for n type
  proof -
    have t: "message_types hdr len buf = type # message_types (hdr + unat n) (len - unat n) buf"
      by (simp only: message_types.simps [of hdr len] n if_False sum.case)
    have r: "roomy F buf (int hdr + int (unat n) + 8)" by (rule roomy_less [OF 1(2)]) (use n(3) in linarith)
    have b: "rt_inv env asked held w1 \<Longrightarrow> (type \<noteq> RTM_NEWNDUSEROPT \<longrightarrow> buf1 = buf) \<Longrightarrow>
        ends (rtnl_message env (hdr + unat n) (len - unat n) buf1 w1) (rt_inv env asked held) F" if "\<not> stop" for stop buf1 w1
      using 1(1) [OF n(1,3) that, of buf1 w1] 1(2,3) n(3) t by (auto simp: roomy_def)
    show ?thesis
      by (rule ends_mono [OF handle_one_ends [OF r n(2) _ f _ 1(4)]]) (use b t 1(3) n(3) in \<open>auto split: prod.splits\<close>)
  qed
  show ?case
  proof (cases "len < 16")
    case False
    have rd: "ends (nl_u32 buf hdr) (\<lambda>x. True) F" "ends (nl_u16 buf (hdr + 4)) (\<lambda>x. True) F" by (intro ends_read [OF 1(2)]; simp)+
    show ?thesis unfolding rtnl_message.simps [of env hdr len] if_not_P [OF False] ends_bind
      by (rule ends_known [OF rd(1)], rule ends_if, simp add: 1(4), simp only: ends_bind, rule ends_known [OF rd(2)])
        (rule ends_mono [OF step [OF False]], assumption+, auto simp: split_beta)
  qed (use 1(4) in \<open>simp add: rtnl_message.simps\<close>)
qed

text \<open>The buffer of a datagram, and the types of the messages in it.\<close>

definition datagram_buf :: "u8 list \<Rightarrow> u8 list" where "datagram_buf bs = take 4096 (bs @ replicate 4096 0)"

lemma datagram_roomy: "length bs \<le> 3988 \<Longrightarrow> roomy F (datagram_buf bs) (int (length bs) + 8)"
  by (auto simp: roomy_def datagram_buf_def last_append)

lemma netlink_event_ends:
  assumes i: "rt_inv env asked held w"
  shows "ends (netlink_event env error recv w) (\<lambda>x. rt_inv env asked held (snd x)) {OutOfBounds, NullDeref, Uninitialised}"
    "(\<And>bs pid. recv = Nl_data bs pid \<Longrightarrow> length bs \<le> 3988 \<and> RTM_NEWNDUSEROPT \<notin> set (message_types 0 (length bs) (datagram_buf bs))) \<Longrightarrow>
     ends (netlink_event env error recv w) (\<lambda>x. rt_inv env asked held (snd x)) {NullDeref, Uninitialised}"
proof -
  show "ends (netlink_event env error recv w) (\<lambda>x. rt_inv env asked held (snd x)) {OutOfBounds, NullDeref, Uninitialised}"
    using i by (auto simp: netlink_event_def Let_def roomy_def split: nl_recv.splits intro!: ends_mono [OF rtnl_message_ends])
  have "ends (rtnl_message env 0 (min (length bs) 4096) (datagram_buf bs) w) (rt_inv env asked held) {NullDeref, Uninitialised}"
    if "length bs \<le> 3988" "RTM_NEWNDUSEROPT \<notin> set (message_types 0 (length bs) (datagram_buf bs))" for bs
    using that i by (intro rtnl_message_ends) (simp_all add: datagram_roomy min_absorb1)
  then show "(\<And>bs pid. recv = Nl_data bs pid \<Longrightarrow> length bs \<le> 3988 \<and> RTM_NEWNDUSEROPT \<notin> set (message_types 0 (length bs) (datagram_buf bs))) \<Longrightarrow>
     ends (netlink_event env error recv w) (\<lambda>x. rt_inv env asked held (snd x)) {NullDeref, Uninitialised}"
    using i by (auto simp: netlink_event_def Let_def datagram_buf_def split: nl_recv.splits)
qed

section \<open>The update interval\<close>

text \<open>
  What GLib documents: a timer has a positive identifier, and a sorted insertion keeps the order. The comparison of the code is
  the order of the intervals below \<open>2 ^ 31\<close>.
\<close>

definition rt_system :: "rt_env \<Rightarrow> bool" where
  "rt_system env \<longleftrightarrow> (\<forall>n s. 0 < re_result env n (Rt_timer_add s)) \<and>
     (\<forall>x xs. sorted xs \<and> (\<forall>y \<in> set (x # xs). y < 2 ^ 31) \<longrightarrow> re_insert_interval env x xs = insort x xs)"

text \<open>What a call makes of the intervals; one that the comparison does not order leaves them unknown.\<close>

definition asked_add :: "u32 \<Rightarrow> u32 list option \<Rightarrow> u32 list option" where
  "asked_add i asked = (if i = 0 then asked else if i < 2 ^ 31 then map_option (insort i) asked else None)"

lemma interval_below: "i < 2 ^ 31 \<Longrightarrow> i < (- 1 :: u32)"
  by (rule less_trans, assumption) code_simp

lemma callback_ok:
  assumes "rt_system env" and "sorted is" "\<forall>i \<in> set is. 0 < i \<and> i < 2 ^ 31" and "interval_ok env (Some js) w"
  shows "interval_ok env (Some is) (update_interval_callback env (least_interval is) (w\<lparr>update_list := is\<rparr>))"
proof -
  have m: "least_interval is < - 1 \<longleftrightarrow> is \<noteq> []"
  proof (cases "is")
    case (Cons i js)
    then have "i < 2 ^ 31" using assms(3) by simp
    then show ?thesis using Cons interval_below [of i] by (simp add: least_interval_def)
  qed (simp add: least_interval_def)
  have t: "0 < nat (re_result env n (Rt_timer_add s))" for n s using assms(1) by (simp add: rt_system_def)
  have e: "rt_timers env (if 0 < update_timeout w then rt_trace w @ [Rt_timer_remove (update_timeout w)] else rt_trace w) = []"
    using assms(4) by (auto simp: interval_ok_def timers_append)
  show ?thesis
    using assms(2,3) e t m
    by (cases "is = []") (auto simp: interval_ok_def update_interval_callback_def Let_def rt_ask_def rt_tell_def timers_append least_interval_def split: list.splits if_splits)
qed

lemma least_sorted:
  assumes "sorted is" and "i \<in> set is"
  shows "least_interval is \<le> i"
  using assms by (cases "is") (auto simp: least_interval_def)

lemma callback_inv:
  assumes i: "rt_inv env asked held w" and "interval_ok env later (update_interval_callback env n (w\<lparr>update_list := is\<rparr>))"
  shows "rt_inv env later held (update_interval_callback env n (w\<lparr>update_list := is\<rparr>))"
proof -
  let ?v = "update_interval_callback env n (w\<lparr>update_list := is\<rparr>)"
  have s: "sent [Rt_timer_remove t] = []" "sent [Rt_timer_add x] = []" for t x by (simp_all add: sent_def)
  have "sent (rt_trace ?v) = sent (rt_trace w)" "nl_requests ?v = nl_requests w" "rt_ip ?v = rt_ip w" "channel ?v = channel w"
    "interface_list ?v = interface_list w" "interface_freed ?v = interface_freed w"
    by (simp_all add: update_interval_callback_def Let_def rt_ask_def rt_tell_def sent_append s)
  then show ?thesis using i assms(2) by (simp add: rt_inv_def interfaces_ok_def queue_ok_def cong: list.case_cong)
qed

lemma list_inv:
  assumes "rt_inv env asked held w" and "interval_ok env later (w\<lparr>update_list := is\<rparr>)"
  shows "rt_inv env later held (w\<lparr>update_list := is\<rparr>)"
  using assms by (simp add: rt_inv_def interfaces_ok_def queue_ok_def cong: list.case_cong)

text \<open>Adding an interval, with what is then known of the list and after a callback for its least interval.\<close>

lemma interval_add_cases:
  assumes i: "rt_inv env asked held w" and z: "interval \<noteq> 0" and js: "js = re_insert_interval env interval (update_list w)"
    and new: "(case js of [] \<Rightarrow> 0 | x # xs \<Rightarrow> x) < update_interval w \<Longrightarrow>
      interval_ok env later (update_interval_callback env (case js of [] \<Rightarrow> 0 | x # xs \<Rightarrow> x) (w\<lparr>update_list := js\<rparr>))"
    and old: "\<not> (case js of [] \<Rightarrow> 0 | x # xs \<Rightarrow> x) < update_interval w \<Longrightarrow> interval_ok env later (w\<lparr>update_list := js\<rparr>)"
  shows "succeeds (rtnl_update_interval_add env interval w) (\<lambda>x. rt_inv env later held (snd x))"
proof -
  let ?m = "case js of [] \<Rightarrow> 0 | x # xs \<Rightarrow> x"
  have "succeeds (rtnl_request_update env (update_interval_callback env ?m (w\<lparr>update_list := js\<rparr>))) (\<lambda>x. rt_inv env later held (snd x))"
    if "?m < update_interval w"
    unfolding rtnl_request_update_def send_getlink_def by (rule new_request_inv [OF callback_inv [OF i new [OF that]]])
  moreover have "rt_inv env later held (w\<lparr>update_list := js\<rparr>)" if "\<not> ?m < update_interval w"
    by (rule list_inv [OF i old [OF that]])
  ultimately show ?thesis using z by (simp add: rtnl_update_interval_add_def Let_def js [symmetric] split_beta)
qed

lemma interval_added:
  assumes sys: "rt_system env" and ok: "interval_ok env (Some is) w" and b: "interval < 2 ^ 31" "interval \<noteq> 0"
    and js: "js = re_insert_interval env interval (update_list w)"
  shows "js = insort interval is" and "(case js of [] \<Rightarrow> 0 | x # xs \<Rightarrow> x) = least_interval js"
    and "interval_ok env (Some js) (update_interval_callback env (least_interval js) (w\<lparr>update_list := js\<rparr>))"
    and "\<not> least_interval js < update_interval w \<Longrightarrow> interval_ok env (Some js) (w\<lparr>update_list := js\<rparr>)"
proof -
  show ins: "js = insort interval is" using sys ok b by (auto simp: rt_system_def interval_ok_def js)
  have srt: "sorted js" "set js = insert interval (set is)" using ok by (simp_all add: ins sorted_insort set_insort_key interval_ok_def)
  then have ne: "js \<noteq> []" "\<forall>j \<in> set js. 0 < j \<and> j < 2 ^ 31" using ok b by (auto simp: interval_ok_def word_gt_0)
  have min: "least_interval js \<in> set js" using ne(1) by (simp add: least_interval_def split: list.splits)
  show "(case js of [] \<Rightarrow> 0 | x # xs \<Rightarrow> x) = least_interval js" using ne(1) by (simp add: least_interval_def split: list.splits)
  show "interval_ok env (Some js) (update_interval_callback env (least_interval js) (w\<lparr>update_list := js\<rparr>))"
    by (rule callback_ok [OF sys srt(1) ne(2) ok])
  assume h: "\<not> least_interval js < update_interval w"
  have l: "update_interval w = least_interval is" using ok by (simp add: interval_ok_def)
  have lt: "least_interval js < - 1" using min ne(2) interval_below by blast
  have u: "is \<noteq> []" using h l lt by (auto simp: least_interval_def)
  then have "update_interval w \<in> set js" using l srt(2) by (cases "is") (simp_all add: least_interval_def)
  then have "least_interval js = update_interval w" using least_sorted [OF srt(1)] h by force
  then show "interval_ok env (Some js) (w\<lparr>update_list := js\<rparr>)" using ok u ne srt(1) by (simp add: interval_ok_def)
qed

lemma interval_add_inv:
  assumes sys: "rt_system env" and i: "rt_inv env asked held w"
  shows "succeeds (rtnl_update_interval_add env interval w) (\<lambda>x. rt_inv env (asked_add interval asked) held (snd x))"
proof (cases "interval = 0")
  case z: False
  show ?thesis
  proof (cases "asked = None \<or> \<not> interval < 2 ^ 31")
    case True
    then have "asked_add interval asked = None" using z by (auto simp: asked_add_def)
    then show ?thesis by (simp only:) (rule interval_add_cases [OF i z refl]; simp)
  next
    case False
    then obtain "is" where a: "asked = Some is" "interval < 2 ^ 31" by auto
    have ok: "interval_ok env (Some is) w" using i a by (simp add: rt_inv_def)
    note add = interval_added [OF sys ok a(2) z refl]
    have "asked_add interval asked = Some (re_insert_interval env interval (update_list w))"
      using a z add(1) by (simp add: asked_add_def)
    then show ?thesis by (simp only:) (rule interval_add_cases [OF i z refl]; simp add: add(2-4))
  qed
qed (use i in \<open>simp add: rtnl_update_interval_add_def asked_add_def\<close>)

lemma interval_removed:
  assumes sys: "rt_system env" and ok: "interval_ok env (Some is) w"
  shows "interval_ok env (Some (remove1 interval is)) (update_interval_callback env (least_interval (remove1 interval is)) (w\<lparr>update_list := remove1 interval is\<rparr>))"
    and "\<not> least_interval (remove1 interval is) > update_interval w \<Longrightarrow> interval_ok env (Some (remove1 interval is)) (w\<lparr>update_list := remove1 interval is\<rparr>)"
proof -
  let ?js = "remove1 interval is"
  have js: "sorted ?js" "\<forall>j \<in> set ?js. 0 < j \<and> j < 2 ^ 31"
    using ok set_remove1_subset [of interval "is"] by (auto simp: interval_ok_def sorted_remove1)
  show "interval_ok env (Some ?js) (update_interval_callback env (least_interval ?js) (w\<lparr>update_list := ?js\<rparr>))"
    by (rule callback_ok [OF sys js ok])
  assume h: "\<not> least_interval ?js > update_interval w"
  have l: "update_interval w = least_interval is" using ok by (simp add: interval_ok_def)
  have lt: "is \<noteq> [] \<Longrightarrow> update_interval w < - 1"
    using l ok interval_below by (cases "is") (simp_all add: least_interval_def interval_ok_def)
  have u: "?js = [] \<longleftrightarrow> is = []" using h lt by (cases "is = []") (auto simp: least_interval_def)
  have "least_interval ?js \<in> set is" if "?js \<noteq> []"
    using that set_remove1_subset [of interval "is"] by (cases ?js) (auto simp: least_interval_def)
  then have "least_interval ?js = update_interval w"
    using u l h ok least_sorted [of "is" "least_interval ?js"] by (cases "?js = []") (auto simp: interval_ok_def least_interval_def)
  then show "interval_ok env (Some ?js) (w\<lparr>update_list := ?js\<rparr>)" using ok js u by (simp add: interval_ok_def)
qed

lemma interval_remove_inv:
  assumes sys: "rt_system env" and i: "rt_inv env asked held w"
  shows "rt_inv env (map_option (remove1 interval) asked) held (snd (rtnl_update_interval_remove env interval w))"
proof (cases "interval = 0")
  case z: True
  have "remove1 interval is = is" if "asked = Some is" for "is"
    using i that z by (intro remove1_idem) (auto simp: rt_inv_def interval_ok_def)
  then have "map_option (remove1 interval) asked = asked" by (cases asked) simp_all
  then show ?thesis using i z by (simp add: rtnl_update_interval_remove_def)
next
  case z: False
  let ?js = "remove1 interval (update_list w)"
  have e: "interval_ok env (map_option (remove1 interval) asked) (update_interval_callback env (least_interval ?js) (w\<lparr>update_list := ?js\<rparr>)) \<and>
      (\<not> least_interval ?js > update_interval w \<longrightarrow> interval_ok env (map_option (remove1 interval) asked) (w\<lparr>update_list := ?js\<rparr>))"
  proof (cases asked)
    case (Some "is")
    have ok: "interval_ok env (Some is) w" using i Some by (simp add: rt_inv_def)
    then have "update_list w = is" by (simp add: interval_ok_def)
    then show ?thesis using interval_removed [OF sys ok, of interval] Some by simp
  qed simp
  show ?thesis using z callback_inv [OF i, of _ "least_interval ?js" ?js] list_inv [OF i, of _ ?js] e
    by (simp add: rtnl_update_interval_remove_def Let_def least_interval_def split: list.splits)
qed

section \<open>The machine\<close>

lemma gateway_from_index_total:
  assumes "ip_wf held w"
  shows "succeeds (ipconfig_get_gateway_from_index i w) (\<lambda>g. True)"
proof (cases "device_of w i")
  case (Some d)
  have live: "\<exists>c. iw_configs w p = Some c" if "p \<in> set (device_slots d)" for p
    using device_slots_live [OF assms Some] that by blast
  have "succeeds (slot_gateway (id_config_ipv4 d) w) (\<lambda>g. True)" "succeeds (slot_gateway (id_config_ipv6 d) w) (\<lambda>g. True)"
    using live [of "the (id_config_ipv4 d)"] live [of "the (id_config_ipv6 d)"]
    by (auto simp: slot_gateway_def device_slots_def config_of_def split: option.splits)
  then show ?thesis using Some by (auto simp: ipconfig_get_gateway_from_index_def elim!: succeeds_mono split: option.splits)
qed (simp add: ipconfig_get_gateway_from_index_def)

lemma trigger_kept:
  assumes "conf_kept held w v"
  shows "succeeds (trigger_rtnl rtnl index v) (conf_kept held w)"
proof -
  define u where "u = (if rm_newlink rtnl then rt_tell (Module_newlink (rm_module rtnl) (ipconfig_get_type_from_index index (rt_ip v)) index
      (ipconfig_get_flags_from_index index (rt_ip v)) 0) v else v)"
  have u: "conf_kept held w u" using assms by (simp add: u_def kept_tell)
  then have "succeeds (ipconfig_get_gateway_from_index index (rt_ip u)) (\<lambda>g. True)" by (intro gateway_from_index_total [of held]) (simp add: conf_kept_def)
  then show ?thesis unfolding trigger_rtnl_def Let_def u_def [symmetric]
    using u by (auto simp: kept_tell elim!: succeeds_mono split: option.splits)
qed

lemma register_inv:
  assumes "rt_inv env asked held w"
  shows "succeeds (rtnl_register env rtnl w) (\<lambda>x. rt_inv env asked held (snd x))"
proof -
  let ?v = "w\<lparr>rtnl_list := re_insert_module env rtnl (rtnl_list w)\<rparr>"
  have k: "conf_kept held w ?v" using inv_kept [OF assms] by (simp add: conf_kept_def told_def interfaces_ok_def)
  have t: "succeeds (bind_r m (trigger_rtnl rtnl a)) (conf_kept held w)" if "succeeds m (conf_kept held w)" for m a
    unfolding succeeds_bind using that by (rule succeeds_mono) (rule trigger_kept)
  have "succeeds m (conf_kept held w) \<Longrightarrow> succeeds (fold (\<lambda>index m. bind_r m (trigger_rtnl rtnl index)) is m) (conf_kept held w)" for "is" m
    by (induction "is" arbitrary: m) (simp_all add: t del: succeeds_bind)
  from this [of "Inr ?v"] show ?thesis
    using k kept_inv [OF assms]
    by (auto simp: rtnl_register_def ipconfig_foreach_def Let_def simp del: fold_map split: option.splits intro: succeeds_mono)
qed

lemma watch_inv:
  assumes "rt_inv env asked held w"
  shows "rt_inv env asked held (snd (rtnl_add_newlink_watch env index callback user_data w))" "rt_inv env asked held (rtnl_remove_watch wid w)"
    "rt_inv env asked held (rtnl_unregister rtnl w)"
proof -
  have k: "conf_kept held w (v\<lparr>watch_id := x, watch_list := y\<rparr>)" if "conf_kept held w v" for v x y
    using that by (simp add: conf_kept_def told_def interfaces_ok_def)
  show "rt_inv env asked held (snd (rtnl_add_newlink_watch env index callback user_data w))"
    by (rule kept_inv [OF assms])
      (simp add: rtnl_add_newlink_watch_def rt_ask_def Let_def kept_tell inv_kept [OF assms] k)
  show "rt_inv env asked held (rtnl_remove_watch wid w)" "rt_inv env asked held (rtnl_unregister rtnl w)"
    by (rule kept_inv [OF assms]; use inv_kept [OF assms] in \<open>simp add: rtnl_remove_watch_def rtnl_unregister_def conf_kept_def told_def interfaces_ok_def\<close>)+
qed

datatype rt_event =
    Datagram bool nl_recv
  | Update_tick
  | Request_update
  | Start
  | Add_watch int bool nat
  | Remove_watch u32
  | Register connman_rtnl
  | Unregister connman_rtnl
  | Interval_add u32
  | Interval_remove u32
  | Configuration ip_event

type_synonym rt_state = "(addr \<Rightarrow> nat) \<times> rt_world"

text \<open>
  The guard of the machine, which the code does not have: the configurations are used as the machine of their component permits. All
  other events happen in any order.
\<close>

fun rt_permitted :: "rt_state \<Rightarrow> rt_event \<Rightarrow> bool" where
  "rt_permitted s (Configuration e) = permitted (fst s) (rt_ip (snd s)) e"
| "rt_permitted s e = True"

definition holding :: "(addr \<Rightarrow> nat) \<Rightarrow> ('a \<times> rt_world) result \<Rightarrow> rt_state result" where
  "holding held m = bind_r m (\<lambda>x. Inr (held, snd x))"

fun rt_handle :: "rt_env \<Rightarrow> rt_event \<Rightarrow> rt_state \<Rightarrow> rt_state result" where
  "rt_handle env (Datagram error recv) (held, w) = holding held (netlink_event env error recv w)"
| "rt_handle env Update_tick (held, w) = holding held (update_timeout_cb env w)"
| "rt_handle env Request_update (held, w) = holding held (rtnl_request_update env w)"
| "rt_handle env Start (held, w) = bind_r (rtnl_start env w) (\<lambda>v. Inr (held, v))"
| "rt_handle env (Add_watch index callback user_data) (held, w) = Inr (held, snd (rtnl_add_newlink_watch env index callback user_data w))"
| "rt_handle env (Remove_watch wid) (held, w) = Inr (held, rtnl_remove_watch wid w)"
| "rt_handle env (Register rtnl) (held, w) = holding held (rtnl_register env rtnl w)"
| "rt_handle env (Unregister rtnl) (held, w) = Inr (held, rtnl_unregister rtnl w)"
| "rt_handle env (Interval_add i) (held, w) = holding held (rtnl_update_interval_add env i w)"
| "rt_handle env (Interval_remove i) (held, w) = Inr (held, snd (rtnl_update_interval_remove env i w))"
| "rt_handle env (Configuration e) (held, w) = bind_r (ip_handle (re_ip env) e held (rt_ip w)) (\<lambda>x. Inr (fst x, w\<lparr>rt_ip := snd x\<rparr>))"

fun rt_run :: "rt_env \<Rightarrow> rt_event list \<Rightarrow> rt_state \<Rightarrow> rt_state result" where
  "rt_run env [] s = Inr s"
| "rt_run env (e # es) s = (if rt_permitted s e then bind_r (rt_handle env e s) (rt_run env es) else rt_run env es s)"

text \<open>The intervals that the events ask for, and those that they leave.\<close>

fun asked_after :: "rt_event \<Rightarrow> u32 list option \<Rightarrow> u32 list option" where
  "asked_after (Interval_add i) asked = asked_add i asked"
| "asked_after (Interval_remove i) asked = map_option (remove1 i) asked"
| "asked_after e asked = asked"

definition rt_boot :: rt_world where
  "rt_boot = \<lparr>watch_list = [], watch_id = 0, update_list = [], update_interval = - 1, update_timeout = 0, interface_list = None, interface_freed = False,
     rtnl_list = [], nl_requests = [], request_seq = 0, channel = False, rt_ip = ip_boot, rt_trace = []\<rparr>"

lemma init_inv:
  assumes "fst (rtnl_init env rt_boot) = 0"
  shows "rt_inv env (Some []) (\<lambda>p. 0) (snd (rtnl_init env rt_boot))"
proof -
  have "rtnl_init env rt_boot = (0, rt_boot\<lparr>interface_list := Some [], channel := True, rt_trace := [Rt_socket, Rt_bind]\<rparr>)"
    using assms by (auto simp: rtnl_init_def Let_def rt_ask_def rt_tell_def rt_boot_def split: if_splits)
  moreover have "ip_wf (\<lambda>p. 0) ip_boot" by (simp add: ip_boot_def ip_wf_def ip_ok_def devices_def devices_ok_def)
  ultimately show ?thesis
    by (simp add: rt_inv_def rt_boot_def interfaces_ok_def queue_ok_def interval_ok_def least_interval_def rt_timers_def)
qed

lemma rt_handle_ends:
  assumes sys: "rt_system env" and i: "rt_inv env asked held w" and p: "rt_permitted (held, w) e"
    and d: "\<And>error recv. e = Datagram error recv \<Longrightarrow> ends (netlink_event env error recv w) (\<lambda>x. rt_inv env asked held (snd x)) F"
  shows "ends (rt_handle env e (held, w)) (\<lambda>s. rt_inv env (asked_after e asked) (fst s) (snd s)) F"
proof -
  have h: "ends (holding held m) (\<lambda>s. rt_inv env later (fst s) (snd s)) F" if "succeeds m (\<lambda>x. rt_inv env later held (snd x))"
    for m :: "('a \<times> rt_world) result" and later
    using that by (simp add: holding_def ends_succeeds)
  show ?thesis
  proof (cases e)
    case (Configuration x)
    have "ip_wf held (rt_ip w)" using i by (simp add: rt_inv_def)
    with Configuration show ?thesis using handle_total [of held "rt_ip w" x "re_ip env"] p i
      by (auto simp: succeeds_def rt_inv_def interfaces_ok_def queue_ok_def interval_ok_def cong: list.case_cong)
  next
    case (Datagram error recv)
    then show ?thesis using d by (simp add: holding_def)
  next
    case (Interval_add j)
    then show ?thesis using interval_add_inv [OF sys i] by (simp add: h)
  next
    case (Interval_remove j)
    then show ?thesis using interval_remove_inv [OF sys i] by simp
  qed (use new_request_inv [OF i] start_inv [OF i] register_inv [OF i] watch_inv [OF i] in
      \<open>simp_all add: h ends_succeeds update_timeout_cb_def rtnl_request_update_def send_getlink_def split_beta\<close>)
qed

lemma asked_skip: "\<not> rt_permitted s e \<Longrightarrow> asked_after e asked = asked"
  by (cases e) simp_all

lemma rt_run_ends:
  assumes sys: "rt_system env" and "rt_inv env asked (fst s) (snd s)"
    and d: "\<And>error recv asked held w. Datagram error recv \<in> set es \<Longrightarrow> rt_inv env asked held w \<Longrightarrow>
      ends (netlink_event env error recv w) (\<lambda>x. rt_inv env asked held (snd x)) F"
  shows "ends (rt_run env es s) (\<lambda>t. rt_inv env (fold asked_after es asked) (fst t) (snd t)) F"
  using assms(2) d
proof (induction es arbitrary: s asked)
  case (Cons e es)
  have "ends (rt_handle env e s) (\<lambda>t. rt_inv env (asked_after e asked) (fst t) (snd t)) F" if "rt_permitted s e"
    using rt_handle_ends [OF sys, of asked "fst s" "snd s" e F] Cons.prems that by simp
  then show ?case using Cons asked_skip [of s e asked] by (auto intro: ends_mono)
qed simp

text \<open>A datagram that leaves room in the buffer and has no message about router advertisements.\<close>

fun roomy_event :: "rt_event \<Rightarrow> bool" where
  "roomy_event (Datagram error (Nl_data bs pid)) \<longleftrightarrow>
     length bs \<le> 3988 \<and> RTM_NEWNDUSEROPT \<notin> set (message_types 0 (length bs) (datagram_buf bs))"
| "roomy_event e \<longleftrightarrow> True"

lemma run_outcomes:
  assumes "rt_system env" and "fst (rtnl_init env rt_boot) = 0"
  shows "ends (rt_run env es (\<lambda>p. 0, snd (rtnl_init env rt_boot))) (\<lambda>t. rt_inv env (fold asked_after es (Some [])) (fst t) (snd t)) {OutOfBounds, NullDeref, Uninitialised}"
    "\<forall>e \<in> set es. roomy_event e \<Longrightarrow>
     ends (rt_run env es (\<lambda>p. 0, snd (rtnl_init env rt_boot))) (\<lambda>t. rt_inv env (fold asked_after es (Some [])) (fst t) (snd t)) {NullDeref, Uninitialised}"
  using init_inv [OF assms(2)] by (auto intro!: rt_run_ends [OF assms(1)] netlink_event_ends)

end
