(* ===== verification/Rtnl_Properties.thy ===== *)
theory Rtnl_Properties
  imports Rtnl_Machine Ipconfig_Properties
begin

text \<open>
  Properties of the netlink component: what any events leave of the state, what a datagram of well-formed messages does, the
  order of requests, the update interval, and reads outside the receive buffer.
\<close>

section \<open>Requests in their order\<close>

definition done_datagram :: "rtnl_request \<Rightarrow> u8 list" where
  "done_datagram r = enc_message NLMSG_DONE (nr_seq r) (bytes32 0)"

definition answer :: "rt_env \<Rightarrow> rtnl_request \<Rightarrow> rt_world result \<Rightarrow> rt_world result" where
  "answer env r m = bind_r m (\<lambda>w. bind_r (netlink_event env False (Nl_data (done_datagram r) 0) w) (\<lambda>x. Inr (snd x)))"

lemma done_event:
  "netlink_event env False (Nl_data (done_datagram r) 0) w = bind_r (process_response env (nr_seq r) w) (\<lambda>x. Inr (True, snd x))"
proof -
  let ?h = "bytes32 20 @ bytes16 NLMSG_DONE @ bytes16 0"
  define buf where "buf = take 4096 (done_datagram r @ replicate 4096 0)"
  have b: "buf = ?h @ bytes32 (nr_seq r) @ bytes32 0 @ bytes32 0 @ replicate 4076 0"
    by (simp add: buf_def done_datagram_def enc_message_def)
  have "nl_u32 buf 0 = Inr 20" by (rule nl_u32_at [of _ "[]"]) (simp_all add: b)
  moreover have "nl_u16 buf 4 = Inr NLMSG_DONE" by (rule nl_u16_at [of _ "bytes32 20"]) (simp_all add: b)
  moreover have "nl_u32 buf 8 = Inr (nr_seq r)" by (rule nl_u32_at [of _ ?h]) (simp_all add: b)
  ultimately have "rtnl_message env 0 20 buf w = bind_r (process_response env (nr_seq r) w) (\<lambda>x. Inr (snd x))"
    unfolding rtnl_message.simps [of env 0 20 buf w]
    by (cases "process_response env (nr_seq r) w") (auto simp: handle_one_def NLMSG_DONE_def NLMSG_NOOP_def NLMSG_OVERRUN_def)
  moreover have l: "length (done_datagram r) = 20" by (simp add: done_datagram_def enc_message_def)
  moreover from this have "done_datagram r \<noteq> []" by force
  moreover have "buf = done_datagram r @ replicate 4076 0" by (simp add: buf_def l)
  ultimately show ?thesis by (cases "process_response env (nr_seq r) w") (simp_all add: netlink_event_def Let_def)
qed

lemma answer_head:
  assumes "channel w" and "nl_requests w = r # rs"
  shows "answer env r (Inr w) = Inr (w\<lparr>nl_requests := rs, rt_trace := rt_trace w @ map Rt_send (take 1 rs)\<rparr>)"
  using assms
  by (simp add: answer_def done_event process_response_def find_rtnl_request_def Let_def send_rtnl_request_def rt_ask_def rt_tell_def
      split: list.splits)

lemma answers:
  "channel w \<Longrightarrow> nl_requests w = rs \<Longrightarrow>
     fold (answer env) rs (Inr w) = Inr (w\<lparr>nl_requests := [], rt_trace := rt_trace w @ map Rt_send (tl rs)\<rparr>)"
proof (induction rs arbitrary: w)
  case (Cons r rs)
  then show ?case using answer_head [of w r rs env] Cons.IH [of "w\<lparr>nl_requests := rs, rt_trace := rt_trace w @ map Rt_send (take 1 rs)\<rparr>"]
    by (cases rs) simp_all
qed simp

text \<open>What the start asks for.\<close>

definition start_requests :: "u32 \<Rightarrow> rtnl_request list" where
  "start_requests s = [\<lparr>nr_type = RTM_GETLINK, nr_seq = s\<rparr>, \<lparr>nr_type = RTM_GETADDR, nr_seq = s + 1\<rparr>, \<lparr>nr_type = RTM_GETROUTE, nr_seq = s + 2\<rparr>]"

lemma sent_requests: "sent (map Rt_send rs) = rs"
  by (induction rs) (simp_all add: sent_def)

lemma start_queues:
  assumes "channel w" and "nl_requests w = []" and "\<forall>n. 0 \<le> re_result env n Rt_alloc"
  shows "succeeds (rtnl_start env w) (\<lambda>w1. channel w1 \<and> nl_requests w1 = start_requests (request_seq w) \<and>
    sent (rt_trace w1) = sent (rt_trace w) @ take 1 (start_requests (request_seq w)))"
proof -
  have "\<not> re_result env n Rt_alloc < 0" for n using assms(3) by (simp add: not_less)
  then show ?thesis using assms(1,2)
    by (simp add: rtnl_start_def send_getlink_def send_getaddr_def send_getroute_def new_request_def queue_request_def send_rtnl_request_def
        rt_ask_def rt_tell_def Let_def sent_append start_requests_def) (simp add: sent_def)
qed

text \<open>
  C24. Requests go to the kernel one at a time and in the order in which they were made: the three requests of the start (links,
  addresses, routes) are queued with consecutive sequence numbers and only the first is sent; when the kernel ends each answer in turn, the others are
  sent, each exactly once, and the queue is empty at the end.
\<close>

theorem requests_answered_in_order:
  assumes "channel w" and "nl_requests w = []" and "\<forall>n. 0 \<le> re_result env n Rt_alloc" and "rs = start_requests (request_seq w)"
  shows "\<exists>w1 w2. rtnl_start env w = Inr w1 \<and> nl_requests w1 = rs \<and> sent (rt_trace w1) = sent (rt_trace w) @ take 1 rs \<and>
     fold (answer env) rs (Inr w1) = Inr w2 \<and> nl_requests w2 = [] \<and> sent (rt_trace w2) = sent (rt_trace w) @ rs"
proof -
  obtain w1 where w1: "rtnl_start env w = Inr w1" "channel w1" "nl_requests w1 = rs" "sent (rt_trace w1) = sent (rt_trace w) @ take 1 rs"
    using start_queues [OF assms(1-3)] assms(4) by (auto simp: succeeds_def)
  then have "sent (rt_trace w1 @ map Rt_send (tl rs)) = sent (rt_trace w) @ rs"
    using assms(4) by (simp add: sent_append sent_requests start_requests_def del: list.map)
  then show ?thesis using w1 answers [OF w1(2,3), of env] by auto
qed

text \<open>A system for examples: allocations and timers work, addresses are shown by their number of bytes.\<close>

definition ex_rt_env :: rt_env where
  "ex_rt_env = \<lparr>re_ip = ex_ip_env, re_result = (\<lambda>n c. 1), re_lines = (\<lambda>n f. None), re_wext = (\<lambda>n s. False), re_ifname = (\<lambda>n i. Some ''eth0''),
     re_inet_ntop = (\<lambda>a. if length a = 4 then Some ''192.0.2.1'' else Some ''2001:db8::1''),
     re_insert_module = (\<lambda>m ms. m # ms), re_insert_interval = insort\<rparr>"

definition ex_rt :: rt_world where "ex_rt = snd (rtnl_init ex_rt_env rt_boot)"

lemma ex_rt_boot: "fst (rtnl_init ex_rt_env rt_boot) = 0" "channel ex_rt" "nl_requests ex_rt = []" "request_seq ex_rt = 0"
  by (simp_all add: ex_rt_def rtnl_init_def rt_ask_def rt_tell_def ex_rt_env_def rt_boot_def)

lemma ex_rt_system: "rt_system ex_rt_env"
  by (simp add: rt_system_def ex_rt_env_def)

theorem requests_answered_in_order_witness:
  "\<exists>w1 w2. rtnl_start ex_rt_env ex_rt = Inr w1 \<and> nl_requests w1 = start_requests 0 \<and>
     fold (answer ex_rt_env) (start_requests 0) (Inr w1) = Inr w2 \<and> nl_requests w2 = [] \<and>
     sent (rt_trace w2) = sent (rt_trace ex_rt) @ start_requests 0"
  using requests_answered_in_order [of ex_rt ex_rt_env "start_requests 0"] ex_rt_boot by (auto simp: ex_rt_env_def)

section \<open>A datagram of well-formed messages\<close>

lemma datagram_event:
  assumes "\<forall>m \<in> set ms. msg_valid env m" and "ms \<noteq> []" and "length (concat (map enc_msg ms)) \<le> 4096"
  shows "netlink_event env False (Nl_data (concat (map enc_msg ms)) 0) w =
    bind_r (fold (\<lambda>m r. bind_r r (msg_effect env m)) ms (Inr w)) (\<lambda>w1. Inr (True, w1))"
proof -
  let ?bs = "concat (map enc_msg ms)"
  obtain m ns where m: "ms = m # ns" using assms(2) by (cases ms) auto
  then have "enc_msg m \<noteq> []" using nl.sizes [of env m] assms(1) by auto
  then have ne: "?bs \<noteq> []" using m by simp
  have "take 4096 (?bs @ replicate 4096 0) = [] @ ?bs @ replicate (4096 - length ?bs) 0" using assms(3) by simp
  from nl.datagram_effects [OF assms(1) this, of w] show ?thesis
    using ne assms(3) by (simp add: netlink_event_def Let_def min_absorb1 del: append_Nil take_append concat_eq_Nil_conv)
qed

text \<open>
  C23. A datagram with messages about addresses and about unicast routes of the kernel, with their attributes in any order and with
  attributes of other types between them, has the effects of these messages, one after the other in their order: the address or the
  route that the attributes describe (the last of a type counts; an absent address is zero, an absent interface of a route is -1) reaches the interface configurations, link-local IPv6 addresses and other families are
  skipped, and the modules hear of the gateway of a default route.
\<close>

theorem datagram_has_effects:
  assumes "\<forall>m \<in> set ms. msg_valid env m" and "ms \<noteq> []" and "length (concat (map enc_msg ms)) \<le> 4096"
  shows "netlink_event env False (Nl_data (concat (map enc_msg ms)) 0) w =
    bind_r (fold (\<lambda>m r. bind_r r (msg_effect env m)) ms (Inr w)) (\<lambda>w1. Inr (True, w1))"
  using assms by (rule datagram_event)

definition ex_messages :: "nl_msg list" where
  "ex_messages =
     [Addr_msg True 1 2 24 2 [(IFA_ADDRESS, [192, 0, 2, 1]), (IFA_LOCAL, [192, 0, 2, 1])],
      Route_msg True 1 2 0 [(RTA_GATEWAY, [192, 0, 2, 254]), (RTA_OIF, [2, 0, 0, 0])]]"

lemma ex_messages_valid: "\<forall>m \<in> set ex_messages. msg_valid ex_rt_env m" "ex_messages \<noteq> []" "length (concat (map enc_msg ex_messages)) \<le> 4096"
proof -
  show "\<forall>m \<in> set ex_messages. msg_valid ex_rt_env m"
    by (simp add: ex_messages_def attr_sizes_def attr_ok_def enc_attrs_def enc_attr_def attr_pad_def family_bytes_def AF_INET_def IFA_LOCAL_def IFA_ADDRESS_def
        RTA_DST_def RTA_GATEWAY_def RTA_OIF_def ex_rt_env_def)
  show "ex_messages \<noteq> []" "length (concat (map enc_msg ex_messages)) \<le> 4096"
    by (simp_all add: ex_messages_def enc_attrs_def enc_attr_def attr_pad_def)
qed

theorem datagram_has_effects_witness:
  "netlink_event ex_rt_env False (Nl_data (concat (map enc_msg ex_messages)) 0) ex_rt =
    bind_r (fold (\<lambda>m r. bind_r r (msg_effect ex_rt_env m)) ex_messages (Inr ex_rt)) (\<lambda>w1. Inr (True, w1))"
  by (rule datagram_has_effects [OF ex_messages_valid])

section \<open>Any events\<close>

text \<open>
  C22. From a successful start until the cleanup, whatever datagrams arrive, and however the timer, the calls of modules, watches and sessions and
  the uses of configurations by their holders come between them, as long as no holder enables (or loads) a configuration without its
  callbacks or while it is on the list and not in use by the device of its interface: the component stops with a read outside of the receive buffer, of a null
  pointer or of uninitialised memory, or every interface configuration is still counted by its references and the table of interfaces
  has one entry for an index, with that index in it. In particular no message makes it use a configuration that was freed. The code does not
  check the condition on enabling: \<open>rt_run\<close> leaves out the calls that violate it, and without it a link message can read a freed configuration (\<open>enabled_again_dangles\<close>).
\<close>

theorem netlink_run_safe:
  assumes "rt_system env" and "fst (rtnl_init env rt_boot) = 0"
  shows "case rt_run env es (\<lambda>p. 0, snd (rtnl_init env rt_boot)) of
      Inl f \<Rightarrow> f \<in> {OutOfBounds, NullDeref, Uninitialised}
    | Inr (held, w) \<Rightarrow> ip_wf held (rt_ip w) \<and>
        (\<exists>h. interface_list w = Some h \<and> distinct (map fst h) \<and> (\<forall>x \<in> set h. if_index (snd x) = fst x))"
  using run_outcomes(1) [OF assms, of es]
  by (auto simp: ends_def rt_inv_def interfaces_ok_def split: sum.splits option.splits)

text \<open>A link, a configuration for it, its address and route, as the kernel and a service make them, with two intervals.\<close>

definition ex_before :: "rt_event list" where
  "ex_before = [Start, Interval_add 30, Configuration (ex_link 2), Configuration (Create 2 TYPE_IPV4), Interval_add 10]"

definition ex_rt_events :: "rt_event list" where
  "ex_rt_events = ex_before @ [Datagram False (Nl_data (concat (map enc_msg ex_messages)) 0), Interval_remove 10]"

lemma rt_run_append: "rt_run env (es @ fs) s = bind_r (rt_run env es s) (rt_run env fs)"
proof (induction es arbitrary: s)
  case (Cons e es)
  then show ?case by (cases "rt_handle env e s") simp_all
qed simp

lemma ex_rt_run: "\<not> isl (rt_run ex_rt_env ex_rt_events (\<lambda>p. 0, ex_rt))"
proof -
  have "\<not> isl (bind_r (rt_run ex_rt_env ex_before (\<lambda>p. 0, ex_rt)) (\<lambda>x.
      bind_r (fold (\<lambda>m r. bind_r r (msg_effect ex_rt_env m)) ex_messages (Inr (snd x))) (\<lambda>w.
      rt_run ex_rt_env [Interval_remove 10] (fst x, w))))" by code_simp
  then show ?thesis unfolding ex_rt_events_def rt_run_append
    by (cases "rt_run ex_rt_env ex_before (\<lambda>p. 0, ex_rt)")
      (auto simp: holding_def datagram_event [OF ex_messages_valid] bind_r_def split: sum.splits)
qed

theorem netlink_run_safe_witness:
  "\<exists>held w. rt_run ex_rt_env ex_rt_events (\<lambda>p. 0, ex_rt) = Inr (held, w) \<and> ip_wf held (rt_ip w)"
  using netlink_run_safe [OF ex_rt_system ex_rt_boot(1), of ex_rt_events] ex_rt_run
  by (auto simp: ex_rt_def split: sum.splits prod.splits)

text \<open>The intervals that the events ask for and do not give back, in their order. An interval of zero is no request.\<close>

definition outstanding :: "rt_event list \<Rightarrow> u32 list" where
  "outstanding es = fold (\<lambda>e is. case e of
       Interval_add i \<Rightarrow> if i = 0 then is else insort i is
     | Interval_remove i \<Rightarrow> remove1 i is
     | _ \<Rightarrow> is) es []"

lemma asked_outstanding:
  assumes "\<forall>i. Interval_add i \<in> set es \<longrightarrow> i < 2 ^ 31"
  shows "fold asked_after es (Some []) = Some (outstanding es)"
proof -
  have "fold asked_after es (Some is) = Some (fold (\<lambda>e is. case e of
       Interval_add i \<Rightarrow> if i = 0 then is else insort i is | Interval_remove i \<Rightarrow> remove1 i is | _ \<Rightarrow> is) es is)" for "is"
    using assms
  proof (induction es arbitrary: "is")
    case (Cons e es)
    then show ?case by (cases e) (simp_all add: asked_add_def)
  qed simp
  then show ?thesis by (simp add: outstanding_def)
qed

text \<open>
  C25. In every state that the events lead to (with the configurations enabled as above): when requests are waiting, the first of them is the
  one that was sent last, so that at most one request is outstanding. And if every interval that is asked for is below \<open>2 ^ 31\<close>, the list
  of intervals holds exactly those that were asked for and not given back, in their order; the update interval is the least of
  them (the largest number when there is none); and there is exactly one timer in the main loop, with this interval, or none when there
  is no interval. (The comparison of the code does not order larger intervals.)
\<close>

theorem netlink_bookkeeping:
  assumes "rt_system env" and "fst (rtnl_init env rt_boot) = 0" and "rt_run env es (\<lambda>p. 0, snd (rtnl_init env rt_boot)) = Inr (held, w)"
  shows "(nl_requests w \<noteq> [] \<longrightarrow> sent (rt_trace w) \<noteq> [] \<and> last (sent (rt_trace w)) = hd (nl_requests w)) \<and>
    ((\<forall>i. Interval_add i \<in> set es \<longrightarrow> i < 2 ^ 31) \<longrightarrow>
       update_list w = outstanding es \<and>
       update_interval w = (if outstanding es = [] then - 1 else Min (set (outstanding es))) \<and>
       rt_timers env (rt_trace w) = (if outstanding es = [] then [] else [(update_timeout w, update_interval w)]))"
proof -
  have i: "queue_ok w" "interval_ok env (fold asked_after es (Some [])) w" using run_outcomes(1) [OF assms(1,2), of es] assms(3) by (simp_all add: rt_inv_def)
  have min: "Min (set is) = least_interval is" if "is \<noteq> []" "sorted is" for "is"
    using that least_sorted [of "is"] by (intro Min_eqI) (auto simp: least_interval_def split: list.splits)
  have "update_list w = outstanding es \<and> update_interval w = (if outstanding es = [] then - 1 else Min (set (outstanding es))) \<and>
       rt_timers env (rt_trace w) = (if outstanding es = [] then [] else [(update_timeout w, update_interval w)])"
    if "\<forall>i. Interval_add i \<in> set es \<longrightarrow> i < 2 ^ 31"
    using i(2) min [of "outstanding es"] unfolding asked_outstanding [OF that] by (auto simp: interval_ok_def least_interval_def)
  then show ?thesis using i(1) by (auto simp: queue_ok_def split: list.splits)
qed

theorem netlink_bookkeeping_witness:
  "\<exists>held w. rt_run ex_rt_env ex_rt_events (\<lambda>p. 0, ex_rt) = Inr (held, w) \<and>
     update_list w = [30] \<and> update_interval w = 30 \<and> rt_timers ex_rt_env (rt_trace w) = [(update_timeout w, 30)]"
proof -
  obtain held w where r: "rt_run ex_rt_env ex_rt_events (\<lambda>p. 0, ex_rt) = Inr (held, w)"
    using ex_rt_run by (cases "rt_run ex_rt_env ex_rt_events (\<lambda>p. 0, ex_rt)") auto
  have o: "outstanding ex_rt_events = [30]" by (simp add: outstanding_def ex_rt_events_def ex_before_def)
  have "\<forall>i. Interval_add i \<in> set ex_rt_events \<longrightarrow> i < 2 ^ 31" by (auto simp: ex_rt_events_def ex_before_def)
  with netlink_bookkeeping [OF ex_rt_system ex_rt_boot(1), of ex_rt_events held w] r show ?thesis by (simp add: ex_rt_def o)
qed

section \<open>The receive buffer\<close>

text \<open>
  C26. As long as every datagram leaves 108 of the 4096 bytes of the buffer free and has no message about the options of a router
  advertisement, nothing is read outside the buffer, whatever the lengths of the messages and attributes say.
\<close>

theorem small_datagrams_in_bounds:
  assumes "rt_system env" and "fst (rtnl_init env rt_boot) = 0" and "\<forall>e \<in> set es. roomy_event e"
  shows "rt_run env es (\<lambda>p. 0, snd (rtnl_init env rt_boot)) \<noteq> Inl OutOfBounds"
  using run_outcomes(2) [OF assms] by (auto simp: ends_def)

lemma message_types_encoded:
  assumes "\<forall>m \<in> set ms. msg_valid env m" and "buf = pre @ concat (map enc_msg ms) @ rest"
  shows "message_types (length pre) (length (concat (map enc_msg ms))) buf = map msg_kind ms"
  using assms
proof (induction ms arbitrary: pre)
  case Nil
  then show ?case by (simp add: message_types.simps)
next
  case (Cons m ms)
  have v: "msg_valid env m" using Cons.prems(1) by simp
  obtain body where body: "enc_msg m = bytes32 (of_nat (length (enc_msg m))) @ bytes16 (msg_kind m) @ body" using nl.header [OF v] by blast
  let ?n = "length (enc_msg m)" and ?r = "concat (map enc_msg ms)"
  have n: "16 \<le> ?n" "unat (of_nat ?n :: u32) = ?n" using nl.sizes [OF v] by (simp_all add: unsigned_of_nat take_bit_nat_eq_self)
  have b: "buf = pre @ enc_msg m @ ?r @ rest" using Cons.prems(2) by simp
  have bb: "buf = pre @ bytes32 (of_nat ?n) @ bytes16 (msg_kind m) @ body @ ?r @ rest" using b by (subst (asm) body) simp
  have u: "nl_u32 buf (length pre) = Inr (of_nat ?n)" using bb by (rule nl_u32_at) simp
  have k: "nl_u16 buf (length pre + 4) = Inr (msg_kind m)"
    using bb by (intro nl_u16_at [of _ "pre @ bytes32 (of_nat ?n)"]) simp_all
  have "message_types (length (pre @ enc_msg m)) (length ?r) buf = map msg_kind ms"
    by (rule Cons.IH) (use Cons.prems in simp_all)
  then show ?case using n u k by (simp add: message_types.simps [of "length pre"])
qed

lemma ex_roomy_event: "\<forall>e \<in> set ex_rt_events. roomy_event e"
proof -
  let ?bs = "concat (map enc_msg ex_messages)"
  have l: "length ?bs \<le> 3988" by (simp add: ex_messages_def enc_attrs_def enc_attr_def attr_pad_def)
  have "datagram_buf ?bs = [] @ ?bs @ replicate (4096 - length ?bs) 0" using l by (simp add: datagram_buf_def)
  from message_types_encoded [OF ex_messages_valid(1) this]
  have "message_types 0 (length ?bs) (datagram_buf ?bs) = map msg_kind ex_messages" by (simp only: list.size)
  moreover have "RTM_NEWNDUSEROPT \<notin> set (map msg_kind ex_messages)" by code_simp
  ultimately have "roomy_event (Datagram False (Nl_data ?bs 0))" using l by (simp only: roomy_event.simps simp_thms)
  then show ?thesis by (simp add: ex_rt_events_def ex_before_def del: roomy_event.simps(1))
qed

theorem small_datagrams_in_bounds_witness:
  "rt_run ex_rt_env ex_rt_events (\<lambda>p. 0, ex_rt) \<noteq> Inl OutOfBounds"
  using small_datagrams_in_bounds [OF ex_rt_system ex_rt_boot(1) ex_roomy_event] by (simp add: ex_rt_def)

text \<open>A message about a link with one attribute that fills the buffer.\<close>

definition full_link :: "bool \<Rightarrow> u32 \<Rightarrow> u16 \<Rightarrow> u32 \<Rightarrow> u32 \<Rightarrow> u32 \<Rightarrow> u16 \<Rightarrow> u8 list \<Rightarrow> u8 list" where
  "full_link new seq type index flags change t data =
     enc_message (if new then RTM_NEWLINK else RTM_DELLINK) seq
       ([0, 0] @ bytes16 type @ bytes32 index @ bytes32 flags @ bytes32 change @ enc_attr (t, data))"

lemma link_attr_large:
  assumes "buf = pre @ enc_attr (t, data) @ rest" and "92 \<le> length data"
  shows "\<exists>li'. link_attr all buf t (length pre + 4) li = Inr li'"
  using attr_data [OF assms(1)] assms(2) by (simp add: link_attr_def nl_u32_def nl_u8_def link_stats_size_def)

lemma extract_full_link:
  assumes "buf = pre @ enc_attr (t, data)" and "length data = 4060" and "length pre = msg + 16"
  shows "extract_link all buf msg 4072 = Inl OutOfBounds"
proof -
  let ?li = "\<lparr>li_address = replicate 6 0, li_ifname = None, li_mtu = 0, li_operstate = 0xff, li_stats = no_stats\<rparr>"
  have b: "buf = pre @ enc_attr (t, data) @ []" using assms(1) by simp
  have n: "length (enc_attr (t, data)) = 4064" using assms(2) by (simp add: length_enc_attr attr_pad_def)
  obtain li where "link_attr all buf t (length pre + 4) ?li = Inr li" using link_attr_large [OF b] assms(2) by fastforce
  then have "attr_loop (link_attr all buf) buf (length pre) 4072 ?li = attr_loop (link_attr all buf) buf (length buf) 8 li"
    using attr_loop_step [OF b, of 4072 "link_attr all buf" ?li li] assms(1,2) n by (simp add: attr_ok_def)
  also have "\<dots> = Inl OutOfBounds" by (simp add: attr_loop.simps [of _ _ "length buf"] nl_u16_def nl_bytes_def)
  finally show ?thesis by (simp add: extract_link_def assms(3))
qed

text \<open>
  C39. The bound is needed: the handlers of link messages count the attributes with the macro for addresses, whose header is 8 bytes shorter, and
  look for an attribute behind the message. A message about a new or a removed link that fills the buffer (one attribute of any type
  with 4060 bytes) makes the component read outside the buffer, in every state.
\<close>

theorem full_link_message_over_read:
  assumes "length data = 4060"
  shows "length (full_link new seq type index flags change t data) = 4096 \<and>
    netlink_event env False (Nl_data (full_link new seq type index flags change t data) 0) w = Inl OutOfBounds"
proof -
  define buf where "buf = full_link new seq type index flags change t data"
  let ?k = "if new then RTM_NEWLINK else RTM_DELLINK"
  let ?h = "bytes32 4096 @ bytes16 ?k @ bytes16 0 @ bytes32 seq @ bytes32 0"
  have b: "buf = (?h @ [0, 0] @ bytes16 type @ bytes32 index @ bytes32 flags @ bytes32 change) @ enc_attr (t, data)"
    using assms by (simp add: buf_def full_link_def enc_message_def length_enc_attr attr_pad_def)
  have l: "length buf = 4096" using assms by (simp add: b length_enc_attr attr_pad_def)
  have r: "nl_u32 buf 0 = Inr 4096" "nl_u16 buf 4 = Inr ?k" "nl_u16 buf 18 = Inr type" "nl_u32 buf 20 = Inr index" "nl_u32 buf 24 = Inr flags" "nl_u32 buf 28 = Inr change"
    by (rule nl_u32_at [of _ "[]"], simp add: b, simp, rule nl_u16_at [of _ "bytes32 4096"], simp add: b, simp,
        rule nl_u16_at [of _ "?h @ [0, 0]"], simp add: b, simp, rule nl_u32_at [of _ "?h @ [0, 0] @ bytes16 type"], simp add: b, simp,
        rule nl_u32_at [of _ "?h @ [0, 0] @ bytes16 type @ bytes32 index"], simp add: b, simp,
        rule nl_u32_at [of _ "?h @ [0, 0] @ bytes16 type @ bytes32 index @ bytes32 flags"], simp add: b, simp)
  have x: "extract_link all buf 16 4072 = Inl OutOfBounds" for all by (rule extract_full_link [OF b assms]) simp
  have p: "ifa_payload 4096 = 4072" by (simp add: ifa_payload_def)
  have "handle_one env ?k 0 buf w = Inl OutOfBounds"
    by (simp add: handle_one_def rtnl_newlink_def rtnl_dellink_def link_message_def r p process_newlink_def process_dellink_def x
        NLMSG_NOOP_def NLMSG_OVERRUN_def NLMSG_DONE_def NLMSG_ERROR_def RTM_NEWLINK_def RTM_DELLINK_def)
  then have "rtnl_message env 0 4096 buf w = Inl OutOfBounds" using r by (simp add: rtnl_message.simps [of env 0])
  moreover have "buf \<noteq> []" using l by force
  ultimately show ?thesis using l unfolding buf_def [symmetric] by (simp add: netlink_event_def Let_def)
qed

theorem full_link_message_over_read_witness:
  "netlink_event ex_rt_env False (Nl_data (full_link True 1 1 2 0x10043 0 26 (replicate 4060 0)) 0) ex_rt = Inl OutOfBounds"
  using full_link_message_over_read [of "replicate 4060 0"] by simp

text \<open>
  The cleanup destroys the table of interfaces but leaves the pointer to it: every later question about an interface
  reads freed memory, until the component is started again.
\<close>

lemma cleanup_leaves_table:
  assumes "\<not> interface_freed w" and "interface_list w \<noteq> None"
  shows "\<exists>w'. rtnl_cleanup order w = Inr w' \<and> rtnl_get_device_type index w' = Inl UseAfterFree"
proof -
  have freed: "interface_freed (fold (\<lambda>x. free_interface (snd x)) xs v) = interface_freed v" for xs v
    by (induction xs arbitrary: v) (simp_all add: free_interface_def rt_tell_def)
  show ?thesis using assms by (auto simp: rtnl_cleanup_def Let_def rtnl_get_device_type_def interface_of_def freed)
qed

end
