(* ===== verification/Spec2Isabelle.thy ===== *)
theory Spec2Isabelle
  imports Dhcp_Exchange Stats_Properties Gateway_Properties Dns_Properties Resolver_State Ipconfig_Properties Rtnl_Properties
begin

text \<open>
  A verification library for ConnMan, the connection manager daemon.

  \<^bold>\<open>The program.\<close> ConnMan is a single threaded daemon over the GLib main loop. The core
  (\<^verbatim>\<open>src/\<close>) keeps services, networks, devices and technologies as D-Bus objects and reacts to
  netlink and D-Bus events; \<^verbatim>\<open>gdhcp/\<close> is its own DHCP client, DHCP server and link-local address
  configuration; \<^verbatim>\<open>gweb/\<close> and \<^verbatim>\<open>gsupplicant/\<close> are client libraries, \<^verbatim>\<open>plugins/\<close> connects
  external daemons. The parts that compute on their own data rather than pass messages on are the
  DHCP library, with which the daemon gets addresses for an interface and gives addresses out when
  it is tethering, the traffic statistics (\<^verbatim>\<open>src/stats.c\<close>), which it keeps on disk for every
  service, the events of the kernel (\<^verbatim>\<open>src/rtnl.c\<close>) with the interfaces and their configurations (\<^verbatim>\<open>src/ipconfig.c\<close>), the gateways (\<^verbatim>\<open>src/connection.c\<close>), from which it chooses the default route, and the resolver
  (\<^verbatim>\<open>src/resolver.c\<close>) with the DNS proxy (\<^verbatim>\<open>src/dnsproxy.c\<close>), through which programs on the machine look up names. This library models
  these parts; what it leaves out of them is named below.

  \<^bold>\<open>Theories and sources.\<close>
  \<^item> \<open>Prelude\<close>: integers at their C widths (words), reads and writes of C arrays with every undefined
    behaviour as a value of \<open>c_fault\<close> (out of bounds, null pointer, uninitialised, used after free, freed
    without allocation, division by zero, wrapped length, undefined shift), results \<open>'a result\<close> of code that may have such a
    fault, \<open>'a diverging\<close> of code that may also run forever; byte order of a little-endian host; the
    contracts \<open>byte_codec\<close> (a fixed width encoding and its inverse) and \<open>invariant_machine\<close> (a state machine
    whose steps keep an invariant).
  \<^item> \<open>Dhcp_Options\<close>: \<^verbatim>\<open>gdhcp/common.h\<close> and the packet part of \<^verbatim>\<open>gdhcp/common.c\<close>: \<open>dhcp_packet\<close> is
    \<open>struct dhcp_packet\<close>; \<open>dhcp_get_option\<close> with its overload handling, \<open>dhcp_end_option\<close>,
    \<open>dhcp_add_binary_option\<close>, \<open>dhcp_add_simple_option\<close>, \<open>dhcp_init_header\<close>, \<open>check_vendor\<close>. The area in front
    of the end marker is described by a list of \<open>opt_item\<close> (\<open>opts_rep\<close>).
  \<^item> \<open>Dhcp_Wire\<close>: the senders and receivers (\<open>dhcp_send_raw_packet\<close>, \<open>dhcp_send_kernel_packet\<close>,
    \<open>dhcp_recv_l3_packet\<close>, \<open>dhcp_recv_l2_packet\<close>), the packed layout of the IP, UDP and DHCP headers
    and \<open>dhcp_checksum\<close>.
  \<^item> \<open>Dhcp_Server\<close>: all of \<^verbatim>\<open>gdhcp/server.c\<close>. \<open>GDHCPServer\<close> holds the lease list in its order
    and the hash table from addresses to lease objects, with object identifiers for the pointers.
    \<open>Lease_Table\<close> has its invariant and the contract \<open>lease_table\<close>, \<open>Dhcp_Protocol\<close> the replies and the
    server as a machine over its packets and interface calls.
  \<^item> \<open>Ipv4ll\<close>: \<^verbatim>\<open>gdhcp/ipv4ll.c\<close>.
  \<^item> \<open>Dhcp_Client\<close>: \<^verbatim>\<open>gdhcp/client.c\<close>. \<open>GDHCPClient\<close> is the C struct; \<open>cl_world\<close> adds the sources
    of the main loop (timers and the socket watch, with their identifiers), the freed strings, and the trace of
    what the client sends and reports. \<open>Client_Protocol\<close> has the step relation over timers, received packets and
    interface calls, \<open>Client_Packets\<close> the bytes sent and the strings read, \<open>Client_Lease\<close> the life of a lease.
  \<^item> \<open>Dhcp_Exchange\<close>: client and server on one link, with the bytes each hears of what the other sends.
  \<^item> \<open>Stats\<close>: \<^verbatim>\<open>src/stats.c\<close>. \<open>stats_world\<close> holds names, inodes, their bytes and the open descriptors; a
    mapping is a view of the bytes of its inode. \<open>Stats_Ring\<close> relates files to lists of records,
    \<open>Stats_History\<close> specifies the history summary and proves the code against it, \<open>Stats_Safety\<close> drops all assumptions
    on file contents and system calls, \<open>Stats_Properties\<close> states the results.
  \<^item> \<open>Gateway\<close>: \<^verbatim>\<open>src/connection.c\<close>. \<open>gw_world\<close> holds the hash table from services to \<open>gateway_data\<close> objects, the
    objects and their \<open>gateway_config\<close>s on a heap in which freed memory is visible, the references taken on
    services, and the trace of calls to \<^verbatim>\<open>inet.c\<close> and \<^verbatim>\<open>service.c\<close>. \<open>Gateway_Table\<close> has the invariant and the operations that
    keep the table, \<open>Gateway_Operations\<close> those that change it, against a map from services to an interface
    and two gateways, \<open>Gateway_Properties\<close> the component as a state machine and the results.
  \<^item> \<open>Ipconfig\<close>, \<open>Ipconfig_Events\<close>, \<open>Ipconfig_Settings\<close>: \<^verbatim>\<open>src/ipconfig.c\<close>. \<open>ip_world\<close> holds the table of \<open>connman_ipdevice\<close>s by
    interface index, the \<open>connman_ipconfig\<close>s on a heap in which freed memory is visible, the list of those in use and the trace of
    writes to \<^verbatim>\<open>/proc\<close>, of calls to other components and of callbacks. \<open>Ipconfig\<close> has addresses, netmasks, the files of the kernel and the
    reference counts, \<open>Ipconfig_Events\<close> what the kernel reports and the use of a configuration, \<open>Ipconfig_Settings\<close> its fields, the
    dictionaries for D-Bus clients and the key file. \<open>Ipconfig_State\<close> has the invariant over the references that others
    hold (a ghost counter), \<open>Ipconfig_Machine\<close> every operation as a step, \<open>Ipconfig_Properties\<close> the results.
  \<^item> \<open>Rtnl\<close>, \<open>Rtnl_Messages\<close>: \<^verbatim>\<open>src/rtnl.c\<close>. \<open>rt_world\<close> holds the watches, modules, requests, update intervals and the table of
    \<open>interface_data\<close>, the state of the interface configurations as a field, and the trace of calls; a message is read from the bytes of the
    receive buffer. \<open>Rtnl_Format\<close> has the format of messages and attributes and the contract \<open>netlink_messages\<close>, from which a datagram has the effects of its messages;
    \<open>Rtnl_Machine\<close> runs any datagrams together with the calls of other components and the events of \<open>Ipconfig_Machine\<close>,
    \<open>Rtnl_Properties\<close> states the results.
  \<^item> \<open>Event_Loop\<close>: what the name resolution shares: buffers whose bytes may be uninitialised, calls to the system with a trace and
    their results as a parameter, the sources of the main loop.
  \<^item> \<open>Resolv_File\<close> and \<open>Resolver\<close>: \<^verbatim>\<open>src/resolver.c\<close>. \<open>Resolv_File\<close> is the part that writes \<^verbatim>\<open>/etc/resolv.conf\<close>, which the
    DNS proxy calls, too; \<open>Resolver\<close> keeps the entries of all interfaces and their timers and hands them on to the proxy or to
    the file. \<open>Resolver_State\<close> has the invariant, the state machine for the program without the proxy and its results.
  \<^item> \<open>Dnsproxy\<close>, \<open>Dns_Events\<close>, \<open>Dns_Listeners\<close>: \<^verbatim>\<open>src/dnsproxy.c\<close> in its order. \<open>dns_world\<close> holds \<open>server_data\<close>, \<open>request_data\<close> and
    \<open>listener_data\<close> objects on a heap and the lists of them; a handler gets the received bytes as an argument. \<open>Dns_Packets\<close>
    relates buffers to the format of queries and replies, \<open>Dns_Properties\<close> states the results.

  \<^bold>\<open>Interaction.\<close> Client and server share \<open>Dhcp_Options\<close> and \<open>Dhcp_Wire\<close>: both build packets by the same option
  functions and both search them by \<open>dhcp_get_option\<close>. The client uses \<open>Ipv4ll\<close> when no server answers. The
  main loop is explicit: a handler of the client may start, find and remove sources, and the step relation
  runs exactly the sources that are live. Handlers are called one after the other, as in the program. The resolver
  calls the DNS proxy, the DNS proxy calls the file part of the resolver, and a change of the default service, which the
  gateways report, enables and disables the servers of the proxy. A configuration hands its gateway to the gateway table.
  The netlink component hands every link, address and route on to the interface configurations, which it calls directly here, as the program does.

  \<^bold>\<open>Callbacks.\<close> The callbacks of a configuration (\<open>notify_loop\<close>, \<open>unlink_loop\<close>, \<open>enable_config\<close>) and those of modules and watches (\<open>modules_newlink\<close>,
  \<open>watches_newlink\<close>) are calls of the trace: what their owner does is not nested in the event but a step after it, so an owner that
  removes a configuration or a watch while the loop over the list runs is not covered. Of what \<^verbatim>\<open>service.c\<close> does when a service becomes
  ready, \<open>indicate_ready\<close> has the nested update of the gateways, the one call that comes back to \<^verbatim>\<open>connection.c\<close>. The callbacks of the
  DHCP client are functions on its world: they may stop it, start it again after a stop, configure it and use sources of their own (\<open>user_calls\<close>).

  \<^bold>\<open>Guards of the machines.\<close> Three state machines leave out calls that the code accepts, and the properties about them say so.
  \<open>permitted\<close> (and \<open>rt_permitted\<close>, which only hands on to it): configurations are used by holders of a reference, and enabled or loaded only
  with their callbacks set and not while they are on the list without being in use by the device of their interface; what happens otherwise is
  \<open>enabled_again_dangles\<close>. \<open>cl_step\<close>: a client is started only while no timer of it is live; otherwise \<open>second_start_loses_timer\<close>. The machine of the
  resolver runs without the DNS proxy; with it \<open>server_with_domain_remove_faults\<close>. The cleanup of the netlink component is not an event of its machine
  (\<open>cleanup_leaves_table\<close> says what it leaves).

  \<^bold>\<open>Parameters.\<close> What belongs to other programs or to the machine is an argument, in the records \<open>srv_env\<close>,
  \<open>cl_env\<close>, \<open>sys_results\<close>, \<open>stats_env\<close>, \<open>gw_env\<close>, \<open>ip_env\<close>, \<open>rt_env\<close> and \<open>os_env\<close>: the clock, results of system calls, the random generator of
  the C library, new source identifiers, the callbacks of the user, the calendar functions of GLib, the page
  size. What the proofs rely on is a named hypothesis: \<open>env_ok\<close> (a list insertion of GLib
  places one element), \<open>ids_fresh\<close> (source identifiers are not reused while live), \<open>client_ok\<close>, \<open>senv_ok\<close>, \<open>iter_ok\<close> (a
  traversal of a hash table visits every entry once), \<open>timers_ok\<close> (identifiers of sources are positive and not reused), \<open>rt_system\<close> (a timer has a positive identifier, a sorted insertion by the comparison of the code inserts in the order of the intervals below \<open>2 ^ 31\<close>) and the like;
  every theorem that has one is also applied to a concrete environment.

  \<^bold>\<open>Loops.\<close> Loops that end are total functions with a measure (\<open>end_option_loop\<close>, \<open>fold_sum\<close>,
  \<open>option_value_loop\<close>, \<open>mask_bits\<close>, \<open>attr_loop\<close>, \<open>rtnl_message\<close>, \<open>nd_loop\<close>, \<open>dnssl_scan\<close>, \<open>free_domains_loop\<close>, \<open>hangup_loop\<close>; \<open>unref_config\<close> and \<open>disable_config\<close>, which call each other). Loops that may run forever are partial functions into \<^typ>\<open>'a option\<close>, where \<^const>\<open>None\<close> is the
  run that does not end; there is no fuel. For each of them it is proved when it ends: \<open>get_option_loop\<close> (ends
  unless two areas overload each other, and then it does not), \<open>free_nip_loop\<close> (ends for every range that does
  not contain the last address), \<open>process_loop\<close> and \<open>skip_older\<close> (end for aligned files, and do not for others).

  \<^bold>\<open>What is proved.\<close>
  \<^item> Options: appended options are found again with their value, and no search or append leaves its field;
    termination of the search is characterised.
  \<^item> Wire: a sent packet is received unchanged over the raw socket; the checksum is the Internet checksum.
  \<^item> Server: in every reachable state, under every sequence of packets, clock values and calls, an address has one lease
    and a client has one lease, and list and hash agree; the expiry order is kept; each message has a
    reply (no fault, no endless loop); offers are not held by another client; a request gets an acknowledgement, a refusal or
    no answer as the lease of the client says; the search for an address is complete.
  \<^item> Client: at most one timer and one watch are live at any time (when it is started only while it has no timer); a start sends a discover, an offer is requested,
    an acknowledgement binds the lease; an unanswered lease of a client without a last address is renewed, rebound, reported lost within its
    lease time, and the client starts again; values of options are in bounds.
  \<^item> Client and server together: from the start of the client the four messages of the protocol, as bytes on the
    wire, end with the same lease on both sides.
  \<^item> Statistics: an update of a file refines an update of a list of records with a home and a roaming record; when the
    ring is full the old records are folded into the history as the list specification says; no contents of
    a file and no failing system call make a write leave the mapping; a registered file reads back what was stored.
  \<^item> Gateways: in every reachable state the table is well formed, nothing dangles and nothing is leaked; the calls that
    fault are characterised exactly; additions and removals refine updates of a map; an update picks a gateway of
    the highest order, and the calls that move the routes to it are exact; the cleanup frees everything.
  \<^item> Interface configurations: in every reachable state the reference counts are exact, nothing dangles, nothing is leaked and
    nothing faults, under one condition on the callers that is shown to be needed; netmasks and static configurations survive
    their round trips; the gateway of a configuration ends in the gateway table as specified.
  \<^item> Netlink: no datagram, whatever its bytes, and no interleaving with the users of configurations (under the same condition) breaks the reference counts or makes
    the component use freed memory; a datagram of well-formed messages has their effects in order; requests go out one
    at a time and in order; the intervals in the list are those asked for and not given back, and the least one has exactly one timer (below \<open>2 ^ 31\<close>); reads stay in the
    buffer when it has room, and leave it for a link message that fills it.
  \<^item> Resolver, without the proxy: in every reachable state entries and timers agree, every line of the file belongs to an entry (not the other way round), and nothing faults; the file is the reference
    content (the newest six domains and three servers).
  \<^item> DNS proxy: the bytes of the queries that are sent for a request, with every domain, and of the reply that the client gets, with the
    domain cut out again; queries over UDP stay on the interface of the default service; identifiers do not collide; the parser is
    characterised for every well-formed query.
  \<^item> Where the code does not do what it means to, the theorem says what it does: an offer is not
    reserved, offers are ignored after a refusal, a restart uses freed memory, a ring that fills up loses its newest
    record, a history update leaves out one record, removing the gateways of a service one family at a time keeps
    them, a configuration that is enabled again is used after it was freed, replacing a configuration turns IPv6 off, a DNS reply with a short name or the removal of a server with a domain faults, and others.

  \<^bold>\<open>Not modelled.\<close> Debug output and log messages. The socket filter program and the interface ioctls of the
  client. In the core, the objects whose behaviour is D-Bus message passing (services, sessions, agents, the
  supplicant client, plugins), packet filtering (\<^verbatim>\<open>src/iptables.c\<close>) and the web client (\<^verbatim>\<open>gweb/\<close>). The state machine of the resolver is stated without the DNS proxy, since with the
  proxy the removal of a server with a domain already faults.
\<close>

section \<open>Properties that span components\<close>

text \<open>
  C1. Client and server agree on a lease. An idle client that is started on a link with a server that
  has an address \<open>y\<close> for it sends bytes that the server accepts as a discover; the server's answer is
  accepted by the client as an offer; the client's request is acknowledged; and the acknowledgement
  binds the client: no message faults or is dropped on the way. Both then hold the same lease: the client has the address
  \<open>y\<close> and the server's lease time (in the limits of the client), and the server's table maps the hardware address of the
  client to \<open>y\<close> until now plus the lease time.
\<close>

theorem lease_exchange_completes:
  assumes "client_ok (w_client w)" and "cl_retry_times (w_client w) = 0" and "cl_listen_mode (w_client w) = L_NONE"
    and "DHCP_MESSAGE_TYPE \<notin> set (cl_request_list (w_client w))"
    and "sockets_ok cenv" and "ids_fresh cenv" and "quiet cenv" and "arg \<noteq> OwnLastAddress" and "length stack = 628"
    and "lease_inv s" and "inserts_sorted (env_insert_sorted senv)" and "env_mem senv"
    and "mac = cl_mac_address (w_client w) @ replicate 10 0"
    and "offer_address senv s mac (find_lease_by_mac s mac) (wanted_address cenv arg) = ret_d y" and "admissible s y mac"
  shows "\<exists>w' s'. lease_exchange cenv senv stack arg w s w' s' \<and> cl_state (w_client w') = BOUND \<and>
    cl_assigned_ip (w_client w') = Some (get_ip y) \<and>
    cl_lease_seconds (w_client w') = max 10 (srv_lease_seconds s AND 0x0fffffff) \<and> lease_inv s' \<and>
    (\<exists>p. (p, \<lparr>lease_expire = env_now senv + uint (srv_lease_seconds s), lease_nip = y,
        lease_mac = cl_mac_address (w_client w)\<rparr>) \<in> table s')"
  using assms by (rule lease_exchange_binds)

theorem lease_exchange_completes_witness:
  "\<exists>w' s'. lease_exchange cex_env ex_env (replicate 628 0) (CallerStr ''192.168.55.2'') cex_world ex_server w' s' \<and>
    cl_state (w_client w') = BOUND \<and> cl_assigned_ip (w_client w') = Some (get_ip ex_nip) \<and>
    cl_lease_seconds (w_client w') = 28800 \<and> lease_inv s' \<and>
    (\<exists>p. (p, \<lparr>lease_expire = 29800, lease_nip = ex_nip, lease_mac = [2, 0, 0, 0, 0, 1]\<rparr>) \<in> table s')"
proof -
  have mac: "ex_mac = cl_mac_address (w_client cex_world) @ replicate 10 0"
    by (simp add: ex_mac_def cex_world_def cex_client_def g_dhcp_client_new_def numeral_eq_Suc)
  have find: "find_lease_by_mac ex_server ex_mac = None" by (simp add: find_lease_by_mac_def ex_server_def)
  have wanted: "wanted_address cex_env (CallerStr ''192.168.55.2'') = ex_nip"
    by (simp add: wanted_address_def cex_env_def ex_nip_def)
  have adm: "admissible ex_server ex_nip ex_mac"
    by (simp add: admissible_def ex_server_def ex_nip_def ex_mac_def ex_htonl ETH_ALEN_def mac_constants)
  have "quiet cex_env" "env_mem ex_env" by (simp_all add: quiet_def cex_env_def ex_env_def)
  moreover have "client_ok (w_client cex_world)" "cl_retry_times (w_client cex_world) = 0" "cl_listen_mode (w_client cex_world) = L_NONE"
      "DHCP_MESSAGE_TYPE \<notin> set (cl_request_list (w_client cex_world))" "cl_mac_address (w_client cex_world) = [2, 0, 0, 0, 0, 1]"
    by (simp_all add: cex_world_def cex_client_def g_dhcp_client_new_def client_ok_def)
  moreover have "srv_lease_seconds ex_server = 28800" "env_now ex_env = 1000" by (simp_all add: ex_server_def ex_env_def)
  ultimately show ?thesis
    using lease_exchange_completes [of cex_world cex_env "CallerStr ''192.168.55.2''" "replicate 628 0" ex_server ex_env ex_mac ex_nip]
      mac find wanted adm ex_offer_address by simp
qed

end
